(* ===== verification/Prelude.thy ===== *)
theory Prelude
  imports Complex_Main "HOL-Library.List_Lexorder" "HOL-Library.Char_ord"
begin

text \<open>
  Shared vocabulary of the development: the exceptions of the services as values, the state
  passing operations and their transactions, database tables as lists of rows, the few string
  and number operations of the language the services rely on, and the interfaces (locales) that
  several components implement.
\<close>

named_theorems op_simps \<open>unfolding of the operation combinators\<close>
named_theorems table_simps \<open>facts about table updates\<close>

subsection \<open>Exceptions and results\<close>

text \<open>
  The NestJS exceptions the services throw, the plain \<open>Error\<close>, and database errors, which carry
  an SQLSTATE code.
\<close>

datatype exn =
    NotFound string
  | Conflict string
  | BadRequest string
  | Forbidden string
  | Unauthorized string
  | ServiceUnavailable string
  | PlainError string
  | DbError string

type_synonym 'a result = "exn + 'a"

text \<open>
  An operation takes the database and returns an exception or a value together with the database
  it leaves behind. An exception does not undo anything by itself: only a transaction does.
\<close>

type_synonym ('s, 'a) operation = "'s \<Rightarrow> 'a result \<times> 's"

definition ret :: "'a \<Rightarrow> ('s, 'a) operation" where
  "ret x s = (Inr x, s)"

definition throw :: "exn \<Rightarrow> ('s, 'a) operation" where
  "throw e s = (Inl e, s)"

definition bind_op :: "('s, 'a) operation \<Rightarrow> ('a \<Rightarrow> ('s, 'b) operation) \<Rightarrow> ('s, 'b) operation" where
  "bind_op m f s = (case m s of (Inl e, s') \<Rightarrow> (Inl e, s') | (Inr x, s') \<Rightarrow> f x s')"

definition modify :: "('s \<Rightarrow> 's) \<Rightarrow> ('s, unit) operation" where
  "modify f s = (Inr (), f s)"

definition read_db :: "('s \<Rightarrow> 'a) \<Rightarrow> ('s, 'a) operation" where
  "read_db f s = (Inr (f s), s)"

definition guard_op :: "bool \<Rightarrow> exn \<Rightarrow> ('s, unit) operation" where
  "guard_op b e s = (if b then (Inr (), s) else (Inl e, s))"

text \<open>\<open>BEGIN \<dots> COMMIT\<close>, with \<open>ROLLBACK\<close> in the \<open>catch\<close> block: an exception restores the database.\<close>

definition transaction :: "('s, 'a) operation \<Rightarrow> ('s, 'a) operation" where
  "transaction body s = (case body s of (Inl e, _) \<Rightarrow> (Inl e, s) | (Inr x, s') \<Rightarrow> (Inr x, s'))"

text \<open>\<open>try { \<dots> } catch (error) { \<dots> }\<close> without a transaction: the state reached is kept.\<close>

definition catch_op :: "('s, 'a) operation \<Rightarrow> (exn \<Rightarrow> ('s, 'a) operation) \<Rightarrow> ('s, 'a) operation" where
  "catch_op m h s = (case m s of (Inl e, s') \<Rightarrow> h e s' | (Inr x, s') \<Rightarrow> (Inr x, s'))"

text \<open>\<open>for (const x of xs) await f(x)\<close>\<close>

fun for_each :: "('a \<Rightarrow> ('s, unit) operation) \<Rightarrow> 'a list \<Rightarrow> ('s, unit) operation" where
  "for_each f [] s = (Inr (), s)"
| "for_each f (x # xs) s =
     (case f x s of (Inl e, s') \<Rightarrow> (Inl e, s') | (Inr _, s') \<Rightarrow> for_each f xs s')"

text \<open>\<open>for (const x of xs) results.push(await f(x))\<close>\<close>

fun map_op :: "('a \<Rightarrow> ('s, 'b) operation) \<Rightarrow> 'a list \<Rightarrow> ('s, 'b list) operation" where
  "map_op f [] s = (Inr [], s)"
| "map_op f (x # xs) s =
     (case f x s of
        (Inl e, s') \<Rightarrow> (Inl e, s')
      | (Inr y, s') \<Rightarrow> (case map_op f xs s' of
                          (Inl e, s'') \<Rightarrow> (Inl e, s'')
                        | (Inr ys, s'') \<Rightarrow> (Inr (y # ys), s'')))"

text \<open>\<open>x ?? d\<close>\<close>

definition with_default :: "'a option \<Rightarrow> 'a \<Rightarrow> 'a" where
  "with_default x d = (case x of None \<Rightarrow> d | Some v \<Rightarrow> v)"

text \<open>
  A statement that leaves the state \<open>t\<close>, with the constraints of its tables: the parameter \<open>violation\<close> gives the SQLSTATE of one that would not hold.
\<close>

definition constrained :: "('s \<Rightarrow> string option) \<Rightarrow> 'a \<Rightarrow> 's \<Rightarrow> ('s, 'a) operation" where
  "constrained violation x t s = (case violation t of Some code \<Rightarrow> (Inl (DbError code), s) | None \<Rightarrow> (Inr x, t))"

lemma constrained_result: "constrained violation x t s = (r, s') \<Longrightarrow> s' = s \<and> (\<exists>e. r = Inl e) \<or> s' = t \<and> r = Inr x"
  by (auto simp: constrained_def split: option.splits)

declare ret_def [op_simps] throw_def [op_simps] bind_op_def [op_simps] modify_def [op_simps]
  read_db_def [op_simps] guard_op_def [op_simps]

lemma transaction_error: "transaction body s = (Inl e, s') \<Longrightarrow> s' = s"
  by (auto simp: transaction_def split: prod.splits sum.splits)

lemma transaction_Inr:
  "transaction body s = (Inr x, s') \<longleftrightarrow> body s = (Inr x, s')"
  by (auto simp: transaction_def split: prod.splits sum.splits)

lemma transaction_Inl:
  "transaction body s = (Inl e, s') \<longleftrightarrow> (s' = s \<and> (\<exists>t. body s = (Inl e, t)))"
  by (auto simp: transaction_def split: prod.splits sum.splits)

lemma bind_op_Inr:
  "bind_op m f s = (Inr y, s'') \<longleftrightarrow> (\<exists>x s'. m s = (Inr x, s') \<and> f x s' = (Inr y, s''))"
  by (auto simp: bind_op_def split: prod.splits sum.splits)

lemma bind_op_Inl:
  "bind_op m f s = (Inl e, s'') \<longleftrightarrow>
     m s = (Inl e, s'') \<or> (\<exists>x s'. m s = (Inr x, s') \<and> f x s' = (Inl e, s''))"
  by (auto simp: bind_op_def split: prod.splits sum.splits)

lemma for_each_invariant:
  assumes "\<And>x s r s'. x \<in> set xs \<Longrightarrow> P s \<Longrightarrow> f x s = (r, s') \<Longrightarrow> P s'"
    and "P s" and "for_each f xs s = (r, s')"
  shows "P s'"
  using assms
proof (induction xs arbitrary: s)
  case Nil
  then show ?case by simp
next
  case (Cons x xs)
  obtain r1 s1 where f: "f x s = (r1, s1)" by fastforce
  with Cons.prems have P1: "P s1" by (meson list.set_intros(1))
  show ?case
  proof (cases r1)
    case (Inl e)
    with f P1 Cons.prems(3) show ?thesis by auto
  next
    case (Inr u)
    with f Cons.prems(3) have "for_each f xs s1 = (r, s')" by simp
    then show ?thesis using Cons.IH [OF _ P1] Cons.prems(1) by (meson list.set_intros(2))
  qed
qed

lemma map_op_invariant:
  assumes "\<And>x s r s'. x \<in> set xs \<Longrightarrow> P s \<Longrightarrow> f x s = (r, s') \<Longrightarrow> P s'"
    and "P s" and "map_op f xs s = (r, s')"
  shows "P s'"
  using assms
proof (induction xs arbitrary: s r s')
  case Nil
  then show ?case by simp
next
  case (Cons x xs)
  obtain r1 s1 where f: "f x s = (r1, s1)" by fastforce
  with Cons.prems have P1: "P s1" by (meson list.set_intros(1))
  show ?case
  proof (cases r1)
    case (Inl e)
    with f P1 Cons.prems(3) show ?thesis by auto
  next
    case (Inr u)
    obtain r2 s2 where m: "map_op f xs s1 = (r2, s2)" by fastforce
    have "P s2" using Cons.IH [OF _ P1 m] Cons.prems(1) by (meson list.set_intros(2))
    moreover have "s' = s2" using f Inr m Cons.prems(3) by (auto split: sum.splits)
    ultimately show ?thesis by simp
  qed
qed

lemma map_op_results:
  assumes "map_op f xs s = (r, s')"
    and "\<And>x s r s'. f x s = (r, s') \<Longrightarrow> R s s'" and "\<And>x s y s'. f x s = (Inr y, s') \<Longrightarrow> Q x y s'"
    and "\<And>s. R s s" and "\<And>s t u. R s t \<Longrightarrow> R t u \<Longrightarrow> R s u" and "\<And>x y s t. Q x y s \<Longrightarrow> R s t \<Longrightarrow> Q x y t"
  shows "R s s' \<and> (case r of Inl _ \<Rightarrow> True | Inr ys \<Rightarrow> list_all2 (\<lambda>x y. Q x y s') xs ys)"
  using assms(1)
proof (induction xs arbitrary: s r s')
  case Nil
  then show ?case using assms(4) by auto
next
  case (Cons x xs)
  obtain r1 s1 where f: "f x s = (r1, s1)" by fastforce
  show ?case
  proof (cases r1)
    case (Inl e)
    with f Cons.prems assms(2) show ?thesis by auto
  next
    case (Inr y)
    obtain r2 s2 where m: "map_op f xs s1 = (r2, s2)" by fastforce
    have a: "R s s1" using f by (rule assms(2))
    have b: "R s1 s2 \<and> (case r2 of Inl _ \<Rightarrow> True | Inr ys \<Rightarrow> list_all2 (\<lambda>x y. Q x y s2) xs ys)" using m by (rule Cons.IH)
    have "Q x y s2" using assms(6) [OF assms(3) [OF f [unfolded Inr]]] b by blast
    then show ?thesis using Cons.prems f Inr m b assms(5) [OF a] by (auto split: sum.splits)
  qed
qed

subsection \<open>Tables\<close>

text \<open>
  A table is the list of its rows in insertion order. \<open>UPDATE t SET f WHERE P\<close>,
  \<open>SELECT \<dots> WHERE P\<close>, \<open>INSERT\<close>, \<open>DELETE\<close>, \<open>count(*)\<close> and \<open>ORDER BY k LIMIT n\<close> over it. Ties of an
  \<open>ORDER BY\<close>, which PostgreSQL leaves open, keep insertion order.
\<close>

definition update_where :: "('r \<Rightarrow> bool) \<Rightarrow> ('r \<Rightarrow> 'r) \<Rightarrow> 'r list \<Rightarrow> 'r list" where
  "update_where P f t = map (\<lambda>r. if P r then f r else r) t"

definition insert_row :: "'r \<Rightarrow> 'r list \<Rightarrow> 'r list" where
  "insert_row r t = t @ [r]"

definition delete_where :: "('r \<Rightarrow> bool) \<Rightarrow> 'r list \<Rightarrow> 'r list" where
  "delete_where P t = filter (\<lambda>r. \<not> P r) t"

definition select :: "('r \<Rightarrow> bool) \<Rightarrow> 'r list \<Rightarrow> 'r list" where
  "select P t = filter P t"

definition select_one :: "('r \<Rightarrow> bool) \<Rightarrow> 'r list \<Rightarrow> 'r option" where
  "select_one P t = find P t"

definition count_where :: "('r \<Rightarrow> bool) \<Rightarrow> 'r list \<Rightarrow> nat" where
  "count_where P t = length (filter P t)"

definition exists_row :: "('r \<Rightarrow> bool) \<Rightarrow> 'r list \<Rightarrow> bool" where
  "exists_row P t = list_ex P t"

definition order_limit :: "('r \<Rightarrow> 'k::linorder) \<Rightarrow> nat \<Rightarrow> 'r list \<Rightarrow> 'r list" where
  "order_limit k n t = take n (sort_key k t)"

lemma length_update_where [simp, table_simps]: "length (update_where P f t) = length t"
  by (simp add: update_where_def)

lemma update_where_Nil [simp]: "update_where P f [] = []"
  by (simp add: update_where_def)

lemma update_where_Cons:
  "update_where P f (r # t) = (if P r then f r else r) # update_where P f t"
  by (simp add: update_where_def)

lemma update_where_append [table_simps]:
  "update_where P f (t @ u) = update_where P f t @ update_where P f u"
  by (simp add: update_where_def)

lemma in_update_where:
  "r \<in> set (update_where P f t) \<longleftrightarrow> (\<exists>q\<in>set t. r = (if P q then f q else q))"
  by (auto simp: update_where_def)

lemma update_where_none: "(\<And>r. r \<in> set t \<Longrightarrow> \<not> P r) \<Longrightarrow> update_where P f t = t"
  by (simp add: update_where_def map_idI)

lemma map_update_where:
  "(\<And>r. r \<in> set t \<Longrightarrow> P r \<Longrightarrow> g (f r) = g r) \<Longrightarrow> map g (update_where P f t) = map g t"
  by (simp add: update_where_def)

lemma in_insert_row [simp, table_simps]: "r \<in> set (insert_row q t) \<longleftrightarrow> r = q \<or> r \<in> set t"
  by (auto simp: insert_row_def)

lemma map_insert_row [table_simps]: "map g (insert_row r t) = map g t @ [g r]"
  by (simp add: insert_row_def)

lemma in_select [simp]: "r \<in> set (select P t) \<longleftrightarrow> r \<in> set t \<and> P r"
  by (auto simp: select_def)

lemma select_one_Some: "select_one P t = Some r \<Longrightarrow> r \<in> set t \<and> P r"
  by (auto simp: select_one_def find_Some_iff)

lemma select_one_None: "select_one P t = None \<longleftrightarrow> (\<forall>r\<in>set t. \<not> P r)"
  by (auto simp: select_one_def find_None_iff)

lemma select_one_insert_row:
  "select_one P (insert_row r t) =
     (case select_one P t of Some q \<Rightarrow> Some q | None \<Rightarrow> if P r then Some r else None)"
  by (induction t) (auto simp: select_one_def insert_row_def)

lemma exists_row_iff: "exists_row P t \<longleftrightarrow> (\<exists>r\<in>set t. P r)"
  by (auto simp: exists_row_def list_ex_iff)

lemma set_order_limit: "set (order_limit k n t) \<subseteq> set t"
  unfolding order_limit_def by (metis set_sort set_take_subset)

lemma length_order_limit: "length (order_limit k n t) \<le> n"
  by (simp add: order_limit_def)

text \<open>An update that does not change what a query looks for.\<close>

lemma select_one_update_where:
  "(\<And>r. Q (f r) = Q r) \<Longrightarrow>
     select_one Q (update_where P f t) = map_option (\<lambda>r. if P r then f r else r) (select_one Q t)"
  by (induction t) (auto simp: select_one_def update_where_def)

lemma update_where_idem:
  "(\<And>r. P r \<Longrightarrow> g (f r) = f r) \<Longrightarrow> (\<And>r. P r \<Longrightarrow> P (f r)) \<Longrightarrow> update_where P g (update_where P f t) = update_where P f t"
  by (auto simp: update_where_def)

lemma updated_row: "q \<in> set t \<Longrightarrow> P q \<Longrightarrow> f q \<in> set (update_where P f t)"
  by (auto simp: update_where_def)

lemma list_ex_update_where: "(\<And>r. Q (f r) = Q r) \<Longrightarrow> list_ex Q (update_where P f t) = list_ex Q t"
  by (induction t) (auto simp: update_where_def)

text \<open>The key of a row decides which row an update by key reaches.\<close>

lemma select_one_update_where_key:
  assumes "\<And>r. k (f r) = k r"
  shows "select_one (\<lambda>r. k r = x) (update_where (\<lambda>r. k r = x \<and> P r) f t) =
     (case select_one (\<lambda>r. k r = x) t of
        None \<Rightarrow> None | Some r \<Rightarrow> Some (if P r then f r else r))"
  using assms by (induction t) (auto simp: select_one_def update_where_def)

lemma distinct_key_unique:
  assumes "distinct (map k t)" and "r \<in> set t" and "q \<in> set t" and "k r = k q"
  shows "r = q"
  using assms by (metis distinct_map inj_onD)

lemma select_one_key:
  assumes "distinct (map k t)" and "r \<in> set t" and "P r" and "\<And>q. P q \<Longrightarrow> k q = k r"
  shows "select_one P t = Some r"
proof (cases "select_one P t")
  case None
  with assms show ?thesis by (auto simp: select_one_None)
next
  case (Some q)
  then have "q \<in> set t" "P q" by (auto dest: select_one_Some)
  with assms have "q = r" by (metis distinct_key_unique)
  with Some show ?thesis by simp
qed

end
