(* ===== verification/JsValues.thy ===== *)
theory JsValues
  imports Prelude
begin

text \<open>
  The values of the language the services are written in, as far as they use them: string
  trimming and case, decimal rendering of identifiers, numbers with their infinities and NaN,
  \<open>Math.trunc\<close>, \<open>Math.round\<close>, \<open>toFixed\<close>, the clamp idiom of the query limits, and JSON documents
  compared as PostgreSQL's \<open>jsonb\<close> does. Numbers are exact rationals: the rounding of IEEE
  arithmetic is not modelled.
\<close>

subsection \<open>Strings\<close>

definition js_space :: "char \<Rightarrow> bool" where
  "js_space c \<longleftrightarrow> of_char c \<in> {9, 10, 11, 12, 13, 32, 160 :: nat}"

definition js_trim :: "string \<Rightarrow> string" where
  "js_trim s = rev (dropWhile js_space (rev (dropWhile js_space s)))"

definition upper_char :: "char \<Rightarrow> char" where
  "upper_char c = (if 97 \<le> (of_char c :: nat) \<and> of_char c \<le> (122 :: nat)
     then char_of ((of_char c :: nat) - 32) else c)"

definition lower_char :: "char \<Rightarrow> char" where
  "lower_char c = (if 65 \<le> (of_char c :: nat) \<and> of_char c \<le> (90 :: nat)
     then char_of ((of_char c :: nat) + 32) else c)"

definition js_upper :: "string \<Rightarrow> string" where
  "js_upper s = map upper_char s"

definition js_lower :: "string \<Rightarrow> string" where
  "js_lower s = map lower_char s"

text \<open>\<open>x?.trim() || null\<close>: the empty string counts as missing.\<close>

definition trim_or_null :: "string option \<Rightarrow> string option" where
  "trim_or_null x = (case x of None \<Rightarrow> None
     | Some s \<Rightarrow> (if js_trim s = [] then None else Some (js_trim s)))"

text \<open>\<open>x ?? d\<close>\<close>

definition or_value :: "'a option \<Rightarrow> 'a \<Rightarrow> 'a" where
  "or_value x d = (case x of None \<Rightarrow> d | Some v \<Rightarrow> v)"

lemma dropWhile_rev_stable:
  assumes "\<not> P x"
  shows "dropWhile P (rev (dropWhile P (rev (x # xs)))) = rev (dropWhile P (rev (x # xs)))"
proof -
  have "\<exists>ys. dropWhile P (rev xs @ [x]) = ys @ [x]"
    using assms by (cases "\<forall>y\<in>set (rev xs). P y") (simp_all add: dropWhile_append)
  then obtain ys where "dropWhile P (rev (x # xs)) = ys @ [x]" by force
  with assms show ?thesis by simp
qed

lemma js_trim_idem [simp]: "js_trim (js_trim s) = js_trim s"
proof (cases "dropWhile js_space s")
  case Nil
  have "js_trim s = []" unfolding js_trim_def Nil by simp
  moreover have "js_trim [] = []" by (simp add: js_trim_def)
  ultimately show ?thesis by (simp only:)
next
  case (Cons x xs)
  then have "\<not> js_space x" by (metis dropWhile_eq_Cons_conv)
  then have "dropWhile js_space (js_trim s) = js_trim s"
    unfolding js_trim_def Cons by (rule dropWhile_rev_stable)
  moreover have "rev (dropWhile js_space (rev (js_trim s))) = js_trim s"
    by (simp only: js_trim_def rev_rev_ident dropWhile_idem)
  ultimately show ?thesis by (simp only: js_trim_def [of "js_trim s"])
qed

lemma upper_char_idem [simp]: "upper_char (upper_char c) = upper_char c"
  by (auto simp: upper_char_def)

lemma lower_char_idem [simp]: "lower_char (lower_char c) = lower_char c"
  by (auto simp: lower_char_def)

lemma js_upper_idem [simp]: "js_upper (js_upper s) = js_upper s"
  by (simp add: js_upper_def)

lemma js_lower_idem [simp]: "js_lower (js_lower s) = js_lower s"
  by (simp add: js_lower_def)

lemma length_js_upper [simp]: "length (js_upper s) = length s"
  by (simp add: js_upper_def)

text \<open>Rendering of an identifier or a number inside a template string.\<close>

fun nat_str :: "nat \<Rightarrow> string" where
  "nat_str n = (if n < 10 then [char_of (48 + n)] else nat_str (n div 10) @ [char_of (48 + n mod 10)])"

declare nat_str.simps [simp del]

lemma nat_str_nonempty [simp]: "nat_str n \<noteq> []" "[] \<noteq> nat_str n"
  by (subst nat_str.simps, simp)+

lemma char_of_digit_inj: "d < 10 \<Longrightarrow> e < 10 \<Longrightarrow> (char_of (48 + d) :: char) = char_of (48 + e) \<longleftrightarrow> d = (e::nat)"
proof
  assume "d < 10" "e < 10" and eq: "(char_of (48 + d) :: char) = char_of (48 + e)"
  then have "(48 + d) mod 256 = (48 + e) mod 256"
    by (metis of_char_of)
  with \<open>d < 10\<close> \<open>e < 10\<close> show "d = e" by simp
qed simp

lemma nat_str_inj: "nat_str m = nat_str n \<Longrightarrow> m = n"
proof (induction m arbitrary: n rule: nat_str.induct)
  case (1 m)
  show ?case
  proof (cases "m < 10")
    case True
    then have m: "nat_str m = [char_of (48 + m)]" by (subst nat_str.simps) simp
    show ?thesis
    proof (cases "n < 10")
      case True
      then have "nat_str n = [char_of (48 + n)]" by (subst nat_str.simps) simp
      with m "1.prems" \<open>m < 10\<close> True show ?thesis by (simp add: char_of_digit_inj)
    next
      case False
      then have "nat_str n = nat_str (n div 10) @ [char_of (48 + n mod 10)]"
        by (subst nat_str.simps) simp
      with m "1.prems" show ?thesis by simp
    qed
  next
    case False
    then have m: "nat_str m = nat_str (m div 10) @ [char_of (48 + m mod 10)]"
      by (subst nat_str.simps) simp
    show ?thesis
    proof (cases "n < 10")
      case True
      then have "nat_str n = [char_of (48 + n)]" by (subst nat_str.simps) simp
      with m "1.prems" show ?thesis by simp
    next
      case nF: False
      then have n: "nat_str n = nat_str (n div 10) @ [char_of (48 + n mod 10)]"
        by (subst nat_str.simps) simp
      from m n "1.prems" have d: "nat_str (m div 10) = nat_str (n div 10)"
        and r: "(char_of (48 + m mod 10) :: char) = char_of (48 + n mod 10)" by simp_all
      from d "1.IH" [OF False] have "m div 10 = n div 10" by blast
      moreover from r have "m mod 10 = n mod 10" by (simp add: char_of_digit_inj)
      ultimately show ?thesis by (metis div_mult_mod_eq)
    qed
  qed
qed

lemma nat_str_eq_iff [simp]: "nat_str m = nat_str n \<longleftrightarrow> m = n"
  by (auto dest: nat_str_inj)

lemma nat_str_0: "nat_str 0 = ''0''"
  by (simp add: nat_str.simps char_of_def bit_0)

subsection \<open>Numbers\<close>

datatype jsnum = Fin rat | PosInf | NegInf | NaN

fun is_finite :: "jsnum \<Rightarrow> bool" where
  "is_finite (Fin _) = True"
| "is_finite _ = False"

text \<open>Comparisons are false as soon as one side is NaN.\<close>

fun js_less :: "jsnum \<Rightarrow> jsnum \<Rightarrow> bool" where
  "js_less (Fin a) (Fin b) = (a < b)"
| "js_less NegInf (Fin _) = True"
| "js_less NegInf PosInf = True"
| "js_less (Fin _) PosInf = True"
| "js_less _ _ = False"

fun js_le :: "jsnum \<Rightarrow> jsnum \<Rightarrow> bool" where
  "js_le NaN _ = False"
| "js_le _ NaN = False"
| "js_le a b = (\<not> js_less b a)"

fun js_min :: "jsnum \<Rightarrow> jsnum \<Rightarrow> jsnum" where
  "js_min NaN _ = NaN"
| "js_min _ NaN = NaN"
| "js_min a b = (if js_less b a then b else a)"

fun js_max :: "jsnum \<Rightarrow> jsnum \<Rightarrow> jsnum" where
  "js_max NaN _ = NaN"
| "js_max _ NaN = NaN"
| "js_max a b = (if js_less a b then b else a)"

text \<open>The value of a finite number; only applied to numbers already tested by \<open>is_finite\<close>.\<close>

fun fin_val :: "jsnum \<Rightarrow> rat" where
  "fin_val (Fin r) = r"
| "fin_val _ = 0"

definition trunc_rat :: "rat \<Rightarrow> int" where
  "trunc_rat r = (if 0 \<le> r then \<lfloor>r\<rfloor> else \<lceil>r\<rceil>)"

definition js_round :: "rat \<Rightarrow> int" where
  "js_round r = \<lfloor>r + 1 / 2\<rfloor>"

lemma js_round_numeral: "js_round (numeral n) = numeral n"
proof -
  have "\<lfloor>of_int (numeral n) + 1 / 2 :: rat\<rfloor> = numeral n" by linarith
  then show ?thesis by (simp add: js_round_def)
qed

text \<open>\<open>Number(x.toFixed(n))\<close>: the nearest multiple of \<open>10^-n\<close>, the larger magnitude on a tie.\<close>

definition to_fixed :: "nat \<Rightarrow> rat \<Rightarrow> rat" where
  "to_fixed n x = (if 0 \<le> x then of_int \<lfloor>x * 10 ^ n + 1 / 2\<rfloor> / 10 ^ n
                   else - (of_int \<lfloor>(- x) * 10 ^ n + 1 / 2\<rfloor> / 10 ^ n))"

lemma to_fixed_nonneg: "0 \<le> x \<Longrightarrow> 0 \<le> to_fixed n x"
  by (auto simp: to_fixed_def)

lemma to_fixed_close: "\<bar>to_fixed n x - x\<bar> \<le> 1 / (2 * 10 ^ n)"
proof -
  have main: "\<bar>of_int \<lfloor>y * 10 ^ n + 1 / 2\<rfloor> / 10 ^ n - y\<bar> \<le> 1 / (2 * 10 ^ n)" for y :: rat
  proof -
    let ?p = "10 ^ n :: rat"
    have p: "0 < ?p" by simp
    have lo: "of_int \<lfloor>y * ?p + 1 / 2\<rfloor> \<le> y * ?p + 1 / 2" by simp
    have hi: "y * ?p + 1 / 2 < of_int \<lfloor>y * ?p + 1 / 2\<rfloor> + 1" by linarith
    have "of_int \<lfloor>y * ?p + 1 / 2\<rfloor> / ?p \<le> (y * ?p + 1 / 2) / ?p"
      using lo p by (simp add: divide_right_mono)
    moreover have "(y * ?p - 1 / 2) / ?p \<le> of_int \<lfloor>y * ?p + 1 / 2\<rfloor> / ?p"
      using hi p by (intro divide_right_mono) linarith+
    moreover have "(y * ?p + 1 / 2) / ?p = y + 1 / (2 * ?p)" "(y * ?p - 1 / 2) / ?p = y - 1 / (2 * ?p)"
      using p by (simp_all add: field_simps)
    ultimately show ?thesis by (simp add: abs_le_iff)
  qed
  show ?thesis
    using main [of x] main [of "- x"] by (auto simp: to_fixed_def abs_le_iff)
qed

lemma to_fixed_le: "to_fixed n x \<le> x + 1 / (2 * 10 ^ n)"
  using to_fixed_close [of n x] by (simp add: abs_le_iff)

lemma to_fixed_ge: "x - 1 / (2 * 10 ^ n) \<le> to_fixed n x"
  using to_fixed_close [of n x] by (simp add: abs_le_iff)

lemma to_fixed_mono_nonneg: "0 \<le> x \<Longrightarrow> x \<le> y \<Longrightarrow> to_fixed n x \<le> to_fixed n y"
  by (auto simp: to_fixed_def intro!: divide_right_mono floor_mono mult_right_mono add_right_mono)

text \<open>\<open>Math.min(Math.max(Math.trunc(n || d), lo), hi)\<close>: a falsy \<open>n\<close> (0 or NaN) becomes \<open>d\<close>.\<close>

definition clamp_limit :: "int \<Rightarrow> int \<Rightarrow> int \<Rightarrow> jsnum \<Rightarrow> int" where
  "clamp_limit d lo hi n =
     (case n of
        NaN \<Rightarrow> min (max d lo) hi
      | PosInf \<Rightarrow> hi
      | NegInf \<Rightarrow> min lo hi
      | Fin r \<Rightarrow> min (max (if r = 0 then d else trunc_rat r) lo) hi)"

lemma clamp_limit_bounds: "lo \<le> hi \<Longrightarrow> lo \<le> clamp_limit d lo hi n \<and> clamp_limit d lo hi n \<le> hi"
  by (cases n) (auto simp: clamp_limit_def)

subsection \<open>JSON documents\<close>

datatype json =
    JNull
  | JBool bool
  | JNum rat
  | JStr string
  | JArr "json list"
  | JObj "(string \<times> json) list"

text \<open>An object literal: a property whose value is \<open>undefined\<close> disappears in \<open>JSON.stringify\<close>.\<close>

definition jobject :: "(string \<times> json option) list \<Rightarrow> json" where
  "jobject kvs = JObj (map (\<lambda>kv. (fst kv, the (snd kv))) (filter (\<lambda>kv. snd kv \<noteq> None) kvs))"

text \<open>\<open>x ?? null\<close> and \<open>x\<close> of an optional value, as property values.\<close>

definition or_null :: "('a \<Rightarrow> json) \<Rightarrow> 'a option \<Rightarrow> json" where
  "or_null f x = (case x of None \<Rightarrow> JNull | Some v \<Rightarrow> f v)"

text \<open>\<open>jsonb\<close> keeps the keys of an object sorted, so equality ignores their order.\<close>

fun jsonb :: "json \<Rightarrow> json" where
  "jsonb (JArr xs) = JArr (map jsonb xs)"
| "jsonb (JObj kvs) = JObj (sort_key fst (map (\<lambda>kv. (fst kv, jsonb (snd kv))) kvs))"
| "jsonb v = v"

lemma jsonb_singleton_eq:
  "jsonb (JObj [(k, v)]) = jsonb (JObj [(k', v')]) \<longleftrightarrow> k = k' \<and> jsonb v = jsonb v'"
  by simp

end
