(* ===== verification/Fairness.thy ===== *)
theory Fairness
  imports JsValues
begin

text \<open>
  Congestion fairness (\<open>modules/traffic/fairness.engine.ts\<close>, \<open>fairness.service.ts\<close>,
  \<open>fairness.policy.ts\<close>, \<open>traffic.types.ts\<close>): the mode of a router from its utilisation, the
  weighted allocation of its capacity, the policy checks, and what the allocation guarantees.
  Megabits per second are exact rationals; the demand of a user may also be infinite or NaN,
  which the engine filters out.
\<close>

subsection \<open>Data\<close>

datatype fairness_mode = NORMAL | FAIRNESS_ACTIVE | AGGRESSIVE | RECOVERING

record active_user =
  au_customerId :: string
  au_sessionId :: "string option"
  au_requestedMbps :: jsnum
  au_priority :: "rat option"
  au_weight :: "rat option"

record fairness_input =
  in_capacityMbps :: rat
  in_activeUsers :: "active_user list"
  in_activateThresholdPercent :: "rat option"
  in_aggressiveThresholdPercent :: "rat option"
  in_recoveryThresholdPercent :: "rat option"

record fairness_allocation =
  fa_customerId :: string
  fa_sessionId :: "string option"
  fa_requestedMbps :: rat
  fa_allocatedMbps :: rat
  fa_weight :: rat
  fa_priority :: rat

record fairness_decision =
  fd_mode :: fairness_mode
  fd_utilizationPercent :: rat
  fd_capacityMbps :: rat
  fd_allocations :: "fairness_allocation list"

text \<open>A user after the \<open>isFinite\<close> filter and the normalisation of priority and weight.\<close>

record norm_user =
  nu_customerId :: string
  nu_sessionId :: "string option"
  nu_requestedMbps :: rat
  nu_priority :: rat
  nu_weight :: rat

text \<open>An element of \<open>ordered\<close>: its place in \<open>users\<close>, its factor and its demand.\<close>

record fair_item =
  fi_index :: nat
  fi_factor :: rat
  fi_demand :: rat

subsection \<open>Allocation\<close>

definition effective_weight :: "rat option \<Rightarrow> rat" where
  "effective_weight w = max (1 / 10) (case w of None \<Rightarrow> 1 | Some x \<Rightarrow> x)"

definition effective_priority :: "rat option \<Rightarrow> rat" where
  "effective_priority p = max 1 (case p of None \<Rightarrow> 1 | Some x \<Rightarrow> x)"

definition allocation :: "norm_user \<Rightarrow> rat \<Rightarrow> fairness_allocation" where
  "allocation u a = \<lparr>
     fa_customerId = nu_customerId u,
     fa_sessionId = nu_sessionId u,
     fa_requestedMbps = nu_requestedMbps u,
     fa_allocatedMbps = max 0 (min (nu_requestedMbps u) a),
     fa_weight = effective_weight (Some (nu_weight u)),
     fa_priority = effective_priority (Some (nu_priority u))\<rparr>"

definition fair_items :: "norm_user list \<Rightarrow> fair_item list" where
  "fair_items users = map (\<lambda>(index, user). \<lparr>
     fi_index = index,
     fi_factor = effective_weight (Some (nu_weight user)) * effective_priority (Some (nu_priority user)),
     fi_demand = nu_requestedMbps user\<rparr>) (enumerate 0 users)"

definition ordered_items :: "norm_user list \<Rightarrow> fair_item list" where
  "ordered_items users = sort_key (\<lambda>it. fi_demand it / fi_factor it) (fair_items users)"

text \<open>The inner loop over the users from the first one that cannot be satisfied.\<close>

fun fill_rest :: "rat \<Rightarrow> rat \<Rightarrow> fair_item list \<Rightarrow> rat list \<Rightarrow> rat list" where
  "fill_rest share remainingWeight [] allocated = allocated"
| "fill_rest share remainingWeight (active # items) allocated =
     fill_rest share remainingWeight items
       (allocated[fi_index active := min (fi_demand active) (share * (fi_factor active / remainingWeight))])"

text \<open>The loop over the ordered users.\<close>

fun fill :: "fair_item list \<Rightarrow> rat \<Rightarrow> rat \<Rightarrow> rat list \<Rightarrow> rat list" where
  "fill [] remainingWeight remaining allocated = allocated"
| "fill (item # items) remainingWeight remaining allocated =
     (if remainingWeight \<le> 0 \<or> remaining \<le> 0 then allocated
      else (let fairShare = remaining * (fi_factor item / remainingWeight) in
        if fi_demand item \<le> fairShare + 1 / 1000000
        then fill items (remainingWeight - fi_factor item) (remaining - fi_demand item)
               (allocated[fi_index item := fi_demand item])
        else fill_rest (max 0 fairShare) remainingWeight (item # items) allocated))"

definition allocate :: "norm_user list \<Rightarrow> rat \<Rightarrow> fairness_allocation list" where
  "allocate users capacity =
     (let remainingCapacity = max 0 capacity in
      if remainingCapacity \<le> 0 then map (\<lambda>u. allocation u 0) users
      else (let ordered = ordered_items users;
                allocated = fill ordered (sum_list (map fi_factor ordered)) remainingCapacity
                              (replicate (length users) 0)
            in map (\<lambda>(index, user). allocation user (min (nu_requestedMbps user) (allocated ! index)))
                 (enumerate 0 users)))"

subsection \<open>Decision\<close>

definition has_demand :: "active_user \<Rightarrow> bool" where
  "has_demand u \<longleftrightarrow> is_finite (au_requestedMbps u) \<and> js_less (Fin 0) (au_requestedMbps u)"

definition normalize_user :: "active_user \<Rightarrow> norm_user" where
  "normalize_user u = \<lparr>
     nu_customerId = au_customerId u,
     nu_sessionId = au_sessionId u,
     nu_requestedMbps = fin_val (au_requestedMbps u),
     nu_priority = effective_priority (au_priority u),
     nu_weight = effective_weight (au_weight u)\<rparr>"

definition classify_mode :: "rat \<Rightarrow> rat \<Rightarrow> rat \<Rightarrow> rat \<Rightarrow> fairness_mode" where
  "classify_mode activateAt aggressiveAt recoveryAt util =
     (if util \<ge> aggressiveAt then AGGRESSIVE
      else if util \<ge> activateAt then FAIRNESS_ACTIVE
      else if util \<le> recoveryAt then NORMAL
      else RECOVERING)"

definition unthrottled :: "norm_user \<Rightarrow> fairness_allocation" where
  "unthrottled u = \<lparr>
     fa_customerId = nu_customerId u,
     fa_sessionId = nu_sessionId u,
     fa_requestedMbps = nu_requestedMbps u,
     fa_allocatedMbps = nu_requestedMbps u,
     fa_weight = nu_weight u,
     fa_priority = nu_priority u\<rparr>"

definition decide :: "fairness_input \<Rightarrow> fairness_decision" where
  "decide inp =
     (let capacity = max 0 (in_capacityMbps inp);
          users = filter has_demand (in_activeUsers inp);
          requested = sum_list (map (\<lambda>u. fin_val (au_requestedMbps u)) users);
          util = (if capacity > 0 then (requested / capacity) * 100 else 0);
          activateAt = (case in_activateThresholdPercent inp of None \<Rightarrow> 80 | Some x \<Rightarrow> x);
          aggressiveAt = (case in_aggressiveThresholdPercent inp of None \<Rightarrow> 90 | Some x \<Rightarrow> x);
          recoveryAt = (case in_recoveryThresholdPercent inp of None \<Rightarrow> 60 | Some x \<Rightarrow> x);
          mode = classify_mode activateAt aggressiveAt recoveryAt util;
          normalized = map normalize_user users
      in \<lparr> fd_mode = mode, fd_utilizationPercent = util, fd_capacityMbps = capacity,
           fd_allocations = (if mode = NORMAL \<or> normalized = []
             then map unthrottled normalized
             else allocate normalized capacity) \<rparr>)"

subsection \<open>Service and policy\<close>

record fairness_policy =
  fp_enabled :: bool
  fp_capacityMbps :: rat
  fp_activateThresholdPercent :: rat
  fp_aggressiveThresholdPercent :: rat
  fp_recoveryThresholdPercent :: rat

text \<open>\<open>FairnessService.evaluate\<close>; the timestamp \<open>evaluatedAt\<close> is left out.\<close>

definition evaluate_fairness :: "fairness_policy \<Rightarrow> active_user list \<Rightarrow> fairness_decision" where
  "evaluate_fairness policy users =
     (if \<not> fp_enabled policy
      then \<lparr> fd_mode = NORMAL, fd_utilizationPercent = 0, fd_capacityMbps = max 0 (fp_capacityMbps policy),
             fd_allocations = map (\<lambda>u. \<lparr>
               fa_customerId = au_customerId u, fa_sessionId = au_sessionId u,
               fa_requestedMbps = fin_val (au_requestedMbps u),
               fa_allocatedMbps = fin_val (au_requestedMbps u),
               fa_weight = effective_weight (au_weight u),
               fa_priority = effective_priority (au_priority u)\<rparr>) (filter has_demand users) \<rparr>
      else decide \<lparr> in_capacityMbps = fp_capacityMbps policy, in_activeUsers = users,
             in_activateThresholdPercent = Some (fp_activateThresholdPercent policy),
             in_aggressiveThresholdPercent = Some (fp_aggressiveThresholdPercent policy),
             in_recoveryThresholdPercent = Some (fp_recoveryThresholdPercent policy) \<rparr>)"

record partial_policy =
  pp_capacityMbps :: "jsnum option"
  pp_activate :: "jsnum option"
  pp_aggressive :: "jsnum option"
  pp_recovery :: "jsnum option"
  pp_enabled :: "bool option"

definition normalize_fairness_policy :: "partial_policy \<Rightarrow> fairness_policy result" where
  "normalize_fairness_policy inp =
     (let capacity = (case pp_capacityMbps inp of None \<Rightarrow> Fin 0 | Some x \<Rightarrow> x);
          activate = (case pp_activate inp of None \<Rightarrow> Fin 80 | Some x \<Rightarrow> x);
          aggressive = (case pp_aggressive inp of None \<Rightarrow> Fin 90 | Some x \<Rightarrow> x);
          recovery = (case pp_recovery inp of None \<Rightarrow> Fin 60 | Some x \<Rightarrow> x)
      in if \<not> is_finite capacity \<or> js_le capacity (Fin 0)
         then Inl (PlainError ''capacityMbps must be greater than zero'')
         else if \<not> list_all is_finite [activate, aggressive, recovery]
         then Inl (PlainError ''fairness thresholds must be finite numbers'')
         else if js_less recovery (Fin 0) \<or> js_le activate recovery
                 \<or> js_less aggressive activate \<or> js_less (Fin 100) aggressive
         then Inl (PlainError ''fairness thresholds must satisfy 0 <= recovery < activate <= aggressive <= 100'')
         else Inr \<lparr> fp_enabled = (case pp_enabled inp of None \<Rightarrow> True | Some b \<Rightarrow> b),
                    fp_capacityMbps = fin_val capacity,
                    fp_activateThresholdPercent = fin_val activate,
                    fp_aggressiveThresholdPercent = fin_val aggressive,
                    fp_recoveryThresholdPercent = fin_val recovery \<rparr>)"

record fairness_transition =
  ft_from :: fairness_mode
  ft_to :: fairness_mode
  ft_changed :: bool

definition transition_fairness_mode :: "fairness_mode option \<Rightarrow> fairness_decision \<Rightarrow> fairness_transition" where
  "transition_fairness_mode previous decision =
     (let from = (case previous of None \<Rightarrow> fd_mode decision | Some m \<Rightarrow> m)
      in \<lparr> ft_from = from, ft_to = fd_mode decision, ft_changed = (from \<noteq> fd_mode decision) \<rparr>)"

subsection \<open>Lemmas of the water filling loop\<close>

lemma effective_weight_pos [simp]: "0 < effective_weight w"
  by (simp add: effective_weight_def)

lemma effective_priority_pos [simp]: "0 < effective_priority p"
  by (simp add: effective_priority_def)

lemma effective_weight_idem [simp]: "effective_weight (Some (effective_weight w)) = effective_weight w"
  by (simp add: effective_weight_def)

lemma effective_priority_idem [simp]: "effective_priority (Some (effective_priority p)) = effective_priority p"
  by (simp add: effective_priority_def)

lemma fill_stop: "w \<le> 0 \<or> r \<le> 0 \<Longrightarrow> fill (it # items) w r al = al"
  by auto

lemma fill_served:
  "0 < w \<Longrightarrow> 0 < r \<Longrightarrow> fi_demand it \<le> r * (fi_factor it / w) + 1 / 1000000 \<Longrightarrow>
   fill (it # items) w r al = fill items (w - fi_factor it) (r - fi_demand it) (al[fi_index it := fi_demand it])"
  by (simp add: Let_def)

lemma fill_short:
  "0 < w \<Longrightarrow> 0 < r \<Longrightarrow> \<not> fi_demand it \<le> r * (fi_factor it / w) + 1 / 1000000 \<Longrightarrow>
   fill (it # items) w r al = fill_rest (max 0 (r * (fi_factor it / w))) w (it # items) al"
  by (simp add: Let_def)

declare fill.simps(2) [simp del]

text \<open>The items still to be served: distinct places, not written yet, with positive factors.\<close>

definition pending :: "fair_item list \<Rightarrow> rat list \<Rightarrow> bool" where
  "pending items allocated \<longleftrightarrow> distinct (map fi_index items) \<and>
     (\<forall>it\<in>set items. fi_index it < length allocated \<and> allocated ! fi_index it = 0 \<and>
        0 < fi_factor it \<and> 0 < fi_demand it)"

lemma pending_update:
  "pending (it # items) al \<Longrightarrow> pending items (al[fi_index it := x])"
  by (auto simp: pending_def nth_list_update)

lemma pending_head:
  "pending (it # items) al \<Longrightarrow>
     fi_index it < length al \<and> al ! fi_index it = 0 \<and> 0 < fi_factor it \<and> 0 < fi_demand it"
  by (simp add: pending_def)

lemma length_fill_rest [simp]: "length (fill_rest s w items al) = length al"
  by (induction s w items al rule: fill_rest.induct) simp_all

lemma length_fill [simp]: "length (fill items w r al) = length al"
  by (induction items w r al rule: fill.induct) (simp_all add: fill.simps(2) Let_def del: fill_rest.simps)

lemma fill_rest_other:
  "j \<notin> fi_index ` set items \<Longrightarrow> fill_rest s w items al ! j = al ! j"
  by (induction s w items al rule: fill_rest.induct) auto

lemma fill_rest_nth:
  "pending items al \<Longrightarrow> it \<in> set items \<Longrightarrow>
     fill_rest s w items al ! fi_index it = min (fi_demand it) (s * (fi_factor it / w))"
proof (induction s w items al rule: fill_rest.induct)
  case (1 s w al)
  then show ?case by simp
next
  case (2 s w a items al)
  let ?al = "al[fi_index a := min (fi_demand a) (s * (fi_factor a / w))]"
  have p: "pending items ?al" using "2.prems"(1) by (rule pending_update)
  show ?case
  proof (cases "it = a")
    case True
    have "fi_index a \<notin> fi_index ` set items" "fi_index a < length al"
      using "2.prems"(1) by (auto simp: pending_def)
    with True show ?thesis by (simp add: fill_rest_other)
  next
    case False
    with "2.prems"(2) have "it \<in> set items" by simp
    from "2.IH" [OF p this] show ?thesis by simp
  qed
qed

lemma sum_list_update_zero:
  fixes al :: "rat list"
  shows "i < length al \<Longrightarrow> al ! i = 0 \<Longrightarrow> sum_list (al[i := x]) = sum_list al + x"
  by (induction al arbitrary: i) (auto split: nat.splits)

lemma sum_fill_rest:
  "pending items al \<Longrightarrow> 0 < w \<Longrightarrow>
     sum_list (fill_rest s w items al) \<le> sum_list al + s * (sum_list (map fi_factor items) / w)"
proof (induction s w items al rule: fill_rest.induct)
  case (1 s w al)
  then show ?case by simp
next
  case (2 s w a items al)
  let ?x = "min (fi_demand a) (s * (fi_factor a / w))"
  have p: "pending items (al[fi_index a := ?x])" using "2.prems"(1) by (rule pending_update)
  have "sum_list (fill_rest s w (a # items) al)
      \<le> sum_list (al[fi_index a := ?x]) + s * (sum_list (map fi_factor items) / w)"
    using "2.IH" [OF p "2.prems"(2)] by simp
  also have "sum_list (al[fi_index a := ?x]) = sum_list al + ?x"
    using pending_head [OF "2.prems"(1)] by (simp add: sum_list_update_zero)
  also have "sum_list al + ?x + s * (sum_list (map fi_factor items) / w)
      \<le> sum_list al + s * (fi_factor a / w) + s * (sum_list (map fi_factor items) / w)"
    by simp
  also have "\<dots> = sum_list al + s * (sum_list (map fi_factor (a # items)) / w)"
    by (simp add: algebra_simps add_divide_distrib)
  finally show ?case .
qed

lemma sum_factor_nonneg: "pending items al \<Longrightarrow> 0 \<le> sum_list (map fi_factor items)"
  by (rule sum_list_nonneg) (auto simp: pending_def less_imp_le)

lemma sum_fill:
  "pending items al \<Longrightarrow> w = sum_list (map fi_factor items) \<Longrightarrow>
     sum_list (fill items w r al) \<le> sum_list al + (if r \<le> 0 then 0 else r + 1 / 1000000)"
proof (induction items w r al rule: fill.induct)
  case (1 w r al)
  then show ?case by simp
next
  case (2 a items w r al)
  show ?case
  proof (cases "w \<le> 0 \<or> r \<le> 0")
    case True
    then show ?thesis using 2(3) by (simp add: fill_stop)
  next
    case False
    then have w: "0 < w" and r: "0 < r" by simp_all
    note hd = pending_head [OF "2.prems"(1)]
    have wa: "w = fi_factor a + sum_list (map fi_factor items)" using "2.prems"(2) by simp
    have p: "pending items (al[fi_index a := x])" for x using "2.prems"(1) by (rule pending_update)
    have "0 \<le> sum_list (map fi_factor items)" using p by (rule sum_factor_nonneg)
    with wa w hd have frac: "0 \<le> fi_factor a / w" "fi_factor a / w \<le> 1" by (simp_all add: less_imp_le)
    define fs where "fs = r * (fi_factor a / w)"
    have fs: "0 \<le> fs" "fs \<le> r"
      unfolding fs_def using frac r mult_left_mono [of "fi_factor a / w" 1 r]
      by (rule_tac mult_nonneg_nonneg, simp_all)
    show ?thesis
    proof (cases "fi_demand a \<le> fs + 1 / 1000000")
      case True
      have "sum_list (fill items (w - fi_factor a) (r - fi_demand a) (al[fi_index a := fi_demand a]))
        \<le> sum_list (al[fi_index a := fi_demand a])
           + (if r - fi_demand a \<le> 0 then 0 else r - fi_demand a + 1 / 1000000)"
        using False True p wa by (intro "2.IH") (auto simp: fs_def)
      moreover have "sum_list (al[fi_index a := fi_demand a]) = sum_list al + fi_demand a"
        using hd by (simp add: sum_list_update_zero)
      moreover have "fill (a # items) w r al
        = fill items (w - fi_factor a) (r - fi_demand a) (al[fi_index a := fi_demand a])"
        using w r True unfolding fs_def by (rule fill_served)
      ultimately show ?thesis using r True fs by (auto split: if_splits)
    next
      case big: False
      have "sum_list (fill_rest (max 0 fs) w (a # items) al)
        \<le> sum_list al + max 0 fs * (sum_list (map fi_factor (a # items)) / w)"
        using "2.prems"(1) w by (rule sum_fill_rest)
      also have "\<dots> = sum_list al + fs" using "2.prems"(2) w fs by simp
      also have "fill_rest (max 0 fs) w (a # items) al = fill (a # items) w r al"
        using w r big unfolding fs_def by (rule fill_short [symmetric])
      finally show ?thesis using r fs by simp
    qed
  qed
qed

lemma fill_other:
  "j \<notin> fi_index ` set items \<Longrightarrow> fill items w r al ! j = al ! j"
  by (induction items w r al rule: fill.induct) (auto simp: Let_def fill.simps(2) fill_rest_other simp del: fill_rest.simps)

text \<open>When the demands fit, every user is satisfied: the smallest ratio is below the average.\<close>

lemma fill_satisfies:
  "pending items al \<Longrightarrow> sorted (map (\<lambda>it. fi_demand it / fi_factor it) items) \<Longrightarrow>
   w = sum_list (map fi_factor items) \<Longrightarrow> sum_list (map fi_demand items) \<le> r \<Longrightarrow>
   it \<in> set items \<Longrightarrow> fill items w r al ! fi_index it = fi_demand it"
proof (induction items w r al rule: fill.induct)
  case (1 w r al)
  then show ?case by simp
next
  case (2 a items w r al)
  note hd = pending_head [OF "2.prems"(1)]
  have p: "pending items (al[fi_index a := fi_demand a])" using "2.prems"(1) by (rule pending_update)
  have wa: "w = fi_factor a + sum_list (map fi_factor items)" using "2.prems"(3) by simp
  have wpos: "0 < w" using wa hd sum_factor_nonneg [OF p] by simp
  have dn: "0 \<le> sum_list (map fi_demand items)"
    by (rule sum_list_nonneg) (use p in \<open>auto simp: pending_def less_imp_le\<close>)
  have rpos: "0 < r" using "2.prems"(4) hd dn by simp
  define q where "q = fi_demand a / fi_factor a"
  have each: "q * fi_factor i \<le> fi_demand i" if "i \<in> set (a # items)" for i
  proof -
    have "0 < fi_factor i" using that "2.prems"(1) by (auto simp: pending_def)
    moreover have "q \<le> fi_demand i / fi_factor i" using that "2.prems"(2) by (auto simp: q_def)
    ultimately show ?thesis by (simp add: pos_le_divide_eq)
  qed
  have "q * w = sum_list (map (\<lambda>i. q * fi_factor i) (a # items))"
    using "2.prems"(3) by (simp add: sum_list_const_mult distrib_left)
  also have "\<dots> \<le> sum_list (map fi_demand (a # items))" using each by (intro sum_list_mono) auto
  also have "\<dots> \<le> r" by (rule "2.prems"(4))
  finally have "q \<le> r / w" using wpos by (simp add: pos_le_divide_eq)
  then have "q * fi_factor a \<le> r / w * fi_factor a" using hd by (intro mult_right_mono) simp_all
  then have "fi_demand a \<le> r * (fi_factor a / w)" using hd by (simp add: q_def)
  then have fits: "fi_demand a \<le> r * (fi_factor a / w) + 1 / 1000000" by simp
  then have step: "fill (a # items) w r al
      = fill items (w - fi_factor a) (r - fi_demand a) (al[fi_index a := fi_demand a])"
    using wpos rpos by (intro fill_served)
  show ?case
  proof (cases "it = a")
    case True
    have "fi_index a \<notin> fi_index ` set items" using "2.prems"(1) by (auto simp: pending_def)
    with True step hd show ?thesis by (simp add: fill_other)
  next
    case False
    with "2.prems"(5) have "it \<in> set items" by simp
    with "2.IH" [OF _ refl fits p] "2.prems" wa wpos rpos step show ?thesis by auto
  qed
qed

subsection \<open>The allocation of a whole router\<close>

lemma map_fi_index_fair_items: "map fi_index (fair_items users) = [0..<length users]"
  by (simp add: fair_items_def comp_def case_prod_beta map_fst_enumerate flip: fst_conv)

lemma in_fair_items:
  "it \<in> set (fair_items users) \<longleftrightarrow> (\<exists>i < length users. it = \<lparr>fi_index = i,
     fi_factor = effective_weight (Some (nu_weight (users ! i))) * effective_priority (Some (nu_priority (users ! i))),
     fi_demand = nu_requestedMbps (users ! i)\<rparr>)"
  by (force simp: fair_items_def in_set_enumerate_eq)

lemma distinct_fair_items: "distinct (fair_items users)"
  by (metis distinct_map distinct_upt map_fi_index_fair_items)

lemma set_ordered_items [simp]: "set (ordered_items users) = set (fair_items users)"
  by (simp add: ordered_items_def)

lemma distinct_index_ordered: "distinct (map fi_index (ordered_items users))"
  using distinct_fair_items [of users] map_fi_index_fair_items [of users]
  by (simp add: ordered_items_def distinct_map) (metis distinct_map distinct_upt)

lemma sum_ordered_items: "sum_list (map f (ordered_items users)) = sum_list (map f (fair_items users))" for f :: "fair_item \<Rightarrow> rat"
  using distinct_fair_items [of users]
  by (simp add: ordered_items_def sum_list_distinct_conv_sum_set)

lemma sum_demand_fair_items:
  "sum_list (map fi_demand (fair_items users)) = sum_list (map nu_requestedMbps users)"
proof -
  have "map fi_demand (fair_items users) = map nu_requestedMbps users"
    by (rule nth_equalityI) (simp_all add: fair_items_def nth_enumerate_eq)
  then show ?thesis by simp
qed

lemma pending_ordered:
  assumes "\<And>u. u \<in> set users \<Longrightarrow> 0 < nu_requestedMbps u"
  shows "pending (ordered_items users) (replicate (length users) 0)"
  using assms distinct_index_ordered [of users] by (auto simp: pending_def in_fair_items)

definition filled :: "norm_user list \<Rightarrow> rat \<Rightarrow> rat list" where
  "filled users capacity = fill (ordered_items users) (sum_list (map fi_factor (ordered_items users)))
     capacity (replicate (length users) 0)"

lemma length_filled [simp]: "length (filled users c) = length users"
  by (simp add: filled_def)

lemma allocate_nth:
  assumes "0 < c" and "i < length users"
  shows "allocate users c ! i = allocation (users ! i) (filled users c ! i)"
  using assms
  by (simp add: allocate_def Let_def filled_def nth_enumerate_eq allocation_def)

lemma length_allocate [simp]: "length (allocate users c) = length users"
  by (simp add: allocate_def Let_def)

lemma allocate_in:
  assumes "a \<in> set (allocate users c)"
  shows "\<exists>u x. u \<in> set users \<and> a = allocation u x"
  using assms by (force simp: allocate_def Let_def in_set_enumerate_eq split: if_splits)

lemma map_customer_allocate:
  "map fa_customerId (allocate users c) = map nu_customerId users"
proof (cases "0 < c")
  case True
  show ?thesis by (rule nth_equalityI) (simp_all add: True allocate_nth allocation_def)
next
  case False
  then show ?thesis by (simp add: allocate_def Let_def allocation_def comp_def)
qed

lemma fill_rest_nonneg:
  "0 \<le> s \<Longrightarrow> 0 < w \<Longrightarrow> \<forall>x\<in>set al. 0 \<le> x \<Longrightarrow>
   \<forall>it\<in>set items. 0 < fi_demand it \<and> 0 < fi_factor it \<Longrightarrow>
   \<forall>x\<in>set (fill_rest s w items al). 0 \<le> x"
proof (induction s w items al rule: fill_rest.induct)
  case (1 s w al)
  then show ?case by simp
next
  case (2 s w a items al)
  have "0 \<le> min (fi_demand a) (s * (fi_factor a / w))" using "2.prems" by simp
  then have "\<forall>x\<in>set (al[fi_index a := min (fi_demand a) (s * (fi_factor a / w))]). 0 \<le> x"
    using "2.prems"(3) set_update_subset_insert [of al] by fastforce
  from "2.IH" [OF "2.prems"(1,2) this] "2.prems"(4) show ?case by simp
qed

lemma fill_nonneg:
  assumes "\<forall>x\<in>set al. 0 \<le> x" and "\<forall>it\<in>set items. 0 < fi_demand it \<and> 0 < fi_factor it"
  shows "\<forall>x\<in>set (fill items w r al). 0 \<le> x"
  using assms
proof (induction items w r al rule: fill.induct)
  case (1 w r al)
  then show ?case by simp
next
  case (2 a items w r al)
  have "0 \<le> fi_demand a" using "2.prems" by simp
  then have upd: "\<forall>x\<in>set (al[fi_index a := fi_demand a]). 0 \<le> x"
    using "2.prems"(1) set_update_subset_insert [of al] by fastforce
  show ?case
  proof (cases "w \<le> 0 \<or> r \<le> 0")
    case True
    with "2.prems" show ?thesis by (simp add: fill_stop)
  next
    case False
    show ?thesis
    proof (cases "fi_demand a \<le> r * (fi_factor a / w) + 1 / 1000000")
      case True
      have "\<forall>x\<in>set (fill items (w - fi_factor a) (r - fi_demand a) (al[fi_index a := fi_demand a])). 0 \<le> x"
        using False True upd "2.prems"(2) by (intro "2.IH") simp_all
      moreover have "fill (a # items) w r al
        = fill items (w - fi_factor a) (r - fi_demand a) (al[fi_index a := fi_demand a])"
        using False True by (intro fill_served) simp_all
      ultimately show ?thesis by (simp only:)
    next
      case big: False
      have "\<forall>x\<in>set (fill_rest (max 0 (r * (fi_factor a / w))) w (a # items) al). 0 \<le> x"
        using False "2.prems" by (intro fill_rest_nonneg) simp_all
      moreover have "fill (a # items) w r al
        = fill_rest (max 0 (r * (fi_factor a / w))) w (a # items) al"
        using False big by (intro fill_short) simp_all
      ultimately show ?thesis by (simp only:)
    qed
  qed
qed

lemma filled_nonneg:
  assumes "\<And>u. u \<in> set users \<Longrightarrow> 0 < nu_requestedMbps u" and "i < length users"
  shows "0 \<le> filled users c ! i"
proof -
  have "\<forall>x\<in>set (filled users c). 0 \<le> x"
    unfolding filled_def using pending_ordered [OF assms(1)]
    by (intro fill_nonneg) (auto simp: pending_def)
  with assms(2) show ?thesis by (simp add: all_set_conv_all_nth)
qed

lemma sum_filled:
  assumes "\<And>u. u \<in> set users \<Longrightarrow> 0 < nu_requestedMbps u" and "0 < c"
  shows "sum_list (filled users c) \<le> c + 1 / 1000000"
  using sum_fill [OF pending_ordered [OF assms(1)] refl, of users c] assms(2)
  by (simp add: filled_def sum_list_replicate)

lemma sum_allocate:
  assumes "\<And>u. u \<in> set users \<Longrightarrow> 0 < nu_requestedMbps u" and "0 < c"
  shows "sum_list (map fa_allocatedMbps (allocate users c)) \<le> c + 1 / 1000000"
proof -
  have "sum_list (map fa_allocatedMbps (allocate users c)) \<le> sum_list (filled users c)"
    using assms filled_nonneg [OF assms(1)]
    by (intro sum_list_mono2) (simp_all add: allocate_nth allocation_def)
  also have "\<dots> \<le> c + 1 / 1000000" using assms by (rule sum_filled)
  finally show ?thesis .
qed

lemma normalized_positive:
  "u \<in> set (map normalize_user (filter has_demand us)) \<Longrightarrow> 0 < nu_requestedMbps u"
  by (auto simp: normalize_user_def has_demand_def elim!: js_less.elims is_finite.elims)


lemma normalized_demand:
  "sum_list (map nu_requestedMbps (map normalize_user us)) = sum_list (map (\<lambda>u. fin_val (au_requestedMbps u)) us)"
  by (simp add: normalize_user_def comp_def)

text \<open>When the demands fit into the capacity nobody is cut.\<close>

lemma allocate_satisfies:
  assumes pos: "\<And>u. u \<in> set users \<Longrightarrow> 0 < nu_requestedMbps u" and c: "0 < c"
    and fits: "sum_list (map nu_requestedMbps users) \<le> c" and i: "i < length users"
  shows "fa_allocatedMbps (allocate users c ! i) = nu_requestedMbps (users ! i)"
proof -
  let ?it = "\<lparr>fi_index = i,
     fi_factor = effective_weight (Some (nu_weight (users ! i))) * effective_priority (Some (nu_priority (users ! i))),
     fi_demand = nu_requestedMbps (users ! i)\<rparr>"
  have "?it \<in> set (ordered_items users)" using i by (auto simp: in_fair_items)
  moreover have "sum_list (map fi_demand (ordered_items users)) \<le> c"
    using fits by (simp add: sum_ordered_items sum_demand_fair_items)
  moreover have "sorted (map (\<lambda>it. fi_demand it / fi_factor it) (ordered_items users))"
    by (simp add: ordered_items_def)
  ultimately have "filled users c ! fi_index ?it = fi_demand ?it"
    unfolding filled_def using pending_ordered [OF pos] by (intro fill_satisfies) simp_all
  with pos [of "users ! i"] i c show ?thesis by (simp add: allocate_nth allocation_def)
qed

text \<open>The first user that cannot be satisfied, and equal users: the share is scaled twice.\<close>

lemma fill_first_short:
  assumes "items \<noteq> []" and "0 < w" and "0 < r"
    and "\<not> fi_demand (hd items) \<le> r * (fi_factor (hd items) / w) + 1 / 1000000"
  shows "fill items w r al = fill_rest (max 0 (r * (fi_factor (hd items) / w))) w items al"
  using assms by (cases items) (simp_all add: fill_short del: fill_rest.simps)

lemma filled_equal:
  assumes eq: "\<And>u. u \<in> set users \<Longrightarrow> nu_requestedMbps u = d \<and>
      effective_weight (Some (nu_weight u)) * effective_priority (Some (nu_priority u)) = f"
    and f: "0 < f" and c: "0 < c" and d: "0 < d" "c / of_nat (length users) + 1 / 1000000 < d"
    and i: "i < length users"
  shows "filled users c ! i = min d (c / of_nat (length users) * (1 / of_nat (length users)))"
proof -
  let ?n = "of_nat (length users) :: rat"
  let ?items = "ordered_items users"
  have n: "0 < ?n" using i by (cases users) simp_all
  have items: "fi_factor it = f \<and> fi_demand it = d" if "it \<in> set ?items" for it
    using that eq by (auto simp: in_fair_items)
  have "sum_list (map fi_factor ?items) = sum_list (map (\<lambda>_. f) ?items)"
    by (rule arg_cong [where f = sum_list]) (use items in auto)
  also have "\<dots> = ?n * f" by (simp add: sum_list_triv ordered_items_def fair_items_def)
  finally have w: "sum_list (map fi_factor ?items) = ?n * f" .
  have "i \<in> set (map fi_index (fair_items users))" using i by (simp add: map_fi_index_fair_items)
  then obtain it where it: "it \<in> set ?items" "fi_index it = i" by auto
  then have ne: "?items \<noteq> []" by (metis empty_iff empty_set)
  have hd: "fi_factor (hd ?items) = f" "fi_demand (hd ?items) = d" using items [OF list.set_sel(1) [OF ne]] by simp_all
  have ratio: "f / (?n * f) = 1 / ?n" using f by simp
  have "filled users c = fill_rest (max 0 (c * (fi_factor (hd ?items) / (?n * f)))) (?n * f) ?items (replicate (length users) 0)"
    unfolding filled_def w using ne hd n f c d by (intro fill_first_short) (simp_all add: ratio)
  also have "max 0 (c * (fi_factor (hd ?items) / (?n * f))) = c / ?n" using hd ratio n c by simp
  finally have fl: "filled users c = fill_rest (c / ?n) (?n * f) ?items (replicate (length users) 0)" .
  have "pending ?items (replicate (length users) 0)" using eq d by (intro pending_ordered) auto
  from fill_rest_nth [OF this it(1)] fl it(2) items [OF it(1)] ratio f show ?thesis by simp
qed

subsection \<open>Properties\<close>

lemma decide_within_demand:
  "map fa_customerId (fd_allocations (decide inp)) = map au_customerId (filter has_demand (in_activeUsers inp)) \<and>
   list_all (\<lambda>a. 0 \<le> fa_allocatedMbps a \<and> fa_allocatedMbps a \<le> fa_requestedMbps a) (fd_allocations (decide inp))"
proof
  let ?us = "map normalize_user (filter has_demand (in_activeUsers inp))"
  show "map fa_customerId (fd_allocations (decide inp)) = map au_customerId (filter has_demand (in_activeUsers inp))"
    by (simp add: decide_def Let_def map_customer_allocate normalize_user_def unthrottled_def comp_def)
  have "0 \<le> fa_allocatedMbps a \<and> fa_allocatedMbps a \<le> fa_requestedMbps a"
    if "a \<in> set (map unthrottled ?us) \<or> a \<in> set (allocate ?us c)" for a c
    using that
  proof
    assume "a \<in> set (map unthrottled ?us)"
    then show ?thesis by (auto simp: unthrottled_def dest!: normalized_positive [unfolded list.set_map, OF imageI, THEN less_imp_le] simp del: set_filter)
  next
    assume "a \<in> set (allocate ?us c)"
    then obtain u x where "u \<in> set ?us" "a = allocation u x" using allocate_in by blast
    with normalized_positive show ?thesis by (auto simp: allocation_def less_imp_le)
  qed
  then show "list_all (\<lambda>a. 0 \<le> fa_allocatedMbps a \<and> fa_allocatedMbps a \<le> fa_requestedMbps a) (fd_allocations (decide inp))"
    by (auto simp: decide_def Let_def list_all_iff)
qed

lemma decide_within_capacity:
  assumes "fd_mode (decide inp) \<noteq> NORMAL"
  shows "sum_list (map fa_allocatedMbps (fd_allocations (decide inp))) \<le> max 0 (in_capacityMbps inp) + 1 / 1000000"
proof -
  let ?us = "map normalize_user (filter has_demand (in_activeUsers inp))" and ?c = "max 0 (in_capacityMbps inp)"
  have "fd_allocations (decide inp) = (if ?us = [] then [] else allocate ?us ?c)"
    using assms by (auto simp: decide_def Let_def)
  moreover have "sum_list (map fa_allocatedMbps (allocate ?us ?c)) \<le> ?c + 1 / 1000000"
  proof (cases "0 < ?c")
    case True
    then show ?thesis using normalized_positive by (intro sum_allocate)
  next
    case False
    then have z: "?c = 0" by simp
    have "map fa_allocatedMbps (allocate ?us 0) = map (\<lambda>_. 0) ?us"
      using normalized_positive by (auto simp: allocate_def allocation_def max_def min_def less_imp_le simp del: set_filter)
    then show ?thesis unfolding z by (simp add: sum_list_triv comp_def)
  qed
  ultimately show ?thesis by simp
qed

text \<open>Whatever the demands, thresholds, weights and priorities are, the engine returns one
  allocation per user with a finite positive demand, in the order of the request, and gives each
  a rate between zero and what it asked for.\<close>

theorem allocation_within_demand:
  "map fa_customerId (fd_allocations (decide inp)) = map au_customerId (filter has_demand (in_activeUsers inp)) \<and>
   list_all (\<lambda>a. 0 \<le> fa_allocatedMbps a \<and> fa_allocatedMbps a \<le> fa_requestedMbps a) (fd_allocations (decide inp))"
  by (rule decide_within_demand)

text \<open>C1: Outside mode \<open>NORMAL\<close> the engine never hands out more than the capacity of the router,
  up to the tolerance of one millionth it uses in its comparison.\<close>

theorem allocation_within_capacity:
  assumes "fd_mode (decide inp) \<noteq> NORMAL"
  shows "sum_list (map fa_allocatedMbps (fd_allocations (decide inp))) \<le> max 0 (in_capacityMbps inp) + 1 / 1000000"
  using assms by (rule decide_within_capacity)

theorem allocation_within_capacity_witness:
  "let inp = \<lparr>in_capacityMbps = 10,
      in_activeUsers = [\<lparr>au_customerId = ''a'', au_sessionId = None, au_requestedMbps = Fin 4, au_priority = None, au_weight = None\<rparr>,
                        \<lparr>au_customerId = ''b'', au_sessionId = None, au_requestedMbps = Fin 9, au_priority = Some 2, au_weight = None\<rparr>],
      in_activateThresholdPercent = None, in_aggressiveThresholdPercent = None, in_recoveryThresholdPercent = None\<rparr>
   in fd_mode (decide inp) = AGGRESSIVE \<and>
      sum_list (map fa_allocatedMbps (fd_allocations (decide inp))) \<le> 10 + 1 / 1000000"
proof -
  define inp where "inp = \<lparr>in_capacityMbps = 10,
      in_activeUsers = [\<lparr>au_customerId = ''a'', au_sessionId = None, au_requestedMbps = Fin 4, au_priority = None, au_weight = None\<rparr>,
                        \<lparr>au_customerId = ''b'', au_sessionId = None, au_requestedMbps = Fin 9, au_priority = Some 2, au_weight = None\<rparr>],
      in_activateThresholdPercent = None, in_aggressiveThresholdPercent = None, in_recoveryThresholdPercent = None\<rparr>"
  have "fd_mode (decide inp) = AGGRESSIVE"
    by (simp add: inp_def decide_def Let_def has_demand_def classify_mode_def)
  with allocation_within_capacity [of inp] show ?thesis by (simp add: inp_def Let_def)
qed

text \<open>When the demands of the users fit into the capacity together, every user gets exactly
  what it asked for, in every mode and for all weights and priorities.\<close>

theorem fitting_demand_is_met:
  assumes "sum_list (map (\<lambda>u. fin_val (au_requestedMbps u)) (filter has_demand (in_activeUsers inp)))
             \<le> in_capacityMbps inp"
  shows "map fa_allocatedMbps (fd_allocations (decide inp)) =
         map (\<lambda>u. fin_val (au_requestedMbps u)) (filter has_demand (in_activeUsers inp))"
proof -
  let ?us = "map normalize_user (filter has_demand (in_activeUsers inp))" and ?c = "in_capacityMbps inp"
  have goal: "map (\<lambda>u. fin_val (au_requestedMbps u)) (filter has_demand (in_activeUsers inp)) = map nu_requestedMbps ?us"
    by (simp add: normalize_user_def)
  show ?thesis
  proof (cases "fd_mode (decide inp) = NORMAL \<or> ?us = []")
    case True
    then have "fd_allocations (decide inp) = map unthrottled ?us" by (auto simp: decide_def Let_def)
    then show ?thesis unfolding goal by (simp add: unthrottled_def)
  next
    case False
    then obtain u us where us: "?us = u # us" by (cases ?us) simp_all
    have pos: "0 < nu_requestedMbps u" if "u \<in> set ?us" for u using that by (rule normalized_positive)
    have sum: "sum_list (map nu_requestedMbps ?us) \<le> ?c" using assms goal by simp
    have "0 \<le> sum_list (map nu_requestedMbps us)"
      by (rule sum_list_nonneg) (use pos us in \<open>auto simp: less_imp_le\<close>)
    with sum pos [of u] us have c: "0 < ?c" by simp
    have "fd_allocations (decide inp) = allocate ?us ?c"
      using False c by (auto simp: decide_def Let_def max_def)
    then show ?thesis unfolding goal
      using allocate_satisfies [OF pos c sum] by (intro nth_equalityI) simp_all
  qed
qed

theorem fitting_demand_is_met_witness:
  "let inp = \<lparr>in_capacityMbps = 10,
      in_activeUsers = [\<lparr>au_customerId = ''a'', au_sessionId = None, au_requestedMbps = Fin 1, au_priority = None, au_weight = Some 7\<rparr>,
                        \<lparr>au_customerId = ''b'', au_sessionId = None, au_requestedMbps = Fin (17/2), au_priority = None, au_weight = None\<rparr>],
      in_activateThresholdPercent = None, in_aggressiveThresholdPercent = None, in_recoveryThresholdPercent = None\<rparr>
   in map fa_allocatedMbps (fd_allocations (decide inp)) = [1, 17/2]"
proof -
  define inp where "inp = \<lparr>in_capacityMbps = 10,
      in_activeUsers = [\<lparr>au_customerId = ''a'', au_sessionId = None, au_requestedMbps = Fin 1, au_priority = None, au_weight = Some 7\<rparr>,
                        \<lparr>au_customerId = ''b'', au_sessionId = None, au_requestedMbps = Fin (17/2), au_priority = None, au_weight = None\<rparr>],
      in_activateThresholdPercent = None, in_aggressiveThresholdPercent = None, in_recoveryThresholdPercent = None\<rparr>"
  have "map fa_allocatedMbps (fd_allocations (decide inp)) =
         map (\<lambda>u. fin_val (au_requestedMbps u)) (filter has_demand (in_activeUsers inp))"
    by (rule fitting_demand_is_met) (simp add: inp_def has_demand_def)
  also have "\<dots> = [1, 17/2]" by (simp add: inp_def has_demand_def)
  finally show ?thesis by (simp add: inp_def Let_def)
qed

text \<open>Contrary to the comment of \<open>allocate\<close> (weighted max-min fairness), \<open>n\<close> equal users that all
  want more than the \<open>n\<close>-th part of the capacity \<open>c\<close> get \<open>c / n\<^sup>2\<close> each instead of \<open>c / n\<close>: the fair share of
  the first unsatisfied user is scaled by the weights a second time. Together they get \<open>c / n\<close>, and
  the rest of the capacity is given to nobody.\<close>

theorem equal_users_get_the_square:
  assumes "list_all (\<lambda>u. au_requestedMbps u = Fin d \<and> au_priority u = None \<and> au_weight u = None) users"
    and "users \<noteq> []" and "0 < c" and "c / of_nat (length users) + 1 / 1000000 < d"
  shows "let result = decide \<lparr>in_capacityMbps = c, in_activeUsers = users, in_activateThresholdPercent = None,
             in_aggressiveThresholdPercent = None, in_recoveryThresholdPercent = None\<rparr>
         in fd_mode result = AGGRESSIVE \<and>
            map fa_allocatedMbps (fd_allocations result)
              = replicate (length users) (c / of_nat (length users) ^ 2) \<and>
            sum_list (map fa_allocatedMbps (fd_allocations result)) = c / of_nat (length users)"
proof -
  let ?n = "of_nat (length users) :: rat" and ?us = "map normalize_user users"
  define inp where "inp = \<lparr>in_capacityMbps = c, in_activeUsers = users, in_activateThresholdPercent = None,
             in_aggressiveThresholdPercent = None, in_recoveryThresholdPercent = None\<rparr>"
  have n: "1 \<le> ?n" using assms(2) by (cases users) simp_all
  then have n0: "0 < ?n" by linarith
  have cn: "0 < c / ?n" using assms(3) n0 by simp
  with assms(4) have d: "0 < d" by linarith
  have u: "au_requestedMbps u = Fin d \<and> au_priority u = None \<and> au_weight u = None" if "u \<in> set users" for u
    using assms(1) that by (simp add: list_all_iff)
  have f: "filter has_demand users = users"
    by (rule filter_True) (use u d in \<open>auto simp: has_demand_def\<close>)
  have "map (\<lambda>u. fin_val (au_requestedMbps u)) users = map (\<lambda>_. d) users" using u by simp
  then have sum: "sum_list (map (\<lambda>u. fin_val (au_requestedMbps u)) users) = ?n * d"
    by (simp only: sum_list_triv)
  have "c / ?n < d" using assms(4) by linarith
  then have "c < ?n * d" using n0 by (simp add: pos_divide_less_eq mult.commute)
  then have "1 \<le> ?n * d / c" using assms(3) by (simp add: pos_le_divide_eq)
  then have "100 \<le> ?n * d / c * 100" using mult_right_mono [of 1 "?n * d / c" 100] by simp
  then have util: "90 \<le> ?n * d / c * 100" by (rule order_trans [rotated]) simp
  have mode: "fd_mode (decide inp) = AGGRESSIVE"
    using util assms(3) by (simp add: inp_def decide_def Let_def f sum classify_mode_def)
  then have alloc: "fd_allocations (decide inp) = allocate ?us c"
    using assms(2,3) by (simp add: inp_def decide_def Let_def f)
  have le: "0 \<le> c / (?n * ?n)" using assms(3) n0 by simp
  have small: "c / ?n * (1 / ?n) \<le> d"
  proof -
    have "c / ?n * (1 / ?n) \<le> c / ?n * 1" using cn n n0
      by (intro mult_left_mono) (simp_all only: pos_divide_le_eq mult_1 less_imp_le)
    with \<open>c / ?n < d\<close> show ?thesis by linarith
  qed
  have each: "allocate ?us c ! i = allocation (?us ! i) (c / ?n * (1 / ?n))" if "i < length users" for i
  proof -
    have "filled ?us c ! i = min d (c / of_nat (length ?us) * (1 / of_nat (length ?us)))"
      by (rule filled_equal [where f = 1])
        (use that u assms d in \<open>auto simp: normalize_user_def effective_weight_def effective_priority_def\<close>)
    with small that assms(3) show ?thesis by (simp add: allocate_nth)
  qed
  have val: "map fa_allocatedMbps (allocate ?us c) = replicate (length users) (c / ?n ^ 2)"
    using small le n0 u by (intro nth_equalityI)
      (simp_all add: each allocation_def normalize_user_def power2_eq_square max_absorb2)
  have "sum_list (map fa_allocatedMbps (allocate ?us c)) = c / ?n"
    unfolding val using n0 by (simp add: sum_list_replicate power2_eq_square)
  with mode alloc val show ?thesis by (simp add: inp_def [symmetric] Let_def)
qed

theorem equal_users_get_the_square_witness:
  "let user = \<lambda>id. \<lparr>au_customerId = id, au_sessionId = None, au_requestedMbps = Fin 10, au_priority = None, au_weight = None\<rparr>;
       result = decide \<lparr>in_capacityMbps = 20, in_activeUsers = [user ''a'', user ''b'', user ''c'', user ''d''],
         in_activateThresholdPercent = None, in_aggressiveThresholdPercent = None, in_recoveryThresholdPercent = None\<rparr>
   in map fa_allocatedMbps (fd_allocations result) = [5/4, 5/4, 5/4, 5/4]"
proof -
  let ?user = "\<lambda>id. \<lparr>au_customerId = id, au_sessionId = None, au_requestedMbps = Fin 10, au_priority = None, au_weight = None\<rparr>"
  show ?thesis
    using equal_users_get_the_square [of 10 "[?user ''a'', ?user ''b'', ?user ''c'', ?user ''d'']" 20]
    by (simp add: Let_def numeral_eq_Suc)
qed

lemma normalize_fairness_policy_valid:
  assumes "normalize_fairness_policy inp = Inr p"
  shows "0 < fp_capacityMbps p \<and> 0 \<le> fp_recoveryThresholdPercent p \<and>
    fp_recoveryThresholdPercent p < fp_activateThresholdPercent p \<and>
    fp_activateThresholdPercent p \<le> fp_aggressiveThresholdPercent p \<and> fp_aggressiveThresholdPercent p \<le> 100"
  using assms
  by (auto simp: normalize_fairness_policy_def Let_def not_less
      elim!: is_finite.elims split: if_splits option.splits)

text \<open>Under a policy accepted by the policy check, the mode splits the load range in four: with
  the policy enabled, \<open>AGGRESSIVE\<close> from the aggressive threshold, \<open>FAIRNESS_ACTIVE\<close> between the activation
  and the aggressive threshold, \<open>NORMAL\<close> up to the recovery threshold and \<open>RECOVERING\<close> in between;
  a disabled policy is always \<open>NORMAL\<close>. The load is compared in megabits per second.\<close>

theorem mode_follows_policy:
  assumes "normalize_fairness_policy partial = Inr policy"
  shows "let load = sum_list (map (\<lambda>u. fin_val (au_requestedMbps u)) (filter has_demand users));
             level = (\<lambda>percent. percent * fp_capacityMbps policy / 100)
         in fd_mode (evaluate_fairness policy users) =
              (if \<not> fp_enabled policy \<or> load \<le> level (fp_recoveryThresholdPercent policy) then NORMAL
               else if load < level (fp_activateThresholdPercent policy) then RECOVERING
               else if load < level (fp_aggressiveThresholdPercent policy) then FAIRNESS_ACTIVE
               else AGGRESSIVE)"
proof -
  note v = normalize_fairness_policy_valid [OF assms]
  let ?load = "sum_list (map (\<lambda>u. fin_val (au_requestedMbps u)) (filter has_demand users))"
  let ?c = "fp_capacityMbps policy"
  have c: "0 < ?c" using v by simp
  let ?level = "\<lambda>percent. percent * ?c / 100"
  have iff: "(t \<le> ?load / ?c * 100) = (?level t \<le> ?load)" "(?load / ?c * 100 \<le> t) = (?load \<le> ?level t)" for t
    using c by (simp_all add: field_simps)
  have dec: "fd_mode (evaluate_fairness policy users) =
     (if \<not> fp_enabled policy then NORMAL
      else classify_mode (fp_activateThresholdPercent policy) (fp_aggressiveThresholdPercent policy)
             (fp_recoveryThresholdPercent policy) (?load / ?c * 100))"
    using c by (simp add: evaluate_fairness_def decide_def Let_def)
  have mode: "fd_mode (evaluate_fairness policy users) =
     (if \<not> fp_enabled policy then NORMAL
      else if ?level (fp_aggressiveThresholdPercent policy) \<le> ?load then AGGRESSIVE
      else if ?level (fp_activateThresholdPercent policy) \<le> ?load then FAIRNESS_ACTIVE
      else if ?load \<le> ?level (fp_recoveryThresholdPercent policy) then NORMAL
      else RECOVERING)"
    unfolding dec classify_mode_def by (simp only: iff)
  have "?level (fp_recoveryThresholdPercent policy) < ?level (fp_activateThresholdPercent policy)"
    and "?level (fp_activateThresholdPercent policy) \<le> ?level (fp_aggressiveThresholdPercent policy)"
    using v c by (simp_all add: divide_strict_right_mono divide_right_mono)
  then show ?thesis unfolding mode Let_def by (simp add: not_le)
qed

theorem mode_follows_policy_witness:
  "\<exists>policy. normalize_fairness_policy \<lparr>pp_capacityMbps = Some (Fin 50), pp_activate = None, pp_aggressive = None,
        pp_recovery = Some (Fin 40), pp_enabled = None\<rparr> = Inr policy \<and>
     fd_mode (evaluate_fairness policy [\<lparr>au_customerId = ''a'', au_sessionId = None, au_requestedMbps = Fin 30,
        au_priority = None, au_weight = None\<rparr>]) = RECOVERING"
proof -
  define partial where "partial = \<lparr>pp_capacityMbps = Some (Fin 50), pp_activate = None, pp_aggressive = None,
        pp_recovery = Some (Fin 40), pp_enabled = None\<rparr>"
  define policy where "policy = \<lparr>fp_enabled = True, fp_capacityMbps = 50, fp_activateThresholdPercent = 80,
        fp_aggressiveThresholdPercent = 90, fp_recoveryThresholdPercent = 40\<rparr>"
  have ok: "normalize_fairness_policy partial = Inr policy"
    by (simp add: partial_def policy_def normalize_fairness_policy_def Let_def)
  moreover have "fd_mode (evaluate_fairness policy [\<lparr>au_customerId = ''a'', au_sessionId = None, au_requestedMbps = Fin 30,
        au_priority = None, au_weight = None\<rparr>]) = RECOVERING"
    unfolding mode_follows_policy [OF ok, unfolded Let_def] by (simp add: policy_def has_demand_def)
  ultimately show ?thesis unfolding partial_def by blast
qed

end
