(* ===== verification/LoadBalancing.thy ===== *)
theory LoadBalancing
  imports JsValues
begin

text \<open>
  WAN load balancing without its database: the decision of \<open>load-balancing.engine.ts\<close>, the health
  state machine of \<open>wan-health-state.ts\<close>, and the routing capabilities of
  \<open>load-balancing.capabilities.ts\<close>. Numbers are exact rationals.
\<close>

subsection \<open>Data\<close>

datatype wan_health_state =
  HEALTHY | DEGRADED | UNAVAILABLE | WAN_RECOVERING | DISABLED | DRAINING | UNKNOWN

definition load_balance_strategies :: "string list" where
  "load_balance_strategies =
     [''WEIGHTED'', ''PRIMARY_SECONDARY'', ''LEAST_UTILIZED'', ''CONNECTION_BASED'', ''POLICY_BASED'',
      ''SERVICE_BASED'', ''DESTINATION_BASED'', ''SOURCE_BASED'', ''SUBNET_BASED'', ''CUSTOMER_BASED'']"

record wan_member =
  wm_id :: string
  wm_name :: string
  wm_interfaceName :: "string option"
  wm_gateway :: "string option"
  wm_capacityMbps :: rat
  wm_configuredWeight :: rat
  wm_priority :: rat
  wm_enabled :: bool
  wm_drainRequested :: bool
  wm_healthState :: wan_health_state
  wm_utilization :: "rat option"
  wm_activeSessions :: rat

record eligible_member =
  em_wanConnectionId :: string
  em_configuredWeight :: int
  em_effectiveWeight :: rat
  em_priority :: int
  em_healthState :: wan_health_state
  em_capacityMbps :: rat
  em_utilization :: "rat option"

record load_balance_decision =
  ld_policyId :: string
  ld_strategy :: string
  ld_eligible :: "eligible_member list"
  ld_failoverActive :: bool

subsection \<open>The decision\<close>

definition wan_weight :: "wan_member \<Rightarrow> int" where
  "wan_weight m = max 1 (trunc_rat (wm_configuredWeight m))"

definition wan_priority :: "wan_member \<Rightarrow> int" where
  "wan_priority m = max 0 (trunc_rat (wm_priority m))"

definition administratively_eligible :: "wan_member \<Rightarrow> bool" where
  "administratively_eligible m \<longleftrightarrow> wm_enabled m \<and> \<not> wm_drainRequested m"

definition wan_available :: "wan_member \<Rightarrow> bool" where
  "wan_available m \<longleftrightarrow> administratively_eligible m \<and> wm_healthState m \<in> {HEALTHY, DEGRADED, WAN_RECOVERING}"

text \<open>\<open>Math.min(...xs)\<close> and \<open>Math.max(...xs)\<close> of a non-empty list.\<close>

fun list_min :: "int list \<Rightarrow> int option" where
  "list_min [] = None"
| "list_min (x # xs) = Some (case list_min xs of None \<Rightarrow> x | Some y \<Rightarrow> min x y)"

fun list_max :: "rat list \<Rightarrow> rat option" where
  "list_max [] = None"
| "list_max (x # xs) = Some (case list_max xs of None \<Rightarrow> x | Some y \<Rightarrow> max x y)"

definition select_members :: "string \<Rightarrow> wan_member list \<Rightarrow> wan_member list" where
  "select_members strategy members =
     (let available = filter wan_available members;
          minPriority = list_min (map wan_priority available)
      in case minPriority of
           Some p \<Rightarrow> if strategy = ''PRIMARY_SECONDARY'' then filter (\<lambda>m. wan_priority m = p) available else available
         | None \<Rightarrow> available)"

definition reference_capacity :: "bool \<Rightarrow> wan_member list \<Rightarrow> rat" where
  "reference_capacity capacityAware selected =
     (if capacityAware
      then (case list_max (map (\<lambda>m. max (1 / 1000) (wm_capacityMbps m)) selected) of None \<Rightarrow> 1 | Some c \<Rightarrow> c)
      else 1)"

definition health_factor :: "wan_health_state \<Rightarrow> rat" where
  "health_factor h = (case h of HEALTHY \<Rightarrow> 1 | WAN_RECOVERING \<Rightarrow> 35 / 100 | _ \<Rightarrow> 65 / 100)"

definition headroom_factor :: "rat option \<Rightarrow> rat" where
  "headroom_factor u = (case u of None \<Rightarrow> 1 | Some x \<Rightarrow> max (1 / 10) (1 - max 0 (min 100 x) / 100))"

definition member_weight :: "string \<Rightarrow> bool \<Rightarrow> rat \<Rightarrow> wan_member \<Rightarrow> rat" where
  "member_weight strategy capacityAware referenceCapacity m =
     (let capacityFactor = (if capacityAware then max (1 / 10) (wm_capacityMbps m / referenceCapacity) else 1);
          headroom = headroom_factor (wm_utilization m);
          weight = of_int (wan_weight m) * health_factor (wm_healthState m) * capacityFactor * headroom;
          weight = (if strategy = ''LEAST_UTILIZED'' then max (1 / 10) (headroom * 100) else weight);
          weight = (if strategy = ''CONNECTION_BASED''
                    then max (1 / 10) (if wm_activeSessions m = 0 then 1 else 1 / wm_activeSessions m) else weight)
      in to_fixed 6 weight)"

definition decide_wan :: "string \<Rightarrow> string \<Rightarrow> wan_member list \<Rightarrow> bool \<Rightarrow> load_balance_decision result" where
  "decide_wan policyId strategy members capacityAware =
     (if policyId = [] then Inl (BadRequest ''policyId is required'')
      else if strategy \<notin> set load_balance_strategies
      then Inl (BadRequest (''Unsupported load-balancing strategy: '' @ strategy))
      else (let eligible = filter administratively_eligible members;
                selected = select_members strategy members;
                reference = reference_capacity capacityAware selected;
                effective = filter (\<lambda>mw. snd mw > 0)
                              (map (\<lambda>m. (m, member_weight strategy capacityAware reference m)) selected)
            in Inr \<lparr> ld_policyId = policyId, ld_strategy = strategy,
                 ld_eligible = map (\<lambda>(m, w). \<lparr> em_wanConnectionId = wm_id m, em_configuredWeight = wan_weight m,
                    em_effectiveWeight = w, em_priority = wan_priority m, em_healthState = wm_healthState m,
                    em_capacityMbps = wm_capacityMbps m, em_utilization = wm_utilization m \<rparr>) effective,
                 ld_failoverActive = (length eligible > 0 \<and> length effective < length eligible) \<rparr>))"

subsection \<open>Health\<close>

record wan_health_input =
  wh_current :: wan_health_state
  wh_success :: bool
  wh_consecutiveFailures :: int
  wh_consecutiveSuccesses :: int
  wh_failureThreshold :: int
  wh_recoveryThreshold :: int
  wh_utilization :: "rat option"
  wh_degradeThreshold :: "rat option"

datatype wan_reason =
  R_DISABLED | R_DRAINING | R_FAILURE_THRESHOLD | R_RECOVERY_THRESHOLD | R_DEGRADED_METRIC | R_HEALTHY

record wan_transition =
  wt_state :: wan_health_state
  wt_changed :: bool
  wt_reason :: wan_reason

definition evaluate_wan_health :: "wan_health_input \<Rightarrow> wan_transition" where
  "evaluate_wan_health i =
     (let cur = wh_current i in
      if cur = DISABLED then \<lparr>wt_state = DISABLED, wt_changed = False, wt_reason = R_DISABLED\<rparr>
      else if cur = DRAINING then \<lparr>wt_state = DRAINING, wt_changed = False, wt_reason = R_DRAINING\<rparr>
      else if \<not> wh_success i \<and> wh_consecutiveFailures i \<ge> max 1 (wh_failureThreshold i)
      then \<lparr>wt_state = UNAVAILABLE, wt_changed = (cur \<noteq> UNAVAILABLE), wt_reason = R_FAILURE_THRESHOLD\<rparr>
      else if wh_success i \<and> cur = UNAVAILABLE \<and> wh_consecutiveSuccesses i < max 1 (wh_recoveryThreshold i)
      then \<lparr>wt_state = WAN_RECOVERING, wt_changed = True, wt_reason = R_RECOVERY_THRESHOLD\<rparr>
      else if wh_success i \<and> cur = WAN_RECOVERING \<and> wh_consecutiveSuccesses i \<ge> max 1 (wh_recoveryThreshold i)
      then \<lparr>wt_state = HEALTHY, wt_changed = True, wt_reason = R_HEALTHY\<rparr>
      else (let degradeThreshold = (case wh_degradeThreshold i of None \<Rightarrow> 80 | Some x \<Rightarrow> x) in
        if wh_success i \<and> (case wh_utilization i of None \<Rightarrow> False | Some u \<Rightarrow> u \<ge> degradeThreshold)
        then \<lparr>wt_state = DEGRADED, wt_changed = (cur \<noteq> DEGRADED), wt_reason = R_DEGRADED_METRIC\<rparr>
        else if wh_success i \<and> cur \<in> {UNKNOWN, DEGRADED}
        then \<lparr>wt_state = HEALTHY, wt_changed = (cur \<noteq> HEALTHY), wt_reason = R_HEALTHY\<rparr>
        else \<lparr>wt_state = cur, wt_changed = False, wt_reason = R_HEALTHY\<rparr>))"

subsection \<open>Capabilities\<close>

datatype protocol =
    MIKROTIK_REST | UNIFI_NETWORK_API | OMADA_CONTROLLER_API | CAMBIUM_CNMAESTRO | MERAKI_DASHBOARD_API
  | ARUBA_CENTRAL_API | GRANDSTREAM_GWN_API | RUIJIE_REYEE_CLOUD_API | RUCKUS_SMARTZONE_API | OPENWRT_UBUS
  | TELTONIKA_RMS_API | PEPLINK_INCONTROL_API | PFSENSE_API | GENERIC_HTTP | SNMP | RADIUS_NAS

datatype wan_capability =
    Wan_telemetry | Gateway_health | Policy_routing | Weighted_load_balancing | Failover | Route_read | Route_write

fun wan_routing_capabilities :: "protocol \<Rightarrow> wan_capability list" where
  "wan_routing_capabilities MIKROTIK_REST = [Wan_telemetry, Gateway_health, Failover, Route_read, Route_write]"
| "wan_routing_capabilities UNIFI_NETWORK_API = [Wan_telemetry, Gateway_health, Failover, Route_read]"
| "wan_routing_capabilities OMADA_CONTROLLER_API = [Wan_telemetry, Gateway_health, Failover, Route_read]"
| "wan_routing_capabilities CAMBIUM_CNMAESTRO = [Wan_telemetry, Gateway_health, Route_read]"
| "wan_routing_capabilities MERAKI_DASHBOARD_API = [Wan_telemetry, Gateway_health, Failover, Route_read]"
| "wan_routing_capabilities ARUBA_CENTRAL_API = [Wan_telemetry, Gateway_health, Route_read]"
| "wan_routing_capabilities GRANDSTREAM_GWN_API = [Wan_telemetry, Gateway_health, Route_read]"
| "wan_routing_capabilities RUIJIE_REYEE_CLOUD_API = [Wan_telemetry, Gateway_health, Failover, Route_read]"
| "wan_routing_capabilities RUCKUS_SMARTZONE_API = [Wan_telemetry, Gateway_health, Route_read]"
| "wan_routing_capabilities OPENWRT_UBUS = [Wan_telemetry, Gateway_health, Policy_routing, Weighted_load_balancing,
     Failover, Route_read, Route_write]"
| "wan_routing_capabilities TELTONIKA_RMS_API = [Wan_telemetry, Gateway_health, Failover, Route_read]"
| "wan_routing_capabilities PEPLINK_INCONTROL_API = [Wan_telemetry, Gateway_health, Weighted_load_balancing,
     Failover, Route_read]"
| "wan_routing_capabilities PFSENSE_API = [Wan_telemetry, Gateway_health, Policy_routing, Weighted_load_balancing,
     Failover, Route_read, Route_write]"
| "wan_routing_capabilities GENERIC_HTTP = []"
| "wan_routing_capabilities SNMP = [Wan_telemetry, Gateway_health, Route_read]"
| "wan_routing_capabilities RADIUS_NAS = []"

definition has_wan_routing_capability :: "protocol \<Rightarrow> wan_capability \<Rightarrow> bool" where
  "has_wan_routing_capability p c \<longleftrightarrow> c \<in> set (wan_routing_capabilities p)"

definition has_wan_routing_adapter :: "protocol \<Rightarrow> bool" where
  "has_wan_routing_adapter p \<longleftrightarrow> p = MIKROTIK_REST"

subsection \<open>Lemmas on the decision\<close>

lemma list_min_None [simp]: "list_min xs = None \<longleftrightarrow> xs = []"
  by (cases xs) simp_all

lemma list_min_le: "list_min xs = Some p \<Longrightarrow> x \<in> set xs \<Longrightarrow> p \<le> x"
  by (induction xs arbitrary: p) (auto split: option.splits)

lemma list_min_in: "list_min xs = Some p \<Longrightarrow> p \<in> set xs"
  by (induction xs arbitrary: p) (auto split: option.splits if_splits simp: min_def)

lemma list_max_None [simp]: "list_max xs = None \<longleftrightarrow> xs = []"
  by (cases xs) simp_all

lemma list_max_ge: "list_max xs = Some c \<Longrightarrow> x \<in> set xs \<Longrightarrow> x \<le> c"
  by (induction xs arbitrary: c) (auto split: option.splits)

lemma list_max_in: "list_max xs = Some c \<Longrightarrow> c \<in> set xs"
  by (induction xs arbitrary: c) (auto split: option.splits if_splits simp: max_def)

lemma health_factor_bounds: "35 / 100 \<le> health_factor h \<and> health_factor h \<le> 1"
  by (cases h) (simp_all add: health_factor_def)

lemma headroom_factor_bounds: "1 / 10 \<le> headroom_factor u \<and> headroom_factor u \<le> 1"
proof (cases u)
  case None
  then show ?thesis by (simp add: headroom_factor_def)
next
  case (Some x)
  have "1 - max 0 (min 100 x) / 100 \<le> 1" by simp
  with Some show ?thesis by (simp only: headroom_factor_def option.case max.cobounded1 max.bounded_iff) simp
qed

lemma reference_capacity_ge:
  "m \<in> set selected \<Longrightarrow> wm_capacityMbps m \<le> reference_capacity True selected \<and> 0 < reference_capacity True selected"
proof -
  assume m: "m \<in> set selected"
  let ?cs = "map (\<lambda>m. max (1 / 1000) (wm_capacityMbps m)) selected"
  obtain c where c: "list_max ?cs = Some c" using m by (cases selected) auto
  have "max (1 / 1000) (wm_capacityMbps m) \<le> c" using c m by (intro list_max_ge) auto
  then show ?thesis using c by (simp add: reference_capacity_def)
qed

lemma capacity_factor_bounds:
  assumes "m \<in> set selected"
  shows "1 / 10 \<le> max (1 / 10) (wm_capacityMbps m / reference_capacity True selected) \<and>
    max (1 / 10) (wm_capacityMbps m / reference_capacity True selected) \<le> 1"
  using reference_capacity_ge [OF assms] by (simp add: pos_divide_le_eq)

lemma rat_mult_bounds:
  fixes a b :: rat
  shows "la \<le> a \<Longrightarrow> lb \<le> b \<Longrightarrow> 0 \<le> la \<Longrightarrow> 0 \<le> lb \<Longrightarrow> la * lb \<le> a * b"
    and "0 \<le> a \<Longrightarrow> a \<le> ua \<Longrightarrow> 0 \<le> b \<Longrightarrow> b \<le> ub \<Longrightarrow> a * b \<le> ua * ub"
  by (meson mult_mono order_trans)+

lemma member_weight_bounds:
  assumes m: "m \<in> set selected"
  shows "7 / 2000 \<le> member_weight strategy ca (reference_capacity ca selected) m \<and>
    (strategy \<notin> {''LEAST_UTILIZED'', ''CONNECTION_BASED''} \<longrightarrow>
       member_weight strategy ca (reference_capacity ca selected) m \<le> of_int (wan_weight m))"
proof -
  define c where "c = (if ca then max (1 / 10) (wm_capacityMbps m / reference_capacity ca selected) else 1)"
  define h where "h = headroom_factor (wm_utilization m)"
  define f where "f = health_factor (wm_healthState m)"
  let ?w = "of_int (wan_weight m) * f * c * h"
  have c: "1 / 10 \<le> c" "c \<le> 1" using capacity_factor_bounds [OF m] by (cases ca; simp add: c_def)+
  have h: "1 / 10 \<le> h" "h \<le> 1" using headroom_factor_bounds by (simp_all add: h_def)
  have f: "35 / 100 \<le> f" "f \<le> 1" using health_factor_bounds by (simp_all add: f_def)
  have w: "1 \<le> (of_int (wan_weight m) :: rat)" by (simp add: wan_weight_def)
  have wf: "35 / 100 \<le> of_int (wan_weight m) * f" "of_int (wan_weight m) * f \<le> of_int (wan_weight m)"
    using rat_mult_bounds(1) [OF w f(1)] rat_mult_bounds(2) [OF _ order_refl _ f(2)] w f(1) by simp_all
  have wc: "35 / 1000 \<le> of_int (wan_weight m) * f * c" "of_int (wan_weight m) * f * c \<le> of_int (wan_weight m)"
    using rat_mult_bounds(1) [OF wf(1) c(1)] rat_mult_bounds(2) [OF _ wf(2) _ c(2)] w wf(1) c(1) by simp_all
  have lo: "7 / 2000 \<le> ?w" and hi: "?w \<le> of_int (wan_weight m)"
    using rat_mult_bounds(1) [OF wc(1) h(1)] rat_mult_bounds(2) [OF _ wc(2) _ h(2)] w wc(1) h(1) by simp_all
  have mono: "7 / 2000 \<le> to_fixed 6 x" if "7 / 2000 \<le> x" for x
  proof -
    have "\<lfloor>7001 / 2 :: rat\<rfloor> = 3500" by (rule floor_unique) simp_all
    then have "to_fixed 6 (7 / 2000) = (7 / 2000 :: rat)" by (simp add: to_fixed_def)
    with to_fixed_mono_nonneg [OF _ that, of 6] show ?thesis by simp
  qed
  have "to_fixed 6 (of_int (wan_weight m)) = of_int (wan_weight m)"
  proof -
    have "\<lfloor>(of_int (wan_weight m) :: rat) * 10 ^ 6 + 1 / 2\<rfloor> = wan_weight m * 10 ^ 6"
      by (rule floor_unique) simp_all
    with w show ?thesis by (simp add: to_fixed_def)
  qed
  with lo hi have top: "to_fixed 6 ?w \<le> of_int (wan_weight m)"
    using to_fixed_mono_nonneg [of ?w "of_int (wan_weight m)" 6] by simp
  have "7 / 2000 \<le> max (1 / 10) x" for x :: rat by (rule order_trans [OF _ max.cobounded1]) simp
  with mono lo top show ?thesis
    by (auto simp: member_weight_def Let_def c_def [symmetric] h_def [symmetric] f_def [symmetric])
qed

lemma select_members_filter:
  "select_members strategy ms =
     filter (\<lambda>m. wan_available m \<and> (strategy = ''PRIMARY_SECONDARY'' \<longrightarrow>
        list_all (\<lambda>n. wan_available n \<longrightarrow> wan_priority m \<le> wan_priority n) ms)) ms"
proof (cases "list_min (map wan_priority (filter wan_available ms))")
  case None
  then show ?thesis by (auto simp: select_members_def filter_empty_conv intro!: filter_False [symmetric])
next
  case (Some p)
  have le: "p \<le> wan_priority m" if "m \<in> set ms" "wan_available m" for m
    using list_min_le [OF Some] that by auto
  obtain q where q: "q \<in> set ms" "wan_available q" "wan_priority q = p" using list_min_in [OF Some] by auto
  have "wan_priority m = p \<longleftrightarrow> list_all (\<lambda>n. wan_available n \<longrightarrow> wan_priority m \<le> wan_priority n) ms"
    if "m \<in> set ms" "wan_available m" for m
    using le q that by (fastforce simp: list_all_iff)
  then show ?thesis using Some by (auto simp: select_members_def Let_def intro!: filter_cong)
qed

lemma positive_weights:
  "filter (\<lambda>m. 0 < member_weight strategy ca (reference_capacity ca (select_members strategy ms)) m)
     (select_members strategy ms) = select_members strategy ms"
  using member_weight_bounds [of _ "select_members strategy ms" strategy ca]
  by (intro filter_True) force

lemma decide_wan_ok:
  "policyId \<noteq> [] \<Longrightarrow> strategy \<in> set load_balance_strategies \<Longrightarrow> \<exists>d. decide_wan policyId strategy ms ca = Inr d"
  by (simp add: decide_wan_def Let_def)

text \<open>When the engine decides, the eligible members are exactly the enabled, not draining members in
  a usable health state, in the given order, and for \<open>PRIMARY_SECONDARY\<close> only those of the smallest
  priority among them: no weight is rounded away. Every effective weight is at least 0.0035 and,
  for the strategies that scale the configured weight, at most that weight. Failover is reported
  exactly when some administratively eligible member was left out.\<close>

theorem decision_selects_usable_members:
  assumes "decide_wan policyId strategy members capacityAware = Inr d"
  shows "map em_wanConnectionId (ld_eligible d) = map wm_id (filter (\<lambda>m. wan_available m \<and>
           (strategy = ''PRIMARY_SECONDARY'' \<longrightarrow>
              list_all (\<lambda>n. wan_available n \<longrightarrow> wan_priority m \<le> wan_priority n) members)) members) \<and>
         list_all (\<lambda>e. 7 / 2000 \<le> em_effectiveWeight e \<and>
           (strategy \<in> {''LEAST_UTILIZED'', ''CONNECTION_BASED''} \<or>
              em_effectiveWeight e \<le> of_int (em_configuredWeight e))) (ld_eligible d) \<and>
         ld_failoverActive d = (length (ld_eligible d) < length (filter administratively_eligible members))"
proof -
  let ?sel = "select_members strategy members"
  let ?w = "member_weight strategy capacityAware (reference_capacity capacityAware ?sel)"
  have d: "ld_eligible d = map (\<lambda>m. \<lparr> em_wanConnectionId = wm_id m, em_configuredWeight = wan_weight m,
                    em_effectiveWeight = ?w m, em_priority = wan_priority m, em_healthState = wm_healthState m,
                    em_capacityMbps = wm_capacityMbps m, em_utilization = wm_utilization m \<rparr>) ?sel"
    and f: "ld_failoverActive d = (length (filter administratively_eligible members) > 0 \<and>
              length ?sel < length (filter administratively_eligible members))"
    using assms by (auto simp: decide_wan_def Let_def positive_weights filter_map comp_def split: if_splits)
  have "map em_wanConnectionId (ld_eligible d) = map wm_id ?sel" by (simp add: d)
  moreover have "list_all (\<lambda>e. 7 / 2000 \<le> em_effectiveWeight e \<and>
           (strategy \<in> {''LEAST_UTILIZED'', ''CONNECTION_BASED''} \<or>
              em_effectiveWeight e \<le> of_int (em_configuredWeight e))) (ld_eligible d)"
    using member_weight_bounds [of _ ?sel strategy capacityAware] by (fastforce simp: d list_all_iff)
  moreover have "ld_failoverActive d = (length (ld_eligible d) < length (filter administratively_eligible members))"
    using f by (auto simp: d)
  ultimately show ?thesis unfolding select_members_filter by blast
qed

definition example_wan :: "string \<Rightarrow> rat \<Rightarrow> wan_health_state \<Rightarrow> wan_member" where
  "example_wan i p h = \<lparr>wm_id = i, wm_name = i, wm_interfaceName = None, wm_gateway = None, wm_capacityMbps = 100,
     wm_configuredWeight = 3, wm_priority = p, wm_enabled = True, wm_drainRequested = False, wm_healthState = h,
     wm_utilization = Some 40, wm_activeSessions = 2\<rparr>"

theorem decision_selects_usable_members_witness:
  "\<exists>d. decide_wan ''p'' ''PRIMARY_SECONDARY'' [example_wan ''a'' 1 UNAVAILABLE, example_wan ''b'' 2 HEALTHY,
       example_wan ''c'' 5 HEALTHY] True = Inr d \<and>
     map em_wanConnectionId (ld_eligible d) = [''b''] \<and> ld_failoverActive d"
proof -
  let ?ms = "[example_wan ''a'' 1 UNAVAILABLE, example_wan ''b'' 2 HEALTHY, example_wan ''c'' 5 HEALTHY]"
  obtain d where d: "decide_wan ''p'' ''PRIMARY_SECONDARY'' ?ms True = Inr d"
    using decide_wan_ok [of "''p''" "''PRIMARY_SECONDARY''" ?ms True]
    by (auto simp: load_balance_strategies_def)
  note r = decision_selects_usable_members [OF d]
  have sel: "filter (\<lambda>m. wan_available m \<and> (''PRIMARY_SECONDARY'' = ''PRIMARY_SECONDARY'' \<longrightarrow>
      list_all (\<lambda>n. wan_available n \<longrightarrow> wan_priority m \<le> wan_priority n) ?ms)) ?ms = [example_wan ''b'' 2 HEALTHY]"
    by (simp add: example_wan_def wan_available_def administratively_eligible_def wan_priority_def trunc_rat_def)
  have ids: "map em_wanConnectionId (ld_eligible d) = [''b'']"
    using r unfolding sel by (simp add: example_wan_def)
  then have "length (ld_eligible d) = 1" using length_map [of em_wanConnectionId "ld_eligible d"] by simp
  with r have "ld_failoverActive d" by (simp add: example_wan_def administratively_eligible_def)
  with d ids show ?thesis by (intro exI [of _ d] conjI)
qed

subsection \<open>Probing a WAN\<close>

text \<open>
  The health function gets the numbers of consecutive failures and successes; a monitor that keeps
  them drives it here, one probe at a time and without load figures.
\<close>

record wan_monitor =
  mon_state :: wan_health_state
  mon_failures :: int
  mon_successes :: int

definition probe :: "int \<Rightarrow> int \<Rightarrow> bool \<Rightarrow> wan_monitor \<Rightarrow> wan_monitor" where
  "probe failureThreshold recoveryThreshold success m =
     (let failures = (if success then 0 else mon_failures m + 1);
          successes = (if success then mon_successes m + 1 else 0)
      in \<lparr> mon_state = wt_state (evaluate_wan_health \<lparr> wh_current = mon_state m, wh_success = success,
              wh_consecutiveFailures = failures, wh_consecutiveSuccesses = successes,
              wh_failureThreshold = failureThreshold, wh_recoveryThreshold = recoveryThreshold,
              wh_utilization = None, wh_degradeThreshold = None \<rparr>),
           mon_failures = failures, mon_successes = successes \<rparr>)"

lemma probes_recover:
  "(probe ft rt True ^^ n) \<lparr>mon_state = UNAVAILABLE, mon_failures = f, mon_successes = 0\<rparr> =
     \<lparr>mon_state = (if n = 0 \<or> rt \<le> 1 then UNAVAILABLE else if int n < rt then WAN_RECOVERING else HEALTHY),
      mon_failures = (if n = 0 then f else 0), mon_successes = int n\<rparr>"
  by (induction n) (auto simp: probe_def evaluate_wan_health_def Let_def)

text \<open>A WAN that became unavailable recovers through \<open>RECOVERING\<close> to \<open>HEALTHY\<close> after exactly
  \<open>recoveryThreshold\<close> successful probes when that threshold is at least two. With a threshold of one,
  which the health check accepts, it never leaves \<open>UNAVAILABLE\<close>, however many probes succeed.\<close>

theorem recovery_needs_a_threshold_of_two:
  "mon_state ((probe ft rt True ^^ n) \<lparr>mon_state = UNAVAILABLE, mon_failures = f, mon_successes = 0\<rparr>) =
     (if n = 0 \<or> rt \<le> 1 then UNAVAILABLE else if int n < rt then WAN_RECOVERING else HEALTHY)"
  by (simp add: probes_recover)

lemma probes_fail:
  "(probe ft rt False ^^ n) \<lparr>mon_state = HEALTHY, mon_failures = 0, mon_successes = s\<rparr> =
     \<lparr>mon_state = (if int n \<ge> max 1 ft then UNAVAILABLE else HEALTHY),
      mon_failures = int n, mon_successes = (if n = 0 then s else 0)\<rparr>"
  by (induction n) (auto simp: probe_def evaluate_wan_health_def Let_def)

text \<open>A healthy WAN is taken out of service after exactly \<open>failureThreshold\<close> failed probes in a row
  (at least one), and not before; a disabled or draining WAN keeps its state under every probe.\<close>

theorem failure_threshold_is_exact:
  "mon_state ((probe ft rt False ^^ n) \<lparr>mon_state = HEALTHY, mon_failures = 0, mon_successes = s\<rparr>) =
     (if int n \<ge> max 1 ft then UNAVAILABLE else HEALTHY) \<and>
   mon_state (probe ft rt ok \<lparr>mon_state = DISABLED, mon_failures = f, mon_successes = s\<rparr>) = DISABLED \<and>
   mon_state (probe ft rt ok \<lparr>mon_state = DRAINING, mon_failures = f, mon_successes = s\<rparr>) = DRAINING"
  unfolding probes_fail by (simp add: probe_def evaluate_wan_health_def Let_def)

end
