(* ===== verification/Inet.thy ===== *)
theory Inet
  imports Main "HOL-Library.Word"
begin

text \<open>
  PostgreSQL's \<open>inet\<close> host addresses and \<open>cidr\<close> networks, as far as the address management uses
  them: machine words of 32 or 128 bits, the order of addresses, and the operators \<open><<=\<close>
  (contained in) and \<open>&&\<close> (overlaps).
\<close>

datatype ip = V4 "32 word" | V6 "128 word"

text \<open>All IPv4 addresses come before all IPv6 addresses.\<close>

definition ip_key :: "ip \<Rightarrow> nat" where
  "ip_key a = (case a of V4 w \<Rightarrow> unat w | V6 w \<Rightarrow> 2 ^ 32 + unat w)"

lemma ip_key_inj:
  assumes "ip_key a = ip_key b"
  shows "a = b"
proof -
  have small: "unat w < 2 ^ 32" for w :: "32 word" using unsigned_less [of w, where ?'a = nat] by simp
  show ?thesis
  proof (cases a; cases b)
    fix v w assume "a = V4 v" "b = V4 w"
    with assms show ?thesis by (simp add: ip_key_def word_unat_eq_iff)
  next
    fix v w assume "a = V4 v" "b = V6 w"
    with assms small [of v] show ?thesis by (simp add: ip_key_def)
  next
    fix v w assume "a = V6 v" "b = V4 w"
    with assms small [of w] show ?thesis by (simp add: ip_key_def)
  next
    fix v w assume "a = V6 v" "b = V6 w"
    with assms show ?thesis by (simp add: ip_key_def word_unat_eq_iff)
  qed
qed

instantiation ip :: linorder
begin

definition less_eq_ip :: "ip \<Rightarrow> ip \<Rightarrow> bool" where
  "less_eq_ip a b \<longleftrightarrow> ip_key a \<le> ip_key b"

definition less_ip :: "ip \<Rightarrow> ip \<Rightarrow> bool" where
  "less_ip a b \<longleftrightarrow> ip_key a < ip_key b"

instance
  by standard (auto simp: less_eq_ip_def less_ip_def dest: ip_key_inj)

end

text \<open>A network: an address and the number of its leading bits that count.\<close>

record cidr =
  ci_base :: ip
  ci_length :: nat

definition host_bits :: "ip \<Rightarrow> nat" where
  "host_bits a = (case a of V4 _ \<Rightarrow> 32 | V6 _ \<Rightarrow> 128)"

text \<open>The leading \<open>n\<close> bits agree.\<close>

definition same_prefix :: "nat \<Rightarrow> ip \<Rightarrow> ip \<Rightarrow> bool" where
  "same_prefix n a b = (case (a, b) of
       (V4 v, V4 w) \<Rightarrow> drop_bit (32 - n) v = drop_bit (32 - n) w
     | (V6 v, V6 w) \<Rightarrow> drop_bit (128 - n) v = drop_bit (128 - n) w
     | _ \<Rightarrow> False)"

definition in_network :: "ip \<Rightarrow> cidr \<Rightarrow> bool" where
  "in_network a c = same_prefix (ci_length c) a (ci_base c)"

definition overlaps :: "cidr \<Rightarrow> cidr \<Rightarrow> bool" where
  "overlaps c d = same_prefix (min (ci_length c) (ci_length d)) (ci_base c) (ci_base d)"

lemma same_prefix_sym: "same_prefix n a b = same_prefix n b a"
  by (auto simp: same_prefix_def split: ip.splits)

lemma same_prefix_trans: "same_prefix n a b \<Longrightarrow> same_prefix n b c \<Longrightarrow> same_prefix n a c"
  by (auto simp: same_prefix_def split: ip.splits)

lemma drop_bit_coarser: "drop_bit i v = drop_bit i w \<Longrightarrow> i \<le> j \<Longrightarrow> drop_bit j v = drop_bit j w"
  for v w :: "'a::len word"
proof -
  assume "drop_bit i v = drop_bit i w" and "i \<le> j"
  then have "drop_bit (j - i) (drop_bit i v) = drop_bit (j - i) (drop_bit i w)" by simp
  with \<open>i \<le> j\<close> show ?thesis by simp
qed

lemma same_prefix_mono: "same_prefix n a b \<Longrightarrow> m \<le> n \<Longrightarrow> same_prefix m a b"
  by (auto simp: same_prefix_def split: ip.splits elim: drop_bit_coarser)

lemma overlaps_sym: "overlaps c d = overlaps d c"
  by (simp add: overlaps_def min.commute same_prefix_sym)

text \<open>Two networks that share an address overlap.\<close>

lemma shared_address_overlaps:
  assumes "in_network a c" and "in_network a d"
  shows "overlaps c d"
proof -
  let ?n = "min (ci_length c) (ci_length d)"
  have "same_prefix ?n a (ci_base c)" "same_prefix ?n a (ci_base d)"
    using assms by (auto simp: in_network_def intro: same_prefix_mono)
  then show ?thesis unfolding overlaps_def using same_prefix_sym same_prefix_trans by blast
qed

end
