(* ===== verification/Schema.thy ===== *)
theory Schema
  imports JsValues LoadBalancing Inet
begin

text \<open>
  The database the services share: one record per table row with the columns the services read or
  write, and one record for the whole database. Identifiers are strings; \<open>gen_random_uuid()\<close> and
  \<open>randomUUID()\<close> are the rendering of a counter, so a new identifier is fresh. Times are integers in
  milliseconds and every operation gets the time \<open>now\<close> at which it runs. Money, rates and other
  numeric columns are exact rationals.
\<close>

type_synonym uuid = string
type_synonym time = int

subsection \<open>Tenancy, customers, packages and routers\<close>

record customer =
  cu_tenant :: uuid
  cu_id :: uuid
  cu_fullName :: string
  cu_phone :: "string option"
  cu_active :: bool
  cu_marketingConsent :: bool

record package =
  pk_tenant :: uuid
  pk_id :: uuid
  pk_name :: string
  pk_price :: rat
  pk_currency :: string
  pk_durationSeconds :: int
  pk_dataLimitBytes :: "rat option"
  pk_downloadBps :: "rat option"
  pk_uploadBps :: "rat option"
  pk_active :: bool
  pk_tierCode :: "string option"
  pk_featured :: bool
  pk_createdAt :: time
  pk_devicesPerCode :: "int option"
  pk_freeTrial :: bool
  pk_freeTrialFrequency :: string

record router =
  ro_tenant :: uuid
  ro_id :: uuid
  ro_locationId :: "uuid option"
  ro_status :: string
  ro_lastSeenAt :: "time option"
  ro_activeUsers :: nat
  ro_enabled :: bool
  ro_apiEndpoint :: "string option"
  ro_protocol :: "protocol option"
  ro_managementEnabled :: bool
  ro_credentialsEncrypted :: "string option"
  ro_apiEnabled :: bool
  ro_controllerEndpoint :: "string option"
  ro_capabilities :: json
  ro_syncError :: "string option"

record site_settings =
  ss_tenant :: uuid
  ss_locationId :: uuid
  ss_gracePeriodSeconds :: int
  ss_enabled :: bool

record bandwidth_profile =
  bw_tenant :: uuid
  bw_routerId :: uuid
  bw_capacityMbps :: rat
  bw_activateThresholdPercent :: rat
  bw_aggressiveThresholdPercent :: rat
  bw_recoveryThresholdPercent :: rat
  bw_enabled :: bool

record enforcement_event =
  ee_tenant :: uuid
  ee_routerId :: uuid
  ee_mode :: string
  ee_commandCount :: nat
  ee_applied :: bool
  ee_commands :: json
  ee_error :: "string option"

datatype tenant_status = T_TRIAL | T_ACTIVE | T_SUSPENDED | T_CANCELED

record tenant =
  te_id :: uuid
  te_status :: tenant_status

subsection \<open>Addresses\<close>

record ipam_pool =
  ip_id :: uuid
  ip_tenant :: uuid
  ip_name :: string
  ip_network :: cidr
  ip_gateway :: "ip option"
  ip_role :: string
  ip_allocationMode :: string
  ip_vlanId :: "int option"
  ip_description :: "string option"
  ip_enabled :: bool

datatype address_status = IP_AVAILABLE | IP_RESERVED | IP_ALLOCATED | IP_QUARANTINED

record ipam_address =
  ia_id :: uuid
  ia_tenant :: uuid
  ia_poolId :: uuid
  ia_address :: ip
  ia_status :: address_status
  ia_assignmentType :: string
  ia_reservationRef :: "string option"
  ia_metadata :: json
  ia_customerId :: "uuid option"
  ia_routerId :: "uuid option"
  ia_sessionId :: "uuid option"
  ia_macAddress :: "string option"
  ia_leaseExpiresAt :: "time option"
  ia_allocatedAt :: "time option"
  ia_releasedAt :: "time option"

subsection \<open>Access\<close>

datatype grant_status = G_ACTIVE | G_EXPIRED | G_REVOKED | G_PENDING

record access_grant =
  ag_id :: uuid
  ag_tenant :: uuid
  ag_purchaseId :: "uuid option"
  ag_customerId :: uuid
  ag_routerId :: "uuid option"
  ag_status :: grant_status
  ag_startsAt :: "time option"
  ag_endsAt :: "time option"
  ag_networkPolicy :: json
  ag_deviceLimit :: "int option"
  ag_correlationId :: "string option"
  ag_createdAt :: time

datatype session_status = S_ACTIVE | S_STALE | S_ENDED

record session =
  se_id :: uuid
  se_tenant :: uuid
  se_customerId :: "uuid option"
  se_routerId :: "uuid option"
  se_username :: "string option"
  se_ipAddress :: "string option"
  se_macAddress :: "string option"
  se_startedAt :: time
  se_endedAt :: "time option"
  se_bytesIn :: nat
  se_bytesOut :: nat
  se_status :: session_status
  se_correlationId :: "string option"

record traffic_sample =
  ts_tenant :: uuid
  ts_routerId :: uuid
  ts_customerId :: "uuid option"
  ts_sessionId :: "uuid option"
  ts_bytesIn :: nat
  ts_bytesOut :: nat
  ts_sampledAt :: time

datatype binding_state = B_PENDING | B_ACTIVE | B_SUSPENDED | B_DISABLED | B_EXPIRED

record access_binding =
  ab_id :: uuid
  ab_tenant :: uuid
  ab_customerId :: uuid
  ab_routerId :: "uuid option"
  ab_packageId :: "uuid option"
  ab_username :: string
  ab_accessType :: string
  ab_externalReference :: "string option"
  ab_state :: binding_state
  ab_activatedAt :: "time option"
  ab_suspendedAt :: "time option"
  ab_expiresAt :: "time option"
  ab_correlationId :: "string option"

record access_state_event =
  ae_tenant :: uuid
  ae_bindingId :: uuid
  ae_previousState :: binding_state
  ae_newState :: binding_state
  ae_reason :: string
  ae_source :: string
  ae_paymentId :: "uuid option"
  ae_createdAt :: time

datatype service_state = V_PENDING | V_ACTIVE | V_GRACE | V_SUSPENDED | V_BLOCKED | V_DISCONNECTED | V_FAULT

record customer_service_state =
  cs_id :: uuid
  cs_tenant :: uuid
  cs_customerId :: uuid
  cs_state :: service_state
  cs_reason :: string
  cs_source :: string
  cs_effectiveAt :: time
  cs_expiresAt :: "time option"

record service_state_event =
  ce_tenant :: uuid
  ce_customerId :: uuid
  ce_previousState :: "service_state option"
  ce_newState :: service_state
  ce_reason :: string
  ce_source :: string
  ce_effectiveAt :: time
  ce_createdAt :: time

subsection \<open>Network commands, events and audit\<close>

datatype command_status = QUEUED | SENT | ACCEPTED | EXECUTED | VERIFIED | FAILED | RETRYING | ABANDONED

record network_command =
  nc_id :: uuid
  nc_tenant :: uuid
  nc_routerId :: "uuid option"
  nc_commandType :: string
  nc_actor :: string
  nc_target :: json
  nc_request :: json
  nc_provider :: "protocol option"
  nc_status :: command_status
  nc_attempts :: nat
  nc_response :: "json option"
  nc_verification :: "json option"
  nc_error :: "string option"
  nc_correlationId :: "string option"
  nc_createdAt :: time
  nc_sentAt :: "time option"
  nc_completedAt :: "time option"
  nc_verifiedAt :: "time option"

datatype event_status = E_PENDING | E_PROCESSING | E_PROCESSED | E_FAILED

record domain_event =
  de_id :: uuid
  de_tenant :: uuid
  de_key :: string
  de_type :: string
  de_aggregateType :: "string option"
  de_aggregateId :: "string option"
  de_payload :: json
  de_status :: event_status
  de_attempts :: nat
  de_availableAt :: time
  de_lockedAt :: "time option"
  de_processedAt :: "time option"
  de_lastError :: "string option"
  de_createdAt :: time

record audit_log =
  al_id :: uuid
  al_tenant :: uuid
  al_actorUserId :: "uuid option"
  al_action :: string
  al_resourceType :: string
  al_resourceId :: "string option"
  al_requestId :: "string option"
  al_correlationId :: "string option"
  al_ipAddress :: "string option"
  al_userAgent :: "string option"
  al_metadata :: json
  al_createdAt :: time

subsection \<open>Commerce\<close>

datatype purchase_status = PU_PENDING_PAYMENT | PU_PAID | PU_ACTIVE | PU_CANCELED | PU_EXPIRED

record purchase =
  pu_id :: uuid
  pu_tenant :: uuid
  pu_customerId :: uuid
  pu_packageId :: uuid
  pu_routerId :: "uuid option"
  pu_price :: rat
  pu_currency :: string
  pu_discountAmount :: rat
  pu_promoCodeId :: "uuid option"
  pu_status :: purchase_status
  pu_startsAt :: "time option"
  pu_endsAt :: "time option"
  pu_correlationId :: "string option"
  pu_createdAt :: time

datatype payment_status = PY_INITIATED | PY_PENDING | PY_AUTHORIZED | PY_PAID | PY_FAILED | PY_SUCCESS

record payment =
  py_id :: uuid
  py_tenant :: uuid
  py_customerId :: uuid
  py_purchaseId :: "uuid option"
  py_provider :: string
  py_providerReference :: "string option"
  py_amount :: rat
  py_currency :: string
  py_status :: payment_status
  py_idempotencyKey :: "string option"
  py_correlationId :: "string option"
  py_verified :: bool
  py_verifiedAt :: "time option"
  py_verificationSource :: "string option"
  py_createdAt :: time

record provider_config =
  pc_tenant :: uuid
  pc_provider :: string
  pc_active :: bool
  pc_currencies :: "string list option"
  pc_webhookSecretRef :: "string option"

record payment_event =
  pe_id :: uuid
  pe_tenant :: uuid
  pe_paymentId :: "uuid option"
  pe_provider :: string
  pe_providerEventId :: string
  pe_eventType :: string
  pe_payload :: json
  pe_processingStatus :: string
  pe_correlationId :: "string option"

record ledger_account =
  la_id :: uuid
  la_tenant :: uuid
  la_code :: string
  la_name :: string
  la_type :: string
  la_currency :: string

record ledger_transaction =
  lt_id :: uuid
  lt_tenant :: uuid
  lt_type :: string
  lt_referenceType :: string
  lt_referenceId :: uuid
  lt_correlationId :: "string option"
  lt_description :: string

record ledger_entry =
  le_tenant :: uuid
  le_transactionId :: uuid
  le_accountId :: uuid
  le_currency :: string
  le_debit :: rat
  le_credit :: rat

datatype invoice_status = I_OPEN | I_PARTIALLY_PAID | I_PAID | I_VOID

record invoice =
  iv_tenant :: uuid
  iv_purchaseId :: "uuid option"
  iv_total :: rat
  iv_currency :: string
  iv_amountPaid :: rat
  iv_status :: invoice_status

record webhook_endpoint =
  we_id :: uuid
  we_tenant :: uuid
  we_enabled :: bool
  we_eventTypes :: "string list"

record webhook_delivery =
  wd_tenant :: uuid
  wd_endpointId :: uuid
  wd_eventId :: uuid
  wd_eventType :: string
  wd_payload :: json

datatype promo_type = PERCENTAGE | FIXED
datatype promo_status = P_ACTIVE | P_DISABLED | P_EXPIRED | P_EXHAUSTED

record promo_code =
  pm_id :: uuid
  pm_tenant :: uuid
  pm_code :: string
  pm_type :: promo_type
  pm_value :: rat
  pm_status :: promo_status
  pm_expiresAt :: "time option"
  pm_usageLimitTotal :: "int option"
  pm_usageLimitPerCustomer :: "int option"
  pm_timesRedeemed :: int
  pm_minAmount :: "rat option"
  pm_maxDiscount :: "rat option"
  pm_eligiblePackageIds :: "uuid list option"
  pm_firstPaymentOnly :: bool

record promo_redemption =
  pr_tenant :: uuid
  pr_promoCodeId :: uuid
  pr_customerId :: uuid
  pr_purchaseId :: uuid
  pr_discountAmount :: rat
  pr_correlationId :: "string option"

datatype notification_status = N_PENDING | N_PROCESSING | N_SENT | N_FAILED | N_CANCELED

record notification =
  no_id :: uuid
  no_tenant :: uuid
  no_channel :: string
  no_recipient :: string
  no_eventType :: string
  no_payload :: json
  no_availableAt :: time
  no_dedupeKey :: "string option"
  no_category :: "string option"
  no_campaignId :: "uuid option"
  no_status :: notification_status
  no_attempts :: nat
  no_lockedAt :: "time option"
  no_sentAt :: "time option"
  no_providerMessageId :: "string option"
  no_lastError :: "string option"
  no_createdAt :: time

record sms_campaign =
  sc_id :: uuid
  sc_tenant :: uuid
  sc_name :: string
  sc_category :: string
  sc_message :: string
  sc_recipientCount :: nat
  sc_queuedCount :: nat
  sc_idempotencyKey :: string
  sc_status :: string
  sc_createdAt :: time

record voucher_batch =
  vb_id :: uuid
  vb_tenant :: uuid
  vb_packageId :: uuid
  vb_quantity :: int
  vb_codeFormat :: string
  vb_printSize :: string
  vb_printStyle :: string

datatype voucher_status = UNUSED | USED | V_EXPIRED | V_REVOKED

record voucher =
  vo_id :: uuid
  vo_tenant :: uuid
  vo_packageId :: uuid
  vo_code :: string
  vo_status :: voucher_status
  vo_expiresAt :: "time option"
  vo_batchId :: "uuid option"
  vo_deviceLimit :: int
  vo_usedAt :: "time option"
  vo_createdAt :: time

subsection \<open>The database\<close>

text \<open>
  The calls made to network devices, with the sessions they are for, in order. They are not in the
  database, but they belong to the state that the operations change.
\<close>

datatype device_method = Dev_apply | Dev_verify | Dev_disconnect | Dev_verify_disconnected | Dev_clear | Dev_reconcile

record device_call =
  dc_method :: device_method
  dc_protocol :: protocol
  dc_sessions :: "uuid option list"

text \<open>RADIUS: the network access servers with their secrets, the credentials of the bindings, and the two logs.\<close>

record radius_nas =
  rn_id :: uuid
  rn_tenant :: uuid
  rn_name :: string
  rn_address :: string
  rn_secretEncrypted :: string
  rn_coaPort :: nat
  rn_enabled :: bool

record radius_credential =
  rd_tenant :: uuid
  rd_bindingId :: uuid
  rd_salt :: string
  rd_hash :: string
  rd_enabled :: bool

record radius_event =
  re_tenant :: uuid
  re_nasId :: uuid
  re_code :: "8 word"
  re_identifier :: "8 word"
  re_username :: string
  re_result :: string
  re_error :: "string option"
  re_correlationId :: "string option"

record accounting_event =
  ra_tenant :: uuid
  ra_nasId :: uuid
  ra_username :: "string option"
  ra_sessionId :: "string option"
  ra_statusType :: string
  ra_callingStation :: "string option"
  ra_inputOctets :: "nat option"
  ra_outputOctets :: "nat option"
  ra_sessionTime :: "nat option"
  ra_rawAttributes :: "(8 word \<times> 8 word list) list"
  ra_correlationId :: string

text \<open>The vault of a tenant's secrets.\<close>

record tenant_secret =
  tx_id :: uuid
  tx_tenant :: uuid
  tx_key :: string
  tx_displayName :: string
  tx_purpose :: string
  tx_encrypted :: string
  tx_keyId :: string
  tx_metadata :: json
  tx_version :: nat
  tx_updatedBy :: uuid
  tx_rotatedAt :: "time option"

text \<open>Field work: jobs with their events, checklists and photos, and the receipts of operations synchronised from devices.\<close>

record network_site =
  ns_id :: uuid
  ns_tenant :: uuid
  ns_name :: string
  ns_siteType :: string
  ns_status :: string
  ns_parentId :: "uuid option"

datatype job_status = J_OPEN | J_ASSIGNED | J_IN_PROGRESS | J_BLOCKED | J_COMPLETED | J_CANCELED

record network_job =
  nj_id :: uuid
  nj_tenant :: uuid
  nj_customerId :: "uuid option"
  nj_siteId :: "uuid option"
  nj_assignedUserId :: "uuid option"
  nj_jobType :: string
  nj_status :: job_status
  nj_priority :: string
  nj_title :: string
  nj_description :: "string option"
  nj_scheduledAt :: "time option"
  nj_completedAt :: "time option"
  nj_createdAt :: time

record job_event =
  jv_tenant :: uuid
  jv_jobId :: uuid
  jv_actor :: uuid
  jv_type :: string
  jv_from :: "job_status option"
  jv_to :: job_status
  jv_note :: "string option"
  jv_createdAt :: time

record checklist_item =
  ck_tenant :: uuid
  ck_jobId :: uuid
  ck_key :: string
  ck_label :: string
  ck_checked :: bool
  ck_checkedBy :: uuid
  ck_checkedAt :: "time option"

record job_attachment =
  jt_id :: uuid
  jt_tenant :: uuid
  jt_jobId :: uuid
  jt_photoId :: uuid
  jt_fileName :: string
  jt_contentType :: string
  jt_content :: "8 word list"
  jt_sha256 :: string
  jt_createdBy :: uuid
  jt_createdAt :: time

record sync_receipt =
  sr_tenant :: uuid
  sr_operationId :: uuid
  sr_jobId :: uuid
  sr_type :: string
  sr_result :: "json option"

text \<open>Workflows: definitions with their versions, runs, and what the steps of a run leave behind.\<close>

datatype trigger_type = TR_MANUAL | TR_EVENT | TR_SCHEDULE | TR_WEBHOOK

record workflow =
  wf_id :: uuid
  wf_tenant :: uuid
  wf_name :: string
  wf_description :: string
  wf_trigger :: trigger_type
  wf_config :: json
  wf_steps :: json
  wf_enabled :: bool
  wf_version :: nat
  wf_tokenHash :: "string option"
  wf_nextRunAt :: "time option"

record workflow_version =
  wv_tenant :: uuid
  wv_workflowId :: uuid
  wv_version :: nat
  wv_definition :: json

datatype run_status = R_QUEUED | R_RUNNING | R_WAITING_APPROVAL | R_SUCCEEDED | R_FAILED | R_CANCELLED

record workflow_run =
  wr_id :: uuid
  wr_tenant :: uuid
  wr_workflowId :: uuid
  wr_key :: string
  wr_trigger :: string
  wr_triggerPayload :: json
  wr_executionPayload :: json
  wr_version :: nat
  wr_steps :: json
  wr_status :: run_status
  wr_currentStep :: nat
  wr_attempts :: nat
  wr_results :: "json list"
  wr_lastError :: "string option"
  wr_nextAttemptAt :: time
  wr_lockedAt :: "time option"
  wr_startedAt :: "time option"
  wr_completedAt :: "time option"
  wr_createdAt :: time

record workflow_alert =
  wa_id :: uuid
  wa_tenant :: uuid
  wa_runId :: uuid
  wa_stepIndex :: nat
  wa_severity :: string
  wa_title :: string
  wa_details :: json
  wa_status :: string

datatype approval_status = AP_PENDING | AP_APPROVED | AP_REJECTED

record workflow_approval =
  wp_id :: uuid
  wp_tenant :: uuid
  wp_runId :: uuid
  wp_stepIndex :: nat
  wp_title :: string
  wp_details :: json
  wp_status :: approval_status
  wp_decidedBy :: "uuid option"
  wp_note :: "string option"

record action_receipt =
  wx_tenant :: uuid
  wx_runId :: uuid
  wx_stepIndex :: nat
  wx_deliveries :: "nat option"

record integration =
  ig_id :: uuid
  ig_tenant :: uuid
  ig_name :: string
  ig_provider :: string
  ig_baseUrl :: "string option"
  ig_secretRef :: "uuid option"
  ig_config :: json
  ig_enabled :: bool

record db =
  next_id :: nat
  deviceCalls :: "device_call list"
  customers :: "customer list"
  packages :: "package list"
  routers :: "router list"
  siteSettings :: "site_settings list"
  accessGrants :: "access_grant list"
  sessions :: "session list"
  trafficSamples :: "traffic_sample list"
  accessBindings :: "access_binding list"
  accessStateEvents :: "access_state_event list"
  serviceStates :: "customer_service_state list"
  serviceStateEvents :: "service_state_event list"
  networkCommands :: "network_command list"
  domainEvents :: "domain_event list"
  auditLogs :: "audit_log list"
  purchases :: "purchase list"
  payments :: "payment list"
  providerConfigs :: "provider_config list"
  paymentEvents :: "payment_event list"
  ledgerAccounts :: "ledger_account list"
  ledgerTransactions :: "ledger_transaction list"
  ledgerEntries :: "ledger_entry list"
  invoices :: "invoice list"
  webhookEndpoints :: "webhook_endpoint list"
  webhookDeliveries :: "webhook_delivery list"
  promoCodes :: "promo_code list"
  promoRedemptions :: "promo_redemption list"
  voucherBatches :: "voucher_batch list"
  vouchers :: "voucher list"
  tenants :: "tenant list"
  bandwidthProfiles :: "bandwidth_profile list"
  enforcementEvents :: "enforcement_event list"
  ipamPools :: "ipam_pool list"
  ipamAddresses :: "ipam_address list"
  notifications :: "notification list"
  smsCampaigns :: "sms_campaign list"
  radiusNas :: "radius_nas list"
  radiusCredentials :: "radius_credential list"
  radiusEvents :: "radius_event list"
  accountingEvents :: "accounting_event list"
  tenantSecrets :: "tenant_secret list"
  networkSites :: "network_site list"
  networkJobs :: "network_job list"
  jobEvents :: "job_event list"
  checklistItems :: "checklist_item list"
  jobAttachments :: "job_attachment list"
  syncReceipts :: "sync_receipt list"
  workflows :: "workflow list"
  workflowVersions :: "workflow_version list"
  workflowRuns :: "workflow_run list"
  workflowAlerts :: "workflow_alert list"
  workflowApprovals :: "workflow_approval list"
  actionReceipts :: "action_receipt list"
  integrations :: "integration list"

definition empty_db :: db where
  "empty_db = \<lparr> next_id = 0, deviceCalls = [], customers = [], packages = [], routers = [], siteSettings = [], accessGrants = [],
     sessions = [], trafficSamples = [], accessBindings = [], accessStateEvents = [], serviceStates = [],
     serviceStateEvents = [], networkCommands = [], domainEvents = [], auditLogs = [], purchases = [],
     payments = [], providerConfigs = [], paymentEvents = [], ledgerAccounts = [], ledgerTransactions = [],
     ledgerEntries = [], invoices = [], webhookEndpoints = [], webhookDeliveries = [], promoCodes = [],
     promoRedemptions = [], voucherBatches = [], vouchers = [], tenants = [],
     bandwidthProfiles = [], enforcementEvents = [], ipamPools = [], ipamAddresses = [], notifications = [], smsCampaigns = [],
     radiusNas = [], radiusCredentials = [], radiusEvents = [], accountingEvents = [],
     tenantSecrets = [], networkSites = [], networkJobs = [], jobEvents = [], checklistItems = [], jobAttachments = [], syncReceipts = [],
     workflows = [], workflowVersions = [], workflowRuns = [], workflowAlerts = [], workflowApprovals = [], actionReceipts = [], integrations = [] \<rparr>"

definition new_uuid :: "db \<Rightarrow> uuid" where
  "new_uuid s = nat_str (next_id s)"

text \<open>Identifiers of a table that were handed out by the counter.\<close>

definition fresh_ids :: "db \<Rightarrow> uuid list \<Rightarrow> bool" where
  "fresh_ids s ids \<longleftrightarrow> (\<forall>i\<in>set ids. \<forall>n. i = nat_str n \<longrightarrow> n < next_id s)"

lemma fresh_ids_new: "fresh_ids s ids \<Longrightarrow> new_uuid s \<notin> set ids"
  by (auto simp: fresh_ids_def new_uuid_def)

lemma fresh_ids_extend:
  "fresh_ids s ids \<Longrightarrow> next_id s < next_id s' \<Longrightarrow> fresh_ids s' (ids @ [new_uuid s])"
  by (auto simp: fresh_ids_def new_uuid_def)

lemma fresh_ids_mono: "fresh_ids s ids \<Longrightarrow> next_id s \<le> next_id s' \<Longrightarrow> fresh_ids s' ids"
  by (fastforce simp: fresh_ids_def)

lemma new_uuid_nonempty [simp]: "new_uuid s \<noteq> []"
  by (simp add: new_uuid_def)

end
