(* ===== verification/AuditTrail.thy ===== *)
theory AuditTrail
  imports Schema
begin

text \<open>
  The audit trail (\<open>audit/audit.service.ts\<close>): sanitising of metadata, recording, and the check of the
  hash chain. Strings are sequences of 8 bit characters, the ellipsis its UTF-8 bytes. The functions of
  PostgreSQL that the chain check calls are parameters: the digest, the text of a \<open>jsonb\<close> value and the text of an epoch.
\<close>

subsection \<open>Sanitising metadata\<close>

definition sensitive_words :: "string list" where
  "sensitive_words = [''password'', ''passwd'', ''passcode'', ''secret'', ''token'', ''apikey'', ''api-key'', ''api_key'',
     ''credential'', ''authorization'', ''cookie'', ''privatekey'', ''private-key'', ''private_key'', ''encrypted'']"

fun has_prefix :: "string \<Rightarrow> string \<Rightarrow> bool" where
  "has_prefix [] s = True"
| "has_prefix (c # cs) [] = False"
| "has_prefix (c # cs) (d # ds) = (c = d \<and> has_prefix cs ds)"

fun contains :: "string \<Rightarrow> string \<Rightarrow> bool" where
  "contains w [] = (w = [])"
| "contains w (c # cs) = (has_prefix w (c # cs) \<or> contains w cs)"

text \<open>\<open>SENSITIVE_KEY.test\<close>: the alternatives that contain \<open>token\<close> or \<open>secret\<close> are covered by those words.\<close>

definition sensitive_key :: "string \<Rightarrow> bool" where
  "sensitive_key k \<longleftrightarrow> list_ex (\<lambda>w. contains w (js_lower k)) sensitive_words"

definition ellipsis :: string where
  "ellipsis = map char_of [226, 128, 166 :: nat]"

definition redacted :: json where
  "redacted = JStr ''[REDACTED]''"

definition sanitize_string :: "string \<Rightarrow> string" where
  "sanitize_string s = (if length s > 2000 then take 2000 s @ ellipsis else s)"

function sanitize :: "json \<Rightarrow> nat \<Rightarrow> json" where
  "sanitize v depth =
     (if depth > 8 then JStr ''[TRUNCATED]''
      else (case v of
          JStr s \<Rightarrow> JStr (sanitize_string s)
        | JArr xs \<Rightarrow> JArr (map (\<lambda>x. sanitize x (depth + 1)) (take 100 xs))
        | JObj kvs \<Rightarrow> JObj (map (\<lambda>kv. (fst kv, if sensitive_key (fst kv) then redacted
                                             else sanitize (snd kv) (depth + 1))) (take 200 kvs))
        | _ \<Rightarrow> v))"
  by pat_completeness auto
termination by (relation "measure (\<lambda>(v, d). 9 - d)") auto

declare sanitize.simps [simp del]

text \<open>What a sanitised document looks like at a given depth.\<close>

fun clean :: "nat \<Rightarrow> json \<Rightarrow> bool" where
  "clean d (JStr s) = (length s \<le> 2003)"
| "clean d (JArr xs) = (d \<le> 8 \<and> length xs \<le> 100 \<and> list_all (clean (d + 1)) xs)"
| "clean d (JObj kvs) = (d \<le> 8 \<and> length kvs \<le> 200 \<and>
     list_all (\<lambda>kv. if sensitive_key (fst kv) then snd kv = redacted else clean (d + 1) (snd kv)) kvs)"
| "clean d _ = True"

lemma length_ellipsis [simp]: "length ellipsis = 3"
  by (simp add: ellipsis_def)

lemma sanitize_string_idem [simp]: "sanitize_string (sanitize_string s) = sanitize_string s"
  by (auto simp: sanitize_string_def)

lemma sanitize_clean: "clean depth (sanitize v depth)"
proof (induction v depth rule: sanitize.induct)
  case (1 v depth)
  show ?case
  proof (cases "depth > 8")
    case True
    then show ?thesis by (simp add: sanitize.simps)
  next
    case False
    then show ?thesis
      using 1 by (cases v) (auto simp: sanitize.simps [of _ depth] sanitize_string_def list_all_iff redacted_def)
  qed
qed

lemma sanitize_idem: "sanitize (sanitize v depth) depth = sanitize v depth"
proof (induction v depth rule: sanitize.induct)
  case (1 v depth)
  show ?case
  proof (cases "depth > 8")
    case True
    then show ?thesis by (simp add: sanitize.simps)
  next
    case False
    show ?thesis
    proof (cases v)
      case (JArr xs)
      have "map ((\<lambda>x. sanitize x (depth + 1)) \<circ> (\<lambda>x. sanitize x (depth + 1))) (take 100 xs)
          = map (\<lambda>x. sanitize x (depth + 1)) (take 100 xs)"
        using 1(1) [OF False JArr] by auto
      with JArr False show ?thesis by (simp add: sanitize.simps [of _ depth] take_map)
    next
      case (JObj kvs)
      have "map ((\<lambda>kv. (fst kv, if sensitive_key (fst kv) then redacted else sanitize (snd kv) (depth + 1))) \<circ>
                 (\<lambda>kv. (fst kv, if sensitive_key (fst kv) then redacted else sanitize (snd kv) (depth + 1)))) (take 200 kvs)
          = map (\<lambda>kv. (fst kv, if sensitive_key (fst kv) then redacted else sanitize (snd kv) (depth + 1))) (take 200 kvs)"
        using 1(2) [OF False JObj] by auto
      with JObj False show ?thesis by (simp add: sanitize.simps [of _ depth] take_map)
    qed (use False in \<open>simp_all add: sanitize.simps [of _ depth]\<close>)
  qed
qed

text \<open>Whatever metadata is recorded, no property whose name looks like a credential keeps its
  value, at any depth; strings, arrays and objects are cut to the limits, nothing is nested deeper
  than nine levels, and sanitising a sanitised document changes nothing.\<close>

theorem sanitised_metadata_hides_secrets:
  "clean 0 (sanitize v 0) \<and> sanitize (sanitize v 0) 0 = sanitize v 0"
  by (simp only: sanitize_clean sanitize_idem)

subsection \<open>Recording\<close>

record audit_context =
  ac_userId :: "uuid option"
  ac_requestId :: "string option"
  ac_correlationId :: "string option"
  ac_ipAddress :: "string option"
  ac_userAgent :: "string option"

definition no_context :: audit_context where
  "no_context = \<lparr> ac_userId = None, ac_requestId = None, ac_correlationId = None, ac_ipAddress = None, ac_userAgent = None \<rparr>"

text \<open>\<open>x ?? y\<close>\<close>

definition or_else :: "'a option \<Rightarrow> 'a option \<Rightarrow> 'a option" where
  "or_else x y = (case x of None \<Rightarrow> y | Some v \<Rightarrow> Some v)"

text \<open>\<open>record\<close>: \<open>cid\<close> is the correlation id of the request, \<open>getCorrelationId()\<close>.\<close>

definition audit_record ::
  "string option \<Rightarrow> time \<Rightarrow> uuid \<Rightarrow> string \<Rightarrow> string \<Rightarrow> string option \<Rightarrow> json \<Rightarrow> audit_context \<Rightarrow> (db, uuid) operation" where
  "audit_record cid now tenant action resourceType resourceId metadata ctx s =
     (Inr (new_uuid s), s\<lparr> next_id := next_id s + 1,
        auditLogs := insert_row \<lparr> al_id = new_uuid s, al_tenant = tenant, al_actorUserId = ac_userId ctx,
          al_action = js_upper (js_trim action), al_resourceType = js_lower (js_trim resourceType),
          al_resourceId = resourceId, al_requestId = ac_requestId ctx,
          al_correlationId = or_else (ac_correlationId ctx) (or_else cid (ac_requestId ctx)),
          al_ipAddress = ac_ipAddress ctx, al_userAgent = ac_userAgent ctx,
          al_metadata = sanitize metadata 0, al_createdAt = now \<rparr> (auditLogs s) \<rparr>)"

text \<open>Some services insert their audit entries directly, inside their transactions and without the sanitising.\<close>

definition insert_audit :: "time \<Rightarrow> uuid \<Rightarrow> uuid \<Rightarrow> string \<Rightarrow> string \<Rightarrow> string option \<Rightarrow> audit_context \<Rightarrow> json \<Rightarrow> db \<Rightarrow> db" where
  "insert_audit now tenant actor action resource i ctx metadata s =
     s\<lparr> next_id := next_id s + 1,
        auditLogs := insert_row \<lparr> al_id = new_uuid s, al_tenant = tenant, al_actorUserId = Some actor, al_action = action, al_resourceType = resource,
          al_resourceId = i, al_requestId = ac_requestId ctx, al_correlationId = ac_correlationId ctx, al_ipAddress = ac_ipAddress ctx,
          al_userAgent = ac_userAgent ctx, al_metadata = metadata, al_createdAt = now \<rparr> (auditLogs s) \<rparr>"

lemma insert_audit_frame [simp]:
  "next_id (insert_audit now tenant actor action resource i ctx metadata s) = next_id s + 1"
  "tenantSecrets (insert_audit now tenant actor action resource i ctx metadata s) = tenantSecrets s"
  "networkJobs (insert_audit now tenant actor action resource i ctx metadata s) = networkJobs s"
  "jobEvents (insert_audit now tenant actor action resource i ctx metadata s) = jobEvents s"
  "jobAttachments (insert_audit now tenant actor action resource i ctx metadata s) = jobAttachments s"
  "syncReceipts (insert_audit now tenant actor action resource i ctx metadata s) = syncReceipts s"
  by (simp_all add: insert_audit_def)

text \<open>\<open>list\<close>: the newest entries of the tenant; the join with the user names is left out.\<close>

definition audit_list :: "uuid \<Rightarrow> jsnum \<Rightarrow> db \<Rightarrow> audit_log list" where
  "audit_list tenant limit s =
     order_limit (\<lambda>a. - al_createdAt a) (nat (clamp_limit 100 1 500 limit)) (select (\<lambda>a. al_tenant a = tenant) (auditLogs s))"

definition clean_audit_log :: "db \<Rightarrow> bool" where
  "clean_audit_log s \<longleftrightarrow> list_all (\<lambda>a. clean 0 (al_metadata a)) (auditLogs s)"

lemma audit_record_clean:
  "clean_audit_log s \<Longrightarrow> clean_audit_log (snd (audit_record cid now t a rt ri m ctx s))"
  by (auto simp: clean_audit_log_def audit_record_def list_all_iff sanitize_clean)

text \<open>What a record of an audit entry leaves alone: everything but the audit table and the counter.\<close>

lemma audit_record_Inr [simp]: "fst (audit_record cid now t a rt ri m ctx s) = Inr (new_uuid s)"
  by (simp add: audit_record_def)

lemma audit_record_frame [simp]:
  "next_id (snd (audit_record cid now t a rt ri m ctx s)) = next_id s + 1"
  "customers (snd (audit_record cid now t a rt ri m ctx s)) = customers s"
  "packages (snd (audit_record cid now t a rt ri m ctx s)) = packages s"
  "routers (snd (audit_record cid now t a rt ri m ctx s)) = routers s"
  "siteSettings (snd (audit_record cid now t a rt ri m ctx s)) = siteSettings s"
  "accessGrants (snd (audit_record cid now t a rt ri m ctx s)) = accessGrants s"
  "sessions (snd (audit_record cid now t a rt ri m ctx s)) = sessions s"
  "networkCommands (snd (audit_record cid now t a rt ri m ctx s)) = networkCommands s"
  "domainEvents (snd (audit_record cid now t a rt ri m ctx s)) = domainEvents s"
  "purchases (snd (audit_record cid now t a rt ri m ctx s)) = purchases s"
  "payments (snd (audit_record cid now t a rt ri m ctx s)) = payments s"
  "vouchers (snd (audit_record cid now t a rt ri m ctx s)) = vouchers s"
  "voucherBatches (snd (audit_record cid now t a rt ri m ctx s)) = voucherBatches s"
  "trafficSamples (snd (audit_record cid now t a rt ri m ctx s)) = trafficSamples s"
  "serviceStates (snd (audit_record cid now t a rt ri m ctx s)) = serviceStates s"
  "ipamPools (snd (audit_record cid now t a rt ri m ctx s)) = ipamPools s"
  "ipamAddresses (snd (audit_record cid now t a rt ri m ctx s)) = ipamAddresses s"
  "deviceCalls (snd (audit_record cid now t a rt ri m ctx s)) = deviceCalls s"
  by (simp_all add: audit_record_def)

subsection \<open>The hash chain\<close>

text \<open>
  A row of \<open>audit_logs\<close> with its chain columns. \<open>digest\<close> stands for the hexadecimal SHA-256 of
  PostgreSQL, \<open>render\<close> for the cast of a \<open>jsonb\<close> value to text and \<open>epoch\<close> for \<open>extract(epoch from created_at)::text\<close>.
\<close>

record chain_entry =
  ch_sequence :: "int option"
  ch_previousHash :: string
  ch_entryHash :: string
  ch_row :: audit_log

record chain_head =
  hd_lastSequence :: int
  hd_lastHash :: string

record integrity_report =
  ir_valid :: bool
  ir_checkedEntries :: nat
  ir_invalidEntries :: nat
  ir_headMatches :: bool

text \<open>The object that is hashed: every column of the row but those of the chain.\<close>

definition audit_document :: "(time \<Rightarrow> string) \<Rightarrow> audit_log \<Rightarrow> json" where
  "audit_document epoch a = jsonb (JObj
     [(''id'', JStr (al_id a)), (''tenantId'', JStr (al_tenant a)), (''actorUserId'', or_null JStr (al_actorUserId a)),
      (''action'', JStr (al_action a)), (''resourceType'', JStr (al_resourceType a)), (''resourceId'', or_null JStr (al_resourceId a)),
      (''requestId'', or_null JStr (al_requestId a)), (''correlationId'', or_null JStr (al_correlationId a)),
      (''ipAddress'', or_null JStr (al_ipAddress a)), (''userAgent'', or_null JStr (al_userAgent a)), (''metadata'', al_metadata a),
      (''createdAtEpoch'', JStr (epoch (al_createdAt a)))])"

definition hashed_text :: "(json \<Rightarrow> string) \<Rightarrow> (time \<Rightarrow> string) \<Rightarrow> chain_entry \<Rightarrow> string" where
  "hashed_text render epoch e = ch_previousHash e @ render (audit_document epoch (ch_row e))"

definition zero_hash :: string where
  "zero_hash = replicate 64 (CHR ''0'')"

text \<open>\<open>ORDER BY chain_sequence\<close>: rows without a sequence number come last.\<close>

definition chain_order :: "chain_entry list \<Rightarrow> chain_entry list" where
  "chain_order es = sort_key (\<lambda>e. the (ch_sequence e)) (filter (\<lambda>e. ch_sequence e \<noteq> None) es)
     @ filter (\<lambda>e. ch_sequence e = None) es"

text \<open>The rows that differ from what their place in the order, \<open>row_number()\<close> and \<open>lag(entry_hash)\<close>, demands.\<close>

fun invalid_rows :: "(string \<Rightarrow> string) \<Rightarrow> (json \<Rightarrow> string) \<Rightarrow> (time \<Rightarrow> string) \<Rightarrow> int \<Rightarrow> string \<Rightarrow> chain_entry list \<Rightarrow> nat" where
  "invalid_rows digest render epoch expected prior [] = 0"
| "invalid_rows digest render epoch expected prior (e # es) =
     (if ch_sequence e \<noteq> Some expected \<or> ch_previousHash e \<noteq> prior \<or> ch_entryHash e \<noteq> digest (hashed_text render epoch e)
      then 1 else 0) + invalid_rows digest render epoch (expected + 1) (ch_entryHash e) es"

definition last_sequence :: "chain_entry list \<Rightarrow> int" where
  "last_sequence ordered = (case rev (filter (\<lambda>e. ch_sequence e \<noteq> None) ordered) of
     [] \<Rightarrow> 0 | e # _ \<Rightarrow> the (ch_sequence e))"

definition verify_integrity ::
  "(string \<Rightarrow> string) \<Rightarrow> (json \<Rightarrow> string) \<Rightarrow> (time \<Rightarrow> string) \<Rightarrow> chain_entry list \<Rightarrow> chain_head option \<Rightarrow> integrity_report" where
  "verify_integrity digest render epoch entries head =
     (let ordered = chain_order entries;
          invalid = invalid_rows digest render epoch 1 zero_hash ordered;
          total = length entries;
          headMatches =
            (if total = 0
             then (case head of None \<Rightarrow> True | Some h \<Rightarrow> hd_lastSequence h = 0 \<and> hd_lastHash h = zero_hash)
             else (case head of None \<Rightarrow> False
                   | Some h \<Rightarrow> hd_lastSequence h = last_sequence ordered \<and> hd_lastHash h = ch_entryHash (last ordered)))
      in \<lparr> ir_valid = (invalid = 0 \<and> headMatches), ir_checkedEntries = total,
           ir_invalidEntries = invalid + (if headMatches then 0 else 1), ir_headMatches = headMatches \<rparr>)"

fun chain_ok :: "(chain_entry \<Rightarrow> string) \<Rightarrow> (string \<Rightarrow> string) \<Rightarrow> int \<Rightarrow> string \<Rightarrow> chain_entry list \<Rightarrow> bool" where
  "chain_ok hashed digest n prior [] = True"
| "chain_ok hashed digest n prior (e # es) =
     (ch_sequence e = Some n \<and> ch_previousHash e = prior \<and>
      ch_entryHash e = digest (hashed e) \<and> chain_ok hashed digest (n + 1) (ch_entryHash e) es)"

lemma invalid_rows_0: "invalid_rows digest render epoch n prior es = 0 \<longleftrightarrow> chain_ok (hashed_text render epoch) digest n prior es"
  by (induction es arbitrary: n prior) auto

lemma chain_ok_snoc:
  "chain_ok hashed digest n prior (es @ [e]) \<longleftrightarrow> chain_ok hashed digest n prior es \<and>
     ch_sequence e = Some (n + int (length es)) \<and>
     ch_previousHash e = (if es = [] then prior else ch_entryHash (last es)) \<and>
     ch_entryHash e = digest (hashed e)"
  by (induction es arbitrary: n prior) (auto simp: algebra_simps)

lemma chain_ok_sequence: "chain_ok hashed digest n prior es \<Longrightarrow> e \<in> set es \<Longrightarrow> ch_sequence e \<noteq> None"
  by (induction es arbitrary: n prior) auto

lemma length_chain_order [simp]: "length (chain_order es) = length es"
  using sum_length_filter_compl [of "\<lambda>e. ch_sequence e \<noteq> None" es] by (simp add: chain_order_def)

lemma chain_last_sequence:
  assumes "chain_ok hashed digest 1 prior es"
  shows "last_sequence es = int (length es)"
proof (cases es rule: rev_cases)
  case Nil
  then show ?thesis by (simp add: last_sequence_def)
next
  case (snoc fs f)
  have "filter (\<lambda>e. ch_sequence e \<noteq> None) es = es"
    using chain_ok_sequence [OF assms] by (intro filter_True) auto
  with snoc assms show ?thesis by (simp add: last_sequence_def chain_ok_snoc)
qed

lemma chain_ok_last_hash:
  assumes "chain_ok hashed digest n prior es" and "\<And>x. length (digest x) = length prior"
  shows "length (if es = [] then prior else ch_entryHash (last es)) = length prior"
  using assms by (cases es rule: rev_cases) (simp_all add: chain_ok_snoc)

text \<open>The document tells the rows apart, up to what \<open>jsonb\<close> forgets of the metadata.\<close>

definition stored_row :: "audit_log \<Rightarrow> audit_log" where
  "stored_row a = a\<lparr> al_metadata := jsonb (al_metadata a) \<rparr>"

lemma or_null_JStr_eq [simp]: "or_null JStr x = or_null JStr y \<longleftrightarrow> x = y"
  by (simp add: or_null_def split: option.split)

lemma jsonb_or_null_JStr [simp]: "jsonb (or_null JStr x) = or_null JStr x"
  by (simp add: or_null_def split: option.split)

lemma jsonb_object_eq:
  assumes "jsonb (JObj xs) = jsonb (JObj ys)" and "distinct (map fst xs)" and "map fst ys = map fst xs"
  shows "map_of (map (\<lambda>kv. (fst kv, jsonb (snd kv))) xs) = map_of (map (\<lambda>kv. (fst kv, jsonb (snd kv))) ys)"
proof -
  have sorted: "sort_key fst (map (\<lambda>kv. (fst kv, jsonb (snd kv))) xs) = sort_key fst (map (\<lambda>kv. (fst kv, jsonb (snd kv))) ys)"
    using assms(1) by (simp only: jsonb.simps json.inject)
  have "set (map (\<lambda>kv. (fst kv, jsonb (snd kv))) xs) = set (map (\<lambda>kv. (fst kv, jsonb (snd kv))) ys)"
    by (rule arg_cong [where f = set, OF sorted, unfolded set_sort])
  moreover have "distinct (map fst (map (\<lambda>kv. (fst kv, jsonb (snd kv))) xs))" "distinct (map fst (map (\<lambda>kv. (fst kv, jsonb (snd kv))) ys))"
    using assms(2,3) by (simp_all add: comp_def)
  ultimately show ?thesis by (simp add: map_of_inject_set)
qed

lemma audit_document_eq:
  assumes "audit_document epoch a = audit_document epoch b" and "epoch (al_createdAt a) = epoch (al_createdAt b) \<Longrightarrow> al_createdAt a = al_createdAt b"
  shows "stored_row a = stored_row b"
proof -
  have same: "map_of (map (\<lambda>kv. (fst kv, jsonb (snd kv)))
     [(''id'', JStr (al_id a)), (''tenantId'', JStr (al_tenant a)), (''actorUserId'', or_null JStr (al_actorUserId a)),
      (''action'', JStr (al_action a)), (''resourceType'', JStr (al_resourceType a)), (''resourceId'', or_null JStr (al_resourceId a)),
      (''requestId'', or_null JStr (al_requestId a)), (''correlationId'', or_null JStr (al_correlationId a)),
      (''ipAddress'', or_null JStr (al_ipAddress a)), (''userAgent'', or_null JStr (al_userAgent a)), (''metadata'', al_metadata a),
      (''createdAtEpoch'', JStr (epoch (al_createdAt a)))]) k = map_of (map (\<lambda>kv. (fst kv, jsonb (snd kv)))
     [(''id'', JStr (al_id b)), (''tenantId'', JStr (al_tenant b)), (''actorUserId'', or_null JStr (al_actorUserId b)),
      (''action'', JStr (al_action b)), (''resourceType'', JStr (al_resourceType b)), (''resourceId'', or_null JStr (al_resourceId b)),
      (''requestId'', or_null JStr (al_requestId b)), (''correlationId'', or_null JStr (al_correlationId b)),
      (''ipAddress'', or_null JStr (al_ipAddress b)), (''userAgent'', or_null JStr (al_userAgent b)), (''metadata'', al_metadata b),
      (''createdAtEpoch'', JStr (epoch (al_createdAt b)))]) k" for k
    using jsonb_object_eq [OF assms(1) [unfolded audit_document_def]] by simp
  have "al_id a = al_id b" "al_tenant a = al_tenant b" "al_actorUserId a = al_actorUserId b" "al_action a = al_action b"
    "al_resourceType a = al_resourceType b" "al_resourceId a = al_resourceId b" "al_requestId a = al_requestId b"
    "al_correlationId a = al_correlationId b" "al_ipAddress a = al_ipAddress b" "al_userAgent a = al_userAgent b"
    "jsonb (al_metadata a) = jsonb (al_metadata b)" "epoch (al_createdAt a) = epoch (al_createdAt b)"
    using same [of "''id''"] same [of "''tenantId''"] same [of "''actorUserId''"] same [of "''action''"] same [of "''resourceType''"]
      same [of "''resourceId''"] same [of "''requestId''"] same [of "''correlationId''"] same [of "''ipAddress''"] same [of "''userAgent''"]
      same [of "''metadata''"] same [of "''createdAtEpoch''"] by simp_all
  then show ?thesis using assms(2) by (simp add: stored_row_def)
qed

text \<open>Two chains of the same length with the same last hash hold the same rows.\<close>

lemma chain_unique:
  assumes inj: "inj_on digest (hashed_text render epoch ` (set es \<union> set fs))"
    and len: "\<And>x. length (digest x) = length z"
    and rend: "inj_on render ((\<lambda>e. audit_document epoch (ch_row e)) ` (set es \<union> set fs))"
    and ep: "inj_on epoch ((\<lambda>e. al_createdAt (ch_row e)) ` (set es \<union> set fs))"
    and ok: "chain_ok (hashed_text render epoch) digest 1 z es" "chain_ok (hashed_text render epoch) digest 1 z fs"
    and "length es = length fs" and "es \<noteq> [] \<Longrightarrow> ch_entryHash (last es) = ch_entryHash (last fs)"
  shows "map (\<lambda>e. stored_row (ch_row e)) es = map (\<lambda>e. stored_row (ch_row e)) fs"
  using assms
proof (induction es arbitrary: fs rule: rev_induct)
  case Nil
  then show ?case by simp
next
  case (snoc e es)
  then obtain f gs where fs: "fs = gs @ [f]" "length gs = length es" by (metis length_append_singleton length_Suc_conv_rev)
  let ?pe = "ch_previousHash e" and ?pf = "ch_previousHash f"
  let ?de = "audit_document epoch (ch_row e)" and ?df = "audit_document epoch (ch_row f)"
  have hash: "digest (hashed_text render epoch e) = digest (hashed_text render epoch f)"
    using snoc.prems fs by (simp add: chain_ok_snoc)
  have "hashed_text render epoch e = hashed_text render epoch f"
    by (rule inj_onD [OF snoc.prems(1) hash]) (use fs in auto)
  then have app: "?pe @ render ?de = ?pf @ render ?df" by (simp only: hashed_text_def)
  have "length ?pe = length z" "length ?pf = length z"
    using chain_ok_last_hash [of "hashed_text render epoch" digest 1 z es] chain_ok_last_hash [of "hashed_text render epoch" digest 1 z gs]
      len snoc.prems(5,6) fs by (simp_all add: chain_ok_snoc)
  then have "length ?pe = length ?pf \<or> length (render ?de) = length (render ?df)" by (metis (no_types))
  note iff = append_eq_append_conv [OF this]
  have both: "?pe = ?pf \<and> render ?de = render ?df" by (rule iffD1 [OF iff app])
  have prev: "?pe = ?pf" by (rule conjunct1 [OF both])
  have doc: "?de = ?df"
    by (rule inj_onD [OF snoc.prems(3) conjunct2 [OF both]]) (use fs in auto)
  have row: "stored_row (ch_row e) = stored_row (ch_row f)"
  proof (rule audit_document_eq [OF doc])
    assume same: "epoch (al_createdAt (ch_row e)) = epoch (al_createdAt (ch_row f))"
    show "al_createdAt (ch_row e) = al_createdAt (ch_row f)" by (rule inj_onD [OF snoc.prems(4) same]) (use fs in auto)
  qed
  have "map (\<lambda>e. stored_row (ch_row e)) es = map (\<lambda>e. stored_row (ch_row e)) gs"
  proof (rule snoc.IH)
    show "inj_on digest (hashed_text render epoch ` (set es \<union> set gs))"
      using snoc.prems(1) by (rule inj_on_subset) (use fs in auto)
    show "inj_on render ((\<lambda>e. audit_document epoch (ch_row e)) ` (set es \<union> set gs))"
      using snoc.prems(3) by (rule inj_on_subset) (use fs in auto)
    show "inj_on epoch ((\<lambda>e. al_createdAt (ch_row e)) ` (set es \<union> set gs))"
      using snoc.prems(4) by (rule inj_on_subset) (use fs in auto)
    show "chain_ok (hashed_text render epoch) digest 1 z es" "chain_ok (hashed_text render epoch) digest 1 z gs"
      using snoc.prems(5,6) fs by (simp_all add: chain_ok_snoc)
    show "length es = length gs" using fs by simp
    show "ch_entryHash (last es) = ch_entryHash (last gs)" if "es \<noteq> []"
      using prev that snoc.prems(5,6) fs by (auto simp: chain_ok_snoc split: if_splits)
  qed (rule len)
  with fs row show ?case by simp
qed

text \<open>C4: The integrity check is tamper evident: two logs of a tenant that are both reported valid
  against the same chain head hold the same rows in the same chain order, in every column -- identity, tenant, actor, action,
  resource, request, correlation, address, agent, metadata as \<open>jsonb\<close> and time of creation --, provided the digest has 64 characters
  and no collision among the texts hashed in the two logs, and the texts of PostgreSQL tell their documents and their times apart.\<close>

theorem valid_logs_agree:
  assumes "\<And>x. length (digest x) = 64"
    and "inj_on digest (hashed_text render epoch ` (set log1 \<union> set log2))"
    and "inj_on render ((\<lambda>e. audit_document epoch (ch_row e)) ` (set log1 \<union> set log2))"
    and "inj_on epoch ((\<lambda>e. al_createdAt (ch_row e)) ` (set log1 \<union> set log2))"
    and "ir_valid (verify_integrity digest render epoch log1 head)"
    and "ir_valid (verify_integrity digest render epoch log2 head)"
  shows "map (\<lambda>e. (ch_row e)\<lparr> al_metadata := jsonb (al_metadata (ch_row e)) \<rparr>) (chain_order log1) =
    map (\<lambda>e. (ch_row e)\<lparr> al_metadata := jsonb (al_metadata (ch_row e)) \<rparr>) (chain_order log2)"
proof -
  let ?ok = "chain_ok (hashed_text render epoch) digest 1 zero_hash"
  have ok: "?ok (chain_order log1)" "?ok (chain_order log2)"
    using assms(5,6) by (simp_all add: verify_integrity_def Let_def invalid_rows_0)
  have set: "set (chain_order log) = set log" for log by (auto simp: chain_order_def)
  note defs = verify_integrity_def Let_def
  have hd: "if log1 = [] then head = None \<or> (\<exists>h. head = Some h \<and> hd_lastSequence h = 0)
            else \<exists>h. head = Some h \<and> hd_lastSequence h = int (length log1) \<and> hd_lastHash h = ch_entryHash (last (chain_order log1))"
    using assms(5) chain_last_sequence [OF ok(1)]
    by (cases "log1 = []"; cases head) (auto simp: defs)
  have hd2: "if log2 = [] then head = None \<or> (\<exists>h. head = Some h \<and> hd_lastSequence h = 0)
            else \<exists>h. head = Some h \<and> hd_lastSequence h = int (length log2) \<and> hd_lastHash h = ch_entryHash (last (chain_order log2))"
    using assms(6) chain_last_sequence [OF ok(2)]
    by (cases "log2 = []"; cases head) (auto simp: defs)
  have len: "length log1 = length log2" using hd hd2 by (auto split: if_splits)
  have "map (\<lambda>e. stored_row (ch_row e)) (chain_order log1) = map (\<lambda>e. stored_row (ch_row e)) (chain_order log2)"
  proof (rule chain_unique [where digest = digest and render = render and epoch = epoch and z = zero_hash])
    show "\<And>x. length (digest x) = length zero_hash" using assms(1) by (simp add: zero_hash_def)
    show "ch_entryHash (last (chain_order log1)) = ch_entryHash (last (chain_order log2))" if "chain_order log1 \<noteq> []"
      using that hd hd2 len by (auto split: if_splits)
  qed (use ok set assms(2-4) len in simp_all)
  then show ?thesis by (simp only: stored_row_def)
qed

text \<open>A log of one entry, and the same log with the user agent of its row replaced and the hash computed anew: the first is valid against
  its head, so the second is not.\<close>

definition example_row :: "string \<Rightarrow> audit_log" where
  "example_row agent = \<lparr> al_id = ''1'', al_tenant = ''t'', al_actorUserId = None, al_action = ''LOGIN'', al_resourceType = ''x'',
     al_resourceId = None, al_requestId = None, al_correlationId = None, al_ipAddress = None, al_userAgent = Some agent,
     al_metadata = JNull, al_createdAt = 0 \<rparr>"

fun example_text :: "json \<Rightarrow> string" where
  "example_text (JStr t) = t"
| "example_text (JObj kvs) = concat (map (\<lambda>kv. example_text (snd kv)) kvs)"
| "example_text v = ''-''"

definition example_digest :: "string \<Rightarrow> string" where
  "example_digest x = take 64 (rev x @ replicate 64 (CHR ''x''))"

definition example_entry :: "string \<Rightarrow> chain_entry" where
  "example_entry agent = \<lparr> ch_sequence = Some 1, ch_previousHash = zero_hash,
     ch_entryHash = example_digest (zero_hash @ example_text (audit_document (\<lambda>_. ''0'') (example_row agent))), ch_row = example_row agent \<rparr>"

definition example_head :: chain_head where
  "example_head = \<lparr> hd_lastSequence = 1, hd_lastHash = ch_entryHash (example_entry ''app'') \<rparr>"

lemma example_valid: "ir_valid (verify_integrity example_digest example_text (\<lambda>_. ''0'') [example_entry ''app''] (Some example_head))"
  by code_simp

lemma example_differs:
  "ch_entryHash (example_entry ''app'') \<noteq> ch_entryHash (example_entry ''curl'')"
  "al_userAgent (ch_row (example_entry ''app'')) \<noteq> al_userAgent (ch_row (example_entry ''curl''))"
  by code_simp+

theorem valid_logs_agree_witness:
  "ir_valid (verify_integrity example_digest example_text (\<lambda>_. ''0'') [example_entry ''app''] (Some example_head)) \<and>
   \<not> ir_valid (verify_integrity example_digest example_text (\<lambda>_. ''0'') [example_entry ''curl''] (Some example_head))"
proof
  let ?epoch = "\<lambda>_ :: time. ''0''"
  let ?logs = "set [example_entry ''app''] \<union> set [example_entry ''curl'']"
  have hash: "ch_entryHash (example_entry w) = example_digest (hashed_text example_text ?epoch (example_entry w))" for w
    by (simp add: example_entry_def hashed_text_def)
  have texts: "hashed_text example_text ?epoch (example_entry w) = zero_hash @ example_text (audit_document ?epoch (ch_row (example_entry w)))" for w
    by (simp add: example_entry_def hashed_text_def)
  have digest: "inj_on example_digest (hashed_text example_text ?epoch ` ?logs)"
    using example_differs(1) by (auto simp: inj_on_def hash)
  have render: "inj_on example_text ((\<lambda>e. audit_document ?epoch (ch_row e)) ` ?logs)"
    using example_differs(1) by (auto simp: inj_on_def hash texts)
  have epoch: "inj_on ?epoch ((\<lambda>e. al_createdAt (ch_row e)) ` ?logs)" by (simp add: inj_on_def example_entry_def example_row_def)
  have length: "length (example_digest x) = 64" for x by (simp add: example_digest_def)
  show "\<not> ir_valid (verify_integrity example_digest example_text ?epoch [example_entry ''curl''] (Some example_head))"
  proof
    assume forged: "ir_valid (verify_integrity example_digest example_text ?epoch [example_entry ''curl''] (Some example_head))"
    have one: "chain_order [e] = [e]" for e by (simp add: chain_order_def)
    have "(ch_row (example_entry ''app''))\<lparr> al_metadata := jsonb (al_metadata (ch_row (example_entry ''app''))) \<rparr> =
        (ch_row (example_entry ''curl''))\<lparr> al_metadata := jsonb (al_metadata (ch_row (example_entry ''curl''))) \<rparr>"
      using valid_logs_agree [OF length digest render epoch example_valid forged] by (simp add: one)
    then have "al_userAgent (ch_row (example_entry ''app'')) = al_userAgent (ch_row (example_entry ''curl''))"
      by (metis (no_types) audit_log.select_convs(10) audit_log.surjective audit_log.update_convs(11))
    then show False using example_differs(2) by contradiction
  qed
qed (rule example_valid)

end
