(* ===== verification/Journal.thy ===== *)
theory Journal
  imports Prelude
begin

text \<open>
  \<open>INSERT \<dots> ON CONFLICT (key) DO NOTHING\<close>: a table with a partial unique key, and the interface of a
  journal that only grows by such inserts. The command journal, the event outbox, the promotion
  redemptions, the payment events and the ledger transactions are journals of this kind.
\<close>

definition has_key :: "('r \<Rightarrow> 'k option) \<Rightarrow> 'k \<Rightarrow> 'r list \<Rightarrow> bool" where
  "has_key key k t \<longleftrightarrow> list_ex (\<lambda>q. key q = Some k) t"

definition insert_once :: "('r \<Rightarrow> 'k option) \<Rightarrow> 'r \<Rightarrow> 'r list \<Rightarrow> 'r list" where
  "insert_once key r t = (case key r of None \<Rightarrow> t @ [r] | Some k \<Rightarrow> if has_key key k t then t else t @ [r])"

text \<open>The keys present, in order; rows without a key are not subject to the constraint.\<close>

definition keys_of :: "('r \<Rightarrow> 'k option) \<Rightarrow> 'r list \<Rightarrow> 'k list" where
  "keys_of key t = map (\<lambda>r. the (key r)) (filter (\<lambda>r. key r \<noteq> None) t)"

definition unique_key :: "('r \<Rightarrow> 'k option) \<Rightarrow> 'r list \<Rightarrow> bool" where
  "unique_key key t \<longleftrightarrow> distinct (keys_of key t)"

lemma has_key_iff: "has_key key k t \<longleftrightarrow> (\<exists>q\<in>set t. key q = Some k)"
  by (auto simp: has_key_def list_ex_iff)

lemma in_keys_of: "k \<in> set (keys_of key t) \<longleftrightarrow> has_key key k t"
  by (force simp: keys_of_def has_key_iff)

lemma keys_of_append: "keys_of key (t @ u) = keys_of key t @ keys_of key u"
  by (simp add: keys_of_def)

lemma unique_key_Nil [simp]: "unique_key key []"
  by (simp add: unique_key_def keys_of_def)

lemma unique_key_append_one:
  "unique_key key t \<Longrightarrow> (\<And>k. key r = Some k \<Longrightarrow> \<not> has_key key k t) \<Longrightarrow> unique_key key (t @ [r])"
proof (cases "key r")
  case None
  assume "unique_key key t"
  moreover from None have "keys_of key [r] = []" by (simp add: keys_of_def)
  ultimately show ?thesis by (simp add: unique_key_def keys_of_append)
next
  case (Some k)
  assume "unique_key key t" and "\<And>k. key r = Some k \<Longrightarrow> \<not> has_key key k t"
  moreover from Some have "keys_of key [r] = [k]" by (simp add: keys_of_def)
  ultimately show ?thesis using Some by (simp add: unique_key_def keys_of_append in_keys_of)
qed

lemma unique_key_insert_once [simp]: "unique_key key t \<Longrightarrow> unique_key key (insert_once key r t)"
  by (auto simp: insert_once_def intro: unique_key_append_one split: option.splits)

lemma unique_key_same:
  assumes "unique_key key t" and "q \<in> set t" and "r \<in> set t" and "key q = Some k" and "key r = Some k"
  shows "q = r"
proof -
  have "distinct (map (\<lambda>r. the (key r)) (filter (\<lambda>r. key r \<noteq> None) t))"
    using assms(1) by (simp add: unique_key_def keys_of_def)
  moreover have "q \<in> set (filter (\<lambda>r. key r \<noteq> None) t)" "r \<in> set (filter (\<lambda>r. key r \<noteq> None) t)"
    using assms by simp_all
  ultimately show ?thesis using assms(4,5) by (metis distinct_key_unique)
qed

lemma keys_of_map:
  "(\<And>r. r \<in> set t \<Longrightarrow> key (f r) = key r) \<Longrightarrow> keys_of key (map f t) = keys_of key t"
  by (induction t) (auto simp: keys_of_def)

lemma unique_key_update_where:
  assumes "\<And>r. key (f r) = key r"
  shows "unique_key key (update_where P f t) = unique_key key t"
  unfolding unique_key_def update_where_def by (subst keys_of_map) (auto simp: assms)

lemma insert_once_length: "length (insert_once key r t) \<le> length t + 1"
  by (auto simp: insert_once_def split: option.splits)

lemma insert_once_present: "key r = Some k \<Longrightarrow> has_key key k t \<Longrightarrow> insert_once key r t = t"
  by (simp add: insert_once_def)

lemma insert_once_absent: "key r = Some k \<Longrightarrow> \<not> has_key key k t \<Longrightarrow> insert_once key r t = t @ [r]"
  by (simp add: insert_once_def)

lemma in_order_limit: "r \<in> set (order_limit k n t) \<Longrightarrow> r \<in> set t"
  using set_order_limit by fast

lemma select_one_key_None: "select_one (\<lambda>q. key q = Some k) t = None \<longleftrightarrow> \<not> has_key key k t"
  by (auto simp: select_one_None has_key_iff)

lemma has_key_select_one: "has_key key k t \<Longrightarrow> \<exists>q. select_one (\<lambda>q. key q = Some k) t = Some q"
  by (cases "select_one (\<lambda>q. key q = Some k) t") (simp_all add: select_one_key_None)

lemma select_one_has_key: "select_one (\<lambda>q. key q = Some k) t = Some q \<Longrightarrow> has_key key k t \<and> key q = Some k \<and> q \<in> set t"
  using select_one_Some [of "\<lambda>q. key q = Some k" t q] by (auto simp: has_key_iff)

text \<open>The interface: a state with a table that one operation extends.\<close>

locale keyed_journal =
  fixes rows :: "'s \<Rightarrow> 'r list"
    and key :: "'r \<Rightarrow> 'k option"
    and put :: "'r \<Rightarrow> 's \<Rightarrow> 's"
  assumes put_rows: "rows (put r s) = insert_once key r (rows s)"
begin

lemma put_unique: "unique_key key (rows s) \<Longrightarrow> unique_key key (rows (put r s))"
  by (simp add: put_rows)

lemma put_keeps: "q \<in> set (rows s) \<Longrightarrow> q \<in> set (rows (put r s))"
  by (auto simp: put_rows insert_once_def split: option.splits)

lemma put_has_key: "key r = Some k \<Longrightarrow> has_key key k (rows (put r s))"
  by (auto simp: put_rows insert_once_def has_key_iff)

lemma put_again: "key r = Some k \<Longrightarrow> key q = Some k \<Longrightarrow> rows (put q (put r s)) = rows (put r s)"
  using put_has_key [of r k s] by (simp add: put_rows [of q] insert_once_present)

lemma put_first_wins:
  "q \<in> set (rows s) \<Longrightarrow> key q = Some k \<Longrightarrow> key r = Some k \<Longrightarrow> rows (put r s) = rows s"
  by (auto simp: put_rows insert_once_def has_key_iff)

lemma puts_unique: "unique_key key (rows s) \<Longrightarrow> unique_key key (rows (fold put rs s))"
  by (induction rs arbitrary: s) (simp_all add: put_unique)

lemma puts_keep: "q \<in> set (rows s) \<Longrightarrow> q \<in> set (rows (fold put rs s))"
  by (induction rs arbitrary: s) (simp_all add: put_keeps)

lemma put_keeps_key: "has_key key k (rows s) \<Longrightarrow> has_key key k (rows (put r s))"
  unfolding has_key_iff using put_keeps by blast

lemma puts_keep_key: "has_key key k (rows s) \<Longrightarrow> has_key key k (rows (fold put rs s))"
  by (induction rs arbitrary: s) (simp_all add: put_keeps_key)

lemma puts_has_key: "r \<in> set rs \<Longrightarrow> key r = Some k \<Longrightarrow> has_key key k (rows (fold put rs s))"
  by (induction rs arbitrary: s) (auto intro: puts_keep_key put_has_key)

lemma puts_present:
  "(\<And>r. r \<in> set rs \<Longrightarrow> \<exists>k. key r = Some k \<and> has_key key k (rows s)) \<Longrightarrow> rows (fold put rs s) = rows s"
proof (induction rs arbitrary: s)
  case Nil
  then show ?case by simp
next
  case (Cons r rs)
  then obtain k where "key r = Some k" "has_key key k (rows s)" by (meson list.set_intros(1))
  then have same: "rows (put r s) = rows s" by (simp add: put_rows insert_once_present)
  have "rows (fold put rs (put r s)) = rows (put r s)"
    by (rule Cons.IH) (use Cons.prems same in \<open>simp add: same\<close>)
  then show ?case using same by simp
qed

end

text \<open>
  A journal whose rows are changed in place as well, by updates that keep the key: a work queue.
  It gives the plain journal again.
\<close>

locale keyed_queue = keyed_journal rows key put
  for rows :: "'s \<Rightarrow> 'r list" and key :: "'r \<Rightarrow> 'k option" and put :: "'r \<Rightarrow> 's \<Rightarrow> 's" +
  fixes touch :: "('r \<Rightarrow> bool) \<Rightarrow> ('r \<Rightarrow> 'r) \<Rightarrow> 's \<Rightarrow> 's"
  assumes touch_rows: "rows (touch P f s) = update_where P f (rows s)"
begin

lemma touch_unique: "(\<And>r. key (f r) = key r) \<Longrightarrow> unique_key key (rows (touch P f s)) = unique_key key (rows s)"
  by (simp add: touch_rows unique_key_update_where)

lemma touch_length: "length (rows (touch P f s)) = length (rows s)"
  by (simp add: touch_rows)

end

end
