(* ===== verification/NetworkCommands.thy ===== *)
theory NetworkCommands
  imports AuditTrail Journal
begin

text \<open>
  The journal of network commands (\<open>modules/traffic/network-command.service.ts\<close>): queueing with a
  correlation, claiming, and the marks of the command state machine. An operation on the database
  gets the correlation id \<open>cid\<close> of the request (\<open>getCorrelationId()\<close>) and the time \<open>now\<close>.
\<close>

subsection \<open>Commands\<close>

text \<open>\<open>BandwidthEnforcementCommand\<close> of \<open>enforcement.adapter.ts\<close> and its \<open>JSON.stringify\<close>.\<close>

record bandwidth_command =
  bc_routerId :: string
  bc_customerId :: string
  bc_sessionId :: "string option"
  bc_targetAddress :: "string option"
  bc_targetMacAddress :: "string option"
  bc_apiEndpoint :: "string option"
  bc_protocol :: "protocol option"
  bc_merakiGroupPolicyId :: "string option"
  bc_maxDownloadMbps :: rat
  bc_maxUploadMbps :: rat
  bc_priority :: int

fun protocol_name :: "protocol \<Rightarrow> string" where
  "protocol_name MIKROTIK_REST = ''MIKROTIK_REST''"
| "protocol_name UNIFI_NETWORK_API = ''UNIFI_NETWORK_API''"
| "protocol_name OMADA_CONTROLLER_API = ''OMADA_CONTROLLER_API''"
| "protocol_name CAMBIUM_CNMAESTRO = ''CAMBIUM_CNMAESTRO''"
| "protocol_name MERAKI_DASHBOARD_API = ''MERAKI_DASHBOARD_API''"
| "protocol_name ARUBA_CENTRAL_API = ''ARUBA_CENTRAL_API''"
| "protocol_name GRANDSTREAM_GWN_API = ''GRANDSTREAM_GWN_API''"
| "protocol_name RUIJIE_REYEE_CLOUD_API = ''RUIJIE_REYEE_CLOUD_API''"
| "protocol_name RUCKUS_SMARTZONE_API = ''RUCKUS_SMARTZONE_API''"
| "protocol_name OPENWRT_UBUS = ''OPENWRT_UBUS''"
| "protocol_name TELTONIKA_RMS_API = ''TELTONIKA_RMS_API''"
| "protocol_name PEPLINK_INCONTROL_API = ''PEPLINK_INCONTROL_API''"
| "protocol_name PFSENSE_API = ''PFSENSE_API''"
| "protocol_name GENERIC_HTTP = ''GENERIC_HTTP''"
| "protocol_name SNMP = ''SNMP''"
| "protocol_name RADIUS_NAS = ''RADIUS_NAS''"

definition bandwidth_json :: "bandwidth_command \<Rightarrow> json" where
  "bandwidth_json c = jobject
     [(''routerId'', Some (JStr (bc_routerId c))), (''customerId'', Some (JStr (bc_customerId c))),
      (''sessionId'', map_option JStr (bc_sessionId c)), (''targetAddress'', map_option JStr (bc_targetAddress c)),
      (''targetMacAddress'', map_option JStr (bc_targetMacAddress c)), (''apiEndpoint'', map_option JStr (bc_apiEndpoint c)),
      (''protocol'', map_option (\<lambda>p. JStr (protocol_name p)) (bc_protocol c)),
      (''merakiGroupPolicyId'', map_option JStr (bc_merakiGroupPolicyId c)),
      (''maxDownloadMbps'', Some (JNum (bc_maxDownloadMbps c))), (''maxUploadMbps'', Some (JNum (bc_maxUploadMbps c))),
      (''priority'', Some (JNum (of_int (bc_priority c))))]"

definition bandwidth_target :: "bandwidth_command \<Rightarrow> json" where
  "bandwidth_target c = jobject
     [(''customerId'', Some (JStr (bc_customerId c))), (''sessionId'', map_option JStr (bc_sessionId c)),
      (''address'', map_option JStr (bc_targetAddress c)), (''mac'', map_option JStr (bc_targetMacAddress c))]"

record command_input =
  ci_routerId :: "uuid option"
  ci_commandType :: string
  ci_actor :: "string option"
  ci_target :: "json option"
  ci_request :: "json option"
  ci_provider :: "protocol option"
  ci_correlationId :: "string option"

text \<open>The unique index \<open>(tenant_id, command_type, correlation_id) WHERE correlation_id IS NOT NULL\<close>.\<close>

definition nc_key :: "network_command \<Rightarrow> (uuid \<times> string \<times> string) option" where
  "nc_key c = map_option (\<lambda>k. (nc_tenant c, nc_commandType c, k)) (nc_correlationId c)"

definition put_command :: "network_command \<Rightarrow> db \<Rightarrow> db" where
  "put_command c s = s\<lparr> networkCommands := insert_once nc_key c (networkCommands s) \<rparr>"

definition touch_commands :: "(network_command \<Rightarrow> bool) \<Rightarrow> (network_command \<Rightarrow> network_command) \<Rightarrow> db \<Rightarrow> db" where
  "touch_commands P f s = s\<lparr> networkCommands := update_where P f (networkCommands s) \<rparr>"

interpretation command_journal: keyed_queue networkCommands nc_key put_command touch_commands
  by unfold_locales (simp_all add: put_command_def touch_commands_def)

definition command_row ::
  "uuid \<Rightarrow> uuid \<Rightarrow> uuid option \<Rightarrow> string \<Rightarrow> string \<Rightarrow> json \<Rightarrow> json \<Rightarrow> protocol option \<Rightarrow> string option \<Rightarrow> time \<Rightarrow> network_command" where
  "command_row i tenant router kind actor target request provider correlation now = \<lparr>
     nc_id = i, nc_tenant = tenant, nc_routerId = router, nc_commandType = kind, nc_actor = actor,
     nc_target = jsonb target, nc_request = jsonb request, nc_provider = provider, nc_status = QUEUED,
     nc_attempts = 0, nc_response = None, nc_verification = None, nc_error = None,
     nc_correlationId = correlation, nc_createdAt = now, nc_sentAt = None, nc_completedAt = None, nc_verifiedAt = None \<rparr>"

definition same_operation :: "json \<Rightarrow> json \<Rightarrow> protocol option \<Rightarrow> network_command \<Rightarrow> bool" where
  "same_operation target request provider c \<longleftrightarrow>
     nc_target c = jsonb target \<and> nc_request c = jsonb request \<and> nc_provider c = provider"

definition correlation_taken :: exn where
  "correlation_taken = Conflict ''Network command correlation is already bound to a different operation''"

definition queue_row :: "string option \<Rightarrow> time \<Rightarrow> uuid \<Rightarrow> command_input \<Rightarrow> uuid \<Rightarrow> network_command" where
  "queue_row cid now tenant input i = command_row i tenant (ci_routerId input) (ci_commandType input)
     (case ci_actor input of None \<Rightarrow> ''system'' | Some a \<Rightarrow> a)
     (case ci_target input of None \<Rightarrow> JObj [] | Some j \<Rightarrow> j) (case ci_request input of None \<Rightarrow> JObj [] | Some j \<Rightarrow> j)
     (ci_provider input) (or_else (ci_correlationId input) cid) now"

record queued_id =
  qi_id :: uuid
  qi_reused :: bool

text \<open>\<open>queue\<close>. The identifier is drawn before the insert, so the counter moves in every case.\<close>

definition queue :: "string option \<Rightarrow> time \<Rightarrow> uuid \<Rightarrow> command_input \<Rightarrow> (db, queued_id) operation" where
  "queue cid now tenant input s =
     (let i = new_uuid s;
          target = (case ci_target input of None \<Rightarrow> JObj [] | Some j \<Rightarrow> j);
          request = (case ci_request input of None \<Rightarrow> JObj [] | Some j \<Rightarrow> j);
          provider = ci_provider input;
          correlation = or_else (ci_correlationId input) cid;
          row = queue_row cid now tenant input i;
          s1 = s\<lparr> next_id := next_id s + 1 \<rparr>;
          taken = (case correlation of None \<Rightarrow> False
                   | Some k \<Rightarrow> has_key nc_key (tenant, ci_commandType input, k) (networkCommands s))
      in if \<not> taken then (Inr \<lparr> qi_id = i, qi_reused = False \<rparr>, put_command row s1)
         else (case correlation of
             None \<Rightarrow> (Inl (PlainError ''Network command could not be queued''), s1)
           | Some k \<Rightarrow>
               if k = [] then (Inl (PlainError ''Network command could not be queued''), s1)
               else (case select_one (\<lambda>c. nc_key c = Some (tenant, ci_commandType input, k)) (networkCommands s1) of
                   None \<Rightarrow> (Inl (PlainError ''Network command could not be queued''), s1)
                 | Some c \<Rightarrow> if \<not> same_operation target request provider c then (Inl correlation_taken, s1)
                             else (Inr \<lparr> qi_id = nc_id c, qi_reused = True \<rparr>, s1))))"

record queued_bandwidth =
  qb_id :: uuid
  qb_command :: bandwidth_command
  qb_status :: command_status
  qb_reused :: bool

definition bandwidth_row ::
  "time \<Rightarrow> uuid \<Rightarrow> string \<Rightarrow> string option \<Rightarrow> bandwidth_command \<Rightarrow> uuid \<Rightarrow> network_command" where
  "bandwidth_row now tenant actor correlation command i =
     command_row i tenant (Some (bc_routerId command)) ''BANDWIDTH_ENFORCEMENT'' actor
       (bandwidth_target command) (bandwidth_json command) (bc_protocol command) correlation now"

text \<open>
  One command of \<open>queueBandwidthCommands\<close>. Operations run one after the other here, so an insert
  that follows a \<open>SELECT\<close> without result cannot lose against another connection, and the re-read of
  the winner of such a race is left out.
\<close>

definition queue_bandwidth_command ::
  "time \<Rightarrow> uuid \<Rightarrow> string \<Rightarrow> string option \<Rightarrow> bandwidth_command \<Rightarrow> (db, queued_bandwidth) operation" where
  "queue_bandwidth_command now tenant actor correlationId command s =
     (let correlation = (case correlationId of None \<Rightarrow> None
            | Some k \<Rightarrow> if k = [] then None
                        else Some (k @ '':'' @ (case bc_sessionId command of None \<Rightarrow> bc_customerId command | Some i \<Rightarrow> i)));
          target = bandwidth_target command;
          request = bandwidth_json command;
          provider = bc_protocol command;
          existing = (case correlation of None \<Rightarrow> None
            | Some k \<Rightarrow> select_one (\<lambda>c. nc_key c = Some (tenant, ''BANDWIDTH_ENFORCEMENT'', k)) (networkCommands s));
          row = bandwidth_row now tenant actor correlation command (new_uuid s)
      in case existing of
           Some c \<Rightarrow> if \<not> same_operation target request provider c then (Inl correlation_taken, s)
                     else (Inr \<lparr> qb_id = nc_id c, qb_command = command, qb_status = nc_status c, qb_reused = True \<rparr>, s)
         | None \<Rightarrow> (Inr \<lparr> qb_id = new_uuid s, qb_command = command, qb_status = QUEUED, qb_reused = False \<rparr>,
                    put_command row (s\<lparr> next_id := next_id s + 1 \<rparr>)))"

definition queue_bandwidth_commands ::
  "time \<Rightarrow> uuid \<Rightarrow> bandwidth_command list \<Rightarrow> string \<Rightarrow> string option \<Rightarrow> (db, queued_bandwidth list) operation" where
  "queue_bandwidth_commands now tenant commands actor correlationId =
     (if commands = [] then ret []
      else transaction (map_op (queue_bandwidth_command now tenant actor correlationId) commands))"

subsection \<open>Claiming and marking\<close>

definition executable :: "command_status \<Rightarrow> bool" where
  "executable st \<longleftrightarrow> st \<in> {QUEUED, SENT, ACCEPTED, RETRYING}"

text \<open>A sent command counts as pending again once it was sent more than \<open>stale\<close> seconds ago.\<close>

definition claimable :: "uuid option \<Rightarrow> int \<Rightarrow> time \<Rightarrow> network_command \<Rightarrow> bool" where
  "claimable tenant stale now c \<longleftrightarrow> (tenant = None \<or> tenant = Some (nc_tenant c)) \<and>
     (nc_status c \<in> {QUEUED, RETRYING} \<or>
      nc_status c = SENT \<and> (case nc_sentAt c of None \<Rightarrow> False | Some t \<Rightarrow> t < now - stale * 1000))"

definition claim_candidates :: "uuid option \<Rightarrow> jsnum \<Rightarrow> jsnum \<Rightarrow> time \<Rightarrow> db \<Rightarrow> network_command list" where
  "claim_candidates tenant limit staleAfterSeconds now s =
     order_limit nc_createdAt (nat (clamp_limit 20 1 100 limit))
       (select (claimable tenant (clamp_limit 300 30 3600 staleAfterSeconds) now) (networkCommands s))"

definition claim_pending ::
  "uuid option \<Rightarrow> jsnum \<Rightarrow> jsnum \<Rightarrow> time \<Rightarrow> (db, network_command list) operation" where
  "claim_pending tenant limit staleAfterSeconds now s =
     (let ids = map nc_id (claim_candidates tenant limit staleAfterSeconds now s);
          s' = touch_commands (\<lambda>c. nc_id c \<in> set ids) (\<lambda>c. c\<lparr> nc_status := SENT, nc_sentAt := Some now \<rparr>) s
      in (Inr (select (\<lambda>c. nc_id c \<in> set ids) (networkCommands s')), s'))"

text \<open>The row an update by tenant and identifier reaches.\<close>

definition is_command :: "uuid \<Rightarrow> uuid \<Rightarrow> network_command \<Rightarrow> bool" where
  "is_command tenant i c \<longleftrightarrow> nc_tenant c = tenant \<and> nc_id c = i"

definition retry :: "time \<Rightarrow> uuid \<Rightarrow> uuid \<Rightarrow> (db, network_command) operation" where
  "retry now tenant i s =
     (case select_one (\<lambda>c. is_command tenant i c \<and> nc_status c = FAILED) (networkCommands s) of
        None \<Rightarrow> (Inl (Conflict ''Only FAILED network commands can be explicitly retried''), s)
      | Some c \<Rightarrow>
          (let f = (\<lambda>c. c\<lparr> nc_status := RETRYING, nc_error := None, nc_response := None, nc_verification := None,
                     nc_sentAt := None, nc_completedAt := None, nc_verifiedAt := None \<rparr>)
           in (Inr (f c), touch_commands (\<lambda>c. is_command tenant i c \<and> nc_status c = FAILED) f s)))"

definition mark_executed :: "time \<Rightarrow> uuid \<Rightarrow> uuid list \<Rightarrow> json \<Rightarrow> db \<Rightarrow> db" where
  "mark_executed now tenant ids response s =
     (if ids = [] then s else
      touch_commands (\<lambda>c. nc_tenant c = tenant \<and> nc_id c \<in> set ids \<and> executable (nc_status c))
        (\<lambda>c. c\<lparr> nc_status := EXECUTED, nc_attempts := nc_attempts c + 1, nc_response := Some response,
                nc_sentAt := or_else (nc_sentAt c) (Some now), nc_completedAt := Some now \<rparr>) s)"

text \<open>\<open>message\<close> is the text of the error.\<close>

definition mark_failed :: "time \<Rightarrow> uuid \<Rightarrow> uuid list \<Rightarrow> string \<Rightarrow> db \<Rightarrow> db" where
  "mark_failed now tenant ids message s =
     (if ids = [] then s else
      touch_commands (\<lambda>c. nc_tenant c = tenant \<and> nc_id c \<in> set ids \<and> executable (nc_status c))
        (\<lambda>c. c\<lparr> nc_status := FAILED, nc_attempts := nc_attempts c + 1, nc_error := Some (take 2000 message),
                nc_completedAt := Some now \<rparr>) s)"

text \<open>
  The \<open>reason\<close> of a verification. The service and its adapters put a text there; any other value is
  treated like a missing one.
\<close>

definition verification_reason :: "json \<Rightarrow> string" where
  "verification_reason v = (case v of
       JObj kvs \<Rightarrow> (case map_of kvs ''reason'' of Some (JStr r) \<Rightarrow> r | _ \<Rightarrow> ''NETWORK_VERIFICATION_FAILED'')
     | _ \<Rightarrow> ''NETWORK_VERIFICATION_FAILED'')"

definition mark_verification_failed :: "time \<Rightarrow> uuid \<Rightarrow> uuid \<Rightarrow> json \<Rightarrow> db \<Rightarrow> db" where
  "mark_verification_failed now tenant i verification s =
     touch_commands (\<lambda>c. is_command tenant i c \<and> nc_status c = EXECUTED)
       (\<lambda>c. c\<lparr> nc_status := FAILED, nc_error := Some (take 2000 (verification_reason verification)),
               nc_verification := Some verification, nc_completedAt := Some now \<rparr>) s"

definition mark_verified :: "time \<Rightarrow> uuid \<Rightarrow> uuid \<Rightarrow> json \<Rightarrow> db \<Rightarrow> db" where
  "mark_verified now tenant i verification s =
     touch_commands (\<lambda>c. is_command tenant i c \<and> nc_status c = EXECUTED)
       (\<lambda>c. c\<lparr> nc_status := VERIFIED, nc_verification := Some verification, nc_verifiedAt := Some now \<rparr>) s"

definition list_commands :: "uuid \<Rightarrow> uuid option \<Rightarrow> command_status option \<Rightarrow> jsnum \<Rightarrow> db \<Rightarrow> network_command list" where
  "list_commands tenant router status limit s =
     order_limit (\<lambda>c. - nc_createdAt c) (nat (clamp_limit 100 1 500 limit))
       (select (\<lambda>c. nc_tenant c = tenant \<and> (router = None \<or> router = nc_routerId c) \<and>
                    (status = None \<or> status = Some (nc_status c))) (networkCommands s))"

definition get_command :: "uuid \<Rightarrow> uuid \<Rightarrow> (db, network_command) operation" where
  "get_command tenant i s =
     (case select_one (is_command tenant i) (networkCommands s) of
        None \<Rightarrow> (Inl (NotFound ''Network command not found''), s)
      | Some c \<Rightarrow> (Inr c, s))"

subsection \<open>The command state machine\<close>

text \<open>One step of the journal: any operation of the service, with any arguments.\<close>

inductive command_step :: "db \<Rightarrow> db \<Rightarrow> bool" where
  step_queue: "queue cid now tenant input s = (r, s') \<Longrightarrow> command_step s s'"
| step_queue_bandwidth: "queue_bandwidth_commands now tenant commands actor k s = (r, s') \<Longrightarrow> command_step s s'"
| step_claim: "claim_pending tenant limit stale now s = (r, s') \<Longrightarrow> command_step s s'"
| step_retry: "retry now tenant i s = (r, s') \<Longrightarrow> command_step s s'"
| step_executed: "s' = mark_executed now tenant ids response s \<Longrightarrow> command_step s s'"
| step_failed: "s' = mark_failed now tenant ids message s \<Longrightarrow> command_step s s'"
| step_verification_failed: "s' = mark_verification_failed now tenant i v s \<Longrightarrow> command_step s s'"
| step_verified: "s' = mark_verified now tenant i v s \<Longrightarrow> command_step s s'"

text \<open>How a row may change in one step.\<close>

fun status_edge :: "command_status \<Rightarrow> command_status \<Rightarrow> bool" where
  "status_edge QUEUED t = (t \<in> {SENT, EXECUTED, FAILED})"
| "status_edge SENT t = (t \<in> {SENT, EXECUTED, FAILED})"
| "status_edge ACCEPTED t = (t \<in> {EXECUTED, FAILED})"
| "status_edge RETRYING t = (t \<in> {SENT, EXECUTED, FAILED})"
| "status_edge EXECUTED t = (t \<in> {VERIFIED, FAILED})"
| "status_edge FAILED t = (t = RETRYING)"
| "status_edge VERIFIED t = False"
| "status_edge ABANDONED t = False"

definition row_evolves :: "network_command \<Rightarrow> network_command \<Rightarrow> bool" where
  "row_evolves c d \<longleftrightarrow> nc_id d = nc_id c \<and> nc_tenant d = nc_tenant c \<and> nc_commandType d = nc_commandType c \<and>
     nc_correlationId d = nc_correlationId c \<and> nc_target d = nc_target c \<and> nc_request d = nc_request c \<and>
     nc_provider d = nc_provider c \<and> nc_attempts c \<le> nc_attempts d \<and>
     (d = c \<or> status_edge (nc_status c) (nc_status d))"

text \<open>What every row of the journal satisfies.\<close>

definition command_ok :: "network_command \<Rightarrow> bool" where
  "command_ok c \<longleftrightarrow>
     (case nc_status c of
        QUEUED \<Rightarrow> nc_attempts c = 0 \<and> nc_sentAt c = None \<and> nc_completedAt c = None \<and> nc_verifiedAt c = None
      | SENT \<Rightarrow> nc_sentAt c \<noteq> None \<and> nc_verifiedAt c = None
      | ACCEPTED \<Rightarrow> False
      | RETRYING \<Rightarrow> 0 < nc_attempts c \<and> nc_sentAt c = None \<and> nc_completedAt c = None \<and> nc_verifiedAt c = None
      | EXECUTED \<Rightarrow> 0 < nc_attempts c \<and> nc_sentAt c \<noteq> None \<and> nc_completedAt c \<noteq> None \<and> nc_verifiedAt c = None
      | FAILED \<Rightarrow> 0 < nc_attempts c \<and> nc_completedAt c \<noteq> None \<and> nc_error c \<noteq> None \<and> nc_verifiedAt c = None
      | VERIFIED \<Rightarrow> 0 < nc_attempts c \<and> nc_completedAt c \<noteq> None \<and> nc_verifiedAt c \<noteq> None \<and> nc_verification c \<noteq> None
      | ABANDONED \<Rightarrow> False)"

definition commands_ok :: "db \<Rightarrow> bool" where
  "commands_ok s \<longleftrightarrow> unique_key nc_key (networkCommands s) \<and> list_all command_ok (networkCommands s) \<and>
     distinct (map nc_id (networkCommands s)) \<and> fresh_ids s (map nc_id (networkCommands s))"

definition grows_to :: "network_command list \<Rightarrow> network_command list \<Rightarrow> bool" where
  "grows_to t u \<longleftrightarrow> length t \<le> length u \<and> list_all2 row_evolves t (take (length t) u) \<and>
     list_all (\<lambda>c. nc_status c = QUEUED \<and> nc_attempts c = 0) (drop (length t) u)"

lemma row_evolves_refl [simp]: "row_evolves c c"
  by (simp add: row_evolves_def)

lemma row_evolves_key: "row_evolves c d \<Longrightarrow> nc_key d = nc_key c"
  by (simp add: row_evolves_def nc_key_def)

lemma grows_to_refl [simp]: "grows_to t t"
  by (simp add: grows_to_def list_all2_same)

lemma grows_to_append:
  "list_all (\<lambda>c. nc_status c = QUEUED \<and> nc_attempts c = 0) u \<Longrightarrow> grows_to t (t @ u)"
  by (simp add: grows_to_def list_all2_same)

text \<open>An in-place change whose effect on each reached row is allowed.\<close>

lemma touch_step:
  assumes f: "\<And>c. c \<in> set (networkCommands s) \<Longrightarrow> P c \<Longrightarrow> command_ok c \<Longrightarrow> command_ok (f c) \<and> row_evolves c (f c)"
    and ok: "commands_ok s"
  shows "commands_ok (touch_commands P f s) \<and>
    grows_to (networkCommands s) (networkCommands (touch_commands P f s))"
proof -
  let ?g = "\<lambda>c. if P c then f c else c"
  have g: "command_ok (?g c) \<and> row_evolves c (?g c)" if "c \<in> set (networkCommands s)" for c
    using f [OF that] ok that by (simp add: commands_ok_def list_all_iff)
  have keys: "keys_of nc_key (map ?g (networkCommands s)) = keys_of nc_key (networkCommands s)"
    by (rule keys_of_map) (use g row_evolves_key in blast)
  have ids: "map nc_id (map ?g (networkCommands s)) = map nc_id (networkCommands s)"
    unfolding map_map comp_def by (rule map_cong [OF refl]) (use g in \<open>metis row_evolves_def\<close>)
  have "list_all command_ok (map ?g (networkCommands s))"
    unfolding list_all_iff set_map using g by blast
  moreover have "list_all2 row_evolves (networkCommands s) (map ?g (networkCommands s))"
    using g by (simp add: list_all2_conv_all_nth)
  moreover have nc: "networkCommands (touch_commands P f s) = map ?g (networkCommands s)"
    and nx: "next_id (touch_commands P f s) = next_id s"
    by (simp_all add: touch_commands_def update_where_def)
  ultimately show ?thesis
    using ok unfolding commands_ok_def grows_to_def fresh_ids_def nc nx unique_key_def ids keys by simp
qed

definition new_command :: "db \<Rightarrow> network_command \<Rightarrow> bool" where
  "new_command s c \<longleftrightarrow> nc_id c = new_uuid s \<and> nc_status c = QUEUED \<and> nc_attempts c = 0 \<and> command_ok c"

definition new_rows :: "network_command list \<Rightarrow> network_command list \<Rightarrow> bool" where
  "new_rows t u \<longleftrightarrow> (\<exists>v. u = t @ v \<and> list_all (\<lambda>c. nc_status c = QUEUED \<and> nc_attempts c = 0) v)"

lemma new_rows_grow: "new_rows t u \<Longrightarrow> grows_to t u"
  by (auto simp: new_rows_def intro: grows_to_append)

lemma put_new_rows:
  assumes "new_command s c" and "networkCommands s1 = networkCommands s" and "new_rows t (networkCommands s)"
  shows "new_rows t (networkCommands (put_command c s1))"
  using assms by (auto simp: new_rows_def new_command_def put_command_def insert_once_def split: option.splits)

lemma put_step:
  assumes new: "new_command s c" and ok: "commands_ok s"
  shows "commands_ok (put_command c (s\<lparr> next_id := next_id s + 1 \<rparr>))"
proof -
  let ?s = "s\<lparr> next_id := next_id s + 1 \<rparr>"
  have u: "unique_key nc_key (networkCommands (put_command c ?s))"
    using ok by (intro command_journal.put_unique) (simp add: commands_ok_def)
  have "networkCommands (put_command c ?s) = networkCommands s \<or>
        networkCommands (put_command c ?s) = networkCommands s @ [c]"
    by (auto simp: put_command_def insert_once_def split: option.splits)
  moreover have "next_id (put_command c ?s) = next_id s + 1" by (simp add: put_command_def)
  moreover have "new_uuid s \<notin> set (map nc_id (networkCommands s))"
    using ok by (intro fresh_ids_new) (simp add: commands_ok_def)
  ultimately show ?thesis
    using u ok new fresh_ids_extend [of s _ "put_command c ?s"] fresh_ids_mono [of s _ "put_command c ?s"]
    by (auto simp: commands_ok_def new_command_def)
qed

lemma command_row_ok [simp]:
  "command_ok (command_row i t r k a tg rq p c n)" "nc_status (command_row i t r k a tg rq p c n) = QUEUED"
  "nc_attempts (command_row i t r k a tg rq p c n) = 0" "nc_id (command_row i t r k a tg rq p c n) = i"
  "nc_key (command_row i t r k a tg rq p c n) = map_option (\<lambda>x. (t, k, x)) c"
  "same_operation tg rq p (command_row i t r k a tg rq p c n)"
  by (simp_all add: command_row_def command_ok_def nc_key_def same_operation_def)

lemma new_queue_row [simp]: "new_command s (queue_row cid now tenant input (new_uuid s))"
  by (simp add: new_command_def queue_row_def)

lemma new_bandwidth_row [simp]: "new_command s (bandwidth_row now tenant actor k command (new_uuid s))"
  by (simp add: new_command_def bandwidth_row_def)

lemma commands_ok_next_id [simp]: "commands_ok s \<Longrightarrow> commands_ok (s\<lparr> next_id := Suc (next_id s) \<rparr>)"
  using fresh_ids_mono [of s _ "s\<lparr> next_id := Suc (next_id s) \<rparr>"] by (simp add: commands_ok_def)

lemma queue_cases:
  assumes "queue cid now tenant input s = (r, s')"
  shows "s' = s\<lparr> next_id := next_id s + 1 \<rparr> \<or>
    s' = put_command (queue_row cid now tenant input (new_uuid s)) (s\<lparr> next_id := next_id s + 1 \<rparr>)"
  using assms unfolding queue_def Let_def by (auto split: if_splits option.splits)

lemma queue_step:
  assumes "queue cid now tenant input s = (r, s')" and "commands_ok s"
  shows "commands_ok s' \<and> new_rows (networkCommands s) (networkCommands s')"
proof -
  have refl: "new_rows (networkCommands s) (networkCommands s)" by (simp add: new_rows_def)
  from queue_cases [OF assms(1)] show ?thesis
  proof
    assume "s' = s\<lparr> next_id := next_id s + 1 \<rparr>"
    with assms(2) refl show ?thesis by simp
  next
    assume "s' = put_command (queue_row cid now tenant input (new_uuid s)) (s\<lparr> next_id := next_id s + 1 \<rparr>)"
    with put_step [OF new_queue_row assms(2)] put_new_rows [OF new_queue_row _ refl] show ?thesis by simp
  qed
qed

lemma queue_bandwidth_command_cases:
  assumes "queue_bandwidth_command now tenant actor k command s = (r, s')"
  shows "s' = s \<or> (\<exists>correlation. s' = put_command (bandwidth_row now tenant actor correlation command (new_uuid s))
                                       (s\<lparr> next_id := next_id s + 1 \<rparr>))"
  using assms unfolding queue_bandwidth_command_def Let_def
  by (auto split: if_splits option.splits)

lemma queue_bandwidth_command_step:
  assumes "queue_bandwidth_command now tenant actor k c s = (r, s')"
    and "commands_ok s \<and> new_rows t (networkCommands s)"
  shows "commands_ok s' \<and> new_rows t (networkCommands s')"
  using queue_bandwidth_command_cases [OF assms(1)]
proof
  assume "s' = s"
  with assms(2) show ?thesis by simp
next
  assume "\<exists>correlation. s' = put_command (bandwidth_row now tenant actor correlation c (new_uuid s))
                               (s\<lparr> next_id := next_id s + 1 \<rparr>)"
  then obtain correlation where s': "s' = put_command (bandwidth_row now tenant actor correlation c (new_uuid s))
                               (s\<lparr> next_id := next_id s + 1 \<rparr>)" by blast
  have ok: "commands_ok s" and t: "new_rows t (networkCommands s)" using assms(2) by simp_all
  show ?thesis unfolding s' using put_step [OF new_bandwidth_row ok] put_new_rows [OF new_bandwidth_row _ t] by simp
qed

lemma queue_bandwidth_step:
  assumes "queue_bandwidth_commands now tenant commands actor k s = (r, s')" and ok: "commands_ok s"
  shows "commands_ok s' \<and> new_rows (networkCommands s) (networkCommands s')"
proof (cases r)
  case (Inl e)
  then have "s' = s" using assms(1)
    by (auto simp: queue_bandwidth_commands_def ret_def transaction_Inl split: if_splits)
  with ok show ?thesis by (simp add: new_rows_def)
next
  case (Inr qs)
  show ?thesis
  proof (cases "commands = []")
    case True
    with assms show ?thesis by (simp add: queue_bandwidth_commands_def ret_def new_rows_def)
  next
    case False
    then have m: "map_op (queue_bandwidth_command now tenant actor k) commands s = (Inr qs, s')"
      using assms(1) Inr by (simp add: queue_bandwidth_commands_def transaction_Inr)
    show ?thesis
      by (rule map_op_invariant [OF _ _ m, where P = "\<lambda>s'. commands_ok s' \<and> new_rows (networkCommands s) (networkCommands s')"])
        (use ok queue_bandwidth_command_step in \<open>blast, simp add: new_rows_def\<close>)
  qed
qed

lemma claim_step:
  assumes "claim_pending tenant limit stale now s = (r, s')" and ok: "commands_ok s"
  shows "commands_ok s' \<and> grows_to (networkCommands s) (networkCommands s')"
proof -
  let ?cs = "claim_candidates tenant limit stale now s"
  have "nc_status c \<in> {QUEUED, RETRYING, SENT}" if "c \<in> set (networkCommands s)" "nc_id c \<in> set (map nc_id ?cs)" for c
  proof -
    note c = that
    obtain d where d: "d \<in> set ?cs" "nc_id d = nc_id c" using c(2) by auto
    then have "d \<in> set (select (claimable tenant (clamp_limit 300 30 3600 stale) now) (networkCommands s))"
      unfolding claim_candidates_def by (auto dest: in_order_limit)
    then have "d \<in> set (networkCommands s)" "nc_status d \<in> {QUEUED, RETRYING, SENT}" by (auto simp: claimable_def)
    moreover have "distinct (map nc_id (networkCommands s))" using ok by (simp add: commands_ok_def)
    ultimately show ?thesis using d(2) c(1) by (metis distinct_key_unique)
  qed
  then have "command_ok (c\<lparr> nc_status := SENT, nc_sentAt := Some now \<rparr>) \<and> row_evolves c (c\<lparr> nc_status := SENT, nc_sentAt := Some now \<rparr>)"
    if "c \<in> set (networkCommands s)" "nc_id c \<in> set (map nc_id ?cs)" "command_ok c" for c
    using that by (fastforce simp: command_ok_def row_evolves_def)
  then show ?thesis
    using assms touch_step [where P = "\<lambda>c. nc_id c \<in> set (map nc_id ?cs)" and s = s]
    by (auto simp: claim_pending_def Let_def)
qed

lemmas mark_defs = mark_executed_def mark_failed_def mark_verification_failed_def mark_verified_def

lemma executable_cases: "executable st \<Longrightarrow> (st = QUEUED \<Longrightarrow> P) \<Longrightarrow> (st = SENT \<Longrightarrow> P) \<Longrightarrow> (st = ACCEPTED \<Longrightarrow> P) \<Longrightarrow> (st = RETRYING \<Longrightarrow> P) \<Longrightarrow> P"
  by (auto simp: executable_def)

lemma mark_executed_step:
  assumes "commands_ok s"
  shows "commands_ok (mark_executed now t ids x s) \<and> grows_to (networkCommands s) (networkCommands (mark_executed now t ids x s))"
  unfolding mark_defs using assms
  by (cases "ids = []") (simp, simp only: if_False, intro touch_step,
      auto elim!: executable_cases simp: command_ok_def row_evolves_def or_else_def split: option.splits)

lemma mark_failed_step:
  assumes "commands_ok s"
  shows "commands_ok (mark_failed now t ids m s) \<and> grows_to (networkCommands s) (networkCommands (mark_failed now t ids m s))"
  unfolding mark_defs using assms
  by (cases "ids = []") (simp, simp only: if_False, intro touch_step,
      auto elim!: executable_cases simp: command_ok_def row_evolves_def)

lemma mark_verified_step:
  assumes "commands_ok s"
  shows "commands_ok (mark_verified now t i v s) \<and> grows_to (networkCommands s) (networkCommands (mark_verified now t i v s))"
    and "commands_ok (mark_verification_failed now t i v s) \<and>
         grows_to (networkCommands s) (networkCommands (mark_verification_failed now t i v s))"
  unfolding mark_defs using assms by (intro touch_step; auto simp: command_ok_def row_evolves_def)+

lemma retry_step:
  assumes "retry now t i s = (r, s')" and "commands_ok s"
  shows "commands_ok s' \<and> grows_to (networkCommands s) (networkCommands s')"
proof (cases "select_one (\<lambda>c. is_command t i c \<and> nc_status c = FAILED) (networkCommands s)")
  case None
  with assms show ?thesis by (simp add: retry_def)
next
  case (Some c)
  then have "s' = touch_commands (\<lambda>c. is_command t i c \<and> nc_status c = FAILED)
      (\<lambda>c. c\<lparr> nc_status := RETRYING, nc_error := None, nc_response := None, nc_verification := None,
              nc_sentAt := None, nc_completedAt := None, nc_verifiedAt := None \<rparr>) s"
    using assms(1) by (simp add: retry_def Let_def)
  then show ?thesis using assms(2) by (simp only:, intro touch_step) (auto simp: command_ok_def row_evolves_def)
qed

lemma command_step_ok:
  assumes "command_step s s'" and "commands_ok s"
  shows "commands_ok s' \<and> grows_to (networkCommands s) (networkCommands s')"
  using assms(1)
proof (cases rule: command_step.cases)
  case step_queue
  with queue_step assms(2) new_rows_grow show ?thesis by blast
next
  case step_queue_bandwidth
  with queue_bandwidth_step assms(2) new_rows_grow show ?thesis by blast
next
  case step_claim
  with assms(2) show ?thesis by (intro claim_step)
next
  case step_retry
  with assms(2) show ?thesis by (intro retry_step)
next
  case (step_executed now tenant ids response)
  then show ?thesis by (simp only: mark_executed_step [OF assms(2)])
next
  case (step_failed now tenant ids message)
  then show ?thesis by (simp only: mark_failed_step [OF assms(2)])
next
  case (step_verification_failed now tenant i v)
  then show ?thesis by (simp only: mark_verified_step [OF assms(2)])
next
  case (step_verified now tenant i v)
  then show ?thesis by (simp only: mark_verified_step [OF assms(2)])
qed

lemma list_all2_mem: "list_all2 P xs ys \<Longrightarrow> x \<in> set xs \<Longrightarrow> \<exists>y\<in>set ys. P x y"
  by (induction rule: list_all2_induct) auto

lemma grows_to_row:
  assumes "grows_to t u" and "c \<in> set t"
  shows "\<exists>d\<in>set u. row_evolves c d"
proof -
  have "list_all2 row_evolves t (take (length t) u)" using assms(1) by (simp add: grows_to_def)
  from list_all2_mem [OF this assms(2)] obtain d where "d \<in> set (take (length t) u)" "row_evolves c d" by blast
  then show ?thesis by (meson in_set_takeD)
qed

subsection \<open>Properties\<close>

text \<open>C5: Every operation of the command service, with any arguments, keeps the journal consistent: at
  most one command per tenant, type and correlation, distinct identifiers, and time stamps, attempt
  counts and errors that match the status of each row. It only appends queued commands and moves
  existing ones along the edges of the state machine, never changing what they command or lowering
  their attempt count.\<close>

theorem journal_step_is_safe:
  assumes "command_step s s'" and "commands_ok s"
  shows "commands_ok s' \<and> grows_to (networkCommands s) (networkCommands s')"
  using assms by (rule command_step_ok)

theorem journal_step_is_safe_witness:
  "let s' = snd (queue None 7 ''t'' \<lparr> ci_routerId = None, ci_commandType = ''DISCONNECT_SESSION'', ci_actor = None,
     ci_target = None, ci_request = None, ci_provider = None, ci_correlationId = Some ''k'' \<rparr> empty_db)
   in commands_ok s' \<and> length (networkCommands s') = 1"
proof -
  define input where "input = \<lparr> ci_routerId = None, ci_commandType = ''DISCONNECT_SESSION'', ci_actor = None,
     ci_target = None, ci_request = None, ci_provider = None, ci_correlationId = Some ''k'' \<rparr>"
  define s' where "s' = snd (queue None 7 ''t'' input empty_db)"
  have "commands_ok empty_db" by (simp add: commands_ok_def empty_db_def fresh_ids_def)
  moreover have "command_step empty_db s'" unfolding s'_def by (rule step_queue) (rule surjective_pairing)
  ultimately have "commands_ok s'" using journal_step_is_safe by blast
  moreover have "length (networkCommands s') = 1"
    by (simp add: s'_def queue_def Let_def input_def or_else_def empty_db_def has_key_def queue_row_def
        put_command_def insert_once_def)
  ultimately show ?thesis by (simp add: Let_def s'_def input_def)
qed

text \<open>C6: A verified command stays in the journal unchanged, whatever sequence of operations follows.\<close>

theorem verified_is_final:
  assumes "command_step\<^sup>*\<^sup>* s s'" and "commands_ok s" and "c \<in> set (networkCommands s)" and "nc_status c = VERIFIED"
  shows "c \<in> set (networkCommands s')"
proof -
  have "commands_ok s' \<and> c \<in> set (networkCommands s')"
    using assms(1)
  proof (induction rule: rtranclp_induct)
    case base
    with assms(2,3) show ?case by simp
  next
    case (step t u)
    then have "commands_ok u" and g: "grows_to (networkCommands t) (networkCommands u)"
      using command_step_ok by blast+
    moreover obtain d where "d \<in> set (networkCommands u)" "row_evolves c d" using grows_to_row [OF g] step.IH by blast
    moreover from this have "d = c" using assms(4) by (simp add: row_evolves_def)
    ultimately show ?case by simp
  qed
  then show ?thesis by simp
qed

definition example_command :: "command_status \<Rightarrow> network_command" where
  "example_command st = \<lparr> nc_id = ''0'', nc_tenant = ''t'', nc_routerId = None, nc_commandType = ''DISCONNECT_SESSION'',
     nc_actor = ''system'', nc_target = JNull, nc_request = JNull, nc_provider = Some MIKROTIK_REST, nc_status = st,
     nc_attempts = (if st = QUEUED then 0 else 1), nc_response = None, nc_verification = Some JNull, nc_error = Some ''e'',
     nc_correlationId = Some ''k'', nc_createdAt = 0, nc_sentAt = (if st = QUEUED then None else Some 1),
     nc_completedAt = (if st = QUEUED then None else Some 2), nc_verifiedAt = (if st = VERIFIED then Some 3 else None) \<rparr>"

lemma example_commands_ok:
  "st \<in> {QUEUED, EXECUTED, VERIFIED, FAILED} \<Longrightarrow> commands_ok (empty_db\<lparr> next_id := 1, networkCommands := [example_command st] \<rparr>)"
  by (auto simp: commands_ok_def example_command_def command_ok_def unique_key_def keys_of_def nc_key_def fresh_ids_def
      simp flip: nat_str_0)

theorem verified_is_final_witness:
  "example_command VERIFIED \<in> set (networkCommands
     (mark_failed 9 ''t'' [''0''] ''late failure'' (empty_db\<lparr> next_id := 1, networkCommands := [example_command VERIFIED] \<rparr>)))"
proof -
  let ?s = "empty_db\<lparr> next_id := 1, networkCommands := [example_command VERIFIED] \<rparr>"
  have "command_step\<^sup>*\<^sup>* ?s (mark_failed 9 ''t'' [''0''] ''late failure'' ?s)"
    by (rule r_into_rtranclp) (rule step_failed, rule refl)
  then show ?thesis
    by (rule verified_is_final [OF _ example_commands_ok]) (simp_all add: example_command_def)
qed

text \<open>Queueing is idempotent per correlation: when a command was queued under a non-empty correlation,
  the same request returns the same command, marked as reused, and leaves the journal as it is; and
  a request under that correlation with another target, request or provider is refused.\<close>

theorem queue_is_idempotent:
  assumes "queue cid now tenant input s = (Inr r, s')"
    and "or_else (ci_correlationId input) cid = Some k" and "k \<noteq> []"
  shows "(let (r2, s2) = queue cid now' tenant input s' in
            r2 = Inr \<lparr> qi_id = qi_id r, qi_reused = True \<rparr> \<and> networkCommands s2 = networkCommands s') \<and>
         fst (queue cid now' tenant (input\<lparr> ci_request := Some other \<rparr>) s') =
           (if jsonb other = jsonb (case ci_request input of None \<Rightarrow> JObj [] | Some j \<Rightarrow> j)
            then Inr \<lparr> qi_id = qi_id r, qi_reused = True \<rparr> else Inl correlation_taken)"
proof -
  let ?key = "(tenant, ci_commandType input, k)"
  let ?target = "case ci_target input of None \<Rightarrow> JObj [] | Some j \<Rightarrow> j"
  let ?request = "case ci_request input of None \<Rightarrow> JObj [] | Some j \<Rightarrow> j"
  obtain c where c: "select_one (\<lambda>c. nc_key c = Some ?key) (networkCommands s') = Some c"
      "same_operation ?target ?request (ci_provider input) c" "nc_id c = qi_id r"
  proof (cases "has_key nc_key ?key (networkCommands s)")
    case True
    with assms have "\<exists>c. select_one (\<lambda>c. nc_key c = Some ?key) (networkCommands s') = Some c \<and>
      same_operation ?target ?request (ci_provider input) c \<and> nc_id c = qi_id r"
      by (auto simp: queue_def Let_def split: if_splits option.splits)
    then show ?thesis using that by blast
  next
    case False
    let ?row = "queue_row cid now tenant input (new_uuid s)"
    have key: "nc_key ?row = Some ?key" using assms(2) by (simp add: queue_row_def)
    have s': "networkCommands s' = insert_row ?row (networkCommands s)" "r = \<lparr> qi_id = new_uuid s, qi_reused = False \<rparr>"
      using assms(1,2) False key
      by (auto simp: queue_def Let_def put_command_def insert_once_def insert_row_def)
    have "select_one (\<lambda>c. nc_key c = Some ?key) (networkCommands s) = None"
      using False by (auto simp: select_one_None has_key_iff)
    then have "select_one (\<lambda>c. nc_key c = Some ?key) (networkCommands s') = Some ?row"
      using key by (simp add: s' select_one_insert_row)
    then show ?thesis using that by (simp add: s' queue_row_def)
  qed
  then have "has_key nc_key ?key (networkCommands s')"
    using select_one_Some [OF c(1)] by (auto simp: has_key_iff)
  then show ?thesis
    using assms(2,3) c by (auto simp: queue_def Let_def same_operation_def split: option.splits)
qed

theorem queue_is_idempotent_witness:
  "let input = \<lparr> ci_routerId = None, ci_commandType = ''DISCONNECT_SESSION'', ci_actor = None, ci_target = None,
         ci_request = Some (JStr ''a''), ci_provider = None, ci_correlationId = Some ''k'' \<rparr>;
       s' = snd (queue None 7 ''t'' input empty_db)
   in fst (queue None 8 ''t'' input s') = Inr \<lparr> qi_id = ''0'', qi_reused = True \<rparr> \<and>
      fst (queue None 8 ''t'' (input\<lparr> ci_request := Some (JStr ''b'') \<rparr>) s') = Inl correlation_taken"
proof -
  define input where "input = \<lparr> ci_routerId = None, ci_commandType = ''DISCONNECT_SESSION'', ci_actor = None, ci_target = None,
         ci_request = Some (JStr ''a''), ci_provider = None, ci_correlationId = Some ''k'' \<rparr>"
  define s' where "s' = snd (queue None 7 ''t'' input empty_db)"
  have q: "queue None 7 ''t'' input empty_db = (Inr \<lparr> qi_id = ''0'', qi_reused = False \<rparr>, s')"
    by (simp add: s'_def queue_def Let_def input_def or_else_def empty_db_def has_key_def new_uuid_def nat_str_0)
  have corr: "or_else (ci_correlationId input) None = Some ''k''" by (simp add: input_def or_else_def)
  note r = queue_is_idempotent [OF q corr, of 8 "JStr ''b''"]
  have "fst (queue None 8 ''t'' input s') = Inr \<lparr> qi_id = ''0'', qi_reused = True \<rparr>"
    using r by (simp add: case_prod_beta)
  moreover have "ci_request input = Some (JStr ''a'')" by (simp add: input_def)
  then have "fst (queue None 8 ''t'' (input\<lparr> ci_request := Some (JStr ''b'') \<rparr>) s') = Inl correlation_taken"
    using r by simp
  ultimately show ?thesis unfolding Let_def input_def [symmetric] s'_def [symmetric] by (rule conjI)
qed

end
