(* ===== verification/DomainEvents.thy ===== *)
theory DomainEvents
  imports AuditTrail Journal
begin

text \<open>
  The outbox of domain events (\<open>communication/communication.domain-events.ts\<close>): keyed enqueueing, claiming,
  processing, retrying and the recovery of stale locks. The PostgreSQL notification that follows an
  insert, which the code calls advisory, is left out.
\<close>

record event_input =
  ei_tenantId :: uuid
  ei_eventKey :: string
  ei_eventType :: string
  ei_aggregateType :: "string option"
  ei_aggregateId :: "string option"
  ei_payload :: json

definition de_unique :: "domain_event \<Rightarrow> (uuid \<times> string) option" where
  "de_unique e = Some (de_tenant e, de_key e)"

definition put_event :: "domain_event \<Rightarrow> db \<Rightarrow> db" where
  "put_event e s = s\<lparr> domainEvents := insert_once de_unique e (domainEvents s) \<rparr>"

definition touch_events :: "(domain_event \<Rightarrow> bool) \<Rightarrow> (domain_event \<Rightarrow> domain_event) \<Rightarrow> db \<Rightarrow> db" where
  "touch_events P f s = s\<lparr> domainEvents := update_where P f (domainEvents s) \<rparr>"

interpretation outbox: keyed_queue domainEvents de_unique put_event touch_events
  by unfold_locales (simp_all add: put_event_def touch_events_def)

definition event_row :: "uuid \<Rightarrow> time \<Rightarrow> event_input \<Rightarrow> domain_event" where
  "event_row i now e = \<lparr> de_id = i, de_tenant = ei_tenantId e, de_key = js_trim (ei_eventKey e),
     de_type = js_upper (js_trim (ei_eventType e)), de_aggregateType = trim_or_null (ei_aggregateType e),
     de_aggregateId = (case ei_aggregateId e of Some a \<Rightarrow> if a = [] then None else Some a | None \<Rightarrow> None),
     de_payload = ei_payload e, de_status = E_PENDING, de_attempts = 0, de_availableAt = now, de_lockedAt = None,
     de_processedAt = None, de_lastError = None, de_createdAt = now \<rparr>"

text \<open>\<open>enqueue\<close>: the conflict clause touches nothing, and returns the identifier of the row that is there.\<close>

definition enqueue :: "time \<Rightarrow> event_input \<Rightarrow> (db, uuid) operation" where
  "enqueue now e s =
     (let s' = put_event (event_row (new_uuid s) now e) (s\<lparr> next_id := next_id s + 1 \<rparr>)
      in (Inr (case select_one (\<lambda>d. de_unique d = Some (ei_tenantId e, js_trim (ei_eventKey e))) (domainEvents s') of
                 Some d \<Rightarrow> de_id d | None \<Rightarrow> new_uuid s), s'))"

definition max_attempts :: nat where
  "max_attempts = 8"

definition event_claimable :: "time \<Rightarrow> domain_event \<Rightarrow> bool" where
  "event_claimable now e \<longleftrightarrow> de_status e \<in> {E_PENDING, E_FAILED} \<and> de_availableAt e \<le> now \<and> de_attempts e < max_attempts"

definition claim_events :: "jsnum \<Rightarrow> time \<Rightarrow> (db, domain_event list) operation" where
  "claim_events limit now s =
     (let rows = order_limit de_createdAt (nat (clamp_limit 25 1 100 limit)) (select (event_claimable now) (domainEvents s))
      in (Inr rows, touch_events (\<lambda>e. de_id e \<in> set (map de_id rows))
            (\<lambda>e. e\<lparr> de_status := E_PROCESSING, de_lockedAt := Some now, de_attempts := de_attempts e + 1 \<rparr>) s))"

definition mark_processed :: "time \<Rightarrow> uuid \<Rightarrow> db \<Rightarrow> db" where
  "mark_processed now i = touch_events (\<lambda>e. de_id e = i \<and> de_status e = E_PROCESSING)
     (\<lambda>e. e\<lparr> de_status := E_PROCESSED, de_processedAt := Some now, de_lockedAt := None \<rparr>)"

definition mark_event_failed :: "time \<Rightarrow> uuid \<Rightarrow> string \<Rightarrow> db \<Rightarrow> db" where
  "mark_event_failed now i message = touch_events (\<lambda>e. de_id e = i \<and> de_status e = E_PROCESSING)
     (\<lambda>e. e\<lparr> de_status := (if de_attempts e \<ge> max_attempts then E_FAILED else E_PENDING),
             de_availableAt := (if de_attempts e \<ge> max_attempts then now + 60000 else now + 5000),
             de_lockedAt := None, de_lastError := Some (take 2000 message) \<rparr>)"

definition recover_stale :: "rat \<Rightarrow> time \<Rightarrow> db \<Rightarrow> db" where
  "recover_stale maxAgeMinutes now =
     (let age = min (max (trunc_rat maxAgeMinutes) 1) 1440 in
      touch_events (\<lambda>e. de_status e = E_PROCESSING \<and> (case de_lockedAt e of None \<Rightarrow> False | Some t \<Rightarrow> t < now - age * 60000))
        (\<lambda>e. e\<lparr> de_status := (if de_attempts e \<ge> max_attempts then E_FAILED else E_PENDING),
                de_availableAt := now, de_lockedAt := None,
                de_lastError := or_else (de_lastError e) (Some ''Recovered stale event lock'') \<rparr>))"

text \<open>
  \<open>drain\<close>: the listeners are a parameter that says which events they fail on, with which message;
  the emitter calls them one after the other.
\<close>

fun drain_events :: "(domain_event \<Rightarrow> string option) \<Rightarrow> time \<Rightarrow> domain_event list \<Rightarrow> db \<Rightarrow> db" where
  "drain_events listener now [] s = s"
| "drain_events listener now (e # es) s = drain_events listener now es
     (case listener e of None \<Rightarrow> mark_processed now (de_id e) s | Some m \<Rightarrow> mark_event_failed now (de_id e) m s)"

definition drain :: "(domain_event \<Rightarrow> string option) \<Rightarrow> time \<Rightarrow> db \<Rightarrow> db" where
  "drain listener now s =
     (let s1 = recover_stale 15 now s in
      case claim_events (Fin 25) now s1 of
        (Inr rows, s2) \<Rightarrow> drain_events listener now rows s2
      | (Inl _, s2) \<Rightarrow> s2)"

subsection \<open>The outbox as a state machine\<close>

inductive outbox_step :: "db \<Rightarrow> db \<Rightarrow> bool" where
  step_enqueue: "enqueue now e s = (r, s') \<Longrightarrow> outbox_step s s'"
| step_claim_events: "claim_events limit now s = (r, s') \<Longrightarrow> outbox_step s s'"
| step_processed: "outbox_step s (mark_processed now i s)"
| step_event_failed: "outbox_step s (mark_event_failed now i message s)"
| step_recover: "outbox_step s (recover_stale age now s)"

definition event_ok :: "domain_event \<Rightarrow> bool" where
  "event_ok e \<longleftrightarrow> de_attempts e \<le> max_attempts \<and>
     (case de_status e of
        E_PENDING \<Rightarrow> de_attempts e < max_attempts \<and> de_lockedAt e = None
      | E_PROCESSING \<Rightarrow> 0 < de_attempts e \<and> de_lockedAt e \<noteq> None
      | E_PROCESSED \<Rightarrow> 0 < de_attempts e \<and> de_processedAt e \<noteq> None \<and> de_lockedAt e = None
      | E_FAILED \<Rightarrow> de_attempts e = max_attempts \<and> de_lockedAt e = None)"

definition outbox_ok :: "db \<Rightarrow> bool" where
  "outbox_ok s \<longleftrightarrow> unique_key de_unique (domainEvents s) \<and> list_all event_ok (domainEvents s) \<and>
     distinct (map de_id (domainEvents s)) \<and> fresh_ids s (map de_id (domainEvents s))"

definition event_evolves :: "domain_event \<Rightarrow> domain_event \<Rightarrow> bool" where
  "event_evolves e f \<longleftrightarrow> de_id f = de_id e \<and> de_unique f = de_unique e \<and> de_payload f = de_payload e \<and>
     de_attempts e \<le> de_attempts f \<and> (de_status e \<in> {E_FAILED, E_PROCESSED} \<longrightarrow> f = e)"

lemma touch_events_step:
  assumes f: "\<And>e. e \<in> set (domainEvents s) \<Longrightarrow> P e \<Longrightarrow> event_ok e \<Longrightarrow> event_ok (f e) \<and> event_evolves e (f e)"
    and ok: "outbox_ok s" and e: "e \<in> set (domainEvents s)"
  shows "outbox_ok (touch_events P f s) \<and> (\<exists>g\<in>set (domainEvents (touch_events P f s)). event_evolves e g)"
proof -
  let ?g = "\<lambda>c. if P c then f c else c"
  have g: "event_ok (?g c) \<and> event_evolves c (?g c)" if "c \<in> set (domainEvents s)" for c
    using f [OF that] ok that by (simp add: outbox_ok_def list_all_iff event_evolves_def)
  have keys: "keys_of de_unique (map ?g (domainEvents s)) = keys_of de_unique (domainEvents s)"
    by (rule keys_of_map) (use g in \<open>metis event_evolves_def\<close>)
  have ids: "map de_id (map ?g (domainEvents s)) = map de_id (domainEvents s)"
    unfolding map_map comp_def by (rule map_cong [OF refl]) (use g in \<open>metis event_evolves_def\<close>)
  have "list_all event_ok (map ?g (domainEvents s))"
    unfolding list_all_iff set_map using g by blast
  moreover have nc: "domainEvents (touch_events P f s) = map ?g (domainEvents s)"
    and nx: "next_id (touch_events P f s) = next_id s"
    by (simp_all add: touch_events_def update_where_def)
  moreover have "\<exists>x\<in>set (map ?g (domainEvents s)). event_evolves e x" unfolding set_map using g e by blast
  ultimately show ?thesis
    using ok unfolding outbox_ok_def fresh_ids_def nc nx unique_key_def ids keys by simp
qed

lemma enqueue_step:
  assumes "enqueue now e s = (r, s')" and ok: "outbox_ok s"
  shows "outbox_ok s'" and "f \<in> set (domainEvents s) \<Longrightarrow> f \<in> set (domainEvents s')"
    and "f \<in> set (domainEvents s') \<Longrightarrow> f \<in> set (domainEvents s) \<or> de_status f = E_PENDING"
proof -
  let ?e = "event_row (new_uuid s) now e" and ?s = "s\<lparr> next_id := next_id s + 1 \<rparr>"
  have s': "s' = put_event ?e ?s" using assms(1) by (simp add: enqueue_def Let_def)
  have rows: "domainEvents s' = domainEvents s \<or> domainEvents s' = domainEvents s @ [?e]"
    by (auto simp: s' put_event_def insert_once_def split: option.splits)
  have "unique_key de_unique (domainEvents s')"
    unfolding s' using ok by (intro outbox.put_unique) (simp add: outbox_ok_def)
  moreover have "new_uuid s \<notin> set (map de_id (domainEvents s))"
    using ok by (intro fresh_ids_new) (simp add: outbox_ok_def)
  moreover have "next_id s' = next_id s + 1" by (simp add: s' put_event_def)
  moreover have "event_ok ?e" "de_id ?e = new_uuid s" by (simp_all add: event_row_def event_ok_def max_attempts_def)
  ultimately show "outbox_ok s'"
    using rows ok fresh_ids_extend [of s _ s'] fresh_ids_mono [of s _ s'] by (auto simp: outbox_ok_def)
  show "f \<in> set (domainEvents s')" if "f \<in> set (domainEvents s)"
    using that rows by auto
  show "f \<in> set (domainEvents s) \<or> de_status f = E_PENDING" if "f \<in> set (domainEvents s')"
    using that rows by (auto simp: event_row_def)
qed

lemma claim_events_reaches:
  assumes "distinct (map de_id (domainEvents s))" and "e \<in> set (domainEvents s)"
    and "de_id e \<in> set (map de_id (order_limit k n (select (event_claimable now) (domainEvents s))))"
  shows "event_claimable now e"
proof -
  obtain d where d: "d \<in> set (order_limit k n (select (event_claimable now) (domainEvents s)))" "de_id d = de_id e"
    using assms(3) by auto
  from in_order_limit [OF d(1)] have "d \<in> set (domainEvents s)" "event_claimable now d" by simp_all
  with assms(1,2) d(2) show ?thesis by (metis distinct_key_unique)
qed

lemma event_evolves_refl [simp]: "event_evolves e e"
  by (simp add: event_evolves_def)

lemma outbox_step_row:
  assumes "outbox_step s s'" and ok: "outbox_ok s" and e: "e \<in> set (domainEvents s)"
  shows "outbox_ok s' \<and> (\<exists>f\<in>set (domainEvents s'). event_evolves e f)"
  using assms(1)
proof (cases rule: outbox_step.cases)
  case (step_enqueue now e' r)
  with enqueue_step [OF step_enqueue ok] e event_evolves_refl show ?thesis by blast
next
  case (step_claim_events limit now r)
  let ?rows = "order_limit de_createdAt (nat (clamp_limit 25 1 100 limit)) (select (event_claimable now) (domainEvents s))"
  have s': "s' = touch_events (\<lambda>e. de_id e \<in> set (map de_id ?rows))
      (\<lambda>e. e\<lparr> de_status := E_PROCESSING, de_lockedAt := Some now, de_attempts := de_attempts e + 1 \<rparr>) s"
    using step_claim_events by (simp add: claim_events_def Let_def)
  have ids: "distinct (map de_id (domainEvents s))" using ok by (simp add: outbox_ok_def)
  show ?thesis unfolding s'
  proof (rule touch_events_step [OF _ ok e])
    fix c assume "c \<in> set (domainEvents s)" "de_id c \<in> set (map de_id ?rows)" and c: "event_ok c"
    from claim_events_reaches [OF ids this(1,2)] have "event_claimable now c" .
    with c show "event_ok (c\<lparr> de_status := E_PROCESSING, de_lockedAt := Some now, de_attempts := de_attempts c + 1 \<rparr>) \<and>
        event_evolves c (c\<lparr> de_status := E_PROCESSING, de_lockedAt := Some now, de_attempts := de_attempts c + 1 \<rparr>)"
      by (auto simp: event_claimable_def event_ok_def event_evolves_def de_unique_def)
  qed
next
  case step_processed
  show ?thesis unfolding step_processed mark_processed_def
    by (rule touch_events_step [OF _ ok e]) (auto simp: event_ok_def event_evolves_def de_unique_def)
next
  case step_event_failed
  show ?thesis unfolding step_event_failed mark_event_failed_def
    by (rule touch_events_step [OF _ ok e]) (auto simp: event_ok_def event_evolves_def de_unique_def)
next
  case step_recover
  show ?thesis unfolding step_recover recover_stale_def Let_def
    by (rule touch_events_step [OF _ ok e]) (auto simp: event_ok_def event_evolves_def de_unique_def)
qed

subsection \<open>Properties\<close>

text \<open>C7: Over any sequence of operations the outbox keeps one event per tenant and key, claims no event
  more than eight times, and holds locks exactly on the events in processing. A processed event is never
  touched again, and neither is a failed one: although failing sets a time for another attempt,
  an event that failed eight times stays failed for ever, since claiming demands fewer attempts.\<close>

theorem outbox_runs_are_safe:
  assumes "outbox_step\<^sup>*\<^sup>* s s'" and "outbox_ok s" and "e \<in> set (domainEvents s)"
  shows "outbox_ok s' \<and> list_all (\<lambda>f. de_attempts f \<le> 8) (domainEvents s') \<and>
    (if de_status e = E_FAILED \<or> de_status e = E_PROCESSED then e \<in> set (domainEvents s')
     else list_ex (\<lambda>f. de_id f = de_id e \<and> de_payload f = de_payload e \<and> de_attempts e \<le> de_attempts f) (domainEvents s'))"
proof -
  have "outbox_ok s' \<and> (\<exists>f\<in>set (domainEvents s'). event_evolves e f)"
    using assms(1)
  proof (induction rule: rtranclp_induct)
    case base
    with assms(2,3) show ?case using event_evolves_refl by blast
  next
    case (step t u)
    then obtain f where f: "f \<in> set (domainEvents t)" "event_evolves e f" by blast
    with outbox_step_row [OF step(2) _ f(1)] step obtain g where
      "outbox_ok u" "g \<in> set (domainEvents u)" "event_evolves f g" by blast
    moreover have "event_evolves e g" using \<open>event_evolves f g\<close> f(2) by (auto simp: event_evolves_def)
    ultimately show ?case by blast
  qed
  then obtain f where f: "outbox_ok s'" "f \<in> set (domainEvents s')" "event_evolves e f" by blast
  have "list_all (\<lambda>f. de_attempts f \<le> 8) (domainEvents s')"
    using f(1) by (simp add: outbox_ok_def list_all_iff event_ok_def max_attempts_def)
  moreover have "e \<in> set (domainEvents s')" if "de_status e = E_FAILED \<or> de_status e = E_PROCESSED"
    using that f by (auto simp: event_evolves_def)
  moreover have "list_ex (\<lambda>f. de_id f = de_id e \<and> de_payload f = de_payload e \<and> de_attempts e \<le> de_attempts f) (domainEvents s')"
    using f by (auto simp: list_ex_iff event_evolves_def)
  ultimately show ?thesis using f(1) by simp
qed

definition example_event :: "event_status \<Rightarrow> domain_event" where
  "example_event st = \<lparr> de_id = ''0'', de_tenant = ''t'', de_key = ''k'', de_type = ''X'', de_aggregateType = None,
     de_aggregateId = None, de_payload = JNull, de_status = st, de_attempts = 8, de_availableAt = 60000, de_lockedAt = None,
     de_processedAt = Some 1, de_lastError = None, de_createdAt = 0 \<rparr>"

theorem outbox_runs_are_safe_witness:
  "let s = empty_db\<lparr> next_id := 1, domainEvents := [example_event E_FAILED] \<rparr>
   in example_event E_FAILED \<in> set (domainEvents (snd (claim_events (Fin 25) 90000 s)))"
proof -
  define s where "s = empty_db\<lparr> next_id := 1, domainEvents := [example_event E_FAILED] \<rparr>"
  have zero: "nat_str 0 = ''0''" by (simp add: nat_str.simps char_of_def bit_0)
  have "outbox_ok s"
    by (auto simp: s_def outbox_ok_def example_event_def event_ok_def max_attempts_def unique_key_def keys_of_def
        de_unique_def fresh_ids_def simp flip: zero)
  moreover have "outbox_step\<^sup>*\<^sup>* s (snd (claim_events (Fin 25) 90000 s))"
    by (rule r_into_rtranclp, rule step_claim_events, rule surjective_pairing)
  moreover have "example_event E_FAILED \<in> set (domainEvents s)" by (simp add: s_def)
  ultimately show ?thesis
    using outbox_runs_are_safe [of s "snd (claim_events (Fin 25) 90000 s)" "example_event E_FAILED"]
    by (simp add: s_def example_event_def)
qed

text \<open>Enqueueing under a key that the tenant has used leaves the outbox as it is and returns the
  identifier of the first event; under a new key it appends one pending event. Keys that differ only
  by surrounding white space are the same key.\<close>

theorem enqueue_once_per_key:
  "let k = (ei_tenantId e, js_trim (ei_eventKey e)); (r, s') = enqueue now e s
   in if has_key de_unique k (domainEvents s)
      then domainEvents s' = domainEvents s \<and>
           r = map_sum id de_id (Inr (the (select_one (\<lambda>d. de_unique d = Some k) (domainEvents s))))
      else domainEvents s' = domainEvents s @ [event_row (new_uuid s) now e] \<and> r = Inr (new_uuid s) \<and>
           enqueue now' (e\<lparr> ei_eventKey := '' '' @ ei_eventKey e @ '' '', ei_payload := JNull \<rparr>) s'
             = (Inr (new_uuid s), s'\<lparr> next_id := next_id s' + 1 \<rparr>)"
proof -
  let ?k = "(ei_tenantId e, js_trim (ei_eventKey e))"
  have trim: "js_trim ('' '' @ x @ '' '') = js_trim x" for x
  proof -
    have sp: "js_space (CHR '' '')" by (simp add: js_space_def)
    show ?thesis
    proof (cases "\<forall>c\<in>set x. js_space c")
      case True
      then have "dropWhile js_space x = []" "dropWhile js_space (x @ '' '') = []" using sp by auto
      with sp True show ?thesis by (auto simp: js_trim_def dest: set_dropWhileD)
    next
      case False
      then obtain c where "c \<in> set x" "\<not> js_space c" by blast
      then have "dropWhile js_space (x @ '' '') = dropWhile js_space x @ '' ''" by (rule dropWhile_append1)
      with sp show ?thesis by (simp add: js_trim_def)
    qed
  qed
  have row: "de_unique (event_row i n e) = Some ?k" "de_id (event_row i n e) = i" for i n
    by (simp_all add: event_row_def de_unique_def)
  have other: "de_unique (event_row i n (e\<lparr> ei_eventKey := '' '' @ ei_eventKey e @ '' '', ei_payload := JNull \<rparr>)) = Some ?k" for i n
    by (simp add: event_row_def de_unique_def trim [simplified])
  show ?thesis
  proof (cases "has_key de_unique ?k (domainEvents s)")
    case True
    from has_key_select_one [OF True] obtain d where "select_one (\<lambda>d. de_unique d = Some ?k) (domainEvents s) = Some d"
      by (elim exE)
    with True row show ?thesis by (simp add: enqueue_def Let_def put_event_def insert_once_def)
  next
    case False
    let ?row = "event_row (new_uuid s) now e"
    define s' where "s' = snd (enqueue now e s)"
    have rows: "domainEvents s' = insert_row ?row (domainEvents s)"
      using False row by (simp add: s'_def enqueue_def Let_def put_event_def insert_once_def insert_row_def)
    then have sel: "select_one (\<lambda>d. de_unique d = Some ?k) (domainEvents s') = Some ?row"
      using select_one_key_None [THEN iffD2, OF False] row by (simp add: select_one_insert_row)
    then have there: "has_key de_unique ?k (domainEvents s')"
      by (rule select_one_has_key [THEN conjunct1])
    have "enqueue now e s = (Inr (new_uuid s), s')"
      using sel row by (simp add: s'_def enqueue_def Let_def)
    moreover have "enqueue now' (e\<lparr> ei_eventKey := '' '' @ ei_eventKey e @ '' '', ei_payload := JNull \<rparr>) s'
        = (Inr (new_uuid s), s'\<lparr> next_id := next_id s' + 1 \<rparr>)"
      using there sel row other
      by (simp add: enqueue_def Let_def put_event_def insert_once_def trim [simplified])
    ultimately show ?thesis using False rows by (simp add: Let_def insert_row_def)
  qed
qed

end
