(* ===== verification/Enforcement.thy ===== *)
theory Enforcement
  imports Fairness NetworkCommands
begin

text \<open>
  Enforcement of bandwidth and disconnects (\<open>modules/traffic/enforcement.adapter.ts\<close>,
  \<open>enforcement.service.ts\<close>). The vendor adapters talk to devices and are parameters: functions of the
  device calls made so far and of their arguments, which may fail with a message. Every call is
  appended to \<open>deviceCalls\<close>. The services journal their commands whenever a tenant is given.
\<close>

subsection \<open>Adapters\<close>

type_synonym credentials = string

record disconnect_command =
  dis_routerId :: string
  dis_customerId :: string
  dis_sessionId :: "string option"
  dis_username :: "string option"
  dis_targetAddress :: "string option"
  dis_targetMacAddress :: "string option"
  dis_apiEndpoint :: "string option"
  dis_protocol :: "protocol option"

record disconnect_result =
  dr_disconnected :: bool
  dr_details :: json

record verification_result =
  ev_verified :: bool
  ev_details :: json

text \<open>An adapter returns a message when it throws. Result lists may be shorter than the command list.\<close>

record adapter =
  ad_apply :: "device_call list \<Rightarrow> bandwidth_command list \<Rightarrow> credentials option \<Rightarrow> string option"
  ad_verify :: "(device_call list \<Rightarrow> bandwidth_command list \<Rightarrow> credentials option \<Rightarrow> string + verification_result list) option"
  ad_disconnect :: "(device_call list \<Rightarrow> disconnect_command \<Rightarrow> credentials option \<Rightarrow> string + disconnect_result list) option"
  ad_verifyDisconnected :: "(device_call list \<Rightarrow> disconnect_command \<Rightarrow> credentials option \<Rightarrow> string + verification_result list) option"

type_synonym adapters = "protocol \<Rightarrow> adapter option"

definition noop_adapter :: adapter where
  "noop_adapter = \<lparr> ad_apply = (\<lambda>_ _ _. None),
     ad_verify = Some (\<lambda>_ cs _. Inr (map (\<lambda>_. \<lparr> ev_verified = False,
                   ev_details = jobject [(''reason'', Some (JStr ''NOOP_ADAPTER''))] \<rparr>) cs)),
     ad_disconnect = None, ad_verifyDisconnected = None \<rparr>"

definition supports_protocol :: "adapters \<Rightarrow> protocol \<Rightarrow> bool" where
  "supports_protocol ads p \<longleftrightarrow> ads p \<noteq> None"

definition supports_disconnect :: "adapters \<Rightarrow> protocol \<Rightarrow> bool" where
  "supports_disconnect ads p \<longleftrightarrow>
     (case ads p of None \<Rightarrow> False | Some a \<Rightarrow> ad_disconnect a \<noteq> None \<and> ad_verifyDisconnected a \<noteq> None)"

definition log_call :: "device_method \<Rightarrow> protocol \<Rightarrow> uuid option list \<Rightarrow> db \<Rightarrow> db" where
  "log_call m p ss s = s\<lparr> deviceCalls := deviceCalls s @ [\<lparr> dc_method = m, dc_protocol = p, dc_sessions = ss \<rparr>] \<rparr>"

subsection \<open>Commands from allocations\<close>

text \<open>A missing component of a limit is infinite.\<close>

record speed_limit =
  sl_download :: "rat option"
  sl_upload :: "rat option"

record enforcement_target =
  et_targetAddress :: "string option"
  et_targetMacAddress :: "string option"
  et_apiEndpoint :: "string option"
  et_protocol :: "protocol option"
  et_merakiGroupPolicyId :: "string option"

definition user_key :: "string \<Rightarrow> string option \<Rightarrow> string" where
  "user_key customer session = customer @ '':'' @ (case session of None \<Rightarrow> [] | Some s \<Rightarrow> s)"

definition upload_ratio :: "jsnum \<Rightarrow> rat" where
  "upload_ratio r = (case r of Fin x \<Rightarrow> max 0 (min 1 x) | _ \<Rightarrow> 1 / 2)"

definition min_limit :: "rat \<Rightarrow> rat option \<Rightarrow> rat" where
  "min_limit x l = (case l of None \<Rightarrow> x | Some y \<Rightarrow> min x y)"

definition to_enforcement_commands ::
  "string \<Rightarrow> fairness_allocation list \<Rightarrow> jsnum \<Rightarrow> (string \<Rightarrow> enforcement_target option) \<Rightarrow>
   (string \<Rightarrow> speed_limit option) \<Rightarrow> bandwidth_command list" where
  "to_enforcement_commands routerId allocations uploadRatio targets serviceLimits =
     (let ratio = upload_ratio uploadRatio in
      map (\<lambda>a.
        (let key = user_key (fa_customerId a) (fa_sessionId a);
             target = targets key;
             limit = serviceLimits key;
             download = fa_allocatedMbps a;
             upload = download * ratio
         in \<lparr> bc_routerId = routerId, bc_customerId = fa_customerId a, bc_sessionId = fa_sessionId a,
              bc_targetAddress = Option.bind target et_targetAddress,
              bc_targetMacAddress = Option.bind target et_targetMacAddress,
              bc_apiEndpoint = Option.bind target et_apiEndpoint,
              bc_protocol = Option.bind target et_protocol,
              bc_merakiGroupPolicyId = Option.bind target et_merakiGroupPolicyId,
              bc_maxDownloadMbps = to_fixed 3 (min_limit download (Option.bind limit sl_download)),
              bc_maxUploadMbps = to_fixed 3 (min_limit upload (Option.bind limit sl_upload)),
              bc_priority = max 1 (js_round (fa_priority a)) \<rparr>))
        (filter (\<lambda>a. fa_allocatedMbps a > 0) allocations))"

subsection \<open>Applying and verifying\<close>

record execution =
  ex_verifiedCommandIds :: "uuid list"
  ex_verificationFailures :: nat

definition reason_json :: "string \<Rightarrow> json" where
  "reason_json r = jobject [(''reason'', Some (JStr r))]"

definition no_adapter :: "protocol \<Rightarrow> exn" where
  "no_adapter p = ServiceUnavailable (''No traffic enforcement adapter is registered for '' @ protocol_name p)"

text \<open>An element of an array that may be too short: \<open>xs[index]\<close>.\<close>

definition elem_at :: "'a list \<Rightarrow> nat \<Rightarrow> 'a option" where
  "elem_at xs i = (if i < length xs then Some (xs ! i) else None)"

text \<open>The loop over the commands after verification; \<open>tenant\<close> is \<open>tenantId\<close>.\<close>

fun settle_results ::
  "time \<Rightarrow> uuid option \<Rightarrow> uuid list \<Rightarrow> verification_result list \<Rightarrow> nat \<Rightarrow> nat \<Rightarrow> db \<Rightarrow> execution \<times> db" where
  "settle_results now tenant ids results index 0 s = (\<lparr> ex_verifiedCommandIds = [], ex_verificationFailures = 0 \<rparr>, s)"
| "settle_results now tenant ids results index (Suc n) s =
     (let i = elem_at ids index; r = elem_at results index in
      case r of
        Some v \<Rightarrow>
          if ev_verified v
          then (let s1 = (case (i, tenant) of (Some c, Some t) \<Rightarrow> mark_verified now t c (ev_details v) s | _ \<Rightarrow> s);
                    (e, s2) = settle_results now tenant ids results (index + 1) n s1
                in (e\<lparr> ex_verifiedCommandIds := (case i of None \<Rightarrow> [] | Some c \<Rightarrow> [c]) @ ex_verifiedCommandIds e \<rparr>, s2))
          else (let s1 = (case (i, tenant) of (Some c, Some t) \<Rightarrow> mark_verification_failed now t c (ev_details v) s | _ \<Rightarrow> s);
                    (e, s2) = settle_results now tenant ids results (index + 1) n s1
                in (e\<lparr> ex_verificationFailures := ex_verificationFailures e + 1 \<rparr>, s2))
      | None \<Rightarrow>
          (let s1 = (case (i, tenant) of
                 (Some c, Some t) \<Rightarrow> mark_verification_failed now t c (reason_json ''MISSING_VERIFICATION_RESULT'') s | _ \<Rightarrow> s);
               (e, s2) = settle_results now tenant ids results (index + 1) n s1
           in (e\<lparr> ex_verificationFailures := ex_verificationFailures e + 1 \<rparr>, s2)))"

text \<open>\<open>for (const id of commandIds) await markVerificationFailed(tenantId, id, \<dots>)\<close> when both are given.\<close>

definition fail_verifications :: "time \<Rightarrow> uuid option \<Rightarrow> uuid list \<Rightarrow> string \<Rightarrow> db \<Rightarrow> db" where
  "fail_verifications now tenant ids reason s =
     (case tenant of None \<Rightarrow> s
      | Some t \<Rightarrow> fold (\<lambda>i. mark_verification_failed now t i (reason_json reason)) ids s)"

definition execute_verified ::
  "adapters \<Rightarrow> time \<Rightarrow> bandwidth_command list \<Rightarrow> credentials option \<Rightarrow> protocol \<Rightarrow> uuid option \<Rightarrow> uuid list
   \<Rightarrow> (db, execution) operation" where
  "execute_verified ads now commands creds p tenant ids s =
     (case ads p of
        None \<Rightarrow> (Inl (no_adapter p), s)
      | Some a \<Rightarrow>
          (let failure = ad_apply a (deviceCalls s) commands creds;
               s1 = log_call Dev_apply p (map bc_sessionId commands) s
           in case failure of
                Some message \<Rightarrow>
                  (Inl (PlainError message), case tenant of None \<Rightarrow> s1 | Some t \<Rightarrow> mark_failed now t ids message s1)
              | None \<Rightarrow>
                  (let response = jobject [(''protocol'', Some (JStr (protocol_name p))),
                                           (''commandCount'', Some (JNum (of_nat (length commands))))];
                       s2 = (case tenant of None \<Rightarrow> s1 | Some t \<Rightarrow> mark_executed now t ids response s1)
                   in case ad_verify a of
                        None \<Rightarrow> (Inl (ServiceUnavailable (''Verified network enforcement is not supported for '' @ protocol_name p)),
                                 fail_verifications now tenant ids ''VERIFICATION_UNSUPPORTED'' s2)
                      | Some verify \<Rightarrow>
                          (let s3 = log_call Dev_verify p (map bc_sessionId commands) s2 in
                           case verify (deviceCalls s2) commands creds of
                             Inl message \<Rightarrow> (Inl (PlainError message),
                               fail_verifications now tenant ids ''VERIFICATION_REQUEST_FAILED'' s3)
                           | Inr results \<Rightarrow> apfst Inr (settle_results now tenant ids results 0 (length commands) s3)))))"

record enforcement_result =
  er_applied :: bool
  er_commands :: "bandwidth_command list"
  er_commandIds :: "uuid list"
  er_verifiedCommandIds :: "uuid list"
  er_verificationFailures :: nat

definition nothing_applied :: enforcement_result where
  "nothing_applied = \<lparr> er_applied = False, er_commands = [], er_commandIds = [], er_verifiedCommandIds = [],
     er_verificationFailures = 0 \<rparr>"

definition apply_commands ::
  "adapters \<Rightarrow> time \<Rightarrow> bandwidth_command list \<Rightarrow> credentials option \<Rightarrow> protocol \<Rightarrow> uuid option \<Rightarrow> string option
   \<Rightarrow> (db, enforcement_result) operation" where
  "apply_commands ads now commands creds p tenant correlationId s =
     (if commands = [] then (Inr nothing_applied, s)
      else if ads p = None then (Inl (no_adapter p), s)
      else
        (case (case tenant of
                 None \<Rightarrow> (Inr (commands, []), s)
               | Some t \<Rightarrow>
                   bind_op (queue_bandwidth_commands now t commands ''traffic-orchestrator'' correlationId)
                     (\<lambda>queued. let ex = filter (\<lambda>q. executable (qb_status q)) queued
                               in ret (map qb_command ex, map qb_id ex)) s) of
           (Inl e, s1) \<Rightarrow> (Inl e, s1)
         | (Inr (cs, ids), s1) \<Rightarrow>
             if cs = [] then (Inr nothing_applied, s1)
             else bind_op (execute_verified ads now cs creds p tenant ids)
                    (\<lambda>e. ret \<lparr> er_applied = True, er_commands = cs, er_commandIds = ids,
                        er_verifiedCommandIds = ex_verifiedCommandIds e, er_verificationFailures = ex_verificationFailures e \<rparr>) s1))"

record enforcement_user =
  eu_user :: active_user
  eu_maxDownloadMbps :: "jsnum option"
  eu_maxUploadMbps :: "jsnum option"

definition finite_limit :: "jsnum option \<Rightarrow> rat option" where
  "finite_limit l = (case l of Some (Fin r) \<Rightarrow> Some r | _ \<Rightarrow> None)"

text \<open>\<open>Object.fromEntries\<close>: the last entry of a key wins.\<close>

definition service_limits :: "enforcement_user list \<Rightarrow> string \<Rightarrow> speed_limit option" where
  "service_limits users = map_of (rev (map (\<lambda>u. (user_key (au_customerId (eu_user u)) (au_sessionId (eu_user u)),
     \<lparr> sl_download = finite_limit (eu_maxDownloadMbps u), sl_upload = finite_limit (eu_maxUploadMbps u) \<rparr>)) users))"

definition evaluate_and_apply ::
  "adapters \<Rightarrow> time \<Rightarrow> string \<Rightarrow> fairness_policy \<Rightarrow> enforcement_user list \<Rightarrow> (string \<Rightarrow> enforcement_target option)
   \<Rightarrow> jsnum \<Rightarrow> credentials option \<Rightarrow> protocol \<Rightarrow> uuid option \<Rightarrow> string option
   \<Rightarrow> (db, enforcement_result \<times> fairness_mode \<times> rat) operation" where
  "evaluate_and_apply ads now routerId policy users targets uploadRatio creds p tenant correlationId =
     (let state = evaluate_fairness policy (map eu_user users);
          commands = to_enforcement_commands routerId (fd_allocations state) uploadRatio targets (service_limits users)
      in bind_op (apply_commands ads now commands creds p tenant correlationId)
           (\<lambda>r. ret (r, fd_mode state, to_fixed 3 (fd_utilizationPercent state))))"

subsection \<open>Disconnecting\<close>

definition no_disconnect :: "protocol \<Rightarrow> exn" where
  "no_disconnect p = ServiceUnavailable (''Verified disconnect is not supported for '' @ protocol_name p)"

definition disconnect_functions ::
  "adapters \<Rightarrow> protocol \<Rightarrow>
   ((device_call list \<Rightarrow> disconnect_command \<Rightarrow> credentials option \<Rightarrow> string + disconnect_result list) \<times>
    (device_call list \<Rightarrow> disconnect_command \<Rightarrow> credentials option \<Rightarrow> string + verification_result list)) option" where
  "disconnect_functions ads p =
     (case ads p of None \<Rightarrow> None
      | Some a \<Rightarrow> (case (ad_disconnect a, ad_verifyDisconnected a) of (Some d, Some v) \<Rightarrow> Some (d, v) | _ \<Rightarrow> None))"

text \<open>\<open>verification[0]\<close>, and the details the code falls back to.\<close>

definition first_verified :: "verification_result list \<Rightarrow> bool" where
  "first_verified rs = (case rs of [] \<Rightarrow> False | v # _ \<Rightarrow> ev_verified v)"

definition first_details :: "verification_result list \<Rightarrow> json \<Rightarrow> json" where
  "first_details rs fallback = (case rs of [] \<Rightarrow> fallback | v # _ \<Rightarrow> ev_details v)"

definition mismatch :: json where
  "mismatch = reason_json ''DISCONNECT_VERIFICATION_MISMATCH''"

definition execution_details :: "disconnect_result list \<Rightarrow> json" where
  "execution_details rs = (case rs of [] \<Rightarrow> JObj [] | r # _ \<Rightarrow> dr_details r)"

definition execute_persisted_disconnect ::
  "adapters \<Rightarrow> time \<Rightarrow> disconnect_command \<Rightarrow> credentials option \<Rightarrow> protocol \<Rightarrow> uuid \<Rightarrow> uuid \<Rightarrow> (db, bool \<times> json) operation" where
  "execute_persisted_disconnect ads now command creds p tenant commandId s =
     (case disconnect_functions ads p of
        None \<Rightarrow> (Inl (no_disconnect p), s)
      | Some (disconnect, verifyDisconnected) \<Rightarrow>
          (let s1 = log_call Dev_disconnect p [dis_sessionId command] s in
           case disconnect (deviceCalls s) command creds of
             Inl message \<Rightarrow> (Inl (PlainError message), mark_failed now tenant [commandId] message s1)
           | Inr execution \<Rightarrow>
               (let s2 = mark_executed now tenant [commandId] (execution_details execution) s1;
                    s3 = log_call Dev_verify_disconnected p [dis_sessionId command] s2
                in case verifyDisconnected (deviceCalls s2) command creds of
                     Inl message \<Rightarrow> (Inl (PlainError message), mark_failed now tenant [commandId] message s3)
                   | Inr verification \<Rightarrow>
                       if first_verified verification
                       then (Inr (True, first_details verification mismatch),
                             mark_verified now tenant commandId (first_details verification mismatch) s3)
                       else (Inr (False, first_details verification mismatch),
                             mark_verification_failed now tenant commandId (first_details verification mismatch) s3))))"

record disconnect_enforcement =
  den_applied :: bool
  den_commandId :: "uuid option"
  den_verified :: bool
  den_details :: json

definition disconnect_input :: "disconnect_command \<Rightarrow> protocol \<Rightarrow> string option \<Rightarrow> command_input" where
  "disconnect_input c p correlationId = \<lparr>
     ci_routerId = Some (dis_routerId c), ci_commandType = ''DISCONNECT_SESSION'', ci_actor = Some ''network-control'',
     ci_target = Some (jobject [(''sessionId'', map_option JStr (dis_sessionId c)), (''customerId'', Some (JStr (dis_customerId c))),
        (''username'', map_option JStr (dis_username c)), (''ipAddress'', map_option JStr (dis_targetAddress c)),
        (''macAddress'', map_option JStr (dis_targetMacAddress c))]),
     ci_request = Some (reason_json ''ACCESS_RECONCILIATION''), ci_provider = Some p, ci_correlationId = correlationId \<rparr>"

fun status_name :: "command_status \<Rightarrow> string" where
  "status_name QUEUED = ''QUEUED''"
| "status_name SENT = ''SENT''"
| "status_name ACCEPTED = ''ACCEPTED''"
| "status_name EXECUTED = ''EXECUTED''"
| "status_name VERIFIED = ''VERIFIED''"
| "status_name FAILED = ''FAILED''"
| "status_name RETRYING = ''RETRYING''"
| "status_name ABANDONED = ''ABANDONED''"

text \<open>The last part of \<open>disconnectClient\<close>: disconnect, verify, and settle the journaled command, if any.\<close>

definition disconnect_and_verify ::
  "time \<Rightarrow> (device_call list \<Rightarrow> disconnect_command \<Rightarrow> credentials option \<Rightarrow> string + disconnect_result list) \<Rightarrow>
   (device_call list \<Rightarrow> disconnect_command \<Rightarrow> credentials option \<Rightarrow> string + verification_result list) \<Rightarrow>
   disconnect_command \<Rightarrow> credentials option \<Rightarrow> protocol \<Rightarrow> (uuid \<times> uuid) option \<Rightarrow> (db, disconnect_enforcement) operation" where
  "disconnect_and_verify now disconnect verifyDisconnected command creds p journaled s =
     (let fail = (\<lambda>message t. (Inl (PlainError message),
                    case journaled of None \<Rightarrow> t | Some (tenant, i) \<Rightarrow> mark_failed now tenant [i] message t));
          s1 = log_call Dev_disconnect p [dis_sessionId command] s
      in case disconnect (deviceCalls s) command creds of
           Inl message \<Rightarrow> fail message s1
         | Inr execution \<Rightarrow>
             (let details = execution_details execution;
                  s2 = (case journaled of None \<Rightarrow> s1 | Some (tenant, i) \<Rightarrow> mark_executed now tenant [i] details s1);
                  s3 = log_call Dev_verify_disconnected p [dis_sessionId command] s2
              in case verifyDisconnected (deviceCalls s2) command creds of
                   Inl message \<Rightarrow> fail message s3
                 | Inr verification \<Rightarrow>
                     (let s4 = (case journaled of None \<Rightarrow> s3
                          | Some (tenant, i) \<Rightarrow>
                              if first_verified verification
                              then mark_verified now tenant i (first_details verification mismatch) s3
                              else mark_verification_failed now tenant i (first_details verification mismatch) s3)
                      in (Inr \<lparr> den_applied = (case execution of [] \<Rightarrow> False | r # _ \<Rightarrow> dr_disconnected r),
                             den_commandId = map_option snd journaled, den_verified = first_verified verification,
                             den_details = jobject [(''execution'', Some details),
                               (''verification'', Some (first_details verification (JObj [])))] \<rparr>, s4))))"

text \<open>\<open>disconnectClient\<close> for a tenant, which journals the command; the variant without a tenant only runs its last part.\<close>

definition disconnect_client ::
  "adapters \<Rightarrow> string option \<Rightarrow> time \<Rightarrow> disconnect_command \<Rightarrow> credentials option \<Rightarrow> protocol \<Rightarrow> uuid option \<Rightarrow> string option
   \<Rightarrow> (db, disconnect_enforcement) operation" where
  "disconnect_client ads cid now command creds p tenantId correlationId s =
     (case disconnect_functions ads p of
        None \<Rightarrow> (Inl (no_disconnect p), s)
      | Some (disconnect, verifyDisconnected) \<Rightarrow>
          (case tenantId of
             None \<Rightarrow> disconnect_and_verify now disconnect verifyDisconnected command creds p None s
           | Some tenant \<Rightarrow>
               bind_op (queue cid now tenant (disconnect_input command p correlationId)) (\<lambda>queued.
               bind_op (get_command tenant (qi_id queued)) (\<lambda>existing s1.
                 (let i = qi_id queued;
                      refuse = (\<lambda>st t. (Inl (ServiceUnavailable (''Network disconnect command '' @ i @ '' is '' @ status_name st
                                 @ '' and requires explicit retry handling'')), t))
                  in case nc_status existing of
                       VERIFIED \<Rightarrow> (Inr \<lparr> den_applied = False, den_commandId = Some i, den_verified = True,
                                       den_details = (case nc_verification existing of None \<Rightarrow> JObj [] | Some v \<Rightarrow> v) \<rparr>, s1)
                     | EXECUTED \<Rightarrow>
                         (let s2 = log_call Dev_verify_disconnected p [dis_sessionId command] s1 in
                          case verifyDisconnected (deviceCalls s1) command creds of
                            Inl _ \<Rightarrow> refuse FAILED (mark_verification_failed now tenant i (reason_json ''DISCONNECT_VERIFICATION_FAILED'') s2)
                          | Inr verification \<Rightarrow>
                              if first_verified verification
                              then (Inr \<lparr> den_applied = False, den_commandId = Some i, den_verified = True,
                                        den_details = jobject [(''verification'', Some (first_details verification mismatch))] \<rparr>,
                                    mark_verified now tenant i (first_details verification mismatch) s2)
                              else refuse FAILED (mark_verification_failed now tenant i (first_details verification mismatch) s2))
                     | FAILED \<Rightarrow> refuse FAILED s1
                     | ABANDONED \<Rightarrow> refuse ABANDONED s1
                     | _ \<Rightarrow> disconnect_and_verify now disconnect verifyDisconnected command creds p (Some (tenant, i)) s1))) s))"

subsection \<open>What enforcement may hand out\<close>

text \<open>
  The contract between the allocation of rates and their enforcement: the allocator returns rates that are
  not negative and, when it reports congestion, stay below its capacity up to its tolerance. The
  bound on the commands follows from the contract alone.
\<close>

locale rate_allocator =
  fixes allocs :: "'i \<Rightarrow> fairness_allocation list"
    and congested :: "'i \<Rightarrow> bool"
    and cap :: "'i \<Rightarrow> rat"
    and tolerance :: rat
  assumes allocs_nonneg: "a \<in> set (allocs i) \<Longrightarrow> 0 \<le> fa_allocatedMbps a"
    and allocs_within: "congested i \<Longrightarrow> sum_list (map fa_allocatedMbps (allocs i)) \<le> cap i + tolerance"
begin

lemma positive_part: "sum_list (map fa_allocatedMbps (filter (\<lambda>a. fa_allocatedMbps a > 0) (allocs i)))
    = sum_list (map fa_allocatedMbps (allocs i))"
proof -
  have "sum_list (map f (filter (\<lambda>a. f a > 0) xs)) = sum_list (map f xs)" if "\<forall>a\<in>set xs. 0 \<le> f a"
    for f :: "fairness_allocation \<Rightarrow> rat" and xs
    using that by (induction xs) (auto simp: not_less)
  then show ?thesis using allocs_nonneg by blast
qed

lemma commands_rate:
  "sum_list (map bc_maxDownloadMbps (to_enforcement_commands r (allocs i) u targets limits))
     \<le> sum_list (map fa_allocatedMbps (allocs i)) + of_nat (length (allocs i)) / 2000"
proof -
  let ?as = "filter (\<lambda>a. fa_allocatedMbps a > 0) (allocs i)"
  have each: "to_fixed 3 (min_limit x l) \<le> x + 1 / 2000" for x l
    using to_fixed_le [of 3 "min_limit x l"] by (auto simp: min_limit_def split: option.splits)
  have "map bc_maxDownloadMbps (to_enforcement_commands r (allocs i) u targets limits)
      = map (\<lambda>a. to_fixed 3 (min_limit (fa_allocatedMbps a)
          (Option.bind (limits (user_key (fa_customerId a) (fa_sessionId a))) sl_download))) ?as"
    by (simp add: to_enforcement_commands_def Let_def comp_def)
  also have "sum_list \<dots> \<le> sum_list (map (\<lambda>a. fa_allocatedMbps a + 1 / 2000) ?as)"
    by (rule sum_list_mono) (rule each)
  also have "\<dots> = sum_list (map fa_allocatedMbps (allocs i)) + of_nat (length ?as) / 2000"
    by (simp add: sum_list_addf sum_list_triv positive_part)
  also have "\<dots> \<le> sum_list (map fa_allocatedMbps (allocs i)) + of_nat (length (allocs i)) / 2000"
    by (simp add: divide_right_mono)
  finally show ?thesis .
qed

lemma commands_within:
  "congested i \<Longrightarrow>
     sum_list (map bc_maxDownloadMbps (to_enforcement_commands r (allocs i) u targets limits))
       \<le> cap i + tolerance + of_nat (length (allocs i)) / 2000"
  using commands_rate [of r i u targets limits] allocs_within [of i] by linarith

end

text \<open>The fairness engine keeps the contract.\<close>

interpretation engine: rate_allocator "\<lambda>inp. fd_allocations (decide inp)" "\<lambda>inp. fd_mode (decide inp) \<noteq> NORMAL"
    "\<lambda>inp. max 0 (in_capacityMbps inp)" "1 / 1000000"
proof unfold_locales
  show "0 \<le> fa_allocatedMbps a" if "a \<in> set (fd_allocations (decide inp))" for a inp
    using decide_within_demand [of inp] that by (simp add: list_all_iff)
  show "sum_list (map fa_allocatedMbps (fd_allocations (decide inp))) \<le> max 0 (in_capacityMbps inp) + 1 / 1000000"
    if "fd_mode (decide inp) \<noteq> NORMAL" for inp
    using that by (rule decide_within_capacity)
qed

lemma length_allocations:
  "length (fd_allocations (decide inp)) = length (filter has_demand (in_activeUsers inp))"
  using arg_cong [OF conjunct1 [OF decide_within_demand [of inp]], of length] by simp

text \<open>When the engine reports congestion, the download rates of the commands built from its decision
  add up to at most the capacity of the router, plus the engine's tolerance and half a kilobit per
  user from rounding to three decimals; no command is faster than the service limit of its user
  (up to that rounding), and every priority is at least one.\<close>

theorem commands_respect_capacity_and_limits:
  assumes "fd_mode (decide inp) \<noteq> NORMAL"
  shows "sum_list (map bc_maxDownloadMbps (to_enforcement_commands r (fd_allocations (decide inp)) ratio targets limits))
           \<le> max 0 (in_capacityMbps inp) + 1 / 1000000 + of_nat (length (filter has_demand (in_activeUsers inp))) / 2000 \<and>
         list_all (\<lambda>c. 1 \<le> bc_priority c \<and>
             (case Option.bind (limits (user_key (bc_customerId c) (bc_sessionId c))) sl_download of
                None \<Rightarrow> True | Some l \<Rightarrow> bc_maxDownloadMbps c \<le> l + 1 / 2000) \<and>
             (case Option.bind (limits (user_key (bc_customerId c) (bc_sessionId c))) sl_upload of
                None \<Rightarrow> True | Some l \<Rightarrow> bc_maxUploadMbps c \<le> l + 1 / 2000))
           (to_enforcement_commands r (fd_allocations (decide inp)) ratio targets limits)"
proof
  show "sum_list (map bc_maxDownloadMbps (to_enforcement_commands r (fd_allocations (decide inp)) ratio targets limits))
           \<le> max 0 (in_capacityMbps inp) + 1 / 1000000 + of_nat (length (filter has_demand (in_activeUsers inp))) / 2000"
    using engine.commands_within [OF assms, of r ratio targets limits] by (simp only: length_allocations)
  have "to_fixed 3 (min x l) \<le> l + 1 / 2000" for x l :: rat
    using to_fixed_le [of 3 "min x l"] by simp
  then show "list_all (\<lambda>c. 1 \<le> bc_priority c \<and>
             (case Option.bind (limits (user_key (bc_customerId c) (bc_sessionId c))) sl_download of
                None \<Rightarrow> True | Some l \<Rightarrow> bc_maxDownloadMbps c \<le> l + 1 / 2000) \<and>
             (case Option.bind (limits (user_key (bc_customerId c) (bc_sessionId c))) sl_upload of
                None \<Rightarrow> True | Some l \<Rightarrow> bc_maxUploadMbps c \<le> l + 1 / 2000))
           (to_enforcement_commands r (fd_allocations (decide inp)) ratio targets limits)"
    by (auto simp: to_enforcement_commands_def Let_def list_all_iff min_limit_def split: option.splits)
qed

definition example_input :: fairness_input where
  "example_input = \<lparr>in_capacityMbps = 10,
      in_activeUsers = [\<lparr>au_customerId = ''a'', au_sessionId = None, au_requestedMbps = Fin 9, au_priority = None, au_weight = None\<rparr>],
      in_activateThresholdPercent = None, in_aggressiveThresholdPercent = None, in_recoveryThresholdPercent = None\<rparr>"

theorem commands_respect_capacity_and_limits_witness:
  "sum_list (map bc_maxDownloadMbps (to_enforcement_commands ''r'' (fd_allocations (decide example_input)) (Fin (1/2)) (\<lambda>_. None) (\<lambda>_. None)))
     \<le> 10 + 1 / 1000000 + 1 / 2000"
proof -
  have "fd_mode (decide example_input) \<noteq> NORMAL"
    by (simp add: example_input_def decide_def Let_def has_demand_def classify_mode_def)
  from commands_respect_capacity_and_limits [OF this, of "''r''" "Fin (1/2)" "\<lambda>_. None" "\<lambda>_. None"]
  show ?thesis by (simp add: example_input_def has_demand_def)
qed

subsection \<open>Every executed command is settled\<close>

text \<open>The status of a command of a tenant, and how the marks change it.\<close>

definition status_of :: "db \<Rightarrow> uuid \<Rightarrow> uuid \<Rightarrow> command_status option" where
  "status_of s tenant i = map_option nc_status (select_one (is_command tenant i) (networkCommands s))"

lemma find_touch:
  assumes "\<And>c. is_command t i (f c) = is_command t i c"
  shows "select_one (is_command t i) (networkCommands (touch_commands P f s))
       = map_option (\<lambda>c. if P c then f c else c) (select_one (is_command t i) (networkCommands s))"
proof -
  have "find (is_command t i) (map (\<lambda>c. if P c then f c else c) cs)
      = map_option (\<lambda>c. if P c then f c else c) (find (is_command t i) cs)" for cs
    using assms by (induction cs) auto
  then show ?thesis by (simp add: touch_commands_def update_where_def select_one_def)
qed

lemma status_of_log_call [simp]: "status_of (log_call m p ss s) t i = status_of s t i"
  by (simp add: status_of_def log_call_def)

lemma select_one_is_command: "select_one (is_command t i) cs = Some c \<Longrightarrow> nc_tenant c = t \<and> nc_id c = i"
  by (auto dest: select_one_Some simp: is_command_def)

lemma status_of_mark_executed [simp]:
  "status_of (mark_executed now t ids x s) t i =
     map_option (\<lambda>st. if i \<in> set ids \<and> executable st then EXECUTED else st) (status_of s t i)"
proof (cases "select_one (is_command t i) (networkCommands s)")
  case (Some c)
  with select_one_is_command [OF Some] show ?thesis
    by (auto simp: status_of_def mark_executed_def find_touch is_command_def)
qed (simp add: status_of_def mark_executed_def find_touch is_command_def)

lemma status_of_mark_failed [simp]:
  "status_of (mark_failed now t ids x s) t i =
     map_option (\<lambda>st. if i \<in> set ids \<and> executable st then FAILED else st) (status_of s t i)"
proof (cases "select_one (is_command t i) (networkCommands s)")
  case (Some c)
  with select_one_is_command [OF Some] show ?thesis
    by (auto simp: status_of_def mark_failed_def find_touch is_command_def)
qed (simp add: status_of_def mark_failed_def find_touch is_command_def)

lemma status_of_mark_verified [simp]:
  "status_of (mark_verified now t j v s) t i =
     map_option (\<lambda>st. if i = j \<and> st = EXECUTED then VERIFIED else st) (status_of s t i)"
proof (cases "select_one (is_command t i) (networkCommands s)")
  case (Some c)
  with select_one_is_command [OF Some] show ?thesis
    by (auto simp: status_of_def mark_verified_def find_touch is_command_def)
qed (simp add: status_of_def mark_verified_def find_touch is_command_def)

lemma status_of_mark_verification_failed [simp]:
  "status_of (mark_verification_failed now t j v s) t i =
     map_option (\<lambda>st. if i = j \<and> st = EXECUTED then FAILED else st) (status_of s t i)"
proof (cases "select_one (is_command t i) (networkCommands s)")
  case (Some c)
  with select_one_is_command [OF Some] show ?thesis
    by (auto simp: status_of_def mark_verification_failed_def find_touch is_command_def)
qed (simp add: status_of_def mark_verification_failed_def find_touch is_command_def)

definition settled :: "command_status option \<Rightarrow> bool" where
  "settled st \<longleftrightarrow> st = Some VERIFIED \<or> st = Some FAILED"

lemma settled_simps [simp]: "settled (Some VERIFIED)" "settled (Some FAILED)" "\<not> settled None" "\<not> settled (Some EXECUTED)"
  by (simp_all add: settled_def)

text \<open>Marks never unsettle a command.\<close>

definition executed_or_settled :: "command_status option \<Rightarrow> bool" where
  "executed_or_settled st \<longleftrightarrow> st = Some EXECUTED \<or> settled st"

definition settle_mark :: "(db \<Rightarrow> db) \<Rightarrow> uuid \<Rightarrow> uuid \<Rightarrow> bool" where
  "settle_mark f t j \<longleftrightarrow> (\<forall>s i. status_of (f s) t i = status_of s t i \<or> settled (status_of (f s) t i)) \<and>
     (\<forall>s. executed_or_settled (status_of s t j) \<longrightarrow> settled (status_of (f s) t j)) \<and>
     (\<forall>s i. settled (status_of s t i) \<longrightarrow> settled (status_of (f s) t i))"

lemma settle_mark_verified: "settle_mark (mark_verified now t j v) t j"
proof (unfold settle_mark_def, intro conjI allI impI)
  fix s i
  show "status_of (mark_verified now t j v s) t i = status_of s t i \<or> settled (status_of (mark_verified now t j v s) t i)"
    by (cases "status_of s t i") simp_all
  show "settled (status_of (mark_verified now t j v s) t j)" if "executed_or_settled (status_of s t j)"
    using that by (cases "status_of s t j") (auto simp: executed_or_settled_def settled_def)
  show "settled (status_of (mark_verified now t j v s) t i)" if "settled (status_of s t i)"
    using that by (cases "status_of s t i") (auto simp: settled_def)
qed

lemma settle_mark_failed: "settle_mark (mark_verification_failed now t j v) t j"
proof (unfold settle_mark_def, intro conjI allI impI)
  fix s i
  show "status_of (mark_verification_failed now t j v s) t i = status_of s t i \<or> settled (status_of (mark_verification_failed now t j v s) t i)"
    by (cases "status_of s t i") simp_all
  show "settled (status_of (mark_verification_failed now t j v s) t j)" if "executed_or_settled (status_of s t j)"
    using that by (cases "status_of s t j") (auto simp: executed_or_settled_def settled_def)
  show "settled (status_of (mark_verification_failed now t j v s) t i)" if "settled (status_of s t i)"
    using that by (cases "status_of s t i") (auto simp: settled_def)
qed

lemma settle_markD:
  assumes "settle_mark f t j"
  shows "executed_or_settled (status_of s t i) \<Longrightarrow> executed_or_settled (status_of (f s) t i)"
    and "executed_or_settled (status_of s t j) \<Longrightarrow> settled (status_of (f s) t j)"
    and "settled (status_of s t i) \<Longrightarrow> settled (status_of (f s) t i)"
proof -
  note parts = assms [unfolded settle_mark_def]
  note change = conjunct1 [OF parts, rule_format]
  note settle = conjunct1 [OF conjunct2 [OF parts], rule_format]
  note stay = conjunct2 [OF conjunct2 [OF parts], rule_format]
  show "executed_or_settled (status_of (f s) t i)" if e: "executed_or_settled (status_of s t i)"
    using change [of s i]
  proof
    assume "status_of (f s) t i = status_of s t i"
    then show ?thesis by (rule ssubst) (rule e)
  next
    assume "settled (status_of (f s) t i)"
    then show ?thesis by (simp only: executed_or_settled_def simp_thms)
  qed
  show "executed_or_settled (status_of s t j) \<Longrightarrow> settled (status_of (f s) t j)" by (rule settle)
  show "settled (status_of s t i) \<Longrightarrow> settled (status_of (f s) t i)" by (rule stay)
qed

lemma settle_results_step:
  assumes "index < length ids"
  shows "\<exists>f. settle_mark f t (ids ! index) \<and>
    snd (settle_results now (Some t) ids rs index (Suc n) s) = snd (settle_results now (Some t) ids rs (index + 1) n (f s))"
proof -
  define f where "f = (case elem_at rs index of
       Some v \<Rightarrow> if ev_verified v then mark_verified now t (ids ! index) (ev_details v)
                  else mark_verification_failed now t (ids ! index) (ev_details v)
     | None \<Rightarrow> mark_verification_failed now t (ids ! index) (reason_json ''MISSING_VERIFICATION_RESULT''))"
  have "settle_mark f t (ids ! index)"
    by (simp add: f_def settle_mark_verified settle_mark_failed split: option.split)
  moreover have "elem_at ids index = Some (ids ! index)" using assms by (simp add: elem_at_def)
  then have "snd (settle_results now (Some t) ids rs index (Suc n) s) = snd (settle_results now (Some t) ids rs (index + 1) n (f s))"
    by (simp add: f_def Let_def case_prod_beta split: option.split)
  ultimately show ?thesis by blast
qed

lemma settle_results_settles:
  assumes "index + n \<le> length ids"
    and "\<And>i. i \<in> set ids \<Longrightarrow> executed_or_settled (status_of s t i)"
    and "\<And>k. k < index \<Longrightarrow> settled (status_of s t (ids ! k))"
    and "k < index + n"
  shows "settled (status_of (snd (settle_results now (Some t) ids rs index n s)) t (ids ! k))"
  using assms
proof (induction n arbitrary: index s)
  case 0
  then show ?case by simp
next
  case (Suc n)
  then obtain f where f: "settle_mark f t (ids ! index)" and
    eq: "snd (settle_results now (Some t) ids rs index (Suc n) s) = snd (settle_results now (Some t) ids rs (index + 1) n (f s))"
    using settle_results_step [of index ids t now rs n s] by auto
  have "settled (status_of (snd (settle_results now (Some t) ids rs (index + 1) n (f s))) t (ids ! k))"
  proof (rule Suc.IH)
    show "executed_or_settled (status_of (f s) t i)" if "i \<in> set ids" for i
      using settle_markD(1) [OF f] Suc.prems(2) [OF that] .
    show "settled (status_of (f s) t (ids ! k))" if "k < index + 1" for k
    proof (cases "k = index")
      case True
      have "ids ! index \<in> set ids" using Suc.prems(1) by simp
      with settle_markD(2) [OF f] Suc.prems(2) True show ?thesis by blast
    next
      case False
      with that have "k < index" by simp
      with settle_markD(3) [OF f] Suc.prems(3) show ?thesis by blast
    qed
  qed (use Suc.prems in simp_all)
  then show ?case by (simp only: eq)
qed

lemma fail_verifications_settles:
  assumes "\<And>i. i \<in> set ids \<Longrightarrow> executed_or_settled (status_of s t i)" and "i \<in> set ids"
  shows "settled (status_of (fail_verifications now (Some t) ids reason s) t i)"
proof -
  have keep: "settled (status_of s t i) \<Longrightarrow> settled (status_of (fold (\<lambda>j. mark_verification_failed now t j v) js s) t i)"
    for v js s
  proof (induction js arbitrary: s)
    case (Cons j js)
    then show ?case using settle_markD(3) [OF settle_mark_failed] by simp
  qed simp
  have "settled (status_of (fold (\<lambda>j. mark_verification_failed now t j v) ids s) t i)" for v
    using assms
  proof (induction ids arbitrary: s)
    case Nil
    then show ?case by simp
  next
    case (Cons j ids)
    note m = settle_markD [OF settle_mark_failed]
    show ?case
    proof (cases "i = j")
      case True
      have "settled (status_of (mark_verification_failed now t j v s) t i)"
        using m(2) Cons.prems(1) [of j] True by simp
      then show ?thesis by (simp add: keep)
    next
      case False
      with Cons.prems show ?thesis using Cons.IH [of "mark_verification_failed now t j v s"] m(1) by simp
    qed
  qed
  then show ?thesis by (simp add: fail_verifications_def)
qed

lemma execute_verified_settles:
  assumes a: "ads p = Some a" and len: "length ids = length commands"
    and st: "\<And>i. i \<in> set ids \<Longrightarrow> \<exists>st. status_of s t i = Some st \<and> executable st" and i: "i \<in> set ids"
  shows "settled (status_of (snd (execute_verified ads now commands creds p (Some t) ids s)) t i)"
proof (cases "ad_apply a (deviceCalls s) commands creds")
  case (Some m)
  with st [OF i] i a show ?thesis by (auto simp: execute_verified_def Let_def settled_def)
next
  case None
  define s2 where "s2 = mark_executed now t ids (jobject [(''protocol'', Some (JStr (protocol_name p))),
      (''commandCount'', Some (JNum (of_nat (length commands))))]) (log_call Dev_apply p (map bc_sessionId commands) s)"
  have ex: "executed_or_settled (status_of s2 t j)" if "j \<in> set ids" for j
    using st [OF that] that by (auto simp: s2_def executed_or_settled_def)
  show ?thesis
  proof (cases "ad_verify a")
    case no: None
    with None a show ?thesis
      using fail_verifications_settles [of ids s2 t i, OF ex i]
      by (simp add: execute_verified_def Let_def s2_def)
  next
    case (Some verify)
    let ?s3 = "log_call Dev_verify p (map bc_sessionId commands) s2"
    show ?thesis
    proof (cases "verify (deviceCalls s2) commands creds")
      case (Inl m)
      with None a Some show ?thesis
        using fail_verifications_settles [of ids ?s3 t i now] ex i
        by (simp add: execute_verified_def Let_def s2_def [symmetric])
    next
      case (Inr rs)
      obtain k where k: "k < length ids" "ids ! k = i" using i by (metis in_set_conv_nth)
      have "settled (status_of (snd (settle_results now (Some t) ids rs 0 (length commands) ?s3)) t (ids ! k))"
        by (rule settle_results_settles) (use ex k len in simp_all)
      with Inr None a Some k show ?thesis
        by (simp add: execute_verified_def Let_def s2_def [symmetric])
    qed
  qed
qed

text \<open>However the adapter behaves -- it may fail to apply, not support verification, fail to verify,
  or return too few results -- once journaled commands in executable states were handed to it, every
  one of them is settled: verified or failed.\<close>

theorem executed_commands_are_settled:
  assumes "ads p = Some a" and "length ids = length commands"
    and "list_all (\<lambda>i. \<exists>st. status_of s t i = Some st \<and> executable st) ids"
  shows "list_all (\<lambda>i. status_of (snd (execute_verified ads now commands creds p (Some t) ids s)) t i \<in> {Some VERIFIED, Some FAILED}) ids"
proof -
  have "settled (status_of (snd (execute_verified ads now commands creds p (Some t) ids s)) t i)" if "i \<in> set ids" for i
    using assms that by (intro execute_verified_settles) (auto simp: list_all_iff)
  then show ?thesis by (auto simp: list_all_iff settled_def)
qed

definition example_bandwidth :: bandwidth_command where
  "example_bandwidth = \<lparr> bc_routerId = ''r'', bc_customerId = ''c'', bc_sessionId = None, bc_targetAddress = None,
     bc_targetMacAddress = None, bc_apiEndpoint = None, bc_protocol = None, bc_merakiGroupPolicyId = None,
     bc_maxDownloadMbps = 5, bc_maxUploadMbps = 2, bc_priority = 1 \<rparr>"

theorem executed_commands_are_settled_witness:
  "status_of (snd (execute_verified (\<lambda>_. Some noop_adapter) 5 [example_bandwidth] None SNMP (Some ''t'') [''0'']
     (empty_db\<lparr> next_id := 1, networkCommands := [example_command QUEUED] \<rparr>))) ''t'' ''0'' \<in> {Some VERIFIED, Some FAILED}"
proof -
  let ?s = "empty_db\<lparr> next_id := 1, networkCommands := [example_command QUEUED] \<rparr>"
  have "list_all (\<lambda>i. \<exists>st. status_of ?s ''t'' i = Some st \<and> executable st) [''0'']"
    by (simp add: status_of_def select_one_def example_command_def is_command_def executable_def)
  then have "list_all (\<lambda>i. status_of (snd (execute_verified (\<lambda>_. Some noop_adapter) 5 [example_bandwidth] None SNMP (Some ''t'') [''0'']
      ?s)) ''t'' i \<in> {Some VERIFIED, Some FAILED}) [''0'']"
    by (rule executed_commands_are_settled [where a = noop_adapter, rotated 2]) simp_all
  then show ?thesis by simp
qed

text \<open>A disconnect whose command was carried out but whose verification request fails is not settled:
  the error handler marks as failed only commands that were not executed yet, so the command stays in
  \<open>EXECUTED\<close>, also after the worker marks it again, and is not offered to a later claim.\<close>

theorem failed_verification_leaves_disconnect_executed:
  assumes "disconnect_functions ads p = Some (disconnect, verifyDisconnected)"
    and "\<And>calls. \<exists>rs. disconnect calls command creds = Inr rs"
    and "\<And>calls. \<exists>m. verifyDisconnected calls command creds = Inl m"
    and "status_of s tenant i = Some st" and "executable st"
  shows "let (r, s') = execute_persisted_disconnect ads now command creds p tenant i s;
             s'' = mark_failed later tenant [i] message s'
         in (\<exists>m. r = Inl (PlainError m)) \<and> status_of s' tenant i = Some EXECUTED \<and>
            status_of s'' tenant i = Some EXECUTED \<and>
            (case select_one (is_command tenant i) (networkCommands s'') of
               None \<Rightarrow> False | Some c \<Rightarrow> \<not> claimable who stale afterwards c)"
proof -
  let ?s1 = "log_call Dev_disconnect p [dis_sessionId command] s"
  obtain rs where d: "disconnect (deviceCalls s) command creds = Inr rs" using assms(2) by blast
  let ?s2 = "mark_executed now tenant [i] (execution_details rs) ?s1"
  obtain m where v: "verifyDisconnected (deviceCalls ?s2) command creds = Inl m" using assms(3) by blast
  define s' where "s' = mark_failed now tenant [i] m (log_call Dev_verify_disconnected p [dis_sessionId command] ?s2)"
  have e: "execute_persisted_disconnect ads now command creds p tenant i s = (Inl (PlainError m), s')"
    using assms(1) d v by (simp add: execute_persisted_disconnect_def Let_def s'_def)
  have st: "status_of s' tenant i = Some EXECUTED"
    using assms(4,5) by (simp add: s'_def executable_def)
  then have st2: "status_of (mark_failed later tenant [i] message s') tenant i = Some EXECUTED"
    by (simp add: executable_def)
  then obtain c where "select_one (is_command tenant i) (networkCommands (mark_failed later tenant [i] message s')) = Some c"
    "nc_status c = EXECUTED"
    by (auto simp: status_of_def)
  with e st st2 show ?thesis by (simp add: claimable_def)
qed

definition example_disconnect :: disconnect_command where
  "example_disconnect = \<lparr> dis_routerId = ''r'', dis_customerId = ''c'', dis_sessionId = Some ''s'', dis_username = None,
     dis_targetAddress = None, dis_targetMacAddress = None, dis_apiEndpoint = None, dis_protocol = None \<rparr>"

definition unverifiable_adapter :: adapter where
  "unverifiable_adapter = noop_adapter\<lparr> ad_disconnect := Some (\<lambda>_ _ _. Inr []),
     ad_verifyDisconnected := Some (\<lambda>_ _ _. Inl ''timeout'') \<rparr>"

theorem failed_verification_leaves_disconnect_executed_witness:
  "status_of (snd (execute_persisted_disconnect (\<lambda>_. Some unverifiable_adapter) 5 example_disconnect None SNMP ''t'' ''0''
     (empty_db\<lparr> next_id := 1, networkCommands := [example_command QUEUED] \<rparr>))) ''t'' ''0'' = Some EXECUTED"
proof -
  let ?s = "empty_db\<lparr> next_id := 1, networkCommands := [example_command QUEUED] \<rparr>"
  have f: "disconnect_functions (\<lambda>_. Some unverifiable_adapter) SNMP = Some (\<lambda>_ _ _. Inr [], \<lambda>_ _ _. Inl ''timeout'')"
    by (simp add: disconnect_functions_def unverifiable_adapter_def)
  have st: "status_of ?s ''t'' ''0'' = Some QUEUED"
    by (simp add: status_of_def select_one_def example_command_def is_command_def)
  have "executable QUEUED" by (simp add: executable_def)
  from failed_verification_leaves_disconnect_executed [OF f _ _ st this, where command = example_disconnect
      and creds = None and now = 5 and later = 6 and message = "''e''" and who = None and stale = 300 and afterwards = 7]
  show ?thesis by (simp add: Let_def case_prod_beta)
qed

end
