(* ===== verification/CommandWorker.thy ===== *)
theory CommandWorker
  imports Enforcement
begin

text \<open>
  The worker that executes pending network commands (\<open>modules/traffic/network-command-worker.service.ts\<close>):
  the checks on persisted commands, one execution, and a round over a claimed batch. The timer that
  starts the rounds is left out; \<open>decrypt\<close>, which stands for the decryption of the stored credentials,
  is a parameter and may fail.
\<close>

subsection \<open>Reading persisted commands\<close>

definition json_get :: "json \<Rightarrow> string \<Rightarrow> json option" where
  "json_get v k = (case v of JObj kvs \<Rightarrow> map_of kvs k | _ \<Rightarrow> None)"

definition json_text :: "json \<Rightarrow> string \<Rightarrow> string option" where
  "json_text v k = (case json_get v k of Some (JStr s) \<Rightarrow> Some s | _ \<Rightarrow> None)"

text \<open>\<open>Number(value[name])\<close>; the service writes numbers, so texts are not parsed here.\<close>

definition json_number :: "json \<Rightarrow> string \<Rightarrow> jsnum" where
  "json_number v k = (case json_get v k of
       Some (JNum r) \<Rightarrow> Fin r
     | Some JNull \<Rightarrow> Fin 0
     | Some (JBool b) \<Rightarrow> Fin (if b then 1 else 0)
     | _ \<Rightarrow> NaN)"

definition all_protocols :: "protocol list" where
  "all_protocols = [MIKROTIK_REST, UNIFI_NETWORK_API, OMADA_CONTROLLER_API, CAMBIUM_CNMAESTRO, MERAKI_DASHBOARD_API,
     ARUBA_CENTRAL_API, GRANDSTREAM_GWN_API, RUIJIE_REYEE_CLOUD_API, RUCKUS_SMARTZONE_API, OPENWRT_UBUS,
     TELTONIKA_RMS_API, PEPLINK_INCONTROL_API, PFSENSE_API, GENERIC_HTTP, SNMP, RADIUS_NAS]"

definition parse_protocol :: "string option \<Rightarrow> protocol option" where
  "parse_protocol v = (case v of None \<Rightarrow> None | Some n \<Rightarrow> find (\<lambda>p. protocol_name p = n) all_protocols)"

definition required_text :: "json \<Rightarrow> string \<Rightarrow> string result" where
  "required_text v k =
     (let field = (case json_text v k of None \<Rightarrow> [] | Some t \<Rightarrow> js_trim t)
      in if field = [] then Inl (PlainError (''Missing bandwidth command field: '' @ k)) else Inr field)"

definition positive_number :: "json \<Rightarrow> string \<Rightarrow> rat result" where
  "positive_number v k = (case json_number v k of
       Fin r \<Rightarrow> if r \<le> 0 then Inl (PlainError (''Invalid bandwidth command field: '' @ k)) else Inr r
     | _ \<Rightarrow> Inl (PlainError (''Invalid bandwidth command field: '' @ k)))"

definition bind_result :: "'a result \<Rightarrow> ('a \<Rightarrow> 'b result) \<Rightarrow> 'b result" where
  "bind_result r f = (case r of Inl e \<Rightarrow> Inl e | Inr x \<Rightarrow> f x)"

definition read_bandwidth_command :: "json \<Rightarrow> string option \<Rightarrow> protocol \<Rightarrow> bandwidth_command result" where
  "read_bandwidth_command v routerEndpoint protocol =
     (let requestProtocol = parse_protocol (json_text v ''protocol'') in
      if requestProtocol \<noteq> None \<and> requestProtocol \<noteq> Some protocol
      then Inl (PlainError ''Persisted network command provider does not match request protocol'')
      else (case json_number v ''priority'' of
          Fin priority \<Rightarrow>
            bind_result (required_text v ''routerId'') (\<lambda>routerId.
            bind_result (required_text v ''customerId'') (\<lambda>customerId.
            bind_result (positive_number v ''maxDownloadMbps'') (\<lambda>down.
            bind_result (positive_number v ''maxUploadMbps'') (\<lambda>up.
              Inr \<lparr> bc_routerId = routerId, bc_customerId = customerId, bc_sessionId = json_text v ''sessionId'',
                bc_targetAddress = json_text v ''targetAddress'', bc_targetMacAddress = json_text v ''targetMacAddress'',
                bc_apiEndpoint = or_else (json_text v ''apiEndpoint'') routerEndpoint, bc_protocol = Some protocol,
                bc_merakiGroupPolicyId = json_text v ''merakiGroupPolicyId'',
                bc_maxDownloadMbps = down, bc_maxUploadMbps = up,
                bc_priority = max 1 (min 8 (trunc_rat priority)) \<rparr>))))
        | _ \<Rightarrow> Inl (PlainError ''Invalid bandwidth command field: priority'')))"

definition read_disconnect_command ::
  "network_command \<Rightarrow> router option \<Rightarrow> protocol \<Rightarrow> disconnect_command result" where
  "read_disconnect_command c r protocol =
     (let text = (\<lambda>k. map_option js_trim (json_text (nc_target c) k)) in
      case nc_routerId c of
        None \<Rightarrow> Inl (PlainError ''Disconnect command is missing routerId'')
      | Some routerId \<Rightarrow>
          if Option.bind r ro_protocol \<noteq> Some protocol
          then Inl (PlainError ''Persisted disconnect provider does not match router protocol'')
          else Inr \<lparr> dis_routerId = routerId, dis_customerId = (case text ''customerId'' of None \<Rightarrow> [] | Some t \<Rightarrow> t),
                 dis_sessionId = text ''sessionId'', dis_username = text ''username'', dis_targetAddress = text ''ipAddress'',
                 dis_targetMacAddress = text ''macAddress'', dis_apiEndpoint = Option.bind r ro_apiEndpoint,
                 dis_protocol = Some protocol \<rparr>)"

definition worker_router :: "uuid \<Rightarrow> uuid \<Rightarrow> db \<Rightarrow> router result" where
  "worker_router tenant i s =
     (case select_one (\<lambda>r. ro_tenant r = tenant \<and> ro_id r = i \<and> ro_enabled r \<and> ro_managementEnabled r) (routers s) of
        None \<Rightarrow> Inl (PlainError (''Router '' @ i @ '' is not available for network command execution''))
      | Some r \<Rightarrow> Inr r)"

subsection \<open>Executing\<close>

definition dispatch_command ::
  "adapters \<Rightarrow> time \<Rightarrow> network_command \<Rightarrow> protocol \<Rightarrow> router option \<Rightarrow> credentials option \<Rightarrow> (db, unit) operation" where
  "dispatch_command ads now c p r creds s =
     (if nc_commandType c = ''BANDWIDTH_ENFORCEMENT''
      then (case read_bandwidth_command (nc_request c) (Option.bind r ro_apiEndpoint) p of
          Inl e \<Rightarrow> (Inl e, s)
        | Inr b \<Rightarrow> bind_op (execute_verified ads now [b] creds p (Some (nc_tenant c)) [nc_id c]) (\<lambda>_. ret ()) s)
      else if nc_commandType c = ''DISCONNECT_SESSION''
      then (case read_disconnect_command c r p of
          Inl e \<Rightarrow> (Inl e, s)
        | Inr d \<Rightarrow> bind_op (execute_persisted_disconnect ads now d creds p (nc_tenant c) (nc_id c)) (\<lambda>_. ret ()) s)
      else (Inl (PlainError (''Unsupported network command type: '' @ nc_commandType c)), s))"

definition execute_command ::
  "adapters \<Rightarrow> (string \<Rightarrow> string + credentials) \<Rightarrow> time \<Rightarrow> network_command \<Rightarrow> (db, unit) operation" where
  "execute_command ads decrypt now c s =
     (case nc_provider c of
        None \<Rightarrow> (Inl (PlainError ''Unsupported network command provider: missing''), s)
      | Some p \<Rightarrow>
          (case (case nc_routerId c of None \<Rightarrow> Inr None | Some i \<Rightarrow> map_sum id Some (worker_router (nc_tenant c) i s)) of
             Inl e \<Rightarrow> (Inl e, s)
           | Inr r \<Rightarrow>
               (case (case Option.bind r ro_credentialsEncrypted of None \<Rightarrow> Inr None | Some x \<Rightarrow> map_sum id Some (decrypt x)) of
                  Inl m \<Rightarrow> (Inl (PlainError m), s)
                | Inr creds \<Rightarrow> dispatch_command ads now c p r creds s)))"

fun exn_message :: "exn \<Rightarrow> string" where
  "exn_message (NotFound m) = m"
| "exn_message (Conflict m) = m"
| "exn_message (BadRequest m) = m"
| "exn_message (Forbidden m) = m"
| "exn_message (Unauthorized m) = m"
| "exn_message (ServiceUnavailable m) = m"
| "exn_message (PlainError m) = m"
| "exn_message (DbError m) = m"

definition run_claimed ::
  "adapters \<Rightarrow> (string \<Rightarrow> string + credentials) \<Rightarrow> time \<Rightarrow> network_command \<Rightarrow> db \<Rightarrow> bool \<times> db" where
  "run_claimed ads decrypt now c s =
     (case execute_command ads decrypt now c s of
        (Inr _, s') \<Rightarrow> (True, s')
      | (Inl e, s') \<Rightarrow> (False, mark_failed now (nc_tenant c) [nc_id c] (exn_message e) s'))"

fun run_batch ::
  "adapters \<Rightarrow> (string \<Rightarrow> string + credentials) \<Rightarrow> time \<Rightarrow> network_command list \<Rightarrow> db \<Rightarrow> (nat \<times> nat) \<times> db" where
  "run_batch ads decrypt now [] s = ((0, 0), s)"
| "run_batch ads decrypt now (c # cs) s =
     (let (ok, s1) = run_claimed ads decrypt now c s;
          ((succeeded, failed), s2) = run_batch ads decrypt now cs s1
      in ((if ok then (succeeded + 1, failed) else (succeeded, failed + 1)), s2))"

record worker_round =
  wr_claimed :: nat
  wr_succeeded :: nat
  wr_failed :: nat

definition process_commands ::
  "adapters \<Rightarrow> (string \<Rightarrow> string + credentials) \<Rightarrow> bool \<Rightarrow> jsnum \<Rightarrow> jsnum \<Rightarrow> time \<Rightarrow> db \<Rightarrow> worker_round \<times> db" where
  "process_commands ads decrypt running batchSize staleSeconds now s =
     (if running then (\<lparr> wr_claimed = 0, wr_succeeded = 0, wr_failed = 0 \<rparr>, s)
      else (case claim_pending None batchSize staleSeconds now s of
          (Inl _, s1) \<Rightarrow> (\<lparr> wr_claimed = 0, wr_succeeded = 0, wr_failed = 0 \<rparr>, s1)
        | (Inr claimed, s1) \<Rightarrow>
            (let ((succeeded, failed), s2) = run_batch ads decrypt now claimed s1
             in (\<lparr> wr_claimed = length claimed, wr_succeeded = succeeded, wr_failed = failed \<rparr>, s2))))"

subsection \<open>Persisted commands read back\<close>

lemma map_of_find: "map_of xs k = map_option snd (find (\<lambda>kv. fst kv = k) xs)"
  by (induction xs) auto

lemma find_filter: "find P xs = (case filter P xs of [] \<Rightarrow> None | y # _ \<Rightarrow> Some y)"
  by (induction xs) auto

lemma map_of_sort_key: "map_of (sort_key fst kvs) k = map_of kvs k"
proof -
  have "filter (\<lambda>kv. fst kv = k) (sort_key fst kvs) = filter (\<lambda>kv. fst kv = k) kvs"
    by (rule sort_key_stable)
  then show ?thesis by (simp only: map_of_find find_filter)
qed

lemma map_of_optional:
  "distinct (map fst kvs) \<Longrightarrow>
     map_of (map (\<lambda>kv. (fst kv, the (snd kv))) (filter (\<lambda>kv. snd kv \<noteq> None) kvs)) k = Option.bind (map_of kvs k) (\<lambda>x. x)"
proof (induction kvs)
  case (Cons kv kvs)
  have "map_of kvs (fst kv) = None" using Cons.prems by (simp add: map_of_eq_None_iff)
  with Cons show ?case by (cases "snd kv") auto
qed simp

lemma json_get_jobject:
  assumes "distinct (map fst kvs)"
  shows "json_get (jsonb (jobject kvs)) k = map_option jsonb (Option.bind (map_of kvs k) (\<lambda>x. x))"
proof -
  have "map_of (map (\<lambda>kv. (fst kv, jsonb (snd kv))) xs) k = map_option jsonb (map_of xs k)" for xs
    by (induction xs) auto
  then show ?thesis
    using map_of_optional [OF assms, of k] by (simp add: json_get_def jobject_def map_of_sort_key del: map_map)
qed

lemma parse_protocol_name [simp]: "parse_protocol (Some (protocol_name p)) = Some p"
  by (cases p) (simp_all add: parse_protocol_def all_protocols_def)

lemma trunc_rat_of_int [simp]: "trunc_rat (of_int i) = i"
  by (simp add: trunc_rat_def)

lemma json_text_of_bandwidth:
  "json_text (jsonb (bandwidth_json c)) ''routerId'' = Some (bc_routerId c)"
  "json_text (jsonb (bandwidth_json c)) ''customerId'' = Some (bc_customerId c)"
  "json_text (jsonb (bandwidth_json c)) ''sessionId'' = bc_sessionId c"
  "json_text (jsonb (bandwidth_json c)) ''targetAddress'' = bc_targetAddress c"
  "json_text (jsonb (bandwidth_json c)) ''targetMacAddress'' = bc_targetMacAddress c"
  "json_text (jsonb (bandwidth_json c)) ''apiEndpoint'' = bc_apiEndpoint c"
  "json_text (jsonb (bandwidth_json c)) ''protocol'' = map_option protocol_name (bc_protocol c)"
  "json_text (jsonb (bandwidth_json c)) ''merakiGroupPolicyId'' = bc_merakiGroupPolicyId c"
  by (simp_all add: json_text_def bandwidth_json_def json_get_jobject split: option.splits)

lemma json_number_of_bandwidth:
  "json_number (jsonb (bandwidth_json c)) ''maxDownloadMbps'' = Fin (bc_maxDownloadMbps c)"
  "json_number (jsonb (bandwidth_json c)) ''maxUploadMbps'' = Fin (bc_maxUploadMbps c)"
  "json_number (jsonb (bandwidth_json c)) ''priority'' = Fin (of_int (bc_priority c))"
  by (simp_all add: json_number_def bandwidth_json_def json_get_jobject)

text \<open>C12: A queued bandwidth command is read back by the worker as it was, with the protocol of the row, the
  endpoint of the router where it had none, and its priority clamped to 1..8 -- but a command whose
  download or upload rate is not positive (an upload rounds to zero below half a kilobit per second)
  is refused although the service queues and applies it.\<close>

theorem persisted_bandwidth_reads_back:
  assumes "js_trim (bc_routerId c) = bc_routerId c" and "bc_routerId c \<noteq> []"
    and "js_trim (bc_customerId c) = bc_customerId c" and "bc_customerId c \<noteq> []"
    and "bc_protocol c \<in> {None, Some p}"
  shows "read_bandwidth_command (jsonb (bandwidth_json c)) endpoint p =
    (if bc_maxDownloadMbps c \<le> 0 then Inl (PlainError ''Invalid bandwidth command field: maxDownloadMbps'')
     else if bc_maxUploadMbps c \<le> 0 then Inl (PlainError ''Invalid bandwidth command field: maxUploadMbps'')
     else Inr (c\<lparr> bc_apiEndpoint := or_else (bc_apiEndpoint c) endpoint, bc_protocol := Some p,
                  bc_priority := max 1 (min 8 (bc_priority c)) \<rparr>))"
proof -
  have prot: "parse_protocol (map_option protocol_name (bc_protocol c)) \<in> {None, Some p}"
    using assms(5) by (auto simp: parse_protocol_def [of None])
  show ?thesis
    using prot assms(1-4)
    by (auto simp: read_bandwidth_command_def Let_def json_text_of_bandwidth json_number_of_bandwidth
        required_text_def positive_number_def bind_result_def)
qed

theorem persisted_bandwidth_reads_back_witness:
  "read_bandwidth_command (jsonb (bandwidth_json (example_bandwidth\<lparr> bc_priority := 12, bc_maxUploadMbps := 0 \<rparr>))) None SNMP
     = Inl (PlainError ''Invalid bandwidth command field: maxUploadMbps'')"
  by (subst persisted_bandwidth_reads_back)
    (simp_all add: example_bandwidth_def js_trim_def js_space_def)


subsection \<open>A round settles what it claimed\<close>

text \<open>Between two states, only the command \<open>i\<close> may have changed.\<close>

definition only_touches :: "uuid \<Rightarrow> db \<Rightarrow> db \<Rightarrow> bool" where
  "only_touches i s s' \<longleftrightarrow>
     filter (\<lambda>c. nc_id c \<noteq> i) (networkCommands s') = filter (\<lambda>c. nc_id c \<noteq> i) (networkCommands s)"

lemma only_touches_refl [simp]: "only_touches i s s"
  by (simp add: only_touches_def)

lemma only_touches_trans: "only_touches i s t \<Longrightarrow> only_touches i t u \<Longrightarrow> only_touches i s u"
  by (simp add: only_touches_def)

lemma only_touches_log_call [simp]: "only_touches i s (log_call m p ss t) = only_touches i s t"
  by (simp add: only_touches_def log_call_def)

lemma only_touches_touch:
  assumes "\<And>c. P c \<Longrightarrow> nc_id c = i" and "\<And>c. nc_id (f c) = nc_id c"
  shows "only_touches i t (touch_commands P f s) = only_touches i t s"
proof -
  have "filter (\<lambda>c. nc_id c \<noteq> i) (map (\<lambda>c. if P c then f c else c) cs) = filter (\<lambda>c. nc_id c \<noteq> i) cs" for cs
    using assms by (induction cs) auto
  then show ?thesis by (simp add: only_touches_def touch_commands_def update_where_def)
qed

lemma only_touches_marks [simp]:
  "only_touches i t (mark_executed now tenant [i] x s) = only_touches i t s"
  "only_touches i t (mark_failed now tenant [i] m s) = only_touches i t s"
  "only_touches i t (mark_verified now tenant i v s) = only_touches i t s"
  "only_touches i t (mark_verification_failed now tenant i v s) = only_touches i t s"
  by (simp_all add: mark_defs, (rule only_touches_touch; simp add: is_command_def)+)

lemma only_touches_status:
  assumes "only_touches i s s'" and "j \<noteq> i"
  shows "status_of s' t j = status_of s t j"
proof -
  have "find (is_command t j) cs = find (is_command t j) (filter (\<lambda>c. nc_id c \<noteq> i) cs)" for cs
    using assms(2) by (induction cs) (auto simp: is_command_def)
  then show ?thesis using assms(1) by (metis only_touches_def select_one_def status_of_def)
qed

lemma only_touches_row:
  assumes "only_touches i s s'" and "c \<in> set (networkCommands s)" and "nc_id c \<noteq> i"
  shows "c \<in> set (networkCommands s')"
proof -
  have "c \<in> set (filter (\<lambda>c. nc_id c \<noteq> i) (networkCommands s'))"
    using assms by (simp only: only_touches_def) simp
  then show ?thesis by simp
qed

lemma execute_verified_touches:
  "only_touches i s (snd (execute_verified ads now [b] creds p (Some t) [i] s))"
  by (simp add: execute_verified_def Let_def fail_verifications_def elem_at_def case_prod_beta
      split: option.split sum.split)

lemma execute_disconnect_touches:
  "only_touches i s (snd (execute_persisted_disconnect ads now d creds p t i s))"
  by (simp add: execute_persisted_disconnect_def Let_def split: option.split sum.split prod.split)

lemma execute_disconnect_settles:
  assumes st: "status_of s t i = Some st" "executable st"
    and e: "execute_persisted_disconnect ads now d creds p t i s = (r, s')"
  shows "executed_or_settled (status_of (mark_failed now t [i] m s') t i)"
    and "r = Inr x \<Longrightarrow> settled (status_of s' t i)"
proof -
  have "executed_or_settled (status_of (mark_failed now t [i] m s') t i) \<and> (\<forall>x. r = Inr x \<longrightarrow> settled (status_of s' t i))"
  proof (cases "disconnect_functions ads p")
    case None
    with e st show ?thesis by (auto simp: execute_persisted_disconnect_def executed_or_settled_def)
  next
    case (Some f)
    obtain disconnect verify where f: "f = (disconnect, verify)" by fastforce
    show ?thesis
    proof (cases "disconnect (deviceCalls s) d creds")
      case (Inl m)
      then have "s' = mark_failed now t [i] m (log_call Dev_disconnect p [dis_sessionId d] s)" "r = Inl (PlainError m)"
        using e Some f by (simp_all add: execute_persisted_disconnect_def Let_def)
      then have failed: "status_of s' t i = Some FAILED" and r: "r \<noteq> Inr x" for x using st by simp_all
      from failed have "status_of (mark_failed now t [i] m' s') t i = Some FAILED" for m' by (simp add: executable_def)
      then show ?thesis unfolding executed_or_settled_def using r by (simp del: status_of_mark_failed)
    next
      case (Inr ex)
      define s2 where "s2 = mark_executed now t [i] (execution_details ex) (log_call Dev_disconnect p [dis_sessionId d] s)"
      have s2: "status_of s2 t i = Some EXECUTED" using st by (simp add: s2_def)
      show ?thesis
      proof (cases "verify (deviceCalls s2) d creds")
        case v: (Inl m)
        have "s' = mark_failed now t [i] m (log_call Dev_verify_disconnected p [dis_sessionId d] s2)" "r = Inl (PlainError m)"
          using e Some f Inr v by (simp_all add: execute_persisted_disconnect_def Let_def s2_def [symmetric])
        with s2 show ?thesis by (simp add: executed_or_settled_def executable_def)
      next
        case v: (Inr rs)
        let ?s3 = "log_call Dev_verify_disconnected p [dis_sessionId d] s2"
        have "s' = mark_verified now t i (first_details rs mismatch) ?s3 \<or>
              s' = mark_verification_failed now t i (first_details rs mismatch) ?s3"
          using e Some f Inr v by (simp add: execute_persisted_disconnect_def Let_def s2_def [symmetric] split: if_splits)
        then have "status_of s' t i = Some VERIFIED \<or> status_of s' t i = Some FAILED"
          using s2 by (elim disjE; simp)
        then show ?thesis by (auto simp: executed_or_settled_def settled_def executable_def)
      qed
    qed
  qed
  then show "executed_or_settled (status_of (mark_failed now t [i] m s') t i)"
    and "r = Inr x \<Longrightarrow> settled (status_of s' t i)" by blast+
qed

text \<open>
  One claimed command in an executable state: afterwards it is settled, or it is a disconnect that
  was carried out but not verified.
\<close>

definition run_outcome :: "network_command \<Rightarrow> command_status option \<Rightarrow> bool" where
  "run_outcome c st \<longleftrightarrow> settled st \<or> nc_commandType c = ''DISCONNECT_SESSION'' \<and> st = Some EXECUTED"

lemma execute_command_dispatches:
  "(\<exists>e. execute_command ads decrypt now c s = (Inl e, s)) \<or>
   (\<exists>p r creds. execute_command ads decrypt now c s = dispatch_command ads now c p r creds s)"
  by (auto simp: execute_command_def split: option.split sum.split)

lemma mark_failed_settles:
  assumes "status_of s t i = Some st" and "executable st \<or> settled (Some st)"
  shows "settled (status_of (mark_failed now t [i] m s) t i)"
  using assms by (auto simp: settled_def)

lemma dispatch_bandwidth:
  assumes "status_of s (nc_tenant c) (nc_id c) = Some st" and "executable st"
    and "execute_verified ads now [b] creds p (Some (nc_tenant c)) [nc_id c] s = (r, s')"
  shows "settled (status_of (mark_failed now (nc_tenant c) [nc_id c] m s') (nc_tenant c) (nc_id c)) \<and>
    (\<forall>x. r = Inr x \<longrightarrow> settled (status_of s' (nc_tenant c) (nc_id c)))"
proof (cases "ads p")
  case None
  with assms show ?thesis by (auto simp: execute_verified_def settled_def)
next
  case (Some a)
  have "settled (status_of (snd (execute_verified ads now [b] creds p (Some (nc_tenant c)) [nc_id c] s)) (nc_tenant c) (nc_id c))"
    by (rule execute_verified_settles [where a = a]) (use Some assms in auto)
  then have "settled (status_of s' (nc_tenant c) (nc_id c))" using assms(3) by simp
  then show ?thesis by (auto simp: settled_def)
qed

lemma dispatch_outcome:
  assumes st: "status_of s (nc_tenant c) (nc_id c) = Some st" "executable st"
    and d: "dispatch_command ads now c p r creds s = (v, s')"
  shows "run_outcome c (status_of (mark_failed now (nc_tenant c) [nc_id c] m s') (nc_tenant c) (nc_id c)) \<and>
    (v = Inr () \<longrightarrow> run_outcome c (status_of s' (nc_tenant c) (nc_id c))) \<and> only_touches (nc_id c) s s'"
proof -
  note refused = mark_failed_settles [OF st(1) disjI1 [OF st(2)]]
  show ?thesis
  proof (cases "nc_commandType c = ''BANDWIDTH_ENFORCEMENT''")
    case True
    show ?thesis
    proof (cases "read_bandwidth_command (nc_request c) (Option.bind r ro_apiEndpoint) p")
      case (Inl e)
      with d True refused show ?thesis by (auto simp: dispatch_command_def run_outcome_def)
    next
      case (Inr b)
      obtain v2 s2 where e: "execute_verified ads now [b] creds p (Some (nc_tenant c)) [nc_id c] s = (v2, s2)" by fastforce
      then have "s' = s2" "v = Inr () \<longleftrightarrow> (\<exists>x. v2 = Inr x)"
        using d True Inr by (auto simp: dispatch_command_def bind_op_def ret_def split: sum.splits)
      moreover have "only_touches (nc_id c) s s2" using execute_verified_touches e by (metis snd_conv)
      ultimately show ?thesis using dispatch_bandwidth [OF st e] by (auto simp: run_outcome_def)
    qed
  next
    case nb: False
    show ?thesis
    proof (cases "nc_commandType c = ''DISCONNECT_SESSION''")
      case True
      show ?thesis
      proof (cases "read_disconnect_command c r p")
        case (Inl e)
        with d True refused show ?thesis by (auto simp: dispatch_command_def run_outcome_def)
      next
        case (Inr b)
        obtain v2 s2 where e: "execute_persisted_disconnect ads now b creds p (nc_tenant c) (nc_id c) s = (v2, s2)" by fastforce
        then have "s' = s2" "v = Inr () \<longleftrightarrow> (\<exists>x. v2 = Inr x)"
          using d True Inr by (auto simp: dispatch_command_def bind_op_def ret_def split: sum.splits)
        moreover have "only_touches (nc_id c) s s2" using execute_disconnect_touches e by (metis snd_conv)
        moreover have "executed_or_settled (status_of (mark_failed now (nc_tenant c) [nc_id c] m s2) (nc_tenant c) (nc_id c))"
          by (rule execute_disconnect_settles(1) [OF st e])
        then have "run_outcome c (status_of (mark_failed now (nc_tenant c) [nc_id c] m s2) (nc_tenant c) (nc_id c))"
          unfolding run_outcome_def executed_or_settled_def using True by blast
        moreover have "v2 = Inr x \<Longrightarrow> run_outcome c (status_of s2 (nc_tenant c) (nc_id c))" for x
          unfolding run_outcome_def using execute_disconnect_settles(2) [OF st e] by blast
        ultimately show ?thesis by blast
      qed
    next
      case False
      with nb d refused show ?thesis by (auto simp: dispatch_command_def run_outcome_def)
    qed
  qed
qed

lemma run_claimed_outcome:
  assumes st: "status_of s (nc_tenant c) (nc_id c) = Some st" "executable st"
    and r: "run_claimed ads decrypt now c s = (ok, s')"
  shows "run_outcome c (status_of s' (nc_tenant c) (nc_id c)) \<and> only_touches (nc_id c) s s'"
proof -
  consider (refused) e where "execute_command ads decrypt now c s = (Inl e, s)"
    | (dispatched) p q creds where "execute_command ads decrypt now c s = dispatch_command ads now c p q creds s"
    using execute_command_dispatches by blast
  then show ?thesis
  proof cases
    case refused
    with r mark_failed_settles [OF st(1) disjI1 [OF st(2)]] show ?thesis by (auto simp: run_claimed_def run_outcome_def)
  next
    case dispatched
    obtain v s2 where d: "dispatch_command ads now c p q creds s = (v, s2)" by fastforce
    show ?thesis
      using dispatch_outcome [OF st d] r d dispatched by (cases v) (auto simp: run_claimed_def)
  qed
qed


text \<open>The whole batch: the commands have distinct identifiers, so a later one does not disturb an earlier one.\<close>

lemma run_batch_outcome:
  assumes "distinct (map nc_id cs)"
    and "\<And>c. c \<in> set cs \<Longrightarrow> \<exists>st. status_of s (nc_tenant c) (nc_id c) = Some st \<and> executable st"
    and "run_batch ads decrypt now cs s = ((succeeded, failed), s')"
  shows "(\<forall>c\<in>set cs. run_outcome c (status_of s' (nc_tenant c) (nc_id c))) \<and> succeeded + failed = length cs \<and>
    (\<forall>t j. j \<notin> set (map nc_id cs) \<longrightarrow> status_of s' t j = status_of s t j) \<and>
    (\<forall>d. nc_id d \<notin> set (map nc_id cs) \<longrightarrow> d \<in> set (networkCommands s) \<longrightarrow> d \<in> set (networkCommands s'))"
  using assms
proof (induction cs arbitrary: s succeeded failed s')
  case Nil
  then show ?case by simp
next
  case (Cons c cs)
  obtain ok s1 where r: "run_claimed ads decrypt now c s = (ok, s1)" by fastforce
  obtain n m s2 where b: "run_batch ads decrypt now cs s1 = ((n, m), s2)" by (metis prod.exhaust)
  have s2: "s2 = s'" and count: "succeeded + failed = Suc (n + m)"
    using Cons.prems(3) r b by (auto split: if_splits)
  obtain st where st: "status_of s (nc_tenant c) (nc_id c) = Some st" "executable st" using Cons.prems(2) by fastforce
  note one = run_claimed_outcome [OF st r]
  have other: "nc_id d \<noteq> nc_id c" if "d \<in> set cs" for d using that Cons.prems(1) by (force simp: image_iff)
  have "\<exists>st. status_of s1 (nc_tenant d) (nc_id d) = Some st \<and> executable st" if d: "d \<in> set cs" for d
    using only_touches_status [OF conjunct2 [OF one] other [OF d]] Cons.prems(2) [of d] d by simp
  then have IH: "(\<forall>c\<in>set cs. run_outcome c (status_of s2 (nc_tenant c) (nc_id c))) \<and> n + m = length cs \<and>
    (\<forall>t j. j \<notin> set (map nc_id cs) \<longrightarrow> status_of s2 t j = status_of s1 t j) \<and>
    (\<forall>d. nc_id d \<notin> set (map nc_id cs) \<longrightarrow> d \<in> set (networkCommands s1) \<longrightarrow> d \<in> set (networkCommands s2))"
    using Cons.prems(1) by (intro Cons.IH [OF _ _ b]) auto
  have "nc_id c \<notin> set (map nc_id cs)" using Cons.prems(1) by simp
  then have "status_of s2 (nc_tenant c) (nc_id c) = status_of s1 (nc_tenant c) (nc_id c)" using IH by blast
  then have "run_outcome c (status_of s2 (nc_tenant c) (nc_id c))" using one by simp
  moreover have "status_of s2 t j = status_of s t j" if "j \<notin> set (map nc_id (c # cs))" for t j
    using IH that only_touches_status [OF conjunct2 [OF one], of j t] by simp
  moreover have "d \<in> set (networkCommands s2)" if "nc_id d \<notin> set (map nc_id (c # cs))" "d \<in> set (networkCommands s)" for d
    using IH that only_touches_row [OF conjunct2 [OF one], of d] by simp
  ultimately show ?case using IH count by (simp add: s2 [symmetric])
qed

lemma claimed_are_sent:
  assumes "claim_pending tenant limit stale now s = (Inr claimed, s1)" and "commands_ok s"
  shows "distinct (map nc_id claimed)"
    and "c \<in> set claimed \<Longrightarrow> status_of s1 (nc_tenant c) (nc_id c) = Some SENT"
proof -
  define ids where "ids = map nc_id (claim_candidates tenant limit stale now s)"
  define f :: "network_command \<Rightarrow> network_command" where "f = (\<lambda>c. c\<lparr> nc_status := SENT, nc_sentAt := Some now \<rparr>)"
  have s1: "s1 = touch_commands (\<lambda>c. nc_id c \<in> set ids) f s"
    and cl: "claimed = select (\<lambda>c. nc_id c \<in> set ids) (networkCommands s1)"
    using assms(1) by (auto simp: claim_pending_def Let_def ids_def f_def)
  have ok: "commands_ok s1" using claim_step [OF assms] by blast
  then have d: "distinct (map nc_id (networkCommands s1))" by (simp add: commands_ok_def)
  then show "distinct (map nc_id claimed)" by (simp add: cl select_def distinct_map_filter)
  show "status_of s1 (nc_tenant c) (nc_id c) = Some SENT" if "c \<in> set claimed"
  proof -
    have c: "c \<in> set (networkCommands s1)" "nc_id c \<in> set ids" using that by (simp_all add: cl)
    then obtain q where "c = (if nc_id q \<in> set ids then f q else q)"
        by (auto simp: s1 touch_commands_def in_update_where)
      with c(2) have sent: "nc_status c = SENT" by (cases "nc_id q \<in> set ids") (simp_all add: f_def)
    have "select_one (is_command (nc_tenant c) (nc_id c)) (networkCommands s1) = Some c"
      by (rule select_one_key [OF d c(1)]) (simp_all add: is_command_def)
    then show ?thesis using sent by (simp add: status_of_def)
  qed
qed

text \<open>A worker round over a consistent journal accounts for every command it claims: it counts each as a
  success or a failure, leaves each verified or failed -- or, when its verification request failed,
  a disconnect in \<open>EXECUTED\<close> -- and does not touch any command it did not claim; whatever the
  adapters, the stored requests and the decryption do.\<close>

theorem worker_round_settles:
  assumes "commands_ok s" and "claim_pending None batchSize stale now s = (Inr claimed, s1)"
    and "process_commands ads decrypt False batchSize stale now s = (w, s')"
  shows "wr_claimed w = length claimed \<and> wr_succeeded w + wr_failed w = length claimed \<and>
    list_all (\<lambda>c. status_of s' (nc_tenant c) (nc_id c) \<in> {Some VERIFIED, Some FAILED} \<or>
                  nc_commandType c = ''DISCONNECT_SESSION'' \<and> status_of s' (nc_tenant c) (nc_id c) = Some EXECUTED) claimed \<and>
    list_all (\<lambda>d. nc_id d \<in> set (map nc_id claimed) \<or> d \<in> set (networkCommands s')) (networkCommands s1)"
proof -
  obtain n m s2 where b: "run_batch ads decrypt now claimed s1 = ((n, m), s2)" by (metis prod.exhaust)
  have w: "w = \<lparr> wr_claimed = length claimed, wr_succeeded = n, wr_failed = m \<rparr>" and s': "s' = s2"
    using assms(2,3) b by (auto simp: process_commands_def)
  have "\<exists>st. status_of s1 (nc_tenant c) (nc_id c) = Some st \<and> executable st" if "c \<in> set claimed" for c
    using claimed_are_sent(2) [OF assms(2,1) that] by (simp add: executable_def)
  from run_batch_outcome [OF claimed_are_sent(1) [OF assms(2,1)] this b]
  show ?thesis by (auto simp: w s' list_all_iff run_outcome_def settled_def)
qed

theorem worker_round_settles_witness:
  "let s = empty_db\<lparr> next_id := 1, networkCommands := [example_command QUEUED] \<rparr>;
       (w, s') = process_commands (\<lambda>_. Some unverifiable_adapter) Inr False (Fin 20) (Fin 300) 7 s
   in wr_claimed w = 1 \<and> wr_succeeded w + wr_failed w = 1"
proof -
  let ?s = "empty_db\<lparr> next_id := 1, networkCommands := [example_command QUEUED] \<rparr>"
  obtain w s' where p: "process_commands (\<lambda>_. Some unverifiable_adapter) Inr False (Fin 20) (Fin 300) 7 ?s = (w, s')"
    by fastforce
  obtain claimed s1 where c: "claim_pending None (Fin 20) (Fin 300) 7 ?s = (Inr claimed, s1)" "length claimed = 1"
    by (simp add: claim_pending_def Let_def claim_candidates_def order_limit_def select_def claimable_def example_command_def
        clamp_limit_def trunc_rat_def touch_commands_def update_where_def)
  have "commands_ok ?s" by (rule example_commands_ok) simp
  from worker_round_settles [OF this c(1) p] c(2) p show ?thesis by (simp add: Let_def)
qed

end
