(* ===== verification/ServicePolicy.thy ===== *)
theory ServicePolicy
  imports Schema
begin

text \<open>
  The policies of a WiFi plan (\<open>modules/traffic/network-policy.compiler.ts\<close>, \<open>service-policy.ts\<close>) and the
  measurement of traffic from counters (\<open>traffic.measurement.ts\<close>): the compiled network policy and its
  RADIUS attributes, the decision about a running service, and throughput between two samples.
\<close>

subsection \<open>The compiler\<close>

text \<open>
  Numbers that the callers may pass as \<open>null\<close>, as \<open>undefined\<close> or as a decimal text are optional numbers here.
\<close>

record policy_source =
  ps_packageId :: string
  ps_name :: "string option"
  ps_durationSeconds :: jsnum
  ps_dataLimitBytes :: "jsnum option"
  ps_downloadBps :: "jsnum option"
  ps_uploadBps :: "jsnum option"

record compiled_policy =
  cp_packageId :: string
  cp_packageName :: "string option"
  cp_durationSeconds :: int
  cp_dataLimitBytes :: "int option"
  cp_downloadBps :: "int option"
  cp_uploadBps :: "int option"
  cp_sessionTimeoutSeconds :: int
  cp_interimUpdateSeconds :: int
  cp_quotaEnforcement :: bool
  cp_bandwidthEnforcement :: bool
  cp_sessionTimeout :: bool
  cp_interimAccounting :: bool
  cp_coaCompatible :: bool

definition finite_integer :: "jsnum option \<Rightarrow> int option" where
  "finite_integer v = (case v of
       Some (Fin r) \<Rightarrow> if r < 0 then None else Some (trunc_rat r)
     | _ \<Rightarrow> None)"

text \<open>\<open>Math.min(300, Math.max(60, Math.trunc(duration / 20) || 60))\<close>\<close>

definition interim_seconds :: "int \<Rightarrow> int" where
  "interim_seconds duration =
     (let t = trunc_rat (of_int duration / 20) in min 300 (max 60 (if t = 0 then 60 else t)))"

definition compile_network_policy :: "policy_source \<Rightarrow> compiled_policy result" where
  "compile_network_policy source =
     (let refused = Inl (PlainError ''A network policy requires a valid packageId and positive durationSeconds'') in
      case finite_integer (Some (ps_durationSeconds source)) of
        None \<Rightarrow> refused
      | Some duration \<Rightarrow>
          if ps_packageId source = [] \<or> duration \<le> 0 then refused
          else (let limit = finite_integer (ps_dataLimitBytes source);
                    down = finite_integer (ps_downloadBps source);
                    up = finite_integer (ps_uploadBps source)
                in Inr \<lparr> cp_packageId = ps_packageId source, cp_packageName = ps_name source, cp_durationSeconds = duration,
                     cp_dataLimitBytes = limit, cp_downloadBps = down, cp_uploadBps = up,
                     cp_sessionTimeoutSeconds = duration, cp_interimUpdateSeconds = interim_seconds duration,
                     cp_quotaEnforcement = (limit \<noteq> None), cp_bandwidthEnforcement = (down \<noteq> None \<or> up \<noteq> None),
                     cp_sessionTimeout = True, cp_interimAccounting = True,
                     cp_coaCompatible = (down \<noteq> None \<or> up \<noteq> None) \<rparr>))"

definition policy_json :: "compiled_policy \<Rightarrow> json" where
  "policy_json p = jobject
     [(''version'', Some (JNum 1)),
      (''source'', Some (jobject [(''packageId'', Some (JStr (cp_packageId p))), (''packageName'', map_option JStr (cp_packageName p))])),
      (''validity'', Some (jobject [(''durationSeconds'', Some (JNum (of_int (cp_durationSeconds p))))])),
      (''quota'', Some (jobject [(''dataLimitBytes'', Some (or_null (\<lambda>n. JNum (of_int n)) (cp_dataLimitBytes p)))])),
      (''bandwidth'', Some (jobject [(''downloadBps'', Some (or_null (\<lambda>n. JNum (of_int n)) (cp_downloadBps p))),
                                     (''uploadBps'', Some (or_null (\<lambda>n. JNum (of_int n)) (cp_uploadBps p)))])),
      (''session'', Some (jobject [(''sessionTimeoutSeconds'', Some (JNum (of_int (cp_sessionTimeoutSeconds p)))),
                                   (''interimUpdateSeconds'', Some (JNum (of_int (cp_interimUpdateSeconds p))))])),
      (''capabilities'', Some (jobject [(''quotaEnforcement'', Some (JBool (cp_quotaEnforcement p))),
         (''bandwidthEnforcement'', Some (JBool (cp_bandwidthEnforcement p))), (''sessionTimeout'', Some (JBool (cp_sessionTimeout p))),
         (''interimAccounting'', Some (JBool (cp_interimAccounting p))), (''coaCompatible'', Some (JBool (cp_coaCompatible p)))]))]"

text \<open>The rate limit is the pair of its two numbers; \<open>rate_limit_text\<close> renders it.\<close>

record radius_attributes =
  ra_sessionTimeout :: int
  ra_acctInterimInterval :: int
  ra_rateLimit :: "(nat \<times> nat) option"

definition kbps :: "int \<Rightarrow> nat" where
  "kbps bps = nat (max 1 (js_round (of_int bps / 1000)))"

definition rate_limit_text :: "nat \<times> nat \<Rightarrow> string" where
  "rate_limit_text r = nat_str (fst r) @ ''k/'' @ nat_str (snd r) @ ''k''"

definition to_radius_policy_attributes :: "compiled_policy \<Rightarrow> radius_attributes" where
  "to_radius_policy_attributes p =
     \<lparr> ra_sessionTimeout = cp_sessionTimeoutSeconds p, ra_acctInterimInterval = cp_interimUpdateSeconds p,
       ra_rateLimit = (case (cp_downloadBps p, cp_uploadBps p) of
           (None, None) \<Rightarrow> None
         | (down, up) \<Rightarrow>
             (let downKbps = kbps (case down of Some d \<Rightarrow> d | None \<Rightarrow> (case up of Some u \<Rightarrow> u | None \<Rightarrow> 0));
                  upKbps = kbps (case up of Some u \<Rightarrow> u | None \<Rightarrow> (case down of Some d \<Rightarrow> d | None \<Rightarrow> 0))
              in Some (upKbps, downKbps))) \<rparr>"

subsection \<open>The running service\<close>

datatype service_decision_state = SP_ACTIVE | SP_QUOTA_EXCEEDED | SP_EXPIRED | SP_NO_ACTIVE_SERVICE

text \<open>Times are those of valid dates, so they are finite.\<close>

record service_input =
  si_startsAt :: "time option"
  si_endsAt :: "time option"
  si_dataLimitBytes :: "jsnum option"
  si_usedBytes :: jsnum
  si_downloadBps :: "jsnum option"
  si_uploadBps :: "jsnum option"

record service_decision =
  sd_state :: service_decision_state
  sd_maxDownloadMbps :: jsnum
  sd_maxUploadMbps :: jsnum
  sd_remainingBytes :: "rat option"

definition bps_to_mbps :: "jsnum option \<Rightarrow> jsnum" where
  "bps_to_mbps v = (case v of
       None \<Rightarrow> PosInf
     | Some (Fin r) \<Rightarrow> Fin (if r < 0 then 0 else r / 1000000)
     | Some _ \<Rightarrow> Fin 0)"

definition service_inactive :: service_decision where
  "service_inactive = \<lparr> sd_state = SP_NO_ACTIVE_SERVICE, sd_maxDownloadMbps = Fin 0, sd_maxUploadMbps = Fin 0, sd_remainingBytes = None \<rparr>"

definition service_expired :: service_decision where
  "service_expired = \<lparr> sd_state = SP_EXPIRED, sd_maxDownloadMbps = Fin 0, sd_maxUploadMbps = Fin 0, sd_remainingBytes = Some 0 \<rparr>"

definition used_bytes :: "service_input \<Rightarrow> rat" where
  "used_bytes i = (case si_usedBytes i of Fin r \<Rightarrow> max 0 r | _ \<Rightarrow> 0)"

definition resolve_service_policy :: "time \<Rightarrow> service_input \<Rightarrow> service_decision" where
  "resolve_service_policy now i =
     (if (case (si_startsAt i, si_endsAt i) of (Some a, Some b) \<Rightarrow> b \<le> a | _ \<Rightarrow> False) then service_inactive
      else if (case si_startsAt i of Some a \<Rightarrow> now < a | None \<Rightarrow> False) then service_inactive
      else if (case si_endsAt i of Some b \<Rightarrow> b \<le> now | None \<Rightarrow> False) then service_expired
      else (let active = (\<lambda>remaining. \<lparr> sd_state = SP_ACTIVE, sd_maxDownloadMbps = bps_to_mbps (si_downloadBps i),
                  sd_maxUploadMbps = bps_to_mbps (si_uploadBps i), sd_remainingBytes = remaining \<rparr>)
            in case si_dataLimitBytes i of
                 None \<Rightarrow> active None
               | Some (Fin limit) \<Rightarrow>
                   if limit < 0 then service_inactive
                   else if limit \<le> used_bytes i
                   then \<lparr> sd_state = SP_QUOTA_EXCEEDED, sd_maxDownloadMbps = Fin 0, sd_maxUploadMbps = Fin 0, sd_remainingBytes = Some 0 \<rparr>
                   else active (Some (max 0 (limit - used_bytes i)))
               | Some _ \<Rightarrow> service_inactive))"

subsection \<open>Throughput\<close>

record counter_sample =
  cs_bytesIn :: nat
  cs_bytesOut :: nat
  cs_sampledAt :: time

record throughput_sample =
  tp_downloadMbps :: rat
  tp_uploadMbps :: rat
  tp_totalMbps :: rat
  tp_intervalSeconds :: rat

definition counter_delta :: "nat \<Rightarrow> nat \<Rightarrow> nat" where
  "counter_delta current previous = (if previous < current then current - previous else 0)"

definition calculate_throughput :: "counter_sample \<Rightarrow> counter_sample \<Rightarrow> throughput_sample" where
  "calculate_throughput previous current =
     (let intervalMs = cs_sampledAt current - cs_sampledAt previous;
          intervalSeconds = (if 0 < intervalMs then of_int intervalMs / 1000 else 0 :: rat)
      in if intervalSeconds \<le> 0
         then \<lparr> tp_downloadMbps = 0, tp_uploadMbps = 0, tp_totalMbps = 0, tp_intervalSeconds = 0 \<rparr>
         else (let mbps = (\<lambda>bytes. of_nat bytes * 8 / intervalSeconds / 1000000);
                   down = mbps (counter_delta (cs_bytesIn current) (cs_bytesIn previous));
                   up = mbps (counter_delta (cs_bytesOut current) (cs_bytesOut previous))
               in \<lparr> tp_downloadMbps = to_fixed 3 down, tp_uploadMbps = to_fixed 3 up,
                    tp_totalMbps = to_fixed 3 (down + up), tp_intervalSeconds = intervalSeconds \<rparr>))"

lemma throughput_nonneg:
  "0 \<le> tp_downloadMbps (calculate_throughput p c) \<and> 0 \<le> tp_uploadMbps (calculate_throughput p c) \<and>
   0 \<le> tp_totalMbps (calculate_throughput p c)"
proof -
  have "0 \<le> (of_nat b * 8 / s / 1000000 :: rat)" if "0 < s" for b s
    using that by simp
  then show ?thesis
    by (simp add: calculate_throughput_def Let_def to_fixed_nonneg add_nonneg_nonneg not_le)
qed

lemma interim_bounds: "60 \<le> interim_seconds d \<and> interim_seconds d \<le> 300"
  by (simp add: interim_seconds_def Let_def)

lemma kbps_close: "0 \<le> bps \<Longrightarrow> 1 \<le> kbps bps \<and> \<bar>int (kbps bps) * 1000 - bps\<bar> \<le> max 500 (1000 - bps)"
proof -
  assume "0 \<le> bps"
  have "js_round (of_int bps / 1000) = (bps * 2 + 1000) div 2000"
  proof -
    have "(of_int bps / 1000 + 1 / 2 :: rat) = of_int (bps * 2 + 1000) / of_int 2000" by simp
    then show ?thesis unfolding js_round_def by (simp only: floor_divide_of_int_eq)
  qed
  then have "kbps bps = nat (max 1 ((bps * 2 + 1000) div 2000))" by (simp add: kbps_def)
  with \<open>0 \<le> bps\<close> show ?thesis by (simp add: abs_le_iff) linarith
qed

subsection \<open>Properties\<close>

text \<open>The compiler accepts exactly the plans with a package and a finite duration of at least a second;
  what it compiles times out after the whole seconds of the duration, reports usage every 60 to
  300 seconds, as RFC 2869 demands, limits both directions at no less than one kilobit per second
  and within half a kilobit of the plan, and flags exactly the limits it carries.\<close>

theorem compiled_policy_is_sound:
  "case compile_network_policy source of
     Inl e \<Rightarrow> \<not> (ps_packageId source \<noteq> [] \<and> (\<exists>r. ps_durationSeconds source = Fin r \<and> 1 \<le> r))
   | Inr p \<Rightarrow> ps_packageId source \<noteq> [] \<and> (\<exists>r. ps_durationSeconds source = Fin r \<and> 1 \<le> r \<and> cp_durationSeconds p = \<lfloor>r\<rfloor>) \<and>
       (let a = to_radius_policy_attributes p in
          ra_sessionTimeout a = cp_durationSeconds p \<and> 60 \<le> ra_acctInterimInterval a \<and> ra_acctInterimInterval a \<le> 300 \<and>
          cp_quotaEnforcement p = (cp_dataLimitBytes p \<noteq> None) \<and>
          cp_bandwidthEnforcement p = (ra_rateLimit a \<noteq> None) \<and>
          (case ra_rateLimit a of None \<Rightarrow> True
           | Some (up, down) \<Rightarrow> 1 \<le> up \<and> 1 \<le> down \<and>
               (case cp_downloadBps p of None \<Rightarrow> down = up | Some d \<Rightarrow> \<bar>int down * 1000 - d\<bar> \<le> max 500 (1000 - d)) \<and>
               (case cp_uploadBps p of None \<Rightarrow> up = down | Some u \<Rightarrow> \<bar>int up * 1000 - u\<bar> \<le> max 500 (1000 - u))))"
proof -
  have nonneg: "finite_integer v = Some n \<Longrightarrow> 0 \<le> n" for v n
    by (auto simp: finite_integer_def trunc_rat_def split: option.splits jsnum.splits if_splits)
  have duration: "finite_integer (Some v) = Some n \<Longrightarrow> 0 < n \<Longrightarrow> \<exists>r. v = Fin r \<and> 1 \<le> r \<and> n = \<lfloor>r\<rfloor>" for v n
    by (auto simp: finite_integer_def trunc_rat_def split: jsnum.splits if_splits)
  have no_duration: "finite_integer (Some v) = None \<Longrightarrow> \<not> (\<exists>r. v = Fin r \<and> 1 \<le> r)" for v
    by (auto simp: finite_integer_def split: jsnum.splits if_splits)
  have short: "finite_integer (Some v) = Some n \<Longrightarrow> n \<le> 0 \<Longrightarrow> \<not> (\<exists>r. v = Fin r \<and> 1 \<le> r)" for v n
    by (auto simp: finite_integer_def trunc_rat_def split: jsnum.splits if_splits)
  have k: "Suc 0 \<le> kbps n" "0 \<le> n \<Longrightarrow> \<bar>int (kbps n) * 1000 - n\<bar> \<le> max 500 (1000 - n)" for n
    using kbps_close [of n] by (simp_all add: kbps_def)
  show ?thesis
  proof (cases "finite_integer (Some (ps_durationSeconds source))")
    case None
    with no_duration show ?thesis by (simp add: compile_network_policy_def)
  next
    case (Some n)
    show ?thesis
    proof (cases "ps_packageId source = [] \<or> n \<le> 0")
      case True
      with Some short [OF Some] show ?thesis by (auto simp: compile_network_policy_def)
    next
      case False
      then obtain r where r: "ps_durationSeconds source = Fin r" "1 \<le> r" "n = \<lfloor>r\<rfloor>" using duration [OF Some] by force
      obtain p where p: "compile_network_policy source = Inr p" "cp_durationSeconds p = n" "cp_sessionTimeoutSeconds p = n"
          "cp_interimUpdateSeconds p = interim_seconds n" "cp_quotaEnforcement p = (cp_dataLimitBytes p \<noteq> None)"
          "cp_bandwidthEnforcement p = (cp_downloadBps p \<noteq> None \<or> cp_uploadBps p \<noteq> None)"
          "cp_downloadBps p = finite_integer (ps_downloadBps source)" "cp_uploadBps p = finite_integer (ps_uploadBps source)"
        using Some False by (simp add: compile_network_policy_def Let_def)
      have d: "cp_downloadBps p = Some d \<Longrightarrow> 0 \<le> d" and u: "cp_uploadBps p = Some u \<Longrightarrow> 0 \<le> u" for d u
        using nonneg p(7,8) by metis+
      show ?thesis
        using p(1-6) r False interim_bounds [of n]
        by (cases "cp_downloadBps p"; cases "cp_uploadBps p")
          (simp_all add: to_radius_policy_attributes_def Let_def k d u)
    qed
  qed
qed

text \<open>A service is active exactly when its window is not empty and contains the current time and its data
  limit, if any, is a finite, non-negative number above the usage; then the remaining volume and
  the usage add up to the limit. In every other state both directions are blocked.\<close>

theorem service_policy_decides:
  "(sd_state (resolve_service_policy now i) = SP_ACTIVE \<longleftrightarrow>
     (case (si_startsAt i, si_endsAt i) of (Some a, Some b) \<Rightarrow> a < b | _ \<Rightarrow> True) \<and>
     (case si_startsAt i of Some a \<Rightarrow> a \<le> now | None \<Rightarrow> True) \<and>
     (case si_endsAt i of Some b \<Rightarrow> now < b | None \<Rightarrow> True) \<and>
     (case si_dataLimitBytes i of None \<Rightarrow> True | Some (Fin l) \<Rightarrow> used_bytes i < l | Some _ \<Rightarrow> False)) \<and>
   (if sd_state (resolve_service_policy now i) = SP_ACTIVE
    then sd_remainingBytes (resolve_service_policy now i)
       = (case si_dataLimitBytes i of Some (Fin l) \<Rightarrow> Some (l - used_bytes i) | _ \<Rightarrow> None)
    else sd_maxDownloadMbps (resolve_service_policy now i) = Fin 0 \<and>
         sd_maxUploadMbps (resolve_service_policy now i) = Fin 0)"
proof -
  have "0 \<le> used_bytes i" by (simp add: used_bytes_def split: jsnum.split)
  then show ?thesis
    by (auto simp: resolve_service_policy_def Let_def service_inactive_def service_expired_def split: option.split jsnum.split)
qed

end
