(* ===== verification/Promotions.thy ===== *)
theory Promotions
  imports AuditTrail Journal
begin

text \<open>
  Promotion codes (\<open>promotions/promotions.service.ts\<close>): creation, the checks and the discount of an
  offer, and the redemptions, which form a journal with one entry per promotion and purchase.
\<close>

subsection \<open>Creating and listing\<close>

text \<open>An expiry date that was given but does not parse is \<open>Some None\<close>.\<close>

record promo_input =
  pi_code :: string
  pi_type :: promo_type
  pi_value :: rat
  pi_expiresAt :: "time option option"
  pi_usageLimitTotal :: "int option"
  pi_usageLimitPerCustomer :: "int option"
  pi_minAmount :: "rat option"
  pi_maxDiscount :: "rat option"
  pi_eligiblePackageIds :: "uuid list option"
  pi_firstPaymentOnly :: bool

definition promo_row :: "uuid \<Rightarrow> uuid \<Rightarrow> promo_input \<Rightarrow> promo_code" where
  "promo_row i tenant input = \<lparr> pm_id = i, pm_tenant = tenant, pm_code = js_upper (js_trim (pi_code input)),
     pm_type = pi_type input, pm_value = pi_value input, pm_status = P_ACTIVE,
     pm_expiresAt = (case pi_expiresAt input of None \<Rightarrow> None | Some t \<Rightarrow> t),
     pm_usageLimitTotal = pi_usageLimitTotal input, pm_usageLimitPerCustomer = pi_usageLimitPerCustomer input,
     pm_timesRedeemed = 0, pm_minAmount = pi_minAmount input, pm_maxDiscount = pi_maxDiscount input,
     pm_eligiblePackageIds = pi_eligiblePackageIds input, pm_firstPaymentOnly = pi_firstPaymentOnly input \<rparr>"

definition create_promo :: "uuid \<Rightarrow> promo_input \<Rightarrow> (db, promo_code) operation" where
  "create_promo tenant input s =
     (let row = promo_row (new_uuid s) tenant input in
      if pi_type input = PERCENTAGE \<and> 100 < pi_value input
      then (Inl (BadRequest ''Percentage promo value cannot exceed 100''), s)
      else if pi_expiresAt input = Some None then (Inl (BadRequest ''Invalid expiresAt''), s)
      else if exists_row (\<lambda>p. pm_tenant p = tenant \<and> pm_code p = pm_code row) (promoCodes s)
      then (Inl (Conflict ''Promo code already exists''), s)
      else (Inr row, s\<lparr> next_id := next_id s + 1, promoCodes := insert_row row (promoCodes s) \<rparr>))"

definition list_promos :: "uuid \<Rightarrow> db \<Rightarrow> promo_code list" where
  "list_promos tenant s = take 500 (rev (select (\<lambda>p. pm_tenant p = tenant) (promoCodes s)))"

subsection \<open>Offers\<close>

record promo_request =
  pq_code :: string
  pq_customerId :: uuid
  pq_packageId :: uuid
  pq_subtotal :: rat

record promo_offer =
  po_promoId :: uuid
  po_code :: string
  po_type :: promo_type
  po_value :: rat
  po_subtotal :: rat
  po_discountAmount :: rat
  po_payableAmount :: rat

definition promo_discount :: "promo_code \<Rightarrow> rat \<Rightarrow> rat" where
  "promo_discount p subtotal =
     (let base = (case pm_type p of PERCENTAGE \<Rightarrow> subtotal * pm_value p / 100 | FIXED \<Rightarrow> pm_value p);
          capped = (case pm_maxDiscount p of None \<Rightarrow> base | Some m \<Rightarrow> min base m);
          bounded = min capped subtotal
      in of_int (js_round (bounded * 100)) / 100)"

text \<open>\<open>validate\<close>: the checks in their order; \<open>render\<close> prints the minimum amount of the message.\<close>

definition validate_promo :: "(rat \<Rightarrow> string) \<Rightarrow> time \<Rightarrow> uuid \<Rightarrow> promo_request \<Rightarrow> db \<Rightarrow> promo_offer result" where
  "validate_promo render now tenant r s =
     (case select_one (\<lambda>p. pm_tenant p = tenant \<and> pm_code p = js_upper (js_trim (pq_code r))) (promoCodes s) of
        None \<Rightarrow> Inl (NotFound ''Promo code does not exist'')
      | Some p \<Rightarrow>
          if pm_status p = P_DISABLED then Inl (Conflict ''Promo code is disabled'')
          else if pm_status p = P_EXPIRED \<or> (case pm_expiresAt p of None \<Rightarrow> False | Some t \<Rightarrow> t < now)
          then Inl (Conflict ''Promo code has expired'')
          else if (case pm_usageLimitTotal p of None \<Rightarrow> False | Some n \<Rightarrow> n \<le> pm_timesRedeemed p)
          then Inl (Conflict ''Promo code has reached its usage limit'')
          else if (case pm_eligiblePackageIds p of None \<Rightarrow> False | Some ids \<Rightarrow> pq_packageId r \<notin> set ids)
          then Inl (Conflict ''Promo code is not valid for this package'')
          else if (case pm_minAmount p of None \<Rightarrow> False | Some m \<Rightarrow> pq_subtotal r < m)
          then Inl (Conflict (''Promo code requires a minimum order of '' @ render (the (pm_minAmount p))))
          else if pm_firstPaymentOnly p \<and>
            exists_row (\<lambda>y. py_tenant y = tenant \<and> py_customerId y = pq_customerId r \<and> py_status y = PY_SUCCESS) (payments s)
          then Inl (Conflict ''Promo code is only valid on a customer first payment'')
          else if (case pm_usageLimitPerCustomer p of None \<Rightarrow> False
            | Some n \<Rightarrow> n \<le> int (count_where (\<lambda>d. pr_tenant d = tenant \<and> pr_promoCodeId d = pm_id p \<and>
                                        pr_customerId d = pq_customerId r) (promoRedemptions s)))
          then Inl (Conflict ''Promo code customer usage limit reached'')
          else (let discount = promo_discount p (pq_subtotal r)
                in Inr \<lparr> po_promoId = pm_id p, po_code = pm_code p, po_type = pm_type p, po_value = pm_value p,
                     po_subtotal = pq_subtotal r, po_discountAmount = discount,
                     po_payableAmount = max 0 (pq_subtotal r - discount) \<rparr>))"

subsection \<open>Redemptions\<close>

definition pr_key :: "promo_redemption \<Rightarrow> (uuid \<times> uuid \<times> uuid) option" where
  "pr_key r = Some (pr_tenant r, pr_promoCodeId r, pr_purchaseId r)"

definition put_redemption :: "promo_redemption \<Rightarrow> db \<Rightarrow> db" where
  "put_redemption r s = s\<lparr> promoRedemptions := insert_once pr_key r (promoRedemptions s) \<rparr>"

interpretation redemptions: keyed_journal promoRedemptions pr_key put_redemption
  by unfold_locales (simp add: put_redemption_def)

definition count_redemption :: "promo_code \<Rightarrow> promo_code" where
  "count_redemption p = p\<lparr> pm_timesRedeemed := pm_timesRedeemed p + 1,
     pm_status := (case pm_usageLimitTotal p of None \<Rightarrow> pm_status p
                   | Some n \<Rightarrow> if n \<le> pm_timesRedeemed p + 1 then P_EXHAUSTED else pm_status p) \<rparr>"

text \<open>\<open>recordRedemption\<close>: whether the redemption was new, and the database.\<close>

definition record_redemption :: "promo_redemption \<Rightarrow> db \<Rightarrow> bool \<times> db" where
  "record_redemption r s =
     (if has_key pr_key (pr_tenant r, pr_promoCodeId r, pr_purchaseId r) (promoRedemptions s) then (False, s)
      else (let s1 = put_redemption r s
            in (True, s1\<lparr> promoCodes := update_where (\<lambda>p. pm_tenant p = pr_tenant r \<and> pm_id p = pr_promoCodeId r)
                                                     count_redemption (promoCodes s1) \<rparr>)))"

lemma record_redemption_cases:
  "record_redemption r s =
     (if list_ex (\<lambda>x. pr_tenant x = pr_tenant r \<and> pr_promoCodeId x = pr_promoCodeId r \<and> pr_purchaseId x = pr_purchaseId r) (promoRedemptions s)
      then (False, s)
      else (True, s\<lparr> promoRedemptions := promoRedemptions s @ [r],
        promoCodes := map (\<lambda>p. if pm_tenant p = pr_tenant r \<and> pm_id p = pr_promoCodeId r then count_redemption p else p) (promoCodes s) \<rparr>))"
proof -
  have "has_key pr_key (pr_tenant r, pr_promoCodeId r, pr_purchaseId r) t \<longleftrightarrow>
      list_ex (\<lambda>x. pr_tenant x = pr_tenant r \<and> pr_promoCodeId x = pr_promoCodeId r \<and> pr_purchaseId x = pr_purchaseId r) t" for t
    by (simp add: has_key_def pr_key_def)
  then show ?thesis by (simp add: record_redemption_def put_redemption_def insert_once_def pr_key_def update_where_def)
qed

text \<open>Every counter is the number of redemptions of its code.\<close>

definition redemptions_of :: "promo_code \<Rightarrow> promo_redemption list \<Rightarrow> nat" where
  "redemptions_of p t = count_where (\<lambda>r. pr_tenant r = pm_tenant p \<and> pr_promoCodeId r = pm_id p) t"

definition promos_ok :: "db \<Rightarrow> bool" where
  "promos_ok s \<longleftrightarrow> unique_key pr_key (promoRedemptions s) \<and> fresh_ids s (map pr_promoCodeId (promoRedemptions s)) \<and>
     list_all (\<lambda>p. pm_timesRedeemed p = int (redemptions_of p (promoRedemptions s)) \<and>
       (pm_status p = P_EXHAUSTED \<longrightarrow> (\<exists>n. pm_usageLimitTotal p = Some n \<and> n \<le> pm_timesRedeemed p))) (promoCodes s)"

lemma create_promo_ok:
  assumes "create_promo tenant input s = (r, s')" and ok: "promos_ok s"
  shows "promos_ok s'"
proof -
  consider "s' = s" | "s' = s\<lparr> next_id := next_id s + 1, promoCodes := insert_row (promo_row (new_uuid s) tenant input) (promoCodes s) \<rparr>"
    using assms(1) by (auto simp: create_promo_def Let_def split: if_splits)
  then show ?thesis
  proof cases
    case 1
    with ok show ?thesis by simp
  next
    case 2
    have "new_uuid s \<notin> set (map pr_promoCodeId (promoRedemptions s))"
      using ok by (intro fresh_ids_new) (simp add: promos_ok_def)
    then have "pr_promoCodeId r \<noteq> new_uuid s" if "r \<in> set (promoRedemptions s)" for r
      using that by (metis image_eqI list.set_map)
    then have "redemptions_of (promo_row (new_uuid s) tenant input) (promoRedemptions s) = 0"
      by (simp add: redemptions_of_def count_where_def promo_row_def filter_empty_conv)
    moreover have "fresh_ids s' (map pr_promoCodeId (promoRedemptions s))"
      by (rule fresh_ids_mono [of s]) (use ok 2 in \<open>simp_all add: promos_ok_def\<close>)
    moreover have "promoRedemptions s' = promoRedemptions s"
      "promoCodes s' = promoCodes s @ [promo_row (new_uuid s) tenant input]"
      using 2 by (simp_all add: insert_row_def)
    moreover have "pm_timesRedeemed (promo_row i t x) = 0" "pm_status (promo_row i t x) = P_ACTIVE" for i t x
      by (simp_all add: promo_row_def)
    ultimately show ?thesis using ok by (simp add: promos_ok_def)
  qed
qed

lemma record_redemption_ok:
  assumes ok: "promos_ok s" and p: "\<exists>n. pr_promoCodeId r = nat_str n \<and> n < next_id s"
  shows "promos_ok (snd (record_redemption r s))"
proof (cases "has_key pr_key (pr_tenant r, pr_promoCodeId r, pr_purchaseId r) (promoRedemptions s)")
  case True
  with ok show ?thesis by (simp add: record_redemption_def)
next
  case False
  define s1 where "s1 = put_redemption r s"
  have rows: "promoRedemptions s1 = promoRedemptions s @ [r]"
    using False by (simp add: s1_def put_redemption_def insert_once_absent pr_key_def)
  have codes: "promoCodes s1 = promoCodes s" and nx: "next_id s1 = next_id s"
    by (simp_all add: s1_def put_redemption_def)
  have u: "unique_key pr_key (promoRedemptions s1)"
    unfolding s1_def by (rule redemptions.put_unique) (use ok in \<open>simp add: promos_ok_def\<close>)
  have f: "fresh_ids s1 (map pr_promoCodeId (promoRedemptions s1))"
    using ok p by (auto simp: promos_ok_def fresh_ids_def rows nx)
  have each: "pm_timesRedeemed p' = int (redemptions_of p' (promoRedemptions s1)) \<and>
      (pm_status p' = P_EXHAUSTED \<longrightarrow> (\<exists>n. pm_usageLimitTotal p' = Some n \<and> n \<le> pm_timesRedeemed p'))"
    if "p' \<in> set (update_where (\<lambda>p. pm_tenant p = pr_tenant r \<and> pm_id p = pr_promoCodeId r) count_redemption (promoCodes s))" for p'
  proof -
    from that obtain q where q: "q \<in> set (promoCodes s)"
      "p' = (if pm_tenant q = pr_tenant r \<and> pm_id q = pr_promoCodeId r then count_redemption q else q)"
      by (auto simp: in_update_where)
    from ok q(1) have old: "pm_timesRedeemed q = int (redemptions_of q (promoRedemptions s))"
      "pm_status q = P_EXHAUSTED \<longrightarrow> (\<exists>n. pm_usageLimitTotal q = Some n \<and> n \<le> pm_timesRedeemed q)"
      by (auto simp: promos_ok_def list_all_iff)
    show ?thesis
      using old q(2) by (auto simp: rows redemptions_of_def count_where_def count_redemption_def split: option.splits)
  qed
  have "snd (record_redemption r s) = s1\<lparr> promoCodes := update_where (\<lambda>p. pm_tenant p = pr_tenant r \<and> pm_id p = pr_promoCodeId r)
      count_redemption (promoCodes s) \<rparr>"
    using False by (simp add: record_redemption_def Let_def s1_def put_redemption_def)
  moreover have "list_all (\<lambda>p. pm_timesRedeemed p = int (redemptions_of p (promoRedemptions s1)) \<and>
       (pm_status p = P_EXHAUSTED \<longrightarrow> (\<exists>n. pm_usageLimitTotal p = Some n \<and> n \<le> pm_timesRedeemed p)))
      (update_where (\<lambda>p. pm_tenant p = pr_tenant r \<and> pm_id p = pr_promoCodeId r) count_redemption (promoCodes s))"
    unfolding list_all_iff using each by blast
  ultimately show ?thesis
    using u f by (simp add: promos_ok_def fresh_ids_def)
qed

subsection \<open>Properties\<close>

text \<open>An offer never charges more than the order: with a positive value, a subtotal and a cap that are
  not negative, the discount is between zero and the subtotal and the cap, each rounded to the cent,
  the payable amount is what remains of the subtotal, and neither is negative.\<close>

theorem offers_are_bounded:
  assumes "validate_promo render now tenant r s = Inr offer" and "0 \<le> pq_subtotal r"
    and "list_all (\<lambda>p. 0 < pm_value p \<and> (case pm_maxDiscount p of None \<Rightarrow> True | Some m \<Rightarrow> 0 \<le> m)) (promoCodes s)"
  shows "0 \<le> po_discountAmount offer \<and> po_discountAmount offer \<le> pq_subtotal r + 1 / 200 \<and>
    0 \<le> po_payableAmount offer \<and> po_payableAmount offer \<le> pq_subtotal r \<and>
    po_payableAmount offer = max 0 (pq_subtotal r - po_discountAmount offer) \<and>
    (\<exists>p\<in>set (promoCodes s). pm_id p = po_promoId offer \<and> pm_tenant p = tenant \<and>
       (case pm_maxDiscount p of None \<Rightarrow> True | Some m \<Rightarrow> po_discountAmount offer \<le> m + 1 / 200) \<and>
       (case pm_usageLimitTotal p of None \<Rightarrow> True | Some n \<Rightarrow> pm_timesRedeemed p < n))"
proof -
  obtain p where p: "select_one (\<lambda>p. pm_tenant p = tenant \<and> pm_code p = js_upper (js_trim (pq_code r))) (promoCodes s) = Some p"
    using assms(1) by (auto simp: validate_promo_def split: option.splits)
  note mem = select_one_Some [OF p]
  have o: "po_promoId offer = pm_id p" "po_discountAmount offer = promo_discount p (pq_subtotal r)"
      "po_payableAmount offer = max 0 (pq_subtotal r - promo_discount p (pq_subtotal r))"
    using assms(1) p by (auto simp: validate_promo_def Let_def split: if_splits)
  have limit: "case pm_usageLimitTotal p of None \<Rightarrow> True | Some n \<Rightarrow> pm_timesRedeemed p < n"
    using assms(1) p by (auto simp: validate_promo_def split: if_splits option.splits)
  have pos: "0 < pm_value p" "case pm_maxDiscount p of None \<Rightarrow> True | Some m \<Rightarrow> 0 \<le> m"
    using assms(3) mem by (auto simp: list_all_iff)
  define bounded where "bounded = min (case pm_maxDiscount p of
      None \<Rightarrow> (case pm_type p of PERCENTAGE \<Rightarrow> pq_subtotal r * pm_value p / 100 | FIXED \<Rightarrow> pm_value p)
    | Some m \<Rightarrow> min (case pm_type p of PERCENTAGE \<Rightarrow> pq_subtotal r * pm_value p / 100 | FIXED \<Rightarrow> pm_value p) m) (pq_subtotal r)"
  have b: "0 \<le> bounded" "bounded \<le> pq_subtotal r"
    using pos assms(2) by (auto simp: bounded_def split: option.splits promo_type.splits)
  have bm: "case pm_maxDiscount p of None \<Rightarrow> True | Some m \<Rightarrow> bounded \<le> m"
    by (auto simp: bounded_def split: option.splits)
  have d: "promo_discount p (pq_subtotal r) = of_int \<lfloor>bounded * 100 + 1 / 2\<rfloor> / 100"
    by (simp add: promo_discount_def Let_def js_round_def bounded_def)
  have up: "promo_discount p (pq_subtotal r) \<le> bounded + 1 / 200"
  proof -
    have "of_int \<lfloor>bounded * 100 + 1 / 2\<rfloor> \<le> bounded * 100 + 1 / 2" by simp
    then show ?thesis unfolding d by linarith
  qed
  have low: "0 \<le> promo_discount p (pq_subtotal r)" unfolding d using b(1) by simp
  show ?thesis
    using o b bm up low limit mem assms(2) by (auto split: option.splits intro!: bexI [of _ p])
qed

definition example_promo :: promo_code where
  "example_promo = \<lparr> pm_id = ''0'', pm_tenant = ''t'', pm_code = ''HALF'', pm_type = PERCENTAGE, pm_value = 50, pm_status = P_ACTIVE,
     pm_expiresAt = None, pm_usageLimitTotal = Some 1, pm_usageLimitPerCustomer = None, pm_timesRedeemed = 0, pm_minAmount = None,
     pm_maxDiscount = Some 100, pm_eligiblePackageIds = None, pm_firstPaymentOnly = True \<rparr>"

definition example_promo_db :: db where
  "example_promo_db = empty_db\<lparr> next_id := 1, promoCodes := [example_promo] \<rparr>"

definition example_request :: promo_request where
  "example_request = \<lparr> pq_code = ''half'', pq_customerId = ''c'', pq_packageId = ''k'', pq_subtotal = 1000 \<rparr>"

lemma example_code: "js_upper (js_trim ''half'') = ''HALF''"
  by (simp add: js_upper_def js_trim_def js_space_def upper_char_def char_of_def bit_0)

lemma example_offer:
  "validate_promo render now ''t'' example_request example_promo_db
     = Inr \<lparr> po_promoId = ''0'', po_code = ''HALF'', po_type = PERCENTAGE, po_value = 50, po_subtotal = 1000,
             po_discountAmount = 100, po_payableAmount = 900 \<rparr>"
  by (simp add: validate_promo_def example_request_def example_promo_db_def example_promo_def example_code select_one_def
      exists_row_def empty_db_def promo_discount_def js_round_numeral)

theorem offers_are_bounded_witness:
  "po_payableAmount \<lparr> po_promoId = ''0'', po_code = ''HALF'', po_type = PERCENTAGE, po_value = 50, po_subtotal = 1000,
     po_discountAmount = 100, po_payableAmount = 900 \<rparr> \<le> 1000"
  using offers_are_bounded [OF example_offer] by (simp add: example_request_def example_promo_db_def example_promo_def)

text \<open>C13: Redemptions are counted exactly: creating codes and recording redemptions keep the counter of every
  code equal to the number of its redemptions; a redemption is new exactly when there is none of the code for the
  purchase, and a new one is recorded with its discount and counted -- also beyond the usage limit, which only the offer
  checks: the counter of its code rises by one, the code is exhausted as soon as the counter reaches the
  limit, and every other column and code is what it was; repeating it changes nothing.\<close>

theorem redemptions_are_counted_once:
  assumes "promos_ok s" and "\<exists>n. pr_promoCodeId r = nat_str n \<and> n < next_id s"
  shows "promos_ok (snd (record_redemption r s)) \<and> promos_ok (snd (create_promo tenant input s)) \<and>
    (let (new, s') = record_redemption r s in
       (new \<longleftrightarrow> \<not> list_ex (\<lambda>x. pr_tenant x = pr_tenant r \<and> pr_promoCodeId x = pr_promoCodeId r \<and> pr_purchaseId x = pr_purchaseId r)
                 (promoRedemptions s)) \<and>
       (if new then s' = s\<lparr> promoRedemptions := promoRedemptions s @ [r],
          promoCodes := map (\<lambda>p. if pm_tenant p = pr_tenant r \<and> pm_id p = pr_promoCodeId r
            then p\<lparr> pm_timesRedeemed := pm_timesRedeemed p + 1,
                    pm_status := (case pm_usageLimitTotal p of
                       None \<Rightarrow> pm_status p
                     | Some limit \<Rightarrow> if limit \<le> pm_timesRedeemed p + 1 then P_EXHAUSTED else pm_status p) \<rparr>
            else p) (promoCodes s) \<rparr>
        else s' = s) \<and>
       record_redemption (r\<lparr> pr_discountAmount := other \<rparr>) s' = (False, s'))"
proof -
  have "has_key pr_key (pr_tenant r, pr_promoCodeId r, pr_purchaseId r) (promoRedemptions (snd (record_redemption r s)))"
    using redemptions.put_has_key [of r "(pr_tenant r, pr_promoCodeId r, pr_purchaseId r)" s]
    by (simp add: record_redemption_def Let_def pr_key_def)
  then have "record_redemption (r\<lparr> pr_discountAmount := other \<rparr>) (snd (record_redemption r s)) = (False, snd (record_redemption r s))"
    by (simp add: record_redemption_def)
  moreover have "promos_ok (snd (create_promo tenant input s))"
    using create_promo_ok [OF _ assms(1)] by (metis surjective_pairing)
  ultimately show ?thesis
    using record_redemption_ok [OF assms] by (simp add: record_redemption_cases count_redemption_def)
qed

definition example_redemption :: promo_redemption where
  "example_redemption = \<lparr> pr_tenant = ''t'', pr_promoCodeId = ''0'', pr_customerId = ''c'', pr_purchaseId = ''p'',
     pr_discountAmount = 100, pr_correlationId = None \<rparr>"

lemma example_promo_db_ok: "promos_ok example_promo_db"
  by (simp add: promos_ok_def example_promo_db_def example_promo_def empty_db_def redemptions_of_def count_where_def fresh_ids_def)

theorem redemptions_are_counted_once_witness:
  "let s' = snd (record_redemption example_redemption example_promo_db) in
     promos_ok s' \<and> record_redemption (example_redemption\<lparr> pr_discountAmount := 3 \<rparr>) s' = (False, s')"
proof -
  have "\<exists>n. pr_promoCodeId example_redemption = nat_str n \<and> n < next_id example_promo_db"
    by (rule exI [of _ 0]) (simp add: example_redemption_def example_promo_db_def nat_str_0)
  from redemptions_are_counted_once [OF example_promo_db_ok this, of "''t''" undefined 3]
  show ?thesis by (simp add: Let_def case_prod_beta)
qed

text \<open>The restriction of a code to first payments does not restrict anything once payments are recorded the
  way the services record them: payments in any state but \<open>SUCCESS\<close>, a state no service writes for a
  WiFi payment, leave every validation as it was.\<close>

theorem first_payment_check_is_vacuous:
  assumes "list_all (\<lambda>y. py_status y \<noteq> PY_SUCCESS) paid"
  shows "validate_promo render now tenant r (s\<lparr> payments := payments s @ paid \<rparr>) = validate_promo render now tenant r s"
proof -
  have "exists_row (\<lambda>y. py_tenant y = tenant \<and> py_customerId y = c \<and> py_status y = PY_SUCCESS) (payments s @ paid)
      = exists_row (\<lambda>y. py_tenant y = tenant \<and> py_customerId y = c \<and> py_status y = PY_SUCCESS) (payments s)" for c
    using assms by (auto simp: exists_row_iff list_all_iff)
  then show ?thesis by (simp add: validate_promo_def cong: option.case_cong if_cong)
qed

definition example_payment :: payment where
  "example_payment = \<lparr> py_id = ''1'', py_tenant = ''t'', py_customerId = ''c'', py_purchaseId = Some ''p'', py_provider = ''manual'',
     py_providerReference = None, py_amount = 500, py_currency = ''TZS'', py_status = PY_PAID, py_idempotencyKey = None,
     py_correlationId = None, py_verified = True, py_verifiedAt = None, py_verificationSource = None, py_createdAt = 0 \<rparr>"

theorem first_payment_check_is_vacuous_witness:
  "\<exists>offer. validate_promo (\<lambda>_. ''0'') 5 ''t'' example_request (example_promo_db\<lparr> payments := payments example_promo_db @ [example_payment] \<rparr>)
     = Inr offer \<and> pm_firstPaymentOnly example_promo"
  by (subst first_payment_check_is_vacuous) (simp_all add: example_payment_def example_offer example_promo_def)

end
