(* ===== verification/Ipam.thy ===== *)
theory Ipam
  imports AuditTrail
begin

text \<open>
  Address management (\<open>ipam/ipam.service.ts\<close>): pools of a tenant, the inventory of addresses, and their
  allocation and release. PostgreSQL parses the network of a new pool; \<open>parse_cidr\<close> stands for that
  cast and fails on anything but a network, as \<open>read_mac\<close> does on anything but a hardware address. Addresses arrive validated
  (\<open>@IsIP\<close>), and the metadata of a new address is JSON.
\<close>

subsection \<open>Pools\<close>

record pool_input =
  pl_name :: string
  pl_network :: string
  pl_gateway :: "ip option"
  pl_role :: "string option"
  pl_allocationMode :: "string option"
  pl_vlanId :: "int option"
  pl_description :: "string option"
  pl_enabled :: "bool option"

record pool_view =
  pv_pool :: ipam_pool
  pv_addressCount :: nat
  pv_availableCount :: nat
  pv_allocatedCount :: nat
  pv_reservedCount :: nat

definition pool_addresses :: "ipam_pool \<Rightarrow> db \<Rightarrow> ipam_address list" where
  "pool_addresses p s = select (\<lambda>a. ia_tenant a = ip_tenant p \<and> ia_poolId a = ip_id p) (ipamAddresses s)"

definition view_pool :: "db \<Rightarrow> ipam_pool \<Rightarrow> pool_view" where
  "view_pool s p = \<lparr> pv_pool = p, pv_addressCount = length (pool_addresses p s),
     pv_availableCount = count_where (\<lambda>a. ia_status a = IP_AVAILABLE) (pool_addresses p s),
     pv_allocatedCount = count_where (\<lambda>a. ia_status a = IP_ALLOCATED) (pool_addresses p s),
     pv_reservedCount = count_where (\<lambda>a. ia_status a = IP_RESERVED) (pool_addresses p s) \<rparr>"

definition list_pools :: "uuid \<Rightarrow> db \<Rightarrow> pool_view list" where
  "list_pools tenant s = map (view_pool s) (sort_key ip_name (select (\<lambda>p. ip_tenant p = tenant) (ipamPools s)))"

definition get_pool :: "uuid \<Rightarrow> uuid \<Rightarrow> (db, pool_view) operation" where
  "get_pool tenant i s =
     (case select_one (\<lambda>p. ip_tenant p = tenant \<and> ip_id p = i) (ipamPools s) of
        None \<Rightarrow> (Inl (NotFound ''IPAM pool not found''), s)
      | Some p \<Rightarrow> (Inr (view_pool s p), s))"

definition pool_row :: "uuid \<Rightarrow> uuid \<Rightarrow> pool_input \<Rightarrow> cidr \<Rightarrow> ipam_pool" where
  "pool_row i tenant input network = \<lparr> ip_id = i, ip_tenant = tenant, ip_name = js_trim (pl_name input),
     ip_network = network, ip_gateway = pl_gateway input, ip_role = or_value (pl_role input) ''CUSTOMER'',
     ip_allocationMode = or_value (pl_allocationMode input) ''INVENTORY'', ip_vlanId = pl_vlanId input,
     ip_description = trim_or_null (pl_description input), ip_enabled = or_value (pl_enabled input) True \<rparr>"

text \<open>\<open>show_cidr\<close> renders a network as the cast to text does, for the message and the audit entry.\<close>

definition create_pool ::
  "(string \<Rightarrow> cidr option) \<Rightarrow> (cidr \<Rightarrow> string) \<Rightarrow> string option \<Rightarrow> time \<Rightarrow> uuid \<Rightarrow> pool_input \<Rightarrow> (db, ipam_pool) operation" where
  "create_pool parse_cidr show_cidr cid now tenant input s =
     (case parse_cidr (js_trim (pl_network input)) of
        None \<Rightarrow> (Inl (BadRequest ''Invalid CIDR network''), s)
      | Some network \<Rightarrow>
          (case select_one (\<lambda>p. ip_tenant p = tenant \<and> overlaps (ip_network p) network) (ipamPools s) of
             Some p \<Rightarrow> (Inl (Conflict (''IPAM network overlaps existing pool '' @ ip_name p @ '' ('' @ show_cidr (ip_network p) @ '')'')), s)
           | None \<Rightarrow>
               if (case pl_gateway input of None \<Rightarrow> False | Some g \<Rightarrow> \<not> in_network g network)
               then (Inl (BadRequest ''Gateway must belong to the pool network''), s)
               else if exists_row (\<lambda>p. ip_tenant p = tenant \<and> ip_name p = js_trim (pl_name input)) (ipamPools s)
               then (Inl (Conflict ''An IPAM pool with that name already exists''), s)
               else (let row = pool_row (new_uuid s) tenant input network;
                         s1 = s\<lparr> next_id := next_id s + 1, ipamPools := insert_row row (ipamPools s) \<rparr>
                     in (Inr row, snd (audit_record cid now tenant ''IPAM_POOL_CREATED'' ''ipam_pool'' (Some (ip_id row))
                           (jobject [(''name'', Some (JStr (ip_name row))), (''network'', Some (JStr (show_cidr (ip_network row)))),
                                     (''role'', Some (JStr (ip_role row)))]) no_context s1)))))"

subsection \<open>Addresses\<close>

record address_input =
  ad_address :: ip
  ad_status :: "address_status option"
  ad_assignmentType :: "string option"
  ad_reservationRef :: "string option"
  ad_metadata :: "json option"

definition list_addresses :: "uuid \<Rightarrow> uuid option \<Rightarrow> address_status option \<Rightarrow> jsnum option \<Rightarrow> db \<Rightarrow> ipam_address list" where
  "list_addresses tenant pool status limit s =
     order_limit ia_address (nat (case limit of Some (Fin r) \<Rightarrow> min (max (trunc_rat r) 1) 1000 | _ \<Rightarrow> 100))
       (select (\<lambda>a. ia_tenant a = tenant \<and> (pool = None \<or> pool = Some (ia_poolId a)) \<and>
                    (status = None \<or> status = Some (ia_status a))) (ipamAddresses s))"

definition enabled_pool :: "uuid \<Rightarrow> uuid \<Rightarrow> db \<Rightarrow> ipam_pool option" where
  "enabled_pool tenant i s = select_one (\<lambda>p. ip_tenant p = tenant \<and> ip_id p = i \<and> ip_enabled p) (ipamPools s)"

definition address_row :: "uuid \<Rightarrow> uuid \<Rightarrow> uuid \<Rightarrow> address_input \<Rightarrow> ipam_address" where
  "address_row i tenant pool input = \<lparr> ia_id = i, ia_tenant = tenant, ia_poolId = pool, ia_address = ad_address input,
     ia_status = or_value (ad_status input) IP_AVAILABLE,
     ia_assignmentType = or_value (ad_assignmentType input) (if ad_status input = Some IP_RESERVED then ''RESERVED'' else ''DYNAMIC''),
     ia_reservationRef = trim_or_null (ad_reservationRef input), ia_metadata = or_value (ad_metadata input) (JObj []),
     ia_customerId = None, ia_routerId = None, ia_sessionId = None, ia_macAddress = None, ia_leaseExpiresAt = None,
     ia_allocatedAt = None, ia_releasedAt = None \<rparr>"

fun address_status_name :: "address_status \<Rightarrow> string" where
  "address_status_name IP_AVAILABLE = ''AVAILABLE''"
| "address_status_name IP_RESERVED = ''RESERVED''"
| "address_status_name IP_ALLOCATED = ''ALLOCATED''"
| "address_status_name IP_QUARANTINED = ''QUARANTINED''"

text \<open>\<open>show_ip\<close> renders an address for the audit entry.\<close>

definition add_address ::
  "(ip \<Rightarrow> string) \<Rightarrow> string option \<Rightarrow> time \<Rightarrow> uuid \<Rightarrow> uuid \<Rightarrow> address_input \<Rightarrow> (db, ipam_address) operation" where
  "add_address show_ip cid now tenant poolId input s =
     (case enabled_pool tenant poolId s of
        None \<Rightarrow> (Inl (NotFound ''Enabled IPAM pool not found''), s)
      | Some p \<Rightarrow>
          if \<not> in_network (ad_address input) (ip_network p)
          then (Inl (BadRequest ''Address is outside the pool network''), s)
          else if ip_gateway p = Some (ad_address input)
          then (Inl (Conflict ''Gateway address cannot be added to the allocatable inventory''), s)
          else if exists_row (\<lambda>a. ia_tenant a = tenant \<and> ia_address a = ad_address input) (ipamAddresses s)
          then (Inl (Conflict ''IP address already exists in this tenant''), s)
          else (let row = address_row (new_uuid s) tenant poolId input;
                    s1 = s\<lparr> next_id := next_id s + 1, ipamAddresses := insert_row row (ipamAddresses s) \<rparr>
                in (Inr row, snd (audit_record cid now tenant ''IPAM_ADDRESS_ADDED'' ''ipam_address'' (Some (ia_id row))
                      (jobject [(''poolId'', Some (JStr poolId)), (''address'', Some (JStr (show_ip (ia_address row)))),
                                (''status'', Some (JStr (address_status_name (ia_status row))))]) no_context s1))))"

record allocate_input =
  al_address :: "ip option"
  al_customerId :: "uuid option"
  al_routerId :: "uuid option"
  al_sessionId :: "uuid option"
  al_macAddress :: "string option"
  al_leaseSeconds :: "int option"

text \<open>The row to allocate, or the refusal.\<close>

definition choose_address :: "uuid \<Rightarrow> ipam_pool \<Rightarrow> ip option \<Rightarrow> db \<Rightarrow> ipam_address result" where
  "choose_address tenant p wanted s =
     (case wanted of
        Some w \<Rightarrow>
          (case select_one (\<lambda>a. ia_tenant a = tenant \<and> ia_poolId a = ip_id p \<and> ia_address a = w) (ipamAddresses s) of
             None \<Rightarrow> Inl (NotFound ''Requested address is not present in the IPAM inventory'')
           | Some a \<Rightarrow> if ia_status a \<noteq> IP_AVAILABLE then Inl (Conflict (''Requested address is '' @ address_status_name (ia_status a))) else Inr a)
      | None \<Rightarrow>
          (case order_limit ia_address 1
                  (select (\<lambda>a. ia_tenant a = tenant \<and> ia_poolId a = ip_id p \<and> ia_status a = IP_AVAILABLE) (ipamAddresses s)) of
             [] \<Rightarrow> Inl (Conflict (if ip_allocationMode p = ''DYNAMIC''
                      then ''IPAM pool has no available inventory; populate addresses before allocating''
                      else ''IPAM pool has no available inventory''))
           | a # _ \<Rightarrow> Inr a))"

text \<open>\<open>$6::macaddr\<close>: \<open>read_mac\<close> is the cast of a text, which gives the address as the column holds it, or fails.\<close>

definition stored_mac :: "(string \<Rightarrow> string option) \<Rightarrow> string option \<Rightarrow> string option option" where
  "stored_mac read_mac m = (case m of None \<Rightarrow> Some None | Some t \<Rightarrow> map_option Some (read_mac t))"

definition allocate_row :: "time \<Rightarrow> allocate_input \<Rightarrow> string option \<Rightarrow> ipam_address \<Rightarrow> ipam_address" where
  "allocate_row now input mac a = a\<lparr> ia_status := IP_ALLOCATED, ia_assignmentType := ''STATIC'', ia_customerId := al_customerId input,
     ia_routerId := al_routerId input, ia_sessionId := al_sessionId input, ia_macAddress := mac,
     ia_leaseExpiresAt := (case al_leaseSeconds input of None \<Rightarrow> None | Some n \<Rightarrow> if n = 0 then None else Some (now + n * 1000)),
     ia_allocatedAt := Some now, ia_releasedAt := None \<rparr>"

definition allocate_address ::
  "(string \<Rightarrow> string option) \<Rightarrow> (ip \<Rightarrow> string) \<Rightarrow> string option \<Rightarrow> time \<Rightarrow> uuid \<Rightarrow> uuid \<Rightarrow> allocate_input
   \<Rightarrow> (db, ipam_address) operation" where
  "allocate_address read_mac show_ip cid now tenant poolId input s =
     (case enabled_pool tenant poolId s of
        None \<Rightarrow> (Inl (NotFound ''Enabled IPAM pool not found''), s)
      | Some p \<Rightarrow>
          (case choose_address tenant p (al_address input) s of
             Inl e \<Rightarrow> (Inl e, s)
           | Inr a \<Rightarrow>
               (case stored_mac read_mac (al_macAddress input) of
                  None \<Rightarrow> (Inl (DbError ''22P02''), s)
                | Some mac \<Rightarrow>
                    (let s1 = s\<lparr> ipamAddresses := update_where (\<lambda>b. ia_tenant b = tenant \<and> ia_id b = ia_id a \<and> ia_status b = IP_AVAILABLE)
                                  (allocate_row now input mac) (ipamAddresses s) \<rparr>
                     in (Inr (allocate_row now input mac a),
                         snd (audit_record cid now tenant ''IPAM_ADDRESS_ALLOCATED'' ''ipam_address'' (Some (ia_id a))
                           (jobject [(''poolId'', Some (JStr poolId)), (''address'', Some (JStr (show_ip (ia_address a)))),
                                     (''customerId'', Some (or_null JStr (al_customerId input))),
                                     (''routerId'', Some (or_null JStr (al_routerId input)))]) no_context s1))))))"

definition release_row :: "time \<Rightarrow> ipam_address \<Rightarrow> ipam_address" where
  "release_row now a = a\<lparr> ia_status := IP_AVAILABLE, ia_assignmentType := ''DYNAMIC'', ia_customerId := None, ia_routerId := None,
     ia_sessionId := None, ia_macAddress := None, ia_leaseExpiresAt := None, ia_releasedAt := Some now \<rparr>"

definition release_address ::
  "(ip \<Rightarrow> string) \<Rightarrow> string option \<Rightarrow> time \<Rightarrow> uuid \<Rightarrow> uuid \<Rightarrow> string option \<Rightarrow> (db, ipam_address) operation" where
  "release_address show_ip cid now tenant i reason s =
     (case select_one (\<lambda>a. ia_tenant a = tenant \<and> ia_id a = i \<and> ia_status a = IP_ALLOCATED) (ipamAddresses s) of
        None \<Rightarrow> (Inl (NotFound ''Allocated IP address not found''), s)
      | Some a \<Rightarrow>
          (let s1 = s\<lparr> ipamAddresses := update_where (\<lambda>b. ia_tenant b = tenant \<and> ia_id b = i \<and> ia_status b = IP_ALLOCATED)
                        (release_row now) (ipamAddresses s) \<rparr>
           in (Inr (release_row now a),
               snd (audit_record cid now tenant ''IPAM_ADDRESS_RELEASED'' ''ipam_address'' (Some i)
                 (jobject [(''poolId'', Some (JStr (ia_poolId a))), (''address'', Some (JStr (show_ip (ia_address a)))),
                           (''reason'', Some (or_null JStr (trim_or_null reason)))]) no_context s1))))"


subsection \<open>A consistent inventory\<close>

definition address_ok :: "db \<Rightarrow> ipam_address \<Rightarrow> bool" where
  "address_ok s a \<longleftrightarrow>
     list_ex (\<lambda>p. ip_tenant p = ia_tenant a \<and> ip_id p = ia_poolId a \<and> in_network (ia_address a) (ip_network p) \<and>
                  ip_gateway p \<noteq> Some (ia_address a)) (ipamPools s) \<and>
     (ia_status a = IP_ALLOCATED \<longleftrightarrow> ia_allocatedAt a \<noteq> None \<and> ia_releasedAt a = None) \<and>
     (ia_status a \<noteq> IP_ALLOCATED \<longrightarrow> ia_customerId a = None \<and> ia_routerId a = None \<and> ia_sessionId a = None \<and> ia_leaseExpiresAt a = None)"

definition pools_disjoint :: "ipam_pool list \<Rightarrow> bool" where
  "pools_disjoint ps \<longleftrightarrow> pairwise (\<lambda>p q. \<not> (ip_tenant p = ip_tenant q \<and> overlaps (ip_network p) (ip_network q))) (set ps)"

definition ipam_ok :: "db \<Rightarrow> bool" where
  "ipam_ok s \<longleftrightarrow> pools_disjoint (ipamPools s) \<and>
     list_all (\<lambda>p. case ip_gateway p of None \<Rightarrow> True | Some g \<Rightarrow> in_network g (ip_network p)) (ipamPools s) \<and>
     distinct (map (\<lambda>a. (ia_tenant a, ia_address a)) (ipamAddresses s)) \<and>
     distinct (map ia_id (ipamAddresses s)) \<and> fresh_ids s (map ia_id (ipamAddresses s)) \<and>
     list_all (address_ok s) (ipamAddresses s)"

lemma enabled_pool_Some: "enabled_pool tenant i s = Some p \<Longrightarrow> p \<in> set (ipamPools s) \<and> ip_tenant p = tenant \<and> ip_id p = i"
  unfolding enabled_pool_def by (drule select_one_Some) simp

text \<open>What each operation does to the two tables, on success; on failure it changes nothing.\<close>

lemma pool_row_sel [simp]:
  "ip_tenant (pool_row i t x n) = t" "ip_network (pool_row i t x n) = n" "ip_gateway (pool_row i t x n) = pl_gateway x"
  by (simp_all add: pool_row_def)

lemma create_pool_cases:
  assumes "create_pool parse_cidr show_cidr cid now tenant input s = (r, s')"
  obtains (refused) e where "r = Inl e" "s' = s"
  | (created) network where "ipamAddresses s' = ipamAddresses s" "next_id s \<le> next_id s'"
      "ipamPools s' = ipamPools s @ [pool_row (new_uuid s) tenant input network]"
      "\<And>p. p \<in> set (ipamPools s) \<Longrightarrow> ip_tenant p = tenant \<Longrightarrow> \<not> overlaps (ip_network p) network"
      "case pl_gateway input of None \<Rightarrow> True | Some g \<Rightarrow> in_network g network"
proof (cases r)
  case (Inl e)
  then have "s' = s" using assms by (auto simp: create_pool_def Let_def split: option.splits if_splits)
  with Inl refused show thesis by blast
next
  case (Inr row)
  from assms Inr obtain network where
    n: "select_one (\<lambda>p. ip_tenant p = tenant \<and> overlaps (ip_network p) network) (ipamPools s) = None"
    and g: "case pl_gateway input of None \<Rightarrow> True | Some g \<Rightarrow> in_network g network"
    and s': "ipamAddresses s' = ipamAddresses s" "next_id s \<le> next_id s'"
      "ipamPools s' = ipamPools s @ [pool_row (new_uuid s) tenant input network]"
    by (auto simp: create_pool_def Let_def insert_row_def split: option.splits if_splits)
  show thesis by (rule created [OF s' _ g]) (use n in \<open>auto simp: select_one_None\<close>)
qed

lemma add_address_cases:
  assumes "add_address show_ip cid now tenant poolId input s = (r, s')"
  obtains (refused) e where "r = Inl e" "s' = s"
      "case enabled_pool tenant poolId s of None \<Rightarrow> True
       | Some p \<Rightarrow> \<not> in_network (ad_address input) (ip_network p) \<or> ip_gateway p = Some (ad_address input) \<or>
           exists_row (\<lambda>a. ia_tenant a = tenant \<and> ia_address a = ad_address input) (ipamAddresses s)"
  | (added) p where "r = Inr (address_row (new_uuid s) tenant poolId input)"
      "ipamAddresses s' = ipamAddresses s @ [address_row (new_uuid s) tenant poolId input]" "ipamPools s' = ipamPools s"
      "next_id s' = next_id s + 2" "enabled_pool tenant poolId s = Some p"
      "in_network (ad_address input) (ip_network p)" "ip_gateway p \<noteq> Some (ad_address input)"
      "\<not> exists_row (\<lambda>a. ia_tenant a = tenant \<and> ia_address a = ad_address input) (ipamAddresses s)"
  using assms refused added
  by (auto simp: add_address_def Let_def insert_row_def split: option.splits if_splits)

lemma choose_address_Inr:
  assumes "choose_address tenant p wanted s = Inr a"
  shows "a \<in> set (ipamAddresses s) \<and> ia_tenant a = tenant \<and> ia_poolId a = ip_id p \<and> ia_status a = IP_AVAILABLE \<and>
    (case wanted of Some w \<Rightarrow> ia_address a = w
     | None \<Rightarrow> \<forall>b\<in>set (ipamAddresses s). ia_tenant b = tenant \<longrightarrow> ia_poolId b = ip_id p \<longrightarrow> ia_status b = IP_AVAILABLE \<longrightarrow> ia_address a \<le> ia_address b)"
proof (cases wanted)
  case (Some w)
  with assms show ?thesis by (auto simp: choose_address_def dest: select_one_Some split: option.splits if_splits)
next
  case None
  let ?free = "select (\<lambda>a. ia_tenant a = tenant \<and> ia_poolId a = ip_id p \<and> ia_status a = IP_AVAILABLE) (ipamAddresses s)"
  from assms None obtain rest where s: "sort_key ia_address ?free = a # rest"
    by (cases "sort_key ia_address ?free") (auto simp: choose_address_def order_limit_def)
  then have "sorted (map ia_address (a # rest))" by (metis sorted_sort_key)
  moreover have "set (a # rest) = set ?free" unfolding s [symmetric] by (rule set_sort)
  ultimately show ?thesis using None by (auto simp: set_eq_iff)
qed

text \<open>Why an allocation is refused, and what it does otherwise.\<close>

definition nothing_to_allocate :: "uuid \<Rightarrow> uuid \<Rightarrow> ip option \<Rightarrow> db \<Rightarrow> bool" where
  "nothing_to_allocate tenant poolId wanted s \<longleftrightarrow>
     \<not> list_ex (\<lambda>a. ia_tenant a = tenant \<and> ia_poolId a = poolId \<and> ia_status a = IP_AVAILABLE \<and> (case wanted of None \<Rightarrow> True | Some w \<Rightarrow> ia_address a = w))
         (ipamAddresses s)"

lemma choose_address_Inl:
  assumes "choose_address tenant p wanted s = Inl e" and "distinct (map (\<lambda>a. (ia_tenant a, ia_address a)) (ipamAddresses s))"
  shows "nothing_to_allocate tenant (ip_id p) wanted s"
proof (cases wanted)
  case (Some w)
  have "ia_status a \<noteq> IP_AVAILABLE"
    if a: "a \<in> set (ipamAddresses s)" "ia_tenant a = tenant" "ia_poolId a = ip_id p" "ia_address a = w" for a
  proof (cases "select_one (\<lambda>a. ia_tenant a = tenant \<and> ia_poolId a = ip_id p \<and> ia_address a = w) (ipamAddresses s)")
    case None
    then show ?thesis using a by (simp add: select_one_None)
  next
    case found: (Some b)
    then have "b = a" using select_one_Some [OF found] a distinct_key_unique [OF assms(2), of b a] by simp
    then show ?thesis using assms(1) Some found by (auto simp: choose_address_def split: if_splits)
  qed
  then show ?thesis by (auto simp: nothing_to_allocate_def list_ex_iff Some)
next
  case None
  then show ?thesis using assms(1)
    by (cases "sort_key ia_address (select (\<lambda>a. ia_tenant a = tenant \<and> ia_poolId a = ip_id p \<and> ia_status a = IP_AVAILABLE) (ipamAddresses s))")
      (auto simp: choose_address_def order_limit_def nothing_to_allocate_def list_ex_iff select_def filter_empty_conv dest: arg_cong [where f = set])
qed

lemma allocate_cases:
  assumes "allocate_address read_mac show_ip cid now tenant poolId input s = (r, s')"
  obtains (refused) e where "r = Inl e" "s' = s"
      "enabled_pool tenant poolId s = None \<or> stored_mac read_mac (al_macAddress input) = None \<or>
       (\<exists>p. enabled_pool tenant poolId s = Some p \<and> choose_address tenant p (al_address input) s = Inl e)"
  | (allocated) p a mac where "r = Inr (allocate_row now input mac a)" "enabled_pool tenant poolId s = Some p"
      "choose_address tenant p (al_address input) s = Inr a" "ipamPools s' = ipamPools s" "next_id s \<le> next_id s'"
      "ipamAddresses s' = update_where (\<lambda>b. ia_tenant b = tenant \<and> ia_id b = ia_id a \<and> ia_status b = IP_AVAILABLE)
         (allocate_row now input mac) (ipamAddresses s)" "stored_mac read_mac (al_macAddress input) = Some mac"
proof (cases "enabled_pool tenant poolId s")
  case None
  with assms have "r = Inl (NotFound ''Enabled IPAM pool not found'')" "s' = s" by (simp_all add: allocate_address_def)
  with None show thesis by (intro refused) simp_all
next
  case (Some p)
  show thesis
  proof (cases "choose_address tenant p (al_address input) s")
    case (Inl e)
    with Some assms have "r = Inl e" "s' = s" by (simp_all add: allocate_address_def)
    with Some Inl show thesis by (intro refused [of e]) simp_all
  next
    case a: (Inr a)
    show thesis
    proof (cases "stored_mac read_mac (al_macAddress input)")
      case None
      with a Some assms have "r = Inl (DbError ''22P02'')" "s' = s" by (simp_all add: allocate_address_def)
      with None show thesis by (intro refused) simp_all
    next
      case mac: (Some mac)
      from Some a mac assms have "r = Inr (allocate_row now input mac a)" and "ipamPools s' = ipamPools s" and "next_id s \<le> next_id s'"
        and "ipamAddresses s' = update_where (\<lambda>b. ia_tenant b = tenant \<and> ia_id b = ia_id a \<and> ia_status b = IP_AVAILABLE)
           (allocate_row now input mac) (ipamAddresses s)"
        by (auto simp: allocate_address_def Let_def)
      with allocated Some a mac show thesis by blast
    qed
  qed
qed

lemma release_cases:
  assumes "release_address show_ip cid now tenant i reason s = (r, s')"
  obtains (refused) e where "r = Inl e" "s' = s"
      "select_one (\<lambda>a. ia_tenant a = tenant \<and> ia_id a = i \<and> ia_status a = IP_ALLOCATED) (ipamAddresses s) = None"
  | (released) a where "r = Inr (release_row now a)"
      "select_one (\<lambda>a. ia_tenant a = tenant \<and> ia_id a = i \<and> ia_status a = IP_ALLOCATED) (ipamAddresses s) = Some a"
      "ipamPools s' = ipamPools s" "next_id s \<le> next_id s'"
      "ipamAddresses s' = update_where (\<lambda>b. ia_tenant b = tenant \<and> ia_id b = i \<and> ia_status b = IP_ALLOCATED)
         (release_row now) (ipamAddresses s)"
  using assms refused released
  by (auto simp: release_address_def Let_def split: option.splits)

inductive ipam_step :: "db \<Rightarrow> db \<Rightarrow> bool" where
  step_pool: "create_pool parse_cidr show_cidr cid now tenant input s = (r, s') \<Longrightarrow> ipam_step s s'"
| step_add: "add_address show_ip cid now tenant poolId ainput s = (r', s') \<Longrightarrow> ad_status ainput \<in> {None, Some IP_AVAILABLE, Some IP_RESERVED}
    \<Longrightarrow> ipam_step s s'"
| step_allocate: "allocate_address read_mac show_ip cid now tenant poolId linput s = (r', s') \<Longrightarrow> ipam_step s s'"
| step_release: "release_address show_ip cid now tenant i reason s = (r', s') \<Longrightarrow> ipam_step s s'"

text \<open>A change in place of the bookkeeping columns.\<close>

lemma address_ok_same:
  assumes "address_ok s a" and "ia_tenant b = ia_tenant a" and "ia_poolId b = ia_poolId a" and "ia_address b = ia_address a"
    and "ipamPools s' = ipamPools s"
    and "ia_status b = IP_ALLOCATED \<longleftrightarrow> ia_allocatedAt b \<noteq> None \<and> ia_releasedAt b = None"
    and "ia_status b \<noteq> IP_ALLOCATED \<longrightarrow> ia_customerId b = None \<and> ia_routerId b = None \<and> ia_sessionId b = None \<and> ia_leaseExpiresAt b = None"
  shows "address_ok s' b"
  using assms by (simp add: address_ok_def)

lemma update_addresses_ok:
  assumes ok: "ipam_ok s" and pools: "ipamPools s' = ipamPools s" and nx: "next_id s \<le> next_id s'"
    and rows: "ipamAddresses s' = update_where P f (ipamAddresses s)"
    and keep: "\<And>a. (ia_tenant (f a), ia_address (f a)) = (ia_tenant a, ia_address a) \<and> ia_id (f a) = ia_id a"
    and each: "\<And>a. address_ok s a \<Longrightarrow> address_ok s' (f a)"
  shows "ipam_ok s'"
proof -
  have m: "map (\<lambda>a. (ia_tenant a, ia_address a)) (ipamAddresses s') = map (\<lambda>a. (ia_tenant a, ia_address a)) (ipamAddresses s)"
    "map ia_id (ipamAddresses s') = map ia_id (ipamAddresses s)"
    unfolding rows by (rule map_update_where; simp only: keep)+
  have "address_ok s' a" if "address_ok s a" for a using that pools by (simp add: address_ok_def)
  then have "list_all (address_ok s') (ipamAddresses s')"
    using ok each by (auto simp: rows list_all_iff in_update_where ipam_ok_def)
  moreover have "fresh_ids s' (map ia_id (ipamAddresses s'))"
    unfolding m by (rule fresh_ids_mono [OF _ nx]) (use ok in \<open>simp add: ipam_ok_def\<close>)
  ultimately show ?thesis using ok pools m unfolding ipam_ok_def by simp
qed

lemma pool_step_ok:
  assumes "create_pool parse_cidr show_cidr cid now tenant input s = (r, s')" and ok: "ipam_ok s"
  shows "ipam_ok s'"
  using assms(1)
proof (cases rule: create_pool_cases)
  case refused
  with ok show ?thesis by simp
next
  case (created network)
  have free: "\<And>p. p \<in> set (ipamPools s) \<Longrightarrow> ip_tenant p = tenant \<Longrightarrow> \<not> overlaps (ip_network p) network" by (rule created(4))
  have old: "pairwise (\<lambda>p q. \<not> (ip_tenant p = ip_tenant q \<and> overlaps (ip_network p) (ip_network q))) (set (ipamPools s))"
    using ok by (simp add: ipam_ok_def pools_disjoint_def)
  have "pools_disjoint (ipamPools s')"
    unfolding pools_disjoint_def created(3) set_append
    using old free by (auto simp: pairwise_insert overlaps_sym)
  moreover have "list_all (address_ok s') (ipamAddresses s')"
    using ok unfolding ipam_ok_def created(1) list_all_iff address_ok_def created(3) by auto
  moreover have "fresh_ids s' (map ia_id (ipamAddresses s))"
    using ok fresh_ids_mono [OF _ created(2)] by (simp add: ipam_ok_def)
  ultimately show ?thesis using ok created(1,3,5) by (simp add: ipam_ok_def split: option.splits)
qed

lemma add_step_ok:
  assumes "add_address show_ip cid now tenant poolId input s = (r, s')" and ok: "ipam_ok s"
    and st: "ad_status input \<in> {None, Some IP_AVAILABLE, Some IP_RESERVED}"
  shows "ipam_ok s'"
  using assms(1)
proof (cases rule: add_address_cases)
  case refused
  with ok show ?thesis by simp
next
  case (added p)
  let ?row = "address_row (new_uuid s) tenant poolId input"
  note p = enabled_pool_Some [OF added(5)]
  have row: "address_ok s' ?row"
    using p added(3,6,7) st by (auto simp: address_ok_def list_ex_iff address_row_def or_value_def)
  have "(tenant, ad_address input) \<notin> set (map (\<lambda>a. (ia_tenant a, ia_address a)) (ipamAddresses s))"
    using added(8) by (auto simp: exists_row_iff)
  moreover have "new_uuid s \<notin> set (map ia_id (ipamAddresses s))"
    using ok by (intro fresh_ids_new) (simp add: ipam_ok_def)
  moreover have "fresh_ids s' (map ia_id (ipamAddresses s) @ [new_uuid s])"
    by (rule fresh_ids_extend) (use ok added(4) in \<open>simp_all add: ipam_ok_def\<close>)
  moreover have "list_all (address_ok s') (ipamAddresses s)"
    using ok added(3) by (auto simp: ipam_ok_def address_ok_def list_all_iff)
  ultimately show ?thesis using ok added(2,3) row by (simp add: ipam_ok_def address_row_def)
qed

lemma allocate_step_ok:
  assumes "allocate_address read_mac show_ip cid now tenant poolId input s = (r, s')" and ok: "ipam_ok s"
  shows "ipam_ok s'"
  using assms(1)
proof (cases rule: allocate_cases)
  case refused
  with ok show ?thesis by simp
next
  case (allocated p a mac)
  show ?thesis
    by (rule update_addresses_ok [OF ok allocated(4-6)]) (simp_all add: allocate_row_def address_ok_def allocated(4))
qed

lemma release_step_ok:
  assumes "release_address show_ip cid now tenant i reason s = (r, s')" and ok: "ipam_ok s"
  shows "ipam_ok s'"
  using assms(1)
proof (cases rule: release_cases)
  case refused
  with ok show ?thesis by simp
next
  case (released a)
  show ?thesis
    by (rule update_addresses_ok [OF ok released(3-5)]) (simp_all add: release_row_def address_ok_def released(3))
qed

lemma ipam_step_ok: "ipam_step s s' \<Longrightarrow> ipam_ok s \<Longrightarrow> ipam_ok s'"
  by (cases rule: ipam_step.cases) (blast intro: pool_step_ok add_step_ok allocate_step_ok release_step_ok)+


subsection \<open>The inventory as a map\<close>

text \<open>
  What a tenant sees of its inventory: the pool and the status of every address that is in it. The operations
  implement the updates of that map.
\<close>

abbreviation pool_status :: "ipam_address \<Rightarrow> uuid \<times> address_status" where
  "pool_status a \<equiv> (ia_poolId a, ia_status a)"

definition inventory :: "db \<Rightarrow> uuid \<Rightarrow> ip \<Rightarrow> (uuid \<times> address_status) option" where
  "inventory s tenant w = map_option pool_status (select_one (\<lambda>a. ia_tenant a = tenant \<and> ia_address a = w) (ipamAddresses s))"

lemma inventory_mem:
  assumes "ipam_ok s" and "a \<in> set (ipamAddresses s)"
  shows "inventory s (ia_tenant a) (ia_address a) = Some (pool_status a)"
proof -
  have "select_one (\<lambda>b. ia_tenant b = ia_tenant a \<and> ia_address b = ia_address a) (ipamAddresses s) = Some a"
    by (rule select_one_key [where k = "\<lambda>a. (ia_tenant a, ia_address a)"]) (use assms in \<open>simp_all add: ipam_ok_def\<close>)
  then show ?thesis by (simp add: inventory_def)
qed

lemma inventory_Some:
  "inventory s tenant w = Some (pool, st) \<Longrightarrow>
     \<exists>a \<in> set (ipamAddresses s). ia_tenant a = tenant \<and> ia_address a = w \<and> ia_poolId a = pool \<and> ia_status a = st"
  by (auto simp: inventory_def dest: select_one_Some)

lemma nothing_to_allocate_iff:
  assumes "ipam_ok s"
  shows "nothing_to_allocate tenant pool wanted s \<longleftrightarrow>
    (case wanted of Some w \<Rightarrow> inventory s tenant w \<noteq> Some (pool, IP_AVAILABLE) | None \<Rightarrow> \<forall>w. inventory s tenant w \<noteq> Some (pool, IP_AVAILABLE))"
  using inventory_mem [OF assms] by (fastforce simp: nothing_to_allocate_def list_ex_iff dest: inventory_Some split: option.split)

text \<open>An update in place of the single row \<open>a\<close>.\<close>

lemma inventory_update:
  assumes ok: "ipam_ok s" and a: "a \<in> set (ipamAddresses s)" "ia_tenant a = tenant" "ia_status a = st"
    and rows: "ipamAddresses s' = update_where (\<lambda>b. ia_tenant b = tenant \<and> ia_id b = ia_id a \<and> ia_status b = st) f (ipamAddresses s)"
    and keep: "\<And>b. ia_tenant (f b) = ia_tenant b \<and> ia_address (f b) = ia_address b"
  shows "inventory s' tenant = (inventory s tenant)(ia_address a \<mapsto> pool_status (f a)) \<and> f a \<in> set (ipamAddresses s')"
proof
  have rows': "ipamAddresses s' = map (\<lambda>b. if b = a then f b else b) (ipamAddresses s)"
    unfolding rows update_where_def
  proof (rule map_cong [OF refl])
    fix b assume "b \<in> set (ipamAddresses s)"
    moreover have "distinct (map ia_id (ipamAddresses s))" using ok by (simp add: ipam_ok_def)
    ultimately have "ia_id b = ia_id a \<longleftrightarrow> b = a" using a(1) distinct_key_unique by metis
    then show "(if ia_tenant b = tenant \<and> ia_id b = ia_id a \<and> ia_status b = st then f b else b) = (if b = a then f b else b)"
      using a by auto
  qed
  then show "f a \<in> set (ipamAddresses s')" using a(1) by force
  have find: "find (\<lambda>b. ia_tenant b = tenant \<and> ia_address b = w) (map (\<lambda>b. if b = a then f b else b) bs)
     = map_option (\<lambda>b. if b = a then f b else b) (find (\<lambda>b. ia_tenant b = tenant \<and> ia_address b = w) bs)" for bs w
    using keep by (induction bs) auto
  show "inventory s' tenant = (inventory s tenant)(ia_address a \<mapsto> pool_status (f a))"
  proof
    fix w
    show "inventory s' tenant w = ((inventory s tenant)(ia_address a \<mapsto> pool_status (f a))) w"
    proof (cases "w = ia_address a")
      case True
      have "select_one (\<lambda>b. ia_tenant b = tenant \<and> ia_address b = ia_address a) (ipamAddresses s) = Some a"
        by (rule select_one_key [where k = "\<lambda>a. (ia_tenant a, ia_address a)"]) (use ok a in \<open>simp_all add: ipam_ok_def\<close>)
      with True show ?thesis by (simp add: inventory_def rows' select_one_def find)
    next
      case False
      then have "map_option pool_status (map_option (\<lambda>b. if b = a then f b else b) (find (\<lambda>b. ia_tenant b = tenant \<and> ia_address b = w) bs))
        = map_option pool_status (find (\<lambda>b. ia_tenant b = tenant \<and> ia_address b = w) bs)" for bs
        by (induction bs) auto
      with False show ?thesis by (simp add: inventory_def rows' select_one_def find)
    qed
  qed
qed

lemma inventory_append:
  "ipamAddresses s' = ipamAddresses s @ [a] \<Longrightarrow> inventory s (ia_tenant a) (ia_address a) = None \<Longrightarrow>
     inventory s' (ia_tenant a) = (inventory s (ia_tenant a))(ia_address a \<mapsto> pool_status a)"
proof
  fix w
  assume rows: "ipamAddresses s' = ipamAddresses s @ [a]" and none: "inventory s (ia_tenant a) (ia_address a) = None"
  show "inventory s' (ia_tenant a) w = ((inventory s (ia_tenant a))(ia_address a \<mapsto> pool_status a)) w"
    using none by (cases "w = ia_address a")
      (simp_all add: inventory_def rows select_one_insert_row [unfolded insert_row_def] split: option.split)
qed

subsection \<open>Properties\<close>

text \<open>C14: No sequence of operations makes the address management of a tenant inconsistent: the networks of
  its pools never overlap and contain their gateways, an address is in the inventory at most once, lies
  in the network of its pool and is never the gateway, and is bound to a customer, router or
  session or carries a lease only while it is allocated.\<close>

theorem address_management_stays_consistent:
  assumes "ipam_step\<^sup>*\<^sup>* s s'" and "ipam_ok s"
  shows "ipam_ok s'"
  using assms by (induction rule: rtranclp_induct) (auto intro: ipam_step_ok)

theorem address_management_stays_consistent_witness:
  "ipam_ok (snd (create_pool (\<lambda>_. Some \<lparr> ci_base = V4 (10 * 2 ^ 24), ci_length = 8 \<rparr>) (\<lambda>_. []) None 0 ''t''
     \<lparr> pl_name = ''lan'', pl_network = ''10.0.0.0/8'', pl_gateway = None, pl_role = None, pl_allocationMode = None, pl_vlanId = None,
       pl_description = None, pl_enabled = None \<rparr> empty_db))"
proof (rule address_management_stays_consistent)
  show "ipam_ok empty_db" by (simp add: ipam_ok_def empty_db_def pools_disjoint_def fresh_ids_def)
qed (rule r_into_rtranclp, rule step_pool, rule surjective_pairing)



end
