(* ===== verification/Payments.thy ===== *)
theory Payments
  imports DomainEvents
begin

text \<open>
  Payments (\<open>payments/payments.service.ts\<close>, \<open>payment-method.catalog.ts\<close>): the catalogue of methods, payment
  intents, the settlement of a paid payment in the double-entry ledger, and the intake of provider
  webhooks. \<open>hmac\<close>, the hexadecimal HMAC-SHA256, and \<open>secret_of\<close>, which reads a secret from the
  configuration, are parameters. Amounts are numbers: the settlement compares the texts of two \<open>numeric\<close> columns, the price
  of the purchase and the amount of the payment, and the model takes these columns to have the same scale, so that their texts are
  equal when the numbers are.
\<close>

subsection \<open>Payment methods\<close>

record payment_method =
  me_code :: string
  me_category :: string
  me_countries :: "string list"
  me_currencies :: "string list"
  me_directIntegration :: bool
  me_webhookSupported :: bool
  me_reconciliationSupported :: bool

definition pay_method :: "string \<Rightarrow> string \<Rightarrow> string list \<Rightarrow> string list \<Rightarrow> bool \<Rightarrow> bool \<Rightarrow> payment_method" where
  "pay_method code category countries currencies direct webhook =
     \<lparr> me_code = code, me_category = category, me_countries = countries, me_currencies = currencies,
       me_directIntegration = direct, me_webhookSupported = webhook, me_reconciliationSupported = True \<rparr>"

text \<open>The display columns (name, subtitle, fallback letter, tone) are left out.\<close>

definition payment_method_catalog :: "payment_method list" where
  "payment_method_catalog =
     [pay_method ''manual'' ''MANUAL'' [''TZ''] [''TZS''] True False,
      pay_method ''mpesa'' ''MOBILE_MONEY'' [''TZ''] [''TZS''] True True,
      pay_method ''airtel_money'' ''MOBILE_MONEY'' [''TZ''] [''TZS''] True True,
      pay_method ''tigopesa'' ''MOBILE_MONEY'' [''TZ''] [''TZS''] True True,
      pay_method ''halopesa'' ''MOBILE_MONEY'' [''TZ''] [''TZS''] True True,
      pay_method ''azampesa'' ''MOBILE_MONEY'' [''TZ''] [''TZS''] True True,
      pay_method ''card'' ''CARD'' [''*''] [''*''] False True,
      pay_method ''paypal'' ''WALLET'' [''*''] [''*''] True True,
      pay_method ''apple_pay'' ''WALLET'' [''*''] [''*''] False True,
      pay_method ''google_pay'' ''WALLET'' [''*''] [''*''] False True,
      pay_method ''binance_pay'' ''CRYPTO'' [''*''] [''*''] True True,
      pay_method ''bank'' ''BANK'' [''TZ''] [''TZS''] False False,
      pay_method ''upesipay'' ''WALLET'' [''KE''] [''KES''] True True]"

definition get_payment_method :: "string \<Rightarrow> payment_method option" where
  "get_payment_method code = find (\<lambda>m. me_code m = js_lower (js_trim code)) payment_method_catalog"

record method_view =
  mv_method :: payment_method
  mv_configured :: bool
  mv_enabled :: bool

text \<open>\<open>listMethods\<close>: \<open>Map\<close> keeps the last configuration of a provider.\<close>

definition list_methods :: "uuid \<Rightarrow> db \<Rightarrow> method_view list" where
  "list_methods tenant s =
     (let configured = map_of (rev (map (\<lambda>c. (js_lower (js_trim (pc_provider c)), pc_active c))
                          (select (\<lambda>c. pc_tenant c = tenant) (providerConfigs s))));
          on = (\<lambda>m. me_code m = ''manual'' \<or> configured (me_code m) = Some True)
      in map (\<lambda>m. \<lparr> mv_method = m, mv_configured = on m, mv_enabled = on m \<rparr>) payment_method_catalog)"

definition list_payments :: "uuid \<Rightarrow> db \<Rightarrow> payment list" where
  "list_payments tenant s = order_limit (\<lambda>p. - py_createdAt p) 200 (select (\<lambda>p. py_tenant p = tenant) (payments s))"

definition assert_method_can_settle :: "uuid \<Rightarrow> string \<Rightarrow> string \<Rightarrow> db \<Rightarrow> payment_method result" where
  "assert_method_can_settle tenant providerInput currency s =
     (let provider = js_lower (js_trim providerInput);
          cur = js_upper (js_trim currency)
      in case get_payment_method provider of
           None \<Rightarrow> Inl (Conflict (''Unsupported payment method: '' @ provider))
         | Some m \<Rightarrow>
             if ''*'' \<notin> set (me_currencies m) \<and> cur \<notin> set (me_currencies m)
             then Inl (Conflict (''Payment method '' @ provider @ '' does not support currency '' @ cur))
             else if provider = ''manual'' then Inr m
             else (case select_one (\<lambda>c. pc_tenant c = tenant \<and> pc_provider c = provider \<and> pc_active c) (providerConfigs s) of
                None \<Rightarrow> Inl (Conflict (''Payment method '' @ provider @ '' is not configured for this organization''))
              | Some c \<Rightarrow>
                  (case pc_currencies c of
                     Some cs \<Rightarrow>
                       if cs \<noteq> [] \<and> ''*'' \<notin> set (map js_upper cs) \<and> cur \<notin> set (map js_upper cs)
                       then Inl (Conflict (''Payment method '' @ provider @ '' is not configured for currency '' @ cur))
                       else Inr m
                   | None \<Rightarrow> Inr m)))"

subsection \<open>Payment intents\<close>

record intent_input =
  in_purchaseId :: uuid
  in_provider :: string
  in_idempotencyKey :: "string option"

record intent =
  it_id :: uuid
  it_status :: payment_status
  it_provider :: string
  it_reused :: bool

fun purchase_status_name :: "purchase_status \<Rightarrow> string" where
  "purchase_status_name PU_PENDING_PAYMENT = ''PENDING_PAYMENT''"
| "purchase_status_name PU_PAID = ''PAID''"
| "purchase_status_name PU_ACTIVE = ''ACTIVE''"
| "purchase_status_name PU_CANCELED = ''CANCELED''"
| "purchase_status_name PU_EXPIRED = ''EXPIRED''"

text \<open>The two unique indexes of the table: the key of a tenant, and one active attempt per purchase.\<close>

definition has_idempotency_key :: "uuid \<Rightarrow> string \<Rightarrow> payment \<Rightarrow> bool" where
  "has_idempotency_key tenant key p \<longleftrightarrow> py_tenant p = tenant \<and> py_idempotencyKey p = Some key"

definition active_attempt :: "uuid \<Rightarrow> uuid \<Rightarrow> payment \<Rightarrow> bool" where
  "active_attempt tenant purchase p \<longleftrightarrow>
     py_tenant p = tenant \<and> py_purchaseId p = Some purchase \<and> py_status p \<in> {PY_INITIATED, PY_PENDING, PY_AUTHORIZED}"

definition reuse_payment :: "string \<Rightarrow> string \<Rightarrow> payment \<Rightarrow> intent result" where
  "reuse_payment provider message p =
     (if py_provider p \<noteq> provider then Inl (Conflict message)
      else Inr \<lparr> it_id = py_id p, it_status = py_status p, it_provider = py_provider p, it_reused = True \<rparr>)"

definition payment_row ::
  "uuid \<Rightarrow> uuid \<Rightarrow> purchase \<Rightarrow> string \<Rightarrow> string option \<Rightarrow> payment_status \<Rightarrow> string \<Rightarrow> string option \<Rightarrow> time \<Rightarrow> payment" where
  "payment_row i tenant pu provider reference status key correlation now =
     \<lparr> py_id = i, py_tenant = tenant, py_customerId = pu_customerId pu, py_purchaseId = Some (pu_id pu), py_provider = provider,
       py_providerReference = reference, py_amount = pu_price pu, py_currency = pu_currency pu, py_status = status,
       py_idempotencyKey = Some key, py_correlationId = correlation, py_verified = False, py_verifiedAt = None,
       py_verificationSource = None, py_createdAt = now \<rparr>"

definition oldest_attempt :: "uuid \<Rightarrow> uuid \<Rightarrow> db \<Rightarrow> payment option" where
  "oldest_attempt tenant purchase s =
     (case order_limit py_createdAt 1 (select (active_attempt tenant purchase) (payments s)) of [] \<Rightarrow> None | p # _ \<Rightarrow> Some p)"

definition intent_key :: "intent_input \<Rightarrow> string" where
  "intent_key input = (case trim_or_null (in_idempotencyKey input) of Some k \<Rightarrow> k
     | None \<Rightarrow> ''intent:'' @ in_purchaseId input @ '':'' @ js_lower (js_trim (in_provider input)))"

text \<open>
  \<open>createIntent\<close>: a violation of the index on active attempts rolls back and answers with the attempt
  that is there.
\<close>

definition create_intent :: "string option \<Rightarrow> time \<Rightarrow> uuid \<Rightarrow> intent_input \<Rightarrow> (db, intent) operation" where
  "create_intent cid now tenant input s =
     (let provider = js_lower (js_trim (in_provider input));
          key = intent_key input
      in case select_one (\<lambda>p. pu_tenant p = tenant \<and> pu_id p = in_purchaseId input) (purchases s) of
           None \<Rightarrow> (Inl (NotFound ''Purchase not found''), s)
         | Some pu \<Rightarrow>
             if pu_status pu \<noteq> PU_PENDING_PAYMENT then (Inl (Conflict (''Purchase is '' @ purchase_status_name (pu_status pu))), s)
             else (case assert_method_can_settle tenant provider (pu_currency pu) s of
               Inl e \<Rightarrow> (Inl e, s)
             | Inr _ \<Rightarrow>
                 (case select_one (has_idempotency_key tenant key) (payments s) of
                    Some p \<Rightarrow> (reuse_payment provider ''Idempotency key is already bound to another provider'' p, s)
                  | None \<Rightarrow>
                      (case oldest_attempt tenant (in_purchaseId input) s of
                         Some p \<Rightarrow> (reuse_payment provider ''A pending payment already exists for another provider'' p, s)
                       | None \<Rightarrow>
                           (let correlation = or_else (or_else cid (pu_correlationId pu)) (Some (''payment-intent:'' @ in_purchaseId input));
                                row = payment_row (new_uuid s) tenant pu provider None PY_PENDING key correlation now
                            in (Inr \<lparr> it_id = py_id row, it_status = PY_PENDING, it_provider = provider, it_reused = False \<rparr>,
                                s\<lparr> next_id := next_id s + 1, payments := insert_row row (payments s) \<rparr>))))))"


subsection \<open>Settlement\<close>

definition upsert_account :: "uuid \<Rightarrow> string \<Rightarrow> string \<Rightarrow> string \<Rightarrow> string \<Rightarrow> db \<Rightarrow> uuid \<times> db" where
  "upsert_account tenant code name kind currency s =
     (case select_one (\<lambda>a. la_tenant a = tenant \<and> la_code a = code) (ledgerAccounts s) of
        Some a \<Rightarrow> (la_id a, s\<lparr> ledgerAccounts := update_where (\<lambda>a. la_tenant a = tenant \<and> la_code a = code)
                              (\<lambda>a. a\<lparr> la_name := name, la_currency := currency \<rparr>) (ledgerAccounts s) \<rparr>)
      | None \<Rightarrow> (new_uuid s, s\<lparr> next_id := next_id s + 1, ledgerAccounts := insert_row
                  \<lparr> la_id = new_uuid s, la_tenant = tenant, la_code = code, la_name = name, la_type = kind, la_currency = currency \<rparr>
                  (ledgerAccounts s) \<rparr>))"

definition lt_key :: "ledger_transaction \<Rightarrow> (uuid \<times> string \<times> string \<times> uuid) option" where
  "lt_key t = Some (lt_tenant t, lt_type t, lt_referenceType t, lt_referenceId t)"

definition put_transaction :: "ledger_transaction \<Rightarrow> db \<Rightarrow> db" where
  "put_transaction t s = s\<lparr> ledgerTransactions := insert_once lt_key t (ledgerTransactions s) \<rparr>"

interpretation ledger: keyed_journal ledgerTransactions lt_key put_transaction
  by unfold_locales (simp add: put_transaction_def)

definition wd_key :: "webhook_delivery \<Rightarrow> (uuid \<times> uuid \<times> uuid) option" where
  "wd_key d = Some (wd_tenant d, wd_endpointId d, wd_eventId d)"

definition put_delivery :: "webhook_delivery \<Rightarrow> db \<Rightarrow> db" where
  "put_delivery d s = s\<lparr> webhookDeliveries := insert_once wd_key d (webhookDeliveries s) \<rparr>"

interpretation deliveries: keyed_journal webhookDeliveries wd_key put_delivery
  by unfold_locales (simp add: put_delivery_def)

definition transaction_row :: "uuid \<Rightarrow> uuid \<Rightarrow> uuid \<Rightarrow> string option \<Rightarrow> string \<Rightarrow> ledger_transaction" where
  "transaction_row i tenant paymentId correlation provider =
     \<lparr> lt_id = i, lt_tenant = tenant, lt_type = ''PAYMENT'', lt_referenceType = ''PAYMENT'', lt_referenceId = paymentId,
       lt_correlationId = correlation, lt_description = ''Verified payment settlement via '' @ provider \<rparr>"

text \<open>The posting of the settlement: one transaction per payment, and its two entries once.\<close>

definition post_entries :: "uuid \<Rightarrow> uuid \<Rightarrow> uuid \<Rightarrow> uuid \<Rightarrow> string \<Rightarrow> rat \<Rightarrow> db \<Rightarrow> db" where
  "post_entries tenant tx cash revenue currency amount s =
     (if exists_row (\<lambda>e. le_tenant e = tenant \<and> le_transactionId e = tx) (ledgerEntries s) then s
      else s\<lparr> ledgerEntries := ledgerEntries s @
        [\<lparr> le_tenant = tenant, le_transactionId = tx, le_accountId = cash, le_currency = currency, le_debit = amount, le_credit = 0 \<rparr>,
         \<lparr> le_tenant = tenant, le_transactionId = tx, le_accountId = revenue, le_currency = currency, le_debit = 0, le_credit = amount \<rparr>] \<rparr>)"

definition transaction_of :: "uuid \<Rightarrow> uuid \<Rightarrow> db \<Rightarrow> ledger_transaction option" where
  "transaction_of tenant paymentId s =
     select_one (\<lambda>t. lt_key t = Some (tenant, ''PAYMENT'', ''PAYMENT'', paymentId)) (ledgerTransactions s)"

definition post_settlement ::
  "uuid \<Rightarrow> uuid \<Rightarrow> rat \<Rightarrow> string \<Rightarrow> string \<Rightarrow> string option \<Rightarrow> db \<Rightarrow> uuid option \<times> db" where
  "post_settlement tenant paymentId amount currency provider correlation s =
     (let (cash, s1) = upsert_account tenant (take 64 (''CASH:'' @ provider @ '':'' @ currency)) (''Settlement '' @ provider) ''ASSET'' currency s;
          (revenue, s2) = upsert_account tenant (take 64 (''REVENUE:WIFI:'' @ currency)) ''WiFi service revenue'' ''REVENUE'' currency s1;
          s3 = put_transaction (transaction_row (new_uuid s2) tenant paymentId correlation provider) (s2\<lparr> next_id := next_id s2 + 1 \<rparr>)
      in case transaction_of tenant paymentId s3 of
           None \<Rightarrow> (None, s3)
         | Some t \<Rightarrow> (Some (lt_id t), post_entries tenant (lt_id t) cash revenue currency amount s3))"

definition paid_total :: "db \<Rightarrow> uuid \<Rightarrow> uuid option \<Rightarrow> string \<Rightarrow> rat" where
  "paid_total s tenant purchase currency = sum_list (map py_amount
     (select (\<lambda>p. py_tenant p = tenant \<and> purchase \<noteq> None \<and> py_purchaseId p = purchase \<and> py_status p = PY_PAID \<and> py_currency p = currency)
        (payments s)))"

definition settle_invoice :: "db \<Rightarrow> invoice \<Rightarrow> invoice" where
  "settle_invoice s i =
     (let paid = paid_total s (iv_tenant i) (iv_purchaseId i) (iv_currency i)
      in i\<lparr> iv_amountPaid := min (iv_total i) paid,
            iv_status := (if iv_total i \<le> paid then I_PAID else if 0 < paid then I_PARTIALLY_PAID else iv_status i) \<rparr>)"

definition settle_invoices :: "uuid \<Rightarrow> uuid option \<Rightarrow> db \<Rightarrow> db" where
  "settle_invoices tenant purchase s =
     (case purchase of None \<Rightarrow> s
      | Some pu \<Rightarrow> s\<lparr> invoices := update_where (\<lambda>i. iv_tenant i = tenant \<and> iv_purchaseId i = Some pu \<and> iv_status i \<noteq> I_VOID)
                        (settle_invoice s) (invoices s) \<rparr>)"

definition settled_deliveries :: "(rat \<Rightarrow> string) \<Rightarrow> uuid \<Rightarrow> uuid \<Rightarrow> rat \<Rightarrow> string \<Rightarrow> string \<Rightarrow> db \<Rightarrow> webhook_delivery list" where
  "settled_deliveries render tenant paymentId amount currency provider s =
     map (\<lambda>e. \<lparr> wd_tenant = tenant, wd_endpointId = we_id e, wd_eventId = paymentId, wd_eventType = ''payment.settled'',
               wd_payload = jobject [(''paymentId'', Some (JStr paymentId)), (''amount'', Some (JStr (render amount))),
                 (''currency'', Some (JStr currency)), (''provider'', Some (JStr provider))] \<rparr>)
       (select (\<lambda>e. we_tenant e = tenant \<and> we_enabled e \<and> ''payment.settled'' \<in> set (we_eventTypes e)) (webhookEndpoints s))"

definition mark_settled :: "time \<Rightarrow> uuid \<Rightarrow> uuid \<Rightarrow> db \<Rightarrow> db" where
  "mark_settled now tenant paymentId s = s\<lparr> payments := update_where
     (\<lambda>p. py_tenant p = tenant \<and> py_id p = paymentId \<and> py_status p = PY_PAID)
     (\<lambda>p. p\<lparr> py_verified := True, py_verifiedAt := or_else (py_verifiedAt p) (Some now),
             py_verificationSource := or_else (py_verificationSource p) (Some ''MANUAL_SETTLEMENT'') \<rparr>) (payments s) \<rparr>"

text \<open>\<open>render\<close> prints the amount.\<close>

definition record_verified_settlement ::
  "(rat \<Rightarrow> string) \<Rightarrow> string option \<Rightarrow> time \<Rightarrow> uuid \<Rightarrow> uuid \<Rightarrow> rat \<Rightarrow> string \<Rightarrow> string \<Rightarrow> (db, uuid) operation" where
  "record_verified_settlement render cid now tenant paymentId amount currency provider s =
     (case select_one (\<lambda>p. py_tenant p = tenant \<and> py_id p = paymentId) (payments s) of
        None \<Rightarrow> (Inl (Conflict ''Only a successfully persisted payment can be settled''), s)
      | Some p \<Rightarrow>
          if py_status p \<noteq> PY_PAID then (Inl (Conflict ''Only a successfully persisted payment can be settled''), s)
          else if py_provider p \<noteq> provider then (Inl (Conflict ''Settlement provider does not match payment provider''), s)
          else if py_amount p \<noteq> amount \<or> py_currency p \<noteq> currency
          then (Inl (Conflict ''Settlement amount or currency does not match payment''), s)
          else (let correlation = or_else (or_else (py_correlationId p) cid) (Some (''payment:'' @ paymentId));
                    (tx, s1) = post_settlement tenant paymentId amount currency provider correlation (mark_settled now tenant paymentId s)
                in case tx of
                     None \<Rightarrow> (Inl (Conflict ''Verified payment settlement ledger transaction could not be created''), s1)
                   | Some t \<Rightarrow>
                       (let s2 = settle_invoices tenant (py_purchaseId p) s1
                        in (Inr t, fold put_delivery (settled_deliveries render tenant paymentId amount currency provider s2) s2))))"

subsection \<open>Webhooks\<close>

definition resolve_webhook_secret :: "(string \<Rightarrow> string option) \<Rightarrow> uuid \<Rightarrow> string \<Rightarrow> db \<Rightarrow> string result" where
  "resolve_webhook_secret secret_of tenant provider s =
     (let missing = Inl (Unauthorized ''Webhook provider is not configured'')
      in case Option.bind (select_one (\<lambda>c. pc_tenant c = tenant \<and> pc_provider c = provider \<and> pc_active c) (providerConfigs s))
              pc_webhookSecretRef of
           None \<Rightarrow> missing
         | Some r \<Rightarrow> if r = [] then missing
                     else (case secret_of r of None \<Rightarrow> missing | Some x \<Rightarrow> if x = [] then missing else Inr x))"

definition hex_digit :: "char \<Rightarrow> bool" where
  "hex_digit c \<longleftrightarrow> c \<in> set ''0123456789abcdef''"

text \<open>\<open>signature.trim().replace(/^sha256=/i, '')\<close> and the comparison of the decoded bytes.\<close>

definition supplied_signature :: "string \<Rightarrow> string" where
  "supplied_signature sig = (let t = js_trim sig in if js_lower (take 7 t) = ''sha256='' then drop 7 t else t)"

definition verify_webhook_signature :: "(string \<Rightarrow> string \<Rightarrow> string) \<Rightarrow> string \<Rightarrow> string \<Rightarrow> string option \<Rightarrow> unit result" where
  "verify_webhook_signature hmac secret body signature =
     (case signature of
        None \<Rightarrow> Inl (Unauthorized ''Missing webhook signature'')
      | Some sig \<Rightarrow>
          if sig = [] then Inl (Unauthorized ''Missing webhook signature'')
          else (let supplied = js_lower (supplied_signature sig)
                in if length supplied \<noteq> 64 \<or> \<not> list_all hex_digit supplied \<or> supplied \<noteq> hmac secret body
                   then Inl (Unauthorized ''Invalid webhook signature'') else Inr ()))"

record webhook_input =
  wi_provider :: string
  wi_providerEventId :: string
  wi_eventType :: string
  wi_status :: string
  wi_paymentId :: "uuid option"
  wi_purchaseId :: "uuid option"
  wi_providerReference :: "string option"
  wi_payload :: "json option"

record webhook_result =
  wr_duplicate :: bool
  wr_eventId :: "uuid option"
  wr_processingStatus :: string
  wr_requiresVerification :: bool
  wr_paymentId :: "uuid option"

definition pe_key :: "payment_event \<Rightarrow> (uuid \<times> string \<times> string) option" where
  "pe_key e = Some (pe_tenant e, pe_provider e, pe_providerEventId e)"

definition put_payment_event :: "payment_event \<Rightarrow> db \<Rightarrow> db" where
  "put_payment_event e s = s\<lparr> paymentEvents := insert_once pe_key e (paymentEvents s) \<rparr>"

interpretation payment_journal: keyed_journal paymentEvents pe_key put_payment_event
  by unfold_locales (simp add: put_payment_event_def)

definition payment_event_row :: "uuid \<Rightarrow> uuid \<Rightarrow> string option \<Rightarrow> webhook_input \<Rightarrow> payment_event" where
  "payment_event_row i tenant correlation input =
     \<lparr> pe_id = i, pe_tenant = tenant, pe_paymentId = wi_paymentId input, pe_provider = js_lower (js_trim (wi_provider input)),
       pe_providerEventId = js_trim (wi_providerEventId input), pe_eventType = js_trim (wi_eventType input),
       pe_payload = jobject [(''status'', Some (JStr (wi_status input))), (''paymentId'', Some (or_null JStr (wi_paymentId input))),
         (''purchaseId'', Some (or_null JStr (wi_purchaseId input))),
         (''providerReference'', Some (or_null JStr (wi_providerReference input))),
         (''providerPayload'', Some (case wi_payload input of None \<Rightarrow> JObj [] | Some j \<Rightarrow> j))],
       pe_processingStatus = ''RECEIVED'', pe_correlationId = correlation \<rparr>"

definition webhook_event :: "uuid \<Rightarrow> uuid \<Rightarrow> webhook_input \<Rightarrow> event_input" where
  "webhook_event eventId tenant input =
     (let provider = js_lower (js_trim (wi_provider input)); providerEventId = js_trim (wi_providerEventId input)
      in \<lparr> ei_tenantId = tenant, ei_eventKey = ''payment-webhook:'' @ provider @ '':'' @ providerEventId,
           ei_eventType = ''PAYMENT.WEBHOOK_RECEIVED'', ei_aggregateType = Some ''payment_event'', ei_aggregateId = Some eventId,
           ei_payload = jobject [(''provider'', Some (JStr provider)), (''providerEventId'', Some (JStr providerEventId)),
             (''eventType'', Some (JStr (js_trim (wi_eventType input)))), (''status'', Some (JStr (wi_status input))),
             (''paymentId'', Some (or_null JStr (wi_paymentId input))), (''purchaseId'', Some (or_null JStr (wi_purchaseId input))),
             (''providerReference'', Some (or_null JStr (wi_providerReference input))),
             (''providerPayload'', Some (case wi_payload input of None \<Rightarrow> JObj [] | Some j \<Rightarrow> j)),
             (''targetRoles'', Some (JArr (map JStr [''OWNER'', ''ADMIN'', ''SUPER_ADMIN'', ''BILLING_ADMIN''])))] \<rparr>)"

definition webhook_correlation :: "string option \<Rightarrow> uuid \<Rightarrow> webhook_input \<Rightarrow> db \<Rightarrow> string" where
  "webhook_correlation cid tenant input s =
     (let stored = Option.bind (wi_paymentId input) (\<lambda>i.
            Option.bind (select_one (\<lambda>p. py_tenant p = tenant \<and> py_id p = i) (payments s)) py_correlationId)
      in case or_else cid stored of Some c \<Rightarrow> c
         | None \<Rightarrow> ''payment-webhook:'' @ js_lower (js_trim (wi_provider input)) @ '':'' @ js_trim (wi_providerEventId input))"

definition duplicate_of :: "payment_event \<Rightarrow> webhook_result" where
  "duplicate_of e = \<lparr> wr_duplicate = True, wr_eventId = None, wr_processingStatus = pe_processingStatus e,
     wr_requiresVerification = (pe_processingStatus e \<noteq> ''PROCESSED''), wr_paymentId = pe_paymentId e \<rparr>"

definition webhook ::
  "(string \<Rightarrow> string option) \<Rightarrow> (string \<Rightarrow> string \<Rightarrow> string) \<Rightarrow> string option \<Rightarrow> time \<Rightarrow> uuid \<Rightarrow> webhook_input \<Rightarrow> string \<Rightarrow> string option
   \<Rightarrow> (db, webhook_result) operation" where
  "webhook secret_of hmac cid now tenant input body signature s =
     (let provider = js_lower (js_trim (wi_provider input));
          key = (tenant, provider, js_trim (wi_providerEventId input))
      in case resolve_webhook_secret secret_of tenant provider s of
           Inl e \<Rightarrow> (Inl e, s)
         | Inr secret \<Rightarrow>
             (case verify_webhook_signature hmac secret body signature of
                Inl e \<Rightarrow> (Inl e, s)
              | Inr _ \<Rightarrow>
                  if (case wi_paymentId input of None \<Rightarrow> False
                      | Some i \<Rightarrow> \<not> exists_row (\<lambda>p. py_tenant p = tenant \<and> py_id p = i \<and> py_provider p = provider) (payments s))
                  then (Inl (NotFound ''Payment not found for this tenant and provider''), s)
                  else (case select_one (\<lambda>e. pe_key e = Some key) (paymentEvents s) of
                      Some e \<Rightarrow>
                        if pe_eventType e \<noteq> js_trim (wi_eventType input)
                        then (Inl (Conflict ''Payment event identifier is already bound to a different event type''), s)
                        else (Inr (duplicate_of e), s)
                    | None \<Rightarrow>
                        (let row = payment_event_row (new_uuid s) tenant (Some (webhook_correlation cid tenant input s)) input;
                             s1 = put_payment_event row (s\<lparr> next_id := next_id s + 1 \<rparr>);
                             (_, s2) = enqueue now (webhook_event (pe_id row) tenant input) s1
                         in (Inr \<lparr> wr_duplicate = False, wr_eventId = Some (pe_id row), wr_processingStatus = ''RECEIVED'',
                                 wr_requiresVerification = True, wr_paymentId = wi_paymentId input \<rparr>, s2)))))"


subsection \<open>The ledger stays balanced\<close>

definition entries_of :: "ledger_transaction \<Rightarrow> ledger_entry list \<Rightarrow> ledger_entry list" where
  "entries_of t es = filter (\<lambda>e. le_tenant e = lt_tenant t \<and> le_transactionId e = lt_id t) es"

text \<open>No entry, or a debit and a credit of the same amount.\<close>

definition balanced :: "ledger_entry list \<Rightarrow> bool" where
  "balanced es \<longleftrightarrow> (case es of
     [] \<Rightarrow> True
   | [d, c] \<Rightarrow> le_credit d = 0 \<and> le_debit c = 0 \<and> le_debit d = le_credit c \<and> le_currency d = le_currency c
   | _ \<Rightarrow> False)"

definition entry_ok :: "db \<Rightarrow> ledger_entry \<Rightarrow> bool" where
  "entry_ok s e \<longleftrightarrow> list_ex (\<lambda>t. lt_tenant t = le_tenant e \<and> lt_id t = le_transactionId e) (ledgerTransactions s) \<and>
     list_ex (\<lambda>a. la_tenant a = le_tenant e \<and> la_id a = le_accountId e) (ledgerAccounts s)"

definition ledger_ok :: "db \<Rightarrow> bool" where
  "ledger_ok s \<longleftrightarrow> unique_key lt_key (ledgerTransactions s) \<and> distinct (map lt_id (ledgerTransactions s)) \<and>
     fresh_ids s (map lt_id (ledgerTransactions s)) \<and> list_all (entry_ok s) (ledgerEntries s) \<and>
     list_all (\<lambda>t. balanced (entries_of t (ledgerEntries s))) (ledgerTransactions s)"

lemma upsert_account_facts:
  assumes "upsert_account tenant code name kind currency s = (i, s')"
  shows "ledgerTransactions s' = ledgerTransactions s" and "ledgerEntries s' = ledgerEntries s" and "payments s' = payments s"
    and "invoices s' = invoices s" and "webhookDeliveries s' = webhookDeliveries s" and "webhookEndpoints s' = webhookEndpoints s"
    and "next_id s \<le> next_id s'"
    and "list_ex (\<lambda>a. la_tenant a = tenant \<and> la_id a = i) (ledgerAccounts s')"
    and "list_ex (\<lambda>a. la_tenant a = t \<and> la_id a = j) (ledgerAccounts s) \<Longrightarrow> list_ex (\<lambda>a. la_tenant a = t \<and> la_id a = j) (ledgerAccounts s')"
proof -
  show "ledgerTransactions s' = ledgerTransactions s" "ledgerEntries s' = ledgerEntries s" "payments s' = payments s"
    "invoices s' = invoices s" "webhookDeliveries s' = webhookDeliveries s" "webhookEndpoints s' = webhookEndpoints s"
    "next_id s \<le> next_id s'"
    using assms by (auto simp: upsert_account_def split: option.splits)
  have keep: "list_ex (\<lambda>a. la_tenant a = u \<and> la_id a = k) (ledgerAccounts s')"
    if there: "list_ex (\<lambda>a. la_tenant a = u \<and> la_id a = k) (ledgerAccounts s)" for u k
  proof (cases "select_one (\<lambda>a. la_tenant a = tenant \<and> la_code a = code) (ledgerAccounts s)")
    case None
    then show ?thesis using there assms by (auto simp: upsert_account_def list_ex_iff)
  next
    case (Some a)
    have "list_ex (\<lambda>a. la_tenant a = u \<and> la_id a = k) (update_where (\<lambda>a. la_tenant a = tenant \<and> la_code a = code)
        (\<lambda>a. a\<lparr> la_name := name, la_currency := currency \<rparr>) (ledgerAccounts s))"
      using there by (subst list_ex_update_where) simp_all
    then show ?thesis using Some assms by (auto simp: upsert_account_def)
  qed
  show "list_ex (\<lambda>a. la_tenant a = t \<and> la_id a = j) (ledgerAccounts s')"
    if "list_ex (\<lambda>a. la_tenant a = t \<and> la_id a = j) (ledgerAccounts s)"
    by (rule keep [OF that])
  show "list_ex (\<lambda>a. la_tenant a = tenant \<and> la_id a = i) (ledgerAccounts s')"
  proof (cases "select_one (\<lambda>a. la_tenant a = tenant \<and> la_code a = code) (ledgerAccounts s)")
    case None
    then show ?thesis using assms by (auto simp: upsert_account_def insert_row_def)
  next
    case (Some a)
    then have "list_ex (\<lambda>a. la_tenant a = tenant \<and> la_id a = i) (ledgerAccounts s)"
      using assms by (auto simp: upsert_account_def list_ex_iff dest!: select_one_Some)
    then show ?thesis by (rule keep)
  qed
qed

text \<open>The accounts of a tenant, by code and id.\<close>

definition has_account :: "uuid \<Rightarrow> string \<Rightarrow> uuid \<Rightarrow> db \<Rightarrow> bool" where
  "has_account tenant code i s \<longleftrightarrow> list_ex (\<lambda>a. la_tenant a = tenant \<and> la_code a = code \<and> la_id a = i) (ledgerAccounts s)"

lemma upsert_account_has:
  assumes "upsert_account tenant code name kind currency s = (i, s')"
  shows "has_account tenant code i s'" and "has_account u d j s \<Longrightarrow> has_account u d j s'"
proof -
  have keep: "has_account u d j s'" if there: "has_account u d j s" for u d j
  proof (cases "select_one (\<lambda>a. la_tenant a = tenant \<and> la_code a = code) (ledgerAccounts s)")
    case None
    then show ?thesis using there assms by (auto simp: upsert_account_def has_account_def insert_row_def)
  next
    case (Some a)
    have "list_ex (\<lambda>a. la_tenant a = u \<and> la_code a = d \<and> la_id a = j) (update_where (\<lambda>a. la_tenant a = tenant \<and> la_code a = code)
        (\<lambda>a. a\<lparr> la_name := name, la_currency := currency \<rparr>) (ledgerAccounts s))"
      using there unfolding has_account_def by (subst list_ex_update_where) simp_all
    then show ?thesis using Some assms by (auto simp: upsert_account_def has_account_def)
  qed
  show "has_account u d j s \<Longrightarrow> has_account u d j s'" by (rule keep)
  show "has_account tenant code i s'"
  proof (cases "select_one (\<lambda>a. la_tenant a = tenant \<and> la_code a = code) (ledgerAccounts s)")
    case None
    then show ?thesis using assms by (auto simp: upsert_account_def insert_row_def has_account_def)
  next
    case (Some a)
    then have "has_account tenant code i s" using assms by (auto simp: upsert_account_def has_account_def list_ex_iff dest!: select_one_Some)
    then show ?thesis by (rule keep)
  qed
qed

lemma mark_settled_frame [simp]:
  "ledgerTransactions (mark_settled now t i s) = ledgerTransactions s" "ledgerEntries (mark_settled now t i s) = ledgerEntries s"
  "ledgerAccounts (mark_settled now t i s) = ledgerAccounts s" "next_id (mark_settled now t i s) = next_id s"
  "invoices (mark_settled now t i s) = invoices s" "webhookDeliveries (mark_settled now t i s) = webhookDeliveries s"
  "webhookEndpoints (mark_settled now t i s) = webhookEndpoints s"
  by (simp_all add: mark_settled_def)

lemma settle_invoices_frame [simp]:
  "ledgerTransactions (settle_invoices t pu s) = ledgerTransactions s" "ledgerEntries (settle_invoices t pu s) = ledgerEntries s"
  "ledgerAccounts (settle_invoices t pu s) = ledgerAccounts s" "next_id (settle_invoices t pu s) = next_id s"
  "payments (settle_invoices t pu s) = payments s" "webhookDeliveries (settle_invoices t pu s) = webhookDeliveries s"
  "webhookEndpoints (settle_invoices t pu s) = webhookEndpoints s"
  by (simp_all add: settle_invoices_def split: option.split)

lemma put_deliveries_frame [simp]:
  "ledgerTransactions (fold put_delivery ds s) = ledgerTransactions s" "ledgerEntries (fold put_delivery ds s) = ledgerEntries s"
  "ledgerAccounts (fold put_delivery ds s) = ledgerAccounts s" "next_id (fold put_delivery ds s) = next_id s"
  "payments (fold put_delivery ds s) = payments s" "webhookEndpoints (fold put_delivery ds s) = webhookEndpoints s"
  "invoices (fold put_delivery ds s) = invoices s"
  by (induction ds arbitrary: s) (simp_all add: put_delivery_def)

lemma put_transaction_frame [simp]:
  "ledgerEntries (put_transaction t s) = ledgerEntries s" "ledgerAccounts (put_transaction t s) = ledgerAccounts s"
  "next_id (put_transaction t s) = next_id s" "payments (put_transaction t s) = payments s" "invoices (put_transaction t s) = invoices s"
  "webhookDeliveries (put_transaction t s) = webhookDeliveries s" "webhookEndpoints (put_transaction t s) = webhookEndpoints s"
  by (simp_all add: put_transaction_def)

lemma post_entries_frame [simp]:
  "ledgerTransactions (post_entries t x c r cur a s) = ledgerTransactions s" "ledgerAccounts (post_entries t x c r cur a s) = ledgerAccounts s"
  "next_id (post_entries t x c r cur a s) = next_id s" "payments (post_entries t x c r cur a s) = payments s"
  "invoices (post_entries t x c r cur a s) = invoices s" "webhookDeliveries (post_entries t x c r cur a s) = webhookDeliveries s"
  "webhookEndpoints (post_entries t x c r cur a s) = webhookEndpoints s"
  by (simp_all add: post_entries_def)

lemma transaction_row_key [simp]:
  "lt_key (transaction_row i tenant paymentId c provider) = Some (tenant, ''PAYMENT'', ''PAYMENT'', paymentId)"
  "lt_id (transaction_row i tenant paymentId c provider) = i" "lt_tenant (transaction_row i tenant paymentId c provider) = tenant"
  by (simp_all add: transaction_row_def lt_key_def)

text \<open>The posting, in the state after the two accounts are there.\<close>

lemma post_settlement_unfold:
  assumes "post_settlement tenant paymentId amount currency provider correlation s = (r, s')"
  obtains cash revenue s2 t where
    "ledgerTransactions s2 = ledgerTransactions s" "ledgerEntries s2 = ledgerEntries s" "next_id s \<le> next_id s2" "payments s2 = payments s"
    "invoices s2 = invoices s" "webhookDeliveries s2 = webhookDeliveries s" "webhookEndpoints s2 = webhookEndpoints s"
    "list_ex (\<lambda>a. la_tenant a = tenant \<and> la_id a = cash) (ledgerAccounts s2)"
    "list_ex (\<lambda>a. la_tenant a = tenant \<and> la_id a = revenue) (ledgerAccounts s2)"
    "\<And>u j. list_ex (\<lambda>a. la_tenant a = u \<and> la_id a = j) (ledgerAccounts s) \<Longrightarrow> list_ex (\<lambda>a. la_tenant a = u \<and> la_id a = j) (ledgerAccounts s2)"
    "transaction_of tenant paymentId (put_transaction (transaction_row (new_uuid s2) tenant paymentId correlation provider)
        (s2\<lparr> next_id := next_id s2 + 1 \<rparr>)) = Some t"
    "r = Some (lt_id t)"
    "s' = post_entries tenant (lt_id t) cash revenue currency amount
        (put_transaction (transaction_row (new_uuid s2) tenant paymentId correlation provider) (s2\<lparr> next_id := next_id s2 + 1 \<rparr>))"
proof -
  obtain cash s1 where c: "upsert_account tenant (take 64 (''CASH:'' @ provider @ '':'' @ currency)) (''Settlement '' @ provider) ''ASSET'' currency s = (cash, s1)"
    by fastforce
  obtain revenue s2 where v: "upsert_account tenant (take 64 (''REVENUE:WIFI:'' @ currency)) ''WiFi service revenue'' ''REVENUE'' currency s1 = (revenue, s2)"
    by fastforce
  note f1 = upsert_account_facts [OF c] and f2 = upsert_account_facts [OF v]
  let ?s3 = "put_transaction (transaction_row (new_uuid s2) tenant paymentId correlation provider) (s2\<lparr> next_id := next_id s2 + 1 \<rparr>)"
  obtain t where t: "transaction_of tenant paymentId ?s3 = Some t"
    unfolding transaction_of_def using has_key_select_one [OF ledger.put_has_key] transaction_row_key(1) by blast
  have "r = Some (lt_id t)" "s' = post_entries tenant (lt_id t) cash revenue currency amount ?s3"
    using assms c v t by (simp_all add: post_settlement_def)
  moreover have "next_id s \<le> next_id s2" using f1(7) f2(7) by simp
  ultimately show thesis
    using f1 f2 t by (intro that [of s2 cash revenue t]) simp_all
qed

lemma entries_of_append: "entries_of t (es @ fs) = entries_of t es @ entries_of t fs"
  by (simp add: entries_of_def)

lemma post_settlement_ok:
  assumes "post_settlement tenant paymentId amount currency provider correlation s = (r, s')" and ok: "ledger_ok s"
  shows "ledger_ok s'"
proof -
  from assms(1) obtain cash revenue s2 t where
    e: "ledgerTransactions s2 = ledgerTransactions s" "ledgerEntries s2 = ledgerEntries s" "next_id s \<le> next_id s2"
    and acc: "list_ex (\<lambda>a. la_tenant a = tenant \<and> la_id a = cash) (ledgerAccounts s2)"
      "list_ex (\<lambda>a. la_tenant a = tenant \<and> la_id a = revenue) (ledgerAccounts s2)"
    and keep: "\<And>u j. list_ex (\<lambda>a. la_tenant a = u \<and> la_id a = j) (ledgerAccounts s) \<Longrightarrow> list_ex (\<lambda>a. la_tenant a = u \<and> la_id a = j) (ledgerAccounts s2)"
    and t: "transaction_of tenant paymentId (put_transaction (transaction_row (new_uuid s2) tenant paymentId correlation provider)
        (s2\<lparr> next_id := next_id s2 + 1 \<rparr>)) = Some t"
    and s': "s' = post_entries tenant (lt_id t) cash revenue currency amount
        (put_transaction (transaction_row (new_uuid s2) tenant paymentId correlation provider) (s2\<lparr> next_id := next_id s2 + 1 \<rparr>))"
    by (rule post_settlement_unfold) blast
  define row where "row = transaction_row (new_uuid s2) tenant paymentId correlation provider"
  define s3 where "s3 = put_transaction row (s2\<lparr> next_id := next_id s2 + 1 \<rparr>)"
  have u: "unique_key lt_key (ledgerTransactions s3)"
    unfolding s3_def by (rule ledger.put_unique) (use ok e in \<open>simp add: ledger_ok_def\<close>)
  have fresh2: "fresh_ids s2 (map lt_id (ledgerTransactions s))"
    by (rule fresh_ids_mono [OF _ e(3)]) (use ok in \<open>simp add: ledger_ok_def\<close>)
  have new: "new_uuid s2 \<notin> set (map lt_id (ledgerTransactions s))" by (rule fresh_ids_new [OF fresh2])
  have rows: "ledgerTransactions s3 = ledgerTransactions s \<or> ledgerTransactions s3 = ledgerTransactions s @ [row]"
    by (auto simp: s3_def put_transaction_def insert_once_def e split: option.splits)
  have n3: "next_id s2 < next_id s3" "ledgerEntries s3 = ledgerEntries s" "ledgerAccounts s3 = ledgerAccounts s2"
    by (simp_all add: s3_def e)
  have d: "distinct (map lt_id (ledgerTransactions s3))" and f: "fresh_ids s3 (map lt_id (ledgerTransactions s3))"
    using rows ok new fresh_ids_mono [OF fresh2, of s3] fresh_ids_extend [OF fresh2 n3(1)] n3(1)
    by (auto simp: ledger_ok_def row_def)
  have old: "entry_ok s3 x" if "x \<in> set (ledgerEntries s)" for x
  proof -
    have "entry_ok s x" using ok that by (simp add: ledger_ok_def list_all_iff)
    then show ?thesis using rows keep by (auto simp: entry_ok_def n3(3))
  qed
  have bal: "balanced (entries_of q (ledgerEntries s))" if "q \<in> set (ledgerTransactions s3)" for q
  proof (cases "q \<in> set (ledgerTransactions s)")
    case True
    with ok show ?thesis by (simp add: ledger_ok_def list_all_iff)
  next
    case False
    with that rows have q: "q = row" by auto
    have "lt_id x \<noteq> new_uuid s2" if "x \<in> set (ledgerTransactions s)" for x using new that by (metis image_eqI list.set_map)
    then have "le_transactionId x \<noteq> new_uuid s2" if "x \<in> set (ledgerEntries s)" for x
      using ok that by (fastforce simp: ledger_ok_def list_all_iff entry_ok_def list_ex_iff)
    then have "entries_of q (ledgerEntries s) = []" by (simp add: entries_of_def q row_def filter_empty_conv)
    then show ?thesis by (simp add: balanced_def)
  qed
  have tm: "t \<in> set (ledgerTransactions s3)" "lt_tenant t = tenant"
    using select_one_has_key [OF t [unfolded transaction_of_def]] by (auto simp: s3_def row_def lt_key_def)
  show ?thesis
  proof (cases "exists_row (\<lambda>x. le_tenant x = tenant \<and> le_transactionId x = lt_id t) (ledgerEntries s)")
    case True
    then have "s' = s3" by (simp add: s' post_entries_def s3_def row_def e)
    then show ?thesis using u d f old bal by (simp add: ledger_ok_def n3(2) list_all_iff)
  next
    case False
    define pair where "pair =
      [\<lparr> le_tenant = tenant, le_transactionId = lt_id t, le_accountId = cash, le_currency = currency, le_debit = amount, le_credit = 0 \<rparr>,
       \<lparr> le_tenant = tenant, le_transactionId = lt_id t, le_accountId = revenue, le_currency = currency, le_debit = 0, le_credit = amount \<rparr>]"
    have s'': "s' = s3\<lparr> ledgerEntries := ledgerEntries s @ pair \<rparr>"
      using False by (simp add: s' post_entries_def s3_def row_def e pair_def)
    have "entry_ok s' x" if "x \<in> set (ledgerEntries s')" for x
    proof (cases "x \<in> set (ledgerEntries s)")
      case True
      with old show ?thesis by (simp add: s'' entry_ok_def)
    next
      case False
      with that acc tm show ?thesis by (auto simp: s'' pair_def entry_ok_def n3(3) list_ex_iff)
    qed
    moreover have "balanced (entries_of q (ledgerEntries s'))" if q: "q \<in> set (ledgerTransactions s')" for q
    proof (cases "q = t")
      case True
      have "entries_of t (ledgerEntries s) = []"
        using False tm(2) by (auto simp: entries_of_def exists_row_iff filter_empty_conv)
      then show ?thesis using True tm(2) by (simp add: s'' entries_of_append) (simp add: entries_of_def pair_def balanced_def)
    next
      case False
      then have "lt_id q \<noteq> lt_id t" using distinct_key_unique [OF d] q tm(1) by (auto simp: s'')
      then have "entries_of q pair = []" by (simp add: entries_of_def pair_def)
      moreover have "q \<in> set (ledgerTransactions s3)" using q by (simp add: s'')
      ultimately show ?thesis using bal by (simp add: s'' entries_of_append)
    qed
    ultimately show ?thesis using u d f by (simp add: ledger_ok_def s'' list_all_iff fresh_ids_def)
  qed
qed


text \<open>What the posting adds: the two entries on the two accounts, when the transaction of the payment has none.\<close>

lemma post_settlement_entries:
  assumes "post_settlement tenant paymentId amount currency provider correlation s = (r, s')"
  obtains x cash revenue where "r = Some (lt_id x)" "x \<in> set (ledgerTransactions s')" "lt_tenant x = tenant" "lt_type x = ''PAYMENT''"
    "lt_referenceId x = paymentId" "payments s' = payments s"
    "has_account tenant (take 64 (''CASH:'' @ provider @ '':'' @ currency)) cash s'" "has_account tenant (take 64 (''REVENUE:WIFI:'' @ currency)) revenue s'"
    "ledgerEntries s' = ledgerEntries s @ (if entries_of x (ledgerEntries s) = [] then
        [\<lparr> le_tenant = tenant, le_transactionId = lt_id x, le_accountId = cash, le_currency = currency, le_debit = amount, le_credit = 0 \<rparr>,
         \<lparr> le_tenant = tenant, le_transactionId = lt_id x, le_accountId = revenue, le_currency = currency, le_debit = 0, le_credit = amount \<rparr>]
      else [])"
proof -
  obtain cash s1 where c: "upsert_account tenant (take 64 (''CASH:'' @ provider @ '':'' @ currency)) (''Settlement '' @ provider) ''ASSET'' currency s = (cash, s1)"
    by fastforce
  obtain revenue s2 where v: "upsert_account tenant (take 64 (''REVENUE:WIFI:'' @ currency)) ''WiFi service revenue'' ''REVENUE'' currency s1 = (revenue, s2)"
    by fastforce
  define s3 where "s3 = put_transaction (transaction_row (new_uuid s2) tenant paymentId correlation provider) (s2\<lparr> next_id := next_id s2 + 1 \<rparr>)"
  have s3: "ledgerEntries s3 = ledgerEntries s" "ledgerAccounts s3 = ledgerAccounts s2" "payments s3 = payments s"
    using upsert_account_facts(2,3) [OF c] upsert_account_facts(2,3) [OF v] by (simp_all add: s3_def)
  obtain x where x: "transaction_of tenant paymentId s3 = Some x"
    unfolding transaction_of_def s3_def using has_key_select_one [OF ledger.put_has_key] transaction_row_key(1) by blast
  have run: "r = Some (lt_id x)" "s' = post_entries tenant (lt_id x) cash revenue currency amount s3"
    using assms c v x by (simp_all add: post_settlement_def s3_def)
  have xm: "x \<in> set (ledgerTransactions s3)" "lt_tenant x = tenant" "lt_type x = ''PAYMENT''" "lt_referenceId x = paymentId"
    using select_one_has_key [OF x [unfolded transaction_of_def]] by (auto simp: lt_key_def)
  have none: "entries_of x (ledgerEntries s) = [] \<longleftrightarrow> \<not> exists_row (\<lambda>e. le_tenant e = tenant \<and> le_transactionId e = lt_id x) (ledgerEntries s3)"
    by (auto simp: entries_of_def exists_row_iff filter_empty_conv s3(1) xm(2))
  show thesis
    by (rule that [OF run(1) _ xm(2-4)]) (use run(2) xm(1) s3 none upsert_account_has [OF c] upsert_account_has [OF v] in
      \<open>simp_all add: has_account_def, auto simp: post_entries_def\<close>)
qed

subsection \<open>Settling a payment\<close>

lemma settled_payment [simp]:
  "py_tenant (p\<lparr> py_verified := v, py_verifiedAt := a, py_verificationSource := x \<rparr>) = py_tenant p"
  by simp

lemma settle_invoice_fields [simp]:
  "iv_tenant (settle_invoice s i) = iv_tenant i" "iv_purchaseId (settle_invoice s i) = iv_purchaseId i"
  "iv_total (settle_invoice s i) = iv_total i" "iv_currency (settle_invoice s i) = iv_currency i"
  by (simp_all add: settle_invoice_def Let_def)

lemma settle_invoice_again: "settle_invoice s (settle_invoice s i) = settle_invoice s i"
  by (simp add: settle_invoice_def Let_def)

lemma settle_invoice_not_void: "iv_status i \<noteq> I_VOID \<Longrightarrow> iv_status (settle_invoice s i) \<noteq> I_VOID"
  by (simp add: settle_invoice_def Let_def)

lemma settle_invoice_payments: "payments s' = payments s \<Longrightarrow> settle_invoice s' = settle_invoice s"
  by (simp add: settle_invoice_def paid_total_def fun_eq_iff)

lemma settle_invoices_again:
  assumes "payments t = payments s" and "invoices t = invoices (settle_invoices tenant pu s)"
  shows "invoices (settle_invoices tenant pu t) = invoices (settle_invoices tenant pu s)"
proof (cases pu)
  case None
  with assms show ?thesis by (simp add: settle_invoices_def)
next
  case (Some i)
  have "update_where (\<lambda>i'. iv_tenant i' = tenant \<and> iv_purchaseId i' = Some i \<and> iv_status i' \<noteq> I_VOID) (settle_invoice s)
      (update_where (\<lambda>i'. iv_tenant i' = tenant \<and> iv_purchaseId i' = Some i \<and> iv_status i' \<noteq> I_VOID) (settle_invoice s) (invoices s)) =
    update_where (\<lambda>i'. iv_tenant i' = tenant \<and> iv_purchaseId i' = Some i \<and> iv_status i' \<noteq> I_VOID) (settle_invoice s) (invoices s)"
    by (rule update_where_idem) (simp_all add: settle_invoice_again settle_invoice_not_void)
  then show ?thesis using assms Some settle_invoice_payments [OF assms(1)] by (simp add: settle_invoices_def)
qed

lemma post_settlement_Some: "post_settlement tenant i amount currency provider correlation s = (r, s') \<Longrightarrow> \<exists>t. r = Some t"
  by (rule post_settlement_unfold, assumption) (rule exI, assumption)

lemma record_verified_settlement_cases [consumes 1, case_names refused settled]:
  assumes "record_verified_settlement render cid now tenant i amount currency provider s = (r, s')"
  obtains e where "r = Inl e" "s' = s"
    | p t s1 correlation where "select_one (\<lambda>p. py_tenant p = tenant \<and> py_id p = i) (payments s) = Some p" "py_status p = PY_PAID"
        "py_provider p = provider" "py_amount p = amount" "py_currency p = currency"
        "post_settlement tenant i amount currency provider correlation (mark_settled now tenant i s) = (Some t, s1)" "r = Inr t"
        "s' = fold put_delivery (settled_deliveries render tenant i amount currency provider (settle_invoices tenant (py_purchaseId p) s1))
                (settle_invoices tenant (py_purchaseId p) s1)"
proof (cases "select_one (\<lambda>p. py_tenant p = tenant \<and> py_id p = i) (payments s)")
  case None
  with assms have "r = Inl (Conflict ''Only a successfully persisted payment can be settled'')" "s' = s"
    by (simp_all add: record_verified_settlement_def)
  then show ?thesis by (rule that(1))
next
  case (Some p)
  show ?thesis
  proof (cases "py_status p = PY_PAID \<and> py_provider p = provider \<and> py_amount p = amount \<and> py_currency p = currency")
    case False
    with assms Some have "\<exists>e. r = Inl e" "s' = s" by (auto simp: record_verified_settlement_def split: if_splits)
    with that(1) show ?thesis by blast
  next
    case True
    let ?c = "or_else (or_else (py_correlationId p) cid) (Some (''payment:'' @ i))"
    obtain tx s1 where ps: "post_settlement tenant i amount currency provider ?c (mark_settled now tenant i s) = (tx, s1)" by fastforce
    from post_settlement_Some [OF ps] obtain t where t: "tx = Some t" ..
    show ?thesis
      by (rule that(2) [OF Some _ _ _ _ ps [unfolded t]])
        (use True assms Some ps t in \<open>simp_all add: record_verified_settlement_def Let_def\<close>)
  qed
qed

lemma ledger_ok_cong:
  assumes "ledgerTransactions t = ledgerTransactions s" "ledgerEntries t = ledgerEntries s" "ledgerAccounts t = ledgerAccounts s"
    "next_id s \<le> next_id t" and "ledger_ok s"
  shows "ledger_ok t"
proof -
  have "entry_ok t = entry_ok s" by (simp add: fun_eq_iff entry_ok_def assms)
  then show ?thesis using assms(5) fresh_ids_mono [OF _ assms(4)] by (simp add: ledger_ok_def assms(1,2))
qed

lemma mark_settled_ledger: "ledger_ok s \<Longrightarrow> ledger_ok (mark_settled now t i s)"
  by (rule ledger_ok_cong) simp_all

lemma settlement_accepted:
  assumes "record_verified_settlement render cid now tenant i amount currency provider s = (r, s')"
  shows "(\<exists>t. r = Inr t) \<longleftrightarrow> (\<exists>p. select_one (\<lambda>p. py_tenant p = tenant \<and> py_id p = i) (payments s) = Some p \<and> py_status p = PY_PAID \<and>
    py_provider p = provider \<and> py_amount p = amount \<and> py_currency p = currency)"
proof (cases "select_one (\<lambda>p. py_tenant p = tenant \<and> py_id p = i) (payments s)")
  case None
  then show ?thesis using assms by (auto simp: record_verified_settlement_def)
next
  case (Some p)
  show ?thesis
  proof (cases "py_status p = PY_PAID \<and> py_provider p = provider \<and> py_amount p = amount \<and> py_currency p = currency")
    case False
    then show ?thesis using assms Some by (auto simp: record_verified_settlement_def split: if_splits)
  next
    case True
    obtain tx s1 where ps: "post_settlement tenant i amount currency provider (or_else (or_else (py_correlationId p) cid) (Some (''payment:'' @ i)))
        (mark_settled now tenant i s) = (tx, s1)" by fastforce
    obtain t where "tx = Some t" using post_settlement_Some [OF ps] ..
    then have "r = Inr t" using assms Some True ps by (simp add: record_verified_settlement_def Let_def)
    then show ?thesis using Some True by simp
  qed
qed

text \<open>C16: settlement keeps the books: every ledger transaction has no entry or one debit and one credit of the same
  amount and currency, every entry belongs to a transaction and to an account of its tenant, and a payment has at most one
  transaction. A settlement is accepted exactly when the payment is there, is paid, and has the given provider, amount and
  currency; a refused one changes nothing. An accepted one returns the transaction of the payment, and posts to it, when it has no
  entries, exactly the amount as a debit of the cash account of the provider and as a credit of the revenue account, and
  otherwise no entry. The payment's own amount and status never change.\<close>

theorem settlement_keeps_the_books:
  assumes "ledger_ok s" and "record_verified_settlement render cid now tenant i amount currency provider s = (r, s')"
  shows "ledger_ok s' \<and> map py_amount (payments s') = map py_amount (payments s) \<and> map py_status (payments s') = map py_status (payments s) \<and>
    ((\<exists>t. r = Inr t) \<longleftrightarrow> (\<exists>p. select_one (\<lambda>p. py_tenant p = tenant \<and> py_id p = i) (payments s) = Some p \<and> py_status p = PY_PAID \<and>
       py_provider p = provider \<and> py_amount p = amount \<and> py_currency p = currency)) \<and>
    (case r of
       Inl _ \<Rightarrow> s' = s
     | Inr t \<Rightarrow> (\<exists>x cash revenue. x \<in> set (ledgerTransactions s') \<and> lt_id x = t \<and> lt_tenant x = tenant \<and> lt_type x = ''PAYMENT'' \<and>
         lt_referenceId x = i \<and> has_account tenant (take 64 (''CASH:'' @ provider @ '':'' @ currency)) cash s' \<and>
         has_account tenant (take 64 (''REVENUE:WIFI:'' @ currency)) revenue s' \<and>
         ledgerEntries s' = ledgerEntries s @ (if entries_of x (ledgerEntries s) = [] then
           [\<lparr> le_tenant = tenant, le_transactionId = t, le_accountId = cash, le_currency = currency, le_debit = amount, le_credit = 0 \<rparr>,
            \<lparr> le_tenant = tenant, le_transactionId = t, le_accountId = revenue, le_currency = currency, le_debit = 0, le_credit = amount \<rparr>]
         else [])))"
  using assms(2)
proof (cases rule: record_verified_settlement_cases)
  case refused
  with assms settlement_accepted [OF assms(2)] show ?thesis by simp
next
  case (settled p t s1 correlation)
  have ok1: "ledger_ok s1" by (rule post_settlement_ok [OF settled(6) mark_settled_ledger [OF assms(1)]])
  have same: "ledgerTransactions s' = ledgerTransactions s1" "ledgerEntries s' = ledgerEntries s1" "ledgerAccounts s' = ledgerAccounts s1"
    "payments s' = payments s1" by (simp_all add: settled(8))
  have ok: "ledger_ok s'" by (rule ledger_ok_cong [OF _ _ _ _ ok1]) (simp_all add: settled(8))
  from settled(6) obtain x cash revenue where x: "t = lt_id x" "x \<in> set (ledgerTransactions s1)" "lt_tenant x = tenant" "lt_type x = ''PAYMENT''"
    "lt_referenceId x = i" "payments s1 = payments (mark_settled now tenant i s)"
    "has_account tenant (take 64 (''CASH:'' @ provider @ '':'' @ currency)) cash s1" "has_account tenant (take 64 (''REVENUE:WIFI:'' @ currency)) revenue s1"
    "ledgerEntries s1 = ledgerEntries s @ (if entries_of x (ledgerEntries s) = [] then
        [\<lparr> le_tenant = tenant, le_transactionId = lt_id x, le_accountId = cash, le_currency = currency, le_debit = amount, le_credit = 0 \<rparr>,
         \<lparr> le_tenant = tenant, le_transactionId = lt_id x, le_accountId = revenue, le_currency = currency, le_debit = 0, le_credit = amount \<rparr>]
      else [])"
    by (rule post_settlement_entries) auto
  have pay: "map py_amount (payments s1) = map py_amount (payments s)" "map py_status (payments s1) = map py_status (payments s)"
    by (simp_all add: x(6) mark_settled_def map_update_where)
  have "has_account tenant code j s' = has_account tenant code j s1" for code j by (simp add: has_account_def same)
  then show ?thesis
    unfolding settlement_accepted [OF assms(2), symmetric] using ok pay x unfolding same settled(7) by auto
qed


lemma mark_settled_again:
  "payments t = payments (mark_settled now tenant i s) \<Longrightarrow> payments (mark_settled now' tenant i t) = payments t"
  by (simp add: mark_settled_def) (rule update_where_idem, simp_all add: or_else_def split: option.splits)

lemma settled_payment_found:
  assumes "payments t = payments (mark_settled now tenant i s)"
    and "select_one (\<lambda>p. py_tenant p = tenant \<and> py_id p = i) (payments s) = Some p"
  obtains q where "select_one (\<lambda>p. py_tenant p = tenant \<and> py_id p = i) (payments t) = Some q" "py_status q = py_status p"
    "py_provider q = py_provider p" "py_amount q = py_amount p" "py_currency q = py_currency p" "py_purchaseId q = py_purchaseId p"
proof -
  define q where "q = (if py_tenant p = tenant \<and> py_id p = i \<and> py_status p = PY_PAID
    then p\<lparr> py_verified := True, py_verifiedAt := or_else (py_verifiedAt p) (Some now),
           py_verificationSource := or_else (py_verificationSource p) (Some ''MANUAL_SETTLEMENT'') \<rparr> else p)"
  have "select_one (\<lambda>p. py_tenant p = tenant \<and> py_id p = i) (payments t) = Some q"
    using assms by (simp add: mark_settled_def select_one_update_where q_def)
  then show thesis by (rule that) (simp_all add: q_def)
qed

lemma settled_deliveries_endpoints:
  "webhookEndpoints t = webhookEndpoints s \<Longrightarrow>
     settled_deliveries render tenant i amount currency provider t = settled_deliveries render tenant i amount currency provider s"
  by (simp add: settled_deliveries_def)

text \<open>What a posting leaves: its transaction and an entry of it.\<close>

lemma post_settlement_posted:
  assumes "post_settlement tenant i amount currency provider correlation s = (Some t, s')"
  obtains x where "transaction_of tenant i s' = Some x" "t = lt_id x"
    "exists_row (\<lambda>e. le_tenant e = tenant \<and> le_transactionId e = t) (ledgerEntries s')"
    "payments s' = payments s" "invoices s' = invoices s" "webhookDeliveries s' = webhookDeliveries s" "webhookEndpoints s' = webhookEndpoints s"
proof -
  from assms obtain cash revenue s2 x where
    f: "payments s2 = payments s" "invoices s2 = invoices s" "webhookDeliveries s2 = webhookDeliveries s" "webhookEndpoints s2 = webhookEndpoints s"
    and x: "transaction_of tenant i (put_transaction (transaction_row (new_uuid s2) tenant i correlation provider)
        (s2\<lparr> next_id := next_id s2 + 1 \<rparr>)) = Some x" "t = lt_id x"
    and s': "s' = post_entries tenant (lt_id x) cash revenue currency amount
        (put_transaction (transaction_row (new_uuid s2) tenant i correlation provider) (s2\<lparr> next_id := next_id s2 + 1 \<rparr>))"
    by (rule post_settlement_unfold) auto
  show thesis
  proof (rule that)
    show "transaction_of tenant i s' = Some x" using x(1) by (simp add: s' transaction_of_def)
    show "exists_row (\<lambda>e. le_tenant e = tenant \<and> le_transactionId e = t) (ledgerEntries s')"
      by (auto simp: s' x(2) post_entries_def exists_row_def)
  qed (simp_all add: s' f x(2))
qed

lemma post_settlement_again:
  assumes "transaction_of tenant i s = Some x" and "exists_row (\<lambda>e. le_tenant e = tenant \<and> le_transactionId e = lt_id x) (ledgerEntries s)"
    and "post_settlement tenant i amount currency provider correlation s = (r, s')"
  shows "r = Some (lt_id x)" and "ledgerTransactions s' = ledgerTransactions s" and "ledgerEntries s' = ledgerEntries s"
    and "payments s' = payments s" "invoices s' = invoices s" "webhookDeliveries s' = webhookDeliveries s" "webhookEndpoints s' = webhookEndpoints s"
proof -
  from assms(3) obtain cash revenue s2 y where
    f: "ledgerTransactions s2 = ledgerTransactions s" "ledgerEntries s2 = ledgerEntries s" "payments s2 = payments s" "invoices s2 = invoices s"
      "webhookDeliveries s2 = webhookDeliveries s" "webhookEndpoints s2 = webhookEndpoints s"
    and y: "transaction_of tenant i (put_transaction (transaction_row (new_uuid s2) tenant i correlation provider)
        (s2\<lparr> next_id := next_id s2 + 1 \<rparr>)) = Some y" "r = Some (lt_id y)"
    and s': "s' = post_entries tenant (lt_id y) cash revenue currency amount
        (put_transaction (transaction_row (new_uuid s2) tenant i correlation provider) (s2\<lparr> next_id := next_id s2 + 1 \<rparr>))"
    by (rule post_settlement_unfold) auto
  have x: "x \<in> set (ledgerTransactions s)" "lt_key x = Some (tenant, ''PAYMENT'', ''PAYMENT'', i)"
    using select_one_has_key [OF assms(1) [unfolded transaction_of_def]] by simp_all
  have t: "ledgerTransactions (put_transaction (transaction_row (new_uuid s2) tenant i correlation provider) (s2\<lparr> next_id := next_id s2 + 1 \<rparr>)) =
      ledgerTransactions s"
    by (rule trans [OF ledger.put_first_wins [OF _ x(2) transaction_row_key(1)]]) (simp_all add: x(1) f(1))
  then have "y = x" using y(1) assms(1) by (simp add: transaction_of_def)
  with y(2) show "r = Some (lt_id x)" by simp
  show "ledgerTransactions s' = ledgerTransactions s" unfolding s' by (simp only: post_entries_frame t)
  show "ledgerEntries s' = ledgerEntries s" using assms(2) by (simp add: s' \<open>y = x\<close> post_entries_def f(2))
  show "payments s' = payments s" "invoices s' = invoices s" "webhookDeliveries s' = webhookDeliveries s" "webhookEndpoints s' = webhookEndpoints s"
    by (simp_all add: s' f)
qed

text \<open>C17: a settlement is idempotent: recording it again, whenever and under whatever correlation, answers with the same
  ledger transaction and leaves transactions, entries, payments, invoices and webhook deliveries as they are.\<close>

theorem settling_again_posts_nothing:
  assumes "record_verified_settlement render cid now tenant i amount currency provider s = (Inr t, s1)"
  shows "case record_verified_settlement render cid' now' tenant i amount currency provider s1 of
      (Inl _, _) \<Rightarrow> False
    | (Inr t', s2) \<Rightarrow> t' = t \<and> ledgerTransactions s2 = ledgerTransactions s1 \<and> ledgerEntries s2 = ledgerEntries s1 \<and>
        payments s2 = payments s1 \<and> invoices s2 = invoices s1 \<and> webhookDeliveries s2 = webhookDeliveries s1"
  using assms
proof (cases rule: record_verified_settlement_cases)
  case refused
  then show ?thesis by simp
next
  case (settled p t0 s0 correlation)
  from settled(7) have [simp]: "t0 = t" by simp
  note s1 = settled(8)
  from settled(6) obtain x where x: "transaction_of tenant i s0 = Some x" "t0 = lt_id x"
    "exists_row (\<lambda>e. le_tenant e = tenant \<and> le_transactionId e = t0) (ledgerEntries s0)"
    and f: "payments s0 = payments (mark_settled now tenant i s)" "invoices s0 = invoices s"
    by (rule post_settlement_posted) auto
  have pay: "payments s1 = payments (mark_settled now tenant i s)" by (simp add: settled(8) f)
  obtain q where q: "select_one (\<lambda>p. py_tenant p = tenant \<and> py_id p = i) (payments s1) = Some q" "py_status q = PY_PAID"
    "py_provider q = provider" "py_amount q = amount" "py_currency q = currency" "py_purchaseId q = py_purchaseId p"
    by (rule settled_payment_found [OF pay settled(1)]) (auto simp: settled(2-5))
  obtain r s2 where again: "record_verified_settlement render cid' now' tenant i amount currency provider s1 = (r, s2)" by fastforce
  let ?m = "mark_settled now' tenant i s1"
  have mp: "payments ?m = payments s1" by (rule mark_settled_again [OF pay])
  have tm: "transaction_of tenant i ?m = Some x" using x(1) by (simp add: transaction_of_def settled(8))
  have em: "exists_row (\<lambda>e. le_tenant e = tenant \<and> le_transactionId e = lt_id x) (ledgerEntries ?m)"
    using x(2,3) by (simp add: settled(8))
  from again show ?thesis
  proof (cases rule: record_verified_settlement_cases)
    case refused
    obtain u s3 where "post_settlement tenant i amount currency provider (or_else (or_else (py_correlationId q) cid') (Some (''payment:'' @ i))) ?m = (u, s3)"
      by fastforce
    with post_settlement_again(1) [OF tm em this] q again refused show ?thesis
      by (simp add: record_verified_settlement_def Let_def)
  next
    case (settled p' t' s0' correlation')
    note f' = post_settlement_again [OF tm em settled(6)]
    from q(1) settled(1) have [simp]: "p' = q" by simp
    let ?inv = "settle_invoices tenant (py_purchaseId p)"
    have "invoices (?inv s0') = invoices (?inv s0)"
      by (rule settle_invoices_again) (simp_all add: f'(4,5) mp, simp_all add: s1)
    moreover have "webhookDeliveries s2 = webhookDeliveries s1"
      unfolding settled(8)
    proof (rule trans [OF deliveries.puts_present])
      fix d assume "d \<in> set (settled_deliveries render tenant i amount currency provider (settle_invoices tenant (py_purchaseId p') s0'))"
      then have "d \<in> set (settled_deliveries render tenant i amount currency provider (?inv s0))"
        using settled_deliveries_endpoints [of "settle_invoices tenant (py_purchaseId p') s0'" "?inv s0"] by (simp add: f'(7) s1)
      then show "\<exists>k. wd_key d = Some k \<and> has_key wd_key k (webhookDeliveries (settle_invoices tenant (py_purchaseId p') s0'))"
        using deliveries.puts_has_key [of d _ _ "?inv s0"] by (simp add: f'(6) s1 wd_key_def)
    qed (simp add: f'(6))
    ultimately show ?thesis using f' again mp x(2) q(6)
      by (simp add: settled(7,8)) (simp add: s1)
  qed
qed


subsection \<open>Webhooks and intents\<close>

lemma webhook_cases [consumes 1, case_names refused known recorded]:
  assumes "webhook secret_of hmac cid now tenant input body signature s = (r, s')"
  obtains e where "r = Inl e" "s' = s"
    | e where "select_one (\<lambda>e. pe_key e = Some (tenant, js_lower (js_trim (wi_provider input)), js_trim (wi_providerEventId input))) (paymentEvents s) = Some e"
        "pe_eventType e = js_trim (wi_eventType input)" "s' = s"
        "r = Inr (duplicate_of e)"
        "\<exists>secret. resolve_webhook_secret secret_of tenant (js_lower (js_trim (wi_provider input))) s = Inr secret \<and>
           verify_webhook_signature hmac secret body signature = Inr ()"
        "case wi_paymentId input of None \<Rightarrow> True | Some i \<Rightarrow>
           exists_row (\<lambda>p. py_tenant p = tenant \<and> py_id p = i \<and> py_provider p = js_lower (js_trim (wi_provider input))) (payments s)"
    | row where "row = payment_event_row (new_uuid s) tenant (Some (webhook_correlation cid tenant input s)) input"
        "select_one (\<lambda>e. pe_key e = Some (tenant, js_lower (js_trim (wi_provider input)), js_trim (wi_providerEventId input))) (paymentEvents s) = None"
        "s' = snd (enqueue now (webhook_event (pe_id row) tenant input) (put_payment_event row (s\<lparr> next_id := next_id s + 1 \<rparr>)))"
        "r = Inr \<lparr> wr_duplicate = False, wr_eventId = Some (pe_id row), wr_processingStatus = ''RECEIVED'',
               wr_requiresVerification = True, wr_paymentId = wi_paymentId input \<rparr>"
        "\<exists>secret. resolve_webhook_secret secret_of tenant (js_lower (js_trim (wi_provider input))) s = Inr secret \<and>
           verify_webhook_signature hmac secret body signature = Inr ()"
        "case wi_paymentId input of None \<Rightarrow> True | Some i \<Rightarrow>
           exists_row (\<lambda>p. py_tenant p = tenant \<and> py_id p = i \<and> py_provider p = js_lower (js_trim (wi_provider input))) (payments s)"
proof -
  let ?provider = "js_lower (js_trim (wi_provider input))"
  let ?found = "select_one (\<lambda>e. pe_key e = Some (tenant, ?provider, js_trim (wi_providerEventId input))) (paymentEvents s)"
  let ?unknown = "case wi_paymentId input of None \<Rightarrow> False
    | Some i \<Rightarrow> \<not> exists_row (\<lambda>p. py_tenant p = tenant \<and> py_id p = i \<and> py_provider p = ?provider) (payments s)"
  note def = assms [unfolded webhook_def Let_def]
  show thesis
  proof (cases "resolve_webhook_secret secret_of tenant ?provider s")
    case (Inl e)
    with def have "r = Inl e" "s' = s" by simp_all
    then show ?thesis by (rule that(1))
  next
    case (Inr secret)
    show ?thesis
    proof (cases "verify_webhook_signature hmac secret body signature")
      case (Inl e)
      with def Inr have "r = Inl e" "s' = s" by simp_all
      then show ?thesis by (rule that(1))
    next
      case verified: (Inr u)
      then have signed: "\<exists>secret. resolve_webhook_secret secret_of tenant ?provider s = Inr secret \<and>
          verify_webhook_signature hmac secret body signature = Inr ()" using Inr by simp
      show ?thesis
      proof (cases ?unknown)
        case True
        with def Inr verified have "\<exists>e. r = Inl e" "s' = s" by auto
        then show ?thesis using that(1) by blast
      next
        case False
        show ?thesis
        proof (cases ?found)
          case (Some e)
          show ?thesis
          proof (cases "pe_eventType e = js_trim (wi_eventType input)")
            case True
            show ?thesis by (rule that(2) [OF Some True _ _ signed]) (use def Inr verified False Some True in \<open>simp_all split: option.splits\<close>)
          next
            case False': False
            with def Inr verified False Some have "\<exists>e. r = Inl e" "s' = s" by auto
            then show ?thesis using that(1) by blast
          qed
        next
          case None
          show ?thesis
            by (rule that(3) [OF refl None _ _ signed])
              (use def Inr verified False None in \<open>auto simp: case_prod_beta split: option.splits\<close>)
        qed
      qed
    qed
  qed
qed

lemma enqueue_frame:
  assumes "enqueue now e s = (r, s')"
  shows "payments s' = payments s" "purchases s' = purchases s" "paymentEvents s' = paymentEvents s" "accessGrants s' = accessGrants s"
    "ledgerTransactions s' = ledgerTransactions s" "ledgerEntries s' = ledgerEntries s" "invoices s' = invoices s"
    "ledgerAccounts s' = ledgerAccounts s" "promoRedemptions s' = promoRedemptions s" "promoCodes s' = promoCodes s"
    "packages s' = packages s" "customers s' = customers s" "vouchers s' = vouchers s" "providerConfigs s' = providerConfigs s"
    "next_id s \<le> next_id s'"
  using assms by (auto simp: enqueue_def Let_def put_event_def)

lemma payment_event_row_sel [simp]:
  "pe_key (payment_event_row i tenant c input) = Some (tenant, js_lower (js_trim (wi_provider input)), js_trim (wi_providerEventId input))"
  "pe_eventType (payment_event_row i tenant c input) = js_trim (wi_eventType input)" "pe_id (payment_event_row i tenant c input) = i"
  by (simp_all add: payment_event_row_def pe_key_def)

lemma webhook_known:
  assumes "resolve_webhook_secret secret_of tenant (js_lower (js_trim (wi_provider input))) s = Inr secret"
    and "verify_webhook_signature hmac secret body signature = Inr ()"
    and "case wi_paymentId input of None \<Rightarrow> True | Some i \<Rightarrow>
           exists_row (\<lambda>p. py_tenant p = tenant \<and> py_id p = i \<and> py_provider p = js_lower (js_trim (wi_provider input))) (payments s)"
    and "select_one (\<lambda>e. pe_key e = Some (tenant, js_lower (js_trim (wi_provider input)), js_trim (wi_providerEventId input))) (paymentEvents s) = Some e"
    and "pe_eventType e = js_trim (wi_eventType input)"
  shows "webhook secret_of hmac cid now tenant input body signature s =
    (Inr (duplicate_of e), s)"
  using assms by (simp add: webhook_def Let_def split: option.splits)

lemma verified_signature:
  "verify_webhook_signature hmac secret body signature = Inr () \<Longrightarrow> \<exists>sig. signature = Some sig \<and> js_lower (supplied_signature sig) = hmac secret body"
  by (auto simp: verify_webhook_signature_def Let_def split: option.splits if_splits)

text \<open>C18: a webhook only records: without a configured secret and the right signature over the body nothing changes, whatever
  arrives no payment, purchase, access grant or ledger entry changes, and the event identifiers of a tenant and provider
  stay unique. Delivering the same event again, at any time, answers with a duplicate and changes nothing.\<close>

theorem webhooks_record_once:
  assumes "unique_key pe_key (paymentEvents s)" and "webhook secret_of hmac cid now tenant input body signature s = (r, s')"
  shows "unique_key pe_key (paymentEvents s') \<and> payments s' = payments s \<and> purchases s' = purchases s \<and> accessGrants s' = accessGrants s \<and>
    ledgerEntries s' = ledgerEntries s \<and>
    (case r of Inl _ \<Rightarrow> s' = s
     | Inr w \<Rightarrow>
         (\<exists>secret sig. resolve_webhook_secret secret_of tenant (js_lower (js_trim (wi_provider input))) s = Inr secret \<and>
            signature = Some sig \<and> js_lower (supplied_signature sig) = hmac secret body) \<and>
         (\<exists>e. webhook secret_of hmac cid' now' tenant input body signature s' =
            (Inr (duplicate_of e), s')))"
  using assms(2)
proof (cases rule: webhook_cases)
  case refused
  with assms(1) show ?thesis by simp
next
  case (known e)
  from known(5) obtain secret where sec: "resolve_webhook_secret secret_of tenant (js_lower (js_trim (wi_provider input))) s = Inr secret"
    "verify_webhook_signature hmac secret body signature = Inr ()" by blast
  have "webhook secret_of hmac cid' now' tenant input body signature s =
      (Inr (duplicate_of e), s)"
    by (rule webhook_known [OF sec known(6) known(1,2)])
  with verified_signature [OF sec(2)] sec(1) show ?thesis using assms(1) known(3,4) by auto
next
  case (recorded row)
  from recorded(5) obtain secret where sec: "resolve_webhook_secret secret_of tenant (js_lower (js_trim (wi_provider input))) s = Inr secret"
    "verify_webhook_signature hmac secret body signature = Inr ()" by blast
  let ?s1 = "put_payment_event row (s\<lparr> next_id := next_id s + 1 \<rparr>)"
  obtain u s2 where en: "enqueue now (webhook_event (pe_id row) tenant input) ?s1 = (u, s2)" by fastforce
  then have s': "s' = s2" using recorded(3) by simp
  note f = enqueue_frame [OF en]
  have ev: "paymentEvents s' = insert_row row (paymentEvents s)"
    using recorded(1,2) by (simp add: s' f put_payment_event_def insert_once_def select_one_key_None insert_row_def)
  have found: "select_one (\<lambda>e. pe_key e = Some (tenant, js_lower (js_trim (wi_provider input)), js_trim (wi_providerEventId input))) (paymentEvents s')
      = Some row"
    using recorded(1,2) by (simp add: ev select_one_insert_row)
  have fr: "payments s' = payments s" "purchases s' = purchases s" "accessGrants s' = accessGrants s" "ledgerEntries s' = ledgerEntries s"
    "providerConfigs s' = providerConfigs s"
    by (simp_all add: s' f put_payment_event_def)
  have u: "unique_key pe_key (paymentEvents s')"
    using payment_journal.put_unique [of "s\<lparr> next_id := next_id s + 1 \<rparr>" row] assms(1) by (simp add: s' f)
  have sec': "resolve_webhook_secret secret_of tenant (js_lower (js_trim (wi_provider input))) s' = Inr secret"
    using sec(1) by (simp add: resolve_webhook_secret_def fr)
  have "webhook secret_of hmac cid' now' tenant input body signature s' =
      (Inr (duplicate_of row), s')"
    by (rule webhook_known [OF sec' sec(2) _ found]) (use recorded(1,6) fr(1) in \<open>simp_all split: option.splits\<close>)
  then show ?thesis using verified_signature [OF sec(2)] sec(1) u fr recorded(4) by auto
qed


definition attempt_key :: "payment \<Rightarrow> (uuid \<times> uuid) option" where
  "attempt_key p = (if py_status p \<in> {PY_INITIATED, PY_PENDING, PY_AUTHORIZED} then map_option (Pair (py_tenant p)) (py_purchaseId p) else None)"

definition idempotency_key :: "payment \<Rightarrow> (uuid \<times> string) option" where
  "idempotency_key p = map_option (Pair (py_tenant p)) (py_idempotencyKey p)"

text \<open>What the unique indexes of the table guarantee.\<close>

definition payments_ok :: "db \<Rightarrow> bool" where
  "payments_ok s \<longleftrightarrow> unique_key attempt_key (payments s) \<and> unique_key idempotency_key (payments s)"

lemma active_attempt_key: "active_attempt tenant i p \<longleftrightarrow> attempt_key p = Some (tenant, i)"
  by (auto simp: active_attempt_def attempt_key_def)

lemma has_idempotency_key_key: "has_idempotency_key tenant k p \<longleftrightarrow> idempotency_key p = Some (tenant, k)"
  by (auto simp: has_idempotency_key_def idempotency_key_def)

lemma oldest_attempt_None: "oldest_attempt tenant i s = None \<Longrightarrow> \<not> has_key attempt_key (tenant, i) (payments s)"
proof
  assume none: "oldest_attempt tenant i s = None" and "has_key attempt_key (tenant, i) (payments s)"
  then obtain p where "p \<in> set (payments s)" "active_attempt tenant i p" by (auto simp: has_key_iff active_attempt_key)
  then have "sort_key py_createdAt (select (active_attempt tenant i) (payments s)) \<noteq> []"
    by (metis in_select list.set(1) empty_iff set_sort)
  then show False using none by (cases "sort_key py_createdAt (select (active_attempt tenant i) (payments s))")
    (simp_all add: oldest_attempt_def order_limit_def)
qed

lemma create_intent_cases [consumes 1, case_names refused reused created]:
  assumes "create_intent cid now tenant input s = (r, s')"
  obtains e where "r = Inl e" "s' = s"
    | p :: payment where "s' = s" "r = Inr \<lparr> it_id = py_id p, it_status = py_status p, it_provider = py_provider p, it_reused = True \<rparr>"
        "py_provider p = js_lower (js_trim (in_provider input))" "\<And>cid now. create_intent cid now tenant input s = (r, s)"
    | pu row where "select_one (\<lambda>p. pu_tenant p = tenant \<and> pu_id p = in_purchaseId input) (purchases s) = Some pu" "pu_status pu = PU_PENDING_PAYMENT"
        "\<exists>m. assert_method_can_settle tenant (js_lower (js_trim (in_provider input))) (pu_currency pu) s = Inr m"
        "select_one (has_idempotency_key tenant (intent_key input)) (payments s) = None" "oldest_attempt tenant (in_purchaseId input) s = None"
        "row = payment_row (new_uuid s) tenant pu (js_lower (js_trim (in_provider input))) None PY_PENDING (intent_key input)
           (or_else (or_else cid (pu_correlationId pu)) (Some (''payment-intent:'' @ in_purchaseId input))) now"
        "s' = s\<lparr> next_id := next_id s + 1, payments := insert_row row (payments s) \<rparr>"
        "r = Inr \<lparr> it_id = py_id row, it_status = PY_PENDING, it_provider = js_lower (js_trim (in_provider input)), it_reused = False \<rparr>"
proof -
  let ?provider = "js_lower (js_trim (in_provider input))"
  note outer = that
  have def: "create_intent cid now tenant input s =
     (case select_one (\<lambda>p. pu_tenant p = tenant \<and> pu_id p = in_purchaseId input) (purchases s) of
        None \<Rightarrow> (Inl (NotFound ''Purchase not found''), s)
      | Some pu \<Rightarrow>
          if pu_status pu \<noteq> PU_PENDING_PAYMENT then (Inl (Conflict (''Purchase is '' @ purchase_status_name (pu_status pu))), s)
          else (case assert_method_can_settle tenant ?provider (pu_currency pu) s of
            Inl e \<Rightarrow> (Inl e, s)
          | Inr _ \<Rightarrow>
              (case select_one (has_idempotency_key tenant (intent_key input)) (payments s) of
                 Some p \<Rightarrow> (reuse_payment ?provider ''Idempotency key is already bound to another provider'' p, s)
               | None \<Rightarrow>
                   (case oldest_attempt tenant (in_purchaseId input) s of
                      Some p \<Rightarrow> (reuse_payment ?provider ''A pending payment already exists for another provider'' p, s)
                    | None \<Rightarrow>
                        (let row = payment_row (new_uuid s) tenant pu ?provider None PY_PENDING (intent_key input)
                               (or_else (or_else cid (pu_correlationId pu)) (Some (''payment-intent:'' @ in_purchaseId input))) now
                         in (Inr \<lparr> it_id = py_id row, it_status = PY_PENDING, it_provider = ?provider, it_reused = False \<rparr>,
                             s\<lparr> next_id := next_id s + 1, payments := insert_row row (payments s) \<rparr>))))))" for cid now
    by (simp only: create_intent_def Let_def)
  show thesis
  proof (cases "select_one (\<lambda>p. pu_tenant p = tenant \<and> pu_id p = in_purchaseId input) (purchases s)")
    case None
    with assms have "\<exists>e. r = Inl e" "s' = s" by (auto simp: def)
    then show ?thesis using that(1) by blast
  next
    case pu: (Some pu)
    show ?thesis
    proof (cases "pu_status pu = PU_PENDING_PAYMENT \<and> (\<exists>m. assert_method_can_settle tenant ?provider (pu_currency pu) s = Inr m)")
      case False
      with assms pu have "\<exists>e. r = Inl e" "s' = s" by (auto simp: def split: if_splits sum.splits)
      then show ?thesis using that(1) by blast
    next
      case True
      then obtain m where m: "pu_status pu = PU_PENDING_PAYMENT" "assert_method_can_settle tenant ?provider (pu_currency pu) s = Inr m" by blast
      have reuse: ?thesis if c: "\<And>cid now. create_intent cid now tenant input s = (reuse_payment ?provider message p, s)" for message p
      proof (cases "py_provider p = ?provider")
        case True
        with assms c show ?thesis by (intro outer(2) [of p]) (simp_all add: reuse_payment_def)
      next
        case False
        with assms c have "\<exists>e. r = Inl e" "s' = s" by (auto simp: reuse_payment_def)
        then show ?thesis using outer(1) by blast
      qed
      show ?thesis
      proof (cases "select_one (has_idempotency_key tenant (intent_key input)) (payments s)")
        case (Some p)
        show ?thesis by (rule reuse) (simp add: def pu m Some)
      next
        case None
        show ?thesis
        proof (cases "oldest_attempt tenant (in_purchaseId input) s")
          case (Some p)
          show ?thesis by (rule reuse) (simp add: def pu m Some None)
        next
          case fresh: None
          show ?thesis
            by (rule that(3) [OF pu m(1) _ None fresh refl]) (use assms in \<open>simp_all add: def pu m None fresh Let_def\<close>)
        qed
      qed
    qed
  qed
qed

lemma payment_row_sel [simp]:
  "py_id (payment_row i t pu pr ref st k c now) = i" "py_tenant (payment_row i t pu pr ref st k c now) = t"
  "py_purchaseId (payment_row i t pu pr ref st k c now) = Some (pu_id pu)" "py_provider (payment_row i t pu pr ref st k c now) = pr"
  "py_amount (payment_row i t pu pr ref st k c now) = pu_price pu" "py_currency (payment_row i t pu pr ref st k c now) = pu_currency pu"
  "py_status (payment_row i t pu pr ref st k c now) = st" "py_idempotencyKey (payment_row i t pu pr ref st k c now) = Some k"
  "py_customerId (payment_row i t pu pr ref st k c now) = pu_customerId pu"
  by (simp_all add: payment_row_def)

text \<open>Payment intents: a request that succeeds either answers with a payment of the same provider that is there, changing
  nothing, or adds one pending payment over the purchase's price; repeating it, whenever, answers with the same payment;
  the keys of a tenant stay unique and no purchase ever has two payment attempts under way.\<close>

theorem payment_intents_are_idempotent:
  assumes "payments_ok s" and "create_intent cid now tenant input s = (r, s')"
  shows "payments_ok s' \<and> (case r of Inl _ \<Rightarrow> s' = s
     | Inr i \<Rightarrow> create_intent cid' now' tenant input s' = (Inr (i\<lparr> it_reused := True \<rparr>), s') \<and>
         it_provider i = js_lower (js_trim (in_provider input)) \<and>
         (if it_reused i then s' = s
          else (\<exists>p pu. payments s' = payments s @ [p] \<and> py_id p = it_id i \<and> py_status p = PY_PENDING \<and>
                 pu \<in> set (purchases s) \<and> pu_tenant pu = tenant \<and> pu_id pu = in_purchaseId input \<and>
                 py_purchaseId p = Some (pu_id pu) \<and> py_amount p = pu_price pu)))"
  using assms(2)
proof (cases rule: create_intent_cases)
  case refused
  with assms(1) show ?thesis by simp
next
  case (reused p)
  with assms(1) show ?thesis by simp
next
  case (created pu row)
  from created(3) obtain m where m: "assert_method_can_settle tenant (js_lower (js_trim (in_provider input))) (pu_currency pu) s = Inr m" by blast
  have pu: "pu \<in> set (purchases s)" "pu_tenant pu = tenant" "pu_id pu = in_purchaseId input"
    using select_one_Some [OF created(1)] by simp_all
  have key: "attempt_key row = Some (tenant, in_purchaseId input)" "idempotency_key row = Some (tenant, intent_key input)"
    by (simp_all add: created(6) attempt_key_def idempotency_key_def pu)
  have absent: "\<not> has_key idempotency_key (tenant, intent_key input) (payments s)"
    using created(4) by (simp add: select_one_None has_key_iff has_idempotency_key_key)
  have rows: "payments s' = payments s @ [row]" by (simp add: created(7) insert_row_def)
  have ok: "payments_ok s'"
    unfolding payments_ok_def rows
    using assms(1) key absent oldest_attempt_None [OF created(5)]
    by (intro conjI unique_key_append_one) (simp_all add: payments_ok_def)
  have "providerConfigs s' = providerConfigs s" by (simp add: created(7))
  then have "assert_method_can_settle t n c s' = assert_method_can_settle t n c s" for t n c
    by (simp only: assert_method_can_settle_def)
  then have same: "assert_method_can_settle tenant (js_lower (js_trim (in_provider input))) (pu_currency pu) s' = Inr m" "purchases s' = purchases s"
    using m by (simp_all add: created(7))
  have "has_idempotency_key tenant (intent_key input) row" by (simp add: has_idempotency_key_key key)
  then have found: "select_one (has_idempotency_key tenant (intent_key input)) (payments s') = Some row"
    using created(4) by (simp add: created(7) select_one_insert_row)
  have "create_intent cid' now' tenant input s' = (Inr \<lparr> it_id = py_id row, it_status = PY_PENDING,
      it_provider = js_lower (js_trim (in_provider input)), it_reused = True \<rparr>, s')"
    using created(1,2) same found created(6)
    by (simp add: create_intent_def Let_def reuse_payment_def)
  then show ?thesis using ok rows pu created(6) by (auto simp: created(8))
qed


subsection \<open>The theorems at work\<close>

definition example_paid :: payment where
  "example_paid = \<lparr> py_id = ''p'', py_tenant = ''t'', py_customerId = ''c'', py_purchaseId = Some ''u'', py_provider = ''manual'',
     py_providerReference = None, py_amount = 500, py_currency = ''TZS'', py_status = PY_PAID, py_idempotencyKey = None,
     py_correlationId = None, py_verified = False, py_verifiedAt = None, py_verificationSource = None, py_createdAt = 0 \<rparr>"

definition example_pending_purchase :: purchase where
  "example_pending_purchase = \<lparr> pu_id = ''u'', pu_tenant = ''t'', pu_customerId = ''c'', pu_packageId = ''k'', pu_routerId = None, pu_price = 500,
     pu_currency = ''TZS'', pu_discountAmount = 0, pu_promoCodeId = None, pu_status = PU_PENDING_PAYMENT, pu_startsAt = None,
     pu_endsAt = None, pu_correlationId = None, pu_createdAt = 0 \<rparr>"

definition example_books :: db where
  "example_books = empty_db\<lparr> payments := [example_paid] \<rparr>"

lemma example_books_ok: "ledger_ok example_books"
  by (simp add: ledger_ok_def example_books_def empty_db_def fresh_ids_def)

lemma example_settlement:
  "\<exists>t s'. record_verified_settlement render None 9 ''t'' ''p'' 500 ''TZS'' ''manual'' example_books = (Inr t, s')"
proof -
  obtain r s' where c: "record_verified_settlement render None 9 ''t'' ''p'' 500 ''TZS'' ''manual'' example_books = (r, s')" by fastforce
  obtain tx s1 where ps: "post_settlement ''t'' ''p'' 500 ''TZS'' ''manual'' (Some ''payment:p'') (mark_settled 9 ''t'' ''p'' example_books) = (tx, s1)"
    by fastforce
  from post_settlement_Some [OF ps] obtain t where "tx = Some t" ..
  with c ps have "r = Inr t"
    by (simp add: record_verified_settlement_def example_books_def example_paid_def select_one_def or_else_def Let_def)
  with c show ?thesis by blast
qed

definition plain_amount :: "rat \<Rightarrow> string" where
  "plain_amount x = ''500''"

theorem settlement_keeps_the_books_witness:
  "let s' = snd (record_verified_settlement plain_amount None 9 ''t'' ''p'' 500 ''TZS'' ''manual'' example_books)
   in ledger_ok s' \<and> map (\<lambda>e. (le_debit e, le_credit e)) (ledgerEntries s') = [(500, 0), (0, 500)]"
proof -
  obtain t s' where c: "record_verified_settlement plain_amount None 9 ''t'' ''p'' 500 ''TZS'' ''manual'' example_books = (Inr t, s')"
    using example_settlement by blast
  have "ledgerEntries example_books = []" by (simp add: example_books_def empty_db_def)
  then show ?thesis using settlement_keeps_the_books [OF example_books_ok c] c by (auto simp: entries_of_def)
qed

theorem settling_again_posts_nothing_witness:
  "let s1 = snd (record_verified_settlement plain_amount None 9 ''t'' ''p'' 500 ''TZS'' ''manual'' example_books);
       s2 = snd (record_verified_settlement plain_amount (Some ''again'') 99 ''t'' ''p'' 500 ''TZS'' ''manual'' s1)
   in ledgerEntries s2 = ledgerEntries s1 \<and> payments s2 = payments s1"
proof -
  obtain t s1 where c: "record_verified_settlement plain_amount None 9 ''t'' ''p'' 500 ''TZS'' ''manual'' example_books = (Inr t, s1)"
    using example_settlement by blast
  obtain r s2 where d: "record_verified_settlement plain_amount (Some ''again'') 99 ''t'' ''p'' 500 ''TZS'' ''manual'' s1 = (r, s2)" by fastforce
  have "ledgerEntries s2 = ledgerEntries s1 \<and> payments s2 = payments s1"
    using settling_again_posts_nothing [OF c, of "Some ''again''" 99] d by (cases r) simp_all
  then show ?thesis using c d by simp
qed

theorem webhooks_record_once_witness:
  "let s = empty_db\<lparr> providerConfigs := [\<lparr> pc_tenant = ''t'', pc_provider = ''mpesa'', pc_active = True, pc_currencies = None,
                        pc_webhookSecretRef = Some ''S'' \<rparr>] \<rparr>;
       input = \<lparr> wi_provider = ''mpesa'', wi_providerEventId = ''e1'', wi_eventType = ''paid'', wi_status = ''PAID'', wi_paymentId = None,
                 wi_purchaseId = None, wi_providerReference = None, wi_payload = None \<rparr>;
       (r, s') = webhook (\<lambda>_. Some ''secret'') (\<lambda>_ _. replicate 64 (CHR ''a'')) None 5 ''t'' input ''{}'' (Some (replicate 64 (CHR ''a''))) s
   in payments s' = payments s"
proof -
  define s where "s = empty_db\<lparr> providerConfigs := [\<lparr> pc_tenant = ''t'', pc_provider = ''mpesa'', pc_active = True, pc_currencies = None,
                        pc_webhookSecretRef = Some ''S'' \<rparr>] \<rparr>"
  define input where "input = \<lparr> wi_provider = ''mpesa'', wi_providerEventId = ''e1'', wi_eventType = ''paid'', wi_status = ''PAID'',
      wi_paymentId = None, wi_purchaseId = None, wi_providerReference = None, wi_payload = None \<rparr>"
  obtain r s' where c: "webhook (\<lambda>_. Some ''secret'') (\<lambda>_ _. replicate 64 (CHR ''a'')) None 5 ''t'' input ''{}'' (Some (replicate 64 (CHR ''a''))) s
      = (r, s')" by fastforce
  have "unique_key pe_key (paymentEvents s)" by (simp add: s_def empty_db_def)
  from webhooks_record_once [OF this c] have "payments s' = payments s" by simp
  then show ?thesis using c unfolding s_def input_def by simp
qed

lemma manual_settles:
  "js_lower (js_trim ''manual'') = ''manual''" "\<exists>m. assert_method_can_settle tenant ''manual'' ''TZS'' s = Inr m"
  "js_trim ''TZS'' = ''TZS''" "js_upper ''TZS'' = ''TZS''"
proof -
  show n: "js_lower (js_trim ''manual'') = ''manual''" and c: "js_trim ''TZS'' = ''TZS''" "js_upper ''TZS'' = ''TZS''" by code_simp+
  have "get_payment_method ''manual'' = Some (pay_method ''manual'' ''MANUAL'' [''TZ''] [''TZS''] True False)" by code_simp
  then show "\<exists>m. assert_method_can_settle tenant ''manual'' ''TZS'' s = Inr m"
    by (simp add: assert_method_can_settle_def n c Let_def pay_method_def)
qed

theorem payment_intents_are_idempotent_witness:
  "let s = empty_db\<lparr> purchases := [example_pending_purchase] \<rparr>;
       input = \<lparr> in_purchaseId = ''u'', in_provider = ''manual'', in_idempotencyKey = Some ''k'' \<rparr>;
       (r, s') = create_intent None 5 ''t'' input s
   in payments_ok s' \<and> length (payments s') = 1"
proof -
  define s where "s = empty_db\<lparr> purchases := [example_pending_purchase] \<rparr>"
  define input where "input = \<lparr> in_purchaseId = ''u'', in_provider = ''manual'', in_idempotencyKey = Some ''k'' \<rparr>"
  obtain r s' where c: "create_intent None 5 ''t'' input s = (r, s')" by fastforce
  have "payments_ok s" by (simp add: s_def empty_db_def payments_ok_def)
  from payment_intents_are_idempotent [OF this c] have ok: "payments_ok s'" by simp
  obtain m where "assert_method_can_settle ''t'' ''manual'' ''TZS'' s = Inr m" using manual_settles(2) by blast
  then have "length (payments s') = 1"
    using c by (auto simp: s_def input_def create_intent_def manual_settles(1) select_one_def example_pending_purchase_def oldest_attempt_def
        select_def order_limit_def empty_db_def Let_def insert_row_def)
  with ok c show ?thesis unfolding s_def input_def by simp
qed

end
