(* ===== verification/Purchases.thy ===== *)
theory Purchases
  imports Payments Promotions ServicePolicy "HOL-Library.Product_Lexorder"
begin

text \<open>
  Purchases of WiFi plans (\<open>purchases/purchases.service.ts\<close>): creating a purchase, also from a tier, with the
  offer of a promotion code, and the confirmation of a manual payment, which settles the payment and
  activates the purchase in one transaction. The schema of the database is not part of the repository:
  \<open>clash\<close> says whether a table of payments violates one of its unique indexes.
\<close>

subsection \<open>Reading purchases\<close>

record purchase_view =
  pv_purchase :: purchase
  pv_customerName :: string
  pv_packageName :: string
  pv_provider :: "string option"
  pv_accessStatus :: "grant_status option"
  pv_networkPolicy :: "json option"

definition customer_of :: "uuid \<Rightarrow> uuid \<Rightarrow> db \<Rightarrow> customer option" where
  "customer_of tenant i s = select_one (\<lambda>c. cu_tenant c = tenant \<and> cu_id c = i) (customers s)"

definition package_of :: "uuid \<Rightarrow> uuid \<Rightarrow> db \<Rightarrow> package option" where
  "package_of tenant i s = select_one (\<lambda>k. pk_tenant k = tenant \<and> pk_id k = i) (packages s)"

definition purchase_of :: "uuid \<Rightarrow> uuid \<Rightarrow> db \<Rightarrow> purchase option" where
  "purchase_of tenant i s = select_one (\<lambda>p. pu_tenant p = tenant \<and> pu_id p = i) (purchases s)"

text \<open>The inner joins drop a purchase without customer or package, the outer joins leave \<open>NULL\<close>.\<close>

definition view_purchase :: "db \<Rightarrow> purchase \<Rightarrow> purchase_view option" where
  "view_purchase s p =
     (case (customer_of (pu_tenant p) (pu_customerId p) s, package_of (pu_tenant p) (pu_packageId p) s) of
        (Some c, Some k) \<Rightarrow>
          (let grant = select_one (\<lambda>g. ag_tenant g = pu_tenant p \<and> ag_purchaseId g = Some (pu_id p)) (accessGrants s);
               latest = order_limit (\<lambda>y. - py_createdAt y) 1
                 (select (\<lambda>y. py_tenant y = pu_tenant p \<and> py_purchaseId y = Some (pu_id p)) (payments s))
           in Some \<lparr> pv_purchase = p, pv_customerName = cu_fullName c, pv_packageName = pk_name k,
                pv_provider = (case latest of [] \<Rightarrow> None | y # _ \<Rightarrow> Some (py_provider y)),
                pv_accessStatus = map_option ag_status grant, pv_networkPolicy = map_option ag_networkPolicy grant \<rparr>)
      | _ \<Rightarrow> None)"

definition list_purchases :: "uuid \<Rightarrow> uuid option \<Rightarrow> db \<Rightarrow> purchase_view list" where
  "list_purchases tenant customerId s =
     order_limit (\<lambda>v. - pu_createdAt (pv_purchase v)) 200
       (List.map_filter (view_purchase s)
         (select (\<lambda>p. pu_tenant p = tenant \<and> (customerId = None \<or> customerId = Some (pu_customerId p))) (purchases s)))"

definition get_purchase :: "uuid \<Rightarrow> uuid \<Rightarrow> db \<Rightarrow> purchase_view result" where
  "get_purchase tenant i s =
     (case Option.bind (purchase_of tenant i s) (view_purchase s) of
        None \<Rightarrow> Inl (NotFound ''Purchase not found'') | Some v \<Rightarrow> Inr v)"

subsection \<open>Creating purchases\<close>

record create_purchase_input =
  ci_customerId :: uuid
  ci_packageId :: uuid
  ci_routerId :: "uuid option"
  ci_promoCode :: "string option"

definition purchase_row ::
  "uuid \<Rightarrow> time \<Rightarrow> uuid \<Rightarrow> create_purchase_input \<Rightarrow> package \<Rightarrow> promo_offer option \<Rightarrow> string \<Rightarrow> purchase" where
  "purchase_row i now tenant input plan offer correlation =
     (let discount = (case offer of None \<Rightarrow> 0 | Some f \<Rightarrow> po_discountAmount f)
      in \<lparr> pu_id = i, pu_tenant = tenant, pu_customerId = ci_customerId input, pu_packageId = ci_packageId input,
           pu_routerId = ci_routerId input, pu_price = max 0 (pk_price plan - discount), pu_currency = pk_currency plan,
           pu_discountAmount = discount, pu_promoCodeId = map_option po_promoId offer, pu_status = PU_PENDING_PAYMENT,
           pu_startsAt = None, pu_endsAt = None, pu_correlationId = Some correlation, pu_createdAt = now \<rparr>)"

definition offer_for :: "(rat \<Rightarrow> string) \<Rightarrow> time \<Rightarrow> uuid \<Rightarrow> create_purchase_input \<Rightarrow> package \<Rightarrow> db \<Rightarrow> promo_offer option result" where
  "offer_for render now tenant input plan s =
     (case ci_promoCode input of
        None \<Rightarrow> Inr None
      | Some code \<Rightarrow>
          if code = [] then Inr None
          else (case validate_promo render now tenant \<lparr> pq_code = code, pq_customerId = ci_customerId input,
                       pq_packageId = ci_packageId input, pq_subtotal = pk_price plan \<rparr> s of
                  Inl e \<Rightarrow> Inl e | Inr f \<Rightarrow> Inr (Some f)))"

definition create_purchase ::
  "(rat \<Rightarrow> string) \<Rightarrow> string option \<Rightarrow> time \<Rightarrow> uuid \<Rightarrow> create_purchase_input \<Rightarrow> (db, purchase) operation" where
  "create_purchase render cid now tenant input s =
     (let correlation = (case cid of Some c \<Rightarrow> c | None \<Rightarrow> ''purchase:'' @ ci_customerId input @ '':'' @ ci_packageId input)
      in case select_one (\<lambda>k. pk_tenant k = tenant \<and> pk_id k = ci_packageId input \<and> pk_active k) (packages s) of
           None \<Rightarrow> (Inl (NotFound ''Active WiFi plan not found''), s)
         | Some plan \<Rightarrow>
             if \<not> exists_row (\<lambda>c. cu_tenant c = tenant \<and> cu_id c = ci_customerId input \<and> cu_active c) (customers s)
             then (Inl (NotFound ''Active customer not found''), s)
             else if (case ci_routerId input of None \<Rightarrow> False
                      | Some i \<Rightarrow> \<not> exists_row (\<lambda>r. ro_tenant r = tenant \<and> ro_id r = i) (routers s))
             then (Inl (NotFound ''Router not found''), s)
             else (case offer_for render now tenant input plan s of
                 Inl e \<Rightarrow> (Inl e, s)
               | Inr offer \<Rightarrow>
                   (let row = purchase_row (new_uuid s) now tenant input plan offer correlation
                    in (Inr row, s\<lparr> next_id := next_id s + 1, purchases := insert_row row (purchases s) \<rparr>))))"

record tier_input =
  ti_customerId :: uuid
  ti_routerId :: "uuid option"
  ti_promoCode :: "string option"

definition create_from_tier ::
  "(rat \<Rightarrow> string) \<Rightarrow> string option \<Rightarrow> time \<Rightarrow> uuid \<Rightarrow> string \<Rightarrow> tier_input \<Rightarrow> (db, purchase) operation" where
  "create_from_tier render cid now tenant tierCode input s =
     (let tier = js_upper (js_trim tierCode)
      in case order_limit (\<lambda>k. (if pk_featured k then 0 else 1 :: int, - pk_createdAt k)) 1
              (select (\<lambda>k. pk_tenant k = tenant \<and> pk_tierCode k = Some tier \<and> pk_active k) (packages s)) of
           [] \<Rightarrow> (Inl (NotFound (''Active package for Jaslyn tier '' @ tier @ '' is not configured'')), s)
         | k # _ \<Rightarrow> create_purchase render cid now tenant
             \<lparr> ci_customerId = ti_customerId input, ci_packageId = pk_id k, ci_routerId = ti_routerId input,
               ci_promoCode = ti_promoCode input \<rparr> s)"

subsection \<open>Activating a purchase\<close>

definition plan_source :: "package \<Rightarrow> policy_source" where
  "plan_source k = \<lparr> ps_packageId = pk_id k, ps_name = Some (pk_name k), ps_durationSeconds = Fin (of_int (pk_durationSeconds k)),
     ps_dataLimitBytes = map_option Fin (pk_dataLimitBytes k), ps_downloadBps = map_option Fin (pk_downloadBps k),
     ps_uploadBps = map_option Fin (pk_uploadBps k) \<rparr>"

text \<open>
  The grant of a purchase: inserted, or, when the purchase has one, renewed in place; vouchers renew the
  device limit as well.
\<close>

definition renew_grant :: "bool \<Rightarrow> access_grant \<Rightarrow> access_grant \<Rightarrow> access_grant" where
  "renew_grant devices g x = x\<lparr> ag_status := ag_status g, ag_startsAt := ag_startsAt g, ag_endsAt := ag_endsAt g,
     ag_networkPolicy := ag_networkPolicy g, ag_deviceLimit := (if devices then ag_deviceLimit g else ag_deviceLimit x) \<rparr>"

definition put_grant :: "bool \<Rightarrow> access_grant \<Rightarrow> db \<Rightarrow> db" where
  "put_grant devices g s =
     (if exists_row (\<lambda>x. ag_purchaseId x \<noteq> None \<and> ag_purchaseId x = ag_purchaseId g) (accessGrants s)
      then s\<lparr> accessGrants := update_where (\<lambda>x. ag_purchaseId x \<noteq> None \<and> ag_purchaseId x = ag_purchaseId g) (renew_grant devices g) (accessGrants s) \<rparr>
      else s\<lparr> next_id := next_id s + 1, accessGrants := insert_row g (accessGrants s) \<rparr>)"

definition grant_row :: "uuid \<Rightarrow> time \<Rightarrow> json \<Rightarrow> int option \<Rightarrow> purchase \<Rightarrow> access_grant" where
  "grant_row i now policy devices p =
     \<lparr> ag_id = i, ag_tenant = pu_tenant p, ag_purchaseId = Some (pu_id p), ag_customerId = pu_customerId p, ag_routerId = pu_routerId p,
       ag_status = G_ACTIVE, ag_startsAt = pu_startsAt p, ag_endsAt = pu_endsAt p, ag_networkPolicy = policy, ag_deviceLimit = devices,
       ag_correlationId = pu_correlationId p, ag_createdAt = now \<rparr>"

definition paid_purchase :: "time \<Rightarrow> package \<Rightarrow> purchase \<Rightarrow> purchase" where
  "paid_purchase now k p = p\<lparr> pu_status := PU_PAID, pu_startsAt := Some now, pu_endsAt := Some (now + pk_durationSeconds k * 1000) \<rparr>"

definition paid_event :: "(rat \<Rightarrow> string) \<Rightarrow> uuid \<Rightarrow> purchase \<Rightarrow> uuid \<Rightarrow> string \<Rightarrow> event_input" where
  "paid_event render tenant p paymentId provider =
     \<lparr> ei_tenantId = tenant, ei_eventKey = ''purchase-paid:'' @ pu_id p, ei_eventType = ''PAYMENT.SETTLED'',
       ei_aggregateType = Some ''wifi_plan_purchase'', ei_aggregateId = Some (pu_id p),
       ei_payload = jobject [(''purchaseId'', Some (JStr (pu_id p))), (''paymentId'', Some (JStr paymentId)),
         (''customerId'', Some (JStr (pu_customerId p))), (''packageId'', Some (JStr (pu_packageId p))),
         (''routerId'', Some (or_null JStr (pu_routerId p))), (''amount'', Some (JStr (render (pu_price p)))),
         (''currency'', Some (JStr (pu_currency p))), (''provider'', Some (JStr provider))] \<rparr>"

definition record_promo_redemption :: "uuid \<Rightarrow> purchase \<Rightarrow> string \<Rightarrow> db \<Rightarrow> db" where
  "record_promo_redemption tenant p correlation s =
     (case pu_promoCodeId p of
        None \<Rightarrow> s
      | Some promo \<Rightarrow> snd (record_redemption \<lparr> pr_tenant = tenant, pr_promoCodeId = promo, pr_customerId = pu_customerId p,
          pr_purchaseId = pu_id p, pr_discountAmount = pu_discountAmount p, pr_correlationId = Some correlation \<rparr> s))"

definition activate_purchase ::
  "(rat \<Rightarrow> string) \<Rightarrow> time \<Rightarrow> uuid \<Rightarrow> purchase \<Rightarrow> uuid \<Rightarrow> string \<Rightarrow> string \<Rightarrow> (db, unit) operation" where
  "activate_purchase render now tenant p paymentId provider correlation s =
     (case package_of tenant (pu_packageId p) s of
        None \<Rightarrow> (Inl (NotFound ''Package not found''), s)
      | Some k \<Rightarrow>
          (case compile_network_policy (plan_source k) of
             Inl e \<Rightarrow> (Inl e, s)
           | Inr policy \<Rightarrow>
               (let s1 = s\<lparr> purchases := update_where (\<lambda>q. pu_tenant q = tenant \<and> pu_id q = pu_id p) (paid_purchase now k) (purchases s) \<rparr>;
                    s2 = record_promo_redemption tenant p correlation s1;
                    s3 = snd (enqueue now (paid_event render tenant p paymentId provider) s2)
                in (Inr (), case purchase_of tenant (pu_id p) s3 of
                              None \<Rightarrow> s3
                            | Some q \<Rightarrow> put_grant False (grant_row (new_uuid s3) now (policy_json policy) None q) s3))))"

subsection \<open>Confirming a payment\<close>

record confirm_input =
  cf_provider :: string
  cf_providerReference :: string
  cf_idempotencyKey :: "string option"
  cf_status :: "string option"

record confirm_result =
  co_purchase :: purchase_view
  co_paymentId :: "uuid option"

definition confirm_key :: "uuid \<Rightarrow> confirm_input \<Rightarrow> string" where
  "confirm_key purchaseId input = (case trim_or_null (cf_idempotencyKey input) of Some k \<Rightarrow> k
     | None \<Rightarrow> ''purchase:'' @ purchaseId @ '':'' @ js_trim (cf_providerReference input))"

definition payment_failed :: "confirm_input \<Rightarrow> bool" where
  "payment_failed input \<longleftrightarrow> cf_status input = Some ''FAILED''"

fun payment_status_name :: "payment_status \<Rightarrow> string" where
  "payment_status_name PY_INITIATED = ''INITIATED''"
| "payment_status_name PY_PENDING = ''PENDING''"
| "payment_status_name PY_AUTHORIZED = ''AUTHORIZED''"
| "payment_status_name PY_PAID = ''PAID''"
| "payment_status_name PY_FAILED = ''FAILED''"
| "payment_status_name PY_SUCCESS = ''SUCCESS''"

text \<open>The update of a payment by identifier; a violated index is the error \<open>23505\<close>.\<close>

definition close_payment ::
  "(payment list \<Rightarrow> bool) \<Rightarrow> uuid \<Rightarrow> uuid \<Rightarrow> string \<Rightarrow> payment_status \<Rightarrow> string option \<Rightarrow> string \<Rightarrow> (db, unit) operation" where
  "close_payment clash tenant paymentId reference status key correlation s =
     (let rows = update_where (\<lambda>y. py_tenant y = tenant \<and> py_id y = paymentId)
            (\<lambda>y. y\<lparr> py_providerReference := Some reference, py_status := status,
                    py_idempotencyKey := (case key of None \<Rightarrow> py_idempotencyKey y | Some k \<Rightarrow> Some k),
                    py_correlationId := or_else (py_correlationId y) (Some correlation) \<rparr>) (payments s)
      in if clash rows then (Inl (DbError ''23505''), s) else (Inr (), s\<lparr> payments := rows \<rparr>))"

definition oldest_pending :: "uuid \<Rightarrow> uuid \<Rightarrow> db \<Rightarrow> payment option" where
  "oldest_pending tenant purchaseId s =
     (case order_limit py_createdAt 1 (select (\<lambda>y. py_tenant y = tenant \<and> py_purchaseId y = Some purchaseId \<and> py_status y = PY_PENDING)
             (payments s)) of [] \<Rightarrow> None | y # _ \<Rightarrow> Some y)"

text \<open>A payment that is there: it is closed, and settled when it was paid.\<close>

definition close_and_settle ::
  "(payment list \<Rightarrow> bool) \<Rightarrow> (rat \<Rightarrow> string) \<Rightarrow> string option \<Rightarrow> time \<Rightarrow> uuid \<Rightarrow> purchase \<Rightarrow> uuid \<Rightarrow> string option \<Rightarrow> string \<Rightarrow> string \<Rightarrow> confirm_input
   \<Rightarrow> (db, unit) operation" where
  "close_and_settle clash render cid now tenant p paymentId key correlation provider input s =
     (let status = (if payment_failed input then PY_FAILED else PY_PAID)
      in case close_payment clash tenant paymentId (js_trim (cf_providerReference input)) status key correlation s of
           (Inl e, s1) \<Rightarrow> (Inl e, s1)
         | (Inr _, s1) \<Rightarrow>
             if payment_failed input then (Inr (), s1)
             else (case record_verified_settlement render cid now tenant paymentId (pu_price p) (pu_currency p) provider s1 of
                     (Inl e, s2) \<Rightarrow> (Inl e, s2) | (Inr _, s2) \<Rightarrow> (Inr (), s2)))"

text \<open>The payment of the confirmation, or \<open>None\<close> when its key belongs to a payment that is paid already.\<close>

definition receive_payment ::
  "(payment list \<Rightarrow> bool) \<Rightarrow> (rat \<Rightarrow> string) \<Rightarrow> string option \<Rightarrow> time \<Rightarrow> uuid \<Rightarrow> purchase \<Rightarrow> string \<Rightarrow> string \<Rightarrow> confirm_input
   \<Rightarrow> (db, uuid option) operation" where
  "receive_payment clash render cid now tenant p correlation provider input s =
     (let key = confirm_key (pu_id p) input
      in case select_one (has_idempotency_key tenant key) (payments s) of
           Some y \<Rightarrow>
             if py_purchaseId y \<noteq> Some (pu_id p) then (Inl (Conflict ''Idempotency key is already bound to another purchase''), s)
             else if py_provider y \<noteq> provider then (Inl (Conflict ''Idempotency key is already bound to another provider''), s)
             else if py_status y = PY_PAID then (Inr None, s)
             else if py_status y \<noteq> PY_PENDING
             then (Inl (Conflict (''Payment cannot be confirmed from '' @ payment_status_name (py_status y))), s)
             else (case close_and_settle clash render cid now tenant p (py_id y) None correlation provider input s of
                     (Inl e, s1) \<Rightarrow> (Inl e, s1) | (Inr _, s1) \<Rightarrow> (Inr (Some (py_id y)), s1))
         | None \<Rightarrow>
             (case oldest_pending tenant (pu_id p) s of
                Some y \<Rightarrow>
                  if py_provider y \<noteq> provider
                  then (Inl (Conflict (''A pending payment already exists for provider '' @ py_provider y)), s)
                  else (case close_and_settle clash render cid now tenant p (py_id y) (Some key) correlation provider input s of
                          (Inl e, s1) \<Rightarrow> (Inl e, s1) | (Inr _, s1) \<Rightarrow> (Inr (Some (py_id y)), s1))
              | None \<Rightarrow>
                  (let row = payment_row (new_uuid s) tenant p provider (Some (js_trim (cf_providerReference input)))
                         (if payment_failed input then PY_FAILED else PY_PAID) key (Some correlation) now;
                       rows = insert_row row (payments s)
                   in if clash rows then (Inl (DbError ''23505''), s)
                      else (Inr (Some (py_id row)), s\<lparr> next_id := next_id s + 1, payments := rows \<rparr>))))"

definition cancel_purchase :: "uuid \<Rightarrow> uuid \<Rightarrow> db \<Rightarrow> db" where
  "cancel_purchase tenant i s = s\<lparr> purchases := update_where (\<lambda>q. pu_tenant q = tenant \<and> pu_id q = i)
     (\<lambda>q. q\<lparr> pu_status := PU_CANCELED \<rparr>) (purchases s) \<rparr>"

text \<open>The body of the transaction: the payment it dealt with, if any.\<close>

definition confirm_body ::
  "(payment list \<Rightarrow> bool) \<Rightarrow> (rat \<Rightarrow> string) \<Rightarrow> string option \<Rightarrow> time \<Rightarrow> uuid \<Rightarrow> uuid \<Rightarrow> string \<Rightarrow> confirm_input \<Rightarrow> (db, uuid option) operation" where
  "confirm_body clash render cid now tenant purchaseId provider input s =
     (case purchase_of tenant purchaseId s of
        None \<Rightarrow> (Inl (NotFound ''Purchase not found''), s)
      | Some p \<Rightarrow>
          (let correlation = (case or_else cid (pu_correlationId p) of Some c \<Rightarrow> c | None \<Rightarrow> ''purchase:'' @ purchaseId)
           in if pu_status p \<in> {PU_ACTIVE, PU_PAID} then (Inr None, s)
              else if pu_status p \<noteq> PU_PENDING_PAYMENT
              then (Inl (BadRequest (''Purchase cannot be paid from '' @ purchase_status_name (pu_status p))), s)
              else (case assert_method_can_settle tenant provider (pu_currency p) s of
                  Inl e \<Rightarrow> (Inl e, s)
                | Inr _ \<Rightarrow>
                    (case receive_payment clash render cid now tenant p correlation provider input s of
                       (Inl e, s1) \<Rightarrow> (Inl e, s1)
                     | (Inr None, s1) \<Rightarrow> (Inr None, s1)
                     | (Inr (Some i), s1) \<Rightarrow>
                         if payment_failed input then (Inr (Some i), cancel_purchase tenant purchaseId s1)
                         else (case activate_purchase render now tenant p i provider correlation s1 of
                                 (Inl e, s2) \<Rightarrow> (Inl e, s2) | (Inr _, s2) \<Rightarrow> (Inr (Some i), s2))))))"

definition confirm_payment ::
  "(payment list \<Rightarrow> bool) \<Rightarrow> (rat \<Rightarrow> string) \<Rightarrow> string option \<Rightarrow> time \<Rightarrow> uuid \<Rightarrow> uuid \<Rightarrow> confirm_input \<Rightarrow> (db, confirm_result) operation" where
  "confirm_payment clash render cid now tenant purchaseId input s =
     (let provider = js_lower (js_trim (cf_provider input))
      in if provider \<noteq> ''manual''
         then (Inl (Conflict ''External payment providers must be verified through their provider webhook''), s)
         else (case transaction (confirm_body clash render cid now tenant purchaseId provider input) s of
             (Inl e, s1) \<Rightarrow> (Inl (if e = DbError ''23505'' then Conflict ''Payment reference or idempotency key already exists'' else e), s1)
           | (Inr paid, s1) \<Rightarrow>
               (case get_purchase tenant purchaseId s1 of
                  Inl e \<Rightarrow> (Inl e, s1)
                | Inr v \<Rightarrow> (Inr \<lparr> co_purchase = v, co_paymentId = paid \<rparr>, s1))))"

subsection \<open>What the steps leave alone\<close>

definition same_tables :: "db \<Rightarrow> db \<Rightarrow> bool" where
  "same_tables s s' \<longleftrightarrow> purchases s' = purchases s \<and> customers s' = customers s \<and> packages s' = packages s \<and>
     accessGrants s' = accessGrants s \<and> domainEvents s' = domainEvents s \<and> promoCodes s' = promoCodes s \<and> vouchers s' = vouchers s"

lemma same_tables_refl [simp]: "same_tables s s"
  by (simp add: same_tables_def)

lemma same_tables_trans: "same_tables s t \<Longrightarrow> same_tables t u \<Longrightarrow> same_tables s u"
  by (simp add: same_tables_def)

lemma upsert_account_tables: "upsert_account tenant code name kind currency s = (i, s') \<Longrightarrow> same_tables s s'"
  by (auto simp: upsert_account_def same_tables_def split: option.splits)

lemma put_deliveries_tables: "same_tables s (fold put_delivery ds s)"
  by (induction ds arbitrary: s) (simp_all add: put_delivery_def same_tables_def)

lemma settle_invoices_tables: "same_tables s (settle_invoices tenant pu s)"
  by (simp add: settle_invoices_def same_tables_def split: option.split)

lemma post_settlement_tables:
  assumes "post_settlement tenant i amount currency provider correlation s = (r, s')"
  shows "same_tables s s'"
proof -
  obtain cash s1 where c: "upsert_account tenant (take 64 (''CASH:'' @ provider @ '':'' @ currency)) (''Settlement '' @ provider) ''ASSET'' currency s = (cash, s1)"
    by fastforce
  obtain revenue s2 where v: "upsert_account tenant (take 64 (''REVENUE:WIFI:'' @ currency)) ''WiFi service revenue'' ''REVENUE'' currency s1 = (revenue, s2)"
    by fastforce
  have "same_tables s2 s'"
    using assms c v by (auto simp: post_settlement_def post_entries_def put_transaction_def same_tables_def Let_def split: option.splits)
  with upsert_account_tables [OF c] upsert_account_tables [OF v] show ?thesis by (blast intro: same_tables_trans)
qed

lemma settlement_tables:
  assumes "record_verified_settlement render cid now tenant i amount currency provider s = (r, s')"
  shows "same_tables s s'"
    and "map (\<lambda>y. (py_tenant y, py_id y, py_purchaseId y, py_status y)) (payments s') = map (\<lambda>y. (py_tenant y, py_id y, py_purchaseId y, py_status y)) (payments s)"
proof -
  have m: "same_tables s (mark_settled now tenant i s)" by (simp add: mark_settled_def same_tables_def)
  show "same_tables s s'"
    using assms
  proof (cases rule: record_verified_settlement_cases)
    case (settled p t s1 correlation)
    have "same_tables s1 s'" unfolding settled(8) by (rule same_tables_trans [OF settle_invoices_tables put_deliveries_tables])
    with m post_settlement_tables [OF settled(6)] show ?thesis by (blast intro: same_tables_trans)
  qed simp
  have "payments s' = payments (mark_settled now tenant i s) \<or> s' = s"
    using assms
  proof (cases rule: record_verified_settlement_cases)
    case (settled p t s1 correlation)
    from settled(6) have "payments s1 = payments (mark_settled now tenant i s)" by (rule post_settlement_posted)
    then show ?thesis by (simp add: settled(8))
  qed simp
  then show "map (\<lambda>y. (py_tenant y, py_id y, py_purchaseId y, py_status y)) (payments s') = map (\<lambda>y. (py_tenant y, py_id y, py_purchaseId y, py_status y)) (payments s)"
    by (auto simp: mark_settled_def map_update_where)
qed

text \<open>A payment with this identifier and status for the purchase \<open>pu\<close>.\<close>

definition payment_is :: "db \<Rightarrow> uuid \<Rightarrow> uuid \<Rightarrow> uuid \<Rightarrow> payment_status \<Rightarrow> bool" where
  "payment_is s tenant pu i st \<longleftrightarrow> (\<exists>y\<in>set (payments s). py_tenant y = tenant \<and> py_id y = i \<and> py_purchaseId y = Some pu \<and> py_status y = st)"

lemma payment_is_row:
  "payment_is s tenant pu i st \<longleftrightarrow> (tenant, i, Some pu, st) \<in> set (map (\<lambda>y. (py_tenant y, py_id y, py_purchaseId y, py_status y)) (payments s))"
  by (auto simp: payment_is_def image_iff)

lemma settlement_keeps_payment:
  assumes "record_verified_settlement render cid now tenant i amount currency provider s = (r, s')"
  shows "payment_is s' u pu j st = payment_is s u pu j st"
  by (simp only: payment_is_row settlement_tables(2) [OF assms])

lemma close_payment_closes:
  assumes "close_payment clash tenant i reference st key correlation s = (Inr u, s')"
    and "\<exists>y\<in>set (payments s). py_tenant y = tenant \<and> py_id y = i \<and> py_purchaseId y = Some pu"
  shows "same_tables s s'" and "payment_is s' tenant pu i st" and "ledgerEntries s' = ledgerEntries s"
proof -
  show "same_tables s s'" "ledgerEntries s' = ledgerEntries s"
    using assms(1) by (auto simp: close_payment_def Let_def same_tables_def split: if_splits)
  let ?f = "\<lambda>y. y\<lparr> py_providerReference := Some reference, py_status := st,
                    py_idempotencyKey := (case key of None \<Rightarrow> py_idempotencyKey y | Some k \<Rightarrow> Some k),
                    py_correlationId := or_else (py_correlationId y) (Some correlation) \<rparr>"
  from assms(2) obtain y where y: "y \<in> set (payments s)" "py_tenant y = tenant" "py_id y = i" "py_purchaseId y = Some pu" by blast
  have "payments s' = update_where (\<lambda>y. py_tenant y = tenant \<and> py_id y = i) ?f (payments s)"
    using assms(1) by (auto simp: close_payment_def Let_def split: if_splits)
  moreover have "?f y \<in> set (update_where (\<lambda>y. py_tenant y = tenant \<and> py_id y = i) ?f (payments s))"
    by (rule updated_row [OF y(1)]) (simp add: y)
  ultimately have "?f y \<in> set (payments s')" by (simp only:)
  with y show "payment_is s' tenant pu i st" unfolding payment_is_def by (intro bexI [of _ "?f y"]) simp_all
qed

lemma close_and_settle_closes:
  assumes "close_and_settle clash render cid now tenant p i key correlation provider input s = (Inr u, s')"
    and "\<exists>y\<in>set (payments s). py_tenant y = tenant \<and> py_id y = i \<and> py_purchaseId y = Some pu"
  shows "same_tables s s'" and "payment_is s' tenant pu i (if payment_failed input then PY_FAILED else PY_PAID)"
    and "payment_failed input \<Longrightarrow> ledgerEntries s' = ledgerEntries s"
proof -
  let ?st = "if payment_failed input then PY_FAILED else PY_PAID"
  obtain r1 s1 where cl: "close_payment clash tenant i (js_trim (cf_providerReference input)) ?st key correlation s = (r1, s1)" by fastforce
  with assms(1) obtain v where r1: "r1 = Inr v" by (cases r1) (auto simp: close_and_settle_def Let_def)
  note f = close_payment_closes [OF cl [unfolded r1] assms(2)]
  have "same_tables s s' \<and> payment_is s' tenant pu i ?st \<and> (payment_failed input \<longrightarrow> ledgerEntries s' = ledgerEntries s)"
  proof (cases "payment_failed input")
    case True
    then have "s' = s1" using assms(1) cl r1 by (simp add: close_and_settle_def)
    with f show ?thesis by simp
  next
    case False
    obtain r2 s2 where st: "record_verified_settlement render cid now tenant i (pu_price p) (pu_currency p) provider s1 = (r2, s2)" by fastforce
    have "s' = s2" using assms(1) cl r1 st False by (auto simp: close_and_settle_def split: sum.splits)
    then show ?thesis
      using f settlement_tables(1) [OF st] settlement_keeps_payment [OF st] False same_tables_trans by auto
  qed
  then show "same_tables s s'" "payment_is s' tenant pu i ?st" "payment_failed input \<Longrightarrow> ledgerEntries s' = ledgerEntries s" by simp_all
qed

lemma oldest_pending_Some:
  assumes "oldest_pending tenant i s = Some y"
  shows "y \<in> set (payments s) \<and> py_tenant y = tenant \<and> py_purchaseId y = Some i \<and> py_status y = PY_PENDING"
proof -
  let ?P = "\<lambda>y. py_tenant y = tenant \<and> py_purchaseId y = Some i \<and> py_status y = PY_PENDING"
  have "y \<in> set (order_limit py_createdAt 1 (select ?P (payments s)))"
    using assms by (auto simp: oldest_pending_def split: list.splits)
  from in_order_limit [OF this] show ?thesis by simp
qed

lemma receive_payment_cases [consumes 1, case_names refused known received]:
  assumes "receive_payment clash render cid now tenant p correlation provider input s = (r, s')"
  obtains e where "r = Inl e"
    | "r = Inr None" "s' = s" "\<exists>y\<in>set (payments s). has_idempotency_key tenant (confirm_key (pu_id p) input) y \<and> py_purchaseId y = Some (pu_id p) \<and>
        py_provider y = provider \<and> py_status y = PY_PAID"
    | i where "r = Inr (Some i)" "same_tables s s'" "payment_is s' tenant (pu_id p) i (if payment_failed input then PY_FAILED else PY_PAID)"
        "payment_failed input \<Longrightarrow> ledgerEntries s' = ledgerEntries s"
proof -
  let ?key = "confirm_key (pu_id p) input"
  have settle: "(\<exists>e. r = Inl e) \<or> (\<exists>i. r = Inr (Some i) \<and> same_tables s s' \<and>
      payment_is s' tenant (pu_id p) i (if payment_failed input then PY_FAILED else PY_PAID) \<and> (payment_failed input \<longrightarrow> ledgerEntries s' = ledgerEntries s))"
    if "y \<in> set (payments s)" "py_tenant y = tenant" "py_purchaseId y = Some (pu_id p)"
      and "(r, s') = (case close_and_settle clash render cid now tenant p (py_id y) key correlation provider input s of
                     (Inl e, s1) \<Rightarrow> (Inl e, s1) | (Inr _, s1) \<Rightarrow> (Inr (Some (py_id y)), s1))" for y key
  proof -
    obtain r1 s1 where c: "close_and_settle clash render cid now tenant p (py_id y) key correlation provider input s = (r1, s1)" by fastforce
    show ?thesis
    proof (cases r1)
      case (Inl e)
      with that(4) c show ?thesis by simp
    next
      case (Inr u)
      have "\<exists>y'\<in>set (payments s). py_tenant y' = tenant \<and> py_id y' = py_id y \<and> py_purchaseId y' = Some (pu_id p)" using that(1-3) by blast
      from close_and_settle_closes [OF c [unfolded Inr] this] that(4) c Inr show ?thesis by simp
    qed
  qed
  have "(\<exists>e. r = Inl e) \<or> r = Inr None \<and> s' = s \<and> (\<exists>y\<in>set (payments s). has_idempotency_key tenant ?key y \<and> py_purchaseId y = Some (pu_id p) \<and>
        py_provider y = provider \<and> py_status y = PY_PAID) \<or> (\<exists>i. r = Inr (Some i) \<and> same_tables s s' \<and>
      payment_is s' tenant (pu_id p) i (if payment_failed input then PY_FAILED else PY_PAID) \<and> (payment_failed input \<longrightarrow> ledgerEntries s' = ledgerEntries s))"
  proof (cases "select_one (has_idempotency_key tenant ?key) (payments s)")
    case (Some y)
    then have y: "y \<in> set (payments s)" "py_tenant y = tenant" "has_idempotency_key tenant ?key y"
      using select_one_Some [OF Some] by (auto simp: has_idempotency_key_def)
    show ?thesis
    proof (cases "py_purchaseId y = Some (pu_id p) \<and> py_provider y = provider \<and> py_status y = PY_PENDING")
      case True
      then have "(r, s') = (case close_and_settle clash render cid now tenant p (py_id y) None correlation provider input s of
                     (Inl e, s1) \<Rightarrow> (Inl e, s1) | (Inr _, s1) \<Rightarrow> (Inr (Some (py_id y)), s1))"
        using assms Some by (simp add: receive_payment_def Let_def)
      from settle [OF y(1,2) _ this] True show ?thesis by blast
    next
      case False
      then show ?thesis using assms Some y by (auto simp: receive_payment_def Let_def split: if_splits)
    qed
  next
    case None
    show ?thesis
    proof (cases "oldest_pending tenant (pu_id p) s")
      case (Some y)
      then have y: "y \<in> set (payments s)" "py_tenant y = tenant" "py_purchaseId y = Some (pu_id p)" using oldest_pending_Some [OF Some] by simp_all
      show ?thesis
      proof (cases "py_provider y = provider")
        case True
        then have "(r, s') = (case close_and_settle clash render cid now tenant p (py_id y) (Some ?key) correlation provider input s of
                     (Inl e, s1) \<Rightarrow> (Inl e, s1) | (Inr _, s1) \<Rightarrow> (Inr (Some (py_id y)), s1))"
          using assms None Some by (simp add: receive_payment_def Let_def)
        from settle [OF y this] show ?thesis by blast
      next
        case False
        then show ?thesis using assms None Some by (auto simp: receive_payment_def Let_def)
      qed
    next
      case none: None
      define row where "row = payment_row (new_uuid s) tenant p provider (Some (js_trim (cf_providerReference input)))
        (if payment_failed input then PY_FAILED else PY_PAID) ?key (Some correlation) now"
      have rf: "py_tenant row = tenant" "py_purchaseId row = Some (pu_id p)" "py_status row = (if payment_failed input then PY_FAILED else PY_PAID)"
        by (simp_all add: row_def payment_row_def)
      have "(r, s') = (if clash (insert_row row (payments s)) then (Inl (DbError ''23505''), s)
          else (Inr (Some (py_id row)), s\<lparr> next_id := next_id s + 1, payments := insert_row row (payments s) \<rparr>))"
        unfolding assms [symmetric] row_def by (simp only: receive_payment_def Let_def None none option.case)
      then show ?thesis using rf by (auto simp: same_tables_def payment_is_def split: if_splits)
    qed
  qed
  then show thesis using that by blast
qed

lemma record_promo_redemption_frame [simp]:
  "purchases (record_promo_redemption tenant p c s) = purchases s" "payments (record_promo_redemption tenant p c s) = payments s"
  "customers (record_promo_redemption tenant p c s) = customers s" "packages (record_promo_redemption tenant p c s) = packages s"
  "accessGrants (record_promo_redemption tenant p c s) = accessGrants s" "domainEvents (record_promo_redemption tenant p c s) = domainEvents s"
  "ledgerEntries (record_promo_redemption tenant p c s) = ledgerEntries s"
  "ledgerTransactions (record_promo_redemption tenant p c s) = ledgerTransactions s"
  by (simp_all add: record_promo_redemption_def record_redemption_def put_redemption_def Let_def split: option.split)

text \<open>The purchase has a grant that runs for the plan's duration under the plan's policy.\<close>

definition granted :: "db \<Rightarrow> time \<Rightarrow> package \<Rightarrow> compiled_policy \<Rightarrow> uuid \<Rightarrow> bool" where
  "granted s now k policy i \<longleftrightarrow> (\<exists>g\<in>set (accessGrants s). ag_purchaseId g = Some i \<and> ag_status g = G_ACTIVE \<and> ag_startsAt g = Some now \<and>
     ag_endsAt g = Some (now + pk_durationSeconds k * 1000) \<and> ag_networkPolicy g = policy_json policy)"

lemma put_grant_frame [simp]:
  "purchases (put_grant d g s) = purchases s" "payments (put_grant d g s) = payments s" "customers (put_grant d g s) = customers s"
  "packages (put_grant d g s) = packages s" "domainEvents (put_grant d g s) = domainEvents s" "ledgerEntries (put_grant d g s) = ledgerEntries s"
  "ledgerTransactions (put_grant d g s) = ledgerTransactions s" "vouchers (put_grant d g s) = vouchers s"
  by (simp_all add: put_grant_def)

lemma put_grant_grants:
  assumes "ag_purchaseId g \<noteq> None"
  shows "\<exists>x\<in>set (accessGrants (put_grant d g s)). ag_purchaseId x = ag_purchaseId g \<and> ag_status x = ag_status g \<and>
    ag_startsAt x = ag_startsAt g \<and> ag_endsAt x = ag_endsAt g \<and> ag_networkPolicy x = ag_networkPolicy g"
proof (cases "exists_row (\<lambda>x. ag_purchaseId x \<noteq> None \<and> ag_purchaseId x = ag_purchaseId g) (accessGrants s)")
  case True
  then obtain x where "x \<in> set (accessGrants s)" "ag_purchaseId x = ag_purchaseId g" by (auto simp: exists_row_iff)
  then have "renew_grant d g x \<in> set (accessGrants (put_grant d g s))" "ag_purchaseId (renew_grant d g x) = ag_purchaseId g"
    using True assms by (auto simp: put_grant_def update_where_def renew_grant_def)
  then show ?thesis by (intro bexI [of _ "renew_grant d g x"]) (simp_all add: renew_grant_def)
next
  case False
  then show ?thesis by (intro bexI [of _ g]) (simp_all add: put_grant_def)
qed

lemma activate_purchase_cases [consumes 2, case_names refused activated]:
  assumes "activate_purchase render now tenant p paymentId provider correlation s = (r, s')" and "purchase_of tenant (pu_id p) s = Some p"
  obtains e where "r = Inl e"
    | k policy where "r = Inr ()" "package_of tenant (pu_packageId p) s = Some k" "compile_network_policy (plan_source k) = Inr policy"
        "purchase_of tenant (pu_id p) s' = Some (paid_purchase now k p)" "granted s' now k policy (pu_id p)"
        "has_key de_unique (tenant, js_trim (''purchase-paid:'' @ pu_id p)) (domainEvents s')"
        "payments s' = payments s" "customers s' = customers s" "packages s' = packages s" "ledgerEntries s' = ledgerEntries s"
        "ledgerTransactions s' = ledgerTransactions s"
proof (cases "package_of tenant (pu_packageId p) s")
  case None
  with assms have "r = Inl (NotFound ''Package not found'')" by (simp add: activate_purchase_def)
  then show ?thesis by (rule that(1))
next
  case k: (Some k)
  show ?thesis
  proof (cases "compile_network_policy (plan_source k)")
    case (Inl e)
    with assms k have "r = Inl e" by (simp add: activate_purchase_def)
    then show ?thesis by (rule that(1))
  next
    case (Inr policy)
    define s1 where "s1 = s\<lparr> purchases := update_where (\<lambda>q. pu_tenant q = tenant \<and> pu_id q = pu_id p) (paid_purchase now k) (purchases s) \<rparr>"
    define s2 where "s2 = record_promo_redemption tenant p correlation s1"
    obtain x s3 where e: "enqueue now (paid_event render tenant p paymentId provider) s2 = (x, s3)" by fastforce
    note f = enqueue_frame [OF e]
    have "purchase_of tenant (pu_id p) s1 = Some (paid_purchase now k p)"
      using assms(2) select_one_Some [OF assms(2) [unfolded purchase_of_def]]
      by (simp add: purchase_of_def s1_def select_one_update_where paid_purchase_def)
    then have p3: "purchase_of tenant (pu_id p) s3 = Some (paid_purchase now k p)"
      by (simp add: purchase_of_def f s2_def)
    define g where "g = grant_row (new_uuid s3) now (policy_json policy) None (paid_purchase now k p)"
    have s': "r = Inr ()" "s' = put_grant False g s3"
      using assms(1) k Inr e p3 by (simp_all add: activate_purchase_def Let_def g_def s1_def s2_def)
    have gf: "ag_purchaseId g = Some (pu_id p)" "ag_status g = G_ACTIVE" "ag_startsAt g = Some now"
        "ag_endsAt g = Some (now + pk_durationSeconds k * 1000)" "ag_networkPolicy g = policy_json policy"
      by (simp_all add: g_def grant_row_def paid_purchase_def)
    have gr: "granted s' now k policy (pu_id p)"
      using put_grant_grants [of g False s3] by (simp add: granted_def s'(2) gf)
    have "has_key de_unique (tenant, js_trim (''purchase-paid:'' @ pu_id p)) (domainEvents s3)"
      using e outbox.put_has_key [of "event_row (new_uuid s2) now (paid_event render tenant p paymentId provider)"]
      by (auto simp: enqueue_def Let_def de_unique_def event_row_def paid_event_def)
    then have ev: "has_key de_unique (tenant, js_trim (''purchase-paid:'' @ pu_id p)) (domainEvents s')" by (simp add: s'(2))
    have pp: "purchase_of tenant (pu_id p) s' = Some (paid_purchase now k p)"
      using p3 by (simp add: purchase_of_def s'(2))
    show ?thesis
      by (rule that(2) [OF s'(1) k Inr pp gr ev]) (simp_all add: s'(2) f s2_def s1_def)
  qed
qed

subsection \<open>Confirmation as a whole\<close>

text \<open>The foreign keys of a purchase.\<close>

definition purchases_linked :: "db \<Rightarrow> bool" where
  "purchases_linked s \<longleftrightarrow> list_all (\<lambda>p. customer_of (pu_tenant p) (pu_customerId p) s \<noteq> None \<and> package_of (pu_tenant p) (pu_packageId p) s \<noteq> None)
     (purchases s)"

lemma get_purchase_linked:
  assumes "purchases_linked s" and "customers s' = customers s" and "packages s' = packages s"
    and "purchase_of tenant i s = Some p" and "purchase_of tenant i s' = Some q"
    and "pu_tenant q = pu_tenant p" and "pu_customerId q = pu_customerId p" and "pu_packageId q = pu_packageId p"
  shows "\<exists>v. get_purchase tenant i s' = Inr v"
proof -
  have "p \<in> set (purchases s)" using select_one_Some [OF assms(4) [unfolded purchase_of_def]] by simp
  then have "customer_of (pu_tenant p) (pu_customerId p) s \<noteq> None" "package_of (pu_tenant p) (pu_packageId p) s \<noteq> None"
    using assms(1) by (simp_all add: purchases_linked_def list_all_iff)
  then have "customer_of (pu_tenant q) (pu_customerId q) s' \<noteq> None" "package_of (pu_tenant q) (pu_packageId q) s' \<noteq> None"
    by (simp_all add: customer_of_def package_of_def assms(2,3,6-8))
  then obtain c k where "customer_of (pu_tenant q) (pu_customerId q) s' = Some c" "package_of (pu_tenant q) (pu_packageId q) s' = Some k" by blast
  then show ?thesis by (simp add: get_purchase_def assms(5) view_purchase_def Let_def)
qed

lemma confirm_body_cases [consumes 1, case_names refused settled cancelled paid]:
  assumes "confirm_body clash render cid now tenant i provider input s = (r, s')"
  obtains e where "r = Inl e"
    | p where "purchase_of tenant i s = Some p" "r = Inr None" "s' = s"
        "pu_status p \<in> {PU_ACTIVE, PU_PAID} \<or> pu_status p = PU_PENDING_PAYMENT \<and> (\<exists>y\<in>set (payments s).
           has_idempotency_key tenant (confirm_key i input) y \<and> py_purchaseId y = Some i \<and> py_provider y = provider \<and> py_status y = PY_PAID)"
    | p y where "purchase_of tenant i s = Some p" "pu_status p = PU_PENDING_PAYMENT" "payment_failed input" "r = Inr (Some y)"
        "purchase_of tenant i s' = Some (p\<lparr> pu_status := PU_CANCELED \<rparr>)" "payment_is s' tenant i y PY_FAILED"
        "accessGrants s' = accessGrants s" "ledgerEntries s' = ledgerEntries s" "customers s' = customers s" "packages s' = packages s"
    | p y k policy where "purchase_of tenant i s = Some p" "pu_status p = PU_PENDING_PAYMENT" "\<not> payment_failed input" "r = Inr (Some y)"
        "package_of tenant (pu_packageId p) s = Some k" "compile_network_policy (plan_source k) = Inr policy"
        "purchase_of tenant i s' = Some (paid_purchase now k p)" "granted s' now k policy i" "payment_is s' tenant i y PY_PAID"
        "has_key de_unique (tenant, js_trim (''purchase-paid:'' @ i)) (domainEvents s')" "customers s' = customers s" "packages s' = packages s"
proof (cases "purchase_of tenant i s")
  case None
  with assms have "r = Inl (NotFound ''Purchase not found'')" by (simp add: confirm_body_def)
  then show ?thesis by (rule that(1))
next
  case p: (Some p)
  have pid: "pu_tenant p = tenant" "pu_id p = i" using select_one_Some [OF p [unfolded purchase_of_def]] by simp_all
  define c where "c = (case or_else cid (pu_correlationId p) of Some c \<Rightarrow> c | None \<Rightarrow> ''purchase:'' @ i)"
  show ?thesis
  proof (cases "pu_status p = PU_PENDING_PAYMENT \<and> (\<exists>m. assert_method_can_settle tenant provider (pu_currency p) s = Inr m)")
    case False
    then have "(\<exists>e. r = Inl e) \<or> r = Inr None \<and> s' = s \<and> pu_status p \<in> {PU_ACTIVE, PU_PAID}"
      using assms p by (auto simp: confirm_body_def Let_def split: if_splits sum.splits)
    then show ?thesis using that(1,2) p by blast
  next
    case True
    then obtain m where m: "pu_status p = PU_PENDING_PAYMENT" "assert_method_can_settle tenant provider (pu_currency p) s = Inr m" by blast
    obtain r1 s1 where rec: "receive_payment clash render cid now tenant p c provider input s = (r1, s1)" by fastforce
    have def: "(r, s') = (case (r1, s1) of (Inl e, s1) \<Rightarrow> (Inl e, s1) | (Inr None, s1) \<Rightarrow> (Inr None, s1)
      | (Inr (Some y), s1) \<Rightarrow> if payment_failed input then (Inr (Some y), cancel_purchase tenant i s1)
          else (case activate_purchase render now tenant p y provider c s1 of (Inl e, s2) \<Rightarrow> (Inl e, s2) | (Inr _, s2) \<Rightarrow> (Inr (Some y), s2)))"
      using assms p m by (simp add: confirm_body_def Let_def rec flip: c_def)
    from rec show ?thesis
    proof (cases rule: receive_payment_cases)
      case (refused e)
      with def have "r = Inl e" by simp
      then show ?thesis by (rule that(1))
    next
      case known
      with def have "r = Inr None" "s' = s" by simp_all
      then show ?thesis by (rule that(2) [OF p]) (use known(3) m(1) pid in simp)
    next
      case (received y)
      have p1: "purchase_of tenant i s1 = Some p" "purchase_of tenant (pu_id p) s1 = Some p"
        using p received(2) by (simp_all add: purchase_of_def same_tables_def pid)
      show ?thesis
      proof (cases "payment_failed input")
        case True
        with def received(1) have r: "r = Inr (Some y)" "s' = cancel_purchase tenant i s1" by simp_all
        have "purchase_of tenant i s' = Some (p\<lparr> pu_status := PU_CANCELED \<rparr>)"
          using p1(1) pid by (simp add: r(2) cancel_purchase_def purchase_of_def select_one_update_where)
        then show ?thesis
          by (rule that(3) [OF p m(1) True r(1)])
            (use received(2-4) True in \<open>simp_all add: r(2) pid cancel_purchase_def payment_is_def same_tables_def\<close>)
      next
        case False
        obtain r2 s2 where act: "activate_purchase render now tenant p y provider c s1 = (r2, s2)" by fastforce
        from act p1(2) show ?thesis
        proof (cases rule: activate_purchase_cases)
          case (refused e)
          with def received(1) False act have "r = Inl e" by simp
          then show ?thesis by (rule that(1))
        next
          case (activated k policy)
          with def received(1) False act have r: "r = Inr (Some y)" "s' = s2" by simp_all
          show ?thesis
            by (rule that(4) [OF p m(1) False r(1) _ activated(3)])
              (use activated received(2,3) False in \<open>simp_all add: r(2) pid payment_is_def same_tables_def package_of_def\<close>)
        qed
      qed
    qed
  qed
qed

text \<open>C19: confirming a manual payment is atomic and idempotent. A refused confirmation changes nothing. Otherwise either it was
  settled already -- the purchase is active or paid, or a manual payment of the purchase with the same key is paid -- and nothing changes;
  or the purchase was waiting for its payment and now, if the payment failed, it is cancelled with its payment, and no grant or
  ledger entry appears; and if it was paid, the purchase is paid from now for the duration of its package, a grant runs for the
  same time under the compiled policy, the payment of the purchase is paid and the event that announces it is in the outbox. Confirming again
  changes nothing.\<close>

theorem confirmation_is_atomic:
  assumes "purchases_linked s" and "confirm_payment clash render cid now tenant i input s = (r, s')"
  shows "case r of Inl _ \<Rightarrow> s' = s
    | Inr res \<Rightarrow> (case co_paymentId res of
          None \<Rightarrow> s' = s \<and> (\<exists>p. purchase_of tenant i s = Some p \<and> (pu_status p \<in> {PU_ACTIVE, PU_PAID} \<or> pu_status p = PU_PENDING_PAYMENT \<and>
            (\<exists>y\<in>set (payments s). has_idempotency_key tenant (confirm_key i input) y \<and> py_purchaseId y = Some i \<and> py_provider y = ''manual'' \<and>
               py_status y = PY_PAID)))
        | Some y \<Rightarrow> \<exists>p. purchase_of tenant i s = Some p \<and> pu_status p = PU_PENDING_PAYMENT \<and>
            (if payment_failed input
             then purchase_of tenant i s' = Some (p\<lparr> pu_status := PU_CANCELED \<rparr>) \<and> payment_is s' tenant i y PY_FAILED \<and>
               accessGrants s' = accessGrants s \<and> ledgerEntries s' = ledgerEntries s
             else (\<exists>k policy. package_of tenant (pu_packageId p) s = Some k \<and> compile_network_policy (plan_source k) = Inr policy \<and>
               purchase_of tenant i s' = Some (paid_purchase now k p) \<and> granted s' now k policy i \<and> payment_is s' tenant i y PY_PAID \<and>
               has_key de_unique (tenant, js_trim (''purchase-paid:'' @ i)) (domainEvents s'))) \<and>
            snd (confirm_payment clash render cid' now' tenant i input' s') = s')"
proof (cases "js_lower (js_trim (cf_provider input)) = ''manual''")
  case False
  with assms(2) show ?thesis by (auto simp: confirm_payment_def Let_def)
next
  case True
  obtain r1 s1 where t: "transaction (confirm_body clash render cid now tenant i ''manual'' input) s = (r1, s1)" by fastforce
  have again: "snd (confirm_payment clash render cid' now' tenant i input' u) = u"
    if "purchase_of tenant i u = Some q" "pu_status q \<noteq> PU_PENDING_PAYMENT" for u q
  proof -
    obtain rr uu where c: "confirm_body clash render cid' now' tenant i ''manual'' input' u = (rr, uu)" by fastforce
    have "uu = u" using c that by (auto simp: confirm_body_def Let_def split: if_splits)
    then show ?thesis using c by (cases rr) (simp_all add: confirm_payment_def Let_def transaction_def split: sum.split)
  qed
  show ?thesis
  proof (cases r1)
    case (Inl e)
    then have e: "s1 = s" using transaction_error t by fast
    have "\<exists>e. r = Inl e" "s' = s" using assms(2) [unfolded confirm_payment_def Let_def True t Inl] e by auto
    then show ?thesis by auto
  next
    case (Inr paid)
    then have b: "confirm_body clash render cid now tenant i ''manual'' input s = (Inr paid, s1)" using t by (simp add: transaction_Inr)
    have res: "r = Inr \<lparr> co_purchase = v, co_paymentId = paid \<rparr> \<and> s' = s1" if "get_purchase tenant i s1 = Inr v" for v
      using assms(2) True t Inr that by (simp add: confirm_payment_def Let_def)
    from b show ?thesis
    proof (cases rule: confirm_body_cases)
      case (refused e)
      then show ?thesis by simp
    next
      case (settled p)
      obtain v where "get_purchase tenant i s1 = Inr v"
        using get_purchase_linked [OF assms(1) _ _ settled(1), of s1 p] settled by auto
      from res [OF this] settled show ?thesis by simp
    next
      case (cancelled p y)
      obtain v where "get_purchase tenant i s1 = Inr v"
        using get_purchase_linked [OF assms(1) cancelled(9,10,1,5)] by auto
      from res [OF this] cancelled again [OF cancelled(5)] show ?thesis by simp
    next
      case (paid p y k policy)
      obtain v where "get_purchase tenant i s1 = Inr v"
        using get_purchase_linked [OF assms(1) paid(11,12,1,7)] by (auto simp: paid_purchase_def)
      from res [OF this] paid again [OF paid(7)] show ?thesis by (simp add: paid_purchase_def)
    qed
  qed
qed


definition example_package :: package where
  "example_package = \<lparr> pk_tenant = ''t'', pk_id = ''k'', pk_name = ''Day'', pk_price = 500, pk_currency = ''TZS'', pk_durationSeconds = 86400,
     pk_dataLimitBytes = None, pk_downloadBps = None, pk_uploadBps = None, pk_active = True, pk_tierCode = None, pk_featured = False,
     pk_createdAt = 0, pk_devicesPerCode = None, pk_freeTrial = False, pk_freeTrialFrequency = ''UNLIMITED'' \<rparr>"

definition example_customer :: customer where
  "example_customer = \<lparr> cu_tenant = ''t'', cu_id = ''c'', cu_fullName = ''C'', cu_phone = None, cu_active = True, cu_marketingConsent = False \<rparr>"

definition example_shop :: db where
  "example_shop = empty_db\<lparr> customers := [example_customer], packages := [example_package], purchases := [example_pending_purchase] \<rparr>"

definition example_confirmation :: confirm_input where
  "example_confirmation = \<lparr> cf_provider = ''manual'', cf_providerReference = ''R1'', cf_idempotencyKey = None, cf_status = Some ''PAID'' \<rparr>"

lemma example_shop_linked: "purchases_linked example_shop"
  by (simp add: purchases_linked_def example_shop_def example_pending_purchase_def customer_of_def package_of_def select_one_def
      example_customer_def example_package_def)

lemma example_policy: "\<exists>policy. compile_network_policy (plan_source example_package) = Inr policy"
  by (simp add: compile_network_policy_def plan_source_def example_package_def finite_integer_def trunc_rat_def Let_def)

lemma example_activated: "\<exists>s'. activate_purchase render now ''t'' example_pending_purchase y provider c (example_shop\<lparr> next_id := n, payments := ps \<rparr>) = (Inr (), s')"
proof -
  obtain policy where "compile_network_policy (plan_source example_package) = Inr policy" using example_policy by blast
  moreover have "package_of ''t'' (pu_packageId example_pending_purchase) (example_shop\<lparr> next_id := n, payments := ps \<rparr>) = Some example_package"
    by (simp add: package_of_def example_shop_def example_pending_purchase_def example_package_def select_one_def)
  ultimately show ?thesis by (simp add: activate_purchase_def Let_def)
qed

lemma example_confirmed:
  "\<exists>res s'. confirm_payment (\<lambda>_. False) render None 9 ''t'' ''u'' example_confirmation example_shop = (Inr res, s') \<and> co_paymentId res = Some ''0''"
proof -
  obtain r s' where c: "confirm_payment (\<lambda>_. False) render None 9 ''t'' ''u'' example_confirmation example_shop = (r, s')" by fastforce
  obtain r1 s1 where b: "confirm_body (\<lambda>_. False) render None 9 ''t'' ''u'' ''manual'' example_confirmation example_shop = (r1, s1)" by fastforce
  obtain m where m: "assert_method_can_settle ''t'' ''manual'' ''TZS'' example_shop = Inr m" using manual_settles(2) by blast
  have p: "purchase_of ''t'' ''u'' example_shop = Some example_pending_purchase"
    by (simp add: purchase_of_def example_shop_def example_pending_purchase_def select_one_def)
  define row where "row = payment_row (new_uuid example_shop) ''t'' example_pending_purchase ''manual'' (Some (js_trim ''R1'')) PY_PAID
    (confirm_key ''u'' example_confirmation) (Some ''purchase:u'') 9"
  have no: "payments example_shop = []" "\<not> payment_failed example_confirmation" "cf_providerReference example_confirmation = ''R1''"
    "pu_id example_pending_purchase = ''u''" "pu_correlationId example_pending_purchase = None"
    "pu_status example_pending_purchase = PU_PENDING_PAYMENT" "pu_currency example_pending_purchase = ''TZS''"
    by (simp_all add: example_shop_def empty_db_def payment_failed_def example_confirmation_def example_pending_purchase_def)
  have "receive_payment (\<lambda>_. False) render None 9 ''t'' example_pending_purchase ''purchase:u'' ''manual'' example_confirmation example_shop =
      (Inr (Some (py_id row)), example_shop\<lparr> next_id := next_id example_shop + 1, payments := [row] \<rparr>)"
    by (simp add: receive_payment_def no select_one_def oldest_pending_def select_def order_limit_def Let_def row_def insert_row_def)
  moreover obtain s2 where "activate_purchase render 9 ''t'' example_pending_purchase (py_id row) ''manual'' ''purchase:u''
      (example_shop\<lparr> next_id := next_id example_shop + 1, payments := [row] \<rparr>) = (Inr (), s2)"
    using example_activated by blast
  ultimately have "r1 = Inr (Some (py_id row))"
    using b p m no by (simp add: confirm_body_def Let_def or_else_def)
  moreover have "py_id row = ''0''" by (simp add: row_def new_uuid_def example_shop_def empty_db_def nat_str_0)
  ultimately have b': "confirm_body (\<lambda>_. False) render None 9 ''t'' ''u'' ''manual'' example_confirmation example_shop = (Inr (Some ''0''), s1)"
    using b by simp
  from b' have "\<exists>v. get_purchase ''t'' ''u'' s1 = Inr v"
  proof (cases rule: confirm_body_cases)
    case (paid p y k policy)
    then show ?thesis using get_purchase_linked [OF example_shop_linked paid(11,12,1,7)] by (simp add: paid_purchase_def)
  qed (use no in simp_all)
  then obtain v where "get_purchase ''t'' ''u'' s1 = Inr v" ..
  with c b' have "r = Inr \<lparr> co_purchase = v, co_paymentId = Some ''0'' \<rparr>"
    using manual_settles(1) by (simp add: confirm_payment_def Let_def example_confirmation_def transaction_def)
  with c show ?thesis by simp
qed

theorem confirmation_is_atomic_witness:
  "\<exists>policy. granted (snd (confirm_payment (\<lambda>_. False) plain_amount None 9 ''t'' ''u'' example_confirmation example_shop)) 9 example_package policy ''u''"
proof -
  obtain res s' where c: "confirm_payment (\<lambda>_. False) plain_amount None 9 ''t'' ''u'' example_confirmation example_shop = (Inr res, s')"
    and i: "co_paymentId res = Some ''0''"
    using example_confirmed by blast
  have k: "purchase_of ''t'' ''u'' example_shop = Some p \<Longrightarrow> package_of ''t'' (pu_packageId p) example_shop = Some k \<Longrightarrow> k = example_package" for p k
    by (simp add: purchase_of_def package_of_def example_shop_def example_pending_purchase_def example_package_def select_one_def)
      (auto simp: example_package_def)
  have "\<not> payment_failed example_confirmation" by (simp add: payment_failed_def example_confirmation_def)
  with confirmation_is_atomic [OF example_shop_linked c] i k show ?thesis unfolding c by fastforce
qed

lemma enqueue_rest: "invoices (snd (enqueue now e s)) = invoices s" "webhookDeliveries (snd (enqueue now e s)) = webhookDeliveries s"
    "ledgerTransactions (snd (enqueue now e s)) = ledgerTransactions s" "ledgerEntries (snd (enqueue now e s)) = ledgerEntries s"
    "payments (snd (enqueue now e s)) = payments s"
  by (simp_all add: enqueue_def Let_def put_event_def)

lemma record_promo_rest: "invoices (record_promo_redemption tenant p c s) = invoices s"
    "webhookDeliveries (record_promo_redemption tenant p c s) = webhookDeliveries s"
  by (simp_all add: record_promo_redemption_def record_redemption_def put_redemption_def Let_def split: option.split)

lemma put_grant_rest: "invoices (put_grant d g s) = invoices s" "webhookDeliveries (put_grant d g s) = webhookDeliveries s"
  by (simp_all add: put_grant_def)

lemma activate_purchase_rest:
  assumes "activate_purchase render now tenant p y provider c s = (r, s')"
  shows "invoices s' = invoices s" "webhookDeliveries s' = webhookDeliveries s" "ledgerTransactions s' = ledgerTransactions s"
    "ledgerEntries s' = ledgerEntries s" "payments s' = payments s"
  using assms by (auto simp: activate_purchase_def Let_def enqueue_rest record_promo_rest put_grant_rest split: option.splits sum.splits)

text \<open>A manual payment that is confirmed without an earlier intent is not posted: when no payment has the confirmation's
  key and none is pending for the purchase, the confirmation records a paid payment over the price and activates
  the purchase, and ledger, invoices and webhook deliveries stay as they were; nothing marks the payment verified.\<close>

theorem direct_confirmation_skips_the_ledger:
  assumes "confirm_payment clash render cid now tenant i input s = (Inr res, s')" and "co_paymentId res = Some y"
    and "\<not> payment_failed input"
    and "select_one (has_idempotency_key tenant (confirm_key i input)) (payments s) = None" and "oldest_pending tenant i s = None"
  shows "ledgerTransactions s' = ledgerTransactions s \<and> ledgerEntries s' = ledgerEntries s \<and> invoices s' = invoices s \<and>
    webhookDeliveries s' = webhookDeliveries s \<and>
    (\<exists>p row. purchase_of tenant i s = Some p \<and> payments s' = payments s @ [row] \<and> py_id row = y \<and> py_status row = PY_PAID \<and>
       py_amount row = pu_price p \<and> \<not> py_verified row)"
proof -
  have man: "js_lower (js_trim (cf_provider input)) = ''manual''" using assms(1) by (auto simp: confirm_payment_def Let_def split: if_splits)
  obtain r1 s1 where t: "transaction (confirm_body clash render cid now tenant i ''manual'' input) s = (r1, s1)" by fastforce
  have r1: "r1 = Inr (Some y)" "s1 = s'"
    using assms(1,2) t man by (cases r1; auto simp: confirm_payment_def Let_def split: sum.splits)+
  then have b: "confirm_body clash render cid now tenant i ''manual'' input s = (Inr (Some y), s')" using t by (simp add: transaction_Inr)
  then obtain p where p: "purchase_of tenant i s = Some p" "pu_status p = PU_PENDING_PAYMENT"
    by (cases rule: confirm_body_cases) auto
  have pid: "pu_id p = i" using select_one_Some [OF p(1) [unfolded purchase_of_def]] by simp
  define c where "c = (case or_else cid (pu_correlationId p) of Some c \<Rightarrow> c | None \<Rightarrow> ''purchase:'' @ i)"
  define row where "row = payment_row (new_uuid s) tenant p ''manual'' (Some (js_trim (cf_providerReference input))) PY_PAID
    (confirm_key i input) (Some c) now"
  define s2 where "s2 = s\<lparr> next_id := next_id s + 1, payments := payments s @ [row] \<rparr>"
  have "receive_payment clash render cid now tenant p c ''manual'' input s =
      (if clash (payments s @ [row]) then (Inl (DbError ''23505''), s) else (Inr (Some (py_id row)), s2))"
    using assms(3) by (simp add: receive_payment_def Let_def pid assms(4,5) row_def s2_def insert_row_def)
  then have y: "y = py_id row" and act: "\<exists>r. activate_purchase render now tenant p (py_id row) ''manual'' c s2 = (r, s')"
    using b p assms(3) by (auto simp: confirm_body_def Let_def simp flip: c_def split: if_splits sum.splits prod.splits)
  from act obtain r where "activate_purchase render now tenant p (py_id row) ''manual'' c s2 = (r, s')" ..
  from activate_purchase_rest [OF this] p(1) y show ?thesis by (auto simp: s2_def row_def payment_row_def)
qed

theorem direct_confirmation_skips_the_ledger_witness:
  "let s' = snd (confirm_payment (\<lambda>_. False) plain_amount None 9 ''t'' ''u'' example_confirmation example_shop)
   in ledgerEntries s' = [] \<and> length (payments s') = 1"
proof -
  obtain res s' where c: "confirm_payment (\<lambda>_. False) plain_amount None 9 ''t'' ''u'' example_confirmation example_shop = (Inr res, s')"
    and i: "co_paymentId res = Some ''0''"
    using example_confirmed by blast
  have e: "\<not> payment_failed example_confirmation" "payments example_shop = []" "ledgerEntries example_shop = []"
    by (simp_all add: payment_failed_def example_confirmation_def example_shop_def empty_db_def)
  have "ledgerEntries s' = ledgerEntries example_shop \<and> (\<exists>row. payments s' = payments example_shop @ [row])"
    using direct_confirmation_skips_the_ledger [OF c i e(1)] by (auto simp: e(2) select_one_def oldest_pending_def select_def order_limit_def)
  then show ?thesis using c e by auto
qed

end
