(* ===== verification/Vouchers.thy ===== *)
theory Vouchers
  imports Purchases
begin

text \<open>
  Vouchers (\<open>vouchers/vouchers.service.ts\<close>): batches of generated codes and their redemption, which creates a
  paid purchase with a grant. \<open>random k\<close>, the bytes of the \<open>k\<close>-th call of \<open>randomBytes(12)\<close>, and
  \<open>clash\<close>, which says whether a table of vouchers violates a unique index, are parameters.
\<close>

subsection \<open>Codes\<close>

datatype code_format = LETTERS_NUMBERS | NUMBERS | LETTERS

fun code_format_name :: "code_format \<Rightarrow> string" where
  "code_format_name LETTERS_NUMBERS = ''LETTERS_NUMBERS''"
| "code_format_name NUMBERS = ''NUMBERS''"
| "code_format_name LETTERS = ''LETTERS''"

fun code_alphabet :: "code_format \<Rightarrow> string" where
  "code_alphabet NUMBERS = ''0123456789''"
| "code_alphabet LETTERS = ''ABCDEFGHIJKLMNOPQRSTUVWXYZ''"
| "code_alphabet LETTERS_NUMBERS = ''ABCDEFGHIJKLMNOPQRSTUVWXYZ0123456789''"

definition generate_code :: "code_format \<Rightarrow> 8 word list \<Rightarrow> string" where
  "generate_code format bytes =
     (let alphabet = code_alphabet format in map (\<lambda>i. alphabet ! (unat (bytes ! i) mod length alphabet)) [0..<10])"

definition assert_batch_quantity :: "jsnum \<Rightarrow> nat result" where
  "assert_batch_quantity q =
     (case q of
        Fin r \<Rightarrow> if r = of_int (trunc_rat r) \<and> 1 \<le> r \<and> r \<le> 10000 then Inr (nat (trunc_rat r))
                 else Inl (Conflict ''Voucher quantity must be between 1 and 10,000'')
      | _ \<Rightarrow> Inl (Conflict ''Voucher quantity must be between 1 and 10,000''))"

subsection \<open>Listing\<close>

record voucher_view =
  vv_voucher :: voucher
  vv_packageName :: string
  vv_batch :: "voucher_batch option"

definition list_vouchers :: "uuid \<Rightarrow> db \<Rightarrow> voucher_view list" where
  "list_vouchers tenant s =
     order_limit (\<lambda>v. - vo_createdAt (vv_voucher v)) 500
       (List.map_filter (\<lambda>v. case package_of tenant (vo_packageId v) s of
            None \<Rightarrow> None
          | Some k \<Rightarrow> Some \<lparr> vv_voucher = v, vv_packageName = pk_name k,
              vv_batch = select_one (\<lambda>b. vb_tenant b = tenant \<and> Some (vb_id b) = vo_batchId v) (voucherBatches s) \<rparr>)
         (select (\<lambda>v. vo_tenant v = tenant) (vouchers s)))"

subsection \<open>Batches\<close>

record batch_input =
  bi_packageId :: uuid
  bi_quantity :: jsnum
  bi_expiresInSeconds :: "int option"
  bi_codeFormat :: "code_format option"
  bi_printSize :: "string option"
  bi_printStyle :: "string option"

record batch_result =
  br_codes :: "string list"
  br_packageId :: uuid
  br_batchId :: uuid
  br_expiresAt :: "time option"
  br_codeFormat :: code_format
  br_printSize :: string
  br_printStyle :: string
  br_isFreeTrial :: bool

definition voucher_row :: "uuid \<Rightarrow> time \<Rightarrow> uuid \<Rightarrow> uuid \<Rightarrow> string \<Rightarrow> time option \<Rightarrow> uuid \<Rightarrow> int \<Rightarrow> voucher" where
  "voucher_row i now tenant package code expiresAt batch devices =
     \<lparr> vo_id = i, vo_tenant = tenant, vo_packageId = package, vo_code = code, vo_status = UNUSED, vo_expiresAt = expiresAt,
       vo_batchId = Some batch, vo_deviceLimit = devices, vo_usedAt = None, vo_createdAt = now \<rparr>"

text \<open>
  An insertion inside the transaction: PostgreSQL answers a violated index with \<open>23505\<close> and from then on
  refuses every statement of the transaction with \<open>25P02\<close>; the flag says whether that has happened.
\<close>

definition insert_voucher :: "(voucher list \<Rightarrow> bool) \<Rightarrow> bool \<Rightarrow> voucher \<Rightarrow> db \<Rightarrow> string result \<times> bool \<times> db" where
  "insert_voucher clash aborted v s =
     (if aborted then (Inl (DbError ''25P02''), True, s)
      else if clash (insert_row v (vouchers s)) then (Inl (DbError ''23505''), True, s)
      else (Inr (vo_code v), False, s\<lparr> next_id := next_id s + 1, vouchers := insert_row v (vouchers s) \<rparr>))"

text \<open>The attempts at one voucher; \<open>k\<close> counts the calls of \<open>randomBytes\<close>.\<close>

fun try_voucher ::
  "(voucher list \<Rightarrow> bool) \<Rightarrow> (nat \<Rightarrow> 8 word list) \<Rightarrow> code_format \<Rightarrow> (uuid \<Rightarrow> string \<Rightarrow> voucher) \<Rightarrow> nat \<Rightarrow> nat \<Rightarrow> bool \<Rightarrow> db
   \<Rightarrow> string result \<times> nat \<times> bool \<times> db" where
  "try_voucher clash random format row 0 k aborted s = (Inl (Conflict ''Could not generate a unique voucher code''), k, aborted, s)"
| "try_voucher clash random format row (Suc n) k aborted s =
     (case insert_voucher clash aborted (row (new_uuid s) (generate_code format (random k))) s of
        (Inr code, ab, s') \<Rightarrow> (Inr code, k + 1, ab, s')
      | (Inl e, ab, s') \<Rightarrow>
          if e = DbError ''23505'' then try_voucher clash random format row n (k + 1) ab s' else (Inl e, k + 1, ab, s'))"

fun make_vouchers ::
  "(voucher list \<Rightarrow> bool) \<Rightarrow> (nat \<Rightarrow> 8 word list) \<Rightarrow> code_format \<Rightarrow> (uuid \<Rightarrow> string \<Rightarrow> voucher) \<Rightarrow> nat \<Rightarrow> nat \<Rightarrow> bool \<Rightarrow> db
   \<Rightarrow> string list result \<times> db" where
  "make_vouchers clash random format row 0 k aborted s = (Inr [], s)"
| "make_vouchers clash random format row (Suc n) k aborted s =
     (case try_voucher clash random format row 5 k aborted s of
        (Inl e, _, _, s') \<Rightarrow> (Inl e, s')
      | (Inr code, k', ab, s') \<Rightarrow>
          (case make_vouchers clash random format row n k' ab s' of
             (Inl e, s'') \<Rightarrow> (Inl e, s'') | (Inr codes, s'') \<Rightarrow> (Inr (code # codes), s'')))"

definition batch_row :: "uuid \<Rightarrow> uuid \<Rightarrow> nat \<Rightarrow> batch_input \<Rightarrow> voucher_batch" where
  "batch_row i tenant quantity input = \<lparr> vb_id = i, vb_tenant = tenant, vb_packageId = bi_packageId input, vb_quantity = int quantity,
     vb_codeFormat = code_format_name (or_value (bi_codeFormat input) LETTERS_NUMBERS),
     vb_printSize = or_value (bi_printSize input) ''MINI'', vb_printStyle = or_value (bi_printStyle input) ''CLASSIC'' \<rparr>"

definition batch_expiry :: "time \<Rightarrow> batch_input \<Rightarrow> time option" where
  "batch_expiry now input = (case bi_expiresInSeconds input of
       None \<Rightarrow> None | Some n \<Rightarrow> if n = 0 then None else Some (now + n * 1000))"

definition batch_body ::
  "(voucher list \<Rightarrow> bool) \<Rightarrow> (nat \<Rightarrow> 8 word list) \<Rightarrow> time \<Rightarrow> uuid \<Rightarrow> nat \<Rightarrow> batch_input \<Rightarrow> (db, batch_result \<times> string) operation" where
  "batch_body clash random now tenant quantity input s =
     (case select_one (\<lambda>k. pk_tenant k = tenant \<and> pk_id k = bi_packageId input \<and> pk_active k) (packages s) of
        None \<Rightarrow> (Inl (NotFound ''Active package not found''), s)
      | Some k \<Rightarrow>
          (let format = or_value (bi_codeFormat input) LETTERS_NUMBERS;
               batch = batch_row (new_uuid s) tenant quantity input;
               s1 = s\<lparr> next_id := next_id s + 1, voucherBatches := insert_row batch (voucherBatches s) \<rparr>;
               row = (\<lambda>i code. voucher_row i now tenant (bi_packageId input) code (batch_expiry now input) (vb_id batch)
                        (or_value (pk_devicesPerCode k) 1))
           in case make_vouchers clash random format row quantity 0 False s1 of
                (Inl e, s2) \<Rightarrow> (Inl e, s2)
              | (Inr codes, s2) \<Rightarrow>
                  (Inr (\<lparr> br_codes = codes, br_packageId = bi_packageId input, br_batchId = vb_id batch,
                          br_expiresAt = batch_expiry now input, br_codeFormat = format, br_printSize = vb_printSize batch,
                          br_printStyle = vb_printStyle batch, br_isFreeTrial = pk_freeTrial k \<rparr>, pk_name k), s2)))"

text \<open>\<open>createBatch\<close>; \<open>show_time\<close> renders the expiry for the audit entry.\<close>

definition create_batch ::
  "(voucher list \<Rightarrow> bool) \<Rightarrow> (nat \<Rightarrow> 8 word list) \<Rightarrow> (time \<Rightarrow> string) \<Rightarrow> string option \<Rightarrow> time \<Rightarrow> uuid \<Rightarrow> batch_input \<Rightarrow> (db, batch_result) operation" where
  "create_batch clash random show_time cid now tenant input s =
     (case assert_batch_quantity (bi_quantity input) of
        Inl e \<Rightarrow> (Inl e, s)
      | Inr quantity \<Rightarrow>
          (case transaction (batch_body clash random now tenant quantity input) s of
             (Inl e, s1) \<Rightarrow> (Inl e, s1)
           | (Inr (b, name), s1) \<Rightarrow>
               (Inr b, snd (audit_record cid now tenant ''VOUCHER_BATCH_CREATED'' ''voucher'' None
                  (jobject [(''batchId'', Some (JStr (br_batchId b))), (''packageId'', Some (JStr (br_packageId b))),
                    (''packageName'', Some (JStr name)), (''quantity'', Some (JNum (of_nat (length (br_codes b))))),
                    (''expiresAt'', Some (or_null (\<lambda>t. JStr (show_time t)) (br_expiresAt b))),
                    (''codeFormat'', Some (JStr (code_format_name (br_codeFormat b)))), (''printSize'', Some (JStr (br_printSize b))),
                    (''printStyle'', Some (JStr (br_printStyle b)))]) no_context s1))))"

subsection \<open>Redemption\<close>

record redeem_input =
  re_customerId :: uuid
  re_routerId :: "uuid option"

record redeem_result =
  rr_voucherId :: uuid
  rr_purchaseId :: uuid
  rr_startsAt :: time
  rr_endsAt :: time
  rr_deviceLimit :: int

fun voucher_status_name :: "voucher_status \<Rightarrow> string" where
  "voucher_status_name UNUSED = ''UNUSED''"
| "voucher_status_name USED = ''USED''"
| "voucher_status_name V_EXPIRED = ''EXPIRED''"
| "voucher_status_name V_REVOKED = ''REVOKED''"

text \<open>The joined row: the voucher with its package, when the customer exists.\<close>

definition find_voucher :: "uuid \<Rightarrow> uuid \<Rightarrow> string \<Rightarrow> db \<Rightarrow> (voucher \<times> package \<times> customer) option" where
  "find_voucher tenant customerId code s =
     (case customer_of tenant customerId s of
        None \<Rightarrow> None
      | Some c \<Rightarrow>
          (case select_one (\<lambda>v. vo_tenant v = tenant \<and> vo_code v = code \<and> package_of tenant (vo_packageId v) s \<noteq> None) (vouchers s) of
             None \<Rightarrow> None
           | Some v \<Rightarrow> map_option (\<lambda>k. (v, k, c)) (package_of tenant (vo_packageId v) s)))"

definition expire_voucher :: "uuid \<Rightarrow> uuid \<Rightarrow> db \<Rightarrow> db" where
  "expire_voucher tenant i s = s\<lparr> vouchers := update_where (\<lambda>v. vo_tenant v = tenant \<and> vo_id v = i)
     (\<lambda>v. v\<lparr> vo_status := V_EXPIRED \<rparr>) (vouchers s) \<rparr>"

definition use_voucher :: "time \<Rightarrow> uuid \<Rightarrow> uuid \<Rightarrow> db \<Rightarrow> db" where
  "use_voucher now tenant i s = s\<lparr> vouchers := update_where (\<lambda>v. vo_tenant v = tenant \<and> vo_id v = i)
     (\<lambda>v. v\<lparr> vo_status := USED, vo_usedAt := Some now \<rparr>) (vouchers s) \<rparr>"

text \<open>A phone that is \<open>NULL\<close> never equals another.\<close>

definition trial_claimed :: "uuid \<Rightarrow> uuid \<Rightarrow> package \<Rightarrow> customer \<Rightarrow> db \<Rightarrow> bool" where
  "trial_claimed tenant customerId k c s \<longleftrightarrow>
     pk_freeTrial k \<and> pk_freeTrialFrequency k \<noteq> ''UNLIMITED'' \<and>
     (if pk_freeTrialFrequency k = ''ONCE_PER_PHONE''
      then exists_row (\<lambda>p. pu_tenant p = tenant \<and> pu_packageId p = pk_id k \<and>
             exists_row (\<lambda>d. cu_tenant d = tenant \<and> cu_id d = pu_customerId p \<and> cu_phone d \<noteq> None \<and> cu_phone d = cu_phone c) (customers s))
           (purchases s)
      else exists_row (\<lambda>p. pu_tenant p = tenant \<and> pu_packageId p = pk_id k \<and> pu_customerId p = customerId) (purchases s))"

definition voucher_purchase :: "uuid \<Rightarrow> time \<Rightarrow> uuid \<Rightarrow> redeem_input \<Rightarrow> package \<Rightarrow> purchase" where
  "voucher_purchase i now tenant input k =
     \<lparr> pu_id = i, pu_tenant = tenant, pu_customerId = re_customerId input, pu_packageId = pk_id k, pu_routerId = re_routerId input,
       pu_price = pk_price k, pu_currency = pk_currency k, pu_discountAmount = 0, pu_promoCodeId = None, pu_status = PU_PAID,
       pu_startsAt = Some now, pu_endsAt = Some (now + pk_durationSeconds k * 1000), pu_correlationId = None, pu_createdAt = now \<rparr>"

definition redeemed_event :: "(time \<Rightarrow> string) \<Rightarrow> uuid \<Rightarrow> redeem_input \<Rightarrow> voucher \<Rightarrow> purchase \<Rightarrow> event_input" where
  "redeemed_event show_time tenant input v p =
     \<lparr> ei_tenantId = tenant, ei_eventKey = ''voucher-redeemed:'' @ vo_id v, ei_eventType = ''VOUCHER.REDEEMED'',
       ei_aggregateType = Some ''voucher'', ei_aggregateId = Some (vo_id v),
       ei_payload = jobject [(''voucherId'', Some (JStr (vo_id v))), (''customerId'', Some (JStr (re_customerId input))),
         (''packageId'', Some (JStr (vo_packageId v))), (''purchaseId'', Some (JStr (pu_id p))),
         (''routerId'', Some (or_null JStr (re_routerId input))), (''endsAt'', Some (or_null (\<lambda>t. JStr (show_time t)) (pu_endsAt p))),
         (''deviceLimit'', Some (JNum (of_int (vo_deviceLimit v))))] \<rparr>"

definition redeem_body :: "(time \<Rightarrow> string) \<Rightarrow> time \<Rightarrow> uuid \<Rightarrow> string \<Rightarrow> redeem_input \<Rightarrow> (db, voucher \<times> purchase) operation" where
  "redeem_body show_time now tenant code input s =
     (case find_voucher tenant (re_customerId input) (js_upper (js_trim code)) s of
        None \<Rightarrow> (Inl (NotFound ''Voucher or customer not found''), s)
      | Some (v, k, c) \<Rightarrow>
          if vo_status v \<noteq> UNUSED then (Inl (Conflict (''Voucher is '' @ voucher_status_name (vo_status v))), s)
          else if (case vo_expiresAt v of None \<Rightarrow> False | Some t \<Rightarrow> t \<le> now)
          then (Inl (Conflict ''Voucher has expired''), expire_voucher tenant (vo_id v) s)
          else if trial_claimed tenant (re_customerId input) k c s
          then (Inl (Conflict ''This free trial has already been claimed for the configured frequency''), s)
          else if \<not> cu_active c then (Inl (Conflict ''Customer is inactive''), s)
          else if (case re_routerId input of None \<Rightarrow> False | Some i \<Rightarrow> \<not> exists_row (\<lambda>r. ro_tenant r = tenant \<and> ro_id r = i) (routers s))
          then (Inl (NotFound ''Router not found''), s)
          else (case compile_network_policy (plan_source k) of
                  Inl e \<Rightarrow> (Inl e, s)
                | Inr policy \<Rightarrow>
                    (let p = voucher_purchase (new_uuid s) now tenant input k;
                         s1 = s\<lparr> next_id := next_id s + 1, purchases := insert_row p (purchases s) \<rparr>;
                         s2 = put_grant True (grant_row (new_uuid s1) now (policy_json policy) (Some (vo_deviceLimit v)) p) s1;
                         s3 = use_voucher now tenant (vo_id v) s2
                     in (Inr (v, p), snd (enqueue now (redeemed_event show_time tenant input v p) s3)))))"

definition redeem ::
  "(time \<Rightarrow> string) \<Rightarrow> string option \<Rightarrow> time \<Rightarrow> uuid \<Rightarrow> string \<Rightarrow> redeem_input \<Rightarrow> (db, redeem_result) operation" where
  "redeem show_time cid now tenant code input s =
     (case transaction (redeem_body show_time now tenant code input) s of
        (Inl e, s1) \<Rightarrow> (Inl e, s1)
      | (Inr (v, p), s1) \<Rightarrow>
          (Inr \<lparr> rr_voucherId = vo_id v, rr_purchaseId = pu_id p, rr_startsAt = now, rr_endsAt = or_value (pu_endsAt p) now,
                 rr_deviceLimit = vo_deviceLimit v \<rparr>,
           snd (audit_record cid now tenant ''VOUCHER_REDEEMED'' ''voucher'' (Some (vo_id v))
             (jobject [(''customerId'', Some (JStr (re_customerId input))), (''packageId'', Some (JStr (vo_packageId v))),
               (''purchaseId'', Some (JStr (pu_id p))), (''routerId'', Some (or_null JStr (re_routerId input))),
               (''deviceLimit'', Some (JNum (of_int (vo_deviceLimit v))))]) no_context s1)))"

subsection \<open>Batches are all or nothing\<close>

definition code_ok :: "code_format \<Rightarrow> string \<Rightarrow> bool" where
  "code_ok format code \<longleftrightarrow> length code = 10 \<and> set code \<subseteq> set (code_alphabet format)"

lemma code_alphabet_nonempty: "0 < length (code_alphabet format)"
  by (cases format) simp_all

lemma generate_code_ok: "code_ok format (generate_code format bytes)"
  using code_alphabet_nonempty [of format] by (auto simp: code_ok_def generate_code_def Let_def intro!: nth_mem)

text \<open>The second attempt at a voucher runs in a transaction that is aborted.\<close>

lemma try_voucher_cases [consumes 1, case_names made aborted]:
  assumes "try_voucher clash random format row 5 k False s = (r, k', ab, s')"
  obtains v where "v = row (new_uuid s) (generate_code format (random k))" "r = Inr (vo_code v)" "ab = False"
      "s' = s\<lparr> next_id := next_id s + 1, vouchers := insert_row v (vouchers s) \<rparr>"
    | "r = Inl (DbError ''25P02'')"
proof (cases "clash (insert_row (row (new_uuid s) (generate_code format (random k))) (vouchers s))")
  case True
  with assms have "r = Inl (DbError ''25P02'')" by (simp add: eval_nat_numeral insert_voucher_def)
  then show ?thesis by (rule that(2))
next
  case False
  show ?thesis by (rule that(1) [OF refl]) (use assms False in \<open>simp_all add: eval_nat_numeral insert_voucher_def\<close>)
qed

lemma make_vouchers_cases:
  assumes "make_vouchers clash random format row n k False s = (r, s')"
    and "\<And>i c. vo_code (row i c) = c" and "\<And>i c. vo_status (row i c) = UNUSED"
  shows "r = Inl (DbError ''25P02'') \<or>
    (\<exists>new. vouchers s' = vouchers s @ new \<and> r = Inr (map vo_code new) \<and> length new = n \<and> list_all (\<lambda>v. vo_status v = UNUSED) new \<and>
       list_all (code_ok format) (map vo_code new))"
  using assms
proof (induction n arbitrary: k s r s')
  case 0
  then show ?case by simp
next
  case (Suc n)
  obtain r1 k1 ab s1 where t: "try_voucher clash random format row 5 k False s = (r1, k1, ab, s1)" by (metis prod_cases4)
  from t show ?case
  proof (cases rule: try_voucher_cases)
    case (made v)
    obtain r2 s2 where m: "make_vouchers clash random format row n k1 False s1 = (r2, s2)" by fastforce
    have v: "vo_code v = generate_code format (random k)" "vo_status v = UNUSED" by (simp_all add: made(1) Suc.prems(2,3))
    from Suc.IH [OF m Suc.prems(2,3)] show ?thesis
    proof (elim disjE exE)
      assume "r2 = Inl (DbError ''25P02'')"
      with Suc.prems(1) t m made(2,3) show ?thesis by simp
    next
      fix new
      assume new: "vouchers s2 = vouchers s1 @ new \<and> r2 = Inr (map vo_code new) \<and> length new = n \<and>
        list_all (\<lambda>v. vo_status v = UNUSED) new \<and> list_all (code_ok format) (map vo_code new)"
      have "r = Inr (vo_code v # map vo_code new)" "s' = s2"
        using Suc.prems(1) t m made(2,3) new by simp_all
      then show ?thesis using new v generate_code_ok
        by (intro disjI2 exI [of _ "v # new"]) (simp add: made(4) insert_row_def)
    qed
  next
    case aborted
    with Suc.prems(1) t show ?thesis by simp
  qed
qed

text \<open>C20: a batch is all or nothing: a refused batch changes nothing, and an accepted one has between one and ten thousand
  vouchers, as many as were asked for, all unused and each with a code of ten characters of the alphabet of its format.
  The retry over colliding codes never helps: a collision aborts the transaction, so the batch fails with the
  database's \<open>25P02\<close> and never with the service's own message.\<close>

theorem batches_are_all_or_nothing:
  "case create_batch clash random show_time cid now tenant input s of
     (Inl e, s') \<Rightarrow> s' = s \<and> e \<noteq> Conflict ''Could not generate a unique voucher code'' \<and> (case e of DbError c \<Rightarrow> c = ''25P02'' | _ \<Rightarrow> True)
   | (Inr b, s') \<Rightarrow> (\<exists>new. vouchers s' = vouchers s @ new \<and> br_codes b = map vo_code new \<and>
       bi_quantity input = Fin (of_nat (length new)) \<and> length new \<in> {1..10000} \<and> list_all (\<lambda>v. vo_status v = UNUSED) new \<and>
       list_all (code_ok (br_codeFormat b)) (br_codes b))"
proof (cases "assert_batch_quantity (bi_quantity input)")
  case (Inl e)
  then have "e = Conflict ''Voucher quantity must be between 1 and 10,000''"
    by (auto simp: assert_batch_quantity_def split: jsnum.splits if_splits)
  with Inl show ?thesis by (simp add: create_batch_def)
next
  case (Inr n)
  then obtain q where q: "bi_quantity input = Fin q" "q = of_int (trunc_rat q)" "1 \<le> q" "q \<le> 10000" "n = nat (trunc_rat q)"
    by (auto simp: assert_batch_quantity_def split: jsnum.splits if_splits)
  have "(1::int) \<le> trunc_rat q" "trunc_rat q \<le> 10000" using q(2-4) by (metis of_int_1_le_iff, metis of_int_le_iff of_int_numeral)
  then have n: "n \<in> {1..10000}" "q = of_nat n" using q(2,5) by (simp_all add: nat_le_iff)
  obtain rb s1 where b: "batch_body clash random now tenant n input s = (rb, s1)" by fastforce
  show ?thesis
  proof (cases "select_one (\<lambda>k. pk_tenant k = tenant \<and> pk_id k = bi_packageId input \<and> pk_active k) (packages s)")
    case None
    then show ?thesis using Inr by (simp add: create_batch_def batch_body_def transaction_def)
  next
    case (Some k)
    define format where "format = or_value (bi_codeFormat input) LETTERS_NUMBERS"
    define batch where "batch = batch_row (new_uuid s) tenant n input"
    define row where "row = (\<lambda>i code. voucher_row i now tenant (bi_packageId input) code (batch_expiry now input) (vb_id batch)
                        (or_value (pk_devicesPerCode k) 1))"
    define s0 where "s0 = s\<lparr> next_id := next_id s + 1, voucherBatches := insert_row batch (voucherBatches s) \<rparr>"
    obtain r s2 where m: "make_vouchers clash random format row n 0 False s0 = (r, s2)" by fastforce
    have rows: "\<And>i c. vo_code (row i c) = c" "\<And>i c. vo_status (row i c) = UNUSED" by (simp_all add: row_def voucher_row_def)
    have body: "batch_body clash random now tenant n input s = (case (r, s2) of
                (Inl e, s2) \<Rightarrow> (Inl e, s2)
              | (Inr codes, s2) \<Rightarrow>
                  (Inr (\<lparr> br_codes = codes, br_packageId = bi_packageId input, br_batchId = vb_id batch,
                          br_expiresAt = batch_expiry now input, br_codeFormat = format, br_printSize = vb_printSize batch,
                          br_printStyle = vb_printStyle batch, br_isFreeTrial = pk_freeTrial k \<rparr>, pk_name k), s2))"
      unfolding m [symmetric] by (simp only: batch_body_def Some option.case Let_def format_def batch_def row_def s0_def)
    from make_vouchers_cases [OF m rows] show ?thesis
    proof (elim disjE exE)
      assume "r = Inl (DbError ''25P02'')"
      then show ?thesis using Inr body by (simp add: create_batch_def transaction_def)
    next
      fix new
      assume "vouchers s2 = vouchers s0 @ new \<and> r = Inr (map vo_code new) \<and> length new = n \<and> list_all (\<lambda>v. vo_status v = UNUSED) new \<and>
        list_all (code_ok format) (map vo_code new)"
      then show ?thesis using Inr body n q(1)
        by (simp add: create_batch_def transaction_def audit_record_def s0_def)
    qed
  qed
qed

subsection \<open>A voucher is redeemed once\<close>

lemma voucher_purchase_id [simp]: "pu_id (voucher_purchase i now tenant input k) = i"
  by (simp add: voucher_purchase_def)

lemma expired_rolled_back: "redeem show_time cid now tenant code input s = (Inl e, s') \<Longrightarrow> s' = s"
  by (auto simp: redeem_def transaction_def split: prod.splits sum.splits)

lemma redeem_body_cases [consumes 1, case_names refused redeemed]:
  assumes "redeem_body show_time now tenant code input s = (r, s')"
  obtains e where "r = Inl e"
    | v k c policy p s1 where "find_voucher tenant (re_customerId input) (js_upper (js_trim code)) s = Some (v, k, c)" "vo_status v = UNUSED"
        "case vo_expiresAt v of None \<Rightarrow> True | Some t \<Rightarrow> now < t" "cu_active c" "compile_network_policy (plan_source k) = Inr policy"
        "p = voucher_purchase (new_uuid s) now tenant input k"
        "s1 = put_grant True (grant_row (nat_str (next_id s + 1)) now (policy_json policy) (Some (vo_deviceLimit v)) p)
           (s\<lparr> next_id := next_id s + 1, purchases := insert_row p (purchases s) \<rparr>)"
        "s' = snd (enqueue now (redeemed_event show_time tenant input v p) (use_voucher now tenant (vo_id v) s1))" "r = Inr (v, p)"
proof (cases "find_voucher tenant (re_customerId input) (js_upper (js_trim code)) s")
  case None
  with assms have "r = Inl (NotFound ''Voucher or customer not found'')" by (simp add: redeem_body_def)
  then show ?thesis by (rule that(1))
next
  case (Some f)
  obtain v k c where f: "f = (v, k, c)" by (metis prod_cases3)
  show ?thesis
  proof (cases "\<exists>e. r = Inl e")
    case True
    then show ?thesis using that(1) by blast
  next
    case False
    then have g: "vo_status v = UNUSED" "case vo_expiresAt v of None \<Rightarrow> True | Some t \<Rightarrow> now < t" "cu_active c"
      "\<exists>policy. compile_network_policy (plan_source k) = Inr policy"
      using assms Some f by (auto simp: redeem_body_def Let_def split: if_splits option.splits sum.splits)
    then obtain policy where pol: "compile_network_policy (plan_source k) = Inr policy" by blast
    show ?thesis
      by (rule that(2) [OF Some [unfolded f] g(1-3) pol refl refl])
        (use assms Some f False pol in \<open>auto simp: redeem_body_def Let_def new_uuid_def split: if_splits\<close>)
  qed
qed


text \<open>C21: a voucher is redeemed at most once: a redemption that succeeds found an unused voucher that has not expired and an
  active customer, creates a paid purchase with a grant that runs for the package's duration under the compiled
  policy, and marks the voucher used; redeeming its code again, for whichever customer and whenever, is refused and
  changes nothing. A refused redemption, also that of an expired voucher, which is to be marked, changes nothing.\<close>

theorem vouchers_are_redeemed_once:
  "case redeem show_time cid now tenant code input s of
     (Inl e, s') \<Rightarrow> s' = s
   | (Inr res, s') \<Rightarrow>
       (\<exists>v k c policy. find_voucher tenant (re_customerId input) (js_upper (js_trim code)) s = Some (v, k, c) \<and>
          vo_status v = UNUSED \<and> cu_active c \<and> (case vo_expiresAt v of None \<Rightarrow> True | Some t \<Rightarrow> now < t) \<and>
          compile_network_policy (plan_source k) = Inr policy \<and> granted s' now k policy (rr_purchaseId res) \<and>
          purchases s' = purchases s @ [voucher_purchase (rr_purchaseId res) now tenant input k] \<and>
          vouchers s' = vouchers (use_voucher now tenant (vo_id v) s) \<and> rr_voucherId res = vo_id v) \<and>
       (\<exists>e. redeem show_time cid' now' tenant code input' s' = (Inl e, s'))"
proof -
  obtain r s1 where t: "transaction (redeem_body show_time now tenant code input) s = (r, s1)" by fastforce
  show ?thesis
  proof (cases r)
    case (Inl e)
    then have "s1 = s" using t transaction_error by fast
    then show ?thesis using t Inl by (simp add: redeem_def)
  next
    case (Inr vp)
    obtain v0 p0 where vp: "vp = (v0, p0)" by fastforce
    with t Inr have b: "redeem_body show_time now tenant code input s = (Inr (v0, p0), s1)" by (simp add: transaction_Inr)
    obtain res s' where rd: "redeem show_time cid now tenant code input s = (Inr res, s')" "rr_voucherId res = vo_id v0" "rr_purchaseId res = pu_id p0"
      "vouchers s' = vouchers s1" "purchases s' = purchases s1" "accessGrants s' = accessGrants s1" "customers s' = customers s1" "packages s' = packages s1"
      using t Inr vp by (simp add: redeem_def audit_record_def)
    from b show ?thesis
    proof (cases rule: redeem_body_cases)
      case (refused e)
      then show ?thesis by simp
    next
      case (redeemed v k c policy p s2)
      then have eq: "v0 = v" "p0 = p" by simp_all
      obtain x s3 where en: "enqueue now (redeemed_event show_time tenant input v p) (use_voucher now tenant (vo_id v) s2) = (x, s3)" by fastforce
      have s1: "s1 = s3" using redeemed(8) en by simp
      note f = enqueue_frame [OF en]
      have pid: "pu_id p = new_uuid s" by (simp add: redeemed(6) voucher_purchase_def)
      have pur: "purchases s' = purchases s @ [voucher_purchase (rr_purchaseId res) now tenant input k]"
        using redeemed(6) by (simp add: rd s1 f use_voucher_def redeemed(7) insert_row_def eq pid)
      have vou: "vouchers s' = vouchers (use_voucher now tenant (vo_id v) s)"
        by (simp add: rd s1 f use_voucher_def redeemed(7))
      have cp: "customers s' = customers s" "packages s' = packages s"
        by (simp_all add: rd s1 f use_voucher_def redeemed(7))
      define g where "g = grant_row (nat_str (next_id s + 1)) now (policy_json policy) (Some (vo_deviceLimit v)) p"
      have gf: "ag_purchaseId g = Some (pu_id p)" "ag_status g = G_ACTIVE" "ag_startsAt g = Some now"
          "ag_endsAt g = Some (now + pk_durationSeconds k * 1000)" "ag_networkPolicy g = policy_json policy"
        by (simp_all add: g_def grant_row_def redeemed(6) voucher_purchase_def)
      have "accessGrants s' = accessGrants (put_grant True g (s\<lparr> next_id := next_id s + 1, purchases := insert_row p (purchases s) \<rparr>))"
        by (simp add: rd s1 f use_voucher_def redeemed(7) g_def)
      then have gr: "granted s' now k policy (rr_purchaseId res)"
        using put_grant_grants [of g True "s\<lparr> next_id := next_id s + 1, purchases := insert_row p (purchases s) \<rparr>"]
        by (simp add: granted_def gf rd(3) eq)
      have found: "select_one (\<lambda>v. vo_tenant v = tenant \<and> vo_code v = js_upper (js_trim code) \<and> package_of tenant (vo_packageId v) s \<noteq> None)
          (vouchers s) = Some v"
        using redeemed(1) by (auto simp: find_voucher_def split: option.splits)
      have vt: "vo_tenant v = tenant" using select_one_Some [OF found] by simp
      have found': "select_one (\<lambda>v. vo_tenant v = tenant \<and> vo_code v = js_upper (js_trim code) \<and> package_of tenant (vo_packageId v) s' \<noteq> None)
          (vouchers s') = Some (v\<lparr> vo_status := USED, vo_usedAt := Some now \<rparr>)"
        unfolding vou use_voucher_def package_of_def cp(2)
        using found [unfolded package_of_def] vt by (simp add: select_one_update_where)
      obtain r3 s4 where again: "redeem_body show_time now' tenant code input' s' = (r3, s4)" by fastforce
      have "\<exists>e. r3 = Inl e"
        using again
      proof (cases rule: redeem_body_cases)
        case (redeemed v' k' c' policy' p' s5)
        then have "v' = v\<lparr> vo_status := USED, vo_usedAt := Some now \<rparr>"
          using found' by (auto simp: find_voucher_def split: option.splits)
        with redeemed(2) show ?thesis by simp
      qed blast
      then have no: "\<exists>e. redeem show_time cid' now' tenant code input' s' = (Inl e, s')"
        using again by (auto simp: redeem_def transaction_def)
      show ?thesis
        unfolding rd(1) using redeemed(1-5) gr pur vou rd(2) eq no by auto
    qed
  qed
qed

end
