(* ===== verification/Sessions.thy ===== *)
theory Sessions
  imports CommandWorker DomainEvents "HOL-Library.Product_Lexorder"
begin

text \<open>
  Network sessions (\<open>sessions/sessions.service.ts\<close>): starting a session under an entitlement, usage, ending,
  marking stale sessions, and the reconciliation of sessions with the access grants, which is to disconnect
  customers whose access has ended. \<open>clash\<close> says whether a table of sessions violates the unique index of
  active devices; \<open>decrypt\<close> stands for the decryption of stored credentials.
\<close>

subsection \<open>Reading\<close>

definition list_sessions :: "uuid \<Rightarrow> session_status option \<Rightarrow> jsnum \<Rightarrow> db \<Rightarrow> session list" where
  "list_sessions tenant status limit s =
     order_limit (\<lambda>x. - se_startedAt x) (nat (clamp_limit 100 1 500 limit))
       (select (\<lambda>x. se_tenant x = tenant \<and> (status = None \<or> status = Some (se_status x))) (sessions s))"

definition is_session :: "uuid \<Rightarrow> uuid \<Rightarrow> session \<Rightarrow> bool" where
  "is_session tenant i x \<longleftrightarrow> se_tenant x = tenant \<and> se_id x = i"

definition get_session :: "uuid \<Rightarrow> uuid \<Rightarrow> db \<Rightarrow> session result" where
  "get_session tenant i s = (case select_one (is_session tenant i) (sessions s) of
     None \<Rightarrow> Inl (NotFound ''Session not found'') | Some x \<Rightarrow> Inr x)"

subsection \<open>The counter of a router\<close>

definition active_on :: "uuid \<Rightarrow> uuid \<Rightarrow> session list \<Rightarrow> nat" where
  "active_on tenant router t = count_where (\<lambda>x. se_tenant x = tenant \<and> se_routerId x = Some router \<and> se_status x = S_ACTIVE) t"

definition reset_router_active_users :: "uuid \<Rightarrow> uuid list \<Rightarrow> db \<Rightarrow> db" where
  "reset_router_active_users tenant ids s =
     (if ids = [] then s
      else s\<lparr> routers := update_where (\<lambda>r. ro_tenant r = tenant \<and> ro_id r \<in> set ids)
                (\<lambda>r. r\<lparr> ro_activeUsers := active_on tenant (ro_id r) (sessions s) \<rparr>) (routers s) \<rparr>)"

definition router_ids :: "uuid option list \<Rightarrow> uuid list" where
  "router_ids xs = filter (\<lambda>i. i \<noteq> []) (List.map_filter id xs)"

subsection \<open>Entitlements\<close>

text \<open>The grace period of the site of a router, in seconds.\<close>

definition grace_seconds :: "uuid \<Rightarrow> uuid option \<Rightarrow> db \<Rightarrow> int" where
  "grace_seconds tenant router s =
     (case select_one (\<lambda>x. ss_tenant x = tenant \<and> ss_enabled x \<and>
             exists_row (\<lambda>r. ro_tenant r = tenant \<and> ro_locationId r = Some (ss_locationId x) \<and> router = Some (ro_id r)) (routers s))
             (siteSettings s) of
        None \<Rightarrow> 0 | Some x \<Rightarrow> ss_gracePeriodSeconds x)"

text \<open>The grant is active at \<open>now\<close>, with the grace period of the given router, or of its own.\<close>

definition grant_runs :: "db \<Rightarrow> time \<Rightarrow> uuid option \<Rightarrow> access_grant \<Rightarrow> bool" where
  "grant_runs s now router g \<longleftrightarrow> ag_status g = G_ACTIVE \<and> (case ag_startsAt g of None \<Rightarrow> False | Some t \<Rightarrow> t \<le> now) \<and>
     (case ag_endsAt g of None \<Rightarrow> True
      | Some t \<Rightarrow> now < t \<or> now < t + grace_seconds (ag_tenant g) (or_else router (ag_routerId g)) s * 1000)"

definition entitles :: "db \<Rightarrow> time \<Rightarrow> uuid \<Rightarrow> uuid \<Rightarrow> uuid option \<Rightarrow> access_grant \<Rightarrow> bool" where
  "entitles s now tenant customer router g \<longleftrightarrow> ag_tenant g = tenant \<and> ag_customerId g = customer \<and> grant_runs s now router g \<and>
     (router = None \<or> ag_routerId g = None \<or> ag_routerId g = router)"

text \<open>\<open>ORDER BY ends_at NULLS LAST, created_at DESC LIMIT 1\<close>\<close>

definition entitlement :: "time \<Rightarrow> uuid \<Rightarrow> uuid \<Rightarrow> uuid option \<Rightarrow> db \<Rightarrow> access_grant option" where
  "entitlement now tenant customer router s =
     (case order_limit (\<lambda>g. (case ag_endsAt g of None \<Rightarrow> (1 :: int, 0) | Some t \<Rightarrow> (0, t), - ag_createdAt g)) 1
             (select (entitles s now tenant customer router) (accessGrants s)) of [] \<Rightarrow> None | g # _ \<Rightarrow> Some g)"

subsection \<open>Starting and ending\<close>

record start_input =
  sn_customerId :: "uuid option"
  sn_routerId :: "uuid option"
  sn_username :: "string option"
  sn_ipAddress :: "string option"
  sn_macAddress :: "string option"

definition session_row :: "uuid \<Rightarrow> time \<Rightarrow> uuid \<Rightarrow> start_input \<Rightarrow> string option \<Rightarrow> session" where
  "session_row i now tenant input correlation =
     \<lparr> se_id = i, se_tenant = tenant, se_customerId = sn_customerId input, se_routerId = sn_routerId input,
       se_username = trim_or_null (sn_username input), se_ipAddress = sn_ipAddress input, se_macAddress = sn_macAddress input,
       se_startedAt = now, se_endedAt = None, se_bytesIn = 0, se_bytesOut = 0, se_status = S_ACTIVE, se_correlationId = correlation \<rparr>"

text \<open>The checks before the insertion, with the correlation of the entitlement.\<close>

definition check_start :: "time \<Rightarrow> uuid \<Rightarrow> start_input \<Rightarrow> db \<Rightarrow> string option result" where
  "check_start now tenant input s =
     (let router_check = (\<lambda>c. case sn_routerId input of
            None \<Rightarrow> Inr c
          | Some i \<Rightarrow> if exists_row (\<lambda>r. ro_tenant r = tenant \<and> ro_id r = i) (routers s) then Inr c else Inl (NotFound ''Router not found''))
      in case sn_customerId input of
           None \<Rightarrow> router_check None
         | Some customer \<Rightarrow>
             if \<not> exists_row (\<lambda>c. cu_tenant c = tenant \<and> cu_id c = customer \<and> cu_active c) (customers s)
             then Inl (NotFound ''Customer not found'')
             else (case entitlement now tenant customer (sn_routerId input) s of
                     None \<Rightarrow> Inl (Forbidden ''Active access entitlement required before starting a customer session'')
                   | Some g \<Rightarrow> router_check (ag_correlationId g)))"

definition start_session ::
  "(session list \<Rightarrow> bool) \<Rightarrow> string option \<Rightarrow> time \<Rightarrow> uuid \<Rightarrow> start_input \<Rightarrow> audit_context \<Rightarrow> (db, session) operation" where
  "start_session clash cid now tenant input ctx s =
     (case check_start now tenant input s of
        Inl e \<Rightarrow> (Inl e, s)
      | Inr granted \<Rightarrow>
          (let who = (case or_else (sn_customerId input) (sn_username input) of None \<Rightarrow> ''anonymous'' | Some w \<Rightarrow> w);
               row = session_row (new_uuid s) now tenant input (or_else (or_else cid granted) (Some (''session:'' @ who)));
               rows = insert_row row (sessions s)
           in if clash rows then (Inl (Conflict ''An active session already exists for this device on this router''), s)
              else (Inr row,
                snd (audit_record cid now tenant ''SESSION_STARTED'' ''session'' (Some (se_id row))
                  (jobject [(''routerId'', Some (or_null JStr (se_routerId row))), (''customerId'', Some (or_null JStr (se_customerId row)))]) ctx
                  (reset_router_active_users tenant (router_ids [sn_routerId input])
                    (s\<lparr> next_id := next_id s + 1, sessions := rows \<rparr>))))))"

record usage_input =
  us_bytesIn :: "nat option"
  us_bytesOut :: "nat option"

definition use_session :: "usage_input \<Rightarrow> session \<Rightarrow> session" where
  "use_session input x = x\<lparr> se_bytesIn := or_value (us_bytesIn input) (se_bytesIn x), se_bytesOut := or_value (us_bytesOut input) (se_bytesOut x) \<rparr>"

definition usage_event :: "uuid \<Rightarrow> session \<Rightarrow> event_input" where
  "usage_event tenant x =
     \<lparr> ei_tenantId = tenant,
       ei_eventKey = ''session-usage:'' @ se_id x @ '':'' @ nat_str (se_bytesIn x) @ '':'' @ nat_str (se_bytesOut x),
       ei_eventType = ''SESSION.USAGE_UPDATED'', ei_aggregateType = Some ''session'', ei_aggregateId = Some (se_id x),
       ei_payload = jobject [(''sessionId'', Some (JStr (se_id x))), (''bytesIn'', Some (JNum (of_nat (se_bytesIn x)))),
         (''bytesOut'', Some (JNum (of_nat (se_bytesOut x)))), (''bytesTotal'', Some (JNum (of_nat (se_bytesIn x + se_bytesOut x))))] \<rparr>"

definition update_usage :: "time \<Rightarrow> uuid \<Rightarrow> uuid \<Rightarrow> usage_input \<Rightarrow> (db, session) operation" where
  "update_usage now tenant i input s =
     (let P = (\<lambda>x. is_session tenant i x \<and> se_status x = S_ACTIVE)
      in case select_one P (sessions s) of
           None \<Rightarrow> (Inl (NotFound ''Active session not found''), s)
         | Some x \<Rightarrow> (Inr (use_session input x),
             snd (enqueue now (usage_event tenant (use_session input x)) (s\<lparr> sessions := update_where P (use_session input) (sessions s) \<rparr>))))"

fun session_status_name :: "session_status \<Rightarrow> string" where
  "session_status_name S_ACTIVE = ''ACTIVE''"
| "session_status_name S_STALE = ''STALE''"
| "session_status_name S_ENDED = ''ENDED''"

definition close_session :: "time \<Rightarrow> session \<Rightarrow> session" where
  "close_session now x = x\<lparr> se_status := S_ENDED, se_endedAt := or_else (se_endedAt x) (Some now) \<rparr>"

definition ended_event :: "uuid \<Rightarrow> session_status \<Rightarrow> session \<Rightarrow> event_input" where
  "ended_event tenant previous x =
     \<lparr> ei_tenantId = tenant, ei_eventKey = ''session-ended:'' @ se_id x, ei_eventType = ''SESSION.ENDED'',
       ei_aggregateType = Some ''session'', ei_aggregateId = Some (se_id x),
       ei_payload = jobject [(''sessionId'', Some (JStr (se_id x))), (''routerId'', Some (or_null JStr (se_routerId x))),
         (''bytesIn'', Some (JNum (of_nat (se_bytesIn x)))), (''bytesOut'', Some (JNum (of_nat (se_bytesOut x)))),
         (''previousState'', Some (JStr (session_status_name previous)))] \<rparr>"

definition end_session :: "string option \<Rightarrow> time \<Rightarrow> uuid \<Rightarrow> uuid \<Rightarrow> audit_context \<Rightarrow> (db, session) operation" where
  "end_session cid now tenant i ctx s =
     (case select_one (\<lambda>x. is_session tenant i x \<and> se_status x \<in> {S_ACTIVE, S_STALE}) (sessions s) of
        None \<Rightarrow> (Inl (NotFound ''Active or stale session not found''), s)
      | Some x \<Rightarrow>
          (let y = close_session now x;
               s1 = s\<lparr> sessions := update_where (is_session tenant i) (close_session now) (sessions s) \<rparr>;
               s2 = reset_router_active_users tenant (router_ids [se_routerId y]) s1;
               s3 = snd (enqueue now (ended_event tenant (se_status x) y) s2)
           in (Inr y, snd (audit_record cid now tenant ''SESSION_ENDED'' ''session'' (Some i)
                 (jobject [(''bytesIn'', Some (JNum (of_nat (se_bytesIn y)))), (''bytesOut'', Some (JNum (of_nat (se_bytesOut y)))),
                           (''previousState'', Some (JStr (session_status_name (se_status x))))]) ctx s3))))"

subsection \<open>Stale sessions\<close>

definition stale_session :: "session \<Rightarrow> session" where
  "stale_session x = x\<lparr> se_status := S_STALE, se_endedAt := None \<rparr>"

definition gone_stale :: "db \<Rightarrow> time \<Rightarrow> int \<Rightarrow> uuid \<Rightarrow> session \<Rightarrow> bool" where
  "gone_stale s now minutes tenant x \<longleftrightarrow> se_tenant x = tenant \<and> se_status x = S_ACTIVE \<and>
     (exists_row (\<lambda>r. ro_tenant r = se_tenant x \<and> se_routerId x = Some (ro_id r) \<and> ro_status r = ''OFFLINE'' \<and>
          (case ro_lastSeenAt r of None \<Rightarrow> True | Some t \<Rightarrow> t < now - minutes * 60000)) (routers s) \<or>
      \<not> exists_row (\<lambda>t. ts_tenant t = se_tenant x \<and> ts_sessionId t = Some (se_id x) \<and> now - minutes * 60000 \<le> ts_sampledAt t) (trafficSamples s))"

definition reconcile_stale :: "time \<Rightarrow> uuid \<Rightarrow> rat \<Rightarrow> db \<Rightarrow> session list \<times> db" where
  "reconcile_stale now tenant staleMinutes s =
     (let minutes = min (max (trunc_rat staleMinutes) 5) 1440;
          P = gone_stale s now minutes tenant;
          rows = select P (sessions s)
      in (map stale_session rows,
          reset_router_active_users tenant (router_ids (map se_routerId rows))
            (s\<lparr> sessions := update_where P stale_session (sessions s) \<rparr>)))"

definition mark_session_stale :: "uuid \<Rightarrow> uuid \<Rightarrow> uuid option \<Rightarrow> db \<Rightarrow> db" where
  "mark_session_stale tenant i router s =
     reset_router_active_users tenant (router_ids [router])
       (s\<lparr> sessions := update_where (\<lambda>x. is_session tenant i x \<and> se_status x = S_ACTIVE) stale_session (sessions s) \<rparr>)"

subsection \<open>Reconciliation of access\<close>

definition has_active_grant :: "db \<Rightarrow> time \<Rightarrow> session \<Rightarrow> bool" where
  "has_active_grant s now x \<longleftrightarrow>
     exists_row (\<lambda>g. ag_tenant g = se_tenant x \<and> se_customerId x = Some (ag_customerId g) \<and> grant_runs s now (se_routerId x) g \<and>
                     (ag_routerId g = None \<or> ag_routerId g = se_routerId x)) (accessGrants s)"

definition verify_no_active_grant :: "time \<Rightarrow> uuid \<Rightarrow> uuid \<Rightarrow> db \<Rightarrow> bool" where
  "verify_no_active_grant now tenant i s \<longleftrightarrow> exists_row (\<lambda>x. is_session tenant i x \<and> has_active_grant s now x) (sessions s)"

definition grant_over :: "db \<Rightarrow> time \<Rightarrow> uuid \<Rightarrow> access_grant \<Rightarrow> bool" where
  "grant_over s now tenant g \<longleftrightarrow> ag_tenant g = tenant \<and> ag_status g = G_ACTIVE \<and>
     (case ag_endsAt g of None \<Rightarrow> False | Some t \<Rightarrow> t + grace_seconds (ag_tenant g) (ag_routerId g) s * 1000 \<le> now)"

definition grant_event :: "uuid \<Rightarrow> access_grant \<Rightarrow> event_input" where
  "grant_event tenant g =
     \<lparr> ei_tenantId = tenant, ei_eventKey = ''access-grant-expired:'' @ ag_id g, ei_eventType = ''ACCESS.GRANT_EXPIRED'',
       ei_aggregateType = Some ''access_grant'', ei_aggregateId = Some (ag_id g),
       ei_payload = jobject [(''accessGrantId'', Some (JStr (ag_id g))), (''customerId'', Some (JStr (ag_customerId g))),
         (''routerId'', Some (or_null JStr (ag_routerId g)))] \<rparr>"

definition expire_grants :: "time \<Rightarrow> uuid \<Rightarrow> db \<Rightarrow> access_grant list \<times> db" where
  "expire_grants now tenant s =
     (let over = select (grant_over s now tenant) (accessGrants s);
          s1 = s\<lparr> accessGrants := update_where (\<lambda>g. ag_tenant g = tenant \<and> ag_id g \<in> set (map ag_id over) \<and> ag_status g = G_ACTIVE)
                    (\<lambda>g. g\<lparr> ag_status := G_EXPIRED \<rparr>) (accessGrants s) \<rparr>
      in (over, fold (\<lambda>g t. snd (enqueue now (grant_event tenant g) t)) over s1))"

datatype session_outcome = Now_STALE string | Now_ENDED | Now_RETAINED

record reconciled =
  rc_sessionId :: uuid
  rc_commandId :: "uuid option"
  rc_outcome :: session_outcome

definition router_of :: "session \<Rightarrow> db \<Rightarrow> router option" where
  "router_of x s = Option.bind (se_routerId x) (\<lambda>i. select_one (\<lambda>r. ro_tenant r = se_tenant x \<and> ro_id r = i) (routers s))"

definition session_correlation :: "session \<Rightarrow> string" where
  "session_correlation x = ''access-reconcile:'' @ se_id x"

text \<open>Columns that are \<open>NULL\<close> reach the target as \<open>null\<close>.\<close>

definition reconcile_input :: "session \<Rightarrow> router option \<Rightarrow> command_input" where
  "reconcile_input x r = \<lparr> ci_routerId = se_routerId x, ci_commandType = ''DISCONNECT_SESSION'', ci_actor = Some ''access-reconciliation'',
     ci_target = Some (jobject [(''sessionId'', Some (JStr (se_id x))), (''customerId'', Some (or_null JStr (se_customerId x))),
        (''ipAddress'', Some (or_null JStr (se_ipAddress x))), (''macAddress'', Some (or_null JStr (se_macAddress x))),
        (''username'', Some (or_null JStr (se_username x)))]),
     ci_request = Some (reason_json ''ACCESS_GRANT_EXPIRED_OR_MISSING''), ci_provider = Option.bind r ro_protocol,
     ci_correlationId = Some (session_correlation x) \<rparr>"

text \<open>What an attempt needs: the router, its protocol, its endpoint and its credentials.\<close>

definition management :: "adapters \<Rightarrow> session \<Rightarrow> router option \<Rightarrow> (uuid \<times> protocol \<times> string \<times> string) option" where
  "management ads x r =
     (case (se_routerId x, r) of
        (Some i, Some q) \<Rightarrow>
          (case (ro_protocol q, ro_apiEndpoint q, ro_credentialsEncrypted q) of
             (Some p, Some endpoint, Some secret) \<Rightarrow>
               if i \<noteq> [] \<and> supports_disconnect ads p \<and> ro_managementEnabled q \<and> endpoint \<noteq> [] \<and> secret \<noteq> []
               then Some (i, p, endpoint, secret) else None
           | _ \<Rightarrow> None)
      | _ \<Rightarrow> None)"

text \<open>A session without customer passes \<open>null\<close>, which is the empty text here.\<close>

definition session_disconnect :: "session \<Rightarrow> uuid \<Rightarrow> string \<Rightarrow> protocol \<Rightarrow> disconnect_command" where
  "session_disconnect x i endpoint p =
     \<lparr> dis_routerId = i, dis_customerId = (case se_customerId x of None \<Rightarrow> [] | Some c \<Rightarrow> c), dis_sessionId = Some (se_id x),
       dis_username = se_username x, dis_targetAddress = se_ipAddress x, dis_targetMacAddress = se_macAddress x,
       dis_apiEndpoint = Some endpoint, dis_protocol = Some p \<rparr>"

text \<open>The \<open>try\<close> block.\<close>

definition attempt_disconnect ::
  "adapters \<Rightarrow> (string \<Rightarrow> string + credentials) \<Rightarrow> string option \<Rightarrow> time \<Rightarrow> uuid \<Rightarrow> audit_context \<Rightarrow> session \<Rightarrow> uuid \<times> protocol \<times> string \<times> string
   \<Rightarrow> (db, reconciled) operation" where
  "attempt_disconnect ads decrypt cid now tenant ctx x m s =
     (case m of (i, p, endpoint, secret) \<Rightarrow>
        (case decrypt secret of
           Inl message \<Rightarrow> (Inl (PlainError message), s)
         | Inr creds \<Rightarrow>
             (case disconnect_client ads cid now (session_disconnect x i endpoint p) (Some creds) p (Some tenant) (Some (session_correlation x)) s of
                (Inl e, s1) \<Rightarrow> (Inl e, s1)
              | (Inr d, s1) \<Rightarrow>
                  (let res = (\<lambda>o'. \<lparr> rc_sessionId = se_id x, rc_commandId = den_commandId d, rc_outcome = o' \<rparr>)
                   in if verify_no_active_grant now tenant (se_id x) s1 then (Inr (res Now_RETAINED), s1)
                      else if den_verified d
                      then (case end_session cid now tenant (se_id x) ctx s1 of (Inl e, s2) \<Rightarrow> (Inl e, s2) | (Inr _, s2) \<Rightarrow> (Inr (res Now_ENDED), s2))
                      else (Inr (res (Now_STALE ''NETWORK_DISCONNECT_UNVERIFIED'')), mark_session_stale tenant (se_id x) (se_routerId x) s1)))))"

text \<open>The \<open>catch\<close> block.\<close>

definition disconnect_failed :: "time \<Rightarrow> uuid \<Rightarrow> session \<Rightarrow> uuid \<Rightarrow> exn \<Rightarrow> db \<Rightarrow> reconciled \<times> db" where
  "disconnect_failed now tenant x commandId e s =
     (let entries = list_commands tenant (se_routerId x) None (Fin 5) s;
          i = (case find (\<lambda>c. nc_correlationId c = Some (session_correlation x)) entries of Some c \<Rightarrow> nc_id c | None \<Rightarrow> commandId);
          s1 = (if map_option nc_status (find (\<lambda>c. nc_id c = i) entries) \<noteq> Some FAILED
                then mark_failed now tenant [i] (exn_message e) s else s)
      in (\<lparr> rc_sessionId = se_id x, rc_commandId = Some i, rc_outcome = Now_STALE ''NETWORK_DISCONNECT_FAILED'' \<rparr>,
          mark_session_stale tenant (se_id x) (se_routerId x) s1))"

definition reconcile_session ::
  "adapters \<Rightarrow> (string \<Rightarrow> string + credentials) \<Rightarrow> string option \<Rightarrow> time \<Rightarrow> uuid \<Rightarrow> audit_context \<Rightarrow> session \<times> router option
   \<Rightarrow> (db, reconciled) operation" where
  "reconcile_session ads decrypt cid now tenant ctx row s =
     (case row of (x, r) \<Rightarrow>
        (case queue cid now tenant (reconcile_input x r) s of
           (Inl e, s1) \<Rightarrow> (Inl e, s1)
         | (Inr q, s1) \<Rightarrow>
             (case management ads x r of
                None \<Rightarrow>
                  (Inr \<lparr> rc_sessionId = se_id x, rc_commandId = Some (qi_id q), rc_outcome = Now_STALE ''NETWORK_ENFORCEMENT_UNAVAILABLE'' \<rparr>,
                   mark_session_stale tenant (se_id x) (se_routerId x)
                     (mark_failed now tenant [qi_id q]
                        ''Network disconnect could not be attempted: verified router management is unavailable or unsupported'' s1))
              | Some m \<Rightarrow>
                  (case attempt_disconnect ads decrypt cid now tenant ctx x m s1 of
                     (Inr res, s2) \<Rightarrow> (Inr res, s2)
                   | (Inl e, s2) \<Rightarrow> (let (res, s3) = disconnect_failed now tenant x (qi_id q) e s2 in (Inr res, s3))))))"

record access_reconciliation =
  ar_expiredGrants :: nat
  ar_sessions :: "reconciled list"

definition outcome_json :: "reconciled \<Rightarrow> json" where
  "outcome_json r = jobject [(''sessionId'', Some (JStr (rc_sessionId r))), (''commandId'', map_option JStr (rc_commandId r)),
     (''state'', Some (JStr (case rc_outcome r of Now_STALE _ \<Rightarrow> ''STALE'' | Now_ENDED \<Rightarrow> ''ENDED'' | Now_RETAINED \<Rightarrow> ''RETAINED''))),
     (''reason'', (case rc_outcome r of Now_STALE why \<Rightarrow> Some (JStr why) | Now_ENDED \<Rightarrow> None
                   | Now_RETAINED \<Rightarrow> Some (JStr ''ACCESS_RENEWED_DURING_RECONCILIATION'')))]"

text \<open>\<open>reconcileAccessState\<close>; the enforcement details of a result are left out.\<close>

definition reconcile_access_state ::
  "adapters \<Rightarrow> (string \<Rightarrow> string + credentials) \<Rightarrow> string option \<Rightarrow> time \<Rightarrow> uuid \<Rightarrow> audit_context \<Rightarrow> (db, access_reconciliation) operation" where
  "reconcile_access_state ads decrypt cid now tenant ctx s =
     (let (over, s1) = expire_grants now tenant s;
          rows = map (\<lambda>x. (x, router_of x s1))
            (select (\<lambda>x. se_tenant x = tenant \<and> se_status x = S_ACTIVE \<and> \<not> has_active_grant s1 now x) (sessions s1))
      in case map_op (reconcile_session ads decrypt cid now tenant ctx) rows s1 of
           (Inl e, s2) \<Rightarrow> (Inl e, s2)
         | (Inr results, s2) \<Rightarrow>
             (Inr \<lparr> ar_expiredGrants = length over, ar_sessions = results \<rparr>,
              if over \<noteq> [] \<or> results \<noteq> []
              then snd (audit_record cid now tenant ''ACCESS_STATE_RECONCILED'' ''access'' None
                     (jobject [(''expiredGrantCount'', Some (JNum (of_nat (length over)))),
                       (''affectedSessionCount'', Some (JNum (of_nat (length results)))), (''results'', Some (JArr (map outcome_json results)))])
                     ctx s2)
              else s2))"

subsection \<open>What the helpers leave alone\<close>

definition same_subscribers :: "db \<Rightarrow> db \<Rightarrow> bool" where
  "same_subscribers s t \<longleftrightarrow> accessBindings t = accessBindings s \<and> accessStateEvents t = accessStateEvents s \<and>
     serviceStates t = serviceStates s \<and> serviceStateEvents t = serviceStateEvents s \<and> customers t = customers s \<and>
     notifications t = notifications s"

lemma same_subscribers_refl [simp]: "same_subscribers s s"
  by (simp add: same_subscribers_def)

lemma same_subscribers_trans: "same_subscribers s t \<Longrightarrow> same_subscribers t u \<Longrightarrow> same_subscribers s u"
  by (simp add: same_subscribers_def)

definition keeps_sessions :: "db \<Rightarrow> db \<Rightarrow> bool" where
  "keeps_sessions s t \<longleftrightarrow> sessions t = sessions s \<and> routers t = routers s \<and> deviceCalls t = deviceCalls s \<and> next_id s \<le> next_id t \<and>
     accessGrants t = accessGrants s \<and> siteSettings t = siteSettings s \<and> same_subscribers s t"

lemma keeps_sessions_refl [simp]: "keeps_sessions s s"
  by (simp add: keeps_sessions_def same_subscribers_def)

lemma keeps_sessions_trans: "keeps_sessions s t \<Longrightarrow> keeps_sessions t u \<Longrightarrow> keeps_sessions s u"
  by (simp add: keeps_sessions_def same_subscribers_def)

lemma enqueue_keeps [simp]: "keeps_sessions s (snd (enqueue now e s))"
  by (simp add: enqueue_def Let_def put_event_def keeps_sessions_def same_subscribers_def)

lemma audit_keeps [simp]: "keeps_sessions s (snd (audit_record cid now tenant a rt ri m ctx s))"
  by (simp add: audit_record_def keeps_sessions_def same_subscribers_def)

lemma mark_failed_keeps [simp]: "keeps_sessions s (mark_failed now tenant ids m s)"
  by (simp add: mark_failed_def touch_commands_def keeps_sessions_def same_subscribers_def)

lemma queue_keeps: "queue cid now tenant input s = (r, s') \<Longrightarrow> keeps_sessions s s'"
  by (auto simp: queue_def Let_def put_command_def keeps_sessions_def same_subscribers_def split: if_splits option.splits)

lemma fold_keeps: "(\<And>x s. keeps_sessions s (f x s)) \<Longrightarrow> keeps_sessions s (fold f xs s)"
  by (induction xs arbitrary: s) (auto intro: keeps_sessions_trans)

lemma expire_grants_keeps:
  "sessions (snd (expire_grants now tenant s)) = sessions s" "routers (snd (expire_grants now tenant s)) = routers s"
  "deviceCalls (snd (expire_grants now tenant s)) = deviceCalls s" "next_id s \<le> next_id (snd (expire_grants now tenant s))"
    "same_subscribers s (snd (expire_grants now tenant s))"
proof -
  have "keeps_sessions u (fold (\<lambda>g t. snd (enqueue now (grant_event tenant g) t)) gs u)" for gs u
    by (rule fold_keeps) simp
  then have "\<exists>gs. keeps_sessions (s\<lparr> accessGrants := gs \<rparr>) (snd (expire_grants now tenant s))"
    by (auto simp: expire_grants_def Let_def)
  then show "sessions (snd (expire_grants now tenant s)) = sessions s" "routers (snd (expire_grants now tenant s)) = routers s"
    "deviceCalls (snd (expire_grants now tenant s)) = deviceCalls s" "next_id s \<le> next_id (snd (expire_grants now tenant s))"
    "same_subscribers s (snd (expire_grants now tenant s))"
    by (auto simp: keeps_sessions_def same_subscribers_def)
qed

subsection \<open>The attempt to disconnect always fails\<close>

text \<open>After the first queueing the correlation belongs to a command with the first request.\<close>

lemma queue_binds:
  assumes "queue cid now tenant input s = (Inr q, s')" and "ci_correlationId input = Some k"
  obtains c where "select_one (\<lambda>c. nc_key c = Some (tenant, ci_commandType input, k)) (networkCommands s') = Some c"
    "nc_request c = jsonb (case ci_request input of None \<Rightarrow> JObj [] | Some j \<Rightarrow> j)"
proof (cases "has_key nc_key (tenant, ci_commandType input, k) (networkCommands s)")
  case False
  define row where "row = queue_row cid now tenant input (new_uuid s)"
  have key: "nc_key row = Some (tenant, ci_commandType input, k)" "nc_request row = jsonb (case ci_request input of None \<Rightarrow> JObj [] | Some j \<Rightarrow> j)"
    using assms(2) by (simp_all add: row_def queue_row_def command_row_def nc_key_def or_else_def)
  have "s' = put_command row (s\<lparr> next_id := next_id s + 1 \<rparr>)"
    using assms False by (simp add: queue_def Let_def or_else_def row_def)
  then have "networkCommands s' = insert_row row (networkCommands s)"
    using False key by (simp add: put_command_def insert_once_absent insert_row_def)
  then have "select_one (\<lambda>c. nc_key c = Some (tenant, ci_commandType input, k)) (networkCommands s') = Some row"
    using False key by (simp add: select_one_insert_row flip: select_one_key_None)
  with key(2) show thesis by (intro that)
next
  case True
  then obtain c where c: "select_one (\<lambda>c. nc_key c = Some (tenant, ci_commandType input, k)) (networkCommands s) = Some c"
    using has_key_select_one by fast
  have "s' = s\<lparr> next_id := next_id s + 1 \<rparr>" "nc_request c = jsonb (case ci_request input of None \<Rightarrow> JObj [] | Some j \<Rightarrow> j)"
    using assms True c by (auto simp: queue_def Let_def or_else_def same_operation_def split: if_splits)
  with c show thesis by (intro that [of c]) simp_all
qed

lemma queue_conflicts:
  assumes "select_one (\<lambda>c. nc_key c = Some (tenant, ci_commandType input, k)) (networkCommands s) = Some c"
    and "ci_correlationId input = Some k" and "k \<noteq> []"
    and "nc_request c \<noteq> jsonb (case ci_request input of None \<Rightarrow> JObj [] | Some j \<Rightarrow> j)"
  shows "queue cid now tenant input s = (Inl correlation_taken, s\<lparr> next_id := next_id s + 1 \<rparr>)"
proof -
  have "has_key nc_key (tenant, ci_commandType input, k) (networkCommands s)"
    using select_one_has_key [OF assms(1)] by simp
  then show ?thesis using assms by (simp add: queue_def Let_def or_else_def same_operation_def)
qed

lemma reason_json_eq: "jsonb (reason_json a) = jsonb (reason_json b) \<longleftrightarrow> a = b"
  by (simp add: reason_json_def jobject_def)

lemma attempt_disconnect_fails:
  assumes "queue cid now tenant (reconcile_input x r) s0 = (Inr q, s)" and "management ads x r = Some m"
  shows "\<exists>e s'. attempt_disconnect ads decrypt cid now tenant ctx x m s = (Inl e, s') \<and> keeps_sessions s s'"
proof -
  obtain i p endpoint secret where m: "m = (i, p, endpoint, secret)" by (metis prod_cases4)
  show ?thesis
  proof (cases "decrypt secret")
    case (Inl message)
    then show ?thesis by (simp add: attempt_disconnect_def m)
  next
    case (Inr creds)
    have "supports_disconnect ads p" using assms(2) by (auto simp: management_def m split: option.splits if_splits)
    then obtain fs where fs: "disconnect_functions ads p = Some fs"
      by (auto simp: supports_disconnect_def disconnect_functions_def split: option.splits)
    define input where "input = disconnect_input (session_disconnect x i endpoint p) p (Some (session_correlation x))"
    have cid: "ci_correlationId (reconcile_input x r) = Some (session_correlation x)" by (simp add: reconcile_input_def)
    from assms(1) cid obtain c where c:
      "select_one (\<lambda>c. nc_key c = Some (tenant, ci_commandType (reconcile_input x r), session_correlation x)) (networkCommands s) = Some c"
      "nc_request c = jsonb (case ci_request (reconcile_input x r) of None \<Rightarrow> JObj [] | Some j \<Rightarrow> j)"
      by (rule queue_binds)
    have same: "ci_commandType (reconcile_input x r) = ci_commandType input" by (simp add: reconcile_input_def input_def disconnect_input_def)
    have other: "nc_request c \<noteq> jsonb (case ci_request input of None \<Rightarrow> JObj [] | Some j \<Rightarrow> j)"
      using c(2) reason_json_eq [of "''ACCESS_GRANT_EXPIRED_OR_MISSING''" "''ACCESS_RECONCILIATION''"]
      by (simp add: reconcile_input_def input_def disconnect_input_def)
    have k: "ci_correlationId input = Some (session_correlation x)" "session_correlation x \<noteq> []"
      by (simp_all add: input_def disconnect_input_def session_correlation_def)
    have "queue cid now tenant input s = (Inl correlation_taken, s\<lparr> next_id := next_id s + 1 \<rparr>)"
      by (rule queue_conflicts [OF c(1) [unfolded same] k other])
    then have "disconnect_client ads cid now (session_disconnect x i endpoint p) (Some creds) p (Some tenant) (Some (session_correlation x)) s
        = (Inl correlation_taken, s\<lparr> next_id := next_id s + 1 \<rparr>)"
      by (simp add: disconnect_client_def fs bind_op_def input_def split: prod.split)
    then show ?thesis by (simp add: attempt_disconnect_def m Inr keeps_sessions_def same_subscribers_def)
  qed
qed

definition failed_outcome :: "reconciled \<Rightarrow> bool" where
  "failed_outcome r \<longleftrightarrow> rc_outcome r \<in> {Now_STALE ''NETWORK_ENFORCEMENT_UNAVAILABLE'', Now_STALE ''NETWORK_DISCONNECT_FAILED''}"

lemma disconnect_failed_unfold:
  obtains res t where "disconnect_failed now tenant x i e s = (res, mark_session_stale tenant (se_id x) (se_routerId x) t)"
    "keeps_sessions s t" "failed_outcome res"
proof -
  obtain res u where d: "disconnect_failed now tenant x i e s = (res, u)" by fastforce
  have "\<exists>t. u = mark_session_stale tenant (se_id x) (se_routerId x) t \<and> keeps_sessions s t" "failed_outcome res"
    using d by (auto simp: disconnect_failed_def Let_def failed_outcome_def)
  then show thesis using that d by blast
qed

lemma reconcile_session_cases [consumes 1, case_names refused stale]:
  assumes "reconcile_session ads decrypt cid now tenant ctx (x, r) s = (res, s')"
  obtains e where "res = Inl e" "keeps_sessions s s'"
    | o' t where "res = Inr o'" "failed_outcome o'" "keeps_sessions s t" "s' = mark_session_stale tenant (se_id x) (se_routerId x) t"
proof -
  obtain q s1 where q: "queue cid now tenant (reconcile_input x r) s = (q, s1)" by fastforce
  note k = queue_keeps [OF q]
  show thesis
  proof (cases q)
    case (Inl e)
    with assms q k have "res = Inl e" "keeps_sessions s s'" by (simp_all add: reconcile_session_def)
    then show ?thesis by (rule that(1))
  next
    case (Inr i)
    show ?thesis
    proof (cases "management ads x r")
      case None
      let ?t = "mark_failed now tenant [qi_id i] ''Network disconnect could not be attempted: verified router management is unavailable or unsupported'' s1"
      have "keeps_sessions s ?t" by (rule keeps_sessions_trans [OF k]) simp
      with assms q Inr None show ?thesis by (intro that(2) [of _ ?t]) (auto simp: reconcile_session_def failed_outcome_def)
    next
      case (Some m)
      obtain e s2 where a: "attempt_disconnect ads decrypt cid now tenant ctx x m s1 = (Inl e, s2)" "keeps_sessions s1 s2"
        using attempt_disconnect_fails [OF q [unfolded Inr] Some] by blast
      obtain o' t where d: "disconnect_failed now tenant x (qi_id i) e s2 = (o', mark_session_stale tenant (se_id x) (se_routerId x) t)"
        "keeps_sessions s2 t" "failed_outcome o'" by (rule disconnect_failed_unfold)
      have "keeps_sessions s t" using k a(2) d(2) by (blast intro: keeps_sessions_trans)
      moreover have "res = Inr o'" "s' = mark_session_stale tenant (se_id x) (se_routerId x) t"
        using assms q Inr Some a(1) d(1) by (simp_all add: reconcile_session_def)
      ultimately show ?thesis using d(3) by (intro that(2))
    qed
  qed
qed

subsection \<open>The loop over the sessions\<close>

definition fell_stale :: "session \<Rightarrow> session \<Rightarrow> bool" where
  "fell_stale x y \<longleftrightarrow> y = x \<or> se_status x = S_ACTIVE \<and> y = stale_session x"

lemma fell_stale_refl [simp]: "fell_stale x x"
  by (simp add: fell_stale_def)

lemma stale_session_simps [simp]:
  "se_status (stale_session x) = S_STALE" "se_id (stale_session x) = se_id x" "se_tenant (stale_session x) = se_tenant x"
  "se_routerId (stale_session x) = se_routerId x"
  by (simp_all add: stale_session_def)

lemma fell_stale_trans: "fell_stale x y \<Longrightarrow> fell_stale y z \<Longrightarrow> fell_stale x z"
  by (auto simp: fell_stale_def)

lemma all_stale_refl [simp]: "list_all2 fell_stale xs xs"
  by (simp add: list_all2_refl)

lemma all_stale_trans: "list_all2 fell_stale xs ys \<Longrightarrow> list_all2 fell_stale ys zs \<Longrightarrow> list_all2 fell_stale xs zs"
  by (rule list_all2_trans [OF fell_stale_trans])

lemma all_stale_update: "(\<And>x. P x \<Longrightarrow> se_status x = S_ACTIVE) \<Longrightarrow> list_all2 fell_stale xs (update_where P stale_session xs)"
  by (induction xs) (auto simp: update_where_Cons fell_stale_def)

definition router_key :: "router \<Rightarrow> uuid \<times> uuid \<times> uuid option" where
  "router_key r = (ro_tenant r, ro_id r, ro_locationId r)"

text \<open>What the decision about an entitlement reads.\<close>

definition keeps_access :: "db \<Rightarrow> db \<Rightarrow> bool" where
  "keeps_access s t \<longleftrightarrow> accessGrants t = accessGrants s \<and> siteSettings t = siteSettings s \<and>
     map router_key (routers t) = map router_key (routers s)"

lemma keeps_access_refl [simp]: "keeps_access s s"
  by (simp add: keeps_access_def)

lemma keeps_access_trans: "keeps_access s t \<Longrightarrow> keeps_access t u \<Longrightarrow> keeps_access s u"
  by (simp add: keeps_access_def)

lemma exists_router:
  assumes "map router_key (routers t) = map router_key (routers s)"
  shows "exists_row (\<lambda>r. ro_tenant r = a \<and> ro_locationId r = l \<and> c = Some (ro_id r)) (routers t) =
         exists_row (\<lambda>r. ro_tenant r = a \<and> ro_locationId r = l \<and> c = Some (ro_id r)) (routers s)"
proof -
  have "exists_row (\<lambda>r. ro_tenant r = a \<and> ro_locationId r = l \<and> c = Some (ro_id r)) rs =
        list_ex (\<lambda>(x, i, y). x = a \<and> y = l \<and> c = Some i) (map router_key rs)" for rs
    by (induction rs) (auto simp: exists_row_def router_key_def)
  then show ?thesis using assms by simp
qed

lemma keeps_access_grace:
  assumes "keeps_access s t"
  shows "grace_seconds a c t = grace_seconds a c s"
proof -
  have r: "map router_key (routers t) = map router_key (routers s)" and e: "siteSettings t = siteSettings s"
    using assms by (simp_all add: keeps_access_def)
  show ?thesis by (simp only: grace_seconds_def exists_router [OF r] e)
qed

lemma keeps_access_grant:
  assumes "keeps_access s t"
  shows "has_active_grant t now x = has_active_grant s now x"
proof -
  have e: "accessGrants t = accessGrants s" using assms by (simp add: keeps_access_def)
  show ?thesis by (simp only: has_active_grant_def grant_runs_def keeps_access_grace [OF assms] e)
qed

lemma reset_keeps:
  "sessions (reset_router_active_users tenant ids s) = sessions s" "deviceCalls (reset_router_active_users tenant ids s) = deviceCalls s"
  "next_id (reset_router_active_users tenant ids s) = next_id s" "keeps_access s (reset_router_active_users tenant ids s)"
  "same_subscribers u (reset_router_active_users tenant ids s) = same_subscribers u s"
proof -
  have "map router_key (update_where P (\<lambda>r. r\<lparr> ro_activeUsers := f r \<rparr>) rs) = map router_key rs" for P f rs
    by (rule map_update_where) (simp add: router_key_def)
  then show "keeps_access s (reset_router_active_users tenant ids s)"
    by (simp add: reset_router_active_users_def keeps_access_def)
qed (simp_all add: reset_router_active_users_def same_subscribers_def)

definition stale_loop :: "db \<Rightarrow> db \<Rightarrow> bool" where
  "stale_loop s t \<longleftrightarrow> deviceCalls t = deviceCalls s \<and> next_id s \<le> next_id t \<and> keeps_access s t \<and>
     same_subscribers s t \<and> list_all2 fell_stale (sessions s) (sessions t)"

lemma stale_loop_refl [simp]: "stale_loop s s"
  by (simp add: stale_loop_def)

lemma stale_loop_trans: "stale_loop s t \<Longrightarrow> stale_loop t u \<Longrightarrow> stale_loop s u"
  by (auto simp: stale_loop_def intro: keeps_access_trans all_stale_trans same_subscribers_trans)

lemma keeps_sessions_loop: "keeps_sessions s t \<Longrightarrow> stale_loop s t"
  by (simp add: keeps_sessions_def stale_loop_def keeps_access_def)

lemma mark_stale_loop: "stale_loop s (mark_session_stale tenant i router s)"
proof -
  have "keeps_access s (s\<lparr> sessions := xs \<rparr>)" "same_subscribers s (s\<lparr> sessions := xs \<rparr>)" for xs
    by (simp_all add: keeps_access_def same_subscribers_def)
  moreover have "list_all2 fell_stale (sessions s) (update_where (\<lambda>x. is_session tenant i x \<and> se_status x = S_ACTIVE) stale_session (sessions s))"
    by (rule all_stale_update) simp
  ultimately show ?thesis
    unfolding stale_loop_def mark_session_stale_def by (simp add: reset_keeps keeps_access_trans [OF _ reset_keeps(4)])
qed

definition no_active :: "uuid \<Rightarrow> uuid \<Rightarrow> db \<Rightarrow> bool" where
  "no_active tenant i s \<longleftrightarrow> \<not> exists_row (\<lambda>x. is_session tenant i x \<and> se_status x = S_ACTIVE) (sessions s)"

lemma mark_stale_no_active: "no_active tenant i (mark_session_stale tenant i router s)"
proof -
  have "\<not> list_ex (\<lambda>x. is_session tenant i x \<and> se_status x = S_ACTIVE)
      (update_where (\<lambda>x. is_session tenant i x \<and> se_status x = S_ACTIVE) stale_session xs)" for xs
    by (induction xs) (simp_all add: update_where_Cons)
  then show ?thesis by (simp add: no_active_def mark_session_stale_def reset_keeps exists_row_def)
qed

lemma stale_loop_no_active:
  assumes "stale_loop s t" and "no_active tenant i s"
  shows "no_active tenant i t"
proof -
  have "list_ex P ys \<Longrightarrow> list_all2 fell_stale xs ys \<Longrightarrow> list_ex P xs"
    if "P = (\<lambda>x. is_session tenant i x \<and> se_status x = S_ACTIVE)" for P xs ys
    using that by (induction ys arbitrary: xs) (auto simp: list_all2_Cons2 fell_stale_def)
  with assms show ?thesis by (auto simp: no_active_def stale_loop_def exists_row_def)
qed

lemma reconcile_session_step:
  assumes "reconcile_session ads decrypt cid now tenant ctx row s = (res, s')"
  shows "stale_loop s s'" "case res of Inl _ \<Rightarrow> True | Inr o' \<Rightarrow> failed_outcome o' \<and> no_active tenant (se_id (fst row)) s'"
proof -
  obtain x r where row: "row = (x, r)" by fastforce
  have "stale_loop s s' \<and> (case res of Inl _ \<Rightarrow> True | Inr o' \<Rightarrow> failed_outcome o' \<and> no_active tenant (se_id x) s')"
    using assms [unfolded row]
  proof (cases rule: reconcile_session_cases)
    case (refused e)
    then show ?thesis by (simp add: keeps_sessions_loop)
  next
    case (stale o' t)
    then have "stale_loop s s'" by (simp add: stale_loop_trans [OF keeps_sessions_loop mark_stale_loop])
    with stale show ?thesis by (simp add: mark_stale_no_active)
  qed
  then show "stale_loop s s'" "case res of Inl _ \<Rightarrow> True | Inr o' \<Rightarrow> failed_outcome o' \<and> no_active tenant (se_id (fst row)) s'"
    by (simp_all only: row fst_conv)
qed

definition unentitled :: "db \<Rightarrow> time \<Rightarrow> uuid \<Rightarrow> session \<Rightarrow> bool" where
  "unentitled s now tenant x \<longleftrightarrow> se_tenant x = tenant \<and> se_status x = S_ACTIVE \<and> \<not> has_active_grant s now x"

lemma reconcile_access_unfold:
  assumes "reconcile_access_state ads decrypt cid now tenant ctx s = (r, s')"
  obtains t where "stale_loop t s'" "sessions t = sessions s" "routers t = routers s" "deviceCalls t = deviceCalls s" "next_id s \<le> next_id t"
    "same_subscribers s t" "case r of Inl _ \<Rightarrow> True | Inr a \<Rightarrow> list_all failed_outcome (ar_sessions a) \<and>
       list_all (\<lambda>x. no_active tenant (se_id x) s') (select (unentitled t now tenant) (sessions t))"
proof -
  define t where "t = snd (expire_grants now tenant s)"
  define xs where "xs = select (unentitled t now tenant) (sessions t)"
  define rows where "rows = map (\<lambda>x. (x, router_of x t)) xs"
  obtain over where over: "expire_grants now tenant s = (over, t)" by (metis prod.collapse t_def)
  obtain r1 s2 where m: "map_op (reconcile_session ads decrypt cid now tenant ctx) rows t = (r1, s2)" by fastforce
  have "stale_loop t s2 \<and> (case r1 of Inl _ \<Rightarrow> True
       | Inr ys \<Rightarrow> list_all2 (\<lambda>x y. failed_outcome y \<and> no_active tenant (se_id (fst x)) s2) rows ys)"
    using m
  proof (rule map_op_results)
    fix x s y s' assume "reconcile_session ads decrypt cid now tenant ctx x s = (Inr y, s')"
    from reconcile_session_step(2) [OF this] show "failed_outcome y \<and> no_active tenant (se_id (fst x)) s'" by simp
  qed (auto intro: reconcile_session_step(1) stale_loop_trans stale_loop_no_active)
  then have loop: "stale_loop t s2" and res: "case r1 of Inl _ \<Rightarrow> True
       | Inr ys \<Rightarrow> list_all2 (\<lambda>x y. failed_outcome y \<and> no_active tenant (se_id (fst x)) s2) rows ys" by blast+
  have u: "reconcile_access_state ads decrypt cid now tenant ctx s =
      (case map_op (reconcile_session ads decrypt cid now tenant ctx) rows t of
           (Inl e, s2) \<Rightarrow> (Inl e, s2)
         | (Inr results, s2) \<Rightarrow>
             (Inr \<lparr> ar_expiredGrants = length over, ar_sessions = results \<rparr>,
              if over \<noteq> [] \<or> results \<noteq> []
              then snd (audit_record cid now tenant ''ACCESS_STATE_RECONCILED'' ''access'' None
                     (jobject [(''expiredGrantCount'', Some (JNum (of_nat (length over)))),
                       (''affectedSessionCount'', Some (JNum (of_nat (length results)))), (''results'', Some (JArr (map outcome_json results)))])
                     ctx s2)
              else s2))"
    by (simp add: reconcile_access_state_def over rows_def xs_def unentitled_def [abs_def])
  note base = expire_grants_keeps [where now = now and tenant = tenant and s = s, folded t_def]
  show thesis
  proof (cases r1)
    case (Inl e)
    with u m assms have "r = Inl e" "s' = s2" by simp_all
    with loop base show thesis by (intro that [of t]) simp_all
  next
    case (Inr ys)
    have k: "keeps_sessions s2 s'" and r: "r = Inr \<lparr> ar_expiredGrants = length over, ar_sessions = ys \<rparr>"
      using u m assms Inr by (auto split: if_splits)
    have l: "stale_loop t s'" using loop k by (blast intro: stale_loop_trans keeps_sessions_loop)
    have all: "list_all2 (\<lambda>x y. failed_outcome y \<and> no_active tenant (se_id (fst x)) s2) rows ys" using res Inr by simp
    have "list_all failed_outcome ys"
      using all by (auto simp: list_all_length list_all2_conv_all_nth)
    moreover have "no_active tenant (se_id x) s'" if x: "x \<in> set xs" for x
    proof -
      obtain n where "n < length xs" "xs ! n = x" using x by (auto simp: in_set_conv_nth)
      then have "no_active tenant (se_id x) s2" using all by (auto simp: list_all2_conv_all_nth rows_def)
      then show ?thesis using k by (blast intro: stale_loop_no_active keeps_sessions_loop)
    qed
    ultimately show thesis using l base by (intro that [of t]) (simp_all add: r list_all_iff xs_def)
  qed
qed

lemma reconcile_access_subscribers: "same_subscribers s (snd (reconcile_access_state ads decrypt cid now tenant ctx s))"
proof -
  obtain r s' where e: "reconcile_access_state ads decrypt cid now tenant ctx s = (r, s')" by fastforce
  from e obtain t where "stale_loop t s'" "same_subscribers s t" by (rule reconcile_access_unfold)
  with e show ?thesis by (auto simp: stale_loop_def intro: same_subscribers_trans)
qed

text \<open>\<open>reconcileAccessState\<close> is meant to disconnect the customers whose access has ended. It never calls a device: the
  second command it queues for a session carries the correlation of the first one with another reason, so the journal refuses
  it, and the attempt ends in the handler. What it does achieve: after a run that returns, no active session of the tenant is
  left without a grant that runs; each of them became \<open>STALE\<close>, every other session is as it was, and every result says that
  the network could not be reached.\<close>

theorem access_reconciliation_calls_no_device:
  "case reconcile_access_state ads decrypt cid now tenant ctx s of (r, s') \<Rightarrow>
     deviceCalls s' = deviceCalls s \<and> list_all2 fell_stale (sessions s) (sessions s') \<and>
     (case r of Inl _ \<Rightarrow> True
      | Inr a \<Rightarrow> list_all failed_outcome (ar_sessions a) \<and> \<not> exists_row (unentitled s' now tenant) (sessions s'))"
proof -
  obtain r s' where e: "reconcile_access_state ads decrypt cid now tenant ctx s = (r, s')" by fastforce
  from e obtain t where t: "stale_loop t s'" "sessions t = sessions s" "deviceCalls t = deviceCalls s"
    and res: "case r of Inl _ \<Rightarrow> True | Inr a \<Rightarrow> list_all failed_outcome (ar_sessions a) \<and>
       list_all (\<lambda>x. no_active tenant (se_id x) s') (select (unentitled t now tenant) (sessions t))"
    by (rule reconcile_access_unfold)
  have all: "list_all2 fell_stale (sessions t) (sessions s')" and acc: "keeps_access t s'" using t(1) by (simp_all add: stale_loop_def)
  have left: "\<not> unentitled s' now tenant y"
    if q: "list_all (\<lambda>x. no_active tenant (se_id x) s') (select (unentitled t now tenant) (sessions t))" and y: "y \<in> set (sessions s')" for y
  proof
    assume u: "unentitled s' now tenant y"
    obtain n where n: "n < length (sessions s')" "sessions s' ! n = y" using y by (auto simp: in_set_conv_nth)
    have "fell_stale (sessions t ! n) y" "n < length (sessions t)" using all n by (auto simp: list_all2_conv_all_nth)
    then have "y \<in> set (sessions t)" using u by (auto simp: fell_stale_def unentitled_def)
    moreover have "unentitled t now tenant y" using u by (simp add: unentitled_def keeps_access_grant [OF acc])
    ultimately have "no_active tenant (se_id y) s'" using q by (simp add: list_all_iff)
    with u y show False by (auto simp: no_active_def exists_row_iff is_session_def unentitled_def)
  qed
  have "case r of Inl _ \<Rightarrow> True
      | Inr a \<Rightarrow> list_all failed_outcome (ar_sessions a) \<and> \<not> exists_row (unentitled s' now tenant) (sessions s')"
    using res left by (auto simp: exists_row_iff split: sum.splits)
  moreover have "deviceCalls s' = deviceCalls s" using t(1,3) by (simp add: stale_loop_def)
  ultimately show ?thesis using e all t(2) by simp
qed

subsection \<open>The counters of the routers\<close>

definition counts_for :: "uuid \<Rightarrow> uuid \<Rightarrow> session \<Rightarrow> bool" where
  "counts_for a i x \<longleftrightarrow> se_tenant x = a \<and> se_routerId x = Some i \<and> se_status x = S_ACTIVE"

lemma active_on_counts: "active_on a i t = count_where (counts_for a i) t"
  by (simp add: active_on_def counts_for_def [abs_def])

lemma active_on_update:
  "(\<And>x. x \<in> set t \<Longrightarrow> P x \<Longrightarrow> counts_for a i (f x) = counts_for a i x) \<Longrightarrow> active_on a i (update_where P f t) = active_on a i t"
  by (induction t) (simp_all add: active_on_counts count_where_def update_where_Cons)

text \<open>Every router shows the number of its active sessions. The key of a session is unique.\<close>

definition counters_exact :: "db \<Rightarrow> bool" where
  "counters_exact s \<longleftrightarrow> distinct (map se_id (sessions s)) \<and> fresh_ids s (map se_id (sessions s)) \<and>
     (\<forall>r\<in>set (routers s). ro_id r = [] \<or> ro_activeUsers r = active_on (ro_tenant r) (ro_id r) (sessions s))"

lemma exact_cong:
  "counters_exact s \<Longrightarrow> sessions t = sessions s \<Longrightarrow> routers t = routers s \<Longrightarrow> next_id s \<le> next_id t \<Longrightarrow> counters_exact t"
  unfolding counters_exact_def by (metis fresh_ids_mono)

lemma exact_keeps: "counters_exact s \<Longrightarrow> keeps_sessions s t \<Longrightarrow> counters_exact t"
  by (rule exact_cong) (auto simp: keeps_sessions_def)

lemma exact_reset:
  assumes "counters_exact s" and "routers t = routers s" and "distinct (map se_id (sessions t))" and "fresh_ids t (map se_id (sessions t))"
    and "\<And>a i. i \<noteq> [] \<Longrightarrow> (a, i) \<notin> Pair tenant ` set ids \<Longrightarrow> active_on a i (sessions t) = active_on a i (sessions s)"
  shows "counters_exact (reset_router_active_users tenant ids t)"
proof -
  let ?u = "reset_router_active_users tenant ids t"
  have "ro_id r = [] \<or> ro_activeUsers r = active_on (ro_tenant r) (ro_id r) (sessions t)" if r: "r \<in> set (routers ?u)" for r
  proof -
    obtain q where q: "q \<in> set (routers s)" and
      e: "r = (if ro_tenant q = tenant \<and> ro_id q \<in> set ids then q\<lparr> ro_activeUsers := active_on tenant (ro_id q) (sessions t) \<rparr> else q)"
    proof (cases "ids = []")
      case True
      with r assms(2) show thesis by (intro that [of r]) (simp_all add: reset_router_active_users_def)
    next
      case False
      with r have "r \<in> set (update_where (\<lambda>r. ro_tenant r = tenant \<and> ro_id r \<in> set ids)
          (\<lambda>r. r\<lparr> ro_activeUsers := active_on tenant (ro_id r) (sessions t) \<rparr>) (routers s))"
        by (simp add: reset_router_active_users_def assms(2))
      with that show thesis unfolding in_update_where by blast
    qed
    have "ro_id q = [] \<or> ro_activeUsers q = active_on (ro_tenant q) (ro_id q) (sessions s)"
      using assms(1) q(1) unfolding counters_exact_def by blast
    moreover have "active_on (ro_tenant q) (ro_id q) (sessions t) = active_on (ro_tenant q) (ro_id q) (sessions s)"
      if "ro_id q \<noteq> []" "\<not> (ro_tenant q = tenant \<and> ro_id q \<in> set ids)"
      by (rule assms(5) [OF that(1)]) (use that(2) in blast)
    ultimately show ?thesis using e by (cases "ro_id q = []"; cases "ro_tenant q = tenant \<and> ro_id q \<in> set ids") auto
  qed
  then show ?thesis
    using assms(3,4) fresh_ids_mono [of t _ ?u] by (simp add: counters_exact_def reset_keeps)
qed

text \<open>An update that only touches sessions of the router the operation recounts.\<close>

lemma exact_reset_update:
  assumes "counters_exact s" and "\<And>x. se_id (f x) = se_id x" and "\<And>x. se_routerId (f x) = se_routerId x" and "\<And>x. se_tenant (f x) = se_tenant x"
    and "\<And>x i. x \<in> set (sessions s) \<Longrightarrow> P x \<Longrightarrow> se_tenant x = tenant \<and> (se_routerId x = Some i \<longrightarrow> i \<noteq> [] \<longrightarrow> i \<in> set ids)"
  shows "counters_exact (reset_router_active_users tenant ids (s\<lparr> sessions := update_where P f (sessions s) \<rparr>))"
proof (rule exact_reset [OF assms(1)])
  have "map se_id (update_where P f (sessions s)) = map se_id (sessions s)" by (rule map_update_where) (rule assms(2))
  then show "distinct (map se_id (sessions (s\<lparr> sessions := update_where P f (sessions s) \<rparr>)))"
    "fresh_ids (s\<lparr> sessions := update_where P f (sessions s) \<rparr>) (map se_id (sessions (s\<lparr> sessions := update_where P f (sessions s) \<rparr>)))"
    using assms(1) by (simp_all add: counters_exact_def fresh_ids_def)
  fix a i
  assume i: "i \<noteq> []" "(a, i) \<notin> Pair tenant ` set ids"
  have "counts_for a i (f x) = counts_for a i x" if "x \<in> set (sessions s)" "P x" for x
    using assms(3,4) assms(5) [OF that, of i] i by (auto simp: counts_for_def)
  then show "active_on a i (sessions (s\<lparr> sessions := update_where P f (sessions s) \<rparr>)) = active_on a i (sessions s)"
    by (simp add: active_on_update)
qed simp

lemma router_ids_member: "Some i \<in> set xs \<Longrightarrow> i \<noteq> [] \<Longrightarrow> i \<in> set (router_ids xs)"
  by (induction xs) (auto simp: router_ids_def List.map_filter_simps split: option.splits)

lemma router_ids_in: "x = Some i \<Longrightarrow> i \<noteq> [] \<Longrightarrow> i \<in> set (router_ids [x])"
  by (rule router_ids_member) simp

lemma exact_start: "counters_exact s \<Longrightarrow> counters_exact (snd (start_session clash cid now tenant input ctx s))"
proof -
  assume ok: "counters_exact s"
  define w where "w k = session_row (new_uuid s) now tenant input k" for k
  have w: "se_id (w k) = new_uuid s" "se_tenant (w k) = tenant" "se_routerId (w k) = sn_routerId input" for k
    by (simp_all add: w_def session_row_def)
  define u where "u k = reset_router_active_users tenant (router_ids [sn_routerId input])
      (s\<lparr> next_id := next_id s + 1, sessions := insert_row (w k) (sessions s) \<rparr>)" for k
  have exact: "counters_exact (u k)" for k
    unfolding u_def
  proof (rule exact_reset [OF ok])
    let ?t = "s\<lparr> next_id := next_id s + 1, sessions := insert_row (w k) (sessions s) \<rparr>"
    have f: "fresh_ids s (map se_id (sessions s))" using ok by (simp add: counters_exact_def)
    show "distinct (map se_id (sessions ?t))"
      using ok fresh_ids_new [OF f] by (simp add: counters_exact_def map_insert_row w)
    show "fresh_ids ?t (map se_id (sessions ?t))"
      using fresh_ids_extend [OF f, of ?t] by (simp add: map_insert_row w)
    show "active_on a i (sessions ?t) = active_on a i (sessions s)"
      if "i \<noteq> []" "(a, i) \<notin> Pair tenant ` set (router_ids [sn_routerId input])" for a i
    proof -
      have "\<not> counts_for a i (w k)"
      proof
        assume "counts_for a i (w k)"
        then have "a = tenant" "i \<in> set (router_ids [sn_routerId input])" using that(1) w by (auto simp: counts_for_def router_ids_in)
        with that(2) show False by blast
      qed
      then show ?thesis by (simp add: active_on_counts count_where_def insert_row_def)
    qed
  qed simp
  show "counters_exact (snd (start_session clash cid now tenant input ctx s))"
  proof (cases "check_start now tenant input s")
    case (Inl e)
    with ok show ?thesis by (simp add: start_session_def)
  next
    case (Inr g)
    have "start_session clash cid now tenant input ctx s =
        (let k = or_else (or_else cid g) (Some (''session:'' @ (case or_else (sn_customerId input) (sn_username input) of None \<Rightarrow> ''anonymous'' | Some w \<Rightarrow> w)))
         in if clash (insert_row (w k) (sessions s)) then (Inl (Conflict ''An active session already exists for this device on this router''), s)
            else (Inr (w k), snd (audit_record cid now tenant ''SESSION_STARTED'' ''session'' (Some (se_id (w k)))
              (jobject [(''routerId'', Some (or_null JStr (se_routerId (w k)))), (''customerId'', Some (or_null JStr (se_customerId (w k))))]) ctx (u k))))"
      by (simp only: start_session_def Let_def Inr sum.case w_def u_def)
    then show ?thesis using ok exact_keeps [OF exact audit_keeps] by (simp add: Let_def)
  qed
qed

lemma same_session: "distinct (map se_id t) \<Longrightarrow> x \<in> set t \<Longrightarrow> y \<in> set t \<Longrightarrow> is_session tenant i x \<Longrightarrow> is_session tenant i y \<Longrightarrow> y = x"
  by (auto simp: is_session_def intro: distinct_key_unique [of se_id])

lemma close_session_simps [simp]:
  "se_status (close_session now x) = S_ENDED" "se_id (close_session now x) = se_id x" "se_tenant (close_session now x) = se_tenant x"
  "se_routerId (close_session now x) = se_routerId x"
  by (simp_all add: close_session_def)

lemma use_session_simps [simp]:
  "se_status (use_session input x) = se_status x" "se_id (use_session input x) = se_id x" "se_tenant (use_session input x) = se_tenant x"
  "se_routerId (use_session input x) = se_routerId x"
  by (simp_all add: use_session_def)

lemma exact_use:
  assumes "counters_exact s"
  shows "counters_exact (snd (update_usage now tenant i input s))"
proof -
  let ?P = "\<lambda>x. is_session tenant i x \<and> se_status x = S_ACTIVE"
  have "map se_id (update_where ?P (use_session input) (sessions s)) = map se_id (sessions s)" by (rule map_update_where) simp
  moreover have "active_on a k (update_where ?P (use_session input) (sessions s)) = active_on a k (sessions s)" for a k
    by (rule active_on_update) (simp add: counts_for_def)
  ultimately have "counters_exact (s\<lparr> sessions := update_where ?P (use_session input) (sessions s) \<rparr>)"
    using assms by (simp add: counters_exact_def fresh_ids_def)
  then show ?thesis using assms exact_keeps [OF _ enqueue_keeps] by (auto simp: update_usage_def Let_def split: option.split)
qed

lemma exact_end:
  assumes "counters_exact s"
  shows "counters_exact (snd (end_session cid now tenant i ctx s))"
proof (cases "select_one (\<lambda>x. is_session tenant i x \<and> se_status x \<in> {S_ACTIVE, S_STALE}) (sessions s)")
  case None
  with assms show ?thesis by (simp add: end_session_def)
next
  case (Some x)
  then have x: "x \<in> set (sessions s)" "is_session tenant i x" by (auto dest: select_one_Some)
  have d: "distinct (map se_id (sessions s))" using assms by (simp add: counters_exact_def)
  have "counters_exact (reset_router_active_users tenant (router_ids [se_routerId (close_session now x)])
      (s\<lparr> sessions := update_where (is_session tenant i) (close_session now) (sessions s) \<rparr>))"
  proof (rule exact_reset_update [OF assms])
    fix y k assume y: "y \<in> set (sessions s)" "is_session tenant i y"
    then have "y = x" using same_session [OF d x(1) y(1) x(2) y(2)] by simp
    then show "se_tenant y = tenant \<and> (se_routerId y = Some k \<longrightarrow> k \<noteq> [] \<longrightarrow> k \<in> set (router_ids [se_routerId (close_session now x)]))"
      using x(2) by (auto simp: is_session_def router_ids_in)
  qed simp_all
  from exact_keeps [OF exact_keeps [OF this enqueue_keeps] audit_keeps] Some show ?thesis
    by (simp add: end_session_def Let_def)
qed

lemma exact_stale: "counters_exact s \<Longrightarrow> counters_exact (snd (reconcile_stale now tenant m s))"
  unfolding reconcile_stale_def Let_def snd_conv
proof (rule exact_reset_update, assumption)
  fix x i
  let ?P = "gone_stale s now (min (max (trunc_rat m) 5) 1440) tenant"
  assume x: "x \<in> set (sessions s)" "?P x"
  have "i \<in> set (router_ids (map se_routerId (select ?P (sessions s))))" if r: "se_routerId x = Some i" and i: "i \<noteq> []"
  proof (rule router_ids_member [OF _ i])
    have "se_routerId x \<in> set (map se_routerId (select ?P (sessions s)))" using x by simp
    then show "Some i \<in> set (map se_routerId (select ?P (sessions s)))" by (simp only: r)
  qed
  with x(2) show "se_tenant x = tenant \<and> (se_routerId x = Some i \<longrightarrow> i \<noteq> [] \<longrightarrow> i \<in> set (router_ids (map se_routerId (select ?P (sessions s)))))"
    by (simp add: gone_stale_def)
qed simp_all

lemma exact_mark_stale:
  assumes "counters_exact s" and "x \<in> set t" and "se_tenant x = tenant"
    and "map (\<lambda>x. (se_id x, se_routerId x)) (sessions s) = map (\<lambda>x. (se_id x, se_routerId x)) t"
  shows "counters_exact (mark_session_stale tenant (se_id x) (se_routerId x) s)"
  unfolding mark_session_stale_def
proof (rule exact_reset_update [OF assms(1)])
  fix y k assume y: "y \<in> set (sessions s)" "is_session tenant (se_id x) y \<and> se_status y = S_ACTIVE"
  have "(se_id x, se_routerId x) \<in> set (map (\<lambda>x. (se_id x, se_routerId x)) (sessions s))"
    using assms(2) by (simp add: assms(4))
  then obtain z where z: "z \<in> set (sessions s)" "se_id z = se_id x" "se_routerId z = se_routerId x" by auto
  have "distinct (map se_id (sessions s))" using assms(1) by (simp add: counters_exact_def)
  then have "y = z" using y z by (auto simp: is_session_def intro: distinct_key_unique [of se_id])
  then show "se_tenant y = tenant \<and> (se_routerId y = Some k \<longrightarrow> k \<noteq> [] \<longrightarrow> k \<in> set (router_ids [se_routerId x]))"
    using y z by (auto simp: is_session_def router_ids_in)
qed simp_all

lemma exact_access:
  assumes "counters_exact s"
  shows "counters_exact (snd (reconcile_access_state ads decrypt cid now tenant ctx s))"
proof -
  define t where "t = snd (expire_grants now tenant s)"
  obtain over where over: "expire_grants now tenant s = (over, t)" by (metis prod.collapse t_def)
  note base = expire_grants_keeps [where now = now and tenant = tenant and s = s, folded t_def]
  define keys where "keys u = map (\<lambda>x. (se_id x, se_routerId x)) (sessions u)" for u :: db
  define rows where "rows = map (\<lambda>x. (x, router_of x t)) (select (unentitled t now tenant) (sessions t))"
  obtain r1 s2 where m: "map_op (reconcile_session ads decrypt cid now tenant ctx) rows t = (r1, s2)" by fastforce
  have keys_loop: "keys v = keys u" if "stale_loop u v" for u v
  proof -
    have "list_all2 fell_stale xs ys \<Longrightarrow> map (\<lambda>x. (se_id x, se_routerId x)) ys = map (\<lambda>x. (se_id x, se_routerId x)) xs" for xs ys
      by (induction xs ys rule: list_all2_induct) (auto simp: fell_stale_def)
    with that show ?thesis by (simp add: keys_def stale_loop_def)
  qed
  have "counters_exact s2 \<and> keys s2 = keys t"
  proof (rule map_op_invariant [OF _ _ m])
    show "counters_exact t \<and> keys t = keys t" using exact_cong [OF assms base(1,2,4)] by simp
    fix row u res u'
    assume row: "row \<in> set rows" and u: "counters_exact u \<and> keys u = keys t"
      and step: "reconcile_session ads decrypt cid now tenant ctx row u = (res, u')"
    obtain x r where x: "row = (x, r)" "x \<in> set (sessions t)" "se_tenant x = tenant" using row by (auto simp: rows_def unentitled_def)
    from reconcile_session_step(1) [OF step] have k: "keys u' = keys t" using keys_loop u by simp
    from step [unfolded x(1)] have "counters_exact u'"
    proof (cases rule: reconcile_session_cases)
      case (refused e)
      with u show ?thesis by (blast intro: exact_keeps)
    next
      case (stale o' v)
      have "counters_exact v" "keys v = keys t" using u stale keys_loop [OF keeps_sessions_loop] by (auto intro: exact_keeps)
      then have "counters_exact (mark_session_stale tenant (se_id x) (se_routerId x) v)"
        by (intro exact_mark_stale [of v x "sessions t"]) (simp_all add: x keys_def)
      then show ?thesis using stale by simp
    qed
    with k show "counters_exact u' \<and> keys u' = keys t" by simp
  qed
  then have "counters_exact s2" by simp
  then show ?thesis
    using m exact_keeps [OF _ audit_keeps, of s2]
    by (simp add: reconcile_access_state_def over rows_def unentitled_def [abs_def] split: sum.split)
qed

subsection \<open>The life of a session\<close>

fun session_rank :: "session_status \<Rightarrow> nat" where
  "session_rank S_ACTIVE = 0"
| "session_rank S_STALE = 1"
| "session_rank S_ENDED = 2"

text \<open>A session keeps its identity, never returns to an earlier status, and does not change any more once it has ended.\<close>

definition moved_on :: "session \<Rightarrow> session \<Rightarrow> bool" where
  "moved_on x y \<longleftrightarrow> se_id y = se_id x \<and> se_tenant y = se_tenant x \<and> se_routerId y = se_routerId x \<and> se_startedAt y = se_startedAt x \<and>
     session_rank (se_status x) \<le> session_rank (se_status y) \<and> (y = x \<or> se_status x \<noteq> S_ENDED)"

lemma moved_on_refl [simp]: "moved_on x x"
  by (simp add: moved_on_def)

lemma moved_on_trans: "moved_on x y \<Longrightarrow> moved_on y z \<Longrightarrow> moved_on x z"
proof -
  assume "moved_on x y" "moved_on y z"
  moreover from this have "se_status y = S_ENDED" if "se_status x = S_ENDED"
    using that by (auto simp: moved_on_def)
  ultimately show ?thesis by (auto simp: moved_on_def)
qed

definition goes_on :: "session list \<Rightarrow> session list \<Rightarrow> bool" where
  "goes_on xs ys \<longleftrightarrow> length xs \<le> length ys \<and> list_all2 moved_on xs (take (length xs) ys)"

lemma goes_on_refl [simp]: "goes_on xs xs"
  by (simp add: goes_on_def list_all2_refl)

lemma goes_on_trans: "goes_on xs ys \<Longrightarrow> goes_on ys zs \<Longrightarrow> goes_on xs zs"
  unfolding goes_on_def list_all2_conv_all_nth by (auto intro: moved_on_trans)

lemma goes_on_insert [simp]: "goes_on xs (insert_row x xs)"
  by (simp add: goes_on_def insert_row_def list_all2_refl)

lemma goes_on_all2: "list_all2 moved_on xs ys \<Longrightarrow> goes_on xs ys"
  by (simp add: goes_on_def list_all2_lengthD)

lemma goes_on_update: "(\<And>x. x \<in> set xs \<Longrightarrow> P x \<Longrightarrow> moved_on x (f x)) \<Longrightarrow> goes_on xs (update_where P f xs)"
  by (rule goes_on_all2, induction xs) (simp_all add: update_where_Cons)

inductive session_step :: "db \<Rightarrow> db \<Rightarrow> bool" where
  step_start: "session_step s (snd (start_session clash cid now tenant input ctx s))"
| step_usage: "session_step s (snd (update_usage now tenant i usage s))"
| step_end: "session_step s (snd (end_session cid now tenant i ctx s))"
| step_stale: "session_step s (snd (reconcile_stale now tenant m s))"
| step_access: "session_step s (snd (reconcile_access_state ads decrypt cid now tenant ctx s))"

lemma goes_on_start: "goes_on (sessions s) (sessions (snd (start_session clash cid now tenant input ctx s)))"
proof -
  have "sessions (snd (audit_record cid now tenant a b c d e u)) = sessions u" for a b c d e u
    using audit_keeps unfolding keeps_sessions_def by blast
  then show ?thesis by (auto simp: start_session_def Let_def reset_keeps split: sum.split)
qed

lemma goes_on_end:
  assumes "counters_exact s"
  shows "goes_on (sessions s) (sessions (snd (end_session cid now tenant i ctx s)))"
proof (cases "select_one (\<lambda>x. is_session tenant i x \<and> se_status x \<in> {S_ACTIVE, S_STALE}) (sessions s)")
  case None
  then show ?thesis by (simp add: end_session_def)
next
  case (Some x)
  then have x: "x \<in> set (sessions s)" "is_session tenant i x" "se_status x \<in> {S_ACTIVE, S_STALE}" by (auto dest: select_one_Some)
  have d: "distinct (map se_id (sessions s))" using assms by (simp add: counters_exact_def)
  have "goes_on (sessions s) (update_where (is_session tenant i) (close_session now) (sessions s))"
  proof (rule goes_on_update)
    fix y assume y: "y \<in> set (sessions s)" "is_session tenant i y"
    have "y = x" by (rule same_session [OF d x(1) y(1) x(2) y(2)])
    then show "moved_on y (close_session now y)" using x(3) by (auto simp: moved_on_def close_session_def)
  qed
  moreover have "sessions (snd (audit_record cid now tenant a b c d e u)) = sessions u" "sessions (snd (enqueue now v u)) = sessions u" for a b c d e u v
    using audit_keeps enqueue_keeps unfolding keeps_sessions_def by blast+
  ultimately show ?thesis using Some by (simp add: end_session_def Let_def reset_keeps)
qed

lemma session_step_safe:
  assumes "session_step s t" and "counters_exact s"
  shows "counters_exact t" "goes_on (sessions s) (sessions t)"
proof -
  have "counters_exact t \<and> goes_on (sessions s) (sessions t)"
    using assms
  proof (cases rule: session_step.cases)
    case (step_start clash cid now tenant input ctx)
    then show ?thesis using assms(2) by (simp add: exact_start goes_on_start)
  next
    case (step_usage now tenant i usage)
    have "sessions (snd (enqueue now v u)) = sessions u" for v u using enqueue_keeps unfolding keeps_sessions_def by blast
    then have "goes_on (sessions s) (sessions t)"
      by (auto simp: step_usage update_usage_def Let_def moved_on_def use_session_def split: option.split intro: goes_on_update)
    then show ?thesis using assms(2) by (simp add: step_usage exact_use)
  next
    case (step_end cid now tenant i ctx)
    then show ?thesis using assms(2) by (simp add: exact_end goes_on_end)
  next
    case (step_stale now tenant m)
    have "goes_on (sessions s) (sessions t)"
      by (auto simp: step_stale reconcile_stale_def Let_def reset_keeps moved_on_def gone_stale_def stale_session_def intro: goes_on_update)
    then show ?thesis using assms(2) by (simp add: step_stale exact_stale)
  next
    case (step_access ads decrypt cid now tenant ctx)
    obtain r s' where e: "reconcile_access_state ads decrypt cid now tenant ctx s = (r, s')" by fastforce
    from e obtain u where "stale_loop u s'" "sessions u = sessions s" by (rule reconcile_access_unfold)
    then have "list_all2 fell_stale (sessions s) (sessions s')" by (simp add: stale_loop_def)
    then have "list_all2 moved_on (sessions s) (sessions s')"
      by (rule list_all2_mono) (auto simp: fell_stale_def moved_on_def stale_session_def)
    then show ?thesis using assms(2) e exact_access [OF assms(2), of ads decrypt cid now tenant ctx] by (simp add: step_access goes_on_all2)
  qed
  then show "counters_exact t" "goes_on (sessions s) (sessions t)" by blast+
qed

text \<open>C25: The number of active users of every router is exact: it is the number of its active sessions, and every sequence of
  starting, using and ending sessions, marking stale ones and reconciling access keeps it so. Along the way sessions are only
  added, their status only moves from \<open>ACTIVE\<close> over \<open>STALE\<close> to \<open>ENDED\<close>, and an ended session never changes.\<close>

theorem router_counters_are_exact:
  assumes "session_step\<^sup>*\<^sup>* s t" and "counters_exact s"
  shows "counters_exact t \<and> goes_on (sessions s) (sessions t)"
  using assms
proof (induction rule: rtranclp_induct)
  case base
  then show ?case by simp
next
  case (step t u)
  then show ?case using session_step_safe [OF step.hyps(2)] goes_on_trans by blast
qed

definition example_router :: router where
  "example_router = \<lparr> ro_tenant = ''t'', ro_id = ''r'', ro_locationId = None, ro_status = ''ONLINE'', ro_lastSeenAt = None, ro_activeUsers = 0,
     ro_enabled = True, ro_apiEndpoint = None, ro_protocol = None, ro_managementEnabled = False, ro_credentialsEncrypted = None,
     ro_apiEnabled = False, ro_controllerEndpoint = None, ro_capabilities = JObj [], ro_syncError = None \<rparr>"

definition example_start :: start_input where
  "example_start = \<lparr> sn_customerId = None, sn_routerId = Some ''r'', sn_username = Some ''guest'', sn_ipAddress = None, sn_macAddress = None \<rparr>"

definition example_network :: db where
  "example_network = empty_db\<lparr> routers := [example_router] \<rparr>"

theorem router_counters_are_exact_witness:
  "let t = snd (start_session (\<lambda>_. False) None 5 ''t'' example_start no_context example_network);
       u = snd (end_session None 9 ''t'' ''0'' no_context t)
   in map ro_activeUsers (routers t) = [1] \<and> map ro_activeUsers (routers u) = [0] \<and> counters_exact u"
proof -
  define t where "t = snd (start_session (\<lambda>_. False) None 5 ''t'' example_start no_context example_network)"
  define u where "u = snd (end_session None 9 ''t'' ''0'' no_context t)"
  have "session_step example_network t" "session_step t u" unfolding t_def u_def by (rule step_start, rule step_end)
  then have "session_step\<^sup>*\<^sup>* example_network u" by (meson r_into_rtranclp rtranclp.rtrancl_into_rtrancl)
  moreover have "counters_exact example_network"
    by (simp add: counters_exact_def example_network_def empty_db_def fresh_ids_def example_router_def active_on_def count_where_def)
  ultimately have exact: "counters_exact u \<and> goes_on (sessions example_network) (sessions u)" by (rule router_counters_are_exact)
  have t: "map ro_activeUsers (routers t) = [1]"
    unfolding t_def by code_simp
  have u: "map ro_activeUsers (routers u) = [0]"
    unfolding u_def t_def by code_simp
  show ?thesis using t u exact by (simp add: Let_def flip: t_def u_def)
qed

end
