(* ===== verification/Notifications.thy ===== *)
theory Notifications
  imports Journal Schema "HOL-Library.Product_Lexorder"
begin

text \<open>
  Notifications (\<open>notifications/notifications.service.ts\<close>, \<open>notifications.worker.ts\<close>): the outbox of messages with its
  deduplication keys, bulk campaigns, claiming, delivery and retry, and a round of the SMS worker. The gateway,
  which posts to a provider over HTTPS, is a parameter.
\<close>

subsection \<open>Phone numbers\<close>

definition digit :: "char \<Rightarrow> bool" where
  "digit c \<longleftrightarrow> c \<in> set ''0123456789''"

text \<open>\<open>/^255\d{9}$/\<close>\<close>

definition normalized_phone :: "string \<Rightarrow> bool" where
  "normalized_phone p \<longleftrightarrow> take 3 p = ''255'' \<and> length p = 12 \<and> list_all digit p"

definition normalize_phone :: "string \<Rightarrow> string result" where
  "normalize_phone input =
     (let stripped = filter (\<lambda>c. \<not> js_space c \<and> c \<notin> set ''().-'') (js_trim input);
          digits = (case stripped of c # cs \<Rightarrow> if c = CHR ''+'' then cs else stripped | [] \<Rightarrow> []);
          normalized = (case digits of c # cs \<Rightarrow> if c = CHR ''0'' then ''255'' @ cs else digits | [] \<Rightarrow> [])
      in if normalized_phone normalized then Inr normalized
         else Inl (BadRequest ''Phone number must be a Tanzanian mobile number, for example 255712345678''))"

fun normalize_all :: "string list \<Rightarrow> string list result" where
  "normalize_all [] = Inr []"
| "normalize_all (x # xs) =
     (case normalize_phone x of
        Inl e \<Rightarrow> Inl e
      | Inr p \<Rightarrow> (case normalize_all xs of Inl e \<Rightarrow> Inl e | Inr ps \<Rightarrow> Inr (p # ps)))"

text \<open>The normalisation of a stored phone in the queries for consent.\<close>

definition stored_phone :: "string option \<Rightarrow> string" where
  "stored_phone phone =
     (let digits = filter digit (case phone of None \<Rightarrow> [] | Some p \<Rightarrow> p)
      in case digits of c # cs \<Rightarrow> if c = CHR ''0'' then ''255'' @ cs else digits | [] \<Rightarrow> [])"

definition consented :: "uuid \<Rightarrow> string \<Rightarrow> db \<Rightarrow> bool" where
  "consented tenant phone s \<longleftrightarrow> exists_row (\<lambda>c. cu_tenant c = tenant \<and> stored_phone (cu_phone c) = phone \<and> cu_marketingConsent c) (customers s)"

subsection \<open>The outbox\<close>

definition no_key :: "notification \<Rightarrow> (uuid \<times> string) option" where
  "no_key n = map_option (Pair (no_tenant n)) (no_dedupeKey n)"

definition put_notification :: "notification \<Rightarrow> db \<Rightarrow> db" where
  "put_notification n s = s\<lparr> next_id := next_id s + 1, notifications := insert_once no_key n (notifications s) \<rparr>"

definition touch_notifications :: "(notification \<Rightarrow> bool) \<Rightarrow> (notification \<Rightarrow> notification) \<Rightarrow> db \<Rightarrow> db" where
  "touch_notifications P f s = s\<lparr> notifications := update_where P f (notifications s) \<rparr>"

interpretation messages: keyed_queue notifications no_key put_notification touch_notifications
  by unfold_locales (simp_all add: put_notification_def touch_notifications_def)

text \<open>A new row, with the defaults of its columns.\<close>

definition notification_row ::
  "uuid \<Rightarrow> time \<Rightarrow> uuid \<Rightarrow> string \<Rightarrow> string \<Rightarrow> string \<Rightarrow> json \<Rightarrow> time \<Rightarrow> string option \<Rightarrow> string option \<Rightarrow> uuid option \<Rightarrow> notification" where
  "notification_row i now tenant channel recipient event payload available key category campaign =
     \<lparr> no_id = i, no_tenant = tenant, no_channel = channel, no_recipient = recipient, no_eventType = event, no_payload = payload,
       no_availableAt = available, no_dedupeKey = key, no_category = category, no_campaignId = campaign, no_status = N_PENDING,
       no_attempts = 0, no_lockedAt = None, no_sentAt = None, no_providerMessageId = None, no_lastError = None, no_createdAt = now \<rparr>"

text \<open>\<open>INSERT \<dots> ON CONFLICT \<dots> RETURNING\<close>: the row with the key that is there, or the new one.\<close>

definition insert_notification :: "notification \<Rightarrow> (db, notification) operation" where
  "insert_notification n s =
     (Inr (case Option.bind (no_key n) (\<lambda>k. select_one (\<lambda>m. no_key m = Some k) (notifications s)) of
             Some m \<Rightarrow> m | None \<Rightarrow> n),
      put_notification n s)"

definition enqueue_notification ::
  "time \<Rightarrow> uuid \<Rightarrow> string \<Rightarrow> string \<Rightarrow> string \<Rightarrow> json \<Rightarrow> time option \<Rightarrow> string option \<Rightarrow> (db, notification) operation" where
  "enqueue_notification now tenant channel recipient event payload available key s =
     insert_notification (notification_row (new_uuid s) now tenant channel (js_trim recipient) (js_upper (js_trim event)) payload
       (or_value available now) (trim_or_null key) None None) s"

record sms_input =
  si_recipient :: string
  si_message :: string
  si_category :: string
  si_idempotencyKey :: string
  si_availableAt :: "time option"

definition sms_categories :: "string list" where
  "sms_categories = [''TRANSACTIONAL'', ''EXPIRY'', ''PAYMENT'', ''PURCHASE'', ''MARKETING'']"

definition message_payload :: "string \<Rightarrow> json" where
  "message_payload message = jobject [(''message'', Some (JStr message))]"

definition enqueue_sms :: "time \<Rightarrow> uuid \<Rightarrow> sms_input \<Rightarrow> (db, notification) operation" where
  "enqueue_sms now tenant input s =
     (case normalize_phone (si_recipient input) of
        Inl e \<Rightarrow> (Inl e, s)
      | Inr recipient \<Rightarrow>
          (let message = js_trim (si_message input); key = js_trim (si_idempotencyKey input); category = si_category input
           in if message = [] \<or> 1600 < length message then (Inl (BadRequest ''SMS message must contain 1-1600 characters''), s)
              else if key = [] \<or> 180 < length key then (Inl (BadRequest ''An idempotency key of 1-180 characters is required''), s)
              else if category \<notin> set sms_categories then (Inl (BadRequest ''Unsupported SMS category''), s)
              else if category = ''MARKETING'' \<and> \<not> consented tenant recipient s
              then (Inl (Forbidden ''Marketing SMS requires recorded customer opt-in for this tenant and number''), s)
              else insert_notification (notification_row (new_uuid s) now tenant ''SMS'' recipient category (message_payload message)
                     (or_value (si_availableAt input) now) (Some key) (Some category) None) s))"

subsection \<open>Campaigns\<close>

record bulk_input =
  bk_recipients :: "string list"
  bk_message :: string
  bk_category :: string
  bk_idempotencyKey :: string
  bk_name :: "string option"

definition js_unique :: "'a list \<Rightarrow> 'a list" where
  "js_unique xs = rev (remdups (rev xs))"

definition campaign_row :: "uuid \<Rightarrow> time \<Rightarrow> uuid \<Rightarrow> bulk_input \<Rightarrow> nat \<Rightarrow> sms_campaign" where
  "campaign_row i now tenant input n =
     \<lparr> sc_id = i, sc_tenant = tenant,
       sc_name = take 120 (js_trim (case bk_name input of
          Some (c # cs) \<Rightarrow> c # cs | _ \<Rightarrow> ''SMS '' @ js_lower (bk_category input) @ '' campaign'')),
       sc_category = bk_category input, sc_message = js_trim (bk_message input), sc_recipientCount = n, sc_queuedCount = 0,
       sc_idempotencyKey = js_trim (bk_idempotencyKey input), sc_status = ''QUEUED'', sc_createdAt = now \<rparr>"

definition campaign_key :: "sms_campaign \<Rightarrow> (uuid \<times> string) option" where
  "campaign_key c = Some (sc_tenant c, sc_idempotencyKey c)"

definition put_campaign :: "sms_campaign \<Rightarrow> db \<Rightarrow> db" where
  "put_campaign c s = s\<lparr> next_id := next_id s + 1, smsCampaigns := insert_once campaign_key c (smsCampaigns s) \<rparr>"

interpretation campaigns: keyed_journal smsCampaigns campaign_key put_campaign
  by unfold_locales (simp add: put_campaign_def)

definition campaign_message :: "time \<Rightarrow> sms_campaign \<Rightarrow> bulk_input \<Rightarrow> string \<Rightarrow> db \<Rightarrow> db" where
  "campaign_message now c input recipient s =
     put_notification (notification_row (new_uuid s) now (sc_tenant c) ''SMS'' recipient (bk_category input)
       (message_payload (js_trim (bk_message input))) now (Some (''campaign:'' @ sc_id c @ '':'' @ recipient))
       (Some (bk_category input)) (Some (sc_id c))) s"

definition queued_for :: "sms_campaign \<Rightarrow> db \<Rightarrow> nat" where
  "queued_for c s = count_where (\<lambda>n. no_tenant n = sc_tenant c \<and> no_campaignId n = Some (sc_id c)) (notifications s)"

definition bulk_body :: "time \<Rightarrow> uuid \<Rightarrow> bulk_input \<Rightarrow> string list \<Rightarrow> (db, sms_campaign) operation" where
  "bulk_body now tenant input recipients s =
     (let missing = filter (\<lambda>p. \<not> consented tenant p s) recipients
      in if bk_category input = ''MARKETING'' \<and> missing \<noteq> []
         then (Inl (Forbidden (''Marketing SMS requires recorded opt-in for every recipient; '' @ nat_str (length missing) @
                               '' recipient(s) are not opted in'')), s)
         else (let row = campaign_row (new_uuid s) now tenant input (length recipients);
                   s1 = put_campaign row s;
                   c = (case select_one (\<lambda>d. campaign_key d = campaign_key row) (smsCampaigns s1) of Some d \<Rightarrow> d | None \<Rightarrow> row)
               in if 0 < sc_queuedCount c \<or> sc_status c \<noteq> ''QUEUED'' then (Inr c, s1)
                  else (let s2 = fold (campaign_message now c input) recipients s1; n = queued_for c s2
                        in (Inr (c\<lparr> sc_queuedCount := n \<rparr>),
                            s2\<lparr> smsCampaigns := update_where (\<lambda>d. sc_tenant d = tenant \<and> sc_id d = sc_id c)
                                  (\<lambda>d. d\<lparr> sc_queuedCount := n \<rparr>) (smsCampaigns s2) \<rparr>))))"

definition enqueue_bulk_sms :: "time \<Rightarrow> uuid \<Rightarrow> bulk_input \<Rightarrow> (db, sms_campaign) operation" where
  "enqueue_bulk_sms now tenant input s =
     (let message = js_trim (bk_message input); key = js_trim (bk_idempotencyKey input)
      in if message = [] \<or> 1600 < length message then (Inl (BadRequest ''SMS message must contain 1-1600 characters''), s)
         else if key = [] \<or> 160 < length key then (Inl (BadRequest ''An idempotency key of 1-160 characters is required''), s)
         else if bk_category input \<notin> set sms_categories then (Inl (BadRequest ''Unsupported SMS category''), s)
         else if bk_recipients input = [] \<or> 1000 < length (bk_recipients input)
         then (Inl (BadRequest ''Bulk SMS requires between 1 and 1000 recipients''), s)
         else (case normalize_all (bk_recipients input) of
                 Inl e \<Rightarrow> (Inl e, s)
               | Inr ps \<Rightarrow> transaction (bulk_body now tenant input (js_unique ps)) s))"

record campaign_view =
  cv_campaign :: sms_campaign
  cv_status :: string
  cv_pending :: nat
  cv_processing :: nat
  cv_accepted :: nat
  cv_failed :: nat

definition view_campaign :: "db \<Rightarrow> sms_campaign \<Rightarrow> campaign_view" where
  "view_campaign s c =
     (let count = (\<lambda>st. count_where (\<lambda>n. no_tenant n = sc_tenant c \<and> no_campaignId n = Some (sc_id c) \<and> no_status n = st) (notifications s));
          pending = count N_PENDING; processing = count N_PROCESSING; sent = count N_SENT; failed = count N_FAILED
      in \<lparr> cv_campaign = c,
           cv_status = (if 0 < pending + processing then (if 0 < processing then ''PROCESSING'' else ''QUEUED'')
             else if 0 < sc_recipientCount c \<and> sc_recipientCount c \<le> failed then ''FAILED''
             else if 0 < failed \<and> 0 < sent then ''PARTIAL''
             else if 0 < sc_recipientCount c \<and> sc_recipientCount c \<le> sent then ''COMPLETED''
             else sc_status c),
           cv_pending = pending, cv_processing = processing, cv_accepted = sent, cv_failed = failed \<rparr>)"

definition list_sms_campaigns :: "uuid \<Rightarrow> jsnum \<Rightarrow> db \<Rightarrow> campaign_view list" where
  "list_sms_campaigns tenant limit s =
     map (view_campaign s) (order_limit (\<lambda>c. - sc_createdAt c) (nat (clamp_limit 50 1 200 limit))
       (select (\<lambda>c. sc_tenant c = tenant) (smsCampaigns s)))"

subsection \<open>Claiming and delivery\<close>

definition notification_attempts :: nat where
  "notification_attempts = 8"

definition notification_claimable :: "time \<Rightarrow> notification \<Rightarrow> bool" where
  "notification_claimable now n \<longleftrightarrow> no_status n = N_PENDING \<and> no_availableAt n \<le> now \<and> no_attempts n < notification_attempts"

definition lock_notifications :: "time \<Rightarrow> notification list \<Rightarrow> db \<Rightarrow> db" where
  "lock_notifications now rows = touch_notifications (\<lambda>n. no_id n \<in> set (map no_id rows))
     (\<lambda>n. n\<lparr> no_status := N_PROCESSING, no_lockedAt := Some now, no_attempts := no_attempts n + 1 \<rparr>)"

definition claim_notifications :: "jsnum \<Rightarrow> time \<Rightarrow> (db, notification list) operation" where
  "claim_notifications limit now s =
     (let rows = order_limit no_createdAt (nat (clamp_limit 25 1 100 limit)) (select (notification_claimable now) (notifications s))
      in (Inr rows, lock_notifications now rows s))"

definition claim_sms :: "jsnum \<Rightarrow> time \<Rightarrow> (db, notification list) operation" where
  "claim_sms limit now s =
     (let rows = order_limit (\<lambda>n. (no_availableAt n, no_createdAt n)) (nat (clamp_limit 25 1 100 limit))
            (select (\<lambda>n. no_channel n = ''SMS'' \<and> notification_claimable now n) (notifications s))
      in (Inr (map (\<lambda>n. n\<lparr> no_attempts := no_attempts n + 1 \<rparr>) rows), lock_notifications now rows s))"

definition recover_stale_processing :: "time \<Rightarrow> uuid option \<Rightarrow> rat \<Rightarrow> db \<Rightarrow> db" where
  "recover_stale_processing now tenant maxAgeMinutes =
     (let age = min (max (trunc_rat maxAgeMinutes) 1) 1440
      in touch_notifications (\<lambda>n. no_status n = N_PROCESSING \<and> (case no_lockedAt n of None \<Rightarrow> False | Some t \<Rightarrow> t < now - age * 60000) \<and>
                              (tenant = None \<or> tenant = Some (no_tenant n)))
           (\<lambda>n. n\<lparr> no_status := (if notification_attempts \<le> no_attempts n then N_FAILED else N_PENDING),
                   no_availableAt := (if notification_attempts \<le> no_attempts n then no_availableAt n else now), no_lockedAt := None,
                   no_lastError := Some (if notification_attempts \<le> no_attempts n then ''Retry budget exhausted after stale lock recovery''
                                         else ''Recovered stale processing lock'') \<rparr>))"

text \<open>The updates of one row by identifier; they reach it only while it is being processed.\<close>

definition touch_processing :: "uuid \<Rightarrow> (notification \<Rightarrow> notification) \<Rightarrow> db \<Rightarrow> db" where
  "touch_processing i = touch_notifications (\<lambda>n. no_id n = i \<and> no_status n = N_PROCESSING)"

definition or_text :: "string \<Rightarrow> string \<Rightarrow> string" where
  "or_text x d = (if x = [] then d else x)"

definition defer_sms :: "time \<Rightarrow> uuid \<Rightarrow> string \<Rightarrow> db \<Rightarrow> db" where
  "defer_sms now i reason = touch_processing i
     (\<lambda>n. n\<lparr> no_status := N_PENDING, no_attempts := no_attempts n - 1, no_availableAt := now + 300000, no_lockedAt := None,
             no_lastError := Some (take 500 (or_text reason ''SMS provider is not configured'')) \<rparr>)"

definition mark_sent :: "time \<Rightarrow> uuid \<Rightarrow> string option \<Rightarrow> db \<Rightarrow> db" where
  "mark_sent now i message = touch_processing i
     (\<lambda>n. n\<lparr> no_status := N_SENT, no_sentAt := Some now, no_lockedAt := None, no_providerMessageId := message, no_lastError := None \<rparr>)"

definition mark_permanently_failed :: "uuid \<Rightarrow> string \<Rightarrow> db \<Rightarrow> db" where
  "mark_permanently_failed i error = touch_processing i
     (\<lambda>n. n\<lparr> no_status := N_FAILED, no_lockedAt := None,
             no_lastError := Some (take 2000 (or_text error ''Permanent SMS provider rejection'')) \<rparr>)"

definition mark_notification_failed :: "time \<Rightarrow> uuid \<Rightarrow> string \<Rightarrow> rat \<Rightarrow> db \<Rightarrow> db" where
  "mark_notification_failed now i error retryDelaySeconds =
     (let delay = min (max (trunc_rat retryDelaySeconds) 5) 86400
      in touch_processing i
           (\<lambda>n. n\<lparr> no_status := (if notification_attempts \<le> no_attempts n then N_FAILED else N_PENDING),
                   no_availableAt := (if notification_attempts \<le> no_attempts n then no_availableAt n else now + delay * 1000),
                   no_lockedAt := None, no_lastError := Some (take 2000 (or_text error ''Unknown notification delivery error'')) \<rparr>))"

definition notification_stats :: "uuid \<Rightarrow> db \<Rightarrow> notification_status \<Rightarrow> nat" where
  "notification_stats tenant s st = count_where (\<lambda>n. no_tenant n = tenant \<and> no_status n = st) (notifications s)"

definition list_notifications :: "uuid \<Rightarrow> jsnum \<Rightarrow> db \<Rightarrow> notification list" where
  "list_notifications tenant limit s =
     order_limit (\<lambda>n. - no_createdAt n) (nat (clamp_limit 100 1 500 limit)) (select (\<lambda>n. no_tenant n = tenant) (notifications s))"

subsection \<open>The SMS worker\<close>

text \<open>
  A delivery is accepted with the provider's identifier, or fails with a reason, for ever when the
  provider rejected the message.
\<close>

datatype delivery = Accepted string | Rejected bool string

record sms_gateway =
  sg_configured :: "uuid \<Rightarrow> bool"
  sg_send :: "uuid \<Rightarrow> string \<Rightarrow> string \<Rightarrow> string \<Rightarrow> delivery"

definition payload_message :: "json \<Rightarrow> string" where
  "payload_message payload = (case payload of
       JObj kvs \<Rightarrow> (case map_of kvs ''message'' of Some (JStr m) \<Rightarrow> m | _ \<Rightarrow> [])
     | _ \<Rightarrow> [])"

definition retry_delay :: "nat \<Rightarrow> rat" where
  "retry_delay attempts = min 3600 (15 * 2 ^ min (max 1 attempts - 1) 8)"

definition deliver_row :: "sms_gateway \<Rightarrow> time \<Rightarrow> notification \<Rightarrow> db \<Rightarrow> db" where
  "deliver_row g now n s =
     (if \<not> sg_configured g (no_tenant n)
      then defer_sms now (no_id n) ''SMS provider is not configured or enabled for this tenant'' s
      else (let message = payload_message (no_payload n);
                outcome = (if js_trim message = [] then Rejected False ''SMS payload is missing message text''
                           else sg_send g (no_tenant n) (no_recipient n) message
                                  (case no_dedupeKey n of Some (c # cs) \<Rightarrow> c # cs | _ \<Rightarrow> no_id n))
            in case outcome of
                 Accepted i \<Rightarrow> mark_sent now (no_id n) (Some i) s
               | Rejected permanent reason \<Rightarrow>
                   if permanent then mark_permanently_failed (no_id n) reason s
                   else mark_notification_failed now (no_id n) reason (retry_delay (no_attempts n)) s))"

definition process_sms :: "sms_gateway \<Rightarrow> bool \<Rightarrow> time \<Rightarrow> db \<Rightarrow> db" where
  "process_sms g enabled now s =
     (if \<not> enabled then s
      else (case claim_sms (Fin 20) now s of
              (Inr rows, s1) \<Rightarrow> fold (deliver_row g now) rows s1
            | (Inl _, s1) \<Rightarrow> s1))"

subsection \<open>Safe changes of the outbox\<close>

definition notification_ok :: "notification \<Rightarrow> bool" where
  "notification_ok n \<longleftrightarrow> no_attempts n \<le> notification_attempts \<and>
     (case no_status n of
        N_PENDING \<Rightarrow> no_attempts n < notification_attempts \<and> no_lockedAt n = None
      | N_PROCESSING \<Rightarrow> 0 < no_attempts n \<and> no_lockedAt n \<noteq> None
      | N_SENT \<Rightarrow> no_sentAt n \<noteq> None \<and> no_lockedAt n = None
      | N_FAILED \<Rightarrow> no_lockedAt n = None
      | N_CANCELED \<Rightarrow> True)"

definition notifications_ok :: "db \<Rightarrow> bool" where
  "notifications_ok s \<longleftrightarrow> unique_key no_key (notifications s) \<and> list_all notification_ok (notifications s) \<and>
     distinct (map no_id (notifications s)) \<and> fresh_ids s (map no_id (notifications s))"

definition final_status :: "notification_status \<Rightarrow> bool" where
  "final_status st \<longleftrightarrow> st \<in> {N_SENT, N_FAILED, N_CANCELED}"

definition notification_evolves :: "notification \<Rightarrow> notification \<Rightarrow> bool" where
  "notification_evolves n m \<longleftrightarrow> no_id m = no_id n \<and> no_key m = no_key n \<and> no_recipient m = no_recipient n \<and> no_payload m = no_payload n \<and>
     (if final_status (no_status n) then m = n else True)"

lemma notification_evolves_refl [simp]: "notification_evolves n n"
  by (simp add: notification_evolves_def)

lemma notification_evolves_trans: "notification_evolves n m \<Longrightarrow> notification_evolves m q \<Longrightarrow> notification_evolves n q"
  by (auto simp: notification_evolves_def split: if_splits)

text \<open>From a good outbox the change leads to a good outbox in which every row has evolved.\<close>

definition safe_change :: "db \<Rightarrow> db \<Rightarrow> bool" where
  "safe_change s s' \<longleftrightarrow> (notifications_ok s \<longrightarrow> notifications_ok s' \<and>
     (\<forall>n\<in>set (notifications s). \<exists>m\<in>set (notifications s'). notification_evolves n m))"

lemma safe_change_refl [simp]: "safe_change s s"
  by (auto simp: safe_change_def intro: notification_evolves_refl)

lemma safe_change_trans [trans]: "safe_change s t \<Longrightarrow> safe_change t u \<Longrightarrow> safe_change s u"
  unfolding safe_change_def using notification_evolves_trans by meson

lemma safe_change_fold: "(\<And>x s. safe_change s (f x s)) \<Longrightarrow> safe_change s (fold f xs s)"
  by (induction xs arbitrary: s) (auto intro: safe_change_trans)

lemma safe_change_other:
  "notifications s' = notifications s \<Longrightarrow> next_id s \<le> next_id s' \<Longrightarrow> safe_change s s'"
  using fresh_ids_mono by (auto simp: safe_change_def notifications_ok_def intro: notification_evolves_refl)

lemma safe_change_touch:
  assumes "\<And>n. n \<in> set (notifications s) \<Longrightarrow> notifications_ok s \<Longrightarrow> P n \<Longrightarrow> notification_ok n \<Longrightarrow>
      notification_ok (f n) \<and> notification_evolves n (f n)"
  shows "safe_change s (touch_notifications P f s)"
  unfolding safe_change_def
proof
  assume ok: "notifications_ok s"
  let ?g = "\<lambda>n. if P n then f n else n"
  have g: "notification_ok (?g n) \<and> notification_evolves n (?g n)" if "n \<in> set (notifications s)" for n
    using assms [OF that ok] ok that by (simp add: notifications_ok_def list_all_iff)
  have rows: "notifications (touch_notifications P f s) = map ?g (notifications s)"
    by (simp add: touch_notifications_def update_where_def)
  have keys: "keys_of no_key (map ?g (notifications s)) = keys_of no_key (notifications s)"
    by (rule keys_of_map) (use g in \<open>metis notification_evolves_def\<close>)
  have ids: "map no_id (map ?g (notifications s)) = map no_id (notifications s)"
    unfolding map_map comp_def by (rule map_cong [OF refl]) (use g in \<open>metis notification_evolves_def\<close>)
  have "list_all notification_ok (map ?g (notifications s))" unfolding list_all_iff set_map using g by blast
  moreover have "next_id (touch_notifications P f s) = next_id s" by (simp add: touch_notifications_def)
  ultimately have "notifications_ok (touch_notifications P f s)"
    using ok unfolding notifications_ok_def fresh_ids_def rows unique_key_def ids keys by simp
  moreover have "\<forall>n\<in>set (notifications s). \<exists>m\<in>set (map ?g (notifications s)). notification_evolves n m"
    unfolding set_map using g by blast
  ultimately show "notifications_ok (touch_notifications P f s) \<and>
      (\<forall>n\<in>set (notifications s). \<exists>m\<in>set (notifications (touch_notifications P f s)). notification_evolves n m)"
    by (simp only: rows)
qed

lemma safe_change_put:
  assumes "no_id n = new_uuid s" and "notification_ok n"
  shows "safe_change s (put_notification n s)"
  unfolding safe_change_def
proof
  assume ok: "notifications_ok s"
  let ?s' = "put_notification n s"
  have fr: "fresh_ids s (map no_id (notifications s))" using ok by (simp add: notifications_ok_def)
  have rows: "notifications ?s' = notifications s \<or> notifications ?s' = notifications s @ [n]"
    by (auto simp: put_notification_def insert_once_def split: option.splits)
  have nx: "next_id s < next_id ?s'" by (simp add: put_notification_def)
  have "distinct (map no_id (notifications ?s'))" "fresh_ids ?s' (map no_id (notifications ?s'))"
    using rows fresh_ids_new [OF fr] fresh_ids_extend [OF fr nx] fresh_ids_mono [OF fr, of ?s'] nx ok assms(1)
    by (auto simp: notifications_ok_def)
  moreover have "unique_key no_key (notifications ?s')" using ok by (intro messages.put_unique) (simp add: notifications_ok_def)
  moreover have "list_all notification_ok (notifications ?s')" using rows ok assms(2) by (auto simp: notifications_ok_def)
  ultimately have "notifications_ok ?s'" by (simp add: notifications_ok_def)
  moreover have "\<forall>m\<in>set (notifications s). m \<in> set (notifications ?s')" using messages.put_keeps by blast
  ultimately show "notifications_ok ?s' \<and> (\<forall>n\<in>set (notifications s). \<exists>m\<in>set (notifications ?s'). notification_evolves n m)"
    by (meson notification_evolves_refl)
qed

lemma notification_row_ok [simp]:
  "notification_ok (notification_row i now tenant ch r ev p a k c g)" "no_id (notification_row i now tenant ch r ev p a k c g) = i"
  by (simp_all add: notification_ok_def notification_row_def notification_attempts_def)

lemma insert_notification_safe:
  "safe_change s (snd (insert_notification (notification_row (new_uuid s) now tenant ch r ev p a k c g) s))"
  by (simp add: insert_notification_def safe_change_put)

lemma enqueue_sms_safe: "safe_change s (snd (enqueue_sms now tenant input s))"
  by (auto simp: enqueue_sms_def Let_def insert_notification_safe split: sum.split)

lemma bulk_body_safe: "safe_change s (snd (bulk_body now tenant input recipients s))"
proof -
  define row where "row = campaign_row (new_uuid s) now tenant input (length recipients)"
  define c where "c = (case select_one (\<lambda>d. campaign_key d = campaign_key row) (smsCampaigns (put_campaign row s)) of Some d \<Rightarrow> d | None \<Rightarrow> row)"
  define s2 where "s2 = fold (campaign_message now c input) recipients (put_campaign row s)"
  have "safe_change s (put_campaign row s)" by (rule safe_change_other) (simp_all add: put_campaign_def)
  moreover have "safe_change (put_campaign row s) s2"
    unfolding s2_def by (rule safe_change_fold) (simp add: campaign_message_def safe_change_put)
  moreover have "safe_change s2 (s2\<lparr> smsCampaigns := cs \<rparr>)" for cs by (rule safe_change_other) simp_all
  ultimately show ?thesis
    by (simp add: bulk_body_def Let_def flip: row_def) (auto simp flip: c_def s2_def intro: safe_change_trans)
qed

lemma enqueue_bulk_safe: "safe_change s (snd (enqueue_bulk_sms now tenant input s))"
proof -
  have "safe_change s (snd (transaction (bulk_body now tenant input ps) s))" for ps
    using bulk_body_safe [of s now tenant input ps] by (auto simp: transaction_def split: prod.splits sum.splits)
  then show ?thesis by (simp add: enqueue_bulk_sms_def Let_def split: sum.split)
qed

lemma lock_notifications_safe:
  assumes "set rows \<subseteq> set (select (notification_claimable now) (notifications s))"
  shows "safe_change s (lock_notifications now rows s)"
  unfolding lock_notifications_def
proof (rule safe_change_touch)
  fix n assume n: "n \<in> set (notifications s)" and ok: "notifications_ok s" and i: "no_id n \<in> set (map no_id rows)" and nk: "notification_ok n"
  from i obtain m where m: "m \<in> set rows" "no_id m = no_id n" by auto
  with assms have "m \<in> set (notifications s)" "notification_claimable now m" by auto
  moreover have "m = n" using distinct_key_unique [OF _ calculation(1) n m(2)] ok by (simp add: notifications_ok_def)
  ultimately have "notification_claimable now n" by simp
  with nk show "notification_ok (n\<lparr> no_status := N_PROCESSING, no_lockedAt := Some now, no_attempts := no_attempts n + 1 \<rparr>) \<and>
      notification_evolves n (n\<lparr> no_status := N_PROCESSING, no_lockedAt := Some now, no_attempts := no_attempts n + 1 \<rparr>)"
    by (simp add: notification_claimable_def notification_ok_def notification_evolves_def final_status_def no_key_def)
qed

lemma claims_safe:
  "safe_change s (snd (claim_notifications limit now s))" "safe_change s (snd (claim_sms limit now s))"
  unfolding claim_notifications_def claim_sms_def Let_def snd_conv
  by (rule lock_notifications_safe, use set_order_limit in fastforce)+

lemma touch_processing_safe:
  assumes "\<And>n. no_status n = N_PROCESSING \<Longrightarrow> notification_ok n \<Longrightarrow> notification_ok (f n) \<and> notification_evolves n (f n)"
  shows "safe_change s (touch_processing i f s)"
  unfolding touch_processing_def by (rule safe_change_touch) (use assms in blast)

lemma defer_sms_safe: "safe_change s (defer_sms now i reason s)"
  unfolding defer_sms_def by (rule touch_processing_safe)
    (auto simp: notification_ok_def notification_evolves_def final_status_def no_key_def notification_attempts_def)

lemma mark_sent_safe: "safe_change s (mark_sent now i message s)"
  unfolding mark_sent_def by (rule touch_processing_safe)
    (auto simp: notification_ok_def notification_evolves_def final_status_def no_key_def)

lemma mark_permanently_failed_safe: "safe_change s (mark_permanently_failed i error s)"
  unfolding mark_permanently_failed_def by (rule touch_processing_safe)
    (auto simp: notification_ok_def notification_evolves_def final_status_def no_key_def)

lemma mark_notification_failed_safe: "safe_change s (mark_notification_failed now i error delay s)"
  unfolding mark_notification_failed_def Let_def by (rule touch_processing_safe)
    (auto simp: notification_ok_def notification_evolves_def final_status_def no_key_def)

lemma recover_stale_processing_safe: "safe_change s (recover_stale_processing now tenant age s)"
  unfolding recover_stale_processing_def Let_def by (rule safe_change_touch)
    (auto simp: notification_ok_def notification_evolves_def final_status_def no_key_def)

lemmas delivery_safe = defer_sms_safe mark_sent_safe mark_permanently_failed_safe mark_notification_failed_safe

lemma deliver_row_safe: "safe_change s (deliver_row g now n s)"
  by (simp add: deliver_row_def Let_def delivery_safe split: delivery.split)

lemma process_sms_safe: "safe_change s (process_sms g enabled now s)"
proof -
  obtain rows s1 where c: "claim_sms (Fin 20) now s = (Inr rows, s1)" by (simp add: claim_sms_def Let_def)
  have "safe_change s s1" using claims_safe(2) [of s "Fin 20" now] c by simp
  also have "safe_change s1 (fold (deliver_row g now) rows s1)" by (rule safe_change_fold) (rule deliver_row_safe)
  finally show ?thesis using c by (simp add: process_sms_def)
qed

inductive notification_step :: "db \<Rightarrow> db \<Rightarrow> bool" where
  "notification_step s (snd (enqueue_notification now tenant channel recipient event payload available key s))"
| "notification_step s (snd (enqueue_sms now tenant input s))"
| "notification_step s (snd (enqueue_bulk_sms now tenant bulk s))"
| "notification_step s (snd (claim_notifications limit now s))"
| "notification_step s (snd (claim_sms limit now s))"
| "notification_step s (recover_stale_processing now only age s)"
| "notification_step s (defer_sms now i reason s)"
| "notification_step s (mark_sent now i message s)"
| "notification_step s (mark_permanently_failed i error s)"
| "notification_step s (mark_notification_failed now i error delay s)"
| "notification_step s (process_sms g enabled now s)"

lemma notification_step_safe: "notification_step s s' \<Longrightarrow> safe_change s s'"
  by (induction rule: notification_step.induct)
    (simp_all add: enqueue_notification_def insert_notification_safe enqueue_sms_safe enqueue_bulk_safe claims_safe delivery_safe
      recover_stale_processing_safe process_sms_safe)

text \<open>C24: over any sequence of operations, among them the worker's rounds, the outbox keeps one message per tenant and key,
  attempts no message more than eight times and holds locks on the messages being processed; a message keeps its
  identifier, recipient and text, and once it is sent or failed it never changes again.\<close>

theorem notification_runs_are_safe:
  assumes "notification_step\<^sup>*\<^sup>* s s'" and "notifications_ok s" and "n \<in> set (notifications s)"
  shows "notifications_ok s' \<and> list_all (\<lambda>m. no_attempts m \<le> 8) (notifications s') \<and>
    (if final_status (no_status n) then n \<in> set (notifications s')
     else list_ex (\<lambda>m. no_id m = no_id n \<and> no_recipient m = no_recipient n \<and> no_payload m = no_payload n) (notifications s'))"
proof -
  have "safe_change s s'"
    using assms(1) by (induction rule: rtranclp_induct) (auto intro: safe_change_trans notification_step_safe)
  then obtain m where m: "notifications_ok s'" "m \<in> set (notifications s')" "notification_evolves n m"
    using assms(2,3) by (auto simp: safe_change_def)
  have "list_all (\<lambda>m. no_attempts m \<le> 8) (notifications s')"
    using m(1) by (simp add: notifications_ok_def list_all_iff notification_ok_def notification_attempts_def)
  with m show ?thesis by (auto simp: notification_evolves_def list_ex_iff)
qed

definition example_sms :: "notification_status \<Rightarrow> notification" where
  "example_sms st = \<lparr> no_id = ''0'', no_tenant = ''t'', no_channel = ''SMS'', no_recipient = ''255712345678'', no_eventType = ''EXPIRY'',
     no_payload = message_payload ''hi'', no_availableAt = 0, no_dedupeKey = Some ''k'', no_category = Some ''EXPIRY'', no_campaignId = None,
     no_status = st, no_attempts = 1, no_lockedAt = None, no_sentAt = Some 1, no_providerMessageId = None, no_lastError = None,
     no_createdAt = 0 \<rparr>"

definition example_gateway :: sms_gateway where
  "example_gateway = \<lparr> sg_configured = \<lambda>_. True, sg_send = \<lambda>_ _ _ k. Accepted k \<rparr>"

theorem notification_runs_are_safe_witness:
  "let s = empty_db\<lparr> next_id := 1, notifications := [example_sms N_SENT] \<rparr>
   in example_sms N_SENT \<in> set (notifications (process_sms example_gateway True 9 s))"
proof -
  define s where "s = empty_db\<lparr> next_id := 1, notifications := [example_sms N_SENT] \<rparr>"
  have "notifications_ok s"
    by (simp add: s_def notifications_ok_def example_sms_def notification_ok_def notification_attempts_def unique_key_def keys_of_def
        no_key_def fresh_ids_def flip: nat_str_0)
  moreover have "notification_step\<^sup>*\<^sup>* s (process_sms example_gateway True 9 s)" by (rule r_into_rtranclp) (rule notification_step.intros)
  moreover have "example_sms N_SENT \<in> set (notifications s)" by (simp add: s_def)
  ultimately have "example_sms N_SENT \<in> set (notifications (process_sms example_gateway True 9 s))"
    using notification_runs_are_safe [of s "process_sms example_gateway True 9 s" "example_sms N_SENT"]
    by (simp add: example_sms_def final_status_def)
  then show ?thesis by (simp add: s_def)
qed


subsection \<open>A round leaves nothing in processing\<close>

definition processing :: "db \<Rightarrow> uuid list" where
  "processing s = map no_id (filter (\<lambda>n. no_status n = N_PROCESSING) (notifications s))"

lemma in_processing: "i \<in> set (processing s) \<longleftrightarrow> (\<exists>n\<in>set (notifications s). no_id n = i \<and> no_status n = N_PROCESSING)"
  by (auto simp: processing_def)

lemma touch_processing_removes:
  assumes "\<And>n. no_id (f n) = no_id n" and "\<And>n. no_status (f n) \<noteq> N_PROCESSING"
  shows "set (processing (touch_processing i f s)) \<subseteq> set (processing s) - {i}"
proof
  fix j assume "j \<in> set (processing (touch_processing i f s))"
  then obtain n where n: "n \<in> set (update_where (\<lambda>n. no_id n = i \<and> no_status n = N_PROCESSING) f (notifications s))"
      "no_id n = j" "no_status n = N_PROCESSING"
    by (auto simp: in_processing touch_processing_def touch_notifications_def)
  then obtain q where q: "q \<in> set (notifications s)" "n = (if no_id q = i \<and> no_status q = N_PROCESSING then f q else q)"
    unfolding in_update_where by blast
  have "n = q" "\<not> (no_id q = i \<and> no_status q = N_PROCESSING)" using q(2) n(3) assms(2) by (auto split: if_splits)
  with q(1) n(2,3) show "j \<in> set (processing s) - {i}" by (auto simp: in_processing)
qed

lemma deliveries_remove:
  "set (processing (defer_sms now i reason s)) \<subseteq> set (processing s) - {i}"
  "set (processing (mark_sent now i message s)) \<subseteq> set (processing s) - {i}"
  "set (processing (mark_permanently_failed i error s)) \<subseteq> set (processing s) - {i}"
  "set (processing (mark_notification_failed now i error delay s)) \<subseteq> set (processing s) - {i}"
  unfolding defer_sms_def mark_sent_def mark_permanently_failed_def mark_notification_failed_def Let_def
  by (rule touch_processing_removes; simp)+

lemma deliver_row_removes: "set (processing (deliver_row g now n s)) \<subseteq> set (processing s) - {no_id n}"
proof (cases "sg_configured g (no_tenant n)")
  case False
  then show ?thesis unfolding deliver_row_def by (simp only: if_True not_False_eq_True deliveries_remove)
next
  case True
  define outcome where "outcome = (if js_trim (payload_message (no_payload n)) = [] then Rejected False ''SMS payload is missing message text''
     else sg_send g (no_tenant n) (no_recipient n) (payload_message (no_payload n)) (case no_dedupeKey n of Some (c # cs) \<Rightarrow> c # cs | _ \<Rightarrow> no_id n))"
  have d: "deliver_row g now n s = (case outcome of
       Accepted i \<Rightarrow> mark_sent now (no_id n) (Some i) s
     | Rejected permanent reason \<Rightarrow> if permanent then mark_permanently_failed (no_id n) reason s
         else mark_notification_failed now (no_id n) reason (retry_delay (no_attempts n)) s)"
    using True by (simp only: deliver_row_def Let_def outcome_def not_True_eq_False if_False)
  show ?thesis unfolding d by (simp add: deliveries_remove split: delivery.split)
qed

lemma deliver_rows_remove: "set (processing (fold (deliver_row g now) rows s)) \<subseteq> set (processing s) - set (map no_id rows)"
proof (induction rows arbitrary: s)
  case Nil
  then show ?case by simp
next
  case (Cons n rows)
  have "set (processing (fold (deliver_row g now) rows (deliver_row g now n s))) \<subseteq> set (processing (deliver_row g now n s)) - set (map no_id rows)"
    by (rule Cons.IH)
  with deliver_row_removes [of g now n s] show ?case by auto
qed

lemma lock_processing: "set (processing (lock_notifications now rows s)) \<subseteq> set (processing s) \<union> set (map no_id rows)"
proof
  fix j assume "j \<in> set (processing (lock_notifications now rows s))"
  then obtain q where "q \<in> set (notifications s)" "j = no_id q" "no_id q \<in> set (map no_id rows) \<or> no_status q = N_PROCESSING"
    unfolding in_processing lock_notifications_def touch_notifications_def by (auto simp: update_where_def split: if_splits)
  then show "j \<in> set (processing s) \<union> set (map no_id rows)" by (auto simp: in_processing)
qed

lemma claim_sms_processing:
  assumes "claim_sms limit now s = (Inr rows, s')"
  shows "set (processing s') \<subseteq> set (processing s) \<union> set (map no_id rows)"
proof -
  obtain rows0 where r: "s' = lock_notifications now rows0 s" "rows = map (\<lambda>n. n\<lparr> no_attempts := no_attempts n + 1 \<rparr>) rows0"
    using assms by (auto simp: claim_sms_def Let_def)
  have "map no_id rows = map no_id rows0" by (simp add: r(2))
  then show ?thesis unfolding r(1) using lock_processing by metis
qed

text \<open>A round of the SMS worker settles every message it claims: whatever the gateway answers, no message is in processing
  after the round that was not so before; and the pause before another attempt grows from fifteen seconds to at most
  one hour.\<close>

theorem sms_rounds_settle:
  "set (processing (process_sms g enabled now s)) \<subseteq> set (processing s) \<and> 15 \<le> retry_delay k \<and> retry_delay k \<le> 3600"
proof -
  obtain rows s1 where c: "claim_sms (Fin 20) now s = (Inr rows, s1)" by (simp add: claim_sms_def Let_def)
  have "set (processing (fold (deliver_row g now) rows s1)) \<subseteq> set (processing s)"
    using deliver_rows_remove [of g now rows s1] claim_sms_processing [OF c] by fast
  moreover have "(1::rat) \<le> 2 ^ min (max 1 k - 1) 8" by simp
  ultimately show ?thesis using c by (simp add: process_sms_def retry_delay_def)
qed

end
