(* ===== verification/AccessState.thy ===== *)
theory AccessState
  imports Sessions Notifications
begin

text \<open>
  The state of an access binding (\<open>isp-operations/isp-operations.service.ts\<close>, its bindings part) and the service
  state of a customer (\<open>isp-operations/customer-service-state.service.ts\<close>). Both keep a table of events beside the
  state; the last section states what the events promise. The foreign keys and the unique index of bindings, which
  the repository does not define, are the parameters \<open>known\<close> and \<open>clash\<close>; \<open>show_date\<close> is the text of a date.
\<close>

subsection \<open>Access bindings\<close>

fun binding_state_name :: "binding_state \<Rightarrow> string" where
  "binding_state_name B_PENDING = ''PENDING''"
| "binding_state_name B_ACTIVE = ''ACTIVE''"
| "binding_state_name B_SUSPENDED = ''SUSPENDED''"
| "binding_state_name B_DISABLED = ''DISABLED''"
| "binding_state_name B_EXPIRED = ''EXPIRED''"

record binding_input =
  bi_customerId :: uuid
  bi_routerId :: "uuid option"
  bi_packageId :: "uuid option"
  bi_username :: string
  bi_accessType :: string
  bi_externalReference :: "string option"
  bi_expiresAt :: "time option"

definition binding_row :: "uuid \<Rightarrow> uuid \<Rightarrow> binding_input \<Rightarrow> access_binding" where
  "binding_row i tenant input =
     \<lparr> ab_id = i, ab_tenant = tenant, ab_customerId = bi_customerId input, ab_routerId = bi_routerId input, ab_packageId = bi_packageId input,
       ab_username = js_trim (bi_username input), ab_accessType = bi_accessType input,
       ab_externalReference = trim_or_null (bi_externalReference input), ab_state = B_PENDING, ab_activatedAt = None, ab_suspendedAt = None,
       ab_expiresAt = bi_expiresAt input, ab_correlationId = None \<rparr>"

definition create_access_binding ::
  "(access_binding list \<Rightarrow> bool) \<Rightarrow> (access_binding \<Rightarrow> db \<Rightarrow> bool) \<Rightarrow> uuid \<Rightarrow> binding_input \<Rightarrow> (db, access_binding) operation" where
  "create_access_binding clash known tenant input s =
     (let row = binding_row (new_uuid s) tenant input
      in if clash (insert_row row (accessBindings s)) then (Inl (Conflict ''Access username already exists for this tenant''), s)
         else if \<not> known row s then (Inl (NotFound ''Referenced customer, router, or package was not found''), s)
         else (Inr row, s\<lparr> next_id := next_id s + 1, accessBindings := insert_row row (accessBindings s) \<rparr>))"

definition is_binding :: "uuid \<Rightarrow> uuid \<Rightarrow> access_binding \<Rightarrow> bool" where
  "is_binding tenant i b \<longleftrightarrow> ab_tenant b = tenant \<and> ab_id b = i"

record binding_change =
  bc_state :: binding_state
  bc_reason :: string
  bc_paymentId :: "uuid option"

definition change_binding :: "time \<Rightarrow> binding_state \<Rightarrow> access_binding \<Rightarrow> access_binding" where
  "change_binding now st b = b\<lparr> ab_state := st,
     ab_activatedAt := (if st = B_ACTIVE \<and> ab_activatedAt b = None then Some now else ab_activatedAt b),
     ab_suspendedAt := (if st = B_SUSPENDED then Some now else None) \<rparr>"

definition binding_event :: "time \<Rightarrow> uuid \<Rightarrow> uuid \<Rightarrow> binding_state \<Rightarrow> binding_change \<Rightarrow> access_state_event" where
  "binding_event now tenant i previous input =
     \<lparr> ae_tenant = tenant, ae_bindingId = i, ae_previousState = previous, ae_newState = bc_state input, ae_reason = js_trim (bc_reason input),
       ae_source = ''API'', ae_paymentId = bc_paymentId input, ae_createdAt = now \<rparr>"

text \<open>The transaction: the row before, and whether it changed.\<close>

definition change_binding_body ::
  "(uuid \<Rightarrow> db \<Rightarrow> bool) \<Rightarrow> time \<Rightarrow> uuid \<Rightarrow> uuid \<Rightarrow> binding_change \<Rightarrow> (db, access_binding \<times> bool) operation" where
  "change_binding_body known now tenant i input s =
     (case select_one (is_binding tenant i) (accessBindings s) of
        None \<Rightarrow> (Inl (NotFound ''Access binding not found''), s)
      | Some b \<Rightarrow>
          if ab_state b = bc_state input then (Inr (b, False), s)
          else if (case bc_paymentId input of None \<Rightarrow> False | Some p \<Rightarrow> \<not> known p s)
          then (Inl (NotFound ''Payment was not found for this tenant''), s)
          else (Inr (b, True), s\<lparr> accessBindings := update_where (is_binding tenant i) (change_binding now (bc_state input)) (accessBindings s),
                   accessStateEvents := insert_row (binding_event now tenant i (ab_state b) input) (accessStateEvents s) \<rparr>))"

datatype reconciliation = Reconciled access_reconciliation | Reconciliation_failed string

definition reconciliation_state :: "reconciliation \<Rightarrow> string" where
  "reconciliation_state r = (case r of Reconciled _ \<Rightarrow> ''COMPLETED'' | Reconciliation_failed _ \<Rightarrow> ''FAILED'')"

text \<open>The reconciliation that follows a commit; its exception is part of the answer.\<close>

definition reconcile_after ::
  "adapters \<Rightarrow> (string \<Rightarrow> string + credentials) \<Rightarrow> string option \<Rightarrow> time \<Rightarrow> uuid \<Rightarrow> string \<Rightarrow> db \<Rightarrow> reconciliation \<times> db" where
  "reconcile_after ads decrypt cid now tenant request s =
     (case reconcile_access_state ads decrypt cid now tenant (no_context\<lparr> ac_requestId := Some request \<rparr>) s of
        (Inl e, s1) \<Rightarrow> (Reconciliation_failed (exn_message e), s1)
      | (Inr r, s1) \<Rightarrow> (Reconciled r, s1))"

definition change_access_state ::
  "(uuid \<Rightarrow> db \<Rightarrow> bool) \<Rightarrow> adapters \<Rightarrow> (string \<Rightarrow> string + credentials) \<Rightarrow> string option \<Rightarrow> time \<Rightarrow> uuid \<Rightarrow> uuid \<Rightarrow> binding_change
   \<Rightarrow> audit_context \<Rightarrow> (db, access_binding \<times> reconciliation option) operation" where
  "change_access_state known ads decrypt cid now tenant i input ctx s =
     (case transaction (change_binding_body known now tenant i input) s of
        (Inl e, s1) \<Rightarrow> (Inl e, s1)
      | (Inr (b, changed), s1) \<Rightarrow>
          if \<not> changed then (Inr (b, None), s1)
          else (let (r, s2) = reconcile_after ads decrypt cid now tenant (''access-binding:'' @ i) s1
                in (Inr (change_binding now (bc_state input) b, Some r),
                    snd (audit_record cid now tenant ''ACCESS_STATE_CHANGED'' ''customer_access_binding'' (Some i)
                      (jobject [(''customerId'', Some (JStr (ab_customerId b))), (''routerId'', Some (or_null JStr (ab_routerId b))),
                        (''previousState'', Some (JStr (binding_state_name (ab_state b)))),
                        (''newState'', Some (JStr (binding_state_name (bc_state input)))), (''reason'', Some (JStr (js_trim (bc_reason input)))),
                        (''paymentId'', Some (or_null JStr (bc_paymentId input))),
                        (''reconciliationState'', Some (JStr (reconciliation_state r)))]) ctx s2))))"

definition access_events :: "uuid \<Rightarrow> uuid \<Rightarrow> db \<Rightarrow> access_state_event list result" where
  "access_events tenant i s =
     (if \<not> exists_row (is_binding tenant i) (accessBindings s) then Inl (NotFound ''Access binding not found'')
      else Inr (sort_key (\<lambda>e. - ae_createdAt e) (select (\<lambda>e. ae_tenant e = tenant \<and> ae_bindingId e = i) (accessStateEvents s))))"

subsection \<open>The service state of a customer\<close>

fun service_state_name :: "service_state \<Rightarrow> string" where
  "service_state_name V_PENDING = ''PENDING''"
| "service_state_name V_ACTIVE = ''ACTIVE''"
| "service_state_name V_GRACE = ''GRACE''"
| "service_state_name V_SUSPENDED = ''SUSPENDED''"
| "service_state_name V_BLOCKED = ''BLOCKED''"
| "service_state_name V_DISCONNECTED = ''DISCONNECTED''"
| "service_state_name V_FAULT = ''FAULT''"

definition customer_known :: "uuid \<Rightarrow> uuid \<Rightarrow> db \<Rightarrow> bool" where
  "customer_known tenant customer s \<longleftrightarrow> exists_row (\<lambda>c. cu_tenant c = tenant \<and> cu_id c = customer) (customers s)"

definition is_service :: "uuid \<Rightarrow> uuid \<Rightarrow> customer_service_state \<Rightarrow> bool" where
  "is_service tenant customer x \<longleftrightarrow> cs_tenant x = tenant \<and> cs_customerId x = customer"

definition get_service_state :: "uuid \<Rightarrow> uuid \<Rightarrow> db \<Rightarrow> customer_service_state result" where
  "get_service_state tenant customer s =
     (if \<not> customer_known tenant customer s then Inl (NotFound ''Customer not found'')
      else case select_one (is_service tenant customer) (serviceStates s) of
             None \<Rightarrow> Inl (NotFound ''Customer service state not found'')
           | Some x \<Rightarrow> Inr x)"

text \<open>A date arrives parsed: \<open>Some None\<close> is a date that is not valid.\<close>

record service_change =
  sv_state :: service_state
  sv_reason :: string
  sv_source :: "string option"
  sv_effectiveAt :: "time option option"
  sv_expiresAt :: "time option option"

definition effective_at :: "time \<Rightarrow> service_change \<Rightarrow> time option" where
  "effective_at now input = (case sv_effectiveAt input of None \<Rightarrow> Some now | Some t \<Rightarrow> t)"

definition change_source :: "service_change \<Rightarrow> string" where
  "change_source input = (case trim_or_null (sv_source input) of None \<Rightarrow> ''API'' | Some x \<Rightarrow> x)"

definition service_row :: "uuid \<Rightarrow> uuid \<Rightarrow> uuid \<Rightarrow> service_change \<Rightarrow> time \<Rightarrow> time option \<Rightarrow> customer_service_state" where
  "service_row i tenant customer input effective expires =
     \<lparr> cs_id = i, cs_tenant = tenant, cs_customerId = customer, cs_state = sv_state input, cs_reason = js_trim (sv_reason input),
       cs_source = change_source input, cs_effectiveAt = effective, cs_expiresAt = expires \<rparr>"

text \<open>\<open>INSERT \<dots> ON CONFLICT (tenant_id, customer_id) DO UPDATE\<close>\<close>

definition upsert_service :: "customer_service_state \<Rightarrow> db \<Rightarrow> db" where
  "upsert_service row s =
     (let P = is_service (cs_tenant row) (cs_customerId row)
      in if exists_row P (serviceStates s)
         then s\<lparr> serviceStates := update_where P (\<lambda>x. x\<lparr> cs_state := cs_state row, cs_reason := cs_reason row, cs_source := cs_source row,
                   cs_effectiveAt := cs_effectiveAt row, cs_expiresAt := cs_expiresAt row \<rparr>) (serviceStates s) \<rparr>
         else s\<lparr> next_id := next_id s + 1, serviceStates := insert_row row (serviceStates s) \<rparr>)"

definition service_event :: "time \<Rightarrow> uuid \<Rightarrow> uuid \<Rightarrow> service_state option \<Rightarrow> customer_service_state \<Rightarrow> service_state_event" where
  "service_event now tenant customer previous row =
     \<lparr> ce_tenant = tenant, ce_customerId = customer, ce_previousState = previous, ce_newState = cs_state row, ce_reason = cs_reason row,
       ce_source = cs_source row, ce_effectiveAt = cs_effectiveAt row, ce_createdAt = now \<rparr>"

definition service_state_of :: "uuid \<Rightarrow> uuid \<Rightarrow> db \<Rightarrow> service_state option" where
  "service_state_of tenant customer s = map_option cs_state (select_one (is_service tenant customer) (serviceStates s))"

definition set_service_body ::
  "time \<Rightarrow> uuid \<Rightarrow> uuid \<Rightarrow> service_change \<Rightarrow> time \<Rightarrow> time option \<Rightarrow> (db, service_state option) operation" where
  "set_service_body now tenant customer input effective expires s =
     (if \<not> customer_known tenant customer s then (Inl (NotFound ''Customer not found''), s)
      else (let previous = service_state_of tenant customer s;
                row = service_row (new_uuid s) tenant customer input effective expires;
                s1 = upsert_service row s
            in (Inr previous,
                if previous \<noteq> Some (sv_state input)
                then s1\<lparr> serviceStateEvents := insert_row (service_event now tenant customer previous row) (serviceStateEvents s1) \<rparr>
                else s1)))"

definition set_service_state ::
  "(time \<Rightarrow> string) \<Rightarrow> adapters \<Rightarrow> (string \<Rightarrow> string + credentials) \<Rightarrow> string option \<Rightarrow> time \<Rightarrow> uuid \<Rightarrow> uuid \<Rightarrow> service_change
   \<Rightarrow> audit_context \<Rightarrow> (db, customer_service_state option \<times> reconciliation) operation" where
  "set_service_state show_date ads decrypt cid now tenant customer input ctx s =
     (case (effective_at now input, sv_expiresAt input) of
        (None, _) \<Rightarrow> (Inl (BadRequest ''Invalid service state timestamp''), s)
      | (_, Some None) \<Rightarrow> (Inl (BadRequest ''Invalid service state timestamp''), s)
      | (Some effective, given) \<Rightarrow>
          (let expires = Option.bind given id
           in if (case expires of None \<Rightarrow> False | Some t \<Rightarrow> t \<le> effective)
              then (Inl (BadRequest ''expiresAt must be later than effectiveAt''), s)
              else (case transaction (set_service_body now tenant customer input effective expires) s of
                      (Inl e, s1) \<Rightarrow> (Inl e, s1)
                    | (Inr previous, s1) \<Rightarrow>
                        (let row = select_one (is_service tenant customer) (serviceStates s1);
                             (r, s2) = reconcile_after ads decrypt cid now tenant (''service-state:'' @ customer) s1
                         in (Inr (row, r),
                             snd (audit_record cid now tenant ''CUSTOMER_SERVICE_STATE_CHANGED'' ''customer_service_state'' (map_option cs_id row)
                               (jobject [(''customerId'', Some (JStr customer)),
                                 (''previousState'', Some (or_null (\<lambda>p. JStr (service_state_name p)) previous)),
                                 (''newState'', Some (JStr (service_state_name (sv_state input)))), (''reason'', Some (JStr (js_trim (sv_reason input)))),
                                 (''source'', Some (JStr (change_source input))), (''effectiveAt'', Some (JStr (show_date effective))),
                                 (''expiresAt'', Some (or_null (\<lambda>t. JStr (show_date t)) expires)),
                                 (''reconciliationState'', Some (JStr (reconciliation_state r)))]) ctx s2))))))"

definition service_history :: "uuid \<Rightarrow> uuid \<Rightarrow> db \<Rightarrow> service_state_event list result" where
  "service_history tenant customer s =
     (if \<not> customer_known tenant customer s then Inl (NotFound ''Customer not found'')
      else Inr (sort_key (\<lambda>e. - ce_createdAt e)
             (select (\<lambda>e. ce_tenant e = tenant \<and> ce_customerId e = customer) (serviceStateEvents s))))"

end
