(* ===== verification/Expiry.thy ===== *)
theory Expiry
  imports AccessState
begin

text \<open>
  The expiry scheduler (\<open>isp-operations/isp-expiry.service.ts\<close>): a round expires bindings, moves the end of the service
  states, suspends customers, queues reminders and final notices, and reconciles the access of the tenants concerned.
  \<open>show_date\<close> and \<open>show_local\<close> are \<open>toISOString\<close> and \<open>toLocaleString\<close>. The last sections show what a round achieves, that
  a second one does nothing, and that the event tables of \<open>AccessState\<close> replay to the states.
\<close>

subsection \<open>The transaction\<close>

definition over :: "time \<Rightarrow> time option \<Rightarrow> bool" where
  "over now t \<longleftrightarrow> (case t of None \<Rightarrow> False | Some x \<Rightarrow> x \<le> now)"

definition binding_over :: "time \<Rightarrow> access_binding \<Rightarrow> bool" where
  "binding_over now b \<longleftrightarrow> ab_state b = B_ACTIVE \<and> over now (ab_expiresAt b)"

definition expired_event :: "time \<Rightarrow> access_binding \<Rightarrow> access_state_event" where
  "expired_event now b =
     \<lparr> ae_tenant = ab_tenant b, ae_bindingId = ab_id b, ae_previousState = B_ACTIVE, ae_newState = B_EXPIRED,
       ae_reason = ''Access binding expired'', ae_source = ''SYSTEM_EXPIRY'', ae_paymentId = None, ae_createdAt = now \<rparr>"

definition expire_bindings :: "time \<Rightarrow> db \<Rightarrow> access_binding list \<times> db" where
  "expire_bindings now s =
     (let rows = select (binding_over now) (accessBindings s)
      in (rows, s\<lparr> accessBindings := update_where (binding_over now) (\<lambda>b. b\<lparr> ab_state := B_EXPIRED \<rparr>) (accessBindings s),
                   accessStateEvents := accessStateEvents s @ map (expired_event now) rows \<rparr>))"

definition serves :: "customer_service_state \<Rightarrow> access_binding \<Rightarrow> bool" where
  "serves x b \<longleftrightarrow> ab_tenant b = cs_tenant x \<and> ab_customerId b = cs_customerId x \<and> ab_state b = B_ACTIVE"

text \<open>\<open>MAX(expires_at)\<close> over the active bindings; a \<open>NULL\<close> does not count.\<close>

definition max_expiry :: "access_binding list \<Rightarrow> time option" where
  "max_expiry bs = (case List.map_filter ab_expiresAt bs of [] \<Rightarrow> None | t # ts \<Rightarrow> Some (fold max ts t))"

definition refresh_expiry :: "db \<Rightarrow> db" where
  "refresh_expiry s = s\<lparr> serviceStates := update_where
     (\<lambda>x. cs_state x = V_ACTIVE \<and> exists_row (serves x) (accessBindings s))
     (\<lambda>x. x\<lparr> cs_expiresAt := max_expiry (select (serves x) (accessBindings s)) \<rparr>) (serviceStates s) \<rparr>"

definition service_over :: "time \<Rightarrow> db \<Rightarrow> customer_service_state \<Rightarrow> bool" where
  "service_over now s x \<longleftrightarrow> cs_state x = V_ACTIVE \<and> over now (cs_expiresAt x) \<and> \<not> exists_row (serves x) (accessBindings s)"

definition suspend :: "time \<Rightarrow> customer_service_state \<Rightarrow> customer_service_state" where
  "suspend now x = x\<lparr> cs_state := V_SUSPENDED, cs_reason := ''Service expired'', cs_source := ''SYSTEM_EXPIRY'', cs_effectiveAt := now \<rparr>"

definition suspended_event :: "time \<Rightarrow> customer_service_state \<Rightarrow> service_state_event" where
  "suspended_event now x =
     \<lparr> ce_tenant = cs_tenant x, ce_customerId = cs_customerId x, ce_previousState = Some V_ACTIVE, ce_newState = V_SUSPENDED,
       ce_reason = ''Service expired'', ce_source = ''SYSTEM_EXPIRY'', ce_effectiveAt = now, ce_createdAt = now \<rparr>"

definition suspend_services :: "time \<Rightarrow> db \<Rightarrow> customer_service_state list \<times> db" where
  "suspend_services now s =
     (let rows = select (service_over now s) (serviceStates s)
      in (rows, s\<lparr> serviceStates := update_where (service_over now s) (suspend now) (serviceStates s),
                   serviceStateEvents := serviceStateEvents s @ map (suspended_event now) rows \<rparr>))"

definition expiry_transaction :: "time \<Rightarrow> db \<Rightarrow> (access_binding list \<times> customer_service_state list) \<times> db" where
  "expiry_transaction now s =
     (let (bs, s1) = expire_bindings now s; (xs, s2) = suspend_services now (refresh_expiry s1) in ((bs, xs), s2))"

subsection \<open>Messages\<close>

definition customer_of :: "uuid \<Rightarrow> uuid \<Rightarrow> db \<Rightarrow> customer option" where
  "customer_of tenant i s = select_one (\<lambda>c. cu_tenant c = tenant \<and> cu_id c = i \<and> cu_active c) (customers s)"

definition expires_soon :: "time \<Rightarrow> customer_service_state \<Rightarrow> bool" where
  "expires_soon now x \<longleftrightarrow> cs_state x = V_ACTIVE \<and> (case cs_expiresAt x of None \<Rightarrow> False | Some t \<Rightarrow> now < t \<and> t \<le> now + 86400000)"

text \<open>The state, its customer, the phone and the end.\<close>

definition reminder_of :: "db \<Rightarrow> customer_service_state \<Rightarrow> (customer_service_state \<times> customer \<times> string \<times> time) option" where
  "reminder_of s x = (case customer_of (cs_tenant x) (cs_customerId x) s of
       None \<Rightarrow> None
     | Some c \<Rightarrow> (case (cu_phone c, cs_expiresAt x) of (Some phone, Some t) \<Rightarrow> Some (x, c, phone, t) | _ \<Rightarrow> None))"

definition due_reminders :: "time \<Rightarrow> db \<Rightarrow> (customer_service_state \<times> customer \<times> string \<times> time) list" where
  "due_reminders now s =
     order_limit (\<lambda>(x, c, phone, t). t) 200 (List.map_filter (reminder_of s) (select (expires_soon now) (serviceStates s)))"

definition reminder_sms :: "(time \<Rightarrow> string) \<Rightarrow> (time \<Rightarrow> string) \<Rightarrow> customer_service_state \<times> customer \<times> string \<times> time \<Rightarrow> sms_input" where
  "reminder_sms show_date show_local row = (case row of (x, c, phone, t) \<Rightarrow>
     \<lparr> si_recipient = phone,
       si_message = ''Habari '' @ cu_fullName c @ '', kifurushi chako kinakaribia kuisha tarehe '' @ show_local t @
         ''. Nunua kifurushi kingine kuendelea kutumia huduma.'',
       si_category = ''EXPIRY'', si_idempotencyKey = ''expiry-reminder:'' @ cs_customerId x @ '':'' @ show_date t, si_availableAt = None \<rparr>)"

text \<open>An exception is logged, and the loop goes on.\<close>

definition queue_reminder ::
  "(time \<Rightarrow> string) \<Rightarrow> (time \<Rightarrow> string) \<Rightarrow> time \<Rightarrow> customer_service_state \<times> customer \<times> string \<times> time \<Rightarrow> db \<Rightarrow> db" where
  "queue_reminder show_date show_local now row s = snd (enqueue_sms now (cs_tenant (fst row)) (reminder_sms show_date show_local row) s)"

definition final_sms :: "customer_service_state \<Rightarrow> customer \<Rightarrow> string \<Rightarrow> sms_input" where
  "final_sms x c phone =
     \<lparr> si_recipient = phone,
       si_message = ''Habari '' @ cu_fullName c @ '', kifurushi chako kimeisha na huduma imesitishwa. Tafadhali nunua kifurushi kingine ili kuendelea.'',
       si_category = ''EXPIRY'', si_idempotencyKey = ''expiry-final:'' @ cs_customerId x, si_availableAt = None \<rparr>"

definition queue_final_notice :: "time \<Rightarrow> customer_service_state \<Rightarrow> db \<Rightarrow> db" where
  "queue_final_notice now x s = (case customer_of (cs_tenant x) (cs_customerId x) s of
       None \<Rightarrow> s
     | Some c \<Rightarrow> (case cu_phone c of
           Some (d # ds) \<Rightarrow> snd (enqueue_sms now (cs_tenant x) (final_sms x c (d # ds)) s)
         | _ \<Rightarrow> s))"

subsection \<open>A round\<close>

record expiry_result =
  er_expiredBindings :: nat
  er_suspendedCustomers :: nat

definition expiry_round ::
  "(time \<Rightarrow> string) \<Rightarrow> (time \<Rightarrow> string) \<Rightarrow> adapters \<Rightarrow> (string \<Rightarrow> string + credentials) \<Rightarrow> string option \<Rightarrow> bool \<Rightarrow> time \<Rightarrow> db
   \<Rightarrow> expiry_result \<times> db" where
  "expiry_round show_date show_local ads decrypt cid running now s =
     (if running then (\<lparr> er_expiredBindings = 0, er_suspendedCustomers = 0 \<rparr>, s)
      else (let ((bs, xs), s1) = expiry_transaction now s;
                s2 = fold (queue_reminder show_date show_local now) (due_reminders now s1) s1;
                s3 = fold (queue_final_notice now) xs s2;
                tenants = js_unique (map ab_tenant bs @ map cs_tenant xs);
                s4 = fold (\<lambda>tenant t. snd (reconcile_access_state ads decrypt cid now tenant
                       (no_context\<lparr> ac_requestId := Some (''system-expiry:'' @ tenant) \<rparr>) t)) tenants s3
            in (\<lparr> er_expiredBindings = length bs, er_suspendedCustomers = length xs \<rparr>, s4)))"

subsection \<open>What a round settles\<close>

lemma fold_max_less: "(now :: time) < t \<Longrightarrow> (\<And>x. x \<in> set ts \<Longrightarrow> now < x) \<Longrightarrow> now < fold max ts t"
  by (induction ts arbitrary: t) auto

lemma max_expiry_runs:
  assumes "\<And>b. b \<in> set bs \<Longrightarrow> \<not> over now (ab_expiresAt b)"
  shows "\<not> over now (max_expiry bs)"
proof -
  have all: "now < t" if "t \<in> set (List.map_filter ab_expiresAt bs)" for t
    using that assms by (force simp: List.map_filter_def over_def)
  show ?thesis
  proof (cases "List.map_filter ab_expiresAt bs")
    case Nil
    then show ?thesis by (simp add: max_expiry_def over_def)
  next
    case (Cons t ts)
    then have "now < fold max ts t" using all by (intro fold_max_less) auto
    then show ?thesis by (simp add: max_expiry_def over_def Cons)
  qed
qed

definition refreshable :: "db \<Rightarrow> customer_service_state \<Rightarrow> bool" where
  "refreshable s x \<longleftrightarrow> cs_state x = V_ACTIVE \<and> exists_row (serves x) (accessBindings s)"

definition refreshed :: "db \<Rightarrow> customer_service_state \<Rightarrow> customer_service_state" where
  "refreshed s x = x\<lparr> cs_expiresAt := max_expiry (select (serves x) (accessBindings s)) \<rparr>"

lemma refresh_expiry_alt: "refresh_expiry s = s\<lparr> serviceStates := update_where (refreshable s) (refreshed s) (serviceStates s) \<rparr>"
  by (simp add: refresh_expiry_def refreshable_def [abs_def] refreshed_def [abs_def])

lemma serves_cong: "cs_tenant y = cs_tenant x \<Longrightarrow> cs_customerId y = cs_customerId x \<Longrightarrow> serves y = serves x"
  by (simp add: serves_def [abs_def])

lemma refreshed_sel [simp]:
  "cs_tenant (refreshed s x) = cs_tenant x" "cs_customerId (refreshed s x) = cs_customerId x" "cs_state (refreshed s x) = cs_state x"
  "serves (refreshed s x) = serves x" "refreshed s (refreshed s x) = refreshed s x" "refreshable s (refreshed s x) = refreshable s x"
  by (simp_all add: refreshed_def refreshable_def serves_cong [of "x\<lparr> cs_expiresAt := t \<rparr>" x for t])

text \<open>The database as a round leaves it: nothing active is over, and every active service ends with its last binding.\<close>

definition settled :: "time \<Rightarrow> db \<Rightarrow> bool" where
  "settled now s \<longleftrightarrow> \<not> exists_row (binding_over now) (accessBindings s) \<and>
     \<not> exists_row (\<lambda>x. cs_state x = V_ACTIVE \<and> over now (cs_expiresAt x)) (serviceStates s) \<and>
     \<not> exists_row (\<lambda>x. refreshable s x \<and> refreshed s x \<noteq> x) (serviceStates s)"

lemma settled_cong:
  assumes "settled now s" and "accessBindings t = accessBindings s" and "serviceStates t = serviceStates s"
  shows "settled now t"
proof -
  have "refreshable t = refreshable s" "refreshed t = refreshed s"
    by (simp_all add: refreshable_def [abs_def] refreshed_def [abs_def] assms(2))
  then show ?thesis using assms by (simp add: settled_def)
qed

lemma settled_transaction:
  assumes "settled now s"
  shows "expiry_transaction now s = (([], []), s)"
proof -
  have bs: "select (binding_over now) (accessBindings s) = []"
    using assms by (auto simp: settled_def exists_row_iff select_def filter_empty_conv)
  have "update_where (binding_over now) f (accessBindings s) = accessBindings s" for f
    by (rule update_where_none) (use assms in \<open>auto simp: settled_def exists_row_iff\<close>)
  with bs have e: "expire_bindings now s = ([], s)" by (simp add: expire_bindings_def)
  have "update_where (refreshable s) (refreshed s) (serviceStates s) = serviceStates s"
    using assms by (auto simp: settled_def exists_row_iff update_where_def intro: map_idI)
  then have r: "refresh_expiry s = s" by (simp add: refresh_expiry_alt)
  have xs: "select (service_over now s) (serviceStates s) = []"
    using assms by (auto simp: settled_def exists_row_iff select_def filter_empty_conv service_over_def)
  have "update_where (service_over now s) f (serviceStates s) = serviceStates s" for f
    by (rule update_where_none) (use assms in \<open>auto simp: settled_def exists_row_iff service_over_def\<close>)
  with xs have "suspend_services now s = ([], s)" by (simp add: suspend_services_def)
  with e r show ?thesis by (simp add: expiry_transaction_def)
qed

lemma transaction_settles:
  assumes "expiry_transaction now s = ((bs, xs), t)"
  shows "settled now t" "length (accessStateEvents t) = length (accessStateEvents s) + length bs"
    "length (serviceStateEvents t) = length (serviceStateEvents s) + length xs" "customers t = customers s" "notifications t = notifications s"
proof -
  define s1 where "s1 = snd (expire_bindings now s)"
  define s2 where "s2 = refresh_expiry s1"
  have t: "t = snd (suspend_services now s2)" and bs: "bs = fst (expire_bindings now s)" and xs: "xs = fst (suspend_services now s2)"
    using assms by (auto simp: expiry_transaction_def s1_def s2_def split: prod.splits)
  have b: "accessBindings t = accessBindings s1" "accessBindings s2 = accessBindings s1"
    by (simp_all add: t suspend_services_def s2_def refresh_expiry_def Let_def)
  have same: "refreshable t = refreshable s1" "refreshed t = refreshed s1"
    by (simp_all add: refreshable_def [abs_def] refreshed_def [abs_def] b)
  have no_binding: "\<not> binding_over now b" if "b \<in> set (accessBindings s1)" for b
  proof -
    have "b \<in> set (update_where (binding_over now) (\<lambda>b. b\<lparr> ab_state := B_EXPIRED \<rparr>) (accessBindings s))"
      using that by (simp add: s1_def expire_bindings_def Let_def)
    then obtain c where "b = (if binding_over now c then c\<lparr> ab_state := B_EXPIRED \<rparr> else c)" unfolding in_update_where by blast
    then show ?thesis by (cases "binding_over now c") (simp_all add: binding_over_def)
  qed
  have row: "\<not> (cs_state x = V_ACTIVE \<and> over now (cs_expiresAt x)) \<and> (refreshable s1 x \<longrightarrow> refreshed s1 x = x)"
    if "x \<in> set (serviceStates t)" for x
  proof -
    have "x \<in> set (update_where (service_over now s2) (suspend now) (serviceStates s2))"
      using that by (simp add: t suspend_services_def Let_def)
    then obtain y where y: "y \<in> set (serviceStates s2)" "x = (if service_over now s2 y then suspend now y else y)"
      unfolding in_update_where by blast
    have "y \<in> set (update_where (refreshable s1) (refreshed s1) (serviceStates s1))"
      using y(1) by (simp add: s2_def refresh_expiry_alt)
    then obtain z where z: "y = (if refreshable s1 z then refreshed s1 z else z)" unfolding in_update_where by blast
    show ?thesis
    proof (cases "service_over now s2 y")
      case True
      with y(2) show ?thesis by (simp add: suspend_def refreshable_def)
    next
      case False
      then have x: "x = (if refreshable s1 z then refreshed s1 z else z)" using y(2) z by simp
      show ?thesis
      proof (cases "refreshable s1 z")
        case True
        have "\<not> over now (max_expiry (select (serves z) (accessBindings s1)))"
          by (rule max_expiry_runs) (use no_binding in \<open>auto simp: binding_over_def serves_def\<close>)
        moreover have "cs_expiresAt x = max_expiry (select (serves z) (accessBindings s1))" using True x by (simp add: refreshed_def)
        moreover have "refreshed s1 x = x" using True x by simp
        ultimately show ?thesis by simp
      next
        case no: False
        then have "x = z" using x by simp
        with False y(2) no show ?thesis by (auto simp: service_over_def refreshable_def b)
      qed
    qed
  qed
  show "settled now t"
    unfolding settled_def using no_binding row by (auto simp: exists_row_iff b same)
  show "length (accessStateEvents t) = length (accessStateEvents s) + length bs"
    by (simp add: t bs suspend_services_def s2_def s1_def refresh_expiry_def expire_bindings_def Let_def)
  show "length (serviceStateEvents t) = length (serviceStateEvents s) + length xs"
    by (simp add: t xs suspend_services_def s2_def s1_def refresh_expiry_def expire_bindings_def Let_def)
  show "customers t = customers s" "notifications t = notifications s"
    by (simp_all add: t suspend_services_def s2_def s1_def refresh_expiry_def expire_bindings_def Let_def)
qed

text \<open>The rows and events of a round, one by one. The service states are judged by the bindings that are left.\<close>

definition service_after :: "time \<Rightarrow> db \<Rightarrow> customer_service_state \<Rightarrow> customer_service_state" where
  "service_after now u x =
     (if cs_state x \<noteq> V_ACTIVE then x
      else if list_ex (serves x) (accessBindings u) then x\<lparr> cs_expiresAt := max_expiry (filter (serves x) (accessBindings u)) \<rparr>
      else if over now (cs_expiresAt x) then suspend now x else x)"

lemma transaction_rows:
  assumes "expiry_transaction now s = ((bs, xs), t)"
  shows "bs = filter (binding_over now) (accessBindings s)"
    and "accessBindings t = map (\<lambda>b. if binding_over now b then b\<lparr> ab_state := B_EXPIRED \<rparr> else b) (accessBindings s)"
    and "accessStateEvents t = accessStateEvents s @ map (expired_event now) bs"
    and "xs = filter (service_over now t) (serviceStates s)"
    and "serviceStates t = map (service_after now t) (serviceStates s)"
    and "serviceStateEvents t = serviceStateEvents s @ map (suspended_event now) xs"
proof -
  define s1 where "s1 = snd (expire_bindings now s)"
  define s2 where "s2 = refresh_expiry s1"
  have t: "t = snd (suspend_services now s2)" and bs: "bs = fst (expire_bindings now s)" and xs: "xs = fst (suspend_services now s2)"
    using assms by (auto simp: expiry_transaction_def s1_def s2_def split: prod.splits)
  have b: "accessBindings t = accessBindings s1" "accessBindings s2 = accessBindings s1" "serviceStates s1 = serviceStates s"
    by (simp_all add: t suspend_services_def s2_def s1_def refresh_expiry_def expire_bindings_def Let_def)
  have same: "service_over now s2 = service_over now t" "refreshable s1 = refreshable t" "refreshed s1 = refreshed t"
    by (simp_all add: service_over_def [abs_def] refreshable_def [abs_def] refreshed_def [abs_def] b)
  show bs': "bs = filter (binding_over now) (accessBindings s)" by (simp add: bs expire_bindings_def Let_def select_def)
  show bt: "accessBindings t = map (\<lambda>b. if binding_over now b then b\<lparr> ab_state := B_EXPIRED \<rparr> else b) (accessBindings s)"
    by (simp add: b s1_def expire_bindings_def Let_def update_where_def)
  show "accessStateEvents t = accessStateEvents s @ map (expired_event now) bs"
    by (simp add: t bs suspend_services_def s2_def s1_def refresh_expiry_def expire_bindings_def Let_def)
  show "serviceStateEvents t = serviceStateEvents s @ map (suspended_event now) xs"
    by (simp add: t xs suspend_services_def s2_def s1_def refresh_expiry_def expire_bindings_def Let_def)
  have rows: "serviceStates s2 = map (\<lambda>x. if refreshable t x then refreshed t x else x) (serviceStates s)"
    by (simp add: s2_def refresh_expiry_alt update_where_def b(3) same)
  have sover: "service_over now t (if refreshable t x then refreshed t x else x) \<longleftrightarrow> service_over now t x" for x
    by (cases "refreshable t x") (simp_all add: service_over_def refreshable_def)
  have keep: "service_over now t x \<Longrightarrow> \<not> refreshable t x" for x by (simp add: service_over_def refreshable_def)
  have "filter (service_over now t) (map (\<lambda>x. if refreshable t x then refreshed t x else x) ys) = filter (service_over now t) ys" for ys
    by (induction ys) (use sover keep in auto)
  then show "xs = filter (service_over now t) (serviceStates s)" by (simp add: xs suspend_services_def Let_def select_def rows same(1))
  have "(if service_over now t (if refreshable t x then refreshed t x else x) then suspend now (if refreshable t x then refreshed t x else x)
      else if refreshable t x then refreshed t x else x) = service_after now t x" for x
    unfolding sover by (auto simp: service_after_def service_over_def refreshable_def refreshed_def exists_row_def select_def)
  moreover have "serviceStates t = update_where (service_over now s2) (suspend now) (serviceStates s2)" by (simp add: t suspend_services_def Let_def)
  ultimately show "serviceStates t = map (service_after now t) (serviceStates s)" by (simp add: rows same(1) update_where_def comp_def)
qed

subsection \<open>The messages of a round\<close>

text \<open>Everything but the messages and the counter.\<close>

definition messages_only :: "db \<Rightarrow> db \<Rightarrow> bool" where
  "messages_only s t \<longleftrightarrow> accessBindings t = accessBindings s \<and> accessStateEvents t = accessStateEvents s \<and>
     serviceStates t = serviceStates s \<and> serviceStateEvents t = serviceStateEvents s \<and> customers t = customers s"

lemma messages_only_refl [simp]: "messages_only s s"
  by (simp add: messages_only_def)

lemma messages_only_trans: "messages_only s t \<Longrightarrow> messages_only t u \<Longrightarrow> messages_only s u"
  by (simp add: messages_only_def)

lemma same_subscribers_messages: "same_subscribers s t \<Longrightarrow> messages_only s t"
  by (simp add: same_subscribers_def messages_only_def)

lemma messages_only_fold: "(\<And>x s. messages_only s (f x s)) \<Longrightarrow> messages_only s (fold f xs s)"
  by (induction xs arbitrary: s) (auto intro: messages_only_trans)

lemma enqueue_sms_messages: "messages_only s (snd (enqueue_sms now tenant input s))"
  by (simp add: enqueue_sms_def Let_def insert_notification_def put_notification_def messages_only_def split: sum.split)

text \<open>A message of another category than marketing is either refused whatever the database holds, or goes under its key.\<close>

lemma enqueue_sms_key:
  assumes "si_category input \<noteq> ''MARKETING''"
  obtains "\<And>s. notifications (snd (enqueue_sms now tenant input s)) = notifications s"
  | k r where "\<And>s. no_key (r s) = Some k" "\<And>s. notifications (snd (enqueue_sms now tenant input s)) = insert_once no_key (r s) (notifications s)"
proof (cases "normalize_phone (si_recipient input)")
  case (Inl e)
  then show thesis by (intro that(1)) (simp add: enqueue_sms_def)
next
  case (Inr recipient)
  let ?key = "js_trim (si_idempotencyKey input)"
  define r where "r s = notification_row (new_uuid s) now tenant ''SMS'' recipient (si_category input) (message_payload (js_trim (si_message input)))
       (or_value (si_availableAt input) now) (Some ?key) (Some (si_category input)) None" for s
  show thesis
  proof (cases "js_trim (si_message input) = [] \<or> 1600 < length (js_trim (si_message input)) \<or> ?key = [] \<or> 180 < length ?key \<or>
      si_category input \<notin> set sms_categories")
    case True
    then show thesis by (intro that(1)) (auto simp: enqueue_sms_def Inr Let_def)
  next
    case False
    then have "enqueue_sms now tenant input s = insert_notification (r s) s" for s
      using assms by (simp add: enqueue_sms_def Inr Let_def r_def)
    then have "notifications (snd (enqueue_sms now tenant input s)) = insert_once no_key (r s) (notifications s)" for s
      by (simp add: insert_notification_def put_notification_def)
    moreover have "no_key (r s) = Some (tenant, ?key)" for s by (simp add: r_def notification_row_def no_key_def)
    ultimately show thesis by (intro that(2))
  qed
qed

text \<open>The message is in the outbox, or will never be: queueing it again changes nothing.\<close>

definition queued :: "time \<Rightarrow> uuid \<Rightarrow> sms_input \<Rightarrow> notification list \<Rightarrow> bool" where
  "queued now tenant input ns \<longleftrightarrow> (\<forall>s. set ns \<subseteq> set (notifications s) \<longrightarrow>
     notifications (snd (enqueue_sms now tenant input s)) = notifications s)"

lemma queued_mono: "queued now tenant input ns \<Longrightarrow> set ns \<subseteq> set ms \<Longrightarrow> queued now tenant input ms"
  by (auto simp: queued_def)

lemma enqueue_sms_queued:
  assumes "si_category input \<noteq> ''MARKETING''"
  shows "queued now tenant input (notifications (snd (enqueue_sms now tenant input s)))"
proof (rule enqueue_sms_key [OF assms, of now tenant])
  show ?thesis if "\<And>s. notifications (snd (enqueue_sms now tenant input s)) = notifications s"
    using that by (simp add: queued_def)
next
  fix k r
  assume k: "\<And>s. no_key (r s) = Some k"
    and e: "\<And>s. notifications (snd (enqueue_sms now tenant input s)) = insert_once no_key (r s) (notifications s)"
  have h: "has_key no_key k (insert_once no_key (r s) (notifications s))"
    using messages.put_has_key [OF k, of s s] by (simp add: put_notification_def)
  have "insert_once no_key (r t) (notifications t) = notifications t"
    if "set (insert_once no_key (r s) (notifications s)) \<subseteq> set (notifications t)" for t
  proof -
    have "has_key no_key k (notifications t)" using h that by (auto simp: has_key_iff)
    then show ?thesis using k by (simp add: insert_once_present)
  qed
  then show ?thesis by (simp add: queued_def e)
qed

lemma enqueue_sms_grows: "set (notifications s) \<subseteq> set (notifications (snd (enqueue_sms now tenant input s)))"
proof -
  have "set (notifications s) \<subseteq> set (notifications (put_notification r s))" for r using messages.put_keeps by blast
  then show ?thesis by (auto simp: enqueue_sms_def Let_def insert_notification_def split: sum.split)
qed

lemma queue_reminder_messages: "messages_only s (queue_reminder show_date show_local now row s)"
  by (simp add: queue_reminder_def enqueue_sms_messages)

lemma queue_final_notice_messages: "messages_only s (queue_final_notice now x s)"
  by (simp add: queue_final_notice_def enqueue_sms_messages split: option.split list.split)

lemma queue_final_notice_grows: "set (notifications s) \<subseteq> set (notifications (queue_final_notice now x s))"
  by (simp add: queue_final_notice_def enqueue_sms_grows split: option.split list.split)

lemma fold_grows: "(\<And>x s. set (notifications s) \<subseteq> set (notifications (f x s))) \<Longrightarrow> set (notifications s) \<subseteq> set (notifications (fold f xs s))"
proof (induction xs arbitrary: s)
  case Nil
  then show ?case by simp
next
  case (Cons x xs)
  have "set (notifications (f x s)) \<subseteq> set (notifications (fold f xs (f x s)))" by (rule Cons.IH) (rule Cons.prems)
  with Cons.prems [of s x] show ?case by simp
qed

lemma reminders_queued:
  "row \<in> set rows \<Longrightarrow>
     queued now (cs_tenant (fst row)) (reminder_sms show_date show_local row) (notifications (fold (queue_reminder show_date show_local now) rows s))"
proof (induction rows arbitrary: s)
  case Nil
  then show ?case by simp
next
  case (Cons r rows)
  show ?case
  proof (cases "row \<in> set rows")
    case True
    then show ?thesis using Cons.IH by simp
  next
    case False
    then have r: "row = r" using Cons.prems by simp
    have "si_category (reminder_sms show_date show_local r) \<noteq> ''MARKETING''" by (simp add: reminder_sms_def split: prod.split)
    then have "queued now (cs_tenant (fst r)) (reminder_sms show_date show_local r) (notifications (queue_reminder show_date show_local now r s))"
      unfolding queue_reminder_def by (rule enqueue_sms_queued)
    moreover have "set (notifications (queue_reminder show_date show_local now r s)) \<subseteq>
        set (notifications (fold (queue_reminder show_date show_local now) rows (queue_reminder show_date show_local now r s)))"
      by (rule fold_grows) (simp add: queue_reminder_def enqueue_sms_grows)
    ultimately show ?thesis unfolding r by (simp add: queued_mono)
  qed
qed

lemma reminders_again:
  assumes "\<And>row. row \<in> set rows \<Longrightarrow> queued now (cs_tenant (fst row)) (reminder_sms show_date show_local row) (notifications s)"
  shows "notifications (fold (queue_reminder show_date show_local now) rows s) = notifications s"
  using assms
proof (induction rows arbitrary: s)
  case Nil
  then show ?case by simp
next
  case (Cons r rows)
  have same: "notifications (queue_reminder show_date show_local now r s) = notifications s"
    using Cons.prems [of r] by (simp add: queued_def queue_reminder_def)
  have "notifications (fold (queue_reminder show_date show_local now) rows (queue_reminder show_date show_local now r s)) =
      notifications (queue_reminder show_date show_local now r s)"
    by (rule Cons.IH) (use Cons.prems in \<open>simp add: same\<close>)
  with same show ?case by simp
qed

lemma due_reminders_cong: "messages_only s t \<Longrightarrow> due_reminders now t = due_reminders now s"
proof -
  assume "messages_only s t"
  then have e: "serviceStates t = serviceStates s" "customers t = customers s" by (simp_all add: messages_only_def)
  have "reminder_of t = reminder_of s" by (simp add: reminder_of_def [abs_def] customer_of_def e)
  then show ?thesis by (simp add: due_reminders_def e)
qed

lemma expiry_round_unfold:
  assumes "expiry_round show_date show_local ads decrypt cid False now s = (res, s')"
  obtains bs xs t where "expiry_transaction now s = ((bs, xs), t)" "res = \<lparr> er_expiredBindings = length bs, er_suspendedCustomers = length xs \<rparr>"
    "messages_only t s'"
    "\<And>row. row \<in> set (due_reminders now t) \<Longrightarrow> queued now (cs_tenant (fst row)) (reminder_sms show_date show_local row) (notifications s')"
    "bs = [] \<Longrightarrow> xs = [] \<Longrightarrow> s' = fold (queue_reminder show_date show_local now) (due_reminders now t) t"
proof -
  obtain bs xs t where e: "expiry_transaction now s = ((bs, xs), t)" by (metis prod.collapse)
  define s2 where "s2 = fold (queue_reminder show_date show_local now) (due_reminders now t) t"
  define s3 where "s3 = fold (queue_final_notice now) xs s2"
  define f where "f tenant u = snd (reconcile_access_state ads decrypt cid now tenant
      (no_context\<lparr> ac_requestId := Some (''system-expiry:'' @ tenant) \<rparr>) u)" for tenant u
  have s': "s' = fold f (js_unique (map ab_tenant bs @ map cs_tenant xs)) s3"
    and res: "res = \<lparr> er_expiredBindings = length bs, er_suspendedCustomers = length xs \<rparr>"
    using assms by (simp_all add: expiry_round_def e Let_def s2_def s3_def f_def [abs_def])
  have sub: "same_subscribers u (f tenant u)" for tenant u by (simp add: f_def reconcile_access_subscribers)
  have m: "messages_only t s2" "messages_only s2 s3" "messages_only s3 s'"
    unfolding s2_def s3_def s' by (rule messages_only_fold, simp add: queue_reminder_messages queue_final_notice_messages same_subscribers_messages sub)+
  have "set (notifications u) \<subseteq> set (notifications (f tenant u))" for tenant u using sub [of u tenant] by (simp add: same_subscribers_def)
  then have g: "set (notifications s2) \<subseteq> set (notifications s')"
    using fold_grows [of "queue_final_notice now" s2 xs, OF queue_final_notice_grows] fold_grows [of f s3]
    by (simp add: s' s3_def) blast
  have "queued now (cs_tenant (fst row)) (reminder_sms show_date show_local row) (notifications s')" if "row \<in> set (due_reminders now t)" for row
    by (rule queued_mono [OF _ g]) (simp add: s2_def reminders_queued that)
  moreover have "s' = s2" if "bs = []" "xs = []" by (simp add: s' s3_def that js_unique_def)
  ultimately show thesis
    using that [OF e res] messages_only_trans [OF m(1) messages_only_trans [OF m(2,3)]] by (simp add: s2_def)
qed

text \<open>C29: a round of the expiry scheduler expires exactly the active bindings that are over, counts them, and writes for each of them,
  in order, the event that says so, and no other. An active service state with active bindings left ends with the last of them; one
  without, that is over, is suspended, and these are exactly the counted ones and those with an event; every other service state is what it was.
  Afterwards no active binding and no active service state is over. The round is idempotent: another one at the
  same time expires and suspends nothing, changes no state and no event, and queues no message twice.\<close>

theorem expiry_rounds_settle:
  "let (r, s1) = expiry_round show_date show_local ads decrypt cid False now s;
       (r2, s2) = expiry_round show_date show_local ads decrypt cid' False now s1;
       ended = filter (\<lambda>b. ab_state b = B_ACTIVE \<and> over now (ab_expiresAt b)) (accessBindings s);
       left = (\<lambda>x. filter (\<lambda>b. ab_tenant b = cs_tenant x \<and> ab_customerId b = cs_customerId x \<and> ab_state b = B_ACTIVE) (accessBindings s1));
       stopped = filter (\<lambda>x. cs_state x = V_ACTIVE \<and> left x = [] \<and> over now (cs_expiresAt x)) (serviceStates s)
   in accessBindings s1 = map (\<lambda>b. if ab_state b = B_ACTIVE \<and> over now (ab_expiresAt b) then b\<lparr> ab_state := B_EXPIRED \<rparr> else b) (accessBindings s) \<and>
      er_expiredBindings r = length ended \<and>
      accessStateEvents s1 = accessStateEvents s @ map (\<lambda>b. \<lparr> ae_tenant = ab_tenant b, ae_bindingId = ab_id b, ae_previousState = B_ACTIVE,
        ae_newState = B_EXPIRED, ae_reason = ''Access binding expired'', ae_source = ''SYSTEM_EXPIRY'', ae_paymentId = None, ae_createdAt = now \<rparr>) ended \<and>
      serviceStates s1 = map (\<lambda>x. if cs_state x \<noteq> V_ACTIVE then x
        else if left x \<noteq> [] then x\<lparr> cs_expiresAt := max_expiry (left x) \<rparr>
        else if over now (cs_expiresAt x) then suspend now x else x) (serviceStates s) \<and>
      er_suspendedCustomers r = length stopped \<and>
      serviceStateEvents s1 = serviceStateEvents s @ map (suspended_event now) stopped \<and>
      \<not> exists_row (binding_over now) (accessBindings s1) \<and>
      \<not> exists_row (\<lambda>x. cs_state x = V_ACTIVE \<and> over now (cs_expiresAt x)) (serviceStates s1) \<and>
      r2 = \<lparr> er_expiredBindings = 0, er_suspendedCustomers = 0 \<rparr> \<and> same_subscribers s1 s2"
proof -
  obtain r s1 where a: "expiry_round show_date show_local ads decrypt cid False now s = (r, s1)" by fastforce
  obtain r2 s2 where b: "expiry_round show_date show_local ads decrypt cid' False now s1 = (r2, s2)" by fastforce
  from a obtain bs xs t where t: "expiry_transaction now s = ((bs, xs), t)" "messages_only t s1"
    and r: "r = \<lparr> er_expiredBindings = length bs, er_suspendedCustomers = length xs \<rparr>"
    and q: "\<And>row. row \<in> set (due_reminders now t) \<Longrightarrow> queued now (cs_tenant (fst row)) (reminder_sms show_date show_local row) (notifications s1)"
    by (rule expiry_round_unfold) blast
  have s1: "settled now s1" using t by (auto simp: messages_only_def intro: settled_cong transaction_settles(1))
  from b obtain bs' xs' u where u: "expiry_transaction now s1 = ((bs', xs'), u)" "messages_only u s2"
      "r2 = \<lparr> er_expiredBindings = length bs', er_suspendedCustomers = length xs' \<rparr>"
      "bs' = [] \<Longrightarrow> xs' = [] \<Longrightarrow> s2 = fold (queue_reminder show_date show_local now) (due_reminders now u) u"
    by (rule expiry_round_unfold) blast
  have u': "bs' = []" "xs' = []" "u = s1" using u(1) settled_transaction [OF s1] by simp_all
  have "s2 = fold (queue_reminder show_date show_local now) (due_reminders now t) s1"
    using u(4) u' by (simp add: due_reminders_cong [OF t(2)])
  then have "notifications s2 = notifications s1" using reminders_again q by simp
  moreover have "messages_only s1 s2" using u(2) u' by simp
  ultimately have again: "same_subscribers s1 s2" by (simp add: same_subscribers_def messages_only_def)
  have m: "accessBindings s1 = accessBindings t" "accessStateEvents s1 = accessStateEvents t" "serviceStates s1 = serviceStates t"
    "serviceStateEvents s1 = serviceStateEvents t" using t(2) by (simp_all add: messages_only_def)
  have left: "(\<lambda>b. ab_tenant b = cs_tenant x \<and> ab_customerId b = cs_customerId x \<and> ab_state b = B_ACTIVE) = serves x" for x
    by (simp add: serves_def fun_eq_iff)
  have none: "filter P ys = [] \<longleftrightarrow> \<not> list_ex P ys" for P and ys :: "access_binding list" by (simp add: filter_empty_conv list_ex_iff)
  have stopped: "(\<lambda>x. cs_state x = V_ACTIVE \<and> filter (serves x) (accessBindings t) = [] \<and> over now (cs_expiresAt x)) = service_over now t"
    by (auto simp: service_over_def exists_row_def none fun_eq_iff)
  have after: "(\<lambda>x. if cs_state x \<noteq> V_ACTIVE then x
        else if filter (serves x) (accessBindings t) \<noteq> [] then x\<lparr> cs_expiresAt := max_expiry (filter (serves x) (accessBindings t)) \<rparr>
        else if over now (cs_expiresAt x) then suspend now x else x) = service_after now t"
    by (simp add: service_after_def none fun_eq_iff)
  have over: "(\<lambda>b. ab_state b = B_ACTIVE \<and> over now (ab_expiresAt b)) = binding_over now" by (simp add: binding_over_def fun_eq_iff)
  note rows = transaction_rows [OF t(1)]
  have events: "(\<lambda>b. \<lparr> ae_tenant = ab_tenant b, ae_bindingId = ab_id b, ae_previousState = B_ACTIVE, ae_newState = B_EXPIRED,
      ae_reason = ''Access binding expired'', ae_source = ''SYSTEM_EXPIRY'', ae_paymentId = None, ae_createdAt = now \<rparr>) = expired_event now"
    by (simp add: expired_event_def fun_eq_iff)
  have "accessBindings t = map (\<lambda>b. if ab_state b = B_ACTIVE \<and> over now (ab_expiresAt b) then b\<lparr> ab_state := B_EXPIRED \<rparr> else b) (accessBindings s)"
    unfolding rows(2) by (simp add: binding_over_def)
  then show ?thesis unfolding a b Let_def prod.case left m stopped after over events
    using rows r s1 u(3) u'(1,2) again by (simp add: settled_def m)
qed

end
