(* ===== verification/Histories.thy ===== *)
theory Histories
  imports Expiry
begin

text \<open>
  The tables of events of the access bindings and of the service states against the states themselves: replaying the
  events gives the states. The states are the refinement, the event log is the specification.
\<close>

subsection \<open>Replaying a log\<close>

text \<open>A log of changes of the value of a key. It replays when every event starts from the value its key has.\<close>

fun replay :: "('e \<Rightarrow> 'k) \<Rightarrow> ('e \<Rightarrow> 'v) \<Rightarrow> ('e \<Rightarrow> 'v) \<Rightarrow> 'e list \<Rightarrow> ('k \<Rightarrow> 'v) \<Rightarrow> ('k \<Rightarrow> 'v) option" where
  "replay key before after [] m = Some m"
| "replay key before after (e # es) m =
     (if m (key e) = before e then replay key before after es (m(key e := after e)) else None)"

text \<open>The value of a key in a table, with the value of a row that is not there.\<close>

definition current :: "('r \<Rightarrow> 'k) \<Rightarrow> ('r \<Rightarrow> 'v) \<Rightarrow> 'v \<Rightarrow> 'r list \<Rightarrow> 'k \<Rightarrow> 'v" where
  "current kf st d t = (\<lambda>k. case select_one (\<lambda>x. kf x = k) t of None \<Rightarrow> d | Some x \<Rightarrow> st x)"

lemma replay_append:
  "replay key before after (xs @ ys) m = Option.bind (replay key before after xs m) (replay key before after ys)"
  by (induction xs arbitrary: m) simp_all

lemma replay_batch:
  assumes "distinct (map key es)" and "\<And>e. e \<in> set es \<Longrightarrow> m (key e) = before e"
  shows "replay key before after es m = Some (\<lambda>k. case find (\<lambda>e. key e = k) es of None \<Rightarrow> m k | Some e \<Rightarrow> after e)"
  using assms
proof (induction es arbitrary: m)
  case Nil
  then show ?case by simp
next
  case (Cons e es)
  have later: "(m(key e := after e)) (key x) = before x" if "x \<in> set es" for x
  proof -
    have "key x \<noteq> key e" using Cons.prems(1) that by (auto simp: image_iff)
    then show ?thesis using Cons.prems(2) [of x] that by simp
  qed
  have "replay key before after es (m(key e := after e)) =
      Some (\<lambda>k. case find (\<lambda>e. key e = k) es of None \<Rightarrow> (m(key e := after e)) k | Some e \<Rightarrow> after e)"
    by (rule Cons.IH) (use Cons.prems(1) later in simp_all)
  moreover have "find (\<lambda>x. key x = key e) es = None" using Cons.prems(1) by (auto simp: find_None_iff image_iff)
  ultimately show ?case using Cons.prems(2) [of e] by (auto intro!: ext split: option.split)
qed

lemma current_update:
  "(\<And>x. kf (f x) = kf x) \<Longrightarrow>
     current kf st d (update_where P f t) = (\<lambda>k. case select_one (\<lambda>x. kf x = k) t of None \<Rightarrow> d | Some x \<Rightarrow> st (if P x then f x else x))"
  by (rule ext) (simp add: current_def select_one_update_where split: option.split)

lemma current_update_same: "(\<And>x. kf (f x) = kf x) \<Longrightarrow> (\<And>x. P x \<Longrightarrow> st (f x) = st x) \<Longrightarrow> current kf st d (update_where P f t) = current kf st d t"
  by (simp add: current_update) (auto simp: current_def intro!: ext split: option.split)

lemma current_insert:
  assumes "kf r \<notin> set (map kf t)"
  shows "current kf st d (insert_row r t) = (current kf st d t)(kf r := st r)" "current kf st d t (kf r) = d"
proof -
  have "kf x \<noteq> kf r" if "x \<in> set t" for x
  proof
    assume "kf x = kf r"
    then have "kf r \<in> kf ` set t" using that by (intro image_eqI [of _ _ x]) simp_all
    with assms show False by simp
  qed
  then have "select_one (\<lambda>x. kf x = kf r) t = None" by (simp add: select_one_None)
  then show "current kf st d (insert_row r t) = (current kf st d t)(kf r := st r)" "current kf st d t (kf r) = d"
    by (auto intro!: ext simp: current_def select_one_insert_row split: option.split)
qed

lemma current_set:
  assumes "x \<in> set t" and "kf x = k" and "\<And>y. kf (f y) = kf y" and "\<And>y. st (f y) = v"
  shows "current kf st d (update_where (\<lambda>y. kf y = k) f t) = (current kf st d t)(k := v)"
proof (rule ext)
  fix j
  have u: "current kf st d (update_where (\<lambda>y. kf y = k) f t) j =
      (case select_one (\<lambda>x. kf x = j) t of None \<Rightarrow> d | Some x \<Rightarrow> st (if kf x = k then f x else x))"
    by (simp only: current_update [of kf f, OF assms(3)])
  show "current kf st d (update_where (\<lambda>y. kf y = k) f t) j = ((current kf st d t)(k := v)) j"
  proof (cases "select_one (\<lambda>x. kf x = j) t")
    case None
    then have "j \<noteq> k" using assms(1,2) by (auto simp: select_one_None)
    with None show ?thesis unfolding u by (simp add: current_def)
  next
    case (Some y)
    then have "kf y = j" by (auto dest: select_one_Some)
    with Some show ?thesis unfolding u by (simp add: current_def assms(4))
  qed
qed

lemma find_changed:
  assumes "distinct (map kf t)" and "\<And>x. key (ev x) = kf x"
  shows "find (\<lambda>e. key e = k) (map ev (select P t)) = (case select_one (\<lambda>x. kf x = k) t of None \<Rightarrow> None | Some x \<Rightarrow> if P x then Some (ev x) else None)"
  using assms
proof (induction t)
  case Nil
  then show ?case by (simp add: select_def select_one_def)
next
  case (Cons x t)
  show ?case
  proof (cases "kf x = k")
    case True
    then have "select_one (\<lambda>x. kf x = k) t = None" using Cons.prems(1) by (auto simp: select_one_None image_iff)
    with Cons True show ?thesis by (simp add: select_def select_one_def)
  next
    case False
    with Cons show ?thesis by (simp add: select_def select_one_def)
  qed
qed

text \<open>An update together with an event for each row it changes.\<close>

lemma replay_update:
  assumes "distinct (map kf t)" and "\<And>x. key (ev x) = kf x" and "\<And>x. P x \<Longrightarrow> before (ev x) = st x"
    and "\<And>x. P x \<Longrightarrow> after (ev x) = st (f x)" and "\<And>x. kf (f x) = kf x"
  shows "replay key before after (map ev (select P t)) (current kf st d t) = Some (current kf st d (update_where P f t))"
proof -
  have "distinct (map kf (select P t))" using assms(1) by (simp add: select_def distinct_map_filter)
  then have dis: "distinct (map key (map ev (select P t)))" by (simp add: comp_def assms(2))
  have at: "current kf st d t (kf x) = st x" if "x \<in> set t" for x
    using select_one_key [of kf t x "\<lambda>y. kf y = kf x"] assms(1) that by (simp add: current_def)
  have "replay key before after (map ev (select P t)) (current kf st d t) =
      Some (\<lambda>k. case find (\<lambda>e. key e = k) (map ev (select P t)) of None \<Rightarrow> current kf st d t k | Some e \<Rightarrow> after e)"
    by (rule replay_batch [OF dis]) (auto simp: assms(2,3) at)
  also have "(\<lambda>k. case find (\<lambda>e. key e = k) (map ev (select P t)) of None \<Rightarrow> current kf st d t k | Some e \<Rightarrow> after e) =
      current kf st d (update_where P f t)"
    by (rule ext) (simp add: find_changed [where kf = kf and key = key and ev = ev and t = t, OF assms(1,2)] current_update assms(4,5), auto simp: current_def assms(4) split: option.split)
  finally show ?thesis .
qed

subsection \<open>The histories of the services and of the bindings\<close>

definition service_key :: "customer_service_state \<Rightarrow> uuid \<times> uuid" where
  "service_key x = (cs_tenant x, cs_customerId x)"

definition replay_services :: "service_state_event list \<Rightarrow> (uuid \<times> uuid \<Rightarrow> service_state option) option" where
  "replay_services es = replay (\<lambda>e. (ce_tenant e, ce_customerId e)) ce_previousState (\<lambda>e. Some (ce_newState e)) es (\<lambda>_. None)"

definition replay_bindings :: "access_state_event list \<Rightarrow> (uuid \<Rightarrow> binding_state) option" where
  "replay_bindings es = replay ae_bindingId ae_previousState ae_newState es (\<lambda>_. B_PENDING)"

definition current_services :: "db \<Rightarrow> uuid \<times> uuid \<Rightarrow> service_state option" where
  "current_services s = current service_key (\<lambda>x. Some (cs_state x)) None (serviceStates s)"

definition current_bindings :: "db \<Rightarrow> uuid \<Rightarrow> binding_state" where
  "current_bindings s = current ab_id ab_state B_PENDING (accessBindings s)"

definition services_replay :: "db \<Rightarrow> bool" where
  "services_replay s \<longleftrightarrow> distinct (map service_key (serviceStates s)) \<and> replay_services (serviceStateEvents s) = Some (current_services s)"

definition bindings_replay :: "db \<Rightarrow> bool" where
  "bindings_replay s \<longleftrightarrow> distinct (map ab_id (accessBindings s)) \<and> fresh_ids s (map ab_id (accessBindings s)) \<and>
     replay_bindings (accessStateEvents s) = Some (current_bindings s)"

text \<open>Steps that leave the subscribers' tables alone.\<close>

definition quiet :: "db \<Rightarrow> db \<Rightarrow> bool" where
  "quiet s t \<longleftrightarrow> messages_only s t \<and> next_id s \<le> next_id t"

lemma quiet_trans: "quiet s t \<Longrightarrow> quiet t u \<Longrightarrow> quiet s u"
  by (auto simp: quiet_def intro: messages_only_trans)

lemma quiet_services: "quiet s t \<Longrightarrow> services_replay s \<Longrightarrow> services_replay t"
  by (simp add: quiet_def messages_only_def services_replay_def current_services_def)

lemma quiet_bindings: "quiet s t \<Longrightarrow> bindings_replay s \<Longrightarrow> bindings_replay t"
  by (auto simp: quiet_def messages_only_def bindings_replay_def current_bindings_def intro: fresh_ids_mono)

lemma quiet_audit: "quiet s (snd (audit_record cid now tenant a b i m ctx s))"
  using audit_keeps by (simp add: quiet_def keeps_sessions_def same_subscribers_messages)

lemma quiet_reconcile: "quiet s (snd (reconcile_access_state ads decrypt cid now tenant ctx s))"
proof -
  obtain r s' where e: "reconcile_access_state ads decrypt cid now tenant ctx s = (r, s')" by fastforce
  from e obtain t where "stale_loop t s'" "next_id s \<le> next_id t" by (rule reconcile_access_unfold)
  then have "next_id s \<le> next_id s'" by (simp add: stale_loop_def)
  then show ?thesis
    using e reconcile_access_subscribers [of s ads decrypt cid now tenant ctx] by (simp add: quiet_def same_subscribers_messages)
qed

lemma quiet_reconcile_after: "reconcile_after ads decrypt cid now tenant request s = (r, s') \<Longrightarrow> quiet s s'"
  using quiet_reconcile [of s ads decrypt cid now tenant "no_context\<lparr> ac_requestId := Some request \<rparr>"]
  by (auto simp: reconcile_after_def split: prod.splits sum.splits)

subsection \<open>The services keep their histories\<close>

lemma services_update:
  assumes "services_replay s" and "serviceStates t = update_where P f (serviceStates s)"
    and "serviceStateEvents t = serviceStateEvents s @ map ev (select P (serviceStates s))"
    and "\<And>x. (ce_tenant (ev x), ce_customerId (ev x)) = service_key x" and "\<And>x. P x \<Longrightarrow> ce_previousState (ev x) = Some (cs_state x)"
    and "\<And>x. P x \<Longrightarrow> ce_newState (ev x) = cs_state (f x)" and "\<And>x. service_key (f x) = service_key x"
  shows "services_replay t"
proof -
  have "replay_services (serviceStateEvents t) = Some (current service_key (\<lambda>x. Some (cs_state x)) None (update_where P f (serviceStates s)))"
    using assms(1) replay_update [of service_key "serviceStates s" "\<lambda>e. (ce_tenant e, ce_customerId e)" ev P ce_previousState
        "\<lambda>x. Some (cs_state x)" "\<lambda>e. Some (ce_newState e)" f] assms(4-7)
    by (simp add: services_replay_def replay_services_def assms(3) replay_append current_services_def)
  moreover have "map service_key (update_where P f (serviceStates s)) = map service_key (serviceStates s)"
    by (rule map_update_where) (rule assms(7))
  ultimately show ?thesis using assms(1) by (simp add: services_replay_def current_services_def assms(2))
qed

lemma services_same:
  assumes "services_replay s" and "serviceStates t = update_where P f (serviceStates s)" and "serviceStateEvents t = serviceStateEvents s"
    and "\<And>x. P x \<Longrightarrow> cs_state (f x) = cs_state x" and "\<And>x. service_key (f x) = service_key x"
  shows "services_replay t"
proof -
  have "map service_key (update_where P f (serviceStates s)) = map service_key (serviceStates s)"
    by (rule map_update_where) (rule assms(5))
  then show ?thesis
    using assms(1) by (simp add: services_replay_def current_services_def assms(2-5) current_update_same)
qed

lemma is_service_key: "is_service tenant customer = (\<lambda>x. service_key x = (tenant, customer))"
  by (auto simp: is_service_def service_key_def)

lemma service_state_of_current: "service_state_of tenant customer s = current_services s (tenant, customer)"
  by (simp add: service_state_of_def current_services_def current_def is_service_key split: option.split)

lemma upsert_service_current:
  assumes "services_replay s"
  shows "current_services (upsert_service row s) = (current_services s)(service_key row := Some (cs_state row))"
    "distinct (map service_key (serviceStates (upsert_service row s)))" "serviceStateEvents (upsert_service row s) = serviceStateEvents s"
proof -
  define f :: "customer_service_state \<Rightarrow> customer_service_state" where "f x = x\<lparr> cs_state := cs_state row, cs_reason := cs_reason row,
      cs_source := cs_source row, cs_effectiveAt := cs_effectiveAt row, cs_expiresAt := cs_expiresAt row \<rparr>" for x
  have f: "service_key (f y) = service_key y" "cs_state (f y) = cs_state row" for y by (simp_all add: f_def service_key_def)
  let ?P = "\<lambda>x. service_key x = service_key row"
  have up: "upsert_service row s = (if exists_row ?P (serviceStates s) then s\<lparr> serviceStates := update_where ?P f (serviceStates s) \<rparr>
      else s\<lparr> next_id := next_id s + 1, serviceStates := insert_row row (serviceStates s) \<rparr>)"
    by (simp add: upsert_service_def Let_def is_service_key f_def [abs_def] service_key_def [of row])
  have dis: "distinct (map service_key (serviceStates s))" using assms by (simp add: services_replay_def)
  have new: "service_key row \<notin> set (map service_key (serviceStates s))" if "\<not> exists_row ?P (serviceStates s)"
    using that by (fastforce simp: exists_row_iff)
  show "current_services (upsert_service row s) = (current_services s)(service_key row := Some (cs_state row))"
  proof (cases "exists_row ?P (serviceStates s)")
    case True
    then obtain x where "x \<in> set (serviceStates s)" "?P x" by (auto simp: exists_row_iff)
    then have "current service_key (\<lambda>x. Some (cs_state x)) None (update_where ?P f (serviceStates s)) =
        (current service_key (\<lambda>x. Some (cs_state x)) None (serviceStates s))(service_key row := Some (cs_state row))"
      by (rule current_set [where kf = service_key and x = x]) (simp_all add: f)
    with True show ?thesis by (simp add: up current_services_def)
  next
    case False
    then show ?thesis using current_insert(1) [OF new [OF False], of "\<lambda>x. Some (cs_state x)" None] by (simp add: up current_services_def)
  qed
  show "distinct (map service_key (serviceStates (upsert_service row s)))"
    using dis new f(1) by (simp add: up map_insert_row map_update_where)
  show "serviceStateEvents (upsert_service row s) = serviceStateEvents s" by (simp add: up)
qed

lemma set_service_replays:
  assumes "set_service_body now tenant customer input effective expires s = (Inr p, t)" and "services_replay s"
  shows "services_replay t" "accessBindings t = accessBindings s" "accessStateEvents t = accessStateEvents s" "next_id s \<le> next_id t"
proof -
  define row where "row = service_row (new_uuid s) tenant customer input effective expires"
  define e where "e = service_event now tenant customer (service_state_of tenant customer s) row"
  have row: "service_key row = (tenant, customer)" "cs_state row = sv_state input"
    by (simp_all add: row_def service_row_def service_key_def)
  have e: "(ce_tenant e, ce_customerId e) = (tenant, customer)" "ce_previousState e = current_services s (tenant, customer)"
    "ce_newState e = sv_state input"
    by (simp_all add: e_def service_event_def row service_state_of_current)
  define u where "u = upsert_service row s"
  have t: "t = (if current_services s (tenant, customer) \<noteq> Some (sv_state input)
      then u\<lparr> serviceStateEvents := serviceStateEvents u @ [e] \<rparr> else u)"
    using assms(1) by (auto simp: set_service_body_def Let_def row_def e_def u_def service_state_of_current insert_row_def split: if_splits)
  note up = upsert_service_current [OF assms(2), of row, folded u_def]
  have "replay_services (serviceStateEvents t) = Some ((current_services s)((tenant, customer) := Some (sv_state input)))"
  proof (cases "current_services s (tenant, customer) = Some (sv_state input)")
    case True
    then have "(current_services s)((tenant, customer) := Some (sv_state input)) = current_services s" by (simp add: fun_upd_idem)
    with True show ?thesis using assms(2) by (simp add: t up(3) services_replay_def)
  next
    case False
    then show ?thesis using assms(2) e by (simp add: t up(3) services_replay_def replay_services_def replay_append)
  qed
  moreover have "current_services t = current_services u" "serviceStates t = serviceStates u"
    by (simp_all add: t current_services_def)
  ultimately show "services_replay t" using up(1,2) by (simp add: services_replay_def row)
  show "accessBindings t = accessBindings s" "accessStateEvents t = accessStateEvents s" "next_id s \<le> next_id t"
    by (simp_all add: t u_def upsert_service_def Let_def)
qed

lemma change_binding_replays:
  assumes "change_binding_body known now tenant i input s = (Inr p, t)" and "bindings_replay s"
  shows "bindings_replay t" "serviceStates t = serviceStates s" "serviceStateEvents t = serviceStateEvents s"
proof -
  have dis: "distinct (map ab_id (accessBindings s))" using assms(2) by (simp add: bindings_replay_def)
  obtain b where b: "select_one (is_binding tenant i) (accessBindings s) = Some b"
    using assms(1) by (auto simp: change_binding_body_def split: option.splits)
  then have bi: "b \<in> set (accessBindings s)" "ab_id b = i" "ab_tenant b = tenant" by (auto dest: select_one_Some simp: is_binding_def)
  define f where "f = change_binding now (bc_state input)"
  define e where "e = binding_event now tenant i (ab_state b) input"
  have f: "ab_id (f y) = ab_id y" "ab_state (f y) = bc_state input" for y by (simp_all add: f_def change_binding_def)
  have t: "t = s \<or> t = s\<lparr> accessBindings := update_where (is_binding tenant i) f (accessBindings s),
      accessStateEvents := accessStateEvents s @ [e] \<rparr>"
    using assms(1) b by (auto simp: change_binding_body_def f_def e_def insert_row_def split: if_splits option.splits)
  have "update_where (is_binding tenant i) f (accessBindings s) = update_where (\<lambda>y. ab_id y = i) f (accessBindings s)"
    unfolding update_where_def
  proof (rule map_cong [OF refl])
    fix y assume y: "y \<in> set (accessBindings s)"
    have "ab_tenant y = tenant" if "ab_id y = i" using distinct_key_unique [OF dis y bi(1)] that bi by simp
    then show "(if is_binding tenant i y then f y else y) = (if ab_id y = i then f y else y)" by (auto simp: is_binding_def)
  qed
  moreover have "current ab_id ab_state B_PENDING (update_where (\<lambda>y. ab_id y = i) f (accessBindings s)) =
      (current ab_id ab_state B_PENDING (accessBindings s))(i := bc_state input)"
    by (rule current_set [where kf = ab_id and x = b]) (simp_all add: f bi)
  moreover have "current ab_id ab_state B_PENDING (accessBindings s) i = ab_state b"
    using select_one_key [OF dis bi(1), of "\<lambda>y. ab_id y = i"] bi by (simp add: current_def)
  moreover have "ae_bindingId e = i" "ae_previousState e = ab_state b" "ae_newState e = bc_state input" by (simp_all add: e_def binding_event_def)
  moreover have "map ab_id (update_where (\<lambda>y. ab_id y = i) f (accessBindings s)) = map ab_id (accessBindings s)"
    by (rule map_update_where) (rule f(1))
  ultimately have "bindings_replay (s\<lparr> accessBindings := update_where (is_binding tenant i) f (accessBindings s),
      accessStateEvents := accessStateEvents s @ [e] \<rparr>)"
    using assms(2) fresh_ids_mono [of s _ "s\<lparr> accessBindings := update_where (is_binding tenant i) f (accessBindings s),
      accessStateEvents := accessStateEvents s @ [e] \<rparr>"]
    by (simp add: bindings_replay_def current_bindings_def replay_bindings_def replay_append)
  with t assms(2) show "bindings_replay t" by (elim disjE) simp_all
  show "serviceStates t = serviceStates s" "serviceStateEvents t = serviceStateEvents s" using t by auto
qed

lemma create_binding_replays:
  assumes "create_access_binding clash known tenant input s = (Inr b, t)" and "bindings_replay s"
  shows "bindings_replay t" "serviceStates t = serviceStates s" "serviceStateEvents t = serviceStateEvents s"
proof -
  define row where "row = binding_row (new_uuid s) tenant input"
  have row: "ab_id row = new_uuid s" "ab_state row = B_PENDING" by (simp_all add: row_def binding_row_def)
  have t: "t = s\<lparr> next_id := next_id s + 1, accessBindings := insert_row row (accessBindings s) \<rparr>"
    using assms(1) by (auto simp: create_access_binding_def Let_def row_def split: if_splits)
  have fresh: "fresh_ids s (map ab_id (accessBindings s))" using assms(2) by (simp add: bindings_replay_def)
  then have new: "ab_id row \<notin> set (map ab_id (accessBindings s))" by (simp only: row fresh_ids_new not_False_eq_True)
  have "current ab_id ab_state B_PENDING (insert_row row (accessBindings s)) = current ab_id ab_state B_PENDING (accessBindings s)"
    using current_insert [OF new, of ab_state B_PENDING] row(2) by (simp add: fun_upd_idem)
  moreover have "fresh_ids t (map ab_id (accessBindings t))" using fresh_ids_extend [OF fresh, of t] by (simp add: t map_insert_row row)
  ultimately show "bindings_replay t"
    using assms(2) new by (simp add: bindings_replay_def current_bindings_def t map_insert_row)
  show "serviceStates t = serviceStates s" "serviceStateEvents t = serviceStateEvents s" by (simp_all add: t)
qed

lemma expiry_replays:
  assumes "services_replay s" and "bindings_replay s"
  shows "services_replay (snd (expiry_transaction now s))" "bindings_replay (snd (expiry_transaction now s))"
proof -
  define s1 where "s1 = snd (expire_bindings now s)"
  define s2 where "s2 = refresh_expiry s1"
  have t: "snd (expiry_transaction now s) = snd (suspend_services now s2)"
    by (simp add: expiry_transaction_def s1_def s2_def split: prod.split)
  have "services_replay s1" using assms(1) by (simp add: s1_def expire_bindings_def Let_def services_replay_def current_services_def)
  then have s2: "services_replay s2"
    by (rule services_same [where P = "refreshable s1" and f = "refreshed s1"]) (simp_all add: s2_def refresh_expiry_alt service_key_def)
  show "services_replay (snd (expiry_transaction now s))"
    unfolding t
    by (rule services_update [OF s2, where P = "service_over now s2" and f = "suspend now" and ev = "suspended_event now"])
      (simp_all add: suspend_services_def Let_def suspended_event_def service_key_def service_over_def suspend_def)
  have "replay_bindings (accessStateEvents s @ map (expired_event now) (select (binding_over now) (accessBindings s))) =
      Some (current ab_id ab_state B_PENDING (update_where (binding_over now) (\<lambda>b. b\<lparr> ab_state := B_EXPIRED \<rparr>) (accessBindings s)))"
    using assms(2) replay_update [of ab_id "accessBindings s" ae_bindingId "expired_event now" "binding_over now" ae_previousState ab_state
        ae_newState "\<lambda>b. b\<lparr> ab_state := B_EXPIRED \<rparr>" B_PENDING]
    by (simp add: bindings_replay_def replay_bindings_def replay_append current_bindings_def expired_event_def binding_over_def)
  moreover have "map ab_id (update_where (binding_over now) (\<lambda>b. b\<lparr> ab_state := B_EXPIRED \<rparr>) (accessBindings s)) = map ab_id (accessBindings s)"
    by (rule map_update_where) simp
  ultimately show "bindings_replay (snd (expiry_transaction now s))"
    using assms(2) by (simp add: t bindings_replay_def current_bindings_def suspend_services_def Let_def s2_def s1_def refresh_expiry_def
        expire_bindings_def fresh_ids_def)
qed

subsection \<open>Every operation keeps both histories\<close>

definition histories_replay :: "db \<Rightarrow> bool" where
  "histories_replay s \<longleftrightarrow> services_replay s \<and> bindings_replay s"

lemma quiet_histories: "quiet s t \<Longrightarrow> histories_replay s \<Longrightarrow> histories_replay t"
  by (simp add: histories_replay_def quiet_services quiet_bindings)

lemma services_cong:
  "services_replay s \<Longrightarrow> serviceStates t = serviceStates s \<Longrightarrow> serviceStateEvents t = serviceStateEvents s \<Longrightarrow> services_replay t"
  by (simp add: services_replay_def current_services_def)

lemma bindings_cong:
  "bindings_replay s \<Longrightarrow> accessBindings t = accessBindings s \<Longrightarrow> accessStateEvents t = accessStateEvents s \<Longrightarrow> next_id s \<le> next_id t
   \<Longrightarrow> bindings_replay t"
  by (auto simp: bindings_replay_def current_bindings_def intro: fresh_ids_mono)

lemma create_binding_histories:
  assumes "histories_replay s"
  shows "histories_replay (snd (create_access_binding clash known tenant input s))"
proof (cases "create_access_binding clash known tenant input s")
  case (Pair r t)
  show ?thesis
  proof (cases r)
    case (Inl e)
    then have "t = s" using Pair by (auto simp: create_access_binding_def Let_def split: if_splits)
    with assms Pair show ?thesis by simp
  next
    case (Inr b)
    show ?thesis
      using assms create_binding_replays [OF Pair [unfolded Inr]] services_cong [of s t] by (simp add: histories_replay_def Pair)
  qed
qed

lemma change_binding_histories:
  assumes "histories_replay s"
  shows "histories_replay (snd (change_access_state known ads decrypt cid now tenant i input ctx s))"
proof (cases "transaction (change_binding_body known now tenant i input) s")
  case (Pair r t)
  show ?thesis
  proof (cases r)
    case (Inl e)
    then have "t = s" using Pair by (auto dest: transaction_error)
    with assms show ?thesis using Pair Inl by (simp add: change_access_state_def)
  next
    case (Inr p)
    have "change_binding_body known now tenant i input s = (Inr p, t)" using Pair Inr by (simp add: transaction_Inr)
    then have t: "histories_replay t"
      using assms change_binding_replays [of known now tenant i input s p t] services_cong [of s t] by (simp add: histories_replay_def)
    obtain r2 u where u: "reconcile_after ads decrypt cid now tenant (''access-binding:'' @ i) t = (r2, u)" by fastforce
    have hu: "histories_replay u" by (rule quiet_histories [OF quiet_reconcile_after [OF u] t])
    show ?thesis
      using t quiet_histories [OF quiet_audit hu]
      by (simp only: change_access_state_def Pair Inr u prod.case sum.case Let_def split_def snd_conv fst_conv if_distrib [of snd] split: if_split) simp
  qed
qed

lemma set_service_histories:
  assumes "histories_replay s"
  shows "histories_replay (snd (set_service_state show_date ads decrypt cid now tenant customer input ctx s))"
proof -
  have "set_service_state show_date ads decrypt cid now tenant customer input ctx s = (r, t) \<Longrightarrow> histories_replay t" for r t
  proof -
    assume e: "set_service_state show_date ads decrypt cid now tenant customer input ctx s = (r, t)"
    show "histories_replay t"
    proof (cases r)
      case (Inl x)
      then have "t = s"
        using e by (auto simp: set_service_state_def Let_def split: option.splits if_splits prod.splits sum.splits dest: transaction_error)
      with assms show ?thesis by simp
    next
      case (Inr x)
      then obtain effective expires p u r2 v a b m where
        u: "transaction (set_service_body now tenant customer input effective expires) s = (Inr p, u)"
        and v: "reconcile_after ads decrypt cid now tenant (''service-state:'' @ customer) u = (r2, v)"
        and t: "t = snd (audit_record cid now tenant a b (map_option cs_id (select_one (is_service tenant customer) (serviceStates u))) m ctx v)"
        using e by (auto simp: set_service_state_def Let_def split: option.splits if_splits prod.splits sum.splits)
      have "set_service_body now tenant customer input effective expires s = (Inr p, u)" using u by (simp add: transaction_Inr)
      then have "histories_replay u"
        using assms set_service_replays [of now tenant customer input effective expires s p u] bindings_cong [of s u] by (auto simp: histories_replay_def)
      then have "histories_replay v" by (rule quiet_histories [OF quiet_reconcile_after [OF v]])
      then show ?thesis unfolding t by (rule quiet_histories [OF quiet_audit])
    qed
  qed
  then show ?thesis by (metis prod.collapse)
qed

lemma quiet_fold: "(\<And>x s. quiet s (f x s)) \<Longrightarrow> quiet s (fold f xs s)"
proof (induction xs arbitrary: s)
  case Nil
  then show ?case by (simp add: quiet_def)
next
  case (Cons x xs)
  have "quiet (f x s) (fold f xs (f x s))" by (rule Cons.IH) (rule Cons.prems)
  with Cons.prems [of s x] show ?case by (auto intro: quiet_trans)
qed

lemma quiet_sms: "quiet s (snd (enqueue_sms now tenant input s))"
  using enqueue_sms_messages [of s now tenant input]
  by (simp add: quiet_def) (simp add: enqueue_sms_def Let_def insert_notification_def put_notification_def split: sum.split)

lemma expiry_histories:
  assumes "histories_replay s"
  shows "histories_replay (snd (expiry_round show_date show_local ads decrypt cid running now s))"
proof (cases running)
  case True
  with assms show ?thesis by (simp add: expiry_round_def)
next
  case False
  obtain bs xs t where e: "expiry_transaction now s = ((bs, xs), t)" by (metis prod.collapse)
  have t: "histories_replay t" using assms expiry_replays [of s now] e by (simp add: histories_replay_def)
  have "quiet u (queue_reminder show_date show_local now row u)" for row u by (simp add: queue_reminder_def quiet_sms)
  moreover have "quiet u (queue_final_notice now x u)" for x u
    using quiet_sms by (simp add: queue_final_notice_def split: option.split list.split) (simp add: quiet_def)
  ultimately have "quiet u (fold (queue_final_notice now) xs (fold (queue_reminder show_date show_local now) rows u))" for u rows
    using quiet_fold quiet_trans by metis
  then show ?thesis
    using t False e quiet_histories quiet_fold [of "\<lambda>tenant t. snd (reconcile_access_state ads decrypt cid now tenant
        (no_context\<lparr> ac_requestId := Some (''system-expiry:'' @ tenant) \<rparr>) t)", OF quiet_reconcile]
    by (simp add: expiry_round_def Let_def) blast
qed

inductive service_step :: "db \<Rightarrow> db \<Rightarrow> bool" where
  step_create: "service_step s (snd (create_access_binding clash known tenant input s))"
| step_binding: "service_step s (snd (change_access_state paid ads decrypt cid now tenant i change ctx s))"
| step_service: "service_step s (snd (set_service_state show_date ads decrypt cid now tenant customer input' ctx s))"
| step_expiry: "service_step s (snd (expiry_round show_date show_local ads decrypt cid running now s))"

lemma service_step_histories: "service_step s t \<Longrightarrow> histories_replay s \<Longrightarrow> histories_replay t"
  by (induction rule: service_step.induct)
    (simp_all add: create_binding_histories change_binding_histories set_service_histories expiry_histories)

text \<open>C30: the states refine the logs of their events: over every sequence of creating bindings, changing the state of a binding
  or of a service, and rounds of the expiry scheduler, replaying the events, each from the value its key had, gives
  exactly the present state of every service and of every binding.\<close>

theorem histories_replay_to_states:
  assumes "service_step\<^sup>*\<^sup>* s t" and "histories_replay s"
  shows "replay_services (serviceStateEvents t) = Some (\<lambda>(tenant, customer). service_state_of tenant customer t) \<and>
    replay_bindings (accessStateEvents t) =
      Some (\<lambda>i. case select_one (\<lambda>b. ab_id b = i) (accessBindings t) of None \<Rightarrow> B_PENDING | Some b \<Rightarrow> ab_state b)"
proof -
  have "histories_replay t" using assms by (induction rule: rtranclp_induct) (simp_all add: service_step_histories)
  then show ?thesis
    by (simp add: histories_replay_def services_replay_def bindings_replay_def service_state_of_current current_bindings_def current_def)
qed

definition example_change :: "service_state \<Rightarrow> service_change" where
  "example_change st = \<lparr> sv_state = st, sv_reason = ''test'', sv_source = None, sv_effectiveAt = None, sv_expiresAt = Some (Some 50) \<rparr>"

definition example_subscribers :: db where
  "example_subscribers = empty_db\<lparr> customers := [\<lparr> cu_tenant = ''t'', cu_id = ''c'', cu_fullName = ''Asha'', cu_phone = None,
     cu_active = True, cu_marketingConsent = False \<rparr>] \<rparr>"

theorem histories_replay_to_states_witness:
  "let s1 = snd (set_service_state (\<lambda>_. ''date'') (\<lambda>_. None) Inr None 7 ''t'' ''c'' (example_change V_ACTIVE) no_context example_subscribers);
       s2 = snd (expiry_round (\<lambda>_. ''date'') (\<lambda>_. ''date'') (\<lambda>_. None) Inr None False 60 s1)
   in map ce_newState (serviceStateEvents s2) = [V_ACTIVE, V_SUSPENDED] \<and>
      replay_services (serviceStateEvents s2) = Some (\<lambda>(tenant, customer). service_state_of tenant customer s2)"
proof -
  define s1 where "s1 = snd (set_service_state (\<lambda>_. ''date'') (\<lambda>_. None) Inr None 7 ''t'' ''c'' (example_change V_ACTIVE) no_context example_subscribers)"
  define s2 where "s2 = snd (expiry_round (\<lambda>_. ''date'') (\<lambda>_. ''date'') (\<lambda>_. None) Inr None False 60 s1)"
  have "service_step example_subscribers s1" "service_step s1 s2" unfolding s1_def s2_def by (rule step_service, rule step_expiry)
  then have "service_step\<^sup>*\<^sup>* example_subscribers s2" by (meson r_into_rtranclp rtranclp.rtrancl_into_rtrancl)
  moreover have "histories_replay example_subscribers"
    by (simp add: histories_replay_def services_replay_def bindings_replay_def example_subscribers_def empty_db_def fresh_ids_def
        replay_services_def replay_bindings_def current_services_def current_bindings_def current_def [abs_def] select_one_def)
  ultimately have "replay_services (serviceStateEvents s2) = Some (\<lambda>(tenant, customer). service_state_of tenant customer s2)"
    using histories_replay_to_states [of example_subscribers s2] by simp
  moreover have "map ce_newState (serviceStateEvents s2) = [V_ACTIVE, V_SUSPENDED]" unfolding s2_def s1_def by code_simp
  ultimately show ?thesis by (simp add: Let_def flip: s1_def s2_def)
qed

end
