(* ===== verification/RadiusProtocol.thy ===== *)
theory RadiusProtocol
  imports JsValues "HOL-Library.Word"
begin

text \<open>
  The RADIUS packet format (\<open>radius/radius.protocol.ts\<close>): buffers are lists of bytes, \<open>md5\<close> and the conversion between
  texts and bytes are parameters. The loop of the parser is kept as a loop that might not end; the first theorem
  says that it does.
\<close>

unbundle bit_operations_syntax

type_synonym byte = "8 word"

record radius_attribute =
  at_type :: byte
  at_value :: "byte list"

record radius_packet =
  rp_code :: byte
  rp_identifier :: byte
  rp_authenticator :: "byte list"
  rp_attributes :: "radius_attribute list"

definition access_request :: byte where "access_request = 1"
definition access_accept :: byte where "access_accept = 2"
definition access_reject :: byte where "access_reject = 3"
definition accounting_request :: byte where "accounting_request = 4"
definition accounting_response :: byte where "accounting_response = 5"
definition disconnect_request :: byte where "disconnect_request = 40"
definition disconnect_ack :: byte where "disconnect_ack = 41"

subsection \<open>Parsing\<close>

definition read_u16 :: "byte list \<Rightarrow> nat \<Rightarrow> nat" where
  "read_u16 b i = unat (b ! i) * 256 + unat (b ! (i + 1))"

definition subarray :: "nat \<Rightarrow> nat \<Rightarrow> byte list \<Rightarrow> byte list" where
  "subarray i j b = take (j - i) (drop i b)"

partial_function (option) parse_attributes ::
  "byte list \<Rightarrow> nat \<Rightarrow> nat \<Rightarrow> radius_attribute list \<Rightarrow> radius_attribute list result option" where
  "parse_attributes b len offset acc =
     (if \<not> offset < len then Some (Inr acc)
      else if len < offset + 2 then Some (Inl (PlainError ''Truncated RADIUS attribute header''))
      else if unat (b ! (offset + 1)) < 2 \<or> len < offset + unat (b ! (offset + 1))
      then Some (Inl (PlainError ''Invalid RADIUS attribute length''))
      else parse_attributes b len (offset + unat (b ! (offset + 1)))
             (acc @ [\<lparr> at_type = b ! offset, at_value = subarray (offset + 2) (offset + unat (b ! (offset + 1))) b \<rparr>]))"

definition parse_packet :: "byte list \<Rightarrow> radius_packet result option" where
  "parse_packet b =
     (if length b < 20 then Some (Inl (PlainError ''RADIUS packet is shorter than header''))
      else if read_u16 b 2 < 20 \<or> length b < read_u16 b 2 then Some (Inl (PlainError ''Invalid RADIUS packet length''))
      else (case parse_attributes b (read_u16 b 2) 20 [] of
              None \<Rightarrow> None
            | Some (Inl e) \<Rightarrow> Some (Inl e)
            | Some (Inr attrs) \<Rightarrow> Some (Inr \<lparr> rp_code = b ! 0, rp_identifier = b ! 1, rp_authenticator = subarray 4 20 b, rp_attributes = attrs \<rparr>)))"

definition attribute_of :: "radius_packet \<Rightarrow> byte \<Rightarrow> byte list option" where
  "attribute_of p t = map_option at_value (find (\<lambda>a. at_type a = t) (rp_attributes p))"

definition string_attribute :: "(byte list \<Rightarrow> string) \<Rightarrow> radius_packet \<Rightarrow> byte \<Rightarrow> string option" where
  "string_attribute text p t = map_option text (attribute_of p t)"

definition read_u32 :: "byte list \<Rightarrow> nat" where
  "read_u32 v = foldl (\<lambda>n x. n * 256 + unat x) 0 v"

definition uint32_attribute :: "radius_packet \<Rightarrow> byte \<Rightarrow> nat option" where
  "uint32_attribute p t = (case attribute_of p t of None \<Rightarrow> None | Some v \<Rightarrow> if length v = 4 then Some (read_u32 v) else None)"

subsection \<open>Encoding\<close>

fun encode_attributes :: "radius_attribute list \<Rightarrow> byte list result" where
  "encode_attributes [] = Inr []"
| "encode_attributes (a # attrs) =
     (if 253 < length (at_value a) then Inl (PlainError ''RADIUS attribute exceeds 253 bytes'')
      else (case encode_attributes attrs of
              Inl e \<Rightarrow> Inl e
            | Inr bytes \<Rightarrow> Inr (at_type a # of_nat (length (at_value a) + 2) # at_value a @ bytes)))"

definition write_u16 :: "nat \<Rightarrow> byte list" where
  "write_u16 n = [of_nat (n div 256), of_nat n]"

text \<open>\<open>writeUInt16BE\<close> refuses a number above 65535.\<close>

definition encode_header :: "byte \<Rightarrow> byte \<Rightarrow> nat \<Rightarrow> byte list result" where
  "encode_header code identifier n = (if 65535 < n then Inl (PlainError ''ERR_OUT_OF_RANGE'') else Inr (code # identifier # write_u16 n))"

definition encode_packet :: "byte \<Rightarrow> byte \<Rightarrow> (byte list \<Rightarrow> byte list \<Rightarrow> byte list) \<Rightarrow> radius_attribute list \<Rightarrow> byte list result" where
  "encode_packet code identifier authenticator attrs =
     (case encode_attributes attrs of
        Inl e \<Rightarrow> Inl e
      | Inr bytes \<Rightarrow> (case encode_header code identifier (20 + length bytes) of
                       Inl e \<Rightarrow> Inl e
                     | Inr header \<Rightarrow> Inr (header @ authenticator header bytes @ bytes)))"

definition encode_request :: "byte list \<Rightarrow> byte \<Rightarrow> byte \<Rightarrow> radius_attribute list \<Rightarrow> byte list result" where
  "encode_request random code identifier attrs = encode_packet code identifier (\<lambda>_ _. random) attrs"

definition encode_response ::
  "(byte list \<Rightarrow> byte list) \<Rightarrow> byte \<Rightarrow> byte \<Rightarrow> byte list \<Rightarrow> radius_attribute list \<Rightarrow> byte list \<Rightarrow> byte list result" where
  "encode_response md5 code identifier request_auth attrs secret =
     encode_packet code identifier (\<lambda>header bytes. md5 (header @ request_auth @ bytes @ secret)) attrs"

text \<open>\<open>timingSafeEqual\<close> throws when the lengths differ.\<close>

definition timing_safe_equal :: "byte list \<Rightarrow> byte list \<Rightarrow> bool result" where
  "timing_safe_equal x y = (if length x \<noteq> length y then Inl (PlainError ''ERR_CRYPTO_TIMING_SAFE_EQUAL_LENGTH'') else Inr (x = y))"

definition verify_request_authenticator :: "(byte list \<Rightarrow> byte list) \<Rightarrow> radius_packet \<Rightarrow> byte list \<Rightarrow> byte list \<Rightarrow> bool result" where
  "verify_request_authenticator md5 p raw secret =
     (if rp_code p = access_request then Inr True
      else timing_safe_equal (md5 (subarray 0 4 raw @ replicate 16 0 @ subarray 20 (read_u16 raw 2) raw @ secret)) (rp_authenticator p))"

subsection \<open>Passwords\<close>

function decrypt_blocks :: "(byte list \<Rightarrow> byte list) \<Rightarrow> byte list \<Rightarrow> byte list \<Rightarrow> byte list \<Rightarrow> byte list" where
  "decrypt_blocks md5 secret previous value =
     (if value = [] then []
      else map2 (XOR) (take 16 value) (md5 (secret @ previous)) @ decrypt_blocks md5 secret (take 16 value) (drop 16 value))"
  by pat_completeness auto
termination
  by (relation "measure (\<lambda>(md5, secret, previous, value). length value)") auto

declare decrypt_blocks.simps [simp del]

definition strip_zeros :: "byte list \<Rightarrow> byte list" where
  "strip_zeros b = rev (dropWhile (\<lambda>x. x = 0) (rev b))"

definition decrypt_user_password :: "(byte list \<Rightarrow> byte list) \<Rightarrow> byte list \<Rightarrow> byte list \<Rightarrow> byte list \<Rightarrow> byte list result" where
  "decrypt_user_password md5 value secret request_auth =
     (if value = [] \<or> length value mod 16 \<noteq> 0 then Inl (PlainError ''Invalid User-Password attribute'')
      else Inr (strip_zeros (decrypt_blocks md5 secret request_auth value)))"

subsection \<open>Attributes\<close>

definition make_string :: "(string \<Rightarrow> byte list) \<Rightarrow> byte \<Rightarrow> string \<Rightarrow> radius_attribute" where
  "make_string utf8 t v = \<lparr> at_type = t, at_value = utf8 v \<rparr>"

definition write_u32 :: "32 word \<Rightarrow> byte list" where
  "write_u32 w = [ucast (drop_bit 24 w), ucast (drop_bit 16 w), ucast (drop_bit 8 w), ucast w]"

definition make_uint32 :: "byte \<Rightarrow> int \<Rightarrow> radius_attribute" where
  "make_uint32 t v = \<lparr> at_type = t, at_value = write_u32 (of_int v) \<rparr>"

definition make_vendor_specific :: "nat \<Rightarrow> byte \<Rightarrow> byte list \<Rightarrow> radius_attribute result" where
  "make_vendor_specific vendor vtype payload =
     (if 247 < length payload then Inl (PlainError ''Vendor-Specific value exceeds RADIUS attribute limit'')
      else Inr \<lparr> at_type = 26, at_value = write_u32 (of_nat vendor) @ vtype # of_nat (length payload + 2) # payload \<rparr>)"

subsection \<open>Parsing and encoding are inverse\<close>

lemma subarray_same [simp]: "subarray i i b = []"
  by (simp add: subarray_def)

lemma length_subarray [simp]: "j \<le> length b \<Longrightarrow> length (subarray i j b) = j - i"
  by (simp add: subarray_def)

lemma subarray_split: "i \<le> j \<Longrightarrow> j \<le> k \<Longrightarrow> subarray i k b = subarray i j b @ subarray j k b"
proof -
  assume a: "i \<le> j" "j \<le> k"
  then have "take (k - i) (drop i b) = take ((j - i) + (k - j)) (drop i b)" by simp
  also have "\<dots> = take (j - i) (drop i b) @ take (k - j) (drop (j - i) (drop i b))" by (rule take_add)
  also have "drop (j - i) (drop i b) = drop j b" using a by simp
  finally show ?thesis by (simp add: subarray_def)
qed

lemma subarray_Cons: "j < k \<Longrightarrow> j < length b \<Longrightarrow> subarray j k b = b ! j # subarray (j + 1) k b"
proof -
  assume a: "j < k" "j < length b"
  then have "drop j b = b ! j # drop (j + 1) b" by (simp add: Cons_nth_drop_Suc)
  moreover have "k - j = Suc (k - (j + 1))" using a by simp
  ultimately show ?thesis by (simp add: subarray_def)
qed

lemma subarray_0: "subarray 0 j b = take j b"
  by (simp add: subarray_def)

lemma encode_attributes_snoc:
  assumes "encode_attributes xs = Inr bs" and "length (at_value a) \<le> 253"
  shows "encode_attributes (xs @ [a]) = Inr (bs @ at_type a # of_nat (length (at_value a) + 2) # at_value a)"
  using assms by (induction xs arbitrary: bs) (auto split: sum.splits if_splits)

lemma unat_byte: "unat (x :: byte) < 256"
  using unsigned_less [of x] by simp

lemma parse_attributes_total:
  assumes "20 \<le> offset" and "offset \<le> len" and "len \<le> length b" and "encode_attributes acc = Inr (subarray 20 offset b)"
  shows "case parse_attributes b len offset acc of None \<Rightarrow> False | Some (Inl _) \<Rightarrow> True
    | Some (Inr attrs) \<Rightarrow> encode_attributes attrs = Inr (subarray 20 len b)"
  using assms
proof (induction "len - offset" arbitrary: offset acc rule: less_induct)
  case less
  define n where "n = unat (b ! (offset + 1))"
  define a where "a = \<lparr> at_type = b ! offset, at_value = subarray (offset + 2) (offset + n) b \<rparr>"
  have step: "parse_attributes b len offset acc =
     (if \<not> offset < len then Some (Inr acc)
      else if len < offset + 2 then Some (Inl (PlainError ''Truncated RADIUS attribute header''))
      else if n < 2 \<or> len < offset + n then Some (Inl (PlainError ''Invalid RADIUS attribute length''))
      else parse_attributes b len (offset + n) (acc @ [a]))"
    by (subst parse_attributes.simps) (simp only: n_def a_def)
  consider "len = offset" | "offset < len" "len < offset + 2 \<or> n < 2 \<or> len < offset + n" | "2 \<le> n" "offset + n \<le> len"
    using less.prems(2) by linarith
  then show ?case
  proof cases
    case 1
    with step less.prems(4) show ?thesis by simp
  next
    case 2
    with step show ?thesis by auto
  next
    case 3
    have l: "length (at_value a) = n - 2" using 3 less.prems(3) by (simp add: a_def)
    have "n < 256" unfolding n_def by (rule unat_byte)
    then have "encode_attributes (acc @ [a]) = Inr (subarray 20 offset b @ at_type a # of_nat (length (at_value a) + 2) # at_value a)"
      using l by (intro encode_attributes_snoc less.prems(4)) simp
    also have "of_nat (length (at_value a) + 2) = b ! (offset + 1)" using l 3(1) by (simp add: n_def)
    also have "subarray 20 offset b @ at_type a # b ! (offset + 1) # at_value a = subarray 20 (offset + n) b"
      using 3 less.prems subarray_split [of 20 offset "offset + n" b] subarray_Cons [of offset "offset + n" b] subarray_Cons [of "offset + 1" "offset + n" b]
      by (simp add: a_def)
    finally have e: "encode_attributes (acc @ [a]) = Inr (subarray 20 (offset + n) b)" .
    have "case parse_attributes b len (offset + n) (acc @ [a]) of None \<Rightarrow> False | Some (Inl _) \<Rightarrow> True
      | Some (Inr attrs) \<Rightarrow> encode_attributes attrs = Inr (subarray 20 len b)"
      using 3 less.prems(1,3) e by (intro less.hyps) simp_all
    with step 3 show ?thesis by simp
  qed
qed

lemma unat_small: "n < 256 \<Longrightarrow> unat (of_nat n :: byte) = n"
  by (simp add: unat_of_nat)

lemma write_read_u16: "write_u16 (unat x * 256 + unat y) = [x, y]"
proof -
  have "(unat x * 256 + unat y) div 256 = unat x" using unat_byte [of y] by simp
  moreover have "of_nat (unat x * 256 + unat y) = y"
  proof -
    have "(256 :: byte) = 0" by simp
    then have "x * 256 = x * (0 :: byte)" by (rule arg_cong)
    then show ?thesis by simp
  qed
  ultimately show ?thesis by (simp add: write_u16_def)
qed

text \<open>C31: parsing a datagram always ends, in an error or in a packet; and the parser accepts only what the encoder writes:
  encoding the packet again, with its own authenticator, gives back the bytes of the datagram up to its length
  field.\<close>

theorem parser_ends_and_is_exact:
  "case parse_packet b of
     None \<Rightarrow> False
   | Some (Inl _) \<Rightarrow> True
   | Some (Inr p) \<Rightarrow> encode_request (rp_authenticator p) (rp_code p) (rp_identifier p) (rp_attributes p) = Inr (take (read_u16 b 2) b)"
proof (cases "length b < 20 \<or> read_u16 b 2 < 20 \<or> length b < read_u16 b 2")
  case True
  then show ?thesis by (auto simp: parse_packet_def)
next
  case False
  define len where "len = read_u16 b 2"
  have len: "20 \<le> len" "len \<le> length b" "20 \<le> length b" using False by (simp_all add: len_def)
  have total: "case parse_attributes b len 20 [] of None \<Rightarrow> False | Some (Inl _) \<Rightarrow> True
      | Some (Inr attrs) \<Rightarrow> encode_attributes attrs = Inr (subarray 20 len b)"
    by (rule parse_attributes_total) (simp_all add: len)
  have "read_u16 b 2 < 65536"
    using unat_byte [of "b ! 2"] unat_byte [of "b ! 3"] by (simp add: read_u16_def)
  then have small: "\<not> 65535 < 20 + length (subarray 20 len b)" using len by (simp add: len_def)
  have head: "[b ! 0, b ! 1] @ write_u16 len @ subarray 4 20 b @ subarray 20 len b = take len b"
  proof -
    have "write_u16 len = [b ! 2, b ! 3]" by (simp add: len_def read_u16_def write_read_u16)
    moreover have "subarray 0 4 b = [b ! 0, b ! 1, b ! 2, b ! 3]"
    proof -
      have "b \<noteq> []" using len(3) by auto
      then have "subarray 0 4 b = b ! 0 # subarray 1 4 b" using subarray_Cons [of 0 4 b] by simp
      moreover have "subarray 1 4 b = b ! 1 # subarray 2 4 b" using subarray_Cons [of 1 4 b, unfolded one_add_one] len(3) by simp
      moreover have "subarray 2 4 b = [b ! 2, b ! 3]" using subarray_Cons [of 2 4 b] subarray_Cons [of 3 4 b] len(3) by simp
      ultimately show ?thesis by simp
    qed
    moreover have "take len b = subarray 0 4 b @ subarray 4 20 b @ subarray 20 len b"
      using len by (simp flip: subarray_0 subarray_split)
    ultimately show ?thesis by simp
  qed
  show ?thesis
  proof (cases "parse_attributes b len 20 []")
    case None
    with total show ?thesis by simp
  next
    case (Some r)
    show ?thesis
    proof (cases r)
      case (Inl e)
      with Some False show ?thesis by (simp add: parse_packet_def flip: len_def)
    next
      case (Inr attrs)
      then have "encode_attributes attrs = Inr (subarray 20 len b)" using total Some by simp
      then have "encode_request (subarray 4 20 b) (b ! 0) (b ! 1) attrs = Inr (take len b)"
        using small len head by (simp add: encode_request_def encode_packet_def encode_header_def)
      then show ?thesis using Some Inr False by (simp add: parse_packet_def flip: len_def)
    qed
  qed
qed

lemma encode_attributes_parses:
  assumes "encode_attributes attrs = Inr bytes" and "subarray offset len b = bytes" and "offset \<le> len" and "len \<le> length b"
  shows "parse_attributes b len offset acc = Some (Inr (acc @ attrs))"
  using assms
proof (induction attrs arbitrary: offset bytes acc)
  case Nil
  then have "len = offset" using length_subarray [of len b offset] by simp
  then show ?case by (subst parse_attributes.simps) simp
next
  case (Cons a attrs)
  obtain rest where rest: "encode_attributes attrs = Inr rest" and l: "length (at_value a) \<le> 253"
    and bytes: "bytes = at_type a # of_nat (length (at_value a) + 2) # at_value a @ rest"
    using Cons.prems(1) by (auto split: if_splits sum.splits)
  define n where "n = length (at_value a) + 2"
  have total: "len - offset = n + length rest"
    using length_subarray [OF Cons.prems(4), of offset] by (simp add: Cons.prems(2) bytes n_def)
  have at: "drop offset b = bytes @ drop len b"
    using Cons.prems(2,3) append_take_drop_id [of "len - offset" "drop offset b"] by (simp add: subarray_def)
  have ids: "b ! offset = at_type a" "b ! (offset + 1) = of_nat n" "subarray (offset + 2) (offset + n) b = at_value a"
    "subarray (offset + n) len b = rest"
  proof -
    have "b ! offset = drop offset b ! 0" "b ! (offset + 1) = drop offset b ! 1" using Cons.prems(3,4) total by (simp_all add: n_def)
    then show "b ! offset = at_type a" "b ! (offset + 1) = of_nat n" by (simp_all only: at bytes n_def) simp_all
    have d2: "drop (offset + 2) b = drop 2 (drop offset b)" and dn: "drop (offset + n) b = drop n (drop offset b)"
      by (simp_all add: add.commute)
    show "subarray (offset + 2) (offset + n) b = at_value a" unfolding subarray_def d2 at bytes by (simp add: n_def)
    show "subarray (offset + n) len b = rest" unfolding subarray_def dn at bytes using total by (simp add: n_def)
  qed
  have "unat (of_nat n :: byte) = n" using l by (intro unat_small) (simp add: n_def)
  moreover have "parse_attributes b len (offset + n) (acc @ [a]) = Some (Inr ((acc @ [a]) @ attrs))"
    by (rule Cons.IH [OF rest]) (use ids(4) total Cons.prems(3,4) in simp_all)
  moreover have "\<not> n < 2" "\<not> len < offset + n" "offset < len" "\<not> len < offset + 2" using total by (auto simp: n_def)
  ultimately show ?case by (subst parse_attributes.simps) (simp add: ids [simplified], cases a, simp)
qed

lemma encode_packet_parses:
  assumes "encode_packet code identifier authenticator attrs = Inr b" and "\<And>h x. length (authenticator h x) = 16"
  shows "parse_packet (b @ padding) = Some (Inr \<lparr> rp_code = code, rp_identifier = identifier, rp_authenticator = subarray 4 20 b, rp_attributes = attrs \<rparr>)"
    "read_u16 b 2 = length b"
proof -
  obtain bytes where bytes: "encode_attributes attrs = Inr bytes" and small: "20 + length bytes \<le> 65535"
    and b: "b = code # identifier # write_u16 (20 + length bytes) @ authenticator (code # identifier # write_u16 (20 + length bytes)) bytes @ bytes"
    using assms(1) by (auto simp: encode_packet_def encode_header_def split: sum.splits if_splits)
  define m where "m = 20 + length bytes"
  define auth where "auth = authenticator (code # identifier # write_u16 m) bytes"
  have auth: "length auth = 16" by (simp add: auth_def assms(2))
  have b': "b = code # identifier # of_nat (m div 256) # of_nat m # auth @ bytes"
    by (simp only: b m_def auth_def write_u16_def append_Cons append_Nil)
  have len: "length b = m" using auth by (simp add: b' m_def)
  have high: "unat (of_nat (m div 256) :: byte) = m div 256" using small by (intro unat_small) (simp add: m_def)
  have low: "unat (of_nat m :: byte) = m mod 256" by (simp add: unat_of_nat)
  have "read_u16 (b @ padding) 2 = m div 256 * 256 + m mod 256" by (simp add: read_u16_def b' high low)
  also have "\<dots> = m" by simp
  finally have r: "read_u16 (b @ padding) 2 = m" .
  have "read_u16 b 2 = m div 256 * 256 + m mod 256" by (simp add: read_u16_def b' high low)
  then show "read_u16 b 2 = length b" by (simp add: len)
  have "b = [code, identifier, of_nat (m div 256), of_nat m] @ auth @ bytes" by (simp add: b')
  then have "drop 20 b = bytes" using auth by simp
  then have "subarray 20 m (b @ padding) = bytes" using len by (simp add: subarray_def m_def)
  then have "parse_attributes (b @ padding) m 20 [] = Some (Inr attrs)"
    using encode_attributes_parses [OF bytes, of 20 m "b @ padding" "[]"] len by (simp add: m_def)
  moreover have "subarray 4 20 (b @ padding) = subarray 4 20 b" using len by (simp add: subarray_def m_def)
  moreover have "(b @ padding) ! 0 = code" "(b @ padding) ! 1 = identifier" by (simp_all add: b')
  ultimately show "parse_packet (b @ padding) = Some (Inr \<lparr> rp_code = code, rp_identifier = identifier, rp_authenticator = subarray 4 20 b, rp_attributes = attrs \<rparr>)"
    using len by (simp add: parse_packet_def r m_def)
qed

text \<open>A packet that the encoder writes parses back: whatever follows it in the datagram, the parser finds its code, its
  identifier, the authenticator it was sealed with and its attributes in their order.\<close>

theorem responses_parse_back:
  assumes "encode_response md5 code identifier request_auth attrs secret = Inr b" and "\<And>x. length (md5 x) = 16"
  shows "parse_packet (b @ padding) = Some (Inr \<lparr> rp_code = code, rp_identifier = identifier,
      rp_authenticator = md5 (take 4 b @ request_auth @ drop 20 b @ secret), rp_attributes = attrs \<rparr>)"
proof -
  have e: "encode_packet code identifier (\<lambda>header bytes. md5 (header @ request_auth @ bytes @ secret)) attrs = Inr b"
    using assms(1) by (simp add: encode_response_def)
  obtain bytes where bytes: "encode_attributes attrs = Inr bytes" using e by (auto simp: encode_packet_def split: sum.splits)
  define header where "header = code # identifier # write_u16 (20 + length bytes)"
  have "\<not> 65535 < 20 + length bytes" using e bytes by (auto simp: encode_packet_def encode_header_def split: if_splits)
  then have b: "b = header @ md5 (header @ request_auth @ bytes @ secret) @ bytes"
    using e by (simp add: encode_packet_def encode_header_def bytes header_def)
  have h: "length header = 4" by (simp add: header_def write_u16_def)
  have "subarray 4 20 b = md5 (header @ request_auth @ bytes @ secret)" "take 4 b = header" "drop 20 b = bytes"
    using h assms(2) by (simp_all add: b subarray_def)
  then show ?thesis using encode_packet_parses(1) [OF e, of padding] assms(2) by simp
qed

theorem responses_parse_back_witness:
  "parse_packet ([2, 7, 0, 24] @ replicate 16 9 @ [18, 4, 78, 79] @ [0, 0]) =
     Some (Inr \<lparr> rp_code = 2, rp_identifier = 7, rp_authenticator = replicate 16 9, rp_attributes = [\<lparr> at_type = 18, at_value = [78, 79] \<rparr>] \<rparr>)"
proof -
  have "encode_response (\<lambda>_. replicate 16 9) 2 7 [1] [\<lparr> at_type = 18, at_value = [78, 79] \<rparr>] [5] = Inr ([2, 7, 0, 24] @ replicate 16 9 @ [18, 4, 78, 79])"
    by (simp add: encode_response_def encode_packet_def encode_header_def write_u16_def)
  from responses_parse_back [OF this, of "[0, 0]"] show ?thesis by simp
qed

subsection \<open>Hidden passwords\<close>

text \<open>The hiding of RFC 2865, section 5.2, which the network access server applies: the specification of the decryption.\<close>

function hide_blocks :: "(byte list \<Rightarrow> byte list) \<Rightarrow> byte list \<Rightarrow> byte list \<Rightarrow> byte list \<Rightarrow> byte list" where
  "hide_blocks md5 secret previous clear =
     (if clear = [] then []
      else (let c = map2 (XOR) (take 16 clear) (md5 (secret @ previous)) in c @ hide_blocks md5 secret c (drop 16 clear)))"
  by pat_completeness auto
termination
  by (relation "measure (\<lambda>(md5, secret, previous, clear). length clear)") auto

declare hide_blocks.simps [simp del]

definition hide_password :: "(byte list \<Rightarrow> byte list) \<Rightarrow> byte list \<Rightarrow> byte list \<Rightarrow> byte list \<Rightarrow> byte list" where
  "hide_password md5 secret request_auth password =
     hide_blocks md5 secret request_auth (password @ replicate ((16 - length password mod 16) mod 16) 0)"

lemma map2_xor_twice: "length xs \<le> length ks \<Longrightarrow> map2 (XOR) (map2 (XOR) xs ks) ks = (xs :: byte list)"
proof (induction xs arbitrary: ks)
  case Nil
  then show ?case by simp
next
  case (Cons x xs)
  then show ?case by (cases ks) (simp_all add: xor.assoc)
qed

lemma decrypt_hidden:
  assumes "\<And>x. length (md5 x) = 16" and "length clear mod 16 = 0"
  shows "decrypt_blocks md5 secret previous (hide_blocks md5 secret previous clear) = clear \<and>
    length (hide_blocks md5 secret previous clear) = length clear"
  using assms(2)
proof (induction "length clear" arbitrary: previous clear rule: less_induct)
  case less
  show ?case
  proof (cases "clear = []")
    case True
    then show ?thesis by (simp add: hide_blocks.simps decrypt_blocks.simps)
  next
    case False
    then have l: "16 \<le> length clear" using less.prems by (cases "length clear < 16") auto
    define c where "c = map2 (XOR) (take 16 clear) (md5 (secret @ previous))"
    define rest where "rest = hide_blocks md5 secret c (drop 16 clear)"
    have c: "length c = 16" using l assms(1) by (simp add: c_def)
    have h: "hide_blocks md5 secret previous clear = c @ rest"
      using False by (subst hide_blocks.simps) (simp add: Let_def c_def rest_def)
    have IH: "decrypt_blocks md5 secret c rest = drop 16 clear \<and> length rest = length (drop 16 clear)"
      unfolding rest_def by (rule less.hyps) (use l less.prems in \<open>auto simp: mod_if\<close>)
    have "c \<noteq> []" using c by auto
    then have "decrypt_blocks md5 secret previous (c @ rest) = map2 (XOR) c (md5 (secret @ previous)) @ decrypt_blocks md5 secret c rest"
      using c by (simp add: decrypt_blocks.simps [of md5 secret previous "c @ rest"])
    also have "map2 (XOR) c (md5 (secret @ previous)) = take 16 clear" using assms(1) unfolding c_def by (intro map2_xor_twice) simp
    finally show ?thesis using IH c h l by simp
  qed
qed

lemma hidden_password_recovers:
  assumes "\<And>x. length (md5 x) = 16" and "password \<noteq> []" and "last password \<noteq> 0"
  shows "decrypt_user_password md5 (hide_password md5 secret request_auth password) secret request_auth = Inr password"
proof -
  define clear where "clear = password @ replicate ((16 - length password mod 16) mod 16) 0"
  have m: "length clear mod 16 = 0"
  proof -
    define n where "n = length password"
    have "(n + (16 - n mod 16) mod 16) mod 16 = (n mod 16 + (16 - n mod 16)) mod 16" by (simp only: mod_add_right_eq mod_add_left_eq)
    also have "n mod 16 + (16 - n mod 16) = 16" by (simp add: less_imp_le)
    finally show ?thesis by (simp add: clear_def n_def)
  qed
  have ne: "clear \<noteq> []" using assms(2) by (simp add: clear_def)
  have strip: "strip_zeros clear = password"
  proof -
    have "dropWhile (\<lambda>x. x = 0) (replicate n 0 @ xs) = dropWhile (\<lambda>x. x = 0) xs" for n and xs :: "byte list" by (induction n) simp_all
    moreover have "dropWhile (\<lambda>x. x = 0) (rev password) = rev password"
      using assms(2,3) by (cases password rule: rev_cases) simp_all
    ultimately show ?thesis by (simp add: strip_zeros_def clear_def)
  qed
  have d: "decrypt_blocks md5 secret request_auth (hide_blocks md5 secret request_auth clear) = clear"
    "length (hide_blocks md5 secret request_auth clear) = length clear"
    using decrypt_hidden [of md5 clear secret request_auth, OF assms(1) m] by blast+
  then have "hide_blocks md5 secret request_auth clear \<noteq> []" using ne by auto
  then show ?thesis using d m strip by (simp add: decrypt_user_password_def hide_password_def flip: clear_def)
qed

end
