(* ===== verification/Texts.thy ===== *)
theory Texts
  imports JsValues "HOL-Library.Word"
begin

text \<open>
  Texts as the services take them apart and put them together: \<open>split\<close> and \<open>join\<close>, \<open>indexOf\<close>, hexadecimal buffers, and
  the conversions \<open>Number(x)\<close> and \<open>String(x)\<close> of texts and documents. How a number is written, \<open>show\<close>, is a parameter.
\<close>

subsection \<open>Splitting and joining\<close>

fun split_on :: "char \<Rightarrow> string \<Rightarrow> string list" where
  "split_on c [] = [[]]"
| "split_on c (x # xs) =
     (if x = c then [] # split_on c xs
      else (case split_on c xs of [] \<Rightarrow> [[x]] | w # ws \<Rightarrow> (x # w) # ws))"

fun join_with :: "char \<Rightarrow> string list \<Rightarrow> string" where
  "join_with c [] = []"
| "join_with c [w] = w"
| "join_with c (w # v # ws) = w @ c # join_with c (v # ws)"

fun index_of :: "char \<Rightarrow> string \<Rightarrow> nat option" where
  "index_of c [] = None"
| "index_of c (x # xs) = (if x = c then Some 0 else map_option Suc (index_of c xs))"

lemma split_on_plain: "c \<notin> set w \<Longrightarrow> split_on c w = [w]"
  by (induction w) auto

lemma split_on_append: "c \<notin> set w \<Longrightarrow> split_on c (w @ c # s) = w # split_on c s"
  by (induction w) auto

lemma split_join: "ws \<noteq> [] \<Longrightarrow> (\<And>w. w \<in> set ws \<Longrightarrow> c \<notin> set w) \<Longrightarrow> split_on c (join_with c ws) = ws"
  by (induction c ws rule: join_with.induct) (simp_all add: split_on_plain split_on_append)

lemma split_on_parts: "w \<in> set (split_on c s) \<Longrightarrow> c \<notin> set w"
  by (induction s arbitrary: w) (auto split: list.splits if_splits)

lemma join_split: "join_with c (split_on c s) = s"
proof (induction s)
  case Nil
  then show ?case by simp
next
  case (Cons x xs)
  have ne: "split_on c xs \<noteq> []" by (cases xs) (auto split: list.splits)
  then obtain w ws where "split_on c xs = w # ws" by (cases "split_on c xs") auto
  with Cons show ?case by (cases ws) auto
qed

subsection \<open>Hexadecimal\<close>

type_synonym bytes = "8 word list"

definition hex_digit :: "nat \<Rightarrow> char" where
  "hex_digit n = ''0123456789abcdef'' ! n"

definition digit_value :: "char \<Rightarrow> nat option" where
  "digit_value c =
     (let n = of_char c in
      if 48 \<le> n \<and> n \<le> 57 then Some (n - 48)
      else if 97 \<le> n \<and> n \<le> 102 then Some (n - 87)
      else if 65 \<le> n \<and> n \<le> 70 then Some (n - 55)
      else None)"

definition is_hex :: "char \<Rightarrow> bool" where
  "is_hex c \<longleftrightarrow> digit_value c \<noteq> None"

definition hex_encode :: "bytes \<Rightarrow> string" where
  "hex_encode bs = concat (map (\<lambda>b. [hex_digit (unat b div 16), hex_digit (unat b mod 16)]) bs)"

text \<open>\<open>Buffer.from(s, 'hex')\<close> stops at the first pair that is not hexadecimal.\<close>

fun hex_decode :: "string \<Rightarrow> bytes" where
  "hex_decode (x # y # s) =
     (case (digit_value x, digit_value y) of
        (Some h, Some l) \<Rightarrow> of_nat (h * 16 + l) # hex_decode s
      | _ \<Rightarrow> [])"
| "hex_decode _ = []"

lemma digit_value_hex_digit: "n < 16 \<Longrightarrow> digit_value (hex_digit n) = Some n"
proof -
  assume "n < 16"
  moreover have "\<forall>n\<in>set [0..<16]. digit_value (hex_digit n) = Some n" by code_simp
  ultimately show ?thesis by simp
qed

lemma byte_less: "unat (b :: 8 word) < 256"
  using unsigned_less [of b] by simp

lemma hex_decode_encode: "hex_decode (hex_encode bs) = bs"
proof (induction bs)
  case Nil
  then show ?case by (simp add: hex_encode_def)
next
  case (Cons b bs)
  have "unat b div 16 < 16" using byte_less [of b] by (simp add: less_mult_imp_div_less)
  moreover have "of_nat (unat b div 16 * 16 + unat b mod 16) = b" unfolding div_mult_mod_eq by simp
  ultimately show ?case using Cons by (simp add: hex_encode_def digit_value_hex_digit)
qed

lemma hex_encode_chars: "c \<in> set (hex_encode bs) \<Longrightarrow> is_hex c"
  by (auto simp: hex_encode_def is_hex_def digit_value_hex_digit less_mult_imp_div_less byte_less)

lemma hex_encode_inj: "hex_encode a = hex_encode b \<longleftrightarrow> a = b"
  by (metis hex_decode_encode)

lemma length_hex_encode: "length (hex_encode bs) = 2 * length bs"
  by (induction bs) (simp_all add: hex_encode_def)

text \<open>\<open>/^[0-9a-f]{8}-[0-9a-f]{4}-[1-8][0-9a-f]{3}-[89ab][0-9a-f]{3}-[0-9a-f]{12}$/i\<close>\<close>

definition is_uuid :: "string \<Rightarrow> bool" where
  "is_uuid k \<longleftrightarrow>
     (case split_on (CHR ''-'') k of
        [a, b, c, d, e] \<Rightarrow> length a = 8 \<and> length b = 4 \<and> length c = 4 \<and> length d = 4 \<and> length e = 12 \<and> list_all is_hex (a @ b @ c @ d @ e) \<and>
          c ! 0 \<in> set ''12345678'' \<and> d ! 0 \<in> set ''89abAB''
      | _ \<Rightarrow> False)"

subsection \<open>Numbers out of texts and documents\<close>

definition digits :: "nat \<Rightarrow> string \<Rightarrow> nat option" where
  "digits base s =
     (if s = [] \<or> list_ex (\<lambda>c. case digit_value c of None \<Rightarrow> True | Some d \<Rightarrow> base \<le> d) s then None
      else Some (foldl (\<lambda>n c. n * base + the (digit_value c)) 0 s))"

definition exponent_of :: "string \<Rightarrow> int option" where
  "exponent_of s =
     (case s of
        [] \<Rightarrow> Some 0
      | _ # CHR ''+'' # ds \<Rightarrow> map_option int (digits 10 ds)
      | _ # CHR ''-'' # ds \<Rightarrow> map_option (\<lambda>n. - int n) (digits 10 ds)
      | _ # ds \<Rightarrow> map_option int (digits 10 ds))"

definition mantissa_of :: "string \<Rightarrow> rat option" where
  "mantissa_of s =
     (let i = takeWhile (\<lambda>c. c \<noteq> CHR ''.'') s; f = drop 1 (dropWhile (\<lambda>c. c \<noteq> CHR ''.'') s) in
      if i = [] \<and> f = [] then None
      else (case (if i = [] then Some 0 else digits 10 i, if f = [] then Some 0 else digits 10 f) of
              (Some a, Some b) \<Rightarrow> Some (of_nat a + of_nat b / 10 ^ length f)
            | _ \<Rightarrow> None))"

definition power_of_ten :: "int \<Rightarrow> rat" where
  "power_of_ten e = (if 0 \<le> e then 10 ^ nat e else 1 / 10 ^ nat (- e))"

definition decimal_value :: "string \<Rightarrow> jsnum" where
  "decimal_value s =
     (if s = ''Infinity'' then PosInf
      else (let m = takeWhile (\<lambda>c. c \<noteq> CHR ''e'' \<and> c \<noteq> CHR ''E'') s; e = dropWhile (\<lambda>c. c \<noteq> CHR ''e'' \<and> c \<noteq> CHR ''E'') s in
            case (mantissa_of m, exponent_of e) of (Some v, Some x) \<Rightarrow> Fin (v * power_of_ten x) | _ \<Rightarrow> NaN))"

definition negate :: "jsnum \<Rightarrow> jsnum" where
  "negate n = (case n of Fin r \<Rightarrow> Fin (- r) | PosInf \<Rightarrow> NegInf | NegInf \<Rightarrow> PosInf | NaN \<Rightarrow> NaN)"

definition based_value :: "nat \<Rightarrow> string \<Rightarrow> jsnum" where
  "based_value base s = (case digits base s of None \<Rightarrow> NaN | Some n \<Rightarrow> Fin (of_nat n))"

text \<open>\<open>Number(s)\<close>\<close>

definition number_of_text :: "string \<Rightarrow> jsnum" where
  "number_of_text s =
     (case js_trim s of
        [] \<Rightarrow> Fin 0
      | CHR ''0'' # x # ds \<Rightarrow>
          (if x \<in> {CHR ''x'', CHR ''X''} then based_value 16 ds
           else if x \<in> {CHR ''o'', CHR ''O''} then based_value 8 ds
           else if x \<in> {CHR ''b'', CHR ''B''} then based_value 2 ds
           else decimal_value (CHR ''0'' # x # ds))
      | CHR ''+'' # ds \<Rightarrow> decimal_value ds
      | CHR ''-'' # ds \<Rightarrow> negate (decimal_value ds)
      | t \<Rightarrow> decimal_value t)"

text \<open>\<open>String(v)\<close> and \<open>Number(v)\<close> of a document\<close>

fun text_of :: "(rat \<Rightarrow> string) \<Rightarrow> json \<Rightarrow> string" where
  "text_of show JNull = ''null''"
| "text_of show (JBool b) = (if b then ''true'' else ''false'')"
| "text_of show (JNum r) = show r"
| "text_of show (JStr s) = s"
| "text_of show (JArr xs) = join_with (CHR '','') (map (\<lambda>x. if x = JNull then [] else text_of show x) xs)"
| "text_of show (JObj kvs) = ''[object Object]''"

definition number_of :: "(rat \<Rightarrow> string) \<Rightarrow> json \<Rightarrow> jsnum" where
  "number_of show v =
     (case v of
        JNull \<Rightarrow> Fin 0
      | JBool b \<Rightarrow> Fin (if b then 1 else 0)
      | JNum r \<Rightarrow> Fin r
      | _ \<Rightarrow> number_of_text (text_of show v))"

lemma js_space_upper [simp]: "js_space (upper_char c) = js_space c"
proof (cases "97 \<le> (of_char c :: nat) \<and> of_char c \<le> (122 :: nat)")
  case True
  then have "((of_char c :: nat) - 32) mod 256 = of_char c - 32" by (intro mod_less) linarith
  with True have "of_char (upper_char c) = (of_char c :: nat) - 32" by (simp add: upper_char_def)
  moreover from True have "65 \<le> (of_char c :: nat) - 32 \<and> of_char c - 32 \<le> (90 :: nat)" by linarith
  ultimately have "\<not> js_space (upper_char c)" by (auto simp: js_space_def)
  moreover from True have "\<not> js_space c" by (auto simp: js_space_def)
  ultimately show ?thesis by simp
next
  case False
  then have "upper_char c = c" unfolding upper_char_def by (rule if_not_P)
  then show ?thesis by simp
qed

lemma js_trim_upper: "js_trim (js_upper s) = js_upper (js_trim s)"
  by (simp add: js_trim_def js_upper_def dropWhile_map comp_def rev_map)

lemma number_of_digit_texts:
  "number_of_text ''1'' = Fin 1" "number_of_text ''2'' = Fin 2"
  by code_simp+

end
