(* ===== verification/Vault.thy ===== *)
theory Vault
  imports AuditTrail Texts "HOL-Library.AList"
begin

text \<open>
  Stored secrets. Two components seal texts with AES-256-GCM under a ring of named keys: the credentials of network
  devices (\<open>common/secure-network-credentials.ts\<close>) and the vault of the tenants (\<open>secrets-vault/secure-secret-vault.ts\<close>,
  \<open>secrets-vault/secrets-vault.service.ts\<close>). They share one interface, the locale \<open>sealed_box\<close>: what was sealed under one
  configuration opens under every other one that still has the key. The cipher, the encodings and the text of
  documents are parameters, \<open>crypto\<close>; \<open>settings\<close> is the lookup of \<open>ConfigService\<close>.
\<close>

record crypto =
  cy_seal :: "bytes \<Rightarrow> bytes \<Rightarrow> bytes \<Rightarrow> bytes \<times> bytes"
  cy_open :: "bytes \<Rightarrow> bytes \<Rightarrow> bytes \<Rightarrow> bytes \<Rightarrow> bytes option"
  cy_encode :: "bytes \<Rightarrow> string"
  cy_decode :: "string \<Rightarrow> bytes"
  cy_utf8 :: "string \<Rightarrow> bytes"
  cy_text :: "bytes \<Rightarrow> string"
  cy_render :: "json \<Rightarrow> string"
  cy_parse :: "string \<Rightarrow> json option"

type_synonym settings = "string \<Rightarrow> string option"
type_synonym keyring = "(string \<times> bytes) list"

text \<open>What the services rely on: GCM opens what it sealed, with a tag of 16 bytes and no padding, \<open>base64url\<close> has no
  dots and loses nothing, and neither does UTF-8.\<close>

definition crypto_ok :: "crypto \<Rightarrow> bool" where
  "crypto_ok c \<longleftrightarrow>
     (\<forall>key iv plain. cy_open c key iv (snd (cy_seal c key iv plain)) (fst (cy_seal c key iv plain)) = Some plain \<and>
        length (snd (cy_seal c key iv plain)) = 16 \<and> length (fst (cy_seal c key iv plain)) = length plain) \<and>
     (\<forall>b. cy_decode c (cy_encode c b) = b \<and> CHR ''.'' \<notin> set (cy_encode c b) \<and> (cy_encode c b = [] \<longleftrightarrow> b = [])) \<and>
     (\<forall>t. cy_text c (cy_utf8 c t) = t)"

subsection \<open>Rings of keys\<close>

definition id_char :: "char \<Rightarrow> bool" where
  "id_char c \<longleftrightarrow> (let n = of_char c in (48 \<le> n \<and> n \<le> (57 :: nat)) \<or> (65 \<le> n \<and> n \<le> 90) \<or> (97 \<le> n \<and> n \<le> 122) \<or> c = CHR ''_'' \<or> c = CHR ''-'')"

definition valid_key_id :: "string \<Rightarrow> bool" where
  "valid_key_id i \<longleftrightarrow> 1 \<le> length i \<and> length i \<le> 32 \<and> list_all id_char i"

definition valid_hex_key :: "string \<Rightarrow> bool" where
  "valid_hex_key k \<longleftrightarrow> length k = 64 \<and> list_all is_hex k"

definition has_id :: "keyring \<Rightarrow> string \<Rightarrow> bool" where
  "has_id ks i \<longleftrightarrow> map_of ks i \<noteq> None"

text \<open>The entries of \<open>JASLYN_NETWORK_CREDENTIAL_KEYRING\<close>.\<close>

fun ring_entries :: "string list \<Rightarrow> keyring \<Rightarrow> keyring result" where
  "ring_entries [] ks = Inr ks"
| "ring_entries (item # items) ks =
     (case index_of (CHR '':'') item of
        Some (Suc n) \<Rightarrow>
          (let i = js_trim (take (Suc n) item); encoded = js_trim (drop (Suc n + 1) item) in
           if \<not> valid_key_id i \<or> \<not> valid_hex_key encoded
           then Inl (PlainError ''JASLYN_NETWORK_CREDENTIAL_KEYRING entries must use id:64-hex format'')
           else if has_id ks i then Inl (PlainError ''Duplicate key id in JASLYN_NETWORK_CREDENTIAL_KEYRING'')
           else ring_entries items (AList.update i (hex_decode encoded) ks))
      | _ \<Rightarrow> Inl (PlainError ''JASLYN_NETWORK_CREDENTIAL_KEYRING entries must use id:64-hex format''))"

definition with_legacy :: "string option \<Rightarrow> keyring \<Rightarrow> keyring" where
  "with_legacy legacy ks =
     (case legacy of
        Some k \<Rightarrow>
          (if valid_hex_key k \<and> \<not> has_id ks ''legacy''
           then (let ks1 = AList.update ''legacy'' (hex_decode k) ks in
                 if has_id ks1 ''1'' then ks1 else AList.update ''1'' (hex_decode k) ks1)
           else ks)
      | None \<Rightarrow> ks)"

definition credential_keyring :: "settings \<Rightarrow> (string \<times> keyring) result" where
  "credential_keyring cfg =
     (let raw = trim_or_null (cfg ''JASLYN_NETWORK_CREDENTIAL_KEYRING''); legacy = trim_or_null (cfg ''JASLYN_NETWORK_CREDENTIAL_KEY'') in
      case (case raw of None \<Rightarrow> Inr [] | Some r \<Rightarrow> ring_entries (split_on (CHR '','') r) []) of
        Inl e \<Rightarrow> Inl e
      | Inr ring \<Rightarrow>
          (let ks = with_legacy legacy ring;
               active = (case trim_or_null (cfg ''JASLYN_NETWORK_CREDENTIAL_ACTIVE_KEY_ID'') of
                           Some a \<Rightarrow> Some a
                         | None \<Rightarrow> if has_id ks ''1'' then Some ''1'' else (case ks of [] \<Rightarrow> None | k # _ \<Rightarrow> Some (fst k)))
           in case active of
                Some a \<Rightarrow>
                  if has_id ks a then Inr (a, ks)
                  else if raw = None \<and> legacy \<noteq> None then Inl (PlainError ''JASLYN_NETWORK_CREDENTIAL_KEY must be a 32-byte hexadecimal key'')
                  else Inl (PlainError ''Configure JASLYN_NETWORK_CREDENTIAL_KEY or a keyring with a valid active key id'')
              | None \<Rightarrow>
                  if raw = None \<and> legacy \<noteq> None then Inl (PlainError ''JASLYN_NETWORK_CREDENTIAL_KEY must be a 32-byte hexadecimal key'')
                  else Inl (PlainError ''Configure JASLYN_NETWORK_CREDENTIAL_KEY or a keyring with a valid active key id'')))"

text \<open>The ring of the vault is a JSON document; \<open>Object.entries\<close> of it.\<close>

definition entries_of :: "json \<Rightarrow> (string \<times> json) list result" where
  "entries_of v =
     (case v of
        JNull \<Rightarrow> Inl (PlainError ''Cannot convert undefined or null to object'')
      | JObj kvs \<Rightarrow> Inr kvs
      | JArr xs \<Rightarrow> Inr (map (\<lambda>i. (nat_str i, xs ! i)) [0..<length xs])
      | JStr t \<Rightarrow> Inr (map (\<lambda>i. (nat_str i, JStr [t ! i])) [0..<length t])
      | _ \<Rightarrow> Inr [])"

fun vault_entries :: "(string \<times> json) list \<Rightarrow> keyring \<Rightarrow> keyring result" where
  "vault_entries [] ks = Inr ks"
| "vault_entries ((i, v) # kvs) ks =
     (case v of
        JStr k \<Rightarrow>
          if \<not> valid_key_id i \<or> \<not> valid_hex_key k
          then Inl (PlainError ''Each secret-vault key must have a valid ID and a 32-byte hexadecimal value'')
          else vault_entries kvs (AList.update i (hex_decode k) ks)
      | _ \<Rightarrow> Inl (PlainError ''Each secret-vault key must have a valid ID and a 32-byte hexadecimal value''))"

text \<open>A setting that is the empty text counts as missing.\<close>

definition setting :: "settings \<Rightarrow> string \<Rightarrow> string option" where
  "setting cfg name = (case cfg name of Some v \<Rightarrow> if v = [] then None else Some v | None \<Rightarrow> None)"

definition vault_ring :: "crypto \<Rightarrow> settings \<Rightarrow> keyring result" where
  "vault_ring c cfg =
     (case setting cfg ''JASLYN_SECRET_VAULT_KEYRING'' of
        None \<Rightarrow> Inr []
      | Some raw \<Rightarrow>
          (case cy_parse c raw of
             None \<Rightarrow> Inl (PlainError ''JASLYN_SECRET_VAULT_KEYRING must be a JSON object of key IDs to 64-character hex keys'')
           | Some parsed \<Rightarrow> (case entries_of parsed of Inl e \<Rightarrow> Inl e | Inr kvs \<Rightarrow> vault_entries kvs [])))"

definition vault_keys :: "crypto \<Rightarrow> settings \<Rightarrow> keyring result" where
  "vault_keys c cfg =
     (case vault_ring c cfg of
        Inl e \<Rightarrow> Inl e
      | Inr ks \<Rightarrow>
          (case setting cfg ''JASLYN_SECRET_VAULT_KEY'' of
             None \<Rightarrow> Inr ks
           | Some legacy \<Rightarrow>
               if \<not> valid_hex_key legacy then Inl (PlainError ''JASLYN_SECRET_VAULT_KEY must be a 32-byte hexadecimal key'')
               else Inr (if has_id ks ''legacy'' then ks else AList.update ''legacy'' (hex_decode legacy) ks)))"

definition vault_active_key :: "crypto \<Rightarrow> settings \<Rightarrow> string result" where
  "vault_active_key c cfg =
     (case vault_keys c cfg of
        Inl e \<Rightarrow> Inl e
      | Inr ks \<Rightarrow>
          (case (case setting cfg ''JASLYN_SECRET_VAULT_ACTIVE_KEY_ID'' of
                   Some i \<Rightarrow> Some i
                 | None \<Rightarrow> if has_id ks ''legacy'' then Some ''legacy''
                           else (case ks of [k] \<Rightarrow> Some (fst k) | _ \<Rightarrow> None)) of
             Some i \<Rightarrow> if has_id ks i then Inr i else Inl (PlainError ''Active secret-vault key is not present in JASLYN_SECRET_VAULT_KEYRING'')
           | None \<Rightarrow> Inl (PlainError ''Active secret-vault key is not present in JASLYN_SECRET_VAULT_KEYRING'')))"

subsection \<open>Envelopes\<close>

definition envelope :: "crypto \<Rightarrow> string \<Rightarrow> bytes \<Rightarrow> bytes \<Rightarrow> string \<Rightarrow> string" where
  "envelope c i key iv plain =
     (let (ct, tag) = cy_seal c key iv (cy_utf8 c plain)
      in join_with (CHR ''.'') [''2'', i, cy_encode c iv, cy_encode c tag, cy_encode c ct])"

definition encrypt_credentials :: "crypto \<Rightarrow> settings \<Rightarrow> bytes \<Rightarrow> json \<Rightarrow> string result" where
  "encrypt_credentials c cfg iv v =
     (case credential_keyring cfg of Inl e \<Rightarrow> Inl e | Inr (a, ks) \<Rightarrow> Inr (envelope c a (the (map_of ks a)) iv (cy_render c v)))"

definition envelope_fields :: "string \<Rightarrow> (string \<times> string \<times> string \<times> string) option" where
  "envelope_fields payload =
     (let parts = split_on (CHR ''.'') payload; version = number_of_text (parts ! 0) in
      if version = Fin 1 \<and> length parts = 4 then Some (''1'', parts ! 1, parts ! 2, parts ! 3)
      else if version = Fin 2 \<and> length parts = 5 then Some (parts ! 1, parts ! 2, parts ! 3, parts ! 4)
      else None)"

definition open_credentials :: "crypto \<Rightarrow> settings \<Rightarrow> string \<Rightarrow> bytes \<Rightarrow> bytes \<Rightarrow> bytes \<Rightarrow> json option" where
  "open_credentials c cfg i iv tag ct =
     (case credential_keyring cfg of
        Inl _ \<Rightarrow> None
      | Inr (_, ks) \<Rightarrow>
          (case map_of ks i of
             None \<Rightarrow> None
           | Some key \<Rightarrow>
               if length iv \<noteq> 12 \<or> length tag \<noteq> 16 \<or> length ct = 0 then None
               else (case cy_open c key iv tag ct of
                       None \<Rightarrow> None
                     | Some plain \<Rightarrow> (case cy_parse c (cy_text c plain) of Some (JObj kvs) \<Rightarrow> Some (JObj kvs) | _ \<Rightarrow> None))))"

definition decrypt_credentials :: "crypto \<Rightarrow> settings \<Rightarrow> string \<Rightarrow> json result" where
  "decrypt_credentials c cfg payload =
     (case envelope_fields payload of
        None \<Rightarrow> Inl (PlainError ''Invalid encrypted network credentials'')
      | Some (i, iv, tag, ct) \<Rightarrow>
          if i = [] \<or> iv = [] \<or> tag = [] \<or> ct = [] then Inl (PlainError ''Invalid encrypted network credentials'')
          else (case open_credentials c cfg i (cy_decode c iv) (cy_decode c tag) (cy_decode c ct) of
                  None \<Rightarrow> Inl (PlainError ''Unable to decrypt network device credentials'')
                | Some v \<Rightarrow> Inr v))"

definition active_key_id :: "settings \<Rightarrow> string result" where
  "active_key_id cfg = map_sum id fst (credential_keyring cfg)"

definition vault_encrypt :: "crypto \<Rightarrow> settings \<Rightarrow> bytes \<Rightarrow> string \<Rightarrow> (string \<times> string) result" where
  "vault_encrypt c cfg iv v =
     (if v = [] then Inl (PlainError ''Secret value must not be empty'')
      else (case vault_active_key c cfg of
              Inl e \<Rightarrow> Inl e
            | Inr i \<Rightarrow> (case vault_keys c cfg of Inl e \<Rightarrow> Inl e | Inr ks \<Rightarrow> Inr (envelope c i (the (map_of ks i)) iv v, i))))"

definition vault_decrypt :: "crypto \<Rightarrow> settings \<Rightarrow> string \<Rightarrow> string result" where
  "vault_decrypt c cfg payload =
     (let parts = split_on (CHR ''.'') payload in
      if length parts \<noteq> 5 \<or> parts ! 0 \<noteq> ''2'' then Inl (PlainError ''Unsupported secret-vault ciphertext envelope'')
      else (case vault_keys c cfg of
              Inl e \<Rightarrow> Inl e
            | Inr ks \<Rightarrow>
                (case map_of ks (parts ! 1) of
                   None \<Rightarrow> Inl (PlainError ''The key required to decrypt this secret is unavailable'')
                 | Some key \<Rightarrow>
                     (case cy_open c key (cy_decode c (parts ! 2)) (cy_decode c (parts ! 3)) (cy_decode c (parts ! 4)) of
                        None \<Rightarrow> Inl (PlainError ''Secret decryption failed; verify the keyring and ciphertext integrity'')
                      | Some plain \<Rightarrow> Inr (cy_text c plain)))))"

subsection \<open>The interface of the two components\<close>

text \<open>The name of the key is the second part of an envelope.\<close>

definition key_of :: "string \<Rightarrow> string" where
  "key_of payload = split_on (CHR ''.'') payload ! 1"

locale sealed_box =
  fixes seal :: "crypto \<Rightarrow> settings \<Rightarrow> bytes \<Rightarrow> 'v \<Rightarrow> string result"
    and unseal :: "crypto \<Rightarrow> settings \<Rightarrow> string \<Rightarrow> 'v result"
    and key :: "crypto \<Rightarrow> settings \<Rightarrow> string \<Rightarrow> bytes option"
    and proper :: "crypto \<Rightarrow> 'v \<Rightarrow> bool"
  assumes unseal_sealed: "crypto_ok c \<Longrightarrow> length iv = 12 \<Longrightarrow> proper c v \<Longrightarrow> seal c cfg iv v = Inr p \<Longrightarrow>
      key c cfg' (key_of p) = key c cfg (key_of p) \<Longrightarrow> unseal c cfg' p = Inr v"
begin

lemma unseal_same_settings:
  "crypto_ok c \<Longrightarrow> length iv = 12 \<Longrightarrow> proper c v \<Longrightarrow> seal c cfg iv v = Inr p \<Longrightarrow> unseal c cfg p = Inr v"
  by (rule unseal_sealed) simp_all

end

definition plain_id :: "string \<Rightarrow> bool" where
  "plain_id i \<longleftrightarrow> i \<noteq> [] \<and> CHR ''.'' \<notin> set i"

definition dotless :: "keyring \<Rightarrow> bool" where
  "dotless ks \<longleftrightarrow> list_all (\<lambda>k. plain_id (fst k)) ks"

lemma valid_key_id_plain: "valid_key_id i \<Longrightarrow> plain_id i"
  by (auto simp: plain_id_def valid_key_id_def list_all_iff id_char_def Let_def)

lemma dotless_Nil: "dotless []"
  by (simp add: dotless_def)

lemma dotless_update: "dotless ks \<Longrightarrow> plain_id i \<Longrightarrow> dotless (AList.update i v ks)"
  by (induction ks) (auto simp: dotless_def)

lemma dotless_valid_update [simp]: "dotless ks \<Longrightarrow> valid_key_id i \<Longrightarrow> dotless (AList.update i v ks)"
  by (simp add: dotless_update valid_key_id_plain)

lemma dotless_id: "dotless ks \<Longrightarrow> has_id ks i \<Longrightarrow> plain_id i"
  by (force simp: dotless_def has_id_def list_all_iff dest: map_of_SomeD)

lemma ring_entries_dotless: "ring_entries items ks = Inr ks' \<Longrightarrow> dotless ks \<Longrightarrow> dotless ks'"
  by (induction items ks rule: ring_entries.induct)
    (auto simp: Let_def split: option.splits nat.splits if_splits)

lemma with_legacy_dotless: "dotless ks \<Longrightarrow> dotless (with_legacy legacy ks)"
  by (auto simp: with_legacy_def Let_def plain_id_def intro!: dotless_update split: option.splits)

lemma credential_keyring_active:
  assumes "credential_keyring cfg = Inr (a, ks)"
  shows "has_id ks a \<and> plain_id a"
proof -
  obtain ring where r: "(case trim_or_null (cfg ''JASLYN_NETWORK_CREDENTIAL_KEYRING'') of
      None \<Rightarrow> Inr [] | Some r \<Rightarrow> ring_entries (split_on (CHR '','') r) []) = (Inr ring :: keyring result)"
    and ks: "ks = with_legacy (trim_or_null (cfg ''JASLYN_NETWORK_CREDENTIAL_KEY'')) ring" and h: "has_id ks a"
    using assms unfolding credential_keyring_def Let_def by (auto split: sum.splits option.splits if_splits)
  have "dotless ring" using r dotless_Nil by (auto split: option.splits intro: ring_entries_dotless)
  then show ?thesis using h ks with_legacy_dotless dotless_id by blast
qed

lemma vault_entries_dotless: "vault_entries kvs ks = Inr ks' \<Longrightarrow> dotless ks \<Longrightarrow> dotless ks'"
  by (induction kvs ks rule: vault_entries.induct)
    (auto split: json.splits if_splits)

lemma vault_keys_dotless: "vault_keys c cfg = Inr ks \<Longrightarrow> dotless ks"
proof -
  assume k: "vault_keys c cfg = Inr ks"
  obtain ring where r: "vault_ring c cfg = Inr ring" using k by (auto simp: vault_keys_def split: sum.splits)
  then have "dotless ring" using dotless_Nil unfolding vault_ring_def by (auto split: option.splits sum.splits intro: vault_entries_dotless)
  then show ?thesis using k r by (auto simp: vault_keys_def plain_id_def intro!: dotless_update split: option.splits if_splits)
qed

lemma vault_active_key_known:
  assumes "vault_active_key c cfg = Inr i" and "vault_keys c cfg = Inr ks"
  shows "has_id ks i \<and> plain_id i"
proof -
  have "has_id ks i" using assms unfolding vault_active_key_def by (auto split: option.splits if_splits list.splits)
  then show ?thesis using dotless_id [OF vault_keys_dotless [OF assms(2)]] by blast
qed

lemma envelope_parts:
  assumes "crypto_ok c" and "plain_id i"
  shows "split_on (CHR ''.'') (envelope c i key iv plain) =
    [''2'', i, cy_encode c iv, cy_encode c (snd (cy_seal c key iv (cy_utf8 c plain))), cy_encode c (fst (cy_seal c key iv (cy_utf8 c plain)))]"
  unfolding envelope_def case_prod_beta Let_def
  by (rule split_join) (use assms in \<open>auto simp: crypto_ok_def plain_id_def\<close>)

lemma envelope_open:
  assumes "crypto_ok c"
  shows "cy_open c key (cy_decode c (cy_encode c iv)) (cy_decode c (cy_encode c (snd (cy_seal c key iv (cy_utf8 c plain)))))
      (cy_decode c (cy_encode c (fst (cy_seal c key iv (cy_utf8 c plain))))) = Some (cy_utf8 c plain)"
  using assms by (simp add: crypto_ok_def)

definition credential_key :: "crypto \<Rightarrow> settings \<Rightarrow> string \<Rightarrow> bytes option" where
  "credential_key c cfg i = (case credential_keyring cfg of Inl _ \<Rightarrow> None | Inr (_, ks) \<Rightarrow> map_of ks i)"

definition proper_credentials :: "crypto \<Rightarrow> json \<Rightarrow> bool" where
  "proper_credentials c v \<longleftrightarrow> (case v of JObj _ \<Rightarrow> cy_parse c (cy_render c v) = Some v \<and> cy_utf8 c (cy_render c v) \<noteq> [] | _ \<Rightarrow> False)"

definition vault_key :: "crypto \<Rightarrow> settings \<Rightarrow> string \<Rightarrow> bytes option" where
  "vault_key c cfg i = (case vault_keys c cfg of Inl _ \<Rightarrow> None | Inr ks \<Rightarrow> map_of ks i)"

definition vault_envelope :: "crypto \<Rightarrow> settings \<Rightarrow> bytes \<Rightarrow> string \<Rightarrow> string result" where
  "vault_envelope c cfg iv v = map_sum id fst (vault_encrypt c cfg iv v)"

interpretation credential_box: sealed_box encrypt_credentials decrypt_credentials credential_key proper_credentials
proof unfold_locales
  fix c cfg cfg' iv v p
  assume ok: "crypto_ok c" and iv: "length (iv :: bytes) = 12" and proper: "proper_credentials c v"
    and sealed: "encrypt_credentials c cfg iv v = Inr p" and same: "credential_key c cfg' (key_of p) = credential_key c cfg (key_of p)"
  obtain a ks where ring: "credential_keyring cfg = Inr (a, ks)" and p: "p = envelope c a (the (map_of ks a)) iv (cy_render c v)"
    using sealed unfolding encrypt_credentials_def by (auto split: sum.splits)
  note active = credential_keyring_active [OF ring]
  let ?key = "the (map_of ks a)"
  have parts: "split_on (CHR ''.'') p = [''2'', a, cy_encode c iv, cy_encode c (snd (cy_seal c ?key iv (cy_utf8 c (cy_render c v)))),
      cy_encode c (fst (cy_seal c ?key iv (cy_utf8 c (cy_render c v))))]"
    unfolding p by (rule envelope_parts) (use ok active in auto)
  have "credential_key c cfg' a = Some ?key" using same active ring by (auto simp: key_of_def parts credential_key_def has_id_def)
  then obtain a' ks' where ring': "credential_keyring cfg' = Inr (a', ks')" and key': "map_of ks' a = Some ?key"
    by (auto simp: credential_key_def split: sum.splits)
  have "a \<noteq> []" using active by (simp add: plain_id_def)
  moreover have ne: "cy_utf8 c (cy_render c v) \<noteq> []" using proper by (auto simp: proper_credentials_def split: json.splits)
  moreover have "iv \<noteq> []" using iv by auto
  moreover have "snd (cy_seal c k iv q) \<noteq> []" for k q using ok unfolding crypto_ok_def by (metis list.size(3) zero_neq_numeral)
  moreover have "fst (cy_seal c k iv q) = [] \<longleftrightarrow> q = []" for k q using ok unfolding crypto_ok_def by (metis length_0_conv)
  ultimately show "decrypt_credentials c cfg' p = Inr v"
    using ok proper ring' key' iv
    by (auto simp: decrypt_credentials_def envelope_fields_def open_credentials_def parts number_of_digit_texts crypto_ok_def proper_credentials_def
        split: json.splits)
qed

interpretation vault_box: sealed_box vault_envelope vault_decrypt vault_key "\<lambda>_ _. True"
proof unfold_locales
  fix c cfg cfg' iv v p
  assume ok: "crypto_ok c" and sealed: "vault_envelope c cfg iv v = Inr p" and same: "vault_key c cfg' (key_of p) = vault_key c cfg (key_of p)"
  obtain i ks where active: "vault_active_key c cfg = Inr i" and ks: "vault_keys c cfg = Inr ks" and p: "p = envelope c i (the (map_of ks i)) iv v"
    using sealed unfolding vault_envelope_def vault_encrypt_def by (auto split: sum.splits if_splits)
  note known = vault_active_key_known [OF active ks]
  let ?key = "the (map_of ks i)"
  have parts: "split_on (CHR ''.'') p = [''2'', i, cy_encode c iv, cy_encode c (snd (cy_seal c ?key iv (cy_utf8 c v))),
      cy_encode c (fst (cy_seal c ?key iv (cy_utf8 c v)))]"
    unfolding p by (rule envelope_parts) (use ok known in auto)
  have "vault_key c cfg' i = Some ?key" using same known ks by (auto simp: key_of_def parts vault_key_def has_id_def)
  then obtain ks' where "vault_keys c cfg' = Inr ks'" "map_of ks' i = Some ?key" by (auto simp: vault_key_def split: sum.splits)
  then show "vault_decrypt c cfg' p = Inr v"
    using ok by (auto simp: vault_decrypt_def parts crypto_ok_def)
qed

end
