(* ===== verification/SecretVault.thy ===== *)
theory SecretVault
  imports Vault
begin

text \<open>
  The vault of a tenant's secrets (\<open>secrets-vault/secrets-vault.service.ts\<close>): creating, deleting, rotating and reading secrets.
  Abstractly the vault is a map from a tenant and the name of a secret to its value; the last section shows that every
  operation is an operation on this map, and that rotation leaves it alone. The unique index of the table, which the
  repository does not define, is the parameter \<open>clash\<close>; \<open>ivs\<close> gives the random bytes of the \<open>n\<close>-th sealing.
\<close>

subsection \<open>The operations\<close>

record secret_input =
  xi_key :: string
  xi_displayName :: string
  xi_purpose :: string
  xi_value :: string
  xi_metadata :: json

definition list_secrets :: "uuid \<Rightarrow> db \<Rightarrow> (uuid \<times> string \<times> string \<times> nat) list" where
  "list_secrets tenant s =
     map (\<lambda>x. (tx_id x, tx_key x, tx_keyId x, tx_version x)) (sort_key tx_displayName (select (\<lambda>x. tx_tenant x = tenant) (tenantSecrets s)))"

definition forbidden_properties :: "string list" where
  "forbidden_properties = map (\<lambda>w. [CHR 0x22] @ w @ [CHR 0x22])
     [''secret'', ''token'', ''password'', ''apikey'', ''accesskey'', ''credential'', ''privatekey'']"

definition names_a_secret :: "string \<Rightarrow> bool" where
  "names_a_secret t \<longleftrightarrow> list_ex (\<lambda>w. contains w (js_lower t)) forbidden_properties"

definition secret_row :: "uuid \<Rightarrow> uuid \<Rightarrow> uuid \<Rightarrow> secret_input \<Rightarrow> string \<times> string \<Rightarrow> tenant_secret" where
  "secret_row i tenant actor input sealed =
     \<lparr> tx_id = i, tx_tenant = tenant, tx_key = xi_key input, tx_displayName = js_trim (xi_displayName input), tx_purpose = js_trim (xi_purpose input),
       tx_encrypted = fst sealed, tx_keyId = snd sealed, tx_metadata = xi_metadata input, tx_version = 1, tx_updatedBy = actor, tx_rotatedAt = None \<rparr>"

definition create_secret ::
  "crypto \<Rightarrow> settings \<Rightarrow> bytes \<Rightarrow> (tenant_secret list \<Rightarrow> bool) \<Rightarrow> time \<Rightarrow> uuid \<Rightarrow> uuid \<Rightarrow> secret_input \<Rightarrow> audit_context
   \<Rightarrow> (db, tenant_secret) operation" where
  "create_secret c cfg iv clash now tenant actor input ctx s =
     (if 4096 < length (cy_render c (xi_metadata input)) then (Inl (BadRequest ''Secret metadata exceeds the 4 KB limit''), s)
      else if length (js_trim (xi_displayName input)) < 2 \<or> length (js_trim (xi_purpose input)) < 2
      then (Inl (BadRequest ''Display name and purpose must contain at least two non-space characters''), s)
      else if names_a_secret (cy_render c (xi_metadata input)) then (Inl (BadRequest ''Secret values must not be stored in metadata''), s)
      else (case vault_encrypt c cfg iv (xi_value input) of
              Inl e \<Rightarrow> (Inl e, s)
            | Inr sealed \<Rightarrow>
                (let row = secret_row (new_uuid s) tenant actor input sealed in
                 if clash (insert_row row (tenantSecrets s)) then (Inl (Conflict ''A secret with this key already exists in the tenant vault''), s)
                 else (Inr row, insert_audit now tenant actor ''TENANT_SECRET_CREATED'' ''tenant_secret'' (Some (tx_id row)) ctx
                        (JObj [(''secretKey'', JStr (xi_key input)), (''purpose'', JStr (xi_purpose input)), (''encryptionKeyId'', JStr (snd sealed))])
                        (s\<lparr> next_id := next_id s + 1, tenantSecrets := insert_row row (tenantSecrets s) \<rparr>)))))"

definition is_secret :: "uuid \<Rightarrow> uuid \<Rightarrow> tenant_secret \<Rightarrow> bool" where
  "is_secret tenant i x \<longleftrightarrow> tx_tenant x = tenant \<and> tx_id x = i"

definition delete_secret :: "time \<Rightarrow> uuid \<Rightarrow> uuid \<Rightarrow> uuid \<Rightarrow> audit_context \<Rightarrow> (db, uuid) operation" where
  "delete_secret now tenant actor i ctx s =
     (case select_one (is_secret tenant i) (tenantSecrets s) of
        None \<Rightarrow> (Inl (NotFound ''Secret not found in this tenant vault''), s)
      | Some x \<Rightarrow> (Inr i, insert_audit now tenant actor ''TENANT_SECRET_DELETED'' ''tenant_secret'' (Some i) ctx
            (JObj [(''secretKey'', JStr (tx_key x)), (''displayName'', JStr (tx_displayName x))])
            (s\<lparr> tenantSecrets := delete_where (is_secret tenant i) (tenantSecrets s) \<rparr>)))"

definition reseal :: "time \<Rightarrow> uuid \<Rightarrow> string \<times> string \<Rightarrow> tenant_secret \<Rightarrow> tenant_secret" where
  "reseal now actor sealed x = x\<lparr> tx_encrypted := fst sealed, tx_keyId := snd sealed, tx_version := tx_version x + 1, tx_updatedBy := actor,
     tx_rotatedAt := Some now \<rparr>"

text \<open>Opening a secret and sealing it again.\<close>

definition rotate_row :: "crypto \<Rightarrow> settings \<Rightarrow> bytes \<Rightarrow> time \<Rightarrow> uuid \<Rightarrow> uuid \<Rightarrow> tenant_secret \<Rightarrow> (db, string) operation" where
  "rotate_row c cfg iv now tenant actor x s =
     (case vault_decrypt c cfg (tx_encrypted x) of
        Inl e \<Rightarrow> (Inl e, s)
      | Inr plain \<Rightarrow>
          (case vault_encrypt c cfg iv plain of
             Inl e \<Rightarrow> (Inl e, s)
           | Inr sealed \<Rightarrow> (Inr (snd sealed), s\<lparr> tenantSecrets := update_where (is_secret tenant (tx_id x)) (reseal now actor sealed) (tenantSecrets s) \<rparr>)))"

text \<open>The loop of \<open>rotateAll\<close>, with the numbers of rotated and skipped secrets.\<close>

fun rotate_rows ::
  "crypto \<Rightarrow> settings \<Rightarrow> (nat \<Rightarrow> bytes) \<Rightarrow> time \<Rightarrow> uuid \<Rightarrow> uuid \<Rightarrow> string \<Rightarrow> tenant_secret list \<Rightarrow> nat \<Rightarrow> nat \<Rightarrow> (db, nat \<times> nat) operation" where
  "rotate_rows c cfg ivs now tenant actor active [] rotated skipped s = (Inr (rotated, skipped), s)"
| "rotate_rows c cfg ivs now tenant actor active (x # xs) rotated skipped s =
     (if tx_keyId x = active then rotate_rows c cfg ivs now tenant actor active xs rotated (skipped + 1) s
      else (case rotate_row c cfg (ivs rotated) now tenant actor x s of
              (Inl e, s1) \<Rightarrow> (Inl e, s1)
            | (Inr _, s1) \<Rightarrow> rotate_rows c cfg ivs now tenant actor active xs (rotated + 1) skipped s1))"

definition rotate_all ::
  "crypto \<Rightarrow> settings \<Rightarrow> (nat \<Rightarrow> bytes) \<Rightarrow> time \<Rightarrow> uuid \<Rightarrow> uuid \<Rightarrow> audit_context \<Rightarrow> (db, nat \<times> nat) operation" where
  "rotate_all c cfg ivs now tenant actor ctx s =
     (case vault_active_key c cfg of
        Inl e \<Rightarrow> (Inl e, s)
      | Inr active \<Rightarrow>
          transaction (\<lambda>s.
            case rotate_rows c cfg ivs now tenant actor active (sort_key tx_id (select (\<lambda>x. tx_tenant x = tenant) (tenantSecrets s))) 0 0 s of
              (Inl e, s1) \<Rightarrow> (Inl e, s1)
            | (Inr n, s1) \<Rightarrow> (Inr n, insert_audit now tenant actor ''TENANT_SECRET_VAULT_ROTATED'' ''tenant_secret_vault'' None ctx
                (JObj [(''rotatedCount'', JNum (of_nat (fst n))), (''skippedCount'', JNum (of_nat (snd n))), (''activeKeyId'', JStr active)]) s1)) s)"

text \<open>\<open>rotateOne\<close>: whether the secret was rotated, and the key it is sealed under now.\<close>

definition rotate_one ::
  "crypto \<Rightarrow> settings \<Rightarrow> bytes \<Rightarrow> time \<Rightarrow> uuid \<Rightarrow> uuid \<Rightarrow> uuid \<Rightarrow> audit_context \<Rightarrow> (db, bool \<times> string) operation" where
  "rotate_one c cfg iv now tenant actor i ctx s =
     (case vault_active_key c cfg of
        Inl e \<Rightarrow> (Inl e, s)
      | Inr active \<Rightarrow>
          transaction (\<lambda>s.
            case select_one (is_secret tenant i) (tenantSecrets s) of
              None \<Rightarrow> (Inl (NotFound ''Secret not found in this tenant vault''), s)
            | Some x \<Rightarrow>
                if tx_keyId x = active then (Inr (False, active), s)
                else (case rotate_row c cfg iv now tenant actor x s of
                        (Inl e, s1) \<Rightarrow> (Inl e, s1)
                      | (Inr k, s1) \<Rightarrow> (Inr (True, k), insert_audit now tenant actor ''TENANT_SECRET_ROTATED'' ''tenant_secret'' (Some i) ctx
                          (JObj [(''secretKey'', JStr (tx_key x)), (''encryptionKeyId'', JStr k)]) s1))) s)"

definition get_secret_value :: "crypto \<Rightarrow> settings \<Rightarrow> uuid \<Rightarrow> string \<Rightarrow> db \<Rightarrow> string result" where
  "get_secret_value c cfg tenant k s =
     (case select_one (\<lambda>x. tx_tenant x = tenant \<and> tx_key x = k) (tenantSecrets s) of
        None \<Rightarrow> Inl (NotFound ''Secret not found in this tenant vault'')
      | Some x \<Rightarrow> vault_decrypt c cfg (tx_encrypted x))"

subsection \<open>The vault as a map\<close>

definition secret_name :: "tenant_secret \<Rightarrow> uuid \<times> string" where
  "secret_name x = (tx_tenant x, tx_key x)"

definition vault_map :: "crypto \<Rightarrow> settings \<Rightarrow> db \<Rightarrow> (uuid \<times> string) \<Rightarrow> string result option" where
  "vault_map c cfg s n = map_option (\<lambda>x. vault_decrypt c cfg (tx_encrypted x)) (select_one (\<lambda>x. secret_name x = n) (tenantSecrets s))"

text \<open>Names and ids are unique, and the key in the column is the key of the envelope.\<close>

definition vault_ok :: "db \<Rightarrow> bool" where
  "vault_ok s \<longleftrightarrow> distinct (map secret_name (tenantSecrets s)) \<and> distinct (map tx_id (tenantSecrets s)) \<and> fresh_ids s (map tx_id (tenantSecrets s)) \<and>
     list_all (\<lambda>x. key_of (tx_encrypted x) = tx_keyId x) (tenantSecrets s)"

lemma vault_map_cong: "tenantSecrets s' = tenantSecrets s \<Longrightarrow> vault_map c cfg s' = vault_map c cfg s"
  by (simp add: vault_map_def fun_eq_iff)

lemma vault_ok_more: "vault_ok s \<Longrightarrow> tenantSecrets s' = tenantSecrets s \<Longrightarrow> next_id s \<le> next_id s' \<Longrightarrow> vault_ok s'"
  by (auto simp: vault_ok_def intro: fresh_ids_mono)

lemma get_secret_value_map:
  "get_secret_value c cfg tenant k s = (case vault_map c cfg s (tenant, k) of None \<Rightarrow> Inl (NotFound ''Secret not found in this tenant vault'') | Some r \<Rightarrow> r)"
  by (simp add: get_secret_value_def vault_map_def secret_name_def split: option.splits)

lemma reseal_frame [simp]: "secret_name (reseal now actor sealed x) = secret_name x" "tx_id (reseal now actor sealed x) = tx_id x"
  "tx_tenant (reseal now actor sealed x) = tx_tenant x"
  by (simp_all add: reseal_def secret_name_def)

lemma vault_sealed:
  assumes "crypto_ok c" and "length iv = 12" and "vault_encrypt c cfg iv plain = Inr sealed"
  shows "vault_decrypt c cfg (fst sealed) = Inr plain \<and> vault_active_key c cfg = Inr (snd sealed) \<and> key_of (fst sealed) = snd sealed"
proof -
  obtain i ks where i: "vault_active_key c cfg = Inr i" "vault_keys c cfg = Inr ks" and sealed: "sealed = (envelope c i (the (map_of ks i)) iv plain, i)"
    using assms(3) unfolding vault_encrypt_def by (auto split: sum.splits if_splits)
  have id: "key_of (fst sealed) = snd sealed"
    using envelope_parts [OF assms(1), of i "the (map_of ks i)" iv plain] vault_active_key_known [OF i] by (simp add: key_of_def sealed)
  have "vault_envelope c cfg iv plain = Inr (fst sealed)" using assms(3) by (simp add: vault_envelope_def)
  then have "vault_decrypt c cfg (fst sealed) = Inr plain" using assms(1,2) by (intro vault_box.unseal_same_settings) simp_all
  moreover have "vault_active_key c cfg = Inr (snd sealed)" using i(1) by (simp add: sealed)
  ultimately show ?thesis using id by blast
qed

text \<open>What a rotation of the secrets of a tenant may change.\<close>

definition rotation :: "crypto \<Rightarrow> settings \<Rightarrow> uuid \<Rightarrow> db \<Rightarrow> db \<Rightarrow> bool" where
  "rotation c cfg tenant s s' \<longleftrightarrow> vault_map c cfg s' = vault_map c cfg s \<and> (vault_ok s \<longrightarrow> vault_ok s') \<and>
     filter (\<lambda>x. tx_tenant x \<noteq> tenant) (tenantSecrets s') = filter (\<lambda>x. tx_tenant x \<noteq> tenant) (tenantSecrets s)"

lemma rotation_refl: "rotation c cfg tenant s s"
  by (simp add: rotation_def)

lemma rotation_trans: "rotation c cfg tenant s t \<Longrightarrow> rotation c cfg tenant t u \<Longrightarrow> rotation c cfg tenant s u"
  by (simp add: rotation_def)

lemma rotation_audit: "rotation c cfg tenant s t \<Longrightarrow> rotation c cfg tenant s (insert_audit now tenant actor action resource i ctx metadata t)"
  using vault_ok_more [of t "insert_audit now tenant actor action resource i ctx metadata t"]
  by (auto simp: rotation_def vault_map_cong [of "insert_audit now tenant actor action resource i ctx metadata t" t])

lemma filter_update_where_other: "(\<And>x. P x \<Longrightarrow> \<not> Q x) \<Longrightarrow> (\<And>x. P x \<Longrightarrow> \<not> Q (f x)) \<Longrightarrow> filter Q (update_where P f t) = filter Q t"
  by (induction t) (auto simp: update_where_def)

lemma vault_map_reseal:
  assumes ok: "vault_ok s" and x: "x \<in> set (tenantSecrets s)" and same: "vault_decrypt c cfg (fst sealed) = vault_decrypt c cfg (tx_encrypted x)"
  shows "vault_map c cfg (s\<lparr> tenantSecrets := update_where (is_secret tenant (tx_id x)) (reseal now actor sealed) (tenantSecrets s) \<rparr>) = vault_map c cfg s"
proof
  fix n
  have step: "select_one (\<lambda>y. secret_name y = n) (update_where (is_secret tenant (tx_id x)) (reseal now actor sealed) (tenantSecrets s)) =
      map_option (\<lambda>y. if is_secret tenant (tx_id x) y then reseal now actor sealed y else y) (select_one (\<lambda>y. secret_name y = n) (tenantSecrets s))"
    by (rule select_one_update_where) simp
  show "vault_map c cfg (s\<lparr> tenantSecrets := update_where (is_secret tenant (tx_id x)) (reseal now actor sealed) (tenantSecrets s) \<rparr>) n = vault_map c cfg s n"
  proof (cases "select_one (\<lambda>y. secret_name y = n) (tenantSecrets s)")
    case None
    then show ?thesis by (simp add: vault_map_def step)
  next
    case (Some y)
    then have "y \<in> set (tenantSecrets s)" using select_one_Some by fast
    then have "is_secret tenant (tx_id x) y \<Longrightarrow> y = x"
      using ok x distinct_key_unique [of tx_id "tenantSecrets s" y x] by (simp add: vault_ok_def is_secret_def)
    then have "vault_decrypt c cfg (tx_encrypted (if is_secret tenant (tx_id x) y then reseal now actor sealed y else y)) = vault_decrypt c cfg (tx_encrypted y)"
      using same by (cases "is_secret tenant (tx_id x) y") (simp_all add: reseal_def)
    then show ?thesis using Some by (simp add: vault_map_def step)
  qed
qed

lemma vault_ok_reseal:
  assumes "vault_ok s" and "key_of (fst sealed) = snd sealed"
  shows "vault_ok (s\<lparr> tenantSecrets := update_where P (reseal now actor sealed) (tenantSecrets s) \<rparr>)"
proof -
  have "key_of (tx_encrypted (reseal now actor sealed x)) = tx_keyId (reseal now actor sealed x)" for x using assms(2) by (simp add: reseal_def)
  then have "list_all (\<lambda>x. key_of (tx_encrypted x) = tx_keyId x) (update_where P (reseal now actor sealed) (tenantSecrets s))"
    using assms(1) by (auto simp: vault_ok_def update_where_def list_all_iff)
  then show ?thesis using assms(1) by (simp add: vault_ok_def map_update_where fresh_ids_def)
qed

lemma rotate_row_rotates:
  assumes "crypto_ok c" and "length iv = 12" and "vault_ok s" and "x \<in> set (tenantSecrets s)"
    and r: "rotate_row c cfg iv now tenant actor x s = (Inr k, s')"
  shows "rotation c cfg tenant s s' \<and> vault_ok s' \<and> vault_active_key c cfg = Inr k \<and>
    (\<exists>sealed. snd sealed = k \<and> tenantSecrets s' = update_where (is_secret tenant (tx_id x)) (reseal now actor sealed) (tenantSecrets s))"
proof -
  obtain plain sealed where d: "vault_decrypt c cfg (tx_encrypted x) = Inr plain" and e: "vault_encrypt c cfg iv plain = Inr sealed"
    and k: "k = snd sealed" and s': "s' = s\<lparr> tenantSecrets := update_where (is_secret tenant (tx_id x)) (reseal now actor sealed) (tenantSecrets s) \<rparr>"
    using r unfolding rotate_row_def by (auto split: sum.splits)
  have sealed: "vault_decrypt c cfg (fst sealed) = Inr plain" "vault_active_key c cfg = Inr (snd sealed)" "key_of (fst sealed) = snd sealed"
    using vault_sealed [OF assms(1,2) e] by simp_all
  have "vault_map c cfg s' = vault_map c cfg s" unfolding s' by (rule vault_map_reseal) (use assms(3,4) sealed d in simp_all)
  moreover have "vault_ok s'" unfolding s' using assms(3) sealed(3) by (rule vault_ok_reseal)
  moreover have "filter (\<lambda>y. tx_tenant y \<noteq> tenant) (tenantSecrets s') = filter (\<lambda>y. tx_tenant y \<noteq> tenant) (tenantSecrets s)"
    unfolding s' by (simp, rule filter_update_where_other) (simp_all add: is_secret_def)
  moreover have "\<exists>sealed. snd sealed = k \<and> tenantSecrets s' = update_where (is_secret tenant (tx_id x)) (reseal now actor sealed) (tenantSecrets s)"
    by (rule exI [of _ sealed]) (simp add: k s')
  moreover have "vault_active_key c cfg = Inr k" using sealed(2) k by simp
  ultimately show ?thesis unfolding rotation_def by blast
qed

definition sealed_under :: "uuid \<Rightarrow> string \<Rightarrow> uuid set \<Rightarrow> db \<Rightarrow> bool" where
  "sealed_under tenant active rest s \<longleftrightarrow> list_all (\<lambda>x. tx_tenant x = tenant \<longrightarrow> tx_id x \<notin> rest \<longrightarrow> tx_keyId x = active) (tenantSecrets s)"

lemma sealed_under_skip:
  assumes "vault_ok s" and x: "x \<in> set (tenantSecrets s)" and "tx_keyId x = active" and "sealed_under tenant active (insert (tx_id x) rest) s"
  shows "sealed_under tenant active rest s"
  unfolding sealed_under_def list_all_iff
proof (intro ballI impI)
  fix y assume y: "y \<in> set (tenantSecrets s)" "tx_tenant y = tenant" "tx_id y \<notin> rest"
  show "tx_keyId y = active"
  proof (cases "tx_id y = tx_id x")
    case True
    then have "y = x" using assms(1) y x distinct_key_unique [of tx_id "tenantSecrets s" y x] by (simp add: vault_ok_def)
    then show ?thesis using assms(3) by simp
  next
    case False
    then show ?thesis using assms(4) y by (simp add: sealed_under_def list_all_iff)
  qed
qed

lemma sealed_under_reseal:
  assumes "sealed_under tenant (snd sealed) (insert i rest) s"
    and t: "tenantSecrets s' = update_where (is_secret tenant i) (reseal now actor sealed) (tenantSecrets s)"
  shows "sealed_under tenant (snd sealed) rest s'"
  unfolding sealed_under_def list_all_iff
proof (intro ballI impI)
  fix y assume y: "y \<in> set (tenantSecrets s')" "tx_tenant y = tenant" "tx_id y \<notin> rest"
  obtain q where q: "q \<in> set (tenantSecrets s)" "y = (if is_secret tenant i q then reseal now actor sealed q else q)"
    using y(1) unfolding t in_update_where by blast
  show "tx_keyId y = snd sealed"
  proof (cases "is_secret tenant i q")
    case True
    then show ?thesis using q(2) by (simp add: reseal_def)
  next
    case False
    then have "y = q" using q(2) by simp
    then show ?thesis using False q(1) y(2,3) assms(1) by (simp add: sealed_under_def list_all_iff is_secret_def)
  qed
qed

lemma reseal_keeps_others:
  assumes "set xs \<subseteq> set t" and "i \<notin> tx_id ` set xs"
  shows "set xs \<subseteq> set (update_where (is_secret tenant i) (reseal now actor sealed) t)"
proof
  fix y assume y: "y \<in> set xs"
  then have "tx_id y \<noteq> i" using assms(2) imageI [OF y, of tx_id] by metis
  then show "y \<in> set (update_where (is_secret tenant i) (reseal now actor sealed) t)"
    using y assms(1) unfolding in_update_where by (intro bexI [of _ y]) (auto simp: is_secret_def)
qed

lemma rotate_rows_rotates:
  assumes "crypto_ok c" and "\<And>n. length (ivs n) = 12" and "vault_active_key c cfg = Inr active"
    and "vault_ok s" and "set xs \<subseteq> set (tenantSecrets s)" and "distinct (map tx_id xs)" and "sealed_under tenant active (tx_id ` set xs) s"
    and "rotate_rows c cfg ivs now tenant actor active xs rotated skipped s = (Inr n, s')"
  shows "rotation c cfg tenant s s' \<and> sealed_under tenant active {} s'"
  using assms(4-)
proof (induction xs arbitrary: s rotated skipped)
  case Nil
  then show ?case by (simp add: rotation_refl)
next
  case (Cons x xs)
  have x: "x \<in> set (tenantSecrets s)" using Cons.prems(2) by simp
  have under: "sealed_under tenant active (insert (tx_id x) (tx_id ` set xs)) s" using Cons.prems(4) by simp
  show ?case
  proof (cases "tx_keyId x = active")
    case True
    have "sealed_under tenant active (tx_id ` set xs) s" by (rule sealed_under_skip [OF Cons.prems(1) x True under])
    then show ?thesis using Cons.IH [of s rotated "skipped + 1"] Cons.prems True by simp
  next
    case False
    obtain r s1 where step: "rotate_row c cfg (ivs rotated) now tenant actor x s = (r, s1)" by fastforce
    then obtain k where k: "r = Inr k" using Cons.prems(5) False by (cases r) simp_all
    note rr = rotate_row_rotates [OF assms(1) assms(2) [of rotated] Cons.prems(1) x step [unfolded k]]
    then obtain sealed where sealed: "snd sealed = active"
      and t: "tenantSecrets s1 = update_where (is_secret tenant (tx_id x)) (reseal now actor sealed) (tenantSecrets s)"
      using assms(3) by auto
    have "set xs \<subseteq> set (tenantSecrets s1)" unfolding t by (rule reseal_keeps_others) (use Cons.prems(2,3) in auto)
    moreover have "sealed_under tenant active (tx_id ` set xs) s1" using sealed_under_reseal [OF under [folded sealed] t] sealed by simp
    ultimately have "rotation c cfg tenant s1 s' \<and> sealed_under tenant active {} s'"
      using Cons.IH [of s1 "rotated + 1" skipped] Cons.prems(3,5) rr step k False by simp
    then show ?thesis using rr rotation_trans by blast
  qed
qed

lemma vault_map_insert:
  assumes "\<not> exists_row (\<lambda>x. secret_name x = secret_name row) (tenantSecrets s)" and "tenantSecrets s' = insert_row row (tenantSecrets s)"
  shows "vault_map c cfg s' = (vault_map c cfg s)(secret_name row \<mapsto> vault_decrypt c cfg (tx_encrypted row))"
proof
  fix n
  have "select_one (\<lambda>x. secret_name x = secret_name row) (tenantSecrets s) = None"
    using assms(1) by (simp add: select_one_None exists_row_iff)
  then show "vault_map c cfg s' n = ((vault_map c cfg s)(secret_name row \<mapsto> vault_decrypt c cfg (tx_encrypted row))) n"
    by (auto simp: vault_map_def assms(2) select_one_insert_row split: option.splits)
qed

lemma vault_map_delete:
  assumes ok: "vault_ok s" and x: "x \<in> set (tenantSecrets s)" and "tx_tenant x = tenant"
    and s': "tenantSecrets s' = delete_where (is_secret tenant (tx_id x)) (tenantSecrets s)"
  shows "vault_map c cfg s' = (vault_map c cfg s)(secret_name x := None)"
proof
  fix n
  have same: "is_secret tenant (tx_id x) y \<longleftrightarrow> y = x" "secret_name y = secret_name x \<longleftrightarrow> y = x" if "y \<in> set (tenantSecrets s)" for y
    using ok x that assms(3) distinct_key_unique [of tx_id "tenantSecrets s" y x] distinct_key_unique [of secret_name "tenantSecrets s" y x]
    by (auto simp: vault_ok_def is_secret_def)
  have gone: "tenantSecrets s' = filter (\<lambda>y. y \<noteq> x) (tenantSecrets s)"
    unfolding s' delete_where_def by (rule filter_cong) (simp_all add: same)
  have "find (\<lambda>y. secret_name y = n) (filter (\<lambda>y. y \<noteq> x) t) = (if n = secret_name x then None else find (\<lambda>y. secret_name y = n) t)"
    if "set t \<subseteq> set (tenantSecrets s)" for t
    using that by (induction t) (auto simp: same)
  then show "vault_map c cfg s' n = ((vault_map c cfg s)(secret_name x := None)) n"
    by (simp add: vault_map_def select_one_def gone)
qed

lemma vault_ok_insert:
  assumes "vault_ok s" and "\<not> exists_row (\<lambda>x. secret_name x = secret_name row) (tenantSecrets s)" and "tx_id row = new_uuid s"
    and "tenantSecrets s' = insert_row row (tenantSecrets s)" and "next_id s < next_id s'" and "key_of (tx_encrypted row) = tx_keyId row"
  shows "vault_ok s'"
proof -
  have "secret_name row \<notin> set (map secret_name (tenantSecrets s))" using assms(2) by (auto simp: exists_row_iff)
  moreover have "new_uuid s \<notin> set (map tx_id (tenantSecrets s))" using assms(1) by (intro fresh_ids_new) (simp add: vault_ok_def)
  moreover have "fresh_ids s' (map tx_id (tenantSecrets s) @ [new_uuid s])" using assms(1,5) by (intro fresh_ids_extend) (simp_all add: vault_ok_def)
  ultimately show ?thesis using assms(1,3,4,6) by (simp add: vault_ok_def insert_row_def)
qed

lemma vault_ok_delete: "vault_ok s \<Longrightarrow> vault_ok (s\<lparr> tenantSecrets := delete_where P (tenantSecrets s) \<rparr>)"
  by (auto simp: vault_ok_def delete_where_def distinct_map_filter fresh_ids_def list_all_iff)

text \<open>The abstract operations.\<close>

definition duplicate_names :: "tenant_secret list \<Rightarrow> bool" where
  "duplicate_names t \<longleftrightarrow> \<not> distinct (map secret_name t)"

lemma create_secret_refines:
  assumes "crypto_ok c" and "length iv = 12" and "vault_ok s"
    and "create_secret c cfg iv duplicate_names now tenant actor input ctx s = (r, s')"
  shows "case r of
      Inl _ \<Rightarrow> s' = s
    | Inr x \<Rightarrow> vault_ok s' \<and> vault_map c cfg s (tenant, xi_key input) = None \<and>
        vault_map c cfg s' = (vault_map c cfg s)((tenant, xi_key input) \<mapsto> Inr (xi_value input))"
proof (cases r)
  case (Inl e)
  then show ?thesis using assms(4) by (auto simp: create_secret_def Let_def split: if_splits sum.splits)
next
  case (Inr x)
  define row where "row sealed = secret_row (new_uuid s) tenant actor input sealed" for sealed
  obtain sealed where e: "vault_encrypt c cfg iv (xi_value input) = Inr sealed" and d: "\<not> duplicate_names (insert_row (row sealed) (tenantSecrets s))"
    and t: "tenantSecrets s' = insert_row (row sealed) (tenantSecrets s)" and n: "next_id s' = next_id s + 1 + 1"
    using assms(4) Inr unfolding create_secret_def Let_def row_def by (auto split: if_splits sum.splits)
  have name: "secret_name (row sealed) = (tenant, xi_key input)" by (simp add: row_def secret_row_def secret_name_def)
  have new: "\<not> exists_row (\<lambda>x. secret_name x = secret_name (row sealed)) (tenantSecrets s)"
  proof -
    have "secret_name (row sealed) \<notin> secret_name ` set (tenantSecrets s)" using d by (simp add: duplicate_names_def insert_row_def)
    then show ?thesis unfolding exists_row_iff by (metis imageI)
  qed
  have "tx_encrypted (row sealed) = fst sealed" by (simp add: row_def secret_row_def)
  then have "vault_decrypt c cfg (tx_encrypted (row sealed)) = Inr (xi_value input)" using vault_sealed [OF assms(1,2) e] by simp
  then have "vault_map c cfg s' = (vault_map c cfg s)((tenant, xi_key input) \<mapsto> Inr (xi_value input))"
    using vault_map_insert [OF new t, of c cfg] name by simp
  moreover have "vault_map c cfg s (tenant, xi_key input) = None"
    using new name by (simp add: vault_map_def select_one_None exists_row_iff)
  moreover have "vault_ok s'"
    by (rule vault_ok_insert [OF assms(3) new _ t]) (use vault_sealed [OF assms(1,2) e] in \<open>simp_all add: n row_def secret_row_def\<close>)
  ultimately show ?thesis using Inr by simp
qed

lemma delete_secret_refines:
  assumes "vault_ok s" and "delete_secret now tenant actor i ctx s = (r, s')"
  shows "case r of
      Inl _ \<Rightarrow> s' = s
    | Inr _ \<Rightarrow> vault_ok s' \<and> (\<exists>n. fst n = tenant \<and> vault_map c cfg s n \<noteq> None \<and> vault_map c cfg s' = (vault_map c cfg s)(n := None))"
proof (cases "select_one (is_secret tenant i) (tenantSecrets s)")
  case None
  then show ?thesis using assms(2) by (auto simp: delete_secret_def)
next
  case (Some x)
  then have x: "x \<in> set (tenantSecrets s)" "tx_tenant x = tenant" "tx_id x = i"
    using select_one_Some [of "is_secret tenant i" "tenantSecrets s" x] by (simp_all add: is_secret_def)
  let ?s1 = "s\<lparr> tenantSecrets := delete_where (is_secret tenant i) (tenantSecrets s) \<rparr>"
  have r: "r = Inr i" and t: "tenantSecrets s' = tenantSecrets ?s1" and n: "next_id s' = next_id s + 1"
    using assms(2) Some by (auto simp: delete_secret_def)
  have "vault_map c cfg s' = (vault_map c cfg s)(secret_name x := None)"
    by (rule vault_map_delete [OF assms(1) x(1,2)]) (simp add: t x(3))
  moreover have "vault_ok s'" by (rule vault_ok_more [OF vault_ok_delete [OF assms(1)] t]) (simp add: n)
  moreover have "vault_map c cfg s (secret_name x) \<noteq> None" using x by (auto simp: vault_map_def select_one_None)
  ultimately show ?thesis using x(2) unfolding r by (auto simp: secret_name_def)
qed

lemma rotate_all_refines:
  assumes "crypto_ok c" and "\<And>n. length (ivs n) = 12" and "vault_ok s" and "rotate_all c cfg ivs now tenant actor ctx s = (r, s')"
  shows "case r of
      Inl _ \<Rightarrow> s' = s
    | Inr _ \<Rightarrow> vault_ok s' \<and> vault_map c cfg s' = vault_map c cfg s \<and>
        (\<exists>active. vault_active_key c cfg = Inr active \<and> sealed_under tenant active {} s')"
proof (cases r)
  case (Inl e)
  then show ?thesis using assms(4) by (auto simp: rotate_all_def split: sum.splits dest: transaction_error)
next
  case (Inr n)
  let ?xs = "\<lambda>t. sort_key tx_id (select (\<lambda>x. tx_tenant x = tenant) t)"
  obtain active s1 where a: "vault_active_key c cfg = Inr active"
    and rows: "rotate_rows c cfg ivs now tenant actor active (?xs (tenantSecrets s)) 0 0 s = (Inr n, s1)"
    and t: "tenantSecrets s' = tenantSecrets s1" "next_id s1 \<le> next_id s'"
    using assms(4) Inr unfolding rotate_all_def by (auto simp: transaction_Inr split: sum.splits prod.splits)
  have d: "distinct (map tx_id (?xs (tenantSecrets s)))"
    using assms(3) by (simp add: vault_ok_def select_def distinct_map distinct_filter inj_on_def)
  have "rotation c cfg tenant s s1 \<and> sealed_under tenant active {} s1"
    by (rule rotate_rows_rotates [OF assms(1,2) a assms(3) _ d _ rows]) (auto simp: sealed_under_def list_all_iff)
  then have "vault_ok s'" "vault_map c cfg s' = vault_map c cfg s" "sealed_under tenant active {} s'"
    using assms(3) vault_ok_more [OF _ t] vault_map_cong [OF t(1), of c cfg] by (auto simp: rotation_def sealed_under_def t(1))
  then show ?thesis using Inr a by simp
qed

lemma rotate_one_refines:
  assumes "crypto_ok c" and "length iv = 12" and "vault_ok s" and "rotate_one c cfg iv now tenant actor i ctx s = (r, s')"
  shows "case r of Inl _ \<Rightarrow> s' = s | Inr _ \<Rightarrow> vault_ok s' \<and> vault_map c cfg s' = vault_map c cfg s"
proof (cases r)
  case (Inl e)
  then show ?thesis using assms(4) by (auto simp: rotate_one_def split: sum.splits dest: transaction_error)
next
  case (Inr n)
  obtain active x where a: "vault_active_key c cfg = Inr active" and x: "select_one (is_secret tenant i) (tenantSecrets s) = Some x"
    and cases: "s' = s \<or> (\<exists>k s1. rotate_row c cfg iv now tenant actor x s = (Inr k, s1) \<and> tenantSecrets s' = tenantSecrets s1 \<and> next_id s1 \<le> next_id s')"
    using assms(4) Inr unfolding rotate_one_def
    by (auto simp: transaction_Inr split: sum.splits prod.splits option.splits if_splits)
  from cases show ?thesis
  proof (elim disjE exE conjE)
    fix k s1 assume row: "rotate_row c cfg iv now tenant actor x s = (Inr k, s1)" and t: "tenantSecrets s' = tenantSecrets s1" "next_id s1 \<le> next_id s'"
    have "x \<in> set (tenantSecrets s)" using select_one_Some [OF x] by simp
    then have "rotation c cfg tenant s s1 \<and> vault_ok s1" using rotate_row_rotates [OF assms(1-3) _ row] by blast
    then show ?thesis using Inr vault_ok_more [OF _ t] vault_map_cong [OF t(1), of c cfg] by (simp add: rotation_def)
  qed (use Inr assms(3) in simp)
qed

subsection \<open>The properties\<close>

datatype vault_request =
    Create_secret secret_input
  | Delete_secret uuid
  | Rotate_all
  | Rotate_one uuid

definition forget :: "'a result \<times> db \<Rightarrow> unit result \<times> db" where
  "forget x = (map_sum id (\<lambda>_. ()) (fst x), snd x)"

definition vault_request ::
  "crypto \<Rightarrow> settings \<Rightarrow> (nat \<Rightarrow> bytes) \<Rightarrow> time \<Rightarrow> uuid \<Rightarrow> uuid \<Rightarrow> audit_context \<Rightarrow> vault_request \<Rightarrow> (db, unit) operation" where
  "vault_request c cfg ivs now tenant actor ctx req s =
     (case req of
        Create_secret input \<Rightarrow> forget (create_secret c cfg (ivs 0) duplicate_names now tenant actor input ctx s)
      | Delete_secret i \<Rightarrow> forget (delete_secret now tenant actor i ctx s)
      | Rotate_all \<Rightarrow> forget (rotate_all c cfg ivs now tenant actor ctx s)
      | Rotate_one i \<Rightarrow> forget (rotate_one c cfg (ivs 0) now tenant actor i ctx s))"

text \<open>What the map may become.\<close>

definition map_request :: "uuid \<Rightarrow> vault_request \<Rightarrow> (uuid \<times> string \<Rightarrow> string result option) \<Rightarrow> (uuid \<times> string \<Rightarrow> string result option) \<Rightarrow> bool" where
  "map_request tenant req m m' =
     (case req of
        Create_secret input \<Rightarrow> m (tenant, xi_key input) = None \<and> m' = m((tenant, xi_key input) \<mapsto> Inr (xi_value input))
      | Delete_secret i \<Rightarrow> (\<exists>n. fst n = tenant \<and> m n \<noteq> None \<and> m' = m(n := None))
      | _ \<Rightarrow> m' = m)"

lemma forget_Inl: "forget x = (Inl e, s') \<longleftrightarrow> x = (Inl e, s')"
  by (cases x, cases "fst x") (auto simp: forget_def)

lemma forget_Inr: "forget x = (Inr u, s') \<longleftrightarrow> (\<exists>y. x = (Inr y, s'))"
  by (cases x, cases "fst x") (auto simp: forget_def)

lemma vault_request_refines:
  assumes "crypto_ok c" and "\<And>n. length (ivs n) = 12" and "vault_ok s"
    and "vault_request c cfg ivs now tenant actor ctx req s = (r, s')"
  shows "case r of
      Inl _ \<Rightarrow> s' = s
    | Inr _ \<Rightarrow> vault_ok s' \<and> map_request tenant req (vault_map c cfg s) (vault_map c cfg s') \<and>
        (if req = Rotate_all then \<exists>active. vault_active_key c cfg = Inr active \<and> sealed_under tenant active {} s' else True)"
proof (cases req)
  case (Create_secret input)
  then show ?thesis
    using assms(4) create_secret_refines [OF assms(1) assms(2) [of 0] assms(3), of cfg now tenant actor input ctx]
    by (cases r) (fastforce simp: vault_request_def map_request_def forget_Inl forget_Inr)+
next
  case (Delete_secret i)
  then show ?thesis
    using assms(4) delete_secret_refines [OF assms(3), of now tenant actor i ctx _ _ c cfg]
    by (cases r) (fastforce simp: vault_request_def map_request_def forget_Inl forget_Inr)+
next
  case Rotate_all
  then show ?thesis
    using assms(4) rotate_all_refines [OF assms(1,2,3), where cfg = cfg and now = now and tenant = tenant and actor = actor and ctx = ctx]
    by (cases r) (fastforce simp: vault_request_def map_request_def forget_Inl forget_Inr)+
next
  case (Rotate_one i)
  then show ?thesis
    using assms(4) rotate_one_refines [OF assms(1) assms(2) [of 0] assms(3), of cfg now tenant actor i ctx]
    by (cases r) (fastforce simp: vault_request_def map_request_def forget_Inl forget_Inr)+
qed

text \<open>Only the key of its envelope opens a secret.\<close>

lemma vault_decrypt_key:
  assumes "vault_key c cfg (key_of p) = Some k" and "vault_key c cfg' (key_of p) = Some k"
  shows "vault_decrypt c cfg' p = vault_decrypt c cfg p"
  using assms by (auto simp: vault_decrypt_def vault_key_def key_of_def Let_def split: sum.splits)

lemma sealed_under_active:
  assumes "vault_active_key c cfg = Inr active" and "vault_ok s" and "sealed_under tenant active {} s"
    and "vault_key c cfg' active = vault_key c cfg active"
  shows "vault_map c cfg' s (tenant, k) = vault_map c cfg s (tenant, k)"
proof (cases "select_one (\<lambda>x. secret_name x = (tenant, k)) (tenantSecrets s)")
  case None
  then show ?thesis by (simp add: vault_map_def)
next
  case (Some x)
  then have "x \<in> set (tenantSecrets s)" "tx_tenant x = tenant"
    using select_one_Some [OF Some] by (simp_all add: secret_name_def)
  then have key: "key_of (tx_encrypted x) = active" using assms(2,3) by (auto simp: vault_ok_def sealed_under_def list_all_iff)
  obtain ks where ks: "vault_keys c cfg = Inr ks" using assms(1) by (cases "vault_keys c cfg") (simp_all add: vault_active_key_def)
  then obtain b where "vault_key c cfg active = Some b"
    using vault_active_key_known [OF assms(1) ks] by (auto simp: vault_key_def has_id_def split: option.splits)
  then have "vault_decrypt c cfg' (tx_encrypted x) = vault_decrypt c cfg (tx_encrypted x)" using assms(4) key by (intro vault_decrypt_key) simp_all
  then show ?thesis by (simp add: vault_map_def Some)
qed

text \<open>A cipher and encodings with the laws, to show that they can hold: nothing is encrypted, buffers are written in hexadecimal.\<close>

definition sample_crypto :: crypto where
  "sample_crypto = \<lparr> cy_seal = (\<lambda>key iv plain. (plain, replicate 16 0)),
     cy_open = (\<lambda>key iv tag ct. if tag = replicate 16 0 then Some ct else None), cy_encode = hex_encode, cy_decode = hex_decode,
     cy_utf8 = map of_char, cy_text = map (\<lambda>b. char_of (unat b)), cy_render = (\<lambda>_. ''{}''), cy_parse = (\<lambda>_. Some (JObj [])) \<rparr>"

lemma char_byte: "char_of (unat (of_char ch :: 8 word)) = ch"
proof -
  have "(of_char ch :: 8 word) = of_nat (of_char ch)" by (simp only: of_nat_of_char)
  then have "unat (of_char ch :: 8 word) = of_char ch mod 256" by (simp add: unat_of_nat del: of_nat_of_char)
  then show ?thesis by simp
qed

lemma sample_crypto_ok: "crypto_ok sample_crypto"
proof -
  have "\<not> is_hex (CHR ''.'')" by code_simp
  then have "CHR ''.'' \<notin> set (hex_encode b)" for b using hex_encode_chars by blast
  moreover have "hex_encode b = [] \<longleftrightarrow> b = []" for b using length_hex_encode [of b] by (metis length_0_conv mult_eq_0_iff zero_neq_numeral)
  moreover have "map (\<lambda>b. char_of (unat b)) (map of_char t :: bytes) = t" for t by (simp add: comp_def char_byte)
  ultimately show ?thesis by (simp add: crypto_ok_def sample_crypto_def hex_decode_encode)
qed

text \<open>C32: the vault is a map from the names of a tenant's secrets to their values, in spite of the encryption: creating a
  secret adds a value under a name that was free, deleting one removes it, and rotating the keys changes no value. After a rotation of
  all secrets the envelope of each of them is sealed under the active key, as its row says, so that they can be read as
  before under every configuration that still has this key, whichever others it drops. An operation that fails changes nothing at all.\<close>

theorem vault_refines_a_map:
  assumes "crypto_ok c" and "\<And>n. length (ivs n) = 12" and "vault_ok s"
  shows "case vault_request c cfg ivs now tenant actor ctx req s of
      (Inl _, s') \<Rightarrow> s' = s
    | (Inr _, s') \<Rightarrow> vault_ok s' \<and> map_request tenant req (vault_map c cfg s) (vault_map c cfg s') \<and>
        (if req = Rotate_all then \<exists>active. vault_active_key c cfg = Inr active \<and>
           list_all (\<lambda>x. tx_tenant x = tenant \<longrightarrow> key_of (tx_encrypted x) = active \<and> tx_keyId x = active) (tenantSecrets s') \<and>
           (\<forall>cfg' k. vault_key c cfg' active = vault_key c cfg active \<longrightarrow> vault_map c cfg' s' (tenant, k) = vault_map c cfg s (tenant, k))
         else True)"
proof (cases "vault_request c cfg ivs now tenant actor ctx req s")
  case (Pair r s')
  have map: "vault_map c cfg s' = vault_map c cfg s" if "map_request tenant Rotate_all (vault_map c cfg s) (vault_map c cfg s')"
    using that by (simp add: map_request_def)
  have keys: "list_all (\<lambda>x. tx_tenant x = tenant \<longrightarrow> key_of (tx_encrypted x) = active \<and> tx_keyId x = active) (tenantSecrets s')"
    if "vault_ok s'" "sealed_under tenant active {} s'" for active
    using that by (simp add: vault_ok_def sealed_under_def list_all_iff)
  show ?thesis
  proof (cases r)
    case (Inl e)
    then show ?thesis using vault_request_refines [OF assms Pair] by (simp add: Pair)
  next
    case (Inr u)
    note ran = vault_request_refines [OF assms Pair, unfolded Inr sum.case]
    show ?thesis
    proof (cases "req = Rotate_all")
      case True
      obtain active where active: "vault_active_key c cfg = Inr active" "sealed_under tenant active {} s'" using ran True by auto
      have same: "vault_map c cfg s' = vault_map c cfg s" using ran True by (intro map) simp
      have "vault_map c cfg' s' (tenant, k) = vault_map c cfg s (tenant, k)" if "vault_key c cfg' active = vault_key c cfg active" for cfg' k
        using sealed_under_active [OF active(1) _ active(2) that] ran same by simp
      then show ?thesis using ran keys [OF _ active(2)] active(1) True unfolding Pair Inr by simp
    next
      case False
      then show ?thesis using ran by (simp add: Pair Inr)
    qed
  qed
qed

definition sample_settings :: settings where
  "sample_settings name = (if name = ''JASLYN_SECRET_VAULT_KEY'' then Some (replicate 64 (CHR ''a'')) else None)"

definition sample_secret :: secret_input where
  "sample_secret = \<lparr> xi_key = ''sms.token'', xi_displayName = ''Gateway'', xi_purpose = ''SMS'', xi_value = ''s3cret'', xi_metadata = JObj [] \<rparr>"

theorem vault_refines_a_map_witness:
  "crypto_ok sample_crypto \<and> vault_ok empty_db \<and>
   (case vault_request sample_crypto sample_settings (\<lambda>_. replicate 12 7) 0 ''t'' ''u'' no_context (Create_secret sample_secret) empty_db of
      (Inl _, s') \<Rightarrow> False
    | (Inr _, s') \<Rightarrow> map_request ''t'' (Create_secret sample_secret) (vault_map sample_crypto sample_settings empty_db) (vault_map sample_crypto sample_settings s'))"
proof -
  have ok: "vault_ok empty_db" by (simp add: vault_ok_def empty_db_def fresh_ids_def)
  have "\<not> (case fst (vault_request sample_crypto sample_settings (\<lambda>_. replicate 12 7) 0 ''t'' ''u'' no_context (Create_secret sample_secret) empty_db) of
      Inl _ \<Rightarrow> True | Inr _ \<Rightarrow> False)"
    by code_simp
  then show ?thesis
    using ok sample_crypto_ok
      vault_refines_a_map [OF sample_crypto_ok _ ok, where ivs = "\<lambda>_. replicate 12 7" and cfg = sample_settings and now = 0 and tenant = "''t''"
        and actor = "''u''" and ctx = no_context and req = "Create_secret sample_secret"]
    by (auto split: prod.splits sum.splits)
qed

text \<open>C33: credentials of network devices survive a rotation of the keys: what was encrypted while one key was active is
  decrypted to the same document under every later configuration that still lists this key, whichever key is
  active then.\<close>

theorem credentials_survive_key_rotation:
  assumes "crypto_ok c" and "length iv = 12" and "proper_credentials c v"
    and "encrypt_credentials c cfg iv v = Inr payload"
    and "credential_key c cfg' (key_of payload) = credential_key c cfg (key_of payload)"
  shows "decrypt_credentials c cfg' payload = Inr v"
  using assms by (rule credential_box.unseal_sealed)

definition ring_before :: settings where
  "ring_before name = (if name = ''JASLYN_NETWORK_CREDENTIAL_KEYRING'' then Some (''old:'' @ replicate 64 (CHR ''a'')) else None)"

definition ring_after :: settings where
  "ring_after name =
     (if name = ''JASLYN_NETWORK_CREDENTIAL_KEYRING'' then Some (''new:'' @ replicate 64 (CHR ''b'') @ '', old:'' @ replicate 64 (CHR ''a''))
      else if name = ''JASLYN_NETWORK_CREDENTIAL_ACTIVE_KEY_ID'' then Some ''new'' else None)"

theorem credentials_survive_key_rotation_witness:
  "\<exists>payload. encrypt_credentials sample_crypto ring_before (replicate 12 7) (JObj []) = Inr payload \<and>
     map_sum id id (active_key_id ring_after) = Inr ''new'' \<and>
     decrypt_credentials sample_crypto ring_after payload = Inr (JObj [])"
proof -
  let ?p = "projr (encrypt_credentials sample_crypto ring_before (replicate 12 7) (JObj []))"
  have e: "encrypt_credentials sample_crypto ring_before (replicate 12 7) (JObj []) = Inr ?p" by code_simp
  have "proper_credentials sample_crypto (JObj [])" by (simp add: proper_credentials_def sample_crypto_def)
  moreover have "credential_key sample_crypto ring_after (key_of ?p) = credential_key sample_crypto ring_before (key_of ?p)" by code_simp
  ultimately have "decrypt_credentials sample_crypto ring_after ?p = Inr (JObj [])"
    by (intro credentials_survive_key_rotation [OF sample_crypto_ok _ _ e]) simp_all
  moreover have "map_sum id id (active_key_id ring_after) = Inr ''new''" by code_simp
  ultimately show ?thesis using e by blast
qed

end
