(* ===== verification/Radius.thy ===== *)
theory Radius
  imports RadiusProtocol DomainEvents SecretVault
begin

text \<open>
  The RADIUS server (\<open>radius/radius.service.ts\<close>): network access servers, credentials, and the handlers of the two sockets.
  A handler answers with the bytes it sends, if any. \<open>md5\<close>, \<open>scrypt\<close>, the canonical text of an address and the cipher are
  parameters, \<open>radius_lib\<close>. The driver gives the rates of a package as texts, so only \<open>NULL\<close> counts as missing.
\<close>

record radius_lib =
  rl_crypto :: crypto
  rl_settings :: settings
  rl_md5 :: "bytes \<Rightarrow> bytes"
  rl_scrypt :: "string \<Rightarrow> string \<Rightarrow> bytes"
  rl_inet :: "string \<Rightarrow> string"

abbreviation utf8 :: "radius_lib \<Rightarrow> string \<Rightarrow> bytes" where
  "utf8 lib \<equiv> cy_utf8 (rl_crypto lib)"

subsection \<open>Network access servers\<close>

record nas_input =
  ni_name :: string
  ni_address :: string
  ni_secret :: string
  ni_enabled :: "bool option"

text \<open>The index of the table and the default of its port, which the repository does not define, are \<open>clash\<close> and \<open>port\<close>.\<close>

definition create_nas ::
  "radius_lib \<Rightarrow> bytes \<Rightarrow> (radius_nas list \<Rightarrow> bool) \<Rightarrow> nat \<Rightarrow> uuid \<Rightarrow> nas_input \<Rightarrow> (db, radius_nas) operation" where
  "create_nas lib iv clash port tenant input s =
     (case encrypt_credentials (rl_crypto lib) (rl_settings lib) iv (JObj [(''password'', JStr (ni_secret input))]) of
        Inl e \<Rightarrow> (Inl e, s)
      | Inr encrypted \<Rightarrow>
          (let row = \<lparr> rn_id = new_uuid s, rn_tenant = tenant, rn_name = js_trim (ni_name input), rn_address = rl_inet lib (ni_address input),
                 rn_secretEncrypted = encrypted, rn_coaPort = port, rn_enabled = or_value (ni_enabled input) True \<rparr>
           in if clash (insert_row row (radiusNas s)) then (Inl (PlainError ''RADIUS NAS address already exists for this tenant''), s)
              else (Inr row, s\<lparr> next_id := next_id s + 1, radiusNas := insert_row row (radiusNas s) \<rparr>)))"

definition list_nas :: "uuid \<Rightarrow> db \<Rightarrow> radius_nas list" where
  "list_nas tenant s = sort_key rn_name (select (\<lambda>n. rn_tenant n = tenant) (radiusNas s))"

text \<open>\<open>Buffer.from(decrypt(x).password ?? '', 'utf8')\<close>\<close>

definition nas_secret :: "radius_lib \<Rightarrow> radius_nas \<Rightarrow> bytes result" where
  "nas_secret lib n =
     (case decrypt_credentials (rl_crypto lib) (rl_settings lib) (rn_secretEncrypted n) of
        Inl e \<Rightarrow> Inl e
      | Inr v \<Rightarrow>
          (case v of
             JObj kvs \<Rightarrow>
               (case map_of kvs ''password'' of
                  None \<Rightarrow> Inr (utf8 lib [])
                | Some JNull \<Rightarrow> Inr (utf8 lib [])
                | Some (JStr p) \<Rightarrow> Inr (utf8 lib p)
                | Some _ \<Rightarrow> Inl (PlainError ''ERR_INVALID_ARG_TYPE''))
           | _ \<Rightarrow> Inr (utf8 lib [])))"

subsection \<open>Credentials\<close>

record credential_input =
  ci_bindingId :: uuid
  ci_password :: string
  ci_enabled :: "bool option"

definition is_credential :: "uuid \<Rightarrow> uuid \<Rightarrow> radius_credential \<Rightarrow> bool" where
  "is_credential tenant b r \<longleftrightarrow> rd_tenant r = tenant \<and> rd_bindingId r = b"

text \<open>\<open>INSERT \<dots> ON CONFLICT (tenant_id, access_binding_id) DO UPDATE\<close>\<close>

definition upsert_credential :: "radius_credential \<Rightarrow> radius_credential list \<Rightarrow> radius_credential list" where
  "upsert_credential r t =
     (if exists_row (is_credential (rd_tenant r) (rd_bindingId r)) t
      then update_where (is_credential (rd_tenant r) (rd_bindingId r))
             (\<lambda>q. q\<lparr> rd_salt := rd_salt r, rd_hash := rd_hash r, rd_enabled := rd_enabled r \<rparr>) t
      else insert_row r t)"

definition binding_of :: "uuid \<Rightarrow> uuid \<Rightarrow> db \<Rightarrow> access_binding option" where
  "binding_of tenant i s = select_one (\<lambda>b. ab_tenant b = tenant \<and> ab_id b = i) (accessBindings s)"

definition credential_row :: "radius_lib \<Rightarrow> bytes \<Rightarrow> uuid \<Rightarrow> credential_input \<Rightarrow> radius_credential" where
  "credential_row lib random tenant input =
     (let salt = cy_encode (rl_crypto lib) random in
      \<lparr> rd_tenant = tenant, rd_bindingId = ci_bindingId input, rd_salt = salt,
        rd_hash = cy_encode (rl_crypto lib) (rl_scrypt lib (ci_password input) salt), rd_enabled = or_value (ci_enabled input) True \<rparr>)"

definition set_credential :: "radius_lib \<Rightarrow> bytes \<Rightarrow> string option \<Rightarrow> time \<Rightarrow> uuid \<Rightarrow> credential_input \<Rightarrow> (db, string) operation" where
  "set_credential lib random cid now tenant input s =
     (case binding_of tenant (ci_bindingId input) s of
        None \<Rightarrow> (Inl (PlainError ''Access binding not found''), s)
      | Some b \<Rightarrow> (Inr (ab_username b),
          snd (audit_record cid now tenant ''RADIUS_CREDENTIAL_UPDATED'' ''radius_user_credential'' (Some (ci_bindingId input))
            (JObj [(''username'', JStr (ab_username b)), (''enabled'', JBool (or_value (ci_enabled input) True))]) no_context
            (s\<lparr> radiusCredentials := upsert_credential (credential_row lib random tenant input) (radiusCredentials s) \<rparr>))))"

subsection \<open>Requests for access\<close>

definition user_binding :: "uuid \<Rightarrow> string \<Rightarrow> db \<Rightarrow> access_binding option" where
  "user_binding tenant username s = select_one (\<lambda>b. ab_tenant b = tenant \<and> ab_username b = username) (accessBindings s)"

definition binding_usable :: "time \<Rightarrow> access_binding \<Rightarrow> bool" where
  "binding_usable now b \<longleftrightarrow> ab_state b = B_ACTIVE \<and> (case ab_expiresAt b of None \<Rightarrow> True | Some t \<Rightarrow> now < t)"

definition credential_of :: "uuid \<Rightarrow> uuid \<Rightarrow> db \<Rightarrow> radius_credential option" where
  "credential_of tenant b s = select_one (is_credential tenant b) (radiusCredentials s)"

definition credential_matches :: "radius_lib \<Rightarrow> string \<Rightarrow> radius_credential \<Rightarrow> bool" where
  "credential_matches lib password r \<longleftrightarrow> rd_enabled r \<and> rl_scrypt lib password (rd_salt r) = cy_decode (rl_crypto lib) (rd_hash r)"

definition accepted :: "radius_lib \<Rightarrow> time \<Rightarrow> uuid \<Rightarrow> access_binding option \<Rightarrow> string \<Rightarrow> db \<Rightarrow> bool" where
  "accepted lib now tenant b password s =
     (case b of
        None \<Rightarrow> False
      | Some b \<Rightarrow> binding_usable now b \<and>
          (case credential_of tenant (ab_id b) s of None \<Rightarrow> False | Some r \<Rightarrow> credential_matches lib password r))"

definition kilobits :: "rat \<Rightarrow> string" where
  "kilobits r = nat_str (nat (max 1 (js_round (r / 1000)))) @ ''k''"

definition binding_package :: "uuid \<Rightarrow> access_binding \<Rightarrow> db \<Rightarrow> package option" where
  "binding_package tenant b s = select_one (\<lambda>k. pk_tenant k = tenant \<and> Some (pk_id k) = ab_packageId b) (packages s)"

definition session_seconds :: "package option \<Rightarrow> int" where
  "session_seconds k = max 1 (case k of None \<Rightarrow> 0 | Some k \<Rightarrow> pk_durationSeconds k)"

definition interim_seconds_of :: "int \<Rightarrow> int" where
  "interim_seconds_of d = min 300 (max 60 (if d div 20 = 0 then 60 else d div 20))"

definition rate_attributes :: "radius_lib \<Rightarrow> package option \<Rightarrow> radius_attribute list result" where
  "rate_attributes lib k =
     (case (Option.bind k pk_downloadBps, Option.bind k pk_uploadBps) of
        (None, None) \<Rightarrow> Inr []
      | (d, u) \<Rightarrow>
          map_sum id (\<lambda>a. [a]) (make_vendor_specific 14988 8
            (utf8 lib (kilobits (the (or_else u d)) @ ''/'' @ kilobits (the (or_else d u))))))"

definition accept_attributes :: "radius_lib \<Rightarrow> package option \<Rightarrow> radius_attribute list result" where
  "accept_attributes lib k =
     (let d = session_seconds k in
      map_sum id (\<lambda>rates. [make_uint32 27 (min d 2147483647), make_uint32 85 (interim_seconds_of d)] @ rates) (rate_attributes lib k))"

definition radius_event_row :: "uuid \<Rightarrow> uuid \<Rightarrow> radius_packet \<Rightarrow> string \<Rightarrow> bool \<Rightarrow> access_binding option \<Rightarrow> radius_event" where
  "radius_event_row tenant nas p username ok b =
     \<lparr> re_tenant = tenant, re_nasId = nas, re_code = rp_code p, re_identifier = rp_identifier p, re_username = username,
       re_result = (if ok then ''ACCEPT'' else ''REJECT''), re_error = None, re_correlationId = Option.bind b ab_correlationId \<rparr>"

text \<open>
  What becomes of a datagram: nothing; an error in the log; a rejected promise nobody handles, which ends the process; or an answer.
\<close>

datatype outcome = Ignored | Logged exn | Unhandled exn | Answered bytes

definition handle_access_request ::
  "radius_lib \<Rightarrow> time \<Rightarrow> radius_packet \<Rightarrow> uuid \<Rightarrow> uuid \<Rightarrow> bytes \<Rightarrow> db \<Rightarrow> outcome \<times> db" where
  "handle_access_request lib now p tenant nas secret s =
     (case (string_attribute (cy_text (rl_crypto lib)) p 1, attribute_of p 2) of
        (Some username, Some hidden) \<Rightarrow>
          if username = [] then (Ignored, s)
          else (case decrypt_user_password (rl_md5 lib) hidden secret (rp_authenticator p) of
                  Inl e \<Rightarrow> (Logged e, s)
                | Inr clear \<Rightarrow>
                    (let b = user_binding tenant username s;
                         ok = accepted lib now tenant b (cy_text (rl_crypto lib) clear) s
                     in case (if ok then accept_attributes lib (binding_package tenant (the b) s)
                              else Inr [make_string (utf8 lib) 18 ''Access denied'']) of
                          Inl e \<Rightarrow> (Logged e, s)
                        | Inr attrs \<Rightarrow>
                            (case encode_response (rl_md5 lib) (if ok then access_accept else access_reject) (rp_identifier p) (rp_authenticator p) attrs secret of
                               Inl e \<Rightarrow> (Logged e, s)
                             | Inr response \<Rightarrow>
                                 (Answered response, s\<lparr> radiusEvents := insert_row (radius_event_row tenant nas p username ok b) (radiusEvents s) \<rparr>))))
      | _ \<Rightarrow> (Ignored, s))"

subsection \<open>Accounting\<close>

definition accounting_status :: "nat \<Rightarrow> string option" where
  "accounting_status n = (if n = 1 then Some ''START'' else if n = 3 then Some ''INTERIM_UPDATE'' else if n = 2 then Some ''STOP'' else if n = 7 then Some ''ON'' else None)"

definition accounting_correlation :: "uuid \<Rightarrow> uuid \<Rightarrow> radius_packet \<Rightarrow> string option \<Rightarrow> db \<Rightarrow> string" where
  "accounting_correlation tenant nas p username s =
     (case (case username of None \<Rightarrow> None | Some u \<Rightarrow> if u = [] then None else Option.bind (user_binding tenant u s) ab_correlationId) of
        Some c \<Rightarrow> c
      | None \<Rightarrow> ''radius:'' @ tenant @ '':'' @ nas @ '':'' @ nat_str (unat (rp_identifier p)) @ '':'' @ hex_encode (rp_authenticator p))"

definition accounting_row :: "(bytes \<Rightarrow> string) \<Rightarrow> uuid \<Rightarrow> uuid \<Rightarrow> radius_packet \<Rightarrow> string \<Rightarrow> db \<Rightarrow> accounting_event" where
  "accounting_row text tenant nas p status s =
     \<lparr> ra_tenant = tenant, ra_nasId = nas, ra_username = string_attribute text p 1, ra_sessionId = string_attribute text p 44, ra_statusType = status,
       ra_callingStation = string_attribute text p 31, ra_inputOctets = uint32_attribute p 42, ra_outputOctets = uint32_attribute p 43,
       ra_sessionTime = uint32_attribute p 46, ra_rawAttributes = map (\<lambda>a. (at_type a, at_value a)) (rp_attributes p),
       ra_correlationId = accounting_correlation tenant nas p (string_attribute text p 1) s \<rparr>"

definition accounting_input :: "uuid \<Rightarrow> uuid \<Rightarrow> radius_packet \<Rightarrow> accounting_event \<Rightarrow> event_input" where
  "accounting_input tenant nas p r =
     \<lparr> ei_tenantId = tenant, ei_eventKey = ''radius-accounting:'' @ nas @ '':'' @ hex_encode (rp_authenticator p),
       ei_eventType = (if ra_statusType r = ''STOP'' then ''RADIUS.SESSION_STOPPED'' else if ra_statusType r = ''START'' then ''RADIUS.SESSION_STARTED''
                       else ''RADIUS.USAGE_UPDATED''),
       ei_aggregateType = Some ''radius_session'', ei_aggregateId = ra_sessionId r,
       ei_payload = JObj [(''nasClientId'', JStr nas), (''username'', or_null JStr (ra_username r)), (''sessionId'', or_null JStr (ra_sessionId r)),
         (''statusType'', JStr (ra_statusType r)), (''inputOctets'', or_null (\<lambda>n. JNum (of_nat n)) (ra_inputOctets r)),
         (''outputOctets'', or_null (\<lambda>n. JNum (of_nat n)) (ra_outputOctets r)), (''sessionTime'', or_null (\<lambda>n. JNum (of_nat n)) (ra_sessionTime r)),
         (''callingStationId'', or_null JStr (ra_callingStation r))] \<rparr>"

definition handle_accounting ::
  "radius_lib \<Rightarrow> time \<Rightarrow> radius_packet \<Rightarrow> uuid \<Rightarrow> uuid \<Rightarrow> bytes \<Rightarrow> db \<Rightarrow> outcome \<times> db" where
  "handle_accounting lib now p tenant nas secret s =
     (case accounting_status (or_value (uint32_attribute p 40) 0) of
        None \<Rightarrow> (Ignored, s)
      | Some status \<Rightarrow>
          (let r = accounting_row (cy_text (rl_crypto lib)) tenant nas p status s;
               s1 = s\<lparr> accountingEvents := insert_row r (accountingEvents s) \<rparr>;
               s2 = snd (enqueue now (accounting_input tenant nas p r) s1)
           in case encode_response (rl_md5 lib) accounting_response (rp_identifier p) (rp_authenticator p) [] secret of
                Inl e \<Rightarrow> (Logged e, s2)
              | Inr response \<Rightarrow> (Answered response, s2)))"

subsection \<open>The sockets\<close>

datatype socket = Auth_socket | Accounting_socket

definition enabled_at :: "string \<Rightarrow> radius_nas \<Rightarrow> bool" where
  "enabled_at address n \<longleftrightarrow> rn_address n = address \<and> rn_enabled n"

text \<open>The access server of an address: only if exactly one enabled row, of any tenant, has it.\<close>

definition nas_at :: "radius_lib \<Rightarrow> string \<Rightarrow> db \<Rightarrow> radius_nas option" where
  "nas_at lib address s =
     (if count_where (enabled_at (rl_inet lib address)) (radiusNas s) = 1 then select_one (enabled_at (rl_inet lib address)) (radiusNas s) else None)"

definition handle_packet :: "radius_lib \<Rightarrow> time \<Rightarrow> socket \<Rightarrow> string \<Rightarrow> bytes \<Rightarrow> db \<Rightarrow> outcome \<times> db" where
  "handle_packet lib now socket address raw s =
     (case parse_packet raw of
        Some (Inr p) \<Rightarrow>
          (case nas_at lib address s of
             None \<Rightarrow> (Ignored, s)
           | Some n \<Rightarrow>
               (case nas_secret lib n of
                  Inl e \<Rightarrow> (Unhandled e, s)
                | Inr secret \<Rightarrow>
                    if secret = [] then (Ignored, s)
                    else (case socket of
                            Auth_socket \<Rightarrow>
                              if rp_code p = access_request then handle_access_request lib now p (rn_tenant n) (rn_id n) secret s else (Ignored, s)
                          | Accounting_socket \<Rightarrow>
                              (case verify_request_authenticator (rl_md5 lib) p raw secret of
                                 Inl e \<Rightarrow> (Logged e, s)
                               | Inr genuine \<Rightarrow>
                                   if genuine \<and> rp_code p = accounting_request then handle_accounting lib now p (rn_tenant n) (rn_id n) secret s
                                   else (Ignored, s)))))
      | _ \<Rightarrow> (Ignored, s))"

subsection \<open>Disconnecting a session\<close>

text \<open>What the exchange with the access server brings: \<open>exchange\<close> gets the address, the port and the packet.\<close>

datatype exchange = Timed_out | Socket_error string | Reply bytes

record disconnect_input =
  di_nasId :: uuid
  di_username :: string
  di_sessionId :: "string option"

record disconnect_result =
  dr_accepted :: bool
  dr_nas :: uuid
  dr_username :: string
  dr_sessionId :: "string option"

text \<open>An answer that does not parse throws inside the callback of the socket, where nobody catches it.\<close>

datatype 'a attempt = Uncaught exn | Returned "'a result"

definition disconnect_attributes :: "radius_lib \<Rightarrow> disconnect_input \<Rightarrow> radius_attribute list" where
  "disconnect_attributes lib input =
     make_string (utf8 lib) 1 (js_trim (di_username input)) #
     (case trim_or_null (di_sessionId input) of None \<Rightarrow> [] | Some i \<Rightarrow> [make_string (utf8 lib) 44 i])"

definition response_digest :: "(bytes \<Rightarrow> bytes) \<Rightarrow> bytes \<Rightarrow> bytes \<Rightarrow> bytes \<Rightarrow> bytes" where
  "response_digest md5 response packet secret = md5 (subarray 0 4 response @ subarray 4 20 packet @ drop 20 response @ secret)"

definition disconnect_event :: "uuid \<Rightarrow> uuid \<Rightarrow> byte \<Rightarrow> string \<Rightarrow> byte \<Rightarrow> radius_event" where
  "disconnect_event tenant nas identifier username code =
     \<lparr> re_tenant = tenant, re_nasId = nas, re_code = disconnect_request, re_identifier = identifier, re_username = username,
       re_result = (if code = disconnect_ack then ''DISCONNECT_ACK'' else ''DISCONNECT_NAK''),
       re_error = (if code = disconnect_ack then None else Some (''NAS returned RADIUS code '' @ nat_str (unat code))), re_correlationId = None \<rparr>"

definition finish_disconnect ::
  "radius_lib \<Rightarrow> uuid \<Rightarrow> disconnect_input \<Rightarrow> radius_nas \<Rightarrow> bytes \<Rightarrow> bytes \<Rightarrow> byte \<Rightarrow> bytes \<Rightarrow> db \<Rightarrow> disconnect_result attempt \<times> db" where
  "finish_disconnect lib tenant input n secret packet identifier response s =
     (case parse_packet response of
        Some (Inr p) \<Rightarrow>
          (case timing_safe_equal (rp_authenticator p) (response_digest (rl_md5 lib) response packet secret) of
             Inl e \<Rightarrow> (Returned (Inl e), s)
           | Inr genuine \<Rightarrow>
               if \<not> genuine then (Returned (Inl (PlainError ''Invalid RADIUS Disconnect response authenticator'')), s)
               else (Returned (Inr \<lparr> dr_accepted = (rp_code p = disconnect_ack), dr_nas = rn_id n, dr_username = js_trim (di_username input),
                       dr_sessionId = di_sessionId input \<rparr>),
                     s\<lparr> radiusEvents := insert_row (disconnect_event tenant (rn_id n) identifier (js_trim (di_username input)) (rp_code p)) (radiusEvents s) \<rparr>))
      | Some (Inl e) \<Rightarrow> (Uncaught e, s)
      | None \<Rightarrow> (Returned (Inl (PlainError ''RADIUS Disconnect-Request timed out'')), s))"

definition disconnect_session ::
  "radius_lib \<Rightarrow> (string \<Rightarrow> nat \<Rightarrow> bytes \<Rightarrow> exchange) \<Rightarrow> bytes \<Rightarrow> byte \<Rightarrow> uuid \<Rightarrow> disconnect_input \<Rightarrow> db \<Rightarrow> disconnect_result attempt \<times> db" where
  "disconnect_session lib exchange random identifier tenant input s =
     (case select_one (\<lambda>n. rn_tenant n = tenant \<and> rn_id n = di_nasId input \<and> rn_enabled n) (radiusNas s) of
        None \<Rightarrow> (Returned (Inl (PlainError ''Enabled RADIUS NAS client not found'')), s)
      | Some n \<Rightarrow>
          (case nas_secret lib n of
             Inl e \<Rightarrow> (Returned (Inl e), s)
           | Inr secret \<Rightarrow>
               if secret = [] then (Returned (Inl (PlainError ''RADIUS NAS secret is unavailable'')), s)
               else (case encode_request random disconnect_request identifier (disconnect_attributes lib input) of
                       Inl e \<Rightarrow> (Returned (Inl e), s)
                     | Inr packet \<Rightarrow>
                         (case exchange (rn_address n) (rn_coaPort n) packet of
                            Timed_out \<Rightarrow> (Returned (Inl (PlainError ''RADIUS Disconnect-Request timed out'')), s)
                          | Socket_error m \<Rightarrow> (Returned (Inl (PlainError m)), s)
                          | Reply response \<Rightarrow> finish_disconnect lib tenant input n secret packet identifier response s))))"

subsection \<open>Who gets in\<close>

lemma encode_response_head:
  assumes "encode_response md5 code identifier request_auth attrs secret = Inr b"
  shows "b ! 0 = code \<and> b ! 1 = identifier"
  using assms by (auto simp: encode_response_def encode_packet_def encode_header_def split: sum.splits if_splits)

lemma accept_not_reject [simp]: "access_accept \<noteq> access_reject" "access_reject \<noteq> access_accept"
  by (simp_all add: access_accept_def access_reject_def)

lemma nas_at_only:
  assumes "nas_at lib address s = Some n"
  shows "filter (enabled_at (rl_inet lib address)) (radiusNas s) = [n]"
proof -
  have l: "length (filter (enabled_at (rl_inet lib address)) (radiusNas s)) = 1" and f: "find (enabled_at (rl_inet lib address)) (radiusNas s) = Some n"
    using assms by (auto simp: nas_at_def count_where_def select_one_def split: if_splits)
  then obtain m where m: "filter (enabled_at (rl_inet lib address)) (radiusNas s) = [m]" by (auto simp: length_Suc_conv)
  moreover have "n \<in> set (filter (enabled_at (rl_inet lib address)) (radiusNas s))" using f by (auto simp: find_Some_iff)
  ultimately show ?thesis by simp
qed

text \<open>The rows that let a user in.\<close>

definition entitled :: "radius_lib \<Rightarrow> time \<Rightarrow> uuid \<Rightarrow> string \<Rightarrow> string \<Rightarrow> db \<Rightarrow> bool" where
  "entitled lib now tenant username password s \<longleftrightarrow>
     (\<exists>b r. b \<in> set (accessBindings s) \<and> ab_tenant b = tenant \<and> ab_username b = username \<and> ab_state b = B_ACTIVE \<and>
        (\<forall>t. ab_expiresAt b = Some t \<longrightarrow> now < t) \<and>
        r \<in> set (radiusCredentials s) \<and> rd_tenant r = tenant \<and> rd_bindingId r = ab_id b \<and> rd_enabled r \<and>
        rl_scrypt lib password (rd_salt r) = cy_decode (rl_crypto lib) (rd_hash r))"

lemma accepted_entitled: "accepted lib now tenant (user_binding tenant username s) password s \<Longrightarrow> entitled lib now tenant username password s"
  unfolding accepted_def entitled_def user_binding_def credential_of_def binding_usable_def credential_matches_def is_credential_def
  by (auto split: option.splits dest!: select_one_Some)

fun is_answered :: "outcome \<Rightarrow> bool" where
  "is_answered (Answered _) = True"
| "is_answered _ = False"

lemma unanswered_requests_change_nothing:
  "is_answered (fst (handle_access_request lib now p tenant nas secret s)) \<or> snd (handle_access_request lib now p tenant nas secret s) = s"
proof (cases "string_attribute (cy_text (rl_crypto lib)) p 1")
  case None
  then show ?thesis by (simp add: handle_access_request_def)
next
  case u: (Some username)
  show ?thesis
  proof (cases "attribute_of p 2")
    case None
    with u show ?thesis by (simp add: handle_access_request_def)
  next
    case (Some hidden)
    show ?thesis
    proof (cases "decrypt_user_password (rl_md5 lib) hidden secret (rp_authenticator p)")
      case (Inl e)
      with u Some show ?thesis by (simp add: handle_access_request_def)
    next
      case (Inr clear)
      define b where "b = user_binding tenant username s"
      define ok where "ok = accepted lib now tenant b (cy_text (rl_crypto lib) clear) s"
      define attrs where "attrs = (if ok then accept_attributes lib (binding_package tenant (the b) s) else Inr [make_string (utf8 lib) 18 ''Access denied''])"
      have "handle_access_request lib now p tenant nas secret s =
        (if username = [] then (Ignored, s)
         else (case attrs of
                 Inl e \<Rightarrow> (Logged e, s)
               | Inr attrs \<Rightarrow>
                   (case encode_response (rl_md5 lib) (if ok then access_accept else access_reject) (rp_identifier p) (rp_authenticator p) attrs secret of
                      Inl e \<Rightarrow> (Logged e, s)
                    | Inr response \<Rightarrow> (Answered response, s\<lparr> radiusEvents := insert_row (radius_event_row tenant nas p username ok b) (radiusEvents s) \<rparr>))))"
        unfolding handle_access_request_def u Some option.case prod.case Inr sum.case Let_def b_def [symmetric] ok_def [symmetric] attrs_def [symmetric] ..
      then show ?thesis by (simp split: sum.split)
    qed
  qed
qed

lemma unanswered_packets_change_nothing:
  "is_answered (fst (handle_packet lib now Auth_socket address raw s)) \<or> snd (handle_packet lib now Auth_socket address raw s) = s"
  unfolding handle_packet_def using unanswered_requests_change_nothing by (simp split: option.split sum.split)

text \<open>C34: an answer on the authentication socket goes only to an address that exactly one enabled access server has, repeats the
  identifier of the request, and leaves one event and nothing else. It is an accept only for a user of the tenant of
  that server who has an active binding that is not over and an enabled credential whose hash is that of the
  password decrypted with the server's secret. Every other datagram changes nothing.\<close>

theorem access_is_granted_to_entitled_users:
  "case handle_packet lib now Auth_socket address raw s of
     (Answered b, s') \<Rightarrow>
       (\<exists>p n secret username hidden clear.
          parse_packet raw = Some (Inr p) \<and> filter (enabled_at (rl_inet lib address)) (radiusNas s) = [n] \<and> nas_secret lib n = Inr secret \<and> secret \<noteq> [] \<and>
          rp_code p = access_request \<and> b ! 1 = rp_identifier p \<and>
          string_attribute (cy_text (rl_crypto lib)) p 1 = Some username \<and> username \<noteq> [] \<and> attribute_of p 2 = Some hidden \<and>
          decrypt_user_password (rl_md5 lib) hidden secret (rp_authenticator p) = Inr clear \<and>
          (if b ! 0 = access_accept then entitled lib now (rn_tenant n) username (cy_text (rl_crypto lib) clear) s else b ! 0 = access_reject) \<and>
          s' = s\<lparr> radiusEvents := radiusEvents s @ [radius_event_row (rn_tenant n) (rn_id n) p username (b ! 0 = access_accept) (user_binding (rn_tenant n) username s)] \<rparr>)
   | (_, s') \<Rightarrow> s' = s"
proof (cases "is_answered (fst (handle_packet lib now Auth_socket address raw s))")
  case False
  then have "snd (handle_packet lib now Auth_socket address raw s) = s" using unanswered_packets_change_nothing by blast
  with False show ?thesis by (cases "handle_packet lib now Auth_socket address raw s", cases "fst (handle_packet lib now Auth_socket address raw s)") simp_all
next
  case True
  then obtain b s' where answered: "handle_packet lib now Auth_socket address raw s = (Answered b, s')"
    by (cases "handle_packet lib now Auth_socket address raw s", cases "fst (handle_packet lib now Auth_socket address raw s)") simp_all
  then obtain p n secret where p: "parse_packet raw = Some (Inr p)" and n: "nas_at lib address s = Some n" and secret: "nas_secret lib n = Inr secret" "secret \<noteq> []"
    and code: "rp_code p = access_request" and h: "handle_access_request lib now p (rn_tenant n) (rn_id n) secret s = (Answered b, s')"
    unfolding handle_packet_def by (auto split: option.splits sum.splits if_splits)
  from h obtain username hidden clear where u: "string_attribute (cy_text (rl_crypto lib)) p 1 = Some username" "username \<noteq> []" "attribute_of p 2 = Some hidden"
    and c: "decrypt_user_password (rl_md5 lib) hidden secret (rp_authenticator p) = Inr clear"
    unfolding handle_access_request_def by (auto split: option.splits sum.splits if_splits)
  define ok where "ok = accepted lib now (rn_tenant n) (user_binding (rn_tenant n) username s) (cy_text (rl_crypto lib) clear) s"
  from h u c obtain attrs where e: "encode_response (rl_md5 lib) (if ok then access_accept else access_reject) (rp_identifier p) (rp_authenticator p) attrs secret = Inr b"
    and s': "s' = s\<lparr> radiusEvents := insert_row (radius_event_row (rn_tenant n) (rn_id n) p username ok (user_binding (rn_tenant n) username s)) (radiusEvents s) \<rparr>"
    unfolding handle_access_request_def Let_def ok_def by (auto split: sum.splits)
  have b: "b ! 0 = (if ok then access_accept else access_reject)" "b ! 1 = rp_identifier p" using encode_response_head [OF e] by simp_all
  have only: "filter (enabled_at (rl_inet lib address)) (radiusNas s) = [n]" using n by (rule nas_at_only)
  have right: "if b ! 0 = access_accept then entitled lib now (rn_tenant n) username (cy_text (rl_crypto lib) clear) s else b ! 0 = access_reject"
  proof (cases ok)
    case True
    then have "entitled lib now (rn_tenant n) username (cy_text (rl_crypto lib) clear) s" unfolding ok_def by (rule accepted_entitled)
    then show ?thesis using b(1) True by simp
  next
    case False
    then show ?thesis using b(1) by simp
  qed
  have "(b ! 0 = access_accept) = ok" using b(1) accept_not_reject by (cases ok) auto
  then have "s' = s\<lparr> radiusEvents := radiusEvents s @ [radius_event_row (rn_tenant n) (rn_id n) p username (b ! 0 = access_accept) (user_binding (rn_tenant n) username s)] \<rparr>"
    using s' by (simp only: insert_row_def)
  then show ?thesis unfolding answered prod.case outcome.case using p only secret code b(2) u c right by blast
qed

subsection \<open>A password that was set lets its user in\<close>

definition radius_lib_ok :: "radius_lib \<Rightarrow> bool" where
  "radius_lib_ok lib \<longleftrightarrow> crypto_ok (rl_crypto lib) \<and> (\<forall>x. length (rl_md5 lib x) = 16)"

definition login_request :: "radius_lib \<Rightarrow> bytes \<Rightarrow> bytes \<Rightarrow> byte \<Rightarrow> string \<Rightarrow> string \<Rightarrow> bytes result" where
  "login_request lib secret random identifier username password =
     encode_request random access_request identifier
       [make_string (utf8 lib) 1 username, \<lparr> at_type = 2, at_value = hide_password (rl_md5 lib) secret random (utf8 lib password) \<rparr>]"

lemma set_credential_frame:
  "radiusNas (snd (set_credential lib random cid now tenant input s)) = radiusNas s"
  "accessBindings (snd (set_credential lib random cid now tenant input s)) = accessBindings s"
  "packages (snd (set_credential lib random cid now tenant input s)) = packages s"
  by (simp_all add: set_credential_def audit_record_def split: option.splits)

lemma set_credential_row:
  assumes "binding_of tenant (ci_bindingId input) s \<noteq> None"
  shows "\<exists>r. credential_of tenant (ci_bindingId input) (snd (set_credential lib random cid now tenant input s)) = Some r \<and>
    rd_enabled r = or_value (ci_enabled input) True \<and> rd_salt r = cy_encode (rl_crypto lib) random \<and>
    rd_hash r = cy_encode (rl_crypto lib) (rl_scrypt lib (ci_password input) (rd_salt r))"
proof -
  define row where "row = credential_row lib random tenant input"
  have key: "rd_tenant row = tenant" "rd_bindingId row = ci_bindingId input" by (simp_all add: row_def credential_row_def Let_def)
  have table: "radiusCredentials (snd (set_credential lib random cid now tenant input s)) = upsert_credential row (radiusCredentials s)"
    using assms by (auto simp: set_credential_def audit_record_def row_def)
  let ?P = "is_credential tenant (ci_bindingId input)"
  show ?thesis
  proof (cases "exists_row ?P (radiusCredentials s)")
    case True
    then obtain q where q: "select_one ?P (radiusCredentials s) = Some q"
      by (cases "select_one ?P (radiusCredentials s)") (auto simp: select_one_None exists_row_iff)
    have "?P q" using select_one_Some [OF q] ..
    then have "credential_of tenant (ci_bindingId input) (snd (set_credential lib random cid now tenant input s)) =
        Some (q\<lparr> rd_salt := rd_salt row, rd_hash := rd_hash row, rd_enabled := rd_enabled row \<rparr>)"
      using True q by (simp add: credential_of_def table upsert_credential_def key select_one_update_where is_credential_def)
    then show ?thesis by (simp add: row_def credential_row_def Let_def)
  next
    case False
    then have "select_one ?P (radiusCredentials s) = None" by (simp add: select_one_None exists_row_iff)
    then have "credential_of tenant (ci_bindingId input) (snd (set_credential lib random cid now tenant input s)) = Some row"
      using False by (simp add: credential_of_def table upsert_credential_def key select_one_insert_row) (simp add: is_credential_def key)
    then show ?thesis by (simp add: row_def credential_row_def Let_def)
  qed
qed

lemma set_password_accepted:
  assumes ok: "radius_lib_ok lib" and b: "user_binding tenant username s = Some b" and usable: "binding_usable now b"
    and input: "ci_bindingId input = ab_id b" "ci_password input = password" "ci_enabled input \<noteq> Some False"
  shows "accepted lib now tenant (Some b) password (snd (set_credential lib random cid t0 tenant input s))"
proof -
  have row: "b \<in> set (accessBindings s)" "ab_tenant b = tenant" using select_one_Some [OF b [unfolded user_binding_def]] by simp_all
  then have known: "binding_of tenant (ci_bindingId input) s \<noteq> None" by (auto simp: binding_of_def select_one_None input(1))
  obtain r where r: "credential_of tenant (ab_id b) (snd (set_credential lib random cid t0 tenant input s)) = Some r"
    "rd_enabled r = or_value (ci_enabled input) True" "rd_hash r = cy_encode (rl_crypto lib) (rl_scrypt lib password (rd_salt r))"
    using set_credential_row [OF known, of lib random cid t0] unfolding input(1,2) by blast
  have "credential_matches lib password r"
    using r(2,3) ok input(3) by (cases "ci_enabled input") (auto simp: credential_matches_def radius_lib_ok_def crypto_ok_def or_value_def)
  then show ?thesis using usable r(1) by (simp add: accepted_def)
qed

lemma login_request_parses:
  assumes "login_request lib secret random identifier username password = Inr raw" and "length random = 16"
  shows "parse_packet raw = Some (Inr \<lparr> rp_code = access_request, rp_identifier = identifier, rp_authenticator = random,
     rp_attributes = [make_string (utf8 lib) 1 username, \<lparr> at_type = 2, at_value = hide_password (rl_md5 lib) secret random (utf8 lib password) \<rparr>] \<rparr>)"
proof -
  define attrs where "attrs = [make_string (utf8 lib) 1 username, \<lparr> at_type = 2, at_value = hide_password (rl_md5 lib) secret random (utf8 lib password) \<rparr>]"
  have e: "encode_packet access_request identifier (\<lambda>_ _. random) attrs = Inr raw"
    using assms(1) by (simp add: login_request_def encode_request_def attrs_def)
  have "subarray 4 20 raw = random"
    using e assms(2) by (auto simp: encode_packet_def encode_header_def write_u16_def subarray_def split: sum.splits if_splits)
  then show ?thesis using encode_packet_parses(1) [OF e, of "[]"] assms(2) by (simp add: attrs_def)
qed

text \<open>Once a password is set for a binding that is active and not over, the user of the binding gets in: the access server that
  exactly one enabled row has under its address sends the name and the password, hidden as RFC 2865 demands, and is
  answered with an accept that carries the session time, the reporting interval and the rates of the package.\<close>

theorem set_password_lets_the_user_in:
  assumes "radius_lib_ok lib"
    and "nas_at lib address s = Some n" and "nas_secret lib n = Inr secret" and "secret \<noteq> []"
    and "user_binding (rn_tenant n) username s = Some b" and "binding_usable now b" and "username \<noteq> []"
    and "ci_bindingId input = ab_id b" and "ci_password input = password" and "ci_enabled input \<noteq> Some False"
    and "utf8 lib password \<noteq> []" and "last (utf8 lib password) \<noteq> 0"
    and "login_request lib secret random identifier username password = Inr raw" and "length random = 16"
    and "accept_attributes lib (binding_package (rn_tenant n) b s) = Inr attrs"
    and "encode_response (rl_md5 lib) access_accept identifier random attrs secret = Inr answer"
  shows "fst (handle_packet lib now Auth_socket address raw (snd (set_credential lib salt cid t0 (rn_tenant n) input s))) = Answered answer"
proof -
  define s1 where "s1 = snd (set_credential lib salt cid t0 (rn_tenant n) input s)"
  define p where "p = \<lparr> rp_code = access_request, rp_identifier = identifier, rp_authenticator = random,
     rp_attributes = [make_string (utf8 lib) 1 username, \<lparr> at_type = 2, at_value = hide_password (rl_md5 lib) secret random (utf8 lib password) \<rparr>] \<rparr>"
  have parsed: "parse_packet raw = Some (Inr p)" unfolding p_def using assms(13,14) by (rule login_request_parses)
  have plain: "cy_text (rl_crypto lib) (utf8 lib t) = t" for t using assms(1) by (simp add: radius_lib_ok_def crypto_ok_def)
  have md5: "length (rl_md5 lib x) = 16" for x using assms(1) by (simp add: radius_lib_ok_def)
  have user: "string_attribute (cy_text (rl_crypto lib)) p 1 = Some username"
    and hidden: "attribute_of p 2 = Some (hide_password (rl_md5 lib) secret random (utf8 lib password))"
    by (simp_all add: string_attribute_def attribute_of_def p_def make_string_def plain)
  have clear: "decrypt_user_password (rl_md5 lib) (hide_password (rl_md5 lib) secret random (utf8 lib password)) secret (rp_authenticator p) = Inr (utf8 lib password)"
    unfolding p_def using hidden_password_recovers [of "rl_md5 lib", OF md5 assms(11,12)] by simp
  have nas: "nas_at lib address s1 = Some n" using assms(2) by (simp only: nas_at_def s1_def set_credential_frame)
  have bind: "user_binding (rn_tenant n) username s1 = Some b" using assms(5) by (simp add: user_binding_def s1_def set_credential_frame)
  have good: "accepted lib now (rn_tenant n) (Some b) password s1"
    unfolding s1_def by (rule set_password_accepted [OF assms(1,5,6,8,9,10)])
  have plan: "binding_package (rn_tenant n) b s1 = binding_package (rn_tenant n) b s" by (simp add: binding_package_def s1_def set_credential_frame)
  have "fst (handle_access_request lib now p (rn_tenant n) (rn_id n) secret s1) = Answered answer"
    unfolding handle_access_request_def
    using user hidden clear assms(7,15,16) bind good plan by (simp add: plain p_def)
  then show ?thesis using parsed nas assms(3,4) by (simp add: handle_packet_def p_def flip: s1_def)
qed

definition sample_lib :: radius_lib where
  "sample_lib = \<lparr> rl_crypto = sample_crypto\<lparr> cy_parse := (\<lambda>_. Some (JObj [(''password'', JStr ''nas secret'')])) \<rparr>, rl_settings = ring_before,
     rl_md5 = (\<lambda>_. replicate 16 0), rl_scrypt = (\<lambda>password salt. map of_char (password @ salt)), rl_inet = id \<rparr>"

definition sample_nas :: radius_nas where
  "sample_nas = \<lparr> rn_id = ''n'', rn_tenant = ''t'', rn_name = ''Roof'', rn_address = ''10.0.0.2'',
     rn_secretEncrypted = projr (encrypt_credentials (rl_crypto sample_lib) ring_before (replicate 12 7) (JObj [])), rn_coaPort = 3799, rn_enabled = True \<rparr>"

definition sample_binding :: access_binding where
  "sample_binding = \<lparr> ab_id = ''b'', ab_tenant = ''t'', ab_customerId = ''c'', ab_routerId = None, ab_packageId = None, ab_username = ''jane'',
     ab_accessType = ''PPPOE'', ab_externalReference = None, ab_state = B_ACTIVE, ab_activatedAt = None, ab_suspendedAt = None, ab_expiresAt = Some 100,
     ab_correlationId = None \<rparr>"

definition sample_db :: db where
  "sample_db = empty_db\<lparr> radiusNas := [sample_nas], accessBindings := [sample_binding] \<rparr>"

definition sample_credential :: credential_input where
  "sample_credential = \<lparr> ci_bindingId = ''b'', ci_password = ''pass'', ci_enabled = None \<rparr>"

definition sample_login :: bytes where
  "sample_login = projr (login_request sample_lib (utf8 sample_lib ''nas secret'') (replicate 16 9) 5 ''jane'' ''pass'')"

definition sample_answer :: bytes where
  "sample_answer = projr (encode_response (rl_md5 sample_lib) access_accept 5 (replicate 16 9)
     (projr (accept_attributes sample_lib None)) (utf8 sample_lib ''nas secret''))"

lemma map2_xor_zeros: "length xs \<le> n \<Longrightarrow> map2 (XOR) xs (replicate n 0) = (xs :: bytes)"
proof (induction xs arbitrary: n)
  case Nil
  then show ?case by simp
next
  case (Cons x xs)
  then show ?case by (cases n) simp_all
qed

lemma hide_blocks_zeros: "length clear = 16 \<Longrightarrow> hide_blocks (\<lambda>_. replicate 16 0) secret previous clear = clear"
proof -
  assume l: "length clear = 16"
  then have "clear \<noteq> []" by auto
  moreover have "hide_blocks (\<lambda>_. replicate 16 0) secret x [] = []" for x by (simp add: hide_blocks.simps)
  ultimately show ?thesis using l by (subst hide_blocks.simps) (simp add: Let_def map2_xor_zeros)
qed

theorem set_password_lets_the_user_in_witness:
  "fst (handle_packet sample_lib 50 Auth_socket ''10.0.0.2'' sample_login
      (snd (set_credential sample_lib (replicate 16 1) None 40 ''t'' sample_credential sample_db))) = Answered sample_answer"
proof -
  have "crypto_ok (rl_crypto sample_lib)" using sample_crypto_ok by (simp add: crypto_ok_def sample_lib_def)
  then have ok: "radius_lib_ok sample_lib" by (simp add: radius_lib_ok_def sample_lib_def)
  have nas: "nas_at sample_lib ''10.0.0.2'' sample_db = Some sample_nas"
    by (simp add: nas_at_def sample_db_def sample_lib_def count_where_def select_one_def enabled_at_def sample_nas_def)
  have secret: "nas_secret sample_lib sample_nas = Inr (utf8 sample_lib ''nas secret'')" by code_simp
  have user: "user_binding (rn_tenant sample_nas) ''jane'' sample_db = Some sample_binding"
    by (simp add: user_binding_def sample_db_def sample_binding_def sample_nas_def select_one_def)
  have hidden: "hide_password (rl_md5 sample_lib) (utf8 sample_lib ''nas secret'') (replicate 16 9) (utf8 sample_lib ''pass'') =
      utf8 sample_lib ''pass'' @ replicate 12 0"
    unfolding hide_password_def by (simp add: sample_lib_def sample_crypto_def hide_blocks_zeros)
  have "utf8 sample_lib ''pass'' = [112, 97, 115, 115]" "utf8 sample_lib ''jane'' = [106, 97, 110, 101]" by code_simp+
  then have "login_request sample_lib (utf8 sample_lib ''nas secret'') (replicate 16 9) 5 ''jane'' ''pass'' =
      Inr ([1, 5, 0, 44] @ replicate 16 9 @ [1, 6, 106, 97, 110, 101, 2, 18, 112, 97, 115, 115] @ replicate 12 0)"
    unfolding login_request_def hidden
    by (simp add: encode_request_def encode_packet_def encode_header_def write_u16_def make_string_def access_request_def)
  then have login: "login_request sample_lib (utf8 sample_lib ''nas secret'') (replicate 16 9) 5 ''jane'' ''pass'' = Inr sample_login"
    by (simp only: sample_login_def sum.sel)
  have attrs: "accept_attributes sample_lib (binding_package (rn_tenant sample_nas) sample_binding sample_db) = Inr (projr (accept_attributes sample_lib None))"
    by (simp add: binding_package_def sample_db_def empty_db_def select_one_def) (simp add: accept_attributes_def rate_attributes_def Let_def)
  have answer: "encode_response (rl_md5 sample_lib) access_accept 5 (replicate 16 9) (projr (accept_attributes sample_lib None))
      (utf8 sample_lib ''nas secret'') = Inr sample_answer"
    unfolding sample_answer_def
    by (simp add: encode_response_def encode_packet_def encode_header_def accept_attributes_def rate_attributes_def Let_def make_uint32_def write_u32_def)
  have "utf8 sample_lib ''nas secret'' \<noteq> []" "utf8 sample_lib ''pass'' \<noteq> []" "last (utf8 sample_lib ''pass'') \<noteq> 0" by code_simp+
  moreover have "binding_usable 50 sample_binding" by (simp add: binding_usable_def sample_binding_def)
  ultimately show ?thesis
    using set_password_lets_the_user_in [OF ok nas secret _ user _ _ _ _ _ _ _ login _ attrs answer, of 50 sample_credential "replicate 16 1" None 40]
    by (simp add: sample_credential_def sample_binding_def sample_nas_def)
qed

end
