(* ===== verification/FieldJobs.thy ===== *)
theory FieldJobs
  imports AuditTrail Texts Journal
begin

text \<open>
  Field work (\<open>isp-operations/isp-operations.service.ts\<close>, its part about sites and jobs): sites, jobs with their events, the
  synchronisation of operations that a device carried out offline, checklists and photos. The receipts of operations
  interpret the journal of \<open>Journal\<close>; a photo is looked up by the key of the client. The foreign keys and unique indexes,
  which the repository does not define, are the parameters \<open>known\<close> and \<open>clash\<close>; the hash of a photo is \<open>sha256\<close>.
\<close>

subsection \<open>Sites\<close>

record site_input =
  sn_name :: string
  sn_siteType :: "string option"
  sn_status :: "string option"
  sn_parentId :: "uuid option"

definition create_site ::
  "(network_site list \<Rightarrow> bool) \<Rightarrow> (network_site \<Rightarrow> db \<Rightarrow> bool) \<Rightarrow> uuid \<Rightarrow> site_input \<Rightarrow> (db, network_site) operation" where
  "create_site clash known tenant input s =
     (let row = \<lparr> ns_id = new_uuid s, ns_tenant = tenant, ns_name = js_trim (sn_name input), ns_siteType = or_value (sn_siteType input) ''POP'',
            ns_status = or_value (sn_status input) ''ACTIVE'', ns_parentId = sn_parentId input \<rparr>
      in if (case sn_parentId input of None \<Rightarrow> False | Some p \<Rightarrow> \<not> exists_row (\<lambda>n. ns_tenant n = tenant \<and> ns_id n = p) (networkSites s))
         then (Inl (NotFound ''Parent network site was not found''), s)
         else if clash (insert_row row (networkSites s)) then (Inl (Conflict ''Network site name already exists for this tenant''), s)
         else if \<not> known row s then (Inl (NotFound ''Referenced location or parent site was not found''), s)
         else (Inr row, s\<lparr> next_id := next_id s + 1, networkSites := insert_row row (networkSites s) \<rparr>))"

subsection \<open>Jobs\<close>

record job_input =
  ji_customerId :: "uuid option"
  ji_siteId :: "uuid option"
  ji_assignedUserId :: "uuid option"
  ji_jobType :: string
  ji_priority :: "string option"
  ji_title :: string
  ji_description :: "string option"
  ji_scheduledAt :: "time option"

definition job_row :: "uuid \<Rightarrow> time \<Rightarrow> uuid \<Rightarrow> job_input \<Rightarrow> network_job" where
  "job_row i now tenant input =
     \<lparr> nj_id = i, nj_tenant = tenant, nj_customerId = ji_customerId input, nj_siteId = ji_siteId input, nj_assignedUserId = ji_assignedUserId input,
       nj_jobType = ji_jobType input, nj_status = J_OPEN, nj_priority = or_value (ji_priority input) ''NORMAL'', nj_title = js_trim (ji_title input),
       nj_description = trim_or_null (ji_description input), nj_scheduledAt = ji_scheduledAt input, nj_completedAt = None, nj_createdAt = now \<rparr>"

definition put_job_event :: "time \<Rightarrow> uuid \<Rightarrow> uuid \<Rightarrow> uuid \<Rightarrow> string \<Rightarrow> job_status option \<Rightarrow> job_status \<Rightarrow> string option \<Rightarrow> db \<Rightarrow> db" where
  "put_job_event now tenant job actor type from to note s =
     s\<lparr> jobEvents := insert_row \<lparr> jv_tenant = tenant, jv_jobId = job, jv_actor = actor, jv_type = type, jv_from = from, jv_to = to, jv_note = note,
          jv_createdAt = now \<rparr> (jobEvents s) \<rparr>"

text \<open>The status of a new row is the default of the column, which the code returns with the row.\<close>

definition create_job :: "(network_job \<Rightarrow> db \<Rightarrow> bool) \<Rightarrow> time \<Rightarrow> uuid \<Rightarrow> job_input \<Rightarrow> uuid \<Rightarrow> (db, network_job) operation" where
  "create_job known now tenant input actor s =
     (let row = job_row (new_uuid s) now tenant input
      in if \<not> known row s then (Inl (NotFound ''Referenced customer, site, or user was not found''), s)
         else (Inr row, put_job_event now tenant (nj_id row) actor ''CREATED'' None (nj_status row) (trim_or_null (ji_description input))
                 (s\<lparr> next_id := next_id s + 1, networkJobs := insert_row row (networkJobs s) \<rparr>)))"

definition is_job :: "uuid \<Rightarrow> uuid \<Rightarrow> network_job \<Rightarrow> bool" where
  "is_job tenant i j \<longleftrightarrow> nj_tenant j = tenant \<and> nj_id j = i"

record job_update =
  ju_assignedUserId :: "uuid option"
  ju_priority :: "string option"
  ju_status :: "job_status option"
  ju_description :: "string option"
  ju_scheduledAt :: "time option"
  ju_note :: "string option"

definition updated_job :: "time \<Rightarrow> job_update \<Rightarrow> network_job \<Rightarrow> network_job" where
  "updated_job now input j =
     (let status = or_value (ju_status input) (nj_status j) in
      j\<lparr> nj_assignedUserId := or_else (ju_assignedUserId input) (nj_assignedUserId j), nj_priority := or_value (ju_priority input) (nj_priority j),
         nj_status := status, nj_description := or_else (map_option js_trim (ju_description input)) (nj_description j),
         nj_scheduledAt := or_else (ju_scheduledAt input) (nj_scheduledAt j),
         nj_completedAt := (if status = J_COMPLETED then Some (or_value (nj_completedAt j) now) else None) \<rparr>)"

text \<open>A foreign key that fails, such as an unknown user, is thrown as it is.\<close>

definition update_job :: "(network_job \<Rightarrow> db \<Rightarrow> bool) \<Rightarrow> time \<Rightarrow> uuid \<Rightarrow> uuid \<Rightarrow> job_update \<Rightarrow> uuid \<Rightarrow> (db, network_job) operation" where
  "update_job known now tenant i input actor s =
     (case select_one (is_job tenant i) (networkJobs s) of
        None \<Rightarrow> (Inl (NotFound ''Network job not found''), s)
      | Some j \<Rightarrow>
          (let j' = updated_job now input j; s1 = s\<lparr> networkJobs := update_where (is_job tenant i) (\<lambda>_. j') (networkJobs s) \<rparr> in
           if \<not> known j' s then (Inl (DbError ''23503''), s)
           else (Inr j',
             if nj_status j' \<noteq> nj_status j \<or> (case ju_note input of None \<Rightarrow> False | Some n \<Rightarrow> n \<noteq> [])
             then put_job_event now tenant i actor (if nj_status j' = nj_status j then ''NOTE'' else ''STATUS_CHANGED'') (Some (nj_status j)) (nj_status j')
                    (trim_or_null (ju_note input)) s1
             else s1)))"

definition job_events :: "uuid \<Rightarrow> uuid \<Rightarrow> db \<Rightarrow> job_event list result" where
  "job_events tenant i s =
     (if \<not> exists_row (is_job tenant i) (networkJobs s) then Inl (NotFound ''Network job not found'')
      else Inr (sort_key (\<lambda>e. - jv_createdAt e) (select (\<lambda>e. jv_tenant e = tenant \<and> jv_jobId e = i) (jobEvents s))))"

subsection \<open>Operations that were carried out offline\<close>

fun allowed_transitions :: "job_status \<Rightarrow> job_status list" where
  "allowed_transitions J_OPEN = [J_ASSIGNED, J_IN_PROGRESS, J_CANCELED]"
| "allowed_transitions J_ASSIGNED = [J_OPEN, J_IN_PROGRESS, J_BLOCKED, J_CANCELED]"
| "allowed_transitions J_IN_PROGRESS = [J_ASSIGNED, J_BLOCKED, J_COMPLETED, J_CANCELED]"
| "allowed_transitions J_BLOCKED = [J_ASSIGNED, J_IN_PROGRESS, J_CANCELED]"
| "allowed_transitions J_COMPLETED = []"
| "allowed_transitions J_CANCELED = []"

datatype offline_type = NOTE_ADDED | STATUS_CHANGED | CHECKLIST_ITEM_SET

fun offline_type_name :: "offline_type \<Rightarrow> string" where
  "offline_type_name NOTE_ADDED = ''NOTE_ADDED''"
| "offline_type_name STATUS_CHANGED = ''STATUS_CHANGED''"
| "offline_type_name CHECKLIST_ITEM_SET = ''CHECKLIST_ITEM_SET''"

record offline_operation =
  oo_id :: uuid
  oo_jobId :: uuid
  oo_type :: offline_type
  oo_status :: "job_status option"
  oo_expectedStatus :: "job_status option"
  oo_note :: "string option"
  oo_itemKey :: "string option"
  oo_itemLabel :: "string option"
  oo_checked :: "bool option"

definition sr_unique :: "sync_receipt \<Rightarrow> (uuid \<times> uuid) option" where
  "sr_unique r = Some (sr_tenant r, sr_operationId r)"

definition put_receipt :: "sync_receipt \<Rightarrow> db \<Rightarrow> db" where
  "put_receipt r s = s\<lparr> syncReceipts := insert_once sr_unique r (syncReceipts s) \<rparr>"

definition touch_receipts :: "(sync_receipt \<Rightarrow> bool) \<Rightarrow> (sync_receipt \<Rightarrow> sync_receipt) \<Rightarrow> db \<Rightarrow> db" where
  "touch_receipts P f s = s\<lparr> syncReceipts := update_where P f (syncReceipts s) \<rparr>"

interpretation receipts: keyed_queue syncReceipts sr_unique put_receipt touch_receipts
  by unfold_locales (simp_all add: put_receipt_def touch_receipts_def)

definition new_receipt :: "uuid \<Rightarrow> offline_operation \<Rightarrow> sync_receipt" where
  "new_receipt tenant oo = \<lparr> sr_tenant = tenant, sr_operationId = oo_id oo, sr_jobId = oo_jobId oo, sr_type = offline_type_name (oo_type oo), sr_result = None \<rparr>"

definition operation_result :: "offline_operation \<Rightarrow> json" where
  "operation_result oo = JObj [(''operationId'', JStr (oo_id oo)), (''jobId'', JStr (oo_jobId oo)), (''operationType'', JStr (offline_type_name (oo_type oo))),
     (''accepted'', JBool True), (''replayed'', JBool False)]"

text \<open>\<open>{ ...(result ?? {}), replayed: true }\<close>\<close>

definition replayed_result :: "json option \<Rightarrow> json" where
  "replayed_result r =
     (case r of
        Some (JObj kvs) \<Rightarrow>
          JObj (if list_ex (\<lambda>kv. fst kv = ''replayed'') kvs then map (\<lambda>kv. if fst kv = ''replayed'' then (fst kv, JBool True) else kv) kvs
                else kvs @ [(''replayed'', JBool True)])
      | _ \<Rightarrow> JObj [(''replayed'', JBool True)])"

definition status_row :: "time \<Rightarrow> job_status \<Rightarrow> network_job \<Rightarrow> network_job" where
  "status_row now st j = j\<lparr> nj_status := st, nj_completedAt := (if st = J_COMPLETED then Some (or_value (nj_completedAt j) now) else None) \<rparr>"

definition upsert_item :: "checklist_item \<Rightarrow> checklist_item list \<Rightarrow> checklist_item list" where
  "upsert_item r t =
     (let same = (\<lambda>q. ck_tenant q = ck_tenant r \<and> ck_jobId q = ck_jobId r \<and> ck_key q = ck_key r) in
      if exists_row same t
      then update_where same (\<lambda>q. q\<lparr> ck_label := ck_label r, ck_checked := ck_checked r, ck_checkedBy := ck_checkedBy r, ck_checkedAt := ck_checkedAt r \<rparr>) t
      else insert_row r t)"

text \<open>What the three kinds of operations do to a job whose status is \<open>current\<close>.\<close>

definition apply_operation :: "time \<Rightarrow> uuid \<Rightarrow> uuid \<Rightarrow> offline_operation \<Rightarrow> job_status \<Rightarrow> (db, unit) operation" where
  "apply_operation now tenant actor oo current s =
     (case oo_type oo of
        NOTE_ADDED \<Rightarrow>
          (case trim_or_null (oo_note oo) of
             None \<Rightarrow> (Inl (BadRequest ''NOTE_ADDED operations require a non-empty note''), s)
           | Some note \<Rightarrow> (Inr (), put_job_event now tenant (oo_jobId oo) actor ''NOTE'' (Some current) current (Some note) s))
      | STATUS_CHANGED \<Rightarrow>
          (case oo_status oo of
             None \<Rightarrow> (Inl (BadRequest ''STATUS_CHANGED operations require a status''), s)
           | Some st \<Rightarrow>
               if st \<noteq> current \<and> st \<notin> set (allowed_transitions current)
               then (Inl (Conflict ''This work-order status transition is not permitted''), s)
               else if st \<noteq> current
               then (Inr (), put_job_event now tenant (oo_jobId oo) actor ''OFFLINE_STATUS_CHANGED'' (Some current) st (trim_or_null (oo_note oo))
                       (s\<lparr> networkJobs := update_where (is_job tenant (oo_jobId oo)) (status_row now st) (networkJobs s) \<rparr>))
               else (Inr (), s))
      | CHECKLIST_ITEM_SET \<Rightarrow>
          (case (trim_or_null (oo_itemKey oo), trim_or_null (oo_itemLabel oo), oo_checked oo) of
             (Some k, Some label, Some checked) \<Rightarrow>
               (Inr (), s\<lparr> checklistItems := upsert_item \<lparr> ck_tenant = tenant, ck_jobId = oo_jobId oo, ck_key = k, ck_label = label, ck_checked = checked,
                  ck_checkedBy = actor, ck_checkedAt = (if checked then Some now else None) \<rparr> (checklistItems s) \<rparr>)
           | _ \<Rightarrow> (Inl (BadRequest ''CHECKLIST_ITEM_SET operations require itemKey, itemLabel and checked''), s)))"

text \<open>
  One operation: whether it was replayed, and its result. The repository does not define the table of the receipts, and the model gives it no foreign key:
  the job that does not exist is missed by the query that follows the insert. With a foreign key on the job the insert itself would fail, with the error
  of the database in place of the not found; the transaction is rolled back either way.
\<close>

definition sync_operation :: "time \<Rightarrow> uuid \<Rightarrow> uuid \<Rightarrow> offline_operation \<Rightarrow> (db, bool \<times> json) operation" where
  "sync_operation now tenant actor oo s =
     (case select_one (\<lambda>r. sr_unique r = Some (tenant, oo_id oo)) (syncReceipts s) of
        Some r \<Rightarrow>
          if sr_jobId r \<noteq> oo_jobId oo \<or> sr_type r \<noteq> offline_type_name (oo_type oo)
          then (Inl (Conflict ''An operation ID cannot be reused for a different job or operation type''), s)
          else (Inr (True, replayed_result (sr_result r)), s)
      | None \<Rightarrow>
          (let s1 = put_receipt (new_receipt tenant oo) s in
           case select_one (is_job tenant (oo_jobId oo)) (networkJobs s1) of
             None \<Rightarrow> (Inl (NotFound ''A synced network job was not found in this tenant''), s1)
           | Some j \<Rightarrow>
               if (case oo_expectedStatus oo of None \<Rightarrow> False | Some e \<Rightarrow> e \<noteq> nj_status j)
               then (Inl (Conflict ''Offline job update is stale; refresh the job before syncing this operation''), s1)
               else (case apply_operation now tenant actor oo (nj_status j) s1 of
                       (Inl e, s2) \<Rightarrow> (Inl e, s2)
                     | (Inr _, s2) \<Rightarrow>
                         (Inr (False, operation_result oo),
                          touch_receipts (\<lambda>r. sr_unique r = Some (tenant, oo_id oo)) (\<lambda>r. r\<lparr> sr_result := Some (operation_result oo) \<rparr>) s2))))"

record sync_report =
  sy_accepted :: nat
  sy_replayed :: nat
  sy_results :: "json list"

definition sync_report_of :: "(bool \<times> json) list \<Rightarrow> sync_report" where
  "sync_report_of rs = \<lparr> sy_accepted = length (filter (\<lambda>r. \<not> fst r) rs), sy_replayed = length (filter fst rs), sy_results = map snd rs \<rparr>"

definition sync_offline_operations :: "time \<Rightarrow> uuid \<Rightarrow> uuid \<Rightarrow> audit_context \<Rightarrow> offline_operation list \<Rightarrow> (db, sync_report) operation" where
  "sync_offline_operations now tenant actor ctx ops s =
     (if length ops < 1 \<or> 100 < length ops then (Inl (BadRequest ''Sync must contain between 1 and 100 operations''), s)
      else transaction (\<lambda>s.
        case map_op (sync_operation now tenant actor) ops s of
          (Inl e, s1) \<Rightarrow> (Inl e, s1)
        | (Inr rs, s1) \<Rightarrow>
            (let report = sync_report_of rs in
             (Inr report,
              if 0 < sy_accepted report
              then insert_audit now tenant actor ''FIELD_OFFLINE_SYNCED'' ''network_job'' None ctx
                     (JObj [(''acceptedCount'', JNum (of_nat (sy_accepted report))), (''replayedCount'', JNum (of_nat (sy_replayed report)))]) s1
              else s1))) s)"

definition list_checklist :: "uuid \<Rightarrow> uuid \<Rightarrow> db \<Rightarrow> checklist_item list result" where
  "list_checklist tenant i s =
     (if \<not> exists_row (is_job tenant i) (networkJobs s) then Inl (NotFound ''Network job not found'')
      else Inr (sort_key ck_key (select (\<lambda>c. ck_tenant c = tenant \<and> ck_jobId c = i) (checklistItems s))))"

subsection \<open>Photos\<close>

definition is_jpeg :: "bytes \<Rightarrow> bool" where
  "is_jpeg b \<longleftrightarrow> take 3 b = [0xff, 0xd8, 0xff]"

definition is_png :: "bytes \<Rightarrow> bool" where
  "is_png b \<longleftrightarrow> take 8 b = [0x89, 0x50, 0x4e, 0x47, 0x0d, 0x0a, 0x1a, 0x0a]"

definition is_webp :: "bytes \<Rightarrow> bool" where
  "is_webp b \<longleftrightarrow> 12 \<le> length b \<and> take 4 b = [0x52, 0x49, 0x46, 0x46] \<and> take 4 (drop 8 b) = [0x57, 0x45, 0x42, 0x50]"

definition image_matches :: "string \<Rightarrow> bytes \<Rightarrow> bool" where
  "image_matches contentType b \<longleftrightarrow>
     (contentType = ''image/jpeg'' \<and> is_jpeg b) \<or> (contentType = ''image/png'' \<and> is_png b) \<or> (contentType = ''image/webp'' \<and> is_webp b)"

text \<open>\<open>basename\<close> of a path, whose last part it is.\<close>

definition base_name :: "string \<Rightarrow> string" where
  "base_name path = last (split_on (CHR ''/'') (rev (dropWhile (\<lambda>c. c = CHR ''/'') (rev path))))"

definition name_char :: "char \<Rightarrow> bool" where
  "name_char c \<longleftrightarrow> (let n = of_char c in (48 \<le> n \<and> n \<le> (57 :: nat)) \<or> (65 \<le> n \<and> n \<le> 90) \<or> (97 \<le> n \<and> n \<le> 122) \<or> c \<in> set ''._ -'')"

definition safe_name :: "string \<Rightarrow> string" where
  "safe_name original =
     (let name = take 180 (map (\<lambda>c. if name_char c then c else CHR ''_'')
            (base_name (map (\<lambda>c. if c = CHR 0x5c then CHR ''/'' else c) original)))
      in if name = [] then ''field-photo'' else name)"

record photo =
  ph_originalname :: string
  ph_mimetype :: string
  ph_buffer :: bytes

text \<open>The row, and whether it is an earlier one.\<close>

definition upload_job_attachment ::
  "(bytes \<Rightarrow> string) \<Rightarrow> time \<Rightarrow> uuid \<Rightarrow> uuid \<Rightarrow> uuid \<Rightarrow> string \<Rightarrow> photo \<Rightarrow> audit_context \<Rightarrow> (db, job_attachment \<times> bool) operation" where
  "upload_job_attachment sha256 now tenant job actor key file ctx s =
     (if \<not> is_uuid key then (Inl (BadRequest ''A UUID Idempotency-Key header is required for photo uploads''), s)
      else if ph_buffer file = [] \<or> 5 * 1024 * 1024 < length (ph_buffer file) then (Inl (BadRequest ''A photo between 1 byte and 5 MB is required''), s)
      else if \<not> image_matches (ph_mimetype file) (ph_buffer file) then (Inl (BadRequest ''Only valid JPEG, PNG or WebP image files are accepted''), s)
      else (case select_one (is_job tenant job) (networkJobs s) of
              None \<Rightarrow> (Inl (NotFound ''Network job not found''), s)
            | Some _ \<Rightarrow>
                (case select_one (\<lambda>a. jt_tenant a = tenant \<and> jt_jobId a = job \<and> jt_photoId a = key) (jobAttachments s) of
                   Some a \<Rightarrow> (Inr (a, True), s)
                 | None \<Rightarrow>
                     (let row = \<lparr> jt_id = new_uuid s, jt_tenant = tenant, jt_jobId = job, jt_photoId = key, jt_fileName = safe_name (ph_originalname file),
                            jt_contentType = ph_mimetype file, jt_content = ph_buffer file, jt_sha256 = sha256 (ph_buffer file), jt_createdBy = actor,
                            jt_createdAt = now \<rparr>
                      in (Inr (row, False), insert_audit now tenant actor ''FIELD_PHOTO_UPLOADED'' ''network_job_attachment'' (Some (jt_id row)) ctx
                            (JObj [(''jobId'', JStr job), (''contentType'', JStr (jt_contentType row)), (''byteSize'', JNum (of_nat (length (jt_content row)))),
                               (''sha256'', JStr (jt_sha256 row))])
                            (s\<lparr> next_id := next_id s + 1, jobAttachments := insert_row row (jobAttachments s) \<rparr>))))))"

definition list_job_attachments :: "uuid \<Rightarrow> uuid \<Rightarrow> db \<Rightarrow> job_attachment list result" where
  "list_job_attachments tenant i s =
     (if \<not> exists_row (is_job tenant i) (networkJobs s) then Inl (NotFound ''Network job not found'')
      else Inr (sort_key (\<lambda>a. - jt_createdAt a) (select (\<lambda>a. jt_tenant a = tenant \<and> jt_jobId a = i) (jobAttachments s))))"

definition get_job_attachment :: "uuid \<Rightarrow> uuid \<Rightarrow> uuid \<Rightarrow> db \<Rightarrow> job_attachment result" where
  "get_job_attachment tenant job i s =
     (case select_one (\<lambda>a. jt_tenant a = tenant \<and> jt_jobId a = job \<and> jt_id a = i) (jobAttachments s) of
        None \<Rightarrow> Inl (NotFound ''Field photo not found'') | Some a \<Rightarrow> Inr a)"

subsection \<open>A batch that is sent again changes nothing\<close>

definition receipt_of :: "uuid \<Rightarrow> uuid \<Rightarrow> db \<Rightarrow> sync_receipt option" where
  "receipt_of tenant i s = select_one (\<lambda>r. sr_unique r = Some (tenant, i)) (syncReceipts s)"

definition receipts_kept :: "uuid \<Rightarrow> db \<Rightarrow> db \<Rightarrow> bool" where
  "receipts_kept tenant s t \<longleftrightarrow> (\<forall>i r. receipt_of tenant i s = Some r \<longrightarrow> receipt_of tenant i t = Some r)"

text \<open>The receipt that an operation leaves behind, against the answer it gave.\<close>

definition receipted :: "uuid \<Rightarrow> offline_operation \<Rightarrow> bool \<times> json \<Rightarrow> db \<Rightarrow> bool" where
  "receipted tenant oo y s \<longleftrightarrow> (\<exists>r. receipt_of tenant (oo_id oo) s = Some r \<and> sr_jobId r = oo_jobId oo \<and> sr_type r = offline_type_name (oo_type oo) \<and>
     replayed_result (sr_result r) = (if fst y then snd y else replayed_result (Some (snd y))))"

lemma apply_operation_receipts: "syncReceipts (snd (apply_operation now tenant actor oo current s)) = syncReceipts s"
  by (simp add: apply_operation_def put_job_event_def split: offline_type.split option.split)

lemma receipt_of_put:
  "receipt_of tenant i (put_receipt r s) = (case receipt_of tenant i s of Some q \<Rightarrow> Some q | None \<Rightarrow> if sr_unique r = Some (tenant, i) then Some r else None)"
proof (cases "has_key sr_unique (sr_tenant r, sr_operationId r) (syncReceipts s)")
  case True
  then have "put_receipt r s = s" by (simp add: put_receipt_def insert_once_def sr_unique_def)
  moreover have "receipt_of tenant i s = None \<Longrightarrow> sr_unique r \<noteq> Some (tenant, i)"
    using True select_one_key_None [of sr_unique "(tenant, i)" "syncReceipts s"] unfolding receipt_of_def by (auto simp: sr_unique_def)
  ultimately show ?thesis by (simp split: option.split)
next
  case False
  then have "syncReceipts (put_receipt r s) = insert_row r (syncReceipts s)" by (simp add: put_receipt_def insert_once_def sr_unique_def insert_row_def)
  then show ?thesis unfolding receipt_of_def by (simp only: select_one_insert_row)
qed

lemma receipt_of_touch:
  assumes "\<And>r. sr_unique (f r) = sr_unique r"
  shows "receipt_of tenant i (touch_receipts (\<lambda>r. sr_unique r = Some k) f s) = (if k = (tenant, i) then map_option f (receipt_of tenant i s) else receipt_of tenant i s)"
proof -
  have "receipt_of tenant i (touch_receipts (\<lambda>r. sr_unique r = Some k) f s) = map_option (\<lambda>r. if sr_unique r = Some k then f r else r) (receipt_of tenant i s)"
    unfolding receipt_of_def touch_receipts_def by (simp add: select_one_update_where assms)
  moreover have "receipt_of tenant i s = Some r \<Longrightarrow> sr_unique r = Some (tenant, i)" for r unfolding receipt_of_def by (drule select_one_Some) simp
  ultimately show ?thesis by (cases "receipt_of tenant i s") auto
qed

lemma receipt_of_cong: "syncReceipts t = syncReceipts s \<Longrightarrow> receipt_of tenant i t = receipt_of tenant i s"
  by (simp add: receipt_of_def)

lemma sync_operation_new:
  assumes "receipt_of tenant (oo_id oo) s = None" and "sync_operation now tenant actor oo s = (r, s')"
  shows "receipts_kept tenant s s' \<and> (case r of Inl _ \<Rightarrow> True | Inr y \<Rightarrow> receipted tenant oo y s')"
proof -
  let ?s1 = "put_receipt (new_receipt tenant oo) s"
  have key: "sr_unique (new_receipt tenant oo) = Some (tenant, oo_id oo)" by (simp add: sr_unique_def new_receipt_def)
  have kept1: "receipts_kept tenant s ?s1" by (simp add: receipts_kept_def receipt_of_put)
  have mine: "receipt_of tenant (oo_id oo) ?s1 = Some (new_receipt tenant oo)" using assms(1) by (simp add: receipt_of_put key)
  consider "s' = ?s1" "\<exists>e. r = Inl e"
    | current e s2 where "apply_operation now tenant actor oo current ?s1 = (Inl e, s2)" "s' = s2" "r = Inl e"
    | current u s2 where "apply_operation now tenant actor oo current ?s1 = (Inr u, s2)"
        "s' = touch_receipts (\<lambda>r. sr_unique r = Some (tenant, oo_id oo)) (\<lambda>r. r\<lparr> sr_result := Some (operation_result oo) \<rparr>) s2" "r = Inr (False, operation_result oo)"
    using assms unfolding sync_operation_def receipt_of_def Let_def by (auto split: option.splits if_splits sum.splits prod.splits)
  then show ?thesis
  proof cases
    case 1
    then show ?thesis using kept1 by auto
  next
    case (2 current e s2)
    then have "syncReceipts s' = syncReceipts ?s1" using apply_operation_receipts [of now tenant actor oo current ?s1] by simp
    then show ?thesis using kept1 2(3) by (simp add: receipts_kept_def receipt_of_cong [of s' ?s1])
  next
    case (3 current u s2)
    then have same: "syncReceipts s2 = syncReceipts ?s1" using apply_operation_receipts [of now tenant actor oo current ?s1] by simp
    have now: "receipt_of tenant i s' = (if i = oo_id oo then map_option (\<lambda>r. r\<lparr> sr_result := Some (operation_result oo) \<rparr>) (receipt_of tenant i ?s1)
        else receipt_of tenant i ?s1)" for i
      unfolding 3(2) by (subst receipt_of_touch) (simp_all add: sr_unique_def receipt_of_cong [OF same] split: if_split)
    have "receipts_kept tenant s s'" using kept1 assms(1) by (auto simp: receipts_kept_def now)
    moreover have "receipted tenant oo (False, operation_result oo) s'" by (simp add: receipted_def now mine) (simp add: new_receipt_def)
    ultimately show ?thesis using 3(3) by simp
  qed
qed

lemma sync_operation_known:
  assumes "receipt_of tenant (oo_id oo) s = Some q"
  shows "sync_operation now tenant actor oo s =
    (if sr_jobId q \<noteq> oo_jobId oo \<or> sr_type q \<noteq> offline_type_name (oo_type oo)
     then (Inl (Conflict ''An operation ID cannot be reused for a different job or operation type''), s)
     else (Inr (True, replayed_result (sr_result q)), s))"
  using assms by (simp add: sync_operation_def receipt_of_def)

lemma sync_operation_receipted:
  assumes "sync_operation now tenant actor oo s = (r, s')"
  shows "receipts_kept tenant s s' \<and> (case r of Inl _ \<Rightarrow> True | Inr y \<Rightarrow> receipted tenant oo y s')"
proof (cases "receipt_of tenant (oo_id oo) s")
  case None
  then show ?thesis using assms by (rule sync_operation_new)
next
  case (Some q)
  then have "s' = s" "r = Inl (Conflict ''An operation ID cannot be reused for a different job or operation type'') \<or>
      (r = Inr (True, replayed_result (sr_result q)) \<and> sr_jobId q = oo_jobId oo \<and> sr_type q = offline_type_name (oo_type oo))"
    using assms by (auto simp: sync_operation_known split: if_splits)
  then show ?thesis using Some by (auto simp: receipts_kept_def receipted_def)
qed

lemma receipted_kept: "receipted tenant oo y s \<Longrightarrow> receipts_kept tenant s t \<Longrightarrow> receipted tenant oo y t"
  unfolding receipted_def receipts_kept_def by blast

definition replay_of :: "bool \<times> json \<Rightarrow> bool \<times> json" where
  "replay_of y = (True, if fst y then snd y else replayed_result (Some (snd y)))"

lemma sync_receipted_again: "receipted tenant oo y s \<Longrightarrow> sync_operation now tenant actor oo s = (Inr (replay_of y), s)"
  by (auto simp: receipted_def sync_operation_known replay_of_def)

lemma sync_all_again:
  "list_all2 (\<lambda>oo y. receipted tenant oo y s) ops rs \<Longrightarrow> map_op (sync_operation now tenant actor) ops s = (Inr (map replay_of rs), s)"
  by (induction ops rs rule: list_all2_induct) (simp_all add: sync_receipted_again)

text \<open>C35: operations that a device carried out offline take effect once: when a batch was accepted, sending it again, at any
  time, by any user, gives a report in which every operation is a replay of the answer it got, and leaves the database
  untouched.\<close>

theorem syncing_again_changes_nothing:
  assumes "sync_offline_operations now tenant actor ctx ops s = (Inr report, s')"
  shows "\<exists>rs. report = sync_report_of rs \<and> length rs = length ops \<and>
    sync_offline_operations now' tenant actor' ctx' ops s' = (Inr (sync_report_of (map replay_of rs)), s') \<and>
    sy_accepted (sync_report_of (map replay_of rs)) = 0"
proof -
  obtain rs s1 where n: "\<not> (length ops < 1 \<or> 100 < length ops)" and run: "map_op (sync_operation now tenant actor) ops s = (Inr rs, s1)"
    and report: "report = sync_report_of rs" and s': "syncReceipts s' = syncReceipts s1"
    using assms unfolding sync_offline_operations_def Let_def
    by (auto simp: transaction_Inr split: if_splits sum.splits prod.splits)
  have "receipts_kept tenant s s1 \<and> (case Inr rs of Inl (_ :: exn) \<Rightarrow> True | Inr ys \<Rightarrow> list_all2 (\<lambda>oo y. receipted tenant oo y s1) ops ys)"
  proof (rule map_op_results [OF run])
    show "sync_operation now tenant actor oo t = (r, t') \<Longrightarrow> receipts_kept tenant t t'" for oo t r t'
      using sync_operation_receipted by blast
    show "sync_operation now tenant actor oo t = (Inr y, t') \<Longrightarrow> receipted tenant oo y t'" for oo t y t'
      using sync_operation_receipted [of now tenant actor oo t "Inr y" t'] by simp
    show "receipts_kept tenant t t" for t by (simp add: receipts_kept_def)
    show "receipts_kept tenant t u \<Longrightarrow> receipts_kept tenant u v \<Longrightarrow> receipts_kept tenant t v" for t u v by (simp add: receipts_kept_def)
    show "receipted tenant oo y t \<Longrightarrow> receipts_kept tenant t u \<Longrightarrow> receipted tenant oo y u" for oo y t u by (rule receipted_kept)
  qed
  then have all: "list_all2 (\<lambda>oo y. receipted tenant oo y s1) ops rs" by simp
  then have "list_all2 (\<lambda>oo y. receipted tenant oo y s') ops rs"
    by (rule list_all2_mono) (simp add: receipted_def receipt_of_cong [OF s'])
  then have again: "map_op (sync_operation now' tenant actor') ops s' = (Inr (map replay_of rs), s')" by (rule sync_all_again)
  have zero: "sy_accepted (sync_report_of (map replay_of rs)) = 0" by (simp add: sync_report_of_def replay_of_def)
  have "sync_offline_operations now' tenant actor' ctx' ops s' = (Inr (sync_report_of (map replay_of rs)), s')"
    unfolding sync_offline_operations_def transaction_def using n again zero by (simp add: Let_def)
  then show ?thesis using report zero list_all2_lengthD [OF all] by auto
qed

definition sample_job :: network_job where
  "sample_job = \<lparr> nj_id = ''j'', nj_tenant = ''t'', nj_customerId = None, nj_siteId = None, nj_assignedUserId = None, nj_jobType = ''REPAIR'', nj_status = J_OPEN,
     nj_priority = ''NORMAL'', nj_title = ''Mast'', nj_description = None, nj_scheduledAt = None, nj_completedAt = None, nj_createdAt = 0 \<rparr>"

definition sample_operation :: offline_operation where
  "sample_operation = \<lparr> oo_id = ''o'', oo_jobId = ''j'', oo_type = STATUS_CHANGED, oo_status = Some J_IN_PROGRESS, oo_expectedStatus = Some J_OPEN,
     oo_note = None, oo_itemKey = None, oo_itemLabel = None, oo_checked = None \<rparr>"

theorem syncing_again_changes_nothing_witness:
  "\<exists>report s'. sync_offline_operations 5 ''t'' ''u'' no_context [sample_operation] (empty_db\<lparr> networkJobs := [sample_job] \<rparr>) = (Inr report, s') \<and>
     map nj_status (networkJobs s') = [J_IN_PROGRESS] \<and>
     snd (sync_offline_operations 9 ''t'' ''v'' no_context [sample_operation] s') = s'"
proof -
  let ?r = "sync_offline_operations 5 ''t'' ''u'' no_context [sample_operation] (empty_db\<lparr> networkJobs := [sample_job] \<rparr>)"
  have "fst ?r = Inr (projr (fst ?r))" and moved: "map nj_status (networkJobs (snd ?r)) = [J_IN_PROGRESS]" by code_simp+
  then have run: "?r = (Inr (projr (fst ?r)), snd ?r)" by (metis prod.collapse)
  have again: "snd (sync_offline_operations 9 ''t'' ''v'' no_context [sample_operation] (snd ?r)) = snd ?r"
    using syncing_again_changes_nothing [OF run, of 9 "''v''" no_context] by auto
  show ?thesis by (intro exI conjI) (rule run, rule moved, rule again)
qed

subsection \<open>The events of a job replay to its status\<close>

definition job_trail :: "uuid \<Rightarrow> uuid \<Rightarrow> db \<Rightarrow> (job_status option \<times> job_status) list" where
  "job_trail tenant i s = map (\<lambda>e. (jv_from e, jv_to e)) (filter (\<lambda>e. jv_tenant e = tenant \<and> jv_jobId e = i) (jobEvents s))"

fun trail_to :: "job_status option \<Rightarrow> (job_status option \<times> job_status) list \<Rightarrow> job_status option \<Rightarrow> bool" where
  "trail_to p [] q = (p = q)"
| "trail_to p ((f, t) # es) q = (f = p \<and> trail_to (Some t) es q)"

lemma trail_to_snoc [simp]: "trail_to p (es @ [(f, t)]) q \<longleftrightarrow> trail_to p es f \<and> q = Some t"
  by (induction p es q rule: trail_to.induct) auto

definition jobs_ok :: "db \<Rightarrow> bool" where
  "jobs_ok s \<longleftrightarrow> distinct (map nj_id (networkJobs s)) \<and> fresh_ids s (map nj_id (networkJobs s)) \<and>
     (\<forall>e\<in>set (jobEvents s). jv_jobId e \<in> nj_id ` set (networkJobs s)) \<and>
     (\<forall>j\<in>set (networkJobs s). trail_to None (job_trail (nj_tenant j) (nj_id j) s) (Some (nj_status j)))"

lemma jobs_ok_cong: "jobs_ok s \<Longrightarrow> networkJobs t = networkJobs s \<Longrightarrow> jobEvents t = jobEvents s \<Longrightarrow> next_id s \<le> next_id t \<Longrightarrow> jobs_ok t"
  by (auto simp: jobs_ok_def job_trail_def intro: fresh_ids_mono)

lemma found_job:
  assumes "jobs_ok s" and "select_one (is_job tenant i) (networkJobs s) = Some j"
  shows "j \<in> set (networkJobs s)" "nj_tenant j = tenant" "nj_id j = i" "\<And>q. q \<in> set (networkJobs s) \<Longrightarrow> is_job tenant i q \<longleftrightarrow> q = j"
proof -
  show j: "j \<in> set (networkJobs s)" "nj_tenant j = tenant" "nj_id j = i"
    using select_one_Some [OF assms(2)] by (simp_all add: is_job_def)
  show "\<And>q. q \<in> set (networkJobs s) \<Longrightarrow> is_job tenant i q \<longleftrightarrow> q = j"
    using j assms(1) distinct_key_unique [of nj_id "networkJobs s"] by (auto simp: jobs_ok_def is_job_def)
qed

lemma put_job_event_row:
  "\<exists>e. jobEvents (put_job_event now tenant job actor type from to note s) = insert_row e (jobEvents s) \<and>
     jv_tenant e = tenant \<and> jv_jobId e = job \<and> jv_from e = from \<and> jv_to e = to"
  by (rule exI [of _ "\<lparr> jv_tenant = tenant, jv_jobId = job, jv_actor = actor, jv_type = type, jv_from = from, jv_to = to, jv_note = note, jv_createdAt = now \<rparr>"])
    (simp add: put_job_event_def)

text \<open>A change of a job, with the event that records it.\<close>

lemma jobs_ok_change:
  assumes ok: "jobs_ok s" and j: "select_one (is_job tenant i) (networkJobs s) = Some j"
    and t: "networkJobs s' = update_where (is_job tenant i) f (networkJobs s)" and n: "next_id s \<le> next_id s'"
    and f: "nj_id (f j) = i" "nj_tenant (f j) = tenant"
    and events: "(jobEvents s' = jobEvents s \<and> nj_status (f j) = nj_status j) \<or>
      (\<exists>e. jobEvents s' = insert_row e (jobEvents s) \<and> jv_tenant e = tenant \<and> jv_jobId e = i \<and> jv_from e = Some (nj_status j) \<and> jv_to e = nj_status (f j))"
  shows "jobs_ok s'"
proof -
  note j' = found_job [OF ok j]
  have table: "networkJobs s' = map (\<lambda>q. if q = j then f j else q) (networkJobs s)"
    unfolding t update_where_def by (rule map_cong [OF refl]) (use j'(4) in auto)
  have ids: "map nj_id (networkJobs s') = map nj_id (networkJobs s)" unfolding table map_map using f(1) j'(3) by (intro map_cong) auto
  have idset: "nj_id ` set (networkJobs s') = nj_id ` set (networkJobs s)" using ids by (metis set_map)
  have i: "i \<in> nj_id ` set (networkJobs s)" using j'(1,3) by blast
  have trail: "trail_to None (job_trail (nj_tenant q) (nj_id q) s) (Some (nj_status q))" if "q \<in> set (networkJobs s)" for q
    using ok that by (simp add: jobs_ok_def)
  have other: "nj_id q \<noteq> i" if "q \<in> set (networkJobs s)" "q \<noteq> j" for q
    using ok that j'(1,3) distinct_key_unique [of nj_id "networkJobs s" q j] by (auto simp: jobs_ok_def)
  have "\<forall>e\<in>set (jobEvents s'). jv_jobId e \<in> nj_id ` set (networkJobs s')"
    using events ok i by (auto simp: jobs_ok_def idset)
  moreover have "trail_to None (job_trail (nj_tenant q) (nj_id q) s') (Some (nj_status q))" if q: "q \<in> set (networkJobs s')" for q
  proof (cases "nj_id q = i")
    case True
    then have qj: "q = f j" using q other j'(1) by (auto simp: table split: if_splits)
    have old: "trail_to None (job_trail tenant i s) (Some (nj_status j))" using trail [OF j'(1)] j'(2,3) by simp
    from events show ?thesis
    proof (elim disjE exE conjE)
      assume "jobEvents s' = jobEvents s" "nj_status (f j) = nj_status j"
      then show ?thesis using old qj f by (simp add: job_trail_def)
    next
      fix e assume e: "jobEvents s' = insert_row e (jobEvents s)" "jv_tenant e = tenant" "jv_jobId e = i" "jv_from e = Some (nj_status j)" "jv_to e = nj_status (f j)"
      have "job_trail tenant i s' = job_trail tenant i s @ [(Some (nj_status j), nj_status (f j))]" by (simp add: job_trail_def e insert_row_def)
      then show ?thesis using old qj f by simp
    qed
  next
    case False
    then have "q \<in> set (networkJobs s)" using q f(1) by (auto simp: table split: if_splits)
    moreover have "job_trail (nj_tenant q) (nj_id q) s' = job_trail (nj_tenant q) (nj_id q) s"
      using events False by (auto simp: job_trail_def insert_row_def)
    ultimately show ?thesis using trail by simp
  qed
  ultimately show ?thesis using ok n ids by (auto simp: jobs_ok_def idset intro: fresh_ids_mono)
qed

lemma create_job_ok:
  assumes ok: "jobs_ok s" and c: "create_job known now tenant input actor s = (r, s')"
  shows "jobs_ok s'"
proof (cases r)
  case (Inl e)
  then show ?thesis using assms by (auto simp: create_job_def Let_def split: if_splits)
next
  case (Inr row)
  then have row: "row = job_row (new_uuid s) now tenant input" and t: "networkJobs s' = insert_row row (networkJobs s)" and n: "next_id s' = next_id s + 1"
    and e: "\<exists>e. jobEvents s' = insert_row e (jobEvents s) \<and> jv_tenant e = tenant \<and> jv_jobId e = nj_id row \<and> jv_from e = None \<and> jv_to e = nj_status row"
    using c by (auto simp: create_job_def Let_def put_job_event_def split: if_splits)
  then obtain e where e: "jobEvents s' = insert_row e (jobEvents s)" "jv_tenant e = tenant" "jv_jobId e = nj_id row" "jv_from e = None" "jv_to e = nj_status row" by blast
  have id: "nj_id row = new_uuid s" "nj_tenant row = tenant" by (simp_all add: row job_row_def)
  have new: "new_uuid s \<notin> nj_id ` set (networkJobs s)" using ok fresh_ids_new [of s "map nj_id (networkJobs s)"] by (simp add: jobs_ok_def)
  then have none: "filter (\<lambda>e. jv_tenant e = tenant \<and> jv_jobId e = new_uuid s) (jobEvents s) = []" using ok by (force simp: jobs_ok_def filter_empty_conv)
  have "trail_to None (job_trail (nj_tenant q) (nj_id q) s') (Some (nj_status q))" if q: "q \<in> set (networkJobs s')" for q
  proof (cases "q = row")
    case True
    then show ?thesis using none by (simp add: job_trail_def e id insert_row_def)
  next
    case False
    then have q: "q \<in> set (networkJobs s)" using q t by simp
    have "nj_id q \<noteq> new_uuid s" using new imageI [OF q, of nj_id] by metis
    then have "job_trail (nj_tenant q) (nj_id q) s' = job_trail (nj_tenant q) (nj_id q) s" by (simp add: job_trail_def e id insert_row_def)
    then show ?thesis using ok q by (simp add: jobs_ok_def)
  qed
  moreover have "fresh_ids s' (map nj_id (networkJobs s) @ [new_uuid s])" using ok n by (intro fresh_ids_extend) (simp_all add: jobs_ok_def)
  ultimately show ?thesis using ok new by (auto simp: jobs_ok_def t e id insert_row_def)
qed

lemma update_job_ok:
  assumes ok: "jobs_ok s" and u: "update_job known now tenant i input actor s = (r, s')"
  shows "jobs_ok s'"
proof (cases r)
  case (Inl e)
  then show ?thesis using assms by (auto simp: update_job_def Let_def split: option.splits if_splits)
next
  case (Inr row)
  then obtain j where j: "select_one (is_job tenant i) (networkJobs s) = Some j"
    and s': "s' = (let s1 = s\<lparr> networkJobs := update_where (is_job tenant i) (\<lambda>_. updated_job now input j) (networkJobs s) \<rparr> in
       if nj_status (updated_job now input j) \<noteq> nj_status j \<or> (case ju_note input of None \<Rightarrow> False | Some n \<Rightarrow> n \<noteq> [])
       then put_job_event now tenant i actor (if nj_status (updated_job now input j) = nj_status j then ''NOTE'' else ''STATUS_CHANGED'')
              (Some (nj_status j)) (nj_status (updated_job now input j)) (trim_or_null (ju_note input)) s1
       else s1)"
    using u by (auto simp: update_job_def Let_def split: option.splits if_splits)
  have t: "networkJobs s' = update_where (is_job tenant i) (\<lambda>_. updated_job now input j) (networkJobs s)" and n: "next_id s' = next_id s"
    by (simp_all add: s' Let_def put_job_event_def)
  have e: "(jobEvents s' = jobEvents s \<and> nj_status (updated_job now input j) = nj_status j) \<or>
      (\<exists>e. jobEvents s' = insert_row e (jobEvents s) \<and> jv_tenant e = tenant \<and> jv_jobId e = i \<and> jv_from e = Some (nj_status j) \<and> jv_to e = nj_status (updated_job now input j))"
  proof (cases "nj_status (updated_job now input j) \<noteq> nj_status j \<or> (case ju_note input of None \<Rightarrow> False | Some n \<Rightarrow> n \<noteq> [])")
    case True
    have "\<exists>e. jobEvents s' = insert_row e (jobEvents (s\<lparr> networkJobs := update_where (is_job tenant i) (\<lambda>_. updated_job now input j) (networkJobs s) \<rparr>)) \<and>
        jv_tenant e = tenant \<and> jv_jobId e = i \<and> jv_from e = Some (nj_status j) \<and> jv_to e = nj_status (updated_job now input j)"
      unfolding s' Let_def if_P [OF True] by (rule put_job_event_row)
    then show ?thesis by simp
  next
    case False
    then show ?thesis by (simp add: s' Let_def)
  qed
  note j' = found_job [OF ok j]
  show ?thesis by (rule jobs_ok_change [OF ok j t]) (use n e j' in \<open>simp_all add: updated_job_def Let_def\<close>)
qed

text \<open>How the jobs of one state go on in another, when every change of a status is one of the allowed transitions.\<close>

definition allowed_step :: "(job_status \<times> job_status) set" where
  "allowed_step = {(a, b). b \<in> set (allowed_transitions a)}"

definition jobs_move :: "db \<Rightarrow> db \<Rightarrow> bool" where
  "jobs_move s s' \<longleftrightarrow> (\<forall>j\<in>set (networkJobs s). \<exists>j'\<in>set (networkJobs s'). nj_id j' = nj_id j \<and> nj_tenant j' = nj_tenant j \<and>
     (nj_status j, nj_status j') \<in> allowed_step\<^sup>*)"

lemma jobs_move_same: "networkJobs s' = networkJobs s \<Longrightarrow> jobs_move s s'"
  unfolding jobs_move_def by auto

lemma jobs_move_trans: "jobs_move s t \<Longrightarrow> jobs_move t u \<Longrightarrow> jobs_move s u"
  unfolding jobs_move_def by (metis rtrancl_trans)

lemma update_where_ident: "update_where P (\<lambda>x. x) t = t"
  by (simp add: update_where_def)

lemma apply_operation_ok:
  assumes ok: "jobs_ok s" and j: "select_one (is_job tenant (oo_jobId oo)) (networkJobs s) = Some j"
    and a: "apply_operation now tenant actor oo (nj_status j) s = (r, s')"
  shows "jobs_ok s' \<and> jobs_move s s'"
proof -
  note j' = found_job [OF ok j]
  let ?i = "oo_jobId oo"
  consider "networkJobs s' = networkJobs s" "jobEvents s' = jobEvents s" "next_id s' = next_id s"
    | type remark where "s' = put_job_event now tenant ?i actor type (Some (nj_status j)) (nj_status j) remark s"
    | st type remark where "st \<in> set (allowed_transitions (nj_status j))"
        "s' = put_job_event now tenant ?i actor type (Some (nj_status j)) st remark (s\<lparr> networkJobs := update_where (is_job tenant ?i) (status_row now st) (networkJobs s) \<rparr>)"
    using a by (auto simp: apply_operation_def split: offline_type.splits option.splits if_splits)
  then show ?thesis
  proof cases
    case 1
    then show ?thesis using jobs_ok_cong [OF ok] jobs_move_same by simp
  next
    case (2 type remark)
    have t: "networkJobs s' = update_where (is_job tenant ?i) (\<lambda>x. x) (networkJobs s)" "next_id s \<le> next_id s'"
      by (simp_all add: 2 put_job_event_def update_where_ident)
    have "\<exists>e. jobEvents s' = insert_row e (jobEvents s) \<and> jv_tenant e = tenant \<and> jv_jobId e = ?i \<and> jv_from e = Some (nj_status j) \<and> jv_to e = nj_status j"
      unfolding 2 by (rule put_job_event_row)
    then have "jobs_ok s'" using jobs_ok_change [OF ok j t] j' by simp
    then show ?thesis using t by (simp add: update_where_ident jobs_move_same)
  next
    case (3 st type remark)
    let ?s1 = "s\<lparr> networkJobs := update_where (is_job tenant ?i) (status_row now st) (networkJobs s) \<rparr>"
    have t: "networkJobs s' = update_where (is_job tenant ?i) (status_row now st) (networkJobs s)" "next_id s \<le> next_id s'"
      by (simp_all add: 3(2) put_job_event_def)
    have "\<exists>e. jobEvents s' = insert_row e (jobEvents ?s1) \<and> jv_tenant e = tenant \<and> jv_jobId e = ?i \<and> jv_from e = Some (nj_status j) \<and> jv_to e = st"
      unfolding 3(2) by (rule put_job_event_row)
    then have "jobs_ok s'" using jobs_ok_change [OF ok j t] j' by (simp add: status_row_def)
    moreover have "jobs_move s s'"
      unfolding jobs_move_def
    proof
      fix q assume q: "q \<in> set (networkJobs s)"
      let ?q = "if is_job tenant ?i q then status_row now st q else q"
      have "(nj_status q, nj_status ?q) \<in> allowed_step\<^sup>*"
        using j'(4) [OF q] 3(1) by (auto simp: status_row_def allowed_step_def)
      moreover have "?q \<in> set (networkJobs s')" unfolding t in_update_where using q by blast
      moreover have "nj_id ?q = nj_id q" "nj_tenant ?q = nj_tenant q" by (simp_all add: status_row_def)
      ultimately show "\<exists>j'\<in>set (networkJobs s'). nj_id j' = nj_id q \<and> nj_tenant j' = nj_tenant q \<and> (nj_status q, nj_status j') \<in> allowed_step\<^sup>*" by blast
    qed
    ultimately show ?thesis ..
  qed
qed

lemma sync_operation_ok:
  assumes ok: "jobs_ok s" and y: "sync_operation now tenant actor oo s = (r, s')"
  shows "jobs_ok s' \<and> jobs_move s s'"
proof -
  let ?s1 = "put_receipt (new_receipt tenant oo) s"
  have same: "networkJobs ?s1 = networkJobs s" "jobEvents ?s1 = jobEvents s" "next_id ?s1 = next_id s" by (simp_all add: put_receipt_def)
  have ok1: "jobs_ok ?s1" "jobs_move s ?s1" using jobs_ok_cong [OF ok same(1,2)] jobs_move_same [OF same(1)] same by simp_all
  consider "s' = s" | "s' = ?s1"
    | j r2 s2 where "select_one (is_job tenant (oo_jobId oo)) (networkJobs ?s1) = Some j" "apply_operation now tenant actor oo (nj_status j) ?s1 = (r2, s2)"
        "networkJobs s' = networkJobs s2" "jobEvents s' = jobEvents s2" "next_id s' = next_id s2"
    using y unfolding sync_operation_def Let_def by (auto simp: touch_receipts_def split: option.splits if_splits sum.splits prod.splits)
  then show ?thesis
  proof cases
    case 1
    then show ?thesis using ok jobs_move_same by simp
  next
    case 2
    then show ?thesis using ok1 by simp
  next
    case (3 j r2 s2)
    have "jobs_ok s2" "jobs_move ?s1 s2" using apply_operation_ok [OF ok1(1) 3(1,2)] by simp_all
    then show ?thesis using jobs_ok_cong [of s2 s'] jobs_move_same [of s' s2] 3(3-5) ok1(2) jobs_move_trans by (metis order_refl)
  qed
qed

lemma sync_ok:
  assumes ok: "jobs_ok s" and y: "sync_offline_operations now tenant actor ctx ops s = (r, s')"
  shows "jobs_ok s' \<and> jobs_move s s'"
proof (cases r)
  case (Inl e)
  then have "s' = s" using y by (auto simp: sync_offline_operations_def split: if_splits dest: transaction_error)
  then show ?thesis using ok jobs_move_same by simp
next
  case (Inr report)
  then obtain rs s1 where run: "map_op (sync_operation now tenant actor) ops s = (Inr rs, s1)"
    and same: "networkJobs s' = networkJobs s1" "jobEvents s' = jobEvents s1" "next_id s1 \<le> next_id s'"
    using y unfolding sync_offline_operations_def Let_def
    by (auto simp: transaction_Inr split: if_splits sum.splits prod.splits)
  have "jobs_ok s1 \<and> jobs_move s s1"
    by (rule map_op_invariant [OF _ _ run]) (use ok jobs_move_same sync_operation_ok jobs_move_trans in blast)+
  then show ?thesis using jobs_ok_cong [of s1 s'] jobs_move_same [of s' s1] same jobs_move_trans by blast
qed

inductive job_step :: "db \<Rightarrow> db \<Rightarrow> bool" where
  step_create_job: "create_job known now tenant input actor s = (r, s') \<Longrightarrow> job_step s s'"
| step_update_job: "update_job known now tenant i changes actor s = (r, s') \<Longrightarrow> job_step s s'"
| step_sync: "sync_offline_operations now tenant actor ctx ops s = (r, s') \<Longrightarrow> job_step s s'"

lemma job_step_ok: "job_step s s' \<Longrightarrow> jobs_ok s \<Longrightarrow> jobs_ok s'"
proof (induction rule: job_step.induct)
  case step_create_job
  then show ?case by (rule create_job_ok [rotated])
next
  case step_update_job
  then show ?case by (rule update_job_ok [rotated])
next
  case step_sync
  then show ?case using sync_ok by blast
qed

text \<open>C36: however jobs are created, changed and synchronised, the events of a job always tell its history: they start with its
  creation, each goes on from the status the one before it led to, and the last leads to the status the job has.\<close>

theorem job_events_replay:
  assumes "job_step\<^sup>*\<^sup>* s s'" and "jobs_ok s" and "j \<in> set (networkJobs s')"
  shows "trail_to None (job_trail (nj_tenant j) (nj_id j) s') (Some (nj_status j))"
proof -
  from assms(1,2) have "jobs_ok s'" by (induction rule: rtranclp_induct) (simp_all add: job_step_ok)
  then show ?thesis using assms(3) by (simp add: jobs_ok_def)
qed

definition sample_job_input :: job_input where
  "sample_job_input = \<lparr> ji_customerId = None, ji_siteId = None, ji_assignedUserId = None, ji_jobType = ''REPAIR'', ji_priority = None, ji_title = ''Mast'',
     ji_description = None, ji_scheduledAt = None \<rparr>"

theorem job_events_replay_witness:
  "\<exists>s'. job_step\<^sup>*\<^sup>* empty_db s' \<and> length (networkJobs s') = 1 \<and>
     list_all (\<lambda>j. trail_to None (job_trail (nj_tenant j) (nj_id j) s') (Some (nj_status j))) (networkJobs s')"
proof -
  let ?r = "create_job (\<lambda>_ _. True) 0 ''t'' sample_job_input ''u'' empty_db"
  have "job_step empty_db (snd ?r)" by (rule step_create_job) (rule prod.collapse [symmetric])
  then have step: "job_step\<^sup>*\<^sup>* empty_db (snd ?r)" by (rule r_into_rtranclp)
  have "jobs_ok empty_db" by (simp add: jobs_ok_def empty_db_def fresh_ids_def)
  then have "list_all (\<lambda>j. trail_to None (job_trail (nj_tenant j) (nj_id j) (snd ?r)) (Some (nj_status j))) (networkJobs (snd ?r))"
    unfolding list_all_iff using job_events_replay [OF step] by blast
  moreover have "length (networkJobs (snd ?r)) = 1" by (simp add: create_job_def Let_def put_job_event_def insert_row_def empty_db_def)
  ultimately show ?thesis using step by blast
qed

text \<open>What devices report offline keeps to the transitions of a work order: every job goes on along allowed transitions, so
  one that is completed or canceled stays as it is. Changing the job directly does not: any status leads to any other,
  and a completed job can be opened again.\<close>

theorem only_offline_changes_follow_the_transitions:
  assumes "jobs_ok s"
  shows "jobs_move s (snd (sync_offline_operations now tenant actor ctx ops s)) \<and>
    (\<forall>j\<in>set (networkJobs s). nj_status j \<in> {J_COMPLETED, J_CANCELED} \<longrightarrow>
       (\<exists>j'\<in>set (networkJobs (snd (sync_offline_operations now tenant actor ctx ops s))). nj_id j' = nj_id j \<and> nj_status j' = nj_status j)) \<and>
    (\<forall>j\<in>set (networkJobs s). \<forall>st. \<exists>j'. fst (update_job (\<lambda>_ _. True) now (nj_tenant j) (nj_id j)
       \<lparr> ju_assignedUserId = None, ju_priority = None, ju_status = Some st, ju_description = None, ju_scheduledAt = None, ju_note = None \<rparr> actor s) = Inr j' \<and>
       nj_status j' = st)"
proof -
  let ?s' = "snd (sync_offline_operations now tenant actor ctx ops s)"
  have move: "jobs_move s ?s'" using sync_ok [OF assms, of now tenant actor ctx ops "fst (sync_offline_operations now tenant actor ctx ops s)" ?s'] by simp
  have final: "b = a" if "(a, b) \<in> allowed_step\<^sup>*" "a \<in> {J_COMPLETED, J_CANCELED}" for a b
    using that by (induction rule: rtrancl_induct) (auto simp: allowed_step_def)
  have closed: "\<exists>j'\<in>set (networkJobs ?s'). nj_id j' = nj_id j \<and> nj_status j' = nj_status j"
    if "j \<in> set (networkJobs s)" "nj_status j \<in> {J_COMPLETED, J_CANCELED}" for j
    using move that final unfolding jobs_move_def by metis
  have free: "\<exists>j'. fst (update_job (\<lambda>_ _. True) now (nj_tenant j) (nj_id j)
      \<lparr> ju_assignedUserId = None, ju_priority = None, ju_status = Some st, ju_description = None, ju_scheduledAt = None, ju_note = None \<rparr> actor s) = Inr j' \<and>
      nj_status j' = st" if "j \<in> set (networkJobs s)" for j st
  proof -
    have "select_one (is_job (nj_tenant j) (nj_id j)) (networkJobs s) \<noteq> None" using that by (auto simp: select_one_None is_job_def)
    then show ?thesis by (auto simp: update_job_def Let_def updated_job_def or_value_def)
  qed
  show ?thesis using move closed free by blast
qed

theorem only_offline_changes_follow_the_transitions_witness:
  "jobs_ok empty_db \<and> jobs_move empty_db (snd (sync_offline_operations 5 ''t'' ''u'' no_context [sample_operation] empty_db))"
proof -
  have "jobs_ok empty_db" by (simp add: jobs_ok_def empty_db_def fresh_ids_def)
  then show ?thesis using only_offline_changes_follow_the_transitions [of empty_db 5 "''t''" "''u''" no_context "[sample_operation]"] by blast
qed

end
