(* ===== verification/WorkflowSteps.thy ===== *)
theory WorkflowSteps
  imports AuditTrail Texts "HOL-Library.AList"
begin

text \<open>
  The definition of a workflow and the data of a run (\<open>workflows/workflows.service.ts\<close>, its private helpers): validation and
  normalisation of steps, paths into the payload, conditions, and the addresses a request may go to. The payload is a
  graph of objects that steps share and change in place, so it is kept as a store: a value is either a document without
  objects of its own or the address of an object. How numbers and documents are written as text are the parameters of
  \<open>text_lib\<close>.
\<close>

record text_lib =
  tl_show :: "rat \<Rightarrow> string"
  tl_render :: "json \<Rightarrow> string"

subsection \<open>Steps\<close>

datatype step =
    Condition string string "json option" string jsnum
  | Transform "(string \<times> string) list"
  | Http_request string string string json string
  | Notify string string string string string
  | Create_alert string string json
  | Approval string json
  | Emit_webhook string json
  | Wait int
  | Log string

definition en_dash :: string where
  "en_dash = map char_of [226, 128, 147 :: nat]"

type_synonym properties = "(string \<times> json) list"

text \<open>\<open>s.k ?? d\<close>, and the text of it\<close>

definition field_or :: "properties \<Rightarrow> string \<Rightarrow> json \<Rightarrow> json" where
  "field_or kvs k d = (case map_of kvs k of None \<Rightarrow> d | Some JNull \<Rightarrow> d | Some v \<Rightarrow> v)"

definition text_field :: "text_lib \<Rightarrow> properties \<Rightarrow> string \<Rightarrow> string \<Rightarrow> string" where
  "text_field lib kvs k d = text_of (tl_show lib) (field_or kvs k (JStr d))"

definition object_or_empty :: "properties \<Rightarrow> string \<Rightarrow> json" where
  "object_or_empty kvs k = (case map_of kvs k of Some (JObj o') \<Rightarrow> JObj o' | _ \<Rightarrow> JObj [])"

definition in_range :: "char \<Rightarrow> char \<Rightarrow> char \<Rightarrow> bool" where
  "in_range lo hi c \<longleftrightarrow> (of_char lo :: nat) \<le> of_char c \<and> of_char c \<le> (of_char hi :: nat)"

definition word_char :: "char \<Rightarrow> bool" where
  "word_char c \<longleftrightarrow> in_range (CHR ''A'') (CHR ''Z'') c \<or> in_range (CHR ''a'') (CHR ''z'') c \<or> in_range (CHR ''0'') (CHR ''9'') c \<or> c = CHR ''_'' \<or> c = CHR ''-''"

definition reserved_part :: "string \<Rightarrow> bool" where
  "reserved_part p \<longleftrightarrow> p \<in> {''__proto__'', ''prototype'', ''constructor''}"

definition valid_condition_path :: "string \<Rightarrow> bool" where
  "valid_condition_path p \<longleftrightarrow> 1 \<le> length p \<and> length p \<le> 120 \<and> list_all (\<lambda>c. word_char c \<or> c = CHR ''.'') p \<and>
     \<not> list_ex reserved_part (split_on (CHR ''.'') p)"

definition valid_path :: "string \<Rightarrow> bool" where
  "valid_path p \<longleftrightarrow> list_all (\<lambda>w. 1 \<le> length w \<and> length w \<le> 80 \<and> list_all word_char w) (split_on (CHR ''.'') p) \<and>
     \<not> list_ex reserved_part (split_on (CHR ''.'') p)"

definition valid_event_type :: "string \<Rightarrow> bool" where
  "valid_event_type t \<longleftrightarrow>
     (case t of
        [] \<Rightarrow> False
      | c # cs \<Rightarrow> in_range (CHR ''A'') (CHR ''Z'') c \<and> 1 \<le> length cs \<and> length cs \<le> 119 \<and>
          list_all (\<lambda>c. in_range (CHR ''A'') (CHR ''Z'') c \<or> in_range (CHR ''0'') (CHR ''9'') c \<or> c = CHR ''_'' \<or> c = CHR ''.'' \<or> c = CHR ''-'') cs)"

text \<open>The part of a path before its query or fragment.\<close>

definition plain_path :: "string \<Rightarrow> string" where
  "plain_path p = takeWhile (\<lambda>c. c \<noteq> CHR 0x3f \<and> c \<noteq> CHR 0x23) p"

definition safe_request_path :: "string \<Rightarrow> bool" where
  "safe_request_path p \<longleftrightarrow> take 1 p = ''/'' \<and> take 2 p \<noteq> ''//'' \<and> ''..'' \<notin> set (split_on (CHR ''/'') (plain_path p))"

definition whole_between :: "jsnum \<Rightarrow> int \<Rightarrow> int \<Rightarrow> bool" where
  "whole_between n lo hi \<longleftrightarrow> (case n of Fin r \<Rightarrow> r = of_int \<lfloor>r\<rfloor> \<and> of_int lo \<le> r \<and> r \<le> of_int hi | _ \<Rightarrow> False)"

definition validate_condition :: "text_lib \<Rightarrow> properties \<Rightarrow> step result" where
  "validate_condition lib kvs =
     (let path = text_field lib kvs ''path'' []; op = text_field lib kvs ''op'' []; onFalse = js_upper (text_field lib kvs ''onFalse'' ''STOP'');
          skip = number_of (tl_show lib) (field_or kvs ''skipSteps'' (JNum 1)) in
      if \<not> valid_condition_path path then Inl (BadRequest ''Condition path is invalid'')
      else if op \<notin> {''eq'', ''neq'', ''gt'', ''gte'', ''lt'', ''lte'', ''exists'', ''contains''} then Inl (BadRequest ''Condition operator is unsupported'')
      else if op \<noteq> ''exists'' \<and> map_of kvs ''value'' = None then Inl (BadRequest ''Condition value is required'')
      else if onFalse \<notin> {''STOP'', ''SKIP''} then Inl (BadRequest ''Condition onFalse must be STOP or SKIP'')
      else if onFalse = ''SKIP'' \<and> \<not> whole_between skip 1 29
      then Inl (BadRequest (''Condition skipSteps must be 1'' @ en_dash @ ''29 when onFalse is SKIP''))
      else Inr (Condition path op (map_of kvs ''value'') onFalse skip))"

fun validate_mappings :: "text_lib \<Rightarrow> json list \<Rightarrow> (string \<times> string) list result" where
  "validate_mappings lib [] = Inr []"
| "validate_mappings lib (m # ms) =
     (case m of
        JObj kvs \<Rightarrow>
          (let from = text_field lib kvs ''from'' []; to = text_field lib kvs ''to'' [] in
           if \<not> valid_path from then Inl (BadRequest ''TRANSFORM source path is invalid'')
           else if \<not> valid_path to then Inl (BadRequest ''TRANSFORM target path is invalid'')
           else (case validate_mappings lib ms of Inl e \<Rightarrow> Inl e | Inr rest \<Rightarrow> Inr ((from, to) # rest)))
      | _ \<Rightarrow> Inl (BadRequest ''Each TRANSFORM mapping must be an object''))"

definition validate_transform :: "text_lib \<Rightarrow> properties \<Rightarrow> step result" where
  "validate_transform lib kvs =
     (case map_of kvs ''mappings'' of
        Some (JArr ms) \<Rightarrow>
          if length ms < 1 \<or> 30 < length ms then Inl (BadRequest (''TRANSFORM requires 1'' @ en_dash @ ''30 field mappings''))
          else map_sum id Transform (validate_mappings lib ms)
      | _ \<Rightarrow> Inl (BadRequest (''TRANSFORM requires 1'' @ en_dash @ ''30 field mappings'')))"

definition validate_http :: "text_lib \<Rightarrow> properties \<Rightarrow> step result" where
  "validate_http lib kvs =
     (let integration = text_field lib kvs ''integrationId'' []; verb = js_upper (text_field lib kvs ''method'' ''GET''); path = text_field lib kvs ''path'' [];
          body = (case map_of kvs ''body'' of None \<Rightarrow> JObj [] | Some b \<Rightarrow> b); outputKey = text_field lib kvs ''outputKey'' [] in
      if \<not> is_uuid integration then Inl (BadRequest ''HTTP_REQUEST requires an integration UUID'')
      else if verb \<notin> {''GET'', ''POST'', ''PUT'', ''PATCH'', ''DELETE''} then Inl (BadRequest ''HTTP_REQUEST method is unsupported'')
      else if \<not> safe_request_path path then Inl (BadRequest ''HTTP_REQUEST path must be a safe relative path beginning with /'')
      else if (case body of JObj _ \<Rightarrow> 16384 < length (tl_render lib body) | _ \<Rightarrow> True)
      then Inl (BadRequest ''HTTP_REQUEST body must be a JSON object no larger than 16 KB'')
      else if outputKey \<noteq> [] \<and> \<not> (length outputKey \<le> 80 \<and> list_all word_char outputKey) then Inl (BadRequest ''HTTP_REQUEST outputKey is invalid'')
      else Inr (Http_request integration verb path body outputKey))"

definition validate_notify :: "text_lib \<Rightarrow> properties \<Rightarrow> step result" where
  "validate_notify lib kvs =
     (let channel = js_upper (text_field lib kvs ''channel'' []); recipientPath = text_field lib kvs ''recipientPath'' [];
          eventType = js_upper (js_trim (text_field lib kvs ''eventType'' ''WORKFLOW.NOTIFICATION'')); message = js_trim (text_field lib kvs ''message'' []);
          category = js_upper (text_field lib kvs ''category'' ''TRANSACTIONAL'') in
      if channel \<notin> {''SMS'', ''EMAIL'', ''WHATSAPP'', ''WEBHOOK''} then Inl (BadRequest ''NOTIFY channel is unsupported'')
      else if \<not> valid_path recipientPath then Inl (BadRequest ''NOTIFY recipientPath is invalid'')
      else if \<not> valid_event_type eventType then Inl (BadRequest ''NOTIFY eventType is invalid'')
      else if message = [] \<or> 1600 < length message then Inl (BadRequest (''NOTIFY message must be 1'' @ en_dash @ ''1600 characters''))
      else if category \<notin> {''TRANSACTIONAL'', ''EXPIRY'', ''PAYMENT'', ''PURCHASE'', ''MARKETING''} then Inl (BadRequest ''NOTIFY SMS category is unsupported'')
      else Inr (Notify channel recipientPath eventType message category))"

definition validate_alert :: "text_lib \<Rightarrow> properties \<Rightarrow> step result" where
  "validate_alert lib kvs =
     (let severity = js_upper (text_field lib kvs ''severity'' ''HIGH''); title = js_trim (text_field lib kvs ''title'' []) in
      if severity \<notin> {''CRITICAL'', ''HIGH'', ''MEDIUM'', ''LOW'', ''INFO''} \<or> length title < 3 \<or> 180 < length title
      then Inl (BadRequest (''CREATE_ALERT requires a valid severity and 3'' @ en_dash @ ''180 character title''))
      else Inr (Create_alert severity title (object_or_empty kvs ''details'')))"

definition validate_approval :: "text_lib \<Rightarrow> properties \<Rightarrow> step result" where
  "validate_approval lib kvs =
     (let title = js_trim (text_field lib kvs ''title'' []) in
      if length title < 3 \<or> 180 < length title then Inl (BadRequest (''APPROVAL requires a title of 3'' @ en_dash @ ''180 characters''))
      else Inr (Approval title (object_or_empty kvs ''details'')))"

definition validate_emit :: "text_lib \<Rightarrow> properties \<Rightarrow> step result" where
  "validate_emit lib kvs =
     (let eventType = js_upper (js_trim (text_field lib kvs ''eventType'' [])) in
      if \<not> valid_event_type eventType then Inl (BadRequest ''EMIT_WEBHOOK requires a valid eventType'')
      else Inr (Emit_webhook eventType (object_or_empty kvs ''payload'')))"

definition validate_wait :: "text_lib \<Rightarrow> properties \<Rightarrow> step result" where
  "validate_wait lib kvs =
     (let seconds = (case map_of kvs ''seconds'' of None \<Rightarrow> NaN | Some v \<Rightarrow> number_of (tl_show lib) v) in
      if \<not> whole_between seconds 1 86400 then Inl (BadRequest ''WAIT seconds must be between 1 and 86400'')
      else Inr (Wait \<lfloor>fin_val seconds\<rfloor>))"

definition validate_log :: "text_lib \<Rightarrow> properties \<Rightarrow> step result" where
  "validate_log lib kvs =
     (let message = js_trim (text_field lib kvs ''message'' []) in
      if message = [] \<or> 500 < length message then Inl (BadRequest (''LOG message must be 1'' @ en_dash @ ''500 characters''))
      else Inr (Log message))"

definition validate_step :: "text_lib \<Rightarrow> nat \<Rightarrow> json \<Rightarrow> step result" where
  "validate_step lib index item =
     (case item of
        JObj kvs \<Rightarrow>
          (let type = js_upper (text_field lib kvs ''type'' []) in
           if type = ''CONDITION'' then validate_condition lib kvs
           else if type = ''TRANSFORM'' then validate_transform lib kvs
           else if type = ''HTTP_REQUEST'' then validate_http lib kvs
           else if type = ''NOTIFY'' then validate_notify lib kvs
           else if type = ''CREATE_ALERT'' then validate_alert lib kvs
           else if type = ''APPROVAL'' then validate_approval lib kvs
           else if type = ''EMIT_WEBHOOK'' then validate_emit lib kvs
           else if type = ''WAIT'' then validate_wait lib kvs
           else if type = ''LOG'' then validate_log lib kvs
           else Inl (BadRequest ''Allowed workflow steps: CONDITION, TRANSFORM, HTTP_REQUEST, NOTIFY, CREATE_ALERT, APPROVAL, EMIT_WEBHOOK, WAIT, LOG''))
      | _ \<Rightarrow> Inl (BadRequest (''Step '' @ nat_str (index + 1) @ '' must be an object'')))"

fun validate_from :: "text_lib \<Rightarrow> nat \<Rightarrow> json list \<Rightarrow> step list result" where
  "validate_from lib index [] = Inr []"
| "validate_from lib index (item # items) =
     (case validate_step lib index item of
        Inl e \<Rightarrow> Inl e
      | Inr st \<Rightarrow> (case validate_from lib (index + 1) items of Inl e \<Rightarrow> Inl e | Inr sts \<Rightarrow> Inr (st # sts)))"

definition validate_steps :: "text_lib \<Rightarrow> json \<Rightarrow> step list result" where
  "validate_steps lib raw =
     (case raw of
        JArr items \<Rightarrow>
          if length items < 1 \<or> 30 < length items then Inl (BadRequest (''Workflow must contain 1'' @ en_dash @ ''30 steps''))
          else validate_from lib 0 items
      | _ \<Rightarrow> Inl (BadRequest (''Workflow must contain 1'' @ en_dash @ ''30 steps'')))"

text \<open>The document that is stored for a validated step: a missing value disappears, a number that is not finite becomes null.\<close>

definition number_json :: "jsnum \<Rightarrow> json" where
  "number_json n = (case n of Fin r \<Rightarrow> JNum r | _ \<Rightarrow> JNull)"

fun step_json :: "step \<Rightarrow> json" where
  "step_json (Condition path op v onFalse skip) = JObj ([(''type'', JStr ''CONDITION''), (''path'', JStr path), (''op'', JStr op)] @
     (case v of None \<Rightarrow> [] | Some x \<Rightarrow> [(''value'', x)]) @ [(''onFalse'', JStr onFalse), (''skipSteps'', number_json skip)])"
| "step_json (Transform ms) = JObj [(''type'', JStr ''TRANSFORM''),
     (''mappings'', JArr (map (\<lambda>m. JObj [(''from'', JStr (fst m)), (''to'', JStr (snd m))]) ms))]"
| "step_json (Http_request integration verb path body outputKey) = JObj [(''type'', JStr ''HTTP_REQUEST''), (''integrationId'', JStr integration),
     (''method'', JStr verb), (''path'', JStr path), (''body'', body), (''outputKey'', JStr outputKey)]"
| "step_json (Notify channel recipientPath eventType message category) = JObj [(''type'', JStr ''NOTIFY''), (''channel'', JStr channel),
     (''recipientPath'', JStr recipientPath), (''eventType'', JStr eventType), (''message'', JStr message), (''category'', JStr category)]"
| "step_json (Create_alert severity title details) = JObj [(''type'', JStr ''CREATE_ALERT''), (''severity'', JStr severity), (''title'', JStr title), (''details'', details)]"
| "step_json (Approval title details) = JObj [(''type'', JStr ''APPROVAL''), (''title'', JStr title), (''details'', details)]"
| "step_json (Emit_webhook eventType payload) = JObj [(''type'', JStr ''EMIT_WEBHOOK''), (''eventType'', JStr eventType), (''payload'', payload)]"
| "step_json (Wait seconds) = JObj [(''type'', JStr ''WAIT''), (''seconds'', JNum (of_int seconds))]"
| "step_json (Log message) = JObj [(''type'', JStr ''LOG''), (''message'', JStr message)]"

definition steps_json :: "step list \<Rightarrow> json" where
  "steps_json sts = JArr (map step_json sts)"

subsection \<open>The payload of a run\<close>

text \<open>An object is the list of its properties; \<open>Atom\<close> holds every document that is not an object.\<close>

datatype cell = Atom json | Ref nat

type_synonym store = "(string \<times> cell) list list"

fun load :: "json \<Rightarrow> store \<Rightarrow> cell \<times> store"
  and load_all :: "(string \<times> json) list \<Rightarrow> store \<Rightarrow> (string \<times> cell) list \<times> store" where
  "load (JObj kvs) h = (let (cells, h1) = load_all kvs h in (Ref (length h1), h1 @ [cells]))"
| "load v h = (Atom v, h)"
| "load_all [] h = ([], h)"
| "load_all ((k, v) # kvs) h =
     (let (c, h1) = load v h; (cs, h2) = load_all kvs h1 in ((k, c) # cs, h2))"

text \<open>\<open>JSON.stringify\<close>: a path through more objects than there are goes through one of them twice, which is an exception.\<close>

fun unload :: "store \<Rightarrow> nat \<Rightarrow> cell \<Rightarrow> json option"
  and unload_all :: "store \<Rightarrow> nat \<Rightarrow> (string \<times> cell) list \<Rightarrow> (string \<times> json) list option" where
  "unload h n (Atom v) = Some v"
| "unload h 0 (Ref a) = None"
| "unload h (Suc n) (Ref a) = (if a < length h then map_option JObj (unload_all h n (h ! a)) else None)"
| "unload_all h n [] = Some []"
| "unload_all h n ((k, c) # cs) =
     (case unload h n c of
        None \<Rightarrow> None
      | Some v \<Rightarrow> (case unload_all h n cs of None \<Rightarrow> None | Some kvs \<Rightarrow> Some ((k, v) # kvs)))"

definition stringify :: "store \<Rightarrow> cell \<Rightarrow> json result" where
  "stringify h c = (case unload h (length h) c of None \<Rightarrow> Inl (PlainError ''Converting circular structure to JSON'') | Some v \<Rightarrow> Inr v)"

text \<open>\<open>valueAt\<close> and \<open>setValueAt\<close>: the target is the object at an address.\<close>

fun walk :: "store \<Rightarrow> cell \<Rightarrow> string list \<Rightarrow> cell option" where
  "walk h c [] = Some c"
| "walk h (Atom v) (p # ps) = None"
| "walk h (Ref a) (p # ps) = (if a < length h then (case map_of (h ! a) p of None \<Rightarrow> None | Some c \<Rightarrow> walk h c ps) else None)"

definition value_at :: "store \<Rightarrow> nat \<Rightarrow> string \<Rightarrow> cell option" where
  "value_at h base path = walk h (Ref base) (split_on (CHR ''.'') path)"

definition set_property :: "store \<Rightarrow> nat \<Rightarrow> string \<Rightarrow> cell \<Rightarrow> store" where
  "set_property h a p c = h[a := AList.update p c (h ! a)]"

fun assign :: "store \<Rightarrow> nat \<Rightarrow> string list \<Rightarrow> cell \<Rightarrow> store" where
  "assign h a [] c = h"
| "assign h a [p] c = set_property h a p c"
| "assign h a (p # q # ps) c =
     (case map_of (h ! a) p of
        Some (Ref b) \<Rightarrow> assign h b (q # ps) c
      | _ \<Rightarrow> assign (set_property (h @ [[]]) a p (Ref (length h))) (length h) (q # ps) c)"

definition set_value_at :: "store \<Rightarrow> nat \<Rightarrow> string \<Rightarrow> cell \<Rightarrow> store" where
  "set_value_at h base path c = assign h base (split_on (CHR ''.'') path) c"

text \<open>The mappings of a \<open>TRANSFORM\<close>, with the fields that changed.\<close>

fun transform :: "store \<Rightarrow> nat \<Rightarrow> (string \<times> string) list \<Rightarrow> string list \<Rightarrow> store \<times> string list" where
  "transform h base [] changed = (h, changed)"
| "transform h base (m # ms) changed =
     (case value_at h base (fst m) of
        None \<Rightarrow> transform h base ms changed
      | Some c \<Rightarrow> transform (set_value_at h base (snd m) c) base ms (changed @ [snd m]))"

text \<open>The answer of an integration becomes a property of \<open>payload.integrationResponses\<close>; assigning to \<open>__proto__\<close> makes no property.\<close>

definition store_response :: "store \<Rightarrow> nat \<Rightarrow> string \<Rightarrow> json \<Rightarrow> store" where
  "store_response h base outputKey response =
     (let (c, h1) = load response h;
          (b, h2) = (case map_of (h1 ! base) ''integrationResponses'' of
                       Some (Ref b) \<Rightarrow> (b, h1)
                     | _ \<Rightarrow> (length h1, set_property (h1 @ [[]]) base ''integrationResponses'' (Ref (length h1))))
      in if outputKey = ''__proto__'' then h2 else set_property h2 b outputKey c)"

subsection \<open>Conditions\<close>

definition cell_number :: "text_lib \<Rightarrow> cell \<Rightarrow> jsnum" where
  "cell_number lib c = (case c of Atom v \<Rightarrow> number_of (tl_show lib) v | Ref _ \<Rightarrow> NaN)"

definition same_text :: "text_lib \<Rightarrow> store \<Rightarrow> cell \<Rightarrow> json \<Rightarrow> bool result" where
  "same_text lib h c v = map_sum id (\<lambda>w. tl_render lib w = tl_render lib v) (stringify h c)"

definition compares :: "text_lib \<Rightarrow> (jsnum \<Rightarrow> jsnum \<Rightarrow> bool) \<Rightarrow> cell option \<Rightarrow> json \<Rightarrow> bool result" where
  "compares lib cmp c v = Inr (case c of None \<Rightarrow> False | Some c \<Rightarrow> cmp (cell_number lib c) (number_of (tl_show lib) v))"

definition condition :: "text_lib \<Rightarrow> store \<Rightarrow> nat \<Rightarrow> string \<Rightarrow> string \<Rightarrow> json option \<Rightarrow> bool result" where
  "condition lib h base path op val =
     (let actual = value_at h base path; v = or_value val JNull in
      if op = ''exists'' then Inr ((actual \<noteq> None) = (val \<noteq> Some (JBool False)))
      else if op = ''eq'' then (case actual of None \<Rightarrow> Inr False | Some c \<Rightarrow> same_text lib h c v)
      else if op = ''neq'' then (case actual of None \<Rightarrow> Inr True | Some c \<Rightarrow> map_sum id Not (same_text lib h c v))
      else if op = ''gt'' then compares lib (\<lambda>a b. js_less b a) actual v
      else if op = ''gte'' then compares lib (\<lambda>a b. js_le b a) actual v
      else if op = ''lt'' then compares lib js_less actual v
      else if op = ''lte'' then compares lib js_le actual v
      else if op = ''contains'' then
        (case actual of
           Some (Atom (JArr xs)) \<Rightarrow> Inr (list_ex (\<lambda>x. tl_render lib x = tl_render lib v) xs)
         | Some (Atom (JStr t)) \<Rightarrow> Inr (contains (text_of (tl_show lib) v) t)
         | _ \<Rightarrow> Inr False)
      else Inr False)"

subsection \<open>Addresses a request may go to\<close>

definition is_public_v4 :: "string \<Rightarrow> bool" where
  "is_public_v4 address =
     (case map number_of_text (split_on (CHR ''.'') address) of
        [Fin a, Fin b, Fin c, Fin d] \<Rightarrow>
          list_all (\<lambda>n. whole_between (Fin n) 0 255) [a, b, c, d] \<and>
          \<not> (a = 0 \<or> a = 10 \<or> a = 127 \<or> 224 \<le> a) \<and> \<not> (a = 100 \<and> 64 \<le> b \<and> b \<le> 127) \<and> \<not> (a = 169 \<and> b = 254) \<and>
          \<not> (a = 172 \<and> 16 \<le> b \<and> b \<le> 31) \<and> \<not> (a = 192 \<and> (b = 0 \<or> b = 168)) \<and> \<not> (a = 192 \<and> b = 88 \<and> c = 99) \<and>
          \<not> (a = 198 \<and> (b = 18 \<or> b = 19 \<or> b = 51)) \<and> \<not> (a = 203 \<and> b = 0) \<and> \<not> (a = 192 \<and> b = 0)
      | _ \<Rightarrow> False)"

definition starts_with :: "string \<Rightarrow> string \<Rightarrow> bool" where
  "starts_with p s \<longleftrightarrow> take (length p) s = p"

definition is_public_v6 :: "string \<Rightarrow> bool" where
  "is_public_v6 address =
     (let normalized = split_on (CHR ''%'') (js_lower address) ! 0 in
      (starts_with ''2'' normalized \<or> starts_with ''3'' normalized) \<and> normalized \<noteq> ''::1'' \<and> normalized \<noteq> ''::'' \<and>
      \<not> starts_with ''2001:db8:'' normalized \<and> \<not> starts_with ''2001:10:'' normalized \<and> \<not> starts_with ''2002:'' normalized \<and>
      \<not> starts_with ''::ffff:'' normalized)"

definition is_public_address :: "string \<times> nat \<Rightarrow> bool" where
  "is_public_address a = (if snd a = 4 then is_public_v4 (fst a) else if snd a = 6 then is_public_v6 (fst a) else False)"

subsection \<open>A stored definition validates to the same steps\<close>

fun settled :: "step \<Rightarrow> step" where
  "settled (Condition path op v onFalse skip) = Condition path op v onFalse (if is_finite skip then skip else Fin 1)"
| "settled st = st"

lemma upper_names [simp]:
  "js_upper ''CONDITION'' = ''CONDITION''" "js_upper ''TRANSFORM'' = ''TRANSFORM''" "js_upper ''HTTP_REQUEST'' = ''HTTP_REQUEST''"
  "js_upper ''NOTIFY'' = ''NOTIFY''" "js_upper ''CREATE_ALERT'' = ''CREATE_ALERT''" "js_upper ''APPROVAL'' = ''APPROVAL''"
  "js_upper ''EMIT_WEBHOOK'' = ''EMIT_WEBHOOK''" "js_upper ''WAIT'' = ''WAIT''" "js_upper ''LOG'' = ''LOG''"
  by code_simp+

lemma text_field_stored [simp]: "map_of kvs k = Some (JStr v) \<Longrightarrow> text_field lib kvs k d = v"
  by (simp add: text_field_def field_or_def)

lemma if_Inl_Inr: "(if c then Inl e else x) = Inr y \<longleftrightarrow> \<not> c \<and> x = Inr y"
  by simp

lemma if_None: "\<not> c \<Longrightarrow> (if c then Inl e else x) = x"
  by simp

lemma typed_step:
  "map_of kvs ''type'' = Some (JStr ''CONDITION'') \<Longrightarrow> validate_step lib j (JObj kvs) = validate_condition lib kvs"
  "map_of kvs ''type'' = Some (JStr ''TRANSFORM'') \<Longrightarrow> validate_step lib j (JObj kvs) = validate_transform lib kvs"
  "map_of kvs ''type'' = Some (JStr ''HTTP_REQUEST'') \<Longrightarrow> validate_step lib j (JObj kvs) = validate_http lib kvs"
  "map_of kvs ''type'' = Some (JStr ''NOTIFY'') \<Longrightarrow> validate_step lib j (JObj kvs) = validate_notify lib kvs"
  "map_of kvs ''type'' = Some (JStr ''CREATE_ALERT'') \<Longrightarrow> validate_step lib j (JObj kvs) = validate_alert lib kvs"
  "map_of kvs ''type'' = Some (JStr ''APPROVAL'') \<Longrightarrow> validate_step lib j (JObj kvs) = validate_approval lib kvs"
  "map_of kvs ''type'' = Some (JStr ''EMIT_WEBHOOK'') \<Longrightarrow> validate_step lib j (JObj kvs) = validate_emit lib kvs"
  "map_of kvs ''type'' = Some (JStr ''WAIT'') \<Longrightarrow> validate_step lib j (JObj kvs) = validate_wait lib kvs"
  "map_of kvs ''type'' = Some (JStr ''LOG'') \<Longrightarrow> validate_step lib j (JObj kvs) = validate_log lib kvs"
  by (simp_all add: validate_step_def)

lemma condition_again:
  assumes "validate_condition lib kvs = Inr st"
  shows "validate_step lib j (step_json st) = Inr (settled st)"
proof -
  define path where "path = text_field lib kvs ''path'' []"
  define op where "op = text_field lib kvs ''op'' []"
  define val where "val = map_of kvs ''value''"
  define onFalse where "onFalse = js_upper (text_field lib kvs ''onFalse'' ''STOP'')"
  define skip where "skip = number_of (tl_show lib) (field_or kvs ''skipSteps'' (JNum 1))"
  have st: "st = Condition path op val onFalse skip"
    and ok: "\<not> \<not> valid_condition_path path" "\<not> op \<notin> {''eq'', ''neq'', ''gt'', ''gte'', ''lt'', ''lte'', ''exists'', ''contains''}"
      "\<not> (op \<noteq> ''exists'' \<and> val = None)" "\<not> onFalse \<notin> {''STOP'', ''SKIP''}" "\<not> (onFalse = ''SKIP'' \<and> \<not> whole_between skip 1 29)"
    using assms unfolding validate_condition_def Let_def if_Inl_Inr path_def op_def val_def onFalse_def skip_def by simp_all
  have up: "js_upper onFalse = onFalse" by (simp add: onFalse_def)
  define stored where "stored = [(''type'', JStr ''CONDITION''), (''path'', JStr path), (''op'', JStr op)] @
     (case val of None \<Rightarrow> [] | Some x \<Rightarrow> [(''value'', x)]) @ [(''onFalse'', JStr onFalse), (''skipSteps'', number_json skip)]"
  have fields: "map_of stored ''type'' = Some (JStr ''CONDITION'')" "text_field lib stored ''path'' [] = path" "text_field lib stored ''op'' [] = op"
    "map_of stored ''value'' = val" "text_field lib stored ''onFalse'' ''STOP'' = onFalse" "map_of stored ''skipSteps'' = Some (number_json skip)"
    by (simp_all add: stored_def split: option.split)
  have skip': "number_of (tl_show lib) (field_or stored ''skipSteps'' (JNum 1)) = (if is_finite skip then skip else Fin 1)"
    by (cases skip) (simp_all add: field_or_def fields(6) number_json_def number_of_def)
  have ok5: "\<not> (onFalse = ''SKIP'' \<and> \<not> whole_between (if is_finite skip then skip else Fin 1) 1 29)"
    using ok(5) by (cases skip) (auto simp: whole_between_def)
  have "validate_condition lib stored = Inr (settled st)"
    unfolding validate_condition_def Let_def fields(2-5) up skip' if_None [OF ok(1)] if_None [OF ok(2)] if_None [OF ok(3)] if_None [OF ok(4)] if_None [OF ok5]
    by (simp add: st)
  moreover have "step_json st = JObj stored" by (simp add: st stored_def)
  ultimately show ?thesis using typed_step(1) [OF fields(1)] by simp
qed

lemma mappings_again:
  "validate_mappings lib ms = Inr ps \<Longrightarrow> validate_mappings lib (map (\<lambda>m. JObj [(''from'', JStr (fst m)), (''to'', JStr (snd m))]) ps) = Inr ps \<and> length ps = length ms"
proof (induction ms arbitrary: ps)
  case Nil
  then show ?case by simp
next
  case (Cons m ms)
  then obtain kvs rest where "m = JObj kvs" and ok: "valid_path (text_field lib kvs ''from'' [])" "valid_path (text_field lib kvs ''to'' [])"
    and rest: "validate_mappings lib ms = Inr rest" and ps: "ps = (text_field lib kvs ''from'' [], text_field lib kvs ''to'' []) # rest"
    by (auto simp: Let_def split: json.splits if_splits sum.splits)
  then show ?case using Cons.IH [OF rest] by (simp add: Let_def)
qed

lemma transform_again:
  assumes "validate_transform lib kvs = Inr st"
  shows "validate_step lib j (step_json st) = Inr (settled st)"
proof -
  obtain ms ps where "\<not> (length ms < 1 \<or> 30 < length ms)" "validate_mappings lib ms = Inr ps" "st = Transform ps"
    using assms unfolding validate_transform_def by (auto split: option.splits json.splits if_splits sum.splits simp: map_sum_def)
  then show ?thesis using mappings_again [of lib ms ps] by (simp add: validate_step_def validate_transform_def)
qed

lemma http_again:
  assumes "validate_http lib kvs = Inr st"
  shows "validate_step lib j (step_json st) = Inr (settled st)"
proof -
  define i where "i = text_field lib kvs ''integrationId'' []"
  define verb where "verb = js_upper (text_field lib kvs ''method'' ''GET'')"
  define path where "path = text_field lib kvs ''path'' []"
  define body where "body = (case map_of kvs ''body'' of None \<Rightarrow> JObj [] | Some b \<Rightarrow> b)"
  define k where "k = text_field lib kvs ''outputKey'' []"
  have st: "st = Http_request i verb path body k"
    and ok: "\<not> \<not> is_uuid i" "\<not> verb \<notin> {''GET'', ''POST'', ''PUT'', ''PATCH'', ''DELETE''}" "\<not> \<not> safe_request_path path"
      "\<not> (case body of JObj _ \<Rightarrow> 16384 < length (tl_render lib body) | _ \<Rightarrow> True)" "\<not> (k \<noteq> [] \<and> \<not> (length k \<le> 80 \<and> list_all word_char k))"
    using assms unfolding validate_http_def Let_def if_Inl_Inr i_def verb_def path_def body_def k_def by simp_all
  have up: "js_upper verb = verb" by (simp add: verb_def)
  define stored where "stored = [(''type'', JStr ''HTTP_REQUEST''), (''integrationId'', JStr i), (''method'', JStr verb), (''path'', JStr path), (''body'', body),
     (''outputKey'', JStr k)]"
  have fields: "map_of stored ''type'' = Some (JStr ''HTTP_REQUEST'')" "text_field lib stored ''integrationId'' [] = i" "text_field lib stored ''method'' ''GET'' = verb"
    "text_field lib stored ''path'' [] = path" "map_of stored ''body'' = Some body" "text_field lib stored ''outputKey'' [] = k"
    by (simp_all add: stored_def)
  have "validate_http lib stored = Inr st"
    unfolding validate_http_def Let_def fields(2-6) option.case up if_None [OF ok(1)] if_None [OF ok(2)] if_None [OF ok(3)] if_None [OF ok(4)] if_None [OF ok(5)]
    by (simp add: st)
  then show ?thesis using typed_step(3) [OF fields(1)] by (simp add: st stored_def)
qed

lemma notify_again:
  assumes "validate_notify lib kvs = Inr st"
  shows "validate_step lib j (step_json st) = Inr (settled st)"
proof -
  define channel where "channel = js_upper (text_field lib kvs ''channel'' [])"
  define recipient where "recipient = text_field lib kvs ''recipientPath'' []"
  define event where "event = js_upper (js_trim (text_field lib kvs ''eventType'' ''WORKFLOW.NOTIFICATION''))"
  define message where "message = js_trim (text_field lib kvs ''message'' [])"
  define category where "category = js_upper (text_field lib kvs ''category'' ''TRANSACTIONAL'')"
  have st: "st = Notify channel recipient event message category"
    and ok: "\<not> channel \<notin> {''SMS'', ''EMAIL'', ''WHATSAPP'', ''WEBHOOK''}" "\<not> \<not> valid_path recipient" "\<not> \<not> valid_event_type event"
      "\<not> (message = [] \<or> 1600 < length message)" "\<not> category \<notin> {''TRANSACTIONAL'', ''EXPIRY'', ''PAYMENT'', ''PURCHASE'', ''MARKETING''}"
    using assms unfolding validate_notify_def Let_def if_Inl_Inr channel_def recipient_def event_def message_def category_def by simp_all
  have norm: "js_upper channel = channel" "js_upper (js_trim event) = event" "js_trim message = message" "js_upper category = category"
    by (simp_all add: channel_def event_def message_def category_def js_trim_upper)
  define stored where "stored = [(''type'', JStr ''NOTIFY''), (''channel'', JStr channel), (''recipientPath'', JStr recipient), (''eventType'', JStr event),
     (''message'', JStr message), (''category'', JStr category)]"
  have fields: "map_of stored ''type'' = Some (JStr ''NOTIFY'')" "text_field lib stored ''channel'' [] = channel" "text_field lib stored ''recipientPath'' [] = recipient"
    "text_field lib stored ''eventType'' ''WORKFLOW.NOTIFICATION'' = event" "text_field lib stored ''message'' [] = message"
    "text_field lib stored ''category'' ''TRANSACTIONAL'' = category"
    by (simp_all add: stored_def)
  have "validate_notify lib stored = Inr st"
    unfolding validate_notify_def Let_def fields(2-6) norm if_None [OF ok(1)] if_None [OF ok(2)] if_None [OF ok(3)] if_None [OF ok(4)] if_None [OF ok(5)]
    by (simp add: st)
  then show ?thesis using typed_step(4) [OF fields(1)] by (simp add: st stored_def)
qed

lemma alert_again:
  assumes "validate_alert lib kvs = Inr st"
  shows "validate_step lib j (step_json st) = Inr (settled st)"
proof -
  define severity where "severity = js_upper (text_field lib kvs ''severity'' ''HIGH'')"
  define title where "title = js_trim (text_field lib kvs ''title'' [])"
  define details where "details = object_or_empty kvs ''details''"
  have st: "st = Create_alert severity title details"
    and ok: "\<not> (severity \<notin> {''CRITICAL'', ''HIGH'', ''MEDIUM'', ''LOW'', ''INFO''} \<or> length title < 3 \<or> 180 < length title)"
    using assms unfolding validate_alert_def Let_def if_Inl_Inr severity_def title_def details_def by simp_all
  have norm: "js_upper severity = severity" "js_trim title = title" by (simp_all add: severity_def title_def)
  define stored where "stored = [(''type'', JStr ''CREATE_ALERT''), (''severity'', JStr severity), (''title'', JStr title), (''details'', details)]"
  have fields: "map_of stored ''type'' = Some (JStr ''CREATE_ALERT'')" "text_field lib stored ''severity'' ''HIGH'' = severity" "text_field lib stored ''title'' [] = title"
    by (simp_all add: stored_def)
  have details: "object_or_empty stored ''details'' = details"
    by (simp add: stored_def details_def object_or_empty_def split: option.split json.split)
  have "validate_alert lib stored = Inr st" unfolding validate_alert_def Let_def fields(2,3) norm details if_None [OF ok] by (simp add: st)
  then show ?thesis using typed_step(5) [OF fields(1)] by (simp add: st stored_def)
qed

lemma approval_again:
  assumes "validate_approval lib kvs = Inr st"
  shows "validate_step lib j (step_json st) = Inr (settled st)"
proof -
  define title where "title = js_trim (text_field lib kvs ''title'' [])"
  define details where "details = object_or_empty kvs ''details''"
  have st: "st = Approval title details" and ok: "\<not> (length title < 3 \<or> 180 < length title)"
    using assms unfolding validate_approval_def Let_def if_Inl_Inr title_def details_def by simp_all
  define stored where "stored = [(''type'', JStr ''APPROVAL''), (''title'', JStr title), (''details'', details)]"
  have fields: "map_of stored ''type'' = Some (JStr ''APPROVAL'')" "text_field lib stored ''title'' [] = title" "js_trim title = title"
    by (simp_all add: stored_def title_def)
  have details: "object_or_empty stored ''details'' = details"
    by (simp add: stored_def details_def object_or_empty_def split: option.split json.split)
  have "validate_approval lib stored = Inr st" unfolding validate_approval_def Let_def fields(2,3) details if_None [OF ok] by (simp add: st)
  then show ?thesis using typed_step(6) [OF fields(1)] by (simp add: st stored_def)
qed

lemma emit_again:
  assumes "validate_emit lib kvs = Inr st"
  shows "validate_step lib j (step_json st) = Inr (settled st)"
proof -
  define event where "event = js_upper (js_trim (text_field lib kvs ''eventType'' []))"
  define payload where "payload = object_or_empty kvs ''payload''"
  have st: "st = Emit_webhook event payload" and ok: "\<not> \<not> valid_event_type event"
    using assms unfolding validate_emit_def Let_def if_Inl_Inr event_def payload_def by simp_all
  define stored where "stored = [(''type'', JStr ''EMIT_WEBHOOK''), (''eventType'', JStr event), (''payload'', payload)]"
  have fields: "map_of stored ''type'' = Some (JStr ''EMIT_WEBHOOK'')" "text_field lib stored ''eventType'' [] = event" "js_upper (js_trim event) = event"
    by (simp_all add: stored_def event_def js_trim_upper)
  have payload: "object_or_empty stored ''payload'' = payload"
    by (simp add: stored_def payload_def object_or_empty_def split: option.split json.split)
  have "validate_emit lib stored = Inr st" unfolding validate_emit_def Let_def fields(2,3) payload if_None [OF ok] by (simp add: st)
  then show ?thesis using typed_step(7) [OF fields(1)] by (simp add: st stored_def)
qed

lemma wait_again:
  assumes "validate_wait lib kvs = Inr st"
  shows "validate_step lib j (step_json st) = Inr (settled st)"
proof -
  obtain r where "whole_between (Fin r) 1 86400" and st: "st = Wait \<lfloor>r\<rfloor>"
    using assms unfolding validate_wait_def Let_def by (auto simp: whole_between_def split: if_splits jsnum.splits)
  then have "whole_between (Fin (of_int \<lfloor>r\<rfloor>)) 1 86400" by (simp add: whole_between_def)
  then show ?thesis by (simp add: st validate_step_def validate_wait_def number_of_def Let_def)
qed

lemma log_again: "validate_log lib kvs = Inr st \<Longrightarrow> validate_step lib j (step_json st) = Inr (settled st)"
  unfolding validate_log_def Let_def
  by (auto simp: validate_step_def validate_log_def Let_def split: if_splits)

lemma validate_step_again:
  assumes "validate_step lib i item = Inr st"
  shows "validate_step lib j (step_json st) = Inr (settled st)"
  using assms unfolding validate_step_def [of lib i]
  by (auto simp: Let_def split: json.splits if_splits
      intro: condition_again transform_again http_again notify_again alert_again approval_again emit_again wait_again log_again)

lemma validate_from_again:
  "validate_from lib i items = Inr sts \<Longrightarrow> validate_from lib j (map step_json sts) = Inr (map settled sts) \<and> length sts = length items"
proof (induction items arbitrary: i j sts)
  case Nil
  then show ?case by simp
next
  case (Cons item items)
  then obtain st rest where st: "validate_step lib i item = Inr st" and rest: "validate_from lib (i + 1) items = Inr rest" and sts: "sts = st # rest"
    by (auto split: sum.splits)
  show ?case using validate_step_again [OF st, of j] Cons.IH [OF rest, of "j + 1"] by (simp add: sts)
qed

text \<open>What validation accepts is stable: the document stored for the steps of a workflow validates again, whenever a run
  starts on its snapshot, to the same steps, except that a number of steps to skip that is never used settles on one; so no run
  fails because of its stored definition.\<close>

theorem stored_steps_validate_again:
  assumes "validate_steps lib raw = Inr sts"
  shows "validate_steps lib (steps_json sts) = Inr (map settled sts)"
proof -
  obtain items where "\<not> (length items < 1 \<or> 30 < length items)" and v: "validate_from lib 0 items = Inr sts"
    using assms unfolding validate_steps_def by (auto split: json.splits if_splits)
  then show ?thesis using validate_from_again [OF v, of 0] by (simp add: validate_steps_def steps_json_def)
qed

definition sample_text :: text_lib where
  "sample_text = \<lparr> tl_show = (\<lambda>_. ''1''), tl_render = (\<lambda>_. ''{}'') \<rparr>"

theorem stored_steps_validate_again_witness:
  "validate_steps sample_text (JArr [JObj [(''type'', JStr ''log''), (''message'', JStr '' hi '')]]) = Inr [Log ''hi''] \<and>
   validate_steps sample_text (steps_json [Log ''hi'']) = Inr [Log ''hi'']"
proof -
  have "validate_steps sample_text (JArr [JObj [(''type'', JStr ''log''), (''message'', JStr '' hi '')]]) = Inr [Log ''hi'']" by code_simp
  then show ?thesis using stored_steps_validate_again by fastforce
qed

end
