(* ===== verification/Workflows.thy ===== *)
theory Workflows
  imports WorkflowSteps Notifications SecretVault Journal
begin

text \<open>
  Workflows and their runs (\<open>workflows/workflows.service.ts\<close>): definitions with versions, the triggers that put runs into the queue,
  the rounds of the worker that interpret the steps of a run, approvals, alerts, webhooks and requests to integrations.
  URLs, name resolution, the requests themselves, hashes, the cipher and the status a new
  alert has by default are parameters, \<open>workflow_env\<close>. Runs, alerts,
  approvals and receipts have unique keys and interpret the interfaces of \<open>Journal\<close>.
\<close>

record url =
  ur_protocol :: string
  ur_username :: string
  ur_password :: string
  ur_hostname :: string
  ur_origin :: string
  ur_hash :: string
  ur_href :: string

record http_call =
  hc_url :: url
  hc_address :: "string \<times> nat"
  hc_verb :: string
  hc_headers :: "(string \<times> string) list"
  hc_body :: "json option"

record http_response =
  hr_status :: nat
  hr_body :: bytes
  hr_contentType :: string

record workflow_env =
  we_text :: text_lib
  we_parse :: "string \<Rightarrow> json option"
  we_url :: "string \<Rightarrow> url option"
  we_resolve :: "string \<Rightarrow> url \<Rightarrow> url option"
  we_is_ip :: "string \<Rightarrow> bool"
  we_lookup :: "string \<Rightarrow> (string \<times> nat) list result"
  we_send :: "http_call \<Rightarrow> http_response result"
  we_crypto :: crypto
  we_settings :: settings
  we_sha256 :: "string \<Rightarrow> string"
  we_event_id :: "string \<Rightarrow> uuid"
  we_alert_status :: string

subsection \<open>The tables\<close>

definition wr_unique :: "workflow_run \<Rightarrow> (uuid \<times> uuid \<times> string) option" where
  "wr_unique r = Some (wr_tenant r, wr_workflowId r, wr_key r)"

definition put_run :: "workflow_run \<Rightarrow> db \<Rightarrow> db" where
  "put_run r s = s\<lparr> workflowRuns := insert_once wr_unique r (workflowRuns s) \<rparr>"

definition touch_runs :: "(workflow_run \<Rightarrow> bool) \<Rightarrow> (workflow_run \<Rightarrow> workflow_run) \<Rightarrow> db \<Rightarrow> db" where
  "touch_runs P f s = s\<lparr> workflowRuns := update_where P f (workflowRuns s) \<rparr>"

interpretation runs: keyed_queue workflowRuns wr_unique put_run touch_runs
  by unfold_locales (simp_all add: put_run_def touch_runs_def)

definition wa_unique :: "workflow_alert \<Rightarrow> (uuid \<times> uuid \<times> nat) option" where
  "wa_unique a = Some (wa_tenant a, wa_runId a, wa_stepIndex a)"

definition put_alert :: "workflow_alert \<Rightarrow> db \<Rightarrow> db" where
  "put_alert a s = s\<lparr> workflowAlerts := insert_once wa_unique a (workflowAlerts s) \<rparr>"

interpretation alerts: keyed_journal workflowAlerts wa_unique put_alert
  by unfold_locales (simp add: put_alert_def)

definition wp_unique :: "workflow_approval \<Rightarrow> (uuid \<times> uuid \<times> nat) option" where
  "wp_unique a = Some (wp_tenant a, wp_runId a, wp_stepIndex a)"

definition put_approval :: "workflow_approval \<Rightarrow> db \<Rightarrow> db" where
  "put_approval a s = s\<lparr> workflowApprovals := insert_once wp_unique a (workflowApprovals s) \<rparr>"

definition touch_approvals :: "(workflow_approval \<Rightarrow> bool) \<Rightarrow> (workflow_approval \<Rightarrow> workflow_approval) \<Rightarrow> db \<Rightarrow> db" where
  "touch_approvals P f s = s\<lparr> workflowApprovals := update_where P f (workflowApprovals s) \<rparr>"

interpretation approvals: keyed_queue workflowApprovals wp_unique put_approval touch_approvals
  by unfold_locales (simp_all add: put_approval_def touch_approvals_def)

definition wx_unique :: "action_receipt \<Rightarrow> (uuid \<times> uuid \<times> nat) option" where
  "wx_unique a = Some (wx_tenant a, wx_runId a, wx_stepIndex a)"

definition put_action_receipt :: "action_receipt \<Rightarrow> db \<Rightarrow> db" where
  "put_action_receipt a s = s\<lparr> actionReceipts := insert_once wx_unique a (actionReceipts s) \<rparr>"

interpretation action_receipts: keyed_journal actionReceipts wx_unique put_action_receipt
  by unfold_locales (simp add: put_action_receipt_def)

subsection \<open>Definitions\<close>

record workflow_input =
  wi_name :: string
  wi_description :: "string option"
  wi_trigger :: trigger_type
  wi_config :: "(string \<times> json) list option"
  wi_steps :: json
  wi_enabled :: "bool option"

fun trigger_name :: "trigger_type \<Rightarrow> string" where
  "trigger_name TR_MANUAL = ''MANUAL''"
| "trigger_name TR_EVENT = ''EVENT''"
| "trigger_name TR_SCHEDULE = ''SCHEDULE''"
| "trigger_name TR_WEBHOOK = ''WEBHOOK''"

definition config_of :: "workflow_input \<Rightarrow> (string \<times> json) list" where
  "config_of d = or_value (wi_config d) []"

definition interval_of :: "text_lib \<Rightarrow> (string \<times> json) list \<Rightarrow> jsnum" where
  "interval_of lib config = (case map_of config ''intervalSeconds'' of None \<Rightarrow> NaN | Some v \<Rightarrow> number_of (tl_show lib) v)"

definition validate_trigger :: "text_lib \<Rightarrow> workflow_input \<Rightarrow> unit result" where
  "validate_trigger lib d =
     (if wi_trigger d = TR_EVENT \<and> \<not> valid_event_type (text_field lib (config_of d) ''eventType'' [])
      then Inl (BadRequest ''EVENT trigger requires triggerConfig.eventType'')
      else if wi_trigger d = TR_SCHEDULE \<and> \<not> whole_between (interval_of lib (config_of d)) 60 86400
      then Inl (BadRequest (''SCHEDULE intervalSeconds must be 60'' @ en_dash @ ''86400''))
      else if wi_trigger d = TR_WEBHOOK \<and> config_of d \<noteq> [] then Inl (BadRequest ''WEBHOOK trigger configuration is managed by Jaslyn Net'')
      else Inr ())"

definition definition_json :: "workflow_input \<Rightarrow> step list \<Rightarrow> json" where
  "definition_json d sts =
     JObj [(''name'', JStr (js_trim (wi_name d))), (''description'', JStr (js_trim (or_value (wi_description d) []))),
       (''triggerType'', JStr (trigger_name (wi_trigger d))), (''triggerConfig'', JObj (config_of d)), (''steps'', steps_json sts)]"

text \<open>The audit of the actor, recorded after the transaction.\<close>

definition actor_audit :: "string option \<Rightarrow> time \<Rightarrow> uuid \<Rightarrow> uuid \<Rightarrow> string \<Rightarrow> string \<Rightarrow> uuid \<Rightarrow> json \<Rightarrow> db \<Rightarrow> db" where
  "actor_audit cid now tenant actor action resource i metadata s =
     snd (audit_record cid now tenant action resource (Some i) metadata (no_context\<lparr> ac_userId := Some actor \<rparr>) s)"

text \<open>\<open>create\<close>: the workflow and, for a webhook, the token, which is only stored as a hash. Whether a table of workflows breaks its
  unique names is the constraint of the database, \<open>clash\<close>.\<close>

definition create_workflow ::
  "workflow_env \<Rightarrow> bytes \<Rightarrow> (workflow list \<Rightarrow> bool) \<Rightarrow> string option \<Rightarrow> time \<Rightarrow> uuid \<Rightarrow> uuid \<Rightarrow> workflow_input \<Rightarrow> (db, workflow \<times> string option) operation" where
  "create_workflow env random clash cid now tenant actor d s =
     (case validate_steps (we_text env) (wi_steps d) of
        Inl e \<Rightarrow> (Inl e, s)
      | Inr sts \<Rightarrow>
          (case validate_trigger (we_text env) d of
             Inl e \<Rightarrow> (Inl e, s)
           | Inr _ \<Rightarrow>
               (let token = (if wi_trigger d = TR_WEBHOOK then Some (cy_encode (we_crypto env) random) else None); enabled = (wi_enabled d = Some True);
                    w = \<lparr> wf_id = new_uuid s, wf_tenant = tenant, wf_name = js_trim (wi_name d), wf_description = js_trim (or_value (wi_description d) []),
                          wf_trigger = wi_trigger d, wf_config = JObj (config_of d), wf_steps = steps_json sts, wf_enabled = enabled, wf_version = 1,
                          wf_tokenHash = map_option (we_sha256 env) token,
                          wf_nextRunAt = (if wi_trigger d = TR_SCHEDULE \<and> enabled
                                          then Some (now + 1000 * \<lfloor>fin_val (interval_of (we_text env) (config_of d))\<rfloor>) else None) \<rparr>
                in if clash (insert_row w (workflows s)) then (Inl (Conflict ''Workflow name already exists in this tenant''), s)
                   else (Inr (w, token), actor_audit cid now tenant actor ''CREATE'' ''automation_workflow'' (wf_id w)
                          (JObj [(''name'', JStr (wi_name d)), (''triggerType'', JStr (trigger_name (wi_trigger d))), (''enabled'', JBool enabled)])
                          (s\<lparr> next_id := next_id s + 1, workflows := insert_row w (workflows s),
                              workflowVersions := insert_row \<lparr> wv_tenant = tenant, wv_workflowId = wf_id w, wv_version = 1, wv_definition = definition_json d sts \<rparr>
                                (workflowVersions s) \<rparr>)))))"

definition import_definition ::
  "workflow_env \<Rightarrow> bytes \<Rightarrow> (workflow list \<Rightarrow> bool) \<Rightarrow> string option \<Rightarrow> time \<Rightarrow> uuid \<Rightarrow> uuid \<Rightarrow> workflow_input \<Rightarrow> (db, workflow \<times> string option) operation" where
  "import_definition env random clash cid now tenant actor d s = create_workflow env random clash cid now tenant actor (d\<lparr> wi_enabled := Some False \<rparr>) s"

definition is_workflow :: "uuid \<Rightarrow> uuid \<Rightarrow> workflow \<Rightarrow> bool" where
  "is_workflow tenant i w \<longleftrightarrow> wf_tenant w = tenant \<and> wf_id w = i"

definition list_workflows :: "uuid \<Rightarrow> db \<Rightarrow> workflow list" where
  "list_workflows tenant s = take 500 (rev (select (\<lambda>w. wf_tenant w = tenant) (workflows s)))"

definition export_definition :: "uuid \<Rightarrow> uuid \<Rightarrow> db \<Rightarrow> workflow result" where
  "export_definition tenant i s =
     (case select_one (is_workflow tenant i) (workflows s) of None \<Rightarrow> Inl (NotFound ''Workflow not found'') | Some w \<Rightarrow> Inr w)"

text \<open>\<open>COALESCE(NULLIF(config ->> 'intervalSeconds', '')::int, 3600)\<close> of a configuration that validation accepted; \<open>::int\<close> of other texts
  fails in the database and is not modelled, since the column is only written from validated input.\<close>

definition stored_interval :: "text_lib \<Rightarrow> json \<Rightarrow> int" where
  "stored_interval lib config =
     (case config of JObj kvs \<Rightarrow> (case interval_of lib kvs of Fin r \<Rightarrow> \<lfloor>r\<rfloor> | _ \<Rightarrow> 3600) | _ \<Rightarrow> 3600)"

definition next_run :: "text_lib \<Rightarrow> time \<Rightarrow> bool \<Rightarrow> json \<Rightarrow> workflow \<Rightarrow> time option" where
  "next_run lib now enabled config w = (if enabled \<and> wf_trigger w = TR_SCHEDULE then Some (now + 1000 * stored_interval lib config) else None)"

definition set_enabled :: "workflow_env \<Rightarrow> string option \<Rightarrow> time \<Rightarrow> uuid \<Rightarrow> uuid \<Rightarrow> uuid \<Rightarrow> bool \<Rightarrow> (db, workflow) operation" where
  "set_enabled env cid now tenant actor i enabled s =
     (case select_one (is_workflow tenant i) (workflows s) of
        None \<Rightarrow> (Inl (NotFound ''Workflow not found''), s)
      | Some w \<Rightarrow>
          (let w' = w\<lparr> wf_enabled := enabled, wf_nextRunAt := next_run (we_text env) now enabled (wf_config w) w \<rparr>
           in (Inr w', actor_audit cid now tenant actor (if enabled then ''ENABLE'' else ''DISABLE'') ''automation_workflow'' i (JObj [(''name'', JStr (wf_name w))])
                (s\<lparr> workflows := update_where (is_workflow tenant i) (\<lambda>_. w') (workflows s) \<rparr>))))"

definition update_definition :: "workflow_env \<Rightarrow> (workflow list \<Rightarrow> bool) \<Rightarrow> string option \<Rightarrow> time \<Rightarrow> uuid \<Rightarrow> uuid \<Rightarrow> uuid \<Rightarrow> workflow_input \<Rightarrow> (db, workflow) operation" where
  "update_definition env clash cid now tenant actor i d s =
     (case validate_steps (we_text env) (wi_steps d) of
        Inl e \<Rightarrow> (Inl e, s)
      | Inr sts \<Rightarrow>
          (case validate_trigger (we_text env) d of
             Inl e \<Rightarrow> (Inl e, s)
           | Inr _ \<Rightarrow>
               (case select_one (is_workflow tenant i) (workflows s) of
                  None \<Rightarrow> (Inl (NotFound ''Workflow not found''), s)
                | Some w \<Rightarrow>
                    if wf_trigger w \<noteq> wi_trigger d then (Inl (Conflict ''Changing a workflow trigger type requires creating a new workflow''), s)
                    else (let w' = w\<lparr> wf_name := js_trim (wi_name d), wf_description := js_trim (or_value (wi_description d) []), wf_config := JObj (config_of d),
                                wf_steps := steps_json sts, wf_version := wf_version w + 1,
                                wf_nextRunAt := next_run (we_text env) now (wf_enabled w) (JObj (config_of d)) w \<rparr>
                          in if clash (update_where (is_workflow tenant i) (\<lambda>_. w') (workflows s)) then (Inl (DbError ''23505''), s)
                             else (Inr w', actor_audit cid now tenant actor ''UPDATE_DEFINITION'' ''automation_workflow'' i
                                (JObj [(''version'', JNum (of_nat (wf_version w'))), (''name'', JStr (wi_name d))])
                                (s\<lparr> workflows := update_where (is_workflow tenant i) (\<lambda>_. w') (workflows s),
                                    workflowVersions := insert_row \<lparr> wv_tenant = tenant, wv_workflowId = i, wv_version = wf_version w', wv_definition = definition_json d sts \<rparr>
                                      (workflowVersions s) \<rparr>))))))"

definition list_versions :: "uuid \<Rightarrow> uuid \<Rightarrow> db \<Rightarrow> workflow_version list result" where
  "list_versions tenant i s =
     (if \<not> exists_row (is_workflow tenant i) (workflows s) then Inl (NotFound ''Workflow not found'')
      else Inr (order_limit (\<lambda>v. - int (wv_version v)) 100 (select (\<lambda>v. wv_tenant v = tenant \<and> wv_workflowId v = i) (workflowVersions s))))"

subsection \<open>Triggers\<close>

definition run_row :: "uuid \<Rightarrow> time \<Rightarrow> workflow \<Rightarrow> string \<Rightarrow> string \<Rightarrow> json \<Rightarrow> workflow_run" where
  "run_row i now w trigger key payload =
     \<lparr> wr_id = i, wr_tenant = wf_tenant w, wr_workflowId = wf_id w, wr_key = key, wr_trigger = trigger, wr_triggerPayload = payload,
       wr_executionPayload = payload, wr_version = wf_version w, wr_steps = wf_steps w, wr_status = R_QUEUED, wr_currentStep = 0, wr_attempts = 0,
       wr_results = [], wr_lastError = None, wr_nextAttemptAt = now, wr_lockedAt = None, wr_startedAt = None, wr_completedAt = None, wr_createdAt = now \<rparr>"

text \<open>\<open>enqueue\<close>: the run that is there under the key, or a new one; nothing without the workflow.\<close>

definition enqueue_run :: "time \<Rightarrow> uuid \<Rightarrow> uuid \<Rightarrow> string \<Rightarrow> string \<Rightarrow> json \<Rightarrow> db \<Rightarrow> workflow_run option \<times> db" where
  "enqueue_run now tenant i trigger key payload s =
     (case select_one (is_workflow tenant i) (workflows s) of
        None \<Rightarrow> (None, s)
      | Some w \<Rightarrow>
          (let s1 = put_run (run_row (new_uuid s) now w trigger key payload) (s\<lparr> next_id := next_id s + 1 \<rparr>)
           in (select_one (\<lambda>r. wr_unique r = Some (tenant, i, key)) (workflowRuns s1), s1)))"

definition trigger_manual ::
  "bytes \<Rightarrow> string option \<Rightarrow> time \<Rightarrow> uuid \<Rightarrow> uuid \<Rightarrow> uuid \<Rightarrow> json \<Rightarrow> string option \<Rightarrow> (db, workflow_run option) operation" where
  "trigger_manual random cid now tenant actor i payload key s =
     (case select_one (is_workflow tenant i) (workflows s) of
        None \<Rightarrow> (Inl (NotFound ''Workflow not found''), s)
      | Some w \<Rightarrow>
          if \<not> wf_enabled w then (Inl (Conflict ''Enable this workflow before running it''), s)
          else if (case key of None \<Rightarrow> False | Some k \<Rightarrow> js_trim k = [] \<or> 180 < length (js_trim k))
          then (Inl (BadRequest (''Idempotency key must contain 1'' @ en_dash @ ''180 characters'')), s)
          else (let (r, s1) = enqueue_run now tenant i ''MANUAL'' (or_value (map_option js_trim key) (''manual:'' @ hex_encode random)) payload s
                in (Inr r, actor_audit cid now tenant actor ''TRIGGER'' ''automation_workflow'' i (jobject [(''runId'', map_option (\<lambda>r. JStr (wr_id r)) r)]) s1)))"

definition hash_matches :: "string \<Rightarrow> string \<Rightarrow> bool" where
  "hash_matches actual stored \<longleftrightarrow> hex_decode actual = hex_decode stored"

definition trigger_webhook :: "workflow_env \<Rightarrow> bytes \<Rightarrow> time \<Rightarrow> uuid \<Rightarrow> string \<Rightarrow> (string \<times> json) list \<Rightarrow> (db, workflow_run option) operation" where
  "trigger_webhook env random now i token payload s =
     (case select_one (\<lambda>w. wf_id w = i \<and> wf_trigger w = TR_WEBHOOK \<and> wf_enabled w) (workflows s) of
        None \<Rightarrow> (Inl (NotFound ''Webhook workflow not found''), s)
      | Some w \<Rightarrow>
          (case wf_tokenHash w of
             None \<Rightarrow> (Inl (NotFound ''Webhook workflow not found''), s)
           | Some h \<Rightarrow>
               if token = [] \<or> h = [] then (Inl (NotFound ''Webhook workflow not found''), s)
               else if \<not> hash_matches (we_sha256 env token) h then (Inl (Forbidden ''Invalid workflow webhook token''), s)
               else (let supplied = (case map_of payload ''eventId'' of Some (JStr e) \<Rightarrow> Some e | _ \<Rightarrow> None) in
                     if (case supplied of None \<Rightarrow> False | Some e \<Rightarrow> 180 < length e)
                     then (Inl (BadRequest ''Webhook eventId must not exceed 180 characters''), s)
                     else (let (r, s1) = enqueue_run now (wf_tenant w) i ''WEBHOOK'' (''webhook:'' @ or_value (trim_or_null supplied) (hex_encode random)) (JObj payload) s
                           in (Inr r, s1)))))"

text \<open>\<open>scheduleAndCollect\<close>: \<open>show_time\<close> is the text of a time, of which the first sixteen characters are the minute.\<close>

definition due_workflows :: "time \<Rightarrow> db \<Rightarrow> workflow list" where
  "due_workflows now s = order_limit (\<lambda>w. the (wf_nextRunAt w)) 100
     (select (\<lambda>w. wf_enabled w \<and> wf_trigger w = TR_SCHEDULE \<and> (case wf_nextRunAt w of None \<Rightarrow> False | Some t \<Rightarrow> t \<le> now)) (workflows s))"

definition schedule_run :: "(time \<Rightarrow> string) \<Rightarrow> time \<Rightarrow> workflow \<Rightarrow> db \<Rightarrow> db" where
  "schedule_run show_time now w s =
     snd (enqueue_run now (wf_tenant w) (wf_id w) ''SCHEDULE'' (''schedule:'' @ take 16 (show_time now))
       (JObj [(''scheduledAt'', JStr (show_time now)), (''triggerType'', JStr ''SCHEDULE'')]) s)"

definition listens_to :: "workflow \<Rightarrow> domain_event \<Rightarrow> bool" where
  "listens_to w e \<longleftrightarrow> wf_tenant w = de_tenant e \<and> wf_enabled w \<and> wf_trigger w = TR_EVENT \<and>
     (case wf_config w of JObj kvs \<Rightarrow> map_of kvs ''eventType'' = Some (JStr (de_type e)) | _ \<Rightarrow> False)"

definition due_events :: "time \<Rightarrow> db \<Rightarrow> (domain_event \<times> workflow) list" where
  "due_events now s = order_limit (\<lambda>p. - de_createdAt (fst p)) 500
     (concat (map (\<lambda>e. map (Pair e) (select (\<lambda>w. listens_to w e) (workflows s)))
       (select (\<lambda>e. de_status e = E_PROCESSED \<and> now - 600000 \<le> de_createdAt e) (domainEvents s))))"

definition event_payload :: "domain_event \<Rightarrow> json" where
  "event_payload e = JObj (AList.update ''eventType'' (JStr (de_type e)) (AList.update ''eventId'' (JStr (de_id e)) (case de_payload e of JObj kvs \<Rightarrow> kvs | _ \<Rightarrow> [])))"

definition event_run :: "time \<Rightarrow> domain_event \<times> workflow \<Rightarrow> db \<Rightarrow> db" where
  "event_run now p s = snd (enqueue_run now (de_tenant (fst p)) (wf_id (snd p)) ''EVENT'' (''event:'' @ de_id (fst p)) (event_payload (fst p)) s)"

definition schedule_and_collect :: "workflow_env \<Rightarrow> (time \<Rightarrow> string) \<Rightarrow> time \<Rightarrow> db \<Rightarrow> db" where
  "schedule_and_collect env show_time now s =
     (let due = due_workflows now s;
          s1 = s\<lparr> workflows := update_where (\<lambda>w. wf_id w \<in> wf_id ` set due)
                  (\<lambda>w. w\<lparr> wf_nextRunAt := Some (now + 1000 * stored_interval (we_text env) (wf_config w)) \<rparr>) (workflows s) \<rparr>;
          s2 = fold (schedule_run show_time now) due s1
      in fold (event_run now) (due_events now s2) s2)"

end
