(* ===== verification/WorkflowRuns.thy ===== *)
theory WorkflowRuns
  imports Workflows Payments CommandWorker
begin

text \<open>
  The runs of workflows (\<open>workflows/workflows.service.ts\<close>): what operators do with them, integrations and the requests to them, and
  the rounds of the worker, which claim runs, interpret their steps and finish them, suspend them or put them back. A
  round takes one time for all its statements. The payload of a run is always an object, since only objects are written.
\<close>

subsection \<open>Operators\<close>

definition is_run :: "uuid \<Rightarrow> uuid \<Rightarrow> workflow_run \<Rightarrow> bool" where
  "is_run tenant i r \<longleftrightarrow> wr_tenant r = tenant \<and> wr_id r = i"

definition get_run :: "uuid \<Rightarrow> uuid \<Rightarrow> db \<Rightarrow> workflow_run result" where
  "get_run tenant i s = (case select_one (is_run tenant i) (workflowRuns s) of None \<Rightarrow> Inl (NotFound ''Workflow run not found'') | Some r \<Rightarrow> Inr r)"

definition list_runs :: "uuid \<Rightarrow> db \<Rightarrow> workflow_run list" where
  "list_runs tenant s = order_limit (\<lambda>r. - wr_createdAt r) 500 (select (\<lambda>r. wr_tenant r = tenant) (workflowRuns s))"

text \<open>Whether the first step of a snapshot has no effects outside the run.\<close>

definition pure_start :: "text_lib \<Rightarrow> json \<Rightarrow> bool" where
  "pure_start lib snapshot =
     (case snapshot of
        JArr (JObj kvs # _) \<Rightarrow>
          text_of (tl_show lib) (or_value (map_of kvs ''type'') (JStr ''undefined'')) \<in> {''CONDITION'', ''TRANSFORM'', ''LOG''}
      | _ \<Rightarrow> False)"

definition replay_run :: "workflow_env \<Rightarrow> bytes \<Rightarrow> string option \<Rightarrow> time \<Rightarrow> uuid \<Rightarrow> uuid \<Rightarrow> uuid \<Rightarrow> (db, workflow_run option) operation" where
  "replay_run env random cid now tenant actor i s =
     (case Option.bind (select_one (is_run tenant i) (workflowRuns s)) (\<lambda>r. map_option (Pair r) (select_one (is_workflow tenant (wr_workflowId r)) (workflows s))) of
        None \<Rightarrow> (Inl (NotFound ''Workflow run not found''), s)
      | Some (r, w) \<Rightarrow>
          if \<not> wf_enabled w then (Inl (Conflict ''Enable the workflow before replaying this run''), s)
          else if wr_status r \<noteq> R_FAILED \<or> wr_currentStep r \<noteq> 0 \<or> \<not> pure_start (we_text env) (wr_steps r)
          then (Inl (Conflict ''Safe replay is only available for failed runs at step zero when the first step has no external side effects''), s)
          else (let (q, s1) = enqueue_run now tenant (wr_workflowId r) ''REPLAY'' (''replay:'' @ i @ '':'' @ hex_encode random)
                                (if wr_triggerPayload r = JNull then JObj [] else wr_triggerPayload r) s
                in (Inr q, actor_audit cid now tenant actor ''REPLAY'' ''automation_workflow_run'' i (jobject [(''newRunId'', map_option (\<lambda>q. JStr (wr_id q)) q)]) s1)))"

definition cancellable :: "uuid \<Rightarrow> uuid \<Rightarrow> workflow_run \<Rightarrow> bool" where
  "cancellable tenant i r \<longleftrightarrow> is_run tenant i r \<and> wr_status r \<in> {R_QUEUED, R_WAITING_APPROVAL}"

definition cancel_run :: "string option \<Rightarrow> time \<Rightarrow> uuid \<Rightarrow> uuid \<Rightarrow> uuid \<Rightarrow> (db, uuid) operation" where
  "cancel_run cid now tenant actor i s =
     (if exists_row (cancellable tenant i) (workflowRuns s)
      then (Inr i, actor_audit cid now tenant actor ''CANCEL'' ''automation_workflow_run'' i (JObj [(''status'', JStr ''CANCELLED'')])
             (touch_runs (cancellable tenant i)
               (\<lambda>r. r\<lparr> wr_status := R_CANCELLED, wr_completedAt := Some now, wr_lockedAt := None, wr_lastError := Some ''CANCELLED_BY_OPERATOR'' \<rparr>) s))
      else if exists_row (is_run tenant i) (workflowRuns s)
      then (Inl (Conflict ''Only queued or approval-waiting runs can be cancelled safely''), s)
      else (Inl (NotFound ''Workflow run not found''), s))"

text \<open>\<open>decideApproval\<close>: an approved run goes on after the step, a rejected one ends.\<close>

definition decide_approval :: "string option \<Rightarrow> time \<Rightarrow> uuid \<Rightarrow> uuid \<Rightarrow> uuid \<Rightarrow> bool \<Rightarrow> string \<Rightarrow> (db, uuid) operation" where
  "decide_approval cid now tenant actor i approved remark s =
     (case select_one (\<lambda>a. wp_tenant a = tenant \<and> wp_id a = i \<and> wp_status a = AP_PENDING) (workflowApprovals s) of
        None \<Rightarrow> (Inl (NotFound ''Pending workflow approval not found''), s)
      | Some a \<Rightarrow>
          (let s1 = touch_approvals (\<lambda>a. wp_tenant a = tenant \<and> wp_id a = i \<and> wp_status a = AP_PENDING)
                      (\<lambda>a. a\<lparr> wp_status := (if approved then AP_APPROVED else AP_REJECTED), wp_decidedBy := Some actor, wp_note := Some (js_trim remark) \<rparr>) s;
               s2 = touch_runs (\<lambda>r. is_run tenant (wp_runId a) r \<and> wr_status r = R_WAITING_APPROVAL)
                      (\<lambda>r. r\<lparr> wr_status := (if approved then R_QUEUED else R_CANCELLED), wr_currentStep := (if approved then wr_currentStep r + 1 else wr_currentStep r),
                              wr_nextAttemptAt := now, wr_lockedAt := None, wr_lastError := None \<rparr>) s1
           in (Inr i, actor_audit cid now tenant actor (if approved then ''APPROVED'' else ''REJECTED'') ''automation_workflow_approval'' i
                 (JObj [(''runId'', JStr (wp_runId a)), (''note'', JStr (js_trim remark))]) s2)))"

definition list_alerts :: "uuid \<Rightarrow> db \<Rightarrow> workflow_alert list" where
  "list_alerts tenant s = take 500 (rev (select (\<lambda>a. wa_tenant a = tenant) (workflowAlerts s)))"

definition list_approvals :: "uuid \<Rightarrow> db \<Rightarrow> workflow_approval list" where
  "list_approvals tenant s = take 500 (rev (select (\<lambda>a. wp_tenant a = tenant) (workflowApprovals s)))"

definition list_integrations :: "uuid \<Rightarrow> db \<Rightarrow> integration list" where
  "list_integrations tenant s = take 500 (rev (select (\<lambda>x. ig_tenant x = tenant) (integrations s)))"

subsection \<open>Integrations\<close>

record integration_input =
  ii_name :: string
  ii_provider :: string
  ii_baseUrl :: "string option"
  ii_secretRef :: "string option"
  ii_config :: "(string \<times> json) list option"
  ii_enabled :: "bool option"

definition is_integration :: "uuid \<Rightarrow> uuid \<Rightarrow> integration \<Rightarrow> bool" where
  "is_integration tenant i x \<longleftrightarrow> ig_tenant x = tenant \<and> ig_id x = i"

definition present :: "string option \<Rightarrow> bool" where
  "present x \<longleftrightarrow> x \<noteq> None \<and> x \<noteq> Some []"

definition set_integration_enabled :: "string option \<Rightarrow> time \<Rightarrow> uuid \<Rightarrow> uuid \<Rightarrow> uuid \<Rightarrow> bool \<Rightarrow> (db, integration) operation" where
  "set_integration_enabled cid now tenant actor i enabled s =
     (case select_one (is_integration tenant i) (integrations s) of
        None \<Rightarrow> (Inl (NotFound ''Integration not found''), s)
      | Some x \<Rightarrow>
          if enabled \<and> ig_provider x \<in> {''WEBHOOK'', ''REST_API''} \<and> \<not> present (ig_baseUrl x)
          then (Inl (BadRequest ''Configure an HTTPS base URL before enabling this integration''), s)
          else if enabled \<and> ig_provider x \<in> {''SMS'', ''PAYMENT'', ''NETWORK_CONTROLLER''} \<and> \<not> present (ig_secretRef x)
          then (Inl (BadRequest ''Attach a tenant-owned secret in Secrets Vault before enabling this integration''), s)
          else (Inr (x\<lparr> ig_enabled := enabled \<rparr>),
                actor_audit cid now tenant actor (if enabled then ''ENABLE'' else ''DISABLE'') ''automation_integration'' i
                  (JObj [(''name'', JStr (ig_name x)), (''providerType'', JStr (ig_provider x))])
                  (s\<lparr> integrations := update_where (is_integration tenant i) (\<lambda>x. x\<lparr> ig_enabled := enabled \<rparr>) (integrations s) \<rparr>)))"

definition has_suffix :: "string \<Rightarrow> string \<Rightarrow> bool" where
  "has_suffix suffix t \<longleftrightarrow> has_prefix (rev suffix) (rev t)"

definition allowed_base :: "workflow_env \<Rightarrow> url \<Rightarrow> bool" where
  "allowed_base env u \<longleftrightarrow> ur_protocol u = ''https:'' \<and> ur_username u = [] \<and> ur_password u = [] \<and> \<not> we_is_ip env (ur_hostname u) \<and>
     ur_hostname u \<noteq> ''localhost'' \<and> \<not> has_suffix ''.local'' (ur_hostname u) \<and> \<not> has_suffix ''.internal'' (ur_hostname u) \<and>
     ur_hostname u \<noteq> ''metadata.google.internal''"

text \<open>The address of an integration: none, when none is given.\<close>

definition base_address :: "workflow_env \<Rightarrow> string option \<Rightarrow> string option result" where
  "base_address env base =
     (if \<not> present base then Inr None
      else (case we_url env (the base) of
              None \<Rightarrow> Inl (BadRequest ''Integration baseUrl must be a valid HTTPS URL without embedded credentials or local hostnames'')
            | Some u \<Rightarrow> if allowed_base env u then Inr (Some (ur_href u))
                        else Inl (BadRequest ''Integration baseUrl must be a valid HTTPS URL without embedded credentials or local hostnames'')))"

definition secret_ref_text :: "string \<Rightarrow> bool" where
  "secret_ref_text r \<longleftrightarrow> length r = 36 \<and> list_all (\<lambda>c. is_hex c \<or> c = CHR ''-'') r"

definition create_integration :: "workflow_env \<Rightarrow> string option \<Rightarrow> time \<Rightarrow> uuid \<Rightarrow> uuid \<Rightarrow> integration_input \<Rightarrow> (db, integration) operation" where
  "create_integration env cid now tenant actor d s =
     (case base_address env (ii_baseUrl d) of
        Inl e \<Rightarrow> (Inl e, s)
      | Inr url \<Rightarrow>
          if ii_provider d \<in> {''WEBHOOK'', ''REST_API''} \<and> \<not> present url then (Inl (BadRequest ''This integration type requires an HTTPS baseUrl''), s)
          else if present (ii_secretRef d) \<and> \<not> secret_ref_text (the (ii_secretRef d))
          then (Inl (BadRequest ''secretRef must reference a credential in the tenant secrets vault''), s)
          else if present (ii_secretRef d) \<and> \<not> exists_row (\<lambda>x. tx_tenant x = tenant \<and> tx_id x = the (ii_secretRef d)) (tenantSecrets s)
          then (Inl (BadRequest ''Secret reference does not exist in this tenant''), s)
          else (let x = \<lparr> ig_id = new_uuid s, ig_tenant = tenant, ig_name = js_trim (ii_name d), ig_provider = ii_provider d, ig_baseUrl = url,
                          ig_secretRef = ii_secretRef d, ig_config = JObj (or_value (ii_config d) []), ig_enabled = (ii_enabled d = Some True) \<rparr>
                in (Inr x, actor_audit cid now tenant actor ''CREATE'' ''automation_integration'' (ig_id x)
                      (JObj [(''name'', JStr (ii_name d)), (''providerType'', JStr (ii_provider d)), (''enabled'', JBool (ii_enabled d = Some True))])
                      (s\<lparr> next_id := next_id s + 1, integrations := insert_row x (integrations s) \<rparr>))))"

subsection \<open>Requests to integrations\<close>

text \<open>\<open>executeIntegrationRequest\<close> up to the request: the URL stays within the origin of the integration, every address of its host
  is public, the first one is the one connected to, and whatever may change something there carries a key.\<close>

definition resolved_url :: "workflow_env \<Rightarrow> integration \<Rightarrow> string \<Rightarrow> url result" where
  "resolved_url env x path =
     (case we_url env (the (ig_baseUrl x)) of
        None \<Rightarrow> Inl (PlainError ''Invalid URL'')
      | Some base \<Rightarrow>
          if ur_protocol base \<noteq> ''https:'' \<or> ur_username base \<noteq> [] \<or> ur_password base \<noteq> [] \<or> we_is_ip env (ur_hostname base)
          then Inl (BadRequest ''Integration URL is not an approved HTTPS hostname'')
          else (case we_resolve env path base of
                  None \<Rightarrow> Inl (PlainError ''Invalid URL'')
                | Some u \<Rightarrow>
                    if ur_origin u \<noteq> ur_origin base \<or> ur_username u \<noteq> [] \<or> ur_password u \<noteq> [] \<or> ur_hash u \<noteq> []
                    then Inl (BadRequest ''HTTP_REQUEST path escapes its configured integration origin'')
                    else Inr u))"

definition public_host :: "workflow_env \<Rightarrow> url \<Rightarrow> (string \<times> nat) result" where
  "public_host env u =
     (case we_lookup env (ur_hostname u) of
        Inl e \<Rightarrow> Inl e
      | Inr [] \<Rightarrow> Inl (BadRequest ''Integration hostname resolves to a non-public address and was blocked'')
      | Inr (a # as) \<Rightarrow>
          if list_ex (\<lambda>a. \<not> is_public_address a) (a # as)
          then Inl (BadRequest ''Integration hostname resolves to a non-public address and was blocked'') else Inr a)"

definition integration_token :: "workflow_env \<Rightarrow> uuid \<Rightarrow> integration \<Rightarrow> db \<Rightarrow> string option result" where
  "integration_token env tenant x s =
     (if \<not> present (ig_secretRef x) then Inr None
      else (case select_one (\<lambda>y. tx_tenant y = tenant \<and> tx_id y = the (ig_secretRef x)) (tenantSecrets s) of
              None \<Rightarrow> Inl (BadRequest ''Integration secret is no longer available in this tenant'')
            | Some y \<Rightarrow> map_sum id Some (get_secret_value (we_crypto env) (we_settings env) tenant (tx_key y) s)))"

definition supports_idempotency :: "integration \<Rightarrow> bool" where
  "supports_idempotency x \<longleftrightarrow> (case ig_config x of JObj kvs \<Rightarrow> map_of kvs ''supportsIdempotency'' = Some (JBool True) | _ \<Rightarrow> False)"

definition request_headers :: "uuid \<Rightarrow> nat \<Rightarrow> string \<Rightarrow> string option \<Rightarrow> (string \<times> string) list" where
  "request_headers runId index verb token =
     [(''accept'', ''application/json''), (''user-agent'', ''Jaslyn-Net-Workflow/1.0'')] @
     (if verb \<noteq> ''GET'' then [(''idempotency-key'', ''jaslyn-'' @ runId @ ''-'' @ nat_str index)] else []) @
     (if verb \<noteq> ''GET'' \<and> verb \<noteq> ''DELETE'' then [(''content-type'', ''application/json'')] else []) @
     (case token of None \<Rightarrow> [] | Some t \<Rightarrow> [(''authorization'', ''Bearer '' @ t)])"

definition rest_integration :: "uuid \<Rightarrow> uuid \<Rightarrow> integration \<Rightarrow> bool" where
  "rest_integration tenant i x \<longleftrightarrow> is_integration tenant i x \<and> ig_enabled x \<and> ig_provider x = ''REST_API''"

definition integration_call :: "workflow_env \<Rightarrow> uuid \<Rightarrow> uuid \<Rightarrow> nat \<Rightarrow> uuid \<Rightarrow> string \<Rightarrow> string \<Rightarrow> json \<Rightarrow> db \<Rightarrow> http_call result" where
  "integration_call env tenant runId index i verb path body s =
     (case select_one (rest_integration tenant i) (integrations s) of
        None \<Rightarrow> Inl (BadRequest ''HTTP_REQUEST requires an enabled tenant-owned REST_API integration'')
      | Some x \<Rightarrow>
          if \<not> present (ig_baseUrl x) then Inl (BadRequest ''HTTP_REQUEST requires an enabled tenant-owned REST_API integration'')
          else (case resolved_url env x path of
             Inl e \<Rightarrow> Inl e
           | Inr u \<Rightarrow>
               (case public_host env u of
                  Inl e \<Rightarrow> Inl e
                | Inr a \<Rightarrow>
                    if verb \<noteq> ''GET'' \<and> \<not> supports_idempotency x
                    then Inl (BadRequest ''Write-capable HTTP_REQUEST requires an integration explicitly marked supportsIdempotency'')
                    else (case integration_token env tenant x s of
                            Inl e \<Rightarrow> Inl e
                          | Inr token \<Rightarrow>
                              Inr \<lparr> hc_url = u, hc_address = a, hc_verb = verb, hc_headers = request_headers runId index verb token,
                                    hc_body = (if verb = ''GET'' \<or> verb = ''DELETE'' then None else Some body) \<rparr>))))"

text \<open>The answer: its status, its size and its document, if it is one.\<close>

definition read_response :: "workflow_env \<Rightarrow> http_response \<Rightarrow> (nat \<times> nat \<times> json option) result" where
  "read_response env r =
     (if 65536 < length (hr_body r) then Inl (PlainError ''Integration response exceeds 64 KB'')
      else if hr_status r < 200 \<or> 300 \<le> hr_status r then Inl (PlainError (''Integration returned HTTP '' @ nat_str (hr_status r)))
      else (let raw = cy_text (we_crypto env) (hr_body r) in
        if raw \<noteq> [] \<and> contains ''application/json'' (js_lower (hr_contentType r))
        then (case we_parse env raw of
                None \<Rightarrow> Inl (PlainError ''Integration returned invalid JSON'')
              | Some v \<Rightarrow> Inr (hr_status r, length (hr_body r), Some v))
        else Inr (hr_status r, length (hr_body r), None)))"

definition integration_request ::
  "workflow_env \<Rightarrow> uuid \<Rightarrow> uuid \<Rightarrow> nat \<Rightarrow> uuid \<Rightarrow> string \<Rightarrow> string \<Rightarrow> json \<Rightarrow> db \<Rightarrow> (nat \<times> nat \<times> json option) result" where
  "integration_request env tenant runId index i verb path body s =
     (case integration_call env tenant runId index i verb path body s of
        Inl e \<Rightarrow> Inl e
      | Inr call \<Rightarrow> (case we_send env call of Inl e \<Rightarrow> Inl e | Inr r \<Rightarrow> read_response env r))"

subsection \<open>Webhooks\<close>

definition receipt_of :: "uuid \<Rightarrow> uuid \<Rightarrow> nat \<Rightarrow> action_receipt \<Rightarrow> bool" where
  "receipt_of tenant runId index x \<longleftrightarrow> wx_unique x = Some (tenant, runId, index)"

definition emitted :: "workflow_env \<Rightarrow> uuid \<Rightarrow> uuid \<Rightarrow> uuid \<Rightarrow> nat \<Rightarrow> string \<Rightarrow> json \<Rightarrow> json \<Rightarrow> db \<Rightarrow> webhook_delivery list" where
  "emitted env tenant workflowId runId index eventType trigger payload s =
     map (\<lambda>e. \<lparr> wd_tenant = we_tenant e, wd_endpointId = we_id e, wd_eventId = we_event_id env (runId @ '':'' @ nat_str index @ '':'' @ we_id e),
                 wd_eventType = eventType,
                 wd_payload = JObj [(''workflowId'', JStr workflowId), (''runId'', JStr runId), (''triggerPayload'', trigger), (''data'', payload)] \<rparr>)
       (select (\<lambda>e. we_tenant e = tenant \<and> we_enabled e \<and> eventType \<in> set (we_eventTypes e)) (webhookEndpoints s))"

text \<open>\<open>emitWebhook\<close>, one transaction: the receipt of the step decides whether its deliveries were queued before. Deliveries have a
  unique key in the database.\<close>

definition emit_webhook ::
  "workflow_env \<Rightarrow> uuid \<Rightarrow> uuid \<Rightarrow> uuid \<Rightarrow> nat \<Rightarrow> string \<Rightarrow> json result \<Rightarrow> json \<Rightarrow> (db, string \<times> nat) operation" where
  "emit_webhook env tenant workflowId runId index eventType trigger payload s =
     (case select_one (receipt_of tenant runId index) (actionReceipts s) of
        Some x \<Rightarrow> (Inr (''ALREADY_QUEUED'', or_value (wx_deliveries x) 0), s)
      | None \<Rightarrow>
          (case trigger of
             Inl e \<Rightarrow> (Inl e, s)
           | Inr document \<Rightarrow>
               (let rows = emitted env tenant workflowId runId index eventType document payload s in
                if \<not> unique_key wd_key (webhookDeliveries s @ rows) then (Inl (DbError ''23505''), s)
                else (Inr (''QUEUED'', length rows),
                      put_action_receipt \<lparr> wx_tenant = tenant, wx_runId = runId, wx_stepIndex = index, wx_deliveries = Some (length rows) \<rparr>
                        (s\<lparr> webhookDeliveries := webhookDeliveries s @ rows \<rparr>)))))"

subsection \<open>Steps\<close>

text \<open>What a step leaves: the loop goes on, leaving out some steps, with the payload and the results so far; or a condition ended
  the run; or the run was put aside.\<close>

datatype control = Go_on nat store "json list" | Ended "json list" | Put_aside

definition index_json :: "nat \<Rightarrow> json" where
  "index_json n = JNum (of_nat n)"

definition entry :: "nat \<Rightarrow> string \<Rightarrow> (string \<times> json) list \<Rightarrow> json" where
  "entry index type kvs = JObj ((''index'', index_json index) # (''type'', JStr type) # kvs)"

fun notification_state :: "notification_status \<Rightarrow> string" where
  "notification_state N_PENDING = ''PENDING''"
| "notification_state N_PROCESSING = ''PROCESSING''"
| "notification_state N_SENT = ''SENT''"
| "notification_state N_FAILED = ''FAILED''"
| "notification_state N_CANCELED = ''CANCELED''"

definition set_run :: "workflow_run \<Rightarrow> (workflow_run \<Rightarrow> workflow_run) \<Rightarrow> db \<Rightarrow> db" where
  "set_run r = touch_runs (is_run (wr_tenant r) (wr_id r))"

definition finish_run :: "time \<Rightarrow> workflow_run \<Rightarrow> run_status \<Rightarrow> nat \<Rightarrow> json list \<Rightarrow> string option \<Rightarrow> db \<Rightarrow> db" where
  "finish_run now r st index results error = set_run r
     (\<lambda>r. r\<lparr> wr_status := st, wr_currentStep := index, wr_results := wr_results r @ results, wr_lastError := error, wr_completedAt := Some now,
             wr_lockedAt := None \<rparr>)"

definition notify_step ::
  "time \<Rightarrow> workflow_run \<Rightarrow> nat \<Rightarrow> string \<Rightarrow> string \<Rightarrow> string \<Rightarrow> string \<Rightarrow> string \<Rightarrow> nat \<Rightarrow> store \<Rightarrow> json list \<Rightarrow> (db, control) operation" where
  "notify_step now r index channel path event message category base h results s =
     (case value_at h base path of
        Some (Atom (JStr target)) \<Rightarrow>
          if js_trim target = [] then (Inl (BadRequest ''NOTIFY recipient path must resolve to a non-empty string''), s)
          else (let recipient = js_trim target; key = ''workflow:'' @ wr_id r @ '':'' @ nat_str index in
            case (if channel = ''SMS''
                  then enqueue_sms now (wr_tenant r) \<lparr> si_recipient = recipient, si_message = message, si_category = category, si_idempotencyKey = key, si_availableAt = None \<rparr> s
                  else enqueue_notification now (wr_tenant r) channel recipient event
                         (JObj [(''message'', JStr message), (''workflowId'', JStr (wr_workflowId r)), (''runId'', JStr (wr_id r)), (''stepIndex'', index_json index)])
                         None (Some key) s) of
              (Inl e, s1) \<Rightarrow> (Inl e, s1)
            | (Inr n, s1) \<Rightarrow>
                (Inr (Go_on 0 h (results @ [entry index ''NOTIFY'' [(''channel'', JStr channel), (''status'', JStr (notification_state (no_status n))),
                   (''notificationId'', JStr (no_id n))]])), s1))
      | _ \<Rightarrow> (Inl (BadRequest ''NOTIFY recipient path must resolve to a non-empty string''), s))"

definition alert_step :: "workflow_env \<Rightarrow> workflow_run \<Rightarrow> nat \<Rightarrow> string \<Rightarrow> string \<Rightarrow> json \<Rightarrow> store \<Rightarrow> json list \<Rightarrow> (db, control) operation" where
  "alert_step env r index severity title details h results s =
     (let a = \<lparr> wa_id = new_uuid s, wa_tenant = wr_tenant r, wa_runId = wr_id r, wa_stepIndex = index, wa_severity = severity, wa_title = title,
                wa_details = details, wa_status = we_alert_status env \<rparr>;
          s1 = put_alert a (s\<lparr> next_id := next_id s + 1 \<rparr>);
          stored = or_value (select_one (\<lambda>b. wa_unique b = wa_unique a) (workflowAlerts s1)) a
      in (Inr (Go_on 0 h (results @ [entry index ''CREATE_ALERT'' [(''status'', JStr (wa_status stored)), (''alertId'', JStr (wa_id stored)),
            (''title'', JStr title), (''severity'', JStr severity)]])), s1))"

text \<open>An approval is requested once for a step; the run waits for it, ends when it is rejected and goes on when it was approved.\<close>

definition approval_step :: "time \<Rightarrow> workflow_run \<Rightarrow> nat \<Rightarrow> string \<Rightarrow> json \<Rightarrow> nat \<Rightarrow> store \<Rightarrow> json list \<Rightarrow> (db, control) operation" where
  "approval_step now r index title details base h results s =
     (let a = \<lparr> wp_id = new_uuid s, wp_tenant = wr_tenant r, wp_runId = wr_id r, wp_stepIndex = index, wp_title = title, wp_details = details,
                wp_status = AP_PENDING, wp_decidedBy = None, wp_note = None \<rparr>;
          s1 = put_approval a (s\<lparr> next_id := next_id s + 1 \<rparr>);
          stored = or_value (select_one (\<lambda>b. wp_unique b = wp_unique a) (workflowApprovals s1)) a
      in (case wp_status stored of
            AP_REJECTED \<Rightarrow> (Inr Put_aside, finish_run now r R_CANCELLED index results (Some ''APPROVAL_REJECTED'') s1)
          | AP_PENDING \<Rightarrow>
              (case stringify h (Ref base) of
                 Inl e \<Rightarrow> (Inl e, s1)
               | Inr document \<Rightarrow>
                   (Inr Put_aside, set_run r (\<lambda>r. r\<lparr> wr_status := R_WAITING_APPROVAL, wr_currentStep := index, wr_results := wr_results r @ results,
                      wr_executionPayload := document, wr_lockedAt := None \<rparr>) s1))
          | AP_APPROVED \<Rightarrow>
              (Inr (Go_on 0 h (results @ [entry index ''APPROVAL'' [(''status'', JStr ''APPROVED''), (''approvalId'', JStr (wp_id stored))]])), s1)))"

text \<open>Only the entry of the step itself is added to the stored results.\<close>

definition wait_step :: "time \<Rightarrow> workflow_run \<Rightarrow> nat \<Rightarrow> int \<Rightarrow> nat \<Rightarrow> store \<Rightarrow> (db, control) operation" where
  "wait_step now r index seconds base h s =
     (case stringify h (Ref base) of
        Inl e \<Rightarrow> (Inl e, s)
      | Inr document \<Rightarrow>
          (Inr Put_aside, set_run r (\<lambda>r. r\<lparr> wr_status := R_QUEUED, wr_currentStep := index + 1, wr_nextAttemptAt := now + 1000 * seconds,
             wr_results := wr_results r @ [entry index ''WAIT'' [(''seconds'', JNum (of_int seconds)), (''status'', JStr ''WAITING'')]],
             wr_executionPayload := document, wr_lockedAt := None \<rparr>) s))"

definition condition_step :: "workflow_env \<Rightarrow> nat \<Rightarrow> string \<Rightarrow> string \<Rightarrow> json option \<Rightarrow> string \<Rightarrow> jsnum \<Rightarrow> nat \<Rightarrow> store \<Rightarrow> json list \<Rightarrow> (db, control) operation" where
  "condition_step env index path op val onFalse skip base h results s =
     (case condition (we_text env) h base path op val of
        Inl e \<Rightarrow> (Inl e, s)
      | Inr matched \<Rightarrow>
          (let results = results @ [entry index ''CONDITION'' [(''matched'', JBool matched), (''onFalse'', JStr onFalse)]] in
           if matched then (Inr (Go_on 0 h results), s)
           else if onFalse = ''SKIP'' then (Inr (Go_on (nat \<lfloor>fin_val skip\<rfloor>) h results), s)
           else (Inr (Ended results), s)))"

definition output_key :: "string \<Rightarrow> nat \<Rightarrow> string" where
  "output_key k index = (if k = [] then ''step'' @ nat_str index else k)"

definition http_step ::
  "workflow_env \<Rightarrow> workflow_run \<Rightarrow> nat \<Rightarrow> uuid \<Rightarrow> string \<Rightarrow> string \<Rightarrow> json \<Rightarrow> string \<Rightarrow> nat \<Rightarrow> store \<Rightarrow> json list \<Rightarrow> (db, control) operation" where
  "http_step env r index i verb path body k base h results s =
     (case integration_request env (wr_tenant r) (wr_id r) index i verb path body s of
        Inl e \<Rightarrow> (Inl e, s)
      | Inr (status, bytes, response) \<Rightarrow>
          (Inr (Go_on 0 (case response of None \<Rightarrow> h | Some v \<Rightarrow> store_response h base (output_key k index) v)
             (results @ [entry index ''HTTP_REQUEST'' [(''statusCode'', index_json status), (''responseBytes'', index_json bytes),
                (''outputKey'', JStr (output_key k index))]])), s))"

definition emit_step :: "workflow_env \<Rightarrow> workflow_run \<Rightarrow> nat \<Rightarrow> string \<Rightarrow> json \<Rightarrow> nat \<Rightarrow> store \<Rightarrow> json list \<Rightarrow> (db, control) operation" where
  "emit_step env r index event payload base h results s =
     (case emit_webhook env (wr_tenant r) (wr_workflowId r) (wr_id r) index event (stringify h (Ref base)) payload s of
        (Inl e, s1) \<Rightarrow> (Inl e, s1)
      | (Inr (status, deliveries), s1) \<Rightarrow>
          (Inr (Go_on 0 h (results @ [entry index ''EMIT_WEBHOOK'' [(''status'', JStr status), (''deliveries'', index_json deliveries), (''eventType'', JStr event)]])), s1))"

fun run_step :: "workflow_env \<Rightarrow> time \<Rightarrow> workflow_run \<Rightarrow> nat \<Rightarrow> nat \<Rightarrow> store \<Rightarrow> json list \<Rightarrow> step \<Rightarrow> (db, control) operation" where
  "run_step env now r index base h results (Transform ms) s =
     (let (h1, changed) = transform h base ms [] in
      (Inr (Go_on 0 h1 (results @ [entry index ''TRANSFORM'' [(''changedFields'', JArr (map JStr changed))]])), s))"
| "run_step env now r index base h results (Condition path op val onFalse skip) s = condition_step env index path op val onFalse skip base h results s"
| "run_step env now r index base h results (Http_request i verb path body k) s = http_step env r index i verb path body k base h results s"
| "run_step env now r index base h results (Notify channel path event message category) s = notify_step now r index channel path event message category base h results s"
| "run_step env now r index base h results (Create_alert severity title details) s = alert_step env r index severity title details h results s"
| "run_step env now r index base h results (Approval title details) s = approval_step now r index title details base h results s"
| "run_step env now r index base h results (Wait seconds) s = wait_step now r index seconds base h s"
| "run_step env now r index base h results (Emit_webhook event payload) s = emit_step env r index event payload base h results s"
| "run_step env now r index base h results (Log message) s =
     (Inr (Go_on 0 h (results @ [entry index ''LOG'' [(''message'', JStr message)]])), s)"

text \<open>The payload is stored after every step.\<close>

definition save_payload :: "workflow_run \<Rightarrow> nat \<Rightarrow> store \<Rightarrow> (db, unit) operation" where
  "save_payload r base h s =
     (case stringify h (Ref base) of
        Inl e \<Rightarrow> (Inl e, s)
      | Inr document \<Rightarrow>
          (Inr (), touch_runs (\<lambda>q. is_run (wr_tenant r) (wr_id r) q \<and> wr_status q = R_RUNNING) (\<lambda>q. q\<lparr> wr_executionPayload := document \<rparr>) s))"

function run_steps :: "workflow_env \<Rightarrow> time \<Rightarrow> workflow_run \<Rightarrow> step list \<Rightarrow> nat \<Rightarrow> nat \<Rightarrow> store \<Rightarrow> json list \<Rightarrow> (db, unit) operation" where
  "run_steps env now r sts base index h results s =
     (if length sts \<le> index then (Inr (), finish_run now r R_SUCCEEDED index results None s)
      else (case run_step env now r index base h results (sts ! index) s of
              (Inl e, s1) \<Rightarrow> (Inl e, s1)
            | (Inr Put_aside, s1) \<Rightarrow> (Inr (), s1)
            | (Inr (Ended results1), s1) \<Rightarrow> (Inr (), finish_run now r R_SUCCEEDED (length sts) results1 (Some ''CONDITION_NOT_MET'') s1)
            | (Inr (Go_on skip h1 results1), s1) \<Rightarrow>
                (case save_payload r base h1 s1 of
                   (Inl e, s2) \<Rightarrow> (Inl e, s2)
                 | (Inr _, s2) \<Rightarrow> run_steps env now r sts base (index + skip + 1) h1 results1 s2)))"
  by pat_completeness auto
termination by (relation "measure (\<lambda>(env, now, r, sts, base, index, h, results, s). length sts - index)") auto

declare run_steps.simps [simp del]

subsection \<open>Rounds of the worker\<close>

definition max_attempts :: nat where
  "max_attempts = 8"

definition due_run :: "time \<Rightarrow> workflow_run \<Rightarrow> bool" where
  "due_run now r \<longleftrightarrow> (wr_status r = R_QUEUED \<and> wr_nextAttemptAt r \<le> now) \<or>
     (wr_status r = R_RUNNING \<and> (case wr_lockedAt r of None \<Rightarrow> False | Some t \<Rightarrow> t < now - 600000) \<and> wr_attempts r < max_attempts)"

definition take_run :: "time \<Rightarrow> workflow_run \<Rightarrow> workflow_run" where
  "take_run now r = r\<lparr> wr_status := R_RUNNING, wr_attempts := wr_attempts r + 1, wr_lockedAt := Some now, wr_startedAt := Some (or_value (wr_startedAt r) now) \<rparr>"

definition due_runs :: "time \<Rightarrow> db \<Rightarrow> workflow_run list" where
  "due_runs now s = order_limit (\<lambda>r. (wr_nextAttemptAt r, wr_createdAt r)) 25 (select (due_run now) (workflowRuns s))"

definition claim_runs :: "time \<Rightarrow> db \<Rightarrow> workflow_run list \<times> db" where
  "claim_runs now s =
     (let due = due_runs now s
      in (map (take_run now) due, touch_runs (\<lambda>r. wr_id r \<in> wr_id ` set due) (take_run now) s))"

text \<open>The payload a run starts with: what it had reached, or what triggered it.\<close>

definition start_payload :: "workflow_run \<Rightarrow> (string \<times> json) list" where
  "start_payload r = (case (if wr_executionPayload r = JNull then wr_triggerPayload r else wr_executionPayload r) of JObj kvs \<Rightarrow> kvs | _ \<Rightarrow> [])"

definition execute_run :: "workflow_env \<Rightarrow> time \<Rightarrow> workflow_run \<Rightarrow> (db, unit) operation" where
  "execute_run env now r s =
     (case select_one (\<lambda>w. is_workflow (wr_tenant r) (wr_workflowId r) w \<and> wf_enabled w) (workflows s) of
        None \<Rightarrow> (Inr (), finish_run now r R_CANCELLED (wr_currentStep r) [] (Some ''WORKFLOW_DISABLED_OR_MISSING'') s)
      | Some w \<Rightarrow>
          (case validate_steps (we_text env) (if wr_steps r = JNull then wf_steps w else wr_steps r) of
             Inl e \<Rightarrow> (Inl e, s)
           | Inr sts \<Rightarrow>
               (let (cells, h) = load_all (start_payload r) []
                in run_steps env now r sts (length h) (wr_currentStep r) (h @ [cells]) [] s)))"

definition retry_seconds :: "nat \<Rightarrow> int" where
  "retry_seconds attempts = min 3600 (15 * 2 ^ min (attempts - 1) 8)"

definition fail_run :: "time \<Rightarrow> workflow_run \<Rightarrow> exn \<Rightarrow> db \<Rightarrow> db" where
  "fail_run now r e = set_run r
     (\<lambda>q. q\<lparr> wr_status := (if max_attempts \<le> wr_attempts r then R_FAILED else R_QUEUED), wr_lastError := Some (take 1000 (exn_message e)),
             wr_nextAttemptAt := now + 1000 * retry_seconds (wr_attempts r), wr_lockedAt := None,
             wr_completedAt := (if max_attempts \<le> wr_attempts r then Some now else None) \<rparr>)"

definition process_run :: "workflow_env \<Rightarrow> time \<Rightarrow> workflow_run \<Rightarrow> db \<Rightarrow> db" where
  "process_run env now r s = (case execute_run env now r s of (Inr _, s1) \<Rightarrow> s1 | (Inl e, s1) \<Rightarrow> fail_run now r e s1)"

definition process_queued :: "workflow_env \<Rightarrow> time \<Rightarrow> db \<Rightarrow> nat \<times> db" where
  "process_queued env now s =
     (let (claimed, s1) = claim_runs now s in (length claimed, fold (process_run env now) claimed s1))"

text \<open>One tick of the worker (\<open>workflows/workflows.worker.ts\<close>), which does nothing while the previous one is under way.\<close>

definition worker_tick :: "bool \<Rightarrow> workflow_env \<Rightarrow> (time \<Rightarrow> string) \<Rightarrow> time \<Rightarrow> db \<Rightarrow> db" where
  "worker_tick running env show_time now s = (if running then s else snd (process_queued env now (schedule_and_collect env show_time now s)))"

subsection \<open>What a run does to the table of runs\<close>

text \<open>\<open>moves P r s s'\<close>: only the row of \<open>r\<close> changed, it kept its identity, and it satisfies \<open>P\<close>.\<close>

definition moves :: "(workflow_run \<Rightarrow> bool) \<Rightarrow> workflow_run \<Rightarrow> db \<Rightarrow> db \<Rightarrow> bool" where
  "moves P r s s' \<longleftrightarrow>
     (\<exists>g. (\<forall>q. wr_unique (g q) = wr_unique q \<and> wr_id (g q) = wr_id q \<and> P (g q)) \<and>
          workflowRuns s' = update_where (is_run (wr_tenant r) (wr_id r)) g (workflowRuns s))"

definition any_run :: "workflow_run \<Rightarrow> bool" where
  "any_run q = True"

text \<open>A run the worker has let go: it is not locked, and it is not due.\<close>

definition idle :: "time \<Rightarrow> workflow_run \<Rightarrow> bool" where
  "idle now q \<longleftrightarrow> wr_status q \<noteq> R_RUNNING \<and> wr_lockedAt q = None \<and> (wr_status q = R_QUEUED \<longrightarrow> now < wr_nextAttemptAt q)"

lemma moves_same: "workflowRuns s' = workflowRuns s \<Longrightarrow> moves any_run r s s'"
  unfolding moves_def any_run_def by (rule exI [of _ id]) (simp add: update_where_def map_idI)

lemma is_run_kept: "wr_unique q = wr_unique p \<Longrightarrow> wr_id q = wr_id p \<Longrightarrow> is_run tenant i q = is_run tenant i p"
  by (simp add: wr_unique_def is_run_def)

lemma moves_trans:
  assumes "moves P r s s1" and "moves Q r s1 s2"
  shows "moves Q r s s2"
proof -
  obtain f where f: "\<forall>q. wr_unique (f q) = wr_unique q \<and> wr_id (f q) = wr_id q \<and> P (f q)"
    and s1: "workflowRuns s1 = update_where (is_run (wr_tenant r) (wr_id r)) f (workflowRuns s)"
    using assms(1) unfolding moves_def by blast
  obtain g where g: "\<forall>q. wr_unique (g q) = wr_unique q \<and> wr_id (g q) = wr_id q \<and> Q (g q)"
    and s2: "workflowRuns s2 = update_where (is_run (wr_tenant r) (wr_id r)) g (workflowRuns s1)"
    using assms(2) unfolding moves_def by blast
  have "is_run (wr_tenant r) (wr_id r) (f q) = is_run (wr_tenant r) (wr_id r) q" for q
    using f by (intro is_run_kept) simp_all
  then have "workflowRuns s2 = update_where (is_run (wr_tenant r) (wr_id r)) (g \<circ> f) (workflowRuns s)"
    by (simp add: s1 s2 update_where_def)
  then show ?thesis unfolding moves_def using f g by (intro exI [of _ "g \<circ> f"]) simp
qed

lemma moves_mono: "moves P r s s' \<Longrightarrow> (\<And>q. P q \<Longrightarrow> Q q) \<Longrightarrow> moves Q r s s'"
  unfolding moves_def by blast

lemma set_run_moves:
  assumes "\<And>q. wr_unique (f q) = wr_unique q" and "\<And>q. wr_id (f q) = wr_id q" and "\<And>q. P (f q)"
  shows "moves P r s (set_run r f s)"
  unfolding moves_def using assms by (intro exI [of _ f]) (simp add: set_run_def runs.touch_rows)

lemma finish_moves: "st \<noteq> R_RUNNING \<Longrightarrow> st \<noteq> R_QUEUED \<Longrightarrow> moves (idle now) r s (finish_run now r st index results e s)"
  unfolding finish_run_def by (rule set_run_moves) (simp_all add: wr_unique_def idle_def)

lemma save_payload_moves: "save_payload r base h s = (res, s') \<Longrightarrow> moves any_run r s s'"
proof -
  assume save: "save_payload r base h s = (res, s')"
  show ?thesis
  proof (cases "stringify h (Ref base)")
    case (Inl e)
    then show ?thesis using save by (auto simp: save_payload_def intro: moves_same)
  next
    case (Inr document)
    define f :: "workflow_run \<Rightarrow> workflow_run" where "f q = (if wr_status q = R_RUNNING then q\<lparr> wr_executionPayload := document \<rparr> else q)" for q
    have "workflowRuns s' = update_where (is_run (wr_tenant r) (wr_id r)) f (workflowRuns s)"
      using save Inr by (auto simp: save_payload_def runs.touch_rows update_where_def f_def)
    then show ?thesis unfolding moves_def by (intro exI [of _ f]) (simp add: f_def wr_unique_def any_run_def)
  qed
qed

lemma put_frames [simp]:
  "workflowRuns (put_notification n s) = workflowRuns s" "workflowRuns (put_alert a s) = workflowRuns s"
  "workflowRuns (put_approval p s) = workflowRuns s" "workflowRuns (put_action_receipt x s) = workflowRuns s"
  by (simp_all add: put_notification_def put_alert_def put_approval_def put_action_receipt_def)

lemma notify_frames:
  "enqueue_sms now tenant input s = (res, s') \<Longrightarrow> workflowRuns s' = workflowRuns s"
  "enqueue_notification now tenant channel recipient event payload available key s = (res, s') \<Longrightarrow> workflowRuns s' = workflowRuns s"
  by (auto simp: enqueue_sms_def enqueue_notification_def insert_notification_def Let_def split: sum.splits if_splits)

lemma notify_step_frame: "notify_step now r index channel path event message category base h results s = (res, s') \<Longrightarrow> workflowRuns s' = workflowRuns s \<and> res \<noteq> Inr Put_aside"
  unfolding notify_step_def Let_def
  by (auto split: option.splits cell.splits json.splits if_splits prod.splits sum.splits dest: notify_frames)

lemma emit_webhook_frame: "emit_webhook env tenant w i index event trigger payload s = (res, s') \<Longrightarrow> workflowRuns s' = workflowRuns s"
  by (auto simp: emit_webhook_def Let_def split: option.splits sum.splits if_splits)

lemma emit_step_frame: "emit_step env r index event payload base h results s = (res, s') \<Longrightarrow> workflowRuns s' = workflowRuns s \<and> res \<noteq> Inr Put_aside"
  by (auto simp: emit_step_def split: prod.splits sum.splits dest: emit_webhook_frame)

text \<open>A step that puts the run aside leaves it idle; every other one leaves the table of runs alone.\<close>

definition step_effect :: "time \<Rightarrow> workflow_run \<Rightarrow> control result \<Rightarrow> db \<Rightarrow> db \<Rightarrow> bool" where
  "step_effect now r res s s' \<longleftrightarrow> (if res = Inr Put_aside then moves (idle now) r s s' else workflowRuns s' = workflowRuns s)"

lemma step_effect_moves: "step_effect now r res s s' \<Longrightarrow> moves any_run r s s'"
  unfolding step_effect_def by (auto simp: any_run_def split: if_splits intro: moves_same moves_mono)

lemma moves_from: "workflowRuns s1 = workflowRuns s \<Longrightarrow> moves P r s1 s' \<Longrightarrow> moves P r s s'"
  by (simp add: moves_def)

lemma approval_step_effect: "approval_step now r index title details base h results s = (res, s') \<Longrightarrow> step_effect now r res s s'"
proof -
  assume step: "approval_step now r index title details base h results s = (res, s')"
  define a where "a = \<lparr> wp_id = new_uuid s, wp_tenant = wr_tenant r, wp_runId = wr_id r, wp_stepIndex = index, wp_title = title, wp_details = details,
    wp_status = AP_PENDING, wp_decidedBy = None, wp_note = None \<rparr>"
  define s1 where "s1 = put_approval a (s\<lparr> next_id := next_id s + 1 \<rparr>)"
  define stored where "stored = or_value (select_one (\<lambda>b. wp_unique b = wp_unique a) (workflowApprovals s1)) a"
  have s1: "workflowRuns s1 = workflowRuns s" by (simp add: s1_def)
  note step = step [unfolded approval_step_def Let_def, folded a_def, folded s1_def, folded stored_def]
  show ?thesis
  proof (cases "wp_status stored")
    case AP_PENDING
    show ?thesis
    proof (cases "stringify h (Ref base)")
      case (Inl e)
      then show ?thesis using step AP_PENDING s1 by (auto simp: step_effect_def)
    next
      case (Inr document)
      then have "res = Inr Put_aside" and s': "s' = set_run r (\<lambda>r. r\<lparr> wr_status := R_WAITING_APPROVAL, wr_currentStep := index, wr_results := wr_results r @ results,
          wr_executionPayload := document, wr_lockedAt := None \<rparr>) s1"
        using step AP_PENDING by simp_all
      moreover have "moves (idle now) r s1 s'"
        unfolding s' by (rule set_run_moves) (simp_all add: wr_unique_def idle_def)
      ultimately show ?thesis using moves_from [OF s1] by (simp add: step_effect_def)
    qed
  next
    case AP_APPROVED
    then show ?thesis using step s1 by (auto simp: step_effect_def)
  next
    case AP_REJECTED
    then have "res = Inr Put_aside" and s': "s' = finish_run now r R_CANCELLED index results (Some ''APPROVAL_REJECTED'') s1" using step by simp_all
    then show ?thesis using moves_from [OF s1 finish_moves] by (simp add: step_effect_def)
  qed
qed

lemma wait_step_effect: "0 < seconds \<Longrightarrow> wait_step now r index seconds base h s = (res, s') \<Longrightarrow> step_effect now r res s s'"
  unfolding wait_step_def
  by (cases "stringify h (Ref base)")
    (auto simp: step_effect_def wr_unique_def idle_def intro!: set_run_moves)

definition waits :: "step \<Rightarrow> bool" where
  "waits st \<longleftrightarrow> (case st of Wait n \<Rightarrow> 0 < n | _ \<Rightarrow> True)"

lemma run_step_effect:
  assumes "waits st" and "run_step env now r index base h results st s = (res, s')"
  shows "step_effect now r res s s'"
proof (cases st)
  case (Transform ms)
  then show ?thesis using assms(2) by (auto simp: step_effect_def split: prod.splits)
next
  case Condition
  then show ?thesis using assms(2) by (auto simp: step_effect_def condition_step_def Let_def split: sum.splits if_splits)
next
  case Http_request
  then show ?thesis using assms(2) by (auto simp: step_effect_def http_step_def split: sum.splits prod.splits)
next
  case Notify
  then show ?thesis using assms(2) by (auto simp: step_effect_def dest: notify_step_frame)
next
  case Create_alert
  then show ?thesis using assms(2) by (auto simp: step_effect_def alert_step_def Let_def)
next
  case Approval
  then show ?thesis using assms(2) by (auto intro: approval_step_effect)
next
  case Emit_webhook
  then show ?thesis using assms(2) by (auto simp: step_effect_def dest: emit_step_frame)
next
  case Wait
  then show ?thesis using assms by (auto simp: waits_def intro: wait_step_effect)
next
  case Log
  then show ?thesis using assms(2) by (auto simp: step_effect_def)
qed

lemma run_steps_moves:
  assumes "list_all waits sts" and "run_steps env now r sts base index h results s = (res, s')"
  shows "moves (if res = Inr () then idle now else any_run) r s s'"
  using assms
proof (induction env now r sts base index h results s arbitrary: res s' rule: run_steps.induct)
  case (1 env now r sts base index h results s)
  show ?case
  proof (cases "length sts \<le> index")
    case True
    then show ?thesis using "1.prems"(2) by (auto simp: run_steps.simps [of env now r sts base index] intro: finish_moves)
  next
    case False
    then have st: "waits (sts ! index)" using "1.prems"(1) by (simp add: list_all_length)
    obtain c s1 where step: "run_step env now r index base h results (sts ! index) s = (c, s1)" by fastforce
    note effect = run_step_effect [OF st step]
    note run = "1.prems"(2) [unfolded run_steps.simps [of env now r sts base index]]
    consider (err) e where "c = Inl e" | (aside) "c = Inr Put_aside" | (ended) rs where "c = Inr (Ended rs)" | (on) skip h1 rs where "c = Inr (Go_on skip h1 rs)"
      by (metis control.exhaust sum.exhaust)
    then show ?thesis
    proof cases
      case err
      then show ?thesis using run False step step_effect_moves [OF effect] by auto
    next
      case aside
      then show ?thesis using run False step effect by (simp add: step_effect_def)
    next
      case ended
      then have "workflowRuns s1 = workflowRuns s" using effect by (simp add: step_effect_def)
      then show ?thesis using run False step ended by (auto intro: moves_from finish_moves)
    next
      case on
      then have s1: "workflowRuns s1 = workflowRuns s" using effect by (simp add: step_effect_def)
      obtain v s2 where save: "save_payload r base h1 s1 = (v, s2)" by fastforce
      have s2: "moves any_run r s s2" using save_payload_moves [OF save] s1 by (rule moves_from [rotated])
      show ?thesis
      proof (cases v)
        case (Inl e)
        then show ?thesis using run False step on save s2 by auto
      next
        case (Inr u)
        then have "run_steps env now r sts base (index + skip + 1) h1 rs s2 = (res, s')" using run False step on save by simp
        from "1.IH" [OF False step [symmetric] on refl save [symmetric] Inr "1.prems"(1) this]
        show ?thesis using moves_trans [OF s2] by simp
      qed
    qed
  qed
qed

lemma no_other_waits:
  "validate_condition lib kvs \<noteq> Inr (Wait n)" "validate_transform lib kvs \<noteq> Inr (Wait n)" "validate_http lib kvs \<noteq> Inr (Wait n)"
  "validate_notify lib kvs \<noteq> Inr (Wait n)" "validate_alert lib kvs \<noteq> Inr (Wait n)" "validate_approval lib kvs \<noteq> Inr (Wait n)"
  "validate_emit lib kvs \<noteq> Inr (Wait n)" "validate_log lib kvs \<noteq> Inr (Wait n)"
  unfolding validate_condition_def validate_http_def validate_notify_def validate_alert_def validate_approval_def validate_emit_def validate_log_def
    Let_def if_Inl_Inr
  by (simp_all add: validate_transform_def map_sum_def split: option.split json.split sum.split)

lemma only_wait_waits: "validate_step lib i item = Inr (Wait n) \<Longrightarrow> \<exists>kvs. validate_wait lib kvs = Inr (Wait n)"
proof -
  assume v: "validate_step lib i item = Inr (Wait n)"
  then obtain kvs where item: "item = JObj kvs" by (cases item) (simp_all add: validate_step_def)
  define type where "type = js_upper (text_field lib kvs ''type'' [])"
  note v = v [unfolded item validate_step_def Let_def json.case, folded type_def]
  have "validate_wait lib kvs = Inr (Wait n)"
    by (rule ccontr) (use v in \<open>simp only: no_other_waits sum.simps refl not_True_eq_False split: if_split_asm\<close>)
  then show ?thesis ..
qed

lemma validated_waits: "validate_from lib i items = Inr sts \<Longrightarrow> list_all waits sts"
proof (induction items arbitrary: i sts)
  case Nil
  then show ?case by simp
next
  case (Cons item items)
  then obtain st rest where st: "validate_step lib i item = Inr st" and rest: "validate_from lib (i + 1) items = Inr rest" and sts: "sts = st # rest"
    by (auto split: sum.splits)
  have "waits st"
  proof (cases st)
    case (Wait n)
    then obtain kvs where "validate_wait lib kvs = Inr (Wait n)" using only_wait_waits st by blast
    then show ?thesis using Wait
      by (auto simp: validate_wait_def waits_def whole_between_def Let_def split: if_splits jsnum.splits)
  qed (simp_all add: waits_def)
  then show ?case using Cons.IH [OF rest] by (simp add: sts)
qed

lemma execute_run_moves: "execute_run env now r s = (res, s') \<Longrightarrow> moves (if res = Inr () then idle now else any_run) r s s'"
proof -
  assume run: "execute_run env now r s = (res, s')"
  show ?thesis
  proof (cases "select_one (\<lambda>w. is_workflow (wr_tenant r) (wr_workflowId r) w \<and> wf_enabled w) (workflows s)")
    case None
    then show ?thesis using run by (auto simp: execute_run_def intro: finish_moves)
  next
    case (Some w)
    show ?thesis
    proof (cases "validate_steps (we_text env) (if wr_steps r = JNull then wf_steps w else wr_steps r)")
      case (Inl e)
      then show ?thesis using run Some by (auto simp: execute_run_def intro: moves_same)
    next
      case (Inr sts)
      then have "list_all waits sts"
        by (auto simp: validate_steps_def split: json.splits if_splits intro: validated_waits)
      then show ?thesis using run Some Inr by (auto simp: execute_run_def split: prod.splits dest: run_steps_moves)
    qed
  qed
qed

lemma retry_seconds_pos: "0 < retry_seconds n"
  by (simp add: retry_seconds_def)

lemma process_run_moves: "moves (idle now) r s (process_run env now r s)"
proof -
  obtain res s1 where run: "execute_run env now r s = (res, s1)" by fastforce
  show ?thesis
  proof (cases res)
    case (Inl e)
    have "moves (idle now) r s1 (fail_run now r e s1)"
      unfolding fail_run_def by (rule set_run_moves) (simp_all add: wr_unique_def idle_def retry_seconds_pos)
    then show ?thesis using execute_run_moves [OF run] run Inl moves_trans by (auto simp: process_run_def)
  next
    case (Inr u)
    then show ?thesis using execute_run_moves [OF run] run by (simp add: process_run_def)
  qed
qed

text \<open>Letting go of one run keeps every other run, and the ones that were let go.\<close>

lemma moves_other: "moves P r s s' \<Longrightarrow> q \<in> set (workflowRuns s) \<Longrightarrow> \<not> is_run (wr_tenant r) (wr_id r) q \<Longrightarrow> q \<in> set (workflowRuns s')"
  by (force simp: moves_def in_update_where)

lemma moves_all:
  assumes "moves P r s s'" and "q' \<in> set (workflowRuns s')"
  obtains q where "q \<in> set (workflowRuns s)" "wr_unique q = wr_unique q'" "wr_id q = wr_id q'"
    "is_run (wr_tenant r) (wr_id r) q' \<Longrightarrow> P q'" "\<not> is_run (wr_tenant r) (wr_id r) q' \<Longrightarrow> q' = q"
proof -
  obtain g where g: "\<forall>q. wr_unique (g q) = wr_unique q \<and> wr_id (g q) = wr_id q \<and> P (g q)"
    and s': "workflowRuns s' = update_where (is_run (wr_tenant r) (wr_id r)) g (workflowRuns s)"
    using assms(1) unfolding moves_def by blast
  obtain q where q: "q \<in> set (workflowRuns s)" "q' = (if is_run (wr_tenant r) (wr_id r) q then g q else q)"
    using assms(2) unfolding s' in_update_where by blast
  have same: "wr_unique q = wr_unique q'" "wr_id q = wr_id q'" using g q(2) by simp_all
  then have own: "is_run (wr_tenant r) (wr_id r) q = is_run (wr_tenant r) (wr_id r) q'" by (rule is_run_kept)
  show thesis
  proof (rule that [OF q(1) same])
    assume "is_run (wr_tenant r) (wr_id r) q'"
    then have "q' = g q" using own by (intro trans [OF q(2) if_P]) simp
    then show "P q'" using g by metis
  next
    assume "\<not> is_run (wr_tenant r) (wr_id r) q'"
    then show "q' = q" using own by (intro trans [OF q(2) if_not_P]) simp
  qed
qed

definition let_go :: "time \<Rightarrow> workflow_run \<Rightarrow> db \<Rightarrow> bool" where
  "let_go now r s \<longleftrightarrow> (\<forall>q\<in>set (workflowRuns s). is_run (wr_tenant r) (wr_id r) q \<longrightarrow> idle now q)"

lemma let_go_now: "let_go now r (process_run env now r s)"
  unfolding let_go_def
proof (intro ballI impI)
  fix q assume "q \<in> set (workflowRuns (process_run env now r s))" "is_run (wr_tenant r) (wr_id r) q"
  then show "idle now q" using moves_all [OF process_run_moves] by blast
qed

lemma let_go_kept:
  assumes "let_go now r s"
  shows "let_go now r (process_run env now p s)"
  unfolding let_go_def
proof (intro ballI impI)
  fix q assume q: "q \<in> set (workflowRuns (process_run env now p s))" and own: "is_run (wr_tenant r) (wr_id r) q"
  obtain q0 where q0: "q0 \<in> set (workflowRuns s)" "wr_unique q0 = wr_unique q" "wr_id q0 = wr_id q"
    "is_run (wr_tenant p) (wr_id p) q \<Longrightarrow> idle now q" "\<not> is_run (wr_tenant p) (wr_id p) q \<Longrightarrow> q = q0"
    by (rule moves_all [OF process_run_moves q]) blast
  have "is_run (wr_tenant r) (wr_id r) q0" using own is_run_kept [OF q0(2,3)] by simp
  then have "idle now q0" using assms q0(1) by (simp add: let_go_def)
  then show "idle now q" using q0(4,5) by (cases "is_run (wr_tenant p) (wr_id p) q") simp_all
qed

lemma let_go_kept_all: "let_go now r s \<Longrightarrow> let_go now r (fold (process_run env now) rs s)"
  by (induction rs arbitrary: s) (simp_all add: let_go_kept)

lemma let_go_round: "r \<in> set rs \<Longrightarrow> let_go now r (fold (process_run env now) rs s)"
  by (induction rs arbitrary: s) (auto simp: let_go_now let_go_kept_all)

lemma round_keeps:
  "q \<in> set (workflowRuns s) \<Longrightarrow> (\<And>r. r \<in> set rs \<Longrightarrow> wr_id r \<noteq> wr_id q) \<Longrightarrow> q \<in> set (workflowRuns (fold (process_run env now) rs s))"
proof (induction rs arbitrary: s)
  case Nil
  then show ?case by simp
next
  case (Cons r rs)
  have "\<not> is_run (wr_tenant r) (wr_id r) q" using Cons.prems(2) [of r] by (simp add: is_run_def)
  then have "q \<in> set (workflowRuns (process_run env now r s))" by (rule moves_other [OF process_run_moves Cons.prems(1)])
  then show ?case using Cons.IH Cons.prems(2) by simp
qed

lemma idle_not_due: "idle now q \<Longrightarrow> wr_status q \<noteq> R_RUNNING \<and> \<not> due_run now q"
  by (auto simp: idle_def due_run_def)

text \<open>C37: a round of the worker settles the runs it claimed: whatever their steps do, throw or wait for, none of them is left
  running or locked, and none is due again at the time of the round; a run goes on only after a wait, a decision or a delay.\<close>

theorem rounds_settle_their_runs:
  assumes "r \<in> set (fst (claim_runs now s))" and "q \<in> set (workflowRuns (snd (process_queued env now s)))"
    and "wr_tenant q = wr_tenant r" and "wr_id q = wr_id r"
  shows "wr_status q \<noteq> R_RUNNING \<and> wr_lockedAt q = None \<and> \<not> due_run now q"
proof -
  obtain claimed s1 where claim: "claim_runs now s = (claimed, s1)" by fastforce
  then have "let_go now r (snd (process_queued env now s))"
    using assms(1) by (simp add: process_queued_def let_go_round)
  then have "idle now q" using assms(2-4) by (simp add: let_go_def is_run_def)
  then show ?thesis using idle_not_due by (auto simp: idle_def)
qed

subsection \<open>Requests to the component\<close>

inductive workflow_request :: "workflow_env \<Rightarrow> db \<Rightarrow> db \<Rightarrow> bool" for env where
  created: "create_workflow env random clash cid now tenant actor d s = (res, s') \<Longrightarrow> workflow_request env s s'"
| imported: "import_definition env random clash cid now tenant actor d s = (res, s') \<Longrightarrow> workflow_request env s s'"
| enabled: "set_enabled env cid now tenant actor i b s = (res, s') \<Longrightarrow> workflow_request env s s'"
| redefined: "update_definition env clash cid now tenant actor i d s = (res, s') \<Longrightarrow> workflow_request env s s'"
| triggered: "trigger_manual random cid now tenant actor i payload key s = (resu, s') \<Longrightarrow> workflow_request env s s'"
| called: "trigger_webhook env random now i token kvs s = (resu, s') \<Longrightarrow> workflow_request env s s'"
| collected: "workflow_request env s (schedule_and_collect env show_time now s)"
| replayed: "replay_run env random cid now tenant actor i s = (resu, s') \<Longrightarrow> workflow_request env s s'"
| cancelled: "cancel_run cid now tenant actor i s = (resi, s') \<Longrightarrow> workflow_request env s s'"
| decided: "decide_approval cid now tenant actor i b remark s = (resi, s') \<Longrightarrow> workflow_request env s s'"
| switched: "set_integration_enabled cid now tenant actor i b s = (resn, s') \<Longrightarrow> workflow_request env s s'"
| integrated: "create_integration env cid now tenant actor x s = (resn, s') \<Longrightarrow> workflow_request env s s'"
| worked: "workflow_request env s (snd (process_queued env now s))"

definition ended :: "workflow_run \<Rightarrow> bool" where
  "ended r \<longleftrightarrow> wr_status r \<in> {R_SUCCEEDED, R_FAILED, R_CANCELLED}"

text \<open>A run whose worker was lost in its last attempt.\<close>

definition lost :: "workflow_run \<Rightarrow> bool" where
  "lost r \<longleftrightarrow> wr_status r = R_RUNNING \<and> max_attempts \<le> wr_attempts r"

lemma out_of_reach:
  assumes "ended q \<or> lost q"
  shows "\<not> due_run now q" "\<not> cancellable tenant i q" "wr_status q \<noteq> R_WAITING_APPROVAL"
  using assms by (auto simp: ended_def lost_def due_run_def cancellable_def)

lemma actor_audit_frame [simp]: "workflowRuns (actor_audit cid now tenant actor action resource i metadata s) = workflowRuns s"
  by (simp add: actor_audit_def audit_record_def)

lemma touch_approvals_frame [simp]: "workflowRuns (touch_approvals P f s) = workflowRuns s"
  by (simp add: touch_approvals_def)

lemma touch_runs_keeps: "q \<in> set (workflowRuns s) \<Longrightarrow> \<not> P q \<Longrightarrow> q \<in> set (workflowRuns (touch_runs P f s))"
  by (force simp: runs.touch_rows in_update_where)

lemma enqueue_run_keeps: "q \<in> set (workflowRuns s) \<Longrightarrow> q \<in> set (workflowRuns (snd (enqueue_run now tenant i trigger key payload s)))"
  by (auto simp: enqueue_run_def Let_def split: option.split intro!: runs.put_keeps)

lemma enqueue_run_keeps_pair: "enqueue_run now tenant i trigger key payload s = (r, s') \<Longrightarrow> q \<in> set (workflowRuns s) \<Longrightarrow> q \<in> set (workflowRuns s')"
  using enqueue_run_keeps by (metis snd_conv)

lemma fold_runs_keep: "(\<And>x s. q \<in> set (workflowRuns s) \<Longrightarrow> q \<in> set (workflowRuns (f x s))) \<Longrightarrow> q \<in> set (workflowRuns s) \<Longrightarrow> q \<in> set (workflowRuns (fold f xs s))"
  by (induction xs arbitrary: s) simp_all

lemma collect_keeps: "q \<in> set (workflowRuns s) \<Longrightarrow> q \<in> set (workflowRuns (schedule_and_collect env show_time now s))"
  unfolding schedule_and_collect_def Let_def
  by (intro fold_runs_keep) (simp_all add: schedule_run_def event_run_def enqueue_run_keeps)

lemma definitions_frame:
  "create_workflow env random clash cid now tenant actor d s = (res, s') \<Longrightarrow> workflowRuns s' = workflowRuns s"
  "set_enabled env cid now tenant actor i b s = (resw, s') \<Longrightarrow> workflowRuns s' = workflowRuns s"
  "update_definition env clash cid now tenant actor i d s = (resw, s') \<Longrightarrow> workflowRuns s' = workflowRuns s"
  "set_integration_enabled cid now tenant actor i b s = (resn, s') \<Longrightarrow> workflowRuns s' = workflowRuns s"
  "create_integration env cid now tenant actor x s = (resn, s') \<Longrightarrow> workflowRuns s' = workflowRuns s"
  unfolding create_workflow_def set_enabled_def update_definition_def set_integration_enabled_def create_integration_def
  by (auto simp: Let_def split: sum.splits option.splits if_splits)

lemma triggers_keep:
  "trigger_manual random cid now tenant actor i payload key s = (resu, s') \<Longrightarrow> q \<in> set (workflowRuns s) \<Longrightarrow> q \<in> set (workflowRuns s')"
  "trigger_webhook env random now i token kvs s = (resu, s') \<Longrightarrow> q \<in> set (workflowRuns s) \<Longrightarrow> q \<in> set (workflowRuns s')"
  "replay_run env random cid now tenant actor i s = (resu, s') \<Longrightarrow> q \<in> set (workflowRuns s) \<Longrightarrow> q \<in> set (workflowRuns s')"
  unfolding trigger_manual_def trigger_webhook_def replay_run_def Let_def
  by (auto split: option.splits if_splits prod.splits dest: enqueue_run_keeps_pair)

lemma operators_keep:
  "cancel_run cid now tenant actor i s = (resi, s') \<Longrightarrow> q \<in> set (workflowRuns s) \<Longrightarrow> ended q \<or> lost q \<Longrightarrow> q \<in> set (workflowRuns s')"
  "decide_approval cid now tenant actor i b remark s = (resi, s') \<Longrightarrow> q \<in> set (workflowRuns s) \<Longrightarrow> ended q \<or> lost q \<Longrightarrow> q \<in> set (workflowRuns s')"
  unfolding cancel_run_def decide_approval_def Let_def
  by (auto simp: out_of_reach split: option.splits if_splits intro!: touch_runs_keeps)

lemma round_keeps_rest:
  assumes "distinct (map wr_id (workflowRuns s))" and "q \<in> set (workflowRuns s)" and "ended q \<or> lost q"
  shows "q \<in> set (workflowRuns (snd (process_queued env now s)))"
proof -
  have "wr_id r \<noteq> wr_id q" if "r \<in> set (due_runs now s)" for r
  proof
    assume "wr_id r = wr_id q"
    moreover have "r \<in> set (workflowRuns s)" "due_run now r"
      using that set_order_limit unfolding due_runs_def by fastforce+
    ultimately have "r = q" using distinct_key_unique [OF assms(1)] assms(2) by blast
    then show False using out_of_reach(1) [OF assms(3)] \<open>due_run now r\<close> by simp
  qed
  then have other: "wr_id q \<notin> wr_id ` set (due_runs now s)" by force
  then have "q \<in> set (workflowRuns (touch_runs (\<lambda>r. wr_id r \<in> wr_id ` set (due_runs now s)) (take_run now) s))"
    by (intro touch_runs_keeps [OF assms(2)])
  moreover have "wr_id r \<noteq> wr_id q" if r: "r \<in> set (map (take_run now) (due_runs now s))" for r
  proof -
    obtain x where "x \<in> set (due_runs now s)" "r = take_run now x" using r by auto
    then show ?thesis using other imageI [of x "set (due_runs now s)" wr_id] by (auto simp: take_run_def simp del: image_eqI)
  qed
  ultimately show ?thesis
    unfolding process_queued_def claim_runs_def Let_def prod.case snd_conv by (rule round_keeps)
qed

lemma request_keeps:
  assumes "workflow_request env s s'" and "distinct (map wr_id (workflowRuns s))" and "q \<in> set (workflowRuns s)" and "ended q \<or> lost q"
  shows "q \<in> set (workflowRuns s')"
  using assms(1)
proof (cases rule: workflow_request.cases)
  case worked
  then show ?thesis using round_keeps_rest [OF assms(2-4)] by simp
next
  case collected
  then show ?thesis using collect_keeps [OF assms(3)] by simp
qed (use assms(3,4) in \<open>simp_all add: import_definition_def definitions_frame triggers_keep operators_keep\<close>)

text \<open>C38: a run that has ended is never touched again: no request to the component and no round of the worker changes, removes or
  restarts a run that succeeded, failed or was cancelled, so its results and its error stay what they were.\<close>

theorem ended_runs_never_change:
  assumes "workflow_request env s s'" and "distinct (map wr_id (workflowRuns s))" and "q \<in> set (workflowRuns s)" and "ended q"
  shows "q \<in> set (workflowRuns s')"
  using request_keeps [OF assms(1-3)] assms(4) by simp

text \<open>A run whose worker stops during the eighth attempt stays running: the claim leaves it out, and it cannot be cancelled, decided
  or replayed.\<close>

theorem lost_runs_stay_running:
  assumes "workflow_request env s s'" and "distinct (map wr_id (workflowRuns s))" and "q \<in> set (workflowRuns s)" and "lost q"
  shows "q \<in> set (workflowRuns s')"
  using request_keeps [OF assms(1-3)] assms(4) by simp

text \<open>Deliveries are queued at most once for a step: when a step that emitted a webhook runs again, after a crash or a failure
  later in the run, it finds its receipt, reports the same number of deliveries and changes nothing, whatever the payload
  has become in the meantime.\<close>

theorem webhooks_are_emitted_once:
  assumes "emit_webhook env tenant w i index event trigger payload s = (Inr (st, n), s1)"
  shows "emit_webhook env tenant w i index event' trigger' payload' s1 = (Inr (''ALREADY_QUEUED'', n), s1)"
proof (cases "select_one (receipt_of tenant i index) (actionReceipts s)")
  case (Some x)
  then show ?thesis using assms by (simp add: emit_webhook_def)
next
  case None
  then obtain document where t: "trigger = Inr document" and s1: "s1 = put_action_receipt
      \<lparr> wx_tenant = tenant, wx_runId = i, wx_stepIndex = index, wx_deliveries = Some n \<rparr>
      (s\<lparr> webhookDeliveries := webhookDeliveries s @ emitted env tenant w i index event document payload s \<rparr>)"
    using assms by (auto simp: emit_webhook_def Let_def split: sum.splits if_splits)
  have "\<not> has_key wx_unique (tenant, i, index) (actionReceipts s)"
    using None unfolding receipt_of_def select_one_key_None .
  then have "actionReceipts s1 = insert_row \<lparr> wx_tenant = tenant, wx_runId = i, wx_stepIndex = index, wx_deliveries = Some n \<rparr> (actionReceipts s)"
    by (simp add: s1 action_receipts.put_rows insert_once_def wx_unique_def insert_row_def)
  then have "select_one (receipt_of tenant i index) (actionReceipts s1) = Some \<lparr> wx_tenant = tenant, wx_runId = i, wx_stepIndex = index, wx_deliveries = Some n \<rparr>"
    using None by (simp add: select_one_insert_row receipt_of_def wx_unique_def)
  then show ?thesis by (simp add: emit_webhook_def or_value_def)
qed

text \<open>C39: whatever a step asks an integration, the request stays within the origin of an enabled REST integration of the tenant,
  over \<open>https\<close>; it connects to a public address; and every request that may change something carries a key that is the same
  whenever the step is run again, to a service that knows such keys.\<close>

theorem requests_stay_within_the_integration:
  assumes "integration_call env tenant runId index i verb path body s = Inr call"
  shows "\<exists>x base. x \<in> set (integrations s) \<and> is_integration tenant i x \<and> ig_enabled x \<and> ig_provider x = ''REST_API'' \<and>
    Option.bind (ig_baseUrl x) (we_url env) = Some base \<and> ur_protocol base = ''https:'' \<and> ur_origin (hc_url call) = ur_origin base \<and>
    is_public_address (hc_address call) \<and>
    (verb \<noteq> ''GET'' \<longrightarrow> supports_idempotency x \<and> (''idempotency-key'', ''jaslyn-'' @ runId @ ''-'' @ nat_str index) \<in> set (hc_headers call))"
proof -
  obtain x where x: "select_one (rest_integration tenant i) (integrations s) = Some x" and base: "present (ig_baseUrl x)"
    and rest: "(case resolved_url env x path of Inl e \<Rightarrow> Inl e | Inr u \<Rightarrow> (case public_host env u of Inl e \<Rightarrow> Inl e | Inr a \<Rightarrow>
      if verb \<noteq> ''GET'' \<and> \<not> supports_idempotency x
      then Inl (BadRequest ''Write-capable HTTP_REQUEST requires an integration explicitly marked supportsIdempotency'')
      else (case integration_token env tenant x s of Inl e \<Rightarrow> Inl e | Inr token \<Rightarrow>
        Inr \<lparr> hc_url = u, hc_address = a, hc_verb = verb, hc_headers = request_headers runId index verb token,
              hc_body = (if verb = ''GET'' \<or> verb = ''DELETE'' then None else Some body) \<rparr>))) = Inr call"
    using assms unfolding integration_call_def by (auto split: option.splits if_splits)
  obtain u a token where u: "resolved_url env x path = Inr u" and a: "public_host env u = Inr a" and idem: "verb \<noteq> ''GET'' \<longrightarrow> supports_idempotency x"
    and call: "hc_url call = u" "hc_address call = a" "hc_headers call = request_headers runId index verb token"
    using rest by (auto split: sum.splits if_splits)
  obtain b where b: "we_url env (the (ig_baseUrl x)) = Some b" "ur_protocol b = ''https:''" "ur_origin u = ur_origin b"
    using u unfolding resolved_url_def by (auto split: option.splits if_splits)
  have public: "is_public_address a" using a unfolding public_host_def by (auto split: sum.splits list.splits if_splits)
  obtain t where t: "ig_baseUrl x = Some t" using base by (auto simp: present_def)
  show ?thesis
    using select_one_Some [OF x] b t public idem
    by (intro exI [of _ x] exI [of _ b]) (simp add: call rest_integration_def request_headers_def)
qed

subsection \<open>Examples\<close>

definition sample_url :: url where
  "sample_url = \<lparr> ur_protocol = ''https:'', ur_username = [], ur_password = [], ur_hostname = ''api.example.com'', ur_origin = ''https://api.example.com'',
     ur_hash = [], ur_href = ''https://api.example.com/'' \<rparr>"

definition sample_env :: workflow_env where
  "sample_env = \<lparr> we_text = sample_text, we_parse = (\<lambda>_. None), we_url = (\<lambda>_. Some sample_url), we_resolve = (\<lambda>_ _. Some sample_url),
     we_is_ip = (\<lambda>_. False), we_lookup = (\<lambda>_. Inr [(''93.184.216.34'', 4)]), we_send = (\<lambda>_. Inl (PlainError ''down'')), we_crypto = sample_crypto,
     we_settings = (\<lambda>_. None), we_sha256 = (\<lambda>t. t), we_event_id = (\<lambda>t. t), we_alert_status = ''OPEN'' \<rparr>"

definition sample_flow :: workflow where
  "sample_flow = \<lparr> wf_id = ''w'', wf_tenant = ''t'', wf_name = ''flow'', wf_description = [], wf_trigger = TR_MANUAL, wf_config = JObj [],
     wf_steps = steps_json [Log ''hi''], wf_enabled = True, wf_version = 1, wf_tokenHash = None, wf_nextRunAt = None \<rparr>"

definition sample_run :: "run_status \<Rightarrow> workflow_run" where
  "sample_run st = (run_row ''r'' 0 sample_flow ''MANUAL'' ''k'' (JObj []))\<lparr> wr_status := st, wr_attempts := 8 \<rparr>"

definition sample_db :: "run_status \<Rightarrow> db" where
  "sample_db st = empty_db\<lparr> workflows := [sample_flow], workflowRuns := [sample_run st] \<rparr>"

theorem rounds_settle_their_runs_witness:
  "map wr_status (workflowRuns (snd (process_queued sample_env 0 (sample_db R_QUEUED)))) = [R_SUCCEEDED] \<and>
   list_all (\<lambda>q. \<not> due_run 0 q) (workflowRuns (snd (process_queued sample_env 0 (sample_db R_QUEUED))))"
proof -
  let ?s = "snd (process_queued sample_env 0 (sample_db R_QUEUED))"
  have run: "map (\<lambda>q. (wr_status q, wr_tenant q, wr_id q)) (workflowRuns ?s) = [(R_SUCCEEDED, ''t'', ''r'')]" by code_simp
  have claimed: "fst (claim_runs 0 (sample_db R_QUEUED)) = [take_run 0 (sample_run R_QUEUED)]" by code_simp
  obtain q where q: "workflowRuns ?s = [q]" "wr_status q = R_SUCCEEDED" "wr_tenant q = ''t''" "wr_id q = ''r''" using run by auto
  have "\<not> due_run 0 q"
    using rounds_settle_their_runs [of "take_run 0 (sample_run R_QUEUED)" 0 "sample_db R_QUEUED" q sample_env] claimed q
    by (simp add: take_run_def sample_run_def run_row_def sample_flow_def)
  then show ?thesis using q by simp
qed

theorem ended_runs_never_change_witness:
  "sample_run R_FAILED \<in> set (workflowRuns (snd (process_queued sample_env 0 (sample_db R_FAILED))))"
  by (rule ended_runs_never_change [OF worked]) (simp_all add: sample_db_def ended_def sample_run_def)

theorem lost_runs_stay_running_witness:
  "sample_run R_RUNNING \<in> set (workflowRuns (snd (process_queued sample_env 0 (sample_db R_RUNNING))))"
  by (rule lost_runs_stay_running [OF worked]) (simp_all add: sample_db_def lost_def sample_run_def max_attempts_def)

theorem webhooks_are_emitted_once_witness:
  "\<exists>n s1. emit_webhook sample_env ''t'' ''w'' ''r'' 0 ''A.B'' (Inr (JObj [])) (JObj []) empty_db = (Inr (''QUEUED'', n), s1) \<and>
     emit_webhook sample_env ''t'' ''w'' ''r'' 0 ''C.D'' (Inr JNull) JNull s1 = (Inr (''ALREADY_QUEUED'', n), s1)"
proof -
  let ?r = "emit_webhook sample_env ''t'' ''w'' ''r'' 0 ''A.B'' (Inr (JObj [])) (JObj []) empty_db"
  have "fst ?r = Inr (''QUEUED'', 0)" by code_simp
  then have r: "?r = (Inr (''QUEUED'', 0), snd ?r)" by (metis prod.collapse)
  then show ?thesis using webhooks_are_emitted_once [OF r] by blast
qed

definition sample_integration :: integration where
  "sample_integration = \<lparr> ig_id = ''i'', ig_tenant = ''t'', ig_name = ''api'', ig_provider = ''REST_API'', ig_baseUrl = Some ''https://api.example.com'',
     ig_secretRef = None, ig_config = JObj [(''supportsIdempotency'', JBool True)], ig_enabled = True \<rparr>"

theorem requests_stay_within_the_integration_witness:
  "\<exists>call. integration_call sample_env ''t'' ''r'' 0 ''i'' ''POST'' ''/x'' (JObj []) (empty_db\<lparr> integrations := [sample_integration] \<rparr>) = Inr call \<and>
     is_public_address (hc_address call)"
proof -
  let ?c = "integration_call sample_env ''t'' ''r'' 0 ''i'' ''POST'' ''/x'' (JObj []) (empty_db\<lparr> integrations := [sample_integration] \<rparr>)"
  have "?c = Inr (projr ?c)" by code_simp
  then show ?thesis using requests_stay_within_the_integration [of sample_env "''t''" "''r''" 0 "''i''" "''POST''" "''/x''" "JObj []"] by blast
qed

text \<open>Two things runs do that nobody asked for: an object mapped into itself makes the payload cyclic, which no document can hold, and
  a wait stores its own entry in place of the results of the steps before it.\<close>

theorem transform_can_make_a_cycle:
  "(let (cells, h) = load_all [(''a'', JObj [])] []; (h1, changed) = transform (h @ [cells]) (length h) [(''a'', ''a.b'')] []
    in (stringify h1 (Ref (length h)), changed)) = (Inl (PlainError ''Converting circular structure to JSON''), [''a.b''])"
  by code_simp

theorem waits_forget_results:
  "(let w = sample_flow\<lparr> wf_steps := steps_json [Log ''hi'', Wait 5] \<rparr>;
        s = empty_db\<lparr> workflows := [w], workflowRuns := [run_row ''r'' 0 w ''MANUAL'' ''k'' (JObj [])] \<rparr>
    in map wr_results (workflowRuns (snd (process_queued sample_env 0 s)))) =
   [[entry 1 ''WAIT'' [(''seconds'', JNum 5), (''status'', JStr ''WAITING'')]]]"
  by code_simp

end
