(* ===== verification/PublicAddresses.thy ===== *)
theory PublicAddresses
  imports WorkflowSteps Inet
begin

text \<open>
  What the check of addresses in \<open>workflows/workflows.service.ts\<close> means: on the text of an IPv4 address, which the check takes
  apart, it is the same as not lying in one of a list of networks, a reference definition on words of 32 bits.
\<close>

definition v4_word :: "nat \<Rightarrow> nat \<Rightarrow> nat \<Rightarrow> nat \<Rightarrow> 32 word" where
  "v4_word a b c d = of_nat (a * 2 ^ 24 + b * 2 ^ 16 + c * 2 ^ 8 + d)"

definition dotted :: "nat \<Rightarrow> nat \<Rightarrow> nat \<Rightarrow> nat \<Rightarrow> string" where
  "dotted a b c d = join_with (CHR ''.'') (map nat_str [a, b, c, d])"

definition network :: "nat \<Rightarrow> nat \<Rightarrow> nat \<Rightarrow> nat \<Rightarrow> cidr" where
  "network a b c n = \<lparr> ci_base = V4 (v4_word a b c 0), ci_length = n \<rparr>"

text \<open>The networks of the check. Three of them, \<open>192.0.0.0/16\<close>, \<open>198.51.0.0/16\<close> and \<open>203.0.0.0/16\<close>, are wider than
  the reserved ranges they stand for.\<close>

definition blocked_networks :: "cidr list" where
  "blocked_networks =
     [network 0 0 0 8, network 10 0 0 8, network 127 0 0 8, network 224 0 0 3, network 100 64 0 10, network 169 254 0 16, network 172 16 0 12,
      network 192 0 0 16, network 192 168 0 16, network 192 88 99 24, network 198 18 0 15, network 198 51 0 16, network 203 0 0 16]"

text \<open>Texts of octets\<close>

lemma digit_of_char: "d < 10 \<Longrightarrow> of_char (char_of (48 + d) :: char) = 48 + (d :: nat)"
  by (simp only: of_char_of) simp

lemma nat_str_digits: "c \<in> set (nat_str n) \<Longrightarrow> 48 \<le> (of_char c :: nat) \<and> of_char c \<le> (57 :: nat)"
proof (induction n arbitrary: c rule: nat_str.induct)
  case (1 n)
  have last: "48 \<le> (of_char (char_of (48 + n mod 10) :: char) :: nat) \<and> of_char (char_of (48 + n mod 10) :: char) \<le> (57 :: nat)"
    using digit_of_char [of "n mod 10"] mod_less_divisor [of 10 n] by linarith
  show ?case
  proof (cases "n < 10")
    case True
    then have "c = char_of (48 + n mod 10)" using "1.prems" by (simp add: nat_str.simps [of n])
    then show ?thesis using last by simp
  next
    case False
    then have "c \<in> set (nat_str (n div 10)) \<or> c = char_of (48 + n mod 10)" using "1.prems" by (auto simp: nat_str.simps [of n])
    then show ?thesis using "1.IH" [OF False] last by blast
  qed
qed

lemma digit_value_char: "d < 10 \<Longrightarrow> digit_value (char_of (48 + d)) = Some d"
  unfolding digit_value_def Let_def by (simp only: digit_of_char) simp

lemma foldl_nat_str: "foldl (\<lambda>n c. n * 10 + the (digit_value c)) 0 (nat_str n) = n"
proof (induction n rule: nat_str.induct)
  case (1 n)
  show ?case
  proof (cases "n < 10")
    case True
    then have "nat_str n = [char_of (48 + n)]" by (simp add: nat_str.simps [of n])
    then show ?thesis using True digit_value_char [of n] by simp
  next
    case False
    then have "nat_str n = nat_str (n div 10) @ [char_of (48 + n mod 10)]" by (simp add: nat_str.simps [of n])
    then show ?thesis using "1.IH" [OF False] digit_value_char [of "n mod 10"] by simp
  qed
qed

lemma digits_nat_str: "digits 10 (nat_str n) = Some n"
proof -
  have "\<not> (case digit_value c of None \<Rightarrow> True | Some d \<Rightarrow> 10 \<le> d)" if "c \<in> set (nat_str n)" for c
    using nat_str_digits [OF that] by (auto simp: digit_value_def Let_def)
  then have "\<not> list_ex (\<lambda>c. case digit_value c of None \<Rightarrow> True | Some d \<Rightarrow> 10 \<le> d) (nat_str n)" unfolding list_ex_iff by blast
  then show ?thesis by (simp add: digits_def foldl_nat_str)
qed

text \<open>A text of digits reads as its decimal value, with a leading zero as well.\<close>

lemma no_digit: "48 \<le> (of_char c :: nat) \<and> of_char c \<le> (57 :: nat) \<Longrightarrow>
    \<not> js_space c \<and> c \<noteq> CHR ''.'' \<and> c \<noteq> CHR ''e'' \<and> c \<noteq> CHR ''E'' \<and> c \<noteq> CHR ''I'' \<and> c \<noteq> CHR ''+'' \<and> c \<noteq> CHR ''-'' \<and>
    c \<notin> {CHR ''x'', CHR ''X''} \<and> c \<notin> {CHR ''o'', CHR ''O''} \<and> c \<notin> {CHR ''b'', CHR ''B''}"
  by (auto simp: js_space_def)

lemma exponent_nil: "exponent_of [] = Some 0"
  by (simp add: exponent_of_def)

lemma decimal_nat_str: "decimal_value (nat_str n) = Fin (of_nat n)"
proof -
  have plain: "\<forall>c\<in>set (nat_str n). c \<noteq> CHR ''.'' \<and> c \<noteq> CHR ''e'' \<and> c \<noteq> CHR ''E'' \<and> c \<noteq> CHR ''I''"
    using nat_str_digits no_digit by blast
  have no_inf: "nat_str n \<noteq> ''Infinity''"
  proof
    assume "nat_str n = ''Infinity''"
    then have "CHR ''I'' \<in> set (nat_str n)" by simp
    then show False using plain by blast
  qed
  have takes: "takeWhile (\<lambda>c. c \<noteq> CHR ''e'' \<and> c \<noteq> CHR ''E'') (nat_str n) = nat_str n"
    "dropWhile (\<lambda>c. c \<noteq> CHR ''e'' \<and> c \<noteq> CHR ''E'') (nat_str n) = []"
    "takeWhile (\<lambda>c. c \<noteq> CHR ''.'') (nat_str n) = nat_str n" "dropWhile (\<lambda>c. c \<noteq> CHR ''.'') (nat_str n) = []"
    unfolding takeWhile_eq_all_conv dropWhile_eq_Nil_conv using plain by blast+
  have mantissa: "mantissa_of (nat_str n) = Some (of_nat n)"
    unfolding mantissa_of_def takes(3,4) Let_def by (simp add: digits_nat_str)
  show ?thesis
    unfolding decimal_value_def takes(1,2) Let_def mantissa exponent_nil if_not_P [OF no_inf] by (simp add: power_of_ten_def)
qed

lemma digit_cases:
  assumes "48 \<le> (of_char c :: nat) \<and> of_char c \<le> (57 :: nat)"
  shows "c = CHR ''0'' \<or> c = CHR ''1'' \<or> c = CHR ''2'' \<or> c = CHR ''3'' \<or> c = CHR ''4'' \<or> c = CHR ''5'' \<or> c = CHR ''6'' \<or> c = CHR ''7'' \<or>
    c = CHR ''8'' \<or> c = CHR ''9''"
proof -
  have codes: "(of_char (CHR ''0'') :: nat) = 48" "(of_char (CHR ''1'') :: nat) = 49" "(of_char (CHR ''2'') :: nat) = 50"
    "(of_char (CHR ''3'') :: nat) = 51" "(of_char (CHR ''4'') :: nat) = 52" "(of_char (CHR ''5'') :: nat) = 53" "(of_char (CHR ''6'') :: nat) = 54"
    "(of_char (CHR ''7'') :: nat) = 55" "(of_char (CHR ''8'') :: nat) = 56" "(of_char (CHR ''9'') :: nat) = 57"
    by simp_all
  have same: "c = e \<longleftrightarrow> (of_char c :: nat) = of_char e" for e by (simp add: of_char_eq_iff)
  show ?thesis unfolding same codes using assms by presburger
qed

text \<open>A text that begins with a digit, and has no letter after it, is a decimal.\<close>

lemma number_of_nonzero:
  "js_trim s = CHR ''1'' # cs \<Longrightarrow> number_of_text s = decimal_value (CHR ''1'' # cs)"
  "js_trim s = CHR ''2'' # cs \<Longrightarrow> number_of_text s = decimal_value (CHR ''2'' # cs)"
  "js_trim s = CHR ''3'' # cs \<Longrightarrow> number_of_text s = decimal_value (CHR ''3'' # cs)"
  "js_trim s = CHR ''4'' # cs \<Longrightarrow> number_of_text s = decimal_value (CHR ''4'' # cs)"
  "js_trim s = CHR ''5'' # cs \<Longrightarrow> number_of_text s = decimal_value (CHR ''5'' # cs)"
  "js_trim s = CHR ''6'' # cs \<Longrightarrow> number_of_text s = decimal_value (CHR ''6'' # cs)"
  "js_trim s = CHR ''7'' # cs \<Longrightarrow> number_of_text s = decimal_value (CHR ''7'' # cs)"
  "js_trim s = CHR ''8'' # cs \<Longrightarrow> number_of_text s = decimal_value (CHR ''8'' # cs)"
  "js_trim s = CHR ''9'' # cs \<Longrightarrow> number_of_text s = decimal_value (CHR ''9'' # cs)"
  by (simp_all add: number_of_text_def)

lemma number_of_zero:
  "js_trim s = [CHR ''0''] \<Longrightarrow> number_of_text s = decimal_value [CHR ''0'']"
  "js_trim s = CHR ''0'' # x # cs \<Longrightarrow> x \<notin> {CHR ''x'', CHR ''X''} \<Longrightarrow> x \<notin> {CHR ''o'', CHR ''O''} \<Longrightarrow> x \<notin> {CHR ''b'', CHR ''B''} \<Longrightarrow>
    number_of_text s = decimal_value (CHR ''0'' # x # cs)"
  by (simp_all add: number_of_text_def)

lemma number_of_digits:
  assumes trim: "js_trim s = c # cs" and c: "48 \<le> (of_char c :: nat) \<and> of_char c \<le> (57 :: nat)"
    and x: "\<And>x ds. cs = x # ds \<Longrightarrow> x \<notin> {CHR ''x'', CHR ''X''} \<and> x \<notin> {CHR ''o'', CHR ''O''} \<and> x \<notin> {CHR ''b'', CHR ''B''}"
  shows "number_of_text s = decimal_value (c # cs)"
proof (cases "c = CHR ''0''")
  case zero: True
  show ?thesis
  proof (cases cs)
    case Nil
    show ?thesis unfolding zero Nil by (rule number_of_zero(1)) (use trim zero Nil in blast)
  next
    case (Cons x ds)
    show ?thesis unfolding zero Cons by (rule number_of_zero(2)) (use trim zero Cons x [OF Cons] in blast)+
  qed
next
  case False
  then have "c = CHR ''1'' \<or> c = CHR ''2'' \<or> c = CHR ''3'' \<or> c = CHR ''4'' \<or> c = CHR ''5'' \<or> c = CHR ''6'' \<or> c = CHR ''7'' \<or>
    c = CHR ''8'' \<or> c = CHR ''9''"
    using digit_cases [OF c] by blast
  then show ?thesis using trim by - (elim disjE; hypsubst; rule number_of_nonzero; assumption)
qed

lemma octet_text: "number_of_text (nat_str n) = Fin (of_nat n)"
proof -
  have spaces: "\<forall>c\<in>set (nat_str n). \<not> js_space c" using nat_str_digits no_digit by blast
  have keep: "dropWhile js_space s = s" if "\<forall>c\<in>set s. \<not> js_space c" for s using that by (cases s) simp_all
  have "dropWhile js_space (nat_str n) = nat_str n" by (rule keep [OF spaces])
  moreover have "dropWhile js_space (rev (nat_str n)) = rev (nat_str n)" using spaces by (intro keep) simp
  ultimately have trim: "js_trim (nat_str n) = nat_str n" by (simp add: js_trim_def)
  obtain c cs where s: "nat_str n = c # cs" by (cases "nat_str n") simp_all
  have starts: "js_trim (nat_str n) = c # cs" using trim s by (rule trans)
  have next_digit: "x \<notin> {CHR ''x'', CHR ''X''} \<and> x \<notin> {CHR ''o'', CHR ''O''} \<and> x \<notin> {CHR ''b'', CHR ''B''}" if "cs = x # ds" for x ds
  proof -
    have "x \<in> set (nat_str n)" by (simp add: s that)
    then have "48 \<le> (of_char x :: nat) \<and> of_char x \<le> (57 :: nat)" by (rule nat_str_digits)
    from no_digit [OF this] show ?thesis by (elim conjE, intro conjI)
  qed
  have "c \<in> set (nat_str n)" by (simp add: s)
  then have "48 \<le> (of_char c :: nat) \<and> of_char c \<le> (57 :: nat)" by (rule nat_str_digits)
  from number_of_digits [OF starts this] next_digit have "number_of_text (nat_str n) = decimal_value (c # cs)" .
  then show ?thesis by (simp only: decimal_nat_str flip: s)
qed

lemma no_dot: "CHR ''.'' \<notin> set (nat_str n)"
  using nat_str_digits no_digit by blast

lemma dotted_parts:
  "map number_of_text (split_on (CHR ''.'') (dotted a b c d)) = [Fin (of_nat a), Fin (of_nat b), Fin (of_nat c), Fin (of_nat d)]"
proof -
  have "split_on (CHR ''.'') (dotted a b c d) = map nat_str [a, b, c, d]"
    unfolding dotted_def by (rule split_join) (auto simp: no_dot)
  then show ?thesis by (simp add: octet_text)
qed

text \<open>The prefix of an address as a number\<close>

lemma unat_v4:
  assumes "a < 256" "b < 256" "c < 256" "d < 256"
  shows "unat (v4_word a b c d) = a * 2 ^ 24 + b * 2 ^ 16 + c * 2 ^ 8 + d"
proof -
  have "a * 2 ^ 24 + b * 2 ^ 16 + c * 2 ^ 8 + d < 2 ^ 32" using assms by simp
  moreover have "unat (of_nat n :: 32 word) = n" if "n < 2 ^ 32" for n using that by (simp add: unat_of_nat)
  ultimately show ?thesis unfolding v4_word_def by blast
qed

lemma same_prefix_v4: "same_prefix n (V4 v) (V4 w) \<longleftrightarrow> unat v div 2 ^ (32 - n) = unat w div 2 ^ (32 - n)"
proof -
  have "unat (drop_bit k x) = unat x div 2 ^ k" for k and x :: "32 word"
    by (subst unat_drop_bit_eq) (rule drop_bit_eq_div)
  then show ?thesis by (simp only: same_prefix_def prod.case ip.case word_unat_eq_iff)
qed

lemma in_network_v4:
  assumes "a < 256" "b < 256" "c < 256" "d < 256" "x < 256" "y < 256" "z < 256"
  shows "in_network (V4 (v4_word a b c d)) (network x y z n) \<longleftrightarrow>
    (a * 2 ^ 24 + b * 2 ^ 16 + c * 2 ^ 8 + d) div 2 ^ (32 - n) = (x * 2 ^ 24 + y * 2 ^ 16 + z * 2 ^ 8) div 2 ^ (32 - n)"
  using assms by (simp add: in_network_def network_def same_prefix_v4 unat_v4)

text \<open>How many bits of which octet count\<close>

lemma two_high_octets:
  fixes a b c d m :: nat
  assumes "c < 256" "d < 256"
  shows "(a * 16777216 + b * 65536 + c * 256 + d) div (65536 * m) = (a * 256 + b) div m"
proof -
  have "a * 16777216 + b * 65536 + c * 256 + d = (c * 256 + d) + (a * 256 + b) * 65536" by simp
  moreover have "c * 256 + d < 65536" using assms by simp
  ultimately have "(a * 16777216 + b * 65536 + c * 256 + d) div 65536 = a * 256 + b" by (simp only: div_mult_self1 div_less)
  then show ?thesis by (simp only: div_mult2_eq)
qed

lemma prefix_octets:
  fixes a b c d :: nat
  assumes "a < 256" "b < 256" "c < 256" "d < 256"
  shows "(a * 16777216 + b * 65536 + c * 256 + d) div 536870912 = a div 32"
    and "(a * 16777216 + b * 65536 + c * 256 + d) div 16777216 = a"
    and "(a * 16777216 + b * 65536 + c * 256 + d) div 4194304 = a * 4 + b div 64"
    and "(a * 16777216 + b * 65536 + c * 256 + d) div 1048576 = a * 16 + b div 16"
    and "(a * 16777216 + b * 65536 + c * 256 + d) div 131072 = a * 128 + b div 2"
    and "(a * 16777216 + b * 65536 + c * 256 + d) div 65536 = a * 256 + b"
    and "(a * 16777216 + b * 65536 + c * 256 + d) div 256 = a * 65536 + b * 256 + c"
proof -
  note high = two_high_octets [OF assms(3,4), of a b]
  show "(a * 16777216 + b * 65536 + c * 256 + d) div 536870912 = a div 32" using high [of 8192] assms(2) by simp
  show "(a * 16777216 + b * 65536 + c * 256 + d) div 16777216 = a" using high [of 256] assms(2) by simp
  show "(a * 16777216 + b * 65536 + c * 256 + d) div 4194304 = a * 4 + b div 64" using high [of 64] by simp
  show "(a * 16777216 + b * 65536 + c * 256 + d) div 1048576 = a * 16 + b div 16" using high [of 16] by simp
  show "(a * 16777216 + b * 65536 + c * 256 + d) div 131072 = a * 128 + b div 2" using high [of 2] by simp
  show "(a * 16777216 + b * 65536 + c * 256 + d) div 65536 = a * 256 + b" using high [of 1] by simp
  show "(a * 16777216 + b * 65536 + c * 256 + d) div 256 = a * 65536 + b * 256 + c"
  proof -
    have "a * 16777216 + b * 65536 + c * 256 + d = d + (a * 65536 + b * 256 + c) * 256" by simp
    then show ?thesis using assms(4) by (simp only: div_mult_self1 div_less)
  qed
qed

text \<open>The condition of the code on the octets, and the networks it describes\<close>

definition blocked_octets :: "nat \<Rightarrow> nat \<Rightarrow> nat \<Rightarrow> bool" where
  "blocked_octets a b c \<longleftrightarrow>
     a = 0 \<or> a = 10 \<or> a = 127 \<or> 224 \<le> a \<or> (a = 100 \<and> 64 \<le> b \<and> b \<le> 127) \<or> (a = 169 \<and> b = 254) \<or> (a = 172 \<and> 16 \<le> b \<and> b \<le> 31) \<or>
     (a = 192 \<and> (b = 0 \<or> b = 168)) \<or> (a = 192 \<and> b = 88 \<and> c = 99) \<or> (a = 198 \<and> (b = 18 \<or> b = 19 \<or> b = 51)) \<or> (a = 203 \<and> b = 0)"

lemma is_public_octets:
  assumes "a < 256" "b < 256" "c < 256" "d < 256"
  shows "is_public_v4 (dotted a b c d) \<longleftrightarrow> \<not> blocked_octets a b c"
proof -
  have le: "of_nat n \<le> (255 :: rat)" if "n < 256" for n :: nat
    using that of_nat_le_iff [of n 255, where ?'a = rat] by simp
  have num: "of_nat n = (numeral k :: rat) \<longleftrightarrow> n = numeral k" "(numeral k :: rat) \<le> of_nat n \<longleftrightarrow> numeral k \<le> n"
    "of_nat n \<le> (numeral k :: rat) \<longleftrightarrow> n \<le> numeral k" for n k
    by (metis of_nat_eq_iff of_nat_numeral) (metis of_nat_le_iff of_nat_numeral)+
  show ?thesis
    unfolding is_public_v4_def dotted_parts blocked_octets_def
    using assms by (simp add: whole_between_def le num) (intro iffI conjI; elim conjE; (assumption | simp))
qed

lemma two_octets: "a * m + q = x * m + y \<longleftrightarrow> a = x \<and> q = y" if "q < m" "y < m" for a m q x y :: nat
proof
  assume eq: "a * m + q = x * m + y"
  have "(a * m + q) div m = a" "(x * m + y) div m = x" "(a * m + q) mod m = q" "(x * m + y) mod m = y" using that by simp_all
  then show "a = x \<and> q = y" using eq by metis
qed simp

lemma octet_range: "b div m = k \<longleftrightarrow> k * m \<le> b \<and> b < Suc k * m" if "0 < m" for b m k :: nat
  using that by (auto simp: div_nat_eqI dividend_less_times_div mult.commute)

lemma blocked_iff:
  assumes "a < 256" "b < 256" "c < 256" "d < 256"
  shows "blocked_octets a b c \<longleftrightarrow> list_ex (in_network (V4 (v4_word a b c d))) blocked_networks"
proof -
  have first: "a div 32 = 7 \<longleftrightarrow> 224 \<le> a" using assms(1) octet_range [of 32 a 7] by auto
  have carrier: "a * 4 + b div 64 = 401 \<longleftrightarrow> a = 100 \<and> 64 \<le> b \<and> b \<le> 127"
    using assms(2) octet_range [of 64 b 1] two_octets [of "b div 64" 4 1 a 100] by auto
  have inner: "a * 16 + b div 16 = 2753 \<longleftrightarrow> a = 172 \<and> 16 \<le> b \<and> b \<le> 31"
    using assms(2) octet_range [of 16 b 1] two_octets [of "b div 16" 16 1 a 172] by auto
  have bench: "a * 128 + b div 2 = 25353 \<longleftrightarrow> a = 198 \<and> (b = 18 \<or> b = 19)"
    using assms(2) octet_range [of 2 b 9] two_octets [of "b div 2" 128 9 a 198] by auto
  have relay: "a * 65536 + b * 256 + c = 12605539 \<longleftrightarrow> a = 192 \<and> b = 88 \<and> c = 99"
  proof -
    have "(a * 256 + b) * 256 + c = (192 * 256 + 88) * 256 + 99 \<longleftrightarrow> a * 256 + b = 192 * 256 + 88 \<and> c = 99"
      using assms(3) by (intro two_octets) simp_all
    moreover have "a * 256 + b = 192 * 256 + 88 \<longleftrightarrow> a = 192 \<and> b = 88" using assms(2) by (intro two_octets) simp_all
    ultimately show ?thesis by (simp add: mult.commute)
  qed
  have sixteen: "a * 256 + b = 43518 \<longleftrightarrow> a = 169 \<and> b = 254" "a * 256 + b = 49152 \<longleftrightarrow> a = 192 \<and> b = 0"
    "a * 256 + b = 49320 \<longleftrightarrow> a = 192 \<and> b = 168" "a * 256 + b = 50739 \<longleftrightarrow> a = 198 \<and> b = 51" "a * 256 + b = 51968 \<longleftrightarrow> a = 203 \<and> b = 0"
    using assms(2) two_octets [of b 256 254 a 169] two_octets [of b 256 0 a 192] two_octets [of b 256 168 a 192] two_octets [of b 256 51 a 198]
      two_octets [of b 256 0 a 203] by simp_all
  show ?thesis
    unfolding blocked_networks_def
    using assms by (simp add: in_network_v4 prefix_octets first carrier inner bench relay sixteen blocked_octets_def conj_disj_distribL disj_ac)
qed

text \<open>C40: on the text of any IPv4 address, the checks on its octets are equivalent to the address, as a word, lying in none of the
  blocked networks.\<close>

theorem public_addresses_avoid_the_networks:
  assumes "a < 256" "b < 256" "c < 256" "d < 256"
  shows "is_public_v4 (dotted a b c d) = list_all (\<lambda>n. \<not> in_network (V4 (v4_word a b c d)) n) blocked_networks"
  unfolding is_public_octets [OF assms] blocked_iff [OF assms] list_ex_iff list_all_iff by (simp only: bex_simps ball_simps)

theorem public_addresses_avoid_the_networks_witness:
  "is_public_v4 ''169.254.169.254'' = list_all (\<lambda>n. \<not> in_network (V4 (v4_word 169 254 169 254)) n) blocked_networks \<and> \<not> is_public_v4 ''169.254.169.254''"
proof -
  have "dotted 169 254 169 254 = ''169.254.169.254''" by code_simp
  moreover have "is_public_v4 (dotted 169 254 169 254) = list_all (\<lambda>n. \<not> in_network (V4 (v4_word 169 254 169 254)) n) blocked_networks"
    by (rule public_addresses_avoid_the_networks) simp_all
  moreover have "\<not> is_public_v4 (dotted 169 254 169 254)" by (subst is_public_octets) (simp_all add: blocked_octets_def)
  ultimately show ?thesis by (simp only: simp_thms)
qed

end
