(* ===== verification/TrafficSamples.thy ===== *)
theory TrafficSamples
  imports ServicePolicy Texts Journal
begin

text \<open>
  Counter samples of sessions (\<open>modules/traffic/traffic-samples.service.ts\<close>): the check of a counter, the insertion that looks the router,
  the customer and the session up, with its upsert, and the throughput between the latest two samples. The generated identifier and
  creation time of a sample row are not modelled.
\<close>

subsection \<open>Counters\<close>

datatype counter_value = Counter_text string | Counter_number jsnum

text \<open>\<open>Number.isSafeInteger(value) ? String(value) : ''\<close> of a number.\<close>

definition safe_integer :: "jsnum \<Rightarrow> bool" where
  "safe_integer n \<longleftrightarrow> (case n of Fin r \<Rightarrow> r = of_int \<lfloor>r\<rfloor> \<and> \<bar>\<lfloor>r\<rfloor>\<bar> \<le> 9007199254740991 | _ \<Rightarrow> False)"

definition int_str :: "int \<Rightarrow> string" where
  "int_str i = (if i < 0 then CHR ''-'' # nat_str (nat (- i)) else nat_str (nat i))"

definition counter_text :: "counter_value \<Rightarrow> string" where
  "counter_text v = (case v of Counter_text t \<Rightarrow> t | Counter_number n \<Rightarrow> if safe_integer n then int_str \<lfloor>fin_val n\<rfloor> else [])"

text \<open>\<open>/^\d+$/.test(value)\<close> followed by the \<open>BigInt\<close> of the digits, and the range of the column.\<close>

definition max_bigint :: int where
  "max_bigint = 9223372036854775807"

definition non_negative_counter :: "counter_value \<Rightarrow> string \<Rightarrow> nat result" where
  "non_negative_counter v field =
     (case digits 10 (counter_text v) of
        None \<Rightarrow> Inl (BadRequest (field @ '' must be a non-negative integer counter''))
      | Some n \<Rightarrow> if max_bigint < int n then Inl (BadRequest (field @ '' is outside PostgreSQL bigint range'')) else Inr n)"

subsection \<open>Recording\<close>

text \<open>A date that is not valid is \<open>None\<close>.\<close>

record sample_input =
  sp_routerId :: uuid
  sp_customerId :: "uuid option"
  sp_sessionId :: "uuid option"
  sp_bytesIn :: counter_value
  sp_bytesOut :: counter_value
  sp_sampledAt :: "time option"

definition given :: "uuid option \<Rightarrow> bool" where
  "given x \<longleftrightarrow> x \<noteq> None \<and> x \<noteq> Some []"

text \<open>The row the \<open>SELECT\<close> of the insertion joins together; an identifier that is not given joins nothing.\<close>

definition sample_row :: "uuid \<Rightarrow> sample_input \<Rightarrow> nat \<Rightarrow> nat \<Rightarrow> time \<Rightarrow> db \<Rightarrow> traffic_sample option" where
  "sample_row tenant input bytesIn bytesOut taken s =
     (let customer = Option.bind (sp_customerId input) (\<lambda>i. select_one (\<lambda>c. cu_tenant c = tenant \<and> cu_id c = i) (customers s));
          session = Option.bind (sp_sessionId input) (\<lambda>i. select_one (\<lambda>x. se_tenant x = tenant \<and> se_id x = i) (sessions s))
      in case select_one (\<lambda>r. ro_tenant r = tenant \<and> ro_id r = sp_routerId input) (routers s) of
           None \<Rightarrow> None
         | Some r \<Rightarrow>
             if (sp_customerId input = None \<or> customer \<noteq> None) \<and> (sp_sessionId input = None \<or> session \<noteq> None) \<and>
                (case session of None \<Rightarrow> True | Some x \<Rightarrow> se_routerId x = Some (ro_id r)) \<and>
                (case (customer, session) of (Some c, Some x) \<Rightarrow> se_customerId x = Some (cu_id c) | _ \<Rightarrow> True)
             then Some \<lparr> ts_tenant = tenant, ts_routerId = ro_id r, ts_customerId = map_option cu_id customer,
                         ts_sessionId = map_option se_id session, ts_bytesIn = bytesIn, ts_bytesOut = bytesOut, ts_sampledAt = taken \<rparr>
             else None)"

text \<open>The unique index \<open>(tenant_id, session_id, sampled_at) WHERE session_id IS NOT NULL\<close> that the statement names.\<close>

definition sample_key :: "traffic_sample \<Rightarrow> (uuid \<times> uuid \<times> time) option" where
  "sample_key x = map_option (\<lambda>i. (ts_tenant x, i, ts_sampledAt x)) (ts_sessionId x)"

definition upsert_sample :: "traffic_sample \<Rightarrow> traffic_sample list \<Rightarrow> traffic_sample list" where
  "upsert_sample row t =
     (if sample_key row \<noteq> None \<and> exists_row (\<lambda>x. sample_key x = sample_key row) t
      then update_where (\<lambda>x. sample_key x = sample_key row)
             (\<lambda>x. x\<lparr> ts_bytesIn := ts_bytesIn row, ts_bytesOut := ts_bytesOut row, ts_customerId := ts_customerId row \<rparr>) t
      else insert_row row t)"

text \<open>The row that \<open>RETURNING\<close> sees: the stored one after an update.\<close>

definition stored_sample :: "traffic_sample \<Rightarrow> traffic_sample list \<Rightarrow> traffic_sample" where
  "stored_sample row t = (case select_one (\<lambda>x. sample_key row \<noteq> None \<and> sample_key x = sample_key row) t of None \<Rightarrow> row | Some x \<Rightarrow> x)"

definition record_sample :: "uuid \<Rightarrow> sample_input \<Rightarrow> (db, traffic_sample) operation" where
  "record_sample tenant input s =
     (case (non_negative_counter (sp_bytesIn input) ''bytesIn'', non_negative_counter (sp_bytesOut input) ''bytesOut'') of
        (Inl e, _) \<Rightarrow> (Inl e, s)
      | (Inr _, Inl e) \<Rightarrow> (Inl e, s)
      | (Inr bytesIn, Inr bytesOut) \<Rightarrow>
          if \<not> given (sp_customerId input) \<and> \<not> given (sp_sessionId input)
          then (Inl (BadRequest ''customerId or sessionId is required''), s)
          else (case sp_sampledAt input of
                  None \<Rightarrow> (Inl (BadRequest ''sampledAt must be a valid date''), s)
                | Some taken \<Rightarrow>
                    if sp_customerId input = Some [] \<or> sp_sessionId input = Some [] then (Inl (DbError ''22P02''), s)
                    else (case sample_row tenant input bytesIn bytesOut taken s of
                            None \<Rightarrow> (Inl (NotFound ''Router, customer, or session not found''), s)
                          | Some row \<Rightarrow>
                              (let t = upsert_sample row (trafficSamples s)
                               in (Inr (stored_sample row t), s\<lparr> trafficSamples := t \<rparr>)))))"

subsection \<open>Throughput\<close>

record sample_throughput =
  th_downloadMbps :: rat
  th_uploadMbps :: rat
  th_totalMbps :: rat
  th_intervalSeconds :: "rat option"
  th_sampledAt :: time

definition counters_of :: "traffic_sample \<Rightarrow> counter_sample" where
  "counters_of x = \<lparr> cs_bytesIn = ts_bytesIn x, cs_bytesOut = ts_bytesOut x, cs_sampledAt = ts_sampledAt x \<rparr>"

definition latest_samples :: "uuid \<Rightarrow> uuid \<Rightarrow> time option \<Rightarrow> nat \<Rightarrow> db \<Rightarrow> traffic_sample list" where
  "latest_samples tenant sessionId until n s =
     order_limit (\<lambda>x. - ts_sampledAt x) n
       (select (\<lambda>x. ts_tenant x = tenant \<and> ts_sessionId x = Some sessionId \<and> (case until of None \<Rightarrow> True | Some t \<Rightarrow> ts_sampledAt x \<le> t))
          (trafficSamples s))"

definition session_throughput :: "uuid \<Rightarrow> uuid \<Rightarrow> time option \<Rightarrow> db \<Rightarrow> sample_throughput result" where
  "session_throughput tenant sessionId until s =
     (case latest_samples tenant sessionId until 2 s of
        [] \<Rightarrow> Inl (NotFound ''Traffic sample not found'')
      | [x] \<Rightarrow> Inr \<lparr> th_downloadMbps = 0, th_uploadMbps = 0, th_totalMbps = 0, th_intervalSeconds = None, th_sampledAt = ts_sampledAt x \<rparr>
      | newest # previous # _ \<Rightarrow>
          (let m = calculate_throughput (counters_of previous) (counters_of newest)
           in Inr \<lparr> th_downloadMbps = tp_downloadMbps m, th_uploadMbps = tp_uploadMbps m, th_totalMbps = tp_totalMbps m,
                    th_intervalSeconds = Some (tp_intervalSeconds m), th_sampledAt = ts_sampledAt newest \<rparr>))"

subsection \<open>Samples of a session have distinct times\<close>

definition samples_unique :: "db \<Rightarrow> bool" where
  "samples_unique s \<longleftrightarrow> distinct (List.map_filter sample_key (trafficSamples s))"

definition counters_fit :: "db \<Rightarrow> bool" where
  "counters_fit s \<longleftrightarrow> list_all (\<lambda>x. int (ts_bytesIn x) \<le> max_bigint \<and> int (ts_bytesOut x) \<le> max_bigint) (trafficSamples s)"

lemma counter_bound: "non_negative_counter v f = Inr n \<Longrightarrow> int n \<le> max_bigint"
  by (auto simp: non_negative_counter_def split: option.splits if_splits)

lemma sample_row_keys:
  assumes "sample_row tenant input a b taken s = Some row"
  shows "ts_tenant row = tenant \<and> ts_routerId row = sp_routerId input \<and> ts_sampledAt row = taken \<and> ts_bytesIn row = a \<and> ts_bytesOut row = b \<and>
    ts_sessionId row = sp_sessionId input \<and> ts_customerId row = sp_customerId input"
  using assms by (cases "sp_sessionId input"; cases "sp_customerId input")
    (auto simp: sample_row_def Let_def split: option.splits if_splits dest!: select_one_Some)

lemma map_filter_upsert:
  "List.map_filter sample_key (upsert_sample row t) =
     (if sample_key row \<noteq> None \<and> exists_row (\<lambda>x. sample_key x = sample_key row) t then List.map_filter sample_key t
      else List.map_filter sample_key t @ (case sample_key row of None \<Rightarrow> [] | Some k \<Rightarrow> [k]))"
proof -
  have "List.map_filter sample_key (update_where P f t) = List.map_filter sample_key t" if "\<And>x. sample_key (f x) = sample_key x" for P f
    by (induction t) (simp_all add: update_where_def map_filter_simps that split: option.split)
  moreover have "sample_key (x\<lparr> ts_bytesIn := a, ts_bytesOut := b, ts_customerId := c \<rparr>) = sample_key x" for x a b c
    by (simp add: sample_key_def)
  moreover have "List.map_filter sample_key (t @ u) = List.map_filter sample_key t @ List.map_filter sample_key u" for u
    by (simp add: List.map_filter_def)
  ultimately show ?thesis by (simp add: upsert_sample_def insert_row_def map_filter_simps split: option.split)
qed

lemma upsert_distinct: "distinct (List.map_filter sample_key t) \<Longrightarrow> distinct (List.map_filter sample_key (upsert_sample row t))"
  unfolding map_filter_upsert by (auto simp: exists_row_iff List.map_filter_def split: option.splits)

lemma upsert_fits:
  assumes "list_all P t" and "P row" and "\<And>x. P x \<Longrightarrow> P (x\<lparr> ts_bytesIn := ts_bytesIn row, ts_bytesOut := ts_bytesOut row, ts_customerId := ts_customerId row \<rparr>)"
  shows "list_all P (upsert_sample row t)"
  using assms by (auto simp: upsert_sample_def list_all_iff in_update_where)

lemma record_sample_effect:
  assumes "record_sample tenant input s = (r, s')"
  shows "(\<exists>e. r = Inl e) \<and> s' = s \<or>
    (\<exists>a b taken row. sample_row tenant input a b taken s = Some row \<and> int a \<le> max_bigint \<and> int b \<le> max_bigint \<and> sp_sampledAt input = Some taken \<and>
       r = Inr (stored_sample row (upsert_sample row (trafficSamples s))) \<and> s' = s\<lparr> trafficSamples := upsert_sample row (trafficSamples s) \<rparr>)"
  using assms unfolding record_sample_def Let_def
  by (auto split: sum.splits if_splits option.splits) (metis counter_bound)+

lemma record_sample_keeps:
  assumes "record_sample tenant input s = (r, s')" and "samples_unique s" and "counters_fit s"
  shows "samples_unique s' \<and> counters_fit s'"
proof -
  consider "s' = s" | a b taken row where "sample_row tenant input a b taken s = Some row" "int a \<le> max_bigint" "int b \<le> max_bigint"
      "s' = s\<lparr> trafficSamples := upsert_sample row (trafficSamples s) \<rparr>"
    using record_sample_effect [OF assms(1)] by blast
  then show ?thesis
  proof cases
    case 1
    then show ?thesis using assms by simp
  next
    case 2
    have "int (ts_bytesIn row) \<le> max_bigint" "int (ts_bytesOut row) \<le> max_bigint" using sample_row_keys [OF 2(1)] 2(2,3) by simp_all
    then have "list_all (\<lambda>x. int (ts_bytesIn x) \<le> max_bigint \<and> int (ts_bytesOut x) \<le> max_bigint) (upsert_sample row (trafficSamples s))"
      using assms(3) unfolding counters_fit_def by (intro upsert_fits) simp_all
    then show ?thesis using assms(2) by (simp add: 2(4) samples_unique_def counters_fit_def upsert_distinct)
  qed
qed

end
