(* ===== verification/Collector.thy ===== *)
theory Collector
  imports TrafficSamples CommandWorker
begin

text \<open>
  The collection of counters from the routers (\<open>modules/traffic/traffic-collector.service.ts\<close>): a round over all managed routers, the
  matching of the clients a router reports with its sessions, the samples, and the return of entitled stale sessions. Reading the
  clients of a router, decrypting its credentials and the unique index of active sessions are parameters; the timer is left out.
\<close>

subsection \<open>Clients and sessions\<close>

record wifi_client =
  wc_username :: "string option"
  wc_address :: "string option"
  wc_macAddress :: "string option"
  wc_bytesIn :: string
  wc_bytesOut :: string

record collector_env =
  co_decrypt :: "string \<Rightarrow> credentials result"
  co_readClients :: "router \<Rightarrow> credentials option \<Rightarrow> wifi_client list result"
  co_clash :: "session list \<Rightarrow> bool"

definition normalize_mac :: "string \<Rightarrow> string" where
  "normalize_mac v = filter is_hex (js_lower (js_trim v))"

definition trimmed :: "string option \<Rightarrow> string" where
  "trimmed v = (case v of None \<Rightarrow> [] | Some t \<Rightarrow> js_trim t)"

text \<open>A \<open>Map\<close> filled in the order of the rows, where the last entry of a key wins; an empty text is no key.\<close>

definition index_by :: "(session \<Rightarrow> string option) \<Rightarrow> (string \<Rightarrow> string) \<Rightarrow> session list \<Rightarrow> string \<Rightarrow> session option" where
  "index_by field key rows =
     map_of (rev (List.map_filter (\<lambda>x. case field x of None \<Rightarrow> None | Some v \<Rightarrow> if v = [] then None else Some (key v, x)) rows))"

definition match_session :: "session list \<Rightarrow> wifi_client \<Rightarrow> session option" where
  "match_session rows client =
     (let mac = trimmed (wc_macAddress client); address = trimmed (wc_address client); username = trimmed (wc_username client);
          by_mac = (if mac = [] then None else index_by se_macAddress normalize_mac rows (normalize_mac mac));
          by_ip = (if address = [] then None else index_by se_ipAddress id rows address);
          by_username = (if username = [] then None else index_by se_username id rows username)
      in or_else by_mac (or_else by_ip by_username))"

definition valid_counter :: "string \<Rightarrow> bool" where
  "valid_counter v \<longleftrightarrow> (case digits 10 v of None \<Rightarrow> False | Some n \<Rightarrow> int n \<le> max_bigint)"

subsection \<open>Stale sessions that return\<close>

definition runs_on :: "time \<Rightarrow> uuid \<Rightarrow> uuid \<Rightarrow> uuid \<Rightarrow> purchase \<Rightarrow> bool" where
  "runs_on now tenant customer router p \<longleftrightarrow>
     pu_tenant p = tenant \<and> pu_customerId p = customer \<and> pu_status p \<in> {PU_PAID, PU_ACTIVE} \<and>
     (pu_routerId p = Some router \<or> pu_routerId p = None) \<and>
     (case pu_startsAt p of None \<Rightarrow> True | Some t \<Rightarrow> t \<le> now) \<and> (case pu_endsAt p of None \<Rightarrow> True | Some t \<Rightarrow> now < t)"

definition restore_session ::
  "(session list \<Rightarrow> bool) \<Rightarrow> time \<Rightarrow> uuid \<Rightarrow> uuid \<Rightarrow> uuid \<Rightarrow> uuid \<Rightarrow> (db, unit) operation" where
  "restore_session clash now tenant i customer router s =
     (let P = (\<lambda>x. se_tenant x = tenant \<and> se_id x = i \<and> se_status x = S_STALE \<and> exists_row (runs_on now tenant customer router) (purchases s));
          rows = update_where P (\<lambda>x. x\<lparr> se_status := S_ACTIVE, se_endedAt := None \<rparr>) (sessions s)
      in if exists_row P (sessions s) \<and> clash rows then (Inl (DbError ''23505''), s) else (Inr (), s\<lparr> sessions := rows \<rparr>))"

subsection \<open>A router\<close>

definition touch_router :: "uuid \<Rightarrow> uuid \<Rightarrow> (router \<Rightarrow> router) \<Rightarrow> db \<Rightarrow> db" where
  "touch_router tenant i f s = s\<lparr> routers := update_where (\<lambda>r. ro_tenant r = tenant \<and> ro_id r = i) f (routers s) \<rparr>"

definition update_active_users :: "uuid \<Rightarrow> uuid \<Rightarrow> nat \<Rightarrow> db \<Rightarrow> db" where
  "update_active_users tenant i n = touch_router tenant i (\<lambda>r. r\<lparr> ro_activeUsers := n \<rparr>)"

definition mark_healthy :: "time \<Rightarrow> uuid \<Rightarrow> uuid \<Rightarrow> db \<Rightarrow> db" where
  "mark_healthy now tenant i = touch_router tenant i (\<lambda>r. r\<lparr> ro_status := ''ONLINE'', ro_lastSeenAt := Some now, ro_syncError := None \<rparr>)"

definition mark_degraded :: "string \<Rightarrow> uuid \<Rightarrow> uuid \<Rightarrow> db \<Rightarrow> db" where
  "mark_degraded message tenant i = touch_router tenant i (\<lambda>r. r\<lparr> ro_status := ''DEGRADED'', ro_syncError := Some message \<rparr>)"

definition live_sessions :: "uuid \<Rightarrow> uuid \<Rightarrow> db \<Rightarrow> session list" where
  "live_sessions tenant router s =
     select (\<lambda>x. se_tenant x = tenant \<and> se_routerId x = Some router \<and> se_status x \<in> {S_ACTIVE, S_STALE} \<and> se_customerId x \<noteq> None) (sessions s)"

text \<open>The loop over the reported clients, all of which are sampled at the same time.\<close>

fun collect_clients :: "collector_env \<Rightarrow> time \<Rightarrow> uuid \<Rightarrow> uuid \<Rightarrow> session list \<Rightarrow> wifi_client list \<Rightarrow> (db, nat) operation" where
  "collect_clients env now tenant router rows [] s = (Inr 0, s)"
| "collect_clients env now tenant router rows (client # clients) s =
     (case match_session rows client of
        None \<Rightarrow> collect_clients env now tenant router rows clients s
      | Some x \<Rightarrow>
          if \<not> valid_counter (wc_bytesIn client) \<or> \<not> valid_counter (wc_bytesOut client)
          then collect_clients env now tenant router rows clients s
          else (case record_sample tenant \<lparr> sp_routerId = router, sp_customerId = se_customerId x, sp_sessionId = Some (se_id x),
                         sp_bytesIn = Counter_text (wc_bytesIn client), sp_bytesOut = Counter_text (wc_bytesOut client), sp_sampledAt = Some now \<rparr> s of
                  (Inl e, s1) \<Rightarrow> (Inl e, s1)
                | (Inr _, s1) \<Rightarrow>
                    (case restore_session (co_clash env) now tenant (se_id x) (case se_customerId x of None \<Rightarrow> [] | Some c \<Rightarrow> c) router s1 of
                       (Inl e, s2) \<Rightarrow> (Inl e, s2)
                     | (Inr _, s2) \<Rightarrow>
                         (case collect_clients env now tenant router rows clients s2 of
                            (Inl e, s3) \<Rightarrow> (Inl e, s3) | (Inr n, s3) \<Rightarrow> (Inr (n + 1), s3)))))"

definition device_clients :: "collector_env \<Rightarrow> router \<Rightarrow> wifi_client list result" where
  "device_clients env r =
     (case (case ro_credentialsEncrypted r of None \<Rightarrow> Inr None | Some c \<Rightarrow> if c = [] then Inr None else map_sum id Some (co_decrypt env c)) of
        Inl e \<Rightarrow> Inl e | Inr creds \<Rightarrow> co_readClients env r creds)"

definition collect_router :: "collector_env \<Rightarrow> time \<Rightarrow> router \<Rightarrow> (db, nat) operation" where
  "collect_router env now r s =
     (case device_clients env r of
        Inl e \<Rightarrow> (Inl e, s)
      | Inr active \<Rightarrow>
          (let tenant = ro_tenant r; i = ro_id r; s1 = update_active_users tenant i (length active) s
           in if active = [] then (Inr 0, mark_healthy now tenant i s1)
              else (case collect_clients env now tenant i (live_sessions tenant i s1) active s1 of
                      (Inl e, s2) \<Rightarrow> (Inl e, s2) | (Inr n, s2) \<Rightarrow> (Inr n, mark_healthy now tenant i s2))))"

subsection \<open>A round\<close>

record collection =
  cl_routers :: nat
  cl_samples :: nat
  cl_errors :: nat

definition no_collection :: collection where
  "no_collection = \<lparr> cl_routers = 0, cl_samples = 0, cl_errors = 0 \<rparr>"

definition managed_routers :: "db \<Rightarrow> router list" where
  "managed_routers s =
     sort_key ro_id (select (\<lambda>r. ro_managementEnabled r \<and> (ro_apiEndpoint r \<noteq> None \<or> ro_controllerEndpoint r \<noteq> None)) (routers s))"

text \<open>The loop over the routers: an error of one of them degrades it and does not stop the round.\<close>

fun collect_routers :: "collector_env \<Rightarrow> time \<Rightarrow> router list \<Rightarrow> db \<Rightarrow> (nat \<times> nat) \<times> db" where
  "collect_routers env now [] s = ((0, 0), s)"
| "collect_routers env now (r # rs) s =
     (case collect_router env now r s of
        (Inr n, s1) \<Rightarrow> (let ((samples, errors), s2) = collect_routers env now rs s1 in ((samples + n, errors), s2))
      | (Inl e, s1) \<Rightarrow>
          (let ((samples, errors), s2) = collect_routers env now rs (mark_degraded (take 500 (exn_message e)) (ro_tenant r) (ro_id r) s1)
           in ((samples, errors + 1), s2)))"

text \<open>\<open>running\<close> is the flag of the process, \<open>locked\<close> whether the advisory lock was granted.\<close>

definition collect_all :: "collector_env \<Rightarrow> bool \<Rightarrow> bool \<Rightarrow> time \<Rightarrow> db \<Rightarrow> collection \<times> db" where
  "collect_all env running locked now s =
     (if running \<or> \<not> locked then (no_collection, s)
      else (let ((samples, errors), s') = collect_routers env now (managed_routers s) s
            in (\<lparr> cl_routers = length (managed_routers s), cl_samples = samples, cl_errors = errors \<rparr>, s')))"

subsection \<open>What a round does to the sessions\<close>

text \<open>A session is unchanged, or it was stale, its customer has a running purchase for its router, and it is active again.\<close>

definition came_back :: "time \<Rightarrow> purchase list \<Rightarrow> session \<Rightarrow> session \<Rightarrow> bool" where
  "came_back now ps a b \<longleftrightarrow> b = a \<or>
     (se_status a = S_STALE \<and> b = a\<lparr> se_status := S_ACTIVE, se_endedAt := None \<rparr> \<and>
      (case (se_customerId a, se_routerId a) of (Some c, Some r) \<Rightarrow> list_ex (runs_on now (se_tenant a) c r) ps | _ \<Rightarrow> False))"

lemma came_back_refl [simp]: "came_back now ps a a"
  by (simp add: came_back_def)

lemma came_back_trans: "came_back now ps a b \<Longrightarrow> came_back now ps b c \<Longrightarrow> came_back now ps a c"
  by (auto simp: came_back_def)

lemma list_came_back_trans:
  "list_all2 (came_back now ps) xs ys \<Longrightarrow> list_all2 (came_back now ps) ys zs \<Longrightarrow> list_all2 (came_back now ps) xs zs"
  by (rule list_all2_trans [OF came_back_trans])

definition whose :: "session \<Rightarrow> uuid \<times> uuid \<times> uuid option \<times> uuid option" where
  "whose x = (se_tenant x, se_id x, se_customerId x, se_routerId x)"

definition session_ids_unique :: "db \<Rightarrow> bool" where
  "session_ids_unique s \<longleftrightarrow> distinct (map (\<lambda>x. (se_tenant x, se_id x)) (sessions s))"

lemma came_back_whose: "came_back now ps a b \<Longrightarrow> whose b = whose a"
  by (auto simp: came_back_def whose_def)

lemma list_came_back_whose: "list_all2 (came_back now ps) xs ys \<Longrightarrow> map whose ys = map whose xs"
  by (induction rule: list_all2_induct) (simp_all add: came_back_whose)

lemma whose_ids: "map whose ys = map whose xs \<Longrightarrow> map (\<lambda>x. (se_tenant x, se_id x)) ys = map (\<lambda>x. (se_tenant x, se_id x)) xs"
proof -
  assume "map whose ys = map whose xs"
  then have "map (\<lambda>w. (fst w, fst (snd w))) (map whose ys) = map (\<lambda>w. (fst w, fst (snd w))) (map whose xs)" by simp
  then show ?thesis by (simp add: whose_def comp_def)
qed

lemma list_all2_update: "(\<And>x. x \<in> set t \<Longrightarrow> P x \<Longrightarrow> R x (f x)) \<Longrightarrow> (\<And>x. R x x) \<Longrightarrow> list_all2 R t (update_where P f t)"
  by (induction t) (auto simp: update_where_def)

lemma restore_session_effect:
  assumes r: "restore_session clash now tenant i customer router s = (r, s')"
    and same: "map whose (sessions s) = map whose (sessions s0)" and "session_ids_unique s0"
    and x: "x \<in> set (live_sessions tenant router s0)" "se_id x = i" "se_customerId x = Some customer"
  shows "s' = s\<lparr> sessions := sessions s' \<rparr> \<and> list_all2 (came_back now (purchases s)) (sessions s) (sessions s')"
proof -
  let ?P = "\<lambda>x. se_tenant x = tenant \<and> se_id x = i \<and> se_status x = S_STALE \<and> exists_row (runs_on now tenant customer router) (purchases s)"
  let ?f = "\<lambda>x. x\<lparr> se_status := S_ACTIVE, se_endedAt := None \<rparr>"
  have owner: "se_customerId b = Some customer \<and> se_routerId b = Some router" if "b \<in> set (sessions s)" "?P b" for b
  proof -
    have "whose b \<in> set (map whose (sessions s0))" using that(1) same by (metis imageI list.set_map)
    then obtain y where y: "y \<in> set (sessions s0)" "whose b = whose y" by auto
    have "x \<in> set (sessions s0)" "se_tenant x = tenant" "se_routerId x = Some router" using x(1) by (simp_all add: live_sessions_def)
    moreover from this have "y = x"
      using assms(3) y that(2) x(2) unfolding session_ids_unique_def
      by (intro distinct_key_unique [where k = "\<lambda>x. (se_tenant x, se_id x)" and t = "sessions s0"]) (simp_all add: whose_def)
    ultimately show ?thesis using y(2) x(3) by (simp add: whose_def)
  qed
  have "list_all2 (came_back now (purchases s)) (sessions s) (update_where ?P ?f (sessions s))"
    by (rule list_all2_update) (use owner in \<open>auto simp: came_back_def exists_row_def\<close>)
  then show ?thesis using r unfolding restore_session_def Let_def by (auto split: if_splits simp: list.rel_refl)
qed

text \<open>A sample that a round leaves behind belongs to a live session of a customer and was taken in the round, or it was there before.\<close>

definition measured :: "time \<Rightarrow> session list \<Rightarrow> traffic_sample \<Rightarrow> bool" where
  "measured now ss x \<longleftrightarrow> ts_sampledAt x = now \<and>
     list_ex (\<lambda>y. se_tenant y = ts_tenant x \<and> Some (se_id y) = ts_sessionId x \<and> se_customerId y = ts_customerId x \<and> se_customerId y \<noteq> None \<and>
       se_status y \<noteq> S_ENDED) ss"

lemma measured_before: "list_all2 (came_back now ps) xs ys \<Longrightarrow> measured now ys x \<Longrightarrow> measured now xs x"
proof -
  assume a: "list_all2 (came_back now ps) xs ys" and m: "measured now ys x"
  then obtain j where j: "j < length ys" "se_tenant (ys ! j) = ts_tenant x" "Some (se_id (ys ! j)) = ts_sessionId x"
      "se_customerId (ys ! j) = ts_customerId x" "se_customerId (ys ! j) \<noteq> None" "se_status (ys ! j) \<noteq> S_ENDED" "ts_sampledAt x = now"
    unfolding measured_def list_ex_iff by (metis in_set_conv_nth)
  have "came_back now ps (xs ! j) (ys ! j)" "j < length xs" using a j(1) by (auto simp: list_all2_conv_all_nth)
  then show ?thesis using j unfolding measured_def list_ex_iff by (intro conjI bexI [of _ "xs ! j"]) (auto simp: came_back_def)
qed

text \<open>One step of a round, on everything but the routers\<close>

definition round_step :: "time \<Rightarrow> db \<Rightarrow> db \<Rightarrow> bool" where
  "round_step now s s' \<longleftrightarrow>
     list_all2 (came_back now (purchases s)) (sessions s) (sessions s') \<and> purchases s' = purchases s \<and>
     list_all (\<lambda>x. x \<in> set (trafficSamples s) \<or> measured now (sessions s) x) (trafficSamples s') \<and>
     (samples_unique s \<and> counters_fit s \<longrightarrow> samples_unique s' \<and> counters_fit s')"

lemma round_step_refl: "round_step now s s"
  by (simp add: round_step_def list.rel_refl list_all_iff)

lemma round_step_trans: "round_step now s t \<Longrightarrow> round_step now t u \<Longrightarrow> round_step now s u"
  unfolding round_step_def list_all_iff by (metis list_came_back_trans measured_before)

lemma round_step_ids: "round_step now s t \<Longrightarrow> map whose (sessions t) = map whose (sessions s)"
  by (auto simp: round_step_def intro: list_came_back_whose)

lemma round_step_routers: "round_step now s (touch_router tenant i f t) = round_step now s t"
  by (simp add: round_step_def touch_router_def samples_unique_def counters_fit_def)

lemma restore_round_step:
  assumes "restore_session clash now tenant i customer router s = (r, s')"
    and "map whose (sessions s) = map whose (sessions s0)" and "session_ids_unique s0"
    and "x \<in> set (live_sessions tenant router s0)" "se_id x = i" "se_customerId x = Some customer"
  shows "round_step now s s' \<and> routers s' = routers s"
proof -
  obtain ss where ss: "s' = s\<lparr> sessions := ss \<rparr>" "list_all2 (came_back now (purchases s)) (sessions s) ss"
    using restore_session_effect [OF assms] by force
  show ?thesis using ss(2) by (simp add: ss(1) round_step_def list_all_iff samples_unique_def counters_fit_def)
qed

lemma in_upsert:
  assumes "x \<in> set (upsert_sample row t)"
  shows "x \<in> set t \<or> (ts_tenant x = ts_tenant row \<and> ts_sessionId x = ts_sessionId row \<and> ts_sampledAt x = ts_sampledAt row \<and> ts_customerId x = ts_customerId row)"
  using assms by (auto simp: upsert_sample_def in_update_where sample_key_def split: if_splits)

lemma record_round_step:
  assumes rec: "record_sample tenant input s = (r, s')" and input: "sp_sampledAt input = Some now" "sp_sessionId input = Some (se_id x)"
      "sp_customerId input = se_customerId x" "se_customerId x \<noteq> None"
    and x: "x \<in> set (sessions s)" "se_tenant x = tenant" "se_status x \<noteq> S_ENDED"
  shows "round_step now s s' \<and> routers s' = routers s"
proof (cases "s' = s")
  case True
  then show ?thesis by (simp add: round_step_refl)
next
  case False
  then obtain a b row where row: "sample_row tenant input a b now s = Some row" "s' = s\<lparr> trafficSamples := upsert_sample row (trafficSamples s) \<rparr>"
    using record_sample_effect [OF rec] input(1) by auto
  have keys: "ts_tenant row = tenant" "ts_sessionId row = Some (se_id x)" "ts_sampledAt row = now" "ts_customerId row = se_customerId x"
    using sample_row_keys [OF row(1)] input by simp_all
  have "measured now (sessions s) q" if "q \<in> set (upsert_sample row (trafficSamples s))" "q \<notin> set (trafficSamples s)" for q
  proof -
    have "ts_tenant q = tenant \<and> ts_sessionId q = Some (se_id x) \<and> ts_sampledAt q = now \<and> ts_customerId q = se_customerId x"
      using in_upsert [OF that(1)] that(2) keys by simp
    then show ?thesis using x input(4) unfolding measured_def list_ex_iff by (intro conjI bexI [of _ x]) simp_all
  qed
  moreover have "samples_unique s \<and> counters_fit s \<longrightarrow> samples_unique s' \<and> counters_fit s'" using record_sample_keeps [OF rec] by blast
  ultimately show ?thesis by (auto simp: row(2) round_step_def list.rel_refl list_all_iff)
qed

text \<open>Every session a router's clients can match is live in each state the loop goes through.\<close>

lemma live_later:
  assumes "x \<in> set (live_sessions tenant router s0)" and "round_step now s0 s"
  obtains y where "y \<in> set (sessions s)" "se_tenant y = tenant" "se_id y = se_id x" "se_customerId y = se_customerId x" "se_customerId x \<noteq> None"
    "se_status y \<noteq> S_ENDED"
proof -
  have x: "x \<in> set (sessions s0)" "se_tenant x = tenant" "se_status x \<noteq> S_ENDED" "se_customerId x \<noteq> None"
    using assms(1) by (auto simp: live_sessions_def)
  obtain j where j: "j < length (sessions s0)" "x = sessions s0 ! j" using x(1) by (auto simp: in_set_conv_nth)
  have "came_back now (purchases s0) x (sessions s ! j)" "j < length (sessions s)"
    using assms(2) j unfolding round_step_def by (auto simp: list_all2_conv_all_nth)
  then show thesis using x by (intro that [of "sessions s ! j"]) (auto simp: came_back_def)
qed

lemma match_session_in: "match_session rows client = Some x \<Longrightarrow> x \<in> set rows"
proof -
  have "index_by field key rows k = Some x \<Longrightarrow> x \<in> set rows" for field key k
    unfolding index_by_def by (auto simp: List.map_filter_def dest!: map_of_SomeD split: option.splits if_splits)
  then show "match_session rows client = Some x \<Longrightarrow> x \<in> set rows"
    unfolding match_session_def Let_def or_else_def by (auto split: option.splits if_splits)
qed

lemma collect_clients_round_step:
  assumes "collect_clients env now tenant router (live_sessions tenant router s0) clients s = (r, s')"
    and "round_step now s0 s" and "routers s = routers s0" and "session_ids_unique s0"
  shows "round_step now s0 s' \<and> routers s' = routers s0"
  using assms(1-3)
proof (induction clients arbitrary: s r s')
  case Nil
  then show ?case by simp
next
  case (Cons client clients)
  let ?rows = "live_sessions tenant router s0"
  note go_on = Cons.IH [OF _ Cons.prems(2,3)]
  show ?case
  proof (cases "match_session ?rows client")
    case None
    then show ?thesis using Cons.prems(1) go_on by simp
  next
    case (Some x)
    have x: "x \<in> set ?rows" by (rule match_session_in [OF Some])
    obtain y where y: "y \<in> set (sessions s)" "se_tenant y = tenant" "se_id y = se_id x" "se_customerId y = se_customerId x" "se_customerId x \<noteq> None"
      "se_status y \<noteq> S_ENDED" using live_later [OF x Cons.prems(2)] by blast
    then obtain customer where customer: "se_customerId x = Some customer" by blast
    show ?thesis
    proof (cases "\<not> valid_counter (wc_bytesIn client) \<or> \<not> valid_counter (wc_bytesOut client)")
      case True
      then show ?thesis using Cons.prems(1) Some go_on by simp
    next
      case valid: False
      define input where "input = \<lparr> sp_routerId = router, sp_customerId = se_customerId x, sp_sessionId = Some (se_id x),
        sp_bytesIn = Counter_text (wc_bytesIn client), sp_bytesOut = Counter_text (wc_bytesOut client), sp_sampledAt = Some now \<rparr>"
      obtain r1 s1 where rec: "record_sample tenant input s = (r1, s1)" by fastforce
      obtain r2 s2 where res: "restore_session (co_clash env) now tenant (se_id x) customer router s1 = (r2, s2)" by fastforce
      obtain r3 s3 where rest: "collect_clients env now tenant router ?rows clients s2 = (r3, s3)" by fastforce
      have step1: "round_step now s s1 \<and> routers s1 = routers s"
        by (rule record_round_step [OF rec, where x = y]) (use y in \<open>simp_all add: input_def\<close>)
      have from0: "round_step now s0 s1" using round_step_trans [OF Cons.prems(2)] step1 by blast
      have step2: "round_step now s1 s2 \<and> routers s2 = routers s1"
        by (rule restore_round_step [OF res round_step_ids [OF from0] assms(4) x _ customer]) simp
      have step3: "round_step now s0 s3 \<and> routers s3 = routers s0"
        using Cons.IH [OF rest round_step_trans [OF from0]] step1 step2 Cons.prems(3) by simp
      have "s' = s1 \<or> s' = s2 \<or> s' = s3"
        using Cons.prems(1) valid Some rec res rest by (auto simp: input_def customer split: sum.splits)
      then show ?thesis using from0 step1 step2 step3 Cons.prems(3) round_step_trans [OF from0] by auto
    qed
  qed
qed

lemma collect_router_round_step:
  assumes "collect_router env now r s = (res, s')" and "session_ids_unique s"
  shows "round_step now s s'"
proof (cases "device_clients env r")
  case (Inl e)
  then show ?thesis using assms(1) by (simp add: collect_router_def round_step_refl)
next
  case (Inr active)
  define s1 where "s1 = update_active_users (ro_tenant r) (ro_id r) (length active) s"
  have s1: "round_step now s1 s1" "session_ids_unique s1" "round_step now s1 t \<Longrightarrow> round_step now s t" for t
    using assms(2) by (simp_all add: round_step_refl s1_def update_active_users_def touch_router_def session_ids_unique_def round_step_def
        samples_unique_def counters_fit_def)
  show ?thesis
  proof (cases "active = []")
    case True
    then show ?thesis using assms(1) Inr by (auto simp: collect_router_def Let_def mark_healthy_def update_active_users_def round_step_routers round_step_refl)
  next
    case False
    obtain r2 s2 where loop: "collect_clients env now (ro_tenant r) (ro_id r) (live_sessions (ro_tenant r) (ro_id r) s1) active s1 = (r2, s2)"
      by fastforce
    have "round_step now s1 s2" using collect_clients_round_step [OF loop s1(1) refl s1(2)] by blast
    moreover have "s' = s2 \<or> s' = mark_healthy now (ro_tenant r) (ro_id r) s2"
      using assms(1) Inr False loop by (auto simp: collect_router_def s1_def Let_def split: sum.splits)
    ultimately show ?thesis using s1(3) by (auto simp: mark_healthy_def round_step_routers)
  qed
qed

lemma round_step_unique: "round_step now s t \<Longrightarrow> session_ids_unique s \<Longrightarrow> session_ids_unique t"
  unfolding session_ids_unique_def by (simp only: whose_ids [OF round_step_ids])

lemma collect_routers_round_step:
  "collect_routers env now rs s = (c, s') \<Longrightarrow> session_ids_unique s \<Longrightarrow> round_step now s s'"
proof (induction rs arbitrary: s c s')
  case Nil
  then show ?case by (simp add: round_step_refl)
next
  case (Cons r rs)
  obtain res s1 where one: "collect_router env now r s = (res, s1)" by fastforce
  define s2 where "s2 = (case res of Inl e \<Rightarrow> mark_degraded (take 500 (exn_message e)) (ro_tenant r) (ro_id r) s1 | Inr _ \<Rightarrow> s1)"
  have "round_step now s s2"
    using collect_router_round_step [OF one Cons.prems(2)] by (simp add: s2_def mark_degraded_def round_step_routers split: sum.split)
  moreover obtain c2 where "collect_routers env now rs s2 = (c2, s')"
    using Cons.prems(1) one by (auto simp: s2_def split: sum.splits prod.splits)
  ultimately show ?case using Cons.IH Cons.prems(2) round_step_unique round_step_trans by blast
qed

subsection \<open>Every managed router is reported\<close>

definition router_id :: "router \<Rightarrow> uuid \<times> uuid" where
  "router_id r = (ro_tenant r, ro_id r)"

text \<open>What a round writes into the row \<open>q\<close> of the router it read as \<open>r\<close>, when its collection ended with \<open>res\<close>.\<close>

definition settle_router :: "collector_env \<Rightarrow> time \<Rightarrow> router \<Rightarrow> nat result \<Rightarrow> router \<Rightarrow> router" where
  "settle_router env now r res q =
     (let q1 = (case device_clients env r of Inl _ \<Rightarrow> q | Inr clients \<Rightarrow> q\<lparr> ro_activeUsers := length clients \<rparr>)
      in case res of
           Inl e \<Rightarrow> q1\<lparr> ro_status := ''DEGRADED'', ro_syncError := Some (take 500 (exn_message e)) \<rparr>
         | Inr _ \<Rightarrow> q1\<lparr> ro_status := ''ONLINE'', ro_lastSeenAt := Some now, ro_syncError := None \<rparr>)"

text \<open>How the collection of a router ended, in a round that began in \<open>s\<close>: with the error of its device, or as the loop over its clients did.\<close>

definition collected_as :: "collector_env \<Rightarrow> time \<Rightarrow> db \<Rightarrow> router \<Rightarrow> nat result \<Rightarrow> bool" where
  "collected_as env now s r res \<longleftrightarrow>
     (case device_clients env r of
        Inl e \<Rightarrow> res = Inl e
      | Inr clients \<Rightarrow> \<exists>t u. round_step now s t \<and>
          collect_clients env now (ro_tenant r) (ro_id r) (live_sessions (ro_tenant r) (ro_id r) t) clients t = (res, u))"

lemma settle_router_id: "router_id (settle_router env now r res q) = router_id q"
  by (simp add: settle_router_def Let_def router_id_def split: sum.split)

lemma touch_router_rows:
  "routers (touch_router tenant i f s) = update_where (\<lambda>q. router_id q = (tenant, i)) f (routers s)"
  by (simp add: touch_router_def router_id_def)

lemma touch_twice:
  assumes "\<And>q. router_id (f q) = router_id q"
  shows "update_where (\<lambda>q. router_id q = k) g (update_where (\<lambda>q. router_id q = k) f t) = update_where (\<lambda>q. router_id q = k) (\<lambda>q. g (f q)) t"
  using assms by (simp add: update_where_def)

lemma collect_router_settles:
  assumes "collect_router env now r s = (res, s1)" and "session_ids_unique s"
    and "s2 = (case res of Inl e \<Rightarrow> mark_degraded (take 500 (exn_message e)) (ro_tenant r) (ro_id r) s1 | Inr _ \<Rightarrow> s1)"
  shows "routers s2 = update_where (\<lambda>q. router_id q = router_id r) (settle_router env now r res) (routers s) \<and> collected_as env now s r res"
proof -
  let ?t = "ro_tenant r" and ?i = "ro_id r"
  have k: "(?t, ?i) = router_id r" by (simp add: router_id_def)
  show ?thesis
  proof (cases "device_clients env r")
    case (Inl e)
    then have "res = Inl e" "s2 = mark_degraded (take 500 (exn_message e)) ?t ?i s" using assms(1,3) by (auto simp: collect_router_def)
    then show ?thesis using Inl
      by (simp add: mark_degraded_def touch_router_rows k settle_router_def [abs_def] collected_as_def)
  next
    case (Inr active)
    define u where "u = update_active_users ?t ?i (length active) s"
    have ru: "routers u = update_where (\<lambda>q. router_id q = router_id r) (\<lambda>q. q\<lparr> ro_activeUsers := length active \<rparr>) (routers s)"
      by (simp add: u_def update_active_users_def touch_router_rows k)
    have su: "round_step now s u" by (simp add: u_def update_active_users_def round_step_routers round_step_refl)
    obtain r2 v where loop: "collect_clients env now ?t ?i (live_sessions ?t ?i u) active u = (r2, v)" by fastforce
    have "session_ids_unique u" using assms(2) by (simp add: u_def update_active_users_def touch_router_def session_ids_unique_def)
    then have v: "routers v = routers u" using collect_clients_round_step [OF loop round_step_refl refl] by blast
    have empty: "r2 = Inr 0 \<and> v = u" if "active = []" using loop that by simp
    have res: "res = r2" and s2: "s2 = (case r2 of Inl e \<Rightarrow> mark_degraded (take 500 (exn_message e)) ?t ?i v | Inr _ \<Rightarrow> mark_healthy now ?t ?i v)"
      using assms(1,3) Inr loop empty by (cases "active = []"; auto simp: collect_router_def u_def Let_def split: sum.splits)+
    have f: "router_id (q\<lparr> ro_activeUsers := length active \<rparr>) = router_id q" for q by (simp add: router_id_def)
    have "routers s2 = update_where (\<lambda>q. router_id q = router_id r) (settle_router env now r res) (routers s)"
      unfolding s2 res by (cases r2) (simp_all add: mark_degraded_def mark_healthy_def touch_router_rows k v ru touch_twice [OF f]
        settle_router_def [abs_def] Inr)
    moreover have "collected_as env now s r res" unfolding collected_as_def using Inr su loop res by auto
    ultimately show ?thesis ..
  qed
qed

lemma collected_as_later: "round_step now s t \<Longrightarrow> collected_as env now t r res \<Longrightarrow> collected_as env now s r res"
  unfolding collected_as_def by (auto split: sum.splits intro: round_step_trans)

text \<open>A round over routers that are all different, as updates one after the other.\<close>

definition error_of :: "nat result \<Rightarrow> nat" where
  "error_of res = (case res of Inl _ \<Rightarrow> 1 | Inr _ \<Rightarrow> 0)"

definition samples_of :: "nat result \<Rightarrow> nat" where
  "samples_of res = (case res of Inl _ \<Rightarrow> 0 | Inr n \<Rightarrow> n)"

lemma collect_routers_settle:
  "collect_routers env now rs s = ((m, e), s') \<Longrightarrow> session_ids_unique s \<Longrightarrow> distinct rs \<Longrightarrow>
     \<exists>res. (\<forall>r\<in>set rs. collected_as env now s r (res r)) \<and>
       routers s' = fold (\<lambda>r. update_where (\<lambda>q. router_id q = router_id r) (settle_router env now r (res r))) rs (routers s) \<and>
       m = sum_list (map (\<lambda>r. samples_of (res r)) rs) \<and> e = sum_list (map (\<lambda>r. error_of (res r)) rs)"
proof (induction rs arbitrary: s m e s')
  case Nil
  then show ?case by simp
next
  case (Cons r rs)
  obtain res s1 where one: "collect_router env now r s = (res, s1)" by fastforce
  define s2 where "s2 = (case res of Inl e \<Rightarrow> mark_degraded (take 500 (exn_message e)) (ro_tenant r) (ro_id r) s1 | Inr _ \<Rightarrow> s1)"
  have step: "round_step now s s2"
    using collect_router_round_step [OF one Cons.prems(2)] by (simp add: s2_def mark_degraded_def round_step_routers split: sum.split)
  obtain m2 e2 where rest: "collect_routers env now rs s2 = ((m2, e2), s')" and counts: "m = m2 + samples_of res" "e = e2 + error_of res"
    using Cons.prems(1) one by (auto simp: s2_def samples_of_def error_of_def split: sum.splits prod.splits)
  have "session_ids_unique s2" "distinct rs" "r \<notin> set rs" using round_step_unique [OF step Cons.prems(2)] Cons.prems(3) by simp_all
  then obtain out where out: "\<forall>x\<in>set rs. collected_as env now s2 x (out x)"
      "routers s' = fold (\<lambda>x. update_where (\<lambda>q. router_id q = router_id x) (settle_router env now x (out x))) rs (routers s2)"
      "m2 = sum_list (map (\<lambda>x. samples_of (out x)) rs)" "e2 = sum_list (map (\<lambda>x. error_of (out x)) rs)"
    using Cons.IH [OF rest] by blast
  define all where "all = out(r := res)"
  have same: "all x = out x" if "x \<in> set rs" for x using that \<open>r \<notin> set rs\<close> by (auto simp: all_def)
  have folds: "fold (\<lambda>x. update_where (\<lambda>q. router_id q = router_id x) (settle_router env now x (all x))) rs t =
      fold (\<lambda>x. update_where (\<lambda>q. router_id q = router_id x) (settle_router env now x (out x))) rs t" for t
    by (rule fold_cong) (simp_all add: same)
  have sums: "map (\<lambda>x. samples_of (all x)) rs = map (\<lambda>x. samples_of (out x)) rs" "map (\<lambda>x. error_of (all x)) rs = map (\<lambda>x. error_of (out x)) rs"
    by (simp_all add: same)
  note settled = collect_router_settles [OF one Cons.prems(2) s2_def]
  show ?case
  proof (intro exI [of _ all] conjI ballI)
    fix x assume "x \<in> set (r # rs)"
    then show "collected_as env now s x (all x)"
      using settled out(1) same collected_as_later [OF step] by (cases "x = r") (auto simp: all_def)
  qed (use settled out counts in \<open>simp_all add: folds sums\<close>, simp_all add: all_def)
qed

lemma fold_update_rows:
  assumes "distinct (map k t)" and "\<And>r q. k (f r q) = k q"
  shows "distinct rs \<Longrightarrow> set rs \<subseteq> set t \<Longrightarrow> (\<And>q. k (g q) = k q) \<Longrightarrow>
    fold (\<lambda>r. update_where (\<lambda>q. k q = k r) (f r)) rs (map g t) = map (\<lambda>q. if q \<in> set rs then f q (g q) else g q) t"
proof (induction rs arbitrary: g)
  case Nil
  then show ?case by simp
next
  case (Cons r rs)
  define g' where "g' q = (if q = r then f r (g q) else g q)" for q
  have r: "r \<in> set t" using Cons.prems(2) by simp
  have "update_where (\<lambda>q. k q = k r) (f r) (map g t) = map g' t"
    unfolding update_where_def map_map
  proof (rule map_cong [OF refl])
    fix q assume "q \<in> set t"
    then have "k q = k r \<longleftrightarrow> q = r" using distinct_key_unique [OF assms(1)] r by metis
    then show "((\<lambda>q. if k q = k r then f r q else q) \<circ> g) q = g' q" by (simp add: g'_def Cons.prems(3))
  qed
  moreover have "fold (\<lambda>r. update_where (\<lambda>q. k q = k r) (f r)) rs (map g' t) = map (\<lambda>q. if q \<in> set rs then f q (g' q) else g' q) t"
    by (rule Cons.IH) (use Cons.prems assms(2) in \<open>auto simp: g'_def\<close>)
  moreover have "(\<lambda>q. if q \<in> set rs then f q (g' q) else g' q) = (\<lambda>q. if q \<in> set (r # rs) then f q (g q) else g q)"
    using Cons.prems(1) by (auto simp: g'_def fun_eq_iff)
  ultimately show ?case by simp
qed

subsection \<open>Properties\<close>

text \<open>C11: a round over the routers wakes a session only if it was stale and its customer has a paid or active purchase that covers its
  router and the present, and changes no other session; every sample it leaves was there before or was taken in the round for a live
  session and its customer; no two samples of a session have the same time; no counter leaves the range of its column.\<close>

theorem collection_wakes_only_entitled_sessions:
  assumes "collect_all env running locked now s = (c, s')" and "session_ids_unique s" and "samples_unique s" and "counters_fit s"
  shows "list_all2 (came_back now (purchases s)) (sessions s) (sessions s') \<and>
    list_all (\<lambda>x. x \<in> set (trafficSamples s) \<or> measured now (sessions s) x) (trafficSamples s') \<and> samples_unique s' \<and> counters_fit s'"
proof -
  have "round_step now s s'"
    using assms(1,2) collect_routers_round_step by (auto simp: collect_all_def round_step_refl split: if_splits prod.splits)
  then show ?thesis using assms(3,4) by (simp add: round_step_def)
qed

definition collected_router :: "uuid \<Rightarrow> router" where
  "collected_router i = \<lparr> ro_tenant = ''t'', ro_id = i, ro_locationId = None, ro_status = ''UNKNOWN'', ro_lastSeenAt = None, ro_activeUsers = 0,
     ro_enabled = True, ro_apiEndpoint = Some ''http://gw'', ro_protocol = Some MIKROTIK_REST, ro_managementEnabled = True,
     ro_credentialsEncrypted = None, ro_apiEnabled = True, ro_controllerEndpoint = None, ro_capabilities = JObj [], ro_syncError = None \<rparr>"

definition collected_session :: "uuid \<Rightarrow> session_status \<Rightarrow> session" where
  "collected_session i st = \<lparr> se_id = i, se_tenant = ''t'', se_customerId = Some ''c'', se_routerId = Some ''r'', se_username = None,
     se_ipAddress = None, se_macAddress = Some ''AA:0'', se_startedAt = 0, se_endedAt = Some 5, se_bytesIn = 0, se_bytesOut = 0,
     se_status = st, se_correlationId = None \<rparr>"

definition collected_purchase :: purchase where
  "collected_purchase = \<lparr> pu_id = ''p'', pu_tenant = ''t'', pu_customerId = ''c'', pu_packageId = ''k'', pu_routerId = None, pu_price = 5,
     pu_currency = ''KES'', pu_discountAmount = 0, pu_promoCodeId = None, pu_status = PU_ACTIVE, pu_startsAt = Some 0, pu_endsAt = Some 99999,
     pu_correlationId = None, pu_createdAt = 0 \<rparr>"

text \<open>The router \<open>r\<close> reports one client, and \<open>q\<close> does not answer.\<close>

definition collected_env :: collector_env where
  "collected_env = \<lparr> co_decrypt = Inr, co_readClients = (\<lambda>r _. if ro_id r = ''q'' then Inl (PlainError ''timeout'') else
     Inr [\<lparr> wc_username = None, wc_address = None, wc_macAddress = Some '' aa-0 '', wc_bytesIn = ''70'', wc_bytesOut = ''8'' \<rparr>]),
     co_clash = (\<lambda>_. False) \<rparr>"

definition collected_db :: db where
  "collected_db = empty_db\<lparr> routers := [collected_router ''r'', collected_router ''q''], purchases := [collected_purchase],
     customers := [\<lparr> cu_tenant = ''t'', cu_id = ''c'', cu_fullName = ''C'', cu_phone = None, cu_active = True, cu_marketingConsent = False \<rparr>],
     sessions := [collected_session ''0'' S_STALE, collected_session ''1'' S_ENDED] \<rparr>"

theorem collection_wakes_only_entitled_sessions_witness:
  "let (c, s') = collect_all collected_env False True 1000 collected_db in
     c = \<lparr> cl_routers = 2, cl_samples = 1, cl_errors = 1 \<rparr> \<and> map se_status (sessions s') = [S_ACTIVE, S_ENDED] \<and>
     map ts_bytesIn (trafficSamples s') = [70] \<and> samples_unique s'"
proof -
  have start: "session_ids_unique collected_db" "samples_unique collected_db" "counters_fit collected_db" by code_simp+
  have run: "let (c, s') = collect_all collected_env False True 1000 collected_db in
      c = \<lparr> cl_routers = 2, cl_samples = 1, cl_errors = 1 \<rparr> \<and> map se_status (sessions s') = [S_ACTIVE, S_ENDED] \<and>
      map ts_bytesIn (trafficSamples s') = [70]" by code_simp
  obtain c s' where r: "collect_all collected_env False True 1000 collected_db = (c, s')" by fastforce
  show ?thesis using run collection_wakes_only_entitled_sessions [OF r start] by (simp add: r)
qed



end
