(* ===== verification/UrlTexts.thy ===== *)
theory UrlTexts
  imports Texts
begin

text \<open>
  Texts of addresses on the web as the network adapters build them: removing an ending, and \<open>encodeURIComponent\<close>.
\<close>

definition strip_end :: "string \<Rightarrow> string \<Rightarrow> string" where
  "strip_end ending t = (if length ending \<le> length t \<and> drop (length t - length ending) t = ending then take (length t - length ending) t else t)"

text \<open>\<open>encodeURIComponent\<close> on the bytes of a text\<close>

definition unreserved :: "char \<Rightarrow> bool" where
  "unreserved c \<longleftrightarrow> (let n = of_char c :: nat in (48 \<le> n \<and> n \<le> 57) \<or> (65 \<le> n \<and> n \<le> 90) \<or> (97 \<le> n \<and> n \<le> 122)) \<or> c \<in> set ''-_.!~*()'' \<or> c = CHR 0x27"

definition encode_uri_component :: "string \<Rightarrow> string" where
  "encode_uri_component t =
     concat (map (\<lambda>c. if unreserved c then [c] else CHR ''%'' # map (\<lambda>d. upper_char (hex_digit d)) [of_char c div 16, of_char c mod 16]) t)"

end
