(* ===== verification/Orchestration.thy ===== *)
theory Orchestration
  imports TrafficSamples CommandWorker UrlTexts "HOL-Library.Product_Lexorder" "HOL-Library.Sublist"
begin

text \<open>
  The evaluation of a router (\<open>modules/traffic/traffic-orchestrator.service.ts\<close>, with \<open>clearManaged\<close> and \<open>reconcileManaged\<close> of
  \<open>enforcement.service.ts\<close>): the live demand of its sessions from their samples, the service each of them runs under, the decision of the
  fairness engine, its enforcement on the device, and the journal of these events. The adapters, the decryption of credentials and the
  configured age of samples are parameters.
\<close>

subsection \<open>Adapters that also clear and reconcile\<close>

text \<open>The last argument is \<open>options?.merakiGroupPolicyId\<close>. A call may fail with a message; it is recorded either way, and is for no particular session.\<close>

record managed_adapter = adapter +
  ma_clear :: "device_call list \<Rightarrow> string \<Rightarrow> credentials option \<Rightarrow> string option \<Rightarrow> string + nat"
  ma_reconcile :: "device_call list \<Rightarrow> string \<Rightarrow> string list \<Rightarrow> credentials option \<Rightarrow> string option \<Rightarrow> string + nat"

type_synonym managed_adapters = "protocol \<Rightarrow> managed_adapter option"

definition plain_adapters :: "managed_adapters \<Rightarrow> adapters" where
  "plain_adapters ads p = map_option adapter.truncate (ads p)"

definition clear_managed :: "managed_adapters \<Rightarrow> string \<Rightarrow> credentials option \<Rightarrow> protocol \<Rightarrow> string option \<Rightarrow> (db, nat) operation" where
  "clear_managed ads endpoint creds p policyGroup s =
     (case ads p of
        None \<Rightarrow> (Inl (no_adapter p), s)
      | Some a \<Rightarrow> (map_sum PlainError id (ma_clear a (deviceCalls s) endpoint creds policyGroup), log_call Dev_clear p [] s))"

definition reconcile_managed ::
  "managed_adapters \<Rightarrow> string \<Rightarrow> string list \<Rightarrow> credentials option \<Rightarrow> protocol \<Rightarrow> string option \<Rightarrow> (db, nat) operation" where
  "reconcile_managed ads endpoint keep creds p policyGroup s =
     (case ads p of
        None \<Rightarrow> (Inl (no_adapter p), s)
      | Some a \<Rightarrow> (map_sum PlainError id (ma_reconcile a (deviceCalls s) endpoint keep creds policyGroup), log_call Dev_reconcile p [] s))"

record orchestrator_env =
  oe_adapters :: managed_adapters
  oe_decrypt :: "string \<Rightarrow> credentials result"
  oe_sampleMaxAge :: "string option"

subsection \<open>The service of a customer on a router\<close>

record running_service =
  rs_startsAt :: "time option"
  rs_endsAt :: "time option"
  rs_dataLimitBytes :: "rat option"
  rs_downloadBps :: "rat option"
  rs_uploadBps :: "rat option"

definition serves :: "time \<Rightarrow> uuid \<Rightarrow> uuid \<Rightarrow> uuid \<Rightarrow> purchase \<Rightarrow> bool" where
  "serves now tenant router customer w \<longleftrightarrow>
     pu_tenant w = tenant \<and> pu_customerId w = customer \<and> pu_status w \<in> {PU_PAID, PU_ACTIVE} \<and>
     (pu_routerId w = Some router \<or> pu_routerId w = None) \<and>
     (case pu_startsAt w of None \<Rightarrow> True | Some t \<Rightarrow> t \<le> now) \<and> (case pu_endsAt w of None \<Rightarrow> True | Some t \<Rightarrow> now < t)"

text \<open>
  \<open>ORDER BY (w.router_id=$2) DESC, w.ends_at DESC NULLS LAST, w.created_at DESC\<close>: a descending order puts \<open>NULL\<close> first, so a purchase
  without router comes before one for this router.
\<close>

definition service_order :: "purchase \<Rightarrow> int \<times> int \<times> int \<times> int" where
  "service_order w =
     (case pu_routerId w of None \<Rightarrow> 0 | Some _ \<Rightarrow> 1, case pu_endsAt w of None \<Rightarrow> 1 | Some _ \<Rightarrow> 0,
      case pu_endsAt w of None \<Rightarrow> 0 | Some t \<Rightarrow> - t, - pu_createdAt w)"

definition package_of :: "uuid \<Rightarrow> purchase \<Rightarrow> db \<Rightarrow> package option" where
  "package_of tenant w s = select_one (\<lambda>p. pk_tenant p = tenant \<and> pk_id p = pu_packageId w) (packages s)"

definition service_on :: "time \<Rightarrow> uuid \<Rightarrow> uuid \<Rightarrow> uuid \<Rightarrow> db \<Rightarrow> running_service option" where
  "service_on now tenant router customer s =
     (case order_limit service_order 1 (select (\<lambda>w. serves now tenant router customer w \<and> package_of tenant w s \<noteq> None) (purchases s)) of
        [] \<Rightarrow> None
      | w # _ \<Rightarrow> map_option (\<lambda>p. \<lparr> rs_startsAt = pu_startsAt w, rs_endsAt = pu_endsAt w, rs_dataLimitBytes = pk_dataLimitBytes p,
                                rs_downloadBps = pk_downloadBps p, rs_uploadBps = pk_uploadBps p \<rparr>) (package_of tenant w s))"

text \<open>The bytes of the customer's sessions that began while the service ran; nothing when it has no beginning.\<close>

definition service_usage :: "uuid \<Rightarrow> uuid \<Rightarrow> running_service option \<Rightarrow> db \<Rightarrow> nat" where
  "service_usage tenant customer service s =
     (case Option.bind service rs_startsAt of
        None \<Rightarrow> 0
      | Some begun \<Rightarrow>
          sum_list (map (\<lambda>x. se_bytesIn x + se_bytesOut x)
            (select (\<lambda>x. se_tenant x = tenant \<and> se_customerId x = Some customer \<and> begun \<le> se_startedAt x \<and>
                       (case Option.bind service rs_endsAt of None \<Rightarrow> True | Some ended \<Rightarrow> se_startedAt x < ended)) (sessions s))))"

definition service_decision_of :: "time \<Rightarrow> running_service option \<Rightarrow> nat \<Rightarrow> service_decision" where
  "service_decision_of now service used = resolve_service_policy now
     \<lparr> si_startsAt = Option.bind service rs_startsAt, si_endsAt = Option.bind service rs_endsAt,
       si_dataLimitBytes = map_option Fin (Option.bind service rs_dataLimitBytes), si_usedBytes = Fin (of_nat used),
       si_downloadBps = map_option Fin (Option.bind service rs_downloadBps), si_uploadBps = map_option Fin (Option.bind service rs_uploadBps) \<rparr>"

subsection \<open>Measured sessions\<close>

record measured_row =
  mr_session :: session
  mr_customer :: uuid
  mr_newest :: traffic_sample
  mr_previous :: traffic_sample
  mr_decision :: service_decision

definition session_samples :: "uuid \<Rightarrow> session \<Rightarrow> (time \<Rightarrow> bool) \<Rightarrow> db \<Rightarrow> traffic_sample list" where
  "session_samples tenant x P s =
     order_limit (\<lambda>q. - ts_sampledAt q) 1
       (select (\<lambda>q. ts_tenant q = tenant \<and> ts_sessionId q = Some (se_id x) \<and> P (ts_sampledAt q)) (trafficSamples s))"

text \<open>Two samples, the newest no older and the two no further apart than the age in seconds.\<close>

definition measure_session :: "time \<Rightarrow> uuid \<Rightarrow> uuid \<Rightarrow> int \<Rightarrow> db \<Rightarrow> session \<Rightarrow> measured_row option" where
  "measure_session now tenant router age s x =
     (case (se_customerId x, session_samples tenant x (\<lambda>t. now - age * 1000 \<le> t) s) of
        (Some customer, newest # _) \<Rightarrow>
          (case session_samples tenant x (\<lambda>t. t < ts_sampledAt newest) s of
             [] \<Rightarrow> None
           | previous # _ \<Rightarrow>
               if age * 1000 < ts_sampledAt newest - ts_sampledAt previous then None
               else (let service = service_on now tenant router customer s
                     in Some \<lparr> mr_session = x, mr_customer = customer, mr_newest = newest, mr_previous = previous,
                               mr_decision = service_decision_of now service (service_usage tenant customer service s) \<rparr>))
      | _ \<Rightarrow> None)"

definition active_sessions :: "uuid \<Rightarrow> uuid \<Rightarrow> db \<Rightarrow> session list" where
  "active_sessions tenant router s =
     select (\<lambda>x. se_tenant x = tenant \<and> se_routerId x = Some router \<and> se_status x = S_ACTIVE \<and> se_customerId x \<noteq> None) (sessions s)"

definition measured_rows :: "time \<Rightarrow> uuid \<Rightarrow> uuid \<Rightarrow> int \<Rightarrow> db \<Rightarrow> measured_row list" where
  "measured_rows now tenant router age s = List.map_filter (measure_session now tenant router age s) (active_sessions tenant router s)"

record traffic_user =
  tu_customerId :: uuid
  tu_sessionId :: uuid
  tu_ipAddress :: "string option"
  tu_macAddress :: "string option"
  tu_requestedMbps :: jsnum
  tu_priority :: rat
  tu_weight :: rat
  tu_uploadRatio :: rat
  tu_service :: service_decision

definition traffic_user_of :: "measured_row \<Rightarrow> traffic_user" where
  "traffic_user_of row =
     (let m = calculate_throughput (counters_of (mr_previous row)) (counters_of (mr_newest row)); total = tp_totalMbps m; d = mr_decision row
      in \<lparr> tu_customerId = mr_customer row, tu_sessionId = se_id (mr_session row), tu_ipAddress = se_ipAddress (mr_session row),
           tu_macAddress = se_macAddress (mr_session row), tu_requestedMbps = js_min (Fin total) (sd_maxDownloadMbps d), tu_priority = 1,
           tu_weight = 1, tu_uploadRatio = (if 0 < total then min 1 (max 0 (tp_uploadMbps m / total)) else 1 / 2), tu_service = d \<rparr>)"

definition active_users :: "measured_row list \<Rightarrow> traffic_user list" where
  "active_users rows =
     filter (\<lambda>u. sd_state (tu_service u) = SP_ACTIVE \<and> is_finite (tu_requestedMbps u) \<and> js_less (Fin 0) (tu_requestedMbps u)) (map traffic_user_of rows)"

definition fairness_user :: "traffic_user \<Rightarrow> active_user" where
  "fairness_user u = \<lparr> au_customerId = tu_customerId u, au_sessionId = Some (tu_sessionId u), au_requestedMbps = tu_requestedMbps u,
     au_priority = Some (tu_priority u), au_weight = Some (tu_weight u) \<rparr>"

definition limited_user :: "traffic_user \<Rightarrow> enforcement_user" where
  "limited_user u = \<lparr> eu_user = fairness_user u, eu_maxDownloadMbps = Some (sd_maxDownloadMbps (tu_service u)),
     eu_maxUploadMbps = Some (sd_maxUploadMbps (tu_service u)) \<rparr>"

definition profile_policy :: "bandwidth_profile \<Rightarrow> fairness_policy" where
  "profile_policy p = \<lparr> fp_enabled = bw_enabled p, fp_capacityMbps = bw_capacityMbps p,
     fp_activateThresholdPercent = bw_activateThresholdPercent p, fp_aggressiveThresholdPercent = bw_aggressiveThresholdPercent p,
     fp_recoveryThresholdPercent = bw_recoveryThresholdPercent p \<rparr>"

subsection \<open>The evaluation\<close>

record base_result =
  br_routerId :: uuid
  br_mode :: fairness_mode
  br_utilizationPercent :: rat
  br_capacityMbps :: rat
  br_users :: nat
  br_activeSessions :: nat
  br_sampleMaxAgeSeconds :: int
  br_allocations :: "fairness_allocation list"
  br_quotaExceeded :: nat
  br_expiredOrMissing :: int

record evaluation =
  ev_router :: router
  ev_policy :: fairness_policy
  ev_rows :: "measured_row list"
  ev_users :: "traffic_user list"
  ev_state :: fairness_decision
  ev_base :: base_result

text \<open>The age of samples: the configured number, 120 when it is none, between 15 and 900. The query casts it to an integer.\<close>

definition sample_max_age :: "string option \<Rightarrow> rat" where
  "sample_max_age configured =
     (let n = number_of_text (case configured of None \<Rightarrow> ''120'' | Some t \<Rightarrow> t)
      in min (max (if is_finite n then fin_val n else 120) 15) 900)"

definition quota_exceeded :: "measured_row list \<Rightarrow> nat" where
  "quota_exceeded rows = length (filter (\<lambda>r. sd_state (mr_decision r) = SP_QUOTA_EXCEEDED) rows)"

definition base_of :: "uuid \<Rightarrow> fairness_decision \<Rightarrow> traffic_user list \<Rightarrow> nat \<Rightarrow> int \<Rightarrow> measured_row list \<Rightarrow> base_result" where
  "base_of router state users active age rows =
     \<lparr> br_routerId = router, br_mode = fd_mode state, br_utilizationPercent = to_fixed 3 (fd_utilizationPercent state),
       br_capacityMbps = fd_capacityMbps state, br_users = length users, br_activeSessions = active, br_sampleMaxAgeSeconds = age,
       br_allocations = fd_allocations state, br_quotaExceeded = quota_exceeded rows,
       br_expiredOrMissing = int (length rows) - int (length users) - int (quota_exceeded rows) \<rparr>"

definition evaluation_of :: "orchestrator_env \<Rightarrow> time \<Rightarrow> uuid \<Rightarrow> uuid \<Rightarrow> db \<Rightarrow> evaluation result" where
  "evaluation_of env now tenant router s =
     (case select_one (\<lambda>r. ro_tenant r = tenant \<and> ro_id r = router) (routers s) of
        None \<Rightarrow> Inl (NotFound ''Router not found'')
      | Some r \<Rightarrow>
          (case select_one (\<lambda>p. bw_tenant p = tenant \<and> bw_routerId p = router) (bandwidthProfiles s) of
             None \<Rightarrow> Inl (ServiceUnavailable ''Router bandwidth profile is not configured'')
           | Some p \<Rightarrow>
               (let age = sample_max_age (oe_sampleMaxAge env) in
                if age \<noteq> of_int \<lfloor>age\<rfloor> then Inl (DbError ''22P02'')
                else (let rows = measured_rows now tenant router \<lfloor>age\<rfloor> s; users = active_users rows;
                          state = evaluate_fairness (profile_policy p) (map fairness_user users)
                      in Inr \<lparr> ev_router = r, ev_policy = profile_policy p, ev_rows = rows, ev_users = users, ev_state = state,
                               ev_base = base_of router state users (length (active_sessions tenant router s)) \<lfloor>age\<rfloor> rows \<rparr>))))"

subsection \<open>Its enforcement\<close>

record orchestration =
  or_base :: base_result
  or_applied :: bool
  or_reason :: "string option"
  or_protocol :: "protocol option"
  or_clearedManaged :: "nat option"
  or_enforced :: "(enforcement_result \<times> fairness_mode \<times> rat) option"
  or_staleManagedRemoved :: "nat option"

definition refused :: "base_result \<Rightarrow> string \<Rightarrow> protocol option \<Rightarrow> orchestration" where
  "refused base reason p = \<lparr> or_base = base, or_applied = False, or_reason = Some reason, or_protocol = p, or_clearedManaged = None,
     or_enforced = None, or_staleManagedRemoved = None \<rparr>"

text \<open>\<open>stringValue(record(capabilities), keys)\<close>\<close>

fun string_value :: "json \<Rightarrow> string list \<Rightarrow> string option" where
  "string_value v [] = None"
| "string_value v (k # ks) =
     (case json_get v k of Some (JStr t) \<Rightarrow> if js_trim t \<noteq> [] then Some t else string_value v ks | _ \<Rightarrow> string_value v ks)"

definition meraki_network_endpoint :: "string option \<Rightarrow> string option \<Rightarrow> string option \<Rightarrow> string result" where
  "meraki_network_endpoint apiEndpoint controllerEndpoint networkId =
     (case (or_else controllerEndpoint apiEndpoint, networkId) of
        (Some endpoint, Some network) \<Rightarrow>
          if endpoint = [] \<or> network = [] then Inl (ServiceUnavailable ''Meraki controller endpoint and networkId are required for enforcement'')
          else (let base = strip_end ''/api'' (strip_end ''/api/v1'' (rev (dropWhile (\<lambda>c. c = CHR ''/'') (rev endpoint))))
                in Inr (base @ ''/api/v1/networks/'' @ encode_uri_component network))
      | _ \<Rightarrow> Inl (ServiceUnavailable ''Meraki controller endpoint and networkId are required for enforcement''))"

fun mode_name :: "fairness_mode \<Rightarrow> string" where
  "mode_name NORMAL = ''NORMAL''"
| "mode_name FAIRNESS_ACTIVE = ''FAIRNESS_ACTIVE''"
| "mode_name AGGRESSIVE = ''AGGRESSIVE''"
| "mode_name RECOVERING = ''RECOVERING''"

definition log_event :: "enforcement_event \<Rightarrow> db \<Rightarrow> db" where
  "log_event e s = s\<lparr> enforcementEvents := insert_row e (enforcementEvents s) \<rparr>"

definition targets_of :: "string \<Rightarrow> protocol \<Rightarrow> string option \<Rightarrow> traffic_user list \<Rightarrow> string \<Rightarrow> enforcement_target option" where
  "targets_of endpoint p policyGroup users =
     map_of (rev (map (\<lambda>u. (user_key (tu_customerId u) (Some (tu_sessionId u)),
       \<lparr> et_targetAddress = tu_ipAddress u, et_targetMacAddress = tu_macAddress u, et_apiEndpoint = Some endpoint, et_protocol = Some p,
         et_merakiGroupPolicyId = (if p = MERAKI_DASHBOARD_API then policyGroup else None) \<rparr>)) users))"

definition keep_key :: "protocol \<Rightarrow> bandwidth_command \<Rightarrow> string" where
  "keep_key p c =
     (if p = MERAKI_DASHBOARD_API then (case or_else (bc_targetMacAddress c) (bc_targetAddress c) of None \<Rightarrow> [] | Some t \<Rightarrow> t)
      else take 60 (''JASLYN-'' @ (case bc_sessionId c of None \<Rightarrow> bc_customerId c | Some i \<Rightarrow> i)))"

definition mean_upload_ratio :: "traffic_user list \<Rightarrow> rat" where
  "mean_upload_ratio users = sum_list (map tu_uploadRatio users) / of_nat (length users)"

text \<open>The body of \<open>try\<close>: enforcing, reconciling and the event of both.\<close>

definition enforce_evaluation ::
  "orchestrator_env \<Rightarrow> time \<Rightarrow> uuid \<Rightarrow> uuid \<Rightarrow> evaluation \<Rightarrow> string \<Rightarrow> credentials option \<Rightarrow> protocol \<Rightarrow> string option
   \<Rightarrow> (db, orchestration) operation" where
  "enforce_evaluation env now tenant router e endpoint creds p policyGroup s =
     (let correlation = ''traffic:'' @ tenant @ '':'' @ router @ '':'' @ new_uuid s in
      case evaluate_and_apply (plain_adapters (oe_adapters env)) now router (ev_policy e) (map limited_user (ev_users e))
             (targets_of endpoint p policyGroup (ev_users e)) (Fin (mean_upload_ratio (ev_users e))) creds p (Some tenant) (Some correlation)
             (s\<lparr> next_id := next_id s + 1 \<rparr>) of
        (Inl x, s1) \<Rightarrow> (Inl x, s1)
      | (Inr (result, mode, util), s1) \<Rightarrow>
          (case reconcile_managed (oe_adapters env) endpoint (map (keep_key p) (er_commands result)) creds p policyGroup s1 of
             (Inl x, s2) \<Rightarrow> (Inl x, s2)
           | (Inr removed, s2) \<Rightarrow>
               (Inr \<lparr> or_base = ev_base e, or_applied = er_applied result, or_reason = None, or_protocol = None, or_clearedManaged = None,
                      or_enforced = Some (result, mode, util), or_staleManagedRemoved = Some removed \<rparr>,
                log_event \<lparr> ee_tenant = tenant, ee_routerId = router, ee_mode = mode_name mode, ee_commandCount = length (er_commands result),
                  ee_applied = er_applied result,
                  ee_commands = jobject [(''protocol'', Some (JStr (protocol_name p))), (''commandIds'', Some (JArr (map JStr (er_commandIds result)))),
                    (''commands'', Some (JArr (map bandwidth_json (er_commands result)))), (''staleManagedRemoved'', Some (JNum (of_nat removed)))],
                  ee_error = None \<rparr> s2)))"

text \<open>\<open>catch\<close>: an event with the error, which is thrown again.\<close>

definition log_failure :: "uuid \<Rightarrow> uuid \<Rightarrow> evaluation \<Rightarrow> exn \<Rightarrow> (db, orchestration) operation" where
  "log_failure tenant router e x s =
     (Inl x, log_event \<lparr> ee_tenant = tenant, ee_routerId = router, ee_mode = mode_name (fd_mode (ev_state e)),
        ee_commandCount = length (fd_allocations (ev_state e)), ee_applied = False, ee_commands = JArr [], ee_error = Some (take 1000 (exn_message x)) \<rparr> s)"

definition clear_router ::
  "orchestrator_env \<Rightarrow> uuid \<Rightarrow> uuid \<Rightarrow> evaluation \<Rightarrow> string \<Rightarrow> credentials option \<Rightarrow> protocol \<Rightarrow> string option \<Rightarrow> (db, orchestration) operation" where
  "clear_router env tenant router e endpoint creds p policyGroup s =
     (case clear_managed (oe_adapters env) endpoint creds p policyGroup s of
        (Inl x, s1) \<Rightarrow> (Inl x, s1)
      | (Inr cleared, s1) \<Rightarrow>
          (Inr \<lparr> or_base = ev_base e, or_applied = (0 < cleared), or_reason = None, or_protocol = None, or_clearedManaged = Some cleared,
                 or_enforced = None, or_staleManagedRemoved = None \<rparr>,
           log_event \<lparr> ee_tenant = tenant, ee_routerId = router, ee_mode = ''NORMAL'', ee_commandCount = cleared, ee_applied = (0 < cleared),
             ee_commands = jobject [(''action'', Some (JStr ''CLEAR_MANAGED_POLICIES'')), (''protocol'', Some (JStr (protocol_name p))),
                                    (''cleared'', Some (JNum (of_nat cleared)))], ee_error = None \<rparr> s1))"

text \<open>What the enforcement talks to: the endpoint, the credentials and the group policy of the router.\<close>

definition connection_of :: "orchestrator_env \<Rightarrow> router \<Rightarrow> protocol \<Rightarrow> (string \<times> credentials option \<times> string option) result" where
  "connection_of env r p =
     (let network = string_value (ro_capabilities r) [''networkId'', ''merakiNetworkId''];
          policyGroup = string_value (ro_capabilities r) [''merakiGroupPolicyId'', ''groupPolicyId''];
          endpoint = (if p = MERAKI_DASHBOARD_API then meraki_network_endpoint (ro_apiEndpoint r) (ro_controllerEndpoint r) network
                      else Inr (case ro_apiEndpoint r of None \<Rightarrow> [] | Some t \<Rightarrow> t))
      in case endpoint of
           Inl x \<Rightarrow> Inl x
         | Inr url \<Rightarrow>
             (case (case ro_credentialsEncrypted r of None \<Rightarrow> Inr None | Some c \<Rightarrow> if c = [] then Inr None else map_sum id Some (oe_decrypt env c)) of
                Inl x \<Rightarrow> Inl x
              | Inr creds \<Rightarrow> Inr (url, creds, if p = MERAKI_DASHBOARD_API then policyGroup else None)))"

definition apply_evaluation :: "orchestrator_env \<Rightarrow> time \<Rightarrow> uuid \<Rightarrow> uuid \<Rightarrow> evaluation \<Rightarrow> protocol \<Rightarrow> (db, orchestration) operation" where
  "apply_evaluation env now tenant router e p s =
     (case connection_of env (ev_router e) p of
        Inl x \<Rightarrow> (Inl x, s)
      | Inr (endpoint, creds, policyGroup) \<Rightarrow>
          if fd_mode (ev_state e) = NORMAL then clear_router env tenant router e endpoint creds p policyGroup s
          else if ev_users e = [] then (Inr (refused (ev_base e) ''NO_ACTIVE_SERVICES'' None), s)
          else (case enforce_evaluation env now tenant router e endpoint creds p policyGroup s of
                  (Inl x, s1) \<Rightarrow> log_failure tenant router e x s1
                | (Inr r, s1) \<Rightarrow> (Inr r, s1)))"

definition evaluate_router :: "orchestrator_env \<Rightarrow> time \<Rightarrow> uuid \<Rightarrow> uuid \<Rightarrow> bool \<Rightarrow> (db, orchestration) operation" where
  "evaluate_router env now tenant router apply s =
     (case evaluation_of env now tenant router s of
        Inl x \<Rightarrow> (Inl x, s)
      | Inr e \<Rightarrow>
          (let refuse = (\<lambda>reason. (Inr (refused (ev_base e) reason None), s)); r = ev_router e in
           if \<not> apply then refuse ''DRY_RUN''
           else if \<not> ro_apiEnabled r then refuse ''ROUTER_API_DISABLED''
           else if (case ro_apiEndpoint r of None \<Rightarrow> True | Some t \<Rightarrow> t = []) then refuse ''ROUTER_API_ENDPOINT_MISSING''
           else if 0 < br_activeSessions (ev_base e) \<and> ev_rows e = [] then refuse ''NO_RECENT_TRAFFIC_MEASUREMENTS''
           else (case ro_protocol r of
                   Some p \<Rightarrow>
                     if p \<noteq> MIKROTIK_REST \<and> p \<noteq> MERAKI_DASHBOARD_API
                     then (Inr (refused (ev_base e) ''ENFORCEMENT_ADAPTER_NOT_IMPLEMENTED'' (Some p)), s)
                     else apply_evaluation env now tenant router e p s
                 | None \<Rightarrow> refuse ''ENFORCEMENT_ADAPTER_NOT_IMPLEMENTED'')))"

subsection \<open>Which commands are enforced\<close>

lemma map_op_in_order:
  assumes "map_op f xs s = (Inr ys, s')" and "\<And>q s' c s. f c s = (Inr q, s') \<Longrightarrow> g q = c"
  shows "map g ys = xs"
  using assms(1)
proof (induction xs arbitrary: s ys)
  case Nil
  then show ?case by simp
next
  case (Cons x xs)
  then obtain y s1 zs where "f x s = (Inr y, s1)" "map_op f xs s1 = (Inr zs, s')" "ys = y # zs"
    by (auto split: prod.splits sum.splits)
  then show ?case using Cons.IH assms(2) by simp
qed

lemma queue_bandwidth_commands_in_order:
  assumes "queue_bandwidth_commands now tenant commands actor correlationId s = (Inr qs, s')"
  shows "map qb_command qs = commands"
proof (cases "commands = []")
  case True
  then show ?thesis using assms by (simp add: queue_bandwidth_commands_def ret_def)
next
  case False
  then have "map_op (queue_bandwidth_command now tenant actor correlationId) commands s = (Inr qs, s')"
    using assms by (simp add: queue_bandwidth_commands_def transaction_Inr)
  moreover have "qb_command q = c" if "queue_bandwidth_command now tenant actor correlationId c s = (Inr q, s')" for c s q s'
    using that unfolding queue_bandwidth_command_def Let_def by (auto split: option.splits if_splits)
  ultimately show ?thesis by (rule map_op_in_order)
qed

lemma apply_commands_subseq:
  assumes "apply_commands ads now commands creds p (Some tenant) correlationId s = (Inr res, s')"
  shows "subseq (er_commands res) commands"
proof (cases "commands = [] \<or> ads p = None")
  case True
  then have "er_commands res = []" using assms unfolding apply_commands_def by (cases "commands = []") (auto simp: nothing_applied_def)
  then show ?thesis by simp
next
  case False
  obtain q s1 where q: "queue_bandwidth_commands now tenant commands ''traffic-orchestrator'' correlationId s = (q, s1)" by fastforce
  show ?thesis
  proof (cases q)
    case (Inl e)
    then show ?thesis using assms False q by (auto simp: apply_commands_def bind_op_def)
  next
    case (Inr qs)
    define some where "some = map qb_command (filter (\<lambda>q. executable (qb_status q)) qs)"
    have "subseq some commands"
      unfolding some_def queue_bandwidth_commands_in_order [OF q [unfolded Inr], symmetric] by (intro subseq_map subseq_filter_left)
    moreover have "er_commands res = some \<or> er_commands res = []"
      using assms False q Inr unfolding apply_commands_def some_def
      by (auto simp: bind_op_def ret_def Let_def nothing_applied_def split: if_splits prod.splits sum.splits)
    ultimately show ?thesis by auto
  qed
qed

lemma evaluate_and_apply_subseq:
  assumes "evaluate_and_apply ads now routerId policy users targets ratio creds p (Some tenant) correlationId s = (Inr (res, mode, util), s')"
    and "state = evaluate_fairness policy (map eu_user users)"
  shows "mode = fd_mode state \<and> util = to_fixed 3 (fd_utilizationPercent state) \<and>
    subseq (er_commands res) (to_enforcement_commands routerId (fd_allocations state) ratio targets (service_limits users))"
  using assms(1) unfolding evaluate_and_apply_def assms(2) Let_def
  by (auto simp: bind_op_def ret_def dest: apply_commands_subseq split: prod.splits sum.splits)

lemma subseq_elements: "subseq xs ys \<Longrightarrow> set xs \<subseteq> set ys"
  by (induction rule: list_emb.induct) auto

lemma sum_subseq:
  fixes f :: "'a \<Rightarrow> rat"
  assumes "subseq xs ys" and "\<And>y. y \<in> set ys \<Longrightarrow> 0 \<le> f y"
  shows "sum_list (map f xs) \<le> sum_list (map f ys)"
  using assms by (induction rule: list_emb.induct) (auto simp: add_increasing intro!: sum_list_nonneg)

text \<open>A command of the decision: for an allocation, no faster than it.\<close>

lemma command_of_allocation:
  assumes "c \<in> set (to_enforcement_commands r as ratio targets limits)"
  obtains a where "a \<in> set as" "bc_routerId c = r" "bc_customerId c = fa_customerId a" "bc_sessionId c = fa_sessionId a"
    "bc_maxDownloadMbps c = to_fixed 3 (min_limit (fa_allocatedMbps a) (Option.bind (limits (user_key (fa_customerId a) (fa_sessionId a))) sl_download))"
    "0 < fa_allocatedMbps a"
  using assms by (auto simp: to_enforcement_commands_def Let_def)

lemma to_fixed_mono: "x \<le> y \<Longrightarrow> 0 \<le> y \<Longrightarrow> to_fixed n x \<le> to_fixed n y"
proof (cases "0 \<le> x")
  case False
  assume y: "0 \<le> y"
  have "0 \<le> to_fixed n (- x)" "to_fixed n x = - to_fixed n (- x)" using False to_fixed_nonneg [of "- x" n] by (simp_all add: to_fixed_def)
  then show ?thesis using to_fixed_nonneg [OF y, of n] by linarith
qed (rule to_fixed_mono_nonneg)

lemma rate_of_allocation:
  assumes "c \<in> set (to_enforcement_commands r as ratio targets limits)"
  shows "\<exists>a \<in> set as. bc_customerId c = fa_customerId a \<and> bc_sessionId c = fa_sessionId a \<and> bc_maxDownloadMbps c \<le> to_fixed 3 (fa_allocatedMbps a)"
proof -
  obtain a l where a: "a \<in> set as" "bc_customerId c = fa_customerId a" "bc_sessionId c = fa_sessionId a" "0 < fa_allocatedMbps a"
    "bc_maxDownloadMbps c = to_fixed 3 (min_limit (fa_allocatedMbps a) l)" using command_of_allocation [OF assms] by metis
  have "min_limit (fa_allocatedMbps a) l \<le> fa_allocatedMbps a" by (simp add: min_limit_def split: option.split)
  then have "to_fixed 3 (min_limit (fa_allocatedMbps a) l) \<le> to_fixed 3 (fa_allocatedMbps a)" using a(4) by (intro to_fixed_mono) simp_all
  then show ?thesis using a by auto
qed

lemma decided_limits_nonneg:
  assumes "service_limits (map limited_user users) k = Some l" and "sl_download l = Some x"
    and "\<And>u. u \<in> set users \<Longrightarrow> sd_state (tu_service u) = SP_ACTIVE \<and> (\<exists>i. tu_service u = resolve_service_policy now i)"
  shows "0 \<le> x"
proof -
  obtain u where u: "u \<in> set users" "finite_limit (Some (sd_maxDownloadMbps (tu_service u))) = Some x"
    using assms(1,2) unfolding service_limits_def by (auto simp: limited_user_def dest!: map_of_SomeD)
  obtain i where "tu_service u = resolve_service_policy now i" using assms(3) u(1) by blast
  moreover have "sd_state (tu_service u) = SP_ACTIVE" using assms(3) u(1) by blast
  ultimately have "sd_maxDownloadMbps (tu_service u) = bps_to_mbps (si_downloadBps i)"
    by (auto simp: resolve_service_policy_def Let_def service_inactive_def service_expired_def split: if_splits option.splits jsnum.splits)
  then show ?thesis using u(2) by (auto simp: finite_limit_def bps_to_mbps_def split: option.splits jsnum.splits if_splits)
qed

lemma mode_enabled: "fd_mode (evaluate_fairness policy users) \<noteq> NORMAL \<Longrightarrow>
    evaluate_fairness policy users = decide \<lparr> in_capacityMbps = fp_capacityMbps policy, in_activeUsers = users,
      in_activateThresholdPercent = Some (fp_activateThresholdPercent policy), in_aggressiveThresholdPercent = Some (fp_aggressiveThresholdPercent policy),
      in_recoveryThresholdPercent = Some (fp_recoveryThresholdPercent policy) \<rparr>"
  by (simp add: evaluate_fairness_def split: if_splits)

text \<open>The users of an evaluation are active sessions of its router whose service the policy decides to be active.\<close>

definition live_user :: "time \<Rightarrow> uuid \<Rightarrow> uuid \<Rightarrow> db \<Rightarrow> traffic_user \<Rightarrow> bool" where
  "live_user now tenant router s u \<longleftrightarrow>
     (\<exists>x\<in>set (sessions s). se_tenant x = tenant \<and> se_routerId x = Some router \<and> se_status x = S_ACTIVE \<and>
        se_customerId x = Some (tu_customerId u) \<and> se_id x = tu_sessionId u) \<and>
     (\<exists>service. service = service_on now tenant router (tu_customerId u) s \<and>
        tu_service u = service_decision_of now service (service_usage tenant (tu_customerId u) service s) \<and> sd_state (tu_service u) = SP_ACTIVE)"

lemma measured_session:
  assumes "measure_session now tenant router age s x = Some row"
  shows "mr_session row = x \<and> se_customerId x = Some (mr_customer row) \<and>
    mr_decision row = service_decision_of now (service_on now tenant router (mr_customer row) s)
      (service_usage tenant (mr_customer row) (service_on now tenant router (mr_customer row) s) s)"
  using assms by (auto simp: measure_session_def Let_def split: option.splits list.splits if_splits)

lemma active_users_live:
  assumes "u \<in> set (active_users (measured_rows now tenant router age s))"
  shows "live_user now tenant router s u"
proof -
  obtain row where row: "row \<in> set (measured_rows now tenant router age s)" "u = traffic_user_of row" "sd_state (tu_service u) = SP_ACTIVE"
    using assms by (auto simp: active_users_def)
  then obtain x where x: "x \<in> set (active_sessions tenant router s)" "measure_session now tenant router age s x = Some row"
    by (auto simp: measured_rows_def List.map_filter_def)
  show ?thesis using measured_session [OF x(2)] x(1) row(2,3) by (auto simp: live_user_def traffic_user_of_def Let_def active_sessions_def)
qed

lemma evaluation_of_users:
  assumes "evaluation_of env now tenant router s = Inr e"
  shows "ev_users e = active_users (ev_rows e) \<and> (\<exists>age. ev_rows e = measured_rows now tenant router age s) \<and>
    ev_state e = evaluate_fairness (ev_policy e) (map fairness_user (ev_users e)) \<and>
    br_mode (ev_base e) = fd_mode (ev_state e) \<and> br_utilizationPercent (ev_base e) = to_fixed 3 (fd_utilizationPercent (ev_state e)) \<and>
    br_capacityMbps (ev_base e) = fd_capacityMbps (ev_state e) \<and> br_allocations (ev_base e) = fd_allocations (ev_state e) \<and>
    br_users (ev_base e) = length (ev_users e)"
  using assms by (auto simp: evaluation_of_def Let_def base_of_def split: option.splits if_splits)

lemma enforced_by:
  assumes "evaluate_router env now tenant router True s = (Inr r, s')"
  obtains e where "evaluation_of env now tenant router s = Inr e" "or_base r = ev_base e"
    "\<And>res mode util. or_enforced r = Some (res, mode, util) \<Longrightarrow> fd_mode (ev_state e) \<noteq> NORMAL \<and> mode = fd_mode (ev_state e) \<and>
       util = to_fixed 3 (fd_utilizationPercent (ev_state e)) \<and>
       (\<exists>targets. subseq (er_commands res) (to_enforcement_commands router (fd_allocations (ev_state e)) (Fin (mean_upload_ratio (ev_users e)))
          targets (service_limits (map limited_user (ev_users e)))))"
proof -
  obtain e where e: "evaluation_of env now tenant router s = Inr e"
    using assms by (cases "evaluation_of env now tenant router s") (simp_all add: evaluate_router_def)
  have users: "ev_state e = evaluate_fairness (ev_policy e) (map eu_user (map limited_user (ev_users e)))"
    using evaluation_of_users [OF e] by (simp add: limited_user_def comp_def)
  consider reason p where "r = refused (ev_base e) reason p" | p where "apply_evaluation env now tenant router e p s = (Inr r, s')"
    using assms e unfolding evaluate_router_def Let_def by (auto split: if_splits option.splits)
  then show thesis
  proof cases
    case 1
    then show thesis by (intro that [OF e]) (simp_all add: refused_def)
  next
    case 2
    obtain endpoint creds policyGroup where con: "connection_of env (ev_router e) p = Inr (endpoint, creds, policyGroup)"
      using 2 by (cases "connection_of env (ev_router e) p") (auto simp: apply_evaluation_def)
    consider "clear_router env tenant router e endpoint creds p policyGroup s = (Inr r, s')" | "r = refused (ev_base e) ''NO_ACTIVE_SERVICES'' None"
      | "fd_mode (ev_state e) \<noteq> NORMAL" "enforce_evaluation env now tenant router e endpoint creds p policyGroup s = (Inr r, s')"
      using 2 con unfolding apply_evaluation_def log_failure_def by (auto split: if_splits prod.splits sum.splits)
    then show thesis
    proof cases
      case 1
      then have "or_base r = ev_base e \<and> or_enforced r = None" by (auto simp: clear_router_def split: sum.splits prod.splits)
      then show thesis by (intro that [OF e]) simp_all
    next
      case 2
      then show thesis by (intro that [OF e]) (simp_all add: refused_def)
    next
      case 3
      then obtain res mode util s1 where run: "evaluate_and_apply (plain_adapters (oe_adapters env)) now router (ev_policy e) (map limited_user (ev_users e))
             (targets_of endpoint p policyGroup (ev_users e)) (Fin (mean_upload_ratio (ev_users e))) creds p (Some tenant)
             (Some (''traffic:'' @ tenant @ '':'' @ router @ '':'' @ new_uuid s)) (s\<lparr> next_id := next_id s + 1 \<rparr>) = (Inr (res, mode, util), s1)"
          "or_base r = ev_base e" "or_enforced r = Some (res, mode, util)"
        unfolding enforce_evaluation_def Let_def by (auto split: sum.splits prod.splits)
      show thesis using evaluate_and_apply_subseq [OF run(1) users] run(2,3) 3(1) by (intro that [OF e]) auto
    qed
  qed
qed

subsection \<open>Who gets a rate\<close>

lemma allocated_user:
  assumes "a \<in> set (fd_allocations (evaluate_fairness policy users))"
  obtains u where "u \<in> set users" "fa_customerId a = au_customerId u" "fa_sessionId a = au_sessionId u"
proof -
  let ?us = "\<lambda>xs. map normalize_user (filter has_demand xs)"
  have plain: "\<exists>u\<in>set users. fa_customerId a = au_customerId u \<and> fa_sessionId a = au_sessionId u" if "a \<in> set (map unthrottled (?us users))"
    using that by (auto simp: unthrottled_def normalize_user_def)
  have shared: "\<exists>u\<in>set users. fa_customerId a = au_customerId u \<and> fa_sessionId a = au_sessionId u" if shared: "a \<in> set (allocate (?us users) c)" for c
  proof -
    obtain n x where "n \<in> set (?us users)" "a = allocation n x" using allocate_in [OF shared] by blast
    then show ?thesis by (auto simp: allocation_def normalize_user_def)
  qed
  have "\<exists>u\<in>set users. fa_customerId a = au_customerId u \<and> fa_sessionId a = au_sessionId u"
  proof (cases "fp_enabled policy")
    case True
    then have "a \<in> set (map unthrottled (?us users)) \<or> (\<exists>c. a \<in> set (allocate (?us users) c))"
      using assms by (auto simp: evaluate_fairness_def decide_def Let_def split: if_splits)
    then show ?thesis using plain shared by blast
  next
    case False
    then show ?thesis using assms by (auto simp: evaluate_fairness_def)
  qed
  then show thesis using that by blast
qed

lemma evaluation_capacity:
  assumes "evaluation_of env now tenant router s = Inr e"
  obtains p where "p \<in> set (bandwidthProfiles s)" "bw_tenant p = tenant" "bw_routerId p = router" "fp_capacityMbps (ev_policy e) = bw_capacityMbps p"
  using assms unfolding evaluation_of_def Let_def
  by (auto simp: profile_policy_def dest!: select_one_Some split: option.splits if_splits)

lemma decided_users_live:
  assumes "evaluation_of env now tenant router s = Inr e" and "u \<in> set (ev_users e)"
  shows "live_user now tenant router s u"
proof -
  obtain age where "ev_users e = active_users (measured_rows now tenant router age s)" using evaluation_of_users [OF assms(1)] by metis
  then show ?thesis using active_users_live assms(2) by metis
qed

lemma live_service: "live_user now tenant router s u \<Longrightarrow> sd_state (tu_service u) = SP_ACTIVE \<and> (\<exists>i. tu_service u = resolve_service_policy now i)"
  unfolding live_user_def service_decision_of_def by blast

lemma decided_commands:
  assumes e: "evaluation_of env now tenant router s = Inr e" and busy: "fd_mode (ev_state e) \<noteq> NORMAL"
    and cs: "cs = to_enforcement_commands router (fd_allocations (ev_state e)) ratio targets (service_limits (map limited_user (ev_users e)))"
  shows "c \<in> set cs \<Longrightarrow> 0 \<le> bc_maxDownloadMbps c"
    and "sum_list (map bc_maxDownloadMbps cs) \<le> max 0 (fp_capacityMbps (ev_policy e)) + 1 / 1000000 + of_nat (length (ev_users e)) / 2000"
proof -
  let ?limits = "service_limits (map limited_user (ev_users e))"
  have limits: "0 \<le> x" if "?limits k = Some l" "sl_download l = Some x" for k l x
    by (rule decided_limits_nonneg [OF that]) (rule live_service [OF decided_users_live [OF e]])
  show "0 \<le> bc_maxDownloadMbps c" if c: "c \<in> set cs"
  proof -
    obtain a :: fairness_allocation where a: "bc_maxDownloadMbps c = to_fixed 3 (min_limit (fa_allocatedMbps a)
        (Option.bind (?limits (user_key (fa_customerId a) (fa_sessionId a))) sl_download))" "0 < fa_allocatedMbps a"
      by (rule command_of_allocation [OF c [unfolded cs]]) (rule that; assumption)
    have "0 \<le> min_limit (fa_allocatedMbps a) (Option.bind (?limits k) sl_download)" for k
      using a(2) limits [of k] by (cases "?limits k") (auto simp: min_limit_def split: option.split)
    then show ?thesis by (simp only: a(1) to_fixed_nonneg)
  qed
  define inp where "inp = \<lparr> in_capacityMbps = fp_capacityMbps (ev_policy e), in_activeUsers = map fairness_user (ev_users e),
      in_activateThresholdPercent = Some (fp_activateThresholdPercent (ev_policy e)),
      in_aggressiveThresholdPercent = Some (fp_aggressiveThresholdPercent (ev_policy e)),
      in_recoveryThresholdPercent = Some (fp_recoveryThresholdPercent (ev_policy e)) \<rparr>"
  have state: "ev_state e = decide inp" using evaluation_of_users [OF e] busy mode_enabled unfolding inp_def by metis
  have "sum_list (map bc_maxDownloadMbps cs)
      \<le> max 0 (in_capacityMbps inp) + 1 / 1000000 + of_nat (length (filter has_demand (in_activeUsers inp))) / 2000"
    using engine.commands_within [OF busy [unfolded state], of router ratio targets ?limits] unfolding cs state by (simp only: length_allocations)
  also have "\<dots> \<le> max 0 (fp_capacityMbps (ev_policy e)) + 1 / 1000000 + of_nat (length (ev_users e)) / 2000"
    using length_filter_le [of has_demand "map fairness_user (ev_users e)"] by (simp add: inp_def divide_right_mono)
  finally show "sum_list (map bc_maxDownloadMbps cs) \<le> max 0 (fp_capacityMbps (ev_policy e)) + 1 / 1000000 + of_nat (length (ev_users e)) / 2000" .
qed

subsection \<open>The journal of enforcement events\<close>

lemma marks_keep_events [simp]:
  "enforcementEvents (mark_verified now t i v s) = enforcementEvents s" "enforcementEvents (mark_executed now t is v s) = enforcementEvents s"
  "enforcementEvents (mark_failed now t is m s) = enforcementEvents s" "enforcementEvents (mark_verification_failed now t i v s) = enforcementEvents s"
  "enforcementEvents (log_call d p ss s) = enforcementEvents s"
  by (simp_all add: mark_verified_def mark_executed_def mark_failed_def mark_verification_failed_def touch_commands_def log_call_def)

lemma settle_keeps_events: "settle_results now t ids results index n s = (e, s') \<Longrightarrow> enforcementEvents s' = enforcementEvents s"
proof (induction n arbitrary: index s e s')
  case 0
  then show ?case by simp
next
  case (Suc n)
  obtain s1 e1 where "settle_results now t ids results (index + 1) n s1 = (e1, s')" "enforcementEvents s1 = enforcementEvents s"
    using Suc.prems by (auto simp: Let_def split: option.splits if_splits prod.splits)
  then show ?case using Suc.IH by metis
qed

lemma settled_keeps_events: "apfst Inr (settle_results now t ids results index n s) = (r, s') \<Longrightarrow> enforcementEvents s' = enforcementEvents s"
  by (cases "settle_results now t ids results index n s") (auto dest: settle_keeps_events)

lemma fail_verifications_keep_events: "enforcementEvents (fail_verifications now t ids reason s) = enforcementEvents s"
proof -
  have "enforcementEvents (fold (\<lambda>i. mark_verification_failed now u i v) ids s) = enforcementEvents s" for u v
    by (induction ids arbitrary: s) simp_all
  then show ?thesis by (simp add: fail_verifications_def split: option.split)
qed

lemma execute_keeps_events: "execute_verified ads now cs creds p t ids s = (r, s') \<Longrightarrow> enforcementEvents s' = enforcementEvents s"
  unfolding execute_verified_def Let_def
  by (auto simp: fail_verifications_keep_events dest!: settled_keeps_events split: option.splits sum.splits prod.splits)

lemma queue_keeps_events: "queue_bandwidth_commands now t cs actor k s = (r, s') \<Longrightarrow> enforcementEvents s' = enforcementEvents s"
proof -
  have one: "enforcementEvents u' = enforcementEvents u" if "queue_bandwidth_command now t actor k c u = (q, u')" for c u q u'
    using that unfolding queue_bandwidth_command_def Let_def put_command_def by (auto split: option.splits if_splits)
  assume q: "queue_bandwidth_commands now t cs actor k s = (r, s')"
  obtain q u where m: "map_op (queue_bandwidth_command now t actor k) cs s = (q, u)" by fastforce
  have "enforcementEvents u = enforcementEvents s"
    by (rule map_op_invariant [where P = "\<lambda>u. enforcementEvents u = enforcementEvents s", OF _ refl m]) (simp add: one)
  then show ?thesis using q m by (auto simp: queue_bandwidth_commands_def ret_def transaction_def split: if_splits sum.splits)
qed

lemma apply_keeps_events: "apply_commands ads now cs creds p (Some t) k s = (r, s') \<Longrightarrow> enforcementEvents s' = enforcementEvents s"
  unfolding apply_commands_def
  by (auto simp: bind_op_def ret_def Let_def dest!: queue_keeps_events execute_keeps_events split: if_splits prod.splits sum.splits)

lemma enforce_events:
  assumes "enforce_evaluation env now tenant router e endpoint creds p policyGroup s = (r, s')"
  shows "case r of Inl _ \<Rightarrow> enforcementEvents s' = enforcementEvents s
    | Inr o1 \<Rightarrow> or_reason o1 = None \<and> (\<exists>v. enforcementEvents s' = enforcementEvents s @ [v] \<and> ee_tenant v = tenant \<and> ee_routerId v = router \<and>
        ee_error v = None \<and> ee_applied v = or_applied o1)"
proof -
  have run: "enforcementEvents s1 = enforcementEvents u"
    if "evaluate_and_apply ads now router pol us targets ratio creds p (Some tenant) k u = (q, s1)" for ads pol us targets ratio k u q s1
    using that unfolding evaluate_and_apply_def Let_def
    by (auto simp: bind_op_def ret_def dest!: apply_keeps_events split: prod.splits sum.splits)
  have same: "enforcementEvents s2 = enforcementEvents s1" if "reconcile_managed ads endpoint ks creds p policyGroup s1 = (q, s2)" for ads ks s1 s2 q
    using that by (auto simp: reconcile_managed_def split: option.splits)
  show ?thesis using assms unfolding enforce_evaluation_def Let_def
    by (auto simp: log_event_def insert_row_def dest!: run same split: prod.splits sum.splits)
qed

subsection \<open>Properties\<close>

text \<open>C2: the download rates that an evaluation enforces on a router add up to at most the capacity of its bandwidth profile, plus the
  tolerance of the engine and half a kilobit per user from rounding; every command is for this router and for the session of a customer
  that is active on it and whose service the policy decides to be active.\<close>

theorem enforced_rates_fit_the_router:
  assumes "evaluate_router env now tenant router True s = (Inr r, s')" and "or_enforced r = Some (res, mode, util)"
  shows "list_ex (\<lambda>p. bw_tenant p = tenant \<and> bw_routerId p = router \<and>
      sum_list (map bc_maxDownloadMbps (er_commands res)) \<le> max 0 (bw_capacityMbps p) + 1 / 1000000 + of_nat (br_users (or_base r)) / 2000)
      (bandwidthProfiles s) \<and>
    list_all (\<lambda>c. bc_routerId c = router \<and> (\<exists>u. live_user now tenant router s u \<and> bc_customerId c = tu_customerId u \<and>
      bc_sessionId c = Some (tu_sessionId u))) (er_commands res)"
proof -
  obtain e targets where e: "evaluation_of env now tenant router s = Inr e" "or_base r = ev_base e" "fd_mode (ev_state e) \<noteq> NORMAL"
    and sub: "subseq (er_commands res) (to_enforcement_commands router (fd_allocations (ev_state e)) (Fin (mean_upload_ratio (ev_users e)))
          targets (service_limits (map limited_user (ev_users e))))" (is "subseq _ ?cs")
    using enforced_by [OF assms(1)] assms(2) by metis
  obtain p where p: "p \<in> set (bandwidthProfiles s)" "bw_tenant p = tenant" "bw_routerId p = router" "fp_capacityMbps (ev_policy e) = bw_capacityMbps p"
    using evaluation_capacity [OF e(1)] by blast
  have users: "br_users (or_base r) = length (ev_users e)" using evaluation_of_users [OF e(1)] e(2) by simp
  have "sum_list (map bc_maxDownloadMbps (er_commands res)) \<le> sum_list (map bc_maxDownloadMbps ?cs)"
    by (rule sum_subseq [OF sub]) (rule decided_commands(1) [OF e(1,3) refl])
  also note decided_commands(2) [OF e(1,3) refl]
  finally have "sum_list (map bc_maxDownloadMbps (er_commands res)) \<le> max 0 (bw_capacityMbps p) + 1 / 1000000 + of_nat (br_users (or_base r)) / 2000"
    by (simp only: p(4) users)
  moreover have "bc_routerId c = router \<and> (\<exists>u. live_user now tenant router s u \<and> bc_customerId c = tu_customerId u \<and> bc_sessionId c = Some (tu_sessionId u))"
    if "c \<in> set (er_commands res)" for c
  proof -
    have "c \<in> set ?cs" using that subseq_elements [OF sub] by blast
    then obtain a where a: "a \<in> set (fd_allocations (ev_state e))" "bc_routerId c = router" "bc_customerId c = fa_customerId a" "bc_sessionId c = fa_sessionId a"
      using command_of_allocation by metis
    then obtain u where u: "u \<in> set (map fairness_user (ev_users e))" "fa_customerId a = au_customerId u" "fa_sessionId a = au_sessionId u"
      using allocated_user evaluation_of_users [OF e(1)] by metis
    then obtain v where "v \<in> set (ev_users e)" "u = fairness_user v" by auto
    then show ?thesis using a u decided_users_live [OF e(1)] by (auto simp: fairness_user_def)
  qed
  ultimately show ?thesis using p unfolding list_ex_iff list_all_iff by blast
qed

definition congested_session :: session where
  "congested_session = \<lparr> se_id = ''x'', se_tenant = ''t'', se_customerId = Some ''c'', se_routerId = Some ''r'', se_username = None,
     se_ipAddress = Some ''10.0.0.5'', se_macAddress = None, se_startedAt = 0, se_endedAt = None, se_bytesIn = 0, se_bytesOut = 0,
     se_status = S_ACTIVE, se_correlationId = None \<rparr>"

definition congested_sample :: "time \<Rightarrow> nat \<Rightarrow> traffic_sample" where
  "congested_sample moment n = \<lparr> ts_tenant = ''t'', ts_routerId = ''r'', ts_customerId = Some ''c'', ts_sessionId = Some ''x'',
     ts_bytesIn = n, ts_bytesOut = 0, ts_sampledAt = moment \<rparr>"

definition congested_router :: router where
  "congested_router = \<lparr> ro_tenant = ''t'', ro_id = ''r'', ro_locationId = None, ro_status = ''ONLINE'', ro_lastSeenAt = None, ro_activeUsers = 1,
     ro_enabled = True, ro_apiEndpoint = Some ''http://gw'', ro_protocol = Some MIKROTIK_REST, ro_managementEnabled = True,
     ro_credentialsEncrypted = None, ro_apiEnabled = True, ro_controllerEndpoint = None, ro_capabilities = JObj [], ro_syncError = None \<rparr>"

text \<open>A session that moves two kilobits a second on a router with room for one, under a purchase that runs.\<close>

definition congested_db :: db where
  "congested_db = empty_db\<lparr> next_id := 4, routers := [congested_router], sessions := [congested_session],
     bandwidthProfiles := [\<lparr> bw_tenant = ''t'', bw_routerId = ''r'', bw_capacityMbps = 1 / 1000, bw_activateThresholdPercent = 80,
       bw_aggressiveThresholdPercent = 90, bw_recoveryThresholdPercent = 60, bw_enabled = True \<rparr>],
     trafficSamples := [congested_sample 1000 0, congested_sample 2000 250] \<rparr>"

definition congested_adapter :: managed_adapter where
  "congested_adapter = \<lparr> ad_apply = (\<lambda>_ _ _. None),
     ad_verify = Some (\<lambda>_ cs _. Inr (map (\<lambda>_. \<lparr> ev_verified = True, ev_details = JNull \<rparr>) cs)), ad_disconnect = None,
     ad_verifyDisconnected = None, ma_clear = (\<lambda>_ _ _ _. Inr 0), ma_reconcile = (\<lambda>_ _ _ _ _. Inr 2) \<rparr>"

definition congested_env :: orchestrator_env where
  "congested_env = \<lparr> oe_adapters = (\<lambda>p. if p = MIKROTIK_REST then Some congested_adapter else None), oe_decrypt = Inr, oe_sampleMaxAge = None \<rparr>"

lemma congested_run:
  "case evaluate_router congested_env 3000 ''t'' ''r'' True congested_db of
     (Inr r, s') \<Rightarrow> (case or_enforced r of None \<Rightarrow> False | Some (res, mode, util) \<Rightarrow>
        map bc_maxDownloadMbps (er_commands res) = [1 / 1000] \<and> er_verifiedCommandIds res = [''5''] \<and> mode = AGGRESSIVE \<and> util = 200) \<and>
       map ee_commandCount (enforcementEvents s') = [1]
   | _ \<Rightarrow> False"
  by code_simp

lemma congested_result:
  obtains r s' res mode util where "evaluate_router congested_env 3000 ''t'' ''r'' True congested_db = (Inr r, s')" "or_enforced r = Some (res, mode, util)"
    "map bc_maxDownloadMbps (er_commands res) = [1 / 1000]" "mode = AGGRESSIVE" "util = 200" "map ee_commandCount (enforcementEvents s') = [1]"
proof -
  obtain q s' where q: "evaluate_router congested_env 3000 ''t'' ''r'' True congested_db = (q, s')" by fastforce
  then obtain r where r: "q = Inr r" using congested_run by (cases q) simp_all
  then obtain x where "or_enforced r = Some x" using congested_run q by (cases "or_enforced r") simp_all
  then show thesis using congested_run q r by (intro that [of r s' "fst x" "fst (snd x)" "snd (snd x)"]) (simp_all split: prod.splits)
qed

theorem enforced_rates_fit_the_router_witness:
  "case evaluate_router congested_env 3000 ''t'' ''r'' True congested_db of
     (Inr r, s') \<Rightarrow> (case or_enforced r of None \<Rightarrow> False | Some (res, mode, util) \<Rightarrow> map bc_maxDownloadMbps (er_commands res) = [1 / 1000] \<and>
       list_all (\<lambda>c. bc_routerId c = ''r'' \<and> (\<exists>u. live_user 3000 ''t'' ''r'' congested_db u \<and> bc_customerId c = tu_customerId u \<and>
         bc_sessionId c = Some (tu_sessionId u))) (er_commands res))
   | _ \<Rightarrow> False"
proof -
  obtain r s' res mode util where r: "evaluate_router congested_env 3000 ''t'' ''r'' True congested_db = (Inr r, s')" "or_enforced r = Some (res, mode, util)"
    "map bc_maxDownloadMbps (er_commands res) = [1 / 1000]" by (rule congested_result)
  show ?thesis using enforced_rates_fit_the_router [OF r(1,2)] r(3) by (simp add: r(1,2))
qed

text \<open>C3: a dry run changes nothing, whatever comes of it, and predicts the applied evaluation: where it throws, the applied evaluation throws
  the same and changes nothing, and where an applied evaluation returns, the dry run returns the same base. What is then enforced has the mode and
  the utilisation of the dry run, and every command of it is for an allocation of the dry run, and no faster than the allocated rate written
  with three decimals.\<close>

theorem dry_run_predicts_the_evaluation:
  "snd (evaluate_router env now tenant router False s) = s \<and>
   (case fst (evaluate_router env now tenant router False s) of
      Inl x \<Rightarrow> evaluate_router env now tenant router True s = (Inl x, s)
    | Inr d \<Rightarrow> or_reason d = Some ''DRY_RUN'' \<and> \<not> or_applied d \<and> or_enforced d = None \<and>
        (case fst (evaluate_router env now tenant router True s) of
           Inl _ \<Rightarrow> True
         | Inr r \<Rightarrow> or_base r = or_base d \<and>
             (case or_enforced r of None \<Rightarrow> True
              | Some (res, mode, util) \<Rightarrow> mode = br_mode (or_base d) \<and> util = br_utilizationPercent (or_base d) \<and>
                  list_all (\<lambda>c. list_ex (\<lambda>a. fa_customerId a = bc_customerId c \<and> fa_sessionId a = bc_sessionId c \<and>
                    bc_maxDownloadMbps c \<le> to_fixed 3 (fa_allocatedMbps a)) (br_allocations (or_base d))) (er_commands res))))"
proof (cases "evaluation_of env now tenant router s")
  case (Inl x)
  then show ?thesis by (simp add: evaluate_router_def)
next
  case (Inr e)
  have dry: "evaluate_router env now tenant router False s = (Inr (refused (ev_base e) ''DRY_RUN'' None), s)" by (simp add: evaluate_router_def Inr)
  show ?thesis
  proof (cases "fst (evaluate_router env now tenant router True s)")
    case (Inl x)
    then show ?thesis by (simp add: dry refused_def)
  next
    case run: (Inr r)
    then have "evaluate_router env now tenant router True s = (Inr r, snd (evaluate_router env now tenant router True s))" by (metis prod.collapse)
    then obtain e1 where e1: "evaluation_of env now tenant router s = Inr e1" "or_base r = ev_base e1"
      "\<And>res mode util. or_enforced r = Some (res, mode, util) \<Longrightarrow> fd_mode (ev_state e1) \<noteq> NORMAL \<and> mode = fd_mode (ev_state e1) \<and>
       util = to_fixed 3 (fd_utilizationPercent (ev_state e1)) \<and>
       (\<exists>targets. subseq (er_commands res) (to_enforcement_commands router (fd_allocations (ev_state e1)) (Fin (mean_upload_ratio (ev_users e1)))
          targets (service_limits (map limited_user (ev_users e1)))))"
      by (rule enforced_by) blast
    have e: "e1 = e" using e1(1) Inr by simp
    have command: "list_ex (\<lambda>a. fa_customerId a = bc_customerId c \<and> fa_sessionId a = bc_sessionId c \<and> bc_maxDownloadMbps c \<le> to_fixed 3 (fa_allocatedMbps a))
        (br_allocations (ev_base e))"
      if enforced: "or_enforced r = Some (res, mode, util)" and c: "c \<in> set (er_commands res)" for res mode util c
    proof -
      obtain targets where "subseq (er_commands res) (to_enforcement_commands router (fd_allocations (ev_state e)) (Fin (mean_upload_ratio (ev_users e)))
          targets (service_limits (map limited_user (ev_users e))))" using e1(3) [OF enforced] unfolding e by blast
      then have "c \<in> set (to_enforcement_commands router (fd_allocations (ev_state e)) (Fin (mean_upload_ratio (ev_users e)))
          targets (service_limits (map limited_user (ev_users e))))" using c subseq_elements by blast
      then obtain a where "a \<in> set (fd_allocations (ev_state e))" "bc_customerId c = fa_customerId a" "bc_sessionId c = fa_sessionId a"
        "bc_maxDownloadMbps c \<le> to_fixed 3 (fa_allocatedMbps a)" using rate_of_allocation by blast
      then show ?thesis using evaluation_of_users [OF Inr] unfolding list_ex_iff by (intro bexI [of _ a]) simp_all
    qed
    have "case or_enforced r of None \<Rightarrow> True
      | Some (res, mode, util) \<Rightarrow> mode = br_mode (ev_base e) \<and> util = br_utilizationPercent (ev_base e) \<and>
          list_all (\<lambda>c. list_ex (\<lambda>a. fa_customerId a = bc_customerId c \<and> fa_sessionId a = bc_sessionId c \<and>
            bc_maxDownloadMbps c \<le> to_fixed 3 (fa_allocatedMbps a)) (br_allocations (ev_base e))) (er_commands res)"
    proof (cases "or_enforced r")
      case (Some x)
      obtain res mode util where x: "x = (res, mode, util)" by (cases x)
      have "mode = br_mode (ev_base e) \<and> util = br_utilizationPercent (ev_base e)"
        using e1(3) [OF Some [unfolded x]] evaluation_of_users [OF Inr] unfolding e by simp
      then show ?thesis using command [OF Some [unfolded x]] by (simp add: Some x list_all_iff)
    qed simp
    then show ?thesis using e1(2) by (cases "or_enforced r") (auto simp: dry refused_def run e)
  qed
qed

theorem dry_run_predicts_the_evaluation_witness:
  "case evaluate_router congested_env 3000 ''t'' ''r'' False congested_db of
     (Inr d, s') \<Rightarrow> s' = congested_db \<and> or_reason d = Some ''DRY_RUN'' \<and> br_mode (or_base d) = AGGRESSIVE \<and> br_utilizationPercent (or_base d) = 200 \<and>
       (\<exists>a \<in> set (br_allocations (or_base d)). 1 / 1000 \<le> to_fixed 3 (fa_allocatedMbps a))
   | _ \<Rightarrow> False"
proof -
  obtain r s' res mode util where r: "evaluate_router congested_env 3000 ''t'' ''r'' True congested_db = (Inr r, s')" "or_enforced r = Some (res, mode, util)"
    "map bc_maxDownloadMbps (er_commands res) = [1 / 1000]" "mode = AGGRESSIVE" "util = 200" by (rule congested_result)
  then obtain c where c: "er_commands res = [c]" "bc_maxDownloadMbps c = 1 / 1000" by (auto simp: map_eq_Cons_conv)
  obtain q u where dry: "evaluate_router congested_env 3000 ''t'' ''r'' False congested_db = (q, u)" by fastforce
  show ?thesis using dry_run_predicts_the_evaluation [of congested_env 3000 "''t''" "''r''" congested_db] r(4,5) c
    by (cases q) (auto simp: dry r(1,2) list_ex_iff)
qed

text \<open>C26: an evaluation either leaves the journal of enforcement events alone or adds one event of its router: an evaluation with a reason
  for not enforcing changes nothing at all, one that enforces or clears adds an event without error that says whether it was applied, and one that
  fails changes nothing, or leaves only the call to the device that did not clear, or adds an event that was not applied and carries the first
  1000 characters of the error it throws.\<close>

theorem evaluations_leave_their_event:
  assumes "evaluate_router env now tenant router apply s = (r, s')"
  shows "case r of
      Inl x \<Rightarrow> s' = s \<or> (\<exists>p. s' = log_call Dev_clear p [] s) \<or>
        (\<exists>v. enforcementEvents s' = enforcementEvents s @ [v] \<and> ee_tenant v = tenant \<and> ee_routerId v = router \<and>
        \<not> ee_applied v \<and> ee_error v = Some (take 1000 (exn_message x)))
    | Inr res \<Rightarrow> if or_reason res \<noteq> None then s' = s
        else \<exists>v. enforcementEvents s' = enforcementEvents s @ [v] \<and> ee_tenant v = tenant \<and> ee_routerId v = router \<and>
          ee_error v = None \<and> ee_applied v = or_applied res"
proof (cases "evaluation_of env now tenant router s")
  case (Inl x)
  then show ?thesis using assms by (auto simp: evaluate_router_def)
next
  case (Inr e)
  consider reason p where "r = Inr (refused (ev_base e) reason p)" "s' = s" | p where "apply_evaluation env now tenant router e p s = (r, s')"
    using assms Inr unfolding evaluate_router_def Let_def by (auto split: if_splits option.splits)
  then show ?thesis
  proof cases
    case 1
    then show ?thesis by (simp add: refused_def)
  next
    case 2
    consider x where "r = Inl x" "s' = s" | "r = Inr (refused (ev_base e) ''NO_ACTIVE_SERVICES'' None)" "s' = s"
      | endpoint creds policyGroup where "clear_router env tenant router e endpoint creds p policyGroup s = (r, s')"
      | endpoint creds policyGroup q s1 where "enforce_evaluation env now tenant router e endpoint creds p policyGroup s = (q, s1)"
          "(r, s') = (case q of Inl x \<Rightarrow> log_failure tenant router e x s1 | Inr o1 \<Rightarrow> (Inr o1, s1))"
    proof (cases "connection_of env (ev_router e) p")
      case (Inl x)
      then show thesis using 2 by (intro that(1)) (auto simp: apply_evaluation_def)
    next
      case (Inr con)
      obtain endpoint creds policyGroup where con: "con = (endpoint, creds, policyGroup)" by (cases con)
      note run = 2 [unfolded apply_evaluation_def Inr con sum.case prod.case]
      show thesis
      proof (cases "fd_mode (ev_state e) = NORMAL")
        case True
        then show thesis using run by (intro that(3)) simp
      next
        case busy: False
        obtain q s1 where q: "enforce_evaluation env now tenant router e endpoint creds p policyGroup s = (q, s1)" by fastforce
        show thesis
        proof (cases "ev_users e = []")
          case True
          then show thesis using run busy that(2) by simp
        next
          case False
          then have "(r, s') = (case q of Inl x \<Rightarrow> log_failure tenant router e x s1 | Inr o1 \<Rightarrow> (Inr o1, s1))"
            using run busy unfolding if_not_P [OF False] q prod.case by (auto split: sum.splits)
          then show thesis by (rule that(4) [OF q])
        qed
      qed
    qed
    then show ?thesis
    proof cases
      case 3
      then show ?thesis
        by (auto simp: clear_router_def clear_managed_def log_event_def insert_row_def split: sum.splits prod.splits option.splits)
    next
      case 4
      then show ?thesis using enforce_events [OF 4(1)] by (auto simp: log_failure_def log_event_def insert_row_def split: sum.splits)
    qed (simp_all add: refused_def)
  qed
qed

theorem evaluations_leave_their_event_witness:
  "case evaluate_router congested_env 3000 ''t'' ''r'' True congested_db of
     (Inr r, s') \<Rightarrow> map (\<lambda>v. (ee_tenant v, ee_routerId v, ee_error v)) (enforcementEvents s') = [(''t'', ''r'', None)]
   | _ \<Rightarrow> False"
proof -
  obtain r s' res mode util where r: "evaluate_router congested_env 3000 ''t'' ''r'' True congested_db = (Inr r, s')" "or_enforced r = Some (res, mode, util)"
    "map ee_commandCount (enforcementEvents s') = [1]" by (rule congested_result)
  have none: "enforcementEvents congested_db = []" by (simp add: congested_db_def empty_db_def)
  then have "or_reason r = None" using evaluations_leave_their_event [OF r(1)] r(3) by (cases "or_reason r") simp_all
  then show ?thesis using evaluations_leave_their_event [OF r(1)] none by (auto simp: r(1))
qed

text \<open>A customer without any purchase for the router is taken for active, with no limit in either direction: the fields of the outer join are
  then all missing, and the decision about the service reads that as a service without end and without limits.\<close>

theorem missing_service_counts_as_active:
  "service_on now tenant router customer s = None \<Longrightarrow>
     sd_state (service_decision_of now (service_on now tenant router customer s) used) = SP_ACTIVE \<and>
     sd_maxDownloadMbps (service_decision_of now (service_on now tenant router customer s) used) = PosInf"
  by (simp add: service_decision_of_def resolve_service_policy_def bps_to_mbps_def)

text \<open>A purchase that names no router is preferred to one for this router, whatever their ends are.\<close>

theorem unspecific_purchases_come_first:
  "pu_routerId w = None \<Longrightarrow> pu_routerId v = Some router \<Longrightarrow> service_order w < service_order v"
  by (simp add: service_order_def less_prod_def)

end
