(* ===== verification/MikrotikRouting.thy ===== *)
theory MikrotikRouting
  imports UrlTexts LoadBalancing CommandWorker
begin

text \<open>
  The routes of a RouterOS device (\<open>modules/traffic/mikrotik-wan-routing.adapter.ts\<close>, \<open>load-balancing.adapter.ts\<close>): a decision for
  \<open>PRIMARY_SECONDARY\<close> becomes one default route per target, found again by its comment. A request to the device is a parameter that
  changes the state of the device; what the device documents about its table of routes is a hypothesis of the property.
\<close>

subsection \<open>Requests and routes\<close>

datatype http_method = M_GET | M_PATCH | M_PUT

text \<open>\<open>private request\<close>: an error is its code, \<open>NETWORK_ERROR\<close> when it has none.\<close>

type_synonym 'w request = "http_method \<Rightarrow> string \<Rightarrow> json option \<Rightarrow> 'w \<Rightarrow> (string + json) \<times> 'w"

record routing_target =
  rt_wanConnectionId :: string
  rt_interfaceName :: "string option"
  rt_gateway :: "string option"
  rt_weight :: rat
  rt_priority :: rat

text \<open>The fields of a route that the adapter reads: \<open>Number(route.distance)\<close>, and whether it is disabled.\<close>

record route_view =
  rv_id :: "json option"
  rv_comment :: "json option"
  rv_gateway :: "json option"
  rv_distance :: jsnum
  rv_disabled :: bool

record routing_result =
  ru_applied :: bool
  ru_verified :: bool
  ru_remoteState :: "route_view list option"
  ru_reason :: "string option"

definition read_distance :: "(rat \<Rightarrow> string) \<Rightarrow> json option \<Rightarrow> jsnum" where
  "read_distance show v = (case v of None \<Rightarrow> NaN | Some j \<Rightarrow> number_of show j)"

definition read_disabled :: "json option \<Rightarrow> bool" where
  "read_disabled v \<longleftrightarrow> v = Some (JBool True) \<or> v = Some (JStr ''true'')"

definition route_view :: "(rat \<Rightarrow> string) \<Rightarrow> json \<Rightarrow> route_view" where
  "route_view show r = \<lparr> rv_id = json_get r ''.id'', rv_comment = json_get r ''comment'', rv_gateway = json_get r ''gateway'',
     rv_distance = read_distance show (json_get r ''distance''), rv_disabled = read_disabled (json_get r ''disabled'') \<rparr>"

definition comment_prefix :: "string \<Rightarrow> string" where
  "comment_prefix policyId = ''jaslyn-net:lb:'' @ policyId @ '':''"

definition is_managed :: "string \<Rightarrow> route_view \<Rightarrow> bool" where
  "is_managed policyId v \<longleftrightarrow>
     (case rv_comment v of Some (JStr c) \<Rightarrow> take (length (comment_prefix policyId)) c = comment_prefix policyId | _ \<Rightarrow> False)"

definition table_of :: "json \<Rightarrow> json list" where
  "table_of data = (case data of JArr rs \<Rightarrow> filter (\<lambda>r. case r of JObj _ \<Rightarrow> True | _ \<Rightarrow> False) rs | _ \<Rightarrow> [])"

definition find_managed_routes :: "(rat \<Rightarrow> string) \<Rightarrow> 'w request \<Rightarrow> string \<Rightarrow> ('w, route_view list) operation" where
  "find_managed_routes show req policyId w =
     (case req M_GET ''ip/route'' None w of
        (Inl e, w1) \<Rightarrow> (Inl (PlainError e), w1)
      | (Inr data, w1) \<Rightarrow> (Inr (filter (is_managed policyId) (map (route_view show) (table_of data))), w1))"

subsection \<open>Applying a decision\<close>

text \<open>A \<open>Map\<close>: a new value of a key keeps its place.\<close>

definition set_entry :: "'k \<Rightarrow> 'v \<Rightarrow> ('k \<times> 'v) list \<Rightarrow> ('k \<times> 'v) list" where
  "set_entry k v m = (if k \<in> fst ` set m then map (\<lambda>e. if fst e = k then (k, v) else e) m else m @ [(k, v)])"

definition wan_of :: "string \<Rightarrow> route_view \<Rightarrow> string" where
  "wan_of policyId v = (case rv_comment v of Some (JStr c) \<Rightarrow> drop (length (comment_prefix policyId)) c | _ \<Rightarrow> [])"

definition existing_by_wan :: "string \<Rightarrow> route_view list \<Rightarrow> (string \<times> json option) list" where
  "existing_by_wan policyId vs = foldl (\<lambda>m v. if wan_of policyId v = [] then m else set_entry (wan_of policyId v) (rv_id v) m) [] vs"

definition route_payload :: "string \<Rightarrow> string set \<Rightarrow> nat \<Rightarrow> routing_target \<Rightarrow> json" where
  "route_payload policyId eligible index t = jobject
     [(''dst-address'', Some (JStr ''0.0.0.0/0'')), (''gateway'', Some (or_null JStr (rt_gateway t))), (''distance'', Some (JNum (of_nat (max 1 (index + 1))))),
      (''check-gateway'', Some (JStr ''ping'')), (''disabled'', Some (JBool (rt_wanConnectionId t \<notin> eligible))),
      (''comment'', Some (JStr (comment_prefix policyId @ rt_wanConnectionId t)))]"

definition route_path :: "string \<Rightarrow> string" where
  "route_path i = ''ip/route/'' @ encode_uri_component i"

fun write_routes ::
  "'w request \<Rightarrow> string \<Rightarrow> string set \<Rightarrow> (string \<times> json option) list \<Rightarrow> (nat \<times> routing_target) list \<Rightarrow> ('w, unit) operation" where
  "write_routes req policyId eligible existing [] w = (Inr (), w)"
| "write_routes req policyId eligible existing ((index, t) # ts) w =
     (let payload = route_payload policyId eligible index t in
      case (case map_of existing (rt_wanConnectionId t) of
              Some (Some (JStr i)) \<Rightarrow> req M_PATCH (route_path i) (Some payload) w
            | _ \<Rightarrow> req M_PUT ''ip/route'' (Some payload) w) of
        (Inl e, w1) \<Rightarrow> (Inl (PlainError e), w1)
      | (Inr _, w1) \<Rightarrow> write_routes req policyId eligible existing ts w1)"

definition disabling :: json where
  "disabling = jobject [(''disabled'', Some (JBool True))]"

fun disable_routes :: "'w request \<Rightarrow> string list \<Rightarrow> (string \<times> json option) list \<Rightarrow> ('w, unit) operation" where
  "disable_routes req kept [] w = (Inr (), w)"
| "disable_routes req kept ((wan, i) # es) w =
     (case i of
        Some (JStr n) \<Rightarrow>
          if wan \<in> set kept then disable_routes req kept es w
          else (case req M_PATCH (route_path n) (Some disabling) w of
                  (Inl e, w1) \<Rightarrow> (Inl (PlainError e), w1) | (Inr _, w1) \<Rightarrow> disable_routes req kept es w1)
      | _ \<Rightarrow> disable_routes req kept es w)"

text \<open>Whether the first route with the comment of a target is the one the decision asks for\<close>

definition route_matches :: "string \<Rightarrow> string set \<Rightarrow> route_view list \<Rightarrow> nat \<times> routing_target \<Rightarrow> bool" where
  "route_matches policyId eligible vs p =
     (case p of (index, t) \<Rightarrow>
        (case find (\<lambda>v. rv_comment v = Some (JStr (comment_prefix policyId @ rt_wanConnectionId t))) vs of
           None \<Rightarrow> False
         | Some v \<Rightarrow> rv_gateway v = map_option JStr (rt_gateway t) \<and> rv_distance v = Fin (of_nat (max 1 (index + 1))) \<and>
             rv_disabled v = (rt_wanConnectionId t \<notin> eligible)))"

definition eligible_ids :: "load_balance_decision \<Rightarrow> string set" where
  "eligible_ids d = set (map em_wanConnectionId (ld_eligible d))"

text \<open>\<open>new Map\<close> of the targets keeps the last one of an identifier.\<close>

definition last_targets :: "(nat \<times> routing_target) list \<Rightarrow> (nat \<times> routing_target) list" where
  "last_targets ts = map snd (foldl (\<lambda>m p. set_entry (rt_wanConnectionId (snd p)) p m) [] ts)"

definition verify_routes :: "(rat \<Rightarrow> string) \<Rightarrow> 'w request \<Rightarrow> load_balance_decision \<Rightarrow> routing_target list \<Rightarrow> ('w, routing_result) operation" where
  "verify_routes show req d targets w =
     (if ld_strategy d \<noteq> ''PRIMARY_SECONDARY''
      then (Inr \<lparr> ru_applied = False, ru_verified = False, ru_remoteState = None, ru_reason = Some ''Only PRIMARY_SECONDARY verification is implemented for MikroTik.'' \<rparr>, w)
      else (case find_managed_routes show req (ld_policyId d) w of
              (Inl e, w1) \<Rightarrow> (Inl e, w1)
            | (Inr vs, w1) \<Rightarrow>
                (let verified = list_all (route_matches (ld_policyId d) (eligible_ids d) vs) (last_targets (enumerate 0 targets))
                 in (Inr \<lparr> ru_applied = True, ru_verified = verified, ru_remoteState = Some vs,
                      ru_reason = (if verified then None else Some ''Managed RouterOS routes do not match the requested primary/secondary decision.'') \<rparr>, w1))))"

definition apply_routes :: "(rat \<Rightarrow> string) \<Rightarrow> 'w request \<Rightarrow> load_balance_decision \<Rightarrow> routing_target list \<Rightarrow> ('w, routing_result) operation" where
  "apply_routes show req d targets w =
     (if ld_strategy d \<noteq> ''PRIMARY_SECONDARY''
      then (Inr \<lparr> ru_applied = False, ru_verified = False, ru_remoteState = None, ru_reason = Some (''MikroTik adapter currently supports verified PRIMARY_SECONDARY route failover only;''
              @ '' weighted/PCC distribution requires explicit routing-policy configuration.'') \<rparr>, w)
      else (let ordered = sort_key rt_priority targets in
        if ordered = [] then (Inl (BadRequest ''At least one WAN routing target is required''), w)
        else if list_ex (\<lambda>t. rt_gateway t = None \<or> rt_gateway t = Some []) ordered
        then (Inl (BadRequest ''PRIMARY_SECONDARY MikroTik routing requires a gateway for every target''), w)
        else (case find_managed_routes show req (ld_policyId d) w of
                (Inl e, w1) \<Rightarrow> (Inl e, w1)
              | (Inr vs, w1) \<Rightarrow>
                  (let existing = existing_by_wan (ld_policyId d) vs in
                   case write_routes req (ld_policyId d) (eligible_ids d) existing (enumerate 0 ordered) w1 of
                     (Inl e, w2) \<Rightarrow> (Inl e, w2)
                   | (Inr _, w2) \<Rightarrow>
                       (case disable_routes req (map rt_wanConnectionId ordered) existing w2 of
                          (Inl e, w3) \<Rightarrow> (Inl e, w3)
                        | (Inr _, w3) \<Rightarrow> verify_routes show req d ordered w3)))))"

subsection \<open>What the device documents\<close>

text \<open>The fields of a body replace those of a route.\<close>

definition merged :: "(rat \<Rightarrow> string) \<Rightarrow> json \<Rightarrow> route_view \<Rightarrow> route_view" where
  "merged show body v = v\<lparr> rv_comment := or_else (json_get body ''comment'') (rv_comment v), rv_gateway := or_else (json_get body ''gateway'') (rv_gateway v),
     rv_distance := (case json_get body ''distance'' of None \<Rightarrow> rv_distance v | Some j \<Rightarrow> read_distance show (Some j)),
     rv_disabled := (case json_get body ''disabled'' of None \<Rightarrow> rv_disabled v | Some j \<Rightarrow> read_disabled (Some j)) \<rparr>"

definition new_view :: "string \<Rightarrow> route_view" where
  "new_view i = \<lparr> rv_id = Some (JStr i), rv_comment = None, rv_gateway = None, rv_distance = NaN, rv_disabled = False \<rparr>"

text \<open>
  A device that answers and keeps a table of routes: \<open>GET\<close> reads it, \<open>PUT\<close> adds a route with an identifier of its own, and \<open>PATCH\<close> on the path
  of an identifier in the table changes that route.
\<close>

definition route_table :: "(rat \<Rightarrow> string) \<Rightarrow> 'w request \<Rightarrow> ('w \<Rightarrow> json list) \<Rightarrow> bool" where
  "route_table show req rows \<longleftrightarrow>
     (\<forall>w. req M_GET ''ip/route'' None w = (Inr (JArr (rows w)), w)) \<and>
     (\<forall>w body. \<exists>x w' r i. req M_PUT ''ip/route'' (Some body) w = (Inr x, w') \<and> rows w' = rows w @ [JObj r] \<and>
        route_view show (JObj r) = merged show body (new_view i) \<and> (\<forall>q\<in>set (rows w). json_get q ''.id'' \<noteq> Some (JStr i))) \<and>
     (\<forall>w body i. (\<exists>r\<in>set (rows w). json_get r ''.id'' = Some (JStr i)) \<longrightarrow>
        (\<exists>x w' f. req M_PATCH (route_path i) (Some body) w = (Inr x, w') \<and>
           rows w' = map (\<lambda>r. if json_get r ''.id'' = Some (JStr i) then JObj (f r) else r) (rows w) \<and>
           (\<forall>r\<in>set (rows w). route_view show (JObj (f r)) = merged show body (route_view show r))))"

text \<open>The views of a table, the routes with a comment, and tables whose routes have identifiers of their own\<close>

definition views :: "(rat \<Rightarrow> string) \<Rightarrow> json list \<Rightarrow> route_view list" where
  "views show rs = map (route_view show) rs"

definition commented :: "string \<Rightarrow> route_view list \<Rightarrow> route_view list" where
  "commented c vs = filter (\<lambda>v. rv_comment v = Some (JStr c)) vs"

definition identified :: "route_view list \<Rightarrow> bool" where
  "identified vs \<longleftrightarrow> distinct (map rv_id vs) \<and> list_all (\<lambda>i. case i of Some (JStr _) \<Rightarrow> True | _ \<Rightarrow> False) (map rv_id vs)"

lemma view_id [simp]: "rv_id (route_view show r) = json_get r ''.id''"
  by (simp add: route_view_def)

lemma merged_id [simp]: "rv_id (merged show body v) = rv_id v"
  by (simp add: merged_def)

lemma managed_comment: "rv_comment v = Some (JStr (comment_prefix policyId @ wan)) \<Longrightarrow> is_managed policyId v"
  by (simp add: is_managed_def)

text \<open>The routes that are not of the policy, as the device holds them\<close>

definition foreign :: "(rat \<Rightarrow> string) \<Rightarrow> string \<Rightarrow> json list \<Rightarrow> json list" where
  "foreign show policyId rs = filter (\<lambda>r. \<not> is_managed policyId (route_view show r)) rs"

lemma foreign_map:
  "(\<And>r. r \<in> set rs \<Longrightarrow> g r = r \<or> is_managed policyId (route_view show r) \<and> is_managed policyId (route_view show (g r))) \<Longrightarrow>
     foreign show policyId (map g rs) = foreign show policyId rs"
  by (induction rs) (fastforce simp: foreign_def)+

lemma put_route:
  assumes law: "route_table show req rows" and ids: "identified (views show (rows w))"
  obtains x w' i where "req M_PUT ''ip/route'' (Some body) w = (Inr x, w')" "views show (rows w') = views show (rows w) @ [merged show body (new_view i)]"
    "identified (views show (rows w'))"
    "\<And>p. is_managed p (merged show body (new_view i)) \<Longrightarrow> foreign show p (rows w') = foreign show p (rows w)"
proof -
  obtain x w' r i where put: "req M_PUT ''ip/route'' (Some body) w = (Inr x, w')" "rows w' = rows w @ [JObj r]"
      "route_view show (JObj r) = merged show body (new_view i)" "\<forall>q\<in>set (rows w). json_get q ''.id'' \<noteq> Some (JStr i)"
    using law unfolding route_table_def by blast
  have vs: "views show (rows w') = views show (rows w) @ [merged show body (new_view i)]" by (simp add: put(2,3) views_def)
  have "rv_id (merged show body (new_view i)) = Some (JStr i)" by (simp add: new_view_def)
  then have "identified (views show (rows w'))" using ids put(4) unfolding vs identified_def by (auto simp: views_def)
  moreover have "foreign show p (rows w') = foreign show p (rows w)" if "is_managed p (merged show body (new_view i))" for p
    using that by (simp add: foreign_def put(2,3))
  ultimately show thesis using that put(1) vs by blast
qed

lemma patch_route:
  assumes law: "route_table show req rows" and ids: "identified (views show (rows w))"
    and v0: "v0 \<in> set (views show (rows w))" "rv_id v0 = Some (JStr i)"
  obtains x w' where "req M_PATCH (route_path i) (Some body) w = (Inr x, w')"
    "views show (rows w') = map (\<lambda>v. if v = v0 then merged show body v else v) (views show (rows w))" "identified (views show (rows w'))"
    "\<And>p. is_managed p v0 \<Longrightarrow> is_managed p (merged show body v0) \<Longrightarrow> foreign show p (rows w') = foreign show p (rows w)"
proof -
  have "\<exists>r\<in>set (rows w). json_get r ''.id'' = Some (JStr i)" using v0 by (auto simp: views_def)
  then obtain x w' f where patch: "req M_PATCH (route_path i) (Some body) w = (Inr x, w')"
      "rows w' = map (\<lambda>r. if json_get r ''.id'' = Some (JStr i) then JObj (f r) else r) (rows w)"
      "\<forall>r\<in>set (rows w). route_view show (JObj (f r)) = merged show body (route_view show r)"
    using law unfolding route_table_def by blast
  have same: "json_get r ''.id'' = Some (JStr i) \<longleftrightarrow> route_view show r = v0" if "r \<in> set (rows w)" for r
  proof
    assume "json_get r ''.id'' = Some (JStr i)"
    then have "rv_id (route_view show r) = rv_id v0" using v0(2) by simp
    moreover have "route_view show r \<in> set (views show (rows w))" using that by (simp add: views_def)
    ultimately show "route_view show r = v0" using ids v0(1) unfolding identified_def by (metis distinct_key_unique)
  next
    assume "route_view show r = v0"
    then show "json_get r ''.id'' = Some (JStr i)" using v0(2) by (metis view_id)
  qed
  have vs: "views show (rows w') = map (\<lambda>v. if v = v0 then merged show body v else v) (views show (rows w))"
    using same patch(3) by (simp add: patch(2) views_def)
  have "map rv_id (views show (rows w')) = map rv_id (views show (rows w))" unfolding vs by simp
  then have "identified (views show (rows w'))" using ids by (simp only: identified_def)
  moreover have "foreign show p (rows w') = foreign show p (rows w)" if "is_managed p v0" "is_managed p (merged show body v0)" for p
    unfolding patch(2) by (rule foreign_map) (use that same patch(3) in auto)
  ultimately show thesis using that patch(1) vs by blast
qed

lemma commented_append: "commented c (vs @ [v]) = commented c vs @ (if rv_comment v = Some (JStr c) then [v] else [])"
  by (simp add: commented_def)

lemma commented_patched:
  assumes "rv_comment (f v0) = rv_comment v0"
  shows "commented c (map (\<lambda>v. if v = v0 then f v else v) vs) = map (\<lambda>v. if v = v0 then f v else v) (commented c vs)"
  using assms by (induction vs) (auto simp: commented_def)

lemma commented_in: "commented c vs = [v] \<Longrightarrow> v \<in> set vs \<and> rv_comment v = Some (JStr c)"
proof -
  assume "commented c vs = [v]"
  then have "v \<in> set (commented c vs)" by simp
  then show ?thesis by (simp add: commented_def)
qed

lemma commented_other:
  assumes "rv_comment v0 = Some (JStr c)" and "rv_comment (f v0) = rv_comment v0" and "d \<noteq> c"
  shows "commented d (map (\<lambda>v. if v = v0 then f v else v) vs) = commented d vs"
  unfolding commented_patched [where f = f, OF assms(2)] using assms(1,3) by (auto simp: commented_def intro!: map_idI)

subsection \<open>The routes of the targets\<close>

definition route_comment :: "string \<Rightarrow> routing_target \<Rightarrow> string" where
  "route_comment policyId t = comment_prefix policyId @ rt_wanConnectionId t"

text \<open>What the decision wants of the route of a target\<close>

definition wanted :: "string set \<Rightarrow> nat \<times> routing_target \<Rightarrow> route_view \<Rightarrow> bool" where
  "wanted eligible p v \<longleftrightarrow> rv_gateway v = map_option JStr (rt_gateway (snd p)) \<and> rv_distance v = Fin (of_nat (max 1 (fst p + 1))) \<and>
     rv_disabled v = (rt_wanConnectionId (snd p) \<notin> eligible)"

lemma payload_fields:
  "json_get (route_payload policyId eligible index t) ''comment'' = Some (JStr (route_comment policyId t))"
  "json_get (route_payload policyId eligible index t) ''gateway'' = Some (or_null JStr (rt_gateway t))"
  "json_get (route_payload policyId eligible index t) ''distance'' = Some (JNum (of_nat (max 1 (index + 1))))"
  "json_get (route_payload policyId eligible index t) ''disabled'' = Some (JBool (rt_wanConnectionId t \<notin> eligible))"
  by (simp_all add: route_payload_def json_get_def jobject_def route_comment_def)

lemma merged_payload:
  assumes "rt_gateway t \<noteq> None"
  shows "rv_comment (merged show (route_payload policyId eligible index t) v) = Some (JStr (route_comment policyId t))"
    and "wanted eligible (index, t) (merged show (route_payload policyId eligible index t) v)"
  using assms by (auto simp: merged_def payload_fields or_else_def wanted_def read_distance_def number_of_def read_disabled_def or_null_def)

text \<open>What the loop may rely on: a target is new, or its one route is known by its identifier.\<close>

definition known :: "string \<Rightarrow> (string \<times> json option) list \<Rightarrow> route_view list \<Rightarrow> routing_target \<Rightarrow> bool" where
  "known policyId existing vs t \<longleftrightarrow>
     (map_of existing (rt_wanConnectionId t) = None \<and> commented (route_comment policyId t) vs = []) \<or>
     (\<exists>v i. map_of existing (rt_wanConnectionId t) = Some (Some (JStr i)) \<and> commented (route_comment policyId t) vs = [v] \<and> rv_id v = Some (JStr i))"

lemma write_one:
  assumes law: "route_table show req rows" and ids: "identified (views show (rows w))" and k: "known policyId existing (views show (rows w)) t"
    and g: "rt_gateway t \<noteq> None"
  obtains x w' v where
    "(case map_of existing (rt_wanConnectionId t) of
        Some (Some (JStr i)) \<Rightarrow> req M_PATCH (route_path i) (Some (route_payload policyId eligible index t)) w
      | _ \<Rightarrow> req M_PUT ''ip/route'' (Some (route_payload policyId eligible index t)) w) = (Inr x, w')"
    "identified (views show (rows w'))" "commented (route_comment policyId t) (views show (rows w')) = [v]" "wanted eligible (index, t) v"
    "\<forall>c. c \<noteq> route_comment policyId t \<longrightarrow> commented c (views show (rows w')) = commented c (views show (rows w))"
    "foreign show policyId (rows w') = foreign show policyId (rows w)"
proof -
  have managed: "is_managed policyId (merged show (route_payload policyId eligible index t) v)" for v
    using managed_comment merged_payload(1) [OF g] unfolding route_comment_def by blast
  let ?body = "route_payload policyId eligible index t" and ?vs = "views show (rows w)"
  consider "map_of existing (rt_wanConnectionId t) = None" "commented (route_comment policyId t) ?vs = []"
    | v i where "map_of existing (rt_wanConnectionId t) = Some (Some (JStr i))" "commented (route_comment policyId t) ?vs = [v]" "rv_id v = Some (JStr i)"
    using k unfolding known_def by (elim disjE exE conjE) auto
  then show thesis
  proof cases
    case 1
    obtain x w' i where put: "req M_PUT ''ip/route'' (Some ?body) w = (Inr x, w')" "views show (rows w') = ?vs @ [merged show ?body (new_view i)]"
      "identified (views show (rows w'))"
      "\<And>p. is_managed p (merged show ?body (new_view i)) \<Longrightarrow> foreign show p (rows w') = foreign show p (rows w)" by (rule put_route [OF law ids]) blast
    show thesis
      by (rule that [of x w' "merged show ?body (new_view i)"])
        (use 1 put(1-3) put(4) [OF managed] merged_payload [OF g] in \<open>simp_all add: commented_append\<close>)
  next
    case 2
    have v: "v \<in> set ?vs" "rv_comment v = Some (JStr (route_comment policyId t))" using commented_in [OF 2(2)] by simp_all
    obtain x w' where patch: "req M_PATCH (route_path i) (Some ?body) w = (Inr x, w')"
      "views show (rows w') = map (\<lambda>u. if u = v then merged show ?body u else u) ?vs" "identified (views show (rows w'))"
      "\<And>p. is_managed p v \<Longrightarrow> is_managed p (merged show ?body v) \<Longrightarrow> foreign show p (rows w') = foreign show p (rows w)"
      by (rule patch_route [OF law ids v(1) 2(3)]) blast
    have old: "is_managed policyId v" using v(2) managed_comment unfolding route_comment_def by blast
    have keep: "rv_comment (merged show ?body v) = rv_comment v" using merged_payload(1) [OF g] v(2) by simp
    show thesis
      by (rule that [of x w' "merged show ?body v"])
        (use 2 patch(1-3) patch(4) [OF old managed] merged_payload [OF g]
          commented_patched [where f = "merged show ?body", OF keep, of "route_comment policyId t" ?vs]
          commented_other [where f = "merged show ?body", OF v(2) keep, where vs = ?vs] in simp_all)
  qed
qed

lemma member_differs: "x \<in> S \<Longrightarrow> y \<notin> S \<Longrightarrow> x \<noteq> y"
  by blast

lemma write_routes_effect:
  assumes "route_table show req rows" and "identified (views show (rows w))" and "distinct (map (\<lambda>p. rt_wanConnectionId (snd p)) ts)"
    and "\<And>p. p \<in> set ts \<Longrightarrow> known policyId existing (views show (rows w)) (snd p) \<and> rt_gateway (snd p) \<noteq> None"
  shows "\<exists>w'. write_routes req policyId eligible existing ts w = (Inr (), w') \<and> identified (views show (rows w')) \<and>
    (\<forall>p\<in>set ts. \<exists>v. commented (route_comment policyId (snd p)) (views show (rows w')) = [v] \<and> wanted eligible p v) \<and>
    (\<forall>c. c \<notin> (\<lambda>p. route_comment policyId (snd p)) ` set ts \<longrightarrow> commented c (views show (rows w')) = commented c (views show (rows w))) \<and>
    foreign show policyId (rows w') = foreign show policyId (rows w)"
  using assms(2-4)
proof (induction ts arbitrary: w)
  case Nil
  then show ?case by simp
next
  case (Cons p ts)
  obtain index t where p: "p = (index, t)" by (cases p)
  have t: "known policyId existing (views show (rows w)) t" "rt_gateway t \<noteq> None" using Cons.prems(3) [of p] p by simp_all
  obtain x w1 v where one: "(case map_of existing (rt_wanConnectionId t) of
        Some (Some (JStr i)) \<Rightarrow> req M_PATCH (route_path i) (Some (route_payload policyId eligible index t)) w
      | _ \<Rightarrow> req M_PUT ''ip/route'' (Some (route_payload policyId eligible index t)) w) = (Inr x, w1)"
    "identified (views show (rows w1))" "commented (route_comment policyId t) (views show (rows w1)) = [v]" "wanted eligible (index, t) v"
    "\<forall>c. c \<noteq> route_comment policyId t \<longrightarrow> commented c (views show (rows w1)) = commented c (views show (rows w))"
    "foreign show policyId (rows w1) = foreign show policyId (rows w)"
    by (rule write_one [OF assms(1) Cons.prems(1) t, where eligible = eligible and index = index])
  have others: "route_comment policyId (snd q) \<noteq> route_comment policyId t" if "q \<in> set ts" for q
  proof -
    have "rt_wanConnectionId (snd q) \<in> set (map (\<lambda>p. rt_wanConnectionId (snd p)) ts)" using that by simp
    moreover have "rt_wanConnectionId t \<notin> set (map (\<lambda>p. rt_wanConnectionId (snd p)) ts)"
      using Cons.prems(2) by (simp add: p)
    ultimately have "rt_wanConnectionId (snd q) \<noteq> rt_wanConnectionId t" by (rule member_differs)
    then show ?thesis by (simp add: route_comment_def)
  qed
  have "known policyId existing (views show (rows w1)) (snd q) \<and> rt_gateway (snd q) \<noteq> None" if "q \<in> set ts" for q
    using Cons.prems(3) [of q] that others [OF that] one(5) by (simp add: known_def)
  from Cons.IH [OF one(2) _ this] Cons.prems(2) obtain w' where rest: "write_routes req policyId eligible existing ts w1 = (Inr (), w')"
      "identified (views show (rows w'))"
      "\<forall>p\<in>set ts. \<exists>v. commented (route_comment policyId (snd p)) (views show (rows w')) = [v] \<and> wanted eligible p v"
      "\<forall>c. c \<notin> (\<lambda>p. route_comment policyId (snd p)) ` set ts \<longrightarrow> commented c (views show (rows w')) = commented c (views show (rows w1))"
      "foreign show policyId (rows w') = foreign show policyId (rows w1)"
    by auto
  have "route_comment policyId t \<notin> (\<lambda>p. route_comment policyId (snd p)) ` set ts"
  proof
    assume "route_comment policyId t \<in> (\<lambda>p. route_comment policyId (snd p)) ` set ts"
    then obtain q where "q \<in> set ts" "route_comment policyId t = route_comment policyId (snd q)" by (elim imageE)
    then show False using others [of q] by simp
  qed
  then have "commented (route_comment policyId t) (views show (rows w')) = [v]" using rest(4) one(3) by simp
  moreover have "write_routes req policyId eligible existing (p # ts) w = (Inr (), w')" using rest(1) one(1) by (simp add: p Let_def)
  moreover have "commented c (views show (rows w')) = commented c (views show (rows w))"
    if "c \<notin> (\<lambda>p. route_comment policyId (snd p)) ` set (p # ts)" for c
    using that rest(4) one(5) p by simp
  ultimately show ?case using rest(2,3,5) one(4,6) p by (intro exI [of _ w']) simp
qed

lemma disable_routes_effect:
  assumes "route_table show req rows" and "identified (views show (rows w))" and "distinct (map fst es)"
    and "\<And>wan i. (wan, i) \<in> set es \<Longrightarrow> wan \<notin> set kept \<Longrightarrow> \<exists>v n. commented (comment_prefix policyId @ wan) (views show (rows w)) = [v] \<and> rv_id v = i \<and> i = Some (JStr n)"
  shows "\<exists>w'. disable_routes req kept es w = (Inr (), w') \<and> identified (views show (rows w')) \<and>
    (\<forall>wan\<in>fst ` set es. wan \<notin> set kept \<longrightarrow> (\<forall>v\<in>set (commented (comment_prefix policyId @ wan) (views show (rows w'))). rv_disabled v)) \<and>
    (\<forall>c. c \<notin> (\<lambda>wan. comment_prefix policyId @ wan) ` (fst ` set es - set kept) \<longrightarrow> commented c (views show (rows w')) = commented c (views show (rows w))) \<and>
    foreign show policyId (rows w') = foreign show policyId (rows w)"
  using assms(2-4)
proof (induction es arbitrary: w)
  case Nil
  then show ?case by simp
next
  case (Cons e es)
  obtain wan i where e: "e = (wan, i)" by (cases e)
  have fresh: "wan \<notin> fst ` set es" "distinct (map fst es)" using Cons.prems(2) e by simp_all
  let ?c = "comment_prefix policyId @ wan"
  show ?case
  proof (cases "wan \<in> set kept")
    case True
    have "disable_routes req kept (e # es) w = disable_routes req kept es w" using True by (simp add: e split: option.split json.split)
    then show ?thesis using Cons.IH [OF Cons.prems(1) fresh(2)] Cons.prems(3) True by (auto simp: e)
  next
    case False
    obtain v n where v: "commented ?c (views show (rows w)) = [v]" "rv_id v = i" "i = Some (JStr n)" using Cons.prems(3) [of wan i] False e by auto
    have at: "v \<in> set (views show (rows w))" "rv_comment v = Some (JStr ?c)" using commented_in [OF v(1)] by simp_all
    obtain x w1 where patch: "req M_PATCH (route_path n) (Some disabling) w = (Inr x, w1)"
      "views show (rows w1) = map (\<lambda>u. if u = v then merged show disabling u else u) (views show (rows w))" "identified (views show (rows w1))"
      "\<And>p. is_managed p v \<Longrightarrow> is_managed p (merged show disabling v) \<Longrightarrow> foreign show p (rows w1) = foreign show p (rows w)"
    proof (rule patch_route [OF assms(1) Cons.prems(1) at(1), of n disabling])
      show "rv_id v = Some (JStr n)" using v(2,3) by simp
    qed blast
    have keep: "rv_comment (merged show disabling v) = rv_comment v" "rv_disabled (merged show disabling v)"
      by (simp_all add: merged_def disabling_def json_get_def jobject_def or_else_def read_disabled_def)
    have mine: "foreign show policyId (rows w1) = foreign show policyId (rows w)"
      by (rule patch(4)) (use at(2) keep(1) managed_comment in simp_all)
    have here: "commented ?c (views show (rows w1)) = [merged show disabling v]"
      unfolding patch(2) commented_patched [where f = "merged show disabling", OF keep(1)] v(1) by simp
    have other: "commented d (views show (rows w1)) = commented d (views show (rows w))" if "d \<noteq> ?c" for d
      unfolding patch(2) by (rule commented_other [where f = "merged show disabling", OF at(2) keep(1) that])
    have later: "\<exists>v n. commented (comment_prefix policyId @ u) (views show (rows w1)) = [v] \<and> rv_id v = j \<and> j = Some (JStr n)"
      if "(u, j) \<in> set es" "u \<notin> set kept" for u j
    proof -
      have "u \<noteq> wan" using that(1) fresh(1) by force
      then show ?thesis using Cons.prems(3) [of u j] that other [of "comment_prefix policyId @ u"] by simp
    qed
    obtain w' where rest: "disable_routes req kept es w1 = (Inr (), w')" "identified (views show (rows w'))"
        "\<forall>wan\<in>fst ` set es. wan \<notin> set kept \<longrightarrow> (\<forall>v\<in>set (commented (comment_prefix policyId @ wan) (views show (rows w'))). rv_disabled v)"
        "\<forall>c. c \<notin> (\<lambda>wan. comment_prefix policyId @ wan) ` (fst ` set es - set kept) \<longrightarrow> commented c (views show (rows w')) = commented c (views show (rows w1))"
        "foreign show policyId (rows w') = foreign show policyId (rows w1)"
      using Cons.IH [of w1, OF patch(3) fresh(2) later] by blast
    have run: "disable_routes req kept (e # es) w = (Inr (), w')" using rest(1) patch(1) False by (simp add: e v(3))
    have "commented ?c (views show (rows w')) = [merged show disabling v]"
    proof -
      have "?c \<notin> (\<lambda>wan. comment_prefix policyId @ wan) ` (fst ` set es - set kept)" using fresh(1) by auto
      then show ?thesis using here rest(4) by simp
    qed
    then have all: "\<forall>u\<in>fst ` set (e # es). u \<notin> set kept \<longrightarrow> (\<forall>v\<in>set (commented (comment_prefix policyId @ u) (views show (rows w'))). rv_disabled v)"
      using rest(3) keep(2) by (simp add: e)
    have "commented c (views show (rows w')) = commented c (views show (rows w))"
      if "c \<notin> (\<lambda>wan. comment_prefix policyId @ wan) ` (fst ` set (e # es) - set kept)" for c
    proof -
      have "c \<noteq> ?c" "c \<notin> (\<lambda>wan. comment_prefix policyId @ wan) ` (fst ` set es - set kept)" using that False e by auto
      then show ?thesis using rest(4) other by simp
    qed
    then show ?thesis using run rest(2,5) mine all by auto
  qed
qed

subsection \<open>The index of the existing routes\<close>

lemma map_of_replaced:
  "map_of (map (\<lambda>e. if fst e = k then (k, v) else e) m) x = (if x = k then (if k \<in> fst ` set m then Some v else None) else map_of m x)"
  by (induction m) (force simp: image_iff)+

lemma map_of_set_entry: "map_of (set_entry k v m) = (map_of m)(k \<mapsto> v)"
proof (cases "k \<in> fst ` set m")
  case True
  then show ?thesis unfolding set_entry_def by (simp add: fun_eq_iff map_of_replaced)
next
  case False
  then have "map_of m k = None" by (simp add: map_of_eq_None_iff)
  then show ?thesis using False unfolding set_entry_def by (simp add: fun_eq_iff map_add_def split: option.split)
qed

lemma keys_set_entry:
  assumes "distinct (map fst m)"
  shows "distinct (map fst (set_entry k v m))"
proof (cases "k \<in> fst ` set m")
  case True
  have "map fst (map (\<lambda>e. if fst e = k then (k, v) else e) m) = map fst m" by (induction m) auto
  then show ?thesis using True assms by (simp only: set_entry_def if_True)
next
  case False
  then show ?thesis using assms by (simp add: set_entry_def)
qed

lemma existing_step:
  "existing_by_wan policyId (vs @ [v]) =
     (if wan_of policyId v = [] then existing_by_wan policyId vs else set_entry (wan_of policyId v) (rv_id v) (existing_by_wan policyId vs))"
  by (simp add: existing_by_wan_def)

lemma existing_lookup:
  assumes "wan \<noteq> []"
  shows "map_of (existing_by_wan policyId vs) wan =
     (case rev (filter (\<lambda>v. wan_of policyId v = wan) vs) of [] \<Rightarrow> None | v # _ \<Rightarrow> Some (rv_id v))"
proof (induction vs rule: rev_induct)
  case Nil
  then show ?case by (simp add: existing_by_wan_def)
next
  case (snoc v vs)
  show ?case
  proof (cases "wan_of policyId v = wan")
    case True
    then show ?thesis using assms by (simp add: existing_step map_of_set_entry)
  next
    case False
    then have "filter (\<lambda>v. wan_of policyId v = wan) (vs @ [v]) = filter (\<lambda>v. wan_of policyId v = wan) vs" by simp
    moreover have "map_of (existing_by_wan policyId (vs @ [v])) wan = map_of (existing_by_wan policyId vs) wan"
      using False assms by (simp add: existing_step map_of_set_entry)
    ultimately show ?thesis using snoc.IH by (simp only:)
  qed
qed

lemma existing_keys: "distinct (map fst (existing_by_wan policyId vs)) \<and> [] \<notin> fst ` set (existing_by_wan policyId vs)"
proof (induction vs rule: rev_induct)
  case Nil
  then show ?case by (simp add: existing_by_wan_def)
next
  case (snoc v vs)
  have "fst ` set (set_entry k i m) \<subseteq> insert k (fst ` set m)" for k and i :: "json option" and m unfolding set_entry_def by auto
  from this [of "wan_of policyId v" "rv_id v" "existing_by_wan policyId vs"] show ?case
    using snoc.IH keys_set_entry [of "existing_by_wan policyId vs"] unfolding existing_step by (cases "wan_of policyId v = []") auto
qed

lemma wan_comment:
  assumes "is_managed policyId v"
  shows "wan_of policyId v = wan \<longleftrightarrow> rv_comment v = Some (JStr (comment_prefix policyId @ wan))"
proof -
  obtain c where c: "rv_comment v = Some (JStr c)" "take (length (comment_prefix policyId)) c = comment_prefix policyId"
    using assms by (auto simp: is_managed_def split: option.splits json.splits)
  then have "comment_prefix policyId @ drop (length (comment_prefix policyId)) c = c" by (metis append_take_drop_id)
  then have "c = comment_prefix policyId @ wan \<longleftrightarrow> drop (length (comment_prefix policyId)) c = wan" by (metis same_append_eq)
  then show ?thesis using c(1) by (simp add: wan_of_def)
qed

lemma commented_managed: "commented (comment_prefix policyId @ wan) (filter (is_managed policyId) vs) = commented (comment_prefix policyId @ wan) vs"
  unfolding commented_def filter_filter by (rule filter_cong [OF refl]) (metis managed_comment)

lemma by_wan_managed: "filter (\<lambda>v. wan_of policyId v = wan) (filter (is_managed policyId) vs) = commented (comment_prefix policyId @ wan) vs"
  unfolding commented_def filter_filter by (rule filter_cong [OF refl]) (metis managed_comment wan_comment)

subsection \<open>Applying a decision and reading it back\<close>

lemma existing_managed:
  assumes "wan \<noteq> []"
  shows "map_of (existing_by_wan policyId (filter (is_managed policyId) vs)) wan =
     (case rev (commented (comment_prefix policyId @ wan) vs) of [] \<Rightarrow> None | v # _ \<Rightarrow> Some (rv_id v))"
  unfolding by_wan_managed [symmetric] by (rule existing_lookup [OF assms])

lemma known_targets:
  assumes ids: "identified vs" and once: "length (commented (route_comment policyId t) vs) \<le> 1" and t: "rt_wanConnectionId t \<noteq> []"
  shows "known policyId (existing_by_wan policyId (filter (is_managed policyId) vs)) vs t"
proof (cases "commented (route_comment policyId t) vs")
  case Nil
  then show ?thesis using existing_managed [OF t, of policyId vs] by (simp add: known_def route_comment_def)
next
  case (Cons v us)
  then have v: "commented (route_comment policyId t) vs = [v]" using once by simp
  then have "v \<in> set vs" using commented_in by blast
  then have "case rv_id v of Some (JStr _) \<Rightarrow> True | _ \<Rightarrow> False" using ids by (auto simp: identified_def list_all_iff)
  then obtain i where i: "rv_id v = Some (JStr i)" by (auto split: option.splits json.splits)
  show ?thesis using existing_managed [OF t, of policyId vs] v i by (simp add: known_def route_comment_def)
qed

lemma existing_entry:
  assumes ids: "identified vs" and once: "length (commented (comment_prefix policyId @ wan) vs) \<le> 1"
    and e: "(wan, i) \<in> set (existing_by_wan policyId (filter (is_managed policyId) vs))"
  shows "\<exists>v n. commented (comment_prefix policyId @ wan) vs = [v] \<and> rv_id v = i \<and> i = Some (JStr n)"
proof -
  let ?m = "existing_by_wan policyId (filter (is_managed policyId) vs)"
  have d: "distinct (map fst ?m)" "wan \<noteq> []" using existing_keys [of policyId "filter (is_managed policyId) vs"] e by (auto simp: rev_image_eqI)
  then have "map_of ?m wan = Some i" using e by simp
  then have "(case rev (commented (comment_prefix policyId @ wan) vs) of [] \<Rightarrow> None | v # _ \<Rightarrow> Some (rv_id v)) = Some i"
    by (simp only: existing_managed [OF d(2)])
  then obtain v us where "rev (commented (comment_prefix policyId @ wan) vs) = v # us" and i: "rv_id v = i" by (auto split: list.splits)
  then have v: "commented (comment_prefix policyId @ wan) vs = [v]" using once by (cases us) (auto simp: rev_eq_Cons_iff)
  then have "v \<in> set vs" using commented_in by blast
  then have "case rv_id v of Some (JStr _) \<Rightarrow> True | _ \<Rightarrow> False" using ids by (auto simp: identified_def list_all_iff)
  then show ?thesis using v i by (auto split: option.splits json.splits)
qed

lemma find_commented:
  "find (\<lambda>v. rv_comment v = Some (JStr (comment_prefix policyId @ wan))) (filter (is_managed policyId) vs) =
     (case commented (comment_prefix policyId @ wan) vs of [] \<Rightarrow> None | v # _ \<Rightarrow> Some v)"
  unfolding commented_managed [of policyId wan vs, symmetric] by (simp only: find_filter commented_def)

lemma last_targets_step: "last_targets (ts @ [p]) = map snd (set_entry (rt_wanConnectionId (snd p)) p (foldl (\<lambda>m p. set_entry (rt_wanConnectionId (snd p)) p m) [] ts))"
  by (simp add: last_targets_def)

lemma index_of_targets:
  assumes "distinct (map (\<lambda>p. rt_wanConnectionId (snd p)) ts)"
  shows "foldl (\<lambda>m p. set_entry (rt_wanConnectionId (snd p)) p m) [] ts = map (\<lambda>p. (rt_wanConnectionId (snd p), p)) ts"
  using assms
proof (induction ts rule: rev_induct)
  case Nil
  then show ?case by simp
next
  case (snoc p ts)
  then have "rt_wanConnectionId (snd p) \<notin> (\<lambda>p. rt_wanConnectionId (snd p)) ` set ts" by simp
  then show ?case using snoc by (simp add: set_entry_def image_image)
qed

lemma last_targets_distinct: "distinct (map (\<lambda>p. rt_wanConnectionId (snd p)) ts) \<Longrightarrow> last_targets ts = ts"
  by (simp add: last_targets_def index_of_targets comp_def)

lemma routes_verified:
  assumes "\<forall>p\<in>set ts. \<exists>v. commented (route_comment policyId (snd p)) vs = [v] \<and> wanted eligible p v"
  shows "list_all (route_matches policyId eligible (filter (is_managed policyId) vs)) ts"
  unfolding list_all_iff
proof
  fix p assume "p \<in> set ts"
  then obtain v where "commented (route_comment policyId (snd p)) vs = [v]" "wanted eligible p v" using assms by blast
  then show "route_matches policyId eligible (filter (is_managed policyId) vs) p"
    by (cases p) (simp add: route_matches_def find_commented wanted_def route_comment_def)
qed

lemma find_routes:
  assumes "route_table show req rows" and "identified (views show (rows w))"
  shows "find_managed_routes show req policyId w = (Inr (filter (is_managed policyId) (views show (rows w))), w)"
proof -
  have get: "req M_GET ''ip/route'' None w = (Inr (JArr (rows w)), w)" using assms(1) by (simp add: route_table_def)
  have "table_of (JArr (rows w)) = rows w"
  proof -
    have "case r of JObj _ \<Rightarrow> True | _ \<Rightarrow> False" if "r \<in> set (rows w)" for r
    proof -
      have "case json_get r ''.id'' of Some (JStr _) \<Rightarrow> True | _ \<Rightarrow> False"
        using assms(2) that by (auto simp: identified_def views_def list_all_iff)
      then show ?thesis by (cases r) (simp_all add: json_get_def)
    qed
    then show ?thesis by (simp add: table_of_def filter_id_conv)
  qed
  then show ?thesis by (simp add: find_managed_routes_def get views_def)
qed

lemma targets_in_order:
  assumes "distinct (map rt_wanConnectionId targets)"
  shows "distinct (map (\<lambda>p. rt_wanConnectionId (snd p)) (enumerate 0 (sort_key rt_priority targets)))"
    and "(\<lambda>p. rt_wanConnectionId (snd p)) ` set (enumerate 0 (sort_key rt_priority targets)) = rt_wanConnectionId ` set targets"
proof -
  have same: "map (\<lambda>p. rt_wanConnectionId (snd p)) (enumerate 0 (sort_key rt_priority targets)) = map rt_wanConnectionId (sort_key rt_priority targets)"
    by (simp add: map_map [unfolded comp_def, of rt_wanConnectionId snd, symmetric])
  have "inj_on rt_wanConnectionId (set targets)" "distinct targets" using assms by (simp_all add: distinct_map)
  then show "distinct (map (\<lambda>p. rt_wanConnectionId (snd p)) (enumerate 0 (sort_key rt_priority targets)))"
    unfolding same by (simp add: distinct_map)
  have "set (map (\<lambda>p. rt_wanConnectionId (snd p)) (enumerate 0 (sort_key rt_priority targets))) = set (map rt_wanConnectionId (sort_key rt_priority targets))"
    by (simp only: same)
  then show "(\<lambda>p. rt_wanConnectionId (snd p)) ` set (enumerate 0 (sort_key rt_priority targets)) = rt_wanConnectionId ` set targets" by simp
qed

lemma apply_routes_effect:
  assumes law: "route_table show req rows" and ids: "identified (views show (rows w))"
    and once: "\<And>wan. length (commented (comment_prefix (ld_policyId d) @ wan) (views show (rows w))) \<le> 1"
    and strategy: "ld_strategy d = ''PRIMARY_SECONDARY''" and some: "targets \<noteq> []" and dist: "distinct (map rt_wanConnectionId targets)"
    and given: "\<And>t. t \<in> set targets \<Longrightarrow> rt_wanConnectionId t \<noteq> [] \<and> rt_gateway t \<noteq> None \<and> rt_gateway t \<noteq> Some []"
  shows "\<exists>w'. apply_routes show req d targets w = (Inr \<lparr> ru_applied = True, ru_verified = True,
      ru_remoteState = Some (filter (is_managed (ld_policyId d)) (views show (rows w'))), ru_reason = None \<rparr>, w') \<and>
    (\<forall>p\<in>set (enumerate 0 (sort_key rt_priority targets)).
       \<exists>v. commented (route_comment (ld_policyId d) (snd p)) (views show (rows w')) = [v] \<and> wanted (eligible_ids d) p v) \<and>
    (\<forall>wan. wan \<noteq> [] \<longrightarrow> wan \<notin> rt_wanConnectionId ` set targets \<longrightarrow>
       list_all rv_disabled (commented (comment_prefix (ld_policyId d) @ wan) (views show (rows w')))) \<and>
    (\<forall>c. (\<forall>wan. c \<noteq> comment_prefix (ld_policyId d) @ wan) \<longrightarrow> commented c (views show (rows w')) = commented c (views show (rows w))) \<and>
    foreign show (ld_policyId d) (rows w') = foreign show (ld_policyId d) (rows w)"
proof -
  let ?p = "ld_policyId d" and ?ts = "enumerate 0 (sort_key rt_priority targets)" and ?vs = "views show (rows w)"
  let ?ex = "existing_by_wan ?p (filter (is_managed ?p) ?vs)" and ?kept = "map rt_wanConnectionId (sort_key rt_priority targets)"
  note order = targets_in_order [OF dist]
  have target: "snd p \<in> set targets" if "p \<in> set ?ts" for p
  proof -
    have "snd p \<in> set (map snd ?ts)" using that by (metis in_set_conv_nth length_map nth_map nth_mem)
    then show ?thesis by (simp del: set_map)
  qed
  have known: "known ?p ?ex ?vs (snd p) \<and> rt_gateway (snd p) \<noteq> None" if "p \<in> set ?ts" for p
    using known_targets [OF ids, of ?p "snd p"] once [of "rt_wanConnectionId (snd p)"] given [OF target [OF that]] by (simp add: route_comment_def)
  obtain w1 where w1: "write_routes req ?p (eligible_ids d) ?ex ?ts w = (Inr (), w1)" "identified (views show (rows w1))"
      "\<forall>p\<in>set ?ts. \<exists>v. commented (route_comment ?p (snd p)) (views show (rows w1)) = [v] \<and> wanted (eligible_ids d) p v"
      "\<forall>c. c \<notin> (\<lambda>p. route_comment ?p (snd p)) ` set ?ts \<longrightarrow> commented c (views show (rows w1)) = commented c ?vs"
      "foreign show ?p (rows w1) = foreign show ?p (rows w)"
    using write_routes_effect [OF law ids order(1) known] by blast
  have comments: "(\<lambda>p. route_comment ?p (snd p)) ` set ?ts = (\<lambda>wan. comment_prefix ?p @ wan) ` rt_wanConnectionId ` set targets"
    unfolding route_comment_def order(2) [symmetric] image_image ..
  have same: "commented (comment_prefix ?p @ wan) (views show (rows w1)) = commented (comment_prefix ?p @ wan) ?vs"
    if "wan \<notin> rt_wanConnectionId ` set targets" for wan
  proof -
    have "comment_prefix ?p @ wan \<notin> (\<lambda>wan. comment_prefix ?p @ wan) ` rt_wanConnectionId ` set targets" using that by auto
    then show ?thesis using w1(4) unfolding comments by simp
  qed
  have entries: "\<exists>v n. commented (comment_prefix ?p @ wan) (views show (rows w1)) = [v] \<and> rv_id v = i \<and> i = Some (JStr n)"
    if "(wan, i) \<in> set ?ex" "wan \<notin> set ?kept" for wan i
  proof -
    have "wan \<notin> rt_wanConnectionId ` set targets" using that(2) by simp
    then show ?thesis using existing_entry [OF ids once that(1)] same by simp
  qed
  obtain w2 where w2: "disable_routes req ?kept ?ex w1 = (Inr (), w2)" "identified (views show (rows w2))"
      "\<forall>wan\<in>fst ` set ?ex. wan \<notin> set ?kept \<longrightarrow> (\<forall>v\<in>set (commented (comment_prefix ?p @ wan) (views show (rows w2))). rv_disabled v)"
      "\<forall>c. c \<notin> (\<lambda>wan. comment_prefix ?p @ wan) ` (fst ` set ?ex - set ?kept) \<longrightarrow> commented c (views show (rows w2)) = commented c (views show (rows w1))"
      "foreign show ?p (rows w2) = foreign show ?p (rows w1)"
    using disable_routes_effect [OF law w1(2) conjunct1 [OF existing_keys] entries] by blast
  have kept: "set ?kept = rt_wanConnectionId ` set targets" by simp
  have done_: "\<exists>v. commented (route_comment ?p (snd p)) (views show (rows w2)) = [v] \<and> wanted (eligible_ids d) p v" if "p \<in> set ?ts" for p
  proof -
    have "rt_wanConnectionId (snd p) \<in> set ?kept" using target [OF that] by simp
    then have "route_comment ?p (snd p) \<notin> (\<lambda>wan. comment_prefix ?p @ wan) ` (fst ` set ?ex - set ?kept)" by (auto simp: route_comment_def simp del: set_map)
    then show ?thesis using w1(3) w2(4) that by simp
  qed
  have off: "list_all rv_disabled (commented (comment_prefix ?p @ wan) (views show (rows w2)))"
    if "wan \<noteq> []" "wan \<notin> rt_wanConnectionId ` set targets" for wan
  proof (cases "wan \<in> fst ` set ?ex")
    case True
    then show ?thesis using w2(3) that(2) unfolding kept list_all_iff by blast
  next
    case False
    then have "map_of ?ex wan = None" by (simp add: map_of_eq_None_iff)
    then have "commented (comment_prefix ?p @ wan) ?vs = []"
      unfolding existing_managed [OF that(1)] by (simp split: list.splits)
    moreover have "comment_prefix ?p @ wan \<notin> (\<lambda>wan. comment_prefix ?p @ wan) ` (fst ` set ?ex - set ?kept)" using False by auto
    ultimately show ?thesis using w2(4) same [OF that(2)] by simp
  qed
  have rest: "commented c (views show (rows w2)) = commented c ?vs" if "\<forall>wan. c \<noteq> comment_prefix ?p @ wan" for c
  proof -
    have "c \<notin> (\<lambda>wan. comment_prefix ?p @ wan) ` X" for X using that by blast
    then show ?thesis using w1(4) w2(4) unfolding comments by simp
  qed
  have gateways: "\<not> list_ex (\<lambda>t. rt_gateway t = None \<or> rt_gateway t = Some []) (sort_key rt_priority targets)"
    using given by (auto simp: list_ex_iff)
  have full: "sort_key rt_priority targets \<noteq> []" using some by (metis length_0_conv length_sort)
  have "apply_routes show req d targets w = verify_routes show req d (sort_key rt_priority targets) w2"
    using strategy full gateways w1(1) w2(1) by (simp add: apply_routes_def find_routes [OF law ids] Let_def)
  moreover have "verify_routes show req d (sort_key rt_priority targets) w2 = (Inr \<lparr> ru_applied = True, ru_verified = True,
      ru_remoteState = Some (filter (is_managed ?p) (views show (rows w2))), ru_reason = None \<rparr>, w2)"
    using strategy routes_verified [of ?ts ?p "views show (rows w2)" "eligible_ids d"] done_
    by (simp add: verify_routes_def find_routes [OF law w2(2)] last_targets_distinct [OF order(1)])
  ultimately show ?thesis using done_ off rest w1(5) w2(5) by (intro exI [of _ w2]) simp
qed

text \<open>C9: A decision for \<open>PRIMARY_SECONDARY\<close> with targets that have a gateway and distinct identifiers reaches a device that keeps a table of routes: the
  request succeeds and the verification, which reads the table again, confirms it and reports the routes of the policy it read. Then every target has exactly one route with its comment, with
  the gateway of the target, a distance that is its place in the order of priorities, and disabled exactly when the decision does not select the
  target; every other route of the policy is disabled, and the rows of the table that are not of the policy, with whatever comment
  or without one, are what they were in all their fields, and no such row is added or removed. The table must hold at most one
  route per comment of the policy and an identifier for each.
\<close>

theorem applied_routes_are_verified:
  assumes law: "route_table show req rows" and ids: "identified (views show (rows w))"
    and once: "\<And>wan. length (commented (comment_prefix (ld_policyId d) @ wan) (views show (rows w))) \<le> 1"
    and strategy: "ld_strategy d = ''PRIMARY_SECONDARY''" and some: "targets \<noteq> []" and dist: "distinct (map rt_wanConnectionId targets)"
    and given: "\<And>t. t \<in> set targets \<Longrightarrow> rt_wanConnectionId t \<noteq> [] \<and> rt_gateway t \<noteq> None \<and> rt_gateway t \<noteq> Some []"
  shows "\<exists>w'. apply_routes show req d targets w = (Inr \<lparr> ru_applied = True, ru_verified = True,
      ru_remoteState = Some (filter (is_managed (ld_policyId d)) (views show (rows w'))), ru_reason = None \<rparr>, w') \<and>
    (\<forall>p\<in>set (enumerate 0 (sort_key rt_priority targets)).
       \<exists>v. commented (route_comment (ld_policyId d) (snd p)) (views show (rows w')) = [v] \<and> wanted (eligible_ids d) p v) \<and>
    (\<forall>wan. wan \<noteq> [] \<longrightarrow> wan \<notin> rt_wanConnectionId ` set targets \<longrightarrow>
       list_all rv_disabled (commented (comment_prefix (ld_policyId d) @ wan) (views show (rows w')))) \<and>
    (\<forall>c. (\<forall>wan. c \<noteq> comment_prefix (ld_policyId d) @ wan) \<longrightarrow> commented c (views show (rows w')) = commented c (views show (rows w))) \<and>
    filter (\<lambda>r. \<not> is_managed (ld_policyId d) (route_view show r)) (rows w') = filter (\<lambda>r. \<not> is_managed (ld_policyId d) (route_view show r)) (rows w)"
  by (rule apply_routes_effect [OF law ids once strategy some dist given, unfolded foreign_def])

subsection \<open>A device that keeps its law\<close>

text \<open>A device in memory: a route is the list of its fields, and its identifier the place in the table, written in unary.\<close>

type_synonym memory = "(string \<times> json) list list"

definition unary :: "nat \<Rightarrow> string" where
  "unary k = replicate k CHR ''a''"

definition stored :: "nat \<Rightarrow> (string \<times> json) list \<Rightarrow> json" where
  "stored k kvs = JObj ((''.id'', JStr (unary k)) # kvs)"

definition memory_rows :: "memory \<Rightarrow> json list" where
  "memory_rows m = map (\<lambda>p. stored (fst p) (snd p)) (enumerate 0 m)"

definition given_fields :: "json \<Rightarrow> (string \<times> json) list" where
  "given_fields body = concat (map (\<lambda>k. case json_get body k of None \<Rightarrow> [] | Some v \<Rightarrow> [(k, v)]) [''comment'', ''gateway'', ''distance'', ''disabled''])"

definition memory_device :: "memory request" where
  "memory_device verb path body m =
     (case (verb, body) of
        (M_GET, _) \<Rightarrow> (Inr (JArr (memory_rows m)), m)
      | (M_PUT, Some b) \<Rightarrow> (Inr JNull, m @ [given_fields b])
      | (M_PATCH, Some b) \<Rightarrow>
          (let k = length path - 9 in
           if k < length m then (Inr JNull, m[k := given_fields b @ m ! k]) else (Inl ''HTTP_404'', m))
      | _ \<Rightarrow> (Inl ''HTTP_400'', m))"

lemma unary_path: "length (route_path (unary k)) - 9 = k"
proof -
  have "length (encode_uri_component (unary k)) = k"
    by (induction k) (simp_all add: unary_def encode_uri_component_def unreserved_def)
  then show ?thesis by (simp add: route_path_def)
qed

lemma unary_inj: "unary j = unary k \<longleftrightarrow> j = k"
  by (simp add: unary_def)

lemma stored_id: "json_get (stored k kvs) ''.id'' = Some (JStr (unary k))"
  by (simp add: stored_def json_get_def)

lemma given_get:
  "map_of (given_fields body @ kvs) k =
     (if k \<in> {''comment'', ''gateway'', ''distance'', ''disabled''} then or_else (json_get body k) (map_of kvs k) else map_of kvs k)"
  by (auto simp: given_fields_def or_else_def split: option.splits)

lemma given_view:
  "route_view show (JObj (k # given_fields body @ kvs)) = merged show body (route_view show (JObj (k # kvs)))" if "fst k = ''.id''"
  using that given_get [of body kvs]
  by (cases k) (auto simp: route_view_def merged_def json_get_def or_else_def split: option.split)

lemma memory_member:
  assumes "q \<in> set (memory_rows m)"
  obtains j where "j < length m" "q = stored j (m ! j)"
proof -
  obtain j where "j < length (memory_rows m)" "memory_rows m ! j = q" using assms unfolding in_set_conv_nth by blast
  then show thesis using that [of j] by (simp add: memory_rows_def nth_enumerate_eq)
qed

lemma memory_found: "k < length m \<Longrightarrow> stored k (m ! k) \<in> set (memory_rows m)"
  unfolding in_set_conv_nth by (intro exI [of _ k]) (simp add: memory_rows_def nth_enumerate_eq)

lemma memory_put: "memory_rows (m @ [kvs]) = memory_rows m @ [stored (length m) kvs]"
  by (simp add: memory_rows_def enumerate_append_eq)

lemma memory_patch:
  assumes "k < length m"
  shows "memory_rows (m[k := given_fields body @ m ! k]) =
    map (\<lambda>r. if json_get r ''.id'' = Some (JStr (unary k))
      then JObj ((\<lambda>r. case r of JObj (e # kvs) \<Rightarrow> e # given_fields body @ kvs | _ \<Rightarrow> []) r) else r) (memory_rows m)"
proof (rule nth_equalityI)
  show "length (memory_rows (m[k := given_fields body @ m ! k])) = length (map (\<lambda>r. if json_get r ''.id'' = Some (JStr (unary k))
      then JObj ((\<lambda>r. case r of JObj (e # kvs) \<Rightarrow> e # given_fields body @ kvs | _ \<Rightarrow> []) r) else r) (memory_rows m))"
    by (simp add: memory_rows_def)
  fix j assume "j < length (memory_rows (m[k := given_fields body @ m ! k]))"
  then have j: "j < length m" by (simp add: memory_rows_def)
  then show "memory_rows (m[k := given_fields body @ m ! k]) ! j = map (\<lambda>r. if json_get r ''.id'' = Some (JStr (unary k))
      then JObj ((\<lambda>r. case r of JObj (e # kvs) \<Rightarrow> e # given_fields body @ kvs | _ \<Rightarrow> []) r) else r) (memory_rows m) ! j"
    using assms by (cases "j = k") (simp_all add: memory_rows_def nth_enumerate_eq stored_id unary_inj, simp add: stored_def)
qed

lemma memory_law: "route_table show memory_device memory_rows"
  unfolding route_table_def
proof (intro conjI allI impI)
  fix m :: memory show "memory_device M_GET ''ip/route'' None m = (Inr (JArr (memory_rows m)), m)" by (simp add: memory_device_def)
next
  fix m :: memory and body :: json
  have view: "route_view show (JObj ((''.id'', JStr (unary (length m))) # given_fields body @ [])) = merged show body (new_view (unary (length m)))"
    unfolding given_view [where k = "(''.id'', JStr (unary (length m)))", simplified]
    by (simp add: route_view_def new_view_def json_get_def read_distance_def read_disabled_def)
  have fresh: "\<forall>q\<in>set (memory_rows m). json_get q ''.id'' \<noteq> Some (JStr (unary (length m)))"
  proof
    fix q assume "q \<in> set (memory_rows m)"
    then obtain j where "j < length m" "q = stored j (m ! j)" by (rule memory_member)
    then show "json_get q ''.id'' \<noteq> Some (JStr (unary (length m)))" by (simp add: stored_id unary_inj)
  qed
  show "\<exists>x w' r i. memory_device M_PUT ''ip/route'' (Some body) m = (Inr x, w') \<and> memory_rows w' = memory_rows m @ [JObj r] \<and>
      route_view show (JObj r) = merged show body (new_view i) \<and> (\<forall>q\<in>set (memory_rows m). json_get q ''.id'' \<noteq> Some (JStr i))"
    by (intro exI [of _ JNull] exI [of _ "m @ [given_fields body]"] exI [of _ "(''.id'', JStr (unary (length m))) # given_fields body"] exI [of _ "unary (length m)"])
      (use view fresh in \<open>simp add: memory_device_def memory_put stored_def\<close>)
next
  fix m :: memory and body :: json and i assume "\<exists>r\<in>set (memory_rows m). json_get r ''.id'' = Some (JStr i)"
  then obtain r where r: "r \<in> set (memory_rows m)" "json_get r ''.id'' = Some (JStr i)" by blast
  obtain k where k: "k < length m" "i = unary k" using r(2) by (auto intro: memory_member [OF r(1)] simp: stored_id)
  show "\<exists>x w' f. memory_device M_PATCH (route_path i) (Some body) m = (Inr x, w') \<and>
      memory_rows w' = map (\<lambda>r. if json_get r ''.id'' = Some (JStr i) then JObj (f r) else r) (memory_rows m) \<and>
      (\<forall>r\<in>set (memory_rows m). route_view show (JObj (f r)) = merged show body (route_view show r))"
  proof (intro exI conjI ballI)
    show "memory_device M_PATCH (route_path i) (Some body) m = (Inr JNull, m[k := given_fields body @ m ! k])"
      using k by (simp add: memory_device_def unary_path Let_def)
    show "memory_rows (m[k := given_fields body @ m ! k]) = map (\<lambda>r. if json_get r ''.id'' = Some (JStr i)
        then JObj ((\<lambda>r. case r of JObj (e # kvs) \<Rightarrow> e # given_fields body @ kvs | _ \<Rightarrow> []) r) else r) (memory_rows m)"
      unfolding k(2) by (rule memory_patch [OF k(1)])
    fix r assume "r \<in> set (memory_rows m)"
    then obtain j where "r = stored j (m ! j)" by (rule memory_member)
    then show "route_view show (JObj ((\<lambda>r. case r of JObj (e # kvs) \<Rightarrow> e # given_fields body @ kvs | _ \<Rightarrow> []) r)) = merged show body (route_view show r)"
      by (simp add: stored_def given_view)
  qed
qed

text \<open>A decision for the first of two connections, on a device with a route of a connection that left the policy and a route of its owner, without a comment\<close>

definition sample_decision :: load_balance_decision where
  "sample_decision = \<lparr> ld_policyId = ''p1'', ld_strategy = ''PRIMARY_SECONDARY'',
     ld_eligible = [\<lparr> em_wanConnectionId = ''wan1'', em_configuredWeight = 1, em_effectiveWeight = 1, em_priority = 10, em_healthState = HEALTHY,
       em_capacityMbps = 100, em_utilization = None \<rparr>], ld_failoverActive = False \<rparr>"

definition sample_targets :: "routing_target list" where
  "sample_targets =
     [\<lparr> rt_wanConnectionId = ''wan2'', rt_interfaceName = None, rt_gateway = Some ''192.0.2.1'', rt_weight = 1, rt_priority = 20 \<rparr>,
      \<lparr> rt_wanConnectionId = ''wan1'', rt_interfaceName = None, rt_gateway = Some ''198.51.100.1'', rt_weight = 1, rt_priority = 10 \<rparr>]"

definition sample_memory :: memory where
  "sample_memory =
     [[(''gateway'', JStr ''203.0.113.9'')],
      [(''comment'', JStr ''jaslyn-net:lb:p1:wan0''), (''gateway'', JStr ''203.0.113.1''), (''distance'', JNum 1), (''disabled'', JBool False)]]"

lemma sample_views:
  "map rv_id (views (\<lambda>_. []) (memory_rows sample_memory)) = [Some (JStr []), Some (JStr ''a'')]"
  "map rv_comment (views (\<lambda>_. []) (memory_rows sample_memory)) = [None, Some (JStr ''jaslyn-net:lb:p1:wan0'')]"
  by code_simp+

lemma commented_length: "length (commented c vs) = length (filter (\<lambda>x. x = Some (JStr c)) (map rv_comment vs))"
  by (simp add: commented_def filter_map comp_def)

theorem applied_routes_are_verified_witness:
  "\<exists>w'. apply_routes (\<lambda>_. []) memory_device sample_decision sample_targets sample_memory =
     (Inr \<lparr> ru_applied = True, ru_verified = True,
       ru_remoteState = Some (filter (is_managed (ld_policyId sample_decision)) (views (\<lambda>_. []) (memory_rows w'))), ru_reason = None \<rparr>, w') \<and>
     list_all rv_disabled (commented ''jaslyn-net:lb:p1:wan0'' (views (\<lambda>_. []) (memory_rows w'))) \<and>
     stored 0 [(''gateway'', JStr ''203.0.113.9'')] \<in> set (memory_rows w')"
proof -
  have ids: "identified (views (\<lambda>_. []) (memory_rows sample_memory))" by (simp add: identified_def sample_views)
  have once: "length (commented (comment_prefix (ld_policyId sample_decision) @ wan) (views (\<lambda>_. []) (memory_rows sample_memory))) \<le> 1" for wan
    by (simp add: commented_length sample_views comment_prefix_def)
  have policy: "comment_prefix (ld_policyId sample_decision) @ ''wan0'' = ''jaslyn-net:lb:p1:wan0''" by (simp add: comment_prefix_def sample_decision_def)
  have "ld_strategy sample_decision = ''PRIMARY_SECONDARY''" "sample_targets \<noteq> []" "distinct (map rt_wanConnectionId sample_targets)"
    by (simp_all add: sample_decision_def sample_targets_def)
  moreover have "rt_wanConnectionId t \<noteq> [] \<and> rt_gateway t \<noteq> None \<and> rt_gateway t \<noteq> Some []" if "t \<in> set sample_targets" for t
    using that by (auto simp: sample_targets_def)
  ultimately obtain w' where w': "apply_routes (\<lambda>_. []) memory_device sample_decision sample_targets sample_memory =
      (Inr \<lparr> ru_applied = True, ru_verified = True,
       ru_remoteState = Some (filter (is_managed (ld_policyId sample_decision)) (views (\<lambda>_. []) (memory_rows w'))), ru_reason = None \<rparr>, w')"
      "\<forall>wan. wan \<noteq> [] \<longrightarrow> wan \<notin> rt_wanConnectionId ` set sample_targets \<longrightarrow>
         list_all rv_disabled (commented (comment_prefix (ld_policyId sample_decision) @ wan) (views (\<lambda>_. []) (memory_rows w')))"
      "filter (\<lambda>r. \<not> is_managed (ld_policyId sample_decision) (route_view (\<lambda>_. []) r)) (memory_rows w') =
       filter (\<lambda>r. \<not> is_managed (ld_policyId sample_decision) (route_view (\<lambda>_. []) r)) (memory_rows sample_memory)"
    using applied_routes_are_verified [OF memory_law ids once] by blast
  let ?own = "stored 0 [(''gateway'', JStr ''203.0.113.9'')]"
  have "\<not> is_managed (ld_policyId sample_decision) (route_view (\<lambda>_. []) ?own) \<and> hd (memory_rows sample_memory) = ?own \<and> memory_rows sample_memory \<noteq> []"
    by code_simp
  then have "?own \<in> set (filter (\<lambda>r. \<not> is_managed (ld_policyId sample_decision) (route_view (\<lambda>_. []) r)) (memory_rows sample_memory))"
    unfolding set_filter by (metis (mono_tags, lifting) hd_in_set mem_Collect_eq)
  then have own: "?own \<in> set (memory_rows w')" unfolding w'(3) [symmetric] by simp
  have "''wan0'' \<notin> rt_wanConnectionId ` set sample_targets" by (simp add: sample_targets_def)
  then have "list_all rv_disabled (commented ''jaslyn-net:lb:p1:wan0'' (views (\<lambda>_. []) (memory_rows w')))"
    using w'(2) [rule_format, of "''wan0''"] unfolding policy by simp
  then show ?thesis using w'(1) own by blast
qed

end
