(* ===== verification/WanRouting.thy ===== *)
theory WanRouting
  imports MikrotikRouting AuditTrail TrafficSamples "HOL-Library.Product_Lexorder" "HOL-Library.Multiset"
begin

text \<open>
  WAN connections and load balancing policies (\<open>modules/traffic/load-balancing.service.ts\<close>): the connections of a router, policies with their
  members, health checks, the decision for a policy and its application to a RouterOS device. The tables of this service stand beside the shared
  database; the casts of PostgreSQL, the constraints of the tables, the defaults of the columns that no statement writes, the credentials vault and
  the devices are parameters. Names are ordered by their bytes.
\<close>

subsection \<open>Tables\<close>

record wan_connection =
  wn_tenant :: uuid
  wn_id :: uuid
  wn_routerId :: uuid
  wn_name :: string
  wn_provider :: "string option"
  wn_interfaceName :: "string option"
  wn_gateway :: "string option"
  wn_address :: "string option"
  wn_capacityMbps :: rat
  wn_configuredWeight :: int
  wn_priority :: int
  wn_failoverPriority :: int
  wn_enabled :: bool
  wn_drainRequested :: bool
  wn_healthState :: wan_health_state
  wn_utilization :: "rat option"
  wn_activeSessions :: int
  wn_lastStateChangeAt :: "time option"

record balance_policy =
  lp_tenant :: uuid
  lp_id :: uuid
  lp_routerId :: uuid
  lp_name :: string
  lp_strategy :: string
  lp_enabled :: bool
  lp_capacityAware :: bool
  lp_rebalanceThreshold :: rat
  lp_degradeThreshold :: rat
  lp_unavailableAfterFailures :: int
  lp_recoverAfterSuccesses :: int
  lp_updatedAt :: time

record balance_member =
  lm_tenant :: uuid
  lm_id :: uuid
  lm_policyId :: uuid
  lm_wanConnectionId :: uuid
  lm_configuredWeight :: int
  lm_priority :: int
  lm_enabled :: bool

record balance_event =
  le_tenant :: uuid
  le_routerId :: uuid
  le_policyId :: uuid
  le_eventType :: string
  le_correlationId :: "string option"
  le_evidence :: json

record wan_check =
  wk_tenant :: uuid
  wk_id :: uuid
  wk_wanConnectionId :: uuid
  wk_method :: string
  wk_target :: string
  wk_intervalSeconds :: int
  wk_timeoutMs :: int
  wk_failureThreshold :: int
  wk_recoveryThreshold :: int
  wk_enabled :: bool

record 'w wan_state =
  wst_db :: db
  wst_wans :: "wan_connection list"
  wst_policies :: "balance_policy list"
  wst_members :: "balance_member list"
  wst_events :: "balance_event list"
  wst_checks :: "wan_check list"
  wst_device :: 'w

text \<open>
  The parameters: the correlation id of the request and the time, \<open>host(x::inet)\<close> and \<open>x::cidr::text\<close>, the SQLSTATE of a table constraint that a
  statement would break, a row of column defaults, the vault (an error is its code) and the device at an address.
\<close>

record 'w wan_env =
  we_cid :: "string option"
  we_now :: time
  we_inet :: "string \<Rightarrow> string option"
  we_cidr :: "string \<Rightarrow> string option"
  we_violation :: "'w wan_state \<Rightarrow> string option"
  we_defaults :: wan_connection
  we_decrypt :: "string \<Rightarrow> string + string"
  we_device :: "string \<Rightarrow> string \<Rightarrow> 'w request"
  we_show :: "rat \<Rightarrow> string"

definition cast_text :: "(string \<Rightarrow> string option) \<Rightarrow> string option \<Rightarrow> string option result" where
  "cast_text f v = (case v of None \<Rightarrow> Inr None | Some t \<Rightarrow> (case f t of None \<Rightarrow> Inl (DbError ''22P02'') | Some u \<Rightarrow> Inr (Some u)))"

definition take_id :: "'w wan_state \<Rightarrow> 'w wan_state" where
  "take_id s = s\<lparr> wst_db := (wst_db s)\<lparr> next_id := next_id (wst_db s) + 1 \<rparr> \<rparr>"

definition wan_audit :: "'w wan_env \<Rightarrow> uuid \<Rightarrow> string \<Rightarrow> string \<Rightarrow> uuid \<Rightarrow> json \<Rightarrow> audit_context \<Rightarrow> 'w wan_state \<Rightarrow> 'w wan_state" where
  "wan_audit env tenant action resource i metadata ctx s =
     s\<lparr> wst_db := snd (audit_record (we_cid env) (we_now env) tenant action resource (Some i) metadata ctx (wst_db s)) \<rparr>"

subsection \<open>Connections\<close>

record routing_support =
  rs_telemetry :: bool
  rs_gatewayHealth :: bool
  rs_policyRouting :: bool
  rs_weightedLoadBalancing :: bool
  rs_failover :: bool
  rs_routeRead :: bool
  rs_routeWrite :: bool

definition supports :: "protocol option \<Rightarrow> bool \<Rightarrow> wan_capability \<Rightarrow> bool" where
  "supports p enabled c \<longleftrightarrow> enabled \<and> (case p of None \<Rightarrow> False | Some q \<Rightarrow> has_wan_routing_capability q c)"

definition routing_capabilities :: "protocol option \<Rightarrow> bool \<Rightarrow> routing_support" where
  "routing_capabilities p enabled = \<lparr> rs_telemetry = supports p enabled Wan_telemetry, rs_gatewayHealth = supports p enabled Gateway_health,
     rs_policyRouting = supports p enabled Policy_routing, rs_weightedLoadBalancing = supports p enabled Weighted_load_balancing,
     rs_failover = supports p enabled Failover, rs_routeRead = supports p enabled Route_read, rs_routeWrite = supports p enabled Route_write \<rparr>"

definition has_adapter :: "protocol option \<Rightarrow> bool" where
  "has_adapter p \<longleftrightarrow> (case p of None \<Rightarrow> False | Some q \<Rightarrow> has_wan_routing_adapter q)"

record wan_view =
  wv_wan :: wan_connection
  wv_protocol :: "protocol option"
  wv_managed :: bool
  wv_routing :: routing_support

definition router_at :: "uuid \<Rightarrow> uuid \<Rightarrow> db \<Rightarrow> router option" where
  "router_at tenant i s = select_one (\<lambda>r. ro_tenant r = tenant \<and> ro_id r = i) (routers s)"

definition wan_at :: "uuid \<Rightarrow> uuid \<Rightarrow> 'w wan_state \<Rightarrow> wan_connection option" where
  "wan_at tenant i s = select_one (\<lambda>w. wn_tenant w = tenant \<and> wn_id w = i) (wst_wans s)"

text \<open>A row of \<open>wan_connections w JOIN routers r\<close>\<close>

definition wan_row :: "'w wan_state \<Rightarrow> wan_connection \<Rightarrow> wan_view option" where
  "wan_row s w = map_option (\<lambda>r. \<lparr> wv_wan = w, wv_protocol = ro_protocol r, wv_managed = ro_managementEnabled r,
     wv_routing = routing_capabilities (ro_protocol r) (ro_managementEnabled r) \<rparr>) (router_at (wn_tenant w) (wn_routerId w) (wst_db s))"

definition list_wans :: "uuid \<Rightarrow> uuid option \<Rightarrow> 'w wan_state \<Rightarrow> wan_view list" where
  "list_wans tenant routerId s =
     sort_key (\<lambda>v. (wn_priority (wv_wan v), wn_name (wv_wan v)))
       (List.map_filter (wan_row s) (select (\<lambda>w. wn_tenant w = tenant \<and> (case routerId of None \<Rightarrow> True | Some r \<Rightarrow> wn_routerId w = r)) (wst_wans s)))"

definition get_wan :: "uuid \<Rightarrow> uuid \<Rightarrow> 'w wan_state \<Rightarrow> wan_view result" where
  "get_wan tenant i s =
     (case wan_at tenant i s of
        None \<Rightarrow> Inl (NotFound ''WAN connection not found'')
      | Some w \<Rightarrow> (case wan_row s w of None \<Rightarrow> Inl (NotFound ''WAN connection not found'') | Some v \<Rightarrow> Inr v))"

record create_wan_dto =
  cw_routerId :: uuid
  cw_name :: string
  cw_provider :: "string option"
  cw_interfaceName :: "string option"
  cw_gateway :: "string option"
  cw_address :: "string option"
  cw_capacityMbps :: rat
  cw_configuredWeight :: "int option"
  cw_priority :: "int option"
  cw_failoverPriority :: "int option"
  cw_enabled :: "bool option"

definition new_wan :: "'w wan_env \<Rightarrow> uuid \<Rightarrow> uuid \<Rightarrow> create_wan_dto \<Rightarrow> string option \<Rightarrow> string option \<Rightarrow> wan_connection" where
  "new_wan env tenant i dto gateway address =
     (we_defaults env)\<lparr> wn_tenant := tenant, wn_id := i, wn_routerId := cw_routerId dto, wn_name := js_trim (cw_name dto),
       wn_provider := trim_or_null (cw_provider dto), wn_interfaceName := trim_or_null (cw_interfaceName dto), wn_gateway := gateway,
       wn_address := address, wn_capacityMbps := cw_capacityMbps dto, wn_configuredWeight := with_default (cw_configuredWeight dto) 1,
       wn_priority := with_default (cw_priority dto) 100, wn_failoverPriority := with_default (cw_failoverPriority dto) 100,
       wn_enabled := with_default (cw_enabled dto) True, wn_healthState := UNKNOWN, wn_lastStateChangeAt := Some (we_now env) \<rparr>"

definition insert_wan :: "'w wan_env \<Rightarrow> uuid \<Rightarrow> create_wan_dto \<Rightarrow> ('w wan_state, uuid) operation" where
  "insert_wan env tenant dto s =
     (case (cast_text (we_inet env) (cw_gateway dto), cast_text (we_cidr env) (cw_address dto)) of
        (Inl e, _) \<Rightarrow> (Inl e, s)
      | (Inr _, Inl e) \<Rightarrow> (Inl e, s)
      | (Inr gateway, Inr address) \<Rightarrow>
          (let i = new_uuid (wst_db s)
           in constrained (we_violation env) i ((take_id s)\<lparr> wst_wans := insert_row (new_wan env tenant i dto gateway address) (wst_wans s) \<rparr>) s))"

definition create_wan :: "'w wan_env \<Rightarrow> uuid \<Rightarrow> create_wan_dto \<Rightarrow> audit_context \<Rightarrow> ('w wan_state, wan_view) operation" where
  "create_wan env tenant dto ctx s =
     (if router_at tenant (cw_routerId dto) (wst_db s) = None then (Inl (NotFound ''Router not found''), s)
      else (case insert_wan env tenant dto s of
              (Inl e, s1) \<Rightarrow> (Inl e, s1)
            | (Inr i, s1) \<Rightarrow>
                (let s2 = wan_audit env tenant ''WAN_CONNECTION_CREATED'' ''wan_connection'' i
                       (jobject [(''routerId'', Some (JStr (cw_routerId dto))), (''name'', Some (JStr (cw_name dto))),
                          (''capacityMbps'', Some (JNum (cw_capacityMbps dto)))]) ctx s1
                 in (get_wan tenant i s2, s2))))"

record update_wan_dto =
  uw_name :: "string option"
  uw_provider :: "string option"
  uw_interfaceName :: "string option"
  uw_gateway :: "string option"
  uw_address :: "string option"
  uw_capacityMbps :: "rat option"
  uw_configuredWeight :: "int option"
  uw_priority :: "int option"
  uw_failoverPriority :: "int option"
  uw_enabled :: "bool option"
  uw_drainRequested :: "bool option"

definition wan_changes :: "update_wan_dto \<Rightarrow> json" where
  "wan_changes dto = jobject
     [(''name'', map_option JStr (uw_name dto)), (''provider'', map_option JStr (uw_provider dto)),
      (''interfaceName'', map_option JStr (uw_interfaceName dto)), (''gateway'', map_option JStr (uw_gateway dto)),
      (''address'', map_option JStr (uw_address dto)), (''capacityMbps'', map_option JNum (uw_capacityMbps dto)),
      (''configuredWeight'', map_option (\<lambda>n. JNum (of_int n)) (uw_configuredWeight dto)),
      (''priority'', map_option (\<lambda>n. JNum (of_int n)) (uw_priority dto)),
      (''failoverPriority'', map_option (\<lambda>n. JNum (of_int n)) (uw_failoverPriority dto)),
      (''enabled'', map_option JBool (uw_enabled dto)), (''drainRequested'', map_option JBool (uw_drainRequested dto))]"

text \<open>The \<open>SET\<close> list of \<open>updateWan\<close>\<close>

definition health_after :: "bool \<Rightarrow> bool \<Rightarrow> wan_health_state \<Rightarrow> wan_health_state" where
  "health_after enabled drain current = (if \<not> enabled then DISABLED else if drain then DRAINING else current)"

definition changed_wan :: "time \<Rightarrow> update_wan_dto \<Rightarrow> string option \<Rightarrow> string option \<Rightarrow> wan_connection \<Rightarrow> wan_connection" where
  "changed_wan now dto gateway address w =
     (let enabled = with_default (uw_enabled dto) (wn_enabled w); drain = with_default (uw_drainRequested dto) (wn_drainRequested w)
      in w\<lparr> wn_name := with_default (trim_or_null (uw_name dto)) (wn_name w), wn_provider := or_else (trim_or_null (uw_provider dto)) (wn_provider w),
           wn_interfaceName := or_else (trim_or_null (uw_interfaceName dto)) (wn_interfaceName w), wn_gateway := or_else gateway (wn_gateway w),
           wn_address := or_else address (wn_address w), wn_capacityMbps := with_default (uw_capacityMbps dto) (wn_capacityMbps w),
           wn_configuredWeight := with_default (uw_configuredWeight dto) (wn_configuredWeight w),
           wn_priority := with_default (uw_priority dto) (wn_priority w),
           wn_failoverPriority := with_default (uw_failoverPriority dto) (wn_failoverPriority w), wn_enabled := enabled, wn_drainRequested := drain,
           wn_healthState := health_after enabled drain (wn_healthState w),
           wn_lastStateChangeAt := (if enabled \<noteq> wn_enabled w \<or> drain \<noteq> wn_drainRequested w then Some now else wn_lastStateChangeAt w) \<rparr>)"

definition update_wan :: "'w wan_env \<Rightarrow> uuid \<Rightarrow> uuid \<Rightarrow> update_wan_dto \<Rightarrow> audit_context \<Rightarrow> ('w wan_state, wan_view) operation" where
  "update_wan env tenant i dto ctx s =
     (if wan_at tenant i s = None then (Inl (NotFound ''WAN connection not found''), s)
      else (case (cast_text (we_inet env) (uw_gateway dto), cast_text (we_cidr env) (uw_address dto)) of
              (Inl e, _) \<Rightarrow> (Inl e, s)
            | (Inr _, Inl e) \<Rightarrow> (Inl e, s)
            | (Inr gateway, Inr address) \<Rightarrow>
                (case constrained (we_violation env) () (s\<lparr> wst_wans := update_where (\<lambda>w. wn_tenant w = tenant \<and> wn_id w = i)
                          (changed_wan (we_now env) dto gateway address) (wst_wans s) \<rparr>) s of
                   (Inl e, s1) \<Rightarrow> (Inl e, s1)
                 | (Inr _, s1) \<Rightarrow>
                     (let s2 = wan_audit env tenant ''WAN_CONNECTION_UPDATED'' ''wan_connection'' i (jobject [(''changes'', Some (wan_changes dto))]) ctx s1
                      in (get_wan tenant i s2, s2)))))"

subsection \<open>Policies\<close>

record member_input =
  mi_wanConnectionId :: uuid
  mi_configuredWeight :: "int option"
  mi_priority :: "int option"
  mi_enabled :: "bool option"

record create_policy_dto =
  cp_routerId :: uuid
  cp_name :: string
  cp_strategy :: string
  cp_enabled :: "bool option"
  cp_capacityAware :: "bool option"
  cp_rebalanceThreshold :: "rat option"
  cp_degradeThreshold :: "rat option"
  cp_unavailableAfterFailures :: "int option"
  cp_recoverAfterSuccesses :: "int option"
  cp_members :: "member_input list option"

record policy_view =
  pv_policy :: balance_policy
  pv_members :: "wan_member list"
  pv_protocol :: "protocol option"
  pv_managed :: bool
  pv_routing :: routing_support

text \<open>The first member that repeats an earlier one\<close>

fun repeated :: "uuid list \<Rightarrow> uuid list \<Rightarrow> uuid option" where
  "repeated seen [] = None"
| "repeated seen (i # is) = (if i \<in> set seen then Some i else repeated (i # seen) is)"

fun comma_list :: "string list \<Rightarrow> string" where
  "comma_list [] = []"
| "comma_list [t] = t"
| "comma_list (t # ts) = t @ '', '' @ comma_list ts"

definition foreign_members :: "uuid \<Rightarrow> uuid \<Rightarrow> uuid list \<Rightarrow> 'w wan_state \<Rightarrow> uuid list" where
  "foreign_members tenant router is s =
     (let available = map wn_id (select (\<lambda>w. wn_tenant w = tenant \<and> wn_routerId w = router \<and> wn_id w \<in> set is) (wst_wans s))
      in filter (\<lambda>i. i \<notin> set available) is)"

definition new_policy :: "time \<Rightarrow> uuid \<Rightarrow> uuid \<Rightarrow> create_policy_dto \<Rightarrow> balance_policy" where
  "new_policy now tenant i dto = \<lparr> lp_tenant = tenant, lp_id = i, lp_routerId = cp_routerId dto, lp_name = js_trim (cp_name dto),
     lp_strategy = cp_strategy dto, lp_enabled = with_default (cp_enabled dto) True, lp_capacityAware = with_default (cp_capacityAware dto) True,
     lp_rebalanceThreshold = with_default (cp_rebalanceThreshold dto) 15, lp_degradeThreshold = with_default (cp_degradeThreshold dto) 80,
     lp_unavailableAfterFailures = with_default (cp_unavailableAfterFailures dto) 3,
     lp_recoverAfterSuccesses = with_default (cp_recoverAfterSuccesses dto) 3, lp_updatedAt = now \<rparr>"

definition new_member :: "uuid \<Rightarrow> uuid \<Rightarrow> uuid \<Rightarrow> member_input \<Rightarrow> balance_member" where
  "new_member tenant policy i m = \<lparr> lm_tenant = tenant, lm_id = i, lm_policyId = policy, lm_wanConnectionId = mi_wanConnectionId m,
     lm_configuredWeight = with_default (mi_configuredWeight m) 1, lm_priority = with_default (mi_priority m) 100,
     lm_enabled = with_default (mi_enabled m) True \<rparr>"

definition insert_policy :: "'w wan_env \<Rightarrow> uuid \<Rightarrow> create_policy_dto \<Rightarrow> ('w wan_state, uuid) operation" where
  "insert_policy env tenant dto s =
     (let i = new_uuid (wst_db s)
      in constrained (we_violation env) i ((take_id s)\<lparr> wst_policies := insert_row (new_policy (we_now env) tenant i dto) (wst_policies s) \<rparr>) s)"

definition insert_member :: "'w wan_env \<Rightarrow> uuid \<Rightarrow> uuid \<Rightarrow> member_input \<Rightarrow> ('w wan_state, unit) operation" where
  "insert_member env tenant policy m s =
     constrained (we_violation env) () ((take_id s)\<lparr> wst_members := insert_row (new_member tenant policy (new_uuid (wst_db s)) m) (wst_members s) \<rparr>) s"

text \<open>The body of the transaction\<close>

definition insert_policy_members :: "'w wan_env \<Rightarrow> uuid \<Rightarrow> create_policy_dto \<Rightarrow> member_input list \<Rightarrow> ('w wan_state, uuid) operation" where
  "insert_policy_members env tenant dto members s =
     (case insert_policy env tenant dto s of
        (Inl e, s1) \<Rightarrow> (Inl e, s1)
      | (Inr i, s1) \<Rightarrow> (case for_each (insert_member env tenant i) members s1 of (Inl e, s2) \<Rightarrow> (Inl e, s2) | (Inr _, s2) \<Rightarrow> (Inr i, s2)))"

text \<open>A row of \<open>load_balance_members m JOIN wan_connections w\<close>, with the columns the engine reads\<close>

definition member_row :: "'w wan_state \<Rightarrow> balance_member \<Rightarrow> wan_member option" where
  "member_row s m = map_option (\<lambda>w. \<lparr> wm_id = wn_id w, wm_name = wn_name w, wm_interfaceName = wn_interfaceName w, wm_gateway = wn_gateway w,
     wm_capacityMbps = wn_capacityMbps w, wm_configuredWeight = of_int (lm_configuredWeight m), wm_priority = of_int (lm_priority m),
     wm_enabled = lm_enabled m, wm_drainRequested = wn_drainRequested w, wm_healthState = wn_healthState w, wm_utilization = wn_utilization w,
     wm_activeSessions = of_int (wn_activeSessions w) \<rparr>) (wan_at (lm_tenant m) (lm_wanConnectionId m) s)"

definition policy_members :: "uuid \<Rightarrow> uuid \<Rightarrow> 'w wan_state \<Rightarrow> wan_member list" where
  "policy_members tenant i s =
     sort_key (\<lambda>m. (wm_priority m, wm_name m))
       (List.map_filter (member_row s) (select (\<lambda>m. lm_tenant m = tenant \<and> lm_policyId m = i) (wst_members s)))"

definition get_policy :: "uuid \<Rightarrow> uuid \<Rightarrow> 'w wan_state \<Rightarrow> policy_view result" where
  "get_policy tenant i s =
     (case select_one (\<lambda>p. lp_tenant p = tenant \<and> lp_id p = i) (wst_policies s) of
        None \<Rightarrow> Inl (NotFound ''Load-balance policy not found'')
      | Some p \<Rightarrow>
          (case router_at tenant (lp_routerId p) (wst_db s) of
             None \<Rightarrow> Inl (NotFound ''Load-balance policy not found'')
           | Some r \<Rightarrow> Inr \<lparr> pv_policy = p, pv_members = policy_members tenant i s, pv_protocol = ro_protocol r, pv_managed = ro_managementEnabled r,
               pv_routing = routing_capabilities (ro_protocol r) (ro_managementEnabled r) \<rparr>))"

definition create_policy :: "'w wan_env \<Rightarrow> uuid \<Rightarrow> create_policy_dto \<Rightarrow> audit_context \<Rightarrow> ('w wan_state, policy_view) operation" where
  "create_policy env tenant dto ctx s =
     (let members = with_default (cp_members dto) []; is = map mi_wanConnectionId members in
      if router_at tenant (cp_routerId dto) (wst_db s) = None then (Inl (NotFound ''Router not found''), s)
      else (case repeated [] is of
              Some i \<Rightarrow> (Inl (BadRequest (''Duplicate WAN member: '' @ i)), s)
            | None \<Rightarrow>
                (let missing = foreign_members tenant (cp_routerId dto) is s in
                 if missing \<noteq> [] then (Inl (BadRequest (''WAN member does not belong to router: '' @ comma_list missing)), s)
                 else (case transaction (insert_policy_members env tenant dto members) s of
                         (Inl e, s1) \<Rightarrow> (Inl e, s1)
                       | (Inr i, s1) \<Rightarrow>
                           (let s2 = wan_audit env tenant ''LOAD_BALANCE_POLICY_CREATED'' ''load_balance_policy'' i
                                  (jobject [(''routerId'', Some (JStr (cp_routerId dto))), (''strategy'', Some (JStr (cp_strategy dto))),
                                     (''memberCount'', Some (JNum (of_nat (length members))))]) ctx s1
                            in (get_policy tenant i s2, s2))))))"

record policy_summary =
  py_policy :: balance_policy
  py_memberCount :: nat
  py_protocol :: "protocol option"
  py_managed :: bool
  py_routing :: routing_support

definition policy_summary_of :: "'w wan_state \<Rightarrow> balance_policy \<Rightarrow> policy_summary option" where
  "policy_summary_of s p = map_option (\<lambda>r. \<lparr> py_policy = p,
     py_memberCount = count_where (\<lambda>m. lm_tenant m = lp_tenant p \<and> lm_policyId m = lp_id p) (wst_members s), py_protocol = ro_protocol r,
     py_managed = ro_managementEnabled r, py_routing = routing_capabilities (ro_protocol r) (ro_managementEnabled r) \<rparr>)
     (router_at (lp_tenant p) (lp_routerId p) (wst_db s))"

definition list_policies :: "uuid \<Rightarrow> uuid option \<Rightarrow> 'w wan_state \<Rightarrow> policy_summary list" where
  "list_policies tenant routerId s =
     sort_key (\<lambda>v. - lp_updatedAt (py_policy v))
       (List.map_filter (policy_summary_of s)
          (select (\<lambda>p. lp_tenant p = tenant \<and> (case routerId of None \<Rightarrow> True | Some r \<Rightarrow> lp_routerId p = r)) (wst_policies s)))"

subsection \<open>Health checks\<close>

record health_check_dto =
  hc_method :: string
  hc_target :: string
  hc_intervalSeconds :: "int option"
  hc_timeoutMs :: "int option"
  hc_failureThreshold :: "int option"
  hc_recoveryThreshold :: "int option"
  hc_enabled :: "bool option"

definition new_check :: "uuid \<Rightarrow> uuid \<Rightarrow> uuid \<Rightarrow> health_check_dto \<Rightarrow> wan_check" where
  "new_check tenant i wan dto = \<lparr> wk_tenant = tenant, wk_id = i, wk_wanConnectionId = wan, wk_method = hc_method dto, wk_target = js_trim (hc_target dto),
     wk_intervalSeconds = with_default (hc_intervalSeconds dto) 10, wk_timeoutMs = with_default (hc_timeoutMs dto) 3000,
     wk_failureThreshold = with_default (hc_failureThreshold dto) 3, wk_recoveryThreshold = with_default (hc_recoveryThreshold dto) 3,
     wk_enabled = with_default (hc_enabled dto) True \<rparr>"

definition add_health_check :: "'w wan_env \<Rightarrow> uuid \<Rightarrow> uuid \<Rightarrow> health_check_dto \<Rightarrow> audit_context \<Rightarrow> ('w wan_state, uuid) operation" where
  "add_health_check env tenant wan dto ctx s =
     (if wan_at tenant wan s = None then (Inl (NotFound ''WAN connection not found''), s)
      else if js_trim (hc_target dto) = [] then (Inl (BadRequest ''Health-check target is required''), s)
      else (let i = new_uuid (wst_db s) in
        (case constrained (we_violation env) () ((take_id s)\<lparr> wst_checks := insert_row (new_check tenant i wan dto) (wst_checks s) \<rparr>) s of
           (Inl e, s1) \<Rightarrow> (Inl e, s1)
         | (Inr _, s1) \<Rightarrow> (Inr i, wan_audit env tenant ''WAN_HEALTH_CHECK_CREATED'' ''wan_connection'' wan
               (jobject [(''healthCheckId'', Some (JStr i)), (''method'', Some (JStr (hc_method dto))), (''target'', Some (JStr (js_trim (hc_target dto))))])
               ctx s1))))"

subsection \<open>The decision and its application\<close>

record policy_status =
  ps_policy :: policy_view
  ps_decision :: load_balance_decision
  ps_adapterAvailable :: bool
  ps_applyAvailable :: bool

definition policy_status_of :: "uuid \<Rightarrow> uuid \<Rightarrow> 'w wan_state \<Rightarrow> policy_status result" where
  "policy_status_of tenant i s =
     (case get_policy tenant i s of
        Inl e \<Rightarrow> Inl e
      | Inr v \<Rightarrow>
          (case decide_wan i (lp_strategy (pv_policy v)) (pv_members v) (lp_capacityAware (pv_policy v)) of
             Inl e \<Rightarrow> Inl e
           | Inr d \<Rightarrow> Inr \<lparr> ps_policy = v, ps_decision = d, ps_adapterAvailable = has_adapter (pv_protocol v),
               ps_applyAvailable = (has_adapter (pv_protocol v) \<and> rs_routeWrite (pv_routing v)) \<rparr>))"

record share =
  sh_member :: eligible_member
  sh_expectedPercent :: rat

definition distribution_of :: "load_balance_decision \<Rightarrow> share list" where
  "distribution_of d =
     (let total = sum_list (map em_effectiveWeight (ld_eligible d))
      in map (\<lambda>m. \<lparr> sh_member = m, sh_expectedPercent = (if total > 0 then to_fixed 3 (em_effectiveWeight m / total * 100) else 0) \<rparr>) (ld_eligible d))"

record network_apply =
  na_applied :: bool
  na_verified :: bool
  na_protocol :: "protocol option"
  na_remoteState :: "route_view list option"
  na_reason :: "string option"

definition not_invoked :: network_apply where
  "not_invoked = \<lparr> na_applied = False, na_verified = False, na_protocol = None, na_remoteState = None,
     na_reason = Some ''No device routing adapter was invoked.'' \<rparr>"

definition not_configured :: network_apply where
  "not_configured = \<lparr> na_applied = False, na_verified = False, na_protocol = Some MIKROTIK_REST, na_remoteState = None,
     na_reason = Some ''MikroTik routing is enabled but the router API endpoint or encrypted management credentials are not configured.'' \<rparr>"

definition applied_to_device :: "routing_result \<Rightarrow> network_apply" where
  "applied_to_device u = \<lparr> na_applied = ru_applied u, na_verified = ru_verified u, na_protocol = Some MIKROTIK_REST,
     na_remoteState = ru_remoteState u, na_reason = ru_reason u \<rparr>"

definition member_target :: "wan_member \<Rightarrow> routing_target" where
  "member_target m = \<lparr> rt_wanConnectionId = wm_id m, rt_interfaceName = wm_interfaceName m, rt_gateway = wm_gateway m,
     rt_weight = wm_configuredWeight m, rt_priority = wm_priority m \<rparr>"

text \<open>\<open>errorCode\<close>: of the errors of the adapter only those of a request carry a code.\<close>

definition route_error_code :: "exn \<Rightarrow> string" where
  "route_error_code e = (case e of PlainError code \<Rightarrow> code | _ \<Rightarrow> ''NETWORK_ERROR'')"

text \<open>The call of the device: \<open>Inl\<close> is the code of an error.\<close>

definition call_device :: "'w wan_env \<Rightarrow> uuid \<Rightarrow> policy_status \<Rightarrow> 'w wan_state \<Rightarrow> (string + network_apply) \<times> 'w wan_state" where
  "call_device env tenant st s =
     (let v = ps_policy st in
      if has_adapter (pv_protocol v) \<and> pv_managed v \<and> rs_routeWrite (pv_routing v)
      then (case router_at tenant (lp_routerId (pv_policy v)) (wst_db s) of
              None \<Rightarrow> (Inr not_configured, s)
            | Some r \<Rightarrow>
                (case (ro_apiEndpoint r, ro_credentialsEncrypted r) of
                   (Some url, Some payload) \<Rightarrow>
                     if url = [] \<or> payload = [] then (Inr not_configured, s)
                     else (case we_decrypt env payload of
                             Inl code \<Rightarrow> (Inl code, s)
                           | Inr creds \<Rightarrow>
                               (case apply_routes (we_show env) (we_device env url creds) (ps_decision st) (map member_target (pv_members v)) (wst_device s) of
                                  (Inl e, w) \<Rightarrow> (Inl (route_error_code e), s\<lparr> wst_device := w \<rparr>)
                                | (Inr u, w) \<Rightarrow> (Inr (applied_to_device u), s\<lparr> wst_device := w \<rparr>)))
                 | _ \<Rightarrow> (Inr not_configured, s)))
      else (Inr not_invoked, s))"

definition number_json :: "jsnum \<Rightarrow> json" where
  "number_json x = (case x of Fin q \<Rightarrow> JNum q | _ \<Rightarrow> JNull)"

definition route_json :: "route_view \<Rightarrow> json" where
  "route_json v = jobject [(''id'', rv_id v), (''comment'', rv_comment v), (''gateway'', rv_gateway v),
     (''distance'', Some (number_json (rv_distance v))), (''disabled'', Some (JBool (rv_disabled v)))]"

definition share_json :: "share \<Rightarrow> json" where
  "share_json x = jobject [(''wanConnectionId'', Some (JStr (em_wanConnectionId (sh_member x)))),
     (''configuredWeight'', Some (JNum (of_int (em_configuredWeight (sh_member x))))), (''effectiveWeight'', Some (JNum (em_effectiveWeight (sh_member x)))),
     (''expectedSharePercent'', Some (JNum (sh_expectedPercent x))), (''observedUtilizationPercent'', Some (or_null JNum (em_utilization (sh_member x))))]"

definition apply_json :: "network_apply \<Rightarrow> json" where
  "apply_json a = jobject [(''applied'', Some (JBool (na_applied a))), (''verified'', Some (JBool (na_verified a))),
     (''protocol'', map_option (\<lambda>p. JStr (protocol_name p)) (na_protocol a)),
     (''remoteState'', map_option (\<lambda>vs. JArr (map route_json vs)) (na_remoteState a)), (''reason'', map_option JStr (na_reason a))]"

definition rebalance_evidence :: "share list \<Rightarrow> string option \<Rightarrow> network_apply \<Rightarrow> json" where
  "rebalance_evidence distribution reason a = jobject [(''distribution'', Some (JArr (map share_json distribution))),
     (''reason'', Some (JStr (with_default reason ''operator_or_automation''))), (''networkApply'', Some (apply_json a))]"

definition rebalance_key :: "time \<Rightarrow> uuid \<Rightarrow> string" where
  "rebalance_key now i = ''rebalance:'' @ i @ '':'' @ int_str (now div 30000)"

text \<open>\<open>INSERT \<dots> ON CONFLICT (tenant_id, event_type, correlation_id) DO NOTHING\<close>\<close>

definition insert_event :: "'w wan_env \<Rightarrow> balance_event \<Rightarrow> ('w wan_state, unit) operation" where
  "insert_event env e s =
     (if le_correlationId e \<noteq> None \<and>
         exists_row (\<lambda>q. le_tenant q = le_tenant e \<and> le_eventType q = le_eventType e \<and> le_correlationId q = le_correlationId e) (wst_events s)
      then (Inr (), s) else constrained (we_violation env) () (s\<lparr> wst_events := insert_row e (wst_events s) \<rparr>) s)"

record rebalancing =
  rb_status :: policy_status
  rb_distribution :: "share list"
  rb_appliedToRouter :: bool
  rb_networkApply :: network_apply

definition rebalance :: "'w wan_env \<Rightarrow> uuid \<Rightarrow> uuid \<Rightarrow> audit_context \<Rightarrow> string option \<Rightarrow> ('w wan_state, rebalancing) operation" where
  "rebalance env tenant i ctx reason s =
     (case policy_status_of tenant i s of
        Inl e \<Rightarrow> (Inl e, s)
      | Inr st \<Rightarrow>
          (let distribution = distribution_of (ps_decision st) in
           case call_device env tenant st s of
             (Inl code, s1) \<Rightarrow>
               (Inl (BadRequest (''WAN route application failed ('' @ code @ '')'')),
                wan_audit env tenant ''TRAFFIC_REBALANCED_FAILED'' ''load_balance_policy'' i
                  (jobject [(''reason'', Some (JStr (with_default reason ''operator_or_automation''))), (''errorCode'', Some (JStr code)),
                     (''protocol'', Some (or_null (\<lambda>p. JStr (protocol_name p)) (pv_protocol (ps_policy st))))]) ctx s1)
           | (Inr a, s1) \<Rightarrow>
               (let evidence = rebalance_evidence distribution reason a in
                case insert_event env \<lparr> le_tenant = tenant, le_routerId = lp_routerId (pv_policy (ps_policy st)), le_policyId = i,
                    le_eventType = ''TRAFFIC_REBALANCED'', le_correlationId = Some (rebalance_key (we_now env) i), le_evidence = evidence \<rparr> s1 of
                  (Inl e, s2) \<Rightarrow> (Inl e, s2)
                | (Inr _, s2) \<Rightarrow>
                    (let applied = (na_applied a \<and> na_verified a)
                     in (Inr \<lparr> rb_status = st, rb_distribution = distribution, rb_appliedToRouter = applied, rb_networkApply = a \<rparr>,
                         wan_audit env tenant (if applied then ''TRAFFIC_REBALANCED_APPLIED'' else ''TRAFFIC_REBALANCED_DECISION'') ''load_balance_policy'' i
                           evidence ctx s2)))))"

subsection \<open>The tables\<close>

text \<open>
  What the tables promise: a health state is unknown or administrative, a member joins a policy and a connection of the router of that policy, a policy
  has a connection at most once, an event is written once per correlation id, and the identifiers of the policies were handed out.
\<close>

definition administrative :: "wan_connection \<Rightarrow> bool" where
  "administrative w \<longleftrightarrow> wn_healthState w \<in> {UNKNOWN, DISABLED, DRAINING}"

definition joined :: "balance_policy list \<Rightarrow> wan_connection list \<Rightarrow> balance_member \<Rightarrow> bool" where
  "joined ps ws m \<longleftrightarrow> list_ex (\<lambda>p. lp_tenant p = lm_tenant m \<and> lp_id p = lm_policyId m \<and>
     list_ex (\<lambda>w. wn_tenant w = lm_tenant m \<and> wn_id w = lm_wanConnectionId m \<and> wn_routerId w = lp_routerId p) ws) ps"

definition membership :: "balance_member \<Rightarrow> uuid \<times> uuid \<times> uuid" where
  "membership m = (lm_tenant m, lm_policyId m, lm_wanConnectionId m)"

definition event_key :: "balance_event \<Rightarrow> uuid \<times> string \<times> string option" where
  "event_key e = (le_tenant e, le_eventType e, le_correlationId e)"

definition wan_ok :: "'w wan_state \<Rightarrow> bool" where
  "wan_ok s \<longleftrightarrow> list_all administrative (wst_wans s) \<and> list_all (joined (wst_policies s) (wst_wans s)) (wst_members s) \<and>
     distinct (map membership (wst_members s)) \<and> distinct (map event_key (wst_events s)) \<and> fresh_ids (wst_db s) (map lp_id (wst_policies s))"

lemma wan_audit_tables [simp]:
  "wst_wans (wan_audit env t a rs i m c s) = wst_wans s" "wst_policies (wan_audit env t a rs i m c s) = wst_policies s"
  "wst_members (wan_audit env t a rs i m c s) = wst_members s" "wst_events (wan_audit env t a rs i m c s) = wst_events s"
  "wst_checks (wan_audit env t a rs i m c s) = wst_checks s" "next_id (wst_db (wan_audit env t a rs i m c s)) = next_id (wst_db s) + 1"
  "routers (wst_db (wan_audit env t a rs i m c s)) = routers (wst_db s)" "wst_device (wan_audit env t a rs i m c s) = wst_device s"
  by (simp_all add: wan_audit_def)

lemma take_id_tables [simp]:
  "wst_wans (take_id s) = wst_wans s" "wst_policies (take_id s) = wst_policies s" "wst_members (take_id s) = wst_members s"
  "wst_events (take_id s) = wst_events s" "wst_checks (take_id s) = wst_checks s" "next_id (wst_db (take_id s)) = next_id (wst_db s) + 1"
  "routers (wst_db (take_id s)) = routers (wst_db s)" "wst_device (take_id s) = wst_device s"
  by (simp_all add: take_id_def)

lemma wan_ok_frame:
  assumes "wan_ok s" and "wst_wans t = wst_wans s" and "wst_policies t = wst_policies s" and "wst_members t = wst_members s"
    and "wst_events t = wst_events s" and "next_id (wst_db s) \<le> next_id (wst_db t)"
  shows "wan_ok t"
  using assms fresh_ids_mono [of "wst_db s" _ "wst_db t"] by (simp add: wan_ok_def)

lemma wan_audit_ok: "wan_ok s \<Longrightarrow> wan_ok (wan_audit env t a rs i m c s)"
  by (erule wan_ok_frame) simp_all

lemma joined_more:
  assumes "joined ps ws m" and "\<And>p. p \<in> set ps \<Longrightarrow> p \<in> set qs"
    and "\<And>w. w \<in> set ws \<Longrightarrow> \<exists>v\<in>set vs. wn_tenant v = wn_tenant w \<and> wn_id v = wn_id w \<and> wn_routerId v = wn_routerId w"
  shows "joined qs vs m"
proof -
  obtain p w where p: "p \<in> set ps" "lp_tenant p = lm_tenant m" "lp_id p = lm_policyId m"
    and w: "w \<in> set ws" "wn_tenant w = lm_tenant m" "wn_id w = lm_wanConnectionId m" "wn_routerId w = lp_routerId p"
    using assms(1) by (auto simp: joined_def list_ex_iff)
  obtain v where v: "v \<in> set vs" "wn_tenant v = wn_tenant w" "wn_id v = wn_id w" "wn_routerId v = wn_routerId w" using assms(3) [OF w(1)] by blast
  then have "list_ex (\<lambda>w. wn_tenant w = lm_tenant m \<and> wn_id w = lm_wanConnectionId m \<and> wn_routerId w = lp_routerId p) vs"
    unfolding list_ex_iff by (intro bexI [of _ v]) (simp_all add: w)
  then show ?thesis unfolding joined_def list_ex_iff using p assms(2) [OF p(1)] by blast
qed

lemma new_wan_key [simp]:
  "wn_healthState (new_wan env tenant i dto g a) = UNKNOWN" "wn_tenant (new_wan env tenant i dto g a) = tenant" "wn_id (new_wan env tenant i dto g a) = i"
  by (simp_all add: new_wan_def)

lemma insert_wan_ok:
  assumes "wan_ok s" and "insert_wan env tenant dto s = (r, s')"
  shows "wan_ok s'"
proof -
  have added: "wan_ok ((take_id s)\<lparr> wst_wans := insert_row w (wst_wans s) \<rparr>)" if "administrative w" for w
  proof -
    have "joined (wst_policies s) (insert_row w (wst_wans s)) m" if "joined (wst_policies s) (wst_wans s) m" for m
      by (rule joined_more [OF that]) auto
    then show ?thesis using assms(1) that fresh_ids_mono [of "wst_db s" "map lp_id (wst_policies s)" "wst_db (take_id s)"]
      by (auto simp: wan_ok_def list_all_iff)
  qed
  consider "s' = s"
    | g a where "s' = (take_id s)\<lparr> wst_wans := insert_row (new_wan env tenant (new_uuid (wst_db s)) dto g a) (wst_wans s) \<rparr>"
    using assms(2) by (auto simp: insert_wan_def Let_def dest!: constrained_result split: sum.splits)
  then show ?thesis
  proof cases
    case 1
    then show ?thesis using assms(1) by simp
  next
    case 2
    show ?thesis unfolding 2 by (rule added) (simp add: administrative_def)
  qed
qed

lemma create_wan_ok:
  assumes "wan_ok s" and "create_wan env tenant dto ctx s = (r, s')"
  shows "wan_ok s'"
  using assms(2) insert_wan_ok [OF assms(1), of env tenant dto] assms(1)
  by (auto simp: create_wan_def Let_def intro: wan_audit_ok split: if_splits prod.splits sum.splits)

lemma changed_wan_key [simp]:
  "wn_tenant (changed_wan now dto g a w) = wn_tenant w" "wn_id (changed_wan now dto g a w) = wn_id w"
  "wn_routerId (changed_wan now dto g a w) = wn_routerId w"
  "wn_healthState (changed_wan now dto g a w) =
     health_after (with_default (uw_enabled dto) (wn_enabled w)) (with_default (uw_drainRequested dto) (wn_drainRequested w)) (wn_healthState w)"
  by (simp_all add: changed_wan_def Let_def)

lemma update_wan_ok:
  assumes "wan_ok s" and "update_wan env tenant i dto ctx s = (r, s')"
  shows "wan_ok s'"
proof -
  have changed: "wan_ok (s\<lparr> wst_wans := update_where P (changed_wan now dto g a) (wst_wans s) \<rparr>)" for P now g a
  proof -
    have "joined (wst_policies s) (update_where P (changed_wan now dto g a) (wst_wans s)) m" if "joined (wst_policies s) (wst_wans s) m" for m
    proof (rule joined_more [OF that])
      fix w assume "w \<in> set (wst_wans s)"
      then have "(if P w then changed_wan now dto g a w else w) \<in> set (update_where P (changed_wan now dto g a) (wst_wans s))"
        unfolding in_update_where by blast
      then show "\<exists>v\<in>set (update_where P (changed_wan now dto g a) (wst_wans s)).
          wn_tenant v = wn_tenant w \<and> wn_id v = wn_id w \<and> wn_routerId v = wn_routerId w"
        by (rule rev_bexI) simp
    qed
    moreover have "administrative (changed_wan now dto g a w)" if "administrative w" for w
      using that by (simp add: administrative_def health_after_def)
    ultimately show ?thesis using assms(1) by (auto simp: wan_ok_def list_all_iff in_update_where)
  qed
  consider "s' = s" | now g a P where "s' = s\<lparr> wst_wans := update_where P (changed_wan now dto g a) (wst_wans s) \<rparr>"
    | now g a P rs ac m where "s' = wan_audit env tenant ac rs i m ctx (s\<lparr> wst_wans := update_where P (changed_wan now dto g a) (wst_wans s) \<rparr>)"
    using assms(2) by (auto simp: update_wan_def Let_def constrained_def split: if_splits sum.splits prod.splits option.splits)
  then show ?thesis by cases (use assms(1) changed in \<open>simp_all add: wan_audit_ok\<close>)
qed

subsection \<open>Creating a policy\<close>

lemma repeated_None: "repeated seen is = None \<longleftrightarrow> distinct is \<and> set is \<inter> set seen = {}"
  by (induction "is" arbitrary: seen) auto

lemma insert_member_Inr:
  "insert_member env tenant policy m s = (Inr u, t) \<Longrightarrow>
     t = (take_id s)\<lparr> wst_members := insert_row (new_member tenant policy (new_uuid (wst_db s)) m) (wst_members s) \<rparr>"
  by (simp add: insert_member_def constrained_def split: option.splits)

lemma insert_members_result:
  assumes "for_each (insert_member env tenant policy) members s = (Inr u, s')"
  shows "\<exists>ids. length ids = length members \<and> wst_members s' = wst_members s @ map2 (\<lambda>i m. new_member tenant policy i m) ids members \<and>
    wst_wans s' = wst_wans s \<and> wst_policies s' = wst_policies s \<and> wst_events s' = wst_events s \<and> next_id (wst_db s) \<le> next_id (wst_db s') \<and>
    routers (wst_db s') = routers (wst_db s) \<and> wst_device s' = wst_device s"
  using assms
proof (induction members arbitrary: s)
  case Nil
  then show ?case by simp
next
  case (Cons m members)
  define s1 where "s1 = (take_id s)\<lparr> wst_members := insert_row (new_member tenant policy (new_uuid (wst_db s)) m) (wst_members s) \<rparr>"
  obtain t where t: "insert_member env tenant policy m s = (Inr (), t)" "for_each (insert_member env tenant policy) members t = (Inr u, s')"
    using Cons.prems by (auto split: prod.splits sum.splits)
  have "t = s1" using insert_member_Inr [OF t(1)] by (simp only: s1_def)
  then obtain ids where ids: "length ids = length members"
      "wst_members s' = wst_members s1 @ map2 (\<lambda>i m. new_member tenant policy i m) ids members"
      "wst_wans s' = wst_wans s1" "wst_policies s' = wst_policies s1" "wst_events s' = wst_events s1" "next_id (wst_db s1) \<le> next_id (wst_db s')"
      "routers (wst_db s') = routers (wst_db s1)" "wst_device s' = wst_device s1"
    using Cons.IH [OF t(2)] by blast
  show ?case by (rule exI [of _ "new_uuid (wst_db s) # ids"]) (use ids in \<open>simp add: s1_def insert_row_def\<close>)
qed

text \<open>The state a successful transaction leaves\<close>

lemma insert_policy_members_result:
  assumes "insert_policy_members env tenant dto members s = (Inr i, s')"
  obtains ids where "i = new_uuid (wst_db s)" "length ids = length members"
    "wst_members s' = wst_members s @ map2 (\<lambda>j m. new_member tenant i j m) ids members" "wst_wans s' = wst_wans s"
    "wst_policies s' = wst_policies s @ [new_policy (we_now env) tenant i dto]" "wst_events s' = wst_events s"
    "next_id (wst_db s) < next_id (wst_db s')" "routers (wst_db s') = routers (wst_db s)"
proof -
  let ?i = "new_uuid (wst_db s)"
  let ?s1 = "(take_id s)\<lparr> wst_policies := insert_row (new_policy (we_now env) tenant ?i dto) (wst_policies s) \<rparr>"
  have i: "i = ?i" and f: "\<exists>u. for_each (insert_member env tenant ?i) members ?s1 = (Inr u, s')"
    using assms by (auto simp: insert_policy_members_def insert_policy_def Let_def dest!: constrained_result split: prod.splits sum.splits)
  then obtain ids where "length ids = length members" "wst_members s' = wst_members ?s1 @ map2 (\<lambda>j m. new_member tenant ?i j m) ids members"
      "wst_wans s' = wst_wans ?s1" "wst_policies s' = wst_policies ?s1" "wst_events s' = wst_events ?s1" "next_id (wst_db ?s1) \<le> next_id (wst_db s')"
      "routers (wst_db s') = routers (wst_db ?s1)"
    using insert_members_result by blast
  then show thesis by (intro that [of ids]) (simp_all add: i insert_row_def)
qed

lemma new_member_fields [simp]:
  "lm_tenant (new_member tenant policy i m) = tenant" "lm_policyId (new_member tenant policy i m) = policy"
  "lm_wanConnectionId (new_member tenant policy i m) = mi_wanConnectionId m"
  by (simp_all add: new_member_def)

lemma new_policy_fields [simp]:
  "lp_tenant (new_policy now tenant i dto) = tenant" "lp_id (new_policy now tenant i dto) = i" "lp_routerId (new_policy now tenant i dto) = cp_routerId dto"
  by (simp_all add: new_policy_def)

lemma foreign_members_Nil:
  assumes "foreign_members tenant router is s = []" and "i \<in> set is"
  obtains w where "w \<in> set (wst_wans s)" "wn_tenant w = tenant" "wn_id w = i" "wn_routerId w = router"
proof -
  have "i \<in> wn_id ` set (select (\<lambda>w. wn_tenant w = tenant \<and> wn_routerId w = router \<and> wn_id w \<in> set is) (wst_wans s))"
    using assms by (simp add: foreign_members_def filter_empty_conv)
  then obtain w where "w \<in> set (wst_wans s)" "wn_tenant w = tenant" "wn_routerId w = router" "wn_id w = i" by auto
  then show thesis by (intro that [of w])
qed

lemma joined_policy:
  assumes "wan_ok s" and "m \<in> set (wst_members s)"
  shows "lm_policyId m \<noteq> new_uuid (wst_db s)"
proof -
  have "joined (wst_policies s) (wst_wans s) m" using assms by (simp add: wan_ok_def list_all_iff)
  then obtain p where "p \<in> set (wst_policies s)" "lp_id p = lm_policyId m" by (auto simp: joined_def list_ex_iff)
  then have "lm_policyId m \<in> set (map lp_id (wst_policies s))" by (auto intro: rev_image_eqI)
  moreover have "new_uuid (wst_db s) \<notin> set (map lp_id (wst_policies s))" using assms(1) by (intro fresh_ids_new) (simp add: wan_ok_def)
  ultimately show ?thesis by metis
qed

lemma new_memberships:
  "length ids = length members \<Longrightarrow>
     map membership (map2 (\<lambda>j m. new_member tenant i j m) ids members) = map (\<lambda>m. (tenant, i, mi_wanConnectionId m)) members"
  by (induction ids members rule: list_induct2) (simp_all add: membership_def)

lemma insert_policy_members_ok:
  assumes ok: "wan_ok s" and new: "repeated [] (map mi_wanConnectionId members) = None"
    and own: "foreign_members tenant (cp_routerId dto) (map mi_wanConnectionId members) s = []"
    and run: "insert_policy_members env tenant dto members s = (Inr i, s')"
  shows "wan_ok s'"
proof -
  obtain ids where r: "i = new_uuid (wst_db s)" "length ids = length members"
    "wst_members s' = wst_members s @ map2 (\<lambda>j m. new_member tenant i j m) ids members" "wst_wans s' = wst_wans s"
    "wst_policies s' = wst_policies s @ [new_policy (we_now env) tenant i dto]" "wst_events s' = wst_events s"
    "next_id (wst_db s) < next_id (wst_db s')" by (rule insert_policy_members_result [OF run])
  have old: "joined (wst_policies s') (wst_wans s') m" if "m \<in> set (wst_members s)" for m
    by (rule joined_more [of "wst_policies s" "wst_wans s"]) (use ok that r(4,5) in \<open>auto simp: wan_ok_def list_all_iff\<close>)
  have fresh_members: "joined (wst_policies s') (wst_wans s') (new_member tenant i j m)" if "m \<in> set members" for j m
  proof -
    have m: "mi_wanConnectionId m \<in> set (map mi_wanConnectionId members)" using that by simp
    obtain w where "w \<in> set (wst_wans s)" "wn_tenant w = tenant" "wn_id w = mi_wanConnectionId m" "wn_routerId w = cp_routerId dto"
      by (rule foreign_members_Nil [OF own m])
    then show ?thesis by (auto simp: joined_def list_ex_iff r(4,5))
  qed
  have "list_all (joined (wst_policies s') (wst_wans s')) (wst_members s')"
    using old fresh_members by (auto simp: list_all_iff r(3) set_zip)
  moreover have "distinct (map membership (wst_members s'))"
  proof -
    have "distinct (map mi_wanConnectionId members)" using new by (simp add: repeated_None)
    then have "distinct (map (\<lambda>m. (tenant, i, mi_wanConnectionId m)) members)" by (simp add: distinct_map inj_on_def)
    moreover have "(tenant, i, x) \<notin> membership ` set (wst_members s)" for x
    proof
      assume "(tenant, i, x) \<in> membership ` set (wst_members s)"
      then obtain m where m: "m \<in> set (wst_members s)" "i = lm_policyId m" by (auto simp: membership_def)
      then show False using joined_policy [OF ok m(1)] r(1) by simp
    qed
    moreover have "map membership (wst_members s') = map membership (wst_members s) @ map (\<lambda>m. (tenant, i, mi_wanConnectionId m)) members"
      by (simp only: r(3) map_append new_memberships [OF r(2)])
    moreover have "distinct (map membership (wst_members s))" using ok by (simp add: wan_ok_def)
    ultimately show ?thesis by auto
  qed
  moreover have "fresh_ids (wst_db s') (map lp_id (wst_policies s'))"
    using fresh_ids_extend [of "wst_db s" "map lp_id (wst_policies s)" "wst_db s'"] ok r(1,7) by (simp add: r(5) wan_ok_def)
  ultimately show ?thesis using ok by (simp add: wan_ok_def r(4,6))
qed

lemma create_policy_cases:
  assumes "create_policy env tenant dto ctx s = (r, s')"
  obtains e where "r = Inl e" "s' = s"
  | i s1 m where "router_at tenant (cp_routerId dto) (wst_db s) \<noteq> None" "repeated [] (map mi_wanConnectionId (with_default (cp_members dto) [])) = None"
      "foreign_members tenant (cp_routerId dto) (map mi_wanConnectionId (with_default (cp_members dto) [])) s = []"
      "insert_policy_members env tenant dto (with_default (cp_members dto) []) s = (Inr i, s1)"
      "s' = wan_audit env tenant ''LOAD_BALANCE_POLICY_CREATED'' ''load_balance_policy'' i m ctx s1" "r = get_policy tenant i s'"
proof -
  let ?members = "with_default (cp_members dto) []"
  show thesis
  proof (cases "router_at tenant (cp_routerId dto) (wst_db s) = None \<or> repeated [] (map mi_wanConnectionId ?members) \<noteq> None \<or>
      foreign_members tenant (cp_routerId dto) (map mi_wanConnectionId ?members) s \<noteq> []")
    case True
    have "\<exists>e. r = Inl e \<and> s' = s"
    proof (cases "repeated [] (map mi_wanConnectionId ?members)")
      case None
      then show ?thesis using assms True by (auto simp: create_policy_def Let_def split: if_splits)
    next
      case (Some i)
      then show ?thesis using assms by (auto simp: create_policy_def Let_def split: if_splits)
    qed
    then obtain e where "r = Inl e" "s' = s" by blast
    then show thesis by (rule that(1))
  next
    case False
    obtain q s1 where Pair: "transaction (insert_policy_members env tenant dto ?members) s = (q, s1)" by fastforce
    obtain rt where rt: "router_at tenant (cp_routerId dto) (wst_db s) = Some rt" using False by auto
    have free: "repeated [] (map mi_wanConnectionId ?members) = None" "foreign_members tenant (cp_routerId dto) (map mi_wanConnectionId ?members) s = []"
      using False by simp_all
    note run = assms [unfolded create_policy_def Let_def rt free Pair]
    show thesis
    proof (cases q)
      case (Inl e)
      then show thesis using run transaction_error [OF Pair [unfolded Inl]] by (intro that(1) [of e]) simp_all
    next
      case (Inr i)
      then have "insert_policy_members env tenant dto ?members s = (Inr i, s1)" using Pair by (simp add: transaction_Inr)
      moreover have "\<exists>m. s' = wan_audit env tenant ''LOAD_BALANCE_POLICY_CREATED'' ''load_balance_policy'' i m ctx s1 \<and> r = get_policy tenant i s'"
        using run Inr by auto
      ultimately show thesis using rt free that(2) [of i s1] by auto
    qed
  qed
qed

lemma create_policy_ok:
  assumes "wan_ok s" and "create_policy env tenant dto ctx s = (r, s')"
  shows "wan_ok s'"
  using assms(2)
proof (cases rule: create_policy_cases)
  case 1
  then show ?thesis using assms(1) by simp
next
  case (2 i s1 m)
  show ?thesis unfolding 2(5) by (rule wan_audit_ok, rule insert_policy_members_ok [OF assms(1) 2(2,3,4)])
qed

subsection \<open>Reachable tables\<close>

lemma add_health_check_ok:
  assumes "wan_ok s" and "add_health_check env tenant wan dto ctx s = (r, s')"
  shows "wan_ok s'"
proof -
  have "wan_ok ((take_id s)\<lparr> wst_checks := c \<rparr>)" for c by (rule wan_ok_frame [OF assms(1)]) simp_all
  then show ?thesis using assms
    by (auto simp: add_health_check_def constrained_def Let_def intro: wan_audit_ok split: if_splits option.splits prod.splits)
qed

lemma call_device_tables:
  assumes "call_device env tenant st s = (r, s')"
  obtains w where "s' = s\<lparr> wst_device := w \<rparr>"
proof -
  have "s\<lparr> wst_device := wst_device s \<rparr> = s" by simp
  then have "\<exists>w. s' = s\<lparr> wst_device := w \<rparr>"
    using assms by (auto simp: call_device_def Let_def split: if_splits option.splits sum.splits prod.splits intro: exI [of _ "wst_device s"])
  then show thesis using that by blast
qed

lemma insert_event_ok:
  assumes "wan_ok s" and "insert_event env e s = (r, s')" and "le_correlationId e \<noteq> None"
  shows "wan_ok s'"
proof (cases "s' = s")
  case True
  then show ?thesis using assms(1) by simp
next
  case False
  then have "s' = s\<lparr> wst_events := insert_row e (wst_events s) \<rparr>" "event_key e \<notin> event_key ` set (wst_events s)"
    using assms(2,3) by (auto simp: insert_event_def event_key_def exists_row_iff dest!: constrained_result split: if_splits)
  then show ?thesis using assms(1) by (simp add: wan_ok_def map_insert_row)
qed

lemma rebalance_ok:
  assumes "wan_ok s" and "rebalance env tenant i ctx reason s = (r, s')"
  shows "wan_ok s'"
proof (cases "policy_status_of tenant i s")
  case (Inl e)
  then show ?thesis using assms by (simp add: rebalance_def)
next
  case (Inr st)
  obtain q s1 where call: "call_device env tenant st s = (q, s1)" by fastforce
  then obtain w where "s1 = s\<lparr> wst_device := w \<rparr>" by (rule call_device_tables)
  then have ok: "wan_ok s1" by (intro wan_ok_frame [OF assms(1)]) simp_all
  show ?thesis
  proof (cases q)
    case (Inl code)
    then show ?thesis using assms(2) \<open>policy_status_of tenant i s = Inr st\<close> call wan_audit_ok [OF ok] by (auto simp: rebalance_def Let_def)
  next
    case ap: (Inr a)
    let ?e = "\<lparr> le_tenant = tenant, le_routerId = lp_routerId (pv_policy (ps_policy st)), le_policyId = i, le_eventType = ''TRAFFIC_REBALANCED'',
        le_correlationId = Some (rebalance_key (we_now env) i), le_evidence = rebalance_evidence (distribution_of (ps_decision st)) reason a \<rparr>"
    obtain q2 s2 where ev: "insert_event env ?e s1 = (q2, s2)" by fastforce
    have "wan_ok s2" by (rule insert_event_ok [OF ok ev]) simp
    then show ?thesis using assms(2) Inr call ap ev wan_audit_ok by (cases q2) (auto simp: rebalance_def Let_def)
  qed
qed

text \<open>The operations of the service, and between them whatever other services do to the shared database and administrators to the devices\<close>

inductive wan_reachable :: "'w wan_state \<Rightarrow> bool" where
  wan_start: "wan_reachable \<lparr> wst_db = d, wst_wans = [], wst_policies = [], wst_members = [], wst_events = [], wst_checks = [], wst_device = w \<rparr>"
| wan_others: "wan_reachable s \<Longrightarrow> next_id (wst_db s) \<le> next_id d \<Longrightarrow> wan_reachable (s\<lparr> wst_db := d, wst_device := w \<rparr>)"
| wan_created: "wan_reachable s \<Longrightarrow> wan_reachable (snd (create_wan env tenant new ctx s))"
| wan_updated: "wan_reachable s \<Longrightarrow> wan_reachable (snd (update_wan env tenant i changes ctx s))"
| wan_policy: "wan_reachable s \<Longrightarrow> wan_reachable (snd (create_policy env tenant policy ctx s))"
| wan_check: "wan_reachable s \<Longrightarrow> wan_reachable (snd (add_health_check env tenant i check ctx s))"
| wan_rebalanced: "wan_reachable s \<Longrightarrow> wan_reachable (snd (rebalance env tenant i ctx reason s))"

lemma wan_reachable_ok: "wan_reachable s \<Longrightarrow> wan_ok s"
proof (induction rule: wan_reachable.induct)
  case (wan_start d w)
  then show ?case by (simp add: wan_ok_def fresh_ids_def)
next
  case (wan_others s d w)
  show ?case by (rule wan_ok_frame [OF wan_others.IH]) (use wan_others.hyps in simp_all)
qed (metis create_wan_ok update_wan_ok create_policy_ok add_health_check_ok rebalance_ok prod.collapse)+

text \<open>The event a rebalancing writes\<close>

definition rebalanced_before :: "'w wan_env \<Rightarrow> uuid \<Rightarrow> uuid \<Rightarrow> 'w wan_state \<Rightarrow> bool" where
  "rebalanced_before env tenant i s \<longleftrightarrow> exists_row (\<lambda>e. le_tenant e = tenant \<and> le_eventType e = ''TRAFFIC_REBALANCED'' \<and>
     le_correlationId e = Some (rebalance_key (we_now env) i)) (wst_events s)"

definition rebalancing_event :: "'w wan_env \<Rightarrow> uuid \<Rightarrow> uuid \<Rightarrow> string option \<Rightarrow> rebalancing \<Rightarrow> balance_event" where
  "rebalancing_event env tenant i reason v = \<lparr> le_tenant = tenant, le_routerId = lp_routerId (pv_policy (ps_policy (rb_status v))), le_policyId = i,
     le_eventType = ''TRAFFIC_REBALANCED'', le_correlationId = Some (rebalance_key (we_now env) i),
     le_evidence = rebalance_evidence (rb_distribution v) reason (rb_networkApply v) \<rparr>"

lemma insert_event_cases:
  assumes "insert_event env e s = (r, s')"
  obtains (kept) "r = Inr ()" "s' = s" "exists_row (\<lambda>q. event_key q = event_key e) (wst_events s)"
    | (added) "r = Inr ()" "s' = s\<lparr> wst_events := wst_events s @ [e] \<rparr>" "le_correlationId e \<noteq> None \<Longrightarrow> \<not> exists_row (\<lambda>q. event_key q = event_key e) (wst_events s)"
    | (refused) x where "r = Inl x" "s' = s"
  using assms by (auto simp: insert_event_def event_key_def insert_row_def constrained_def split: if_splits option.splits)

lemma rebalance_events:
  assumes "rebalance env tenant i ctx reason s = (r, s')"
  shows "case r of Inl e \<Rightarrow> wst_events s' = wst_events s
    | Inr v \<Rightarrow> wst_events s' = wst_events s @ (if rebalanced_before env tenant i s then [] else [rebalancing_event env tenant i reason v])"
proof (cases "policy_status_of tenant i s")
  case (Inl e)
  then show ?thesis using assms by (auto simp: rebalance_def)
next
  case st: (Inr st)
  obtain q s1 where call: "call_device env tenant st s = (q, s1)" by fastforce
  then have kept: "wst_events s1 = wst_events s" by (rule call_device_tables) simp
  show ?thesis
  proof (cases q)
    case (Inl code)
    then show ?thesis using assms st call kept by (auto simp: rebalance_def Let_def)
  next
    case ap: (Inr a)
    let ?e = "\<lparr> le_tenant = tenant, le_routerId = lp_routerId (pv_policy (ps_policy st)), le_policyId = i, le_eventType = ''TRAFFIC_REBALANCED'',
        le_correlationId = Some (rebalance_key (we_now env) i), le_evidence = rebalance_evidence (distribution_of (ps_decision st)) reason a \<rparr>"
    obtain q2 s2 where ev: "insert_event env ?e s1 = (q2, s2)" by fastforce
    note run = assms [unfolded rebalance_def st call ap Let_def sum.case prod.case ev]
    have before: "rebalanced_before env tenant i s = exists_row (\<lambda>q. event_key q = event_key ?e) (wst_events s1)"
      by (simp add: rebalanced_before_def kept event_key_def)
    from ev show ?thesis
    proof (cases rule: insert_event_cases)
      case (refused x)
      then show ?thesis using run kept by auto
    qed (use run kept before in \<open>auto simp: rebalancing_event_def\<close>)
  qed
qed


text \<open>A member of a policy as the requester wrote it, with the defaults\<close>

definition requested :: "member_input \<Rightarrow> uuid \<times> rat \<times> rat \<times> bool" where
  "requested m = (mi_wanConnectionId m, of_int (with_default (mi_configuredWeight m) 1), of_int (with_default (mi_priority m) 100),
     with_default (mi_enabled m) True)"

definition shown :: "wan_member \<Rightarrow> uuid \<times> rat \<times> rat \<times> bool" where
  "shown m = (wm_id m, wm_configuredWeight m, wm_priority m, wm_enabled m)"

lemma wan_at_some:
  assumes "w \<in> set (wst_wans s)" and "wn_tenant w = tenant" and "wn_id w = i"
  obtains v where "wan_at tenant i s = Some v" "wn_id v = i"
proof (cases "wan_at tenant i s")
  case None
  then show thesis using assms by (auto simp: wan_at_def select_one_None)
next
  case (Some v)
  then show thesis using that select_one_Some [of _ "wst_wans s" v] unfolding wan_at_def by blast
qed

lemma member_rows:
  assumes "length ids = length members" and "\<And>m. m \<in> set members \<Longrightarrow> \<exists>v. wan_at tenant (mi_wanConnectionId m) s = Some v \<and> wn_id v = mi_wanConnectionId m"
  shows "map shown (List.map_filter (member_row s) (map2 (\<lambda>j m. new_member tenant i j m) ids members)) = map requested members"
  using assms
proof (induction ids members rule: list_induct2)
  case Nil
  then show ?case by (simp add: List.map_filter_def)
next
  case (Cons j ids m members)
  obtain v where v: "wan_at tenant (mi_wanConnectionId m) s = Some v" "wn_id v = mi_wanConnectionId m" using Cons.prems [of m] by auto
  have "map shown (List.map_filter (member_row s) (map2 (\<lambda>j m. new_member tenant i j m) ids members)) = map requested members"
    by (rule Cons.IH) (use Cons.prems in simp)
  moreover have "\<exists>u. member_row s (new_member tenant i j m) = Some u \<and> shown u = requested m"
    using v by (simp add: member_row_def shown_def requested_def new_member_def)
  ultimately show ?case by (auto simp: List.map_filter_simps)
qed

lemma created_policy:
  assumes ok: "wan_ok s" and run: "create_policy env tenant dto ctx s = (r, s')"
  shows "case r of Inl _ \<Rightarrow> s' = s | Inr v \<Rightarrow>
    pv_policy v = new_policy (we_now env) tenant (new_uuid (wst_db s)) dto \<and> get_policy tenant (new_uuid (wst_db s)) s' = Inr v \<and>
    mset (map shown (pv_members v)) = mset (map requested (with_default (cp_members dto) []))"
  using run
proof (cases rule: create_policy_cases)
  case 1
  then show ?thesis by simp
next
  case (2 i s1 m)
  let ?members = "with_default (cp_members dto) []"
  obtain ids where t: "i = new_uuid (wst_db s)" "length ids = length ?members"
    "wst_members s1 = wst_members s @ map2 (\<lambda>j m. new_member tenant i j m) ids ?members" "wst_wans s1 = wst_wans s"
    "wst_policies s1 = wst_policies s @ [new_policy (we_now env) tenant i dto]" "wst_events s1 = wst_events s"
    "next_id (wst_db s) < next_id (wst_db s1)" "routers (wst_db s1) = routers (wst_db s)" by (rule insert_policy_members_result [OF 2(4)])
  obtain rt where rt: "router_at tenant (cp_routerId dto) (wst_db s') = Some rt" using 2(1) by (auto simp: 2(5) router_at_def t(8))
  have "i \<notin> lp_id ` set (wst_policies s)" using fresh_ids_new [of "wst_db s" "map lp_id (wst_policies s)"] ok t(1) by (simp add: wan_ok_def)
  then have "select_one (\<lambda>p. lp_tenant p = tenant \<and> lp_id p = i) (wst_policies s) = None" by (auto simp: select_one_None)
  then have policy: "select_one (\<lambda>p. lp_tenant p = tenant \<and> lp_id p = i) (wst_policies s') = Some (new_policy (we_now env) tenant i dto)"
    using select_one_insert_row [of "\<lambda>p. lp_tenant p = tenant \<and> lp_id p = i" "new_policy (we_now env) tenant i dto" "wst_policies s"]
    by (simp add: 2(5) t(5) insert_row_def)
  have old: "filter (\<lambda>m. lm_tenant m = tenant \<and> lm_policyId m = i) (wst_members s) = []"
    using joined_policy [OF ok] by (auto simp: filter_empty_conv t(1))
  have new: "filter (\<lambda>m. lm_tenant m = tenant \<and> lm_policyId m = i) (map2 (\<lambda>j m. new_member tenant i j m) ids ?members) =
      map2 (\<lambda>j m. new_member tenant i j m) ids ?members" by (auto simp: filter_id_conv set_zip)
  have rows: "select (\<lambda>m. lm_tenant m = tenant \<and> lm_policyId m = i) (wst_members s') = map2 (\<lambda>j m. new_member tenant i j m) ids ?members"
    unfolding select_def 2(5) wan_audit_tables t(3) filter_append old new by simp
  have wans: "\<exists>v. wan_at tenant (mi_wanConnectionId m) s' = Some v \<and> wn_id v = mi_wanConnectionId m" if "m \<in> set ?members" for m
  proof -
    have "mi_wanConnectionId m \<in> set (map mi_wanConnectionId ?members)" using that by simp
    then obtain w where "w \<in> set (wst_wans s)" "wn_tenant w = tenant" "wn_id w = mi_wanConnectionId m"
      by (rule foreign_members_Nil [OF 2(3)])
    moreover have "wst_wans s' = wst_wans s" by (simp add: 2(5) t(4))
    ultimately show ?thesis using wan_at_some [of w s' tenant "mi_wanConnectionId m"] by metis
  qed
  have "mset (map shown (policy_members tenant i s')) =
      mset (map shown (List.map_filter (member_row s') (map2 (\<lambda>j m. new_member tenant i j m) ids ?members)))"
    unfolding policy_members_def rows by simp
  also have "\<dots> = mset (map requested ?members)" by (simp only: member_rows [OF t(2) wans])
  finally have "mset (map shown (policy_members tenant i s')) = mset (map requested ?members)" .
  moreover have "r = Inr \<lparr> pv_policy = new_policy (we_now env) tenant i dto, pv_members = policy_members tenant i s', pv_protocol = ro_protocol rt,
      pv_managed = ro_managementEnabled rt, pv_routing = routing_capabilities (ro_protocol rt) (ro_managementEnabled rt) \<rparr>"
    using policy rt by (simp add: 2(6) get_policy_def)
  ultimately show ?thesis using 2(6) t(1) by simp
qed


subsection \<open>What the decisions come to\<close>

lemma policy_members_administrative:
  assumes "wan_ok s" and "m \<in> set (policy_members tenant i s)"
  shows "\<not> wan_available m"
proof -
  have "m \<in> set (List.map_filter (member_row s) (select (\<lambda>m. lm_tenant m = tenant \<and> lm_policyId m = i) (wst_members s)))"
    using assms(2) by (simp add: policy_members_def)
  then obtain b where "member_row s b = Some m" by (auto simp: List.map_filter_def)
  then obtain w where w: "wan_at (lm_tenant b) (lm_wanConnectionId b) s = Some w" "wm_healthState m = wn_healthState w"
    by (auto simp: member_row_def)
  have "administrative w" using select_one_Some [OF w(1) [unfolded wan_at_def]] assms(1) by (simp add: wan_ok_def list_all_iff)
  then show ?thesis using w(2) by (auto simp: administrative_def wan_available_def)
qed

lemma status_decides:
  assumes "policy_status_of tenant i s = Inr st"
  shows "get_policy tenant i s = Inr (ps_policy st) \<and>
    decide_wan i (lp_strategy (pv_policy (ps_policy st))) (pv_members (ps_policy st)) (lp_capacityAware (pv_policy (ps_policy st))) = Inr (ps_decision st) \<and>
    pv_members (ps_policy st) = policy_members tenant i s"
  using assms by (auto simp: policy_status_of_def get_policy_def split: sum.splits option.splits)

lemma nothing_selected: "decide_wan i strategy ms ca = Inr d \<Longrightarrow> select_members strategy ms = [] \<Longrightarrow> ld_eligible d = []"
  by (auto simp: decide_wan_def Let_def split: if_splits)

text \<open>
  No operation of the service makes a connection healthy: it is created as unknown, and switching it back on or ending its draining keeps the state it
  was given for that. So the decision for a policy never selects a member.
\<close>

lemma no_connection_is_ever_eligible:
  assumes "wan_reachable s" and "policy_status_of tenant i s = Inr st"
  shows "ld_eligible (ps_decision st) = []"
proof -
  have "filter wan_available (pv_members (ps_policy st)) = []"
    using policy_members_administrative [OF wan_reachable_ok [OF assms(1)]] status_decides [OF assms(2)] by (simp add: filter_empty_conv)
  then have "select_members strategy (pv_members (ps_policy st)) = []" for strategy by (simp add: select_members_def)
  then show ?thesis using status_decides [OF assms(2)] nothing_selected by blast
qed

lemma decided_policy: "decide_wan i strategy ms ca = Inr d \<Longrightarrow> ld_policyId d = i \<and> ld_strategy d = strategy"
  by (auto simp: decide_wan_def Let_def split: if_splits)

text \<open>
  Rebalancing such a policy on a RouterOS device therefore disables the routes of all its connections, and reports that the decision was applied and
  verified.
\<close>

lemma rebalancing_takes_every_route_down:
  assumes reach: "wan_reachable s" and st: "policy_status_of tenant i s = Inr st"
    and primary: "lp_strategy (pv_policy (ps_policy st)) = ''PRIMARY_SECONDARY''"
    and active: "has_adapter (pv_protocol (ps_policy st)) \<and> pv_managed (ps_policy st) \<and> rs_routeWrite (pv_routing (ps_policy st))"
    and router: "router_at tenant (lp_routerId (pv_policy (ps_policy st))) (wst_db s) = Some r" "ro_apiEndpoint r = Some url" "url \<noteq> []"
      "ro_credentialsEncrypted r = Some payload" "payload \<noteq> []" "we_decrypt env payload = Inr creds"
    and law: "route_table (we_show env) (we_device env url creds) rows" and ids: "identified (views (we_show env) (rows (wst_device s)))"
    and once: "\<And>wan. length (commented (comment_prefix i @ wan) (views (we_show env) (rows (wst_device s)))) \<le> 1"
    and members: "pv_members (ps_policy st) \<noteq> []" "distinct (map wm_id (pv_members (ps_policy st)))"
      "\<And>m. m \<in> set (pv_members (ps_policy st)) \<Longrightarrow> wm_id m \<noteq> [] \<and> wm_gateway m \<noteq> None \<and> wm_gateway m \<noteq> Some []"
  shows "\<exists>a w. call_device env tenant st s = (Inr a, s\<lparr> wst_device := w \<rparr>) \<and> na_applied a \<and> na_verified a \<and>
    (\<forall>wan. wan \<noteq> [] \<longrightarrow> list_all rv_disabled (commented (comment_prefix i @ wan) (views (we_show env) (rows w))))"
proof -
  let ?d = "ps_decision st" and ?targets = "map member_target (pv_members (ps_policy st))"
  have d: "ld_policyId ?d = i" "ld_strategy ?d = ''PRIMARY_SECONDARY''" using status_decides [OF st] decided_policy primary by auto
  have none: "eligible_ids ?d = {}" using no_connection_is_ever_eligible [OF reach st] by (simp add: eligible_ids_def)
  have "?targets \<noteq> []" "distinct (map rt_wanConnectionId ?targets)" using members by (simp_all add: member_target_def comp_def)
  moreover have "rt_wanConnectionId t \<noteq> [] \<and> rt_gateway t \<noteq> None \<and> rt_gateway t \<noteq> Some []" if "t \<in> set ?targets" for t
    using that members(3) by (auto simp: member_target_def)
  ultimately obtain w where w: "apply_routes (we_show env) (we_device env url creds) ?d ?targets (wst_device s) =
      (Inr \<lparr> ru_applied = True, ru_verified = True, ru_remoteState = Some (filter (is_managed (ld_policyId ?d)) (views (we_show env) (rows w))), ru_reason = None \<rparr>, w)"
    and on: "\<forall>p\<in>set (enumerate 0 (sort_key rt_priority ?targets)).
       \<exists>v. commented (route_comment (ld_policyId ?d) (snd p)) (views (we_show env) (rows w)) = [v] \<and> wanted (eligible_ids ?d) p v"
    and off: "\<forall>wan. wan \<noteq> [] \<longrightarrow> wan \<notin> rt_wanConnectionId ` set ?targets \<longrightarrow>
       list_all rv_disabled (commented (comment_prefix (ld_policyId ?d) @ wan) (views (we_show env) (rows w)))"
    using apply_routes_effect [where d = ?d and targets = ?targets, OF law ids once [folded d(1)] d(2)] by blast
  have "list_all rv_disabled (commented (comment_prefix i @ wan) (views (we_show env) (rows w)))" if "wan \<noteq> []" for wan
  proof (cases "wan \<in> rt_wanConnectionId ` set ?targets")
    case True
    then obtain t where t: "t \<in> set ?targets" "rt_wanConnectionId t = wan" by blast
    then have "t \<in> snd ` set (enumerate 0 (sort_key rt_priority ?targets))" by (simp only: set_map [symmetric] map_snd_enumerate set_sort)
    then obtain p where p: "p \<in> set (enumerate 0 (sort_key rt_priority ?targets))" "snd p = t" by blast
    then obtain v where "commented (route_comment i t) (views (we_show env) (rows w)) = [v]" "wanted {} p v" using on d(1) none by auto
    then show ?thesis by (simp add: route_comment_def t(2) wanted_def)
  next
    case False
    then show ?thesis using off that d(1) by simp
  qed
  moreover have "call_device env tenant st s = (Inr (applied_to_device \<lparr> ru_applied = True, ru_verified = True,
      ru_remoteState = Some (filter (is_managed (ld_policyId ?d)) (views (we_show env) (rows w))), ru_reason = None \<rparr>), s\<lparr> wst_device := w \<rparr>)"
    using active router w by (simp add: call_device_def Let_def)
  moreover have "na_applied (applied_to_device u) = ru_applied u" "na_verified (applied_to_device u) = ru_verified u" for u
    by (simp_all add: applied_to_device_def)
  ultimately show ?thesis by (metis routing_result.select_convs(1,2))
qed

lemma create_wan_accepts:
  assumes "we_violation env = (\<lambda>_. None)" and "cast_text (we_inet env) (cw_gateway dto) = Inr g" and "cast_text (we_cidr env) (cw_address dto) = Inr a"
    and "router_at tenant (cw_routerId dto) (wst_db s) = Some r"
  shows "\<exists>m. snd (create_wan env tenant dto ctx s) = wan_audit env tenant ''WAN_CONNECTION_CREATED'' ''wan_connection'' (new_uuid (wst_db s)) m ctx
    ((take_id s)\<lparr> wst_wans := insert_row (new_wan env tenant (new_uuid (wst_db s)) dto g a) (wst_wans s) \<rparr>)"
  using assms by (auto simp: create_wan_def insert_wan_def constrained_def Let_def)

lemma insert_members_accept: "we_violation env = (\<lambda>_. None) \<Longrightarrow> \<exists>t. for_each (insert_member env tenant policy) members s = (Inr (), t)"
  by (induction members arbitrary: s) (simp_all add: insert_member_def constrained_def)

lemma create_policy_accepts:
  assumes env: "we_violation env = (\<lambda>_. None)" and "router_at tenant (cp_routerId dto) (wst_db s) = Some r"
    and "repeated [] (map mi_wanConnectionId (with_default (cp_members dto) [])) = None"
    and "foreign_members tenant (cp_routerId dto) (map mi_wanConnectionId (with_default (cp_members dto) [])) s = []" and ok: "wan_ok s"
  shows "\<exists>v. fst (create_policy env tenant dto ctx s) = Inr v"
proof -
  obtain t where "for_each (insert_member env tenant (new_uuid (wst_db s))) (with_default (cp_members dto) [])
      ((take_id s)\<lparr> wst_policies := insert_row (new_policy (we_now env) tenant (new_uuid (wst_db s)) dto) (wst_policies s) \<rparr>) = (Inr (), t)"
    using insert_members_accept [OF env] by blast
  then obtain i where run: "insert_policy_members env tenant dto (with_default (cp_members dto) []) s = (Inr i, t)"
    by (simp add: insert_policy_members_def insert_policy_def constrained_def env Let_def)
  obtain q s' where qs: "create_policy env tenant dto ctx s = (q, s')" by fastforce
  have "next_id (wst_db s) < next_id (wst_db t)" using insert_policy_members_result [OF run] by blast
  moreover have "\<exists>m. s' = wan_audit env tenant ''LOAD_BALANCE_POLICY_CREATED'' ''load_balance_policy'' i m ctx t"
    using qs assms(2-4) run transaction_Inr [of "insert_policy_members env tenant dto (with_default (cp_members dto) [])" s i t]
    by (auto simp: create_policy_def Let_def)
  ultimately have "s' \<noteq> s" by auto
  then show ?thesis using created_policy [OF ok qs] by (cases q) (simp_all add: qs)
qed

subsection \<open>A concrete history\<close>

definition sample_router :: router where
  "sample_router = \<lparr> ro_tenant = ''t'', ro_id = ''r'', ro_locationId = None, ro_status = ''ONLINE'', ro_lastSeenAt = None, ro_activeUsers = 0, ro_enabled = True,
     ro_apiEndpoint = Some ''https://192.0.2.10'', ro_protocol = Some MIKROTIK_REST, ro_managementEnabled = True, ro_credentialsEncrypted = Some ''x'',
     ro_apiEnabled = True, ro_controllerEndpoint = None, ro_capabilities = JNull, ro_syncError = None \<rparr>"

definition sample_env :: "memory wan_env" where
  "sample_env = \<lparr> we_cid = None, we_now = 60000, we_inet = Some, we_cidr = Some, we_violation = (\<lambda>_. None),
     we_defaults = \<lparr> wn_tenant = [], wn_id = [], wn_routerId = [], wn_name = [], wn_provider = None, wn_interfaceName = None, wn_gateway = None,
       wn_address = None, wn_capacityMbps = 0, wn_configuredWeight = 1, wn_priority = 100, wn_failoverPriority = 100, wn_enabled = True,
       wn_drainRequested = False, wn_healthState = UNKNOWN, wn_utilization = None, wn_activeSessions = 0, wn_lastStateChangeAt = None \<rparr>,
     we_decrypt = Inr, we_device = (\<lambda>_ _. memory_device), we_show = (\<lambda>_. []) \<rparr>"

definition sample_wan_dto :: create_wan_dto where
  "sample_wan_dto = \<lparr> cw_routerId = ''r'', cw_name = ''fibre'', cw_provider = None, cw_interfaceName = Some ''ether1'', cw_gateway = Some ''192.0.2.1'',
     cw_address = None, cw_capacityMbps = 100, cw_configuredWeight = None, cw_priority = Some 10, cw_failoverPriority = None, cw_enabled = None \<rparr>"

definition sample_policy_dto :: create_policy_dto where
  "sample_policy_dto = \<lparr> cp_routerId = ''r'', cp_name = ''primary'', cp_strategy = ''PRIMARY_SECONDARY'', cp_enabled = None, cp_capacityAware = None,
     cp_rebalanceThreshold = None, cp_degradeThreshold = None, cp_unavailableAfterFailures = None, cp_recoverAfterSuccesses = None,
     cp_members = Some [\<lparr> mi_wanConnectionId = ''0'', mi_configuredWeight = Some 2, mi_priority = None, mi_enabled = None \<rparr>] \<rparr>"

definition sample_start :: "memory wan_state" where
  "sample_start = \<lparr> wst_db = empty_db\<lparr> routers := [sample_router] \<rparr>, wst_wans = [], wst_policies = [], wst_members = [], wst_events = [], wst_checks = [],
     wst_device = [] \<rparr>"

definition sample_connected :: "memory wan_state" where
  "sample_connected = snd (create_wan sample_env ''t'' sample_wan_dto no_context sample_start)"

definition sample_balanced :: "memory wan_state" where
  "sample_balanced = snd (create_policy sample_env ''t'' sample_policy_dto no_context sample_connected)"

definition sample_rebalanced :: "memory wan_state" where
  "sample_rebalanced = snd (rebalance sample_env ''t'' ''2'' no_context None sample_balanced)"

lemma sample_reachable: "wan_reachable sample_connected" "wan_reachable sample_balanced" "wan_reachable sample_rebalanced"
proof -
  have "wan_reachable sample_start" unfolding sample_start_def by (rule wan_start)
  then show c: "wan_reachable sample_connected" unfolding sample_connected_def by (rule wan_created)
  then show b: "wan_reachable sample_balanced" unfolding sample_balanced_def by (rule wan_policy)
  then show "wan_reachable sample_rebalanced" unfolding sample_rebalanced_def by (rule wan_rebalanced)
qed

lemma sample_connected_tables:
  "router_at ''t'' ''r'' (wst_db sample_connected) = Some sample_router"
  "\<exists>w. wst_wans sample_connected = [w] \<and> wn_tenant w = ''t'' \<and> wn_id w = ''0'' \<and> wn_routerId w = ''r''"
proof -
  have r: "router_at ''t'' ''r'' (wst_db sample_start) = Some sample_router" "new_uuid (wst_db sample_start) = ''0''"
    by (simp add: sample_start_def router_at_def select_one_def sample_router_def) code_simp
  have env: "we_violation sample_env = (\<lambda>_. None)" "cast_text (we_inet sample_env) (cw_gateway sample_wan_dto) = Inr (Some ''192.0.2.1'')"
    "cast_text (we_cidr sample_env) (cw_address sample_wan_dto) = Inr None" "cw_routerId sample_wan_dto = ''r''"
    by (simp_all add: sample_env_def sample_wan_dto_def cast_text_def)
  obtain m where m: "sample_connected = wan_audit sample_env ''t'' ''WAN_CONNECTION_CREATED'' ''wan_connection'' ''0'' m no_context
      ((take_id sample_start)\<lparr> wst_wans := insert_row (new_wan sample_env ''t'' ''0'' sample_wan_dto (Some ''192.0.2.1'') None) (wst_wans sample_start) \<rparr>)"
    using create_wan_accepts [OF env(1-3), of "''t''" sample_start sample_router no_context] r env(4) unfolding sample_connected_def by auto
  show "router_at ''t'' ''r'' (wst_db sample_connected) = Some sample_router" using r(1) by (simp add: m router_at_def)
  show "\<exists>w. wst_wans sample_connected = [w] \<and> wn_tenant w = ''t'' \<and> wn_id w = ''0'' \<and> wn_routerId w = ''r''"
    by (simp add: m insert_row_def) (simp add: sample_start_def new_wan_def sample_wan_dto_def)
qed


lemma sample_events: "wst_events sample_balanced = []" "wst_events sample_rebalanced \<noteq> []"
  by code_simp+


end
