(* ===== verification/Incidents.thy ===== *)
theory Incidents
  imports DomainEvents TrafficSamples "HOL-Library.Product_Lexorder"
begin

text \<open>
  Incidents (\<open>incidents/incidents.service.ts\<close>, \<open>incidents/incident-escalation.worker.ts\<close>): the incident of a router that is offline and its
  recovery, acknowledgement, resolution, owner and publication, the report on service levels, and the escalation of what stays open. The tables of the
  service stand beside the shared database; columns that the shared tables leave out, column defaults, constraints and the parsing of dates are
  parameters.
\<close>

subsection \<open>Tables\<close>

datatype incident_status = IN_OPEN | IN_ACKNOWLEDGED | IN_RESOLVED
datatype severity = SV_CRITICAL | SV_WARNING | SV_INFO
datatype impact_state = IM_AFFECTED | IM_RECOVERED
datatype window_status = MW_PLANNED | MW_ACTIVE | MW_COMPLETED | MW_CANCELED
datatype window_scope = SC_TENANT | SC_SITE | SC_ROUTER

record incident =
  ic_tenant :: uuid
  ic_id :: uuid
  ic_fingerprint :: string
  ic_category :: string
  ic_severity :: severity
  ic_status :: incident_status
  ic_title :: string
  ic_summary :: "string option"
  ic_rootType :: "string option"
  ic_rootId :: "uuid option"
  ic_startedAt :: time
  ic_lastSeenAt :: time
  ic_acknowledgedAt :: "time option"
  ic_resolvedAt :: "time option"
  ic_resolution :: "string option"
  ic_evidence :: json
  ic_ownerUserId :: "uuid option"
  ic_slaTargetMinutes :: int
  ic_escalationLevel :: int
  ic_lastEscalatedAt :: "time option"
  ic_publicVisible :: bool
  ic_publicSummary :: "string option"
  ic_createdAt :: time
  ic_updatedAt :: time

record impact =
  im_tenant :: uuid
  im_incidentId :: uuid
  im_resourceType :: string
  im_resourceId :: "uuid option"
  im_impactType :: string
  im_state :: impact_state
  im_estimatedRevenue :: "rat option"
  im_evidence :: json
  im_createdAt :: time
  im_recoveredAt :: "time option"

record incident_event =
  iv_tenant :: uuid
  iv_incidentId :: uuid
  iv_actorUserId :: "uuid option"
  iv_eventType :: string
  iv_note :: "string option"
  iv_metadata :: json
  iv_createdAt :: time

record window =
  mw_tenant :: uuid
  mw_id :: uuid
  mw_title :: string
  mw_description :: "string option"
  mw_scopeType :: window_scope
  mw_scopeId :: "uuid option"
  mw_startsAt :: time
  mw_endsAt :: time
  mw_status :: window_status
  mw_isPublic :: bool
  mw_publicSummary :: "string option"
  mw_createdBy :: uuid
  mw_createdAt :: time

record staff =
  us_tenant :: uuid
  us_id :: uuid
  us_fullName :: string
  us_email :: string
  us_role :: string
  us_active :: bool

record location =
  lo_tenant :: uuid
  lo_id :: uuid
  lo_name :: string

datatype component_state = CS_OPERATIONAL | CS_DEGRADED | CS_PARTIAL_OUTAGE | CS_MAJOR_OUTAGE | CS_MAINTENANCE

record page_settings =
  sg_tenant :: uuid
  sg_slug :: string
  sg_displayName :: string
  sg_description :: "string option"
  sg_isPublished :: bool
  sg_updatedBy :: uuid
  sg_updatedAt :: time

record page_component =
  sc_tenant :: uuid
  sc_id :: uuid
  sc_key :: string
  sc_name :: string
  sc_status :: component_state
  sc_publicSummary :: "string option"
  sc_updatedBy :: uuid
  sc_updatedAt :: time

record incident_state =
  ist_db :: db
  ist_staff :: "staff list"
  ist_locations :: "location list"
  ist_incidents :: "incident list"
  ist_impacts :: "impact list"
  ist_events :: "incident_event list"
  ist_windows :: "window list"
  ist_settings :: "page_settings list"
  ist_components :: "page_component list"

text \<open>
  The parameters: the correlation id of the request, the name of a router and the location of a network site, the defaults of the columns of an incident
  created at a time and of the state of a maintenance window, the constraints of the tables, and the parsing of a date.
\<close>

record incident_env =
  ie_cid :: "string option"
  ie_routerName :: "router \<Rightarrow> string"
  ie_siteLocation :: "network_site \<Rightarrow> uuid option"
  ie_defaults :: "time \<Rightarrow> incident"
  ie_newWindow :: window_status
  ie_violation :: "incident_state \<Rightarrow> string option"
  ie_date :: "string \<Rightarrow> time option"

definition documented_defaults :: "incident_env \<Rightarrow> bool" where
  "documented_defaults env \<longleftrightarrow> (\<forall>now. ic_acknowledgedAt (ie_defaults env now) = None \<and> ic_resolvedAt (ie_defaults env now) = None \<and>
     ic_escalationLevel (ie_defaults env now) = 0 \<and> \<not> ic_publicVisible (ie_defaults env now))"

definition active_incident :: "incident \<Rightarrow> bool" where
  "active_incident i \<longleftrightarrow> ic_status i \<in> {IN_OPEN, IN_ACKNOWLEDGED}"

text \<open>\<open>a || b\<close> on \<open>jsonb\<close>\<close>

definition json_elements :: "json \<Rightarrow> json list" where
  "json_elements a = (case a of JArr xs \<Rightarrow> xs | _ \<Rightarrow> [a])"

definition json_concat :: "json \<Rightarrow> json \<Rightarrow> json" where
  "json_concat a b = (case (a, b) of
     (JObj xs, JObj ys) \<Rightarrow> JObj (filter (\<lambda>x. fst x \<notin> fst ` set ys) xs @ ys)
   | _ \<Rightarrow> JArr (json_elements a @ json_elements b))"

definition incident_audit :: "incident_env \<Rightarrow> time \<Rightarrow> uuid \<Rightarrow> string \<Rightarrow> string \<Rightarrow> uuid option \<Rightarrow> json \<Rightarrow> audit_context \<Rightarrow> incident_state \<Rightarrow> incident_state" where
  "incident_audit env now tenant action resource i metadata ctx s =
     s\<lparr> ist_db := snd (audit_record (ie_cid env) now tenant action resource i metadata ctx (ist_db s)) \<rparr>"

definition announce :: "time \<Rightarrow> event_input \<Rightarrow> incident_state \<Rightarrow> incident_state" where
  "announce now e s = s\<lparr> ist_db := snd (enqueue now e (ist_db s)) \<rparr>"

definition bump :: "incident_state \<Rightarrow> incident_state" where
  "bump s = s\<lparr> ist_db := (ist_db s)\<lparr> next_id := next_id (ist_db s) + 1 \<rparr> \<rparr>"

subsection \<open>Reading incidents\<close>

definition sla_breached :: "time \<Rightarrow> incident \<Rightarrow> bool" where
  "sla_breached now i \<longleftrightarrow> with_default (ic_resolvedAt i) now - ic_startedAt i > ic_slaTargetMinutes i * 60000"

definition owner_name :: "incident \<Rightarrow> incident_state \<Rightarrow> string option" where
  "owner_name i s = (case ic_ownerUserId i of None \<Rightarrow> None
     | Some u \<Rightarrow> map_option us_fullName (select_one (\<lambda>x. us_tenant x = ic_tenant i \<and> us_id x = u) (ist_staff s)))"

definition impacts_of :: "uuid \<Rightarrow> uuid \<Rightarrow> incident_state \<Rightarrow> impact list" where
  "impacts_of tenant i s = select (\<lambda>m. im_tenant m = tenant \<and> im_incidentId m = i) (ist_impacts s)"

record incident_detail =
  dt_incident :: incident
  dt_ownerName :: "string option"
  dt_slaBreached :: bool
  dt_impacts :: "impact list"
  dt_events :: "incident_event list"

definition get_incident :: "time \<Rightarrow> uuid \<Rightarrow> uuid \<Rightarrow> incident_state \<Rightarrow> incident_detail result" where
  "get_incident now tenant i s =
     (case select_one (\<lambda>x. ic_tenant x = tenant \<and> ic_id x = i) (ist_incidents s) of
        None \<Rightarrow> Inl (NotFound ''Incident not found'')
      | Some x \<Rightarrow> Inr \<lparr> dt_incident = x, dt_ownerName = owner_name x s, dt_slaBreached = sla_breached now x,
          dt_impacts = sort_key im_createdAt (impacts_of tenant i s),
          dt_events = sort_key iv_createdAt (select (\<lambda>e. iv_tenant e = tenant \<and> iv_incidentId e = i) (ist_events s)) \<rparr>)"

definition staff_rank :: "string \<Rightarrow> nat" where
  "staff_rank role = (if role = ''OWNER'' then 0 else if role = ''ADMIN'' then 1 else 2)"

definition may_own :: "uuid \<Rightarrow> staff \<Rightarrow> bool" where
  "may_own tenant u \<longleftrightarrow> us_tenant u = tenant \<and> us_active u \<and> us_role u \<in> {''OWNER'', ''ADMIN'', ''AGENT''}"

definition list_assignable_owners :: "uuid \<Rightarrow> incident_state \<Rightarrow> staff list" where
  "list_assignable_owners tenant s = order_limit (\<lambda>u. (staff_rank (us_role u), us_fullName u)) 200 (select (may_own tenant) (ist_staff s))"

definition severity_rank :: "severity \<Rightarrow> nat" where
  "severity_rank v = (case v of SV_CRITICAL \<Rightarrow> 0 | SV_WARNING \<Rightarrow> 1 | SV_INFO \<Rightarrow> 2)"

record incident_summary =
  sm_incident :: incident
  sm_ownerName :: "string option"
  sm_slaBreached :: bool
  sm_affectedResources :: nat
  sm_affectedCustomers :: nat
  sm_affectedSessions :: nat
  sm_estimatedRevenue :: rat

definition affected :: "impact \<Rightarrow> bool" where
  "affected m \<longleftrightarrow> im_state m = IM_AFFECTED"

text \<open>\<open>SUM\<close> leaves nulls out.\<close>

definition revenue_of :: "impact list \<Rightarrow> rat" where
  "revenue_of ms = sum_list (List.map_filter im_estimatedRevenue ms)"

definition summary_of :: "time \<Rightarrow> incident_state \<Rightarrow> incident \<Rightarrow> incident_summary" where
  "summary_of now s i =
     (let ms = filter affected (impacts_of (ic_tenant i) (ic_id i) s)
      in \<lparr> sm_incident = i, sm_ownerName = owner_name i s, sm_slaBreached = sla_breached now i, sm_affectedResources = length ms,
           sm_affectedCustomers = count_where (\<lambda>m. im_resourceType m = ''CUSTOMER'') ms,
           sm_affectedSessions = count_where (\<lambda>m. im_resourceType m = ''SESSION'') ms,
           sm_estimatedRevenue = revenue_of (filter (\<lambda>m. im_resourceType m = ''REVENUE'') ms) \<rparr>)"

definition list_incidents :: "time \<Rightarrow> uuid \<Rightarrow> incident_status option \<Rightarrow> incident_state \<Rightarrow> incident_summary list" where
  "list_incidents now tenant status s =
     map (summary_of now s) (order_limit (\<lambda>i. (severity_rank (ic_severity i), - ic_lastSeenAt i)) 200
       (select (\<lambda>i. ic_tenant i = tenant \<and> (case status of None \<Rightarrow> True | Some st \<Rightarrow> ic_status i = st)) (ist_incidents s)))"

subsection \<open>A router that is offline\<close>

definition add_impact :: "uuid \<Rightarrow> uuid \<Rightarrow> string \<Rightarrow> uuid option \<Rightarrow> string \<Rightarrow> rat option \<Rightarrow> json \<Rightarrow> time \<Rightarrow> impact" where
  "add_impact tenant incident type i kind revenue evidence now = \<lparr> im_tenant = tenant, im_incidentId = incident, im_resourceType = type, im_resourceId = i,
     im_impactType = kind, im_state = IM_AFFECTED, im_estimatedRevenue = revenue, im_evidence = evidence, im_createdAt = now, im_recoveredAt = None \<rparr>"

definition active_sessions_on :: "uuid \<Rightarrow> uuid \<Rightarrow> db \<Rightarrow> session list" where
  "active_sessions_on tenant router s = select (\<lambda>x. se_tenant x = tenant \<and> se_routerId x = Some router \<and> se_status x = S_ACTIVE) (sessions s)"

definition lost_sessions :: "uuid \<Rightarrow> uuid \<Rightarrow> db \<Rightarrow> nat" where
  "lost_sessions tenant router s = length (remdups (map se_id (active_sessions_on tenant router s)))"

definition lost_customers :: "uuid \<Rightarrow> uuid \<Rightarrow> db \<Rightarrow> nat" where
  "lost_customers tenant router s = length (remdups (List.map_filter se_customerId (active_sessions_on tenant router s)))"

definition lost_revenue :: "time \<Rightarrow> uuid \<Rightarrow> uuid \<Rightarrow> db \<Rightarrow> rat" where
  "lost_revenue now tenant router s =
     sum_list (concat (map (\<lambda>g. map pu_price (select (\<lambda>p. pu_tenant p = tenant \<and> ag_purchaseId g = Some (pu_id p)) (purchases s)))
       (select (\<lambda>g. ag_tenant g = tenant \<and> ag_routerId g = Some router \<and> ag_status g = G_ACTIVE \<and>
          (case ag_endsAt g of None \<Rightarrow> True | Some t \<Rightarrow> now < t)) (accessGrants s))))"

text \<open>A window that is open and covers a router at a location\<close>

definition window_open :: "time \<Rightarrow> uuid \<Rightarrow> window \<Rightarrow> bool" where
  "window_open now tenant w \<longleftrightarrow> mw_tenant w = tenant \<and> mw_status w \<in> {MW_PLANNED, MW_ACTIVE} \<and> mw_startsAt w \<le> now \<and> now < mw_endsAt w"

definition site_at :: "incident_env \<Rightarrow> uuid \<Rightarrow> uuid option \<Rightarrow> window \<Rightarrow> db \<Rightarrow> bool" where
  "site_at env tenant place w s \<longleftrightarrow> place \<noteq> None \<and>
     exists_row (\<lambda>n. ns_tenant n = tenant \<and> mw_scopeId w = Some (ns_id n) \<and> ie_siteLocation env n = place) (networkSites s)"

definition covers_router :: "incident_env \<Rightarrow> uuid \<Rightarrow> uuid \<Rightarrow> uuid option \<Rightarrow> db \<Rightarrow> window \<Rightarrow> bool" where
  "covers_router env tenant router place s w \<longleftrightarrow>
     (case mw_scopeType w of SC_TENANT \<Rightarrow> True | SC_ROUTER \<Rightarrow> mw_scopeId w = Some router | SC_SITE \<Rightarrow> site_at env tenant place w s)"

definition scope_rank :: "window_scope \<Rightarrow> nat" where
  "scope_rank v = (case v of SC_ROUTER \<Rightarrow> 0 | SC_SITE \<Rightarrow> 1 | SC_TENANT \<Rightarrow> 2)"

definition window_for :: "incident_env \<Rightarrow> time \<Rightarrow> uuid \<Rightarrow> uuid \<Rightarrow> uuid option \<Rightarrow> incident_state \<Rightarrow> window option" where
  "window_for env now tenant router place s =
     (case order_limit (\<lambda>w. scope_rank (mw_scopeType w)) 1
        (select (\<lambda>w. window_open now tenant w \<and> covers_router env tenant router place (ist_db s) w) (ist_windows s)) of [] \<Rightarrow> None | w # _ \<Rightarrow> Some w)"

definition offline_key :: "uuid \<Rightarrow> string" where
  "offline_key router = ''router-offline:'' @ router"

definition offline_title :: "incident_env \<Rightarrow> router \<Rightarrow> string" where
  "offline_title env r = ie_routerName env r @ '' is offline''"

definition offline_summary :: "incident_env \<Rightarrow> router \<Rightarrow> string option \<Rightarrow> string" where
  "offline_summary env r place = ''Router '' @ ie_routerName env r @ '' is offline'' @
     (case place of None \<Rightarrow> [] | Some t \<Rightarrow> if t = [] then [] else '' at '' @ t) @ ''.''"

definition offline_evidence :: "router \<Rightarrow> window option \<Rightarrow> json" where
  "offline_evidence r w = jobject ([(''routerStatus'', Some (JStr (ro_status r))), (''detectedBy'', Some (JStr ''router-state-sync''))] @
     (case w of None \<Rightarrow> [(''maintenanceExpected'', Some (JBool False))]
      | Some v \<Rightarrow> [(''maintenanceWindowId'', Some (JStr (mw_id v))), (''maintenanceWindowTitle'', Some (JStr (mw_title v))),
          (''maintenanceExpected'', Some (JBool True))]))"

definition location_name :: "uuid \<Rightarrow> router \<Rightarrow> incident_state \<Rightarrow> string option" where
  "location_name tenant r s = (case ro_locationId r of None \<Rightarrow> None
     | Some l \<Rightarrow> map_option lo_name (select_one (\<lambda>x. lo_tenant x = tenant \<and> lo_id x = l) (ist_locations s)))"

definition new_incident :: "incident_env \<Rightarrow> time \<Rightarrow> uuid \<Rightarrow> uuid \<Rightarrow> router \<Rightarrow> string option \<Rightarrow> window option \<Rightarrow> incident" where
  "new_incident env now tenant i r place w = (ie_defaults env now)\<lparr> ic_tenant := tenant, ic_id := i, ic_fingerprint := offline_key (ro_id r),
     ic_category := ''DEVICE_OFFLINE'', ic_severity := (if w = None then SV_CRITICAL else SV_WARNING), ic_status := IN_OPEN,
     ic_title := offline_title env r, ic_summary := Some (offline_summary env r place), ic_rootType := Some ''ROUTER'', ic_rootId := Some (ro_id r),
     ic_evidence := offline_evidence r w \<rparr>"

definition seen_again :: "time \<Rightarrow> router \<Rightarrow> window option \<Rightarrow> incident \<Rightarrow> incident" where
  "seen_again now r w i = i\<lparr> ic_lastSeenAt := now, ic_severity := (if w = None then SV_CRITICAL else SV_WARNING),
     ic_evidence := json_concat (ic_evidence i) (offline_evidence r w), ic_updatedAt := now \<rparr>"

text \<open>The incident of the fingerprint, found or created: its identifier, and whether it is new\<close>

definition open_incident ::
  "incident_env \<Rightarrow> time \<Rightarrow> uuid \<Rightarrow> router \<Rightarrow> string option \<Rightarrow> window option \<Rightarrow> (incident_state, uuid \<times> bool) operation" where
  "open_incident env now tenant r place w s =
     (case select_one (\<lambda>i. ic_tenant i = tenant \<and> ic_fingerprint i = offline_key (ro_id r) \<and> active_incident i) (ist_incidents s) of
        Some x \<Rightarrow>
          constrained (ie_violation env) (ic_id x, False)
            (s\<lparr> ist_incidents := update_where (\<lambda>i. ic_tenant i = tenant \<and> ic_id i = ic_id x) (seen_again now r w) (ist_incidents s),
                ist_impacts := delete_where (\<lambda>m. im_tenant m = tenant \<and> im_incidentId m = ic_id x \<and> affected m) (ist_impacts s) \<rparr>) s
      | None \<Rightarrow>
          (let i = new_uuid (ist_db s)
           in constrained (ie_violation env) (i, True)
                ((bump s)\<lparr> ist_incidents := insert_row (new_incident env now tenant i r place w) (ist_incidents s) \<rparr>) s))"

text \<open>The impacts of the incident; the sessions are read in the transaction, the revenue before it.\<close>

definition offline_impacts :: "time \<Rightarrow> uuid \<Rightarrow> uuid \<Rightarrow> router \<Rightarrow> string option \<Rightarrow> rat \<Rightarrow> session list \<Rightarrow> impact list" where
  "offline_impacts now tenant incident r place revenue ss =
     [add_impact tenant incident ''ROUTER'' (Some (ro_id r)) ''INFRASTRUCTURE'' None (jobject [(''status'', Some (JStr (ro_status r)))]) now] @
     (case ro_locationId r of
        None \<Rightarrow> []
      | Some l \<Rightarrow> [add_impact tenant incident ''LOCATION'' (Some l) ''INFRASTRUCTURE'' None (jobject [(''name'', Some (or_null JStr place))]) now]) @
     concat (map (\<lambda>x. let evidence = jobject [(''routerId'', Some (JStr (ro_id r)))]
        in [add_impact tenant incident ''SESSION'' (Some (se_id x)) ''SESSION'' None evidence now,
            add_impact tenant incident ''CUSTOMER'' (se_customerId x) ''CUSTOMER'' None evidence now]) ss) @
     (if revenue > 0 then [add_impact tenant incident ''REVENUE'' None ''REVENUE'' (Some revenue)
        (jobject [(''basis'', Some (JStr ''active access grants on affected router''))]) now] else [])"

definition record_offline ::
  "incident_env \<Rightarrow> time \<Rightarrow> uuid \<Rightarrow> router \<Rightarrow> string option \<Rightarrow> rat \<Rightarrow> window option \<Rightarrow> (incident_state, uuid \<times> bool) operation" where
  "record_offline env now tenant r place revenue w s =
     (case open_incident env now tenant r place w s of
        (Inl e, s1) \<Rightarrow> (Inl e, s1)
      | (Inr x, s1) \<Rightarrow> constrained (ie_violation env) x
          (s1\<lparr> ist_impacts := ist_impacts s1 @ offline_impacts now tenant (fst x) r place revenue (active_sessions_on tenant (ro_id r) (ist_db s1)) \<rparr>) s1)"

definition staff_roles :: json where
  "staff_roles = JArr [JStr ''OWNER'', JStr ''ADMIN'', JStr ''AGENT'']"

definition opened_event :: "incident_env \<Rightarrow> uuid \<Rightarrow> uuid \<Rightarrow> router \<Rightarrow> string option \<Rightarrow> event_input" where
  "opened_event env tenant i r place = \<lparr> ei_tenantId = tenant, ei_eventKey = ''incident.opened:'' @ i, ei_eventType = ''INCIDENT.OPENED'',
     ei_aggregateType = Some ''incident'', ei_aggregateId = Some i, ei_payload = jobject
       [(''title'', Some (JStr (offline_title env r))), (''summary'', Some (JStr (offline_summary env r place))), (''severity'', Some (JStr ''CRITICAL'')),
        (''routerId'', Some (JStr (ro_id r))), (''targetRoles'', Some staff_roles)] \<rparr>"

definition sync_router_offline :: "incident_env \<Rightarrow> time \<Rightarrow> uuid \<Rightarrow> uuid \<Rightarrow> audit_context \<Rightarrow> (incident_state, incident_detail) operation" where
  "sync_router_offline env now tenant router ctx s =
     (case select_one (\<lambda>r. ro_tenant r = tenant \<and> ro_id r = router) (routers (ist_db s)) of
        None \<Rightarrow> (Inl (NotFound ''Router not found''), s)
      | Some r \<Rightarrow>
          (let place = location_name tenant r s; revenue = lost_revenue now tenant router (ist_db s);
               w = window_for env now tenant router (ro_locationId r) s in
           case transaction (record_offline env now tenant r place revenue w) s of
             (Inl e, s1) \<Rightarrow> (Inl e, s1)
           | (Inr (i, created), s1) \<Rightarrow>
               (let s2 = incident_audit env now tenant ''INCIDENT_SYNCED_ROUTER_OFFLINE'' ''incident'' (Some i)
                      (jobject [(''routerId'', Some (JStr router)), (''routerName'', Some (JStr (ie_routerName env r))),
                         (''affectedCustomers'', Some (JNum (of_nat (lost_customers tenant router (ist_db s))))),
                         (''affectedSessions'', Some (JNum (of_nat (lost_sessions tenant router (ist_db s))))),
                         (''estimatedRevenue'', Some (JNum revenue)), (''maintenanceWindowId'', Some (or_null (\<lambda>v. JStr (mw_id v)) w))]) ctx s1;
                    s3 = (if created \<and> w = None then announce now (opened_event env tenant i r place) s2 else s2)
                in (get_incident now tenant i s3, s3))))"

subsection \<open>Recovery and the decisions of the staff\<close>

definition resolved_by :: "time \<Rightarrow> string \<Rightarrow> incident \<Rightarrow> incident" where
  "resolved_by now resolution i = i\<lparr> ic_status := IN_RESOLVED, ic_resolvedAt := Some now, ic_lastSeenAt := now, ic_resolution := Some resolution,
     ic_updatedAt := now \<rparr>"

definition recover_impacts :: "time \<Rightarrow> uuid \<Rightarrow> uuid \<Rightarrow> incident_state \<Rightarrow> incident_state" where
  "recover_impacts now tenant i s = s\<lparr> ist_impacts := update_where (\<lambda>m. im_tenant m = tenant \<and> im_incidentId m = i \<and> affected m)
     (\<lambda>m. m\<lparr> im_state := IM_RECOVERED, im_recoveredAt := Some now \<rparr>) (ist_impacts s) \<rparr>"

definition resolve_where :: "time \<Rightarrow> string \<Rightarrow> (incident \<Rightarrow> bool) \<Rightarrow> incident_state \<Rightarrow> incident_state" where
  "resolve_where now resolution P s = s\<lparr> ist_incidents := update_where P (resolved_by now resolution) (ist_incidents s) \<rparr>"

definition recovery_event :: "uuid \<Rightarrow> uuid \<Rightarrow> uuid \<Rightarrow> event_input" where
  "recovery_event tenant i router = \<lparr> ei_tenantId = tenant, ei_eventKey = ''incident.resolved:'' @ i @ '':router-recovery'',
     ei_eventType = ''INCIDENT.RESOLVED'', ei_aggregateType = Some ''incident'', ei_aggregateId = Some i, ei_payload = jobject
       [(''title'', Some (JStr ''Network incident resolved'')), (''summary'', Some (JStr ''Router heartbeat recovered.'')),
        (''routerId'', Some (JStr router)), (''targetRoles'', Some staff_roles)] \<rparr>"

text \<open>\<open>Inr None\<close> is \<open>resolved: false\<close>.\<close>

definition resolve_router_offline ::
  "incident_env \<Rightarrow> time \<Rightarrow> uuid \<Rightarrow> uuid \<Rightarrow> audit_context \<Rightarrow> (incident_state, incident_detail option) operation" where
  "resolve_router_offline env now tenant router ctx s =
     (let P = (\<lambda>i. ic_tenant i = tenant \<and> ic_fingerprint i = offline_key router \<and> active_incident i) in
      case select_one P (ist_incidents s) of
        None \<Rightarrow> (Inr None, s)
      | Some x \<Rightarrow>
          (let i = ic_id x;
               s1 = recover_impacts now tenant i (resolve_where now ''Router heartbeat recovered'' P s);
               s2 = incident_audit env now tenant ''INCIDENT_RESOLVED_ROUTER_RECOVERY'' ''incident'' (Some i)
                      (jobject [(''routerId'', Some (JStr router))]) ctx s1;
               s3 = announce now (recovery_event tenant i router) s2
           in (map_sum id Some (get_incident now tenant i s3), s3)))"

definition acknowledge :: "incident_env \<Rightarrow> time \<Rightarrow> uuid \<Rightarrow> uuid \<Rightarrow> audit_context \<Rightarrow> (incident_state, incident_detail) operation" where
  "acknowledge env now tenant i ctx s =
     (let P = (\<lambda>x. ic_tenant x = tenant \<and> ic_id x = i \<and> ic_status x = IN_OPEN) in
      if \<not> exists_row P (ist_incidents s) then (Inl (NotFound ''Open incident not found''), s)
      else (let s1 = s\<lparr> ist_incidents := update_where P (\<lambda>x. x\<lparr> ic_status := IN_ACKNOWLEDGED,
                   ic_acknowledgedAt := or_else (ic_acknowledgedAt x) (Some now), ic_updatedAt := now \<rparr>) (ist_incidents s) \<rparr>;
                s2 = incident_audit env now tenant ''INCIDENT_ACKNOWLEDGED'' ''incident'' (Some i) (jobject []) ctx s1
            in (get_incident now tenant i s2, s2)))"

definition resolve_incident :: "incident_env \<Rightarrow> time \<Rightarrow> uuid \<Rightarrow> uuid \<Rightarrow> string \<Rightarrow> audit_context \<Rightarrow> (incident_state, incident_detail) operation" where
  "resolve_incident env now tenant i resolution ctx s =
     (let P = (\<lambda>x. ic_tenant x = tenant \<and> ic_id x = i \<and> active_incident x) in
      if \<not> exists_row P (ist_incidents s) then (Inl (NotFound ''Active incident not found''), s)
      else (let s1 = recover_impacts now tenant i (resolve_where now (js_trim resolution) P s);
                s2 = incident_audit env now tenant ''INCIDENT_RESOLVED'' ''incident'' (Some i)
                       (jobject [(''resolution'', Some (JStr (js_trim resolution)))]) ctx s1
            in (get_incident now tenant i s2, s2)))"

definition assign_owner :: "incident_env \<Rightarrow> time \<Rightarrow> uuid \<Rightarrow> uuid \<Rightarrow> uuid option \<Rightarrow> audit_context \<Rightarrow> (incident_state, incident_detail) operation" where
  "assign_owner env now tenant i owner ctx s =
     (let P = (\<lambda>x. ic_tenant x = tenant \<and> ic_id x = i); given = (owner \<noteq> None \<and> owner \<noteq> Some []) in
      if given \<and> \<not> exists_row (\<lambda>u. may_own tenant u \<and> owner = Some (us_id u)) (ist_staff s)
      then (Inl (NotFound ''Active owner user was not found in this tenant''), s)
      else if \<not> exists_row P (ist_incidents s) then (Inl (NotFound ''Incident not found''), s)
      else (let metadata = jobject [(''ownerUserId'', Some (or_null JStr owner))];
                s1 = s\<lparr> ist_incidents := update_where P (\<lambda>x. x\<lparr> ic_ownerUserId := owner, ic_updatedAt := now \<rparr>) (ist_incidents s),
                        ist_events := insert_row \<lparr> iv_tenant = tenant, iv_incidentId = i, iv_actorUserId = ac_userId ctx, iv_eventType = ''OWNER_ASSIGNED'',
                          iv_note = Some (if given then ''Incident owner assigned'' else ''Incident owner cleared''), iv_metadata = metadata,
                          iv_createdAt = now \<rparr> (ist_events s) \<rparr>;
                s2 = incident_audit env now tenant ''INCIDENT_OWNER_CHANGED'' ''incident'' (Some i) metadata ctx s1
            in (get_incident now tenant i s2, s2)))"

definition set_public_visibility ::
  "incident_env \<Rightarrow> time \<Rightarrow> uuid \<Rightarrow> uuid \<Rightarrow> bool \<Rightarrow> string option \<Rightarrow> audit_context \<Rightarrow> (incident_state, incident_detail) operation" where
  "set_public_visibility env now tenant i visible summary ctx s =
     (let P = (\<lambda>x. ic_tenant x = tenant \<and> ic_id x = i); text_of = trim_or_null summary in
      if visible \<and> text_of = None then (Inl (BadRequest ''A public summary is required before publishing an incident''), s)
      else if \<not> exists_row P (ist_incidents s) then (Inl (NotFound ''Incident not found''), s)
      else (let s1 = s\<lparr> ist_incidents := update_where P (\<lambda>x. x\<lparr> ic_publicVisible := visible, ic_publicSummary := text_of, ic_updatedAt := now \<rparr>)
                   (ist_incidents s) \<rparr>;
                s2 = incident_audit env now tenant ''INCIDENT_PUBLIC_VISIBILITY_CHANGED'' ''incident'' (Some i)
                       (jobject [(''visible'', Some (JBool visible)), (''publicSummarySet'', Some (JBool (text_of \<noteq> None)))]) ctx s1
            in (get_incident now tenant i s2, s2)))"

subsection \<open>The report on service levels\<close>

record sla_summary =
  ls_totalIncidents :: nat
  ls_activeIncidents :: nat
  ls_slaBreaches :: nat
  ls_criticalIncidents :: nat
  ls_averageResolutionMinutes :: "rat option"
  ls_estimatedRevenueImpact :: rat
  ls_customerImpactRows :: nat

record sla_report =
  lr_from :: time
  lr_until :: time
  lr_summary :: sla_summary
  lr_breakdown :: "(severity \<times> incident_status \<times> nat) list"
  lr_recent :: "(incident \<times> bool \<times> rat) list"

definition report_days :: "int \<Rightarrow> int" where
  "report_days n = n * 24 * 60 * 60 * 1000"

definition report_range :: "incident_env \<Rightarrow> time \<Rightarrow> string option \<Rightarrow> string option \<Rightarrow> (time \<times> time) result" where
  "report_range env now start until =
     (let given = (\<lambda>v. case v of None \<Rightarrow> None | Some t \<Rightarrow> if t = [] then None else Some t);
          t2 = (case given until of None \<Rightarrow> Some now | Some t \<Rightarrow> ie_date env t);
          t1 = (case given start of None \<Rightarrow> map_option (\<lambda>t. t - report_days 30) t2 | Some t \<Rightarrow> ie_date env t)
      in case (t1, t2) of
           (Some a, Some b) \<Rightarrow>
             if a \<ge> b then Inl (BadRequest ''A valid report date range is required'')
             else if b - a > report_days 366 then Inl (BadRequest ''SLA report range cannot exceed 366 days'')
             else Inr (a, b)
         | _ \<Rightarrow> Inl (BadRequest ''A valid report date range is required''))"

text \<open>The \<open>LATERAL\<close> subquery: the impacts of an incident that are still affected\<close>

definition open_impacts :: "incident_state \<Rightarrow> incident \<Rightarrow> impact list" where
  "open_impacts s i = filter affected (impacts_of (ic_tenant i) (ic_id i) s)"

definition revenue_impact :: "incident_state \<Rightarrow> incident \<Rightarrow> rat" where
  "revenue_impact s i = revenue_of (filter (\<lambda>m. im_impactType m = ''REVENUE'') (open_impacts s i))"

definition customer_impact :: "incident_state \<Rightarrow> incident \<Rightarrow> nat" where
  "customer_impact s i = length (remdups (List.map_filter im_resourceId (filter (\<lambda>m. im_resourceType m = ''CUSTOMER'') (open_impacts s i))))"

definition average_minutes :: "incident list \<Rightarrow> rat option" where
  "average_minutes is =
     (let ms = List.map_filter (\<lambda>i. if ic_status i = IN_RESOLVED then map_option (\<lambda>t. of_int (t - ic_startedAt i) / 60000) (ic_resolvedAt i) else None) is
      in if ms = [] then None else Some (to_fixed 2 (sum_list ms / of_nat (length ms))))"

definition severity_name :: "severity \<Rightarrow> string" where
  "severity_name v = (case v of SV_CRITICAL \<Rightarrow> ''CRITICAL'' | SV_WARNING \<Rightarrow> ''WARNING'' | SV_INFO \<Rightarrow> ''INFO'')"

definition incident_status_name :: "incident_status \<Rightarrow> string" where
  "incident_status_name v = (case v of IN_OPEN \<Rightarrow> ''OPEN'' | IN_ACKNOWLEDGED \<Rightarrow> ''ACKNOWLEDGED'' | IN_RESOLVED \<Rightarrow> ''RESOLVED'')"

definition breakdown_of :: "incident list \<Rightarrow> (severity \<times> incident_status \<times> nat) list" where
  "breakdown_of is =
     map (\<lambda>(v, st). (v, st, count_where (\<lambda>i. ic_severity i = v \<and> ic_status i = st) is))
       (sort_key (\<lambda>(v, st). (severity_name v, incident_status_name st)) (remdups (map (\<lambda>i. (ic_severity i, ic_status i)) is)))"

definition sla_summary_of :: "time \<Rightarrow> incident_state \<Rightarrow> incident list \<Rightarrow> sla_summary" where
  "sla_summary_of now s is = \<lparr> ls_totalIncidents = length is, ls_activeIncidents = count_where (\<lambda>i. ic_status i \<noteq> IN_RESOLVED) is,
     ls_slaBreaches = count_where (sla_breached now) is, ls_criticalIncidents = count_where (\<lambda>i. ic_severity i = SV_CRITICAL) is,
     ls_averageResolutionMinutes = average_minutes is, ls_estimatedRevenueImpact = to_fixed 2 (sum_list (map (revenue_impact s) is)),
     ls_customerImpactRows = sum_list (map (customer_impact s) is) \<rparr>"

definition get_sla_report :: "incident_env \<Rightarrow> time \<Rightarrow> uuid \<Rightarrow> string option \<Rightarrow> string option \<Rightarrow> incident_state \<Rightarrow> sla_report result" where
  "get_sla_report env now tenant start until s =
     (case report_range env now start until of
        Inl e \<Rightarrow> Inl e
      | Inr (a, b) \<Rightarrow>
          (let is = select (\<lambda>i. ic_tenant i = tenant \<and> a \<le> ic_startedAt i \<and> ic_startedAt i < b) (ist_incidents s)
           in Inr \<lparr> lr_from = a, lr_until = b, lr_summary = sla_summary_of now s is, lr_breakdown = breakdown_of is,
                lr_recent = map (\<lambda>i. (i, sla_breached now i, to_fixed 2 (revenue_impact s i))) (order_limit (\<lambda>i. - ic_startedAt i) 100 is) \<rparr>))"

subsection \<open>Escalation\<close>

definition quarter :: time where
  "quarter = 15 * 60 * 1000"

definition under_maintenance :: "incident_env \<Rightarrow> time \<Rightarrow> incident_state \<Rightarrow> incident \<Rightarrow> bool" where
  "under_maintenance env now s i \<longleftrightarrow>
     exists_row (\<lambda>w. window_open now (ic_tenant i) w \<and>
       (case mw_scopeType w of
          SC_TENANT \<Rightarrow> True
        | SC_ROUTER \<Rightarrow> ic_rootType i = Some ''ROUTER'' \<and> mw_scopeId w \<noteq> None \<and> mw_scopeId w = ic_rootId i
        | SC_SITE \<Rightarrow> ic_rootType i = Some ''ROUTER'' \<and>
            exists_row (\<lambda>r. ro_tenant r = ic_tenant i \<and> Some (ro_id r) = ic_rootId i \<and> site_at env (ic_tenant i) (ro_locationId r) w (ist_db s))
              (routers (ist_db s)))) (ist_windows s)"

definition escalation_due :: "incident_env \<Rightarrow> time \<Rightarrow> incident_state \<Rightarrow> incident \<Rightarrow> bool" where
  "escalation_due env now s i \<longleftrightarrow> active_incident i \<and> ic_escalationLevel i < 3 \<and>
     (case ic_lastEscalatedAt i of None \<Rightarrow> ic_startedAt i \<le> now - quarter | Some t \<Rightarrow> t \<le> now - quarter) \<and> \<not> under_maintenance env now s i"

definition due_incidents :: "incident_env \<Rightarrow> time \<Rightarrow> incident_state \<Rightarrow> incident list" where
  "due_incidents env now s = order_limit (\<lambda>i. (severity_rank (ic_severity i), ic_startedAt i)) 50 (select (escalation_due env now s) (ist_incidents s))"

text \<open>An entry of the audit table that a worker writes directly\<close>

definition system_audit :: "time \<Rightarrow> uuid \<Rightarrow> string \<Rightarrow> string \<Rightarrow> uuid \<Rightarrow> json \<Rightarrow> incident_state \<Rightarrow> incident_state" where
  "system_audit now tenant action resource i metadata s =
     (bump s)\<lparr> ist_db := (ist_db (bump s))\<lparr> auditLogs := insert_row \<lparr> al_id = new_uuid (ist_db s), al_tenant = tenant, al_actorUserId = None, al_action = action,
       al_resourceType = resource, al_resourceId = Some i, al_requestId = None, al_correlationId = None, al_ipAddress = None, al_userAgent = None,
       al_metadata = metadata, al_createdAt = now \<rparr> (auditLogs (ist_db s)) \<rparr> \<rparr>"

definition escalate :: "time \<Rightarrow> incident_state \<Rightarrow> incident \<Rightarrow> incident_state" where
  "escalate now s i =
     (let level = ic_escalationLevel i + 1
      in system_audit now (ic_tenant i) ''INCIDENT_ESCALATION_TRIGGERED'' ''incident'' (ic_id i)
           (jobject [(''level'', Some (JNum (of_int level))), (''severity'', Some (JStr (severity_name (ic_severity i)))),
              (''ownerUserId'', Some (or_null JStr (ic_ownerUserId i)))])
           (s\<lparr> ist_incidents := update_where (\<lambda>x. ic_tenant x = ic_tenant i \<and> ic_id x = ic_id i)
                  (\<lambda>x. x\<lparr> ic_escalationLevel := level, ic_lastEscalatedAt := Some now, ic_updatedAt := now \<rparr>) (ist_incidents s),
               ist_events := insert_row \<lparr> iv_tenant = ic_tenant i, iv_incidentId = ic_id i, iv_actorUserId = None, iv_eventType = ''ESCALATION_TRIGGERED'',
                 iv_note = Some (''Incident escalation level '' @ int_str level),
                 iv_metadata = jobject [(''level'', Some (JNum (of_int level))), (''ownerUserId'', Some (or_null JStr (ic_ownerUserId i)))],
                 iv_createdAt = now \<rparr> (ist_events s) \<rparr>))"

definition escalation_event :: "incident \<Rightarrow> event_input" where
  "escalation_event i =
     (let level = ic_escalationLevel i + 1
      in \<lparr> ei_tenantId = ic_tenant i, ei_eventKey = ''incident.escalation:'' @ ic_id i @ '':'' @ int_str level, ei_eventType = ''INCIDENT.ESCALATED'',
           ei_aggregateType = Some ''incident'', ei_aggregateId = Some (ic_id i), ei_payload = jobject
             [(''title'', Some (JStr (''Incident escalation: '' @ ic_title i))),
              (''summary'', Some (JStr (with_default (ic_summary i) ''An incident remains unresolved and requires escalation.''))),
              (''severity'', Some (JStr (severity_name (ic_severity i)))), (''incidentId'', Some (JStr (ic_id i))),
              (''escalationLevel'', Some (JNum (of_int level))), (''ownerUserId'', Some (or_null JStr (ic_ownerUserId i))),
              (''targetRoles'', Some staff_roles)] \<rparr>)"

text \<open>A round of the worker: \<open>locked\<close> tells whether it got the advisory lock.\<close>

definition escalation_tick :: "incident_env \<Rightarrow> bool \<Rightarrow> time \<Rightarrow> incident_state \<Rightarrow> incident_state" where
  "escalation_tick env locked now s =
     (if locked then (let due = due_incidents env now s in foldl (\<lambda>t i. announce now (escalation_event i) t) (foldl (escalate now) s due) due) else s)"

end
