(* ===== verification/StatusPage.thy ===== *)
theory StatusPage
  imports Incidents
begin

text \<open>
  Maintenance windows and the public status page (\<open>incidents/incidents.service.ts\<close>, \<open>incidents/maintenance-window.worker.ts\<close>): creating and
  cancelling windows and the worker that opens and closes them, the settings and components of the page, and what an anonymous reader is shown.
\<close>

subsection \<open>Maintenance windows\<close>

record window_dto =
  nw_title :: string
  nw_description :: "string option"
  nw_scopeType :: window_scope
  nw_scopeId :: "uuid option"
  nw_startsAt :: string
  nw_endsAt :: string
  nw_isPublic :: "bool option"
  nw_publicSummary :: "string option"

definition scope_name :: "window_scope \<Rightarrow> string" where
  "scope_name v = (case v of SC_TENANT \<Rightarrow> ''TENANT'' | SC_SITE \<Rightarrow> ''SITE'' | SC_ROUTER \<Rightarrow> ''ROUTER'')"

definition new_window :: "incident_env \<Rightarrow> time \<Rightarrow> uuid \<Rightarrow> uuid \<Rightarrow> uuid \<Rightarrow> window_dto \<Rightarrow> time \<Rightarrow> time \<Rightarrow> window" where
  "new_window env now tenant i actor dto a b = \<lparr> mw_tenant = tenant, mw_id = i, mw_title = js_trim (nw_title dto),
     mw_description = trim_or_null (nw_description dto), mw_scopeType = nw_scopeType dto, mw_scopeId = nw_scopeId dto, mw_startsAt = a, mw_endsAt = b,
     mw_status = ie_newWindow env, mw_isPublic = with_default (nw_isPublic dto) False, mw_publicSummary = trim_or_null (nw_publicSummary dto),
     mw_createdBy = actor, mw_createdAt = now \<rparr>"

text \<open>The checks of \<open>createMaintenanceWindow\<close>\<close>

definition window_refused :: "uuid \<Rightarrow> window_dto \<Rightarrow> db \<Rightarrow> exn option" where
  "window_refused tenant dto s =
     (let given = (nw_scopeId dto \<noteq> None \<and> nw_scopeId dto \<noteq> Some []) in
      if (nw_scopeType dto = SC_TENANT) = given
      then Some (BadRequest ''TENANT scope must not include a scopeId; SITE and ROUTER scopes require one'')
      else case nw_scopeType dto of
        SC_TENANT \<Rightarrow> None
      | SC_SITE \<Rightarrow> if exists_row (\<lambda>n. ns_tenant n = tenant \<and> nw_scopeId dto = Some (ns_id n)) (networkSites s) then None
          else Some (NotFound ''Maintenance site was not found in this tenant'')
      | SC_ROUTER \<Rightarrow> if exists_row (\<lambda>r. ro_tenant r = tenant \<and> nw_scopeId dto = Some (ro_id r)) (routers s) then None
          else Some (NotFound ''Maintenance router was not found in this tenant''))"

text \<open>\<open>iso_text\<close> stands for \<open>toISOString\<close>.\<close>

definition create_maintenance_window ::
  "incident_env \<Rightarrow> (time \<Rightarrow> string) \<Rightarrow> time \<Rightarrow> uuid \<Rightarrow> uuid \<Rightarrow> window_dto \<Rightarrow> audit_context \<Rightarrow> (incident_state, window) operation" where
  "create_maintenance_window env iso_text now tenant actor dto ctx s =
     (case (ie_date env (nw_startsAt dto), ie_date env (nw_endsAt dto)) of
        (Some a, Some b) \<Rightarrow>
          if b \<le> a then (Inl (BadRequest ''Maintenance end time must be later than its start time''), s)
          else (case window_refused tenant dto (ist_db s) of
                  Some e \<Rightarrow> (Inl e, s)
                | None \<Rightarrow>
                    (let row = new_window env now tenant (new_uuid (ist_db s)) actor dto a b in
                     case constrained (ie_violation env) row ((bump s)\<lparr> ist_windows := insert_row row (ist_windows s) \<rparr>) s of
                       (Inl e, s1) \<Rightarrow> (Inl e, s1)
                     | (Inr _, s1) \<Rightarrow>
                         (Inr row, incident_audit env now tenant ''MAINTENANCE_WINDOW_CREATED'' ''maintenance_window'' (Some (mw_id row))
                            (jobject [(''scopeType'', Some (JStr (scope_name (nw_scopeType dto)))), (''scopeId'', Some (or_null JStr (nw_scopeId dto))),
                               (''startsAt'', Some (JStr (iso_text a))), (''endsAt'', Some (JStr (iso_text b))),
                               (''isPublic'', Some (JBool (with_default (nw_isPublic dto) False)))]) ctx s1)))
      | _ \<Rightarrow> (Inl (BadRequest ''Maintenance end time must be later than its start time''), s))"

definition set_window_status :: "(window \<Rightarrow> bool) \<Rightarrow> window_status \<Rightarrow> incident_state \<Rightarrow> incident_state" where
  "set_window_status P st s = s\<lparr> ist_windows := update_where P (\<lambda>w. w\<lparr> mw_status := st \<rparr>) (ist_windows s) \<rparr>"

definition cancel_maintenance_window :: "incident_env \<Rightarrow> time \<Rightarrow> uuid \<Rightarrow> uuid \<Rightarrow> audit_context \<Rightarrow> (incident_state, uuid \<times> string) operation" where
  "cancel_maintenance_window env now tenant i ctx s =
     (let P = (\<lambda>w. mw_tenant w = tenant \<and> mw_id w = i \<and> mw_status w \<in> {MW_PLANNED, MW_ACTIVE}) in
      case select_one P (ist_windows s) of
        None \<Rightarrow> (Inl (NotFound ''Planned or active maintenance window not found''), s)
      | Some w \<Rightarrow> (Inr (mw_id w, mw_title w), incident_audit env now tenant ''MAINTENANCE_WINDOW_CANCELED'' ''maintenance_window'' (Some i) (jobject []) ctx
          (set_window_status P MW_CANCELED s)))"

definition list_maintenance_windows :: "uuid \<Rightarrow> incident_state \<Rightarrow> window list" where
  "list_maintenance_windows tenant s = order_limit (\<lambda>w. - mw_startsAt w) 200 (select (\<lambda>w. mw_tenant w = tenant) (ist_windows s))"

definition audit_windows :: "time \<Rightarrow> string \<Rightarrow> window list \<Rightarrow> incident_state \<Rightarrow> incident_state" where
  "audit_windows now action ws s = foldl (\<lambda>t w. system_audit now (mw_tenant w) action ''maintenance_window'' (mw_id w)
     (jobject [(''title'', Some (JStr (mw_title w))), (''automated'', Some (JBool True))]) t) s ws"

definition window_starts :: "time \<Rightarrow> window \<Rightarrow> bool" where
  "window_starts now w \<longleftrightarrow> mw_status w = MW_PLANNED \<and> mw_startsAt w \<le> now \<and> now < mw_endsAt w"

definition window_ends :: "time \<Rightarrow> window \<Rightarrow> bool" where
  "window_ends now w \<longleftrightarrow> mw_status w \<in> {MW_PLANNED, MW_ACTIVE} \<and> mw_endsAt w \<le> now"

text \<open>A round of \<open>MaintenanceWindowWorker\<close>\<close>

definition window_tick :: "time \<Rightarrow> incident_state \<Rightarrow> incident_state" where
  "window_tick now s =
     (let s1 = audit_windows now ''MAINTENANCE_WINDOW_ACTIVATED'' (select (window_starts now) (ist_windows s)) (set_window_status (window_starts now) MW_ACTIVE s)
      in audit_windows now ''MAINTENANCE_WINDOW_COMPLETED'' (select (window_ends now) (ist_windows s1)) (set_window_status (window_ends now) MW_COMPLETED s1))"

subsection \<open>The settings and components of the page\<close>

record page_view =
  gv_settings :: "page_settings option"
  gv_components :: "page_component list"

definition components_of :: "uuid \<Rightarrow> incident_state \<Rightarrow> page_component list" where
  "components_of tenant s = sort_key sc_name (select (\<lambda>c. sc_tenant c = tenant) (ist_components s))"

definition get_status_page_settings :: "uuid \<Rightarrow> incident_state \<Rightarrow> page_view" where
  "get_status_page_settings tenant s = \<lparr> gv_settings = select_one (\<lambda>g. sg_tenant g = tenant) (ist_settings s), gv_components = components_of tenant s \<rparr>"

record settings_dto =
  sd_slug :: string
  sd_displayName :: string
  sd_description :: "string option"
  sd_isPublished :: bool

definition settings_row :: "time \<Rightarrow> uuid \<Rightarrow> uuid \<Rightarrow> settings_dto \<Rightarrow> page_settings" where
  "settings_row now tenant actor dto = \<lparr> sg_tenant = tenant, sg_slug = js_lower (js_trim (sd_slug dto)), sg_displayName = js_trim (sd_displayName dto),
     sg_description = trim_or_null (sd_description dto), sg_isPublished = sd_isPublished dto, sg_updatedBy = actor, sg_updatedAt = now \<rparr>"

text \<open>\<open>INSERT \<dots> ON CONFLICT \<dots> DO UPDATE\<close>\<close>

definition upsert :: "('r \<Rightarrow> bool) \<Rightarrow> ('r \<Rightarrow> 'r) \<Rightarrow> 'r \<Rightarrow> 'r list \<Rightarrow> 'r list" where
  "upsert P f r t = (if exists_row P t then update_where P f t else insert_row r t)"

definition update_status_page_settings ::
  "incident_env \<Rightarrow> time \<Rightarrow> uuid \<Rightarrow> uuid \<Rightarrow> settings_dto \<Rightarrow> audit_context \<Rightarrow> (incident_state, page_settings) operation" where
  "update_status_page_settings env now tenant actor dto ctx s =
     (let row = settings_row now tenant actor dto in
      case constrained (ie_violation env) row (s\<lparr> ist_settings := upsert (\<lambda>g. sg_tenant g = tenant) (\<lambda>_. row) row (ist_settings s) \<rparr>) s of
        (Inl e, s1) \<Rightarrow> (Inl (if e = DbError ''23505'' then Conflict ''That public status-page slug is already in use'' else e), s1)
      | (Inr _, s1) \<Rightarrow> (Inr row, incident_audit env now tenant ''STATUS_PAGE_SETTINGS_UPDATED'' ''status_page'' None
          (jobject [(''slug'', Some (JStr (sd_slug dto))), (''isPublished'', Some (JBool (sd_isPublished dto)))]) ctx s1))"

definition key_char :: "char \<Rightarrow> bool" where
  "key_char c \<longleftrightarrow> (let n = of_char c :: nat in (48 \<le> n \<and> n \<le> 57) \<or> (97 \<le> n \<and> n \<le> 122))"

text \<open>\<open>/^[a-z0-9][a-z0-9-]{1,79}$/\<close>\<close>

definition valid_component_key :: "string \<Rightarrow> bool" where
  "valid_component_key k \<longleftrightarrow> 2 \<le> length k \<and> length k \<le> 80 \<and> key_char (hd k) \<and> list_all (\<lambda>c. key_char c \<or> c = CHR ''-'') (tl k)"

record component_dto =
  nc_name :: string
  nc_status :: component_state
  nc_publicSummary :: "string option"

definition component_name :: "component_state \<Rightarrow> string" where
  "component_name v = (case v of CS_OPERATIONAL \<Rightarrow> ''OPERATIONAL'' | CS_DEGRADED \<Rightarrow> ''DEGRADED'' | CS_PARTIAL_OUTAGE \<Rightarrow> ''PARTIAL_OUTAGE''
     | CS_MAJOR_OUTAGE \<Rightarrow> ''MAJOR_OUTAGE'' | CS_MAINTENANCE \<Rightarrow> ''MAINTENANCE'')"

definition changed_component :: "time \<Rightarrow> uuid \<Rightarrow> component_dto \<Rightarrow> page_component \<Rightarrow> page_component" where
  "changed_component now actor dto c = c\<lparr> sc_name := js_trim (nc_name dto), sc_status := nc_status dto, sc_publicSummary := trim_or_null (nc_publicSummary dto),
     sc_updatedBy := actor, sc_updatedAt := now \<rparr>"

definition blank_component :: "uuid \<Rightarrow> uuid \<Rightarrow> string \<Rightarrow> time \<Rightarrow> uuid \<Rightarrow> page_component" where
  "blank_component tenant i k now actor = \<lparr> sc_tenant = tenant, sc_id = i, sc_key = k, sc_name = [], sc_status = CS_OPERATIONAL, sc_publicSummary = None,
     sc_updatedBy = actor, sc_updatedAt = now \<rparr>"

definition update_status_page_component ::
  "incident_env \<Rightarrow> time \<Rightarrow> uuid \<Rightarrow> uuid \<Rightarrow> string \<Rightarrow> component_dto \<Rightarrow> audit_context \<Rightarrow> (incident_state, page_component) operation" where
  "update_status_page_component env now tenant actor k dto ctx s =
     (if \<not> valid_component_key k then (Inl (BadRequest ''Invalid component key''), s)
      else (let P = (\<lambda>c. sc_tenant c = tenant \<and> sc_key c = k); f = changed_component now actor dto;
                row = (case select_one P (ist_components s) of None \<Rightarrow> f (blank_component tenant (new_uuid (ist_db s)) k now actor) | Some c \<Rightarrow> f c) in
            case constrained (ie_violation env) row ((bump s)\<lparr> ist_components := upsert P f row (ist_components s) \<rparr>) s of
              (Inl e, s1) \<Rightarrow> (Inl e, s1)
            | (Inr _, s1) \<Rightarrow> (Inr row, incident_audit env now tenant ''STATUS_COMPONENT_UPDATED'' ''status_page_component'' (Some (sc_id row))
                (jobject [(''componentKey'', Some (JStr k)), (''status'', Some (JStr (component_name (nc_status dto))))]) ctx s1)))"

subsection \<open>What the public is shown\<close>

record public_incident =
  pi_id :: uuid
  pi_title :: string
  pi_severity :: severity
  pi_status :: incident_status
  pi_startedAt :: time
  pi_resolvedAt :: "time option"

record public_window =
  pw_id :: uuid
  pw_title :: string
  pw_startsAt :: time
  pw_endsAt :: time
  pw_status :: window_status

record public_component =
  pc_key :: string
  pc_name :: string
  pc_status :: component_state
  pc_summary :: "string option"

record public_status =
  pt_slug :: string
  pt_displayName :: string
  pt_description :: "string option"
  pt_overall :: component_state
  pt_components :: "public_component list"
  pt_incidents :: "public_incident list"
  pt_windows :: "public_window list"

text \<open>\<open>COALESCE(NULLIF(x, ''''), d)\<close>\<close>

definition text_or :: "string option \<Rightarrow> string \<Rightarrow> string" where
  "text_or x d = (case x of None \<Rightarrow> d | Some t \<Rightarrow> if t = [] then d else t)"

definition week :: time where
  "week = 7 * 24 * 60 * 60 * 1000"

definition status_rank :: "incident_status \<Rightarrow> nat" where
  "status_rank v = (case v of IN_OPEN \<Rightarrow> 0 | IN_ACKNOWLEDGED \<Rightarrow> 1 | IN_RESOLVED \<Rightarrow> 2)"

definition publicly_listed :: "time \<Rightarrow> uuid \<Rightarrow> incident \<Rightarrow> bool" where
  "publicly_listed now tenant i \<longleftrightarrow> ic_tenant i = tenant \<and> ic_publicVisible i \<and>
     (ic_status i \<noteq> IN_RESOLVED \<or> (case ic_resolvedAt i of None \<Rightarrow> False | Some t \<Rightarrow> t > now - week))"

definition public_incident_of :: "incident \<Rightarrow> public_incident" where
  "public_incident_of i = \<lparr> pi_id = ic_id i, pi_title = text_or (ic_publicSummary i) ''Service incident'', pi_severity = ic_severity i, pi_status = ic_status i,
     pi_startedAt = ic_startedAt i, pi_resolvedAt = ic_resolvedAt i \<rparr>"

definition public_incidents :: "time \<Rightarrow> uuid \<Rightarrow> incident_state \<Rightarrow> public_incident list" where
  "public_incidents now tenant s = map public_incident_of
     (order_limit (\<lambda>i. (status_rank (ic_status i), - ic_startedAt i)) 50 (select (publicly_listed now tenant) (ist_incidents s)))"

definition publicly_planned :: "time \<Rightarrow> uuid \<Rightarrow> window \<Rightarrow> bool" where
  "publicly_planned now tenant w \<longleftrightarrow> mw_tenant w = tenant \<and> mw_isPublic w \<and> mw_status w \<in> {MW_PLANNED, MW_ACTIVE} \<and> now < mw_endsAt w"

definition public_window_of :: "window \<Rightarrow> public_window" where
  "public_window_of w = \<lparr> pw_id = mw_id w, pw_title = text_or (mw_publicSummary w) ''Scheduled maintenance'', pw_startsAt = mw_startsAt w,
     pw_endsAt = mw_endsAt w, pw_status = mw_status w \<rparr>"

definition public_windows :: "time \<Rightarrow> uuid \<Rightarrow> incident_state \<Rightarrow> public_window list" where
  "public_windows now tenant s = map public_window_of (order_limit mw_startsAt 30 (select (publicly_planned now tenant) (ist_windows s)))"

definition public_component_of :: "page_component \<Rightarrow> public_component" where
  "public_component_of c = \<lparr> pc_key = sc_key c, pc_name = sc_name c, pc_status = sc_status c, pc_summary = sc_publicSummary c \<rparr>"

definition overall_status :: "time \<Rightarrow> public_component list \<Rightarrow> public_incident list \<Rightarrow> public_window list \<Rightarrow> component_state" where
  "overall_status now cs is ws =
     (let active = filter (\<lambda>i. pi_status i \<noteq> IN_RESOLVED) is;
          maintenance = list_ex (\<lambda>w. pw_status w = MW_ACTIVE \<or> pw_startsAt w \<le> now) ws;
          some_component = (\<lambda>st. list_ex (\<lambda>c. pc_status c = st) cs)
      in if list_ex (\<lambda>i. pi_severity i = SV_CRITICAL) active then CS_MAJOR_OUTAGE
         else if maintenance then CS_MAINTENANCE
         else if active \<noteq> [] then CS_DEGRADED
         else if some_component CS_MAJOR_OUTAGE then CS_MAJOR_OUTAGE
         else if some_component CS_PARTIAL_OUTAGE then CS_PARTIAL_OUTAGE
         else if some_component CS_DEGRADED then CS_DEGRADED
         else if some_component CS_MAINTENANCE then CS_MAINTENANCE else CS_OPERATIONAL)"

definition get_public_status :: "time \<Rightarrow> string \<Rightarrow> incident_state \<Rightarrow> public_status result" where
  "get_public_status now slug s =
     (case select_one (\<lambda>g. sg_slug g = js_lower (js_trim slug) \<and> sg_isPublished g) (ist_settings s) of
        None \<Rightarrow> Inl (NotFound ''Published status page not found'')
      | Some g \<Rightarrow>
          (let cs = map public_component_of (components_of (sg_tenant g) s); is = public_incidents now (sg_tenant g) s; ws = public_windows now (sg_tenant g) s
           in Inr \<lparr> pt_slug = sg_slug g, pt_displayName = sg_displayName g, pt_description = sg_description g, pt_overall = overall_status now cs is ws,
                pt_components = cs, pt_incidents = is, pt_windows = ws \<rparr>))"

subsection \<open>Nothing else is shown\<close>

lemma map_insort_key: "map f (insort_key (\<lambda>x. k (f x)) x xs) = insort_key k (f x) (map f xs)"
  by (induction xs) simp_all

lemma map_sort_rows: "map f (sort_key (\<lambda>x. k (f x)) xs) = sort_key k (map f xs)"
proof (induction xs)
  case Nil
  then show ?case by simp
next
  case (Cons x xs)
  then show ?case by (simp add: sort_key_def map_insort_key)
qed

lemma shown_rows:
  assumes "\<And>x. P x \<longleftrightarrow> V x \<and> Q (row x)" and "\<And>x. key x = k (row x)" and "\<And>x. pub x = g (row x)"
  shows "map pub (order_limit key n (select P xs)) = map g (order_limit k n (select Q (map row (filter V xs))))"
proof -
  have "map row (order_limit key n (select P xs)) = order_limit k n (map row (select P xs))"
    unfolding order_limit_def assms(2) take_map [symmetric] map_sort_rows ..
  moreover have "map row (select P xs) = select Q (map row (filter V xs))"
    by (induction xs) (simp_all add: select_def assms(1))
  moreover have "map pub ys = map g (map row ys)" for ys unfolding assms(3) map_map comp_def ..
  ultimately show ?thesis by (simp only:)
qed

text \<open>The public columns of the tables\<close>

definition incident_columns :: "incident \<Rightarrow> uuid \<times> uuid \<times> string option \<times> severity \<times> incident_status \<times> time \<times> time option" where
  "incident_columns i = (ic_tenant i, ic_id i, ic_publicSummary i, ic_severity i, ic_status i, ic_startedAt i, ic_resolvedAt i)"

definition window_columns :: "window \<Rightarrow> uuid \<times> uuid \<times> string option \<times> time \<times> time \<times> window_status" where
  "window_columns w = (mw_tenant w, mw_id w, mw_publicSummary w, mw_startsAt w, mw_endsAt w, mw_status w)"

definition component_columns :: "page_component \<Rightarrow> uuid \<times> string \<times> string \<times> component_state \<times> string option" where
  "component_columns c = (sc_tenant c, sc_key c, sc_name c, sc_status c, sc_publicSummary c)"

definition settings_columns :: "page_settings \<Rightarrow> uuid \<times> string \<times> string \<times> string option" where
  "settings_columns g = (sg_tenant g, sg_slug g, sg_displayName g, sg_description g)"

definition same_public :: "incident_state \<Rightarrow> incident_state \<Rightarrow> bool" where
  "same_public s t \<longleftrightarrow>
     map incident_columns (filter ic_publicVisible (ist_incidents s)) = map incident_columns (filter ic_publicVisible (ist_incidents t)) \<and>
     map window_columns (filter mw_isPublic (ist_windows s)) = map window_columns (filter mw_isPublic (ist_windows t)) \<and>
     map component_columns (ist_components s) = map component_columns (ist_components t) \<and>
     map settings_columns (filter sg_isPublished (ist_settings s)) = map settings_columns (filter sg_isPublished (ist_settings t))"

lemma public_incidents_columns:
  "public_incidents now tenant s = map (\<lambda>(_, i, summary, sev, st, a, b). \<lparr> pi_id = i, pi_title = text_or summary ''Service incident'', pi_severity = sev,
       pi_status = st, pi_startedAt = a, pi_resolvedAt = b \<rparr>)
     (order_limit (\<lambda>(_, _, _, _, st, a, _). (status_rank st, - a)) 50
       (select (\<lambda>(u, _, _, _, st, _, b). u = tenant \<and> (st \<noteq> IN_RESOLVED \<or> (case b of None \<Rightarrow> False | Some t \<Rightarrow> t > now - week)))
         (map incident_columns (filter ic_publicVisible (ist_incidents s)))))"
  unfolding public_incidents_def by (rule shown_rows) (auto simp: publicly_listed_def incident_columns_def public_incident_of_def)

lemma public_windows_columns:
  "public_windows now tenant s = map (\<lambda>(_, i, summary, a, b, st). \<lparr> pw_id = i, pw_title = text_or summary ''Scheduled maintenance'', pw_startsAt = a,
       pw_endsAt = b, pw_status = st \<rparr>)
     (order_limit (\<lambda>(_, _, _, a, _, _). a) 30
       (select (\<lambda>(u, _, _, _, b, st). u = tenant \<and> st \<in> {MW_PLANNED, MW_ACTIVE} \<and> now < b) (map window_columns (filter mw_isPublic (ist_windows s)))))"
  unfolding public_windows_def by (rule shown_rows) (auto simp: publicly_planned_def window_columns_def public_window_of_def)

lemma components_columns:
  "map public_component_of (components_of tenant s) = map (\<lambda>(_, k, n, st, summary). \<lparr> pc_key = k, pc_name = n, pc_status = st, pc_summary = summary \<rparr>)
     (sort_key (\<lambda>(_, _, n, _, _). n) (select (\<lambda>(u, _). u = tenant) (map component_columns (ist_components s))))"
proof -
  have "map component_columns (components_of tenant s) =
      sort_key (\<lambda>(_, _, n, _, _). n) (select (\<lambda>(u, _). u = tenant) (map component_columns (ist_components s)))"
    unfolding components_of_def select_def filter_map map_sort_rows [symmetric] by (simp add: component_columns_def comp_def)
  moreover have "public_component_of = (\<lambda>(_, k, n, st, summary). \<lparr> pc_key = k, pc_name = n, pc_status = st, pc_summary = summary \<rparr>) \<circ> component_columns"
    by (simp add: fun_eq_iff public_component_of_def component_columns_def)
  ultimately show ?thesis by (metis map_map)
qed

lemma settings_row_columns:
  "map_option settings_columns (select_one (\<lambda>g. sg_slug g = x \<and> sg_isPublished g) gs) =
     select_one (\<lambda>(_, slug, _, _). slug = x) (map settings_columns (filter sg_isPublished gs))"
  by (induction gs) (simp_all add: select_one_def settings_columns_def)

text \<open>C22: The public status page shows published data only: two states that agree on the published settings, on the components, and on the public columns of the
  incidents and windows that were published - whatever else they hold, titles, summaries, evidence, owners, resolutions, unpublished incidents, windows
  and drafts of the page of any tenant - give an anonymous reader the same answer for every address, the error included.
\<close>

theorem public_status_shows_published_data_only:
  assumes "same_public s t"
  shows "get_public_status now slug s = get_public_status now slug t"
proof -
  let ?find = "\<lambda>s. select_one (\<lambda>g. sg_slug g = js_lower (js_trim slug) \<and> sg_isPublished g) (ist_settings s)"
  have pieces: "public_incidents now tenant s = public_incidents now tenant t" "public_windows now tenant s = public_windows now tenant t"
    "map public_component_of (components_of tenant s) = map public_component_of (components_of tenant t)" for tenant
    using assms unfolding public_incidents_columns public_windows_columns components_columns same_public_def by simp_all
  have "map_option settings_columns (?find s) = map_option settings_columns (?find t)"
    using assms unfolding settings_row_columns same_public_def by simp
  then show ?thesis
    using pieces by (cases "?find s"; cases "?find t") (simp_all add: get_public_status_def settings_columns_def Let_def)
qed

lemma first_row:
  assumes "x0 \<in> set xs" and "0 < n"
  obtains y where "y \<in> set (order_limit key n xs)" "\<forall>x\<in>set xs. key y \<le> key x"
proof -
  obtain y ys where y: "sort_key key xs = y # ys" using assms(1) set_sort [of key xs] by (cases "sort_key key xs") auto
  have "sorted (map key (y # ys))" using sorted_sort_key [of key xs] by (simp only: y)
  then have "key y \<le> key x" if "x \<in> set (y # ys)" for x using that by auto
  moreover have "set (y # ys) = set xs" using set_sort [of key xs] by (simp only: y)
  moreover have "y \<in> set (order_limit key n xs)" using assms(2) by (simp add: order_limit_def y take_Cons')
  ultimately show thesis using that by blast
qed

lemma operational_quiet:
  assumes "overall_status now cs is ws = CS_OPERATIONAL"
  shows "list_all (\<lambda>i. pi_status i = IN_RESOLVED) is" and "list_all (\<lambda>w. now < pw_startsAt w) ws" and "list_all (\<lambda>c. pc_status c = CS_OPERATIONAL) cs"
proof -
  show "list_all (\<lambda>i. pi_status i = IN_RESOLVED) is" using assms by (auto simp: overall_status_def Let_def list_all_iff filter_empty_conv split: if_splits)
  show "list_all (\<lambda>w. now < pw_startsAt w) ws"
    using assms by (auto simp: overall_status_def Let_def list_all_iff list_ex_iff not_le split: if_splits)
  have "pc_status c = CS_OPERATIONAL" if "c \<in> set cs" for c
    using assms that by (cases "pc_status c") (auto simp: overall_status_def Let_def list_ex_iff split: if_splits)
  then show "list_all (\<lambda>c. pc_status c = CS_OPERATIONAL) cs" by (simp add: list_all_iff)
qed

text \<open>C23: The page never claims that all is well while something that was published is not: when it says \<open>OPERATIONAL\<close>, the tenant has no published incident that
  is open or acknowledged, no published maintenance window that has begun and not ended or been called off, and every component is operational - also
  when there are more of them than the page lists.
\<close>

theorem operational_means_all_is_well:
  assumes "get_public_status now slug s = Inr v" and "pt_overall v = CS_OPERATIONAL"
  shows "\<exists>g\<in>set (ist_settings s). sg_isPublished g \<and> sg_slug g = js_lower (js_trim slug) \<and>
    list_all (\<lambda>i. ic_tenant i = sg_tenant g \<and> ic_publicVisible i \<longrightarrow> ic_status i = IN_RESOLVED) (ist_incidents s) \<and>
    list_all (\<lambda>w. publicly_planned now (sg_tenant g) w \<longrightarrow> now < mw_startsAt w) (ist_windows s) \<and>
    list_all (\<lambda>c. sc_tenant c = sg_tenant g \<longrightarrow> sc_status c = CS_OPERATIONAL) (ist_components s)"
proof -
  obtain g where g: "g \<in> set (ist_settings s)" "sg_slug g = js_lower (js_trim slug)" "sg_isPublished g"
    and v: "overall_status now (map public_component_of (components_of (sg_tenant g) s)) (public_incidents now (sg_tenant g) s)
      (public_windows now (sg_tenant g) s) = CS_OPERATIONAL"
    using assms by (auto simp: get_public_status_def Let_def dest!: select_one_Some split: option.splits)
  let ?u = "sg_tenant g"
  note quiet = operational_quiet [OF v]
  have "ic_status i = IN_RESOLVED" if i: "i \<in> set (ist_incidents s)" "ic_tenant i = ?u \<and> ic_publicVisible i" for i
  proof (rule ccontr)
    assume open_i: "ic_status i \<noteq> IN_RESOLVED"
    let ?key = "\<lambda>i. (status_rank (ic_status i), - ic_startedAt i)" and ?rows = "select (publicly_listed now ?u) (ist_incidents s)"
    have row: "i \<in> set ?rows" using i open_i by (simp add: publicly_listed_def)
    obtain j where j: "j \<in> set (order_limit ?key 50 ?rows)" "\<forall>x\<in>set ?rows. ?key j \<le> ?key x"
      by (rule first_row [OF row, of 50 ?key, OF zero_less_numeral])
    have "status_rank (ic_status j) \<le> status_rank (ic_status i)" using bspec [OF j(2) row] by auto
    then have "ic_status j \<noteq> IN_RESOLVED" using open_i by (cases "ic_status i") (auto simp: status_rank_def)
    moreover have "public_incident_of j \<in> set (public_incidents now ?u s)" using j(1) by (simp add: public_incidents_def)
    ultimately show False using quiet(1) by (auto simp: list_all_iff public_incident_of_def)
  qed
  moreover have "now < mw_startsAt w" if w: "w \<in> set (ist_windows s)" "publicly_planned now ?u w" for w
  proof (rule ccontr)
    assume begun: "\<not> now < mw_startsAt w"
    let ?rows = "select (publicly_planned now ?u) (ist_windows s)"
    have row: "w \<in> set ?rows" using w by simp
    obtain x where x: "x \<in> set (order_limit mw_startsAt 30 ?rows)" "\<forall>y\<in>set ?rows. mw_startsAt x \<le> mw_startsAt y"
      by (rule first_row [OF row, of 30 mw_startsAt, OF zero_less_numeral])
    then have "mw_startsAt x \<le> now" using begun row by fastforce
    moreover have "public_window_of x \<in> set (public_windows now ?u s)" using x(1) by (simp add: public_windows_def)
    ultimately show False using quiet(2) by (auto simp: list_all_iff public_window_of_def)
  qed
  moreover have "sc_status c = CS_OPERATIONAL" if c: "c \<in> set (ist_components s)" "sc_tenant c = ?u" for c
  proof -
    have "public_component_of c \<in> set (map public_component_of (components_of ?u s))" using c by (simp add: components_of_def)
    then show ?thesis using quiet(3) by (auto simp: list_all_iff public_component_of_def)
  qed
  ultimately show ?thesis using g by (auto simp: list_all_iff)
qed

definition open_page :: incident_state where
  "open_page = \<lparr> ist_db = empty_db, ist_staff = [], ist_locations = [], ist_incidents = [], ist_impacts = [], ist_events = [], ist_windows = [],
     ist_settings = [\<lparr> sg_tenant = ''t'', sg_slug = ''status'', sg_displayName = ''Status'', sg_description = None, sg_isPublished = True,
       sg_updatedBy = ''u'', sg_updatedAt = 0 \<rparr>],
     ist_components = [\<lparr> sc_tenant = ''t'', sc_id = ''c'', sc_key = ''wifi'', sc_name = ''Wi-Fi'', sc_status = CS_OPERATIONAL, sc_publicSummary = None,
       sc_updatedBy = ''u'', sc_updatedAt = 0 \<rparr>] \<rparr>"

text \<open>The same page after an unpublished window was planned and a location was named\<close>

definition secret_page :: incident_state where
  "secret_page = open_page\<lparr> ist_locations := [\<lparr> lo_tenant = ''t'', lo_id = ''l'', lo_name = ''vault'' \<rparr>],
     ist_windows := [\<lparr> mw_tenant = ''t'', mw_id = ''w'', mw_title = ''swap of the core'', mw_description = None, mw_scopeType = SC_TENANT, mw_scopeId = None,
       mw_startsAt = 0, mw_endsAt = 9, mw_status = MW_ACTIVE, mw_isPublic = False, mw_publicSummary = None, mw_createdBy = ''u'', mw_createdAt = 0 \<rparr>] \<rparr>"

theorem public_status_shows_published_data_only_witness:
  "ist_windows secret_page \<noteq> ist_windows open_page \<and> get_public_status 5 ''Status '' secret_page = get_public_status 5 ''Status '' open_page"
proof -
  have "same_public secret_page open_page" by (simp add: same_public_def secret_page_def open_page_def)
  then show ?thesis using public_status_shows_published_data_only [of secret_page open_page 5 "''Status ''"]
    by (simp add: secret_page_def open_page_def)
qed

theorem operational_means_all_is_well_witness:
  "\<exists>v. get_public_status 5 ''status'' open_page = Inr v \<and> pt_overall v = CS_OPERATIONAL \<and>
     (\<exists>g\<in>set (ist_settings open_page). sg_slug g = js_lower (js_trim ''status'') \<and>
        list_all (\<lambda>c. sc_tenant c = sg_tenant g \<longrightarrow> sc_status c = CS_OPERATIONAL) (ist_components open_page))"
proof -
  have run: "(case get_public_status 5 ''status'' open_page of Inl _ \<Rightarrow> False | Inr v \<Rightarrow> pt_overall v = CS_OPERATIONAL)" by code_simp
  then obtain v where v: "get_public_status 5 ''status'' open_page = Inr v" "pt_overall v = CS_OPERATIONAL" by (auto split: sum.splits)
  show ?thesis using v operational_means_all_is_well [OF v] by blast
qed

end
