(* ===== verification/SyntheticMonitoring.thy ===== *)
theory SyntheticMonitoring
  imports StatusPage Texts
begin

text \<open>
  Synthetic monitoring (\<open>synthetic-monitoring/synthetic-monitoring.service.ts\<close>, \<open>synthetic-monitoring/synthetic-monitoring.worker.ts\<close>): monitors and
  the checks of their targets, the round over the checks that are due, and the incident a failing monitor opens and its recovery resolves. Its tables
  stand beside those of the incidents. The network - the resolution of a name and a request - the parsing of an address on the web, \<open>isIP\<close>, the
  configured host names, the column defaults and the constraints are parameters.
\<close>

subsection \<open>Tables\<close>

datatype check_type = CT_HTTP | CT_DNS | CT_CAPTIVE_PORTAL
datatype check_status = CK_PASS | CK_FAIL | CK_UNKNOWN

record check_result =
  kr_status :: check_status
  kr_latencyMs :: "int option"
  kr_responseCode :: "int option"
  kr_error :: "string option"

record monitor =
  mn_tenant :: uuid
  mn_id :: uuid
  mn_name :: string
  mn_checkType :: check_type
  mn_target :: string
  mn_expectedStatus :: int
  mn_intervalSeconds :: int
  mn_timeoutMs :: int
  mn_enabled :: bool
  mn_last :: "check_result option"
  mn_lastCheckedAt :: "time option"
  mn_nextCheckAt :: time
  mn_createdBy :: uuid
  mn_createdAt :: time
  mn_updatedAt :: time

record check_row =
  kw_tenant :: uuid
  kw_id :: uuid
  kw_monitorId :: uuid
  kw_result :: check_result
  kw_checkedAt :: time

record monitoring =
  yt_base :: incident_state
  yt_monitors :: "monitor list"
  yt_results :: "check_row list"

record monitor_url =
  mu_protocol :: string
  mu_username :: string
  mu_password :: string
  mu_hostname :: string
  mu_port :: string
  mu_search :: string
  mu_hash :: string
  mu_href :: string

text \<open>
  The parameters: those of the incidents, \<open>new URL\<close>, \<open>isIP\<close>, the configured private hosts, the addresses of a name, the status a
  request is answered with, the time a check takes, the defaults of the columns of a monitor, and the constraints of the two tables. A failure of
  the network is the message of the error, or nothing when what was thrown is no error.
\<close>

record monitor_env =
  ye_incidents :: incident_env
  ye_url :: "string \<Rightarrow> monitor_url option"
  ye_ip :: "string \<Rightarrow> nat"
  ye_privateHosts :: string
  ye_lookup :: "string \<Rightarrow> string option + string list"
  ye_fetch :: "string \<Rightarrow> int \<Rightarrow> string option + int"
  ye_elapsed :: "monitor \<Rightarrow> time"
  ye_defaults :: "time \<Rightarrow> monitor"
  ye_violation :: "monitoring \<Rightarrow> string option"

subsection \<open>Targets\<close>

definition allowed_private_hosts :: "monitor_env \<Rightarrow> string list" where
  "allowed_private_hosts env = filter (\<lambda>v. v \<noteq> []) (map (\<lambda>v. js_lower (js_trim v)) (split_on (CHR '','') (ye_privateHosts env)))"

definition monitored_v4 :: "string \<Rightarrow> bool" where
  "monitored_v4 address =
     (case map number_of_text (split_on (CHR ''.'') address) of
        [a, b, c, d] \<Rightarrow>
          \<not> list_ex (\<lambda>n. js_less n (Fin 0) \<or> js_less (Fin 255) n) [a, b, c, d] \<and>
          \<not> (a \<in> {Fin 0, Fin 10, Fin 127} \<or> js_le (Fin 224) a \<or> a = Fin 169 \<and> b = Fin 254 \<or> a = Fin 172 \<and> js_le (Fin 16) b \<and> js_le b (Fin 31) \<or>
             a = Fin 192 \<and> b = Fin 168 \<or> a = Fin 192 \<and> b = Fin 0 \<or> a = Fin 192 \<and> b = Fin 2 \<or> a = Fin 198 \<and> b \<in> {Fin 18, Fin 19, Fin 51} \<or>
             a = Fin 203 \<and> b = Fin 0 \<or> a = Fin 100 \<and> js_le (Fin 64) b \<and> js_le b (Fin 127))
      | _ \<Rightarrow> False)"

definition begins :: "string \<Rightarrow> string \<Rightarrow> bool" where
  "begins p t \<longleftrightarrow> take (length p) t = p"

definition monitored_v6 :: "string \<Rightarrow> bool" where
  "monitored_v6 address =
     (let v = js_lower address in
      if begins ''::ffff:'' v \<or> v = ''::1'' \<or> v = ''::'' \<or> begins ''fc'' v \<or> begins ''fd'' v \<or> begins ''fe80:'' v \<or> begins ''2001:db8:'' v
      then False else begins ''2'' v \<or> begins ''3'' v)"

definition monitored_address :: "monitor_env \<Rightarrow> string \<Rightarrow> bool" where
  "monitored_address env address = (if ye_ip env address = 4 then monitored_v4 address else if ye_ip env address = 6 then monitored_v6 address else False)"

text \<open>The regular expression of a host name, label by label\<close>

definition letter :: "char \<Rightarrow> bool" where
  "letter c \<longleftrightarrow> (let n = of_char c :: nat in (65 \<le> n \<and> n \<le> 90) \<or> (97 \<le> n \<and> n \<le> 122))"

definition letter_or_digit :: "char \<Rightarrow> bool" where
  "letter_or_digit c \<longleftrightarrow> letter c \<or> (let n = of_char c :: nat in 48 \<le> n \<and> n \<le> 57)"

definition dns_label :: "string \<Rightarrow> bool" where
  "dns_label w \<longleftrightarrow> w \<noteq> [] \<and> length w \<le> 63 \<and> letter_or_digit (hd w) \<and> letter_or_digit (last w) \<and> list_all (\<lambda>c. letter_or_digit c \<or> c = CHR ''-'') w"

definition dns_name :: "string \<Rightarrow> bool" where
  "dns_name v \<longleftrightarrow> (let ws = split_on (CHR ''.'') v in
     length v \<le> 253 \<and> 2 \<le> length ws \<and> list_all dns_label (butlast ws) \<and> 2 \<le> length (last ws) \<and> length (last ws) \<le> 63 \<and> list_all letter (last ws))"

definition private_ending :: "string \<Rightarrow> bool" where
  "private_ending v \<longleftrightarrow> js_lower (last (split_on (CHR ''.'') v)) \<in> {''local'', ''localhost'', ''internal'', ''lan''}"

definition unbracketed :: "string \<Rightarrow> string" where
  "unbracketed h = (let t = (case h of c # r \<Rightarrow> if c = CHR ''['' then r else h | [] \<Rightarrow> [])
     in if t \<noteq> [] \<and> last t = CHR '']'' then butlast t else t)"

definition ends :: "string \<Rightarrow> string \<Rightarrow> bool" where
  "ends e t \<longleftrightarrow> length e \<le> length t \<and> drop (length t - length e) t = e"

definition validate_target :: "monitor_env \<Rightarrow> check_type \<Rightarrow> string \<Rightarrow> string result" where
  "validate_target env type target =
     (let v = js_trim target in
      if type = CT_DNS then
        (if \<not> dns_name v \<or> private_ending v
         then Inl (BadRequest ''DNS monitor target must be a fully qualified public hostname or an explicitly allowlisted private hostname'')
         else Inr (js_lower v))
      else (case ye_url env v of
              None \<Rightarrow> Inl (BadRequest ''HTTP monitor target must be a valid HTTPS URL'')
            | Some u \<Rightarrow>
                if mu_protocol u \<noteq> ''https:'' \<or> mu_username u \<noteq> [] \<or> mu_password u \<noteq> [] \<or> mu_search u \<noteq> [] \<or> mu_hash u \<noteq> [] \<or>
                  (mu_port u \<noteq> [] \<and> mu_port u \<noteq> ''443'') \<or> ye_ip env (unbracketed (mu_hostname u)) \<noteq> 0 \<or> mu_hostname u = ''localhost'' \<or>
                  ends ''.local'' (mu_hostname u)
                then Inl (BadRequest ''Monitor URLs must use HTTPS, contain no credentials/query/fragment, and use a hostname rather than an IP literal'')
                else Inr (mu_href u)))"

definition resolve_allowed :: "monitor_env \<Rightarrow> string \<Rightarrow> string option + string list" where
  "resolve_allowed env host =
     (case ye_lookup env host of
        Inl e \<Rightarrow> Inl e
      | Inr records \<Rightarrow>
          if records = [] then Inl (Some ''Hostname did not resolve'')
          else if js_lower host \<notin> set (allowed_private_hosts env) \<and> list_ex (\<lambda>a. \<not> monitored_address env a) records
          then Inl (Some ''Target resolves to a non-public address and is not explicitly allowlisted'')
          else Inr records)"

subsection \<open>Monitors\<close>

record monitor_dto =
  cm_name :: string
  cm_checkType :: check_type
  cm_target :: string
  cm_expectedStatus :: "int option"
  cm_intervalSeconds :: "int option"

definition check_type_name :: "check_type \<Rightarrow> string" where
  "check_type_name t = (case t of CT_HTTP \<Rightarrow> ''HTTP'' | CT_DNS \<Rightarrow> ''DNS'' | CT_CAPTIVE_PORTAL \<Rightarrow> ''CAPTIVE_PORTAL'')"

definition monitor_at :: "uuid \<Rightarrow> uuid \<Rightarrow> monitoring \<Rightarrow> monitor option" where
  "monitor_at tenant i s = select_one (\<lambda>m. mn_tenant m = tenant \<and> mn_id m = i) (yt_monitors s)"

definition monitor_audit :: "monitor_env \<Rightarrow> time \<Rightarrow> uuid \<Rightarrow> string \<Rightarrow> uuid \<Rightarrow> json \<Rightarrow> audit_context \<Rightarrow> monitoring \<Rightarrow> monitoring" where
  "monitor_audit env now tenant action i metadata ctx s =
     s\<lparr> yt_base := incident_audit (ye_incidents env) now tenant action ''synthetic_monitor'' (Some i) metadata ctx (yt_base s) \<rparr>"

definition next_uuid :: "monitoring \<Rightarrow> uuid" where
  "next_uuid s = new_uuid (ist_db (yt_base s))"

definition list_monitors :: "uuid \<Rightarrow> monitoring \<Rightarrow> monitor list" where
  "list_monitors tenant s = order_limit (\<lambda>m. - mn_createdAt m) 200 (select (\<lambda>m. mn_tenant m = tenant) (yt_monitors s))"

definition create_monitor :: "monitor_env \<Rightarrow> time \<Rightarrow> uuid \<Rightarrow> uuid \<Rightarrow> monitor_dto \<Rightarrow> audit_context \<Rightarrow> (monitoring, monitor) operation" where
  "create_monitor env now tenant actor dto ctx s =
     (case validate_target env (cm_checkType dto) (cm_target dto) of
        Inl e \<Rightarrow> (Inl e, s)
      | Inr target \<Rightarrow>
          (let interval = with_default (cm_intervalSeconds dto) 300;
               m = (ye_defaults env now)\<lparr> mn_tenant := tenant, mn_id := next_uuid s, mn_name := js_trim (cm_name dto), mn_checkType := cm_checkType dto,
                     mn_target := target, mn_expectedStatus := with_default (cm_expectedStatus dto) 200, mn_intervalSeconds := interval,
                     mn_createdBy := actor \<rparr> in
           case constrained (ye_violation env) () (s\<lparr> yt_base := bump (yt_base s), yt_monitors := insert_row m (yt_monitors s) \<rparr>) s of
             (Inl e, s1) \<Rightarrow> (Inl e, s1)
           | (Inr _, s1) \<Rightarrow> (Inr m, monitor_audit env now tenant ''SYNTHETIC_MONITOR_CREATED'' (mn_id m)
               (jobject [(''checkType'', Some (JStr (check_type_name (cm_checkType dto)))), (''intervalSeconds'', Some (JNum (of_int interval)))]) ctx s1)))"

definition set_monitor_enabled :: "monitor_env \<Rightarrow> time \<Rightarrow> uuid \<Rightarrow> uuid \<Rightarrow> bool \<Rightarrow> audit_context \<Rightarrow> (monitoring, uuid \<times> bool) operation" where
  "set_monitor_enabled env now tenant i enabled ctx s =
     (let P = (\<lambda>m. mn_tenant m = tenant \<and> mn_id m = i) in
      if \<not> exists_row P (yt_monitors s) then (Inl (NotFound ''Synthetic monitor not found''), s)
      else (Inr (i, enabled),
        monitor_audit env now tenant (if enabled then ''SYNTHETIC_MONITOR_ENABLED'' else ''SYNTHETIC_MONITOR_DISABLED'') i (jobject []) ctx
          (s\<lparr> yt_monitors := update_where P (\<lambda>m. m\<lparr> mn_enabled := enabled, mn_nextCheckAt := (if enabled then now else mn_nextCheckAt m),
             mn_updatedAt := now \<rparr>) (yt_monitors s) \<rparr>)))"

definition results_of :: "uuid \<Rightarrow> uuid \<Rightarrow> nat \<Rightarrow> monitoring \<Rightarrow> check_row list" where
  "results_of tenant i n s = order_limit (\<lambda>k. - kw_checkedAt k) n (select (\<lambda>k. kw_tenant k = tenant \<and> kw_monitorId k = i) (yt_results s))"

definition monitor_history :: "uuid \<Rightarrow> uuid \<Rightarrow> monitoring \<Rightarrow> check_row list result" where
  "monitor_history tenant i s =
     (if monitor_at tenant i s = None then Inl (NotFound ''Synthetic monitor not found'') else Inr (results_of tenant i 500 s))"

subsection \<open>The incident of a monitor\<close>

definition synthetic_key :: "uuid \<Rightarrow> string" where
  "synthetic_key i = ''synthetic-monitor:'' @ i"

definition failure_of :: "check_result \<Rightarrow> string" where
  "failure_of r = with_default (kr_error r) ''Check failed''"

definition synthetic_evidence :: "monitor \<Rightarrow> check_result \<Rightarrow> json" where
  "synthetic_evidence m r = jobject [(''monitorId'', Some (JStr (mn_id m))), (''checkType'', Some (JStr (check_type_name (mn_checkType m)))),
     (''consecutiveFailures'', Some (JNum 2)), (''lastLatencyMs'', Some (or_null (\<lambda>n. JNum (of_int n)) (kr_latencyMs r))),
     (''responseCode'', Some (or_null (\<lambda>n. JNum (of_int n)) (kr_responseCode r)))]"

definition synthetic_incident :: "incident_env \<Rightarrow> time \<Rightarrow> uuid \<Rightarrow> monitor \<Rightarrow> check_result \<Rightarrow> incident" where
  "synthetic_incident env now i m r = (ie_defaults env now)\<lparr> ic_tenant := mn_tenant m, ic_id := i, ic_fingerprint := synthetic_key (mn_id m),
     ic_category := ''SYNTHETIC_CHECK_FAILED'', ic_severity := SV_WARNING, ic_status := IN_OPEN, ic_title := mn_name m @ '' synthetic check failing'',
     ic_summary := Some (mn_name m @ '' failed two consecutive synthetic checks: '' @ failure_of r), ic_rootType := Some ''SYNTHETIC_MONITOR'',
     ic_rootId := Some (mn_id m), ic_evidence := synthetic_evidence m r \<rparr>"

definition fails_again :: "time \<Rightarrow> monitor \<Rightarrow> check_result \<Rightarrow> incident \<Rightarrow> incident" where
  "fails_again now m r i = i\<lparr> ic_lastSeenAt := now, ic_severity := SV_WARNING,
     ic_summary := Some (mn_name m @ '' failed its synthetic check: '' @ failure_of r),
     ic_evidence := json_concat (ic_evidence i) (synthetic_evidence m r), ic_updatedAt := now \<rparr>"

definition synthetic_event :: "bool \<Rightarrow> monitor \<Rightarrow> check_result \<Rightarrow> uuid \<Rightarrow> event_input" where
  "synthetic_event opened m r i = \<lparr> ei_tenantId = mn_tenant m, ei_eventKey = ''synthetic.incident.'' @ (if opened then ''opened'' else ''resolved'') @ '':'' @ i,
     ei_eventType = (if opened then ''INCIDENT.OPENED'' else ''INCIDENT.RESOLVED''), ei_aggregateType = Some ''incident'', ei_aggregateId = Some i,
     ei_payload = jobject
       [(''title'', Some (JStr (mn_name m @ (if opened then '' synthetic check failing'' else '' synthetic check recovered'')))),
        (''summary'', Some (JStr (if opened then with_default (kr_error r) ''Two consecutive synthetic checks failed.'' else ''The synthetic check passed again.''))),
        (''severity'', Some (JStr (if opened then ''WARNING'' else ''INFO''))), (''incidentId'', Some (JStr i)), (''monitorId'', Some (JStr (mn_id m))),
        (''targetRoles'', Some staff_roles)] \<rparr>"

text \<open>\<open>recent\<close> are the states of the two latest results of the monitor, read in the same transaction; the event follows the commit.\<close>

definition sync_synthetic_incident ::
  "incident_env \<Rightarrow> time \<Rightarrow> check_status list \<Rightarrow> monitor \<Rightarrow> check_result \<Rightarrow> (incident_state, unit) operation" where
  "sync_synthetic_incident env now recent m r s =
     (let active = select_one (\<lambda>i. ic_tenant i = mn_tenant m \<and> ic_fingerprint i = synthetic_key (mn_id m) \<and> active_incident i) (ist_incidents s) in
      if kr_status r = CK_FAIL \<and> length recent = 2 \<and> list_all (\<lambda>v. v = CK_FAIL) recent then
        (case (case active of
                 Some x \<Rightarrow> constrained (ie_violation env) (ic_id x)
                   (s\<lparr> ist_incidents := update_where (\<lambda>i. ic_tenant i = mn_tenant m \<and> ic_id i = ic_id x) (fails_again now m r) (ist_incidents s) \<rparr>) s
               | None \<Rightarrow> constrained (ie_violation env) (new_uuid (ist_db s))
                   ((bump s)\<lparr> ist_incidents := insert_row (synthetic_incident env now (new_uuid (ist_db s)) m r) (ist_incidents s) \<rparr>) s) of
           (Inl e, s1) \<Rightarrow> (Inl e, s1)
         | (Inr i, s1) \<Rightarrow> (Inr (), announce now (synthetic_event True m r i) s1))
      else if kr_status r = CK_PASS then
        (case active of
           None \<Rightarrow> (Inr (), s)
         | Some x \<Rightarrow> (Inr (), announce now (synthetic_event False m r (ic_id x))
             (resolve_where now ''Synthetic monitoring recovered'' (\<lambda>i. ic_tenant i = mn_tenant m \<and> ic_id i = ic_id x) s)))
      else (Inr (), s))"

subsection \<open>Checks\<close>

text \<open>What a check of the target finds: the status of the answer, and the message of an error\<close>

definition error_text :: "string option \<Rightarrow> string" where
  "error_text e = with_default e ''Synthetic check failed''"

definition probe_target :: "monitor_env \<Rightarrow> monitor \<Rightarrow> int option \<times> string option" where
  "probe_target env m =
     (if mn_checkType m = CT_DNS then
        (case resolve_allowed env (mn_target m) of Inl e \<Rightarrow> (None, Some (error_text e)) | Inr _ \<Rightarrow> (None, None))
      else (case ye_url env (mn_target m) of
              None \<Rightarrow> (None, Some ''Invalid URL'')
            | Some u \<Rightarrow>
                (case resolve_allowed env (mu_hostname u) of
                   Inl e \<Rightarrow> (None, Some (error_text e))
                 | Inr _ \<Rightarrow>
                     (case ye_fetch env (mu_href u) (mn_timeoutMs m) of
                        Inl e \<Rightarrow> (None, Some (error_text e))
                      | Inr code \<Rightarrow> (Some code, if code = mn_expectedStatus m then None
                          else Some (''Expected HTTP '' @ int_str (mn_expectedStatus m) @ '' but received '' @ int_str code))))))"

definition check_target :: "monitor_env \<Rightarrow> monitor \<Rightarrow> check_result" where
  "check_target env m =
     (let (code, error) = probe_target env m
      in \<lparr> kr_status = (if error = None then CK_PASS else CK_FAIL), kr_latencyMs = Some (ye_elapsed env m), kr_responseCode = code,
           kr_error = map_option (take 500) error \<rparr>)"

record check_view =
  kv_monitorId :: uuid
  kv_monitorName :: string
  kv_result :: check_result
  kv_checkedAt :: time

definition save_result :: "monitor_env \<Rightarrow> time \<Rightarrow> monitor \<Rightarrow> check_result \<Rightarrow> (monitoring, unit) operation" where
  "save_result env now m r s =
     constrained (ye_violation env) ()
       (s\<lparr> yt_base := bump (yt_base s),
           yt_results := insert_row \<lparr> kw_tenant = mn_tenant m, kw_id = next_uuid s, kw_monitorId = mn_id m, kw_result = r, kw_checkedAt = now \<rparr> (yt_results s),
           yt_monitors := update_where (\<lambda>x. mn_tenant x = mn_tenant m \<and> mn_id x = mn_id m)
             (\<lambda>x. x\<lparr> mn_last := Some r, mn_lastCheckedAt := Some now, mn_updatedAt := now \<rparr>) (yt_monitors s) \<rparr>) s"

text \<open>A failure to correlate the result with the incidents is logged only.\<close>

definition check_and_record :: "monitor_env \<Rightarrow> time \<Rightarrow> monitor \<Rightarrow> (monitoring, check_view) operation" where
  "check_and_record env now m s =
     (let r = check_target env m; t = now + ye_elapsed env m in
      case save_result env t m r s of
        (Inl e, s1) \<Rightarrow> (Inl e, s1)
      | (Inr _, s1) \<Rightarrow>
          (let recent = map (\<lambda>k. kr_status (kw_result k)) (results_of (mn_tenant m) (mn_id m) 2 s1)
           in (Inr \<lparr> kv_monitorId = mn_id m, kv_monitorName = mn_name m, kv_result = r, kv_checkedAt = t \<rparr>,
               s1\<lparr> yt_base := snd (sync_synthetic_incident (ye_incidents env) t recent m r (yt_base s1)) \<rparr>)))"

definition check_now :: "monitor_env \<Rightarrow> time \<Rightarrow> uuid \<Rightarrow> uuid \<Rightarrow> (monitoring, check_view) operation" where
  "check_now env now tenant i s =
     (case monitor_at tenant i s of
        None \<Rightarrow> (Inl (NotFound ''Synthetic monitor not found''), s)
      | Some m \<Rightarrow> check_and_record env now m s)"

text \<open>
  A round of the worker: at most twenty enabled monitors whose time has come get their next time and are checked. The checks run at once in the code and
  one after the other here; one that cannot be saved fails the round, the others are still made.
\<close>

definition due_monitors :: "time \<Rightarrow> monitoring \<Rightarrow> monitor list" where
  "due_monitors now s = order_limit mn_nextCheckAt 20 (select (\<lambda>m. mn_enabled m \<and> mn_nextCheckAt m \<le> now) (yt_monitors s))"

definition schedule_next :: "time \<Rightarrow> monitor \<Rightarrow> monitor" where
  "schedule_next now m = m\<lparr> mn_nextCheckAt := now + mn_intervalSeconds m * 1000, mn_updatedAt := now \<rparr>"

fun check_each :: "monitor_env \<Rightarrow> time \<Rightarrow> monitor list \<Rightarrow> (monitoring, check_view list) operation" where
  "check_each env now [] s = (Inr [], s)"
| "check_each env now (m # ms) s =
     (let (v, s1) = check_and_record env now m s; (vs, s2) = check_each env now ms s1
      in (case v of Inl e \<Rightarrow> Inl e | Inr x \<Rightarrow> map_sum id (\<lambda>xs. x # xs) vs, s2))"

definition run_due_checks :: "monitor_env \<Rightarrow> time \<Rightarrow> (monitoring, check_view list) operation" where
  "run_due_checks env now s =
     (let ids = map mn_id (due_monitors now s);
          s1 = s\<lparr> yt_monitors := update_where (\<lambda>m. mn_id m \<in> set ids) (schedule_next now) (yt_monitors s) \<rparr>
      in check_each env now (select (\<lambda>m. mn_id m \<in> set ids) (yt_monitors s1)) s1)"

subsection \<open>What the checks leave\<close>

text \<open>A target that names a configured private host with one of the refused endings is refused, although the message of the refusal admits it.\<close>

lemma allowlisted_names_are_refused:
  assumes "ye_privateHosts env = ''gw.lan''"
  shows "''gw.lan'' \<in> set (allowed_private_hosts env) \<and> (\<exists>e. validate_target env CT_DNS ''gw.lan'' = Inl e)"
proof -
  have "js_lower (js_trim ''gw.lan'') = ''gw.lan''" "split_on (CHR '','') ''gw.lan'' = [''gw.lan'']" "private_ending (js_trim ''gw.lan'')" by code_simp+
  then show ?thesis by (simp add: allowed_private_hosts_def assms validate_target_def Let_def)
qed

text \<open>The second octet 2 is refused under the first octet 192, so a public network of 65536 addresses cannot be monitored.\<close>

lemma a_public_network_is_refused: "\<not> monitored_v4 ''192.2.1.1'' \<and> monitored_v4 ''192.3.1.1''"
  by code_simp

text \<open>The message of a failure that is stored is that of the error, cut after 500 characters.\<close>

lemma check_target_result:
  "(kr_status (check_target env m) = CK_PASS \<longleftrightarrow> snd (probe_target env m) = None) \<and> kr_status (check_target env m) \<noteq> CK_UNKNOWN \<and>
   kr_error (check_target env m) = map_option (take 500) (snd (probe_target env m))"
  by (simp add: check_target_def split: prod.split)

text \<open>One failure opens nothing: the incident needs two results, both failures.\<close>

lemma one_failure_opens_nothing:
  assumes "kr_status r = CK_FAIL" and "recent \<noteq> [CK_FAIL, CK_FAIL]"
  shows "sync_synthetic_incident env now recent m r s = (Inr (), s)"
proof -
  have "\<not> (length recent = 2 \<and> list_all (\<lambda>v. v = CK_FAIL) recent)"
    using assms(2) by (cases recent rule: list.exhaust; cases "tl recent") auto
  then show ?thesis using assms(1) by (auto simp: sync_synthetic_incident_def Let_def)
qed

text \<open>A check touches no incident of another monitor or of a router.\<close>

lemma sync_synthetic_others:
  assumes "x \<in> set (ist_incidents s)" and "distinct (map ic_id (ist_incidents s))" and "ic_fingerprint x \<noteq> synthetic_key (mn_id m)"
  shows "x \<in> set (ist_incidents (snd (sync_synthetic_incident env now recent m r s)))"
proof -
  have other: "ic_id y \<noteq> ic_id x"
    if "select_one (\<lambda>i. ic_tenant i = mn_tenant m \<and> ic_fingerprint i = synthetic_key (mn_id m) \<and> active_incident i) (ist_incidents s) = Some y" for y
    using that assms distinct_key_unique [of ic_id "ist_incidents s" x y] by (auto dest!: select_one_Some)
  have "x \<in> set (update_where (\<lambda>i. ic_tenant i = mn_tenant m \<and> ic_id i = ic_id y) f (ist_incidents s))" if "ic_id y \<noteq> ic_id x" for y f
    using assms(1) that unfolding in_update_where by (intro bexI [of _ x]) auto
  then show ?thesis using assms(1) other
    by (auto simp: sync_synthetic_incident_def Let_def constrained_def resolve_where_def announce_def insert_row_def bump_def split: option.split)
qed

end
