(* ===== verification/IncidentHistory.thy ===== *)
theory IncidentHistory
  imports SyntheticMonitoring
begin

text \<open>
  The history of incidents: every operation of the service, of its workers and of the synthetic monitoring, which opens and resolves incidents of its
  own, is a step, and the steps keep the tables in order and let an incident only move forward.
\<close>

subsection \<open>Incidents that are in order\<close>

definition incident_key :: "incident \<Rightarrow> uuid \<times> uuid" where
  "incident_key i = (ic_tenant i, ic_id i)"

definition impact_key :: "impact \<Rightarrow> uuid \<times> uuid" where
  "impact_key m = (im_tenant m, im_incidentId m)"

definition sound_incident :: "incident \<Rightarrow> bool" where
  "sound_incident i \<longleftrightarrow> (ic_status i = IN_RESOLVED) = (ic_resolvedAt i \<noteq> None) \<and> (ic_status i = IN_ACKNOWLEDGED \<longrightarrow> ic_acknowledgedAt i \<noteq> None) \<and>
     0 \<le> ic_escalationLevel i \<and> ic_escalationLevel i \<le> 3 \<and> (ic_publicVisible i \<longrightarrow> ic_publicSummary i \<noteq> None \<and> ic_publicSummary i \<noteq> Some [])"

definition active_fingerprints :: "incident list \<Rightarrow> (uuid \<times> string) list" where
  "active_fingerprints is = map (\<lambda>i. (ic_tenant i, ic_fingerprint i)) (filter active_incident is)"

text \<open>The incidents that have affected resources: those of routers, while they are active\<close>

definition has_impacts :: "incident \<Rightarrow> bool" where
  "has_impacts i \<longleftrightarrow> active_incident i \<and> take 15 (ic_fingerprint i) = ''router-offline:''"

lemma offline_fingerprint [simp]: "take 15 (offline_key router) = ''router-offline:''" "offline_key router \<noteq> synthetic_key i"
  by (simp_all add: offline_key_def synthetic_key_def)

definition incidents_ok :: "incident_state \<Rightarrow> bool" where
  "incidents_ok s \<longleftrightarrow> list_all sound_incident (ist_incidents s) \<and> distinct (map ic_id (ist_incidents s)) \<and>
     fresh_ids (ist_db s) (map ic_id (ist_incidents s)) \<and> distinct (active_fingerprints (ist_incidents s)) \<and>
     list_all (\<lambda>m. affected m \<longrightarrow> list_ex (\<lambda>i. incident_key i = impact_key m \<and> has_impacts i) (ist_incidents s)) (ist_impacts s)"

text \<open>An incident moves forward: what a resolution leaves stays.\<close>

definition moves_on :: "incident \<Rightarrow> incident \<Rightarrow> bool" where
  "moves_on i j \<longleftrightarrow> ic_tenant j = ic_tenant i \<and> ic_id j = ic_id i \<and> ic_fingerprint j = ic_fingerprint i \<and> ic_startedAt j = ic_startedAt i \<and>
     status_rank (ic_status i) \<le> status_rank (ic_status j) \<and> ic_escalationLevel i \<le> ic_escalationLevel j \<and>
     (ic_status i = IN_RESOLVED \<longrightarrow> ic_resolvedAt j = ic_resolvedAt i \<and> ic_resolution j = ic_resolution i \<and> ic_escalationLevel j = ic_escalationLevel i)"

lemma moves_on_refl [simp]: "moves_on i i"
  by (simp add: moves_on_def)

lemma moves_on_resolved: "moves_on i j \<Longrightarrow> ic_status i = IN_RESOLVED \<Longrightarrow> ic_status j = IN_RESOLVED"
  by (cases "ic_status j") (simp_all add: moves_on_def status_rank_def)

lemma moves_on_trans:
  assumes "moves_on i j" and "moves_on j k"
  shows "moves_on i k"
  using assms moves_on_resolved [OF assms(1)] by (auto simp: moves_on_def)

lemma moves_on_active: "moves_on i j \<Longrightarrow> active_incident j \<Longrightarrow> active_incident i"
  by (cases "ic_status i"; cases "ic_status j") (simp_all add: moves_on_def active_incident_def status_rank_def)

definition all_move_on :: "incident_state \<Rightarrow> incident_state \<Rightarrow> bool" where
  "all_move_on s t \<longleftrightarrow> list_all (\<lambda>i. list_ex (moves_on i) (ist_incidents t)) (ist_incidents s)"

lemma all_move_on_refl [simp]: "all_move_on s s"
  unfolding all_move_on_def list_all_iff list_ex_iff using moves_on_refl by blast

lemma all_move_on_trans: "all_move_on s t \<Longrightarrow> all_move_on t u \<Longrightarrow> all_move_on s u"
  unfolding all_move_on_def list_all_iff list_ex_iff using moves_on_trans by blast

text \<open>A change of the incidents one by one\<close>

lemma active_fingerprints_changed:
  assumes "distinct (active_fingerprints is)" and "\<And>i. i \<in> set is \<Longrightarrow> moves_on i (g i)"
  shows "distinct (active_fingerprints (map g is))"
  using assms
proof (induction "is")
  case Nil
  then show ?case by (simp add: active_fingerprints_def)
next
  case (Cons i "is")
  have sub: "set (active_fingerprints (map g js)) \<subseteq> set (active_fingerprints js)" if "set js \<subseteq> set (i # is)" for js
  proof
    fix x assume "x \<in> set (active_fingerprints (map g js))"
    then obtain j where j: "j \<in> set js" "active_incident (g j)" "x = (ic_tenant (g j), ic_fingerprint (g j))" by (auto simp: active_fingerprints_def)
    then have m: "moves_on j (g j)" using Cons.prems(2) that by blast
    then have "active_incident j" "x = (ic_tenant j, ic_fingerprint j)" using moves_on_active [OF m] j by (simp_all add: moves_on_def)
    then show "x \<in> set (active_fingerprints js)" using j(1) by (auto simp: active_fingerprints_def)
  qed
  have d: "distinct (active_fingerprints is)" "active_incident i \<Longrightarrow> (ic_tenant i, ic_fingerprint i) \<notin> set (active_fingerprints is)"
    using Cons.prems(1) by (auto simp: active_fingerprints_def split: if_splits)
  have ih: "distinct (active_fingerprints (map g is))" by (rule Cons.IH [OF d(1)]) (use Cons.prems(2) in simp)
  show ?case
  proof (cases "active_incident (g i)")
    case True
    have m: "moves_on i (g i)" using Cons.prems(2) by simp
    have "(ic_tenant i, ic_fingerprint i) \<notin> set (active_fingerprints (map g is))"
      using sub [of "is"] d(2) [OF moves_on_active [OF m True]] by auto
    then show ?thesis using True m ih by (simp add: active_fingerprints_def moves_on_def)
  next
    case False
    then show ?thesis using ih by (simp add: active_fingerprints_def)
  qed
qed

lemma changed_incidents:
  assumes ok: "incidents_ok s" and t: "ist_incidents t = map g (ist_incidents s)" and later: "next_id (ist_db s) \<le> next_id (ist_db t)"
    and g: "\<And>i. i \<in> set (ist_incidents s) \<Longrightarrow> sound_incident i \<Longrightarrow> moves_on i (g i) \<and> sound_incident (g i)"
    and impacts: "\<And>m. m \<in> set (ist_impacts t) \<Longrightarrow> affected m \<Longrightarrow>
      \<exists>i\<in>set (ist_incidents s). incident_key i = impact_key m \<and> has_impacts (g i)"
  shows "incidents_ok t \<and> all_move_on s t"
proof -
  have sound: "sound_incident i" if "i \<in> set (ist_incidents s)" for i using ok that by (simp add: incidents_ok_def list_all_iff)
  have mv: "moves_on i (g i)" "sound_incident (g i)" if "i \<in> set (ist_incidents s)" for i using g [OF that sound [OF that]] by simp_all
  have ids: "map ic_id (ist_incidents t) = map ic_id (ist_incidents s)" unfolding t using mv(1) by (simp add: moves_on_def)
  have "list_ex (\<lambda>i. incident_key i = impact_key m \<and> has_impacts i) (ist_incidents t)" if m: "m \<in> set (ist_impacts t)" "affected m" for m
  proof -
    obtain i where i: "i \<in> set (ist_incidents s)" "incident_key i = impact_key m" "has_impacts (g i)" using impacts [OF m] by blast
    have "incident_key (g i) = impact_key m" using mv(1) [OF i(1)] i(2) by (simp add: incident_key_def moves_on_def)
    then show ?thesis unfolding list_ex_iff t using i(1,3) by auto
  qed
  moreover have "distinct (active_fingerprints (ist_incidents t))"
    unfolding t by (rule active_fingerprints_changed) (use ok mv(1) in \<open>simp_all add: incidents_ok_def\<close>)
  moreover have "list_all sound_incident (ist_incidents t)" using mv(2) by (simp add: t list_all_iff)
  moreover have "fresh_ids (ist_db t) (map ic_id (ist_incidents s))" using fresh_ids_mono [OF _ later] ok by (simp add: incidents_ok_def)
  ultimately have "incidents_ok t" using ok by (simp add: incidents_ok_def ids list_all_iff)
  moreover have "all_move_on s t" unfolding all_move_on_def list_all_iff list_ex_iff t using mv(1) by auto
  ultimately show ?thesis by simp
qed

lemma affected_active:
  assumes "incidents_ok s" and "m \<in> set (ist_impacts s)" and "affected m"
  obtains i where "i \<in> set (ist_incidents s)" "incident_key i = impact_key m" "has_impacts i"
  using assms by (auto simp: incidents_ok_def list_all_iff list_ex_iff)

text \<open>A change that touches neither the incidents nor their impacts\<close>

lemma same_incidents:
  assumes "incidents_ok s" and "ist_incidents t = ist_incidents s" and "ist_impacts t = ist_impacts s" and "next_id (ist_db s) \<le> next_id (ist_db t)"
  shows "incidents_ok t \<and> all_move_on s t"
  by (rule changed_incidents [where g = id and s = s]) (use assms in \<open>auto elim: affected_active\<close>)

lemma same_after:
  assumes "incidents_ok u \<and> all_move_on s u" and "ist_incidents t = ist_incidents u" and "ist_impacts t = ist_impacts u"
    and "next_id (ist_db u) \<le> next_id (ist_db t)"
  shows "incidents_ok t \<and> all_move_on s t"
  using same_incidents [of u t] assms all_move_on_trans by blast

subsection \<open>The operations\<close>

lemma incident_audit_tables [simp]:
  "ist_incidents (incident_audit env now t a rs i m c s) = ist_incidents s" "ist_impacts (incident_audit env now t a rs i m c s) = ist_impacts s"
  "next_id (ist_db (incident_audit env now t a rs i m c s)) = next_id (ist_db s) + 1" "ist_windows (incident_audit env now t a rs i m c s) = ist_windows s"
  by (simp_all add: incident_audit_def)

lemma enqueue_next [simp]: "next_id (snd (enqueue now e s)) = next_id s + 1"
  by (simp add: enqueue_def Let_def put_event_def)

lemma announce_tables [simp]:
  "ist_incidents (announce now e s) = ist_incidents s" "ist_impacts (announce now e s) = ist_impacts s"
  "next_id (ist_db (announce now e s)) = next_id (ist_db s) + 1" "ist_windows (announce now e s) = ist_windows s"
  by (simp_all add: announce_def)

lemma bump_tables [simp]:
  "ist_incidents (bump s) = ist_incidents s" "ist_impacts (bump s) = ist_impacts s" "next_id (ist_db (bump s)) = next_id (ist_db s) + 1"
  by (simp_all add: bump_def)

lemma system_audit_tables [simp]:
  "ist_incidents (system_audit now t a rs i m s) = ist_incidents s" "ist_impacts (system_audit now t a rs i m s) = ist_impacts s"
  "next_id (ist_db (system_audit now t a rs i m s)) = next_id (ist_db s) + 1"
  by (simp_all add: system_audit_def)

text \<open>A column update of some incidents that keeps the active ones active\<close>

lemma touched_incidents:
  assumes ok: "incidents_ok s" and t: "ist_incidents t = update_where P f (ist_incidents s)" "ist_impacts t = ist_impacts s"
    "next_id (ist_db s) \<le> next_id (ist_db t)"
    and f: "\<And>i. i \<in> set (ist_incidents s) \<Longrightarrow> P i \<Longrightarrow> sound_incident i \<Longrightarrow>
      moves_on i (f i) \<and> sound_incident (f i) \<and> (active_incident i \<longrightarrow> active_incident (f i))"
  shows "incidents_ok t \<and> all_move_on s t"
proof (rule changed_incidents [OF ok t(1) [unfolded update_where_def] t(3)])
  fix i assume "i \<in> set (ist_incidents s)" "sound_incident i"
  then show "moves_on i (if P i then f i else i) \<and> sound_incident (if P i then f i else i)" using f [of i] by simp
next
  fix m assume "m \<in> set (ist_impacts t)" "affected m"
  then obtain i where i: "i \<in> set (ist_incidents s)" "incident_key i = impact_key m" "has_impacts i" using affected_active [OF ok] t(2) by metis
  then have "sound_incident i" using ok by (simp add: incidents_ok_def list_all_iff)
  then have "has_impacts (if P i then f i else i)" using i f [of i] by (auto simp: has_impacts_def moves_on_def)
  then show "\<exists>i\<in>set (ist_incidents s). incident_key i = impact_key m \<and> has_impacts (if P i then f i else i)" using i by blast
qed

lemma acknowledge_ok:
  assumes "incidents_ok s" and "acknowledge env now tenant i ctx s = (r, t)"
  shows "incidents_ok t \<and> all_move_on s t"
proof (cases "t = s")
  case True
  then show ?thesis using assms(1) by simp
next
  case False
  let ?P = "\<lambda>x. ic_tenant x = tenant \<and> ic_id x = i \<and> ic_status x = IN_OPEN"
  let ?f = "\<lambda>x. x\<lparr> ic_status := IN_ACKNOWLEDGED, ic_acknowledgedAt := or_else (ic_acknowledgedAt x) (Some now), ic_updatedAt := now \<rparr>"
  have "ist_incidents t = update_where ?P ?f (ist_incidents s)" "ist_impacts t = ist_impacts s" "next_id (ist_db s) \<le> next_id (ist_db t)"
    using assms(2) False by (auto simp: acknowledge_def Let_def split: if_splits)
  then show ?thesis
    by (rule touched_incidents [OF assms(1)])
      (auto simp: moves_on_def sound_incident_def active_incident_def status_rank_def or_else_def split: option.splits)
qed

lemma assign_owner_ok:
  assumes "incidents_ok s" and "assign_owner env now tenant i owner ctx s = (r, t)"
  shows "incidents_ok t \<and> all_move_on s t"
proof (cases "t = s")
  case True
  then show ?thesis using assms(1) by simp
next
  case False
  let ?P = "\<lambda>x. ic_tenant x = tenant \<and> ic_id x = i" and ?f = "\<lambda>x. x\<lparr> ic_ownerUserId := owner, ic_updatedAt := now \<rparr>"
  have "ist_incidents t = update_where ?P ?f (ist_incidents s)" "ist_impacts t = ist_impacts s" "next_id (ist_db s) \<le> next_id (ist_db t)"
    using assms(2) False by (auto simp: assign_owner_def Let_def split: if_splits)
  then show ?thesis by (rule touched_incidents [OF assms(1)]) (auto simp: moves_on_def sound_incident_def active_incident_def)
qed

lemma set_public_visibility_ok:
  assumes "incidents_ok s" and "set_public_visibility env now tenant i visible summary ctx s = (r, t)"
  shows "incidents_ok t \<and> all_move_on s t"
proof (cases "t = s")
  case True
  then show ?thesis using assms(1) by simp
next
  case False
  let ?P = "\<lambda>x. ic_tenant x = tenant \<and> ic_id x = i"
  let ?f = "\<lambda>x. x\<lparr> ic_publicVisible := visible, ic_publicSummary := trim_or_null summary, ic_updatedAt := now \<rparr>"
  have "ist_incidents t = update_where ?P ?f (ist_incidents s)" "ist_impacts t = ist_impacts s" "next_id (ist_db s) \<le> next_id (ist_db t)"
    and v: "visible \<longrightarrow> trim_or_null summary \<noteq> None"
    using assms(2) False by (auto simp: set_public_visibility_def Let_def split: if_splits)
  then show ?thesis
    by (intro touched_incidents [OF assms(1), of t ?P ?f])
      (use v in \<open>auto simp: moves_on_def sound_incident_def active_incident_def trim_or_null_def split: option.splits if_splits\<close>)
qed

lemma resolved_ok:
  assumes ok: "incidents_ok s" and t: "ist_incidents t = update_where P (resolved_by now resolution) (ist_incidents s)"
    "ist_impacts t = update_where (\<lambda>m. im_tenant m = tenant \<and> im_incidentId m = x \<and> affected m)
      (\<lambda>m. m\<lparr> im_state := IM_RECOVERED, im_recoveredAt := Some now \<rparr>) (ist_impacts s)" "next_id (ist_db s) \<le> next_id (ist_db t)"
    and P: "\<And>i. i \<in> set (ist_incidents s) \<Longrightarrow> P i \<Longrightarrow> active_incident i \<and> incident_key i = (tenant, x)"
  shows "incidents_ok t \<and> all_move_on s t"
proof (rule changed_incidents [OF ok t(1) [unfolded update_where_def] t(3)])
  fix i assume i: "i \<in> set (ist_incidents s)" "sound_incident i"
  then show "moves_on i (if P i then resolved_by now resolution i else i) \<and> sound_incident (if P i then resolved_by now resolution i else i)"
    using P [OF i(1)] by (cases "ic_status i") (auto simp: moves_on_def sound_incident_def resolved_by_def active_incident_def status_rank_def)
next
  fix m assume m: "m \<in> set (ist_impacts t)" "affected m"
  then obtain n where n: "n \<in> set (ist_impacts s)" "m = (if im_tenant n = tenant \<and> im_incidentId n = x \<and> affected n
      then n\<lparr> im_state := IM_RECOVERED, im_recoveredAt := Some now \<rparr> else n)" unfolding t(2) in_update_where by blast
  have eq: "m = n" "\<not> (im_tenant n = tenant \<and> im_incidentId n = x)" using n(2) m(2) by (auto simp: affected_def split: if_splits)
  obtain i where i: "i \<in> set (ist_incidents s)" "incident_key i = impact_key n" "has_impacts i" using affected_active [OF ok n(1)] m(2) eq(1) by metis
  have "\<not> P i" using P [OF i(1)] i(2) eq(2) by (auto simp: impact_key_def)
  then show "\<exists>i\<in>set (ist_incidents s). incident_key i = impact_key m \<and> has_impacts (if P i then resolved_by now resolution i else i)"
    using i eq(1) by auto
qed

lemma recover_tables [simp]:
  "ist_incidents (recover_impacts now tenant i s) = ist_incidents s" "ist_db (recover_impacts now tenant i s) = ist_db s"
  by (simp_all add: recover_impacts_def)

lemma resolve_incident_ok:
  assumes "incidents_ok s" and "resolve_incident env now tenant i resolution ctx s = (r, t)"
  shows "incidents_ok t \<and> all_move_on s t"
proof (cases "t = s")
  case True
  then show ?thesis using assms(1) by simp
next
  case False
  let ?P = "\<lambda>x. ic_tenant x = tenant \<and> ic_id x = i \<and> active_incident x"
  have "ist_incidents t = update_where ?P (resolved_by now (js_trim resolution)) (ist_incidents s)"
    "ist_impacts t = update_where (\<lambda>m. im_tenant m = tenant \<and> im_incidentId m = i \<and> affected m)
      (\<lambda>m. m\<lparr> im_state := IM_RECOVERED, im_recoveredAt := Some now \<rparr>) (ist_impacts s)" "next_id (ist_db s) \<le> next_id (ist_db t)"
    using assms(2) False by (auto simp: resolve_incident_def Let_def resolve_where_def recover_impacts_def split: if_splits)
  then show ?thesis by (rule resolved_ok [OF assms(1)]) (simp add: incident_key_def)
qed

lemma same_fingerprint:
  assumes "incidents_ok s" and "i \<in> set (ist_incidents s)" and "j \<in> set (ist_incidents s)" and "active_incident i" and "active_incident j"
    and "ic_tenant i = ic_tenant j" and "ic_fingerprint i = ic_fingerprint j"
  shows "i = j"
proof -
  have "distinct (map (\<lambda>i. (ic_tenant i, ic_fingerprint i)) (filter active_incident (ist_incidents s)))"
    using assms(1) by (simp add: incidents_ok_def active_fingerprints_def)
  then show ?thesis by (rule distinct_key_unique) (use assms in simp_all)
qed

lemma resolve_router_offline_ok:
  assumes "incidents_ok s" and "resolve_router_offline env now tenant router ctx s = (r, t)"
  shows "incidents_ok t \<and> all_move_on s t"
proof -
  let ?P = "\<lambda>i. ic_tenant i = tenant \<and> ic_fingerprint i = offline_key router \<and> active_incident i"
  show ?thesis
  proof (cases "select_one ?P (ist_incidents s)")
    case None
    then show ?thesis using assms by (simp add: resolve_router_offline_def Let_def)
  next
    case (Some x)
    then have x: "x \<in> set (ist_incidents s)" "?P x" by (auto dest: select_one_Some)
    have "ist_incidents t = update_where ?P (resolved_by now ''Router heartbeat recovered'') (ist_incidents s)"
      "ist_impacts t = update_where (\<lambda>m. im_tenant m = tenant \<and> im_incidentId m = ic_id x \<and> affected m)
        (\<lambda>m. m\<lparr> im_state := IM_RECOVERED, im_recoveredAt := Some now \<rparr>) (ist_impacts s)" "next_id (ist_db s) \<le> next_id (ist_db t)"
      using assms(2) Some by (auto simp: resolve_router_offline_def Let_def resolve_where_def recover_impacts_def)
    then show ?thesis
    proof (rule resolved_ok [OF assms(1)])
      fix i assume i: "i \<in> set (ist_incidents s)" "?P i"
      then have "i = x" using same_fingerprint [OF assms(1) i(1) x(1)] x(2) by simp
      then show "active_incident i \<and> incident_key i = (tenant, ic_id x)" using i(2) by (simp add: incident_key_def)
    qed
  qed
qed

lemma more_impacts:
  assumes "incidents_ok s" and "list_ex (\<lambda>i. incident_key i = (tenant, x) \<and> has_impacts i) (ist_incidents s)"
    and "\<And>m. m \<in> set ms \<Longrightarrow> impact_key m = (tenant, x)"
  shows "incidents_ok (s\<lparr> ist_impacts := ist_impacts s @ ms \<rparr>)"
  using assms by (auto simp: incidents_ok_def list_all_iff)

lemma offline_impact_keys: "m \<in> set (offline_impacts now tenant x r place revenue ss) \<Longrightarrow> impact_key m = (tenant, x)"
  by (auto simp: offline_impacts_def add_impact_def impact_key_def Let_def split: option.splits if_splits)

lemma new_incident_sound:
  assumes "documented_defaults env"
  shows "sound_incident (new_incident env now tenant i r place w)" "active_incident (new_incident env now tenant i r place w)"
    "incident_key (new_incident env now tenant i r place w) = (tenant, i)" "ic_id (new_incident env now tenant i r place w) = i"
    "ic_tenant (new_incident env now tenant i r place w) = tenant" "ic_fingerprint (new_incident env now tenant i r place w) = offline_key (ro_id r)"
  using assms by (simp_all add: new_incident_def sound_incident_def active_incident_def incident_key_def documented_defaults_def)

lemma open_incident_ok:
  assumes ok: "incidents_ok s" and env: "documented_defaults env" and run: "open_incident env now tenant r place w s = (Inr (i, c), t)"
  shows "incidents_ok t \<and> all_move_on s t \<and> list_ex (\<lambda>x. incident_key x = (tenant, i) \<and> has_impacts x) (ist_incidents t)"
proof -
  let ?Q = "\<lambda>i. ic_tenant i = tenant \<and> ic_fingerprint i = offline_key (ro_id r) \<and> active_incident i"
  show ?thesis
  proof (cases "select_one ?Q (ist_incidents s)")
    case (Some x)
    then have x: "x \<in> set (ist_incidents s)" "?Q x" by (auto dest: select_one_Some)
    let ?g = "\<lambda>i. if ic_tenant i = tenant \<and> ic_id i = ic_id x then seen_again now r w i else i"
    have t: "ist_incidents t = map ?g (ist_incidents s)" "ist_db t = ist_db s" "i = ic_id x"
      "ist_impacts t = delete_where (\<lambda>m. im_tenant m = tenant \<and> im_incidentId m = ic_id x \<and> affected m) (ist_impacts s)"
      using run Some by (auto simp: open_incident_def update_where_def dest!: constrained_result)
    have g: "moves_on i (?g i)" "has_impacts (?g i) = has_impacts i" "sound_incident i \<Longrightarrow> sound_incident (?g i)" for i
      by (simp_all add: seen_again_def moves_on_def has_impacts_def active_incident_def sound_incident_def)
    have "incidents_ok t \<and> all_move_on s t"
    proof (rule changed_incidents [OF ok t(1)])
      show "next_id (ist_db s) \<le> next_id (ist_db t)" by (simp add: t(2))
      show "moves_on i (?g i) \<and> sound_incident (?g i)" if "sound_incident i" for i using g that by blast
      fix m assume "m \<in> set (ist_impacts t)" "affected m"
      then have "m \<in> set (ist_impacts s)" "affected m" by (simp_all add: t(4) delete_where_def)
      then show "\<exists>i\<in>set (ist_incidents s). incident_key i = impact_key m \<and> has_impacts (?g i)" using affected_active [OF ok] g(2) by metis
    qed
    moreover have "list_ex (\<lambda>x. incident_key x = (tenant, i) \<and> has_impacts x) (ist_incidents t)"
      unfolding list_ex_iff t(1,3) by (rule bexI [of _ "?g x"]) (use x g(1,2) in \<open>auto simp: incident_key_def seen_again_def has_impacts_def active_incident_def\<close>)
    ultimately show ?thesis by simp
  next
    case None
    let ?n = "new_incident env now tenant (new_uuid (ist_db s)) r place w"
    have t: "i = new_uuid (ist_db s)" "ist_incidents t = ist_incidents s @ [?n]" "ist_impacts t = ist_impacts s" "next_id (ist_db t) = next_id (ist_db s) + 1"
      using run None by (auto simp: open_incident_def Let_def insert_row_def dest!: constrained_result)
    note n = new_incident_sound [OF env]
    have none: "(tenant, offline_key (ro_id r)) \<notin> set (active_fingerprints (ist_incidents s))"
      using None by (auto simp: select_one_None active_fingerprints_def)
    have fresh: "new_uuid (ist_db s) \<notin> set (map ic_id (ist_incidents s))" using ok by (intro fresh_ids_new) (simp add: incidents_ok_def)
    have "fresh_ids (ist_db t) (map ic_id (ist_incidents t))"
      using fresh_ids_extend [of "ist_db s" "map ic_id (ist_incidents s)" "ist_db t"] ok by (simp add: t(2,4) n incidents_ok_def)
    moreover have "distinct (active_fingerprints (ist_incidents t))"
      using none ok n(2,5,6) by (simp add: t(2) active_fingerprints_def incidents_ok_def)
    ultimately have "incidents_ok t" using ok fresh n by (auto simp: incidents_ok_def t(2,3) list_all_iff)
    moreover have "all_move_on s t"
      unfolding all_move_on_def list_all_iff list_ex_iff
    proof
      fix i assume "i \<in> set (ist_incidents s)"
      then show "\<exists>x\<in>set (ist_incidents t). moves_on i x" by (intro bexI [of _ i]) (simp_all add: t(2))
    qed
    moreover have "list_ex (\<lambda>x. incident_key x = (tenant, i) \<and> has_impacts x) (ist_incidents t)" using n by (simp add: t(1,2) has_impacts_def)
    ultimately show ?thesis by simp
  qed
qed

lemma record_offline_ok:
  assumes ok: "incidents_ok s" and env: "documented_defaults env" and run: "record_offline env now tenant r place revenue w s = (Inr x, t)"
  shows "incidents_ok t \<and> all_move_on s t"
proof -
  obtain i c s1 where o: "open_incident env now tenant r place w s = (Inr (i, c), s1)"
    and t: "t = s1\<lparr> ist_impacts := ist_impacts s1 @ offline_impacts now tenant i r place revenue (active_sessions_on tenant (ro_id r) (ist_db s1)) \<rparr>"
    using run by (auto simp: record_offline_def dest!: constrained_result split: prod.splits sum.splits)
  note u = open_incident_ok [OF ok env o]
  have "incidents_ok t" unfolding t by (rule more_impacts) (use u offline_impact_keys in blast)+
  moreover have "all_move_on s t" using u by (simp add: all_move_on_def t)
  ultimately show ?thesis by simp
qed

lemma sync_router_offline_ok:
  assumes ok: "incidents_ok s" and env: "documented_defaults env" and run: "sync_router_offline env now tenant router ctx s = (q, t)"
  shows "incidents_ok t \<and> all_move_on s t"
proof (cases "select_one (\<lambda>r. ro_tenant r = tenant \<and> ro_id r = router) (routers (ist_db s))")
  case None
  then show ?thesis using ok run by (simp add: sync_router_offline_def)
next
  case (Some r)
  let ?body = "record_offline env now tenant r (location_name tenant r s) (lost_revenue now tenant router (ist_db s))
    (window_for env now tenant router (ro_locationId r) s)"
  obtain x s1 where b: "transaction ?body s = (x, s1)" by fastforce
  show ?thesis
  proof (cases x)
    case (Inl e)
    then have "t = s" using run Some b transaction_error [OF b [unfolded Inl]] by (simp add: sync_router_offline_def Let_def)
    then show ?thesis using ok by simp
  next
    case (Inr y)
    obtain i c where y: "y = (i, c)" by (cases y)
    have "incidents_ok s1 \<and> all_move_on s s1" using record_offline_ok [OF ok env] b [unfolded Inr transaction_Inr] by blast
    then show ?thesis
      by (rule same_after) (use run Some b Inr y in \<open>auto simp: sync_router_offline_def Let_def\<close>)
  qed
qed

subsection \<open>Synthetic monitoring\<close>

text \<open>An incident that is added to the table\<close>

lemma added_incident:
  assumes ok: "incidents_ok s" and t: "ist_incidents t = ist_incidents s @ [n]" "ist_impacts t = ist_impacts s" "next_id (ist_db t) = next_id (ist_db s) + 1"
    and n: "sound_incident n" "active_incident n" "ic_id n = new_uuid (ist_db s)"
    and none: "(ic_tenant n, ic_fingerprint n) \<notin> set (active_fingerprints (ist_incidents s))"
  shows "incidents_ok t \<and> all_move_on s t"
proof -
  have fresh: "new_uuid (ist_db s) \<notin> set (map ic_id (ist_incidents s))" using ok by (intro fresh_ids_new) (simp add: incidents_ok_def)
  have "fresh_ids (ist_db t) (map ic_id (ist_incidents t))"
    using fresh_ids_extend [of "ist_db s" "map ic_id (ist_incidents s)" "ist_db t"] ok by (simp add: t n(3) incidents_ok_def)
  moreover have "distinct (active_fingerprints (ist_incidents t))" using none ok n(2) by (simp add: t(1) active_fingerprints_def incidents_ok_def)
  ultimately have "incidents_ok t" using ok fresh n by (auto simp: incidents_ok_def t(1,2) list_all_iff)
  moreover have "\<exists>x\<in>set (ist_incidents t). moves_on i x" if "i \<in> set (ist_incidents s)" for i
    by (rule bexI [of _ i]) (simp_all add: t(1) that)
  ultimately show ?thesis by (simp add: all_move_on_def list_all_iff list_ex_iff)
qed

lemma synthetic_resolved_ok:
  assumes ok: "incidents_ok s" and x: "x \<in> set (ist_incidents s)" "active_incident x" "take 15 (ic_fingerprint x) \<noteq> ''router-offline:''"
    and t: "ist_incidents t = update_where (\<lambda>i. ic_tenant i = ic_tenant x \<and> ic_id i = ic_id x) (resolved_by now resolution) (ist_incidents s)"
      "ist_impacts t = ist_impacts s" "next_id (ist_db s) \<le> next_id (ist_db t)"
  shows "incidents_ok t \<and> all_move_on s t"
proof (rule changed_incidents [OF ok t(1) [unfolded update_where_def] t(3)])
  have same: "i = x" if "i \<in> set (ist_incidents s)" "ic_id i = ic_id x" for i
    using ok that x(1) distinct_key_unique [of ic_id "ist_incidents s" i x] by (simp add: incidents_ok_def)
  fix i assume i: "i \<in> set (ist_incidents s)" "sound_incident i"
  then show "moves_on i (if ic_tenant i = ic_tenant x \<and> ic_id i = ic_id x then resolved_by now resolution i else i) \<and>
      sound_incident (if ic_tenant i = ic_tenant x \<and> ic_id i = ic_id x then resolved_by now resolution i else i)"
    using same [OF i(1)] x(2)
    by (cases "ic_status i") (auto simp: moves_on_def sound_incident_def resolved_by_def active_incident_def status_rank_def)
next
  fix m assume "m \<in> set (ist_impacts t)" "affected m"
  then obtain i where i: "i \<in> set (ist_incidents s)" "incident_key i = impact_key m" "has_impacts i" using affected_active [OF ok] t(2) by metis
  have "ic_id i \<noteq> ic_id x"
    using ok i(1,3) x(1,3) distinct_key_unique [of ic_id "ist_incidents s" i x] by (auto simp: incidents_ok_def has_impacts_def)
  then show "\<exists>i\<in>set (ist_incidents s). incident_key i = impact_key m \<and>
      has_impacts (if ic_tenant i = ic_tenant x \<and> ic_id i = ic_id x then resolved_by now resolution i else i)" using i by auto
qed

lemma sync_synthetic_incident_ok:
  assumes ok: "incidents_ok s" and env: "documented_defaults env" and run: "sync_synthetic_incident env now recent m r s = (q, t)"
  shows "incidents_ok t \<and> all_move_on s t"
proof -
  let ?Q = "\<lambda>i. ic_tenant i = mn_tenant m \<and> ic_fingerprint i = synthetic_key (mn_id m) \<and> active_incident i"
  show ?thesis
  proof (cases "select_one ?Q (ist_incidents s)")
    case (Some x)
    then have x: "x \<in> set (ist_incidents s)" "?Q x" by (auto dest: select_one_Some)
    let ?P = "\<lambda>i. ic_tenant i = mn_tenant m \<and> ic_id i = ic_id x"
    consider "t = s"
      | e where "t = announce now e (s\<lparr> ist_incidents := update_where ?P (fails_again now m r) (ist_incidents s) \<rparr>)"
      | e where "t = announce now e (resolve_where now ''Synthetic monitoring recovered'' ?P s)"
      using run Some by (auto simp: sync_synthetic_incident_def Let_def constrained_def split: if_splits option.splits)
    then show ?thesis
    proof cases
      case 1
      then show ?thesis using ok by simp
    next
      case 2
      show ?thesis
        by (rule touched_incidents [OF ok, of t ?P "fails_again now m r"])
          (auto simp: 2 fails_again_def moves_on_def sound_incident_def active_incident_def)
    next
      case 3
      show ?thesis
        by (rule synthetic_resolved_ok [OF ok x(1), where now = now and resolution = "''Synthetic monitoring recovered''"])
          (use x(2) in \<open>simp_all add: 3 resolve_where_def synthetic_key_def\<close>)
    qed
  next
    case None
    let ?n = "synthetic_incident env now (new_uuid (ist_db s)) m r"
    have n: "sound_incident ?n" "active_incident ?n" "ic_id ?n = new_uuid (ist_db s)" "ic_tenant ?n = mn_tenant m" "ic_fingerprint ?n = synthetic_key (mn_id m)"
      using env by (simp_all add: synthetic_incident_def sound_incident_def active_incident_def documented_defaults_def)
    have none: "(ic_tenant ?n, ic_fingerprint ?n) \<notin> set (active_fingerprints (ist_incidents s))"
      using None by (auto simp: n select_one_None active_fingerprints_def)
    consider "t = s" | e where "t = announce now e ((bump s)\<lparr> ist_incidents := insert_row ?n (ist_incidents s) \<rparr>)"
      using run None by (auto simp: sync_synthetic_incident_def Let_def constrained_def split: if_splits option.splits)
    then show ?thesis
    proof cases
      case 1
      then show ?thesis using ok by simp
    next
      case 2
      let ?u = "(bump s)\<lparr> ist_incidents := insert_row ?n (ist_incidents s) \<rparr>"
      have "incidents_ok ?u \<and> all_move_on s ?u"
        by (rule added_incident [OF ok, where n = ?n]) (use n(1-3) none in \<open>simp_all add: insert_row_def\<close>)
      then show ?thesis by (rule same_after) (simp_all add: 2)
    qed
  qed
qed

subsection \<open>Rounds of the workers\<close>

lemma escalate_ok:
  assumes ok: "incidents_ok s" and i: "i \<in> set (ist_incidents s)" "active_incident i" "ic_escalationLevel i < 3"
  shows "incidents_ok (escalate now s i) \<and> all_move_on s (escalate now s i)"
proof -
  let ?P = "\<lambda>x. ic_tenant x = ic_tenant i \<and> ic_id x = ic_id i"
  let ?f = "\<lambda>x. x\<lparr> ic_escalationLevel := ic_escalationLevel i + 1, ic_lastEscalatedAt := Some now, ic_updatedAt := now \<rparr>"
  have tables: "ist_incidents (escalate now s i) = update_where ?P ?f (ist_incidents s)" "ist_impacts (escalate now s i) = ist_impacts s"
    "next_id (ist_db s) \<le> next_id (ist_db (escalate now s i))" by (simp_all add: escalate_def Let_def)
  have same: "x = i" if "x \<in> set (ist_incidents s)" "?P x" for x
    using ok that i(1) distinct_key_unique [of ic_id "ist_incidents s" x i] by (simp add: incidents_ok_def)
  show ?thesis
  proof (rule touched_incidents [OF ok tables])
    fix x assume x: "x \<in> set (ist_incidents s)" "?P x" "sound_incident x"
    then have "x = i" using same by blast
    then show "moves_on x (?f x) \<and> sound_incident (?f x) \<and> (active_incident x \<longrightarrow> active_incident (?f x))"
      using i(2,3) x(3) by (auto simp: moves_on_def sound_incident_def active_incident_def)
  qed
qed

lemma escalate_others:
  assumes "j \<in> set (ist_incidents s)" and "ic_id j \<noteq> ic_id i"
  shows "j \<in> set (ist_incidents (escalate now s i))"
  using assms by (auto simp: escalate_def Let_def in_update_where)

lemma escalations_ok:
  assumes "incidents_ok s" and "distinct (map ic_id is)" and "\<And>i. i \<in> set is \<Longrightarrow> i \<in> set (ist_incidents s) \<and> active_incident i \<and> ic_escalationLevel i < 3"
  shows "incidents_ok (foldl (escalate now) s is) \<and> all_move_on s (foldl (escalate now) s is)"
  using assms
proof (induction "is" arbitrary: s)
  case Nil
  then show ?case by simp
next
  case (Cons i "is")
  have i: "i \<in> set (ist_incidents s)" "active_incident i" "ic_escalationLevel i < 3" using Cons.prems(3) [of i] by simp_all
  note first = escalate_ok [OF Cons.prems(1) i, of now]
  have "incidents_ok (foldl (escalate now) (escalate now s i) is) \<and> all_move_on (escalate now s i) (foldl (escalate now) (escalate now s i) is)"
  proof (rule Cons.IH)
    fix j assume j: "j \<in> set is"
    then have "ic_id j \<in> set (map ic_id is)" by simp
    moreover have "ic_id i \<notin> set (map ic_id is)" using Cons.prems(2) by simp
    ultimately have "ic_id j \<noteq> ic_id i" by metis
    then show "j \<in> set (ist_incidents (escalate now s i)) \<and> active_incident j \<and> ic_escalationLevel j < 3"
      using Cons.prems(3) [of j] j escalate_others by simp
  qed (use first Cons.prems(2) in simp_all)
  then show ?case using first all_move_on_trans by simp blast
qed

lemma due_rows:
  assumes "incidents_ok s"
  shows "distinct (map ic_id (due_incidents env now s))"
    and "i \<in> set (due_incidents env now s) \<Longrightarrow> i \<in> set (ist_incidents s) \<and> escalation_due env now s i"
proof -
  let ?sorted = "sort_key (\<lambda>i. (severity_rank (ic_severity i), ic_startedAt i)) (select (escalation_due env now s) (ist_incidents s))"
  have "distinct (map ic_id (select (escalation_due env now s) (ist_incidents s)))"
    using assms by (simp add: incidents_ok_def select_def distinct_map_filter)
  then have "distinct (map ic_id ?sorted)" by (simp add: distinct_map)
  then show "distinct (map ic_id (due_incidents env now s))" unfolding due_incidents_def order_limit_def take_map [symmetric] by (rule distinct_take)
  show "i \<in> set (due_incidents env now s) \<Longrightarrow> i \<in> set (ist_incidents s) \<and> escalation_due env now s i"
    using set_order_limit unfolding due_incidents_def by fastforce
qed

lemma announcements_tables:
  "ist_incidents (foldl (\<lambda>t i. announce now (f i) t) s is) = ist_incidents s \<and> ist_impacts (foldl (\<lambda>t i. announce now (f i) t) s is) = ist_impacts s \<and>
   next_id (ist_db s) \<le> next_id (ist_db (foldl (\<lambda>t i. announce now (f i) t) s is))"
proof (induction "is" arbitrary: s)
  case Nil
  then show ?case by simp
next
  case (Cons i "is")
  show ?case using Cons.IH [of "announce now (f i) s"] by simp
qed

lemma escalation_tick_ok:
  assumes ok: "incidents_ok s"
  shows "incidents_ok (escalation_tick env locked now s) \<and> all_move_on s (escalation_tick env locked now s)"
proof (cases locked)
  case False
  then show ?thesis using ok by (simp add: escalation_tick_def)
next
  case True
  let ?due = "due_incidents env now s"
  have "incidents_ok (foldl (escalate now) s ?due) \<and> all_move_on s (foldl (escalate now) s ?due)"
    by (rule escalations_ok [OF ok due_rows(1) [OF ok]]) (use due_rows(2) [OF ok] in \<open>auto simp: escalation_due_def\<close>)
  then show ?thesis
    by (rule same_after) (use announcements_tables [of now escalation_event "foldl (escalate now) s ?due" ?due] True in \<open>simp_all add: escalation_tick_def Let_def\<close>)
qed

lemma audit_windows_tables:
  "ist_incidents (audit_windows now action ws s) = ist_incidents s \<and> ist_impacts (audit_windows now action ws s) = ist_impacts s \<and>
   next_id (ist_db s) \<le> next_id (ist_db (audit_windows now action ws s))"
proof (induction ws arbitrary: s)
  case Nil
  then show ?case by (simp add: audit_windows_def)
next
  case (Cons w ws)
  let ?t = "system_audit now (mw_tenant w) action ''maintenance_window'' (mw_id w)
     (jobject [(''title'', Some (JStr (mw_title w))), (''automated'', Some (JBool True))]) s"
  show ?case using Cons.IH [of ?t] by (simp add: audit_windows_def)
qed

lemma set_window_status_tables [simp]:
  "ist_incidents (set_window_status P st s) = ist_incidents s" "ist_impacts (set_window_status P st s) = ist_impacts s"
  "ist_db (set_window_status P st s) = ist_db s"
  by (simp_all add: set_window_status_def)

lemma window_tick_ok:
  assumes "incidents_ok s"
  shows "incidents_ok (window_tick now s) \<and> all_move_on s (window_tick now s)"
  by (rule same_incidents [OF assms])
    (auto simp: window_tick_def Let_def audit_windows_tables intro!: order_trans [OF _ conjunct2 [OF conjunct2 [OF audit_windows_tables]]])

lemma page_operations_ok:
  assumes "incidents_ok s"
  shows "create_maintenance_window env iso_text now tenant actor dto ctx s = (a, t) \<Longrightarrow> incidents_ok t \<and> all_move_on s t"
    and "cancel_maintenance_window env now tenant i ctx s = (b, t) \<Longrightarrow> incidents_ok t \<and> all_move_on s t"
    and "update_status_page_settings env now tenant actor sdto ctx s = (c, t) \<Longrightarrow> incidents_ok t \<and> all_move_on s t"
    and "update_status_page_component env now tenant actor k cdto ctx s = (d, t) \<Longrightarrow> incidents_ok t \<and> all_move_on s t"
proof -
  have frame: "incidents_ok t \<and> all_move_on s t"
    if "ist_incidents t = ist_incidents s \<and> ist_impacts t = ist_impacts s \<and> next_id (ist_db s) \<le> next_id (ist_db t)" for t
    using same_incidents [OF assms] that by blast
  show "create_maintenance_window env iso_text now tenant actor dto ctx s = (a, t) \<Longrightarrow> incidents_ok t \<and> all_move_on s t"
    by (rule frame) (auto simp: create_maintenance_window_def constrained_def Let_def split: option.splits if_splits)
  show "cancel_maintenance_window env now tenant i ctx s = (b, t) \<Longrightarrow> incidents_ok t \<and> all_move_on s t"
    by (rule frame) (auto simp: cancel_maintenance_window_def Let_def split: option.splits)
  show "update_status_page_settings env now tenant actor sdto ctx s = (c, t) \<Longrightarrow> incidents_ok t \<and> all_move_on s t"
    by (rule frame) (auto simp: update_status_page_settings_def constrained_def Let_def split: option.splits if_splits)
  show "update_status_page_component env now tenant actor k cdto ctx s = (d, t) \<Longrightarrow> incidents_ok t \<and> all_move_on s t"
    by (rule frame) (auto simp: update_status_page_component_def constrained_def Let_def split: option.splits if_splits)
qed

subsection \<open>The lifecycle\<close>

text \<open>A step: an operation of the service, a round of a worker, or a write of another service to the shared tables\<close>

inductive incident_step :: "incident_state \<Rightarrow> incident_state \<Rightarrow> bool" where
  step_others: "next_id (ist_db s) \<le> next_id d \<Longrightarrow> incident_step s (s\<lparr> ist_db := d, ist_staff := us, ist_locations := ls \<rparr>)"
| step_synced: "documented_defaults env \<Longrightarrow> incident_step s (snd (sync_router_offline env now tenant router ctx s))"
| step_recovered: "incident_step s (snd (resolve_router_offline env now tenant router ctx s))"
| step_acknowledged: "incident_step s (snd (acknowledge env now tenant i ctx s))"
| step_resolved: "incident_step s (snd (resolve_incident env now tenant i resolution ctx s))"
| step_owned: "incident_step s (snd (assign_owner env now tenant i owner ctx s))"
| step_published: "incident_step s (snd (set_public_visibility env now tenant i visible summary ctx s))"
| step_escalated: "incident_step s (escalation_tick env locked now s)"
| step_synthetic: "documented_defaults env \<Longrightarrow> incident_step s (snd (sync_synthetic_incident env now recent m r s))"
| step_window: "incident_step s (snd (create_maintenance_window env iso_text now tenant actor dto ctx s))"
| step_canceled: "incident_step s (snd (cancel_maintenance_window env now tenant i ctx s))"
| step_windows: "incident_step s (window_tick now s)"
| step_page: "incident_step s (snd (update_status_page_settings env now tenant actor sdto ctx s))"
| step_component: "incident_step s (snd (update_status_page_component env now tenant actor k cdto ctx s))"

lemma incident_step_ok:
  assumes "incident_step s t" and ok: "incidents_ok s"
  shows "incidents_ok t \<and> all_move_on s t"
  using assms(1)
proof cases
  case (step_others d us ls)
  then show ?thesis by (intro same_incidents [OF ok]) simp_all
next
  case (step_synced env now tenant router ctx)
  then show ?thesis using sync_router_offline_ok [OF ok] by (metis prod.collapse)
next
  case (step_recovered env now tenant router ctx)
  then show ?thesis using resolve_router_offline_ok [OF ok] by (metis prod.collapse)
next
  case (step_acknowledged env now tenant i ctx)
  then show ?thesis using acknowledge_ok [OF ok] by (metis prod.collapse)
next
  case (step_resolved env now tenant i resolution ctx)
  then show ?thesis using resolve_incident_ok [OF ok] by (metis prod.collapse)
next
  case (step_owned env now tenant i owner ctx)
  then show ?thesis using assign_owner_ok [OF ok] by (metis prod.collapse)
next
  case (step_published env now tenant i visible summary ctx)
  then show ?thesis using set_public_visibility_ok [OF ok] by (metis prod.collapse)
next
  case (step_escalated env locked now)
  then show ?thesis using escalation_tick_ok [OF ok] by simp
next
  case (step_synthetic env now recent m r)
  then show ?thesis using sync_synthetic_incident_ok [OF ok] by (metis prod.collapse)
next
  case (step_window env iso_text now tenant actor dto ctx)
  then show ?thesis using page_operations_ok(1) [OF ok] by (metis prod.collapse)
next
  case (step_canceled env now tenant i ctx)
  then show ?thesis using page_operations_ok(2) [OF ok] by (metis prod.collapse)
next
  case (step_windows now)
  then show ?thesis using window_tick_ok [OF ok] by simp
next
  case (step_page env now tenant actor sdto ctx)
  then show ?thesis using page_operations_ok(3) [OF ok] by (metis prod.collapse)
next
  case (step_component env now tenant actor k cdto ctx)
  then show ?thesis using page_operations_ok(4) [OF ok] by (metis prod.collapse)
qed

lemma incident_steps_ok: "incident_step\<^sup>*\<^sup>* s t \<Longrightarrow> incidents_ok s \<Longrightarrow> incidents_ok t \<and> all_move_on s t"
proof (induction rule: rtranclp_induct)
  case base
  then show ?case by simp
next
  case (step t u)
  then show ?case using incident_step_ok [of t u] all_move_on_trans [of s t u] by blast
qed


text \<open>Every operation of the synthetic monitoring is a run of such steps on the tables of the incidents.\<close>

lemma incident_step_db: "next_id (ist_db s) \<le> next_id d \<Longrightarrow> incident_step s (s\<lparr> ist_db := d \<rparr>)"
  using step_others [where s = s and d = d and us = "ist_staff s" and ls = "ist_locations s"] by simp

lemma monitor_audit_steps:
  assumes "incident_step\<^sup>*\<^sup>* b (yt_base s)"
  shows "incident_step\<^sup>*\<^sup>* b (yt_base (monitor_audit env now tenant action i metadata ctx s))"
proof -
  have "incident_step (yt_base s) (yt_base (monitor_audit env now tenant action i metadata ctx s))"
    by (simp add: monitor_audit_def incident_audit_def audit_record_def incident_step_db)
  with assms show ?thesis by (rule rtranclp.rtrancl_into_rtrancl)
qed

lemma bump_step: "incident_step s (bump s)"
  by (simp add: bump_def incident_step_db)

lemma check_and_record_steps:
  assumes "documented_defaults (ye_incidents env)" and "check_and_record env now m s = (v, t)"
  shows "incident_step\<^sup>*\<^sup>* (yt_base s) (yt_base t)"
proof -
  let ?r = "check_target env m" and ?at = "now + ye_elapsed env m"
  obtain q s1 where saved: "save_result env ?at m ?r s = (q, s1)" by fastforce
  then have first: "incident_step\<^sup>*\<^sup>* (yt_base s) (yt_base s1)"
    using bump_step by (auto simp: save_result_def constrained_def split: option.splits)
  show ?thesis
  proof (cases q)
    case (Inl e)
    then show ?thesis using assms(2) saved first by (simp add: check_and_record_def Let_def)
  next
    case (Inr u)
    then obtain recent where "yt_base t = snd (sync_synthetic_incident (ye_incidents env) ?at recent m ?r (yt_base s1))"
      using assms(2) saved by (auto simp: check_and_record_def Let_def)
    then show ?thesis using first step_synthetic [OF assms(1)] by (metis rtranclp.rtrancl_into_rtrancl)
  qed
qed

lemma check_each_steps:
  assumes "documented_defaults (ye_incidents env)"
  shows "incident_step\<^sup>*\<^sup>* (yt_base s) (yt_base (snd (check_each env now ms s)))"
proof (induction ms arbitrary: s)
  case (Cons m ms)
  obtain v s1 where first: "check_and_record env now m s = (v, s1)" by fastforce
  then show ?case using check_and_record_steps [OF assms first] Cons.IH [of s1] by (simp add: split_def Let_def)
qed simp

lemma monitoring_steps:
  assumes "documented_defaults (ye_incidents env)"
  shows "incident_step\<^sup>*\<^sup>* (yt_base s) (yt_base (snd (run_due_checks env now s)))"
    and "incident_step\<^sup>*\<^sup>* (yt_base s) (yt_base (snd (check_now env now tenant i s)))"
    and "incident_step\<^sup>*\<^sup>* (yt_base s) (yt_base (snd (create_monitor env now tenant actor dto ctx s)))"
    and "incident_step\<^sup>*\<^sup>* (yt_base s) (yt_base (snd (set_monitor_enabled env now tenant i enabled ctx s)))"
proof -
  show "incident_step\<^sup>*\<^sup>* (yt_base s) (yt_base (snd (run_due_checks env now s)))"
    using check_each_steps [OF assms, of "s\<lparr> yt_monitors := x \<rparr>" for x] by (simp add: run_due_checks_def Let_def)
  show "incident_step\<^sup>*\<^sup>* (yt_base s) (yt_base (snd (check_now env now tenant i s)))"
    using check_and_record_steps [OF assms] by (auto simp: check_now_def split: option.split) (metis prod.collapse)
  show "incident_step\<^sup>*\<^sup>* (yt_base s) (yt_base (snd (create_monitor env now tenant actor dto ctx s)))"
    by (auto simp: create_monitor_def constrained_def Let_def bump_step split: sum.split option.split intro!: monitor_audit_steps)
  show "incident_step\<^sup>*\<^sup>* (yt_base s) (yt_base (snd (set_monitor_enabled env now tenant i enabled ctx s)))"
    by (auto simp: set_monitor_enabled_def Let_def intro!: monitor_audit_steps)
qed

definition plain_incident :: incident where
  "plain_incident = \<lparr> ic_tenant = ''t'', ic_id = ''0'', ic_fingerprint = ''router-offline:r'', ic_category = ''DEVICE_OFFLINE'', ic_severity = SV_CRITICAL,
     ic_status = IN_OPEN, ic_title = ''r is offline'', ic_summary = None, ic_rootType = Some ''ROUTER'', ic_rootId = Some ''r'', ic_startedAt = 0,
     ic_lastSeenAt = 0, ic_acknowledgedAt = None, ic_resolvedAt = None, ic_resolution = None, ic_evidence = JObj [], ic_ownerUserId = None,
     ic_slaTargetMinutes = 60, ic_escalationLevel = 1, ic_lastEscalatedAt = Some 0, ic_publicVisible = False, ic_publicSummary = None, ic_createdAt = 0,
     ic_updatedAt = 0 \<rparr>"

definition plain_state :: incident_state where
  "plain_state = \<lparr> ist_db = empty_db\<lparr> next_id := 1 \<rparr>, ist_staff = [], ist_locations = [], ist_incidents = [plain_incident],
     ist_impacts = [add_impact ''t'' ''0'' ''ROUTER'' (Some ''r'') ''INFRASTRUCTURE'' None JNull 0], ist_events = [], ist_windows = [], ist_settings = [],
     ist_components = [] \<rparr>"

definition plain_env :: incident_env where
  "plain_env = \<lparr> ie_cid = None, ie_routerName = ro_id, ie_siteLocation = (\<lambda>_. None), ie_defaults = (\<lambda>_. plain_incident), ie_newWindow = MW_PLANNED,
     ie_violation = (\<lambda>_. None), ie_date = (\<lambda>_. None) \<rparr>"

lemma plain_state_ok: "incidents_ok plain_state"
proof -
  have "fresh_ids (ist_db plain_state) [''0'']"
  proof -
    have "n < 1" if "''0'' = nat_str n" for n using that nat_str_inj [of 0 n] by (simp add: nat_str_0)
    then show ?thesis by (simp add: fresh_ids_def plain_state_def)
  qed
  then show ?thesis
    by (simp add: incidents_ok_def plain_state_def plain_incident_def sound_incident_def active_fingerprints_def active_incident_def add_impact_def
          affected_def has_impacts_def incident_key_def impact_key_def)
qed

definition plain_resolved :: incident_state where
  "plain_resolved = snd (resolve_incident plain_env 9 ''t'' ''0'' ''cable replaced'' no_context (snd (acknowledge plain_env 5 ''t'' ''0'' no_context plain_state)))"


text \<open>
  The report on service levels counts the impacts that are still affected, but resolving an incident marks all its impacts as recovered: a resolved
  incident enters the report without revenue and without customers.
\<close>

lemma resolved_incidents_report_no_impact:
  assumes ok: "incidents_ok s" and i: "i \<in> set (ist_incidents s)" "ic_status i = IN_RESOLVED"
  shows "revenue_impact s i = 0 \<and> customer_impact s i = 0"
proof -
  have "\<not> (affected m \<and> im_tenant m = ic_tenant i \<and> im_incidentId m = ic_id i)" if mem: "m \<in> set (ist_impacts s)" for m
  proof
    assume m: "affected m \<and> im_tenant m = ic_tenant i \<and> im_incidentId m = ic_id i"
    obtain j where j: "j \<in> set (ist_incidents s)" "incident_key j = impact_key m" "has_impacts j" using affected_active [OF ok mem] m by blast
    have "j = i" using ok i(1) j(1,2) m distinct_key_unique [of ic_id "ist_incidents s" j i]
      by (simp add: incidents_ok_def incident_key_def impact_key_def)
    then show False using j(3) i(2) by (simp add: has_impacts_def active_incident_def)
  qed
  then have "open_impacts s i = []" by (auto simp: open_impacts_def impacts_of_def select_def filter_empty_conv)
  then show ?thesis by (simp add: revenue_impact_def customer_impact_def revenue_of_def List.map_filter_def)
qed

end
