(* ===== verification/Spec2Isabelle.thy ===== *)
theory Spec2Isabelle
  imports Fairness LoadBalancing NetworkCommands DomainEvents Enforcement CommandWorker ServicePolicy Promotions
    Ipam Payments Purchases Vouchers Histories Radius FieldJobs WorkflowRuns PublicAddresses
    Collector Orchestration WanRouting IncidentHistory
begin

text \<open>
  Jaslyn Net is the back end of an internet service provider: a NestJS application
  (\<open>src/apps/api/src\<close>) over one PostgreSQL database, with a web console (\<open>src/apps/web\<close>). This development
  models the services that decide who gets on the network, how fast, and who has paid for it.

  \<^bold>\<open>The parts and how they work together.\<close> A customer orders a package (\<open>purchases/purchases.service.ts\<close>),
  perhaps with a promotion code (\<open>promotions/\<close>), and pays (\<open>payments/\<close>), or redeems a voucher (\<open>vouchers/\<close>).
  The confirmation settles the payment in the ledger, compiles the package to a network policy
  (\<open>modules/traffic/network-policy.compiler.ts\<close>) and stores an access grant. Sessions (\<open>sessions/\<close>) start under a
  grant. A collector reads the clients of each router and stores their counters as traffic samples
  (\<open>modules/traffic/traffic-collector.service.ts\<close>); the orchestrator (\<open>traffic-orchestrator.service.ts\<close>) measures the
  sessions by them, asks for the service each customer has, and gives the demand to the fairness engine
  (\<open>modules/traffic/fairness.engine.ts\<close>), whose decision becomes bandwidth commands; they are written to the command journal
  (\<open>modules/traffic/network-command.service.ts\<close>), sent to the devices by the enforcement service or by the command
  worker, and verified. What happens on the way is announced in the outbox of domain events
  (\<open>communication/communication.domain-events.ts\<close>), in text messages (\<open>notifications/\<close>) and in the audit
  trail (\<open>audit/\<close>). Customers with a fixed service have access bindings and a service state
  (\<open>isp-operations/\<close>), which a scheduler lets expire, and log in through the RADIUS server (\<open>radius/\<close>). The secrets
  of devices and tenants are sealed (\<open>common/\<close>, \<open>secrets-vault/\<close>). Technicians work on jobs, also offline
  (\<open>isp-operations/\<close>), and tenants automate reactions to events by workflows (\<open>workflows/\<close>), which send messages, call
  integrations and ask for approvals. Routers with several connections to the internet are balanced by policies
  (\<open>modules/traffic/load-balancing.service.ts\<close>), which MikroTik routers receive as routes. A router that goes offline opens
  an incident (\<open>incidents/\<close>), which escalates until it is resolved and may be shown, with maintenance windows and the
  state of components, on a public status page.

  \<^bold>\<open>The theories.\<close>
  \<^item> \<open>Prelude\<close>: exceptions as values, operations as functions from the database to a result and a database,
    transactions, loops that await, tables as lists of rows with \<open>UPDATE\<close>, \<open>SELECT\<close>, \<open>INSERT\<close>, \<open>ORDER BY \<dots> LIMIT\<close>.
  \<^item> \<open>JsValues\<close>: the values of the language the services use: JSON, \<open>jsonb\<close>, trimming and case, numbers that may be
    \<open>NaN\<close> or infinite, \<open>Math.trunc\<close> and \<open>Math.round\<close>, clamping of limits.
  \<^item> \<open>Inet\<close>: addresses and networks of IPv4 and IPv6 as words. \<open>Schema\<close>: a record per table, and the database.
  \<^item> \<open>Journal\<close>: the interface of a table with a unique key and \<open>INSERT \<dots> ON CONFLICT DO NOTHING\<close> (locale
    \<open>keyed_journal\<close>) and of one that is also worked off in place (\<open>keyed_queue\<close>), with the lemmas about keys, growth and
    presence. Commands, events, messages, payment events, ledger transactions, deliveries, campaigns and
    redemptions interpret it.
  \<^item> \<open>Fairness\<close> (\<open>fairness.engine.ts\<close>, \<open>fairness.service.ts\<close>, \<open>fairness.policy.ts\<close>): normalisation, the mode, the
    allocation and the two loops of the weighted filling. Lemmas: every allocation lies between zero and the demand,
    their sum stays within the capacity, demand that fits is met, equal users.
  \<^item> \<open>LoadBalancing\<close> (\<open>load-balancing.engine.ts\<close>, \<open>wan-health-state.ts\<close>, \<open>load-balancing.capabilities.ts\<close>): the choice of
    WAN members and the health state machine.
  \<^item> \<open>AuditTrail\<close> (\<open>audit.service.ts\<close>): sanitising of metadata, the hash chain and its check; the hash is a parameter.
  \<^item> \<open>NetworkCommands\<close> (\<open>network-command.service.ts\<close>): the journal of device commands, its states and every operation, as
    a step relation with invariants. \<open>CommandWorker\<close> (\<open>network-command-worker.service.ts\<close>): a round of the worker.
    \<open>Enforcement\<close> (\<open>enforcement.service.ts\<close>): commands from a fairness decision (locale \<open>rate_allocator\<close>, interpreted on
    the engine), their execution, verification and settlement, and disconnecting a client.
  \<^item> \<open>DomainEvents\<close>: the outbox of events. \<open>Notifications\<close>: the outbox of messages, campaigns and the SMS worker.
  \<^item> \<open>ServicePolicy\<close> (\<open>network-policy.compiler.ts\<close>, \<open>service-policy.ts\<close>, \<open>traffic.measurement.ts\<close>): compiling a plan and
    deciding about a running service.
  \<^item> \<open>Promotions\<close>, \<open>Payments\<close>, \<open>Purchases\<close>, \<open>Vouchers\<close>, \<open>Ipam\<close>, \<open>Sessions\<close>: the services of these names, with
    all their operations.
  \<^item> \<open>AccessState\<close> (\<open>isp-operations.service.ts\<close>, \<open>customer-service-state.service.ts\<close>) and \<open>Expiry\<close>
    (\<open>isp-expiry.service.ts\<close>): bindings and service states with their histories, and a round of the scheduler.
    \<open>Histories\<close>: the recorded events replay to the states.
  \<^item> \<open>Texts\<close>: splitting, hexadecimal digits, UUIDs, and numbers read from texts. \<open>Vault\<close>
    (\<open>secure-network-credentials.ts\<close>, \<open>secure-secret-vault.ts\<close>): rings of keys and envelopes; the locale \<open>sealed_box\<close> is
    interpreted on both. \<open>SecretVault\<close> (\<open>secrets-vault.service.ts\<close>): the vault refines a map, and keys can be
    rotated.
  \<^item> \<open>RadiusProtocol\<close> (\<open>radius.protocol.ts\<close>): the packet codec; the parser ends and is exact, answers parse back.
    \<open>Radius\<close> (\<open>radius.service.ts\<close>): authentication, accounting, credentials and disconnecting; who is let in.
  \<^item> \<open>FieldJobs\<close> (\<open>isp-operations.service.ts\<close>): sites, jobs, offline synchronisation and photos; what was synchronised
    twice, and events that replay to the status.
  \<^item> \<open>WorkflowSteps\<close>, \<open>Workflows\<close>, \<open>WorkflowRuns\<close> (\<open>workflows.service.ts\<close>): validation of steps and the payload as a
    store of shared objects; definitions and triggers; the interpreter, rounds, approvals, integrations and webhooks.
    Runs, alerts, approvals and receipts interpret the interfaces of \<open>Journal\<close>; rounds settle, ended runs stay.
    \<open>PublicAddresses\<close>: the checks of an integration's address agree with networks of words.
  \<^item> \<open>TrafficSamples\<close> (\<open>traffic-samples.service.ts\<close>) and \<open>Collector\<close> (\<open>traffic-collector.service.ts\<close>): recording counters, and a
    round over the routers: which sessions it wakes, what it leaves of every router.
  \<^item> \<open>UrlTexts\<close> and \<open>Orchestration\<close> (\<open>traffic-orchestrator.service.ts\<close>): measuring the sessions of a router, the evaluation, its
    dry run, and its enforcement with the events it leaves; the enforced rates fit the capacity.
  \<^item> \<open>MikrotikRouting\<close> (\<open>mikrotik-wan-routing.adapter.ts\<close>): writing and verifying routes, under the law \<open>route_table\<close> of a device
    that keeps a table of routes, proved of one. \<open>WanRouting\<close> (\<open>load-balancing.service.ts\<close>): connections,
    policies, health checks and rebalancing, with the references between their tables as invariant.
  \<^item> \<open>Incidents\<close> (\<open>incidents.service.ts\<close>, \<open>incident-escalation.worker.ts\<close>), \<open>StatusPage\<close> (windows, their worker and the
    public page: non-interference for unpublished data) and \<open>IncidentHistory\<close>: the step relation of all these
    operations, the order of the tables, and what may become of an incident.

  \<^bold>\<open>Correspondence.\<close> An operation of a service is a function of the same name (in lower case with underscores) from its
  arguments, the time \<open>now\<close> at which it runs, the correlation identifier of the request where the code reads it, and the
  database, to \<open>Inl\<close> of the exception or \<open>Inr\<close> of the result, and the database it leaves behind. A function whose
  failure is an exception of a transaction leaves the database as it was. Rows are records of the columns the
  services read or write; columns that only serve display are left out. Identifiers made by the database are texts of a
  counter, so they are new. The tables of WAN routing and of incidents stand in records of their own beside the shared
  database (\<open>wan_state\<close>, \<open>incident_state\<close>); times are integers in milliseconds; amounts and rates are exact rationals, where the code uses
  binary floating point numbers or \<open>numeric\<close>.

  \<^bold>\<open>What is a parameter.\<close> Code outside the repository is an argument of the definitions that use it: the hash and
  HMAC functions, encryption of credentials, random bytes, the text of times and amounts, the parsing of networks and URLs, name
  resolution and requests to other services, the device drivers (\<open>adapters\<close>), the SMS gateway, the reading of dates, and the casts, column defaults, unique
  indexes and other constraints of tables the repository does not define. The
  properties hold for all of them, or state what they need as a hypothesis with a witness.

  \<^bold>\<open>Bounds and loops.\<close> No definition needs fuel: the filling loops of the engine recurse on the list of users that are
  left, the interpreter of a workflow on the steps that are left, the blocks of a password and the other loops on a list. The
  loop over the attributes of a packet is a \<open>partial_function\<close>, proved to end on every input. A payload is written as
  text through at most as many nested objects as its store has; a deeper path goes in a circle, where the code
  throws as well. Limits of queries are clamped as in the code; the number of attempts is eight for events,
  messages and runs.

  \<^bold>\<open>The properties\<close> are the theorems with a block that starts with C and a number. The invariants and the safety
  properties are about every sequence of steps of a component; the settlement, confirmation and redemption theorems state
  what one operation does on every branch, errors included, and what a repetition does. Some theorems show that the code
  does not do what it is meant to do; each of them is listed with the findings.

  \<^bold>\<open>Not modelled.\<close> Operations run one after the other: the locks of the database, races between instances and the
  timers that start the workers are left out, as are logging and the HTTP layer with its validation of input shapes.
  Services that only store and list records (procurement, finance, access control and others), the drivers
  of the device vendors except the routes of MikroTik, the SMS and chat connectors and the web console are not modelled; the
  list of components in the manifest gives the reason for each.
\<close>

end
